(* ===== verification/Prelude.thy ===== *)
theory Prelude
  imports Main "HOL-Library.Word" "HOL-Library.Char_ord"
begin

text \<open>
  Shared vocabulary of the development: the fixed-width integer types of the C sources
  (\<^verbatim>\<open>stdint.h\<close> names), source spans (\<^verbatim>\<open>utils/span.h\<close>), the three standard library
  conversions the compiler relies on (decimal printing as in \<^verbatim>\<open>printf("%zu")\<close> and
  \<^verbatim>\<open>strtoull(s, NULL, 10)\<close>), and the generic facts on lists, options and words that the
  components share.
  A C string is a \<open>string\<close> without its terminating NUL.
\<close>

unbundle bit_operations_syntax

named_theorems sf_simps \<open>component facts used as rewrite rules by the component proofs\<close>
named_theorems sf_intros \<open>component facts used as introduction rules\<close>

section \<open>Machine integers and spans\<close>

type_synonym uint8 = "8 word"
type_synonym uint32 = "32 word"
type_synonym uint64 = "64 word"
type_synonym int64 = "64 word"

abbreviation UINT8_MAX :: nat where "UINT8_MAX \<equiv> 255"
abbreviation UINT32_MAX :: nat where "UINT32_MAX \<equiv> 4294967295"
abbreviation SIZE_MAX :: nat where "SIZE_MAX \<equiv> 18446744073709551615"

text \<open>\<^verbatim>\<open>sf_span\<close>: line and column count from 1; \<open>sf_span_zero\<close> is the C initialiser
  \<^verbatim>\<open>(sf_span){0}\<close>.\<close>

record sf_span =
  sp_line :: nat
  sp_col :: nat
  sp_len :: nat

definition sf_span_zero :: sf_span where
  "sf_span_zero = \<lparr>sp_line = 0, sp_col = 0, sp_len = 0\<rparr>"

section \<open>Decimal printing\<close>

definition digit_char :: "nat \<Rightarrow> char" where
  "digit_char d = char_of (48 + d)"

lemma digit_char_simps [simp]:
  "digit_char 0 = CHR ''0''" "digit_char (Suc 0) = CHR ''1''" "digit_char 2 = CHR ''2''"
  "digit_char 3 = CHR ''3''" "digit_char 4 = CHR ''4''" "digit_char 5 = CHR ''5''"
  "digit_char 6 = CHR ''6''" "digit_char 7 = CHR ''7''" "digit_char 8 = CHR ''8''"
  "digit_char 9 = CHR ''9''"
  by (simp_all add: digit_char_def char_of_def bit_Suc_0_iff)

fun dec_digits :: "nat \<Rightarrow> string" where
  "dec_digits n = (if n < 10 then [digit_char n] else dec_digits (n div 10) @ [digit_char (n mod 10)])"

declare dec_digits.simps [simp del]

definition is_dec_digit :: "char \<Rightarrow> bool" where
  "is_dec_digit c \<longleftrightarrow> CHR ''0'' \<le> c \<and> c \<le> CHR ''9''"

fun dec_value :: "nat \<Rightarrow> string \<Rightarrow> nat" where
  "dec_value acc [] = acc"
| "dec_value acc (c # cs) = dec_value (acc * 10 + (of_char c - 48)) cs"

lemma of_char_digit_char: "d < 10 \<Longrightarrow> of_char (digit_char d) = 48 + d"
  by (simp add: digit_char_def)

lemma is_dec_digit_iff: "is_dec_digit c \<longleftrightarrow> 48 \<le> (of_char c :: nat) \<and> (of_char c :: nat) \<le> 57"
  by (simp add: is_dec_digit_def less_eq_char_def)

lemma is_dec_digit_digit_char [simp]: "d < 10 \<Longrightarrow> is_dec_digit (digit_char d)"
  by (simp add: is_dec_digit_iff of_char_digit_char)

lemma dec_digits_nonempty [simp]: "dec_digits n \<noteq> []"
  by (subst dec_digits.simps) simp

lemma dec_digits_digits: "\<forall>c \<in> set (dec_digits n). is_dec_digit c"
proof (induction n rule: dec_digits.induct)
  case (1 n)
  then show ?case
    by (cases "n < 10") (auto simp: dec_digits.simps [of n])
qed

lemma dec_value_append: "dec_value acc (xs @ ys) = dec_value (dec_value acc xs) ys"
  by (induction xs arbitrary: acc) auto

lemma dec_value_dec_digits [simp]: "dec_value 0 (dec_digits n) = n"
proof (induction n rule: dec_digits.induct)
  case (1 n)
  then show ?case
    by (cases "n < 10")
       (auto simp: dec_digits.simps [of n] dec_value_append of_char_digit_char)
qed

lemma dec_digits_inject [simp]: "dec_digits m = dec_digits n \<longleftrightarrow> m = n"
  by (metis dec_value_dec_digits)

section \<open>\<^verbatim>\<open>strtoull\<close> with base 10\<close>

text \<open>
  White space, an optional sign and the longest run of decimal digits; no digit yields 0.
  \<open>None\<close> stands for \<^verbatim>\<open>errno == ERANGE\<close>. A minus sign negates in 64-bit arithmetic.
\<close>

definition c_isspace :: "char \<Rightarrow> bool" where
  "c_isspace c \<longleftrightarrow> c = CHR '' '' \<or> (9 \<le> (of_char c :: nat) \<and> (of_char c :: nat) \<le> 13)"

definition strtoull10 :: "string \<Rightarrow> uint64 option" where
  "strtoull10 s =
     (let s1 = dropWhile c_isspace s;
          neg = (s1 \<noteq> [] \<and> hd s1 = CHR ''-'');
          s2 = (if s1 \<noteq> [] \<and> (hd s1 = CHR ''-'' \<or> hd s1 = CHR ''+'') then tl s1 else s1);
          v = dec_value 0 (takeWhile is_dec_digit s2)
      in if 2 ^ 64 \<le> v then None
         else Some (if neg then - of_nat v else of_nat v))"

lemma dec_digits_hd:
  "\<exists>c cs. dec_digits n = c # cs \<and> is_dec_digit c"
proof -
  obtain c cs where "dec_digits n = c # cs" by (meson dec_digits_nonempty list.exhaust)
  with dec_digits_digits [of n] show ?thesis by auto
qed

lemma is_dec_digit_not_special:
  "is_dec_digit c \<Longrightarrow> \<not> c_isspace c \<and> c \<noteq> CHR ''-'' \<and> c \<noteq> CHR ''+''"
  by (auto simp: is_dec_digit_iff c_isspace_def)

lemma strtoull10_dec_digits:
  "strtoull10 (dec_digits n) = (if n < 2 ^ 64 then Some (of_nat n) else None)"
proof -
  obtain c cs where c: "dec_digits n = c # cs" "is_dec_digit c"
    using dec_digits_hd by blast
  have tw: "takeWhile is_dec_digit (dec_digits n) = dec_digits n"
    using dec_digits_digits by (simp add: takeWhile_eq_all_conv)
  have dw: "dropWhile c_isspace (dec_digits n) = dec_digits n"
    using c is_dec_digit_not_special [of c] by simp
  have hd: "hd (dec_digits n) \<noteq> CHR ''-''" "hd (dec_digits n) \<noteq> CHR ''+''"
    using c is_dec_digit_not_special [of c] by auto
  show ?thesis
    unfolding strtoull10_def Let_def dw using hd by (simp add: tw not_le)
qed

section \<open>Generic facts\<close>

lemma nth_update_other: "i \<noteq> j \<Longrightarrow> xs[i := x] ! j = xs ! j"
  by simp

lemma option_bind_Some: "(Option.bind x f = Some y) \<longleftrightarrow> (\<exists>z. x = Some z \<and> f z = Some y)"
  by (cases x) auto

lemma drop_nth_Cons: "i < length xs \<Longrightarrow> drop i xs = xs ! i # drop (Suc i) xs"
  by (simp add: Cons_nth_drop_Suc)

lemma foldl_add_le: "(\<And>s x. (f s x :: nat) \<ge> s) \<Longrightarrow> s \<le> foldl f s xs"
  by (induction xs arbitrary: s) (auto intro: order_trans)

end
