(* ===== verification/Log_State.thy ===== *)
theory Log_State
  imports Prelude
begin

text \<open>
  The diagnostic log, \<^verbatim>\<open>utils/log.c\<close> and \<^verbatim>\<open>utils/log.h\<close>. The two file-static counters
  \<^verbatim>\<open>g_error_count\<close> and \<^verbatim>\<open>g_had_fatal\<close> decide whether the driver goes on; the printed
  records are kept as a list of \<open>sf_log_info\<close>, newest last, with the variadic arguments
  rendered as strings in \<open>li_args\<close>. The fixed English title, description and hint texts of a
  call are left out (they are determined by the call site); what a call prints is modelled in \<open>Log_Text\<close>. The search
  for a line of the source (\<^verbatim>\<open>find_line\<close>) is here, with the lines of a text that the components share.
\<close>

section \<open>Severities and error codes\<close>

datatype sf_log_severity =
    SF_LOG_SEVERITY_INFO
  | SF_LOG_SEVERITY_WARNING
  | SF_LOG_SEVERITY_ERROR
  | SF_LOG_SEVERITY_FATAL

fun severity_rank :: "sf_log_severity \<Rightarrow> nat" where
  "severity_rank SF_LOG_SEVERITY_INFO = 0"
| "severity_rank SF_LOG_SEVERITY_WARNING = 1"
| "severity_rank SF_LOG_SEVERITY_ERROR = 2"
| "severity_rank SF_LOG_SEVERITY_FATAL = 3"

lemma severity_rank_inject [simp]: "severity_rank a = severity_rank b \<longleftrightarrow> a = b"
  by (cases a; cases b) auto

instantiation sf_log_severity :: linorder
begin

definition less_eq_sf_log_severity :: "sf_log_severity \<Rightarrow> sf_log_severity \<Rightarrow> bool" where
  "less_eq_sf_log_severity a b \<longleftrightarrow> severity_rank a \<le> severity_rank b"

definition less_sf_log_severity :: "sf_log_severity \<Rightarrow> sf_log_severity \<Rightarrow> bool" where
  "less_sf_log_severity a b \<longleftrightarrow> severity_rank a < severity_rank b"

instance
  by standard (auto simp: less_eq_sf_log_severity_def less_sf_log_severity_def)

end

datatype (plugins only: code size) sf_log_error_code =
    SF_LOG_GENERAL_INSUFFICIENT_MEMORY
  | SF_LOG_GENERAL_INTERNAL_ERROR
  | SF_LOG_DRIVER_NO_INPUT_FILE
  | SF_LOG_DRIVER_NO_OUTPUT_FILE
  | SF_LOG_DRIVER_UNKNOWN_FLAG
  | SF_LOG_DRIVER_CANNOT_OPEN_FILE
  | SF_LOG_DRIVER_NO_MODULE_PATH
  | SF_LOG_DRIVER_NO_MODULE_FILE
  | SF_LOG_PREP_TOO_MANY_DEFINES
  | SF_LOG_LEXER_UNDEFINED_TOKEN
  | SF_LOG_PARSER_UNEXPECTED_TOKEN
  | SF_LOG_PARSER_REPEATED_QUALIFIER
  | SF_LOG_PARSER_INVALID_IMPORT
  | SF_LOG_SEMANTIC_REDECLARATION
  | SF_LOG_SEMANTIC_REDEFINITION
  | SF_LOG_SEMANTIC_UNDECLARED
  | SF_LOG_SEMANTIC_UNINITIALIZED
  | SF_LOG_SEMANTIC_TYPE_MISMATCH
  | SF_LOG_SEMANTIC_INVALID_EXPLICIT_CAST
  | SF_LOG_SEMANTIC_INVALID_IMPLICIT_CAST
  | SF_LOG_SEMANTIC_LITERAL_OVERFLOW
  | SF_LOG_SEMANTIC_DIVISION_BY_ZERO
  | SF_LOG_SEMANTIC_CONSTANT_EXPR
  | SF_LOG_SEMANTIC_RETURN_OUTSIDE_FUNCTION
  | SF_LOG_SEMANTIC_NO_VALUE_RETURN
  | SF_LOG_SEMANTIC_VOID_RETURN_VALUE
  | SF_LOG_SEMANTIC_MISSING_RETURN
  | SF_LOG_SEMANTIC_INVALID_TYPE
  | SF_LOG_SEMANTIC_NO_MAIN_FUNCTION
  | SF_LOG_SEMANTIC_INVALID_RETURN_TYPE
  | SF_LOG_SEMANTIC_INVALID_PARAMETERS
  | SF_LOG_SEMANTIC_INVALID_ASSIGN
  | SF_LOG_SEMANTIC_INVALID_QUALIFIER
  | SF_LOG_SEMANTIC_INVALID_DEFINITION
  | SF_LOG_SEMANTIC_CONFLICTING_DECLARATION
  | SF_LOG_SEMANTIC_UNUSED_EXPRESSION
  | SF_LOG_SEMANTIC_USELESS_CAST
  | SF_LOG_SEMANTIC_ARGUMENT_COUNT
  | SF_LOG_SEMANTIC_CYCLIC_IMPORT
  | SF_LOG_MODULE_NOT_FOUND

section \<open>The log state\<close>

record sf_log_info =
  li_file :: "string option"
  li_code :: sf_log_error_code
  li_span :: sf_span
  li_sev :: sf_log_severity
  li_args :: "string list"

record sf_log_state =
  g_error_count :: nat
  g_had_fatal :: bool
  g_entries :: "sf_log_info list"

definition sf_log_init :: sf_log_state where
  "sf_log_init = \<lparr>g_error_count = 0, g_had_fatal = False, g_entries = []\<rparr>"

definition emit_log :: "sf_log_info \<Rightarrow> sf_log_state \<Rightarrow> sf_log_state" where
  "emit_log info g =
     (let g1 = g\<lparr>g_entries := g_entries g @ [info]\<rparr>;
          g2 = (if li_sev info = SF_LOG_SEVERITY_ERROR \<or> li_sev info = SF_LOG_SEVERITY_FATAL
                then g1\<lparr>g_error_count := Suc (g_error_count g1)\<rparr> else g1)
      in if li_sev info = SF_LOG_SEVERITY_FATAL then g2\<lparr>g_had_fatal := True\<rparr> else g2)"

definition sf_log ::
  "string option \<Rightarrow> sf_log_error_code \<Rightarrow> sf_span \<Rightarrow> sf_log_severity \<Rightarrow> string list \<Rightarrow>
   sf_log_state \<Rightarrow> sf_log_state" where
  "sf_log file code span sev args =
     emit_log \<lparr>li_file = file, li_code = code, li_span = span, li_sev = sev, li_args = args\<rparr>"

definition sf_log_had_fatal :: "sf_log_state \<Rightarrow> bool" where
  "sf_log_had_fatal g = g_had_fatal g"

definition sf_log_had_errors :: "sf_log_state \<Rightarrow> bool" where
  "sf_log_had_errors g = (0 < g_error_count g)"

text \<open>The counters agree with the list of records.\<close>

definition log_inv :: "sf_log_state \<Rightarrow> bool" where
  "log_inv g \<longleftrightarrow>
     g_error_count g = length (filter (\<lambda>i. SF_LOG_SEVERITY_ERROR \<le> li_sev i) (g_entries g)) \<and>
     (g_had_fatal g \<longleftrightarrow> (\<exists>i \<in> set (g_entries g). li_sev i = SF_LOG_SEVERITY_FATAL))"

lemma severity_error_le:
  "SF_LOG_SEVERITY_ERROR \<le> s \<longleftrightarrow> s = SF_LOG_SEVERITY_ERROR \<or> s = SF_LOG_SEVERITY_FATAL"
  by (cases s) (auto simp: less_eq_sf_log_severity_def)

lemma log_inv_init: "log_inv sf_log_init"
  by (simp add: log_inv_def sf_log_init_def)

lemma log_inv_emit: "log_inv g \<Longrightarrow> log_inv (emit_log info g)"
  by (auto simp: log_inv_def emit_log_def Let_def severity_error_le)

lemma log_inv_log [simp, sf_intros]: "log_inv g \<Longrightarrow> log_inv (sf_log f c sp sv args g)"
  by (simp add: sf_log_def log_inv_emit)

lemma sf_log_count_mono [sf_simps]: "g_error_count g \<le> g_error_count (sf_log f c sp sv args g)"
  by (simp add: sf_log_def emit_log_def Let_def)

lemma sf_log_error_count:
  "SF_LOG_SEVERITY_ERROR \<le> sv \<Longrightarrow>
   g_error_count (sf_log f c sp sv args g) = Suc (g_error_count g)"
  by (auto simp: sf_log_def emit_log_def Let_def severity_error_le)

lemma sf_log_warning_count:
  "sv < SF_LOG_SEVERITY_ERROR \<Longrightarrow> g_error_count (sf_log f c sp sv args g) = g_error_count g"
  by (cases sv) (auto simp: sf_log_def emit_log_def Let_def less_sf_log_severity_def)

lemma sf_log_error: "g_error_count (sf_log f c sp SF_LOG_SEVERITY_ERROR args g) = Suc (g_error_count g)"
  by (rule sf_log_error_count) (simp add: less_eq_sf_log_severity_def)

lemma sf_log_warning: "g_error_count (sf_log f c sp SF_LOG_SEVERITY_WARNING args g) = g_error_count g"
  by (rule sf_log_warning_count) (simp add: less_sf_log_severity_def)

lemma sf_log_entries [sf_simps]:
  "g_entries (sf_log f c sp sv args g) =
   g_entries g @ [\<lparr>li_file = f, li_code = c, li_span = sp, li_sev = sv, li_args = args\<rparr>]"
  by (simp add: sf_log_def emit_log_def Let_def)

section \<open>Source snippets\<close>

text \<open>
  \<^verbatim>\<open>find_line\<close>: the suffix of the content that starts the target line (found by \<^verbatim>\<open>strchr\<close>
  on newlines) and the length of that line; \<open>None\<close> when the content has fewer lines.
\<close>

fun find_line_start :: "nat \<Rightarrow> string \<Rightarrow> string option" where
  "find_line_start 0 p = Some p"
| "find_line_start (Suc k) p =
     (case dropWhile (\<lambda>c. c \<noteq> CHR 0x0A) p of
        [] \<Rightarrow> None
      | _ # rest \<Rightarrow> find_line_start k rest)"

definition find_line :: "string option \<Rightarrow> nat \<Rightarrow> (string \<times> nat) option" where
  "find_line content target_line =
     (case content of
        None \<Rightarrow> None
      | Some c \<Rightarrow>
          (case find_line_start (target_line - 1) c of
             None \<Rightarrow> None
           | Some p \<Rightarrow> Some (p, length (takeWhile (\<lambda>ch. ch \<noteq> CHR 0x0A) p))))"

text \<open>The lines of a text, without their newlines.\<close>

fun source_lines :: "string \<Rightarrow> string list" where
  "source_lines [] = [[]]"
| "source_lines (c # cs) =
     (if c = CHR 0x0A then [] # source_lines cs
      else case source_lines cs of [] \<Rightarrow> [[c]] | l # ls \<Rightarrow> (c # l) # ls)"

lemma source_lines_nonempty [simp]: "source_lines s \<noteq> []"
  by (induction s) (auto split: list.splits)

lemma source_lines_split:
  "source_lines s = takeWhile (\<lambda>c. c \<noteq> CHR 0x0A) s #
     (case dropWhile (\<lambda>c. c \<noteq> CHR 0x0A) s of [] \<Rightarrow> [] | _ # rest \<Rightarrow> source_lines rest)"
  by (induction s) (auto split: list.splits)

lemma find_line_start_lines:
  "(case find_line_start k s of
      None \<Rightarrow> length (source_lines s) \<le> k
    | Some p \<Rightarrow> k < length (source_lines s) \<and> source_lines p = drop k (source_lines s))"
proof (induction k arbitrary: s)
  case 0
  then show ?case by (simp add: length_greater_0_conv)
next
  case (Suc k)
  show ?case
  proof (cases "dropWhile (\<lambda>c. c \<noteq> CHR 0x0A) s")
    case Nil
    have "source_lines s = [takeWhile (\<lambda>c. c \<noteq> CHR 0x0A) s]"
      using source_lines_split [of s] by (simp only: Nil list.case)
    then have "length (source_lines s) = 1" by simp
    moreover have "find_line_start (Suc k) s = None"
      by (simp only: find_line_start.simps Nil list.case)
    ultimately show ?thesis by (simp del: find_line_start.simps)
  next
    case (Cons c rest)
    have "source_lines s = takeWhile (\<lambda>c. c \<noteq> CHR 0x0A) s # source_lines rest"
      using source_lines_split [of s] by (simp only: Cons list.case)
    with Suc.IH [of rest] Cons show ?thesis
      by (simp split: option.splits)
  qed
qed

lemma find_line_correct:
  "0 < n \<Longrightarrow>
   map_option (\<lambda>(p, len). take len p) (find_line (Some s) n) =
   (if n \<le> length (source_lines s) then Some (source_lines s ! (n - 1)) else None)"
proof -
  assume n: "0 < n"
  show ?thesis
  proof (cases "find_line_start (n - 1) s")
    case None
    with find_line_start_lines [where k = "n - 1" and s = s] n show ?thesis
      by (auto simp: find_line_def)
  next
    case (Some p)
    with find_line_start_lines [where k = "n - 1" and s = s]
    have len: "n - 1 < length (source_lines s)" and eq: "source_lines p = drop (n - 1) (source_lines s)"
      by auto
    have "source_lines s ! (n - 1) = hd (source_lines p)"
      using len eq by (simp add: hd_drop_conv_nth)
    also have "\<dots> = takeWhile (\<lambda>c. c \<noteq> CHR 0x0A) p"
      by (subst source_lines_split) simp
    finally show ?thesis using n len Some
      by (auto simp: find_line_def simp flip: takeWhile_eq_take)
  qed
qed

end
