(* ===== verification/Mangle.thy ===== *)
theory Mangle
  imports Log_State
begin

text \<open>
  Name mangling, \<^verbatim>\<open>utils/mangle.c\<close>: variables get their declaration number, functions the prefix
  of their module and the length of their name, module prefixes one length-prefixed part for
  each component of the path without its extension. \<open>alloc_ok\<close> says for a size in bytes whether
  the arena can supply it; a length beyond \<^verbatim>\<open>INT_MAX\<close> makes \<^verbatim>\<open>snprintf\<close> return a negative number.
  The lemmas show that names which differ stay different and that the buffer of a module
  prefix is large enough.
\<close>

section \<open>The three functions\<close>

abbreviation C_INT_MAX :: nat where "C_INT_MAX \<equiv> 2147483647"

definition mangled_variable :: "string \<Rightarrow> nat \<Rightarrow> string" where
  "mangled_variable name vid = name @ ''@'' @ dec_digits vid"

definition sf_mangle_variable ::
  "(nat \<Rightarrow> bool) \<Rightarrow> string \<Rightarrow> nat \<Rightarrow> sf_log_state \<Rightarrow> string \<times> sf_log_state" where
  "sf_mangle_variable alloc_ok name vid g =
     (let needed = length (mangled_variable name vid)
      in if C_INT_MAX < needed then ('''', g)
         else if \<not> alloc_ok (needed + 1)
         then ('''', sf_log None SF_LOG_GENERAL_INSUFFICIENT_MEMORY sf_span_zero SF_LOG_SEVERITY_FATAL [] g)
         else (mangled_variable name vid, g))"

definition mangled_function :: "string \<Rightarrow> string \<Rightarrow> string" where
  "mangled_function prefix name = prefix @ dec_digits (length name) @ name"

definition sf_mangle_function ::
  "(nat \<Rightarrow> bool) \<Rightarrow> string option \<Rightarrow> string \<Rightarrow> bool \<Rightarrow> sf_log_state \<Rightarrow> string \<times> sf_log_state" where
  "sf_mangle_function alloc_ok prefix name keep_name g =
     (case prefix of
        None \<Rightarrow> (name, g)
      | Some p \<Rightarrow>
          if keep_name then (name, g)
          else (let needed = length (mangled_function p name)
                in if C_INT_MAX < needed then (name, g)
                   else if \<not> alloc_ok (needed + 1)
                   then (name, sf_log None SF_LOG_GENERAL_INSUFFICIENT_MEMORY sf_span_zero SF_LOG_SEVERITY_FATAL [] g)
                   else (mangled_function p name, g)))"

text \<open>\<^verbatim>\<open>strrchr\<close>: the position of the last occurrence of a character.\<close>

definition c_strrchr :: "string \<Rightarrow> char \<Rightarrow> nat option" where
  "c_strrchr s c =
     (if c \<in> set s then Some (length s - 1 - length (takeWhile (\<lambda>d. d \<noteq> c) (rev s))) else None)"

definition path_end :: "string \<Rightarrow> nat" where
  "path_end module_path =
     (case c_strrchr module_path (CHR ''.'') of
        None \<Rightarrow> length module_path
      | Some dot \<Rightarrow>
          (case c_strrchr module_path (CHR ''/'') of
             None \<Rightarrow> dot
           | Some slash \<Rightarrow> if slash < dot then dot else length module_path))"

definition mangled_part :: "string \<Rightarrow> string" where
  "mangled_part part = (if 0 < length part then dec_digits (length part) @ part else [])"

text \<open>The loop over the path: \<open>part\<close> holds the characters since \<^verbatim>\<open>start\<close>.\<close>

fun mangle_parts :: "string \<Rightarrow> string \<Rightarrow> string" where
  "mangle_parts part [] = mangled_part part"
| "mangle_parts part (c # cs) =
     (if c \<noteq> CHR ''/'' then mangle_parts (part @ [c]) cs
      else mangled_part part @ mangle_parts [] cs)"

definition sf_mangle_module_prefix ::
  "(nat \<Rightarrow> bool) \<Rightarrow> string \<Rightarrow> sf_log_state \<Rightarrow> string option \<times> sf_log_state" where
  "sf_mangle_module_prefix alloc_ok module_path g =
     (let end_pos = path_end module_path
      in if \<not> alloc_ok (3 + end_pos * 2 + 1)
         then (None, sf_log None SF_LOG_GENERAL_INSUFFICIENT_MEMORY sf_span_zero SF_LOG_SEVERITY_FATAL [] g)
         else (Some (''_SF'' @ mangle_parts [] (take end_pos module_path)), g))"

section \<open>Variables\<close>

lemma at_not_digit: "\<not> is_dec_digit (CHR ''@'')"
  by (simp add: is_dec_digit_iff)

lemma append_digits_inject:
  assumes "a @ x # ds = b @ x # es" "x \<notin> set ds" "x \<notin> set es"
  shows "a = b \<and> ds = es"
proof -
  have "takeWhile (\<lambda>c. c \<noteq> x) (rev ds @ x # rev a) = rev ds"
    "takeWhile (\<lambda>c. c \<noteq> x) (rev es @ x # rev b) = rev es"
    using assms(2,3) by (auto simp: takeWhile_append)
  moreover have "rev ds @ x # rev a = rev es @ x # rev b" using arg_cong [OF assms(1), of rev] by simp
  ultimately have "rev ds = rev es" by simp
  with assms(1) show ?thesis by simp
qed

lemma mangled_variable_eq: "mangled_variable n i = mangled_variable m j \<Longrightarrow> n = m \<and> i = j"
proof -
  assume eq: "mangled_variable n i = mangled_variable m j"
  have "CHR ''@'' \<notin> set (dec_digits k)" for k using dec_digits_digits [of k] at_not_digit by blast
  with append_digits_inject [of n "CHR ''@''" "dec_digits i" m "dec_digits j"] eq
  show "n = m \<and> i = j" by (simp add: mangled_variable_def)
qed

text \<open>Variable names never collide: two mangled variables are equal only when both the source
  names and the declaration numbers are.\<close>

theorem mangled_variable_inject:
  "mangled_variable n i = mangled_variable m j \<longleftrightarrow> n = m \<and> i = j"
  using mangled_variable_eq by blast

section \<open>Functions and module prefixes\<close>

fun path_parts :: "string \<Rightarrow> string \<Rightarrow> string list" where
  "path_parts part [] = (if part = [] then [] else [part])"
| "path_parts part (c # cs) =
     (if c \<noteq> CHR ''/'' then path_parts (part @ [c]) cs
      else (if part = [] then [] else [part]) @ path_parts [] cs)"

lemma mangle_parts_concat: "mangle_parts part s = concat (map mangled_part (path_parts part s))"
  by (induction part s rule: mangle_parts.induct) (auto simp: mangled_part_def)

text \<open>A name that can be told apart from the digits of its length.\<close>

definition plain_name :: "string \<Rightarrow> bool" where
  "plain_name s \<longleftrightarrow> s \<noteq> [] \<and> \<not> is_dec_digit (hd s)"

lemma mangled_part_split:
  assumes "plain_name s"
  shows "takeWhile is_dec_digit (mangled_part s @ rest) = dec_digits (length s)"
    "dropWhile is_dec_digit (mangled_part s @ rest) = s @ rest"
proof -
  obtain c cs where s: "s = c # cs" "\<not> is_dec_digit c" using assms by (cases s) (auto simp: plain_name_def)
  have "takeWhile is_dec_digit (dec_digits n @ c # t) = dec_digits n"
    "dropWhile is_dec_digit (dec_digits n @ c # t) = c # t" for n t
    using dec_digits_digits [of n] s(2) by (simp_all add: takeWhile_append2 dropWhile_append2)
  then show "takeWhile is_dec_digit (mangled_part s @ rest) = dec_digits (length s)"
    "dropWhile is_dec_digit (mangled_part s @ rest) = s @ rest"
    unfolding mangled_part_def s(1) by simp_all
qed

lemma mangled_parts_inject:
  assumes "\<forall>s \<in> set ps. plain_name s" "\<forall>s \<in> set qs. plain_name s"
    "concat (map mangled_part ps) = concat (map mangled_part qs)"
  shows "ps = qs"
  using assms
proof (induction ps arbitrary: qs)
  case Nil
  then show ?case by (cases qs) (auto simp: mangled_part_def plain_name_def)
next
  case (Cons s ps)
  have "mangled_part s \<noteq> []" using Cons.prems(1) by (auto simp: mangled_part_def plain_name_def)
  with Cons.prems obtain t qs' where qs: "qs = t # qs'" by (cases qs) auto
  have plain: "plain_name s" "plain_name t" using Cons.prems qs by auto
  let ?l = "mangled_part s @ concat (map mangled_part ps)" and ?r = "mangled_part t @ concat (map mangled_part qs')"
  have eq: "?l = ?r" using Cons.prems(3) qs by simp
  have "takeWhile is_dec_digit ?l = takeWhile is_dec_digit ?r" using eq by (rule arg_cong)
  then have len: "length s = length t"
    unfolding mangled_part_split [OF plain(1)] mangled_part_split [OF plain(2)] by simp
  have "dropWhile is_dec_digit ?l = dropWhile is_dec_digit ?r" using eq by (rule arg_cong)
  then have "s @ concat (map mangled_part ps) = t @ concat (map mangled_part qs')"
    unfolding mangled_part_split [OF plain(1)] mangled_part_split [OF plain(2)] .
  with len have "s = t" "concat (map mangled_part ps) = concat (map mangled_part qs')" by auto
  with Cons.IH [of qs'] Cons.prems qs show ?case by simp
qed

text \<open>The link name of a function of a module, as the two functions compose it.\<close>

definition link_name :: "string \<Rightarrow> string \<Rightarrow> string" where
  "link_name module_path name =
     mangled_function (''_SF'' @ mangle_parts [] (take (path_end module_path) module_path)) name"

text \<open>C35: Link names identify module and function. When no directory or file part of the two
  module paths starts with a digit and the functions have proper names, equal link names mean
  equal function names and the same sequence of path parts.\<close>

theorem link_name_inject:
  assumes "\<forall>s \<in> set (path_parts [] (take (path_end p) p)). plain_name s"
    "\<forall>s \<in> set (path_parts [] (take (path_end q) q)). plain_name s" "plain_name f" "plain_name h"
    "link_name p f = link_name q h"
  shows "f = h \<and> path_parts [] (take (path_end p) p) = path_parts [] (take (path_end q) q)"
proof -
  have part: "dec_digits (length s) @ s = mangled_part s" if "plain_name s" for s
    using that by (simp add: mangled_part_def plain_name_def)
  have "concat (map mangled_part (path_parts [] (take (path_end p) p) @ [f])) =
        concat (map mangled_part (path_parts [] (take (path_end q) q) @ [h]))"
    using assms(5) part [OF assms(3)] part [OF assms(4)]
    by (simp add: link_name_def mangled_function_def mangle_parts_concat)
  then have "path_parts [] (take (path_end p) p) @ [f] = path_parts [] (take (path_end q) q) @ [h]"
    using assms by (intro mangled_parts_inject) auto
  then show ?thesis by simp
qed

lemma link_name_inject_witness:
  "(''foo'' :: string) = ''foo'' \<and>
   path_parts [] (take (path_end ''lib//io.sf'') ''lib//io.sf'') = path_parts [] (take (path_end ''lib/io'') ''lib/io'')"
  by (rule link_name_inject)
     (simp_all add: path_end_def c_strrchr_def plain_name_def is_dec_digit_iff link_name_def mangled_part_def)

text \<open>With a directory name that starts with a digit the scheme is ambiguous: the function
  \<^verbatim>\<open>bbbbbbbbbbbbbbbbbb3foo\<close> of module \<^verbatim>\<open>1a\<close> and the function \<^verbatim>\<open>foo\<close> of module
  \<^verbatim>\<open>a22bbbbbbbbbbbbbbbbbb\<close> get the same link name.\<close>

theorem link_name_collision:
  "link_name ''1a.sf'' ''bbbbbbbbbbbbbbbbbb3foo'' = link_name ''a22bbbbbbbbbbbbbbbbbb.sf'' ''foo''"
  by (simp add: link_name_def mangled_function_def path_end_def c_strrchr_def mangled_part_def dec_digits.simps
      flip: numeral_2_eq_2 numeral_3_eq_3)

section \<open>The buffer of a module prefix\<close>

lemma length_dec_digits: "0 < n \<Longrightarrow> length (dec_digits n) \<le> n"
proof (induction n rule: dec_digits.induct)
  case (1 n)
  show ?case
  proof (cases "n < 10")
    case False
    then have "length (dec_digits (n div 10)) \<le> n div 10" using 1 by simp
    moreover have "Suc (n div 10) \<le> n" using False by linarith
    ultimately show ?thesis using False by (simp add: dec_digits.simps [of n])
  qed (use 1 in \<open>simp add: dec_digits.simps [of n]\<close>)
qed

lemma length_mangle_parts: "length (mangle_parts part s) \<le> 2 * (length part + length s)"
proof (induction part s rule: mangle_parts.induct)
  case (1 part)
  then show ?case using length_dec_digits [of "length part"] by (simp add: mangled_part_def)
next
  case (2 part c cs)
  then show ?case using length_dec_digits [of "length part"] by (auto simp: mangled_part_def)
qed

text \<open>The buffer of \<open>sf_mangle_module_prefix\<close> is large enough: whenever a prefix is returned,
  its characters and the terminating NUL fit in the bytes requested from the arena.\<close>

theorem module_prefix_fits:
  "case sf_mangle_module_prefix alloc_ok path g of
     (Some out, g') \<Rightarrow> length out + 1 \<le> 3 + path_end path * 2 + 1 \<and> g' = g
   | (None, _) \<Rightarrow> True"
proof -
  have "length (mangle_parts [] (take (path_end path) path)) \<le> 2 * length (take (path_end path) path)"
    using length_mangle_parts [of "[]" "take (path_end path) path"] by simp
  then have "length (mangle_parts [] (take (path_end path) path)) \<le> 2 * path_end path" by simp
  then show ?thesis by (simp add: sf_mangle_module_prefix_def Let_def)
qed

end
