(* ===== verification/Type_Utils.thy ===== *)
theory Type_Utils
  imports Log_State
begin

text \<open>
  The enumerations \<^verbatim>\<open>sf_value_type\<close> and \<^verbatim>\<open>sf_ir_operation_type\<close> (\<^verbatim>\<open>frontend/ast.h\<close>) and
  \<^verbatim>\<open>sf_ir_opcode\<close> (\<^verbatim>\<open>backend/ir/ir.h\<close>), the classification and conversion functions of
  \<^verbatim>\<open>utils/type_utils.c\<close> and the inline predicates of \<^verbatim>\<open>semantic_internal.h\<close>. The lemmas relate
  the tables to the ranges of the machine integers they stand for.
\<close>

section \<open>Enumerations\<close>

datatype sf_value_type =
    SF_VAL_TYPE_UNRESOLVED
  | SF_VAL_TYPE_I8 | SF_VAL_TYPE_I16 | SF_VAL_TYPE_I32 | SF_VAL_TYPE_I64
  | SF_VAL_TYPE_U8 | SF_VAL_TYPE_U16 | SF_VAL_TYPE_U32 | SF_VAL_TYPE_U64
  | SF_VAL_TYPE_BOOL
  | SF_VAL_TYPE_VOID

datatype (plugins only: code size) sf_ir_operation_type =
    SF_OP_TYPE_UNRESOLVED
  | SF_OP_TYPE_ADD | SF_OP_TYPE_SUB | SF_OP_TYPE_DIV | SF_OP_TYPE_MUL | SF_OP_TYPE_NEGATE
  | SF_OP_TYPE_BITWISE_AND | SF_OP_TYPE_BITWISE_OR | SF_OP_TYPE_BITWISE_XOR
  | SF_OP_TYPE_BITWISE_NOT | SF_OP_TYPE_BITWISE_RSHIFT | SF_OP_TYPE_BITWISE_LSHIFT
  | SF_OP_TYPE_RELATIONAL_EQUAL | SF_OP_TYPE_RELATIONAL_NOT_EQUAL
  | SF_OP_TYPE_RELATIONAL_LESS | SF_OP_TYPE_RELATIONAL_LESS_EQUAL
  | SF_OP_TYPE_RELATIONAL_GREATER | SF_OP_TYPE_RELATIONAL_GREATER_EQUAL
  | SF_OP_TYPE_LOGICAL_OR | SF_OP_TYPE_LOGICAL_AND | SF_OP_TYPE_LOGICAL_NOT
  | SF_OP_TYPE_PREFIX_INCREMENT | SF_OP_TYPE_POSTFIX_INCREMENT
  | SF_OP_TYPE_PREFIX_DECREMENT | SF_OP_TYPE_POSTFIX_DECREMENT

datatype (plugins only: code size) sf_ir_opcode =
    SF_IR_OPCODE_INVALID
  | SF_IR_OPCODE_ADD | SF_IR_OPCODE_SUB | SF_IR_OPCODE_DIV | SF_IR_OPCODE_MULT
  | SF_IR_OPCODE_NEGATE
  | SF_IR_OPCODE_ASSIGN
  | SF_IR_OPCODE_BITWISE_AND | SF_IR_OPCODE_BITWISE_OR | SF_IR_OPCODE_BITWISE_XOR
  | SF_IR_OPCODE_BITWISE_RSHIFT | SF_IR_OPCODE_BITWISE_LSHIFT | SF_IR_OPCODE_BITWISE_NOT
  | SF_IR_OPCODE_RELATIONAL_EQUAL | SF_IR_OPCODE_RELATIONAL_NOT_EQUAL
  | SF_IR_OPCODE_RELATIONAL_LESS | SF_IR_OPCODE_RELATIONAL_LESS_EQUAL
  | SF_IR_OPCODE_RELATIONAL_GREATER | SF_IR_OPCODE_RELATIONAL_GREATER_EQUAL
  | SF_IR_OPCODE_LOGICAL_AND | SF_IR_OPCODE_LOGICAL_OR | SF_IR_OPCODE_LOGICAL_NOT
  | SF_IR_OPCODE_LABEL | SF_IR_OPCODE_JMP_COND | SF_IR_OPCODE_JMP_INCOND
  | SF_IR_OPCODE_CAST
  | SF_IR_OPCODE_RETURN | SF_IR_OPCODE_PARAM | SF_IR_OPCODE_CALL

section \<open>Value types\<close>

fun sf_type_value_uint_literal_fits :: "sf_value_type \<Rightarrow> uint64 \<Rightarrow> bool" where
  "sf_type_value_uint_literal_fits SF_VAL_TYPE_I8 value = (value \<le> 127)"
| "sf_type_value_uint_literal_fits SF_VAL_TYPE_I16 value = (value \<le> 32767)"
| "sf_type_value_uint_literal_fits SF_VAL_TYPE_I32 value = (value \<le> 2147483647)"
| "sf_type_value_uint_literal_fits SF_VAL_TYPE_I64 value = (value \<le> 9223372036854775807)"
| "sf_type_value_uint_literal_fits SF_VAL_TYPE_U8 value = (value \<le> 255)"
| "sf_type_value_uint_literal_fits SF_VAL_TYPE_U16 value = (value \<le> 65535)"
| "sf_type_value_uint_literal_fits SF_VAL_TYPE_U32 value = (value \<le> 4294967295)"
| "sf_type_value_uint_literal_fits SF_VAL_TYPE_U64 value = True"
| "sf_type_value_uint_literal_fits _ value = False"

fun sf_type_value_signed_literal_fits_negated :: "sf_value_type \<Rightarrow> uint64 \<Rightarrow> bool" where
  "sf_type_value_signed_literal_fits_negated SF_VAL_TYPE_I8 magnitude = (magnitude \<le> 127 + 1)"
| "sf_type_value_signed_literal_fits_negated SF_VAL_TYPE_I16 magnitude = (magnitude \<le> 32767 + 1)"
| "sf_type_value_signed_literal_fits_negated SF_VAL_TYPE_I32 magnitude = (magnitude \<le> 2147483647 + 1)"
| "sf_type_value_signed_literal_fits_negated SF_VAL_TYPE_I64 magnitude =
     (magnitude \<le> 9223372036854775807 + 1)"
| "sf_type_value_signed_literal_fits_negated _ magnitude = False"

fun sf_type_value_name :: "sf_value_type \<Rightarrow> string" where
  "sf_type_value_name SF_VAL_TYPE_I8 = ''i8''"
| "sf_type_value_name SF_VAL_TYPE_I16 = ''i16''"
| "sf_type_value_name SF_VAL_TYPE_I32 = ''i32''"
| "sf_type_value_name SF_VAL_TYPE_I64 = ''i64''"
| "sf_type_value_name SF_VAL_TYPE_U8 = ''u8''"
| "sf_type_value_name SF_VAL_TYPE_U16 = ''u16''"
| "sf_type_value_name SF_VAL_TYPE_U32 = ''u32''"
| "sf_type_value_name SF_VAL_TYPE_U64 = ''u64''"
| "sf_type_value_name SF_VAL_TYPE_BOOL = ''bool''"
| "sf_type_value_name SF_VAL_TYPE_VOID = ''void''"
| "sf_type_value_name SF_VAL_TYPE_UNRESOLVED = ''?''"

fun sf_type_operation_name :: "sf_ir_operation_type \<Rightarrow> string" where
  "sf_type_operation_name SF_OP_TYPE_ADD = ''+''"
| "sf_type_operation_name SF_OP_TYPE_SUB = ''-''"
| "sf_type_operation_name SF_OP_TYPE_MUL = ''*''"
| "sf_type_operation_name SF_OP_TYPE_DIV = ''/''"
| "sf_type_operation_name SF_OP_TYPE_NEGATE = ''-''"
| "sf_type_operation_name SF_OP_TYPE_BITWISE_AND = ''&''"
| "sf_type_operation_name SF_OP_TYPE_BITWISE_OR = ''|''"
| "sf_type_operation_name SF_OP_TYPE_BITWISE_XOR = ''^''"
| "sf_type_operation_name SF_OP_TYPE_BITWISE_RSHIFT = ''>>''"
| "sf_type_operation_name SF_OP_TYPE_BITWISE_LSHIFT = ''<<''"
| "sf_type_operation_name SF_OP_TYPE_BITWISE_NOT = ''~''"
| "sf_type_operation_name SF_OP_TYPE_RELATIONAL_EQUAL = ''==''"
| "sf_type_operation_name SF_OP_TYPE_RELATIONAL_NOT_EQUAL = ''!=''"
| "sf_type_operation_name SF_OP_TYPE_RELATIONAL_LESS = ''<''"
| "sf_type_operation_name SF_OP_TYPE_RELATIONAL_LESS_EQUAL = ''<=''"
| "sf_type_operation_name SF_OP_TYPE_RELATIONAL_GREATER = ''>''"
| "sf_type_operation_name SF_OP_TYPE_RELATIONAL_GREATER_EQUAL = ''>=''"
| "sf_type_operation_name SF_OP_TYPE_LOGICAL_AND = ''&&''"
| "sf_type_operation_name SF_OP_TYPE_LOGICAL_OR = ''||''"
| "sf_type_operation_name SF_OP_TYPE_LOGICAL_NOT = ''!''"
| "sf_type_operation_name SF_OP_TYPE_PREFIX_INCREMENT = ''++x''"
| "sf_type_operation_name SF_OP_TYPE_PREFIX_DECREMENT = ''--x''"
| "sf_type_operation_name SF_OP_TYPE_POSTFIX_INCREMENT = ''x++''"
| "sf_type_operation_name SF_OP_TYPE_POSTFIX_DECREMENT = ''x--''"
| "sf_type_operation_name SF_OP_TYPE_UNRESOLVED = ''?''"

fun sf_type_value_is_unsigned :: "sf_value_type \<Rightarrow> bool" where
  "sf_type_value_is_unsigned SF_VAL_TYPE_U8 = True"
| "sf_type_value_is_unsigned SF_VAL_TYPE_U16 = True"
| "sf_type_value_is_unsigned SF_VAL_TYPE_U32 = True"
| "sf_type_value_is_unsigned SF_VAL_TYPE_U64 = True"
| "sf_type_value_is_unsigned _ = False"

fun sf_type_value_is_signed :: "sf_value_type \<Rightarrow> bool" where
  "sf_type_value_is_signed SF_VAL_TYPE_I8 = True"
| "sf_type_value_is_signed SF_VAL_TYPE_I16 = True"
| "sf_type_value_is_signed SF_VAL_TYPE_I32 = True"
| "sf_type_value_is_signed SF_VAL_TYPE_I64 = True"
| "sf_type_value_is_signed _ = False"

definition sf_type_value_is_integer :: "sf_value_type \<Rightarrow> bool" where
  "sf_type_value_is_integer t \<longleftrightarrow> sf_type_value_is_signed t \<or> sf_type_value_is_unsigned t"

definition sf_type_value_is_same_group :: "sf_value_type \<Rightarrow> sf_value_type \<Rightarrow> bool" where
  "sf_type_value_is_same_group a b =
     (if sf_type_value_is_unsigned a \<and> sf_type_value_is_unsigned b then True
      else if sf_type_value_is_signed a \<and> sf_type_value_is_signed b then True
      else if a = SF_VAL_TYPE_BOOL \<and> b = SF_VAL_TYPE_BOOL then True
      else False)"

definition sf_type_value_is_castable :: "sf_value_type \<Rightarrow> sf_value_type \<Rightarrow> bool" where
  "sf_type_value_is_castable from_type to_type =
     (if from_type = SF_VAL_TYPE_UNRESOLVED \<or> to_type = SF_VAL_TYPE_UNRESOLVED then False
      else if from_type = to_type then True
      else \<not> ((from_type = SF_VAL_TYPE_BOOL \<or> to_type = SF_VAL_TYPE_BOOL) \<or>
              (from_type = SF_VAL_TYPE_VOID \<or> to_type = SF_VAL_TYPE_VOID)))"

definition sf_type_is_increment_or_decrement :: "sf_ir_operation_type \<Rightarrow> bool" where
  "sf_type_is_increment_or_decrement op \<longleftrightarrow>
     op = SF_OP_TYPE_PREFIX_INCREMENT \<or> op = SF_OP_TYPE_PREFIX_DECREMENT \<or>
     op = SF_OP_TYPE_POSTFIX_INCREMENT \<or> op = SF_OP_TYPE_POSTFIX_DECREMENT"

fun sf_type_value_width_bits :: "sf_value_type \<Rightarrow> nat" where
  "sf_type_value_width_bits SF_VAL_TYPE_I8 = 8"
| "sf_type_value_width_bits SF_VAL_TYPE_U8 = 8"
| "sf_type_value_width_bits SF_VAL_TYPE_BOOL = 8"
| "sf_type_value_width_bits SF_VAL_TYPE_I16 = 16"
| "sf_type_value_width_bits SF_VAL_TYPE_U16 = 16"
| "sf_type_value_width_bits SF_VAL_TYPE_I32 = 32"
| "sf_type_value_width_bits SF_VAL_TYPE_U32 = 32"
| "sf_type_value_width_bits SF_VAL_TYPE_I64 = 64"
| "sf_type_value_width_bits SF_VAL_TYPE_U64 = 64"
| "sf_type_value_width_bits SF_VAL_TYPE_VOID = 0"
| "sf_type_value_width_bits SF_VAL_TYPE_UNRESOLVED = 64"

definition sf_type_value_width_bytes :: "sf_value_type \<Rightarrow> nat" where
  "sf_type_value_width_bytes t = sf_type_value_width_bits t div 8"

definition sf_type_value_promote :: "sf_value_type \<Rightarrow> sf_value_type \<Rightarrow> sf_value_type" where
  "sf_type_value_promote a b =
     (if sf_type_value_width_bits b \<le> sf_type_value_width_bits a then a else b)"

fun sf_type_operation_to_opcode :: "sf_ir_operation_type \<Rightarrow> sf_ir_opcode" where
  "sf_type_operation_to_opcode SF_OP_TYPE_ADD = SF_IR_OPCODE_ADD"
| "sf_type_operation_to_opcode SF_OP_TYPE_SUB = SF_IR_OPCODE_SUB"
| "sf_type_operation_to_opcode SF_OP_TYPE_MUL = SF_IR_OPCODE_MULT"
| "sf_type_operation_to_opcode SF_OP_TYPE_DIV = SF_IR_OPCODE_DIV"
| "sf_type_operation_to_opcode SF_OP_TYPE_NEGATE = SF_IR_OPCODE_NEGATE"
| "sf_type_operation_to_opcode SF_OP_TYPE_BITWISE_AND = SF_IR_OPCODE_BITWISE_AND"
| "sf_type_operation_to_opcode SF_OP_TYPE_BITWISE_OR = SF_IR_OPCODE_BITWISE_OR"
| "sf_type_operation_to_opcode SF_OP_TYPE_BITWISE_XOR = SF_IR_OPCODE_BITWISE_XOR"
| "sf_type_operation_to_opcode SF_OP_TYPE_BITWISE_RSHIFT = SF_IR_OPCODE_BITWISE_RSHIFT"
| "sf_type_operation_to_opcode SF_OP_TYPE_BITWISE_LSHIFT = SF_IR_OPCODE_BITWISE_LSHIFT"
| "sf_type_operation_to_opcode SF_OP_TYPE_BITWISE_NOT = SF_IR_OPCODE_BITWISE_NOT"
| "sf_type_operation_to_opcode SF_OP_TYPE_RELATIONAL_EQUAL = SF_IR_OPCODE_RELATIONAL_EQUAL"
| "sf_type_operation_to_opcode SF_OP_TYPE_RELATIONAL_NOT_EQUAL = SF_IR_OPCODE_RELATIONAL_NOT_EQUAL"
| "sf_type_operation_to_opcode SF_OP_TYPE_RELATIONAL_LESS = SF_IR_OPCODE_RELATIONAL_LESS"
| "sf_type_operation_to_opcode SF_OP_TYPE_RELATIONAL_LESS_EQUAL = SF_IR_OPCODE_RELATIONAL_LESS_EQUAL"
| "sf_type_operation_to_opcode SF_OP_TYPE_RELATIONAL_GREATER = SF_IR_OPCODE_RELATIONAL_GREATER"
| "sf_type_operation_to_opcode SF_OP_TYPE_RELATIONAL_GREATER_EQUAL =
     SF_IR_OPCODE_RELATIONAL_GREATER_EQUAL"
| "sf_type_operation_to_opcode SF_OP_TYPE_LOGICAL_AND = SF_IR_OPCODE_LOGICAL_AND"
| "sf_type_operation_to_opcode SF_OP_TYPE_LOGICAL_OR = SF_IR_OPCODE_LOGICAL_OR"
| "sf_type_operation_to_opcode SF_OP_TYPE_LOGICAL_NOT = SF_IR_OPCODE_LOGICAL_NOT"
| "sf_type_operation_to_opcode _ = SF_IR_OPCODE_INVALID"

section \<open>Operation classes (\<^verbatim>\<open>semantic_internal.h\<close>)\<close>

definition sf_op_is_logical :: "sf_ir_operation_type \<Rightarrow> bool" where
  "sf_op_is_logical op \<longleftrightarrow> op = SF_OP_TYPE_LOGICAL_AND \<or> op = SF_OP_TYPE_LOGICAL_OR"

definition sf_op_is_shift :: "sf_ir_operation_type \<Rightarrow> bool" where
  "sf_op_is_shift op \<longleftrightarrow> op = SF_OP_TYPE_BITWISE_LSHIFT \<or> op = SF_OP_TYPE_BITWISE_RSHIFT"

definition sf_op_is_relational :: "sf_ir_operation_type \<Rightarrow> bool" where
  "sf_op_is_relational op \<longleftrightarrow>
     op = SF_OP_TYPE_RELATIONAL_EQUAL \<or> op = SF_OP_TYPE_RELATIONAL_NOT_EQUAL \<or>
     op = SF_OP_TYPE_RELATIONAL_LESS \<or> op = SF_OP_TYPE_RELATIONAL_LESS_EQUAL \<or>
     op = SF_OP_TYPE_RELATIONAL_GREATER \<or> op = SF_OP_TYPE_RELATIONAL_GREATER_EQUAL"

section \<open>The ranges behind the tables\<close>

text \<open>The least and greatest value a variable of an integer type can hold.\<close>

definition type_min :: "sf_value_type \<Rightarrow> int" where
  "type_min t = (if sf_type_value_is_signed t then - (2 ^ (sf_type_value_width_bits t - 1)) else 0)"

definition type_max :: "sf_value_type \<Rightarrow> int" where
  "type_max t = (if sf_type_value_is_signed t then 2 ^ (sf_type_value_width_bits t - 1) - 1
                 else 2 ^ sf_type_value_width_bits t - 1)"

lemma uint_literal_fits_iff:
  "sf_type_value_uint_literal_fits t v \<longleftrightarrow> sf_type_value_is_integer t \<and> uint v \<le> type_max t"
proof -
  have "uint v < 2 ^ 64" using uint_lt2p [of v] by simp
  then show ?thesis
    by (cases t) (auto simp: sf_type_value_is_integer_def type_max_def word_le_def)
qed

lemma signed_literal_fits_negated_iff:
  "sf_type_value_signed_literal_fits_negated t v \<longleftrightarrow>
   sf_type_value_is_signed t \<and> type_min t \<le> - uint v"
  by (cases t) (auto simp: type_min_def word_le_def)

lemma width_bytes_simps [simp]:
  "sf_type_value_width_bytes SF_VAL_TYPE_I8 = 1"
  "sf_type_value_width_bytes SF_VAL_TYPE_U8 = 1"
  "sf_type_value_width_bytes SF_VAL_TYPE_BOOL = 1"
  "sf_type_value_width_bytes SF_VAL_TYPE_I16 = 2"
  "sf_type_value_width_bytes SF_VAL_TYPE_U16 = 2"
  "sf_type_value_width_bytes SF_VAL_TYPE_I32 = 4"
  "sf_type_value_width_bytes SF_VAL_TYPE_U32 = 4"
  "sf_type_value_width_bytes SF_VAL_TYPE_I64 = 8"
  "sf_type_value_width_bytes SF_VAL_TYPE_U64 = 8"
  "sf_type_value_width_bytes SF_VAL_TYPE_VOID = 0"
  "sf_type_value_width_bytes SF_VAL_TYPE_UNRESOLVED = 8"
  by (simp_all add: sf_type_value_width_bytes_def)

lemma width_bytes_cases:
  "sf_type_value_width_bytes t \<in> {0, 1, 2, 4, 8}"
  by (cases t) simp_all

lemma is_integer_not_special [sf_simps]:
  "sf_type_value_is_integer t \<Longrightarrow>
   t \<noteq> SF_VAL_TYPE_UNRESOLVED \<and> t \<noteq> SF_VAL_TYPE_BOOL \<and> t \<noteq> SF_VAL_TYPE_VOID"
  by (cases t) (auto simp: sf_type_value_is_integer_def)

lemma same_group_iff:
  "sf_type_value_is_same_group a b \<longleftrightarrow>
   (sf_type_value_is_unsigned a \<and> sf_type_value_is_unsigned b) \<or>
   (sf_type_value_is_signed a \<and> sf_type_value_is_signed b) \<or>
   (a = SF_VAL_TYPE_BOOL \<and> b = SF_VAL_TYPE_BOOL)"
  by (simp add: sf_type_value_is_same_group_def)

lemma same_group_sym: "sf_type_value_is_same_group a b = sf_type_value_is_same_group b a"
  by (auto simp: same_group_iff)

lemma same_group_width_eq:
  "sf_type_value_is_same_group a b \<Longrightarrow>
   sf_type_value_width_bits a = sf_type_value_width_bits b \<Longrightarrow> a = b"
  by (cases a; cases b) (auto simp: same_group_iff)

lemma same_group_promote:
  "sf_type_value_is_same_group a b \<Longrightarrow>
   sf_type_value_promote a b \<in> {a, b} \<and>
   sf_type_value_is_same_group a (sf_type_value_promote a b) \<and>
   sf_type_value_width_bits (sf_type_value_promote a b) =
     max (sf_type_value_width_bits a) (sf_type_value_width_bits b)"
  by (auto simp: sf_type_value_promote_def same_group_iff)

lemma same_group_widening_range:
  assumes "sf_type_value_is_same_group a b" "sf_type_value_width_bits a \<le> sf_type_value_width_bits b"
    "sf_type_value_is_integer a"
  shows "type_min b \<le> type_min a \<and> type_max a \<le> type_max b"
  using assms
  by (cases a; cases b) (auto simp: same_group_iff type_min_def type_max_def sf_type_value_is_integer_def)

end
