(* ===== verification/Token_Utils.thy ===== *)
theory Token_Utils
  imports Type_Utils
begin

text \<open>
  Tokens: the enumeration \<^verbatim>\<open>sf_token_type\<close> and the structures \<^verbatim>\<open>sf_token\<close> of
  \<^verbatim>\<open>frontend/lexer.h\<close>, and the token classification of \<^verbatim>\<open>utils/token_utils.c\<close> that drives
  the parser. A token's value is the NUL-terminated contents of its 255-byte buffer. The
  \<^verbatim>\<open>switch\<close> of each conversion is a function on the token type (suffix \<open>_type\<close>), which the
  C function applies to the field \<^verbatim>\<open>type\<close> of its argument.
\<close>

section \<open>Tokens\<close>

datatype (plugins only: code size) sf_token_type =
    SF_TOKEN_TYPE_UNDEFINED | SF_TOKEN_TYPE_IDENTIFIER | SF_TOKEN_TYPE_INTEGER
    | SF_TOKEN_TYPE_KW_TRUE | SF_TOKEN_TYPE_KW_FALSE | SF_TOKEN_TYPE_PLUS
    | SF_TOKEN_TYPE_MINUS | SF_TOKEN_TYPE_STAR | SF_TOKEN_TYPE_SLASH | SF_TOKEN_TYPE_EQUAL
    | SF_TOKEN_TYPE_EQUAL_EQUAL | SF_TOKEN_TYPE_BANG | SF_TOKEN_TYPE_BANG_EQUAL
    | SF_TOKEN_TYPE_LESS | SF_TOKEN_TYPE_LESS_EQUAL | SF_TOKEN_TYPE_GREATER
    | SF_TOKEN_TYPE_GREATER_EQUAL | SF_TOKEN_TYPE_PLUS_EQUAL | SF_TOKEN_TYPE_MINUS_EQUAL
    | SF_TOKEN_TYPE_STAR_EQUAL | SF_TOKEN_TYPE_SLASH_EQUAL | SF_TOKEN_TYPE_AMP_EQUAL
    | SF_TOKEN_TYPE_PIPE_EQUAL | SF_TOKEN_TYPE_CARET_EQUAL | SF_TOKEN_TYPE_LEFT_SHIFT_EQUAL
    | SF_TOKEN_TYPE_RIGHT_SHIFT_EQUAL | SF_TOKEN_TYPE_PLUS_PLUS | SF_TOKEN_TYPE_MINUS_MINUS
    | SF_TOKEN_TYPE_AMP_AMP | SF_TOKEN_TYPE_PIPE_PIPE | SF_TOKEN_TYPE_AMP
    | SF_TOKEN_TYPE_PIPE | SF_TOKEN_TYPE_CARET | SF_TOKEN_TYPE_TILDE
    | SF_TOKEN_TYPE_LEFT_SHIFT | SF_TOKEN_TYPE_RIGHT_SHIFT | SF_TOKEN_TYPE_SEMICOLON
    | SF_TOKEN_TYPE_LPAREN | SF_TOKEN_TYPE_RPAREN | SF_TOKEN_TYPE_LBRACE
    | SF_TOKEN_TYPE_RBRACE | SF_TOKEN_TYPE_COMMA | SF_TOKEN_TYPE_DOT | SF_TOKEN_TYPE_KW_I8
    | SF_TOKEN_TYPE_KW_I16 | SF_TOKEN_TYPE_KW_I32 | SF_TOKEN_TYPE_KW_I64
    | SF_TOKEN_TYPE_KW_U8 | SF_TOKEN_TYPE_KW_U16 | SF_TOKEN_TYPE_KW_U32
    | SF_TOKEN_TYPE_KW_U64 | SF_TOKEN_TYPE_KW_BOOL | SF_TOKEN_TYPE_KW_VOID
    | SF_TOKEN_TYPE_KW_AS | SF_TOKEN_TYPE_KW_IF | SF_TOKEN_TYPE_KW_ELSE
    | SF_TOKEN_TYPE_KW_WHILE | SF_TOKEN_TYPE_KW_FN | SF_TOKEN_TYPE_KW_RETURN
    | SF_TOKEN_TYPE_KW_MUT | SF_TOKEN_TYPE_KW_PUB | SF_TOKEN_TYPE_KW_EXTERN
    | SF_TOKEN_TYPE_KW_IMPORT | SF_TOKEN_TYPE_EOF

record sf_token =
  tk_type :: sf_token_type
  tk_value :: string
  tk_span :: sf_span

definition SF_MAX_TOKEN_VALUE_SIZE :: nat where
  "SF_MAX_TOKEN_VALUE_SIZE = 255"

section \<open>Classification\<close>

definition sf_token_is_type :: "sf_token \<Rightarrow> bool" where
  "sf_token_is_type token \<longleftrightarrow> tk_type token \<in>
     {SF_TOKEN_TYPE_KW_I8, SF_TOKEN_TYPE_KW_I16, SF_TOKEN_TYPE_KW_I32, SF_TOKEN_TYPE_KW_I64,
      SF_TOKEN_TYPE_KW_U8, SF_TOKEN_TYPE_KW_U16, SF_TOKEN_TYPE_KW_U32, SF_TOKEN_TYPE_KW_U64,
      SF_TOKEN_TYPE_KW_BOOL, SF_TOKEN_TYPE_KW_VOID}"

definition sf_token_is_ident :: "sf_token \<Rightarrow> bool" where
  "sf_token_is_ident token \<longleftrightarrow> tk_type token = SF_TOKEN_TYPE_IDENTIFIER"

definition sf_token_is_block :: "sf_token \<Rightarrow> bool" where
  "sf_token_is_block token \<longleftrightarrow> tk_type token = SF_TOKEN_TYPE_LBRACE"

definition sf_token_is_if :: "sf_token \<Rightarrow> bool" where
  "sf_token_is_if token \<longleftrightarrow> tk_type token = SF_TOKEN_TYPE_KW_IF"

definition sf_token_is_while :: "sf_token \<Rightarrow> bool" where
  "sf_token_is_while token \<longleftrightarrow> tk_type token = SF_TOKEN_TYPE_KW_WHILE"

definition sf_token_is_fn :: "sf_token \<Rightarrow> bool" where
  "sf_token_is_fn token \<longleftrightarrow> tk_type token = SF_TOKEN_TYPE_KW_FN"

definition sf_token_is_return :: "sf_token \<Rightarrow> bool" where
  "sf_token_is_return token \<longleftrightarrow> tk_type token = SF_TOKEN_TYPE_KW_RETURN"

definition sf_token_is_qual :: "sf_token \<Rightarrow> bool" where
  "sf_token_is_qual token \<longleftrightarrow> tk_type token \<in>
     {SF_TOKEN_TYPE_KW_MUT, SF_TOKEN_TYPE_KW_EXTERN, SF_TOKEN_TYPE_KW_PUB}"

definition sf_token_is_import :: "sf_token \<Rightarrow> bool" where
  "sf_token_is_import token \<longleftrightarrow> tk_type token = SF_TOKEN_TYPE_KW_IMPORT"

definition sf_token_is_assign :: "sf_token \<Rightarrow> bool" where
  "sf_token_is_assign token \<longleftrightarrow> tk_type token \<in>
     {SF_TOKEN_TYPE_EQUAL, SF_TOKEN_TYPE_PLUS_EQUAL, SF_TOKEN_TYPE_MINUS_EQUAL,
      SF_TOKEN_TYPE_STAR_EQUAL, SF_TOKEN_TYPE_SLASH_EQUAL, SF_TOKEN_TYPE_AMP_EQUAL,
      SF_TOKEN_TYPE_PIPE_EQUAL, SF_TOKEN_TYPE_CARET_EQUAL, SF_TOKEN_TYPE_LEFT_SHIFT_EQUAL,
      SF_TOKEN_TYPE_RIGHT_SHIFT_EQUAL}"

section \<open>Conversions\<close>

fun token_to_type_type :: "sf_token_type \<Rightarrow> sf_value_type" where
  "token_to_type_type SF_TOKEN_TYPE_KW_I8 = SF_VAL_TYPE_I8"
| "token_to_type_type SF_TOKEN_TYPE_KW_I16 = SF_VAL_TYPE_I16"
| "token_to_type_type SF_TOKEN_TYPE_KW_I32 = SF_VAL_TYPE_I32"
| "token_to_type_type SF_TOKEN_TYPE_KW_I64 = SF_VAL_TYPE_I64"
| "token_to_type_type SF_TOKEN_TYPE_KW_U8 = SF_VAL_TYPE_U8"
| "token_to_type_type SF_TOKEN_TYPE_KW_U16 = SF_VAL_TYPE_U16"
| "token_to_type_type SF_TOKEN_TYPE_KW_U32 = SF_VAL_TYPE_U32"
| "token_to_type_type SF_TOKEN_TYPE_KW_U64 = SF_VAL_TYPE_U64"
| "token_to_type_type SF_TOKEN_TYPE_KW_BOOL = SF_VAL_TYPE_BOOL"
| "token_to_type_type SF_TOKEN_TYPE_KW_VOID = SF_VAL_TYPE_VOID"
| "token_to_type_type _ = SF_VAL_TYPE_UNRESOLVED"

definition sf_token_to_type :: "sf_token \<Rightarrow> sf_value_type" where
  "sf_token_to_type token = token_to_type_type (tk_type token)"

fun token_to_unary_op_type :: "sf_token_type \<Rightarrow> sf_ir_operation_type" where
  "token_to_unary_op_type SF_TOKEN_TYPE_MINUS = SF_OP_TYPE_NEGATE"
| "token_to_unary_op_type SF_TOKEN_TYPE_TILDE = SF_OP_TYPE_BITWISE_NOT"
| "token_to_unary_op_type SF_TOKEN_TYPE_BANG = SF_OP_TYPE_LOGICAL_NOT"
| "token_to_unary_op_type SF_TOKEN_TYPE_PLUS_PLUS = SF_OP_TYPE_PREFIX_INCREMENT"
| "token_to_unary_op_type SF_TOKEN_TYPE_MINUS_MINUS = SF_OP_TYPE_PREFIX_DECREMENT"
| "token_to_unary_op_type _ = SF_OP_TYPE_UNRESOLVED"

definition sf_token_to_unary_op :: "sf_token \<Rightarrow> sf_ir_operation_type" where
  "sf_token_to_unary_op token = token_to_unary_op_type (tk_type token)"

fun token_to_postfix_op_type :: "sf_token_type \<Rightarrow> sf_ir_operation_type" where
  "token_to_postfix_op_type SF_TOKEN_TYPE_PLUS_PLUS = SF_OP_TYPE_POSTFIX_INCREMENT"
| "token_to_postfix_op_type SF_TOKEN_TYPE_MINUS_MINUS = SF_OP_TYPE_POSTFIX_DECREMENT"
| "token_to_postfix_op_type _ = SF_OP_TYPE_UNRESOLVED"

definition sf_token_to_postfix_op :: "sf_token \<Rightarrow> sf_ir_operation_type" where
  "sf_token_to_postfix_op token = token_to_postfix_op_type (tk_type token)"

fun token_to_binary_op_type :: "sf_token_type \<Rightarrow> sf_ir_operation_type" where
  "token_to_binary_op_type SF_TOKEN_TYPE_PLUS = SF_OP_TYPE_ADD"
| "token_to_binary_op_type SF_TOKEN_TYPE_PLUS_EQUAL = SF_OP_TYPE_ADD"
| "token_to_binary_op_type SF_TOKEN_TYPE_MINUS = SF_OP_TYPE_SUB"
| "token_to_binary_op_type SF_TOKEN_TYPE_MINUS_EQUAL = SF_OP_TYPE_SUB"
| "token_to_binary_op_type SF_TOKEN_TYPE_STAR = SF_OP_TYPE_MUL"
| "token_to_binary_op_type SF_TOKEN_TYPE_STAR_EQUAL = SF_OP_TYPE_MUL"
| "token_to_binary_op_type SF_TOKEN_TYPE_SLASH = SF_OP_TYPE_DIV"
| "token_to_binary_op_type SF_TOKEN_TYPE_SLASH_EQUAL = SF_OP_TYPE_DIV"
| "token_to_binary_op_type SF_TOKEN_TYPE_AMP = SF_OP_TYPE_BITWISE_AND"
| "token_to_binary_op_type SF_TOKEN_TYPE_AMP_EQUAL = SF_OP_TYPE_BITWISE_AND"
| "token_to_binary_op_type SF_TOKEN_TYPE_PIPE = SF_OP_TYPE_BITWISE_OR"
| "token_to_binary_op_type SF_TOKEN_TYPE_PIPE_EQUAL = SF_OP_TYPE_BITWISE_OR"
| "token_to_binary_op_type SF_TOKEN_TYPE_CARET = SF_OP_TYPE_BITWISE_XOR"
| "token_to_binary_op_type SF_TOKEN_TYPE_CARET_EQUAL = SF_OP_TYPE_BITWISE_XOR"
| "token_to_binary_op_type SF_TOKEN_TYPE_RIGHT_SHIFT = SF_OP_TYPE_BITWISE_RSHIFT"
| "token_to_binary_op_type SF_TOKEN_TYPE_RIGHT_SHIFT_EQUAL = SF_OP_TYPE_BITWISE_RSHIFT"
| "token_to_binary_op_type SF_TOKEN_TYPE_LEFT_SHIFT = SF_OP_TYPE_BITWISE_LSHIFT"
| "token_to_binary_op_type SF_TOKEN_TYPE_LEFT_SHIFT_EQUAL = SF_OP_TYPE_BITWISE_LSHIFT"
| "token_to_binary_op_type SF_TOKEN_TYPE_EQUAL_EQUAL = SF_OP_TYPE_RELATIONAL_EQUAL"
| "token_to_binary_op_type SF_TOKEN_TYPE_BANG_EQUAL = SF_OP_TYPE_RELATIONAL_NOT_EQUAL"
| "token_to_binary_op_type SF_TOKEN_TYPE_LESS = SF_OP_TYPE_RELATIONAL_LESS"
| "token_to_binary_op_type SF_TOKEN_TYPE_LESS_EQUAL = SF_OP_TYPE_RELATIONAL_LESS_EQUAL"
| "token_to_binary_op_type SF_TOKEN_TYPE_GREATER = SF_OP_TYPE_RELATIONAL_GREATER"
| "token_to_binary_op_type SF_TOKEN_TYPE_GREATER_EQUAL = SF_OP_TYPE_RELATIONAL_GREATER_EQUAL"
| "token_to_binary_op_type SF_TOKEN_TYPE_AMP_AMP = SF_OP_TYPE_LOGICAL_AND"
| "token_to_binary_op_type SF_TOKEN_TYPE_PIPE_PIPE = SF_OP_TYPE_LOGICAL_OR"
| "token_to_binary_op_type _ = SF_OP_TYPE_UNRESOLVED"

definition sf_token_to_binary_op :: "sf_token \<Rightarrow> sf_ir_operation_type" where
  "sf_token_to_binary_op token = token_to_binary_op_type (tk_type token)"

section \<open>The classification agrees with the conversions\<close>

lemma token_is_type_iff [sf_simps]:
  "sf_token_is_type token \<longleftrightarrow> sf_token_to_type token \<noteq> SF_VAL_TYPE_UNRESOLVED"
  by (cases "tk_type token") (simp_all add: sf_token_is_type_def sf_token_to_type_def)

lemma token_assign_binary_op:
  "sf_token_is_assign token \<Longrightarrow> tk_type token \<noteq> SF_TOKEN_TYPE_EQUAL \<Longrightarrow>
   sf_token_to_binary_op token \<noteq> SF_OP_TYPE_UNRESOLVED"
  by (cases "tk_type token") (simp_all add: sf_token_is_assign_def sf_token_to_binary_op_def)

end
