(* ===== verification/Ast.thy ===== *)
theory Ast
  imports Token_Utils
begin

text \<open>
  The syntax tree, \<^verbatim>\<open>frontend/ast.h\<close> and \<^verbatim>\<open>frontend/ast.c\<close>. Each C node structure is a
  constructor; the common header \<^verbatim>\<open>sf_ast_node\<close> (its tag is the constructor) is the record
  \<open>sf_ast_base\<close>. Expressions and statements are two types; an expression used as a statement is
  \<open>SF_STMT_EXPR\<close>. The pointer from an identifier to its symbol is \<open>None\<close> until the analysis
  sets it, then a copy of the symbol. Growable arrays are lists. Nodes come from the arena; the
  models of the front end take the case that the arena can supply them (when it cannot, the C
  code logs a fatal error and the driver stops). The printers return the text they print.
\<close>

section \<open>Nodes\<close>

record sf_ast_base =
  ab_resolved :: sf_value_type
  ab_span :: sf_span

record sf_qualifiers =
  is_mutable :: bool
  is_public :: bool
  is_extern :: bool

definition no_qualifiers :: sf_qualifiers where
  "no_qualifiers = \<lparr>is_mutable = False, is_public = False, is_extern = False\<rparr>"

record sf_var_symbol =
  vs_name :: string
  vs_type :: sf_value_type
  vs_initialized :: bool
  vs_depth :: nat
  vs_id :: nat
  vs_span :: sf_span
  vs_qualifiers :: sf_qualifiers

record sf_parameter =
  pm_type :: sf_value_type
  pm_name :: string
  pm_id :: nat
  pm_qualifiers :: sf_qualifiers

datatype sf_expr =
    SF_NODE_LITERAL sf_ast_base sf_token_type string
  | SF_NODE_IDENTIFIER sf_ast_base string nat nat "sf_var_symbol option"
  | SF_NODE_BINARY sf_ast_base sf_expr sf_expr sf_ir_operation_type
  | SF_NODE_UNARY sf_ast_base sf_expr sf_ir_operation_type
  | SF_NODE_CAST sf_ast_base sf_expr sf_value_type
  | SF_NODE_FUNC_CALL sf_ast_base sf_expr "string option" "sf_expr list"

datatype sf_stmt =
    SF_NODE_VAR_DECL sf_ast_base sf_qualifiers sf_value_type string nat "sf_expr option"
  | SF_NODE_VAR_ASSIGN sf_ast_base string sf_expr nat
  | SF_NODE_BLOCK sf_ast_base "sf_stmt list"
  | SF_NODE_IF sf_ast_base sf_expr sf_stmt "sf_stmt option"
  | SF_NODE_WHILE sf_ast_base sf_expr sf_stmt
  | SF_NODE_FUNC_DECL sf_ast_base string "string option" sf_qualifiers "sf_parameter list" sf_value_type "sf_stmt option"
  | SF_NODE_RETURN sf_ast_base "sf_expr option"
  | SF_STMT_EXPR sf_expr

record sf_import_node =
  im_base :: sf_ast_base
  im_path :: string
  im_module_index :: nat
  im_resolved :: bool

record sf_program_node =
  pr_statements :: "sf_stmt list"
  pr_imports :: "sf_import_node list"

fun expr_base :: "sf_expr \<Rightarrow> sf_ast_base" where
  "expr_base (SF_NODE_LITERAL b _ _) = b"
| "expr_base (SF_NODE_IDENTIFIER b _ _ _ _) = b"
| "expr_base (SF_NODE_BINARY b _ _ _) = b"
| "expr_base (SF_NODE_UNARY b _ _) = b"
| "expr_base (SF_NODE_CAST b _ _) = b"
| "expr_base (SF_NODE_FUNC_CALL b _ _ _) = b"

abbreviation expr_resolved :: "sf_expr \<Rightarrow> sf_value_type" where
  "expr_resolved e \<equiv> ab_resolved (expr_base e)"

abbreviation expr_span :: "sf_expr \<Rightarrow> sf_span" where
  "expr_span e \<equiv> ab_span (expr_base e)"

fun set_base :: "sf_ast_base \<Rightarrow> sf_expr \<Rightarrow> sf_expr" where
  "set_base b (SF_NODE_LITERAL _ t v) = SF_NODE_LITERAL b t v"
| "set_base b (SF_NODE_IDENTIFIER _ n d i s) = SF_NODE_IDENTIFIER b n d i s"
| "set_base b (SF_NODE_BINARY _ l r op) = SF_NODE_BINARY b l r op"
| "set_base b (SF_NODE_UNARY _ e op) = SF_NODE_UNARY b e op"
| "set_base b (SF_NODE_CAST _ e t) = SF_NODE_CAST b e t"
| "set_base b (SF_NODE_FUNC_CALL _ c l as) = SF_NODE_FUNC_CALL b c l as"

definition set_resolved :: "sf_value_type \<Rightarrow> sf_expr \<Rightarrow> sf_expr" where
  "set_resolved t e = set_base ((expr_base e)\<lparr>ab_resolved := t\<rparr>) e"

lemma expr_base_set_base [simp]: "expr_base (set_base b e) = b"
  by (cases e) auto

lemma expr_base_set_resolved [simp]: "expr_base (set_resolved t e) = (expr_base e)\<lparr>ab_resolved := t\<rparr>"
  by (simp add: set_resolved_def)

section \<open>Constructors\<close>

definition new_node :: "sf_span \<Rightarrow> sf_ast_base" where
  "new_node span = \<lparr>ab_resolved = SF_VAL_TYPE_UNRESOLVED, ab_span = span\<rparr>"

definition sf_new_program_node :: sf_program_node where
  "sf_new_program_node = \<lparr>pr_statements = [], pr_imports = []\<rparr>"

definition sf_new_block_node :: "sf_span \<Rightarrow> sf_stmt" where
  "sf_new_block_node span = SF_NODE_BLOCK (new_node span) []"

definition sf_new_literal_node :: "string \<Rightarrow> sf_token_type \<Rightarrow> sf_span \<Rightarrow> sf_expr" where
  "sf_new_literal_node value token_type span = SF_NODE_LITERAL (new_node span) token_type value"

definition sf_new_identifier_node :: "string \<Rightarrow> sf_span \<Rightarrow> sf_expr" where
  "sf_new_identifier_node name span = SF_NODE_IDENTIFIER (new_node span) name 0 0 None"

definition sf_new_binary_node :: "sf_expr \<Rightarrow> sf_expr \<Rightarrow> sf_ir_operation_type \<Rightarrow> sf_span \<Rightarrow> sf_expr" where
  "sf_new_binary_node left right op span = SF_NODE_BINARY (new_node span) left right op"

definition sf_new_unary_node :: "sf_expr \<Rightarrow> sf_ir_operation_type \<Rightarrow> sf_span \<Rightarrow> sf_expr" where
  "sf_new_unary_node operand op span = SF_NODE_UNARY (new_node span) operand op"

definition sf_new_cast_node :: "sf_expr \<Rightarrow> sf_value_type \<Rightarrow> sf_span \<Rightarrow> sf_expr" where
  "sf_new_cast_node operand target_type span = SF_NODE_CAST (new_node span) operand target_type"

definition sf_new_var_decl_node ::
  "string \<Rightarrow> sf_value_type \<Rightarrow> sf_expr option \<Rightarrow> sf_qualifiers \<Rightarrow> sf_span \<Rightarrow> sf_stmt" where
  "sf_new_var_decl_node name type value qualifiers span =
     SF_NODE_VAR_DECL (new_node span) qualifiers type name 0 value"

definition sf_new_var_assign_node :: "string \<Rightarrow> sf_expr \<Rightarrow> sf_span \<Rightarrow> sf_stmt" where
  "sf_new_var_assign_node name value span = SF_NODE_VAR_ASSIGN (new_node span) name value 0"

definition sf_new_if_node :: "sf_expr \<Rightarrow> sf_stmt \<Rightarrow> sf_stmt option \<Rightarrow> sf_span \<Rightarrow> sf_stmt" where
  "sf_new_if_node condition branch_then branch_else span =
     SF_NODE_IF (new_node span) condition branch_then branch_else"

definition sf_new_while_node :: "sf_expr \<Rightarrow> sf_stmt \<Rightarrow> sf_span \<Rightarrow> sf_stmt" where
  "sf_new_while_node condition branch_do span = SF_NODE_WHILE (new_node span) condition branch_do"

definition sf_new_func_decl_node :: "string \<Rightarrow> sf_value_type \<Rightarrow> sf_qualifiers \<Rightarrow> sf_span \<Rightarrow> sf_stmt" where
  "sf_new_func_decl_node name return_type qualifiers span =
     SF_NODE_FUNC_DECL (new_node span) name None qualifiers [] return_type None"

definition sf_new_func_call_node :: "sf_expr \<Rightarrow> sf_span \<Rightarrow> sf_expr" where
  "sf_new_func_call_node callee span = SF_NODE_FUNC_CALL (new_node span) callee None []"

definition sf_new_return_node :: "sf_expr option \<Rightarrow> sf_span \<Rightarrow> sf_stmt" where
  "sf_new_return_node value span = SF_NODE_RETURN (new_node span) value"

definition sf_new_import_node :: "string \<Rightarrow> sf_span \<Rightarrow> sf_import_node" where
  "sf_new_import_node path span =
     \<lparr>im_base = new_node span, im_path = path, im_module_index = 0, im_resolved = False\<rparr>"

definition sf_program_add_statement :: "sf_program_node \<Rightarrow> sf_stmt \<Rightarrow> sf_program_node" where
  "sf_program_add_statement program stmt = program\<lparr>pr_statements := pr_statements program @ [stmt]\<rparr>"

definition sf_program_add_import :: "sf_program_node \<Rightarrow> sf_import_node \<Rightarrow> sf_program_node" where
  "sf_program_add_import program imp = program\<lparr>pr_imports := pr_imports program @ [imp]\<rparr>"

fun sf_block_add_statement :: "sf_stmt \<Rightarrow> sf_stmt \<Rightarrow> sf_stmt" where
  "sf_block_add_statement (SF_NODE_BLOCK b stmts) stmt = SF_NODE_BLOCK b (stmts @ [stmt])"
| "sf_block_add_statement other stmt = other"

fun sf_function_add_parameter :: "sf_stmt \<Rightarrow> sf_parameter \<Rightarrow> sf_stmt" where
  "sf_function_add_parameter (SF_NODE_FUNC_DECL b n l q ps r body) param =
     SF_NODE_FUNC_DECL b n l q (ps @ [param]) r body"
| "sf_function_add_parameter other param = other"

fun sf_call_add_argument :: "sf_expr \<Rightarrow> sf_expr \<Rightarrow> sf_expr" where
  "sf_call_add_argument (SF_NODE_FUNC_CALL b c l as) argument = SF_NODE_FUNC_CALL b c l (as @ [argument])"
| "sf_call_add_argument other argument = other"

section \<open>Printing\<close>

definition print_indent :: "nat \<Rightarrow> string" where
  "print_indent indent = concat (replicate indent ''  '')"

definition print_line :: "nat \<Rightarrow> string \<Rightarrow> string" where
  "print_line indent text = print_indent indent @ text @ [CHR 0x0A]"

fun print_expr :: "sf_expr \<Rightarrow> nat \<Rightarrow> string" where
  "print_expr (SF_NODE_LITERAL _ _ value) indent = print_line indent (''Literal '' @ value)"
| "print_expr (SF_NODE_IDENTIFIER _ name _ _ _) indent = print_line indent (''Identifier '' @ name)"
| "print_expr (SF_NODE_BINARY _ left right op) indent =
     print_line indent (''Binary '' @ sf_type_operation_name op) @
     print_expr left (indent + 1) @ print_expr right (indent + 1)"
| "print_expr (SF_NODE_UNARY _ operand op) indent =
     print_line indent (''Unary '' @ sf_type_operation_name op) @ print_expr operand (indent + 1)"
| "print_expr (SF_NODE_CAST _ operand target_type) indent =
     print_line indent (''Cast '' @ sf_type_value_name target_type) @ print_expr operand (indent + 1)"
| "print_expr (SF_NODE_FUNC_CALL _ callee _ arguments) indent =
     print_line indent ''Call'' @ print_line (indent + 1) ''Callee'' @ print_expr callee (indent + 2) @
     print_line (indent + 1) ''Arguments'' @ concat (map (\<lambda>a. print_expr a (indent + 2)) arguments)"

definition print_parameter :: "nat \<Rightarrow> sf_parameter \<Rightarrow> string" where
  "print_parameter indent p = print_line indent (sf_type_value_name (pm_type p) @ '' '' @ pm_name p)"

fun print_stmt :: "sf_stmt \<Rightarrow> nat \<Rightarrow> string" where
  "print_stmt (SF_NODE_VAR_DECL _ _ var_type name _ value) indent =
     print_line indent (''VarDecl '' @ sf_type_value_name var_type @ '' '' @ name) @
     (case value of None \<Rightarrow> [] | Some e \<Rightarrow> print_expr e (indent + 1))"
| "print_stmt (SF_NODE_VAR_ASSIGN _ name value _) indent =
     print_line indent (''Assign '' @ name) @ print_expr value (indent + 1)"
| "print_stmt (SF_NODE_BLOCK _ statements) indent =
     print_line indent ''Block'' @ concat (map (\<lambda>s. print_stmt s (indent + 1)) statements)"
| "print_stmt (SF_NODE_IF _ condition branch_then branch_else) indent =
     print_line indent ''If'' @ print_line (indent + 1) ''Condition'' @ print_expr condition (indent + 2) @
     print_line (indent + 1) ''Then'' @ print_stmt branch_then (indent + 2) @
     (case branch_else of None \<Rightarrow> []
      | Some s \<Rightarrow> print_line (indent + 1) ''Else'' @ print_stmt s (indent + 2))"
| "print_stmt (SF_NODE_WHILE _ condition branch_do) indent =
     print_line indent ''While'' @ print_line (indent + 1) ''Condition'' @ print_expr condition (indent + 2) @
     print_line (indent + 1) ''Do'' @ print_stmt branch_do (indent + 2)"
| "print_stmt (SF_NODE_FUNC_DECL _ name _ _ parameters return_type body) indent =
     print_line indent (''Function '' @ name @ '' '' @ sf_type_value_name return_type) @
     print_line (indent + 1) ''Parameters'' @ concat (map (print_parameter (indent + 2)) parameters) @
     print_line (indent + 1) ''Body'' @
     (case body of None \<Rightarrow> [] | Some s \<Rightarrow> print_stmt s (indent + 2))"
| "print_stmt (SF_NODE_RETURN _ value) indent =
     print_line indent ''Return'' @ (case value of None \<Rightarrow> [] | Some e \<Rightarrow> print_expr e (indent + 1))"
| "print_stmt (SF_STMT_EXPR e) indent = print_expr e indent"

definition print_import_node :: "nat \<Rightarrow> sf_import_node \<Rightarrow> string" where
  "print_import_node indent node = print_line indent (''Import '' @ im_path node)"

definition print_program_node :: "sf_program_node \<Rightarrow> nat \<Rightarrow> string" where
  "print_program_node node indent =
     print_line indent ''Program'' @
     (if pr_imports node \<noteq> []
      then print_line (indent + 1) ''Imports'' @ concat (map (print_import_node (indent + 2)) (pr_imports node))
      else []) @
     (if pr_statements node \<noteq> []
      then print_line (indent + 1) ''Statements'' @
           concat (map (\<lambda>s. print_stmt s (indent + 2)) (pr_statements node))
      else [])"

definition sf_print_ast :: "sf_program_node \<Rightarrow> string" where
  "sf_print_ast root = print_program_node root 0"

end
