(* ===== verification/Ir.thy ===== *)
theory Ir
  imports Mangle Ast "HOL-Library.Monad_Syntax"
begin

text \<open>
  The intermediate representation, \<^verbatim>\<open>backend/ir/ir.h\<close>, and the lowering of the annotated program to
  it, \<^verbatim>\<open>backend/ir/ir.c\<close>. An operand is a tagged union; the operations of a function are a list. A
  context points to the operations and to the temporary counter of the function whose code is
  generated: it is modelled by that function. The context of the program has null pointers, it
  is \<open>None\<close>, and using it is the result \<open>None\<close>. Memory is available, and names are shorter than
  \<^verbatim>\<open>INT_MAX\<close>. The printers return the text they print.
\<close>

section \<open>Operands, operations, functions and programs\<close>

datatype sf_ir_operand =
    SF_IR_OPERAND_TYPE_NONE
  | SF_IR_OPERAND_TYPE_TEMPORARY sf_value_type nat
  | SF_IR_OPERAND_TYPE_VARIABLE sf_value_type string
  | SF_IR_OPERAND_TYPE_IMMEDIATE sf_value_type string
  | SF_IR_OPERAND_TYPE_LABEL nat
  | SF_IR_OPERAND_TYPE_FUNCTION sf_value_type string

fun op_value_type :: "sf_ir_operand \<Rightarrow> sf_value_type" where
  "op_value_type (SF_IR_OPERAND_TYPE_TEMPORARY t _) = t"
| "op_value_type (SF_IR_OPERAND_TYPE_VARIABLE t _) = t"
| "op_value_type (SF_IR_OPERAND_TYPE_IMMEDIATE t _) = t"
| "op_value_type (SF_IR_OPERAND_TYPE_FUNCTION t _) = t"
| "op_value_type _ = SF_VAL_TYPE_UNRESOLVED"

abbreviation k_no_operand :: sf_ir_operand where
  "k_no_operand \<equiv> SF_IR_OPERAND_TYPE_NONE"

record sf_ir_operation =
  io_opcode :: sf_ir_opcode
  io_operand1 :: sf_ir_operand
  io_operand2 :: sf_ir_operand
  io_operand3 :: sf_ir_operand

record sf_ir_function =
  fn_operations :: "sf_ir_operation list"
  fn_parameters :: "sf_parameter list"
  fn_return_type :: sf_value_type
  fn_qualifiers :: sf_qualifiers
  fn_name :: string
  fn_next_temp :: nat
  fn_defined :: bool

record sf_ir_program =
  ip_functions :: "sf_ir_function list"
  ip_next_label :: nat
  ip_externs :: "string list"

type_synonym sf_ir_context = "sf_ir_function option"

section \<open>Emitting\<close>

definition context_from_program :: sf_ir_context where
  "context_from_program = None"

definition context_from_function :: "sf_ir_function \<Rightarrow> sf_ir_context" where
  "context_from_function function = Some function"

definition push :: "sf_ir_context \<Rightarrow> sf_ir_operation \<Rightarrow> sf_ir_context option" where
  "push context operation =
     (case context of
        None \<Rightarrow> None
      | Some f \<Rightarrow> Some (Some (f\<lparr>fn_operations := fn_operations f @ [operation]\<rparr>)))"

definition emit :: "sf_ir_context \<Rightarrow> sf_ir_opcode \<Rightarrow> sf_ir_operand \<Rightarrow> sf_ir_operand \<Rightarrow> sf_ir_operand \<Rightarrow>
   sf_ir_context option" where
  "emit context opcode a b c = push context \<lparr>io_opcode = opcode, io_operand1 = a, io_operand2 = b, io_operand3 = c\<rparr>"

definition new_temporary :: "sf_ir_context \<Rightarrow> sf_value_type \<Rightarrow> (sf_ir_operand \<times> sf_ir_context) option" where
  "new_temporary context type =
     (case context of
        None \<Rightarrow> None
      | Some f \<Rightarrow> Some (SF_IR_OPERAND_TYPE_TEMPORARY type (fn_next_temp f),
                       Some (f\<lparr>fn_next_temp := fn_next_temp f + 1\<rparr>)))"

definition new_label :: "sf_ir_program \<Rightarrow> sf_ir_operand \<times> sf_ir_program" where
  "new_label program =
     (SF_IR_OPERAND_TYPE_LABEL (ip_next_label program), program\<lparr>ip_next_label := ip_next_label program + 1\<rparr>)"

definition new_immediate :: "sf_value_type \<Rightarrow> string \<Rightarrow> sf_ir_operand" where
  "new_immediate type value = SF_IR_OPERAND_TYPE_IMMEDIATE type value"

definition add_function :: "sf_ir_program \<Rightarrow> sf_ir_function \<Rightarrow> sf_ir_program" where
  "add_function program function = program\<lparr>ip_functions := ip_functions program @ [function]\<rparr>"

section \<open>Expressions\<close>

type_synonym generator = "sf_ir_context \<Rightarrow> sf_ir_operand option \<Rightarrow> (sf_ir_operand \<times> sf_ir_context) option"

definition destination :: "sf_ir_context \<Rightarrow> sf_ir_operand option \<Rightarrow> sf_value_type \<Rightarrow>
   (sf_ir_operand \<times> sf_ir_context) option" where
  "destination context hint type =
     (case hint of Some dst \<Rightarrow> Some (dst, context) | None \<Rightarrow> new_temporary context type)"

definition generate_binary :: "sf_ast_base \<Rightarrow> sf_ir_operation_type \<Rightarrow> generator \<Rightarrow> generator \<Rightarrow> generator" where
  "generate_binary b op generate_left generate_right context hint = do {
     (left, context) \<leftarrow> generate_left context None;
     (right, context) \<leftarrow> generate_right context None;
     (dst, context) \<leftarrow> destination context hint (ab_resolved b);
     context \<leftarrow> emit context (sf_type_operation_to_opcode op) dst left right;
     Some (dst, context) }"

definition generate_increment :: "sf_ast_base \<Rightarrow> sf_ir_operation_type \<Rightarrow> generator \<Rightarrow> generator" where
  "generate_increment b op generate_operand context hint = do {
     (variable, context) \<leftarrow> generate_operand context None;
     (let one = new_immediate (ab_resolved b) ''1'' in do {
     (updated, context) \<leftarrow> new_temporary context (ab_resolved b);
     (let is_increment = (op = SF_OP_TYPE_PREFIX_INCREMENT \<or> op = SF_OP_TYPE_POSTFIX_INCREMENT);
          is_postfix = (op = SF_OP_TYPE_POSTFIX_INCREMENT \<or> op = SF_OP_TYPE_POSTFIX_DECREMENT);
          opcode = (if is_increment then SF_IR_OPCODE_ADD else SF_IR_OPCODE_SUB)
      in do {
     (result, context) \<leftarrow>
       (if is_postfix
        then do { (result, context) \<leftarrow> new_temporary context (ab_resolved b);
                  context \<leftarrow> emit context SF_IR_OPCODE_ASSIGN result variable k_no_operand;
                  Some (result, context) }
        else Some (updated, context));
     context \<leftarrow> emit context opcode updated variable one;
     context \<leftarrow> emit context SF_IR_OPCODE_ASSIGN variable updated k_no_operand;
     Some (result, context) }) }) }"

definition generate_unary :: "sf_ast_base \<Rightarrow> sf_ir_operation_type \<Rightarrow> generator \<Rightarrow> generator" where
  "generate_unary b op generate_operand context hint =
     (if sf_type_is_increment_or_decrement op then generate_increment b op generate_operand context hint
      else do {
     (src, context) \<leftarrow> generate_operand context None;
     (dst, context) \<leftarrow> destination context hint (ab_resolved b);
     context \<leftarrow> emit context (sf_type_operation_to_opcode op) dst src k_no_operand;
     Some (dst, context) })"

definition generate_cast :: "sf_ast_base \<Rightarrow> generator \<Rightarrow> generator" where
  "generate_cast b generate_operand context hint = do {
     (src, context) \<leftarrow> generate_operand context None;
     (dst, context) \<leftarrow> destination context hint (ab_resolved b);
     context \<leftarrow> emit context SF_IR_OPCODE_CAST dst src k_no_operand;
     Some (dst, context) }"

definition generate_literal :: "sf_ast_base \<Rightarrow> sf_token_type \<Rightarrow> string \<Rightarrow> sf_ir_operand" where
  "generate_literal b token_type value =
     (let value1 = (if token_type = SF_TOKEN_TYPE_KW_TRUE then ''1''
                    else if token_type = SF_TOKEN_TYPE_KW_FALSE then ''0'' else value)
      in new_immediate (ab_resolved b) value1)"

definition generate_identifier :: "sf_ast_base \<Rightarrow> string \<Rightarrow> nat \<Rightarrow> sf_ir_operand" where
  "generate_identifier b name vid = SF_IR_OPERAND_TYPE_VARIABLE (ab_resolved b) (mangled_variable name vid)"

text \<open>The two loops of \<^verbatim>\<open>generate_call\<close>: the operands of the arguments, then the parameters.\<close>

fun generate_arguments :: "generator list \<Rightarrow> sf_ir_context \<Rightarrow> (sf_ir_operand list \<times> sf_ir_context) option" where
  "generate_arguments [] context = Some ([], context)"
| "generate_arguments (generate_argument # rest) context = do {
     (arg, context) \<leftarrow> generate_argument context None;
     (args, context) \<leftarrow> generate_arguments rest context;
     Some (arg # args, context) }"

fun emit_params :: "sf_ir_operand list \<Rightarrow> sf_ir_context \<Rightarrow> sf_ir_context option" where
  "emit_params [] context = Some context"
| "emit_params (arg # args) context = do {
     context \<leftarrow> emit context SF_IR_OPCODE_PARAM arg k_no_operand k_no_operand;
     emit_params args context }"

fun callee_text :: "sf_expr \<Rightarrow> string" where
  "callee_text (SF_NODE_IDENTIFIER _ name _ _ _) = name"
| "callee_text _ = []"

definition generate_call :: "sf_ast_base \<Rightarrow> sf_expr \<Rightarrow> string option \<Rightarrow> generator list \<Rightarrow> generator" where
  "generate_call b callee link generate_args context hint =
     (let func_operand = SF_IR_OPERAND_TYPE_FUNCTION (ab_resolved b)
            (case link of Some l \<Rightarrow> l | None \<Rightarrow> callee_text callee)
      in do {
     (args, context) \<leftarrow> generate_arguments generate_args context;
     context \<leftarrow> emit_params args context;
     (dst, context) \<leftarrow>
       (if ab_resolved b = SF_VAL_TYPE_VOID then Some (k_no_operand, context)
        else destination context hint (ab_resolved b));
     context \<leftarrow> emit context SF_IR_OPCODE_CALL dst func_operand k_no_operand;
     Some (dst, context) })"

fun generate_expression_into :: "sf_expr \<Rightarrow> generator" where
  "generate_expression_into (SF_NODE_BINARY b left right op) context hint =
     generate_binary b op (\<lambda>c h. generate_expression_into left c h) (\<lambda>c h. generate_expression_into right c h) context hint"
| "generate_expression_into (SF_NODE_UNARY b operand op) context hint =
     generate_unary b op (\<lambda>c h. generate_expression_into operand c h) context hint"
| "generate_expression_into (SF_NODE_CAST b operand target_type) context hint =
     generate_cast b (\<lambda>c h. generate_expression_into operand c h) context hint"
| "generate_expression_into (SF_NODE_LITERAL b token_type value) context hint =
     Some (generate_literal b token_type value, context)"
| "generate_expression_into (SF_NODE_IDENTIFIER b name depth vid symbol) context hint =
     Some (generate_identifier b name vid, context)"
| "generate_expression_into (SF_NODE_FUNC_CALL b callee link arguments) context hint =
     generate_call b callee link (map (\<lambda>a. \<lambda>c h. generate_expression_into a c h) arguments) context hint"

definition generate_expression :: "sf_expr \<Rightarrow> sf_ir_context \<Rightarrow> (sf_ir_operand \<times> sf_ir_context) option" where
  "generate_expression e context = generate_expression_into e context None"

section \<open>Statements\<close>

type_synonym statement_generator = "sf_ir_context \<Rightarrow> sf_ir_program \<Rightarrow> (sf_ir_context \<times> sf_ir_program) option"

definition generate_assignment :: "sf_ir_operand \<Rightarrow> sf_expr \<Rightarrow> sf_ir_context \<Rightarrow> sf_ir_context option" where
  "generate_assignment dst value context = do {
     (src, context) \<leftarrow> generate_expression_into value context (Some dst);
     (let wrote_directly =
            (case (src, dst) of
               (SF_IR_OPERAND_TYPE_VARIABLE _ n, SF_IR_OPERAND_TYPE_VARIABLE _ m) \<Rightarrow> n = m
             | _ \<Rightarrow> False)
      in if wrote_directly then Some context
         else emit context SF_IR_OPCODE_ASSIGN dst src k_no_operand) }"

definition generate_var_decl :: "sf_value_type \<Rightarrow> string \<Rightarrow> nat \<Rightarrow> sf_expr option \<Rightarrow> sf_ir_context \<Rightarrow> sf_ir_context option" where
  "generate_var_decl var_type name vid value context =
     (case value of
        None \<Rightarrow> Some context
      | Some e \<Rightarrow> generate_assignment (SF_IR_OPERAND_TYPE_VARIABLE var_type (mangled_variable name vid)) e context)"

definition generate_var_assign :: "sf_ast_base \<Rightarrow> string \<Rightarrow> nat \<Rightarrow> sf_expr \<Rightarrow> sf_ir_context \<Rightarrow> sf_ir_context option" where
  "generate_var_assign b name vid value context =
     generate_assignment (SF_IR_OPERAND_TYPE_VARIABLE (ab_resolved b) (mangled_variable name vid)) value context"

fun generate_block :: "statement_generator list \<Rightarrow> statement_generator" where
  "generate_block [] context program = Some (context, program)"
| "generate_block (generate # rest) context program = do {
     (context, program) \<leftarrow> generate context program;
     generate_block rest context program }"

definition generate_if :: "sf_expr \<Rightarrow> statement_generator \<Rightarrow> statement_generator option \<Rightarrow> statement_generator" where
  "generate_if condition generate_then generate_else context program = do {
     (cond, context) \<leftarrow> generate_expression condition context;
     (case new_label program of (else_id, program) \<Rightarrow>
       (case generate_else of
          None \<Rightarrow> do {
            context \<leftarrow> emit context SF_IR_OPCODE_JMP_COND else_id cond k_no_operand;
            (context, program) \<leftarrow> generate_then context program;
            context \<leftarrow> emit context SF_IR_OPCODE_LABEL else_id k_no_operand k_no_operand;
            Some (context, program) }
        | Some generate_branch \<Rightarrow>
            (case new_label program of (end_id, program) \<Rightarrow> do {
               context \<leftarrow> emit context SF_IR_OPCODE_JMP_COND else_id cond k_no_operand;
               (context, program) \<leftarrow> generate_then context program;
               context \<leftarrow> emit context SF_IR_OPCODE_JMP_INCOND end_id k_no_operand k_no_operand;
               context \<leftarrow> emit context SF_IR_OPCODE_LABEL else_id k_no_operand k_no_operand;
               (context, program) \<leftarrow> generate_branch context program;
               context \<leftarrow> emit context SF_IR_OPCODE_LABEL end_id k_no_operand k_no_operand;
               Some (context, program) }))) }"

definition generate_while :: "sf_expr \<Rightarrow> statement_generator \<Rightarrow> statement_generator" where
  "generate_while condition generate_do context program =
     (case new_label program of (start_id, program) \<Rightarrow>
       (case new_label program of (end_id, program) \<Rightarrow> do {
          context \<leftarrow> emit context SF_IR_OPCODE_LABEL start_id k_no_operand k_no_operand;
          (cond, context) \<leftarrow> generate_expression condition context;
          context \<leftarrow> emit context SF_IR_OPCODE_JMP_COND end_id cond k_no_operand;
          (context, program) \<leftarrow> generate_do context program;
          context \<leftarrow> emit context SF_IR_OPCODE_JMP_INCOND start_id k_no_operand k_no_operand;
          context \<leftarrow> emit context SF_IR_OPCODE_LABEL end_id k_no_operand k_no_operand;
          Some (context, program) }))"

definition ends_with_return :: "sf_ir_function \<Rightarrow> bool" where
  "ends_with_return func \<longleftrightarrow>
     0 < length (fn_operations func) \<and>
     io_opcode (fn_operations func ! (length (fn_operations func) - 1)) = SF_IR_OPCODE_RETURN"

text \<open>The copy of a parameter; its qualifiers are not read any more.\<close>

definition lower_parameter :: "sf_parameter \<Rightarrow> sf_parameter" where
  "lower_parameter p = p\<lparr>pm_name := mangled_variable (pm_name p) (pm_id p)\<rparr>"

definition generate_function ::
  "string \<Rightarrow> string option \<Rightarrow> sf_qualifiers \<Rightarrow> sf_parameter list \<Rightarrow> sf_value_type \<Rightarrow> statement_generator option \<Rightarrow>
   sf_ir_program \<Rightarrow> sf_ir_program option" where
  "generate_function name link qualifiers parameters return_type generate_body program =
     (let func_ir = \<lparr>fn_operations = [], fn_parameters = map lower_parameter parameters, fn_return_type = return_type,
                     fn_qualifiers = qualifiers, fn_name = (case link of Some l \<Rightarrow> l | None \<Rightarrow> name),
                     fn_next_temp = 0, fn_defined = generate_body \<noteq> None\<rparr>
      in case generate_body of
           None \<Rightarrow> Some (add_function program func_ir)
         | Some generate \<Rightarrow> do {
             (context, program) \<leftarrow> generate (context_from_function func_ir) program;
             context \<leftarrow>
               (if return_type = SF_VAL_TYPE_VOID \<and> \<not> ends_with_return (the context)
                then emit context SF_IR_OPCODE_RETURN k_no_operand k_no_operand k_no_operand
                else Some context);
             Some (add_function program (the context)) })"

definition generate_return :: "sf_expr option \<Rightarrow> sf_ir_context \<Rightarrow> sf_ir_context option" where
  "generate_return value context = do {
     (operand, context) \<leftarrow>
       (case value of None \<Rightarrow> Some (k_no_operand, context) | Some e \<Rightarrow> generate_expression e context);
     emit context SF_IR_OPCODE_RETURN operand k_no_operand k_no_operand }"

fun generate_statement :: "sf_stmt \<Rightarrow> statement_generator" where
  "generate_statement (SF_NODE_VAR_DECL b qualifiers var_type name vid value) context program =
     map_option (\<lambda>c. (c, program)) (generate_var_decl var_type name vid value context)"
| "generate_statement (SF_NODE_VAR_ASSIGN b name value vid) context program =
     map_option (\<lambda>c. (c, program)) (generate_var_assign b name vid value context)"
| "generate_statement (SF_NODE_BLOCK b statements) context program =
     generate_block (map (\<lambda>st. \<lambda>c p. generate_statement st c p) statements) context program"
| "generate_statement (SF_NODE_IF b condition branch_then branch_else) context program =
     generate_if condition (\<lambda>c p. generate_statement branch_then c p)
       (map_option (\<lambda>st. \<lambda>c p. generate_statement st c p) branch_else) context program"
| "generate_statement (SF_NODE_WHILE b condition branch_do) context program =
     generate_while condition (\<lambda>c p. generate_statement branch_do c p) context program"
| "generate_statement (SF_NODE_FUNC_DECL b name link qualifiers parameters return_type body) context program =
     map_option (\<lambda>p. (context, p))
       (generate_function name link qualifiers parameters return_type
          (map_option (\<lambda>st. \<lambda>c p. generate_statement st c p) body) program)"
| "generate_statement (SF_NODE_RETURN b value) context program =
     map_option (\<lambda>c. (c, program)) (generate_return value context)"
| "generate_statement (SF_STMT_EXPR e) context program =
     map_option (\<lambda>r. (snd r, program)) (generate_expression e context)"

section \<open>Programs\<close>

definition is_defined_here :: "sf_ir_program \<Rightarrow> string \<Rightarrow> bool" where
  "is_defined_here ir name \<longleftrightarrow> (\<exists>f \<in> set (ip_functions ir). fn_defined f \<and> fn_name f = name)"

definition has_extern :: "sf_ir_program \<Rightarrow> string \<Rightarrow> bool" where
  "has_extern ir name \<longleftrightarrow> name \<in> set (ip_externs ir)"

fun function_text :: "sf_ir_operand \<Rightarrow> string" where
  "function_text (SF_IR_OPERAND_TYPE_FUNCTION _ name) = name"
| "function_text _ = []"

definition collect_extern :: "sf_ir_operation \<Rightarrow> sf_ir_program \<Rightarrow> sf_ir_program" where
  "collect_extern op ir =
     (if io_opcode op \<noteq> SF_IR_OPCODE_CALL then ir
      else (let name = function_text (io_operand2 op)
            in if is_defined_here ir name \<or> has_extern ir name then ir
               else ir\<lparr>ip_externs := ip_externs ir @ [name]\<rparr>))"

definition collect_externs :: "sf_ir_program \<Rightarrow> sf_ir_program" where
  "collect_externs ir = fold (\<lambda>func. fold collect_extern (fn_operations func)) (ip_functions ir) ir"

definition sf_ir_generate :: "sf_program_node \<Rightarrow> sf_ir_program option" where
  "sf_ir_generate program = do {
     (context, ir) \<leftarrow> generate_block (map generate_statement (pr_statements program)) context_from_program
        \<lparr>ip_functions = [], ip_next_label = 0, ip_externs = []\<rparr>;
     Some (collect_externs ir) }"

section \<open>Printing\<close>

fun binary_symbol :: "sf_ir_opcode \<Rightarrow> string option" where
  "binary_symbol SF_IR_OPCODE_ADD = Some ''+''"
| "binary_symbol SF_IR_OPCODE_SUB = Some ''-''"
| "binary_symbol SF_IR_OPCODE_MULT = Some ''*''"
| "binary_symbol SF_IR_OPCODE_DIV = Some ''/''"
| "binary_symbol SF_IR_OPCODE_BITWISE_AND = Some ''&''"
| "binary_symbol SF_IR_OPCODE_BITWISE_OR = Some ''|''"
| "binary_symbol SF_IR_OPCODE_BITWISE_XOR = Some ''^''"
| "binary_symbol SF_IR_OPCODE_BITWISE_RSHIFT = Some ''>>''"
| "binary_symbol SF_IR_OPCODE_BITWISE_LSHIFT = Some ''<<''"
| "binary_symbol SF_IR_OPCODE_LOGICAL_AND = Some ''&&''"
| "binary_symbol SF_IR_OPCODE_LOGICAL_OR = Some ''||''"
| "binary_symbol SF_IR_OPCODE_RELATIONAL_EQUAL = Some ''==''"
| "binary_symbol SF_IR_OPCODE_RELATIONAL_NOT_EQUAL = Some ''!=''"
| "binary_symbol SF_IR_OPCODE_RELATIONAL_LESS = Some ''<''"
| "binary_symbol SF_IR_OPCODE_RELATIONAL_LESS_EQUAL = Some ''<=''"
| "binary_symbol SF_IR_OPCODE_RELATIONAL_GREATER = Some ''>''"
| "binary_symbol SF_IR_OPCODE_RELATIONAL_GREATER_EQUAL = Some ''>=''"
| "binary_symbol _ = None"

fun unary_symbol :: "sf_ir_opcode \<Rightarrow> string option" where
  "unary_symbol SF_IR_OPCODE_NEGATE = Some ''-''"
| "unary_symbol SF_IR_OPCODE_BITWISE_NOT = Some ''~''"
| "unary_symbol SF_IR_OPCODE_LOGICAL_NOT = Some ''!''"
| "unary_symbol _ = None"

fun print_operand :: "sf_ir_operand \<Rightarrow> string" where
  "print_operand SF_IR_OPERAND_TYPE_NONE = []"
| "print_operand (SF_IR_OPERAND_TYPE_TEMPORARY t n) = ''t'' @ dec_digits n @ '':'' @ sf_type_value_name t"
| "print_operand (SF_IR_OPERAND_TYPE_VARIABLE t n) = n @ '':'' @ sf_type_value_name t"
| "print_operand (SF_IR_OPERAND_TYPE_IMMEDIATE t v) = v @ '':'' @ sf_type_value_name t"
| "print_operand (SF_IR_OPERAND_TYPE_LABEL n) = ''L'' @ dec_digits n"
| "print_operand (SF_IR_OPERAND_TYPE_FUNCTION t n) = n"

fun label_id :: "sf_ir_operand \<Rightarrow> nat" where
  "label_id (SF_IR_OPERAND_TYPE_LABEL n) = n"
| "label_id _ = 0"

definition is_control_flow :: "sf_ir_opcode \<Rightarrow> bool" where
  "is_control_flow opcode \<longleftrightarrow> opcode = SF_IR_OPCODE_LABEL \<or> opcode = SF_IR_OPCODE_JMP_COND \<or>
     opcode = SF_IR_OPCODE_JMP_INCOND \<or> opcode = SF_IR_OPCODE_RETURN \<or> opcode = SF_IR_OPCODE_PARAM"

text \<open>The last switch of \<^verbatim>\<open>print_operation\<close>, for the operations that have no symbol.\<close>

definition print_other :: "sf_ir_operation \<Rightarrow> string" where
  "print_other op =
     (case io_opcode op of
        SF_IR_OPCODE_LABEL \<Rightarrow> ''label .L'' @ dec_digits (label_id (io_operand1 op)) @ '':''
      | SF_IR_OPCODE_JMP_COND \<Rightarrow>
          ''if not '' @ print_operand (io_operand2 op) @ '' jmp L'' @ dec_digits (label_id (io_operand1 op))
      | SF_IR_OPCODE_JMP_INCOND \<Rightarrow> ''jmp L'' @ dec_digits (label_id (io_operand1 op))
      | SF_IR_OPCODE_ASSIGN \<Rightarrow> print_operand (io_operand2 op)
      | SF_IR_OPCODE_CAST \<Rightarrow> ''cast '' @ print_operand (io_operand2 op)
      | SF_IR_OPCODE_RETURN \<Rightarrow>
          ''return'' @ (if io_operand1 op \<noteq> SF_IR_OPERAND_TYPE_NONE then '' '' @ print_operand (io_operand1 op) else [])
      | SF_IR_OPCODE_PARAM \<Rightarrow> ''param '' @ print_operand (io_operand1 op)
      | SF_IR_OPCODE_CALL \<Rightarrow> ''call '' @ print_operand (io_operand2 op)
      | _ \<Rightarrow> print_operand (io_operand2 op) @ '' ? '' @ print_operand (io_operand3 op))"

definition print_operation :: "sf_ir_operation \<Rightarrow> string" where
  "print_operation op =
     (if \<not> is_control_flow (io_opcode op) \<and> io_operand1 op \<noteq> SF_IR_OPERAND_TYPE_NONE
      then print_operand (io_operand1 op) @ '' = '' else []) @
     (case binary_symbol (io_opcode op) of
        Some binary \<Rightarrow> print_operand (io_operand2 op) @ '' '' @ binary @ '' '' @ print_operand (io_operand3 op)
      | None \<Rightarrow>
          (case unary_symbol (io_opcode op) of
             Some unary \<Rightarrow> unary @ print_operand (io_operand2 op)
           | None \<Rightarrow> print_other op)) @
     [CHR 0x0A]"

definition print_operations :: "sf_ir_operation list \<Rightarrow> string" where
  "print_operations operations = concat (map print_operation operations)"

fun print_ir_parameters :: "sf_parameter list \<Rightarrow> string" where
  "print_ir_parameters [] = []"
| "print_ir_parameters (p # ps) =
     print_operand (SF_IR_OPERAND_TYPE_VARIABLE (pm_type p) (pm_name p)) @
     (if ps \<noteq> [] then '', '' else []) @ print_ir_parameters ps"

definition sf_ir_print :: "sf_ir_program \<Rightarrow> string" where
  "sf_ir_print program =
     concat (map (\<lambda>func. ''function '' @ fn_name func @ ''('' @ print_ir_parameters (fn_parameters func) @ '') '' @
                         sf_type_value_name (fn_return_type func) @
                         (if 0 < length (fn_operations func) then '':'' else []) @ [CHR 0x0A] @
                         print_operations (fn_operations func))
                 (ip_functions program))"

end
