(* ===== verification/Stack.thy ===== *)
theory Stack
  imports Ir
begin

text \<open>
  The stack frame of a function, \<^verbatim>\<open>backend/codegen/stack.c\<close>. The map is the list of its entries; memory
  is available, so \<^verbatim>\<open>ensure_capacity\<close> and the copy of a name succeed. Offsets are relative to \<^verbatim>\<open>rbp\<close> and
  negative; they are integers here, a frame stays far from the bounds of \<^verbatim>\<open>int64_t\<close>. The functions that
  write \<^verbatim>\<open>*next_offset\<close> return it with the map. The frame size of \<^verbatim>\<open>codegen.c\<close> is here too.
\<close>

section \<open>Names\<close>

definition k_temporary_name_size :: nat where
  "k_temporary_name_size = 16"

text \<open>\<^verbatim>\<open>snprintf\<close> with a buffer of \<open>n\<close> bytes.\<close>

definition snprintf_text :: "nat \<Rightarrow> string \<Rightarrow> string" where
  "snprintf_text n s = take (n - 1) s"

section \<open>The map\<close>

record sf_stack_entry =
  ek_name :: string
  ek_offset :: int
  ek_type :: sf_value_type

type_synonym sf_stack_map = "sf_stack_entry list"

definition sf_stack_lookup_entry :: "sf_stack_map \<Rightarrow> string \<Rightarrow> sf_stack_entry option" where
  "sf_stack_lookup_entry m name = find (\<lambda>entry. ek_name entry = name) m"

definition sf_stack_lookup :: "sf_stack_map \<Rightarrow> string \<Rightarrow> int" where
  "sf_stack_lookup m name =
     (case sf_stack_lookup_entry m name of Some entry \<Rightarrow> ek_offset entry | None \<Rightarrow> 0)"

definition sf_stack_push :: "sf_stack_map \<Rightarrow> sf_stack_entry \<Rightarrow> sf_stack_map" where
  "sf_stack_push m entry = m @ [entry]"

definition next_aligned_offset :: "int \<Rightarrow> nat \<Rightarrow> int" where
  "next_aligned_offset current width =
     (let position = nat (- current) + width;
          position1 = (position + width - 1) div width * width
      in - int position1)"

definition add_entry :: "sf_stack_map \<Rightarrow> string \<Rightarrow> sf_value_type \<Rightarrow> int \<Rightarrow> sf_stack_map \<times> int" where
  "add_entry m name type next_offset =
     (let width = sf_type_value_width_bytes type
      in if width = 0 then (m, next_offset)
         else if sf_stack_lookup_entry m name \<noteq> None then (m, next_offset)
         else (let next_offset1 = next_aligned_offset next_offset width
               in (sf_stack_push m \<lparr>ek_name = name, ek_offset = next_offset1, ek_type = type\<rparr>, next_offset1)))"

definition sf_stack_register_operand :: "sf_stack_map \<Rightarrow> sf_ir_operand \<Rightarrow> int \<Rightarrow> sf_stack_map \<times> int" where
  "sf_stack_register_operand m op next_offset =
     (case op of
        SF_IR_OPERAND_TYPE_VARIABLE t n \<Rightarrow> add_entry m n t next_offset
      | SF_IR_OPERAND_TYPE_TEMPORARY t k \<Rightarrow>
          add_entry m (snprintf_text k_temporary_name_size (''t'' @ dec_digits k)) t next_offset
      | _ \<Rightarrow> (m, next_offset))"

text \<open>The two loops of \<^verbatim>\<open>sf_stack_populate\<close>.\<close>

fun populate_parameters :: "sf_parameter list \<Rightarrow> sf_stack_map \<Rightarrow> int \<Rightarrow> sf_stack_map \<times> int" where
  "populate_parameters [] m next_offset = (m, next_offset)"
| "populate_parameters (p # ps) m next_offset =
     (case sf_stack_register_operand m (SF_IR_OPERAND_TYPE_VARIABLE (pm_type p) (pm_name p)) next_offset of
        (m1, next1) \<Rightarrow> populate_parameters ps m1 next1)"

fun populate_operations :: "sf_ir_operation list \<Rightarrow> sf_stack_map \<Rightarrow> int \<Rightarrow> sf_stack_map \<times> int" where
  "populate_operations [] m next_offset = (m, next_offset)"
| "populate_operations (op # ops) m next_offset =
     (case sf_stack_register_operand m (io_operand1 op) next_offset of (m1, next1) \<Rightarrow>
      case sf_stack_register_operand m1 (io_operand2 op) next1 of (m2, next2) \<Rightarrow>
      case (if io_opcode op \<noteq> SF_IR_OPCODE_ASSIGN then sf_stack_register_operand m2 (io_operand3 op) next2
            else (m2, next2)) of (m3, next3) \<Rightarrow>
        populate_operations ops m3 next3)"

definition sf_stack_populate :: "sf_stack_map \<Rightarrow> sf_parameter list \<Rightarrow> sf_ir_operation list \<Rightarrow> sf_stack_map" where
  "sf_stack_populate m params operations =
     (case populate_parameters params m 0 of (m1, next1) \<Rightarrow>
        fst (populate_operations operations m1 next1))"

definition frame_size :: "sf_stack_map \<Rightarrow> int" where
  "frame_size m =
     (let stack_size = foldl (\<lambda>stack_size entry.
            let abs_offset = - ek_offset entry in if stack_size < abs_offset then abs_offset else stack_size) 0 m
      in (stack_size + 15) div 16 * 16)"

end
