(* ===== verification/Log_Text.thy ===== *)
theory Log_Text
  imports Log_State Stack
begin

text \<open>
  What the log prints, \<^verbatim>\<open>utils/log.c\<close>: the text of a call of \<^verbatim>\<open>sf_log\<close> with its colours, the source lines it
  shows, and the two source files it keeps, the input of the compilation (\<^verbatim>\<open>sf_log_set_source\<close>) and the
  file that was read last (\<^verbatim>\<open>load_source\<close>). Reading a file is the parameter \<open>fs\<close>, memory is available. The
  variadic arguments are the texts of \<open>li_args\<close>, and columns fit an \<^verbatim>\<open>int\<close>. The theorems show that the
  saved file makes no difference to what is printed, and which text a reader sees.
\<close>

section \<open>Colours and labels\<close>

definition SF_LOG_COLOR_RED :: string where "SF_LOG_COLOR_RED = CHR 0x1B # ''[31m''"
definition SF_LOG_COLOR_BRIGHT_BLACK :: string where "SF_LOG_COLOR_BRIGHT_BLACK = CHR 0x1B # ''[90m''"
definition SF_LOG_COLOR_BRIGHT_RED :: string where "SF_LOG_COLOR_BRIGHT_RED = CHR 0x1B # ''[91m''"
definition SF_LOG_COLOR_BRIGHT_GREEN :: string where "SF_LOG_COLOR_BRIGHT_GREEN = CHR 0x1B # ''[92m''"
definition SF_LOG_COLOR_BRIGHT_BLUE :: string where "SF_LOG_COLOR_BRIGHT_BLUE = CHR 0x1B # ''[94m''"
definition SF_LOG_COLOR_BRIGHT_MAGENTA :: string where "SF_LOG_COLOR_BRIGHT_MAGENTA = CHR 0x1B # ''[95m''"
definition SF_LOG_COLOR_BRIGHT_CYAN :: string where "SF_LOG_COLOR_BRIGHT_CYAN = CHR 0x1B # ''[96m''"
definition SF_LOG_COLOR_RESET :: string where "SF_LOG_COLOR_RESET = CHR 0x1B # ''[0m''"

lemmas colour_defs = SF_LOG_COLOR_RED_def SF_LOG_COLOR_BRIGHT_BLACK_def SF_LOG_COLOR_BRIGHT_RED_def
  SF_LOG_COLOR_BRIGHT_GREEN_def SF_LOG_COLOR_BRIGHT_BLUE_def SF_LOG_COLOR_BRIGHT_MAGENTA_def
  SF_LOG_COLOR_BRIGHT_CYAN_def SF_LOG_COLOR_RESET_def

fun severity_label :: "sf_log_severity \<Rightarrow> string" where
  "severity_label SF_LOG_SEVERITY_INFO = SF_LOG_COLOR_BRIGHT_CYAN @ ''info'' @ SF_LOG_COLOR_RESET"
| "severity_label SF_LOG_SEVERITY_WARNING = SF_LOG_COLOR_BRIGHT_MAGENTA @ ''warning'' @ SF_LOG_COLOR_RESET"
| "severity_label SF_LOG_SEVERITY_ERROR = SF_LOG_COLOR_BRIGHT_RED @ ''error'' @ SF_LOG_COLOR_RESET"
| "severity_label SF_LOG_SEVERITY_FATAL = SF_LOG_COLOR_RED @ ''fatal'' @ SF_LOG_COLOR_RESET"

text \<open>The numbers of the codes: the group in the upper four bits, then the place in the group.\<close>

fun error_code_num :: "sf_log_error_code \<Rightarrow> nat" where
  "error_code_num SF_LOG_GENERAL_INSUFFICIENT_MEMORY = 0x0000"
| "error_code_num SF_LOG_GENERAL_INTERNAL_ERROR = 0x0001"
| "error_code_num SF_LOG_DRIVER_NO_INPUT_FILE = 0x1000"
| "error_code_num SF_LOG_DRIVER_NO_OUTPUT_FILE = 0x1001"
| "error_code_num SF_LOG_DRIVER_UNKNOWN_FLAG = 0x1002"
| "error_code_num SF_LOG_DRIVER_CANNOT_OPEN_FILE = 0x1003"
| "error_code_num SF_LOG_DRIVER_NO_MODULE_PATH = 0x1004"
| "error_code_num SF_LOG_DRIVER_NO_MODULE_FILE = 0x1005"
| "error_code_num SF_LOG_PREP_TOO_MANY_DEFINES = 0x2000"
| "error_code_num SF_LOG_LEXER_UNDEFINED_TOKEN = 0x3000"
| "error_code_num SF_LOG_PARSER_UNEXPECTED_TOKEN = 0x4000"
| "error_code_num SF_LOG_PARSER_REPEATED_QUALIFIER = 0x4001"
| "error_code_num SF_LOG_PARSER_INVALID_IMPORT = 0x4002"
| "error_code_num SF_LOG_SEMANTIC_REDECLARATION = 0x5000"
| "error_code_num SF_LOG_SEMANTIC_REDEFINITION = 0x5001"
| "error_code_num SF_LOG_SEMANTIC_UNDECLARED = 0x5002"
| "error_code_num SF_LOG_SEMANTIC_UNINITIALIZED = 0x5003"
| "error_code_num SF_LOG_SEMANTIC_TYPE_MISMATCH = 0x5004"
| "error_code_num SF_LOG_SEMANTIC_INVALID_EXPLICIT_CAST = 0x5005"
| "error_code_num SF_LOG_SEMANTIC_INVALID_IMPLICIT_CAST = 0x5006"
| "error_code_num SF_LOG_SEMANTIC_LITERAL_OVERFLOW = 0x5007"
| "error_code_num SF_LOG_SEMANTIC_DIVISION_BY_ZERO = 0x5008"
| "error_code_num SF_LOG_SEMANTIC_CONSTANT_EXPR = 0x5009"
| "error_code_num SF_LOG_SEMANTIC_RETURN_OUTSIDE_FUNCTION = 0x500a"
| "error_code_num SF_LOG_SEMANTIC_NO_VALUE_RETURN = 0x500b"
| "error_code_num SF_LOG_SEMANTIC_VOID_RETURN_VALUE = 0x500c"
| "error_code_num SF_LOG_SEMANTIC_MISSING_RETURN = 0x500d"
| "error_code_num SF_LOG_SEMANTIC_INVALID_TYPE = 0x500e"
| "error_code_num SF_LOG_SEMANTIC_NO_MAIN_FUNCTION = 0x500f"
| "error_code_num SF_LOG_SEMANTIC_INVALID_RETURN_TYPE = 0x5010"
| "error_code_num SF_LOG_SEMANTIC_INVALID_PARAMETERS = 0x5011"
| "error_code_num SF_LOG_SEMANTIC_INVALID_ASSIGN = 0x5012"
| "error_code_num SF_LOG_SEMANTIC_INVALID_QUALIFIER = 0x5013"
| "error_code_num SF_LOG_SEMANTIC_INVALID_DEFINITION = 0x5014"
| "error_code_num SF_LOG_SEMANTIC_CONFLICTING_DECLARATION = 0x5015"
| "error_code_num SF_LOG_SEMANTIC_UNUSED_EXPRESSION = 0x5016"
| "error_code_num SF_LOG_SEMANTIC_USELESS_CAST = 0x5017"
| "error_code_num SF_LOG_SEMANTIC_ARGUMENT_COUNT = 0x5018"
| "error_code_num SF_LOG_SEMANTIC_CYCLIC_IMPORT = 0x5019"
| "error_code_num SF_LOG_MODULE_NOT_FOUND = 0x6000"

text \<open>\<^verbatim>\<open>%04x\<close> of a number below \<open>2 ^ 16\<close>, and of a position.\<close>

definition hex_digit :: "nat \<Rightarrow> char" where
  "hex_digit d = (if d < 10 then digit_char d else char_of (87 + d))"

definition hex4 :: "nat \<Rightarrow> string" where
  "hex4 n = map (\<lambda>i. hex_digit (n div 16 ^ i mod 16)) [3, 2, 1, 0]"

section \<open>Formatting\<close>

definition SF_LOG_BUFFER_SIZE :: nat where
  "SF_LOG_BUFFER_SIZE = 1024 * 4"

text \<open>
  \<^verbatim>\<open>vsnprintf\<close> for the conversions of the messages (\<^verbatim>\<open>%s\<close>, \<^verbatim>\<open>%d\<close>, \<^verbatim>\<open>%zu\<close>, \<^verbatim>\<open>%lld\<close>, \<^verbatim>\<open>%llu\<close>): each takes the
  next argument, and a message leaves the arguments after its own to the next one, which shares its
  \<^verbatim>\<open>va_list\<close>.
\<close>

function printf_text :: "string \<Rightarrow> string list \<Rightarrow> string \<times> string list" where
  "printf_text [] args = ([], args)"
| "printf_text (c # cs) args =
     (if c = CHR ''%''
      then (case args of
              [] \<Rightarrow> ([], [])
            | a # args \<Rightarrow>
                (case printf_text (drop 1 (dropWhile (\<lambda>d. d = CHR ''l'' \<or> d = CHR ''z'') cs)) args of
                   (text, args) \<Rightarrow> (a @ text, args)))
      else (case printf_text cs args of (text, args) \<Rightarrow> (c # text, args)))"
  by pat_completeness auto
termination
proof (relation "measure (\<lambda>(cs, args). length cs)", goal_cases)
  case (2 c cs args a rest)
  have "length (dropWhile (\<lambda>d. d = CHR ''l'' \<or> d = CHR ''z'') cs) \<le> length cs"
    by (rule length_dropWhile_le)
  then show ?case by simp
qed auto

definition format_message :: "string option \<Rightarrow> string list \<Rightarrow> string \<times> string list" where
  "format_message fmt args =
     (case fmt of
        None \<Rightarrow> ([], args)
      | Some f \<Rightarrow> (case printf_text f args of (text, args) \<Rightarrow> (snprintf_text SF_LOG_BUFFER_SIZE text, args)))"

section \<open>Source snippets\<close>

definition blanks :: "nat \<Rightarrow> string" where
  "blanks n = replicate n (CHR '' '')"

definition print_highlighted_line :: "string \<Rightarrow> string \<Rightarrow> nat \<Rightarrow> nat \<Rightarrow> nat \<Rightarrow> string" where
  "print_highlighted_line line_num line line_len col_start col_end =
     SF_LOG_COLOR_BRIGHT_BLUE @ line_num @ '' | '' @ SF_LOG_COLOR_RESET @
     take col_start line @
     (if col_start < col_end
      then SF_LOG_COLOR_BRIGHT_RED @ take (col_end - col_start) (drop col_start line) @ SF_LOG_COLOR_RESET else []) @
     (if col_end < line_len then take (line_len - col_end) (drop col_end line) else []) @ [CHR 0x0A]"

definition print_underline :: "nat \<Rightarrow> string \<Rightarrow> nat \<Rightarrow> nat \<Rightarrow> nat \<Rightarrow> string option \<Rightarrow> string" where
  "print_underline gutter line line_len col carets msg =
     SF_LOG_COLOR_BRIGHT_BLUE @ blanks (gutter + 1) @ ''| '' @ SF_LOG_COLOR_RESET @
     map (\<lambda>i. if i - 1 < line_len \<and> line ! (i - 1) = CHR 0x09 then CHR 0x09 else CHR '' '') [1..<col] @
     SF_LOG_COLOR_BRIGHT_RED @ replicate carets (CHR ''^'') @ SF_LOG_COLOR_RESET @
     (case msg of Some m \<Rightarrow> (if m \<noteq> [] then CHR '' '' # m else []) | None \<Rightarrow> []) @ [CHR 0x0A]"

definition print_source_snippet :: "sf_span \<Rightarrow> string option \<Rightarrow> string option \<Rightarrow> string" where
  "print_source_snippet span content msg =
     (if sp_line span = 0 then []
      else case find_line content (sp_line span) of
        None \<Rightarrow> []
      | Some (line, line_len) \<Rightarrow>
          (let line_num = snprintf_text 16 (dec_digits (sp_line span));
               gutter = length line_num;
               col_start = (if 0 < sp_col span then sp_col span - 1 else 0);
               carets = (if 0 < sp_len span then sp_len span else 1);
               col_end = col_start + carets;
               col_start = (if line_len < col_start then line_len else col_start);
               col_end = (if line_len < col_end then line_len else col_end)
           in SF_LOG_COLOR_BRIGHT_BLUE @ blanks (gutter + 1) @ ''| '' @ [CHR 0x0A] @ SF_LOG_COLOR_RESET @
              print_highlighted_line line_num line line_len col_start col_end @
              print_underline gutter line line_len (sp_col span) carets msg @
              SF_LOG_COLOR_BRIGHT_BLUE @ blanks gutter @ '' |'' @ [CHR 0x0A] @ SF_LOG_COLOR_RESET))"

section \<open>The source files of the log\<close>

record sf_log_sources =
  g_source_filename :: "string option"
  g_source_content :: "string option"
  g_cache_filename :: "string option"
  g_cache_content :: "string option"

text \<open>The static variables at the start of the program.\<close>

definition log_sources_start :: sf_log_sources where
  "log_sources_start = \<lparr>g_source_filename = None, g_source_content = None,
     g_cache_filename = None, g_cache_content = None\<rparr>"

definition sf_log_set_source :: "string \<Rightarrow> string \<Rightarrow> sf_log_sources \<Rightarrow> sf_log_sources" where
  "sf_log_set_source filename content st =
     st\<lparr>g_source_filename := Some filename, g_source_content := Some content\<rparr>"

definition sf_log_shutdown :: "sf_log_sources \<Rightarrow> sf_log_sources" where
  "sf_log_shutdown st = st\<lparr>g_cache_filename := None, g_cache_content := None\<rparr>"

text \<open>The C string in the block that \<^verbatim>\<open>fread\<close> filled ends at its first NUL.\<close>

definition c_text :: "string \<Rightarrow> string" where
  "c_text s = takeWhile (\<lambda>c. c \<noteq> CHR 0x00) s"

definition load_source :: "(string \<Rightarrow> string option) \<Rightarrow> string option \<Rightarrow> sf_log_sources \<Rightarrow>
   string option \<times> sf_log_sources" where
  "load_source fs file st =
     (case file of
        None \<Rightarrow> (g_source_content st, st)
      | Some name \<Rightarrow>
          (if g_source_filename st = Some name then (g_source_content st, st)
           else if g_cache_filename st = Some name then (g_cache_content st, st)
           else case fs name of
             None \<Rightarrow> (None, st)
           | Some content \<Rightarrow>
               (Some (c_text content),
                st\<lparr>g_cache_filename := Some name, g_cache_content := Some (c_text content)\<rparr>)))"

section \<open>A call of the log\<close>

text \<open>The arguments of \<^verbatim>\<open>sf_log\<close>: three message formats, and the rest in the record of \<^verbatim>\<open>Log_State\<close>.\<close>

record sf_log_call =
  lc_title :: "string option"
  lc_desc :: "string option"
  lc_hint :: "string option"
  lc_info :: sf_log_info

text \<open>The text between the title line and the hint, from the content that \<^verbatim>\<open>load_source\<close> returned.\<close>

definition place_text :: "sf_log_call \<Rightarrow> string \<Rightarrow> string option \<Rightarrow> string \<Rightarrow> string" where
  "place_text call desc content file =
     (let span = li_span (lc_info call)
      in if 0 < sp_line span
         then SF_LOG_COLOR_BRIGHT_BLUE @ ''  --> from: '' @ SF_LOG_COLOR_RESET @ file @ '':'' @
              dec_digits (sp_line span) @ '':'' @ dec_digits (sp_col span) @ [CHR 0x0A] @
              print_source_snippet span content (if lc_desc call = None then None else Some desc)
         else if lc_desc call \<noteq> None then ''  '' @ desc @ [CHR 0x0A] else [])"

definition emit_log_text :: "(string \<Rightarrow> string option) \<Rightarrow> sf_log_call \<Rightarrow> sf_log_sources \<Rightarrow> string \<times> sf_log_sources" where
  "emit_log_text fs call st =
     (let info = lc_info call in
      case format_message (lc_title call) (li_args info) of (title, args) \<Rightarrow>
      case format_message (lc_desc call) args of (desc, args) \<Rightarrow>
      case format_message (lc_hint call) args of (hint, args) \<Rightarrow>
      let file = (case li_file info of
                    Some f \<Rightarrow> f
                  | None \<Rightarrow> (case g_source_filename st of Some f \<Rightarrow> f | None \<Rightarrow> ''<unknown>''));
          (content, st) = (if 0 < sp_line (li_span info) then load_source fs (li_file info) st else (None, st))
      in (severity_label (li_sev info) @ '' '' @ SF_LOG_COLOR_BRIGHT_BLACK @ ''[0x'' @
          hex4 (error_code_num (li_code info)) @ '']'' @ SF_LOG_COLOR_RESET @ '': '' @ title @ [CHR 0x0A] @
          place_text call desc content file @
          (if lc_hint call \<noteq> None
           then SF_LOG_COLOR_BRIGHT_GREEN @ ''  --> hint: '' @ SF_LOG_COLOR_RESET @ hint @ [CHR 0x0A] else []) @
          [CHR 0x0A], st))"

text \<open>A sequence of calls: the printed text, the source files and the counters.\<close>

fun sf_log_all :: "(string \<Rightarrow> string option) \<Rightarrow> sf_log_call list \<Rightarrow> sf_log_sources \<Rightarrow> sf_log_state \<Rightarrow>
   string \<times> sf_log_sources \<times> sf_log_state" where
  "sf_log_all fs [] st g = ([], st, g)"
| "sf_log_all fs (call # calls) st g =
     (case emit_log_text fs call st of (text, st) \<Rightarrow>
      case sf_log_all fs calls st (emit_log (lc_info call) g) of (rest, st, g) \<Rightarrow> (text @ rest, st, g))"

section \<open>What a reader sees\<close>

text \<open>The text without the colours, and the texts that hold none.\<close>

function strip_colours :: "string \<Rightarrow> string" where
  "strip_colours [] = []"
| "strip_colours (c # cs) =
     (if c = CHR 0x1B then strip_colours (drop 1 (dropWhile (\<lambda>d. d \<noteq> CHR ''m'') cs)) else c # strip_colours cs)"
  by pat_completeness auto
termination
proof (relation "measure length", goal_cases)
  case (2 c cs)
  have "length (dropWhile (\<lambda>d. d \<noteq> CHR ''m'') cs) \<le> length cs" by (rule length_dropWhile_le)
  then show ?case by simp
qed auto

definition plain :: "string \<Rightarrow> bool" where
  "plain s \<longleftrightarrow> CHR 0x1B \<notin> set s"

named_theorems plain_simps \<open>texts without colours\<close>

lemma strip_plain: "plain s \<Longrightarrow> strip_colours (s @ rest) = s @ strip_colours rest"
  by (induction s) (auto simp: plain_def)

lemma strip_plain_end: "plain s \<Longrightarrow> strip_colours s = s"
  using strip_plain [of s "[]"] by simp

lemma strip_colour [simp]:
  "strip_colours (SF_LOG_COLOR_RED @ rest) = strip_colours rest"
  "strip_colours (SF_LOG_COLOR_BRIGHT_BLACK @ rest) = strip_colours rest"
  "strip_colours (SF_LOG_COLOR_BRIGHT_RED @ rest) = strip_colours rest"
  "strip_colours (SF_LOG_COLOR_BRIGHT_GREEN @ rest) = strip_colours rest"
  "strip_colours (SF_LOG_COLOR_BRIGHT_BLUE @ rest) = strip_colours rest"
  "strip_colours (SF_LOG_COLOR_BRIGHT_MAGENTA @ rest) = strip_colours rest"
  "strip_colours (SF_LOG_COLOR_BRIGHT_CYAN @ rest) = strip_colours rest"
  "strip_colours (SF_LOG_COLOR_RESET @ rest) = strip_colours rest"
  by (simp_all add: colour_defs)

lemma plain_append [plain_simps]: "plain (a @ b) \<longleftrightarrow> plain a \<and> plain b"
  by (auto simp: plain_def)

lemma plain_Cons [plain_simps]: "plain (c # s) \<longleftrightarrow> c \<noteq> CHR 0x1B \<and> plain s"
  by (auto simp: plain_def)

lemma plain_Nil [plain_simps]: "plain []"
  by (simp add: plain_def)

lemma plain_take [plain_simps]: "plain s \<Longrightarrow> plain (take n s)" "plain s \<Longrightarrow> plain (drop n s)"
  by (auto simp: plain_def dest: in_set_takeD in_set_dropD)

lemma plain_blanks [plain_simps]: "plain (blanks n)"
  by (auto simp: plain_def blanks_def)

lemma plain_snprintf [plain_simps]: "plain s \<Longrightarrow> plain (snprintf_text n s)"
  by (simp add: snprintf_text_def plain_simps)

lemma plain_digits [plain_simps]: "plain (dec_digits n)"
  using dec_digits_digits [of n] by (auto simp: plain_def is_dec_digit_iff)

lemma plain_hex4 [plain_simps]: "plain (hex4 n)"
proof -
  have "hex_digit d \<noteq> CHR 0x1B" if "d < 16" for d
  proof (cases "d < 10")
    case True
    then have "is_dec_digit (hex_digit d)" by (simp add: hex_digit_def)
    then show ?thesis by (auto simp: is_dec_digit_iff)
  next
    case False
    then have "(of_char (hex_digit d) :: nat) = 87 + d" using that by (simp add: hex_digit_def)
    then show ?thesis by auto
  qed
  then show ?thesis by (simp add: hex4_def plain_def) (metis mod_less_divisor zero_less_numeral)
qed

lemma plain_printf: "plain f \<Longrightarrow> \<forall>a \<in> set args. plain a \<Longrightarrow> printf_text f args = (out, rest) \<Longrightarrow>
    plain out \<and> set rest \<subseteq> set args"
proof (induction f args arbitrary: out rest rule: printf_text.induct)
  case (2 c cs args)
  have cs: "plain (drop 1 (dropWhile (\<lambda>d. d = CHR ''l'' \<or> d = CHR ''z'') cs))" "plain cs"
    using 2(3) by (auto simp: plain_def dest!: in_set_dropD set_dropWhileD)
  show ?case
  proof (cases "c = CHR ''%''")
    case True
    with 2(1)[OF True _ cs(1)] 2(3-5) show ?thesis
      by (cases args) (auto simp: plain_simps split: prod.splits)
  next
    case False
    with 2(2)[OF False cs(2)] 2(3-5) show ?thesis
      by (auto simp: plain_simps split: prod.splits)
  qed
qed (auto simp: plain_simps)

definition plain_option :: "string option \<Rightarrow> bool" where
  "plain_option s \<longleftrightarrow> (case s of None \<Rightarrow> True | Some s \<Rightarrow> plain s)"

lemma plain_format:
  assumes "plain_option f" "\<forall>a \<in> set args. plain a" "format_message f args = (out, rest)"
  shows "plain out" "\<forall>a \<in> set rest. plain a"
proof -
  have "plain out \<and> (\<forall>a \<in> set rest. plain a)"
  proof (cases f)
    case (Some s)
    obtain r rest' where r: "printf_text s args = (r, rest')" by fastforce
    from plain_printf [OF _ assms(2) r] assms(1) Some have "plain r" "set rest' \<subseteq> set args"
      by (auto simp: plain_option_def)
    then show ?thesis using assms(2,3) Some r by (auto simp: format_message_def plain_simps)
  qed (use assms in \<open>auto simp: format_message_def plain_simps\<close>)
  then show "plain out" "\<forall>a \<in> set rest. plain a" by auto
qed

text \<open>The padding that puts a caret under the column after \<open>n\<close> characters of a line: its tabs are kept.\<close>

definition align :: "string \<Rightarrow> nat \<Rightarrow> string" where
  "align l n = map (\<lambda>c. if c = CHR 0x09 then CHR 0x09 else CHR '' '') (take n l) @ blanks (n - length l)"

lemma underline_align:
  "line_len = length (take line_len l) \<Longrightarrow>
   map (\<lambda>i. if i - 1 < line_len \<and> l ! (i - 1) = CHR 0x09 then CHR 0x09 else CHR '' '') [1..<col] =
   align (take line_len l) (col - 1)"
  by (rule nth_equalityI) (auto simp: align_def blanks_def nth_append)

lemma plain_align [plain_simps]: "plain (align l n)"
  by (auto simp: align_def plain_def blanks_def)

lemma plain_carets [plain_simps]: "plain (replicate n (CHR ''^''))"
  by (auto simp: plain_def)

text \<open>The lines around a place of the source, as they are read.\<close>

definition snippet_text :: "sf_span \<Rightarrow> string \<Rightarrow> string \<Rightarrow> string" where
  "snippet_text span l msg =
     (let num = snprintf_text 16 (dec_digits (sp_line span)); margin = blanks (length num) in
      margin @ '' | '' @ [CHR 0x0A] @
      num @ '' | '' @ l @ [CHR 0x0A] @
      margin @ '' | '' @ align l (sp_col span - 1) @ replicate (max 1 (sp_len span)) (CHR ''^'') @
        (if msg = [] then [] else '' '' @ msg) @ [CHR 0x0A] @
      margin @ '' |'' @ [CHR 0x0A])"

lemma take_between: "a \<le> b \<Longrightarrow> take a xs @ take (b - a) (drop a xs) = take b xs"
  by (metis le_add_diff_inverse take_add)

lemma strip_highlighted:
  assumes "plain num" "plain l" "a \<le> b" "b \<le> n"
  shows "strip_colours (print_highlighted_line num l n a b @ rest) =
    num @ '' | '' @ take n l @ [CHR 0x0A] @ strip_colours rest"
proof -
  have parts: "take a l @ (if a < b then take (b - a) (drop a l) else []) @
      (if b < n then take (n - b) (drop b l) else []) = take n l"
    using assms(3,4) by (auto simp: take_between simp flip: append_assoc)
  have "strip_colours (print_highlighted_line num l n a b @ rest) = num @ '' | '' @
      (take a l @ (if a < b then take (b - a) (drop a l) else []) @
        (if b < n then take (n - b) (drop b l) else [])) @ [CHR 0x0A] @ strip_colours rest"
    using assms(1,2) by (auto simp: print_highlighted_line_def strip_plain plain_simps)
  then show ?thesis by (simp only: parts)
qed

lemma strip_underline:
  assumes "line_len = length (take line_len l)" "plain_option msg"
  shows "strip_colours (print_underline g l line_len col carets msg @ rest) =
    blanks g @ '' | '' @ align (take line_len l) (col - 1) @ replicate carets (CHR ''^'') @
    (case msg of Some m \<Rightarrow> (if m \<noteq> [] then '' '' @ m else []) | None \<Rightarrow> []) @ [CHR 0x0A] @ strip_colours rest"
proof -
  have "blanks (g + 1) = blanks g @ '' ''" by (simp add: blanks_def replicate_append_same)
  then show ?thesis
    using assms(2) unfolding print_underline_def underline_align [OF assms(1)]
    by (auto simp: strip_plain plain_simps plain_option_def split: option.splits)
qed

lemma find_line_start_set: "find_line_start k s = Some p \<Longrightarrow> set p \<subseteq> set s"
proof (induction k arbitrary: s)
  case (Suc k)
  then obtain c rest where d: "dropWhile (\<lambda>c. c \<noteq> CHR 0x0A) s = c # rest" "find_line_start k rest = Some p"
    by (auto split: list.splits)
  have "set rest \<subseteq> set s" using set_dropWhileD [of _ "\<lambda>c. c \<noteq> CHR 0x0A" s] d(1) by auto
  then show ?case using Suc.IH [OF d(2)] by auto
qed simp

lemma find_line_Some:
  assumes "0 < n" "find_line (Some s) n = Some (p, len)"
  shows "n \<le> length (source_lines s)" "take len p = source_lines s ! (n - 1)" "len = length (take len p)"
    "plain s \<Longrightarrow> plain p"
proof -
  show "n \<le> length (source_lines s)" "take len p = source_lines s ! (n - 1)"
    using find_line_correct [OF assms(1), of s] assms(2) by (auto split: if_splits)
  have p: "find_line_start (n - 1) s = Some p" "len = length (takeWhile (\<lambda>ch. ch \<noteq> CHR 0x0A) p)"
    using assms(2) by (auto simp: find_line_def split: option.splits)
  show "len = length (take len p)" by (simp add: p(2) length_takeWhile_le min_absorb2)
  show "plain s \<Longrightarrow> plain p" using find_line_start_set [OF p(1)] by (auto simp: plain_def)
qed

lemma snippet_found:
  assumes "0 < sp_line span" "find_line content (sp_line span) = Some (l, len)"
  shows "print_source_snippet span content msg =
    SF_LOG_COLOR_BRIGHT_BLUE @ blanks (length (snprintf_text 16 (dec_digits (sp_line span))) + 1) @ ''| '' @ [CHR 0x0A] @
    SF_LOG_COLOR_RESET @
    print_highlighted_line (snprintf_text 16 (dec_digits (sp_line span))) l len (min (sp_col span - 1) len)
      (min (sp_col span - 1 + max 1 (sp_len span)) len) @
    print_underline (length (snprintf_text 16 (dec_digits (sp_line span)))) l len (sp_col span) (max 1 (sp_len span)) msg @
    SF_LOG_COLOR_BRIGHT_BLUE @ blanks (length (snprintf_text 16 (dec_digits (sp_line span)))) @ '' |'' @ [CHR 0x0A] @
    SF_LOG_COLOR_RESET"
proof -
  have cols: "(if 0 < sp_col span then sp_col span - 1 else 0) = sp_col span - 1"
    "(if 0 < sp_len span then sp_len span else 1) = max 1 (sp_len span)"
    "(if len < n then len else n) = min n len" for n
    by auto
  show ?thesis using assms by (simp only: print_source_snippet_def Let_def cols) simp
qed

lemma strip_snippet:
  assumes "plain_option content" "plain_option msg" "0 < sp_line span"
  shows "strip_colours (print_source_snippet span content msg @ rest) =
    (case content of
       None \<Rightarrow> []
     | Some s \<Rightarrow> (if sp_line span \<le> length (source_lines s)
                  then snippet_text span (source_lines s ! (sp_line span - 1)) (case msg of None \<Rightarrow> [] | Some m \<Rightarrow> m)
                  else [])) @ strip_colours rest"
proof (cases "find_line content (sp_line span)")
  case None
  moreover have "\<not> sp_line span \<le> length (source_lines s)" if "content = Some s" for s
    using find_line_correct [OF assms(3), of s] None that by (simp split: if_splits)
  ultimately show ?thesis by (auto simp: print_source_snippet_def split: option.splits)
next
  case (Some pl)
  obtain p len where pl: "pl = (p, len)" by fastforce
  obtain s where s: "content = Some s" using Some by (cases content) (auto simp: find_line_def)
  have found: "find_line (Some s) (sp_line span) = Some (p, len)" using Some pl s by simp
  note line = find_line_Some [OF assms(3) found]
  define num where "num = snprintf_text 16 (dec_digits (sp_line span))"
  have plains: "plain num" "plain p" using line(4) assms(1) s by (auto simp: num_def plain_simps plain_option_def)
  have margin: "blanks (length num + 1) = blanks (length num) @ '' ''" by (simp add: blanks_def replicate_append_same)
  define carets a b where "carets = max 1 (sp_len span)" and "a = min (sp_col span - 1) len"
    and "b = min (sp_col span - 1 + carets) len"
  have ordered: "a \<le> b" "b \<le> len" by (auto simp: a_def b_def)
  have "strip_colours (print_source_snippet span content msg @ rest) =
      blanks (length num) @ '' | '' @ [CHR 0x0A] @ num @ '' | '' @ take len p @ [CHR 0x0A] @
      blanks (length num) @ '' | '' @ align (take len p) (sp_col span - 1) @ replicate carets (CHR ''^'') @
      (case msg of Some m \<Rightarrow> (if m \<noteq> [] then '' '' @ m else []) | None \<Rightarrow> []) @ [CHR 0x0A] @
      blanks (length num) @ '' |'' @ [CHR 0x0A] @ strip_colours rest"
    unfolding s snippet_found [OF assms(3) found] num_def [symmetric] carets_def [symmetric] a_def [symmetric]
      b_def [symmetric] margin
    by (simp add: strip_highlighted [OF plains ordered] strip_underline [OF line(3) assms(2)] strip_plain plain_simps)
  also have "\<dots> = snippet_text span (source_lines s ! (sp_line span - 1)) (case msg of None \<Rightarrow> [] | Some m \<Rightarrow> m) @ strip_colours rest"
    by (auto simp: snippet_text_def Let_def line(2) carets_def simp flip: num_def split: option.splits)
  finally show ?thesis using s line(1) by simp
qed

section \<open>The saved file makes no difference\<close>

text \<open>The content of a file without the saved one, and when the saved one is right.\<close>

definition source_of :: "(string \<Rightarrow> string option) \<Rightarrow> sf_log_sources \<Rightarrow> string option \<Rightarrow> string option" where
  "source_of fs st file =
     (case file of
        None \<Rightarrow> g_source_content st
      | Some name \<Rightarrow> (if g_source_filename st = Some name then g_source_content st else map_option c_text (fs name)))"

definition cache_ok :: "(string \<Rightarrow> string option) \<Rightarrow> sf_log_sources \<Rightarrow> bool" where
  "cache_ok fs st \<longleftrightarrow>
     (case g_cache_filename st of
        None \<Rightarrow> True
      | Some name \<Rightarrow> g_cache_content st = map_option c_text (fs name) \<and> fs name \<noteq> None)"

lemma cache_ok_set_source: "cache_ok fs st \<Longrightarrow> cache_ok fs (sf_log_set_source f c st)"
  by (simp add: cache_ok_def sf_log_set_source_def split: option.splits)

lemma cache_ok_start: "cache_ok fs log_sources_start" "cache_ok fs (sf_log_shutdown st)"
  by (simp_all add: cache_ok_def log_sources_start_def sf_log_shutdown_def)

lemma load_source_exact:
  assumes "cache_ok fs st" "load_source fs file st = (content, st')"
  shows "content = source_of fs st file" "cache_ok fs st'"
    "g_source_filename st' = g_source_filename st" "g_source_content st' = g_source_content st"
  using assms by (auto simp: load_source_def source_of_def cache_ok_def split: option.splits if_splits)

lemma source_of_same:
  "g_source_filename st' = g_source_filename st \<Longrightarrow> g_source_content st' = g_source_content st \<Longrightarrow>
   source_of fs st' = source_of fs st"
  by (auto simp: source_of_def fun_eq_iff split: option.splits)

fun severity_name :: "sf_log_severity \<Rightarrow> string" where
  "severity_name SF_LOG_SEVERITY_INFO = ''info''"
| "severity_name SF_LOG_SEVERITY_WARNING = ''warning''"
| "severity_name SF_LOG_SEVERITY_ERROR = ''error''"
| "severity_name SF_LOG_SEVERITY_FATAL = ''fatal''"

text \<open>The record of one call for a reader: \<open>name\<close> is the input of the compilation and \<open>content\<close> the source of the
  call, if there is one.\<close>

definition title_text :: "sf_log_call \<Rightarrow> string" where
  "title_text call = fst (format_message (lc_title call) (li_args (lc_info call)))"

definition desc_text :: "sf_log_call \<Rightarrow> string" where
  "desc_text call = fst (format_message (lc_desc call) (snd (format_message (lc_title call) (li_args (lc_info call)))))"

definition hint_text :: "sf_log_call \<Rightarrow> string" where
  "hint_text call = fst (format_message (lc_hint call)
     (snd (format_message (lc_desc call) (snd (format_message (lc_title call) (li_args (lc_info call)))))))"

definition record_text :: "string option \<Rightarrow> string option \<Rightarrow> sf_log_call \<Rightarrow> string" where
  "record_text name content call =
     (let info = lc_info call; span = li_span info;
          file = (case li_file info of Some f \<Rightarrow> f | None \<Rightarrow> (case name of Some f \<Rightarrow> f | None \<Rightarrow> ''<unknown>'')) in
      severity_name (li_sev info) @ '' [0x'' @ hex4 (error_code_num (li_code info)) @ '']: '' @ title_text call @ [CHR 0x0A] @
      (if 0 < sp_line span
       then ''  --> from: '' @ file @ '':'' @ dec_digits (sp_line span) @ '':'' @ dec_digits (sp_col span) @ [CHR 0x0A] @
            (case content of
               Some s \<Rightarrow> (if sp_line span \<le> length (source_lines s)
                  then snippet_text span (source_lines s ! (sp_line span - 1)) (if lc_desc call = None then [] else desc_text call)
                  else [])
             | None \<Rightarrow> [])
       else if lc_desc call \<noteq> None then ''  '' @ desc_text call @ [CHR 0x0A] else []) @
      (if lc_hint call \<noteq> None then ''  --> hint: '' @ hint_text call @ [CHR 0x0A] else []) @ [CHR 0x0A])"

definition plain_call :: "(string \<Rightarrow> string option) \<Rightarrow> sf_log_sources \<Rightarrow> sf_log_call \<Rightarrow> bool" where
  "plain_call fs st call \<longleftrightarrow>
     plain_option (lc_title call) \<and> plain_option (lc_desc call) \<and> plain_option (lc_hint call) \<and>
     (\<forall>a \<in> set (li_args (lc_info call)). plain a) \<and> plain_option (li_file (lc_info call)) \<and>
     plain_option (g_source_filename st) \<and> plain_option (source_of fs st (li_file (lc_info call)))"

lemma plain_messages:
  assumes "plain_call fs st call"
  shows "plain (title_text call)" "plain (desc_text call)" "plain (hint_text call)"
proof -
  obtain a rest1 where 1: "format_message (lc_title call) (li_args (lc_info call)) = (a, rest1)" by fastforce
  obtain b rest2 where 2: "format_message (lc_desc call) rest1 = (b, rest2)" by fastforce
  obtain c rest3 where 3: "format_message (lc_hint call) rest2 = (c, rest3)" by fastforce
  have call: "plain_option (lc_title call)" "plain_option (lc_desc call)" "plain_option (lc_hint call)"
    "\<forall>a \<in> set (li_args (lc_info call)). plain a"
    using assms by (auto simp: plain_call_def)
  note a = plain_format [OF call(1,4) 1]
  note b = plain_format [OF call(2) a(2) 2]
  note c = plain_format [OF call(3) b(2) 3]
  show "plain (title_text call)" "plain (desc_text call)" "plain (hint_text call)"
    using a(1) b(1) c(1) by (simp_all add: title_text_def desc_text_def hint_text_def 1 2 3)
qed

lemma strip_label: "strip_colours (severity_label s @ rest) = severity_name s @ strip_colours rest"
  by (cases s) (simp_all add: strip_plain plain_simps)

text \<open>The parts of a printed call.\<close>

lemma emit_log_text_parts:
  assumes "load_source fs (li_file (lc_info call)) st = (content, st1)"
  shows "emit_log_text fs call st =
    (severity_label (li_sev (lc_info call)) @ '' '' @ SF_LOG_COLOR_BRIGHT_BLACK @ ''[0x'' @
     hex4 (error_code_num (li_code (lc_info call))) @ '']'' @ SF_LOG_COLOR_RESET @ '': '' @ title_text call @ [CHR 0x0A] @
     place_text call (desc_text call) (if 0 < sp_line (li_span (lc_info call)) then content else None)
       (case li_file (lc_info call) of Some f \<Rightarrow> f | None \<Rightarrow> (case g_source_filename st of Some f \<Rightarrow> f | None \<Rightarrow> ''<unknown>'')) @
     (if lc_hint call \<noteq> None
      then SF_LOG_COLOR_BRIGHT_GREEN @ ''  --> hint: '' @ SF_LOG_COLOR_RESET @ hint_text call @ [CHR 0x0A] else []) @ [CHR 0x0A],
     if 0 < sp_line (li_span (lc_info call)) then st1 else st)"
  by (simp add: emit_log_text_def title_text_def desc_text_def hint_text_def assms Let_def split: prod.split)

lemma strip_place:
  assumes "plain_option content" "plain desc" "plain file" "span = li_span (lc_info call)"
  shows "strip_colours (place_text call desc (if 0 < sp_line span then content else None) file @ rest) =
    (if 0 < sp_line span
     then ''  --> from: '' @ file @ '':'' @ dec_digits (sp_line span) @ '':'' @ dec_digits (sp_col span) @ [CHR 0x0A] @
          (case content of
             Some s \<Rightarrow> (if sp_line span \<le> length (source_lines s)
                then snippet_text span (source_lines s ! (sp_line span - 1)) (if lc_desc call = None then [] else desc)
                else [])
           | None \<Rightarrow> [])
     else if lc_desc call \<noteq> None then ''  '' @ desc @ [CHR 0x0A] else []) @ strip_colours rest"
proof (cases "0 < sp_line span")
  case True
  have msg: "plain_option (if lc_desc call = None then None else Some desc)" using assms(2) by (simp add: plain_option_def)
  show ?thesis
    using True assms(2,3) strip_snippet [OF assms(1) msg True, of rest]
    by (auto simp: place_text_def strip_plain plain_simps simp flip: assms(4) split: option.splits)
next
  case False
  then show ?thesis
    using assms(2) by (auto simp: place_text_def strip_plain plain_simps simp flip: assms(4))
qed

lemma emit_log_text_exact:
  assumes "cache_ok fs st" "plain_call fs st call" "emit_log_text fs call st = (out, st')"
  shows "strip_colours (out @ rest) =
      record_text (g_source_filename st) (source_of fs st (li_file (lc_info call))) call @ strip_colours rest"
    "cache_ok fs st'" "g_source_filename st' = g_source_filename st" "g_source_content st' = g_source_content st"
proof -
  obtain content st1 where load: "load_source fs (li_file (lc_info call)) st = (content, st1)" by fastforce
  note exact = load_source_exact [OF assms(1) load]
  note parts = emit_log_text_parts [OF load]
  note messages = plain_messages [OF assms(2)]
  have content: "plain_option content" using assms(2) exact(1) by (simp add: plain_call_def)
  have shown: "plain (case li_file (lc_info call) of Some f \<Rightarrow> f | None \<Rightarrow> (case g_source_filename st of Some f \<Rightarrow> f | None \<Rightarrow> ''<unknown>''))"
    using assms(2) by (auto simp: plain_call_def plain_option_def plain_simps split: option.splits)
  have st': "st' = (if 0 < sp_line (li_span (lc_info call)) then st1 else st)" using assms(3) parts by simp
  show "cache_ok fs st'" "g_source_filename st' = g_source_filename st" "g_source_content st' = g_source_content st"
    using st' exact assms(1) by simp_all
  have out: "out = fst (emit_log_text fs call st)" using assms(3) by simp
  have hint: "strip_colours ((if lc_hint call \<noteq> None
      then SF_LOG_COLOR_BRIGHT_GREEN @ ''  --> hint: '' @ SF_LOG_COLOR_RESET @ hint_text call @ [CHR 0x0A] else []) @ rest) =
      (if lc_hint call \<noteq> None then ''  --> hint: '' @ hint_text call @ [CHR 0x0A] else []) @ strip_colours rest" for rest
    using messages(3) by (simp add: strip_plain plain_simps)
  show "strip_colours (out @ rest) =
      record_text (g_source_filename st) (source_of fs st (li_file (lc_info call))) call @ strip_colours rest"
    unfolding out parts fst_conv append_assoc strip_label
    using messages(1)
    by (simp add: strip_plain plain_simps strip_place [OF content messages(2) shown refl, simplified]
        hint [simplified] record_text_def Let_def exact(1) [symmetric])
qed

lemma emit_log_counts:
  "g_error_count (emit_log info g) = g_error_count g + (if SF_LOG_SEVERITY_ERROR \<le> li_sev info then 1 else 0)"
  "g_had_fatal (emit_log info g) \<longleftrightarrow> g_had_fatal g \<or> li_sev info = SF_LOG_SEVERITY_FATAL"
  "g_entries (emit_log info g) = g_entries g @ [info]"
  by (auto simp: emit_log_def Let_def severity_error_le)

lemma plain_call_same:
  "g_source_filename st' = g_source_filename st \<Longrightarrow> g_source_content st' = g_source_content st \<Longrightarrow>
   plain_call fs st' call = plain_call fs st call"
  by (simp add: plain_call_def source_of_same [of st' st])

text \<open>C14: What the log prints for a sequence of calls, read without its colours, is one record for each call in order:
  severity, number and title, the place with the line of the source that it names and the carets under its
  columns, or the description, and the hint. The source is the one that reading the file gives, whatever file
  was kept from the calls before; the errors are counted and a fatal one is remembered.\<close>

theorem log_output_exact:
  assumes "cache_ok fs st" and "\<forall>call \<in> set calls. plain_call fs st call"
    and "sf_log_all fs calls st g = (out, st', g')"
  shows "strip_colours out =
      concat (map (\<lambda>call. record_text (g_source_filename st) (source_of fs st (li_file (lc_info call))) call) calls) \<and>
    cache_ok fs st' \<and> g_entries g' = g_entries g @ map lc_info calls \<and>
    g_error_count g' = g_error_count g + length (filter (\<lambda>call. SF_LOG_SEVERITY_ERROR \<le> li_sev (lc_info call)) calls) \<and>
    sf_log_had_fatal g' = (sf_log_had_fatal g \<or> (\<exists>call \<in> set calls. li_sev (lc_info call) = SF_LOG_SEVERITY_FATAL))"
  using assms
proof (induction calls arbitrary: st g out st' g')
  case (Cons call calls)
  obtain a st1 where first: "emit_log_text fs call st = (a, st1)" by fastforce
  obtain b st2 g2 where rest: "sf_log_all fs calls st1 (emit_log (lc_info call) g) = (b, st2, g2)" by (rule prod_cases3)
  have eqs: "out = a @ b" "st' = st2" "g' = g2" using Cons.prems(3) first rest by auto
  have "plain_call fs st call" using Cons.prems(2) by simp
  note exact = emit_log_text_exact [OF Cons.prems(1) this first]
  have "\<forall>call \<in> set calls. plain_call fs st1 call"
    using Cons.prems(2) plain_call_same [OF exact(3,4)] by simp
  note ih = Cons.IH [OF exact(2) this rest]
  show ?case
    using ih exact(1) [of b]
    by (auto simp: eqs exact(3) source_of_same [OF exact(3,4)] emit_log_counts sf_log_had_fatal_def)
qed simp

text \<open>Two calls on the second line of a file that is read once, and a call on the input.\<close>

definition sample_span :: sf_span where
  "sample_span = \<lparr>sp_line = 2, sp_col = 3, sp_len = 2\<rparr>"

definition sample_call :: "string \<Rightarrow> sf_log_severity \<Rightarrow> sf_log_call" where
  "sample_call file sev = \<lparr>lc_title = Some ''bad %s'', lc_desc = Some ''here'', lc_hint = None,
     lc_info = \<lparr>li_file = Some file, li_code = SF_LOG_SEMANTIC_REDECLARATION, li_span = sample_span,
       li_sev = sev, li_args = [''x'']\<rparr>\<rparr>"

definition log_files :: "string \<Rightarrow> string option" where
  "log_files f = (if f = ''b'' then Some (''one'' @ [CHR 0x0A] @ ''i32 y'') else None)"

definition sample_sources :: sf_log_sources where
  "sample_sources = sf_log_set_source ''a'' (''top'' @ [CHR 0x0A] @ [CHR 0x09] @ ''bool'') log_sources_start"

definition sample_calls :: "sf_log_call list" where
  "sample_calls = [sample_call ''b'' SF_LOG_SEVERITY_WARNING, sample_call ''b'' SF_LOG_SEVERITY_ERROR, sample_call ''a'' SF_LOG_SEVERITY_ERROR]"

lemma sample_log_ok: "cache_ok log_files sample_sources" "\<forall>call \<in> set sample_calls. plain_call log_files sample_sources call"
  by (simp add: sample_sources_def cache_ok_set_source cache_ok_start)
     (simp add: sample_calls_def sample_call_def plain_call_def plain_option_def log_files_def sample_sources_def
       sf_log_set_source_def log_sources_start_def source_of_def c_text_def plain_simps)

lemma log_output_exact_witness:
  "strip_colours (fst (sf_log_all log_files sample_calls sample_sources sf_log_init)) =
     concat (map (\<lambda>call. record_text (Some ''a'') (source_of log_files sample_sources (li_file (lc_info call))) call) sample_calls)"
proof -
  obtain out st' g' where run: "sf_log_all log_files sample_calls sample_sources sf_log_init = (out, st', g')"
    by (rule prod_cases3)
  have "g_source_filename sample_sources = Some ''a''" by (simp add: sample_sources_def sf_log_set_source_def)
  then show ?thesis using log_output_exact [OF sample_log_ok run] by (simp add: run)
qed

end
