(* ===== verification/Lexer.thy ===== *)
theory Lexer
  imports Token_Utils
begin

text \<open>
  The lexer, \<^verbatim>\<open>frontend/lexer.c\<close>. The state \<open>sf_lexer\<close> is the C structure: the input, the
  read position, the 32-bit line and column counters and the token list, here together with
  the log the C code keeps in globals. Reading \<^verbatim>\<open>input[pos]\<close> at or past the end of the string
  yields the terminating NUL. The growth of the token array is kept (capacity 16, then
  doubled); \<open>realloc_ok\<close> says for a size in bytes whether \<^verbatim>\<open>realloc\<close> succeeds. Loops are
  recursive functions on the distance to the end of the input.
\<close>

section \<open>State and tables\<close>

record sf_token_list =
  tl_tokens :: "sf_token list"
  tl_capacity :: nat

record sf_lexer =
  lx_input :: string
  lx_filename :: string
  lx_pos :: nat
  lx_line :: uint32
  lx_col :: uint32
  lx_list :: sf_token_list
  lx_log :: sf_log_state

type_synonym sf_token_spelling = "sf_token_type \<times> string"

definition k_symbols :: "sf_token_spelling list" where
  "k_symbols =
    [(SF_TOKEN_TYPE_LEFT_SHIFT_EQUAL, ''<<=''),
     (SF_TOKEN_TYPE_RIGHT_SHIFT_EQUAL, ''>>=''),
     (SF_TOKEN_TYPE_PLUS_PLUS, ''++''),
     (SF_TOKEN_TYPE_MINUS_MINUS, ''--''),
     (SF_TOKEN_TYPE_PLUS_EQUAL, ''+=''),
     (SF_TOKEN_TYPE_MINUS_EQUAL, ''-=''),
     (SF_TOKEN_TYPE_STAR_EQUAL, ''*=''),
     (SF_TOKEN_TYPE_SLASH_EQUAL, ''/=''),
     (SF_TOKEN_TYPE_AMP_EQUAL, ''&=''),
     (SF_TOKEN_TYPE_PIPE_EQUAL, ''|=''),
     (SF_TOKEN_TYPE_CARET_EQUAL, ''^=''),
     (SF_TOKEN_TYPE_EQUAL_EQUAL, ''==''),
     (SF_TOKEN_TYPE_BANG_EQUAL, ''!=''),
     (SF_TOKEN_TYPE_LESS_EQUAL, ''<=''),
     (SF_TOKEN_TYPE_GREATER_EQUAL, ''>=''),
     (SF_TOKEN_TYPE_AMP_AMP, ''&&''),
     (SF_TOKEN_TYPE_PIPE_PIPE, ''||''),
     (SF_TOKEN_TYPE_LEFT_SHIFT, ''<<''),
     (SF_TOKEN_TYPE_RIGHT_SHIFT, ''>>''),
     (SF_TOKEN_TYPE_PLUS, ''+''),
     (SF_TOKEN_TYPE_MINUS, ''-''),
     (SF_TOKEN_TYPE_STAR, ''*''),
     (SF_TOKEN_TYPE_SLASH, ''/''),
     (SF_TOKEN_TYPE_EQUAL, ''=''),
     (SF_TOKEN_TYPE_BANG, ''!''),
     (SF_TOKEN_TYPE_LESS, ''<''),
     (SF_TOKEN_TYPE_GREATER, ''>''),
     (SF_TOKEN_TYPE_AMP, ''&''),
     (SF_TOKEN_TYPE_PIPE, ''|''),
     (SF_TOKEN_TYPE_CARET, ''^''),
     (SF_TOKEN_TYPE_TILDE, ''~''),
     (SF_TOKEN_TYPE_SEMICOLON, '';''),
     (SF_TOKEN_TYPE_LPAREN, ''(''),
     (SF_TOKEN_TYPE_RPAREN, '')''),
     (SF_TOKEN_TYPE_LBRACE, ''{''),
     (SF_TOKEN_TYPE_RBRACE, ''}''),
     (SF_TOKEN_TYPE_COMMA, '',''),
     (SF_TOKEN_TYPE_DOT, ''.'')]"

definition k_keywords :: "sf_token_spelling list" where
  "k_keywords =
    [(SF_TOKEN_TYPE_KW_TRUE, ''true''),
     (SF_TOKEN_TYPE_KW_FALSE, ''false''),
     (SF_TOKEN_TYPE_KW_I8, ''i8''),
     (SF_TOKEN_TYPE_KW_I16, ''i16''),
     (SF_TOKEN_TYPE_KW_I32, ''i32''),
     (SF_TOKEN_TYPE_KW_I64, ''i64''),
     (SF_TOKEN_TYPE_KW_U8, ''u8''),
     (SF_TOKEN_TYPE_KW_U16, ''u16''),
     (SF_TOKEN_TYPE_KW_U32, ''u32''),
     (SF_TOKEN_TYPE_KW_U64, ''u64''),
     (SF_TOKEN_TYPE_KW_BOOL, ''bool''),
     (SF_TOKEN_TYPE_KW_VOID, ''void''),
     (SF_TOKEN_TYPE_KW_AS, ''as''),
     (SF_TOKEN_TYPE_KW_IF, ''if''),
     (SF_TOKEN_TYPE_KW_ELSE, ''else''),
     (SF_TOKEN_TYPE_KW_WHILE, ''while''),
     (SF_TOKEN_TYPE_KW_FN, ''fn''),
     (SF_TOKEN_TYPE_KW_RETURN, ''return''),
     (SF_TOKEN_TYPE_KW_MUT, ''mut''),
     (SF_TOKEN_TYPE_KW_PUB, ''pub''),
     (SF_TOKEN_TYPE_KW_EXTERN, ''extern''),
     (SF_TOKEN_TYPE_KW_IMPORT, ''import'')]"

section \<open>Characters and table lookups\<close>

definition is_digit :: "char \<Rightarrow> bool" where
  "is_digit c \<longleftrightarrow> CHR ''0'' \<le> c \<and> c \<le> CHR ''9''"

definition is_space :: "char \<Rightarrow> bool" where
  "is_space c \<longleftrightarrow> c = CHR '' '' \<or> c = CHR 0x09 \<or> c = CHR 0x0A \<or> c = CHR 0x0B \<or> c = CHR 0x0C \<or> c = CHR 0x0D"

definition is_ident_start :: "char \<Rightarrow> bool" where
  "is_ident_start c \<longleftrightarrow>
     (CHR ''a'' \<le> c \<and> c \<le> CHR ''z'') \<or> (CHR ''A'' \<le> c \<and> c \<le> CHR ''Z'') \<or> c = CHR ''_''"

definition is_ident_char :: "char \<Rightarrow> bool" where
  "is_ident_char c \<longleftrightarrow> is_ident_start c \<or> is_digit c"

fun find_symbol_in :: "sf_token_spelling list \<Rightarrow> string \<Rightarrow> sf_token_spelling option" where
  "find_symbol_in [] text = None"
| "find_symbol_in (entry # table) text =
     (if take (length (snd entry)) text = snd entry then Some entry else find_symbol_in table text)"

definition find_symbol :: "string \<Rightarrow> sf_token_spelling option" where
  "find_symbol text = find_symbol_in k_symbols text"

fun resolve_keyword_in :: "sf_token_spelling list \<Rightarrow> string \<Rightarrow> sf_token_type" where
  "resolve_keyword_in [] value = SF_TOKEN_TYPE_IDENTIFIER"
| "resolve_keyword_in (entry # table) value =
     (if value = snd entry then fst entry else resolve_keyword_in table value)"

definition resolve_keyword :: "string \<Rightarrow> sf_token_type" where
  "resolve_keyword value = resolve_keyword_in k_keywords value"

fun find_spelling :: "sf_token_spelling list \<Rightarrow> sf_token_type \<Rightarrow> string option" where
  "find_spelling [] type = None"
| "find_spelling (entry # table) type =
     (if fst entry = type then Some (snd entry) else find_spelling table type)"

definition sf_token_type_name :: "sf_token_type \<Rightarrow> string" where
  "sf_token_type_name type =
     (if type = SF_TOKEN_TYPE_IDENTIFIER then ''an identifier''
      else if type = SF_TOKEN_TYPE_INTEGER then ''an integer''
      else case find_spelling k_symbols type of
        Some name \<Rightarrow> name
      | None \<Rightarrow>
          (case find_spelling k_keywords type of
             Some name \<Rightarrow> name
           | None \<Rightarrow> ''a token''))"

definition digit_value :: "char \<Rightarrow> int \<Rightarrow> int" where
  "digit_value c base =
     (let digit = (if CHR ''0'' \<le> c \<and> c \<le> CHR ''9'' then Some (of_char c - of_char (CHR ''0''))
                   else if CHR ''a'' \<le> c \<and> c \<le> CHR ''f'' then Some (of_char c - of_char (CHR ''a'') + 10)
                   else if CHR ''A'' \<le> c \<and> c \<le> CHR ''F'' then Some (of_char c - of_char (CHR ''A'') + 10)
                   else None)
      in case digit of None \<Rightarrow> -1 | Some d \<Rightarrow> if d < base then d else -1)"

section \<open>Reading the input\<close>

definition lexer_current :: "sf_lexer \<Rightarrow> char" where
  "lexer_current lx = (if lx_pos lx < length (lx_input lx) then lx_input lx ! lx_pos lx else CHR 0x00)"

definition lexer_next :: "sf_lexer \<Rightarrow> char" where
  "lexer_next lx =
     (if lexer_current lx = CHR 0x00 then CHR 0x00
      else if Suc (lx_pos lx) < length (lx_input lx) then lx_input lx ! Suc (lx_pos lx) else CHR 0x00)"

definition lexer_advance :: "sf_lexer \<Rightarrow> nat \<Rightarrow> sf_lexer" where
  "lexer_advance lx count = lx\<lparr>lx_pos := lx_pos lx + count, lx_col := lx_col lx + of_nat count\<rparr>"

definition lexer_span_here :: "sf_lexer \<Rightarrow> sf_span" where
  "lexer_span_here lx = \<lparr>sp_line = unat (lx_line lx), sp_col = unat (lx_col lx), sp_len = 0\<rparr>"

definition make_token :: "sf_token_type \<Rightarrow> sf_span \<Rightarrow> sf_token" where
  "make_token type span = \<lparr>tk_type = type, tk_value = [], tk_span = span\<rparr>"

text \<open>\<^verbatim>\<open>sizeof(sf_token)\<close> on the LP64 target: a 4-byte enum, the 255-byte buffer and three
  8-byte counters, aligned to 8.\<close>

definition sizeof_sf_token :: nat where
  "sizeof_sf_token = 288"

definition list_add ::
  "(nat \<Rightarrow> bool) \<Rightarrow> sf_token_list \<Rightarrow> sf_token \<Rightarrow> sf_log_state \<Rightarrow> bool \<times> sf_token_list \<times> sf_log_state" where
  "list_add realloc_ok list token g =
     (if tl_capacity list \<le> length (tl_tokens list)
      then (let new_capacity = (if tl_capacity list = 0 then 16 else tl_capacity list * 2)
            in if new_capacity \<le> SIZE_MAX div sizeof_sf_token \<and> realloc_ok (new_capacity * sizeof_sf_token)
               then (True, \<lparr>tl_tokens = tl_tokens list @ [token], tl_capacity = new_capacity\<rparr>, g)
               else (False, list, sf_log None SF_LOG_GENERAL_INSUFFICIENT_MEMORY sf_span_zero
                                    SF_LOG_SEVERITY_FATAL [] g))
      else (True, list\<lparr>tl_tokens := tl_tokens list @ [token]\<rparr>, g))"

definition lexer_add :: "(nat \<Rightarrow> bool) \<Rightarrow> sf_lexer \<Rightarrow> sf_token \<Rightarrow> bool \<times> sf_lexer" where
  "lexer_add realloc_ok lx token =
     (case list_add realloc_ok (lx_list lx) token (lx_log lx) of
        (ok, l, g) \<Rightarrow> (ok, lx\<lparr>lx_list := l, lx_log := g\<rparr>))"

lemma lexer_current_pos: "lexer_current lx \<noteq> CHR 0x00 \<Longrightarrow> lx_pos lx < length (lx_input lx)"
  by (auto simp: lexer_current_def split: if_splits)

lemma lexer_advance_simps [simp]:
  "lx_pos (lexer_advance lx n) = lx_pos lx + n"
  "lx_input (lexer_advance lx n) = lx_input lx"
  "lx_line (lexer_advance lx n) = lx_line lx"
  "lx_list (lexer_advance lx n) = lx_list lx"
  "lx_log (lexer_advance lx n) = lx_log lx"
  "lx_filename (lexer_advance lx n) = lx_filename lx"
  by (simp_all add: lexer_advance_def)

subsection \<open>Numbers, identifiers and symbols\<close>

function read_number_loop ::
  "nat \<Rightarrow> sf_lexer \<Rightarrow> uint64 \<Rightarrow> bool \<Rightarrow> sf_lexer \<times> uint64 \<times> bool" where
  "read_number_loop base lx value has_digit =
     (if lexer_current lx \<noteq> CHR 0x00 then
        (let c = lexer_current lx
         in if c = CHR ''_'' then read_number_loop base (lexer_advance lx 1) value has_digit
            else (let digit = digit_value c (int base)
                  in if digit < 0 then (lx, value, has_digit)
                     else read_number_loop base (lexer_advance lx 1)
                            (value * of_nat base + of_int digit) True))
      else (lx, value, has_digit))"
  by pat_completeness auto
termination
  by (relation "measure (\<lambda>(b, lx, v, h). length (lx_input lx) - lx_pos lx)")
     (auto dest: lexer_current_pos)

declare read_number_loop.simps [simp del]

definition read_number :: "sf_lexer \<Rightarrow> sf_token \<times> sf_lexer" where
  "read_number lx =
     (let start = lx_pos lx;
          span = lexer_span_here lx;
          base = (if lexer_current lx = CHR ''0''
                  then (if lexer_next lx = CHR ''x'' \<or> lexer_next lx = CHR ''X'' then 16
                        else if lexer_next lx = CHR ''b'' \<or> lexer_next lx = CHR ''B'' then 2 else 10)
                  else 10);
          lx1 = (if base \<noteq> 10 then lexer_advance lx 2 else lx)
      in case read_number_loop base lx1 0 False of (lx2, value, has_digit) \<Rightarrow>
           if \<not> has_digit \<or> is_ident_char (lexer_current lx2)
           then (make_token SF_TOKEN_TYPE_UNDEFINED span, lx2)
           else (let len = lx_pos lx2 - start
                 in (\<lparr>tk_type = SF_TOKEN_TYPE_INTEGER, tk_value = dec_digits (unat value),
                      tk_span = span\<lparr>sp_len := (if UINT8_MAX < len then UINT8_MAX else len) mod 256\<rparr>\<rparr>,
                     lx2)))"

lemma ident_char_not_nul: "is_ident_char c \<Longrightarrow> c \<noteq> CHR 0x00"
  by (auto simp: is_ident_char_def is_ident_start_def is_digit_def)

function read_identifier_loop :: "sf_lexer \<Rightarrow> string \<Rightarrow> sf_lexer \<times> string" where
  "read_identifier_loop lx value =
     (if is_ident_char (lexer_current lx)
      then read_identifier_loop (lexer_advance lx 1)
             (if length value < SF_MAX_TOKEN_VALUE_SIZE - 1 then value @ [lexer_current lx] else value)
      else (lx, value))"
  by pat_completeness auto
termination
  by (relation "measure (\<lambda>(lx, v). length (lx_input lx) - lx_pos lx)")
     (auto dest!: ident_char_not_nul lexer_current_pos)

declare read_identifier_loop.simps [simp del]

definition read_identifier :: "sf_lexer \<Rightarrow> sf_token \<times> sf_lexer" where
  "read_identifier lx =
     (case read_identifier_loop lx [] of (lx1, value) \<Rightarrow>
        (\<lparr>tk_type = resolve_keyword value, tk_value = value,
          tk_span = (lexer_span_here lx)\<lparr>sp_len := length value mod 256\<rparr>\<rparr>, lx1))"

definition read_symbol :: "sf_lexer \<Rightarrow> sf_token \<times> sf_lexer" where
  "read_symbol lx =
     (let tk = make_token SF_TOKEN_TYPE_UNDEFINED (lexer_span_here lx)
      in case find_symbol (drop (lx_pos lx) (lx_input lx)) of
           None \<Rightarrow> (tk, lx)
         | Some (type, text) \<Rightarrow>
             (\<lparr>tk_type = type, tk_value = text,
               tk_span = (tk_span tk)\<lparr>sp_len := length text mod 256\<rparr>\<rparr>,
              lexer_advance lx (length text)))"

subsection \<open>Undefined runs\<close>

definition undefined_run_continues :: "sf_lexer \<Rightarrow> bool \<Rightarrow> bool" where
  "undefined_run_continues lx number =
     (let c = lexer_current lx
      in if c = CHR 0x00 \<or> is_space c then False
         else if number then is_ident_char c
         else \<not> is_ident_char c \<and> find_symbol (drop (lx_pos lx) (lx_input lx)) = None)"

lemma undefined_run_continues_not_nul: "undefined_run_continues lx number \<Longrightarrow> lexer_current lx \<noteq> CHR 0x00"
  by (auto simp: undefined_run_continues_def Let_def)

function undefined_run :: "sf_lexer \<Rightarrow> bool \<Rightarrow> string \<Rightarrow> sf_lexer \<times> string" where
  "undefined_run lx number value =
     (let value1 = (if length value < SF_MAX_TOKEN_VALUE_SIZE - 1 then value @ [lexer_current lx] else value);
          lx1 = lexer_advance lx 1
      in if undefined_run_continues lx1 number then undefined_run lx1 number value1 else (lx1, value1))"
  by pat_completeness auto
termination
  by (relation "measure (\<lambda>(lx, n, v). length (lx_input lx) - lx_pos lx)")
     (auto dest!: undefined_run_continues_not_nul lexer_current_pos)

declare undefined_run.simps [simp del]

definition lexer_report_undefined ::
  "(nat \<Rightarrow> bool) \<Rightarrow> sf_lexer \<Rightarrow> nat \<Rightarrow> uint32 \<Rightarrow> bool \<times> sf_lexer" where
  "lexer_report_undefined realloc_ok lx start_pos start_col =
     (let lx1 = lx\<lparr>lx_pos := start_pos, lx_col := start_col\<rparr>;
          span = lexer_span_here lx1;
          number = is_digit (lexer_current lx1)
      in case undefined_run lx1 number [] of (lx2, value) \<Rightarrow>
           (let tk = \<lparr>tk_type = SF_TOKEN_TYPE_UNDEFINED, tk_value = value,
                      tk_span = span\<lparr>sp_len := length value mod 256\<rparr>\<rparr>
            in case lexer_add realloc_ok lx2 tk of (ok, lx3) \<Rightarrow>
                 if \<not> ok then (False, lx3)
                 else (True, lx3\<lparr>lx_log := sf_log (Some (lx_filename lx3)) SF_LOG_LEXER_UNDEFINED_TOKEN
                                     (tk_span tk) SF_LOG_SEVERITY_ERROR [tk_value tk] (lx_log lx3)\<rparr>)))"

definition lexer_emit ::
  "(nat \<Rightarrow> bool) \<Rightarrow> sf_lexer \<Rightarrow> sf_token \<Rightarrow> nat \<Rightarrow> uint32 \<Rightarrow> bool \<times> sf_lexer" where
  "lexer_emit realloc_ok lx token start_pos start_col =
     (if tk_type token = SF_TOKEN_TYPE_UNDEFINED
      then lexer_report_undefined realloc_ok lx start_pos start_col
      else lexer_add realloc_ok lx token)"

subsection \<open>Every step moves the read position\<close>

lemma lexer_advance_add [simp]: "lexer_advance (lexer_advance lx m) n = lexer_advance lx (m + n)"
  by (simp add: lexer_advance_def ac_simps)

lemma lexer_advance_0 [simp]: "lexer_advance lx 0 = lx"
  by (simp add: lexer_advance_def)

lemma read_number_loop_moves:
  "read_number_loop base lx v h = (lx', v', h') \<Longrightarrow>
   \<exists>n. lx' = lexer_advance lx n \<and> (h' \<longrightarrow> h \<or> 0 < n)"
proof (induction base lx v h rule: read_number_loop.induct)
  case (1 base lx v h)
  show ?case
  proof (cases "lexer_current lx = CHR 0x00")
    case True
    with "1.prems" show ?thesis by (subst (asm) read_number_loop.simps) (auto intro!: exI [of _ 0])
  next
    case nz: False
    show ?thesis
    proof (cases "lexer_current lx = CHR ''_''")
      case True
      with nz "1.prems" have "read_number_loop base (lexer_advance lx 1) v h = (lx', v', h')"
        by (subst (asm) read_number_loop.simps) simp
      from "1.IH" (1) [OF nz refl True this] obtain n where "lx' = lexer_advance lx (1 + n)" by auto
      then show ?thesis by (intro exI [of _ "1 + n"]) simp
    next
      case us: False
      show ?thesis
      proof (cases "digit_value (lexer_current lx) (int base) < 0")
        case True
        with nz us "1.prems" show ?thesis
          by (subst (asm) read_number_loop.simps) (auto simp: Let_def intro!: exI [of _ 0])
      next
        case False
        with nz us "1.prems" have "read_number_loop base (lexer_advance lx 1)
            (v * of_nat base + of_int (digit_value (lexer_current lx) (int base))) True = (lx', v', h')"
          by (subst (asm) read_number_loop.simps) (simp add: Let_def)
        from "1.IH" (2) [OF nz refl us refl False this] obtain n where "lx' = lexer_advance lx (1 + n)" by auto
        then show ?thesis by (intro exI [of _ "1 + n"]) simp
      qed
    qed
  qed
qed

lemma read_number_moves:
  assumes "read_number lx = (tk, lx')"
  shows "\<exists>n. lx' = lexer_advance lx n \<and>
    (tk_type tk = SF_TOKEN_TYPE_INTEGER \<and> 0 < n \<or> tk_type tk = SF_TOKEN_TYPE_UNDEFINED)"
proof -
  define base where "base = (if lexer_current lx = CHR ''0''
                  then (if lexer_next lx = CHR ''x'' \<or> lexer_next lx = CHR ''X'' then 16
                        else if lexer_next lx = CHR ''b'' \<or> lexer_next lx = CHR ''B'' then 2 else 10)
                  else (10 :: nat))"
  define k where "k = (if base \<noteq> 10 then 2 else 0 :: nat)"
  obtain lx2 v h where loop: "read_number_loop base (lexer_advance lx k) 0 False = (lx2, v, h)"
    by (cases "read_number_loop base (lexer_advance lx k) 0 False") auto
  have k: "(if base \<noteq> 10 then lexer_advance lx 2 else lx) = lexer_advance lx k"
    by (simp add: k_def)
  from read_number_loop_moves [OF loop] obtain n where n: "lx2 = lexer_advance lx (k + n)" "h \<Longrightarrow> 0 < n"
    by auto
  from assms show ?thesis
    unfolding read_number_def base_def [symmetric] Let_def k loop
    using n by (intro exI [of _ "k + n"]) (auto simp: make_token_def split: if_splits)
qed

lemma read_identifier_loop_moves:
  "read_identifier_loop lx v = (lx', v') \<Longrightarrow>
   \<exists>n. lx' = lexer_advance lx n \<and> (is_ident_char (lexer_current lx) \<longrightarrow> 0 < n)"
proof (induction lx v rule: read_identifier_loop.induct)
  case (1 lx v)
  show ?case
  proof (cases "is_ident_char (lexer_current lx)")
    case True
    with "1.prems" have "read_identifier_loop (lexer_advance lx 1)
        (if length v < SF_MAX_TOKEN_VALUE_SIZE - 1 then v @ [lexer_current lx] else v) = (lx', v')"
      by (subst (asm) read_identifier_loop.simps) simp
    from "1.IH" [OF True this] obtain n where "lx' = lexer_advance lx (1 + n)" by auto
    then show ?thesis by (intro exI [of _ "1 + n"]) simp
  next
    case False
    with "1.prems" show ?thesis by (subst (asm) read_identifier_loop.simps) (auto intro!: exI [of _ 0])
  qed
qed

lemma resolve_keyword_cases:
  "resolve_keyword v = SF_TOKEN_TYPE_IDENTIFIER \<or> (resolve_keyword v, v) \<in> set k_keywords"
proof -
  have "resolve_keyword_in t v = SF_TOKEN_TYPE_IDENTIFIER \<or> (resolve_keyword_in t v, v) \<in> set t" for t
    by (induction t) auto
  then show ?thesis by (simp add: resolve_keyword_def)
qed

lemma find_symbol_in_Some:
  "find_symbol_in t text = Some e \<Longrightarrow> e \<in> set t \<and> take (length (snd e)) text = snd e"
  by (induction t) (auto split: if_splits)

lemma k_symbols_ok: "(type, s) \<in> set k_symbols \<Longrightarrow>
    s \<noteq> [] \<and> length s \<le> 3 \<and> type \<noteq> SF_TOKEN_TYPE_UNDEFINED \<and> type \<noteq> SF_TOKEN_TYPE_EOF"
  by (auto simp: k_symbols_def)

lemma k_keywords_ok: "(type, s) \<in> set k_keywords \<Longrightarrow>
    s \<noteq> [] \<and> type \<noteq> SF_TOKEN_TYPE_UNDEFINED \<and> type \<noteq> SF_TOKEN_TYPE_EOF"
  by (auto simp: k_keywords_def)

lemma resolve_keyword_ok:
  "resolve_keyword v \<noteq> SF_TOKEN_TYPE_UNDEFINED" "resolve_keyword v \<noteq> SF_TOKEN_TYPE_EOF"
  using resolve_keyword_cases [of v] k_keywords_ok [of "resolve_keyword v" v] by auto

lemma read_identifier_moves:
  assumes "read_identifier lx = (tk, lx')" "is_ident_char (lexer_current lx)"
  shows "\<exists>n. lx' = lexer_advance lx n \<and> 0 < n"
    "tk_type tk \<noteq> SF_TOKEN_TYPE_UNDEFINED" "tk_type tk \<noteq> SF_TOKEN_TYPE_EOF"
  using assms resolve_keyword_ok
  by (auto simp: read_identifier_def split: prod.splits dest!: read_identifier_loop_moves)

lemma read_symbol_moves:
  assumes "read_symbol lx = (tk, lx')"
  shows "\<exists>n. lx' = lexer_advance lx n \<and> (tk_type tk \<noteq> SF_TOKEN_TYPE_UNDEFINED \<longrightarrow> 0 < n)"
    "tk_type tk \<noteq> SF_TOKEN_TYPE_EOF"
proof -
  have "(\<exists>n. lx' = lexer_advance lx n \<and> (tk_type tk \<noteq> SF_TOKEN_TYPE_UNDEFINED \<longrightarrow> 0 < n)) \<and>
    tk_type tk \<noteq> SF_TOKEN_TYPE_EOF"
  proof (cases "find_symbol (drop (lx_pos lx) (lx_input lx))")
    case None
    with assms show ?thesis by (auto simp: read_symbol_def make_token_def intro: exI [of _ 0])
  next
    case (Some e)
    with find_symbol_in_Some [of k_symbols "drop (lx_pos lx) (lx_input lx)" e] k_symbols_ok [of "fst e" "snd e"] assms
    show ?thesis
      by (auto simp: read_symbol_def find_symbol_def Let_def split: prod.splits intro!: exI [of _ "length (snd e)"])
  qed
  then show "\<exists>n. lx' = lexer_advance lx n \<and> (tk_type tk \<noteq> SF_TOKEN_TYPE_UNDEFINED \<longrightarrow> 0 < n)"
    "tk_type tk \<noteq> SF_TOKEN_TYPE_EOF" by auto
qed

lemma undefined_run_moves:
  "undefined_run lx number v = (lx', v') \<Longrightarrow> \<exists>n. lx' = lexer_advance lx n \<and> 0 < n"
proof (induction lx number v rule: undefined_run.induct)
  case (1 lx number v)
  define v1 where "v1 = (if length v < SF_MAX_TOKEN_VALUE_SIZE - 1 then v @ [lexer_current lx] else v)"
  show ?case
  proof (cases "undefined_run_continues (lexer_advance lx 1) number")
    case True
    with "1.prems" have "undefined_run (lexer_advance lx 1) number v1 = (lx', v')"
      by (subst (asm) undefined_run.simps) (simp add: Let_def v1_def)
    from "1.IH" [OF v1_def refl True this] show ?thesis by auto
  next
    case False
    with "1.prems" show ?thesis
      by (subst (asm) undefined_run.simps) (auto simp: Let_def)
  qed
qed

section \<open>The main loop\<close>

text \<open>One dispatch on the current character: the body of the loop of \<^verbatim>\<open>sf_tokenize\<close> after white
  space, with the reader selected by the first character.\<close>

definition lexer_read :: "sf_lexer \<Rightarrow> sf_token \<times> sf_lexer" where
  "lexer_read lx =
     (if is_digit (lexer_current lx) then read_number lx
      else if is_ident_start (lexer_current lx) then read_identifier lx
      else read_symbol lx)"

definition lexer_step :: "(nat \<Rightarrow> bool) \<Rightarrow> sf_lexer \<Rightarrow> bool \<times> sf_lexer" where
  "lexer_step realloc_ok lx =
     (let c = lexer_current lx
      in if c = CHR 0x0A then (True, lx\<lparr>lx_line := lx_line lx + 1, lx_col := 1, lx_pos := lx_pos lx + 1\<rparr>)
         else if is_space c then (True, lexer_advance lx 1)
         else (case lexer_read lx of
                 (tk, lx1) \<Rightarrow> lexer_emit realloc_ok lx1 tk (lx_pos lx) (lx_col lx)))"

lemma lexer_add_frame:
  "lexer_add ok lx tk = (b, lx') \<Longrightarrow> lx_input lx' = lx_input lx \<and> lx_pos lx' = lx_pos lx \<and>
     lx_filename lx' = lx_filename lx \<and> lx_line lx' = lx_line lx \<and> lx_col lx' = lx_col lx"
  by (auto simp: lexer_add_def split: prod.splits)

lemma lexer_step_progress:
  assumes "lexer_step realloc_ok lx = (b, lx')"
  shows "lx_input lx' = lx_input lx" "lx_pos lx < lx_pos lx'"
proof -
  have "lx_input lx' = lx_input lx \<and> lx_pos lx < lx_pos lx'"
  proof (cases "is_space (lexer_current lx)")
    case True
    with assms show ?thesis by (auto simp: lexer_step_def Let_def split: if_splits)
  next
    case False
    then have nl: "lexer_current lx \<noteq> CHR 0x0A" by (auto simp: is_space_def)
    obtain tk lx1 where r: "lexer_read lx = (tk, lx1)" by (cases "lexer_read lx")
    obtain n where n: "lx1 = lexer_advance lx n" "tk_type tk \<noteq> SF_TOKEN_TYPE_UNDEFINED \<Longrightarrow> 0 < n"
      using r read_number_moves [of lx tk lx1] read_identifier_moves [of lx tk lx1] read_symbol_moves [of lx tk lx1]
      by (auto simp: lexer_read_def is_ident_char_def split: if_splits)
    from assms False nl r n show ?thesis
      by (auto simp: lexer_step_def Let_def lexer_emit_def lexer_report_undefined_def
          split: if_splits prod.splits dest!: lexer_add_frame undefined_run_moves)
  qed
  then show "lx_input lx' = lx_input lx" "lx_pos lx < lx_pos lx'" by auto
qed

lemma lexer_step_decreases:
  assumes "lexer_step realloc_ok lx = (b, lx')" "lexer_current lx \<noteq> CHR 0x00"
  shows "length (lx_input lx') - lx_pos lx' < length (lx_input lx) - lx_pos lx"
  using lexer_step_progress [OF assms(1)] lexer_current_pos [OF assms(2)] by simp

function tokenize_loop :: "(nat \<Rightarrow> bool) \<Rightarrow> sf_lexer \<Rightarrow> bool \<times> sf_lexer" where
  "tokenize_loop realloc_ok lx =
     (if lexer_current lx = CHR 0x00 then (True, lx)
      else (case lexer_step realloc_ok lx of
              (ok, lx1) \<Rightarrow> if ok then tokenize_loop realloc_ok lx1 else (False, lx1)))"
  by pat_completeness auto
termination
  by (relation "measure (\<lambda>(r, lx). length (lx_input lx) - lx_pos lx)")
     (auto dest!: lexer_step_decreases [OF sym])

declare tokenize_loop.simps [simp del]

definition lexer_start :: "string \<Rightarrow> string \<Rightarrow> sf_log_state \<Rightarrow> sf_lexer" where
  "lexer_start input filename g =
     \<lparr>lx_input = input, lx_filename = filename, lx_pos = 0, lx_line = 1, lx_col = 1,
      lx_list = \<lparr>tl_tokens = [], tl_capacity = 0\<rparr>, lx_log = g\<rparr>"

definition sf_tokenize ::
  "(nat \<Rightarrow> bool) \<Rightarrow> string \<Rightarrow> string \<Rightarrow> sf_log_state \<Rightarrow> sf_token_list \<times> sf_log_state" where
  "sf_tokenize realloc_ok input filename g =
     (case tokenize_loop realloc_ok (lexer_start input filename g) of
        (ok, lx) \<Rightarrow>
          if \<not> ok then (lx_list lx, lx_log lx)
          else (case lexer_add realloc_ok lx (make_token SF_TOKEN_TYPE_EOF (lexer_span_here lx)) of
                  (_, lx1) \<Rightarrow> (lx_list lx1, lx_log lx1)))"

definition sf_tokens_free :: "sf_token_list \<Rightarrow> sf_token_list" where
  "sf_tokens_free list = \<lparr>tl_tokens = [], tl_capacity = 0\<rparr>"

end
