(* ===== verification/Preprocess.thy ===== *)
theory Preprocess
  imports Log_State
begin

text \<open>
  The preprocessor, \<^verbatim>\<open>frontend/preprocessor.c\<close>: carriage returns are dropped, then each
  \<^verbatim>\<open>//\<close> comment is dropped up to (not including) its newline. Both passes rewrite a
  NUL-terminated buffer in place with a read and a write pointer; the model returns the
  written string. The allocation of the buffer is the parameter \<open>malloc_ok\<close>, which says for a
  size in bytes whether \<^verbatim>\<open>malloc\<close> succeeds. The lemmas give the contract later stages rely
  on: the text is rewritten line by line, so line numbers in diagnostics stay those of the
  source.
\<close>

section \<open>The two passes\<close>

fun remove_carriage_return :: "string \<Rightarrow> string" where
  "remove_carriage_return [] = []"
| "remove_carriage_return (c # cs) =
     (if c \<noteq> CHR 0x0D then c # remove_carriage_return cs else remove_carriage_return cs)"

function remove_comments :: "string \<Rightarrow> string" where
  "remove_comments [] = []"
| "remove_comments (c # cs) =
     (if c = CHR ''/'' \<and> (cs \<noteq> [] \<and> hd cs = CHR ''/'')
      then remove_comments (dropWhile (\<lambda>ch. ch \<noteq> CHR 0x0A) (c # cs))
      else c # remove_comments cs)"
  by pat_completeness auto
termination
  by (relation "measure length") (auto simp: le_imp_less_Suc length_dropWhile_le)

declare remove_comments.simps(2) [simp del]

definition sf_preprocess ::
  "(nat \<Rightarrow> bool) \<Rightarrow> string \<Rightarrow> nat \<Rightarrow> string \<Rightarrow> sf_log_state \<Rightarrow> string option \<times> sf_log_state" where
  "sf_preprocess malloc_ok src src_size filename g =
     (if \<not> malloc_ok (src_size + 1)
      then (None, sf_log (Some filename) SF_LOG_GENERAL_INSUFFICIENT_MEMORY sf_span_zero
                    SF_LOG_SEVERITY_FATAL [] g)
      else (let out = takeWhile (\<lambda>c. c \<noteq> CHR 0x00) (take src_size src)
            in (Some (remove_comments (remove_carriage_return out)), g)))"

section \<open>Line-wise contract\<close>

fun strip_comment :: "string \<Rightarrow> string" where
  "strip_comment [] = []"
| "strip_comment (c # cs) =
     (if c = CHR ''/'' \<and> cs \<noteq> [] \<and> hd cs = CHR ''/'' then [] else c # strip_comment cs)"

lemma remove_carriage_return_filter: "remove_carriage_return s = filter (\<lambda>c. c \<noteq> CHR 0x0D) s"
  by (induction s) auto

lemma source_lines_hd_nonempty:
  "cs \<noteq> [] \<Longrightarrow> hd cs \<noteq> CHR 0x0A \<Longrightarrow>
   hd (source_lines cs) \<noteq> [] \<and> hd (hd (source_lines cs)) = hd cs"
  by (cases cs) (auto split: list.splits)

lemma source_lines_hd_empty:
  "cs = [] \<or> hd cs = CHR 0x0A \<Longrightarrow> hd (source_lines cs) = []"
  by (cases cs) auto

lemma source_lines_Cons_other:
  "c \<noteq> CHR 0x0A \<Longrightarrow> source_lines (c # cs) = (c # hd (source_lines cs)) # tl (source_lines cs)"
  by (cases "source_lines cs") auto

lemma source_lines_drop_line:
  "source_lines (dropWhile (\<lambda>c. c \<noteq> CHR 0x0A) s) = [] # tl (source_lines s)"
proof (induction s)
  case Nil
  then show ?case by simp
next
  case (Cons c cs)
  then show ?case by (cases "source_lines cs") auto
qed

lemma comment_start_line:
  "c \<noteq> CHR 0x0A \<Longrightarrow>
   (cs \<noteq> [] \<and> hd cs = CHR ''/'') \<longleftrightarrow>
   (hd (source_lines cs) \<noteq> [] \<and> hd (hd (source_lines cs)) = CHR ''/'')"
  using source_lines_hd_nonempty [of cs] source_lines_hd_empty [of cs]
  by (cases "cs = [] \<or> hd cs = CHR 0x0A") auto

lemma source_lines_remove_comments:
  "source_lines (remove_comments s) = map strip_comment (source_lines s)"
proof (induction s rule: remove_comments.induct)
  case 1
  then show ?case by simp
next
  case (2 c cs)
  let ?nl = "\<lambda>ch. ch \<noteq> CHR 0x0A"
  show ?case
  proof (cases "c = CHR ''/'' \<and> cs \<noteq> [] \<and> hd cs = CHR ''/''")
    case True
    then have "strip_comment (c # hd (source_lines cs)) = []"
      using comment_start_line [of c cs] by auto
    moreover have "source_lines (remove_comments (c # cs)) =
        map strip_comment (source_lines (dropWhile ?nl (c # cs)))"
      using "2.IH"(1) True by (simp add: remove_comments.simps(2))
    moreover have "source_lines (c # cs) = (c # hd (source_lines cs)) # tl (source_lines cs)"
      using True by (intro source_lines_Cons_other) simp
    ultimately show ?thesis
      by (simp add: source_lines_drop_line del: source_lines.simps dropWhile.simps)
  next
    case False
    then have ih: "source_lines (remove_comments cs) = map strip_comment (source_lines cs)"
      using "2.IH"(2) by blast
    have rc: "remove_comments (c # cs) = c # remove_comments cs"
      using False by (auto simp: remove_comments.simps(2))
    show ?thesis
    proof (cases "c = CHR 0x0A")
      case True
      with ih rc show ?thesis by simp
    next
      case nl: False
      have "strip_comment (c # hd (source_lines cs)) = c # strip_comment (hd (source_lines cs))"
        using False comment_start_line [OF nl, of cs] by auto
      then show ?thesis unfolding rc
        by (simp add: source_lines_Cons_other [OF nl] ih hd_map map_tl
              del: source_lines.simps strip_comment.simps)
    qed
  qed
qed

lemma length_source_lines: "length (source_lines s) = Suc (count_list s (CHR 0x0A))"
  by (induction s) (auto split: list.splits)

lemma source_lines_inject: "source_lines s = source_lines t \<Longrightarrow> s = t"
proof (induction s arbitrary: t)
  case Nil
  then show ?case by (cases t) (auto split: list.splits if_splits)
next
  case (Cons c cs)
  then show ?case
    by (cases t) (auto split: list.splits if_splits)
qed

lemma strip_comment_idem [simp]: "strip_comment (strip_comment s) = strip_comment s"
proof (induction s)
  case Nil
  then show ?case by simp
next
  case (Cons c cs)
  then show ?case by (cases cs) auto
qed

lemma remove_comments_idem: "remove_comments (remove_comments s) = remove_comments s"
  by (rule source_lines_inject) (simp add: source_lines_remove_comments)

lemma filter_lines:
  "p (CHR 0x0A) \<Longrightarrow> source_lines (filter p s) = map (filter p) (source_lines s)"
  by (induction s) (auto split: list.splits)

lemma strip_comment_set: "set (strip_comment s) \<subseteq> set s"
  by (induction s) auto

lemma remove_comments_set: "set (remove_comments s) \<subseteq> set s"
proof (induction s rule: remove_comments.induct)
  case (2 c cs)
  then show ?case
    by (auto simp: remove_comments.simps(2) dest!: subsetD set_dropWhileD split: if_splits)
qed simp

end
