(* ===== verification/Lexer_Facts.thy ===== *)
theory Lexer_Facts
  imports Lexer Preprocess
begin

text \<open>
  What the lexer promises: the readers consume exactly the run they recognise, the symbol
  table is searched longest first, a number is its digits read modulo 2^64, every undefined
  token is reported, the list ends with the only end-of-file token, and a program printed from
  its tokens is read back as the same tokens.
\<close>

section \<open>The readers as functions of the rest of the input\<close>

abbreviation lexer_rest :: "sf_lexer \<Rightarrow> string" where
  "lexer_rest lx \<equiv> drop (lx_pos lx) (lx_input lx)"

lemma lexer_current_rest:
  "lexer_current lx = (case lexer_rest lx of [] \<Rightarrow> CHR 0x00 | c # _ \<Rightarrow> c)"
  by (cases "lx_pos lx < length (lx_input lx)")
     (auto simp: lexer_current_def simp flip: Cons_nth_drop_Suc)

lemma lexer_next_rest:
  "lexer_next lx = (case lexer_rest lx of
     c # d # _ \<Rightarrow> if c = CHR 0x00 then CHR 0x00 else d | _ \<Rightarrow> CHR 0x00)"
proof (cases "lexer_rest lx")
  case Nil
  then show ?thesis by (simp add: lexer_next_def lexer_current_rest)
next
  case (Cons c cs)
  then have "drop (Suc (lx_pos lx)) (lx_input lx) = cs"
    by (metis drop_Suc list.sel(3) tl_drop)
  with Cons show ?thesis
    by (cases cs; cases "Suc (lx_pos lx) < length (lx_input lx)")
       (auto simp: lexer_next_def lexer_current_rest simp flip: Cons_nth_drop_Suc)
qed

lemma lexer_rest_advance: "lexer_rest (lexer_advance lx n) = drop n (lexer_rest lx)"
  by (simp add: add.commute)

lemma read_identifier_loop_run:
  "read_identifier_loop lx v =
   (lexer_advance lx (length (takeWhile is_ident_char (lexer_rest lx))),
    v @ take (SF_MAX_TOKEN_VALUE_SIZE - 1 - length v) (takeWhile is_ident_char (lexer_rest lx)))"
proof (induction lx v rule: read_identifier_loop.induct)
  case (1 lx v)
  show ?case
  proof (cases "is_ident_char (lexer_current lx)")
    case False
    then have "takeWhile is_ident_char (lexer_rest lx) = []"
      by (auto simp: lexer_current_rest split: list.splits)
    with False show ?thesis by (subst read_identifier_loop.simps) (simp only: if_False, simp)
  next
    case True
    then obtain cs where r: "lexer_rest lx = lexer_current lx # cs"
      using ident_char_not_nul [OF True] by (auto simp: lexer_current_rest split: list.splits)
    then have "drop (Suc (lx_pos lx)) (lx_input lx) = cs" by (metis drop_Suc list.sel(3) tl_drop)
    with "1.IH" [OF True] True r show ?thesis
      by (subst read_identifier_loop.simps) (auto simp: take_Cons')
  qed
qed

lemma digit_value_not_nul: "digit_value (CHR 0x00) b = -1"
  by (simp add: digit_value_def)

lemma digit_value_underscore: "digit_value (CHR ''_'') b = -1"
  by (simp add: digit_value_def less_eq_char_def)

definition number_run :: "nat \<Rightarrow> string \<Rightarrow> string" where
  "number_run base s = takeWhile (\<lambda>c. c = CHR ''_'' \<or> 0 \<le> digit_value c (int base)) s"

lemma read_number_loop_run:
  "read_number_loop base lx v h =
   (lexer_advance lx (length (number_run base (lexer_rest lx))),
    foldl (\<lambda>v c. v * of_nat base + of_int (digit_value c (int base))) v
      (filter (\<lambda>c. c \<noteq> CHR ''_'') (number_run base (lexer_rest lx))),
    h \<or> filter (\<lambda>c. c \<noteq> CHR ''_'') (number_run base (lexer_rest lx)) \<noteq> [])"
proof (induction base lx v h rule: read_number_loop.induct)
  case (1 base lx v h)
  show ?case
  proof (cases "lexer_current lx = CHR 0x00")
    case True
    then have "number_run base (lexer_rest lx) = []"
      by (auto simp: number_run_def lexer_current_rest digit_value_not_nul split: list.splits)
    with True show ?thesis by (subst read_number_loop.simps) simp
  next
    case nz: False
    then obtain cs where r: "lexer_rest lx = lexer_current lx # cs"
      by (auto simp: lexer_current_rest split: list.splits)
    then have cs: "drop (Suc (lx_pos lx)) (lx_input lx) = cs" by (metis drop_Suc list.sel(3) tl_drop)
    consider "lexer_current lx = CHR ''_''" | "lexer_current lx \<noteq> CHR ''_''" "digit_value (lexer_current lx) (int base) < 0"
      | "lexer_current lx \<noteq> CHR ''_''" "\<not> digit_value (lexer_current lx) (int base) < 0" by blast
    then show ?thesis
    proof cases
      case 1
      with nz r cs "1.IH" (1) [OF nz refl 1] show ?thesis
        by (subst read_number_loop.simps) (simp add: number_run_def Let_def)
    next
      case 2
      with nz r show ?thesis
        by (subst read_number_loop.simps) (simp add: number_run_def Let_def)
    next
      case 3
      with nz r cs "1.IH" (2) [OF nz refl 3(1) refl 3(2)] show ?thesis
        by (subst read_number_loop.simps) (simp add: number_run_def Let_def)
    qed
  qed
qed

section \<open>Longest match in the symbol table\<close>

lemma find_symbol_in_longest:
  assumes "sorted_wrt (\<lambda>a b. length (snd b) \<le> length (snd a)) t"
    and "find_symbol_in t text = Some e" "e' \<in> set t" "take (length (snd e')) text = snd e'"
  shows "length (snd e') \<le> length (snd e)"
  using assms by (induction t) (auto split: if_splits)

lemma find_symbol_in_None:
  "find_symbol_in t text = None \<longleftrightarrow> (\<forall>e \<in> set t. take (length (snd e)) text \<noteq> snd e)"
  by (induction t) auto

lemma k_symbols_sorted: "sorted_wrt (\<lambda>a b. length (snd b) \<le> length (snd a)) k_symbols"
  by (simp add: k_symbols_def)

lemma k_symbols_distinct: "distinct (map snd k_symbols)"
  by (simp add: k_symbols_def)

lemma k_symbols_unique: "(a, s) \<in> set k_symbols \<Longrightarrow> (b, s) \<in> set k_symbols \<Longrightarrow> a = b"
  using k_symbols_distinct by (force simp: distinct_map inj_on_def)

text \<open>Maximal munch. When \<open>find_symbol\<close> returns an entry it is an entry of the table whose
  text starts the input, and no entry of the table that starts the input is longer; it returns
  nothing exactly when no entry starts the input. The first-match search of the code is
  therefore a longest-match search.\<close>

theorem find_symbol_maximal_munch:
  "case find_symbol text of
     Some (type, s) \<Rightarrow> (type, s) \<in> set k_symbols \<and> (\<exists>rest. text = s @ rest) \<and>
       (\<forall>(type', s') \<in> set k_symbols. (\<exists>rest. text = s' @ rest) \<longrightarrow> length s' \<le> length s)
   | None \<Rightarrow> \<forall>(type, s) \<in> set k_symbols. \<nexists>rest. text = s @ rest"
proof (cases "find_symbol text")
  case None
  then have "\<forall>e \<in> set k_symbols. take (length (snd e)) text \<noteq> snd e"
    by (simp only: find_symbol_def find_symbol_in_None)
  then have "\<forall>(type, s) \<in> set k_symbols. \<nexists>rest. text = s @ rest" by fastforce
  then show ?thesis using None by simp
next
  case (Some e)
  then have e: "e \<in> set k_symbols" "take (length (snd e)) text = snd e"
    using find_symbol_in_Some by (auto simp: find_symbol_def)
  have "length s' \<le> length (snd e)" if "(type', s') \<in> set k_symbols" "text = s' @ rest" for type' s' rest
    using find_symbol_in_longest [OF k_symbols_sorted Some [unfolded find_symbol_def] that(1)] that(2) by simp
  moreover have "\<exists>rest. text = snd e @ rest" using e(2) by (metis append_take_drop_id)
  ultimately show ?thesis using Some e by auto
qed

lemma find_symbol_maximal_munch_witness:
  "find_symbol ''<<=1'' = Some (SF_TOKEN_TYPE_LEFT_SHIFT_EQUAL, ''<<='') \<and>
   (SF_TOKEN_TYPE_LEFT_SHIFT_EQUAL, ''<<='') \<in> set k_symbols \<and> (\<exists>rest. ''<<=1'' = ''<<='' @ rest)"
proof -
  have "find_symbol ''<<=1'' = Some (SF_TOKEN_TYPE_LEFT_SHIFT_EQUAL, ''<<='')" by code_simp
  with find_symbol_maximal_munch [of "''<<=1''"] show ?thesis by simp
qed

section \<open>Numbers\<close>

definition number_value :: "nat \<Rightarrow> string \<Rightarrow> nat" where
  "number_value base s =
     foldl (\<lambda>v c. v * base + nat (digit_value c (int base))) 0 (filter (\<lambda>c. c \<noteq> CHR ''_'') s)"

lemma foldl_number_word:
  "\<forall>c \<in> set s. 0 \<le> digit_value c (int base) \<Longrightarrow>
   foldl (\<lambda>v c. v * of_nat base + of_int (digit_value c (int base))) (of_nat n :: uint64) s =
   of_nat (foldl (\<lambda>v c. v * base + nat (digit_value c (int base))) n s)"
proof (induction s arbitrary: n)
  case (Cons c s)
  have "(of_nat n :: uint64) * of_nat base + of_int (digit_value c (int base)) =
        of_nat (n * base + nat (digit_value c (int base)))"
    using Cons.prems by simp
  with Cons show ?case by (simp del: of_nat_add of_nat_mult)
qed simp

lemma not_ident_not_digit: "\<not> is_ident_char c \<Longrightarrow> base \<le> 16 \<Longrightarrow> \<not> 0 \<le> digit_value c base"
  by (auto simp: is_ident_char_def is_ident_start_def is_digit_def digit_value_def less_eq_char_def
      split: if_splits)

lemma number_run_all:
  assumes "\<forall>c \<in> set ds. c = CHR ''_'' \<or> 0 \<le> digit_value c (int base)" "base \<le> 16"
    and "rest = [] \<or> \<not> is_ident_char (hd rest)"
  shows "number_run base (ds @ rest) = ds"
proof -
  have "takeWhile (\<lambda>c. c = CHR ''_'' \<or> 0 \<le> digit_value c (int base)) rest = []"
    using assms(2,3) not_ident_not_digit [of "hd rest" "int base"]
    by (cases rest) (auto simp: is_ident_char_def is_ident_start_def)
  with assms(1) show ?thesis by (simp add: number_run_def)
qed

definition number_prefix :: "nat \<Rightarrow> string \<Rightarrow> bool" where
  "number_prefix base p \<longleftrightarrow>
     (base, p) \<in> {(10, ''''), (16, ''0x''), (16, ''0X''), (2, ''0b''), (2, ''0B'')}"

lemma read_number_digits:
  assumes "number_prefix base p"
    and digits: "\<forall>c \<in> set ds. c = CHR ''_'' \<or> 0 \<le> digit_value c (int base)"
    and "\<exists>c \<in> set ds. c \<noteq> CHR ''_''"
    and rest: "drop (lx_pos lx) (lx_input lx) = p @ ds @ rest"
    and after: "rest = [] \<or> \<not> is_ident_char (hd rest)"
  shows "read_number lx =
    (\<lparr>tk_type = SF_TOKEN_TYPE_INTEGER, tk_value = dec_digits (number_value base ds mod 2 ^ 64),
      tk_span = (lexer_span_here lx)\<lparr>sp_len := min 255 (length p + length ds)\<rparr>\<rparr>,
     lexer_advance lx (length p + length ds))"
proof -
  have ne: "ds \<noteq> []" using assms(3) by auto
  have b16: "base \<le> 16" using assms(1) by (auto simp: number_prefix_def)
  let ?base = "if lexer_current lx = CHR ''0''
        then (if lexer_next lx = CHR ''x'' \<or> lexer_next lx = CHR ''X'' then 16
              else if lexer_next lx = CHR ''b'' \<or> lexer_next lx = CHR ''B'' then 2 else 10) else 10 :: nat"
  have plain: "lexer_next lx \<notin> {CHR ''x'', CHR ''X'', CHR ''b'', CHR ''B''}" if "p = []" "base = 10"
  proof -
    obtain c cs where c: "ds = c # cs" using ne by (cases ds) auto
    show ?thesis
    proof (cases cs)
      case Nil
      with c rest that after show ?thesis
        by (auto simp: lexer_next_rest is_ident_char_def is_ident_start_def split: list.splits)
    next
      case (Cons d ds')
      then have "d = CHR ''_'' \<or> 0 \<le> digit_value d 10" using digits c that by auto
      moreover have "lexer_next lx = (if c = CHR 0x00 then CHR 0x00 else d)"
        using rest that c Cons by (simp add: lexer_next_rest)
      ultimately show ?thesis by (auto simp: digit_value_def)
    qed
  qed
  have base: "?base = base"
    using assms(1) rest plain by (auto simp: number_prefix_def lexer_current_rest lexer_next_rest)
  have p: "length p = (if base \<noteq> 10 then 2 else 0)" using assms(1) by (auto simp: number_prefix_def)
  have start: "(if base \<noteq> 10 then lexer_advance lx 2 else lx) = lexer_advance lx (length p)"
    by (simp add: p)
  have r: "drop (lx_pos lx + length p) (lx_input lx) = ds @ rest"
    using rest by (metis add.commute append_eq_conv_conj drop_drop)
  have run: "number_run base (ds @ rest) = ds" using number_run_all [OF digits b16 after] .
  have some: "filter (\<lambda>c. c \<noteq> CHR ''_'') ds \<noteq> []" using assms(3) by (auto simp: filter_empty_conv)
  have val: "foldl (\<lambda>v c. v * of_nat base + of_int (digit_value c (int base))) 0
      (filter (\<lambda>c. c \<noteq> CHR ''_'') ds) = (of_nat (number_value base ds) :: uint64)"
    using foldl_number_word [of "filter (\<lambda>c. c \<noteq> CHR ''_'') ds" base 0] digits by (auto simp: number_value_def)
  have loop: "read_number_loop base (lexer_advance lx (length p)) 0 False =
      (lexer_advance lx (length p + length ds), of_nat (number_value base ds), True)"
    using some by (simp add: read_number_loop_run r run val)
  have stop: "\<not> is_ident_char (lexer_current (lexer_advance lx (length p + length ds)))"
  proof -
    have "lexer_rest (lexer_advance lx (length p + length ds)) = rest"
      unfolding lexer_rest_advance using rest by simp
    then show ?thesis using after ident_char_not_nul by (cases rest) (auto simp: lexer_current_rest)
  qed
  show ?thesis
    unfolding read_number_def Let_def base start loop prod.case using stop
    by (simp add: unat_of_nat min_def)
qed

text \<open>The value of an integer token. For an input that starts with digits of base 10, or
  with digits of base 16 or 2 after the prefixes of the language, with underscores between
  them and no identifier character after them, \<open>read_number\<close> consumes exactly that text and
  yields an integer token holding the decimal digits of the value reduced modulo 2^64 (the
  accumulator of the code is an unsigned 64-bit integer that wraps).\<close>

theorem read_number_value:
  assumes "number_prefix base p"
    and "\<forall>c \<in> set ds. c = CHR ''_'' \<or> 0 \<le> digit_value c (int base)"
    and "\<exists>c \<in> set ds. c \<noteq> CHR ''_''"
    and "drop (lx_pos lx) (lx_input lx) = p @ ds @ rest"
    and "rest = [] \<or> \<not> is_ident_char (hd rest)"
  shows "read_number lx =
    (\<lparr>tk_type = SF_TOKEN_TYPE_INTEGER, tk_value = dec_digits (number_value base ds mod 2 ^ 64),
      tk_span = (lexer_span_here lx)\<lparr>sp_len := min 255 (length p + length ds)\<rparr>\<rparr>,
     lexer_advance lx (length p + length ds))"
  using assms by (rule read_number_digits)

lemma read_number_value_witness:
  "read_number (lexer_start ''0xF_f+'' ''a'' sf_log_init) =
    (\<lparr>tk_type = SF_TOKEN_TYPE_INTEGER, tk_value = ''255'',
      tk_span = \<lparr>sp_line = 1, sp_col = 1, sp_len = 5\<rparr>\<rparr>,
     lexer_advance (lexer_start ''0xF_f+'' ''a'' sf_log_init) 5)"
proof -
  have v: "dec_digits (number_value 16 ''F_f'' mod 2 ^ 64) = ''255''"
    by (simp add: number_value_def digit_value_def dec_digits.simps)
  have s: "lexer_span_here (lexer_start ''0xF_f+'' ''a'' sf_log_init) = \<lparr>sp_line = 1, sp_col = 1, sp_len = 0\<rparr>"
    by (simp add: lexer_span_here_def lexer_start_def)
  have r: "drop (lx_pos (lexer_start ''0xF_f+'' ''a'' sf_log_init)) (lx_input (lexer_start ''0xF_f+'' ''a'' sf_log_init))
      = ''0x'' @ ''F_f'' @ ''+''" by (simp add: lexer_start_def)
  have d: "\<forall>c \<in> set ''F_f''. c = CHR ''_'' \<or> 0 \<le> digit_value c (int 16)"
    by (simp add: digit_value_def)
  show ?thesis
    using read_number_value [OF _ d _ r] unfolding v s
    by (simp add: number_prefix_def is_ident_char_def is_ident_start_def is_digit_def eval_nat_numeral)
qed

text \<open>An integer literal beyond 64 bits is accepted and wraps: the token of
  18446744073709551616 is the integer 0 and nothing is logged.\<close>

theorem number_literal_wraps:
  "let (l, g) = sf_tokenize (\<lambda>_. True) ''18446744073709551616'' ''a'' sf_log_init
   in map (\<lambda>t. (tk_type t, tk_value t)) (tl_tokens l) =
        [(SF_TOKEN_TYPE_INTEGER, ''0''), (SF_TOKEN_TYPE_EOF, [])] \<and> \<not> sf_log_had_errors g"
proof -
  let ?lx = "lexer_start ''18446744073709551616'' ''a'' sf_log_init"
  have d: "\<forall>c \<in> set ''18446744073709551616''. c = CHR ''_'' \<or> 0 \<le> digit_value c (int 10)"
    by (simp add: digit_value_def)
  have v: "dec_digits (number_value 10 ''18446744073709551616'' mod 2 ^ 64) = ''0''"
    by (simp add: number_value_def digit_value_def dec_digits.simps)
  have r: "drop (lx_pos ?lx) (lx_input ?lx) = '''' @ ''18446744073709551616'' @ ''''"
    by (simp add: lexer_start_def)
  have n: "read_number ?lx = (\<lparr>tk_type = SF_TOKEN_TYPE_INTEGER, tk_value = ''0'',
      tk_span = (lexer_span_here ?lx)\<lparr>sp_len := 20\<rparr>\<rparr>, lexer_advance ?lx 20)"
    using read_number_digits [OF _ d _ r] unfolding v by (simp add: number_prefix_def eval_nat_numeral)
  have c: "lexer_current ?lx = CHR ''1''"
    by (simp add: lexer_current_def lexer_start_def)
  define lx1 where "lx1 = (lexer_advance ?lx 20)\<lparr>lx_list := \<lparr>tl_tokens =
      [\<lparr>tk_type = SF_TOKEN_TYPE_INTEGER, tk_value = ''0'', tk_span = (lexer_span_here ?lx)\<lparr>sp_len := 20\<rparr>\<rparr>],
      tl_capacity = 16\<rparr>\<rparr>"
  have l: "lx_list ?lx = \<lparr>tl_tokens = [], tl_capacity = 0\<rparr>" "lx_log ?lx = sf_log_init"
    by (simp_all add: lexer_start_def)
  have s1: "lexer_step (\<lambda>_. True) ?lx = (True, lx1)"
    by (simp add: lexer_step_def is_space_def lexer_read_def is_digit_def n lexer_emit_def c
        lexer_add_def list_add_def l sizeof_sf_token_def lx1_def Let_def)
  have c1: "lexer_current lx1 = CHR 0x00"
    by (simp add: lexer_current_def lexer_start_def lx1_def)
  have "tokenize_loop (\<lambda>_. True) ?lx = (True, lx1)"
    by (subst tokenize_loop.simps, subst tokenize_loop.simps) (simp add: c s1 c1)
  moreover have "\<not> sf_log_had_errors sf_log_init" by (simp add: sf_log_had_errors_def sf_log_init_def)
  ultimately show ?thesis
    by (simp add: sf_tokenize_def lexer_add_def list_add_def lx1_def l make_token_def)
qed

section \<open>The token list\<close>

text \<open>The state between two iterations of the main loop: the array has room as the doubling
  left it, there are at most as many tokens as characters read, none of them is the
  end-of-file token, and the log has one error more for each undefined token.\<close>

definition undefined_count :: "sf_token list \<Rightarrow> nat" where
  "undefined_count ts = length (filter (\<lambda>t. tk_type t = SF_TOKEN_TYPE_UNDEFINED) ts)"

definition token_list_inv :: "sf_token_list \<Rightarrow> bool" where
  "token_list_inv l \<longleftrightarrow> length (tl_tokens l) \<le> tl_capacity l \<and>
     tl_capacity l \<le> max 16 (2 * length (tl_tokens l))"

definition lexer_inv :: "sf_log_state \<Rightarrow> sf_lexer \<Rightarrow> bool" where
  "lexer_inv g lx \<longleftrightarrow> token_list_inv (lx_list lx) \<and>
     length (tl_tokens (lx_list lx)) + (length (lx_input lx) - lx_pos lx) \<le> length (lx_input lx) \<and>
     (\<forall>t \<in> set (tl_tokens (lx_list lx)). tk_type t \<noteq> SF_TOKEN_TYPE_EOF) \<and>
     g_error_count (lx_log lx) = g_error_count g + undefined_count (tl_tokens (lx_list lx)) \<and>
     (log_inv g \<longrightarrow> log_inv (lx_log lx))"

lemma list_add_ok:
  assumes "\<forall>n. realloc_ok n" "length (tl_tokens l) < 2 ^ 54" "token_list_inv l"
  shows "\<exists>cap. list_add realloc_ok l tk g = (True, \<lparr>tl_tokens = tl_tokens l @ [tk], tl_capacity = cap\<rparr>, g) \<and>
     token_list_inv \<lparr>tl_tokens = tl_tokens l @ [tk], tl_capacity = cap\<rparr>"
proof -
  have "tl_capacity l * 2 \<le> SIZE_MAX div sizeof_sf_token" if "tl_capacity l \<le> length (tl_tokens l)"
    using that assms(2) by (simp add: sizeof_sf_token_def)
  moreover have "16 \<le> SIZE_MAX div sizeof_sf_token" by (simp add: sizeof_sf_token_def)
  ultimately show ?thesis using assms(1,3)
    by (cases l) (auto simp: list_add_def token_list_inv_def Let_def)
qed

lemma lexer_read_cases:
  assumes "lexer_read lx = (tk, lx1)"
  shows "\<exists>n. lx1 = lexer_advance lx n \<and> (tk_type tk = SF_TOKEN_TYPE_UNDEFINED \<or>
    0 < n \<and> tk_type tk \<noteq> SF_TOKEN_TYPE_EOF)"
  using assms read_number_moves [of lx tk lx1] read_identifier_moves [of lx tk lx1] read_symbol_moves [of lx tk lx1]
  by (auto simp: lexer_read_def is_ident_char_def split: if_splits)

lemma lexer_step_inv:
  assumes "\<forall>n. realloc_ok n" and len: "length (lx_input lx) < 2 ^ 54"
    and nz: "lexer_current lx \<noteq> CHR 0x00" and inv: "lexer_inv g lx"
    and step: "lexer_step realloc_ok lx = (ok, lx')"
  shows "ok \<and> lexer_inv g lx'"
proof (cases "is_space (lexer_current lx)")
  case True
  with inv step show ?thesis
    by (auto simp: lexer_step_def Let_def lexer_inv_def split: if_splits)
next
  case False
  then have nl: "lexer_current lx \<noteq> CHR 0x0A" by (auto simp: is_space_def)
  obtain tk lx1 where r: "lexer_read lx = (tk, lx1)" by (cases "lexer_read lx")
  from lexer_read_cases [OF r] obtain n where n: "lx1 = lexer_advance lx n"
    "tk_type tk = SF_TOKEN_TYPE_UNDEFINED \<or> 0 < n \<and> tk_type tk \<noteq> SF_TOKEN_TYPE_EOF" by blast
  have pos: "lx_pos lx < length (lx_input lx)" by (rule lexer_current_pos [OF nz])
  have few: "length (tl_tokens (lx_list lx)) < 2 ^ 54"
    using inv len pos unfolding lexer_inv_def by linarith
  have add: "\<exists>cap. lexer_add realloc_ok lx2 t = (True, lx2\<lparr>lx_list := \<lparr>tl_tokens = tl_tokens (lx_list lx) @ [t], tl_capacity = cap\<rparr>\<rparr>)
      \<and> token_list_inv \<lparr>tl_tokens = tl_tokens (lx_list lx) @ [t], tl_capacity = cap\<rparr>"
    if "lx_list lx2 = lx_list lx" for lx2 t
  proof -
    have "token_list_inv (lx_list lx)" using inv by (simp add: lexer_inv_def)
    from list_add_ok [OF assms(1) few this, of t "lx_log lx2"] that
    show ?thesis by (auto simp: lexer_add_def)
  qed
  have st: "lexer_emit realloc_ok lx1 tk (lx_pos lx) (lx_col lx) = (ok, lx')"
    using step False nl r by (simp add: lexer_step_def Let_def)
  show ?thesis
  proof (cases "tk_type tk = SF_TOKEN_TYPE_UNDEFINED")
    case True
    define lx2 where "lx2 = lx1\<lparr>lx_pos := lx_pos lx, lx_col := lx_col lx\<rparr>"
    obtain lx3 v where u: "undefined_run lx2 (is_digit (lexer_current lx2)) [] = (lx3, v)"
      by (cases "undefined_run lx2 (is_digit (lexer_current lx2)) []")
    from undefined_run_moves [OF u] obtain m where m: "lx3 = lexer_advance lx2 m" "0 < m" by blast
    have "lx_list lx3 = lx_list lx" "lx_log lx3 = lx_log lx" "lx_input lx3 = lx_input lx"
      and dec: "Suc (length (lx_input lx) - lx_pos lx3) \<le> length (lx_input lx) - lx_pos lx"
      using m pos by (simp_all add: lx2_def n)
    with add [of lx3 "\<lparr>tk_type = SF_TOKEN_TYPE_UNDEFINED, tk_value = v,
        tk_span = (lexer_span_here lx2)\<lparr>sp_len := length v mod 256\<rparr>\<rparr>"] st True u inv
    show ?thesis
      by (auto simp: lexer_emit_def lexer_report_undefined_def Let_def lx2_def [symmetric]
          lexer_inv_def undefined_count_def sf_log_error_count severity_error_le)
  next
    case False
    with n pos have "Suc (length (lx_input lx) - lx_pos lx1) \<le> length (lx_input lx) - lx_pos lx" by auto
    with False add [of lx1 tk] st n inv show ?thesis
      by (auto simp: lexer_emit_def lexer_inv_def undefined_count_def)
  qed
qed

lemma tokenize_loop_inv:
  assumes "\<forall>n. realloc_ok n" "length (lx_input lx) < 2 ^ 54" "lexer_inv g lx"
  shows "\<exists>lx'. tokenize_loop realloc_ok lx = (True, lx') \<and> lexer_inv g lx' \<and>
    lx_input lx' = lx_input lx \<and> length (tl_tokens (lx_list lx')) \<le> length (lx_input lx)"
  using assms
proof (induction realloc_ok lx rule: tokenize_loop.induct)
  case (1 realloc_ok lx)
  show ?case
  proof (cases "lexer_current lx = CHR 0x00")
    case True
    with "1.prems" show ?thesis by (subst tokenize_loop.simps) (auto simp: lexer_inv_def)
  next
    case False
    obtain ok lx1 where s: "lexer_step realloc_ok lx = (ok, lx1)" by (cases "lexer_step realloc_ok lx")
    from lexer_step_inv [OF "1.prems" (1,2) False "1.prems" (3) s]
    have i: "ok" "lexer_inv g lx1" by auto
    have inp: "lx_input lx1 = lx_input lx" using lexer_step_progress [OF s] by simp
    from "1.IH" [OF False s [symmetric] i(1) "1.prems" (1) _ i(2)] inp "1.prems" (2) s False i(1)
    show ?thesis by (subst tokenize_loop.simps) simp
  qed
qed

lemma lexer_inv_start: "lexer_inv g (lexer_start input filename g)"
  by (simp add: lexer_inv_def lexer_start_def token_list_inv_def undefined_count_def)

lemma sf_tokenize_result:
  assumes "\<forall>n. realloc_ok n" "length input < 2 ^ 54"
  shows "\<exists>lx. tokenize_loop realloc_ok (lexer_start input filename g) = (True, lx) \<and> lexer_inv g lx \<and>
     length (tl_tokens (lx_list lx)) \<le> length input \<and>
     tl_tokens (fst (sf_tokenize realloc_ok input filename g)) =
       tl_tokens (lx_list lx) @ [make_token SF_TOKEN_TYPE_EOF (lexer_span_here lx)] \<and>
     snd (sf_tokenize realloc_ok input filename g) = lx_log lx"
proof -
  have inp: "lx_input (lexer_start input filename g) = input" by (simp add: lexer_start_def)
  obtain lx where lx: "tokenize_loop realloc_ok (lexer_start input filename g) = (True, lx)"
    "lexer_inv g lx" "length (tl_tokens (lx_list lx)) \<le> length input"
    using tokenize_loop_inv [OF assms(1) _ lexer_inv_start, of input filename g] assms(2) unfolding inp by blast
  moreover have "token_list_inv (lx_list lx)" using lx(2) by (simp add: lexer_inv_def)
  ultimately show ?thesis
    using list_add_ok [OF assms(1), of "lx_list lx" "make_token SF_TOKEN_TYPE_EOF (lexer_span_here lx)" "lx_log lx"] assms(2)
    by (auto simp: sf_tokenize_def lexer_add_def)
qed

text \<open>C32: When the token array can always grow, the list of a source shorter than 2^54 bytes ends
  with an end-of-file token, holds no other one, and has at most one token for each byte.\<close>

theorem sf_tokenize_ends_with_eof:
  assumes "\<forall>n. realloc_ok n" "length input < 2 ^ 54"
  shows "\<exists>ts eof. tl_tokens (fst (sf_tokenize realloc_ok input filename g)) = ts @ [eof] \<and>
    tk_type eof = SF_TOKEN_TYPE_EOF \<and> SF_TOKEN_TYPE_EOF \<notin> tk_type ` set ts \<and>
    length ts \<le> length input"
  using sf_tokenize_result [OF assms, of filename g]
  by (force simp: lexer_inv_def make_token_def)

lemma sf_tokenize_ends_with_eof_witness:
  "\<exists>ts eof. tl_tokens (fst (sf_tokenize (\<lambda>_. True) ''mut i32 x@ = 0b12;'' ''a'' sf_log_init)) = ts @ [eof] \<and>
    tk_type eof = SF_TOKEN_TYPE_EOF \<and> SF_TOKEN_TYPE_EOF \<notin> tk_type ` set ts \<and>
    length ts \<le> length ''mut i32 x@ = 0b12;''"
  by (rule sf_tokenize_ends_with_eof) simp_all

text \<open>C31: Undefined tokens and lexical errors correspond one to one: the error count rises by
  the number of undefined tokens in the list, so a source lexes without error exactly when
  no token of its list is undefined.\<close>

theorem sf_tokenize_reports_undefined:
  assumes "\<forall>n. realloc_ok n" "length input < 2 ^ 54"
  shows "g_error_count (snd (sf_tokenize realloc_ok input filename g)) =
    g_error_count g +
    length (filter (\<lambda>t. tk_type t = SF_TOKEN_TYPE_UNDEFINED)
      (tl_tokens (fst (sf_tokenize realloc_ok input filename g))))"
  using sf_tokenize_result [OF assms, of filename g]
  by (auto simp: lexer_inv_def make_token_def undefined_count_def)

lemma sf_tokenize_reports_undefined_witness:
  "g_error_count (snd (sf_tokenize (\<lambda>_. True) ''x @@ y'' ''a'' sf_log_init)) =
    length (filter (\<lambda>t. tk_type t = SF_TOKEN_TYPE_UNDEFINED)
      (tl_tokens (fst (sf_tokenize (\<lambda>_. True) ''x @@ y'' ''a'' sf_log_init))))"
  using sf_tokenize_reports_undefined [of "\<lambda>_. True" "''x @@ y''" "''a''" sf_log_init]
  by (simp add: sf_log_init_def)

section \<open>Printing and reading back\<close>

definition lexeme_ok :: "sf_token_spelling \<Rightarrow> bool" where
  "lexeme_ok w \<longleftrightarrow> w \<in> set k_symbols \<or> w \<in> set k_keywords \<or>
     (fst w = SF_TOKEN_TYPE_IDENTIFIER \<and> snd w \<noteq> [] \<and> is_ident_start (hd (snd w)) \<and>
      (\<forall>c \<in> set (snd w). is_ident_char c) \<and> length (snd w) < SF_MAX_TOKEN_VALUE_SIZE \<and>
      snd w \<notin> snd ` set k_keywords) \<or>
     (fst w = SF_TOKEN_TYPE_INTEGER \<and> snd w = dec_digits (dec_value 0 (snd w)) \<and>
      dec_value 0 (snd w) < 2 ^ 64)"

definition print_lexemes :: "sf_token_spelling list \<Rightarrow> string" where
  "print_lexemes ws = concat (map (\<lambda>w. snd w @ '' '') ws)"

lemma resolve_keyword_not: "v \<notin> snd ` set k_keywords \<Longrightarrow> resolve_keyword v = SF_TOKEN_TYPE_IDENTIFIER"
  using resolve_keyword_cases [of v] by force

lemma resolve_keyword_in_table:
  "distinct (map snd t) \<Longrightarrow> (type, v) \<in> set t \<Longrightarrow> resolve_keyword_in t v = type"
  by (induction t) force+

lemma k_keywords_spelling:
  assumes "(type, v) \<in> set k_keywords"
  shows "is_ident_start (hd v) \<and> (\<forall>c \<in> set v. is_ident_char c) \<and>
     v \<noteq> [] \<and> length v < SF_MAX_TOKEN_VALUE_SIZE"
proof -
  have "\<forall>w \<in> set k_keywords. is_ident_start (hd (snd w)) \<and> (\<forall>c \<in> set (snd w). is_ident_char c) \<and>
     snd w \<noteq> [] \<and> length (snd w) < SF_MAX_TOKEN_VALUE_SIZE"
    by (simp add: k_keywords_def is_ident_start_def is_ident_char_def is_digit_def SF_MAX_TOKEN_VALUE_SIZE_def)
  with assms show ?thesis by fastforce
qed

lemma k_keywords_distinct: "distinct (map snd k_keywords)"
  by (simp add: k_keywords_def)

lemma k_symbols_spelling:
  "(type, s) \<in> set k_symbols \<Longrightarrow> \<forall>c \<in> set s. \<not> is_space c \<and> \<not> is_ident_char c \<and> c \<noteq> CHR 0x00"
  by (auto simp: k_symbols_def is_ident_start_def is_ident_char_def is_digit_def is_space_def)

lemma ident_char_not_space: "is_ident_char c \<Longrightarrow> \<not> is_space c"
  by (auto simp: is_ident_start_def is_ident_char_def is_digit_def is_space_def)

lemma read_word:
  assumes "lexer_rest lx = s @ '' '' @ rest" "s \<noteq> []" "is_ident_start (hd s)" "\<forall>c \<in> set s. is_ident_char c"
    "length s < SF_MAX_TOKEN_VALUE_SIZE"
  shows "lexer_read lx = (\<lparr>tk_type = resolve_keyword s, tk_value = s,
    tk_span = (lexer_span_here lx)\<lparr>sp_len := length s mod 256\<rparr>\<rparr>, lexer_advance lx (length s))"
proof -
  have c: "lexer_current lx = hd s" using assms(1,2) by (cases s) (auto simp: lexer_current_rest)
  then have "is_ident_start (lexer_current lx)" "\<not> is_digit (lexer_current lx)"
    using assms(3) by (auto simp: is_ident_start_def is_digit_def less_eq_char_def)
  moreover have "takeWhile is_ident_char (s @ '' '' @ rest) = s"
    using assms(4) by (simp add: is_ident_char_def is_ident_start_def is_digit_def)
  ultimately show ?thesis using assms(5)
    by (simp add: lexer_read_def read_identifier_def read_identifier_loop_run assms(1))
qed

lemma read_symbol_word:
  assumes "lexer_rest lx = s @ '' '' @ rest" "(type, s) \<in> set k_symbols"
  shows "lexer_read lx = (\<lparr>tk_type = type, tk_value = s,
    tk_span = (lexer_span_here lx)\<lparr>sp_len := length s mod 256\<rparr>\<rparr>, lexer_advance lx (length s))"
proof -
  have ne: "s \<noteq> []" using k_symbols_ok [OF assms(2)] by simp
  then have c: "lexer_current lx = hd s" using assms(1) by (cases s) (auto simp: lexer_current_rest)
  then have nd: "\<not> is_digit (lexer_current lx)" "\<not> is_ident_start (lexer_current lx)"
    using k_symbols_spelling [OF assms(2)] ne by (auto simp: is_ident_char_def)
  have "take (length (snd (type, s))) (s @ '' '' @ rest) = snd (type, s)" by simp
  with assms(2) have "find_symbol (s @ '' '' @ rest) \<noteq> None"
    unfolding find_symbol_def find_symbol_in_None by blast
  then obtain e where e: "find_symbol (s @ '' '' @ rest) = Some e" by auto
  have mem: "e \<in> set k_symbols" and pre: "take (length (snd e)) (s @ '' '' @ rest) = snd e"
    using find_symbol_in_Some [of k_symbols "s @ '' '' @ rest" e] e by (simp_all only: find_symbol_def)
  have "length s \<le> length (snd e)"
    using find_symbol_in_longest [OF k_symbols_sorted e [unfolded find_symbol_def] assms(2)] by simp
  moreover have "\<not> length s < length (snd e)"
  proof
    assume "length s < length (snd e)"
    then have "snd e ! length s = CHR '' ''" "length s < length (snd e)"
      using pre by (metis nth_take append_Cons nth_append_length, simp)
    then have "CHR '' '' \<in> set (snd e)" using nth_mem by force
    then show False using k_symbols_spelling [of "fst e" "snd e"] mem by (auto simp: is_space_def)
  qed
  ultimately have "snd e = s" using pre by simp
  then have "e = (type, s)" using k_symbols_unique [of "fst e" s type] mem assms(2) by (cases e) auto
  with e nd show ?thesis
    by (simp add: lexer_read_def read_symbol_def assms(1) make_token_def)
qed

lemma digit_value_dec: "is_dec_digit c \<Longrightarrow> digit_value c 10 = int (of_char c - 48)"
  using of_nat_of_char [where 'a = int, of c]
  by (simp add: digit_value_def is_dec_digit_iff less_eq_char_def of_nat_diff)

lemma number_value_dec:
  "\<forall>c \<in> set s. is_dec_digit c \<Longrightarrow> number_value 10 s = dec_value 0 s"
proof -
  assume d: "\<forall>c \<in> set s. is_dec_digit c"
  then have "filter (\<lambda>c. c \<noteq> CHR ''_'') s = s" by (auto simp: filter_id_conv is_dec_digit_iff)
  moreover have "foldl (\<lambda>v c. v * 10 + nat (digit_value c (int 10))) n s = dec_value n s" for n
    using d by (induction s arbitrary: n) (auto simp: digit_value_dec)
  ultimately show ?thesis by (simp add: number_value_def)
qed

lemma read_number_word:
  assumes "lexer_rest lx = dec_digits n @ '' '' @ rest" "n < 2 ^ 64"
  shows "\<exists>sp. lexer_read lx = (\<lparr>tk_type = SF_TOKEN_TYPE_INTEGER, tk_value = dec_digits n, tk_span = sp\<rparr>,
    lexer_advance lx (length (dec_digits n)))"
proof -
  have d: "\<forall>c \<in> set (dec_digits n). is_dec_digit c" by (rule dec_digits_digits)
  obtain c cs where c: "dec_digits n = c # cs" "is_dec_digit c" using dec_digits_hd by blast
  have "lexer_current lx = c" using assms(1) c by (simp add: lexer_current_rest)
  then have rd: "lexer_read lx = read_number lx" using c(2) by (simp add: lexer_read_def is_digit_def is_dec_digit_def)
  have d1: "\<forall>c \<in> set (dec_digits n). c = CHR ''_'' \<or> 0 \<le> digit_value c (int 10)"
    using d by (auto simp: digit_value_dec)
  have "c \<noteq> CHR ''_''" using c(2) by (auto simp: is_dec_digit_iff)
  then have d2: "\<exists>c \<in> set (dec_digits n). c \<noteq> CHR ''_''" unfolding c(1) by simp
  have r: "lexer_rest lx = '''' @ dec_digits n @ '' '' @ rest" using assms(1) by simp
  have e: "'' '' @ rest = [] \<or> \<not> is_ident_char (hd ('' '' @ rest))"
    by (simp add: is_ident_char_def is_ident_start_def is_digit_def)
  have "number_prefix 10 ''''" by (simp add: number_prefix_def)
  from read_number_digits [OF this d1 d2 r e] assms(2) rd
  show ?thesis by (simp add: number_value_dec [OF d])
qed

lemma read_lexeme:
  assumes "lexeme_ok w" "lexer_rest lx = snd w @ '' '' @ rest"
  shows "\<exists>sp. lexer_read lx = (\<lparr>tk_type = fst w, tk_value = snd w, tk_span = sp\<rparr>, lexer_advance lx (length (snd w)))"
    and "\<not> is_space (lexer_current lx)" "lexer_current lx \<noteq> CHR 0x00"
    and "fst w \<noteq> SF_TOKEN_TYPE_UNDEFINED"
proof -
  have "(\<exists>sp. lexer_read lx = (\<lparr>tk_type = fst w, tk_value = snd w, tk_span = sp\<rparr>, lexer_advance lx (length (snd w)))) \<and>
    snd w \<noteq> [] \<and> \<not> is_space (hd (snd w)) \<and> hd (snd w) \<noteq> CHR 0x00 \<and> fst w \<noteq> SF_TOKEN_TYPE_UNDEFINED"
  proof -
    consider "w \<in> set k_symbols" | "w \<in> set k_keywords"
      | "fst w = SF_TOKEN_TYPE_IDENTIFIER \<and> snd w \<noteq> [] \<and> is_ident_start (hd (snd w)) \<and>
          (\<forall>c \<in> set (snd w). is_ident_char c) \<and> length (snd w) < SF_MAX_TOKEN_VALUE_SIZE \<and>
          snd w \<notin> snd ` set k_keywords"
      | "fst w = SF_TOKEN_TYPE_INTEGER" "snd w = dec_digits (dec_value 0 (snd w))" "dec_value 0 (snd w) < 2 ^ 64"
      using assms(1) unfolding lexeme_ok_def by blast
    then show ?thesis
    proof cases
      case 1
      then have m: "(fst w, snd w) \<in> set k_symbols" by simp
      show ?thesis using read_symbol_word [OF assms(2) m] k_symbols_ok [OF m] k_symbols_spelling [OF m]
        by (auto simp: hd_in_set)
    next
      case 2
      then have m: "(fst w, snd w) \<in> set k_keywords" by simp
      have "resolve_keyword (snd w) = fst w"
        using resolve_keyword_in_table [OF k_keywords_distinct m] by (simp add: resolve_keyword_def)
      then show ?thesis
        using read_word [OF assms(2)] k_keywords_spelling [OF m] k_keywords_ok [OF m]
          ident_char_not_space ident_char_not_nul by (auto simp: is_ident_char_def)
    next
      case 3
      then show ?thesis
        using read_word [OF assms(2)] resolve_keyword_not [of "snd w"]
          ident_char_not_space ident_char_not_nul by (auto simp: is_ident_char_def)
    next
      case 4
      obtain c cs where c: "snd w = c # cs" "is_dec_digit c"
        using dec_digits_hd [of "dec_value 0 (snd w)"] 4(2) by metis
      have "is_ident_char c" using c(2) by (simp add: is_ident_char_def is_digit_def is_dec_digit_def)
      then have h: "\<not> is_space (hd (snd w))" "hd (snd w) \<noteq> CHR 0x00" "snd w \<noteq> []"
        using c(1) ident_char_not_space ident_char_not_nul by auto
      have "lexer_rest lx = dec_digits (dec_value 0 (snd w)) @ '' '' @ rest" using assms(2) 4(2) by metis
      from read_number_word [OF this 4(3)] h 4(1) show ?thesis unfolding 4(2) [symmetric] by simp
    qed
  qed
  moreover have "snd w \<noteq> [] \<Longrightarrow> lexer_current lx = hd (snd w)"
    using assms(2) by (cases "snd w") (auto simp: lexer_current_rest)
  ultimately show "\<exists>sp. lexer_read lx = (\<lparr>tk_type = fst w, tk_value = snd w, tk_span = sp\<rparr>, lexer_advance lx (length (snd w)))"
    and "\<not> is_space (lexer_current lx)" "lexer_current lx \<noteq> CHR 0x00"
    and "fst w \<noteq> SF_TOKEN_TYPE_UNDEFINED" by auto
qed

lemma lexer_step_lexeme:
  assumes "\<forall>n. realloc_ok n" "length (lx_input lx) < 2 ^ 54" "lexer_inv g lx" "lexeme_ok w"
    "lexer_rest lx = snd w @ '' '' @ rest"
  shows "\<exists>lx'. lexer_step realloc_ok lx = (True, lx') \<and> lexer_rest lx' = '' '' @ rest \<and>
    lx_log lx' = lx_log lx \<and> map (\<lambda>t. (tk_type t, tk_value t)) (tl_tokens (lx_list lx')) =
      map (\<lambda>t. (tk_type t, tk_value t)) (tl_tokens (lx_list lx)) @ [w]"
proof -
  from read_lexeme [OF assms(4,5)] obtain sp where
    r: "lexer_read lx = (\<lparr>tk_type = fst w, tk_value = snd w, tk_span = sp\<rparr>, lexer_advance lx (length (snd w)))"
    and ns: "\<not> is_space (lexer_current lx)" "lexer_current lx \<noteq> CHR 0x00" "fst w \<noteq> SF_TOKEN_TYPE_UNDEFINED"
    by blast
  have few: "length (tl_tokens (lx_list lx)) < 2 ^ 54" and inv: "token_list_inv (lx_list lx)"
    using assms(2,3) lexer_current_pos [OF ns(2)] unfolding lexer_inv_def by linarith+
  from list_add_ok [OF assms(1) few inv, of "\<lparr>tk_type = fst w, tk_value = snd w, tk_span = sp\<rparr>" "lx_log lx"]
  obtain cap where a: "lexer_add realloc_ok (lexer_advance lx (length (snd w)))
      \<lparr>tk_type = fst w, tk_value = snd w, tk_span = sp\<rparr> =
     (True, (lexer_advance lx (length (snd w)))\<lparr>lx_list := \<lparr>tl_tokens = tl_tokens (lx_list lx) @
       [\<lparr>tk_type = fst w, tk_value = snd w, tk_span = sp\<rparr>], tl_capacity = cap\<rparr>,
       lx_log := lx_log lx\<rparr>)"
    by (auto simp: lexer_add_def)
  have "drop (lx_pos lx + length (snd w)) (lx_input lx) = '' '' @ rest"
    using assms(5) by (metis add.commute append_eq_conv_conj drop_drop)
  with ns r a show ?thesis
    by (auto simp: lexer_step_def Let_def is_space_def lexer_emit_def)
qed

lemma tokenize_loop_lexemes:
  assumes "\<forall>n. realloc_ok n" "length (lx_input lx) < 2 ^ 54" "lexer_inv g lx" "\<forall>w \<in> set ws. lexeme_ok w"
    "lexer_rest lx = print_lexemes ws"
  shows "\<exists>lx'. tokenize_loop realloc_ok lx = (True, lx') \<and> lx_log lx' = lx_log lx \<and>
    map (\<lambda>t. (tk_type t, tk_value t)) (tl_tokens (lx_list lx')) =
      map (\<lambda>t. (tk_type t, tk_value t)) (tl_tokens (lx_list lx)) @ ws"
  using assms(2-)
proof (induction ws arbitrary: lx)
  case Nil
  then show ?case
    by (subst tokenize_loop.simps) (simp add: lexer_current_rest print_lexemes_def)
next
  case (Cons w ws)
  have r: "lexer_rest lx = snd w @ '' '' @ print_lexemes ws"
    using Cons.prems(4) by (simp add: print_lexemes_def)
  have ok: "lexeme_ok w" using Cons.prems(3) by simp
  from lexer_step_lexeme [OF assms(1) Cons.prems(1,2) ok r] obtain lx1 where
    s1: "lexer_step realloc_ok lx = (True, lx1)" "lexer_rest lx1 = '' '' @ print_lexemes ws"
      "lx_log lx1 = lx_log lx" and t1: "map (\<lambda>t. (tk_type t, tk_value t)) (tl_tokens (lx_list lx1)) =
      map (\<lambda>t. (tk_type t, tk_value t)) (tl_tokens (lx_list lx)) @ [w]" by blast
  have nz: "lexer_current lx \<noteq> CHR 0x00" using read_lexeme(3) [OF ok r] .
  have c1: "lexer_current lx1 = CHR '' ''" using s1(2) by (simp add: lexer_current_rest)
  then have s2: "lexer_step realloc_ok lx1 = (True, lexer_advance lx1 1)"
    by (simp add: lexer_step_def is_space_def)
  have "lexer_rest (lexer_advance lx1 1) = print_lexemes ws"
    unfolding lexer_rest_advance s1(2) by simp
  moreover have "lexer_inv g lx1"
    using lexer_step_inv [OF assms(1) Cons.prems(1) nz Cons.prems(2) s1(1)] by simp
  moreover have in1: "lx_input lx1 = lx_input lx" using lexer_step_progress(1) [OF s1(1)] .
  moreover have nz1: "lexer_current lx1 \<noteq> CHR 0x00" using c1 by simp
  ultimately have "\<exists>lx'. tokenize_loop realloc_ok (lexer_advance lx1 1) = (True, lx') \<and> lx_log lx' = lx_log lx1 \<and>
    map (\<lambda>t. (tk_type t, tk_value t)) (tl_tokens (lx_list lx')) =
      map (\<lambda>t. (tk_type t, tk_value t)) (tl_tokens (lx_list lx1)) @ ws"
    using Cons.IH [of "lexer_advance lx1 1"] lexer_step_inv [OF assms(1) _ nz1 _ s2] Cons.prems(1,3) by simp
  then show ?case using nz s1 nz1 s2 t1
    by (subst tokenize_loop.simps, subst tokenize_loop.simps) auto
qed

text \<open>C30: Round trip. Print any list of tokens (symbols, keywords, identifiers of fewer than 255
  characters that are not keywords, decimal numbers below 2^64), each followed by a space: the
  lexer reads back exactly these types and texts, then the end of the file, and logs
  nothing.\<close>

theorem tokenize_print_lexemes:
  assumes "\<forall>n. realloc_ok n" "length (print_lexemes ws) < 2 ^ 54" "\<forall>w \<in> set ws. lexeme_ok w"
  shows "map (\<lambda>t. (tk_type t, tk_value t))
      (tl_tokens (fst (sf_tokenize realloc_ok (print_lexemes ws) filename g))) =
    ws @ [(SF_TOKEN_TYPE_EOF, [])] \<and>
    snd (sf_tokenize realloc_ok (print_lexemes ws) filename g) = g"
proof -
  have "lexer_rest (lexer_start (print_lexemes ws) filename g) = print_lexemes ws"
    "lx_input (lexer_start (print_lexemes ws) filename g) = print_lexemes ws"
    by (simp_all add: lexer_start_def)
  with tokenize_loop_lexemes [OF assms(1) _ lexer_inv_start assms(3), of "print_lexemes ws" filename g] assms(2)
  obtain lx where lx: "tokenize_loop realloc_ok (lexer_start (print_lexemes ws) filename g) = (True, lx)"
    "lx_log lx = g" "map (\<lambda>t. (tk_type t, tk_value t)) (tl_tokens (lx_list lx)) = ws"
    by (auto simp: lexer_start_def)
  with sf_tokenize_result [OF assms(1,2), of filename g]
  show ?thesis by (auto simp: make_token_def)
qed

lemma tokenize_print_lexemes_witness:
  "map (\<lambda>t. (tk_type t, tk_value t)) (tl_tokens (fst (sf_tokenize (\<lambda>_. True)
     (print_lexemes [(SF_TOKEN_TYPE_KW_I32, ''i32''), (SF_TOKEN_TYPE_IDENTIFIER, ''x''),
        (SF_TOKEN_TYPE_EQUAL, ''=''), (SF_TOKEN_TYPE_SEMICOLON, '';'')]) ''a'' sf_log_init))) =
   [(SF_TOKEN_TYPE_KW_I32, ''i32''), (SF_TOKEN_TYPE_IDENTIFIER, ''x''),
    (SF_TOKEN_TYPE_EQUAL, ''=''), (SF_TOKEN_TYPE_SEMICOLON, '';''), (SF_TOKEN_TYPE_EOF, [])]"
proof -
  have x: "lexeme_ok (SF_TOKEN_TYPE_IDENTIFIER, ''x'')"
    by (simp add: lexeme_ok_def is_ident_start_def is_ident_char_def SF_MAX_TOKEN_VALUE_SIZE_def k_keywords_def)
  have "\<forall>w \<in> set [(SF_TOKEN_TYPE_KW_I32, ''i32''), (SF_TOKEN_TYPE_IDENTIFIER, ''x''),
        (SF_TOKEN_TYPE_EQUAL, ''=''), (SF_TOKEN_TYPE_SEMICOLON, '';'')]. lexeme_ok w"
    using x by (simp add: lexeme_ok_def k_keywords_def k_symbols_def)
  from tokenize_print_lexemes [OF _ _ this, of "\<lambda>_. True" "''a''" sf_log_init]
  show ?thesis by (simp add: print_lexemes_def)
qed

end
