(* ===== verification/C_String.thy ===== *)
theory C_String
  imports Prelude
begin

text \<open>
  String helpers, \<^verbatim>\<open>utils/string.c\<close>: copying, appending to a growable NUL-terminated buffer and
  the edit distance behind the did-you-mean notes. A buffer is the block of bytes behind the
  pointer with the length and capacity the caller keeps; \<^verbatim>\<open>realloc\<close> succeeds for the sizes that
  \<open>realloc_ok\<close> accepts and leaves the bytes of \<open>junk\<close> in the new part of the block. A C string
  argument is the list of its characters before the terminating NUL.
\<close>

section \<open>Copies and the growable buffer\<close>

abbreviation SF_STRING_MIN_CAPACITY :: nat where "SF_STRING_MIN_CAPACITY \<equiv> 16"
abbreviation SF_STRING_DISTANCE_MAX :: nat where "SF_STRING_DISTANCE_MAX \<equiv> 256"

definition sf_string_dup :: "(nat \<Rightarrow> bool) \<Rightarrow> string \<Rightarrow> string option" where
  "sf_string_dup malloc_ok str =
     (let size = length str + 1 in if malloc_ok size then Some str else None)"

record string_buffer =
  sb_data :: string
  sb_len :: nat
  sb_capacity :: nat

text \<open>The doubling loop. The caller starts it at a positive capacity.\<close>

function grow_capacity :: "nat \<Rightarrow> nat \<Rightarrow> nat" where
  "grow_capacity needed new_capacity =
     (if new_capacity < needed \<and> 0 < new_capacity
      then (if SIZE_MAX div 2 < new_capacity then needed
            else grow_capacity needed (new_capacity * 2))
      else new_capacity)"
  by pat_completeness auto
termination
  by (relation "measure (\<lambda>(n, c). n - c)") auto

declare grow_capacity.simps [simp del]

definition c_memcpy :: "'a list \<Rightarrow> nat \<Rightarrow> 'a list \<Rightarrow> 'a list" where
  "c_memcpy block off bytes = take off block @ bytes @ drop (off + length bytes) block"

definition c_realloc :: "(nat \<Rightarrow> 'a list) \<Rightarrow> 'a list \<Rightarrow> nat \<Rightarrow> 'a list" where
  "c_realloc junk block n = take n (block @ junk (n - length block))"

definition sf_string_push ::
  "(nat \<Rightarrow> bool) \<Rightarrow> (nat \<Rightarrow> string) \<Rightarrow> string option \<Rightarrow> string_buffer option \<Rightarrow> bool \<times> string_buffer option" where
  "sf_string_push realloc_ok junk src dst =
     (case (src, dst) of
        (Some s, Some b) \<Rightarrow>
          (let src_len = length s
           in if SIZE_MAX - 1 < src_len \<or> SIZE_MAX - 1 - src_len < sb_len b then (False, dst)
              else (let needed = sb_len b + src_len + 1;
                        grown = (if sb_capacity b < needed
                                 then (let new_capacity = grow_capacity needed
                                             (if 0 < sb_capacity b then sb_capacity b else SF_STRING_MIN_CAPACITY)
                                       in if realloc_ok new_capacity
                                          then Some (b\<lparr>sb_data := c_realloc junk (sb_data b) new_capacity,
                                                       sb_capacity := new_capacity\<rparr>)
                                          else None)
                                 else Some b)
                    in case grown of
                         None \<Rightarrow> (False, dst)
                       | Some b1 \<Rightarrow>
                           (True, Some (b1\<lparr>sb_data := c_memcpy (sb_data b1) (sb_len b1) (s @ [CHR 0x00]),
                                          sb_len := sb_len b1 + src_len\<rparr>))))
      | _ \<Rightarrow> (False, dst))"

text \<open>The invariant of a buffer and the C string it holds.\<close>

definition buffer_ok :: "string_buffer \<Rightarrow> bool" where
  "buffer_ok b \<longleftrightarrow> length (sb_data b) = sb_capacity b \<and> sb_len b < sb_capacity b \<and>
     sb_capacity b \<le> SIZE_MAX \<and> sb_data b ! sb_len b = CHR 0x00 \<and> CHR 0x00 \<notin> set (take (sb_len b) (sb_data b))"

definition buffer_text :: "string_buffer \<Rightarrow> string" where
  "buffer_text b = takeWhile (\<lambda>c. c \<noteq> CHR 0x00) (sb_data b)"

lemma grow_capacity_bounds:
  "0 < c \<Longrightarrow> n \<le> SIZE_MAX \<Longrightarrow> c \<le> SIZE_MAX \<Longrightarrow> n \<le> grow_capacity n c \<and> c \<le> grow_capacity n c \<and> grow_capacity n c \<le> SIZE_MAX"
proof (induction n c rule: grow_capacity.induct)
  case (1 n c)
  show ?case
  proof (cases "c < n \<and> \<not> SIZE_MAX div 2 < c")
    case True
    then have "grow_capacity n c = grow_capacity n (c * 2)"
      using "1.prems" by (simp add: grow_capacity.simps [of n c])
    moreover have "c * 2 \<le> SIZE_MAX" using True by simp
    ultimately show ?thesis using "1.IH" "1.prems" True by auto
  next
    case False
    with "1.prems" have "grow_capacity n c = (if c < n then n else c)"
      by (auto simp: grow_capacity.simps [of n c])
    with "1.prems" show ?thesis by auto
  qed
qed

lemma buffer_text_take:
  assumes "buffer_ok b"
  shows "buffer_text b = take (sb_len b) (sb_data b)"
proof -
  let ?d = "sb_data b"
  have "?d = take (sb_len b) ?d @ CHR 0x00 # drop (Suc (sb_len b)) ?d"
    using assms by (metis buffer_ok_def id_take_nth_drop)
  moreover have "takeWhile (\<lambda>c. c \<noteq> CHR 0x00) (take (sb_len b) ?d @ CHR 0x00 # drop (Suc (sb_len b)) ?d) =
      take (sb_len b) ?d"
    using assms by (subst takeWhile_append2) (auto simp: buffer_ok_def)
  ultimately show ?thesis unfolding buffer_text_def by metis
qed

lemma push_block:
  assumes "length block = cap" "len + length s + 1 \<le> cap" "CHR 0x00 \<notin> set (take len block)" "CHR 0x00 \<notin> set s"
    "cap \<le> SIZE_MAX"
  shows "buffer_ok \<lparr>sb_data = c_memcpy block len (s @ [CHR 0x00]), sb_len = len + length s, sb_capacity = cap\<rparr> \<and>
    take (len + length s) (c_memcpy block len (s @ [CHR 0x00])) = take len block @ s"
  using assms by (auto simp: buffer_ok_def c_memcpy_def nth_append)

text \<open>Appending to a buffer. Started on a well-formed buffer (the block has the capacity the
  caller records and holds a NUL-terminated string of the recorded length) with a C string,
  \<open>sf_string_push\<close> writes inside the block it ends with, keeps the buffer well formed, and either
  reports success and the text is the old text followed by the argument, or reports failure
  and the buffer is unchanged.\<close>

theorem sf_string_push_appends:
  assumes "buffer_ok b" "CHR 0x00 \<notin> set s" "\<forall>n. length (junk n) = n"
  shows "case sf_string_push realloc_ok junk (Some s) (Some b) of
    (True, Some b') \<Rightarrow> buffer_ok b' \<and> buffer_text b' = buffer_text b @ s \<and> sb_capacity b \<le> sb_capacity b'
  | (False, r) \<Rightarrow> r = Some b
  | _ \<Rightarrow> False"
proof (cases "SIZE_MAX - 1 < length s \<or> SIZE_MAX - 1 - length s < sb_len b")
  case True
  then show ?thesis by (simp add: sf_string_push_def)
next
  case False
  define needed where "needed = sb_len b + length s + 1"
  define cap where "cap = grow_capacity needed (sb_capacity b)"
  have pos: "0 < sb_capacity b" and old: "sb_capacity b \<le> SIZE_MAX" "length (sb_data b) = sb_capacity b"
    "sb_len b < sb_capacity b" "CHR 0x00 \<notin> set (take (sb_len b) (sb_data b))"
    using assms(1) by (auto simp: buffer_ok_def)
  have needed_le: "needed \<le> SIZE_MAX" using False by (auto simp: needed_def)
  note cap = grow_capacity_bounds [OF pos needed_le old(1), folded cap_def]
  have res: "buffer_ok b' \<and> buffer_text b' = buffer_text b @ s"
    if "b' = \<lparr>sb_data = c_memcpy block (sb_len b) (s @ [CHR 0x00]), sb_len = sb_len b + length s, sb_capacity = c\<rparr>"
      "length block = c" "needed \<le> c" "take (sb_len b) block = take (sb_len b) (sb_data b)" "c \<le> SIZE_MAX"
    for b' block c
  proof -
    have "CHR 0x00 \<notin> set (take (sb_len b) block)" using that(4) old(4) by simp
    from push_block [OF that(2) _ this assms(2) that(5)] that(3)
    have "buffer_ok b'" and "take (sb_len b') (sb_data b') = take (sb_len b) block @ s"
      by (auto simp: needed_def that(1))
    then show ?thesis using buffer_text_take [of b'] buffer_text_take [OF assms(1)] that(4) by simp
  qed
  show ?thesis
  proof (cases "sb_capacity b < needed")
    case False
    with res [OF refl old(2) _ refl old(1)] \<open>\<not> (SIZE_MAX - 1 < length s \<or> SIZE_MAX - 1 - length s < sb_len b)\<close>
    show ?thesis by (cases b) (simp add: sf_string_push_def Let_def needed_def)
  next
    case True
    let ?block = "c_realloc junk (sb_data b) cap"
    have "length ?block = cap" using assms(3) cap old by (simp add: c_realloc_def)
    moreover have "take (sb_len b) ?block = take (sb_len b) (sb_data b)"
      using old cap by (simp add: c_realloc_def min_def)
    ultimately show ?thesis
      using res [OF refl _ _ _, of ?block cap] cap True False pos
      by (cases b) (simp add: sf_string_push_def Let_def needed_def cap_def)
  qed
qed

lemma sf_string_push_appends_witness:
  "case sf_string_push (\<lambda>_. True) (\<lambda>n. replicate n CHR ''?'') (Some ''bc'') (Some \<lparr>sb_data = [CHR ''a'', CHR 0x00], sb_len = 1, sb_capacity = 2\<rparr>) of
    (True, Some b') \<Rightarrow> buffer_ok b' \<and> buffer_text b' = buffer_text \<lparr>sb_data = [CHR ''a'', CHR 0x00], sb_len = 1, sb_capacity = 2\<rparr> @ ''bc'' \<and>
      2 \<le> sb_capacity b'
  | (False, r) \<Rightarrow> False
  | _ \<Rightarrow> False"
  using sf_string_push_appends [of "\<lparr>sb_data = [CHR ''a'', CHR 0x00], sb_len = 1, sb_capacity = 2\<rparr>" "''bc''"
      "\<lambda>n. replicate n CHR ''?''" "\<lambda>_. True"]
  by (simp add: buffer_ok_def sf_string_push_def grow_capacity.simps)

section \<open>Edit distance\<close>

text \<open>The two stack arrays have \<open>SF_STRING_DISTANCE_MAX\<close> cells. Their initial contents are
  indeterminate in C; every cell is written before it is read, so zeros stand for them.\<close>

definition distance_cell :: "string \<Rightarrow> string \<Rightarrow> nat \<Rightarrow> nat list \<Rightarrow> nat list \<Rightarrow> nat \<Rightarrow> nat list" where
  "distance_cell a b i previous current j =
     (let cost = (if a ! (i - 1) = b ! (j - 1) then 0 else 1);
          best = previous ! (j - 1) + cost;
          best = (if previous ! j + 1 < best then previous ! j + 1 else best);
          best = (if current ! (j - 1) + 1 < best then current ! (j - 1) + 1 else best)
      in current[j := best])"

definition distance_row :: "string \<Rightarrow> string \<Rightarrow> nat list \<times> nat list \<Rightarrow> nat \<Rightarrow> nat list \<times> nat list" where
  "distance_row a b arrays i =
     (case arrays of (previous, current) \<Rightarrow>
        (let current1 = foldl (distance_cell a b i previous) (current[0 := i]) [1..<length b + 1]
         in (c_memcpy previous 0 (take (length b + 1) current1), current1)))"

definition sf_string_distance :: "string \<Rightarrow> string \<Rightarrow> nat" where
  "sf_string_distance a b =
     (if SF_STRING_DISTANCE_MAX \<le> length b then UINT32_MAX
      else (let previous = foldl (\<lambda>p j. p[j := j]) (replicate SF_STRING_DISTANCE_MAX 0) [0..<length b + 1];
                current = replicate SF_STRING_DISTANCE_MAX 0
            in fst (foldl (distance_row a b) (previous, current) [1..<length a + 1]) ! length b))"

text \<open>The specification: one insertion, deletion or replacement of a character, and the least
  number of them that turns one string into the other.\<close>

inductive one_edit :: "string \<Rightarrow> string \<Rightarrow> bool" where
  insert_char: "one_edit xs (c # xs)"
| delete_char: "one_edit (c # xs) xs"
| replace_char: "one_edit (c # xs) (d # xs)"
| keep_char: "one_edit xs ys \<Longrightarrow> one_edit (c # xs) (c # ys)"

fun lev :: "string \<Rightarrow> string \<Rightarrow> nat" where
  "lev [] ys = length ys"
| "lev (x # xs) [] = Suc (length xs)"
| "lev (x # xs) (y # ys) =
     min (lev xs ys + (if x = y then 0 else 1)) (min (lev xs (y # ys) + 1) (lev (x # xs) ys + 1))"

lemma lev_Nil2 [simp]: "lev xs [] = length xs"
  by (cases xs) auto

lemma one_edits_keep: "(one_edit ^^ n) xs ys \<Longrightarrow> (one_edit ^^ n) (c # xs) (c # ys)"
  by (induction n arbitrary: ys) (auto intro: keep_char)

lemma one_edits_delete: "(one_edit ^^ length xs) xs []"
  by (induction xs) (auto intro!: relpowp_Suc_I2 delete_char simp del: relpowp.simps(2))

lemma one_edits_insert: "(one_edit ^^ length ys) [] ys"
proof (induction ys)
  case (Cons y ys)
  then show ?case by (auto intro: relcomppI insert_char)
qed simp

lemma lev_reachable: "(one_edit ^^ lev xs ys) xs ys"
proof (induction xs ys rule: lev.induct)
  case (1 ys)
  then show ?case by (simp add: one_edits_insert)
next
  case (2 x xs)
  then show ?case using one_edits_delete [of "x # xs"] by (simp del: relpowp.simps)
next
  case (3 x xs y ys)
  have replace: "(one_edit ^^ (lev xs ys + (if x = y then 0 else 1))) (x # xs) (y # ys)"
  proof (cases "x = y")
    case True
    then show ?thesis using one_edits_keep [OF "3.IH"(1)] by simp
  next
    case False
    then show ?thesis
      using relpowp_Suc_I [OF one_edits_keep [OF "3.IH"(1)] replace_char, of x y] by simp
  qed
  have delete: "(one_edit ^^ (lev xs (y # ys) + 1)) (x # xs) (y # ys)"
    using relpowp_Suc_I2 [OF delete_char "3.IH"(2)] by simp
  have insert: "(one_edit ^^ (lev (x # xs) ys + 1)) (x # xs) (y # ys)"
    using relpowp_Suc_I [OF "3.IH"(3) insert_char, of y] by simp
  show ?case using replace delete insert by (simp only: lev.simps min_def split: if_split) simp
qed

lemma lev_insert_left: "lev (x # a) ys \<le> Suc (lev a ys)"
  by (cases ys) auto

lemma lev_insert_right: "lev a (c # xs) \<le> Suc (lev a xs)"
  by (cases a) auto

lemma lev_delete: "lev a xs \<le> Suc (lev a (c # xs))"
proof (induction a)
  case (Cons x a)
  have "lev (x # a) xs \<le> Suc (lev a xs)" by (rule lev_insert_left)
  with Cons show ?case by auto
qed simp

lemma lev_replace: "lev a (d # xs) \<le> Suc (lev a (c # xs))"
  by (induction a) auto

lemma lev_one_edit: "one_edit b c \<Longrightarrow> lev a c \<le> Suc (lev a b)"
proof (induction arbitrary: a rule: one_edit.induct)
  case (keep_char xs ys c)
  show ?case
  proof (induction a)
    case Nil
    from keep_char.IH [of "[]"] show ?case by simp
  next
    case (Cons x a)
    with keep_char.IH [of a] keep_char.IH [of "x # a"] show ?case by auto
  qed
qed (rule lev_insert_right lev_delete lev_replace)+

lemma lev_least: "(one_edit ^^ n) a b \<Longrightarrow> lev a b \<le> n"
proof (induction n arbitrary: b)
  case 0
  have "lev b b = 0" by (induction b) auto
  with 0 show ?case by simp
next
  case (Suc n)
  then obtain c where c: "(one_edit ^^ n) a c" "one_edit c b" by auto
  from Suc.IH [OF c(1)] lev_one_edit [OF c(2), of a] show ?case by simp
qed

lemma one_edit_snoc: "one_edit xs ys \<Longrightarrow> one_edit (xs @ zs) (ys @ zs)"
  by (induction rule: one_edit.induct) (auto intro: one_edit.intros)

lemma one_edit_prefix: "one_edit xs ys \<Longrightarrow> one_edit (zs @ xs) (zs @ ys)"
  by (induction zs) (auto intro: one_edit.intros)

lemma one_edit_rev: "one_edit xs ys \<Longrightarrow> one_edit (rev xs) (rev ys)"
proof (induction rule: one_edit.induct)
  case (insert_char xs c)
  then show ?case using one_edit_prefix [OF one_edit.insert_char [of "[]" c], of "rev xs"] by simp
next
  case (delete_char c xs)
  then show ?case using one_edit_prefix [OF one_edit.delete_char [of c "[]"], of "rev xs"] by simp
next
  case (replace_char c xs d)
  then show ?case using one_edit_prefix [OF one_edit.replace_char [of c "[]" d], of "rev xs"] by simp
next
  case (keep_char xs ys c)
  then show ?case using one_edit_snoc by simp
qed

lemma one_edits_rev: "(one_edit ^^ n) xs ys \<Longrightarrow> (one_edit ^^ n) (rev xs) (rev ys)"
  by (induction n arbitrary: ys) (auto intro: one_edit_rev)

lemma lev_rev: "lev (rev a) (rev b) = lev a b"
proof (rule antisym)
  show "lev (rev a) (rev b) \<le> lev a b" by (intro lev_least one_edits_rev lev_reachable)
  show "lev a b \<le> lev (rev a) (rev b)"
    using lev_least [OF one_edits_rev [OF lev_reachable [of "rev a" "rev b"]]] by simp
qed

text \<open>The table entry of row i and column j: the distance of the prefixes of these lengths.\<close>

definition prefix_lev :: "string \<Rightarrow> string \<Rightarrow> nat \<Rightarrow> nat \<Rightarrow> nat" where
  "prefix_lev a b i j = lev (rev (take i a)) (rev (take j b))"

lemma prefix_lev_0: "j \<le> length b \<Longrightarrow> prefix_lev a b 0 j = j"
  "i \<le> length a \<Longrightarrow> prefix_lev a b i 0 = i"
  by (simp_all add: prefix_lev_def)

lemma prefix_lev_Suc:
  assumes "i < length a" "j < length b"
  shows "prefix_lev a b (Suc i) (Suc j) =
    min (prefix_lev a b i j + (if a ! i = b ! j then 0 else 1))
        (min (prefix_lev a b i (Suc j) + 1) (prefix_lev a b (Suc i) j + 1))"
  using assms by (simp add: prefix_lev_def take_Suc_conv_app_nth)

definition row_ok :: "string \<Rightarrow> string \<Rightarrow> nat \<Rightarrow> nat \<Rightarrow> nat list \<Rightarrow> bool" where
  "row_ok a b i n row \<longleftrightarrow> length row = SF_STRING_DISTANCE_MAX \<and> (\<forall>j \<le> n. row ! j = prefix_lev a b i j)"

lemma distance_cell_row:
  assumes "i < length a" "j < length b" "length b < SF_STRING_DISTANCE_MAX"
    "row_ok a b i (length b) previous" "row_ok a b (Suc i) j current"
  shows "row_ok a b (Suc i) (Suc j) (distance_cell a b (Suc i) previous current (Suc j))"
proof -
  have "previous ! j = prefix_lev a b i j" "previous ! Suc j = prefix_lev a b i (Suc j)"
    "current ! j = prefix_lev a b (Suc i) j"
    using assms by (simp_all add: row_ok_def)
  then have "distance_cell a b (Suc i) previous current (Suc j) = current[Suc j := prefix_lev a b (Suc i) (Suc j)]"
    unfolding prefix_lev_Suc [OF assms(1,2)] by (auto simp: distance_cell_def Let_def intro: arg_cong)
  then show ?thesis using assms(2,3,5) by (auto simp: row_ok_def nth_list_update le_Suc_eq)
qed

lemma distance_cells_row:
  assumes "i < length a" "length b < SF_STRING_DISTANCE_MAX" "row_ok a b i (length b) previous"
    "length current = SF_STRING_DISTANCE_MAX" "n \<le> length b"
  shows "row_ok a b (Suc i) n (foldl (distance_cell a b (Suc i) previous) (current[0 := Suc i]) [1..<n + 1])"
  using assms(5)
proof (induction n)
  case 0
  then show ?case using assms by (simp add: row_ok_def prefix_lev_0)
next
  case (Suc n)
  then show ?case using distance_cell_row [OF assms(1) _ assms(2,3)] by simp
qed

lemma distance_row_ok:
  assumes "i < length a" "length b < SF_STRING_DISTANCE_MAX"
    "row_ok a b i (length b) previous" "length current = SF_STRING_DISTANCE_MAX"
    "distance_row a b (previous, current) (Suc i) = (previous', current')"
  shows "row_ok a b (Suc i) (length b) previous' \<and> length current' = SF_STRING_DISTANCE_MAX"
proof -
  note row = distance_cells_row [OF assms(1-4) order_refl]
  with assms(2,3,5) show ?thesis
    by (auto simp: distance_row_def Let_def row_ok_def c_memcpy_def nth_append)
qed

lemma distance_rows_ok:
  assumes "length b < SF_STRING_DISTANCE_MAX" "row_ok a b 0 (length b) previous"
    "length current = SF_STRING_DISTANCE_MAX" "n \<le> length a"
  shows "case foldl (distance_row a b) (previous, current) [1..<n + 1] of
     (p, c) \<Rightarrow> row_ok a b n (length b) p \<and> length c = SF_STRING_DISTANCE_MAX"
  using assms(4)
proof (induction n)
  case 0
  with assms show ?case by simp
next
  case (Suc n)
  obtain p c where pc: "foldl (distance_row a b) (previous, current) [1..<n + 1] = (p, c)" by fastforce
  obtain p' c' where r: "distance_row a b (p, c) (Suc n) = (p', c')" by fastforce
  have "[1..<Suc n + 1] = [1..<n + 1] @ [Suc n]" by simp
  then have "foldl (distance_row a b) (previous, current) [1..<Suc n + 1] = (p', c')"
    using pc r by (simp del: upt_Suc)
  with Suc pc distance_row_ok [OF _ assms(1) _ _ r] show ?case by simp
qed

lemma distance_first_row:
  assumes "length b < SF_STRING_DISTANCE_MAX"
  shows "row_ok a b 0 (length b) (foldl (\<lambda>p j. p[j := j]) (replicate SF_STRING_DISTANCE_MAX 0) [0..<length b + 1])"
proof -
  have "length (foldl (\<lambda>p j. p[j := j]) (replicate SF_STRING_DISTANCE_MAX (0 :: nat)) [0..<n]) = SF_STRING_DISTANCE_MAX \<and>
    (\<forall>j < n. foldl (\<lambda>p j. p[j := j]) (replicate SF_STRING_DISTANCE_MAX 0) [0..<n] ! j = j)"
    if "n \<le> SF_STRING_DISTANCE_MAX" for n
    using that by (induction n) (auto simp: nth_list_update less_Suc_eq)
  from this [of "length b + 1"] assms show ?thesis by (auto simp: row_ok_def prefix_lev_0)
qed

lemma sf_string_distance_lev:
  assumes "length b < SF_STRING_DISTANCE_MAX"
  shows "sf_string_distance a b = lev a b"
proof -
  have "fst (foldl (distance_row a b) (foldl (\<lambda>p j. p[j := j]) (replicate SF_STRING_DISTANCE_MAX 0) [0..<length b + 1],
      replicate SF_STRING_DISTANCE_MAX 0) [1..<length a + 1]) ! length b = prefix_lev a b (length a) (length b)"
    using distance_rows_ok [OF assms distance_first_row [OF assms], of "replicate SF_STRING_DISTANCE_MAX 0" "length a" a]
    by (auto simp: row_ok_def split: prod.splits)
  then show ?thesis using assms by (simp add: sf_string_distance_def Let_def prefix_lev_def lev_rev)
qed

text \<open>C33: The edit distance. When the second string has fewer than 256 characters,
  \<open>sf_string_distance\<close> is the least number of single-character insertions, deletions and
  replacements that turn the first string into the second; the two rolling rows of the code
  compute it exactly.\<close>

theorem sf_string_distance_least:
  assumes "length b < SF_STRING_DISTANCE_MAX"
  shows "(one_edit ^^ sf_string_distance a b) a b \<and>
    (\<forall>n. (one_edit ^^ n) a b \<longrightarrow> sf_string_distance a b \<le> n)"
  using sf_string_distance_lev [OF assms] lev_reachable lev_least by simp

lemma sf_string_distance_least_witness:
  "(one_edit ^^ 2) ''count'' ''cuont'' \<and> \<not> (one_edit ^^ 1) ''count'' ''cuont''"
proof -
  have "sf_string_distance ''count'' ''cuont'' = 2" by (simp add: sf_string_distance_lev)
  moreover have "length ''cuont'' < SF_STRING_DISTANCE_MAX" by simp
  note least = sf_string_distance_least [OF this, of "''count''"]
  ultimately have "(one_edit ^^ 2) ''count'' ''cuont''"
    and min: "\<And>n. (one_edit ^^ n) ''count'' ''cuont'' \<Longrightarrow> 2 \<le> n" by simp_all
  moreover have "\<not> (one_edit ^^ 1) ''count'' ''cuont''" using min [of 1] by linarith
  ultimately show ?thesis by (intro conjI)
qed

lemma sf_string_distance_symmetric:
  assumes "length a < SF_STRING_DISTANCE_MAX" "length b < SF_STRING_DISTANCE_MAX"
  shows "sf_string_distance a b = sf_string_distance b a"
proof -
  have "lev xs ys = lev ys xs" for xs ys by (induction xs ys rule: lev.induct) auto
  with assms show ?thesis by (simp add: sf_string_distance_lev)
qed

end
