(* ===== verification/Arena.thy ===== *)
theory Arena
  imports C_String Log_State
begin

text \<open>
  The arena allocator, \<^verbatim>\<open>utils/arena.c\<close>. An arena is its list of chunks (the C linked list from
  \<^verbatim>\<open>first\<close> to \<^verbatim>\<open>current\<close>) and the default chunk size; a chunk is its size, its fill level and its
  bytes. A pointer into an arena is a chunk number and an offset into the data of the chunk.
  \<open>malloc_ok\<close> says for a size in bytes whether \<^verbatim>\<open>malloc\<close> succeeds and \<open>junk\<close> gives the bytes of a
  fresh block. The lemmas show that blocks are aligned, in bounds and disjoint and that no
  operation changes a byte that was handed out before.
\<close>

section \<open>State and operations\<close>

record sf_arena_chunk =
  ac_size :: nat
  ac_used :: nat
  ac_data :: "uint8 list"

record sf_arena =
  ar_chunks :: "sf_arena_chunk list"
  ar_default_chunk_size :: nat

type_synonym arena_ptr = "nat \<times> nat"

abbreviation SF_ARENA_ALIGNMENT :: uint64 where "SF_ARENA_ALIGNMENT \<equiv> 8"

definition sizeof_sf_arena_chunk :: nat where
  "sizeof_sf_arena_chunk = 24"

definition align_up_overflows :: "uint64 \<Rightarrow> uint64 \<Rightarrow> bool" where
  "align_up_overflows n align \<longleftrightarrow> n > - 1 - (align - 1)"

definition align_up :: "uint64 \<Rightarrow> uint64 \<Rightarrow> uint64" where
  "align_up n align = (n + align - 1) AND NOT (align - 1)"

definition sf_arena_init :: "nat \<Rightarrow> sf_arena" where
  "sf_arena_init default_chunk_size = \<lparr>ar_chunks = [], ar_default_chunk_size = default_chunk_size\<rparr>"

definition arena_chunk_new :: "(nat \<Rightarrow> bool) \<Rightarrow> (nat \<Rightarrow> uint8 list) \<Rightarrow> nat \<Rightarrow> sf_arena_chunk option" where
  "arena_chunk_new malloc_ok junk sz =
     (if SIZE_MAX - sizeof_sf_arena_chunk < sz then None
      else if \<not> malloc_ok (sizeof_sf_arena_chunk + sz) then None
      else Some \<lparr>ac_size = sz, ac_used = 0, ac_data = junk sz\<rparr>)"

definition arena_ensure_space ::
  "(nat \<Rightarrow> bool) \<Rightarrow> (nat \<Rightarrow> uint8 list) \<Rightarrow> sf_arena \<Rightarrow> nat \<Rightarrow> sf_arena option" where
  "arena_ensure_space malloc_ok junk arena aligned =
     (if ar_chunks arena \<noteq> [] \<and> aligned \<le> ac_size (last (ar_chunks arena)) - ac_used (last (ar_chunks arena))
      then Some arena
      else (let chunk_size = (if ar_default_chunk_size arena < aligned then aligned else ar_default_chunk_size arena)
            in case arena_chunk_new malloc_ok junk chunk_size of
                 None \<Rightarrow> None
               | Some chunk \<Rightarrow> Some (arena\<lparr>ar_chunks := ar_chunks arena @ [chunk]\<rparr>)))"

definition sf_arena_alloc ::
  "(nat \<Rightarrow> bool) \<Rightarrow> (nat \<Rightarrow> uint8 list) \<Rightarrow> sf_arena \<Rightarrow> uint64 \<Rightarrow> arena_ptr option \<times> sf_arena" where
  "sf_arena_alloc malloc_ok junk arena sz =
     (if align_up_overflows sz SF_ARENA_ALIGNMENT then (None, arena)
      else (let aligned = unat (align_up sz SF_ARENA_ALIGNMENT)
            in case arena_ensure_space malloc_ok junk arena aligned of
                 None \<Rightarrow> (None, arena)
               | Some arena1 \<Rightarrow>
                   (let i = length (ar_chunks arena1) - 1;
                        chunk = ar_chunks arena1 ! i;
                        off = ac_used chunk
                    in (Some (i, off),
                        arena1\<lparr>ar_chunks := (ar_chunks arena1)[i := chunk\<lparr>ac_used := off + aligned\<rparr>]\<rparr>))))"

definition arena_read :: "sf_arena \<Rightarrow> arena_ptr \<Rightarrow> nat \<Rightarrow> uint8 list" where
  "arena_read arena p n = take n (drop (snd p) (ac_data (ar_chunks arena ! fst p)))"

definition arena_write :: "sf_arena \<Rightarrow> arena_ptr \<Rightarrow> uint8 list \<Rightarrow> sf_arena" where
  "arena_write arena p bytes =
     arena\<lparr>ar_chunks := (ar_chunks arena)[fst p :=
       (ar_chunks arena ! fst p)\<lparr>ac_data := c_memcpy (ac_data (ar_chunks arena ! fst p)) (snd p) bytes\<rparr>]\<rparr>"

definition sf_arena_grow_array ::
  "(nat \<Rightarrow> bool) \<Rightarrow> (nat \<Rightarrow> uint8 list) \<Rightarrow> sf_arena \<Rightarrow> arena_ptr option \<Rightarrow> nat \<Rightarrow> nat \<Rightarrow> nat \<Rightarrow>
   arena_ptr option \<times> sf_arena" where
  "sf_arena_grow_array malloc_ok junk arena old_array old_count new_count elem_size =
     (if elem_size \<noteq> 0 \<and> SIZE_MAX div elem_size < new_count then (None, arena)
      else (case sf_arena_alloc malloc_ok junk arena (of_nat (new_count * elem_size)) of
              (None, arena1) \<Rightarrow> (None, arena1)
            | (Some new_array, arena1) \<Rightarrow>
                (case old_array of
                   None \<Rightarrow> (Some new_array, arena1)
                 | Some old \<Rightarrow>
                     (if 0 < old_count
                      then (let copy_count = (if old_count < new_count then old_count else new_count)
                            in (Some new_array,
                                arena_write arena1 new_array (arena_read arena1 old (copy_count * elem_size))))
                      else (Some new_array, arena1)))))"

text \<open>\<open>sf_arena_grow_one\<close> returns the array, the capacity, the arena and the log. The doubling is
  64-bit arithmetic.\<close>

definition sf_arena_grow_one ::
  "(nat \<Rightarrow> bool) \<Rightarrow> (nat \<Rightarrow> uint8 list) \<Rightarrow> sf_arena \<Rightarrow> arena_ptr option \<Rightarrow> nat \<Rightarrow> nat \<Rightarrow> nat \<Rightarrow> sf_log_state \<Rightarrow>
   arena_ptr option \<times> nat \<times> sf_arena \<times> sf_log_state" where
  "sf_arena_grow_one malloc_ok junk arena items count capacity elem_size g =
     (if count < capacity then (items, capacity, arena, g)
      else (let new_capacity = (if capacity = 0 then 8 else capacity * 2 mod 2 ^ 64)
            in case sf_arena_grow_array malloc_ok junk arena items count new_capacity elem_size of
                 (None, arena1) \<Rightarrow>
                   (None, capacity, arena1,
                    sf_log (Some ''N/A'') SF_LOG_GENERAL_INSUFFICIENT_MEMORY sf_span_zero SF_LOG_SEVERITY_FATAL [] g)
               | (Some grown, arena1) \<Rightarrow> (Some grown, new_capacity, arena1, g)))"

definition sf_arena_free :: "sf_arena option \<Rightarrow> sf_arena option" where
  "sf_arena_free arena =
     (case arena of None \<Rightarrow> None | Some a \<Rightarrow> Some (a\<lparr>ar_chunks := []\<rparr>))"

section \<open>Alignment\<close>

lemma word_and_not_mask: "x AND NOT (mask n) = push_bit n (drop_bit n x)" for x :: uint64
  by (rule bit_word_eqI) (auto simp: bit_simps)

lemma align_up_8:
  assumes "\<not> align_up_overflows n SF_ARENA_ALIGNMENT"
  shows "unat (align_up n SF_ARENA_ALIGNMENT) = (unat n + 7) div 8 * 8"
proof -
  have le: "unat n \<le> SIZE_MAX - 7"
    using assms by (simp add: align_up_overflows_def not_less word_le_nat_alt)
  define m where "m = n + 8 - 1"
  have add: "unat m = unat n + 7" using le by (simp add: m_def unat_word_ariths)
  have "align_up n SF_ARENA_ALIGNMENT = push_bit 3 (drop_bit 3 m)"
    unfolding align_up_def word_and_not_mask [symmetric] m_def by (simp add: mask_eq_exp_minus_1)
  then have "unat (align_up n SF_ARENA_ALIGNMENT) = unat m div 8 * 8 mod 2 ^ 64"
    by (simp add: push_bit_eq_mult drop_bit_eq_div unat_word_ariths unat_div mod_mult_left_eq)
  moreover have "unat m div 8 * 8 < 2 ^ 64"
    using le add div_times_less_eq_dividend [of "unat m" 8] by (simp del: div_times_less_eq_dividend)
  ultimately show ?thesis by (simp add: add)
qed

section \<open>Blocks\<close>

definition chunk_ok :: "sf_arena_chunk \<Rightarrow> bool" where
  "chunk_ok c \<longleftrightarrow> length (ac_data c) = ac_size c \<and> ac_used c \<le> ac_size c \<and> ac_used c mod 8 = 0"

definition arena_ok :: "sf_arena \<Rightarrow> bool" where
  "arena_ok arena \<longleftrightarrow> (\<forall>c \<in> set (ar_chunks arena). chunk_ok c)"

text \<open>The addresses handed out so far and the byte at an address.\<close>

definition arena_cells :: "sf_arena \<Rightarrow> arena_ptr set" where
  "arena_cells arena = {(i, j). i < length (ar_chunks arena) \<and> j < ac_used (ar_chunks arena ! i)}"

definition arena_byte :: "sf_arena \<Rightarrow> arena_ptr \<Rightarrow> uint8" where
  "arena_byte arena p = ac_data (ar_chunks arena ! fst p) ! snd p"

definition block_cells :: "arena_ptr \<Rightarrow> nat \<Rightarrow> arena_ptr set" where
  "block_cells p n = {(fst p, j) | j. snd p \<le> j \<and> j < snd p + n}"

lemma arena_ok_init: "arena_ok (sf_arena_init n)"
  by (simp add: arena_ok_def sf_arena_init_def)

lemma ensure_space:
  assumes "arena_ensure_space malloc_ok junk arena aligned = Some arena1" "arena_ok arena"
    "\<forall>n. length (junk n) = n"
  shows "arena_ok arena1 \<and> ar_chunks arena1 \<noteq> [] \<and>
    ac_used (last (ar_chunks arena1)) + aligned \<le> ac_size (last (ar_chunks arena1)) \<and>
    (ar_chunks arena1 = ar_chunks arena \<or>
     (\<exists>c. ar_chunks arena1 = ar_chunks arena @ [c] \<and> ac_used c = 0))"
proof (cases "ar_chunks arena \<noteq> [] \<and> aligned \<le> ac_size (last (ar_chunks arena)) - ac_used (last (ar_chunks arena))")
  case True
  then have "chunk_ok (last (ar_chunks arena))" using assms(2) by (simp add: arena_ok_def)
  with assms True show ?thesis by (auto simp: arena_ensure_space_def chunk_ok_def)
next
  case False
  define sz where "sz = max (ar_default_chunk_size arena) aligned"
  define c where "c = \<lparr>ac_size = sz, ac_used = 0, ac_data = junk sz\<rparr>"
  from False assms(1) have "arena1 = arena\<lparr>ar_chunks := ar_chunks arena @ [c]\<rparr>"
    by (auto simp: arena_ensure_space_def Let_def arena_chunk_new_def c_def sz_def max_def
        split: if_splits option.splits)
  with assms(2,3) show ?thesis by (auto simp: arena_ok_def chunk_ok_def c_def sz_def)
qed

lemma arena_alloc_block:
  assumes alloc: "sf_arena_alloc malloc_ok junk arena sz = (Some p, arena')" and ok: "arena_ok arena"
    and junk: "\<forall>n. length (junk n) = n"
  shows "arena_ok arena' \<and> snd p mod 8 = 0 \<and> block_cells p (unat sz) \<subseteq> arena_cells arena' \<and>
    block_cells p (unat sz) \<inter> arena_cells arena = {} \<and> arena_cells arena \<subseteq> arena_cells arena' \<and>
    (\<forall>q \<in> arena_cells arena. arena_byte arena' q = arena_byte arena q)"
proof -
  define aligned where "aligned = unat (align_up sz SF_ARENA_ALIGNMENT)"
  from alloc have no: "\<not> align_up_overflows sz SF_ARENA_ALIGNMENT" by (auto simp: sf_arena_alloc_def split: if_splits)
  from alloc obtain arena1 where sp: "arena_ensure_space malloc_ok junk arena aligned = Some arena1"
    by (auto simp: sf_arena_alloc_def Let_def aligned_def split: if_splits option.splits)
  define i where "i = length (ar_chunks arena1) - 1"
  define chunk where "chunk = ar_chunks arena1 ! i"
  from alloc no sp have res: "p = (i, ac_used chunk)"
    "arena' = arena1\<lparr>ar_chunks := (ar_chunks arena1)[i := chunk\<lparr>ac_used := ac_used chunk + aligned\<rparr>]\<rparr>"
    by (auto simp: sf_arena_alloc_def Let_def aligned_def i_def chunk_def)
  note es = ensure_space [OF sp ok junk]
  then have i: "i < length (ar_chunks arena1)" "last (ar_chunks arena1) = chunk"
    by (auto simp: i_def chunk_def last_conv_nth)
  then have ck: "chunk_ok chunk" using es unfolding arena_ok_def chunk_def by simp
  have al: "aligned mod 8 = 0" "unat sz \<le> aligned" unfolding aligned_def align_up_8 [OF no] by auto
  have ok': "arena_ok arena'"
    using es ck al i(2) unfolding res(2) arena_ok_def
    by (auto simp: chunk_ok_def dest!: subsetD [OF set_update_subset_insert])
  have cells: "arena_cells arena' = arena_cells arena1 \<union> block_cells p aligned"
    using i(1) by (auto simp: arena_cells_def block_cells_def res nth_list_update chunk_def split: if_splits)
  have cells1: "arena_cells arena1 = arena_cells arena"
    using es by (auto simp: arena_cells_def nth_append less_Suc_eq split: if_splits)
  have bytes: "arena_byte arena' q = arena_byte arena q" if "q \<in> arena_cells arena" for q
  proof -
    have "arena_byte arena' q = arena_byte arena1 q"
      using i(1) by (cases "fst q = i") (auto simp: arena_byte_def res chunk_def)
    also have "\<dots> = arena_byte arena q"
      using es that by (auto simp: arena_byte_def arena_cells_def nth_append)
    finally show ?thesis .
  qed
  have "block_cells p (unat sz) \<subseteq> block_cells p aligned" using al(2) by (auto simp: block_cells_def)
  moreover have "block_cells p (unat sz) \<inter> arena_cells arena1 = {}"
    by (auto simp: block_cells_def arena_cells_def res chunk_def)
  moreover have "snd p mod 8 = 0" using ck by (simp add: res chunk_ok_def)
  ultimately show ?thesis using ok' bytes unfolding cells cells1 by auto
qed

text \<open>C34: Allocation. A block returned by \<open>sf_arena_alloc\<close> starts at a multiple of 8, lies inside
  the used part of its chunk, overlaps no address handed out before, and every byte handed out
  before keeps its value and stays allocated. When the allocation fails the arena is
  unchanged.\<close>

theorem sf_arena_alloc_fresh:
  assumes "arena_ok arena" "\<forall>n. length (junk n) = n"
  shows "case sf_arena_alloc malloc_ok junk arena sz of
    (Some p, arena') \<Rightarrow> arena_ok arena' \<and> snd p mod 8 = 0 \<and>
      block_cells p (unat sz) \<subseteq> arena_cells arena' \<and> block_cells p (unat sz) \<inter> arena_cells arena = {} \<and>
      arena_cells arena \<subseteq> arena_cells arena' \<and>
      (\<forall>q \<in> arena_cells arena. arena_byte arena' q = arena_byte arena q)
  | (None, arena') \<Rightarrow> arena' = arena"
proof (cases "sf_arena_alloc malloc_ok junk arena sz")
  case (Pair r arena')
  show ?thesis
  proof (cases r)
    case None
    with Pair show ?thesis
      by (auto simp: sf_arena_alloc_def Let_def split: if_splits option.splits)
  next
    case (Some p)
    with arena_alloc_block [OF _ assms, of malloc_ok sz p arena'] Pair show ?thesis by simp
  qed
qed

lemma sf_arena_alloc_fresh_witness:
  "case sf_arena_alloc (\<lambda>_. True) (\<lambda>n. replicate n 0) (sf_arena_init 64) 13 of
    (Some p, arena') \<Rightarrow> arena_ok arena' \<and> snd p mod 8 = 0 \<and> block_cells p 13 \<subseteq> arena_cells arena'
  | (None, arena') \<Rightarrow> arena' = sf_arena_init 64"
  using sf_arena_alloc_fresh [OF arena_ok_init [of 64], where junk = "\<lambda>n. replicate n 0" and malloc_ok = "\<lambda>_. True" and sz = 13]
  by (auto split: prod.splits option.splits)

lemma arena_read_bytes:
  assumes "chunk_ok (ar_chunks arena ! fst p)" "snd p + n \<le> ac_size (ar_chunks arena ! fst p)"
  shows "arena_read arena p n = map (\<lambda>k. arena_byte arena (fst p, snd p + k)) [0..<n]"
  using assms by (intro nth_equalityI) (auto simp: arena_read_def arena_byte_def chunk_ok_def)

lemma block_in_chunk:
  assumes "arena_ok arena" "block_cells p n \<subseteq> arena_cells arena" "0 < n"
  shows "fst p < length (ar_chunks arena) \<and> snd p + n \<le> ac_used (ar_chunks arena ! fst p) \<and>
    chunk_ok (ar_chunks arena ! fst p)"
proof -
  have "(fst p, snd p + (n - 1)) \<in> block_cells p n" using assms(3) by (auto simp: block_cells_def)
  then have "(fst p, snd p + (n - 1)) \<in> arena_cells arena" using assms(2) by blast
  then have "fst p < length (ar_chunks arena)" "snd p + (n - 1) < ac_used (ar_chunks arena ! fst p)"
    by (auto simp: arena_cells_def)
  with assms(1,3) show ?thesis by (auto simp: arena_ok_def)
qed

lemma arena_write_block:
  assumes "arena_ok arena" "block_cells p n \<subseteq> arena_cells arena" "length bytes = n"
  shows "arena_ok (arena_write arena p bytes) \<and> arena_cells (arena_write arena p bytes) = arena_cells arena \<and>
    (\<forall>k < n. arena_byte (arena_write arena p bytes) (fst p, snd p + k) = bytes ! k) \<and>
    (\<forall>q \<in> arena_cells arena. q \<notin> block_cells p n \<longrightarrow> arena_byte (arena_write arena p bytes) q = arena_byte arena q)"
proof (cases "n = 0")
  case True
  then show ?thesis using assms
    by (cases "fst p < length (ar_chunks arena)")
       (auto simp: arena_write_def c_memcpy_def arena_cells_def arena_byte_def arena_ok_def chunk_ok_def nth_list_update
         dest!: subsetD [OF set_update_subset_insert] split: if_splits)
next
  case False
  let ?c = "ar_chunks arena ! fst p"
  have b: "fst p < length (ar_chunks arena)" "snd p + n \<le> ac_used ?c" "chunk_ok ?c"
    using block_in_chunk [OF assms(1,2)] False by auto
  then have len: "snd p + n \<le> length (ac_data ?c)" by (auto simp: chunk_ok_def)
  have data: "c_memcpy (ac_data ?c) (snd p) bytes ! j =
      (if snd p \<le> j \<and> j < snd p + n then bytes ! (j - snd p) else ac_data ?c ! j)" if "j < length (ac_data ?c)" for j
    using that len assms(3) by (auto simp: c_memcpy_def nth_append min_def)
  have ok: "arena_ok (arena_write arena p bytes)"
    using assms(1,3) b len
    by (auto simp: arena_ok_def arena_write_def chunk_ok_def c_memcpy_def dest!: subsetD [OF set_update_subset_insert])
  have "arena_byte (arena_write arena p bytes) q = arena_byte arena q"
    if "q \<in> arena_cells arena" "q \<notin> block_cells p n" for q
  proof (cases "fst q = fst p")
    case True
    with that b have "snd q < length (ac_data ?c)" by (auto simp: arena_cells_def chunk_ok_def)
    with True that b data show ?thesis
      by (cases q) (auto simp: arena_byte_def arena_write_def block_cells_def)
  qed (auto simp: arena_byte_def arena_write_def)
  moreover have "arena_cells (arena_write arena p bytes) = arena_cells arena"
    using b(1) by (auto simp: arena_cells_def arena_write_def nth_list_update split: if_splits)
  moreover have "arena_byte (arena_write arena p bytes) (fst p, snd p + k) = bytes ! k" if "k < n" for k
    using that b len data [of "snd p + k"] by (simp add: arena_byte_def arena_write_def)
  ultimately show ?thesis using ok by auto
qed

text \<open>Growing an array. A successful \<open>sf_arena_grow_array\<close> on an array that lies in the arena
  returns a block of the new size that overlaps nothing handed out before and whose first
  elements are those of the old array, byte for byte; all bytes handed out before keep their
  values.\<close>

theorem sf_arena_grow_array_copies:
  assumes "arena_ok arena" "\<forall>n. length (junk n) = n"
    and "block_cells old (old_count * elem_size) \<subseteq> arena_cells arena"
    and "sf_arena_grow_array malloc_ok junk arena (Some old) old_count new_count elem_size = (Some new, arena')"
  shows "arena_ok arena' \<and> block_cells new (new_count * elem_size) \<subseteq> arena_cells arena' \<and>
    block_cells new (new_count * elem_size) \<inter> arena_cells arena = {} \<and>
    (\<forall>k < min old_count new_count * elem_size.
       arena_byte arena' (fst new, snd new + k) = arena_byte arena (fst old, snd old + k)) \<and>
    (\<forall>q \<in> arena_cells arena. arena_byte arena' q = arena_byte arena q)"
proof -
  have fits: "new_count * elem_size \<le> SIZE_MAX"
  proof (cases "elem_size = 0")
    case False
    with assms(4) have "new_count \<le> SIZE_MAX div elem_size"
      by (auto simp: sf_arena_grow_array_def split: if_splits)
    then have "new_count * elem_size \<le> SIZE_MAX div elem_size * elem_size" by simp
    then show ?thesis using div_times_less_eq_dividend order_trans by blast
  qed simp
  then have sz: "unat (of_nat (new_count * elem_size) :: uint64) = new_count * elem_size"
    by (simp add: unat_of_nat del: of_nat_mult)
  from assms(4) obtain arena1 where al: "sf_arena_alloc malloc_ok junk arena (of_nat (new_count * elem_size)) = (Some new, arena1)"
    by (auto simp: sf_arena_grow_array_def Let_def simp del: of_nat_mult split: if_splits option.splits prod.splits)
  note fresh = arena_alloc_block [OF al assms(1,2), unfolded sz]
  define n where "n = min old_count new_count * elem_size"
  have n: "n \<le> new_count * elem_size" "n \<le> old_count * elem_size" by (simp_all add: n_def)
  show ?thesis
  proof (cases "n = 0")
    case True
    have "arena' = arena1 \<or> arena' = arena_write arena1 new []"
      using assms(4) al True
      by (auto simp: sf_arena_grow_array_def n_def arena_read_def min_def simp del: of_nat_mult split: if_splits)
    moreover have "block_cells new 0 = {}" by (auto simp: block_cells_def)
    ultimately show ?thesis using fresh arena_write_block [of arena1 new 0 "[]"] True
      by (auto simp: n_def [symmetric])
  next
    case False
    have w: "arena' = arena_write arena1 new (arena_read arena1 old n)"
      using assms(4) al False
      by (auto simp: sf_arena_grow_array_def n_def min_def simp del: of_nat_mult split: if_splits)
    have sub: "block_cells old n \<subseteq> arena_cells arena1"
    proof -
      have "block_cells old n \<subseteq> block_cells old (old_count * elem_size)" using n(2) by (auto simp: block_cells_def)
      then show ?thesis using assms(3) fresh by blast
    qed
    have inold: "(fst old, snd old + k) \<in> arena_cells arena" if "k < n" for k
      using assms(3) that n(2) by (auto simp: block_cells_def)
    have c: "chunk_ok (ar_chunks arena1 ! fst old)" "snd old + n \<le> ac_size (ar_chunks arena1 ! fst old)"
      using block_in_chunk [OF _ sub] fresh False by (auto simp: chunk_ok_def)
    note rd = arena_read_bytes [OF c]
    have sub': "block_cells new n \<subseteq> block_cells new (new_count * elem_size)" using n(1) by (auto simp: block_cells_def)
    then have "arena_ok arena1" "block_cells new n \<subseteq> arena_cells arena1" using fresh by auto
    note arena_write_block [OF this, of "arena_read arena1 old n"]
    note wr = this
    have "arena_byte arena' q = arena_byte arena q" if "q \<in> arena_cells arena" for q
    proof -
      have "q \<in> arena_cells arena1" "q \<notin> block_cells new n" using that fresh sub' by auto
      then have "arena_byte arena' q = arena_byte arena1 q" using wr unfolding w rd by simp
      then show ?thesis using fresh that by simp
    qed
    then show ?thesis using fresh inold wr unfolding w n_def [symmetric] rd by simp
  qed
qed

lemma sf_arena_grow_array_copies_witness:
  "let a = \<lparr>ar_chunks = [\<lparr>ac_size = 24, ac_used = 8, ac_data = replicate 24 5\<rparr>], ar_default_chunk_size = 64\<rparr>
   in case sf_arena_grow_array (\<lambda>_. True) (\<lambda>n. replicate n 7) a (Some (0, 0)) 1 2 8 of
        (Some q, a') \<Rightarrow> arena_byte a' (fst q, snd q + 7) = arena_byte a (0, 7)
      | (None, _) \<Rightarrow> False"
proof -
  define a :: sf_arena where "a = \<lparr>ar_chunks = [\<lparr>ac_size = 24, ac_used = 8, ac_data = replicate 24 5\<rparr>], ar_default_chunk_size = 64\<rparr>"
  have ok: "arena_ok a" "block_cells (0, 0) (1 * 8) \<subseteq> arena_cells a"
    by (auto simp: a_def arena_ok_def chunk_ok_def block_cells_def arena_cells_def)
  obtain q a' where g: "sf_arena_grow_array (\<lambda>_. True) (\<lambda>n. replicate n 7) a (Some (0, 0)) 1 2 8 = (Some q, a')"
    by (simp add: sf_arena_grow_array_def sf_arena_alloc_def align_up_overflows_def arena_ensure_space_def a_def
        align_up_def Let_def)
  from sf_arena_grow_array_copies [OF ok(1) _ ok(2) g] have
    "arena_byte a' (fst q, snd q + 7) = arena_byte a (0, 7)" by simp
  with g show ?thesis unfolding a_def [symmetric] by simp
qed

end
