(* ===== verification/Codegen.thy ===== *)
theory Codegen
  imports Stack
begin

text \<open>
  The code generator, \<^verbatim>\<open>backend/codegen/codegen.c\<close>. Each \<^verbatim>\<open>emit\<close> function is modelled by the text that it
  appends to the buffer (memory is available, see \<open>C_String\<close> for the buffer); \<open>None\<close> is \<^verbatim>\<open>abort()\<close>, after
  an operand without a stack slot, and the use of a null register name. \<open>line s\<close> is the text
  of \<^verbatim>\<open>"\t%s\n"\<close>. Operands are formatted into buffers of \<open>FMT_SIZE\<close> bytes.
\<close>

definition FMT_SIZE :: nat where
  "FMT_SIZE = 256"

definition line :: "string \<Rightarrow> string" where
  "line s = CHR 0x09 # s @ [CHR 0x0A]"

section \<open>Registers and prefixes\<close>

datatype sf_register = SF_REGISTER_RAX | SF_REGISTER_EAX | SF_REGISTER_AX | SF_REGISTER_AL

datatype sf_size_prefix = SF_PREFIX_BYTE | SF_PREFIX_WORD | SF_PREFIX_DWORD | SF_PREFIX_QWORD

definition register_from_size :: "nat \<Rightarrow> sf_register" where
  "register_from_size width =
     (if width \<le> 1 then SF_REGISTER_AL else if width \<le> 2 then SF_REGISTER_AX
      else if width \<le> 4 then SF_REGISTER_EAX else SF_REGISTER_RAX)"

definition prefix_from_size :: "nat \<Rightarrow> sf_size_prefix" where
  "prefix_from_size width =
     (if width \<le> 1 then SF_PREFIX_BYTE else if width \<le> 2 then SF_PREFIX_WORD
      else if width \<le> 4 then SF_PREFIX_DWORD else SF_PREFIX_QWORD)"

definition counter_register :: "nat \<Rightarrow> string" where
  "counter_register width =
     (if width \<le> 1 then ''cl'' else if width \<le> 2 then ''cx'' else if width \<le> 4 then ''ecx'' else ''rcx'')"

fun register_to_string :: "sf_register \<Rightarrow> string" where
  "register_to_string SF_REGISTER_AL = ''al''"
| "register_to_string SF_REGISTER_AX = ''ax''"
| "register_to_string SF_REGISTER_EAX = ''eax''"
| "register_to_string SF_REGISTER_RAX = ''rax''"

fun prefix_to_string :: "sf_size_prefix \<Rightarrow> string" where
  "prefix_to_string SF_PREFIX_BYTE = ''BYTE''"
| "prefix_to_string SF_PREFIX_WORD = ''WORD''"
| "prefix_to_string SF_PREFIX_DWORD = ''DWORD''"
| "prefix_to_string SF_PREFIX_QWORD = ''QWORD''"

definition param_register :: "nat \<Rightarrow> nat \<Rightarrow> string option" where
  "param_register index width =
     (let registers = [[''rdi'', ''edi'', ''di'', ''dil''], [''rsi'', ''esi'', ''si'', ''sil''],
            [''rdx'', ''edx'', ''dx'', ''dl''], [''rcx'', ''ecx'', ''cx'', ''cl''],
            [''r8'', ''r8d'', ''r8w'', ''r8b''], [''r9'', ''r9d'', ''r9w'', ''r9b'']]
      in if 6 \<le> index then None
         else if width = 8 then Some (registers ! index ! 0)
         else if width = 4 then Some (registers ! index ! 1)
         else if width = 2 then Some (registers ! index ! 2)
         else if width = 1 then Some (registers ! index ! 3)
         else None)"

text \<open>The accumulator register of a type, \<^verbatim>\<open>register_to_string(register_from_size(size))\<close>.\<close>

abbreviation accumulator :: "nat \<Rightarrow> string" where
  "accumulator width \<equiv> register_to_string (register_from_size width)"

section \<open>Operands\<close>

definition stack_offset :: "sf_stack_map \<Rightarrow> string \<Rightarrow> int option" where
  "stack_offset m name = (let offset = sf_stack_lookup m name in if offset = 0 then None else Some offset)"

text \<open>The conversion \<^verbatim>\<open>%d\<close> of a 64-bit integer, and with the flag \<^verbatim>\<open>+\<close>.\<close>

definition int_text :: "int \<Rightarrow> string" where
  "int_text n = (if n < 0 then ''-'' else []) @ dec_digits (nat \<bar>n\<bar>)"

definition signed_text :: "int \<Rightarrow> string" where
  "signed_text n = (if n < 0 then ''-'' else ''+'') @ dec_digits (nat \<bar>n\<bar>)"

definition memory_operand :: "sf_value_type \<Rightarrow> int \<Rightarrow> string" where
  "memory_operand type offset =
     prefix_to_string (prefix_from_size (sf_type_value_width_bytes type)) @ '' [rbp'' @ signed_text offset @ '']''"

definition format_operand :: "sf_stack_map \<Rightarrow> sf_ir_operand \<Rightarrow> string option" where
  "format_operand m op =
     (case op of
        SF_IR_OPERAND_TYPE_IMMEDIATE t v \<Rightarrow> Some (snprintf_text FMT_SIZE v)
      | SF_IR_OPERAND_TYPE_VARIABLE t n \<Rightarrow> do {
          offset \<leftarrow> stack_offset m n;
          Some (snprintf_text FMT_SIZE (memory_operand t offset)) }
      | SF_IR_OPERAND_TYPE_TEMPORARY t k \<Rightarrow> do {
          offset \<leftarrow> stack_offset m (snprintf_text 32 (''t'' @ dec_digits k));
          Some (snprintf_text FMT_SIZE (memory_operand t offset)) }
      | _ \<Rightarrow> Some [])"

fun is_immediate :: "sf_ir_operand \<Rightarrow> bool" where
  "is_immediate (SF_IR_OPERAND_TYPE_IMMEDIATE _ _) = True"
| "is_immediate _ = False"

fun immediate_text :: "sf_ir_operand \<Rightarrow> string" where
  "immediate_text (SF_IR_OPERAND_TYPE_IMMEDIATE _ v) = v"
| "immediate_text _ = []"

fun in_memory :: "sf_ir_operand \<Rightarrow> bool" where
  "in_memory (SF_IR_OPERAND_TYPE_VARIABLE _ _) = True"
| "in_memory (SF_IR_OPERAND_TYPE_TEMPORARY _ _) = True"
| "in_memory _ = False"

abbreviation operand_width :: "sf_ir_operand \<Rightarrow> nat" where
  "operand_width op \<equiv> sf_type_value_width_bytes (op_value_type op)"

text \<open>\<^verbatim>\<open>strtoll\<close> in base 10: it saturates at the bounds of \<^verbatim>\<open>long long\<close>.\<close>

definition strtoll10 :: "string \<Rightarrow> int" where
  "strtoll10 s =
     (let s1 = dropWhile c_isspace s;
          neg = (s1 \<noteq> [] \<and> hd s1 = CHR ''-'');
          s2 = (if s1 \<noteq> [] \<and> (hd s1 = CHR ''-'' \<or> hd s1 = CHR ''+'') then tl s1 else s1);
          v = int (dec_value 0 (takeWhile is_dec_digit s2))
      in max (- (2 ^ 63)) (min (2 ^ 63 - 1) (if neg then - v else v)))"

text \<open>\<^verbatim>\<open>load_large_immediate\<close>: the text it emits, and the new contents of \<^verbatim>\<open>fmt\<close>.\<close>

definition load_large_immediate :: "sf_ir_operand \<Rightarrow> nat \<Rightarrow> string \<Rightarrow> string \<times> string" where
  "load_large_immediate operand width fmt =
     (if \<not> is_immediate operand \<or> width < 8 then ([], fmt)
      else (let v = strtoll10 (immediate_text operand)
            in if - (2 ^ 31) \<le> v \<and> v \<le> 2 ^ 31 - 1 then ([], fmt)
               else (line (''mov rcx, '' @ fmt), ''rcx'')))"

section \<open>Arithmetic\<close>

definition emit_binary :: "string \<Rightarrow> sf_stack_map \<Rightarrow> sf_ir_operation \<Rightarrow> string option" where
  "emit_binary mnemonic m op = do {
     src1_fmt \<leftarrow> format_operand m (io_operand2 op);
     src2_fmt \<leftarrow> format_operand m (io_operand3 op);
     dst_fmt \<leftarrow> format_operand m (io_operand1 op);
     (let width = operand_width (io_operand1 op)
      in case load_large_immediate (io_operand3 op) width src2_fmt of (text, src2_fmt) \<Rightarrow>
           if dst_fmt = src1_fmt \<and> \<not> in_memory (io_operand3 op)
           then Some (text @ line (mnemonic @ '' '' @ dst_fmt @ '', '' @ src2_fmt))
           else (let reg_str = accumulator width
                 in Some (text @ line (''mov '' @ reg_str @ '', '' @ src1_fmt) @
                          line (mnemonic @ '' '' @ reg_str @ '', '' @ src2_fmt) @
                          line (''mov '' @ dst_fmt @ '', '' @ reg_str)))) }"

definition emit_mult :: "sf_stack_map \<Rightarrow> sf_ir_operation \<Rightarrow> string option" where
  "emit_mult m op = do {
     src1_fmt \<leftarrow> format_operand m (io_operand2 op);
     src2_fmt \<leftarrow> format_operand m (io_operand3 op);
     dst_fmt \<leftarrow> format_operand m (io_operand1 op);
     (let width = operand_width (io_operand1 op)
      in if width = 1
         then (let mul_instr = (if sf_type_value_is_signed (op_value_type (io_operand1 op)) then ''imul'' else ''mul'')
               in Some (line (''mov al, '' @ src1_fmt) @
                    (if is_immediate (io_operand3 op)
                     then line (''mov cl, '' @ src2_fmt) @ line (mul_instr @ '' cl'')
                     else line (mul_instr @ '' '' @ src2_fmt)) @
                    line (''mov '' @ dst_fmt @ '', al'')))
         else (case load_large_immediate (io_operand3 op) width src2_fmt of (text, src2_fmt) \<Rightarrow>
                 let reg_str = accumulator width
                 in Some (text @ line (''mov '' @ reg_str @ '', '' @ src1_fmt) @
                          line (''imul '' @ reg_str @ '', '' @ src2_fmt) @
                          line (''mov '' @ dst_fmt @ '', '' @ reg_str)))) }"

definition emit_dividend_extension :: "nat \<Rightarrow> bool \<Rightarrow> string" where
  "emit_dividend_extension width is_signed =
     (if width = 8 then line (if is_signed then ''cqo'' else ''xor rdx, rdx'')
      else if width = 4 then line (if is_signed then ''cdq'' else ''xor edx, edx'')
      else if width = 2 then line (if is_signed then ''cwd'' else ''xor dx, dx'')
      else if width = 1 then line (if is_signed then ''cbw'' else ''mov ah, 0'')
      else [])"

definition emit_div :: "sf_stack_map \<Rightarrow> sf_ir_operation \<Rightarrow> string option" where
  "emit_div m op = do {
     src1_fmt \<leftarrow> format_operand m (io_operand2 op);
     src2_fmt \<leftarrow> format_operand m (io_operand3 op);
     dst_fmt \<leftarrow> format_operand m (io_operand1 op);
     (let width = operand_width (io_operand1 op);
          is_signed = sf_type_value_is_signed (op_value_type (io_operand1 op));
          div_instr = (if is_signed then ''idiv'' else ''div'');
          reg_str = accumulator width
      in Some (line (''mov '' @ reg_str @ '', '' @ src1_fmt) @ emit_dividend_extension width is_signed @
               (if is_immediate (io_operand3 op)
                then line (''mov '' @ counter_register width @ '', '' @ src2_fmt) @
                     line (div_instr @ '' '' @ counter_register width)
                else line (div_instr @ '' '' @ src2_fmt)) @
               line (''mov '' @ dst_fmt @ '', '' @ reg_str))) }"

definition emit_neg :: "sf_stack_map \<Rightarrow> sf_ir_operation \<Rightarrow> string option" where
  "emit_neg m op = do {
     src1_fmt \<leftarrow> format_operand m (io_operand2 op);
     dst_fmt \<leftarrow> format_operand m (io_operand1 op);
     (if dst_fmt = src1_fmt then Some (line (''neg '' @ dst_fmt))
      else (let reg_str = accumulator (operand_width (io_operand1 op))
            in Some (line (''mov '' @ reg_str @ '', '' @ src1_fmt) @ line (''neg '' @ reg_str) @
                     line (''mov '' @ dst_fmt @ '', '' @ reg_str)))) }"

definition emit_not_on :: "sf_ir_opcode \<Rightarrow> string \<Rightarrow> string" where
  "emit_not_on opcode target =
     (if opcode = SF_IR_OPCODE_BITWISE_NOT then line (''not '' @ target) else line (''xor '' @ target @ '', 1''))"

definition emit_not :: "sf_stack_map \<Rightarrow> sf_ir_operation \<Rightarrow> string option" where
  "emit_not m op = do {
     src1_fmt \<leftarrow> format_operand m (io_operand2 op);
     dst_fmt \<leftarrow> format_operand m (io_operand1 op);
     (if dst_fmt = src1_fmt then Some (emit_not_on (io_opcode op) dst_fmt)
      else (let reg_str = accumulator (operand_width (io_operand1 op))
            in Some (line (''mov '' @ reg_str @ '', '' @ src1_fmt) @ emit_not_on (io_opcode op) reg_str @
                     line (''mov '' @ dst_fmt @ '', '' @ reg_str)))) }"

definition emit_shift :: "string \<Rightarrow> sf_stack_map \<Rightarrow> sf_ir_operation \<Rightarrow> string option" where
  "emit_shift mnemonic m op = do {
     src1_fmt \<leftarrow> format_operand m (io_operand2 op);
     src2_fmt \<leftarrow> format_operand m (io_operand3 op);
     dst_fmt \<leftarrow> format_operand m (io_operand1 op);
     (let reg_str = accumulator (operand_width (io_operand1 op));
          reg_cx = counter_register (operand_width (io_operand3 op))
      in Some (line (''mov '' @ reg_str @ '', '' @ src1_fmt) @
               (if is_immediate (io_operand3 op)
                then line (mnemonic @ '' '' @ reg_str @ '', '' @ src2_fmt)
                else line (''mov '' @ reg_cx @ '', '' @ src2_fmt) @ line (mnemonic @ '' '' @ reg_str @ '', cl'')) @
               line (''mov '' @ dst_fmt @ '', '' @ reg_str))) }"

definition emit_rshift :: "sf_stack_map \<Rightarrow> sf_ir_operation \<Rightarrow> string option" where
  "emit_rshift m op = emit_shift (if sf_type_value_is_signed (op_value_type (io_operand1 op)) then ''sar'' else ''shr'') m op"

definition emit_lshift :: "sf_stack_map \<Rightarrow> sf_ir_operation \<Rightarrow> string option" where
  "emit_lshift m op = emit_shift ''shl'' m op"

section \<open>Conversions and comparisons\<close>

definition emit_convert :: "sf_ir_operation \<Rightarrow> string \<Rightarrow> string \<Rightarrow> string" where
  "emit_convert op src_fmt dst_fmt =
     (let src_size = operand_width (io_operand2 op);
          dst_size = operand_width (io_operand1 op);
          dst_reg_str = accumulator dst_size
      in if is_immediate (io_operand2 op) \<or> src_size = dst_size
         then line (''mov '' @ dst_reg_str @ '', '' @ src_fmt) @ line (''mov '' @ dst_fmt @ '', '' @ dst_reg_str)
         else if src_size < dst_size
         then (let is_signed = sf_type_value_is_signed (op_value_type (io_operand2 op))
               in (if is_signed \<and> src_size = 4 then line (''movsxd '' @ dst_reg_str @ '', '' @ src_fmt)
                   else if is_signed then line (''movsx '' @ dst_reg_str @ '', '' @ src_fmt)
                   else if src_size = 4 then line (''mov '' @ register_to_string SF_REGISTER_EAX @ '', '' @ src_fmt)
                   else line (''movzx '' @ dst_reg_str @ '', '' @ src_fmt)) @
                  line (''mov '' @ dst_fmt @ '', '' @ dst_reg_str))
         else line (''mov '' @ accumulator src_size @ '', '' @ src_fmt) @ line (''mov '' @ dst_fmt @ '', '' @ dst_reg_str))"

definition emit_assign :: "sf_stack_map \<Rightarrow> sf_ir_operation \<Rightarrow> string option" where
  "emit_assign m op = do {
     src_fmt \<leftarrow> format_operand m (io_operand2 op);
     dst_fmt \<leftarrow> format_operand m (io_operand1 op);
     (if src_fmt = dst_fmt then Some [] else Some (emit_convert op src_fmt dst_fmt)) }"

definition emit_cast :: "sf_stack_map \<Rightarrow> sf_ir_operation \<Rightarrow> string option" where
  "emit_cast m op = do {
     src_fmt \<leftarrow> format_operand m (io_operand2 op);
     dst_fmt \<leftarrow> format_operand m (io_operand1 op);
     Some (emit_convert op src_fmt dst_fmt) }"

fun set_instruction :: "sf_ir_opcode \<Rightarrow> bool \<Rightarrow> string option" where
  "set_instruction SF_IR_OPCODE_RELATIONAL_EQUAL is_signed = Some ''sete''"
| "set_instruction SF_IR_OPCODE_RELATIONAL_NOT_EQUAL is_signed = Some ''setne''"
| "set_instruction SF_IR_OPCODE_RELATIONAL_LESS is_signed = Some (if is_signed then ''setl'' else ''setb'')"
| "set_instruction SF_IR_OPCODE_RELATIONAL_LESS_EQUAL is_signed = Some (if is_signed then ''setle'' else ''setbe'')"
| "set_instruction SF_IR_OPCODE_RELATIONAL_GREATER is_signed = Some (if is_signed then ''setg'' else ''seta'')"
| "set_instruction SF_IR_OPCODE_RELATIONAL_GREATER_EQUAL is_signed = Some (if is_signed then ''setge'' else ''setae'')"
| "set_instruction _ is_signed = None"

definition emit_relational :: "sf_stack_map \<Rightarrow> sf_ir_operation \<Rightarrow> string option" where
  "emit_relational m op = do {
     src1_fmt \<leftarrow> format_operand m (io_operand2 op);
     src2_fmt \<leftarrow> format_operand m (io_operand3 op);
     dst_fmt \<leftarrow> format_operand m (io_operand1 op);
     (let width = operand_width (io_operand2 op);
          reg_str = accumulator width
      in case load_large_immediate (io_operand3 op) width src2_fmt of (text, src2_fmt) \<Rightarrow> do {
           set_instr \<leftarrow> set_instruction (io_opcode op) (sf_type_value_is_signed (op_value_type (io_operand2 op)));
           Some (text @ line (''mov '' @ reg_str @ '', '' @ src1_fmt) @
                 line (''cmp '' @ reg_str @ '', '' @ src2_fmt) @
                 line (set_instr @ '' al'') @
                 line (''mov '' @ dst_fmt @ '', al'')) }) }"

section \<open>Control flow\<close>

definition label_text :: "sf_ir_operand \<Rightarrow> string" where
  "label_text op = ''.L'' @ dec_digits (label_id op)"

definition emit_label :: "sf_ir_operation \<Rightarrow> string" where
  "emit_label op = label_text (io_operand1 op) @ '':''"

definition emit_jmp_incond :: "sf_ir_operation \<Rightarrow> string" where
  "emit_jmp_incond op = line (''jmp '' @ label_text (io_operand1 op))"

definition emit_jmp_cond :: "sf_stack_map \<Rightarrow> sf_ir_operation \<Rightarrow> string option" where
  "emit_jmp_cond m op = do {
     cond_fmt \<leftarrow> format_operand m (io_operand2 op);
     (let reg_str = accumulator (operand_width (io_operand2 op))
      in Some (line (''mov '' @ reg_str @ '', '' @ cond_fmt) @ line (''cmp '' @ reg_str @ '', 0'') @
               line (''je '' @ label_text (io_operand1 op)))) }"

definition emit_return :: "sf_stack_map \<Rightarrow> sf_ir_operation \<Rightarrow> string option" where
  "emit_return m op = do {
     text \<leftarrow> (if io_operand1 op \<noteq> SF_IR_OPERAND_TYPE_NONE
              then do { fmt \<leftarrow> format_operand m (io_operand1 op);
                        Some (line (''mov '' @ accumulator (operand_width (io_operand1 op)) @ '', '' @ fmt)) }
              else Some []);
     Some (text @ line ''mov rsp, rbp'' @ line ''pop rbp'' @ line ''ret'') }"

section \<open>Calls\<close>

definition emit_stack_arg :: "sf_stack_map \<Rightarrow> sf_ir_operand \<Rightarrow> string option" where
  "emit_stack_arg m param = do {
     fmt \<leftarrow> format_operand m param;
     (let width = operand_width param
      in Some ((if is_immediate param \<or> width = 8 then line (''mov rax, '' @ fmt)
                else if width = 4 then line (''mov eax, '' @ fmt)
                else line ((if sf_type_value_is_signed (op_value_type param) then ''movsx'' else ''movzx'') @ '' rax, '' @ fmt)) @
               line ''push rax'')) }"

text \<open>The two loops of \<^verbatim>\<open>emit_call\<close>: the arguments beyond the sixth, pushed from the last to the seventh, and
  the arguments in registers.\<close>

fun emit_stack_args :: "sf_stack_map \<Rightarrow> sf_ir_operand list \<Rightarrow> string option" where
  "emit_stack_args m [] = Some []"
| "emit_stack_args m (param # params) = do {
     text \<leftarrow> emit_stack_arg m param;
     rest \<leftarrow> emit_stack_args m params;
     Some (text @ rest) }"

definition emit_register_arg :: "sf_stack_map \<Rightarrow> nat \<Rightarrow> sf_ir_operand \<Rightarrow> string option" where
  "emit_register_arg m i param = do {
     fmt \<leftarrow> format_operand m param;
     (let width = operand_width param;
          reg_size = (if width \<le> 2 then 4 else width)
      in do {
          reg \<leftarrow> param_register i reg_size;
          Some (if width \<le> 2 \<and> \<not> is_immediate param
                then line ((if sf_type_value_is_signed (op_value_type param) then ''movsx'' else ''movzx'') @ '' '' @ reg @ '', '' @ fmt)
                else line (''mov '' @ reg @ '', '' @ fmt)) }) }"

fun emit_register_args :: "sf_stack_map \<Rightarrow> nat \<Rightarrow> sf_ir_operand list \<Rightarrow> string option" where
  "emit_register_args m i [] = Some []"
| "emit_register_args m i (param # params) = do {
     text \<leftarrow> emit_register_arg m i param;
     rest \<leftarrow> emit_register_args m (i + 1) params;
     Some (text @ rest) }"

definition emit_call :: "sf_stack_map \<Rightarrow> sf_ir_operand list \<Rightarrow> sf_ir_operation \<Rightarrow> string option" where
  "emit_call m params call =
     (let stack_args = length params - 6;
          padding = stack_args mod 2
      in do {
          stack_text \<leftarrow> emit_stack_args m (rev (drop 6 params));
          register_text \<leftarrow> emit_register_args m 0 (take 6 params);
          result_text \<leftarrow>
            (if io_operand1 call \<noteq> SF_IR_OPERAND_TYPE_NONE
             then do { fmt \<leftarrow> format_operand m (io_operand1 call);
                       Some (line (''mov '' @ fmt @ '', '' @ accumulator (operand_width (io_operand1 call)))) }
             else Some []);
          Some ((if 0 < padding then line ''sub rsp, 8'' else []) @ stack_text @ register_text @
                line (''call '' @ function_text (io_operand2 call)) @
                (if 0 < stack_args + padding then line (''add rsp, '' @ dec_digits ((stack_args + padding) * 8)) else []) @
                result_text) })"

section \<open>Operations and functions\<close>

definition emit_operation :: "sf_stack_map \<Rightarrow> sf_ir_operand list \<Rightarrow> sf_ir_operation \<Rightarrow> (string \<times> sf_ir_operand list) option" where
  "emit_operation m params op =
     (let emitted = map_option (\<lambda>text. (text, params))
      in case io_opcode op of
           SF_IR_OPCODE_ADD \<Rightarrow> emitted (emit_binary ''add'' m op)
         | SF_IR_OPCODE_SUB \<Rightarrow> emitted (emit_binary ''sub'' m op)
         | SF_IR_OPCODE_MULT \<Rightarrow> emitted (emit_mult m op)
         | SF_IR_OPCODE_DIV \<Rightarrow> emitted (emit_div m op)
         | SF_IR_OPCODE_NEGATE \<Rightarrow> emitted (emit_neg m op)
         | SF_IR_OPCODE_BITWISE_AND \<Rightarrow> emitted (emit_binary ''and'' m op)
         | SF_IR_OPCODE_LOGICAL_AND \<Rightarrow> emitted (emit_binary ''and'' m op)
         | SF_IR_OPCODE_BITWISE_OR \<Rightarrow> emitted (emit_binary ''or'' m op)
         | SF_IR_OPCODE_LOGICAL_OR \<Rightarrow> emitted (emit_binary ''or'' m op)
         | SF_IR_OPCODE_BITWISE_XOR \<Rightarrow> emitted (emit_binary ''xor'' m op)
         | SF_IR_OPCODE_BITWISE_RSHIFT \<Rightarrow> emitted (emit_rshift m op)
         | SF_IR_OPCODE_BITWISE_LSHIFT \<Rightarrow> emitted (emit_lshift m op)
         | SF_IR_OPCODE_BITWISE_NOT \<Rightarrow> emitted (emit_not m op)
         | SF_IR_OPCODE_LOGICAL_NOT \<Rightarrow> emitted (emit_not m op)
         | SF_IR_OPCODE_RELATIONAL_EQUAL \<Rightarrow> emitted (emit_relational m op)
         | SF_IR_OPCODE_RELATIONAL_NOT_EQUAL \<Rightarrow> emitted (emit_relational m op)
         | SF_IR_OPCODE_RELATIONAL_LESS \<Rightarrow> emitted (emit_relational m op)
         | SF_IR_OPCODE_RELATIONAL_LESS_EQUAL \<Rightarrow> emitted (emit_relational m op)
         | SF_IR_OPCODE_RELATIONAL_GREATER \<Rightarrow> emitted (emit_relational m op)
         | SF_IR_OPCODE_RELATIONAL_GREATER_EQUAL \<Rightarrow> emitted (emit_relational m op)
         | SF_IR_OPCODE_LABEL \<Rightarrow> emitted (Some (emit_label op))
         | SF_IR_OPCODE_JMP_INCOND \<Rightarrow> emitted (Some (emit_jmp_incond op))
         | SF_IR_OPCODE_JMP_COND \<Rightarrow> emitted (emit_jmp_cond m op)
         | SF_IR_OPCODE_ASSIGN \<Rightarrow> emitted (emit_assign m op)
         | SF_IR_OPCODE_CAST \<Rightarrow> emitted (emit_cast m op)
         | SF_IR_OPCODE_RETURN \<Rightarrow> emitted (emit_return m op)
         | SF_IR_OPCODE_CALL \<Rightarrow> map_option (\<lambda>text. (text, [])) (emit_call m params op)
         | SF_IR_OPCODE_PARAM \<Rightarrow> Some ([], params @ [io_operand1 op])
         | _ \<Rightarrow> Some ([], params))"

fun emit_operations :: "sf_stack_map \<Rightarrow> sf_ir_operand list \<Rightarrow> sf_ir_operation list \<Rightarrow> string option" where
  "emit_operations m params [] = Some []"
| "emit_operations m params (op # ops) = do {
     (text, params) \<leftarrow> emit_operation m params op;
     rest \<leftarrow> emit_operations m params ops;
     Some (text @ rest) }"

text \<open>The loop of \<^verbatim>\<open>emit_function\<close> that stores the parameters in the frame, from the parameter \<open>i\<close> on.\<close>

definition emit_parameter :: "sf_stack_map \<Rightarrow> nat \<Rightarrow> sf_parameter \<Rightarrow> string option" where
  "emit_parameter m i p =
     (let width = sf_type_value_width_bytes (pm_type p);
          prefix = prefix_to_string (prefix_from_size width)
      in do {
          offset \<leftarrow> stack_offset m (pm_name p);
          (if i < 6
           then do {
             reg \<leftarrow> param_register i width;
             Some (line (''mov '' @ prefix @ '' [rbp'' @ signed_text offset @ ''], '' @ reg)) }
           else (let arg_offset = 16 + int (i - 6) * 8;
                     reg = accumulator width
                 in Some (line (''mov '' @ reg @ '', '' @ prefix @ '' [rbp+'' @ int_text arg_offset @ '']'') @
                          line (''mov '' @ prefix @ '' [rbp'' @ signed_text offset @ ''], '' @ reg)))) })"

fun emit_parameters :: "sf_stack_map \<Rightarrow> nat \<Rightarrow> sf_parameter list \<Rightarrow> string option" where
  "emit_parameters m i [] = Some []"
| "emit_parameters m i (p # ps) = do {
     text \<leftarrow> emit_parameter m i p;
     rest \<leftarrow> emit_parameters m (i + 1) ps;
     Some (text @ rest) }"

definition emit_function :: "sf_ir_function \<Rightarrow> string option" where
  "emit_function func =
     (if is_extern (fn_qualifiers func) then Some []
      else if length (fn_operations func) = 0 then Some []
      else (let m = sf_stack_populate [] (fn_parameters func) (fn_operations func)
            in do {
                parameters_text \<leftarrow> emit_parameters m 0 (fn_parameters func);
                operations_text \<leftarrow> emit_operations m [] (fn_operations func);
                Some ([CHR 0x0A] @ fn_name func @ '':'' @ [CHR 0x0A] @ line ''push rbp'' @ line ''mov rbp, rsp'' @
                      line (''sub rsp, '' @ int_text (frame_size m)) @
                      (if 0 < length (fn_parameters func) then [CHR 0x0A] @ parameters_text else []) @
                      [CHR 0x0A] @ operations_text) }))"

definition emit_func_linkage :: "sf_ir_function \<Rightarrow> string" where
  "emit_func_linkage func =
     (if fn_defined func \<and> is_public (fn_qualifiers func) then ''global '' @ fn_name func @ [CHR 0x0A] else [])"

fun emit_functions :: "sf_ir_function list \<Rightarrow> string option" where
  "emit_functions [] = Some []"
| "emit_functions (func # funcs) = do {
     text \<leftarrow> emit_function func;
     rest \<leftarrow> emit_functions funcs;
     Some (text @ rest) }"

definition sf_generate_assembly :: "sf_ir_program \<Rightarrow> bool \<Rightarrow> string option" where
  "sf_generate_assembly program is_root = do {
     functions_text \<leftarrow> emit_functions (ip_functions program);
     Some (''bits 64'' @ [CHR 0x0A, CHR 0x0A] @
           (if is_root then ''global _start'' @ [CHR 0x0A] else []) @
           concat (map (\<lambda>name. ''extern '' @ name @ [CHR 0x0A]) (ip_externs program)) @
           concat (map emit_func_linkage (ip_functions program)) @
           [CHR 0x0A] @ ''section .text'' @ [CHR 0x0A, CHR 0x0A] @
           (if is_root
            then ''_start:'' @ [CHR 0x0A] @ line ''call main'' @ [CHR 0x0A] @ line ''mov edi, eax'' @ line ''mov rax, 60'' @ line ''syscall''
            else []) @
           functions_text) }"

end
