(* ===== verification/Stack_Facts.thy ===== *)
theory Stack_Facts
  imports Stack
begin

text \<open>
  The layout of a stack frame. The locale \<open>slot_allocator\<close> is the contract between the code that asks for
  slots and the map that gives them: a slot once given is kept, every sized request gets one, and
  the invariant of the map is kept. The map of \<open>Stack\<close> is its interpretation, with the invariant that
  slots are aligned, below \<^verbatim>\<open>rbp\<close> and in descending order without overlap.
\<close>

section \<open>Allocators of slots\<close>

locale slot_allocator =
  fixes ok :: "'s \<Rightarrow> bool"
    and slot :: "'s \<Rightarrow> string \<Rightarrow> 'e option"
    and add :: "string \<Rightarrow> 't \<Rightarrow> 's \<Rightarrow> 's"
    and sized :: "'t \<Rightarrow> bool"
    and slot_type :: "'e \<Rightarrow> 't"
  assumes add_ok: "ok s \<Longrightarrow> ok (add x t s)"
    and add_slot: "sized t \<Longrightarrow> slot (add x t s) x \<noteq> None"
    and add_keeps: "slot s x = Some e \<Longrightarrow> slot (add y t s) x = Some e"
    and add_type: "slot s x = None \<Longrightarrow>
      map_option slot_type (slot (add y t s) x) = (if y = x \<and> sized t then Some t else None)"
begin

definition add_all :: "(string \<times> 't) list \<Rightarrow> 's \<Rightarrow> 's" where
  "add_all requests s = fold (\<lambda>(x, t) s. add x t s) requests s"

lemma add_all_simps:
  "add_all [] s = s" "add_all ((x, t) # rs) s = add_all rs (add x t s)" "add_all (rs @ rs') s = add_all rs' (add_all rs s)"
  by (simp_all add: add_all_def)

lemma add_all_ok: "ok s \<Longrightarrow> ok (add_all rs s)"
  by (induction rs arbitrary: s) (auto simp: add_all_simps add_ok)

lemma add_all_keeps: "slot s x = Some e \<Longrightarrow> slot (add_all rs s) x = Some e"
  by (induction rs arbitrary: s) (auto simp: add_all_simps add_keeps)

lemma add_all_slot: "(x, t) \<in> set rs \<Longrightarrow> sized t \<Longrightarrow> slot (add_all rs s) x \<noteq> None"
proof (induction rs arbitrary: s)
  case (Cons r rs)
  obtain y u where r: "r = (y, u)" by fastforce
  show ?case
  proof (cases "(x, t) = r")
    case True
    then obtain e where "slot (add x t s) x = Some e" using add_slot [OF Cons.prems(2)] by blast
    from add_all_keeps [OF this] True show ?thesis by (auto simp: r add_all_simps)
  next
    case False
    then show ?thesis using Cons by (auto simp: r add_all_simps)
  qed
qed simp

text \<open>A slot has the type of the first sized request of its name.\<close>

lemma add_all_type:
  "map_option slot_type (slot (add_all rs s) x) =
     (case slot s x of Some e \<Rightarrow> Some (slot_type e) | None \<Rightarrow> map_of (filter (\<lambda>(y, t). sized t) rs) x)"
proof (induction rs arbitrary: s)
  case (Cons r rs)
  obtain y t where r: "r = (y, t)" by fastforce
  show ?case
  proof (cases "slot s x")
    case None
    then show ?thesis using add_type [OF None, of y t] Cons.IH [of "add y t s"]
      by (cases "slot (add y t s) x") (auto simp: r add_all_simps split: if_splits)
  next
    case (Some e)
    then show ?thesis using add_keeps [OF Some, of y t] Cons.IH [of "add y t s"] by (simp add: r add_all_simps)
  qed
qed (simp add: add_all_simps split: option.split)

end

section \<open>The frame of a function\<close>

abbreviation entry_width :: "sf_stack_entry \<Rightarrow> nat" where
  "entry_width e \<equiv> sf_type_value_width_bytes (ek_type e)"

definition frame_ok :: "sf_stack_map \<times> int \<Rightarrow> bool" where
  "frame_ok s \<longleftrightarrow> (case s of (m, next_offset) \<Rightarrow> next_offset \<le> 0 \<and> distinct (map ek_name m) \<and>
     (\<forall>e \<in> set m. 0 < entry_width e \<and> int (entry_width e) dvd ek_offset e \<and> next_offset \<le> ek_offset e \<and>
        ek_offset e + int (entry_width e) \<le> 0) \<and>
     sorted_wrt (\<lambda>a b. ek_offset b + int (entry_width b) \<le> ek_offset a) m)"

lemma next_aligned:
  assumes "current \<le> 0" "0 < w"
  shows "next_aligned_offset current w + int w \<le> current" "int w dvd next_aligned_offset current w"
proof -
  let ?p = "nat (- current) + w"
  let ?q = "(?p + w - 1) div w * w"
  have "?p \<le> ?q"
    using assms(2) div_mult_mod_eq [of "?p + w - 1" w] mod_less_divisor [of w "?p + w - 1"] by linarith
  moreover have "next_aligned_offset current w = - int ?q" by (simp only: next_aligned_offset_def Let_def)
  ultimately show "next_aligned_offset current w + int w \<le> current" using assms(1) by linarith
  show "int w dvd next_aligned_offset current w"
    by (simp add: next_aligned_offset_def Let_def)
qed

definition add_slot :: "string \<Rightarrow> sf_value_type \<Rightarrow> sf_stack_map \<times> int \<Rightarrow> sf_stack_map \<times> int" where
  "add_slot x t s = add_entry (fst s) x t (snd s)"

definition frame_slot :: "sf_stack_map \<times> int \<Rightarrow> string \<Rightarrow> sf_stack_entry option" where
  "frame_slot s x = sf_stack_lookup_entry (fst s) x"

definition sized_type :: "sf_value_type \<Rightarrow> bool" where
  "sized_type t \<longleftrightarrow> t \<noteq> SF_VAL_TYPE_VOID"

lemma sized_type_width: "sized_type t \<longleftrightarrow> 0 < sf_type_value_width_bytes t"
  by (cases t) (simp_all add: sized_type_def)

lemma lookup_none: "sf_stack_lookup_entry m x = None \<longleftrightarrow> x \<notin> ek_name ` set m"
  by (auto simp: sf_stack_lookup_entry_def find_None_iff)

lemma lookup_push: "sf_stack_lookup_entry (sf_stack_push m e) x =
    (case sf_stack_lookup_entry m x of Some e' \<Rightarrow> Some e' | None \<Rightarrow> if ek_name e = x then Some e else None)"
  by (induction m) (simp_all add: sf_stack_lookup_entry_def sf_stack_push_def)

lemma add_slot_ok: "frame_ok s \<Longrightarrow> frame_ok (add_slot x t s)"
proof -
  assume ok: "frame_ok s"
  obtain m n where s: "s = (m, n)" by fastforce
  let ?w = "sf_type_value_width_bytes t" and ?o = "next_aligned_offset n (sf_type_value_width_bytes t)"
  show "frame_ok (add_slot x t s)"
  proof (cases "?w = 0 \<or> sf_stack_lookup_entry m x \<noteq> None")
    case True
    then show ?thesis using ok by (auto simp: add_slot_def add_entry_def s Let_def)
  next
    case False
    then have w: "0 < ?w" and new: "x \<notin> ek_name ` set m" by (auto simp: lookup_none)
    have n: "n \<le> 0" using ok by (simp add: frame_ok_def s)
    note o = next_aligned [OF n w]
    have "frame_ok (m @ [\<lparr>ek_name = x, ek_offset = ?o, ek_type = t\<rparr>], ?o)"
      using ok o w new n unfolding frame_ok_def s by (fastforce simp: sorted_wrt_append)
    then show ?thesis using False by (simp add: add_slot_def add_entry_def s Let_def sf_stack_push_def)
  qed
qed

interpretation frame: slot_allocator frame_ok frame_slot add_slot sized_type ek_type
proof
  show "frame_ok s \<Longrightarrow> frame_ok (add_slot x t s)" for s x t by (rule add_slot_ok)
  show "sized_type t \<Longrightarrow> frame_slot (add_slot x t s) x \<noteq> None" for t x s
    by (auto simp: frame_slot_def add_slot_def add_entry_def sized_type_width lookup_push Let_def split: option.splits)
  show "frame_slot s x = Some e \<Longrightarrow> frame_slot (add_slot y t s) x = Some e" for s x e y t
    by (auto simp: frame_slot_def add_slot_def add_entry_def lookup_push Let_def)
  show "frame_slot s x = None \<Longrightarrow>
      map_option ek_type (frame_slot (add_slot y t s) x) = (if y = x \<and> sized_type t then Some t else None)" for s x y t
    by (auto simp: frame_slot_def add_slot_def add_entry_def lookup_push Let_def sized_type_width split: option.splits)
qed

text \<open>The slots that a function asks for.\<close>

fun operand_request :: "sf_ir_operand \<Rightarrow> (string \<times> sf_value_type) list" where
  "operand_request (SF_IR_OPERAND_TYPE_VARIABLE t n) = [(n, t)]"
| "operand_request (SF_IR_OPERAND_TYPE_TEMPORARY t k) = [(snprintf_text k_temporary_name_size (''t'' @ dec_digits k), t)]"
| "operand_request _ = []"

definition operation_requests :: "sf_ir_operation \<Rightarrow> (string \<times> sf_value_type) list" where
  "operation_requests op = operand_request (io_operand1 op) @ operand_request (io_operand2 op) @
     (if io_opcode op \<noteq> SF_IR_OPCODE_ASSIGN then operand_request (io_operand3 op) else [])"

definition requests :: "sf_parameter list \<Rightarrow> sf_ir_operation list \<Rightarrow> (string \<times> sf_value_type) list" where
  "requests ps ops = map (\<lambda>p. (pm_name p, pm_type p)) ps @ concat (map operation_requests ops)"

lemma register_request: "sf_stack_register_operand m op n = frame.add_all (operand_request op) (m, n)"
  by (cases op) (simp_all add: sf_stack_register_operand_def frame.add_all_simps add_slot_def)

lemma parameters_request: "populate_parameters ps m n = frame.add_all (map (\<lambda>p. (pm_name p, pm_type p)) ps) (m, n)"
  by (induction ps arbitrary: m n) (auto simp: frame.add_all_simps register_request split: prod.splits)

lemma operations_request: "populate_operations ops m n = frame.add_all (concat (map operation_requests ops)) (m, n)"
proof (induction ops arbitrary: m n)
  case (Cons op ops)
  show ?case
    by (auto simp: frame.add_all_simps operation_requests_def register_request Cons.IH split: prod.splits)
qed (simp add: frame.add_all_simps)

lemma populate_requests: "\<exists>n. (sf_stack_populate [] ps ops, n) = frame.add_all (requests ps ops) ([], 0)"
proof -
  obtain m1 n1 where 1: "populate_parameters ps [] 0 = (m1, n1)" by fastforce
  obtain m2 n2 where 2: "populate_operations ops m1 n1 = (m2, n2)" by fastforce
  have "frame.add_all (requests ps ops) ([], 0) = (m2, n2)"
    using 1 2 by (simp add: requests_def frame.add_all_simps parameters_request operations_request)
  then show ?thesis using 1 2 by (simp add: sf_stack_populate_def)
qed

lemma frame_size_max: "frame_size m = ((foldl (\<lambda>s e. max s (- ek_offset e)) 0 m) + 15) div 16 * 16"
proof -
  have "(\<lambda>s e. if s < - ek_offset e then - ek_offset e else s) = (\<lambda>s e. max s (- ek_offset e))"
    by (auto simp: fun_eq_iff max_def)
  then show ?thesis unfolding frame_size_def Let_def by metis
qed

lemma foldl_max: "a \<le> foldl (\<lambda>s e. max s (f e :: int)) a m" "e \<in> set m \<Longrightarrow> f e \<le> foldl (\<lambda>s e. max s (f e)) a m"
proof (induction m arbitrary: a)
  case (Cons x m)
  { case 1 show ?case using Cons.IH(1) [of "max a (f x)"] by simp }
  { case 2 then show ?case using Cons.IH(1) [of "max a (f x)"] Cons.IH(2) [of "max a (f x)"] by auto }
qed simp_all

lemma frame_size_covers: "e \<in> set m \<Longrightarrow> - ek_offset e \<le> frame_size m" and frame_size_aligned: "16 dvd frame_size m"
  and frame_size_nonneg: "0 \<le> frame_size m"
proof -
  let ?s = "foldl (\<lambda>s e. max s (- ek_offset e)) 0 m"
  have r: "?s \<le> (?s + 15) div 16 * 16" by linarith
  show "e \<in> set m \<Longrightarrow> - ek_offset e \<le> frame_size m"
    using foldl_max(2) [of e m "\<lambda>e. - ek_offset e" 0] r by (simp add: frame_size_max)
  show "16 dvd frame_size m" by (simp add: frame_size_max)
  show "0 \<le> frame_size m" using foldl_max(1) [of 0 "\<lambda>e. - ek_offset e" m] r by (simp add: frame_size_max)
qed

text \<open>The bytes of a slot, as addresses relative to \<^verbatim>\<open>rbp\<close>.\<close>

definition slot_bytes :: "sf_stack_entry \<Rightarrow> int set" where
  "slot_bytes e = {ek_offset e ..< ek_offset e + int (entry_width e)}"

lemma sorted_slots_disjoint:
  "sorted_wrt (\<lambda>a b. ek_offset b + int (entry_width b) \<le> ek_offset a) m \<Longrightarrow> e \<in> set m \<Longrightarrow> e' \<in> set m \<Longrightarrow> e \<noteq> e' \<Longrightarrow>
   slot_bytes e \<inter> slot_bytes e' = {}"
  by (induction m) (auto simp: slot_bytes_def)

text \<open>C5: The frame of a function holds what its code uses. A name has a slot exactly when a parameter or an
  operand of the code with a size has this name, and the slot has the type, and so the size, of the
  first of them; slots are aligned to their size, lie between \<^verbatim>\<open>rbp\<close> and the end of the frame, and no two
  of them share a byte; the size of the frame is a multiple of 16.\<close>

theorem frame_layout:
  "let m = sf_stack_populate [] params operations
   in distinct (map ek_name m) \<and> 16 dvd frame_size m \<and>
      (\<forall>(x, t) \<in> set (requests params operations). t \<noteq> SF_VAL_TYPE_VOID \<longrightarrow> sf_stack_lookup_entry m x \<noteq> None) \<and>
      (\<forall>x. map_option ek_type (sf_stack_lookup_entry m x) =
         map_of (filter (\<lambda>(y, t). t \<noteq> SF_VAL_TYPE_VOID) (requests params operations)) x) \<and>
      (\<forall>e \<in> set m. int (entry_width e) dvd ek_offset e \<and> slot_bytes e \<noteq> {} \<and> slot_bytes e \<subseteq> {- frame_size m ..< 0}) \<and>
      (\<forall>e \<in> set m. \<forall>e' \<in> set m. e \<noteq> e' \<longrightarrow> slot_bytes e \<inter> slot_bytes e' = {})"
proof -
  let ?m = "sf_stack_populate [] params operations"
  obtain n where run: "(?m, n) = frame.add_all (requests params operations) ([], 0)" using populate_requests by blast
  have "frame_ok ([], 0)" by (simp add: frame_ok_def)
  then have ok: "frame_ok (?m, n)" unfolding run by (rule frame.add_all_ok)
  have slots: "sf_stack_lookup_entry ?m x \<noteq> None" if "(x, t) \<in> set (requests params operations)" "t \<noteq> SF_VAL_TYPE_VOID" for x t
    using frame.add_all_slot [OF that(1), of "([], 0)"] that(2) run [symmetric] by (simp add: sized_type_def frame_slot_def)
  have types: "map_option ek_type (sf_stack_lookup_entry ?m x) =
      map_of (filter (\<lambda>(y, t). t \<noteq> SF_VAL_TYPE_VOID) (requests params operations)) x" for x
    using frame.add_all_type [of "requests params operations" "([], 0)" x] run [symmetric]
    unfolding sized_type_def by (simp add: frame_slot_def sf_stack_lookup_entry_def)
  have bytes: "int (entry_width e) dvd ek_offset e" "slot_bytes e \<noteq> {}" "slot_bytes e \<subseteq> {- frame_size ?m ..< 0}" if "e \<in> set ?m" for e
    using ok that frame_size_covers [OF that] by (auto simp: frame_ok_def slot_bytes_def)
  have "sorted_wrt (\<lambda>a b. ek_offset b + int (entry_width b) \<le> ek_offset a) ?m" using ok by (simp add: frame_ok_def)
  note disjoint = sorted_slots_disjoint [OF this]
  have "distinct (map ek_name ?m)" using ok by (simp add: frame_ok_def)
  then show ?thesis
    unfolding Let_def using slots types bytes disjoint frame_size_aligned by blast
qed

lemma frame_layout_witness:
  "map_option ek_type (sf_stack_lookup_entry (sf_stack_populate [] []
     [\<lparr>io_opcode = SF_IR_OPCODE_RETURN, io_operand1 = SF_IR_OPERAND_TYPE_VARIABLE SF_VAL_TYPE_I32 ''x@0'',
       io_operand2 = k_no_operand, io_operand3 = k_no_operand\<rparr>]) ''x@0'') = Some SF_VAL_TYPE_I32"
  using frame_layout [of "[]" "[\<lparr>io_opcode = SF_IR_OPCODE_RETURN, io_operand1 = SF_IR_OPERAND_TYPE_VARIABLE SF_VAL_TYPE_I32 ''x@0'',
       io_operand2 = k_no_operand, io_operand3 = k_no_operand\<rparr>]"]
  by (simp add: Let_def requests_def operation_requests_def)

end
