(* ===== verification/Codegen_Facts.thy ===== *)
theory Codegen_Facts
  imports Codegen Stack_Facts
begin

text \<open>
  The code generator never aborts on code whose operands have a size. A slot is found for every
  operand, since the frame is populated from the same operands that are formatted later; and the
  names of the temporaries agree while their numbers have at most fourteen digits.
\<close>

section \<open>Operands that have a slot\<close>

definition short_temp :: "nat \<Rightarrow> bool" where
  "short_temp k \<longleftrightarrow> length (dec_digits k) \<le> 14"

fun sized_operand :: "sf_ir_operand \<Rightarrow> bool" where
  "sized_operand (SF_IR_OPERAND_TYPE_VARIABLE t n) \<longleftrightarrow> t \<noteq> SF_VAL_TYPE_VOID"
| "sized_operand (SF_IR_OPERAND_TYPE_TEMPORARY t k) \<longleftrightarrow> t \<noteq> SF_VAL_TYPE_VOID \<and> short_temp k"
| "sized_operand _ \<longleftrightarrow> True"

definition sized_operation :: "sf_ir_operation \<Rightarrow> bool" where
  "sized_operation op \<longleftrightarrow> sized_operand (io_operand1 op) \<and> sized_operand (io_operand2 op) \<and> sized_operand (io_operand3 op)"

definition sized_function :: "sf_ir_function \<Rightarrow> bool" where
  "sized_function f \<longleftrightarrow> (\<forall>p \<in> set (fn_parameters f). pm_type p \<noteq> SF_VAL_TYPE_VOID) \<and> (\<forall>op \<in> set (fn_operations f). sized_operation op)"

text \<open>A frame that has a slot with a negative offset for an operand.\<close>

definition formats :: "sf_stack_map \<Rightarrow> sf_ir_operand \<Rightarrow> bool" where
  "formats m op \<longleftrightarrow> format_operand m op \<noteq> None"

definition has_offset :: "sf_stack_map \<Rightarrow> string \<Rightarrow> bool" where
  "has_offset m x \<longleftrightarrow> stack_offset m x \<noteq> None"

lemma temp_name: "short_temp k \<Longrightarrow> snprintf_text 32 (CHR ''t'' # dec_digits k) = CHR ''t'' # dec_digits k \<and>
    snprintf_text k_temporary_name_size (CHR ''t'' # dec_digits k) = CHR ''t'' # dec_digits k"
  by (simp add: short_temp_def snprintf_text_def k_temporary_name_size_def)

lemma formats_simps [simp]:
  "formats m (SF_IR_OPERAND_TYPE_IMMEDIATE t v)" "formats m (SF_IR_OPERAND_TYPE_LABEL k)"
  "formats m (SF_IR_OPERAND_TYPE_FUNCTION t n)" "formats m SF_IR_OPERAND_TYPE_NONE"
  "formats m (SF_IR_OPERAND_TYPE_VARIABLE t x) \<longleftrightarrow> has_offset m x"
  "short_temp k \<Longrightarrow> formats m (SF_IR_OPERAND_TYPE_TEMPORARY t k) \<longleftrightarrow> has_offset m (''t'' @ dec_digits k)"
  by (auto simp: formats_def format_operand_def has_offset_def temp_name bind_eq_Some_conv)

lemma populated_offset:
  assumes "(x, t) \<in> set (requests ps ops)" "t \<noteq> SF_VAL_TYPE_VOID"
  shows "has_offset (sf_stack_populate [] ps ops) x"
proof -
  let ?m = "sf_stack_populate [] ps ops"
  obtain n where run: "(?m, n) = frame.add_all (requests ps ops) ([], 0)" using populate_requests by blast
  have "frame_ok ([], 0)" by (simp add: frame_ok_def)
  then have ok: "frame_ok (?m, n)" unfolding run by (rule frame.add_all_ok)
  obtain e where e: "sf_stack_lookup_entry ?m x = Some e"
    using frame.add_all_slot [OF assms(1), of "([], 0)"] assms(2) run [symmetric] by (auto simp: sized_type_def frame_slot_def)
  then have "e \<in> set ?m" by (auto simp: sf_stack_lookup_entry_def find_Some_iff)
  then have "ek_offset e < 0" using ok unfolding frame_ok_def by fastforce
  then show ?thesis by (simp add: has_offset_def stack_offset_def sf_stack_lookup_def e Let_def)
qed

lemma request_formats:
  "set (operand_request op) \<subseteq> set (requests ps ops) \<Longrightarrow> sized_operand op \<Longrightarrow> formats (sf_stack_populate [] ps ops) op"
  by (cases op) (auto simp: temp_name dest: populated_offset)

text \<open>The frame of a sized function serves each of its operations.\<close>

definition serves :: "sf_stack_map \<Rightarrow> sf_ir_operation \<Rightarrow> bool" where
  "serves m op \<longleftrightarrow> formats m (io_operand1 op) \<and> formats m (io_operand2 op) \<and>
     (io_opcode op \<noteq> SF_IR_OPCODE_ASSIGN \<longrightarrow> formats m (io_operand3 op))"

lemma populated_serves:
  assumes "sized_function f" "op \<in> set (fn_operations f)"
  shows "serves (sf_stack_populate [] (fn_parameters f) (fn_operations f)) op"
proof -
  have sized: "sized_operation op" using assms by (simp add: sized_function_def)
  have "set (operation_requests op) \<subseteq> set (requests (fn_parameters f) (fn_operations f))"
    using assms(2) by (auto simp: requests_def)
  then show ?thesis
    using sized by (auto simp: serves_def sized_operation_def operation_requests_def intro!: request_formats)
qed

lemma populated_parameter:
  assumes "sized_function f" "p \<in> set (fn_parameters f)"
  shows "has_offset (sf_stack_populate [] (fn_parameters f) (fn_operations f)) (pm_name p)"
  by (rule populated_offset [where t = "pm_type p"]) (use assms in \<open>auto simp: requests_def sized_function_def\<close>)

section \<open>Emission succeeds\<close>

lemma formats_some: "formats m op \<Longrightarrow> \<exists>text. format_operand m op = Some text"
  by (simp add: formats_def)

lemma serves_three:
  assumes "serves m op" "io_opcode op \<noteq> SF_IR_OPCODE_ASSIGN"
  obtains a b c where "format_operand m (io_operand1 op) = Some a" "format_operand m (io_operand2 op) = Some b"
    "format_operand m (io_operand3 op) = Some c"
  using assms by (auto simp: serves_def formats_def)

lemma emit_arithmetic_some:
  assumes "serves m op" "io_opcode op \<noteq> SF_IR_OPCODE_ASSIGN"
  shows "emit_binary mn m op \<noteq> None" "emit_mult m op \<noteq> None" "emit_div m op \<noteq> None" "emit_neg m op \<noteq> None"
    "emit_not m op \<noteq> None" "emit_shift mn m op \<noteq> None" "emit_cast m op \<noteq> None" "emit_jmp_cond m op \<noteq> None"
    "emit_return m op \<noteq> None"
proof -
  obtain a b c where f: "format_operand m (io_operand1 op) = Some a" "format_operand m (io_operand2 op) = Some b"
    "format_operand m (io_operand3 op) = Some c" by (rule serves_three [OF assms])
  note defs = emit_binary_def emit_mult_def emit_div_def emit_neg_def emit_not_def emit_shift_def emit_cast_def
    emit_jmp_cond_def emit_return_def
  show "emit_binary mn m op \<noteq> None" "emit_mult m op \<noteq> None" "emit_div m op \<noteq> None" "emit_neg m op \<noteq> None"
    "emit_not m op \<noteq> None" "emit_shift mn m op \<noteq> None" "emit_cast m op \<noteq> None" "emit_jmp_cond m op \<noteq> None"
    "emit_return m op \<noteq> None"
    by (simp_all add: defs f Let_def split: prod.split)
qed

lemma emit_assign_some: "serves m op \<Longrightarrow> emit_assign m op \<noteq> None"
  by (auto simp: serves_def formats_def emit_assign_def split: if_splits)

lemma emit_relational_some:
  assumes "serves m op" "sf_op \<in> {SF_IR_OPCODE_RELATIONAL_EQUAL, SF_IR_OPCODE_RELATIONAL_NOT_EQUAL, SF_IR_OPCODE_RELATIONAL_LESS,
      SF_IR_OPCODE_RELATIONAL_LESS_EQUAL, SF_IR_OPCODE_RELATIONAL_GREATER, SF_IR_OPCODE_RELATIONAL_GREATER_EQUAL}"
    "io_opcode op = sf_op"
  shows "emit_relational m op \<noteq> None"
proof -
  have "io_opcode op \<noteq> SF_IR_OPCODE_ASSIGN" using assms(2,3) by auto
  then obtain a b c where f: "format_operand m (io_operand1 op) = Some a" "format_operand m (io_operand2 op) = Some b"
    "format_operand m (io_operand3 op) = Some c" by (rule serves_three [OF assms(1)])
  have "set_instruction (io_opcode op) s \<noteq> None" for s using assms(2,3) by auto
  then show ?thesis by (auto simp: emit_relational_def f Let_def bind_eq_Some_conv split: prod.splits)
qed

lemma emit_stack_args_some: "\<forall>p \<in> set ps. formats m p \<Longrightarrow> emit_stack_args m ps \<noteq> None"
  by (induction ps) (auto simp: emit_stack_arg_def formats_def Let_def)

lemma argument_register: "i < 6 \<Longrightarrow> param_register i (if operand_width p \<le> 2 then 4 else operand_width p) \<noteq> None"
  using width_bytes_cases [of "op_value_type p"] by (auto simp: param_register_def Let_def)

lemma emit_register_args_some: "\<forall>p \<in> set ps. formats m p \<Longrightarrow> i + length ps \<le> 6 \<Longrightarrow> emit_register_args m i ps \<noteq> None"
proof (induction ps arbitrary: i)
  case (Cons p ps)
  obtain reg where "param_register i (if operand_width p \<le> 2 then 4 else operand_width p) = Some reg"
    using argument_register [of i p] Cons.prems(2) by auto
  moreover obtain out where "format_operand m p = Some out" using Cons.prems(1) by (auto simp: formats_def)
  moreover have "emit_register_args m (i + 1) ps \<noteq> None" using Cons by simp
  ultimately show ?case by (auto simp: emit_register_arg_def Let_def)
qed simp

lemma emit_call_some:
  assumes "serves m op" "io_opcode op \<noteq> SF_IR_OPCODE_ASSIGN" "\<forall>p \<in> set params. formats m p"
  shows "emit_call m params op \<noteq> None"
proof -
  obtain a where f: "format_operand m (io_operand1 op) = Some a" using assms(1) by (auto simp: serves_def formats_def)
  have "set (rev (drop 6 params)) \<subseteq> set params" "set (take 6 params) \<subseteq> set params"
    using set_drop_subset [of 6 params] set_take_subset [of 6 params] by simp_all
  then have "\<forall>p \<in> set (rev (drop 6 params)). formats m p" "\<forall>p \<in> set (take 6 params). formats m p" using assms(3) by blast+
  then have "emit_stack_args m (rev (drop 6 params)) \<noteq> None" "emit_register_args m 0 (take 6 params) \<noteq> None"
    using emit_stack_args_some emit_register_args_some [of "take 6 params" m 0] by simp_all
  then show ?thesis by (auto simp: emit_call_def Let_def f)
qed

lemma emit_operation_some:
  assumes "serves m op" "\<forall>p \<in> set params. formats m p"
  obtains out params' where "emit_operation m params op = Some (out, params')" "\<forall>p \<in> set params'. formats m p"
proof -
  note some = emit_arithmetic_some [OF assms(1)] emit_assign_some [OF assms(1)] emit_relational_some [OF assms(1) _ refl]
    emit_call_some [OF assms(1) _ assms(2)]
  have "\<exists>out params'. emit_operation m params op = Some (out, params') \<and> (\<forall>p \<in> set params'. formats m p)"
  proof (cases "io_opcode op")
    case SF_IR_OPCODE_PARAM
    then show ?thesis using assms by (auto simp: emit_operation_def serves_def)
  qed (use some assms(2) in \<open>auto simp: emit_operation_def emit_rshift_def emit_lshift_def\<close>)
  then show thesis using that by blast
qed

lemma emit_operations_some:
  "\<forall>op \<in> set ops. serves m op \<Longrightarrow> \<forall>p \<in> set params. formats m p \<Longrightarrow> emit_operations m params ops \<noteq> None"
proof (induction ops arbitrary: params)
  case (Cons op ops)
  have "serves m op" using Cons.prems(1) by simp
  from emit_operation_some [OF this Cons.prems(2)] obtain out params' where
    "emit_operation m params op = Some (out, params')" "\<forall>p \<in> set params'. formats m p" .
  moreover have "emit_operations m params' ops \<noteq> None" using Cons.IH [of params'] Cons.prems(1) calculation(2) by simp
  ultimately show ?case by auto
qed simp

lemma emit_parameters_some:
  "\<forall>p \<in> set ps. has_offset m (pm_name p) \<and> pm_type p \<noteq> SF_VAL_TYPE_VOID \<Longrightarrow> emit_parameters m i ps \<noteq> None"
proof (induction ps arbitrary: i)
  case (Cons p ps)
  have "0 < sf_type_value_width_bytes (pm_type p)" using Cons.prems sized_type_width [of "pm_type p"] by (simp add: sized_type_def)
  then have "i < 6 \<Longrightarrow> param_register i (sf_type_value_width_bytes (pm_type p)) \<noteq> None"
    using width_bytes_cases [of "pm_type p"] by (auto simp: param_register_def Let_def)
  moreover have "emit_parameters m (i + 1) ps \<noteq> None" using Cons by simp
  ultimately show ?case using Cons.prems by (auto simp: emit_parameter_def has_offset_def Let_def)
qed simp

lemma emit_function_some: "sized_function f \<Longrightarrow> emit_function f \<noteq> None"
proof -
  assume f: "sized_function f"
  let ?m = "sf_stack_populate [] (fn_parameters f) (fn_operations f)"
  have "emit_parameters ?m 0 (fn_parameters f) \<noteq> None"
    using populated_parameter [OF f] f by (intro emit_parameters_some) (simp add: sized_function_def)
  moreover have "emit_operations ?m [] (fn_operations f) \<noteq> None"
    using populated_serves [OF f] by (intro emit_operations_some) simp_all
  ultimately show ?thesis by (auto simp: emit_function_def Let_def)
qed

lemma sf_generate_assembly_some:
  assumes "\<forall>f \<in> set (ip_functions ir). sized_function f"
  shows "sf_generate_assembly ir is_root \<noteq> None"
proof -
  have "emit_functions fs \<noteq> None" if "\<forall>f \<in> set fs. sized_function f" for fs
    using that by (induction fs) (auto dest: emit_function_some)
  then obtain out where "emit_functions (ip_functions ir) = Some out" using assms by blast
  then show ?thesis by (simp add: sf_generate_assembly_def)
qed

end
