(* ===== verification/Asm.thy ===== *)
theory Asm
  imports Codegen_Facts
begin

text \<open>
  The instructions of the x86-64 processor that \<^verbatim>\<open>codegen.c\<close> writes for the operations of a function, with
  their text and what they do: the reference for the meaning of the generated assembly. Registers and
  memory hold integers of which the low bits count; memory is a function from addresses relative to
  \<^verbatim>\<open>rbp\<close> to bytes, least significant first. An instruction that the assembler rejects, with operands
  of different sizes or two in memory, and a division that faults have no next state.
\<close>

section \<open>Bytes\<close>

fun load :: "nat \<Rightarrow> int \<Rightarrow> (int \<Rightarrow> int) \<Rightarrow> int" where
  "load 0 a m = 0"
| "load (Suc n) a m = take_bit 8 (m a) + push_bit 8 (load n (a + 1) m)"

fun store :: "nat \<Rightarrow> int \<Rightarrow> int \<Rightarrow> (int \<Rightarrow> int) \<Rightarrow> int \<Rightarrow> int" where
  "store 0 a v m = m"
| "store (Suc n) a v m = store n (a + 1) (drop_bit 8 v) (m(a := take_bit 8 v))"

lemma store_outside: "b < a \<or> a + int n \<le> b \<Longrightarrow> store n a v m b = m b"
  by (induction n arbitrary: a v m) auto

lemma load_cong: "(\<And>b. a \<le> b \<Longrightarrow> b < a + int n \<Longrightarrow> m b = m' b) \<Longrightarrow> load n a m = load n a m'"
  by (induction n arbitrary: a) auto

lemma take_bit_split: "take_bit (8 + k) (v :: int) = take_bit 8 v + push_bit 8 (take_bit k (drop_bit 8 v))"
proof -
  have "take_bit (8 + k) v = concat_bit 8 v (take_bit k (drop_bit 8 v))"
    by (rule bit_eqI) (auto simp: bit_simps le_add_diff_inverse)
  then show ?thesis by (simp add: concat_bit_eq)
qed

lemma load_store: "load n a (store n a v m) = take_bit (8 * n) v"
proof (induction n arbitrary: a v m)
  case (Suc n)
  have "store n (a + 1) (drop_bit 8 v) (m(a := take_bit 8 v)) a = take_bit 8 v"
    by (simp add: store_outside)
  then show ?case using Suc take_bit_split [of "8 * n" v] by (simp add: algebra_simps)
qed simp

lemma load_store_disjoint:
  assumes "{a ..< a + int n} \<inter> {b ..< b + int k} = {}"
  shows "load n a (store k b v m) = load n a m"
proof (rule load_cong)
  fix c
  assume "a \<le> c" "c < a + int n"
  then have "c \<notin> {b ..< b + int k}" using assms by auto
  then show "store k b v m c = m c" by (intro store_outside) auto
qed

lemma load_bits: "take_bit (8 * n) (load n a m) = load n a m"
proof -
  have "load n a m = take_bit (8 * n) (load n a m)"
  proof (induction n arbitrary: a)
    case (Suc n)
    have "take_bit (8 + 8 * n) (take_bit 8 (m a) + push_bit 8 (load n (a + 1) m)) =
        take_bit 8 (m a) + push_bit 8 (take_bit (8 * n) (load n (a + 1) m))"
      unfolding take_bit_split
      by (simp add: drop_bit_eq_div push_bit_eq_mult take_bit_eq_mod)
    then show ?case using Suc [of "a + 1"] by (simp add: algebra_simps)
  qed simp
  then show ?thesis by simp
qed

section \<open>Instructions\<close>

datatype register = RAX | RCX | RDX | RDI | RSI | R8 | R9

datatype location = Reg register nat | Mem nat int | Imm int

datatype alu_operation = Alu_add | Alu_sub | Alu_and | Alu_or | Alu_xor

datatype shift_operation = Shift_left | Shift_right | Shift_arithmetic

datatype condition = Equal | Not_equal | Less | Less_equal | Greater | Greater_equal | Below | Below_equal | Above | Above_equal

datatype instruction =
    I_mov location location
  | I_extend bool location location
  | I_alu alu_operation location location
  | I_imul location location
  | I_mul bool location
  | I_neg location
  | I_not location
  | I_shift shift_operation location location
  | I_cmp location location
  | I_set condition
  | I_sign nat
  | I_clear_ah
  | I_div bool location

fun register_text :: "register \<Rightarrow> nat \<Rightarrow> string" where
  "register_text RAX w = accumulator w"
| "register_text RCX w = counter_register w"
| "register_text RDX w = (if w \<le> 1 then ''dl'' else if w \<le> 2 then ''dx'' else if w \<le> 4 then ''edx'' else ''rdx'')"
| "register_text RDI w = (if w \<le> 1 then ''dil'' else if w \<le> 2 then ''di'' else if w \<le> 4 then ''edi'' else ''rdi'')"
| "register_text RSI w = (if w \<le> 1 then ''sil'' else if w \<le> 2 then ''si'' else if w \<le> 4 then ''esi'' else ''rsi'')"
| "register_text R8 w = (if w \<le> 1 then ''r8b'' else if w \<le> 2 then ''r8w'' else if w \<le> 4 then ''r8d'' else ''r8'')"
| "register_text R9 w = (if w \<le> 1 then ''r9b'' else if w \<le> 2 then ''r9w'' else if w \<le> 4 then ''r9d'' else ''r9'')"

fun location_text :: "location \<Rightarrow> string" where
  "location_text (Reg r w) = register_text r w"
| "location_text (Mem w offset) = prefix_to_string (prefix_from_size w) @ '' [rbp'' @ signed_text offset @ '']''"
| "location_text (Imm n) = int_text n"

fun alu_text :: "alu_operation \<Rightarrow> string" where
  "alu_text Alu_add = ''add''"
| "alu_text Alu_sub = ''sub''"
| "alu_text Alu_and = ''and''"
| "alu_text Alu_or = ''or''"
| "alu_text Alu_xor = ''xor''"

fun shift_text :: "shift_operation \<Rightarrow> string" where
  "shift_text Shift_left = ''shl''"
| "shift_text Shift_right = ''shr''"
| "shift_text Shift_arithmetic = ''sar''"

fun condition_text :: "condition \<Rightarrow> string" where
  "condition_text Equal = ''sete''"
| "condition_text Not_equal = ''setne''"
| "condition_text Less = ''setl''"
| "condition_text Less_equal = ''setle''"
| "condition_text Greater = ''setg''"
| "condition_text Greater_equal = ''setge''"
| "condition_text Below = ''setb''"
| "condition_text Below_equal = ''setbe''"
| "condition_text Above = ''seta''"
| "condition_text Above_equal = ''setae''"

fun location_width :: "location \<Rightarrow> nat" where
  "location_width (Reg r w) = w"
| "location_width (Mem w offset) = w"
| "location_width (Imm n) = 0"

definition extend_text :: "bool \<Rightarrow> nat \<Rightarrow> string" where
  "extend_text is_signed w = (if is_signed then (if w = 4 then ''movsxd'' else ''movsx'') else ''movzx'')"

definition sign_text :: "nat \<Rightarrow> string" where
  "sign_text w = (if w = 8 then ''cqo'' else if w = 4 then ''cdq'' else if w = 2 then ''cwd'' else ''cbw'')"

definition two_text :: "string \<Rightarrow> string \<Rightarrow> string \<Rightarrow> string" where
  "two_text mnemonic a b = mnemonic @ '' '' @ a @ '', '' @ b"

definition one_text :: "string \<Rightarrow> string \<Rightarrow> string" where
  "one_text mnemonic a = mnemonic @ '' '' @ a"

fun instruction_text :: "instruction \<Rightarrow> string" where
  "instruction_text (I_mov dst src) = two_text ''mov'' (location_text dst) (location_text src)"
| "instruction_text (I_extend is_signed dst src) =
     two_text (extend_text is_signed (location_width src)) (location_text dst) (location_text src)"
| "instruction_text (I_alu f dst src) = two_text (alu_text f) (location_text dst) (location_text src)"
| "instruction_text (I_imul dst src) = two_text ''imul'' (location_text dst) (location_text src)"
| "instruction_text (I_mul is_signed src) = one_text (if is_signed then ''imul'' else ''mul'') (location_text src)"
| "instruction_text (I_neg dst) = one_text ''neg'' (location_text dst)"
| "instruction_text (I_not dst) = one_text ''not'' (location_text dst)"
| "instruction_text (I_shift f dst count) = two_text (shift_text f) (location_text dst) (location_text count)"
| "instruction_text (I_cmp a b) = two_text ''cmp'' (location_text a) (location_text b)"
| "instruction_text (I_set c) = one_text (condition_text c) ''al''"
| "instruction_text (I_sign w) = sign_text w"
| "instruction_text I_clear_ah = two_text ''mov'' ''ah'' ''0''"
| "instruction_text (I_div is_signed src) = one_text (if is_signed then ''idiv'' else ''div'') (location_text src)"

definition code_text :: "instruction list \<Rightarrow> string" where
  "code_text code = concat (map (\<lambda>i. line (instruction_text i)) code)"

lemma code_text_simps [simp]:
  "code_text [] = []" "code_text (i # is) = line (instruction_text i) @ code_text is"
  "code_text (xs @ ys) = code_text xs @ code_text ys"
  by (simp_all add: code_text_def)

section \<open>What the instructions do\<close>

text \<open>The flags are kept as the operands of the last comparison; other arithmetic forgets them.\<close>

record asm_state =
  as_regs :: "register \<Rightarrow> int"
  as_mem :: "int \<Rightarrow> int"
  as_flags :: "(nat \<times> int \<times> int) option"

abbreviation bits :: "nat \<Rightarrow> nat" where
  "bits w \<equiv> 8 * w"

fun read_loc :: "location \<Rightarrow> asm_state \<Rightarrow> int" where
  "read_loc (Reg r w) s = take_bit (bits w) (as_regs s r)"
| "read_loc (Mem w a) s = load w a (as_mem s)"
| "read_loc (Imm n) s = n"

text \<open>Writing 32 bits of a register clears the upper half, writing less keeps the rest.\<close>

fun write_loc :: "location \<Rightarrow> int \<Rightarrow> asm_state \<Rightarrow> asm_state" where
  "write_loc (Reg r w) v s =
     s\<lparr>as_regs := (as_regs s)(r := (if 4 \<le> w then take_bit (bits w) v
                                    else concat_bit (bits w) v (drop_bit (bits w) (as_regs s r))))\<rparr>"
| "write_loc (Mem w a) v s = s\<lparr>as_mem := store w a v (as_mem s)\<rparr>"
| "write_loc (Imm n) v s = s"

text \<open>An immediate operand of a 64-bit instruction is the sign extension of 32 bits.\<close>

fun source :: "nat \<Rightarrow> location \<Rightarrow> asm_state \<Rightarrow> int" where
  "source w (Imm n) s = (if w = 8 then signed_take_bit 31 n else n)"
| "source w l s = read_loc l s"

fun is_imm :: "location \<Rightarrow> bool" where
  "is_imm (Imm n) \<longleftrightarrow> True"
| "is_imm _ \<longleftrightarrow> False"

fun is_mem :: "location \<Rightarrow> bool" where
  "is_mem (Mem w a) \<longleftrightarrow> True"
| "is_mem _ \<longleftrightarrow> False"

definition two_ok :: "location \<Rightarrow> location \<Rightarrow> bool" where
  "two_ok dst src \<longleftrightarrow> \<not> is_imm dst \<and> \<not> (is_mem dst \<and> is_mem src) \<and>
     (is_imm src \<or> location_width src = location_width dst)"

definition forget_flags :: "asm_state \<Rightarrow> asm_state" where
  "forget_flags s = s\<lparr>as_flags := None\<rparr>"

fun alu :: "alu_operation \<Rightarrow> int \<Rightarrow> int \<Rightarrow> int" where
  "alu Alu_add a b = a + b"
| "alu Alu_sub a b = a - b"
| "alu Alu_and a b = a AND b"
| "alu Alu_or a b = a OR b"
| "alu Alu_xor a b = a XOR b"

abbreviation signed_bits :: "nat \<Rightarrow> int \<Rightarrow> int" where
  "signed_bits w v \<equiv> signed_take_bit (bits w - 1) v"

fun shift :: "shift_operation \<Rightarrow> nat \<Rightarrow> nat \<Rightarrow> int \<Rightarrow> int" where
  "shift Shift_left w c a = push_bit c a"
| "shift Shift_right w c a = drop_bit c a"
| "shift Shift_arithmetic w c a = drop_bit c (signed_bits w a)"

text \<open>The processor uses the low five bits of a count, six when it shifts 64 bits.\<close>

definition shift_count :: "nat \<Rightarrow> int \<Rightarrow> nat" where
  "shift_count w c = nat (c mod (if w = 8 then 64 else 32))"

fun holds :: "condition \<Rightarrow> nat \<Rightarrow> int \<Rightarrow> int \<Rightarrow> bool" where
  "holds Equal w a b \<longleftrightarrow> a = b"
| "holds Not_equal w a b \<longleftrightarrow> a \<noteq> b"
| "holds Less w a b \<longleftrightarrow> signed_bits w a < signed_bits w b"
| "holds Less_equal w a b \<longleftrightarrow> signed_bits w a \<le> signed_bits w b"
| "holds Greater w a b \<longleftrightarrow> signed_bits w b < signed_bits w a"
| "holds Greater_equal w a b \<longleftrightarrow> signed_bits w b \<le> signed_bits w a"
| "holds Below w a b \<longleftrightarrow> a < b"
| "holds Below_equal w a b \<longleftrightarrow> a \<le> b"
| "holds Above w a b \<longleftrightarrow> b < a"
| "holds Above_equal w a b \<longleftrightarrow> b \<le> a"

text \<open>Division rounds towards zero.\<close>

definition quotient :: "int \<Rightarrow> int \<Rightarrow> int" where
  "quotient a b = sgn a * sgn b * (\<bar>a\<bar> div \<bar>b\<bar>)"

definition dividend :: "bool \<Rightarrow> nat \<Rightarrow> asm_state \<Rightarrow> int" where
  "dividend is_signed w s =
     (let v = (if w = 1 then read_loc (Reg RAX 2) s
               else concat_bit (bits w) (read_loc (Reg RAX w) s) (read_loc (Reg RDX w) s))
      in if is_signed then signed_bits (2 * w) v else v)"

definition fits_width :: "bool \<Rightarrow> nat \<Rightarrow> int \<Rightarrow> bool" where
  "fits_width is_signed w v \<longleftrightarrow> (if is_signed then signed_bits w v = v else take_bit (bits w) v = v)"

fun exec_instruction :: "instruction \<Rightarrow> asm_state \<Rightarrow> asm_state option" where
  "exec_instruction (I_mov dst src) s =
     (if two_ok dst src
      then Some (write_loc dst (if is_mem dst then source (location_width dst) src s else read_loc src s) s) else None)"
| "exec_instruction (I_extend is_signed dst src) s =
     (if \<not> is_imm dst \<and> \<not> is_mem dst \<and> \<not> is_imm src \<and> location_width src < location_width dst \<and>
         (location_width src = 4 \<longrightarrow> is_signed)
      then Some (write_loc dst (if is_signed then signed_bits (location_width src) (read_loc src s) else read_loc src s) s)
      else None)"
| "exec_instruction (I_alu f dst src) s =
     (if two_ok dst src
      then Some (forget_flags (write_loc dst (alu f (read_loc dst s) (source (location_width dst) src s)) s)) else None)"
| "exec_instruction (I_imul dst src) s =
     (if two_ok dst src \<and> \<not> is_mem dst \<and> 1 < location_width dst
      then Some (forget_flags (write_loc dst (read_loc dst s * source (location_width dst) src s) s)) else None)"
| "exec_instruction (I_mul is_signed src) s =
     (if location_width src = 1
      then (let a = read_loc (Reg RAX 1) s; b = read_loc src s
            in Some (forget_flags (write_loc (Reg RAX 2)
                 (if is_signed then signed_bits 1 a * signed_bits 1 b else a * b) s)))
      else None)"
| "exec_instruction (I_neg dst) s =
     (if is_imm dst then None else Some (forget_flags (write_loc dst (- read_loc dst s) s)))"
| "exec_instruction (I_not dst) s = (if is_imm dst then None else Some (write_loc dst (NOT (read_loc dst s)) s))"
| "exec_instruction (I_shift f dst count) s =
     (if \<not> is_imm dst \<and> (is_imm count \<or> count = Reg RCX 1)
      then Some (forget_flags (write_loc dst
             (shift f (location_width dst) (shift_count (location_width dst) (read_loc count s)) (read_loc dst s)) s))
      else None)"
| "exec_instruction (I_cmp a b) s =
     (if two_ok a b
      then Some (s\<lparr>as_flags := Some (location_width a, read_loc a s,
             take_bit (bits (location_width a)) (source (location_width a) b s))\<rparr>) else None)"
| "exec_instruction (I_set c) s =
     (case as_flags s of
        None \<Rightarrow> None
      | Some (w, a, b) \<Rightarrow> Some (write_loc (Reg RAX 1) (of_bool (holds c w a b)) s))"
| "exec_instruction (I_sign w) s =
     Some (if w = 1 then write_loc (Reg RAX 2) (signed_bits 1 (read_loc (Reg RAX 1) s)) s
           else write_loc (Reg RDX w) (if signed_bits w (read_loc (Reg RAX w) s) < 0 then - 1 else 0) s)"
| "exec_instruction I_clear_ah s = Some (write_loc (Reg RAX 2) (read_loc (Reg RAX 1) s) s)"
| "exec_instruction (I_div is_signed src) s =
     (if is_imm src then None
      else (let w = location_width src; a = dividend is_signed w s;
                b = (if is_signed then signed_bits w (read_loc src s) else read_loc src s); q = quotient a b
            in if b = 0 \<or> \<not> fits_width is_signed w q then None
               else Some (forget_flags
                 (if w = 1 then write_loc (Reg RAX 2) (concat_bit 8 q (take_bit 8 (a - q * b))) s
                  else write_loc (Reg RDX w) (a - q * b) (write_loc (Reg RAX w) q s)))))"

fun exec_instructions :: "instruction list \<Rightarrow> asm_state \<Rightarrow> asm_state option" where
  "exec_instructions [] s = Some s"
| "exec_instructions (i # is) s = Option.bind (exec_instruction i s) (exec_instructions is)"

lemma exec_instructions_append [simp]:
  "exec_instructions (xs @ ys) s = Option.bind (exec_instructions xs s) (exec_instructions ys)"
proof (induction xs arbitrary: s)
  case (Cons i xs)
  show ?case by (cases "exec_instruction i s") (simp_all add: Cons)
qed simp

text \<open>Reading after writing. A write to a register leaves memory as it is, and the other registers.\<close>

lemma read_write_reg [simp]: "read_loc (Reg r w) (write_loc (Reg r w) v s) = take_bit (bits w) v"
  by (auto simp: take_bit_concat_bit_eq)

lemma read_write_low [simp]: "w \<le> w' \<Longrightarrow> read_loc (Reg r w) (write_loc (Reg r w') v s) = take_bit (bits w) v"
  by (auto simp: take_bit_concat_bit_eq min_def)

lemma read_write_other [simp]:
  "r \<noteq> r' \<Longrightarrow> read_loc (Reg r w) (write_loc (Reg r' w') v s) = read_loc (Reg r w) s"
  "read_loc (Mem k a) (write_loc (Reg r' w') v s) = read_loc (Mem k a) s"
  by simp_all

lemma read_forget [simp]: "read_loc l (forget_flags s) = read_loc l s"
  by (cases l) (simp_all add: forget_flags_def)

lemma mem_write_reg [simp]: "as_mem (write_loc (Reg r w) v s) = as_mem s" "as_mem (forget_flags s) = as_mem s"
  by (simp_all add: forget_flags_def)

lemma mem_write_mem [simp]: "as_mem (write_loc (Mem w a) v s) = store w a v (as_mem s)"
  by simp

end
