(* ===== verification/Symbol_Table.thy ===== *)
theory Symbol_Table
  imports Ast C_String
begin

text \<open>
  Symbol tables, \<^verbatim>\<open>frontend/semantic/symbol.c\<close> and \<^verbatim>\<open>symbol.h\<close>. A table of variables is the list
  of its symbols in insertion order, a table of functions that list and the next number; the
  capacity and the reallocation of the arrays have no effect on them (the C code does not check
  the result of these reallocations). A lookup is a linear search for the first symbol of a
  name. The search for a similar name is shared by the function table and the scopes; its loop
  is \<open>closest_candidate\<close>.
\<close>

section \<open>Tables\<close>

type_synonym sf_var_symbol_table = "sf_var_symbol list"

definition sf_var_symbol_table_init :: sf_var_symbol_table where
  "sf_var_symbol_table_init = []"

definition sf_var_symbol_table_lookup :: "sf_var_symbol_table \<Rightarrow> string \<Rightarrow> sf_var_symbol option" where
  "sf_var_symbol_table_lookup table name = List.find (\<lambda>s. vs_name s = name) table"

definition sf_var_symbol_table_insert :: "sf_var_symbol_table \<Rightarrow> sf_var_symbol \<Rightarrow> sf_var_symbol_table" where
  "sf_var_symbol_table_insert table symbol = table @ [symbol]"

record sf_func_symbol =
  fs_name :: string
  fs_link_name :: string
  fs_return_type :: sf_value_type
  fs_parameters :: "sf_parameter list"
  fs_defined :: bool
  fs_span :: sf_span
  fs_id :: nat
  fs_qualifiers :: sf_qualifiers
  fs_imported :: bool

record sf_func_symbol_table =
  ft_functions :: "sf_func_symbol list"
  ft_next_id :: nat

definition sf_func_symbol_table_init :: sf_func_symbol_table where
  "sf_func_symbol_table_init = \<lparr>ft_functions = [], ft_next_id = 0\<rparr>"

definition sf_func_symbol_table_lookup :: "sf_func_symbol_table \<Rightarrow> string \<Rightarrow> sf_func_symbol option" where
  "sf_func_symbol_table_lookup table name = List.find (\<lambda>f. fs_name f = name) (ft_functions table)"

section \<open>Inserting a function\<close>

definition has_same_name :: "sf_func_symbol \<Rightarrow> sf_func_symbol \<Rightarrow> bool" where
  "has_same_name a b \<longleftrightarrow> fs_name a = fs_name b"

definition has_same_parameters :: "sf_func_symbol \<Rightarrow> sf_func_symbol \<Rightarrow> bool" where
  "has_same_parameters a b \<longleftrightarrow> map pm_type (fs_parameters a) = map pm_type (fs_parameters b)"

definition has_same_return_type :: "sf_func_symbol \<Rightarrow> sf_func_symbol \<Rightarrow> bool" where
  "has_same_return_type a b \<longleftrightarrow> fs_return_type a = fs_return_type b"

definition has_same_signature :: "sf_func_symbol \<Rightarrow> sf_func_symbol \<Rightarrow> bool" where
  "has_same_signature a b \<longleftrightarrow> has_same_return_type a b \<and> has_same_parameters a b \<and> has_same_name a b"

definition is_definition :: "sf_func_symbol \<Rightarrow> bool" where
  "is_definition func \<longleftrightarrow> fs_defined func"

text \<open>The assignment \<^verbatim>\<open>existing->defined = true\<close> through the pointer a lookup returns.\<close>

fun mark_defined :: "string \<Rightarrow> sf_func_symbol list \<Rightarrow> sf_func_symbol list" where
  "mark_defined name [] = []"
| "mark_defined name (f # fs) =
     (if fs_name f = name then f\<lparr>fs_defined := True\<rparr> # fs else f # mark_defined name fs)"

definition sf_func_symbol_table_insert ::
  "sf_func_symbol_table \<Rightarrow> sf_func_symbol \<Rightarrow> string \<Rightarrow> sf_log_state \<Rightarrow> bool \<times> sf_func_symbol_table \<times> sf_log_state" where
  "sf_func_symbol_table_insert table func filename g =
     (if is_extern (fs_qualifiers func) \<and> is_definition func
      then (False, table, sf_log (Some filename) SF_LOG_SEMANTIC_INVALID_DEFINITION (fs_span func)
                            SF_LOG_SEVERITY_ERROR [fs_name func] g)
      else (case sf_func_symbol_table_lookup table (fs_name func) of
              Some existing \<Rightarrow>
                (let g1 = (if \<not> is_definition func
                           then sf_log (Some filename) SF_LOG_SEMANTIC_REDECLARATION (fs_span func)
                                  SF_LOG_SEVERITY_WARNING [fs_name func] g
                           else g)
                 in if \<not> has_same_signature func existing
                    then (False, table, sf_log (Some filename) SF_LOG_SEMANTIC_CONFLICTING_DECLARATION (fs_span func)
                                          SF_LOG_SEVERITY_ERROR [fs_name func] g1)
                    else if is_definition func \<and> is_definition existing
                    then (False, table, sf_log (Some filename) SF_LOG_SEMANTIC_REDEFINITION (fs_span func)
                                          SF_LOG_SEVERITY_ERROR [fs_name func] g1)
                    else (True, if is_definition func
                                then table\<lparr>ft_functions := mark_defined (fs_name func) (ft_functions table)\<rparr>
                                else table, g1))
            | None \<Rightarrow>
                (True, table\<lparr>ft_functions := ft_functions table @ [func\<lparr>fs_id := ft_next_id table\<rparr>],
                             ft_next_id := ft_next_id table + 1\<rparr>, g)))"

section \<open>The closest name\<close>

definition closest_step :: "string \<Rightarrow> string option \<times> nat \<Rightarrow> string \<Rightarrow> string option \<times> nat" where
  "closest_step name acc candidate =
     (case acc of (best_candidate, minimal_distance) \<Rightarrow>
        (let distance = sf_string_distance candidate name
         in if distance < minimal_distance then (Some candidate, distance) else acc))"

definition closest_candidate :: "string list \<Rightarrow> string \<Rightarrow> string option" where
  "closest_candidate candidates name =
     (case foldl (closest_step name) (None, UINT32_MAX) candidates of
        (best_candidate, minimal_distance) \<Rightarrow>
          if length name div 2 < minimal_distance then None else best_candidate)"

definition sf_func_symbol_table_find_closest :: "sf_func_symbol_table \<Rightarrow> string \<Rightarrow> string option" where
  "sf_func_symbol_table_find_closest table name = closest_candidate (map fs_name (ft_functions table)) name"

section \<open>Facts\<close>

lemma var_lookup_Some:
  "sf_var_symbol_table_lookup table name = Some s \<Longrightarrow> s \<in> set table \<and> vs_name s = name"
  by (auto simp: sf_var_symbol_table_lookup_def find_Some_iff)

lemma var_lookup_None:
  "sf_var_symbol_table_lookup table name = None \<longleftrightarrow> name \<notin> vs_name ` set table"
  by (auto simp: sf_var_symbol_table_lookup_def find_None_iff)

lemma find_append: "List.find P (xs @ ys) = (case List.find P xs of None \<Rightarrow> List.find P ys | Some x \<Rightarrow> Some x)"
  by (induction xs) auto

text \<open>An insertion extends the finite map that the lookup function is.\<close>

lemma var_lookup_insert:
  assumes "sf_var_symbol_table_lookup table (vs_name s) = None"
  shows "sf_var_symbol_table_lookup (sf_var_symbol_table_insert table s) =
    (sf_var_symbol_table_lookup table)(vs_name s \<mapsto> s)"
  using assms
  by (intro ext) (auto simp: sf_var_symbol_table_lookup_def sf_var_symbol_table_insert_def find_append
      split: option.splits)

lemma func_lookup_Some:
  "sf_func_symbol_table_lookup table name = Some f \<Longrightarrow> f \<in> set (ft_functions table) \<and> fs_name f = name"
  by (auto simp: sf_func_symbol_table_lookup_def find_Some_iff)

lemma func_lookup_None:
  "sf_func_symbol_table_lookup table name = None \<longleftrightarrow> name \<notin> fs_name ` set (ft_functions table)"
  by (auto simp: sf_func_symbol_table_lookup_def find_None_iff)

lemma find_mark_defined:
  "List.find (\<lambda>f. fs_name f = n) (mark_defined name fs) =
   (if n = name then map_option (\<lambda>f. f\<lparr>fs_defined := True\<rparr>) (List.find (\<lambda>f. fs_name f = n) fs)
    else List.find (\<lambda>f. fs_name f = n) fs)"
  by (induction fs) auto

lemma mark_defined_map:
  "map fs_name (mark_defined name fs) = map fs_name fs" "map fs_id (mark_defined name fs) = map fs_id fs"
  "length (mark_defined name fs) = length fs"
  by (induction fs) auto

text \<open>Names are unique and the functions are numbered in the order of their declarations.\<close>

definition func_table_ok :: "sf_func_symbol_table \<Rightarrow> bool" where
  "func_table_ok table \<longleftrightarrow> distinct (map fs_name (ft_functions table)) \<and>
     map fs_id (ft_functions table) = [0..<length (ft_functions table)] \<and>
     ft_next_id table = length (ft_functions table)"

lemma func_table_ok_init [sf_intros]: "func_table_ok sf_func_symbol_table_init"
  by (simp add: func_table_ok_def sf_func_symbol_table_init_def)

lemma func_insert_ok [sf_intros]:
  assumes "func_table_ok table" "sf_func_symbol_table_insert table func filename g = (ok, table', g')"
  shows "func_table_ok table'"
  using assms
  by (auto simp: sf_func_symbol_table_insert_def func_table_ok_def Let_def mark_defined_map func_lookup_None
      split: if_splits option.splits)

text \<open>When a declaration is accepted, and what the table then says of its name. \<open>func_accepts\<close> is
  the rule as the language states it: an extern function has no body here, a second declaration
  repeats the signature, and there is one definition.\<close>

definition func_accepts :: "sf_func_symbol option \<Rightarrow> sf_func_symbol \<Rightarrow> bool" where
  "func_accepts existing func \<longleftrightarrow> \<not> (is_extern (fs_qualifiers func) \<and> fs_defined func) \<and>
     (case existing of None \<Rightarrow> True
      | Some e \<Rightarrow> fs_return_type e = fs_return_type func \<and>
          map pm_type (fs_parameters e) = map pm_type (fs_parameters func) \<and> \<not> (fs_defined e \<and> fs_defined func))"

lemma func_insert_spec:
  assumes "sf_func_symbol_table_insert table func filename g = (ok, table', g')"
  shows "ok \<longleftrightarrow> func_accepts (sf_func_symbol_table_lookup table (fs_name func)) func"
    "sf_func_symbol_table_lookup table' =
     (if ok then (sf_func_symbol_table_lookup table)
        (fs_name func \<mapsto> (case sf_func_symbol_table_lookup table (fs_name func) of
             None \<Rightarrow> func\<lparr>fs_id := ft_next_id table\<rparr>
           | Some e \<Rightarrow> e\<lparr>fs_defined := fs_defined e \<or> fs_defined func\<rparr>))
      else sf_func_symbol_table_lookup table)"
    "g_error_count g' = (if ok then g_error_count g else Suc (g_error_count g))"
proof -
  note defs = sf_func_symbol_table_insert_def func_accepts_def has_same_signature_def has_same_return_type_def
    has_same_parameters_def has_same_name_def is_definition_def Let_def
  show "ok \<longleftrightarrow> func_accepts (sf_func_symbol_table_lookup table (fs_name func)) func"
    using assms by (auto simp: defs dest: func_lookup_Some split: if_splits option.splits)
  show "sf_func_symbol_table_lookup table' =
     (if ok then (sf_func_symbol_table_lookup table)
        (fs_name func \<mapsto> (case sf_func_symbol_table_lookup table (fs_name func) of
             None \<Rightarrow> func\<lparr>fs_id := ft_next_id table\<rparr>
           | Some e \<Rightarrow> e\<lparr>fs_defined := fs_defined e \<or> fs_defined func\<rparr>))
      else sf_func_symbol_table_lookup table)"
    using assms
    by (intro ext) (auto simp: sf_func_symbol_table_insert_def is_definition_def Let_def sf_func_symbol_table_lookup_def
        find_append find_mark_defined split: if_splits option.splits)
  show "g_error_count g' = (if ok then g_error_count g else Suc (g_error_count g))"
    using assms by (auto simp: sf_func_symbol_table_insert_def Let_def sf_log_error sf_log_warning split: if_splits option.splits)
qed

subsection \<open>Suggestions\<close>

lemma closest_fold:
  "foldl (closest_step name) (best, m) cs = (b, d) \<Longrightarrow>
   d \<le> m \<and> (\<forall>c \<in> set cs. d \<le> sf_string_distance c name) \<and>
   (d = m \<and> b = best \<or> d < m \<and> (\<exists>c \<in> set cs. b = Some c \<and> sf_string_distance c name = d))"
proof (induction cs arbitrary: best m)
  case (Cons c cs)
  show ?case
  proof (cases "sf_string_distance c name < m")
    case True
    with Cons.prems have "foldl (closest_step name) (Some c, sf_string_distance c name) cs = (b, d)"
      by (simp add: closest_step_def [of _ "(best, m)"])
    from Cons.IH [OF this] True show ?thesis by auto
  next
    case False
    with Cons.prems have "foldl (closest_step name) (best, m) cs = (b, d)" by (simp add: closest_step_def [of _ "(best, m)"])
    from Cons.IH [OF this] False show ?thesis by auto
  qed
qed simp

lemma closest_candidate_Some:
  assumes "length name < SF_STRING_DISTANCE_MAX" "closest_candidate cs name = Some c"
  shows "c \<in> set cs \<and> lev c name \<le> length name div 2 \<and> (\<forall>c' \<in> set cs. lev c name \<le> lev c' name)"
proof -
  obtain b d where fold: "foldl (closest_step name) (None, UINT32_MAX) cs = (b, d)" by fastforce
  with assms(2) have "b = Some c" "d \<le> length name div 2"
    by (auto simp: closest_candidate_def split: if_splits)
  with closest_fold [OF fold] show ?thesis by (auto simp: sf_string_distance_lev [OF assms(1)])
qed

lemma closest_candidate_None:
  assumes "length name < SF_STRING_DISTANCE_MAX" "closest_candidate cs name = None"
  shows "c \<in> set cs \<Longrightarrow> length name div 2 < lev c name"
proof -
  assume c: "c \<in> set cs"
  obtain b d where fold: "foldl (closest_step name) (None, UINT32_MAX) cs = (b, d)" by fastforce
  have "length name div 2 < UINT32_MAX" using assms(1) by simp
  with assms(2) fold closest_fold [OF fold] have "length name div 2 < d"
    by (auto simp: closest_candidate_def split: if_splits)
  then show ?thesis using closest_fold [OF fold] c by (auto simp: sf_string_distance_lev [OF assms(1)])
qed

section \<open>The table and the suggestions, as properties\<close>

text \<open>C25: A function table refines a finite map from names to symbols. A declaration is accepted
  exactly when the rule of the language (\<open>func_accepts\<close>) holds for what the map says of its name;
  it then adds the symbol, or marks the earlier declaration as defined; otherwise the map is
  unchanged and one error is counted. The numbering of the table stays in order.\<close>

theorem func_insert_refines_map:
  assumes "func_table_ok table" "sf_func_symbol_table_insert table func filename g = (ok, table', g')"
  shows "func_table_ok table' \<and>
    (ok \<longleftrightarrow> func_accepts (sf_func_symbol_table_lookup table (fs_name func)) func) \<and>
    sf_func_symbol_table_lookup table' =
     (if ok then (sf_func_symbol_table_lookup table)
        (fs_name func \<mapsto> (case sf_func_symbol_table_lookup table (fs_name func) of
             None \<Rightarrow> func\<lparr>fs_id := length (ft_functions table)\<rparr>
           | Some e \<Rightarrow> e\<lparr>fs_defined := fs_defined e \<or> fs_defined func\<rparr>))
      else sf_func_symbol_table_lookup table) \<and>
    g_error_count g' = (if ok then g_error_count g else Suc (g_error_count g))"
proof -
  have next_id: "length (ft_functions table) = ft_next_id table" using assms(1) by (simp add: func_table_ok_def)
  show ?thesis
    unfolding next_id by (intro conjI func_insert_ok [OF assms] func_insert_spec [OF assms(2)])
qed

definition main_symbol :: sf_func_symbol where
  "main_symbol = \<lparr>fs_name = ''main'', fs_link_name = ''main'', fs_return_type = SF_VAL_TYPE_I32, fs_parameters = [],
     fs_defined = True, fs_span = sf_span_zero, fs_id = 0, fs_qualifiers = no_qualifiers, fs_imported = False\<rparr>"

lemma func_insert_refines_map_witness:
  "fst (sf_func_symbol_table_insert sf_func_symbol_table_init main_symbol ''m'' sf_log_init)"
proof -
  obtain ok t g where ins: "sf_func_symbol_table_insert sf_func_symbol_table_init main_symbol ''m'' sf_log_init = (ok, t, g)"
    by (metis prod_cases3)
  show ?thesis
    using func_insert_refines_map [OF func_table_ok_init ins] ins
    by (simp add: sf_func_symbol_table_lookup_def sf_func_symbol_table_init_def func_accepts_def main_symbol_def
        no_qualifiers_def)
qed

text \<open>The name suggested for an undeclared function is one of the table, at the least number of
  single-character edits from the name, and at most half the length of the name away; when
  there is no suggestion, no function of the table is that close.\<close>

theorem func_find_closest_least:
  assumes "length name < SF_STRING_DISTANCE_MAX"
  shows "case sf_func_symbol_table_find_closest table name of
      Some c \<Rightarrow> c \<in> fs_name ` set (ft_functions table) \<and> lev c name \<le> length name div 2 \<and>
        lev c name = Min ((\<lambda>f. lev (fs_name f) name) ` set (ft_functions table))
    | None \<Rightarrow> (\<lambda>f. lev (fs_name f) name) ` set (ft_functions table) \<subseteq> {length name div 2 <..}"
proof (cases "sf_func_symbol_table_find_closest table name")
  case None
  then show ?thesis
    using closest_candidate_None [OF assms, of "map fs_name (ft_functions table)"]
    by (auto simp: sf_func_symbol_table_find_closest_def)
next
  case (Some c)
  then have c: "c \<in> fs_name ` set (ft_functions table)" "lev c name \<le> length name div 2"
    "\<And>f. f \<in> set (ft_functions table) \<Longrightarrow> lev c name \<le> lev (fs_name f) name"
    using closest_candidate_Some [OF assms, of "map fs_name (ft_functions table)" c]
    by (auto simp: sf_func_symbol_table_find_closest_def)
  then have "lev c name = Min ((\<lambda>f. lev (fs_name f) name) ` set (ft_functions table))"
    by (intro Min_eqI [symmetric]) auto
  with Some c show ?thesis by simp
qed

lemma func_find_closest_least_witness:
  "lev ''main'' ''mian'' = 2 \<and>
   (case sf_func_symbol_table_find_closest \<lparr>ft_functions = [main_symbol], ft_next_id = 1\<rparr> ''mian'' of
      Some c \<Rightarrow> c = ''main'' | None \<Rightarrow> False)"
proof -
  have "lev ''main'' ''mian'' = 2" by simp
  then show ?thesis
    using func_find_closest_least [of "''mian''" "\<lparr>ft_functions = [main_symbol], ft_next_id = 1\<rparr>"]
    by (auto simp: main_symbol_def split: option.splits)
qed

end
