(* ===== verification/Scope.thy ===== *)
theory Scope
  imports Symbol_Table
begin

text \<open>
  Scopes, \<^verbatim>\<open>frontend/semantic/scope.c\<close>: a stack of variable tables, the outermost first, with the
  number of the next variable. The capacity is kept because a push reallocates, and may fail,
  only when it is reached; \<open>realloc_ok\<close> and \<open>malloc_ok\<close> say for a number of elements whether
  the memory is there. A flow state is the list of the \<^verbatim>\<open>initialized\<close> flags of all symbols,
  outermost table first; without memory it is empty.
\<close>

section \<open>The stack\<close>

record sf_scope =
  sc_stack :: "sf_var_symbol_table list"
  sc_capacity :: nat
  sc_next_id :: nat
  sc_failed_pushes :: nat

definition scope_init :: sf_scope where
  "scope_init = \<lparr>sc_stack = [], sc_capacity = 0, sc_next_id = 0, sc_failed_pushes = 0\<rparr>"

definition scope_push :: "(nat \<Rightarrow> bool) \<Rightarrow> sf_scope \<Rightarrow> sf_log_state \<Rightarrow> sf_scope \<times> sf_log_state" where
  "scope_push realloc_ok scope g =
     (let new_capacity = (if sc_capacity scope = 0 then 8 else sc_capacity scope * 2)
      in if sc_capacity scope \<le> length (sc_stack scope) \<and> \<not> realloc_ok new_capacity
         then (scope\<lparr>sc_failed_pushes := sc_failed_pushes scope + 1\<rparr>,
               sf_log None SF_LOG_GENERAL_INSUFFICIENT_MEMORY sf_span_zero SF_LOG_SEVERITY_FATAL [] g)
         else (scope\<lparr>sc_stack := sc_stack scope @ [sf_var_symbol_table_init],
                     sc_capacity := (if sc_capacity scope \<le> length (sc_stack scope) then new_capacity
                                     else sc_capacity scope)\<rparr>, g))"

definition scope_pop :: "sf_scope \<Rightarrow> sf_scope" where
  "scope_pop scope =
     (if 0 < sc_failed_pushes scope then scope\<lparr>sc_failed_pushes := sc_failed_pushes scope - 1\<rparr>
      else if sc_stack scope = [] then scope
      else scope\<lparr>sc_stack := butlast (sc_stack scope)\<rparr>)"

fun lookup_tables :: "sf_var_symbol_table list \<Rightarrow> string \<Rightarrow> sf_var_symbol option" where
  "lookup_tables [] name = None"
| "lookup_tables (table # tables) name =
     (case sf_var_symbol_table_lookup table name of
        Some symbol \<Rightarrow> Some symbol
      | None \<Rightarrow> lookup_tables tables name)"

definition scope_lookup :: "sf_scope \<Rightarrow> string \<Rightarrow> sf_var_symbol option" where
  "scope_lookup scope name = lookup_tables (rev (sc_stack scope)) name"

definition scope_insert :: "sf_scope \<Rightarrow> sf_var_symbol \<Rightarrow> string \<Rightarrow> sf_log_state \<Rightarrow> sf_scope \<times> sf_log_state" where
  "scope_insert scope symbol filename g =
     (if sc_stack scope = [] then (scope, g)
      else if sf_var_symbol_table_lookup (last (sc_stack scope)) (vs_name symbol) \<noteq> None
      then (scope, sf_log (Some filename) SF_LOG_SEMANTIC_REDECLARATION (vs_span symbol)
                     SF_LOG_SEVERITY_ERROR [vs_name symbol] g)
      else (let symbol1 = symbol\<lparr>vs_id := sc_next_id scope, vs_depth := length (sc_stack scope) - 1\<rparr>
            in (scope\<lparr>sc_next_id := sc_next_id scope + 1,
                      sc_stack := butlast (sc_stack scope) @ [sf_var_symbol_table_insert (last (sc_stack scope)) symbol1]\<rparr>,
                g)))"

definition scope_free :: "sf_scope \<Rightarrow> sf_scope" where
  "scope_free scope = scope\<lparr>sc_failed_pushes := 0, sc_stack := [], sc_capacity := 0\<rparr>"

definition scope_find_closest :: "sf_scope \<Rightarrow> string \<Rightarrow> string option" where
  "scope_find_closest scope name = closest_candidate (concat (map (map vs_name) (rev (sc_stack scope)))) name"

text \<open>The assignment \<^verbatim>\<open>sym->initialized = true\<close> through the pointer that \<^verbatim>\<open>scope_lookup\<close> returned.\<close>

fun initialize_first :: "string \<Rightarrow> sf_var_symbol_table \<Rightarrow> sf_var_symbol_table" where
  "initialize_first name [] = []"
| "initialize_first name (s # ss) =
     (if vs_name s = name then s\<lparr>vs_initialized := True\<rparr> # ss else s # initialize_first name ss)"

fun initialize_tables :: "string \<Rightarrow> sf_var_symbol_table list \<Rightarrow> sf_var_symbol_table list" where
  "initialize_tables name [] = []"
| "initialize_tables name (table # tables) =
     (if sf_var_symbol_table_lookup table name \<noteq> None then initialize_first name table # tables
      else table # initialize_tables name tables)"

definition scope_set_initialized :: "sf_scope \<Rightarrow> string \<Rightarrow> sf_scope" where
  "scope_set_initialized scope name =
     scope\<lparr>sc_stack := rev (initialize_tables name (rev (sc_stack scope)))\<rparr>"

section \<open>Flow states\<close>

type_synonym sf_flow_state = "bool list"

definition scope_flow_save :: "(nat \<Rightarrow> bool) \<Rightarrow> sf_scope \<Rightarrow> sf_flow_state" where
  "scope_flow_save malloc_ok scope =
     (let total = sum_list (map length (sc_stack scope))
      in if total = 0 \<or> \<not> malloc_ok total then []
         else concat (map (map vs_initialized) (sc_stack scope)))"

fun restore_table :: "sf_flow_state \<Rightarrow> sf_var_symbol_table \<Rightarrow> sf_var_symbol_table \<times> sf_flow_state" where
  "restore_table flags [] = ([], flags)"
| "restore_table [] (s # ss) = (s # ss, [])"
| "restore_table (f # flags) (s # ss) =
     (case restore_table flags ss of (ss', rest) \<Rightarrow> (s\<lparr>vs_initialized := f\<rparr> # ss', rest))"

fun restore_tables :: "sf_flow_state \<Rightarrow> sf_var_symbol_table list \<Rightarrow> sf_var_symbol_table list" where
  "restore_tables flags [] = []"
| "restore_tables flags (table # tables) =
     (case restore_table flags table of (table', rest) \<Rightarrow> table' # restore_tables rest tables)"

definition scope_flow_restore :: "sf_scope \<Rightarrow> sf_flow_state \<Rightarrow> sf_scope" where
  "scope_flow_restore scope state = scope\<lparr>sc_stack := restore_tables state (sc_stack scope)\<rparr>"

definition scope_flow_fill :: "sf_flow_state \<Rightarrow> bool \<Rightarrow> sf_flow_state" where
  "scope_flow_fill state b = map (\<lambda>_. b) state"

definition scope_flow_and :: "sf_flow_state \<Rightarrow> sf_flow_state \<Rightarrow> sf_flow_state" where
  "scope_flow_and dst other = map (\<lambda>(a, b). a \<and> b) (zip dst other) @ drop (length other) dst"

section \<open>Declarations\<close>

text \<open>A symbol without its flow flag, and the declarations of a scope: what the flow operations
  leave alone.\<close>

definition sym_decl :: "sf_var_symbol \<Rightarrow> sf_var_symbol" where
  "sym_decl s = s\<lparr>vs_initialized := False\<rparr>"

definition scope_decls :: "sf_scope \<Rightarrow> sf_var_symbol list list" where
  "scope_decls scope = map (map sym_decl) (sc_stack scope)"

definition same_decls :: "sf_scope \<Rightarrow> sf_scope \<Rightarrow> bool" where
  "same_decls s s' \<longleftrightarrow> scope_decls s' = scope_decls s \<and> sc_next_id s' = sc_next_id s \<and>
     sc_capacity s' = sc_capacity s \<and> sc_failed_pushes s' = sc_failed_pushes s"

lemma sym_decl_simps [simp]:
  "vs_name (sym_decl s) = vs_name s" "vs_type (sym_decl s) = vs_type s" "vs_id (sym_decl s) = vs_id s"
  "vs_depth (sym_decl s) = vs_depth s" "vs_qualifiers (sym_decl s) = vs_qualifiers s"
  "vs_span (sym_decl s) = vs_span s" "sym_decl (s\<lparr>vs_initialized := b\<rparr>) = sym_decl s"
  "sym_decl (sym_decl s) = sym_decl s"
  by (simp_all add: sym_decl_def)

lemma sym_decl_eqD:
  "sym_decl a = sym_decl b \<Longrightarrow> vs_name a = vs_name b \<and> vs_type a = vs_type b \<and> vs_id a = vs_id b \<and>
     vs_depth a = vs_depth b \<and> vs_qualifiers a = vs_qualifiers b"
  by (metis sym_decl_simps(1-5))

lemma same_decls_refl [simp, intro]: "same_decls s s"
  by (simp add: same_decls_def)

lemma same_decls_trans: "same_decls a b \<Longrightarrow> same_decls b c \<Longrightarrow> same_decls a c"
  by (simp add: same_decls_def)

lemma same_decls_length: "same_decls a b \<Longrightarrow> length (sc_stack b) = length (sc_stack a)"
  by (metis same_decls_def scope_decls_def length_map)

lemma table_lookup_decl:
  "map_option sym_decl (sf_var_symbol_table_lookup table name) = sf_var_symbol_table_lookup (map sym_decl table) name"
  by (induction table) (auto simp: sf_var_symbol_table_lookup_def)

lemma tables_lookup_decl:
  "map_option sym_decl (lookup_tables tables name) = lookup_tables (map (map sym_decl) tables) name"
proof (induction tables)
  case (Cons t ts)
  show ?case using Cons
    by (cases "sf_var_symbol_table_lookup t name") (simp_all flip: table_lookup_decl)
qed simp

lemma scope_lookup_decl:
  "map_option sym_decl (scope_lookup scope name) = lookup_tables (rev (scope_decls scope)) name"
  by (simp add: scope_lookup_def tables_lookup_decl scope_decls_def rev_map)

lemma same_decls_lookup:
  "same_decls s s' \<Longrightarrow> map_option sym_decl (scope_lookup s' name) = map_option sym_decl (scope_lookup s name)"
  by (simp add: scope_lookup_decl same_decls_def)

subsection \<open>Flow operations keep the declarations\<close>

lemma initialize_first_decl [simp]: "map sym_decl (initialize_first name table) = map sym_decl table"
  by (induction table) auto

lemma initialize_tables_decl [simp]:
  "map (map sym_decl) (initialize_tables name tables) = map (map sym_decl) tables"
  by (induction tables) auto

lemma set_initialized_decls [sf_intros]: "same_decls s (scope_set_initialized s name)"
  by (simp add: same_decls_def scope_decls_def scope_set_initialized_def rev_map)
     (simp add: rev_map [symmetric])

lemma restore_table_decl: "restore_table flags table = (table', rest) \<Longrightarrow> map sym_decl table' = map sym_decl table"
  by (induction flags table arbitrary: table' rest rule: restore_table.induct) (auto split: prod.splits)

lemma restore_tables_decl: "map (map sym_decl) (restore_tables flags tables) = map (map sym_decl) tables"
  by (induction flags tables rule: restore_tables.induct) (auto split: prod.splits dest: restore_table_decl)

lemma flow_restore_decls [sf_intros]: "same_decls s (scope_flow_restore s st)"
  by (simp add: same_decls_def scope_decls_def scope_flow_restore_def restore_tables_decl)

subsection \<open>Well-formed scopes\<close>

text \<open>Every variable has its own number, below the next one; the names of a table differ; a symbol
  knows the depth of its table; there is room for the stack.\<close>

definition scope_ok :: "sf_scope \<Rightarrow> bool" where
  "scope_ok s \<longleftrightarrow> distinct (map vs_id (concat (sc_stack s))) \<and>
     (\<forall>v \<in> set (concat (sc_stack s)). vs_id v < sc_next_id s) \<and>
     (\<forall>t \<in> set (sc_stack s). distinct (map vs_name t)) \<and>
     (\<forall>i < length (sc_stack s). \<forall>v \<in> set (sc_stack s ! i). vs_depth v = i) \<and>
     sc_failed_pushes s = 0 \<and> length (sc_stack s) \<le> sc_capacity s"

lemma scope_ok_init [sf_intros]: "scope_ok scope_init"
  by (simp add: scope_ok_def scope_init_def)

lemma scope_ok_decls:
  "scope_ok s \<longleftrightarrow> distinct (map vs_id (concat (scope_decls s))) \<and>
     (\<forall>v \<in> set (concat (scope_decls s)). vs_id v < sc_next_id s) \<and>
     (\<forall>t \<in> set (scope_decls s). distinct (map vs_name t)) \<and>
     (\<forall>i < length (scope_decls s). \<forall>v \<in> set (scope_decls s ! i). vs_depth v = i) \<and>
     sc_failed_pushes s = 0 \<and> length (scope_decls s) \<le> sc_capacity s"
proof -
  have "map vs_id (concat (map (map sym_decl) st)) = map vs_id (concat st)" for st
    by (induction st) (auto simp: comp_def)
  then show ?thesis by (simp add: scope_ok_def scope_decls_def comp_def)
qed

lemma same_decls_ok: "same_decls s s' \<Longrightarrow> scope_ok s \<Longrightarrow> scope_ok s'"
  by (simp add: scope_ok_decls same_decls_def)

lemma scope_push_ok [sf_intros]:
  assumes "scope_ok s" "realloc_ok (if sc_capacity s = 0 then 8 else sc_capacity s * 2)"
    "scope_push realloc_ok s g = (s', g')"
  shows "scope_ok s'" "g' = g" "sc_stack s' = sc_stack s @ [[]]" "sc_next_id s' = sc_next_id s"
  using assms
  by (auto simp: scope_push_def scope_ok_def Let_def nth_append sf_var_symbol_table_init_def less_Suc_eq
      Suc_le_eq split: if_splits)

lemma scope_pop_ok [sf_intros]: "scope_ok s \<Longrightarrow> scope_ok (scope_pop s)"
proof (cases "sc_stack s" rule: rev_cases)
  case (snoc tables table)
  assume "scope_ok s"
  with snoc show ?thesis by (auto simp: scope_ok_def scope_pop_def nth_append)
qed (simp add: scope_pop_def scope_ok_def)

lemma scope_insert_cases:
  assumes "scope_insert scope symbol filename g = (scope', g')"
  obtains (empty) "sc_stack scope = []" "scope' = scope" "g' = g"
  | (declared) "sf_var_symbol_table_lookup (last (sc_stack scope)) (vs_name symbol) \<noteq> None" "scope' = scope"
      "g_error_count g' = Suc (g_error_count g)"
  | (inserted) tables table where "sc_stack scope = tables @ [table]"
      "sf_var_symbol_table_lookup table (vs_name symbol) = None"
      "scope' = scope\<lparr>sc_next_id := sc_next_id scope + 1,
         sc_stack := tables @ [table @ [symbol\<lparr>vs_id := sc_next_id scope, vs_depth := length tables\<rparr>]]\<rparr>" "g' = g"
proof (cases "sc_stack scope" rule: rev_cases)
  case Nil
  show ?thesis by (rule empty) (use Nil assms in \<open>simp_all add: scope_insert_def\<close>)
next
  case (snoc tables table)
  show ?thesis
  proof (cases "sf_var_symbol_table_lookup table (vs_name symbol)")
    case None
    show ?thesis
      by (rule inserted [OF snoc None])
         (use assms snoc None in \<open>simp_all add: scope_insert_def Let_def sf_var_symbol_table_insert_def\<close>)
  next
    case (Some s)
    show ?thesis by (rule declared) (use assms snoc Some in \<open>auto simp: scope_insert_def sf_log_error\<close>)
  qed
qed

lemma scope_insert_ok [sf_intros]:
  assumes "scope_ok scope" "scope_insert scope symbol filename g = (scope', g')"
  shows "scope_ok scope'"
  using assms(2)
proof (cases rule: scope_insert_cases)
  case (inserted tables table)
  have "vs_name symbol \<notin> vs_name ` set table" using inserted(2) by (simp add: var_lookup_None)
  with assms(1) inserted show ?thesis by (auto simp: scope_ok_def nth_append less_Suc_eq)
qed (use assms in auto)

lemma scope_insert_lookup:
  assumes "sc_stack scope = tables @ [table]" "sf_var_symbol_table_lookup table (vs_name symbol) = None"
    "scope_insert scope symbol filename g = (scope', g')"
  shows "scope_lookup scope' = (scope_lookup scope)
    (vs_name symbol \<mapsto> symbol\<lparr>vs_id := sc_next_id scope, vs_depth := length tables\<rparr>)"
proof -
  let ?s = "symbol\<lparr>vs_id := sc_next_id scope, vs_depth := length tables\<rparr>"
  have "sc_stack scope' = tables @ [sf_var_symbol_table_insert table ?s]"
    using assms by (auto simp: scope_insert_def Let_def)
  moreover have "sf_var_symbol_table_lookup (sf_var_symbol_table_insert table ?s) =
      (sf_var_symbol_table_lookup table)(vs_name symbol \<mapsto> ?s)"
    using var_lookup_insert [of table ?s] assms(2) by simp
  ultimately show ?thesis using assms(1)
    by (intro ext) (simp add: scope_lookup_def)
qed

lemma scope_lookup_mem:
  "scope_lookup s name = Some v \<Longrightarrow> v \<in> set (concat (sc_stack s)) \<and> vs_name v = name"
proof -
  have "lookup_tables tables name = Some v \<Longrightarrow> v \<in> set (concat tables) \<and> vs_name v = name" for tables
    by (induction tables) (auto dest: var_lookup_Some split: option.splits)
  from this [of "rev (sc_stack s)"] show "scope_lookup s name = Some v \<Longrightarrow> ?thesis"
    by (auto simp: scope_lookup_def)
qed

lemma scope_pop_push:
  "sc_failed_pushes s = 0 \<Longrightarrow> sc_stack s' = sc_stack s @ [table] \<Longrightarrow> sc_failed_pushes s' = 0 \<Longrightarrow>
   sc_stack (scope_pop s') = sc_stack s"
  by (simp add: scope_pop_def)

section \<open>Flow states as sets of initialised variables\<close>

definition scope_flags :: "sf_scope \<Rightarrow> bool list" where
  "scope_flags s = map vs_initialized (concat (sc_stack s))"

definition scope_ids :: "sf_scope \<Rightarrow> nat list" where
  "scope_ids s = map vs_id (concat (sc_stack s))"

definition initialized_ids :: "sf_scope \<Rightarrow> nat set" where
  "initialized_ids s = {vs_id v | v. v \<in> set (concat (sc_stack s)) \<and> vs_initialized v}"

lemma flow_save_flags [simp]: "scope_flow_save (\<lambda>_. True) s = scope_flags s"
proof -
  have "concat (map (map vs_initialized) (sc_stack s)) = scope_flags s"
    by (simp add: scope_flags_def map_concat)
  moreover have "length (scope_flags s) = sum_list (map length (sc_stack s))"
    by (simp add: scope_flags_def length_concat)
  moreover have "sum_list (map length (sc_stack s)) = 0 \<Longrightarrow> scope_flags s = []"
    using calculation by (metis length_0_conv)
  ultimately show ?thesis by (auto simp: scope_flow_save_def Let_def)
qed

lemma scope_ids_decls: "scope_ids s = map vs_id (concat (scope_decls s))"
  by (simp add: scope_ids_def scope_decls_def map_concat comp_def)

lemma length_flags_ids: "length (scope_flags s) = length (scope_ids s)"
  by (simp add: scope_flags_def scope_ids_def)

lemma initialized_ids_zip: "initialized_ids s = {i. (i, True) \<in> set (zip (scope_ids s) (scope_flags s))}"
proof -
  have "zip (scope_ids s) (scope_flags s) = map (\<lambda>v. (vs_id v, vs_initialized v)) (concat (sc_stack s))"
    by (simp add: scope_ids_def scope_flags_def zip_map_map zip_same_conv_map comp_def)
  then show ?thesis by (auto simp: initialized_ids_def)
qed

lemma restore_table_flags:
  "restore_table st table = (table', rest) \<Longrightarrow>
   map vs_initialized table' = take (length table) st @ drop (length st) (map vs_initialized table) \<and>
   length table' = length table \<and> rest = drop (length table) st"
  by (induction st table arbitrary: table' rest rule: restore_table.induct) (auto split: prod.splits)

lemma restore_tables_flags:
  "map vs_initialized (concat (restore_tables st tables)) =
   take (length (concat tables)) st @ drop (length st) (map vs_initialized (concat tables))"
proof (induction st tables rule: restore_tables.induct)
  case (2 flags table tables)
  obtain table' rest where r: "restore_table flags table = (table', rest)" by fastforce
  from restore_table_flags [OF r] 2 [OF r [symmetric]] show ?case
    by (cases "length flags \<le> length table") (simp_all add: r take_add)
qed simp

lemma flow_restore_flags:
  "length st = length (scope_flags s) \<Longrightarrow> scope_flags (scope_flow_restore s st) = st"
  using restore_tables_flags [of st "sc_stack s"] by (simp add: scope_flags_def scope_flow_restore_def)

lemma flow_and_flags: "length a = length b \<Longrightarrow> scope_flow_and a b = map2 (\<and>) a b"
  by (simp add: scope_flow_and_def)

lemma zip_flow_and:
  "distinct ids \<Longrightarrow> length a = length ids \<Longrightarrow> length b = length ids \<Longrightarrow>
   (i, True) \<in> set (zip ids (map2 (\<and>) a b)) \<longleftrightarrow> (i, True) \<in> set (zip ids a) \<and> (i, True) \<in> set (zip ids b)"
proof (induction ids arbitrary: a b)
  case (Cons j ids)
  obtain x a' y b' where "a = x # a'" "b = y # b'" using Cons.prems by (cases a; cases b) auto
  with Cons show ?case by (auto dest: set_zip_leftD)
qed simp

lemma flow_join_sets:
  assumes "scope_ok s" "scope_decls a = scope_decls s" "scope_decls b = scope_decls s"
    "length xs = length (scope_ids s)" "length ys = length (scope_ids s)"
  shows "initialized_ids (scope_flow_restore b (scope_flow_and xs ys)) =
    {i. (i, True) \<in> set (zip (scope_ids s) xs) \<and> (i, True) \<in> set (zip (scope_ids s) ys)}"
proof -
  let ?r = "scope_flow_restore b (scope_flow_and xs ys)"
  have ids: "scope_ids ?r = scope_ids s" "scope_ids b = scope_ids s"
    using assms(3) flow_restore_decls [of b "scope_flow_and xs ys"] by (simp_all add: scope_ids_decls same_decls_def)
  then have "scope_flags ?r = map2 (\<and>) xs ys"
    using assms(4,5) by (subst flow_restore_flags) (simp_all add: flow_and_flags length_flags_ids)
  moreover have "distinct (scope_ids s)" using assms(1) by (simp add: scope_ok_def scope_ids_def)
  ultimately show ?thesis
    using zip_flow_and [OF _ assms(4,5)] by (auto simp: initialized_ids_zip ids)
qed

lemma flow_join_saved:
  assumes "scope_ok s" "scope_decls a = scope_decls s" "scope_decls b = scope_decls s"
  shows "initialized_ids (scope_flow_restore b
      (scope_flow_and (scope_flow_save (\<lambda>_. True) a) (scope_flow_save (\<lambda>_. True) b))) =
    initialized_ids a \<inter> initialized_ids b"
proof -
  have ids: "scope_ids a = scope_ids s" "scope_ids b = scope_ids s" using assms(2,3) by (simp_all add: scope_ids_decls)
  then have "length (scope_flags a) = length (scope_ids s)" "length (scope_flags b) = length (scope_ids s)"
    by (simp_all add: length_flags_ids)
  from flow_join_sets [OF assms this] show ?thesis by (auto simp: initialized_ids_zip ids)
qed

lemma flow_restore_saved:
  assumes "scope_decls b = scope_decls a"
  shows "initialized_ids (scope_flow_restore b (scope_flow_save (\<lambda>_. True) a)) = initialized_ids a"
proof -
  have ids: "scope_ids b = scope_ids a" using assms by (simp add: scope_ids_decls)
  moreover have "scope_ids (scope_flow_restore b (scope_flags a)) = scope_ids b"
    using flow_restore_decls [of b "scope_flags a"] by (simp add: scope_ids_decls same_decls_def)
  moreover have "scope_flags (scope_flow_restore b (scope_flags a)) = scope_flags a"
    using ids by (intro flow_restore_flags) (simp add: length_flags_ids)
  ultimately show ?thesis by (simp add: initialized_ids_zip)
qed

lemma zip_filled: "length xs = length ids \<Longrightarrow> (i, True) \<in> set (zip ids (scope_flow_fill xs True)) \<longleftrightarrow> i \<in> set ids"
proof (induction ids arbitrary: xs)
  case (Cons j ids)
  then show ?case by (cases xs) (auto simp: scope_flow_fill_def)
qed simp

lemma initialized_in_ids: "initialized_ids s \<subseteq> set (scope_ids s)"
  by (auto simp: initialized_ids_def scope_ids_def)

subsection \<open>Declaring and assigning\<close>

lemma initialized_ids_append: "initialized_ids (s\<lparr>sc_stack := xs @ ys\<rparr>) =
    initialized_ids (s\<lparr>sc_stack := xs\<rparr>) \<union> initialized_ids (s\<lparr>sc_stack := ys\<rparr>)"
  by (auto simp: initialized_ids_def)

definition init_of :: "sf_var_symbol list \<Rightarrow> nat set" where
  "init_of vs = vs_id ` set (filter vs_initialized vs)"

lemma init_of_simps [simp]:
  "init_of [] = {}"
  "init_of (v # vs) = (if vs_initialized v then insert (vs_id v) (init_of vs) else init_of vs)"
  "init_of (vs @ ws) = init_of vs \<union> init_of ws"
  by (auto simp: init_of_def)

lemma initialized_ids_of: "initialized_ids s = init_of (concat (sc_stack s))"
  by (auto simp: initialized_ids_def init_of_def)

lemma init_of_rev: "init_of (concat (rev tables)) = init_of (concat tables)"
  by (auto simp: init_of_def)

lemma initialize_first_ids:
  "sf_var_symbol_table_lookup table name = Some v \<Longrightarrow>
   init_of (initialize_first name table) = insert (vs_id v) (init_of table)"
  by (induction table) (auto simp: sf_var_symbol_table_lookup_def split: if_splits)

lemma initialize_tables_ids:
  "lookup_tables tables name = Some v \<Longrightarrow>
   init_of (concat (initialize_tables name tables)) = insert (vs_id v) (init_of (concat tables))"
  by (induction tables) (auto simp: initialize_first_ids split: option.splits)

lemma set_initialized_ids:
  assumes "scope_lookup s name = Some v"
  shows "initialized_ids (scope_set_initialized s name) = insert (vs_id v) (initialized_ids s)"
  using initialize_tables_ids [of "rev (sc_stack s)" name v] assms
  by (simp add: initialized_ids_of scope_set_initialized_def scope_lookup_def init_of_rev)

section \<open>Declarations and joins, as properties\<close>

text \<open>C24: Declaring a variable. In a well-formed scope the declaration of a name the innermost table
  has leaves the scope as it was and counts one error; any other declaration shadows the name
  from now on, in the innermost table, under a number no other variable has, and logs nothing.
  The scope stays well-formed.\<close>

theorem scope_insert_declares:
  assumes "scope_ok scope" "sc_stack scope \<noteq> []" "scope_insert scope symbol filename g = (scope', g')"
  shows "scope_ok scope' \<and>
    (if vs_name symbol \<in> vs_name ` set (last (sc_stack scope))
     then scope' = scope \<and> g_error_count g' = Suc (g_error_count g)
     else scope_lookup scope' = (scope_lookup scope)(vs_name symbol \<mapsto>
            symbol\<lparr>vs_id := sc_next_id scope, vs_depth := length (sc_stack scope) - 1\<rparr>) \<and>
          sc_next_id scope \<notin> vs_id ` set (concat (sc_stack scope)) \<and> g' = g)"
  using assms(3)
proof (cases rule: scope_insert_cases)
  case (declared)
  then show ?thesis using assms by (auto simp: var_lookup_None)
next
  case (inserted tables table)
  then show ?thesis
    using scope_insert_ok [OF assms(1,3)] scope_insert_lookup [OF inserted(1,2) assms(3)] assms(1)
    by (auto simp: var_lookup_None scope_ok_def)
qed (use assms in simp)

definition one_scope :: "bool \<Rightarrow> sf_scope" where
  "one_scope b = \<lparr>sc_stack = [[\<lparr>vs_name = ''x'', vs_type = SF_VAL_TYPE_I32, vs_initialized = b, vs_depth = 0, vs_id = 0,
     vs_span = sf_span_zero, vs_qualifiers = no_qualifiers\<rparr>]], sc_capacity = 8, sc_next_id = 1, sc_failed_pushes = 0\<rparr>"

lemma one_scope_ok: "scope_ok (one_scope b)"
  by (simp add: scope_ok_def one_scope_def)

lemma scope_insert_declares_witness:
  "fst (scope_insert (one_scope True) ((hd (hd (sc_stack (one_scope True))))\<lparr>vs_type := SF_VAL_TYPE_U8\<rparr>) ''m'' sf_log_init)
   = one_scope True"
proof -
  obtain s' g' where ins: "scope_insert (one_scope True) ((hd (hd (sc_stack (one_scope True))))\<lparr>vs_type := SF_VAL_TYPE_U8\<rparr>) ''m'' sf_log_init = (s', g')"
    by fastforce
  show ?thesis
    using scope_insert_declares [OF one_scope_ok _ ins] ins by (simp add: one_scope_def)
qed

text \<open>C23: Joining the flow of two branches. When both branches start from the same well-formed scope
  and keep its declarations, saving their flow states, combining them with \<^verbatim>\<open>scope_flow_and\<close> and
  restoring the result initialises exactly the variables that both branches initialise, and
  changes no declaration.\<close>

theorem flow_join_intersects:
  assumes "scope_ok s" "same_decls s a" "same_decls s b"
  shows "same_decls s (scope_flow_restore b
      (scope_flow_and (scope_flow_save (\<lambda>_. True) a) (scope_flow_save (\<lambda>_. True) b))) \<and>
    initialized_ids (scope_flow_restore b
      (scope_flow_and (scope_flow_save (\<lambda>_. True) a) (scope_flow_save (\<lambda>_. True) b))) =
    initialized_ids a \<inter> initialized_ids b"
  using flow_join_saved [OF assms(1), of a b] assms(2,3) same_decls_trans [OF assms(3) flow_restore_decls]
  by (simp add: same_decls_def)

lemma flow_join_intersects_witness:
  "initialized_ids (one_scope True) = {0} \<and> initialized_ids (one_scope False) = {} \<and>
   initialized_ids (scope_flow_restore (one_scope False)
      (scope_flow_and (scope_flow_save (\<lambda>_. True) (one_scope True)) (scope_flow_save (\<lambda>_. True) (one_scope False)))) = {}"
proof -
  have "initialized_ids (one_scope True) = {0}" "initialized_ids (one_scope False) = {}"
    by (simp_all add: initialized_ids_def one_scope_def)
  moreover have "same_decls (one_scope False) (one_scope True)"
    by (simp add: same_decls_def scope_decls_def one_scope_def sym_decl_def)
  ultimately show ?thesis
    using flow_join_intersects [OF one_scope_ok, of False "one_scope True" "one_scope False"] by auto
qed

end
