(* ===== verification/Const_Eval.thy ===== *)
theory Const_Eval
  imports Ast "HOL-Library.Signed_Division"
begin

text \<open>
  Evaluation of constant expressions, \<^verbatim>\<open>frontend/semantic/semantic_const.c\<close>. \<^verbatim>\<open>int64_t\<close> is a
  64-bit word read by \<open>sint\<close>; comparisons of such words are the signed ones (\<open>word_sless\<close>,
  \<open>word_sle\<close>), division truncates and the right shift is arithmetic, as on the compilers the
  sources are built with. An evaluator that returns \<^verbatim>\<open>false\<close> is \<open>None\<close>. The section \<open>Reference\<close>
  evaluates the same expressions over the integers; the two agree on every tree.
\<close>

section \<open>Evaluators\<close>

abbreviation INT64_MAX :: int64 where "INT64_MAX \<equiv> 9223372036854775807"
abbreviation INT64_MIN :: int64 where "INT64_MIN \<equiv> - 9223372036854775808"
abbreviation UINT64_MAX :: uint64 where "UINT64_MAX \<equiv> 18446744073709551615"

fun literal_magnitude :: "sf_expr \<Rightarrow> uint64 option" where
  "literal_magnitude (SF_NODE_LITERAL _ token_type value) =
     (if token_type = SF_TOKEN_TYPE_INTEGER then strtoull10 value else None)"
| "literal_magnitude _ = None"

fun eval_uint_binary :: "sf_ir_operation_type \<Rightarrow> uint64 \<Rightarrow> uint64 \<Rightarrow> uint64 option" where
  "eval_uint_binary SF_OP_TYPE_ADD l r = (if UINT64_MAX - l < r then None else Some (l + r))"
| "eval_uint_binary SF_OP_TYPE_SUB l r = (if l < r then None else Some (l - r))"
| "eval_uint_binary SF_OP_TYPE_MUL l r = (if l \<noteq> 0 \<and> UINT64_MAX div l < r then None else Some (l * r))"
| "eval_uint_binary SF_OP_TYPE_DIV l r = (if r = 0 then None else Some (l div r))"
| "eval_uint_binary SF_OP_TYPE_BITWISE_LSHIFT l r = (if 64 \<le> r then None else Some (push_bit (unat r) l))"
| "eval_uint_binary SF_OP_TYPE_BITWISE_RSHIFT l r = (if 64 \<le> r then None else Some (drop_bit (unat r) l))"
| "eval_uint_binary SF_OP_TYPE_BITWISE_AND l r = Some (l AND r)"
| "eval_uint_binary SF_OP_TYPE_BITWISE_OR l r = Some (l OR r)"
| "eval_uint_binary SF_OP_TYPE_BITWISE_XOR l r = Some (l XOR r)"
| "eval_uint_binary _ l r = None"

definition mul_overflow :: "int64 \<Rightarrow> int64 \<Rightarrow> bool" where
  "mul_overflow l r \<longleftrightarrow> sint (l * r) \<noteq> sint l * sint r"

definition c_sdiv :: "int64 \<Rightarrow> int64 \<Rightarrow> int64" where
  "c_sdiv l r = word_of_int (sint l sdiv sint r)"

fun eval_int_binary :: "sf_ir_operation_type \<Rightarrow> int64 \<Rightarrow> int64 \<Rightarrow> int64 option" where
  "eval_int_binary SF_OP_TYPE_ADD l r =
     (if 0 <s r \<and> INT64_MAX - r <s l then None
      else if r <s 0 \<and> l <s INT64_MIN - r then None else Some (l + r))"
| "eval_int_binary SF_OP_TYPE_SUB l r =
     (if r <s 0 \<and> INT64_MAX + r <s l then None
      else if 0 <s r \<and> l <s INT64_MIN + r then None else Some (l - r))"
| "eval_int_binary SF_OP_TYPE_MUL l r = (if mul_overflow l r then None else Some (l * r))"
| "eval_int_binary SF_OP_TYPE_DIV l r =
     (if r = 0 then None else if l = INT64_MIN \<and> r = - 1 then None else Some (c_sdiv l r))"
| "eval_int_binary SF_OP_TYPE_BITWISE_LSHIFT l r =
     (if r <s 0 \<or> 64 <=s r then None else Some (push_bit (unat r) l))"
| "eval_int_binary SF_OP_TYPE_BITWISE_RSHIFT l r =
     (if r <s 0 \<or> 64 <=s r then None else Some (signed_drop_bit (unat r) l))"
| "eval_int_binary SF_OP_TYPE_BITWISE_AND l r = Some (l AND r)"
| "eval_int_binary SF_OP_TYPE_BITWISE_OR l r = Some (l OR r)"
| "eval_int_binary SF_OP_TYPE_BITWISE_XOR l r = Some (l XOR r)"
| "eval_int_binary _ l r = None"

fun sf_const_eval_uint :: "sf_expr \<Rightarrow> uint64 option" where
  "sf_const_eval_uint (SF_NODE_LITERAL b t v) = literal_magnitude (SF_NODE_LITERAL b t v)"
| "sf_const_eval_uint (SF_NODE_BINARY _ left right op) =
     (case sf_const_eval_uint left of
        None \<Rightarrow> None
      | Some l \<Rightarrow> (case sf_const_eval_uint right of None \<Rightarrow> None | Some r \<Rightarrow> eval_uint_binary op l r))"
| "sf_const_eval_uint _ = None"

definition is_literal :: "sf_expr \<Rightarrow> bool" where
  "is_literal e \<longleftrightarrow> (case e of SF_NODE_LITERAL _ _ _ \<Rightarrow> True | _ \<Rightarrow> False)"

text \<open>\<^verbatim>\<open>eval_int_negate\<close>; \<open>child\<close> is the value of the operand, which it evaluates when the operand
  is not a literal.\<close>

definition eval_int_negate :: "sf_ir_operation_type \<Rightarrow> sf_expr \<Rightarrow> int64 option \<Rightarrow> int64 option" where
  "eval_int_negate op operand child =
     (if op \<noteq> SF_OP_TYPE_NEGATE then None
      else if is_literal operand
      then (case literal_magnitude operand of
              None \<Rightarrow> None
            | Some magnitude \<Rightarrow>
                if INT64_MAX + 1 < magnitude then None
                else Some (if magnitude = INT64_MAX + 1 then INT64_MIN else - magnitude))
      else (case child of
              None \<Rightarrow> None
            | Some c \<Rightarrow> if c = INT64_MIN then None else Some (- c)))"

fun sf_const_eval_int :: "sf_expr \<Rightarrow> int64 option" where
  "sf_const_eval_int (SF_NODE_LITERAL b t v) =
     (case literal_magnitude (SF_NODE_LITERAL b t v) of
        None \<Rightarrow> None
      | Some magnitude \<Rightarrow> if INT64_MAX < magnitude then None else Some magnitude)"
| "sf_const_eval_int (SF_NODE_UNARY _ operand op) = eval_int_negate op operand (sf_const_eval_int operand)"
| "sf_const_eval_int (SF_NODE_BINARY _ left right op) =
     (case sf_const_eval_int left of
        None \<Rightarrow> None
      | Some l \<Rightarrow> (case sf_const_eval_int right of None \<Rightarrow> None | Some r \<Rightarrow> eval_int_binary op l r))"
| "sf_const_eval_int _ = None"

fun compare_int :: "sf_ir_operation_type \<Rightarrow> int64 \<Rightarrow> int64 \<Rightarrow> bool option" where
  "compare_int SF_OP_TYPE_RELATIONAL_EQUAL l r = Some (l = r)"
| "compare_int SF_OP_TYPE_RELATIONAL_NOT_EQUAL l r = Some (l \<noteq> r)"
| "compare_int SF_OP_TYPE_RELATIONAL_LESS l r = Some (l <s r)"
| "compare_int SF_OP_TYPE_RELATIONAL_LESS_EQUAL l r = Some (l <=s r)"
| "compare_int SF_OP_TYPE_RELATIONAL_GREATER l r = Some (r <s l)"
| "compare_int SF_OP_TYPE_RELATIONAL_GREATER_EQUAL l r = Some (r <=s l)"
| "compare_int _ l r = None"

fun compare_uint :: "sf_ir_operation_type \<Rightarrow> uint64 \<Rightarrow> uint64 \<Rightarrow> bool option" where
  "compare_uint SF_OP_TYPE_RELATIONAL_EQUAL l r = Some (l = r)"
| "compare_uint SF_OP_TYPE_RELATIONAL_NOT_EQUAL l r = Some (l \<noteq> r)"
| "compare_uint SF_OP_TYPE_RELATIONAL_LESS l r = Some (l < r)"
| "compare_uint SF_OP_TYPE_RELATIONAL_LESS_EQUAL l r = Some (l \<le> r)"
| "compare_uint SF_OP_TYPE_RELATIONAL_GREATER l r = Some (r < l)"
| "compare_uint SF_OP_TYPE_RELATIONAL_GREATER_EQUAL l r = Some (r \<le> l)"
| "compare_uint _ l r = None"

text \<open>\<^verbatim>\<open>eval_relational\<close> and \<^verbatim>\<open>eval_bool_binary\<close>; \<open>lb\<close> and \<open>rb\<close> are the values of the operands as
  booleans, which the C code computes where they are used.\<close>

definition eval_relational ::
  "sf_expr \<Rightarrow> sf_expr \<Rightarrow> sf_ir_operation_type \<Rightarrow> bool option \<Rightarrow> bool option \<Rightarrow> bool option" where
  "eval_relational left right op lb rb =
     (let type = expr_resolved left
      in if type = SF_VAL_TYPE_BOOL
         then (if op \<noteq> SF_OP_TYPE_RELATIONAL_EQUAL \<and> op \<noteq> SF_OP_TYPE_RELATIONAL_NOT_EQUAL then None
               else (case lb of
                       None \<Rightarrow> None
                     | Some l \<Rightarrow> (case rb of
                         None \<Rightarrow> None
                       | Some r \<Rightarrow> Some (if op = SF_OP_TYPE_RELATIONAL_EQUAL then l = r else l \<noteq> r))))
         else if sf_type_value_is_signed type
         then (case sf_const_eval_int left of
                 None \<Rightarrow> None
               | Some l \<Rightarrow> (case sf_const_eval_int right of None \<Rightarrow> None | Some r \<Rightarrow> compare_int op l r))
         else (case sf_const_eval_uint left of
                 None \<Rightarrow> None
               | Some l \<Rightarrow> (case sf_const_eval_uint right of None \<Rightarrow> None | Some r \<Rightarrow> compare_uint op l r)))"

definition eval_bool_binary ::
  "sf_expr \<Rightarrow> sf_expr \<Rightarrow> sf_ir_operation_type \<Rightarrow> bool option \<Rightarrow> bool option \<Rightarrow> bool option" where
  "eval_bool_binary left right op lb rb =
     (if sf_op_is_logical op
      then (case lb of
              None \<Rightarrow> None
            | Some l \<Rightarrow> (case rb of
                None \<Rightarrow> None
              | Some r \<Rightarrow> Some (if op = SF_OP_TYPE_LOGICAL_AND then l \<and> r else l \<or> r)))
      else if sf_op_is_relational op then eval_relational left right op lb rb
      else None)"

fun sf_const_eval_bool :: "sf_expr \<Rightarrow> bool option" where
  "sf_const_eval_bool (SF_NODE_LITERAL _ token_type _) =
     (if token_type = SF_TOKEN_TYPE_KW_TRUE then Some True
      else if token_type = SF_TOKEN_TYPE_KW_FALSE then Some False else None)"
| "sf_const_eval_bool (SF_NODE_UNARY _ operand op) =
     (if op \<noteq> SF_OP_TYPE_LOGICAL_NOT then None else map_option Not (sf_const_eval_bool operand))"
| "sf_const_eval_bool (SF_NODE_BINARY _ left right op) =
     eval_bool_binary left right op (sf_const_eval_bool left) (sf_const_eval_bool right)"
| "sf_const_eval_bool _ = None"

section \<open>Checks\<close>

text \<open>\<^verbatim>\<open>%lld\<close>\<close>

definition signed_digits :: "int \<Rightarrow> string" where
  "signed_digits v = (if v < 0 then CHR ''-'' # dec_digits (nat (- v)) else dec_digits (nat v))"

fun signed_fits :: "sf_value_type \<Rightarrow> int64 \<Rightarrow> bool" where
  "signed_fits SF_VAL_TYPE_I8 value = (- 128 <=s value \<and> value <=s 127)"
| "signed_fits SF_VAL_TYPE_I16 value = (- 32768 <=s value \<and> value <=s 32767)"
| "signed_fits SF_VAL_TYPE_I32 value = (- 2147483648 <=s value \<and> value <=s 2147483647)"
| "signed_fits _ value = True"

definition check_signed_overflow ::
  "sf_expr \<Rightarrow> sf_value_type \<Rightarrow> string \<Rightarrow> sf_log_state \<Rightarrow> bool \<times> sf_log_state" where
  "check_signed_overflow node resolved filename g =
     (case sf_const_eval_int node of
        None \<Rightarrow> (True, g)
      | Some value \<Rightarrow>
          if signed_fits resolved value then (True, g)
          else (False, sf_log (Some filename) SF_LOG_SEMANTIC_LITERAL_OVERFLOW (expr_span node)
                         SF_LOG_SEVERITY_ERROR [signed_digits (sint value), sf_type_value_name resolved] g))"

definition check_unsigned_overflow ::
  "sf_expr \<Rightarrow> sf_value_type \<Rightarrow> string \<Rightarrow> sf_log_state \<Rightarrow> bool \<times> sf_log_state" where
  "check_unsigned_overflow node resolved filename g =
     (case sf_const_eval_uint node of
        None \<Rightarrow>
          (case node of
             SF_NODE_BINARY _ left right op \<Rightarrow>
               if op \<noteq> SF_OP_TYPE_SUB then (True, g)
               else (case (sf_const_eval_uint left, sf_const_eval_uint right) of
                       (Some l, Some r) \<Rightarrow>
                         if l < r
                         then (False, sf_log (Some filename) SF_LOG_SEMANTIC_LITERAL_OVERFLOW (expr_span node)
                                        SF_LOG_SEVERITY_ERROR [dec_digits (unat l), dec_digits (unat r)] g)
                         else (True, g)
                     | _ \<Rightarrow> (True, g))
           | _ \<Rightarrow> (True, g))
      | Some value \<Rightarrow>
          if sf_type_value_uint_literal_fits resolved value then (True, g)
          else (False, sf_log (Some filename) SF_LOG_SEMANTIC_LITERAL_OVERFLOW (expr_span node)
                         SF_LOG_SEVERITY_ERROR [dec_digits (unat value), sf_type_value_name resolved] g))"

definition sf_const_check_overflow ::
  "sf_expr \<Rightarrow> sf_value_type \<Rightarrow> string \<Rightarrow> sf_log_state \<Rightarrow> bool \<times> sf_log_state" where
  "sf_const_check_overflow node resolved filename g =
     (if sf_type_value_is_signed resolved then check_signed_overflow node resolved filename g
      else check_unsigned_overflow node resolved filename g)"

definition sf_const_is_zero :: "sf_expr \<Rightarrow> bool \<Rightarrow> bool" where
  "sf_const_is_zero node is_signed =
     (if is_signed then sf_const_eval_int node = Some 0 else sf_const_eval_uint node = Some 0)"

definition sf_const_warn :: "string \<Rightarrow> sf_expr \<Rightarrow> sf_log_state \<Rightarrow> sf_log_state" where
  "sf_const_warn filename node g =
     (case sf_const_eval_bool node of
        None \<Rightarrow> g
      | Some b \<Rightarrow> sf_log (Some filename) SF_LOG_SEMANTIC_CONSTANT_EXPR (expr_span node)
                    SF_LOG_SEVERITY_WARNING [if b then ''true'' else ''false''] g)"

section \<open>Reference\<close>

text \<open>The operations over the integers, with a result outside the type's range refused. A left
  shift is the one operation whose result is cut to the width (\<open>wrap\<close>) instead.\<close>

definition in_range :: "int \<Rightarrow> int \<Rightarrow> int \<Rightarrow> int option" where
  "in_range lo hi v = (if lo \<le> v \<and> v \<le> hi then Some v else None)"

fun const_op :: "int \<Rightarrow> int \<Rightarrow> (int \<Rightarrow> int) \<Rightarrow> sf_ir_operation_type \<Rightarrow> int \<Rightarrow> int \<Rightarrow> int option" where
  "const_op lo hi wrap SF_OP_TYPE_ADD a b = in_range lo hi (a + b)"
| "const_op lo hi wrap SF_OP_TYPE_SUB a b = in_range lo hi (a - b)"
| "const_op lo hi wrap SF_OP_TYPE_MUL a b = in_range lo hi (a * b)"
| "const_op lo hi wrap SF_OP_TYPE_DIV a b = (if b = 0 then None else in_range lo hi (a sdiv b))"
| "const_op lo hi wrap SF_OP_TYPE_BITWISE_LSHIFT a b =
     (if 0 \<le> b \<and> b < 64 then Some (wrap (a * 2 ^ nat b)) else None)"
| "const_op lo hi wrap SF_OP_TYPE_BITWISE_RSHIFT a b =
     (if 0 \<le> b \<and> b < 64 then Some (drop_bit (nat b) a) else None)"
| "const_op lo hi wrap SF_OP_TYPE_BITWISE_AND a b = Some (a AND b)"
| "const_op lo hi wrap SF_OP_TYPE_BITWISE_OR a b = Some (a OR b)"
| "const_op lo hi wrap SF_OP_TYPE_BITWISE_XOR a b = Some (a XOR b)"
| "const_op lo hi wrap _ a b = None"

abbreviation int64_op :: "sf_ir_operation_type \<Rightarrow> int \<Rightarrow> int \<Rightarrow> int option" where
  "int64_op \<equiv> const_op (- (2 ^ 63)) (2 ^ 63 - 1) (signed_take_bit 63)"

abbreviation uint64_op :: "sf_ir_operation_type \<Rightarrow> int \<Rightarrow> int \<Rightarrow> int option" where
  "uint64_op \<equiv> const_op 0 (2 ^ 64 - 1) (take_bit 64)"

definition literal_value :: "sf_expr \<Rightarrow> int option" where
  "literal_value e = map_option uint (literal_magnitude e)"

fun const_int :: "sf_expr \<Rightarrow> int option" where
  "const_int (SF_NODE_LITERAL b t v) =
     Option.bind (literal_value (SF_NODE_LITERAL b t v)) (in_range (- (2 ^ 63)) (2 ^ 63 - 1))"
| "const_int (SF_NODE_UNARY _ operand op) =
     (if op = SF_OP_TYPE_NEGATE
      then Option.bind (if is_literal operand then literal_value operand else const_int operand)
             (\<lambda>v. in_range (- (2 ^ 63)) (2 ^ 63 - 1) (- v))
      else None)"
| "const_int (SF_NODE_BINARY _ left right op) =
     Option.bind (const_int left) (\<lambda>l. Option.bind (const_int right) (int64_op op l))"
| "const_int _ = None"

fun const_uint :: "sf_expr \<Rightarrow> int option" where
  "const_uint (SF_NODE_LITERAL b t v) = literal_value (SF_NODE_LITERAL b t v)"
| "const_uint (SF_NODE_BINARY _ left right op) =
     Option.bind (const_uint left) (\<lambda>l. Option.bind (const_uint right) (uint64_op op l))"
| "const_uint _ = None"

subsection \<open>Signed operations\<close>

lemma sint64_bounds: "- (2 ^ 63) \<le> sint (x :: int64)" "sint (x :: int64) < 2 ^ 63"
  using sint_ge [of x] sint_lt [of x] by simp_all

lemma stb63: "- (2 ^ 63) \<le> (v :: int) \<Longrightarrow> v < 2 ^ 63 \<Longrightarrow> signed_take_bit 63 v = v"
  by (rule signed_take_bit_int_eq_self)

lemma sint64_consts [simp]:
  "sint INT64_MAX = 2 ^ 63 - 1" "sint INT64_MIN = - (2 ^ 63)"
  by simp_all

lemma sint64_of_int: "- (2 ^ 63) \<le> v \<Longrightarrow> v < 2 ^ 63 \<Longrightarrow> sint (word_of_int v :: int64) = v"
  by (simp add: sint_sbintrunc' stb63)

lemma int64_add: "map_option sint (eval_int_binary SF_OP_TYPE_ADD l r) = int64_op SF_OP_TYPE_ADD (sint l) (sint r)"
proof -
  have 1: "sint (INT64_MAX - r) = 2 ^ 63 - 1 - sint r" if "0 < sint r"
    using that sint64_bounds [of r] by (simp only: sint_word_diff sint64_consts) (simp add: stb63)
  have 2: "sint (INT64_MIN - r) = - (2 ^ 63) - sint r" if "sint r < 0"
    using that sint64_bounds [of r] by (simp only: sint_word_diff sint64_consts) (simp add: stb63)
  have 3: "sint (l + r) = sint l + sint r" if "- (2 ^ 63) \<le> sint l + sint r" "sint l + sint r < 2 ^ 63"
    using that by (simp add: sint_word_add stb63)
  consider "0 < sint r" | "sint r < 0" | "sint r = 0" by linarith
  then show ?thesis
    using 1 2 3 sint64_bounds [of l] sint64_bounds [of r]
    by cases (simp_all only: eval_int_binary.simps const_op.simps word_sless_alt in_range_def, simp_all)
qed

lemma int64_sub: "map_option sint (eval_int_binary SF_OP_TYPE_SUB l r) = int64_op SF_OP_TYPE_SUB (sint l) (sint r)"
proof -
  have 1: "sint (INT64_MAX + r) = 2 ^ 63 - 1 + sint r" if "sint r < 0"
    using that sint64_bounds [of r] by (simp only: sint_word_add sint64_consts) (simp add: stb63)
  have 2: "sint (INT64_MIN + r) = - (2 ^ 63) + sint r" if "0 < sint r"
    using that sint64_bounds [of r] by (simp only: sint_word_add sint64_consts) (simp add: stb63)
  have 3: "sint (l - r) = sint l - sint r" if "- (2 ^ 63) \<le> sint l - sint r" "sint l - sint r < 2 ^ 63"
    using that by (simp add: sint_word_diff stb63)
  consider "0 < sint r" | "sint r < 0" | "sint r = 0" by linarith
  then show ?thesis
    using 1 2 3 sint64_bounds [of l] sint64_bounds [of r]
    by cases (simp_all only: eval_int_binary.simps const_op.simps word_sless_alt in_range_def, simp_all)
qed

lemma int64_mul: "map_option sint (eval_int_binary SF_OP_TYPE_MUL l r) = int64_op SF_OP_TYPE_MUL (sint l) (sint r)"
proof -
  have "mul_overflow l r \<longleftrightarrow> \<not> (- (2 ^ 63) \<le> sint l * sint r \<and> sint l * sint r \<le> 2 ^ 63 - 1)"
    using sint64_bounds [of "l * r"] stb63 [of "sint l * sint r"]
    by (auto simp: mul_overflow_def sint_word_mult)
  then show ?thesis by (auto simp: in_range_def mul_overflow_def)
qed

lemma abs_sdiv_int: "\<bar>a sdiv b\<bar> = \<bar>a\<bar> div \<bar>b\<bar>" for a b :: int
proof (cases "a = 0 \<or> b = 0")
  case False
  then have "0 \<le> \<bar>a\<bar> div \<bar>b\<bar>" by (simp add: pos_imp_zdiv_nonneg_iff)
  with False show ?thesis by (simp add: signed_divide_int_def abs_mult abs_sgn_eq)
qed auto

lemma sdiv_int64_bounds:
  fixes a b :: int
  assumes "- (2 ^ 63) \<le> a" "a < 2 ^ 63" "b \<noteq> 0" "b \<noteq> - 1 \<or> a \<noteq> - (2 ^ 63)"
  shows "- (2 ^ 63) \<le> a sdiv b" "a sdiv b < 2 ^ 63"
proof -
  have "- (2 ^ 63) \<le> a sdiv b \<and> a sdiv b < 2 ^ 63"
  proof (cases "b = 1 \<or> b = - 1")
    case True
    then show ?thesis using assms by auto
  next
    case False
    have "\<bar>a\<bar> div \<bar>b\<bar> \<le> \<bar>a\<bar> div 2" using False assms(3) by (intro zdiv_mono2) auto
    also have "\<dots> \<le> 2 ^ 63 div 2" using assms(1,2) by (intro zdiv_mono1) auto
    finally have "\<bar>a sdiv b\<bar> \<le> 2 ^ 62" by (simp add: abs_sdiv_int)
    moreover have "(2 :: int) ^ 62 < 2 ^ 63" by simp
    ultimately show ?thesis by (simp only: abs_le_iff) linarith
  qed
  then show "- (2 ^ 63) \<le> a sdiv b" "a sdiv b < 2 ^ 63" by blast+
qed

lemma sint64_eq: "a = b \<longleftrightarrow> sint a = sint (b :: int64)"
  using signed_word_eqI by auto

lemma int64_div: "map_option sint (eval_int_binary SF_OP_TYPE_DIV l r) = int64_op SF_OP_TYPE_DIV (sint l) (sint r)"
proof (cases "sint r = 0")
  case False
  have min: "l = INT64_MIN \<and> r = - 1 \<longleftrightarrow> sint l = - (2 ^ 63) \<and> sint r = - 1"
    by (simp add: sint64_eq)
  have zero: "r = 0 \<longleftrightarrow> sint r = 0" by (simp add: sint64_eq)
  show ?thesis
  proof (cases "sint l = - (2 ^ 63) \<and> sint r = - 1")
    case True
    then show ?thesis using min by (simp add: in_range_def)
  next
    case in_range: False
    have "- (2 ^ 63) \<le> sint l sdiv sint r" "sint l sdiv sint r < 2 ^ 63"
      using sdiv_int64_bounds [of "sint l" "sint r"] sint64_bounds [of l] False in_range by auto
    then show ?thesis using False in_range min zero
      by (simp add: in_range_def c_sdiv_def sint64_of_int del: sint64_consts)
  qed
qed (simp add: sint64_eq)

lemma int64_shift_guard: "r <s 0 \<or> 64 <=s r \<longleftrightarrow> \<not> (0 \<le> sint r \<and> sint r < 64)" for r :: int64
  by (auto simp: word_sless_alt word_sle_eq)

lemma unat_nat_sint: "0 \<le> sint r \<Longrightarrow> unat r = nat (sint r)" for r :: int64
  using sint64_bounds [of r] uint_sint [of r] by (simp add: take_bit_int_eq_self unat_eq_nat_uint)

lemma sint_push_bit64: "sint (push_bit n l) = signed_take_bit 63 (sint l * 2 ^ n)" for l :: int64
proof -
  have "push_bit n l = word_of_int (sint l * 2 ^ n)" by (simp add: push_bit_eq_mult)
  then show ?thesis by (simp only: sint_sbintrunc') simp
qed

lemma eval_int_binary_ref: "map_option sint (eval_int_binary op l r) = int64_op op (sint l) (sint r)"
proof (cases op)
  case SF_OP_TYPE_BITWISE_LSHIFT
  then show ?thesis using int64_shift_guard [of r] by (simp add: sint_push_bit64 unat_nat_sint)
next
  case SF_OP_TYPE_BITWISE_RSHIFT
  then show ?thesis using int64_shift_guard [of r] by (simp add: sint_signed_drop_bit_eq unat_nat_sint)
qed (simp_all only: int64_add int64_sub int64_mul int64_div,
     simp_all add: signed_and_eq signed_or_eq signed_xor_eq)

subsection \<open>Unsigned operations\<close>

lemma uint64_bounds: "0 \<le> uint (x :: uint64)" "uint (x :: uint64) < 2 ^ 64"
  using uint_lt2p [of x] by simp_all

lemma uint64_numeral: "0 \<le> uint (x :: uint64) \<and> uint x < 18446744073709551616"
  using uint64_bounds [of x] by simp

lemma uint64_low: "- 9223372036854775808 \<le> uint (x :: uint64)" "- uint x \<le> 9223372036854775807"
  using uint64_numeral [of x] by linarith+

lemma uint64_max: "uint UINT64_MAX = 2 ^ 64 - 1"
  by simp

lemmas uint64_ariths = uint_word_ariths [where ?'a = 64, simplified]

lemma less_div_int: "0 < b \<Longrightarrow> a div b < c \<longleftrightarrow> a < c * b" for a b c :: int
proof -
  assume b: "0 < b"
  have a: "a = a div b * b + a mod b" "0 \<le> a mod b" "a mod b < b" using b by simp_all
  show "a div b < c \<longleftrightarrow> a < c * b"
  proof
    assume "a div b < c"
    then have "(a div b + 1) * b \<le> c * b" using b by (intro mult_right_mono) auto
    then have "a div b * b + b \<le> c * b" by (simp add: distrib_right)
    then show "a < c * b" using a by linarith
  next
    assume "a < c * b"
    then have "a div b * b < c * b" using a by linarith
    then show "a div b < c" using b by simp
  qed
qed

lemma uint64_add: "map_option uint (eval_uint_binary SF_OP_TYPE_ADD l r) = uint64_op SF_OP_TYPE_ADD (uint l) (uint r)"
proof -
  have "uint (UINT64_MAX - l) = 2 ^ 64 - 1 - uint l"
    by (simp add: uint64_ariths) (rule mod_pos_pos_trivial; insert uint64_numeral [of l]; linarith)
  then show ?thesis
    using uint64_bounds [of l] uint64_bounds [of r]
    by (auto simp: in_range_def word_less_alt uint64_ariths)
qed

lemma uint64_sub: "map_option uint (eval_uint_binary SF_OP_TYPE_SUB l r) = uint64_op SF_OP_TYPE_SUB (uint l) (uint r)"
proof -
  have "uint l - uint r \<le> 18446744073709551615" using uint64_numeral [of l] uint64_numeral [of r] by linarith
  moreover have "\<not> uint l < uint r \<Longrightarrow> uint (l - r) = uint l - uint r" by (simp flip: uint_sub_lem)
  ultimately show ?thesis by (simp add: in_range_def word_less_alt)
qed

lemma uint64_mul: "map_option uint (eval_uint_binary SF_OP_TYPE_MUL l r) = uint64_op SF_OP_TYPE_MUL (uint l) (uint r)"
proof -
  have "l \<noteq> 0 \<and> UINT64_MAX div l < r \<longleftrightarrow> 2 ^ 64 - 1 < uint l * uint r"
  proof (cases "l = 0")
    case False
    then have "0 < uint l" using uint64_bounds [of l] by (simp add: uint_0_iff order_less_le)
    then show ?thesis using False less_div_int [of "uint l" "2 ^ 64 - 1" "uint r"]
      by (simp add: word_less_alt uint_div_distrib mult.commute)
  qed simp
  moreover have "0 \<le> uint l * uint r" by simp
  ultimately show ?thesis by (auto simp: in_range_def uint64_ariths)
qed

lemma uint64_div: "map_option uint (eval_uint_binary SF_OP_TYPE_DIV l r) = uint64_op SF_OP_TYPE_DIV (uint l) (uint r)"
proof (cases "uint r = 0")
  case True
  then show ?thesis by (simp add: uint_0_iff)
next
  case False
  then have r: "0 < uint r" using uint64_numeral [of r] by linarith
  have "uint l div uint r \<le> uint l"
  proof (cases "uint l = 0")
    case False
    then have "0 < uint l" using uint64_numeral [of l] by linarith
    then show ?thesis by (rule int_div_le_self)
  qed simp
  then have "uint l div uint r \<le> 18446744073709551615" using uint64_numeral [of l] by linarith
  moreover have "0 \<le> uint l div uint r" using r by (simp add: pos_imp_zdiv_nonneg_iff)
  moreover have "uint l sdiv uint r = uint l div uint r"
    using r uint64_numeral [of l] by (auto simp: signed_divide_int_def sgn_if)
  ultimately show ?thesis using False by (simp add: in_range_def uint_div_distrib uint_0_iff)
qed

lemma uint64_shift_guard: "64 \<le> r \<longleftrightarrow> \<not> (0 \<le> uint r \<and> uint r < 64)" for r :: uint64
  by (simp add: word_le_def not_less)

lemma uint64_shl:
  "map_option uint (eval_uint_binary SF_OP_TYPE_BITWISE_LSHIFT l r) = uint64_op SF_OP_TYPE_BITWISE_LSHIFT (uint l) (uint r)"
proof -
  have "uint (push_bit n l) = take_bit 64 (uint l * 2 ^ n)" for n
    by (subst unsigned_push_bit_eq) (simp add: push_bit_eq_mult)
  then show ?thesis using uint64_shift_guard [of r] by simp
qed

lemma uint64_shr:
  "map_option uint (eval_uint_binary SF_OP_TYPE_BITWISE_RSHIFT l r) = uint64_op SF_OP_TYPE_BITWISE_RSHIFT (uint l) (uint r)"
proof -
  have "take_bit 64 (uint l) = uint l" using uint64_bounds [of l] by (intro take_bit_int_eq_self)
  then show ?thesis using uint64_shift_guard [of r]
    by (simp add: unsigned_drop_bit_eq)
qed

lemma eval_uint_binary_ref: "map_option uint (eval_uint_binary op l r) = uint64_op op (uint l) (uint r)"
  by (cases op) (simp_all only: uint64_add uint64_sub uint64_mul uint64_div uint64_shl uint64_shr,
    simp_all add: unsigned_and_eq unsigned_or_eq unsigned_xor_eq)

subsection \<open>The evaluators\<close>

lemma literal_uint: "map_option uint (literal_magnitude e) = literal_value e"
  by (simp add: literal_value_def)

lemma int64_max_uint: "INT64_MAX < m \<longleftrightarrow> 2 ^ 63 \<le> uint m" for m :: uint64
  by (auto simp: word_less_alt)

lemma sint_small: "uint m < 2 ^ 63 \<Longrightarrow> sint m = uint m" for m :: int64
  using uint64_low [of m] by (simp add: sint_uint signed_take_bit_int_eq_self)

lemma sint_negated: "uint m \<le> 2 ^ 63 \<Longrightarrow> sint (- m) = - uint m" for m :: int64
proof -
  assume m: "uint m \<le> 2 ^ 63"
  have "- m = word_of_int (- uint m)" by simp
  moreover have "sint (word_of_int (- uint m) :: int64) = - uint m"
    by (rule sint64_of_int) (use m uint64_low [of m] in simp_all)
  ultimately show ?thesis by simp
qed

lemma const_eval_int_literal:
  "map_option sint (sf_const_eval_int (SF_NODE_LITERAL b t v)) = const_int (SF_NODE_LITERAL b t v)"
proof (cases "literal_magnitude (SF_NODE_LITERAL b t v)")
  case (Some m)
  show ?thesis
    using Some sint_small [of m] uint64_low [of m]
    by (simp add: literal_value_def in_range_def int64_max_uint del: literal_magnitude.simps)
qed (simp add: literal_value_def del: literal_magnitude.simps)

lemma eval_int_negate_ref:
  assumes "map_option sint child = const_int operand"
  shows "map_option sint (eval_int_negate op operand child) =
    (if op = SF_OP_TYPE_NEGATE
     then Option.bind (if is_literal operand then literal_value operand else const_int operand)
            (\<lambda>v. in_range (- (2 ^ 63)) (2 ^ 63 - 1) (- v))
     else None)"
proof (cases "op = SF_OP_TYPE_NEGATE")
  case neg: True
  show ?thesis
  proof (cases "is_literal operand")
    case True
    show ?thesis
    proof (cases "literal_magnitude operand")
      case (Some m)
      have "INT64_MAX + 1 < m \<longleftrightarrow> 2 ^ 63 < uint m" by (simp add: word_less_alt)
      moreover have "(if m = INT64_MAX + 1 then INT64_MIN else - m) = - m" by simp
      ultimately show ?thesis
        using neg True Some sint_negated [of m] uint64_low [of m]
        by (simp add: eval_int_negate_def literal_value_def in_range_def)
    qed (use neg True in \<open>simp add: eval_int_negate_def literal_value_def\<close>)
  next
    case False
    show ?thesis
    proof (cases child)
      case (Some c)
      have "c = INT64_MIN \<longleftrightarrow> sint c = - (2 ^ 63)" by (simp add: sint64_eq)
      moreover have "sint (- c) = - sint c" if "sint c \<noteq> - (2 ^ 63)"
        using that sint64_bounds [of c] by (simp add: sint_word_minus signed_take_bit_int_eq_self)
      ultimately show ?thesis
        using neg False Some assms [symmetric] sint64_bounds [of c]
        by (auto simp: eval_int_negate_def in_range_def)
    qed (use neg False assms [symmetric] in \<open>simp add: eval_int_negate_def\<close>)
  qed
qed (simp add: eval_int_negate_def)

lemma const_eval_int_ref: "map_option sint (sf_const_eval_int e) = const_int e"
proof (induction e rule: sf_const_eval_int.induct)
  case (1 b t v)
  then show ?case by (rule const_eval_int_literal)
next
  case (2 b operand op)
  then show ?case by (simp only: sf_const_eval_int.simps const_int.simps eval_int_negate_ref)
next
  case (3 b left right op)
  from 3 [symmetric] show ?case
    by (cases "sf_const_eval_int left"; cases "sf_const_eval_int right")
       (simp_all add: eval_int_binary_ref)
qed simp_all

lemma const_eval_uint_ref: "map_option uint (sf_const_eval_uint e) = const_uint e"
proof (induction e rule: sf_const_eval_uint.induct)
  case (2 b left right op)
  from 2 [symmetric] show ?case
    by (cases "sf_const_eval_uint left"; cases "sf_const_eval_uint right")
       (simp_all add: eval_uint_binary_ref)
qed (simp_all add: literal_uint del: literal_magnitude.simps)

text \<open>C21: The evaluators of constant expressions compute what arithmetic over the integers computes:
  on every tree, the signed and the unsigned evaluator return the value of the reference when
  each intermediate result fits in 64 bits (and no division by zero or shift out of range
  occurs), and no value otherwise.\<close>

theorem const_eval_exact:
  "map_option sint (sf_const_eval_int e) = const_int e \<and> map_option uint (sf_const_eval_uint e) = const_uint e"
  by (simp add: const_eval_int_ref const_eval_uint_ref)

section \<open>Overflow checks\<close>

lemma signed_fits_iff:
  "sf_type_value_is_signed t \<Longrightarrow> signed_fits t v \<longleftrightarrow> type_min t \<le> sint v \<and> sint v \<le> type_max t"
  using sint64_bounds [of v] by (cases t) (simp_all add: word_sle_eq type_min_def type_max_def)

lemma check_overflow_signed:
  assumes "sf_type_value_is_signed t" "sf_const_check_overflow e t f g = (ok, g')"
  shows "(ok \<longleftrightarrow> (case const_int e of None \<Rightarrow> True | Some v \<Rightarrow> type_min t \<le> v \<and> v \<le> type_max t)) \<and>
    g_error_count g' = (if ok then g_error_count g else Suc (g_error_count g))"
  using assms const_eval_int_ref [of e, symmetric]
  by (auto simp: sf_const_check_overflow_def check_signed_overflow_def sf_log_error signed_fits_iff
      split: option.splits if_splits)

lemma uint_fits_iff:
  "sf_type_value_is_unsigned t \<Longrightarrow> sf_type_value_uint_literal_fits t v \<longleftrightarrow> uint v \<le> type_max t"
  by (simp add: uint_literal_fits_iff sf_type_value_is_integer_def)

text \<open>A subtraction of constants whose result is negative.\<close>

definition const_underflow :: "sf_expr \<Rightarrow> bool" where
  "const_underflow e \<longleftrightarrow>
     (case e of
        SF_NODE_BINARY _ left right op \<Rightarrow>
          op = SF_OP_TYPE_SUB \<and>
          (case (const_uint left, const_uint right) of (Some l, Some r) \<Rightarrow> l < r | _ \<Rightarrow> False)
      | _ \<Rightarrow> False)"

lemma underflow_no_value: "const_underflow e \<Longrightarrow> const_uint e = None"
  by (auto simp: const_underflow_def in_range_def split: sf_expr.splits option.splits)

lemma check_overflow_unsigned:
  assumes "sf_type_value_is_unsigned t" "sf_const_check_overflow e t f g = (ok, g')"
  shows "(ok \<longleftrightarrow> (case const_uint e of None \<Rightarrow> \<not> const_underflow e | Some v \<Rightarrow> v \<le> type_max t)) \<and>
    g_error_count g' = (if ok then g_error_count g else Suc (g_error_count g))"
proof -
  have "\<not> sf_type_value_is_signed t" using assms(1) by (cases t) simp_all
  then have check: "check_unsigned_overflow e t f g = (ok, g')"
    using assms(2) by (simp add: sf_const_check_overflow_def)
  show ?thesis
  proof (cases "sf_const_eval_uint e")
    case (Some v)
    then have "const_uint e = Some (uint v)" using const_eval_uint_ref [of e] by simp
    then show ?thesis using Some check assms(1)
      by (auto simp: check_unsigned_overflow_def uint_fits_iff sf_log_error split: if_splits)
  next
    case None
    then have no_value: "const_uint e = None" using const_eval_uint_ref [of e] by simp
    show ?thesis
    proof (cases e)
      case (SF_NODE_BINARY b left right op)
      then show ?thesis
        using None check no_value const_eval_uint_ref [of left, symmetric] const_eval_uint_ref [of right, symmetric]
        by (auto simp: check_unsigned_overflow_def const_underflow_def sf_log_error word_less_alt
            simp del: sf_const_eval_uint.simps const_uint.simps split: option.splits if_splits)
    qed (use None check no_value in \<open>simp_all add: check_unsigned_overflow_def const_underflow_def\<close>)
  qed
qed

definition const_fits :: "sf_expr \<Rightarrow> sf_value_type \<Rightarrow> bool" where
  "const_fits e t \<longleftrightarrow>
     (case (if sf_type_value_is_signed t then const_int e else const_uint e) of
        None \<Rightarrow> sf_type_value_is_signed t \<or> \<not> const_underflow e
      | Some v \<Rightarrow> type_min t \<le> v \<and> v \<le> type_max t)"

lemma check_overflow_fits:
  assumes "sf_type_value_is_integer t" "sf_const_check_overflow e t f g = (ok, g')"
  shows "(ok \<longleftrightarrow> const_fits e t) \<and>
    g_error_count g' = (if ok then g_error_count g else Suc (g_error_count g))"
proof (cases "sf_type_value_is_signed t")
  case True
  with check_overflow_signed [OF _ assms(2)] show ?thesis by (auto simp: const_fits_def split: option.splits)
next
  case False
  then have "sf_type_value_is_unsigned t" "type_min t = 0"
    using assms(1) by (auto simp: sf_type_value_is_integer_def type_min_def)
  moreover have "0 \<le> v" if "const_uint e = Some v" for v
    using that const_eval_uint_ref [of e] by auto
  ultimately show ?thesis
    using check_overflow_unsigned [OF _ assms(2)] False by (auto simp: const_fits_def split: option.splits)
qed

text \<open>C22: The overflow check of a constant expression of an integer type. It passes exactly when the
  expression has no 64-bit constant value or the value lies in the range of the type (and, for
  an unsigned type, is not a subtraction with a negative result); a failed check logs one error
  and a passed one none.\<close>

theorem const_check_overflow_exact:
  assumes "sf_type_value_is_integer t" "sf_const_check_overflow e t f g = (ok, g')"
  shows "ok = (case (if sf_type_value_is_signed t then const_int e else const_uint e) of
      None \<Rightarrow> sf_type_value_is_signed t \<or> \<not> const_underflow e
    | Some v \<Rightarrow> type_min t \<le> v \<and> v \<le> type_max t) \<and>
    g_error_count g' = (if ok then g_error_count g else Suc (g_error_count g))"
  using check_overflow_fits [OF assms] by (simp add: const_fits_def)

definition sum_200_100 :: sf_expr where
  "sum_200_100 = sf_new_binary_node (sf_new_literal_node (dec_digits 200) SF_TOKEN_TYPE_INTEGER sf_span_zero)
     (sf_new_literal_node (dec_digits 100) SF_TOKEN_TYPE_INTEGER sf_span_zero) SF_OP_TYPE_ADD sf_span_zero"

lemma const_check_overflow_exact_witness:
  "\<not> fst (sf_const_check_overflow sum_200_100 SF_VAL_TYPE_U8 ''m.slfr'' sf_log_init)"
proof -
  have value300: "const_uint sum_200_100 = Some 300"
    by (simp add: sum_200_100_def sf_new_binary_node_def sf_new_literal_node_def literal_value_def
        strtoull10_dec_digits in_range_def)
  obtain ok g' where check: "sf_const_check_overflow sum_200_100 SF_VAL_TYPE_U8 ''m.slfr'' sf_log_init = (ok, g')"
    by fastforce
  show ?thesis
    using const_check_overflow_exact [OF _ check] value300 check
    by (simp add: sf_type_value_is_integer_def type_max_def)
qed

text \<open>No constant expression of type i64 is ever reported as overflowing: the check passes and
  logs nothing, whatever the expression, also when its value over the integers does not fit.\<close>

theorem const_overflow_i64_unreported:
  "sf_const_check_overflow e SF_VAL_TYPE_I64 f g = (True, g)"
  by (simp add: sf_const_check_overflow_def check_signed_overflow_def split: option.split)

end
