(* ===== verification/Sem_Expr.thy ===== *)
theory Sem_Expr
  imports Scope Const_Eval
begin

text \<open>
  The analysis of expressions, \<^verbatim>\<open>frontend/semantic/semantic_expr.c\<close>. The C functions write the
  resolved types into the nodes they visit and return whether the expression is accepted; here
  an analysis returns that answer, the annotated expression and the log. It reads the state
  \<open>sf_semantic\<close> and does not change it. A function that analyses its operands takes their
  analyses as arguments, so that \<open>sf_semantic_expr\<close> recurses over the tree once; it calls them
  in the order, and with the expected types, of the C code.
\<close>

section \<open>State\<close>

text \<open>\<^verbatim>\<open>current_func\<close> points to the declaration node of the enclosing function, of which the analysis
  reads the name, the parameters and the return type.\<close>

record sf_current_func =
  cf_name :: string
  cf_parameters :: "sf_parameter list"
  cf_return_type :: sf_value_type

record sf_semantic =
  se_scope :: sf_scope
  se_funcs :: sf_func_symbol_table
  se_current_func :: "sf_current_func option"
  se_filename :: string
  se_module_prefix :: "string option"

type_synonym analysis = "sf_value_type \<Rightarrow> sf_log_state \<Rightarrow> bool \<times> sf_expr \<times> sf_log_state"

definition sem_error :: "sf_semantic \<Rightarrow> sf_log_error_code \<Rightarrow> sf_span \<Rightarrow> string list \<Rightarrow> sf_log_state \<Rightarrow> sf_log_state" where
  "sem_error s code span args = sf_log (Some (se_filename s)) code span SF_LOG_SEVERITY_ERROR args"

definition sf_semantic_report_undeclared :: "sf_semantic \<Rightarrow> string \<Rightarrow> sf_span \<Rightarrow> sf_log_state \<Rightarrow> sf_log_state" where
  "sf_semantic_report_undeclared s name span =
     sem_error s SF_LOG_SEMANTIC_UNDECLARED span
       (case scope_find_closest (se_scope s) name of None \<Rightarrow> [name] | Some closest \<Rightarrow> [name, closest])"

section \<open>Binary operations\<close>

definition analyze_binary_operands ::
  "sf_ir_operation_type \<Rightarrow> sf_expr \<Rightarrow> sf_expr \<Rightarrow> analysis \<Rightarrow> analysis \<Rightarrow> sf_value_type \<Rightarrow> sf_log_state \<Rightarrow>
   bool \<times> sf_expr \<times> sf_expr \<times> sf_log_state" where
  "analyze_binary_operands op left right analyze_left analyze_right operand_expected g =
     (if sf_op_is_relational op \<and> is_literal left \<and> \<not> is_literal right
      then (case analyze_right operand_expected g of
              (False, right1, g1) \<Rightarrow> (False, left, right1, g1)
            | (True, right1, g1) \<Rightarrow>
                (case analyze_left (if expr_resolved right1 \<noteq> SF_VAL_TYPE_UNRESOLVED then expr_resolved right1
                                    else operand_expected) g1 of
                   (ok, left1, g2) \<Rightarrow> (ok, left1, right1, g2)))
      else (case analyze_left operand_expected g of
              (False, left1, g1) \<Rightarrow> (False, left1, right, g1)
            | (True, left1, g1) \<Rightarrow>
                (case analyze_right (if \<not> sf_op_is_shift op \<and> expr_resolved left1 \<noteq> SF_VAL_TYPE_UNRESOLVED
                                     then expr_resolved left1 else operand_expected) g1 of
                   (ok, right1, g2) \<Rightarrow> (ok, left1, right1, g2))))"

definition analyze_logical :: "sf_semantic \<Rightarrow> sf_expr \<Rightarrow> sf_value_type \<Rightarrow> sf_value_type \<Rightarrow> sf_log_state \<Rightarrow>
   bool \<times> sf_expr \<times> sf_log_state" where
  "analyze_logical s bin ltype rtype g =
     (if ltype \<noteq> SF_VAL_TYPE_BOOL \<or> rtype \<noteq> SF_VAL_TYPE_BOOL
      then (False, bin, sem_error s SF_LOG_SEMANTIC_TYPE_MISMATCH (expr_span bin)
                          [sf_type_value_name ltype, sf_type_value_name rtype] g)
      else (let bin1 = set_resolved SF_VAL_TYPE_BOOL bin
            in (True, bin1, sf_const_warn (se_filename s) bin1 g)))"

definition analyze_shift :: "sf_semantic \<Rightarrow> sf_expr \<Rightarrow> sf_expr \<Rightarrow> sf_value_type \<Rightarrow> sf_log_state \<Rightarrow>
   bool \<times> sf_expr \<times> sf_log_state" where
  "analyze_shift s bin right ltype g =
     (let bin1 = set_resolved ltype bin;
          width = int (sf_type_value_width_bits ltype)
      in case sf_const_eval_int right of
           None \<Rightarrow> (True, bin1, g)
         | Some shift_amount \<Rightarrow>
             if sint shift_amount < 0 \<or> width \<le> sint shift_amount
             then (False, bin1, sem_error s SF_LOG_SEMANTIC_LITERAL_OVERFLOW (expr_span bin)
                     [signed_digits (sint shift_amount), sf_type_value_name ltype, signed_digits width] g)
             else (True, bin1, g))"

definition analyze_relational :: "sf_semantic \<Rightarrow> sf_expr \<Rightarrow> sf_value_type \<Rightarrow> sf_value_type \<Rightarrow> sf_log_state \<Rightarrow>
   bool \<times> sf_expr \<times> sf_log_state" where
  "analyze_relational s bin ltype rtype g =
     (if \<not> sf_type_value_is_same_group ltype rtype
      then (False, bin, sem_error s SF_LOG_SEMANTIC_TYPE_MISMATCH (expr_span bin)
                          [sf_type_value_name ltype, sf_type_value_name rtype] g)
      else if sf_type_value_width_bits ltype \<noteq> sf_type_value_width_bits rtype
      then (False, bin, sem_error s SF_LOG_SEMANTIC_TYPE_MISMATCH (expr_span bin)
                          [sf_type_value_name ltype, sf_type_value_name rtype] g)
      else (let bin1 = set_resolved SF_VAL_TYPE_BOOL bin
            in (True, bin1, sf_const_warn (se_filename s) bin1 g)))"

definition analyze_arithmetic ::
  "sf_semantic \<Rightarrow> sf_expr \<Rightarrow> sf_expr \<Rightarrow> sf_ir_operation_type \<Rightarrow> sf_value_type \<Rightarrow> sf_value_type \<Rightarrow> sf_log_state \<Rightarrow>
   bool \<times> sf_expr \<times> sf_log_state" where
  "analyze_arithmetic s bin right op ltype rtype g =
     (if \<not> sf_type_value_is_same_group ltype rtype
      then (False, bin, sem_error s SF_LOG_SEMANTIC_TYPE_MISMATCH (expr_span bin)
                          [sf_type_value_name ltype, sf_type_value_name rtype] g)
      else if \<not> sf_type_value_is_integer ltype
      then (False, bin, sem_error s SF_LOG_SEMANTIC_TYPE_MISMATCH (expr_span bin)
                          [sf_type_operation_name op, sf_type_value_name ltype] g)
      else (let resolved = sf_type_value_promote ltype rtype;
                bin1 = set_resolved resolved bin
            in if op = SF_OP_TYPE_DIV \<and> sf_const_is_zero right (sf_type_value_is_signed resolved)
               then (False, bin1, sem_error s SF_LOG_SEMANTIC_DIVISION_BY_ZERO (expr_span bin) [] g)
               else (case sf_const_check_overflow bin1 resolved (se_filename s) g of (ok, g1) \<Rightarrow> (ok, bin1, g1))))"

definition analyze_binary ::
  "sf_semantic \<Rightarrow> sf_ast_base \<Rightarrow> sf_expr \<Rightarrow> sf_expr \<Rightarrow> sf_ir_operation_type \<Rightarrow> analysis \<Rightarrow> analysis \<Rightarrow> analysis" where
  "analyze_binary s b left right op analyze_left analyze_right expected g =
     (let operand_expected =
            (if sf_op_is_logical op then SF_VAL_TYPE_BOOL
             else if sf_op_is_relational op then SF_VAL_TYPE_UNRESOLVED
             else if \<not> sf_type_value_is_integer expected then SF_VAL_TYPE_UNRESOLVED
             else expected)
      in case analyze_binary_operands op left right analyze_left analyze_right operand_expected g of
           (False, left1, right1, g1) \<Rightarrow> (False, SF_NODE_BINARY b left1 right1 op, g1)
         | (True, left1, right1, g1) \<Rightarrow>
             (let bin = SF_NODE_BINARY b left1 right1 op;
                  ltype = expr_resolved left1;
                  rtype = expr_resolved right1
              in if ltype = SF_VAL_TYPE_UNRESOLVED \<or> rtype = SF_VAL_TYPE_UNRESOLVED then (False, bin, g1)
                 else if sf_op_is_logical op then analyze_logical s bin ltype rtype g1
                 else if sf_op_is_shift op then analyze_shift s bin right1 ltype g1
                 else if sf_op_is_relational op then analyze_relational s bin ltype rtype g1
                 else analyze_arithmetic s bin right1 op ltype rtype g1))"

section \<open>Unary operations and casts\<close>

definition analyze_negated_literal ::
  "sf_semantic \<Rightarrow> sf_ast_base \<Rightarrow> sf_expr \<Rightarrow> string \<Rightarrow> analysis" where
  "analyze_negated_literal s b lit value expected g =
     (let un = SF_NODE_UNARY b lit SF_OP_TYPE_NEGATE
      in if expected \<noteq> SF_VAL_TYPE_UNRESOLVED \<and> sf_type_value_is_integer expected \<and> \<not> sf_type_value_is_signed expected
         then (False, un, sem_error s SF_LOG_SEMANTIC_TYPE_MISMATCH (ab_span b) [sf_type_value_name expected] g)
         else (let target = (if expected = SF_VAL_TYPE_UNRESOLVED \<or> \<not> sf_type_value_is_integer expected \<or>
                                \<not> sf_type_value_is_signed expected then SF_VAL_TYPE_I64 else expected)
               in if (case strtoull10 value of
                        None \<Rightarrow> True
                      | Some magnitude \<Rightarrow> \<not> sf_type_value_signed_literal_fits_negated target magnitude)
                  then (False, un, sem_error s SF_LOG_SEMANTIC_LITERAL_OVERFLOW (ab_span b)
                                     [value, sf_type_value_name target] g)
                  else (True, set_resolved target (SF_NODE_UNARY b (set_resolved target lit) SF_OP_TYPE_NEGATE), g)))"

definition analyze_negate :: "sf_semantic \<Rightarrow> sf_ast_base \<Rightarrow> sf_expr \<Rightarrow> analysis \<Rightarrow> analysis" where
  "analyze_negate s b operand analyze_operand expected g =
     (case operand of
        SF_NODE_LITERAL lb SF_TOKEN_TYPE_INTEGER value \<Rightarrow> analyze_negated_literal s b operand value expected g
      | _ \<Rightarrow>
          (case analyze_operand (if \<not> sf_type_value_is_signed expected then SF_VAL_TYPE_I64 else expected) g of
             (False, operand1, g1) \<Rightarrow> (False, SF_NODE_UNARY b operand1 SF_OP_TYPE_NEGATE, g1)
           | (True, operand1, g1) \<Rightarrow>
               (let un = SF_NODE_UNARY b operand1 SF_OP_TYPE_NEGATE; child_type = expr_resolved operand1
                in if child_type = SF_VAL_TYPE_UNRESOLVED then (False, un, g1)
                   else if \<not> sf_type_value_is_signed child_type
                   then (False, un, sem_error s SF_LOG_SEMANTIC_TYPE_MISMATCH (ab_span b) [sf_type_value_name child_type] g1)
                   else (True, set_resolved child_type un, g1))))"

definition analyze_bitwise_not :: "sf_semantic \<Rightarrow> sf_ast_base \<Rightarrow> analysis \<Rightarrow> analysis" where
  "analyze_bitwise_not s b analyze_operand expected g =
     (case analyze_operand expected g of
        (False, operand1, g1) \<Rightarrow> (False, SF_NODE_UNARY b operand1 SF_OP_TYPE_BITWISE_NOT, g1)
      | (True, operand1, g1) \<Rightarrow>
          (let un = SF_NODE_UNARY b operand1 SF_OP_TYPE_BITWISE_NOT; child_type = expr_resolved operand1
           in if \<not> sf_type_value_is_integer child_type
              then (False, un, sem_error s SF_LOG_SEMANTIC_TYPE_MISMATCH (ab_span b) [sf_type_value_name child_type] g1)
              else (True, set_resolved child_type un, g1)))"

fun is_identifier :: "sf_expr \<Rightarrow> bool" where
  "is_identifier (SF_NODE_IDENTIFIER _ _ _ _ _) = True"
| "is_identifier _ = False"

text \<open>\<^verbatim>\<open>id->symbol->qualifiers.is_mutable\<close> after the analysis of the identifier has set the pointer.\<close>

fun symbol_is_mutable :: "sf_expr \<Rightarrow> bool" where
  "symbol_is_mutable (SF_NODE_IDENTIFIER _ _ _ _ (Some symbol)) = is_mutable (vs_qualifiers symbol)"
| "symbol_is_mutable _ = False"

definition analyze_increment :: "sf_semantic \<Rightarrow> sf_ast_base \<Rightarrow> sf_expr \<Rightarrow> sf_ir_operation_type \<Rightarrow> analysis \<Rightarrow> analysis" where
  "analyze_increment s b operand op analyze_operand expected g =
     (if \<not> is_identifier operand
      then (False, SF_NODE_UNARY b operand op, sem_error s SF_LOG_SEMANTIC_TYPE_MISMATCH (ab_span b) [] g)
      else (case analyze_operand expected g of
              (False, operand1, g1) \<Rightarrow> (False, SF_NODE_UNARY b operand1 op, g1)
            | (True, operand1, g1) \<Rightarrow>
                (let un = SF_NODE_UNARY b operand1 op; child_type = expr_resolved operand1
                 in if \<not> sf_type_value_is_integer child_type
                    then (False, un, sem_error s SF_LOG_SEMANTIC_TYPE_MISMATCH (ab_span b) [sf_type_value_name child_type] g1)
                    else if \<not> symbol_is_mutable operand1
                    then (False, un, sem_error s SF_LOG_SEMANTIC_INVALID_ASSIGN (ab_span b) [] g1)
                    else (True, set_resolved child_type un, g1))))"

definition analyze_logical_not :: "sf_semantic \<Rightarrow> sf_ast_base \<Rightarrow> analysis \<Rightarrow> sf_log_state \<Rightarrow>
   bool \<times> sf_expr \<times> sf_log_state" where
  "analyze_logical_not s b analyze_operand g =
     (case analyze_operand SF_VAL_TYPE_BOOL g of
        (False, operand1, g1) \<Rightarrow> (False, SF_NODE_UNARY b operand1 SF_OP_TYPE_LOGICAL_NOT, g1)
      | (True, operand1, g1) \<Rightarrow>
          (let un = SF_NODE_UNARY b operand1 SF_OP_TYPE_LOGICAL_NOT
           in if expr_resolved operand1 \<noteq> SF_VAL_TYPE_BOOL
              then (False, un, sem_error s SF_LOG_SEMANTIC_TYPE_MISMATCH (ab_span b)
                                 [sf_type_value_name (expr_resolved operand1)] g1)
              else (True, set_resolved SF_VAL_TYPE_BOOL un, sf_const_warn (se_filename s) un g1)))"

definition analyze_unary :: "sf_semantic \<Rightarrow> sf_ast_base \<Rightarrow> sf_expr \<Rightarrow> sf_ir_operation_type \<Rightarrow> analysis \<Rightarrow> analysis" where
  "analyze_unary s b operand op analyze_operand expected g =
     (if op = SF_OP_TYPE_NEGATE then analyze_negate s b operand analyze_operand expected g
      else if op = SF_OP_TYPE_BITWISE_NOT then analyze_bitwise_not s b analyze_operand expected g
      else if sf_type_is_increment_or_decrement op then analyze_increment s b operand op analyze_operand expected g
      else if op = SF_OP_TYPE_LOGICAL_NOT then analyze_logical_not s b analyze_operand g
      else (False, SF_NODE_UNARY b operand op, g))"

definition analyze_cast :: "sf_semantic \<Rightarrow> sf_ast_base \<Rightarrow> sf_value_type \<Rightarrow> analysis \<Rightarrow> sf_log_state \<Rightarrow>
   bool \<times> sf_expr \<times> sf_log_state" where
  "analyze_cast s b to_type analyze_operand g =
     (case analyze_operand SF_VAL_TYPE_UNRESOLVED g of
        (False, operand1, g1) \<Rightarrow> (False, SF_NODE_CAST b operand1 to_type, g1)
      | (True, operand1, g1) \<Rightarrow>
          (let cast = SF_NODE_CAST b operand1 to_type; from_type = expr_resolved operand1
           in if from_type = SF_VAL_TYPE_UNRESOLVED then (False, cast, g1)
              else (let g2 = (if from_type = to_type
                              then sf_log (Some (se_filename s)) SF_LOG_SEMANTIC_USELESS_CAST (ab_span b)
                                     SF_LOG_SEVERITY_WARNING [sf_type_value_name to_type] g1
                              else g1)
                    in if \<not> sf_type_value_is_castable from_type to_type
                       then (False, cast, sem_error s SF_LOG_SEMANTIC_INVALID_EXPLICIT_CAST (ab_span b)
                                            [sf_type_value_name from_type, sf_type_value_name to_type] g2)
                       else (True, set_resolved to_type cast, g2))))"

section \<open>Leaves and calls\<close>

definition analyze_literal :: "sf_semantic \<Rightarrow> sf_ast_base \<Rightarrow> sf_token_type \<Rightarrow> string \<Rightarrow> analysis" where
  "analyze_literal s b token_type value expected g =
     (let lit = SF_NODE_LITERAL b token_type value
      in if token_type = SF_TOKEN_TYPE_KW_TRUE \<or> token_type = SF_TOKEN_TYPE_KW_FALSE
         then (True, set_resolved SF_VAL_TYPE_BOOL lit, g)
         else if token_type \<noteq> SF_TOKEN_TYPE_INTEGER then (True, lit, g)
         else (let target = (if expected = SF_VAL_TYPE_UNRESOLVED \<or> \<not> sf_type_value_is_integer expected
                             then SF_VAL_TYPE_I64 else expected)
               in case strtoull10 value of
                    None \<Rightarrow> (False, lit, sem_error s SF_LOG_SEMANTIC_LITERAL_OVERFLOW (ab_span b) [value] g)
                  | Some raw \<Rightarrow>
                      if \<not> sf_type_value_uint_literal_fits target raw
                      then (False, lit, sem_error s SF_LOG_SEMANTIC_LITERAL_OVERFLOW (ab_span b)
                                          [value, sf_type_value_name target] g)
                      else (True, set_resolved target lit, g)))"

definition analyze_identifier :: "sf_semantic \<Rightarrow> sf_ast_base \<Rightarrow> string \<Rightarrow> nat \<Rightarrow> nat \<Rightarrow> sf_var_symbol option \<Rightarrow>
   sf_log_state \<Rightarrow> bool \<times> sf_expr \<times> sf_log_state" where
  "analyze_identifier s b name depth vid symbol g =
     (let node = SF_NODE_IDENTIFIER b name depth vid symbol
      in case scope_lookup (se_scope s) name of
           None \<Rightarrow> (False, node, sf_semantic_report_undeclared s name (ab_span b) g)
         | Some found \<Rightarrow>
             if \<not> vs_initialized found
             then (False, node, sem_error s SF_LOG_SEMANTIC_UNINITIALIZED (ab_span b) [name] g)
             else (True, SF_NODE_IDENTIFIER (b\<lparr>ab_resolved := vs_type found\<rparr>) name (vs_depth found) (vs_id found) (Some found), g))"

definition check_argument_type ::
  "sf_value_type \<Rightarrow> sf_value_type \<Rightarrow> string \<Rightarrow> nat \<Rightarrow> sf_span \<Rightarrow> string \<Rightarrow> sf_log_state \<Rightarrow> bool \<times> sf_log_state" where
  "check_argument_type resolved param_type func_name index span filename g =
     (if resolved = SF_VAL_TYPE_UNRESOLVED then (True, g)
      else if \<not> sf_type_value_is_same_group resolved param_type
      then (False, sf_log (Some filename) SF_LOG_SEMANTIC_TYPE_MISMATCH span SF_LOG_SEVERITY_ERROR
                     [dec_digits (index + 1), func_name, sf_type_value_name param_type, sf_type_value_name resolved] g)
      else if sf_type_value_width_bytes param_type < sf_type_value_width_bytes resolved
      then (False, sf_log (Some filename) SF_LOG_SEMANTIC_INVALID_IMPLICIT_CAST span SF_LOG_SEVERITY_ERROR
                     [sf_type_value_name resolved, sf_type_value_name param_type, dec_digits (index + 1), func_name] g)
      else (True, g))"

definition analyze_argument ::
  "sf_semantic \<Rightarrow> sf_func_symbol \<Rightarrow> nat \<Rightarrow> analysis \<Rightarrow> sf_log_state \<Rightarrow> bool \<times> sf_expr \<times> sf_log_state" where
  "analyze_argument s func i analyze_arg g =
     (let has_param = i < length (fs_parameters func);
          expected = (if has_param then pm_type (fs_parameters func ! i) else SF_VAL_TYPE_UNRESOLVED)
      in case analyze_arg expected g of
           (False, arg, g1) \<Rightarrow> (False, arg, g1)
         | (True, arg, g1) \<Rightarrow>
             if \<not> has_param then (True, arg, g1)
             else (case check_argument_type (expr_resolved arg) expected (fs_name func) i (expr_span arg) (se_filename s) g1 of
                     (False, g2) \<Rightarrow> (False, arg, g2)
                   | (True, g2) \<Rightarrow>
                       (True, if expr_resolved arg \<noteq> SF_VAL_TYPE_UNRESOLVED \<and> expr_resolved arg \<noteq> expected
                              then set_resolved expected (sf_new_cast_node arg expected (expr_span arg)) else arg, g2)))"

fun analyze_arguments ::
  "sf_semantic \<Rightarrow> sf_func_symbol \<Rightarrow> nat \<Rightarrow> analysis list \<Rightarrow> sf_log_state \<Rightarrow> bool \<times> sf_expr list \<times> sf_log_state" where
  "analyze_arguments s func i [] g = (True, [], g)"
| "analyze_arguments s func i (analyze_arg # rest) g =
     (case analyze_argument s func i analyze_arg g of
        (ok, arg, g1) \<Rightarrow>
          (case analyze_arguments s func (i + 1) rest g1 of
             (oks, args, g2) \<Rightarrow> (ok \<and> oks, arg # args, g2)))"

fun analyze_undeclared_arguments :: "analysis list \<Rightarrow> sf_log_state \<Rightarrow> sf_expr list \<times> sf_log_state" where
  "analyze_undeclared_arguments [] g = ([], g)"
| "analyze_undeclared_arguments (analyze_arg # rest) g =
     (case analyze_arg SF_VAL_TYPE_UNRESOLVED g of
        (ok, arg, g1) \<Rightarrow>
          (case analyze_undeclared_arguments rest g1 of (args, g2) \<Rightarrow> (arg # args, g2)))"

text \<open>The parser only builds calls whose callee is an identifier; the C code casts the pointer.\<close>

fun callee_name :: "sf_expr \<Rightarrow> string" where
  "callee_name (SF_NODE_IDENTIFIER _ name _ _ _) = name"
| "callee_name _ = []"

definition analyze_func_call ::
  "sf_semantic \<Rightarrow> sf_ast_base \<Rightarrow> sf_expr \<Rightarrow> string option \<Rightarrow> analysis list \<Rightarrow> sf_log_state \<Rightarrow>
   bool \<times> sf_expr \<times> sf_log_state" where
  "analyze_func_call s b callee link_name analyze_args g =
     (case sf_func_symbol_table_lookup (se_funcs s) (callee_name callee) of
        None \<Rightarrow>
          (let g1 = sem_error s SF_LOG_SEMANTIC_UNDECLARED (expr_span callee)
                      (case sf_func_symbol_table_find_closest (se_funcs s) (callee_name callee) of
                         None \<Rightarrow> [callee_name callee] | Some closest \<Rightarrow> [callee_name callee, closest]) g
           in case analyze_undeclared_arguments analyze_args g1 of
                (args, g2) \<Rightarrow> (False, SF_NODE_FUNC_CALL b callee link_name args, g2))
      | Some func \<Rightarrow>
          (case analyze_arguments s func 0 analyze_args g of
             (ok, args, g1) \<Rightarrow>
               (if length args \<noteq> length (fs_parameters func)
                then (False, SF_NODE_FUNC_CALL b callee link_name args,
                      sem_error s SF_LOG_SEMANTIC_ARGUMENT_COUNT (expr_span callee)
                        [fs_name func, dec_digits (length (fs_parameters func)), dec_digits (length args)] g1)
                else if ok
                then (True, SF_NODE_FUNC_CALL (b\<lparr>ab_resolved := fs_return_type func\<rparr>) callee (Some (fs_link_name func)) args, g1)
                else (False, SF_NODE_FUNC_CALL b callee link_name args, g1))))"

section \<open>The dispatch\<close>

fun sf_semantic_expr :: "sf_semantic \<Rightarrow> sf_expr \<Rightarrow> analysis" where
  "sf_semantic_expr s (SF_NODE_BINARY b left right op) expected g =
     analyze_binary s b left right op (\<lambda>t g. sf_semantic_expr s left t g) (\<lambda>t g. sf_semantic_expr s right t g) expected g"
| "sf_semantic_expr s (SF_NODE_UNARY b operand op) expected g =
     analyze_unary s b operand op (\<lambda>t g. sf_semantic_expr s operand t g) expected g"
| "sf_semantic_expr s (SF_NODE_CAST b operand target_type) expected g =
     analyze_cast s b target_type (\<lambda>t g. sf_semantic_expr s operand t g) g"
| "sf_semantic_expr s (SF_NODE_LITERAL b token_type value) expected g =
     analyze_literal s b token_type value expected g"
| "sf_semantic_expr s (SF_NODE_IDENTIFIER b name depth vid symbol) expected g =
     analyze_identifier s b name depth vid symbol g"
| "sf_semantic_expr s (SF_NODE_FUNC_CALL b callee link_name args) expected g =
     analyze_func_call s b callee link_name (map (\<lambda>a. \<lambda>t g. sf_semantic_expr s a t g) args) g"

end
