(* ===== verification/Sem_Typing.thy ===== *)
theory Sem_Typing
  imports Sem_Expr
begin

text \<open>
  What the analysis of expressions promises. \<open>expr_typed\<close> is the type system of the language as
  declarative rules on annotated expressions, \<open>elaborates\<close> relates the parsed expression to the
  annotated one (the analysis adds types, variable numbers, link names and casts around
  arguments, and changes nothing else), and the locale \<open>expression_analysis\<close> is the interface
  that the analysis of statements relies on: an accepted expression is an elaboration that has
  its annotated type and adds no error, a rejected one adds an error.
\<close>

section \<open>Parsed expressions\<close>

definition raw_binary_op :: "sf_ir_operation_type \<Rightarrow> bool" where
  "raw_binary_op op \<longleftrightarrow> sf_op_is_logical op \<or> sf_op_is_shift op \<or> sf_op_is_relational op \<or>
     op \<in> {SF_OP_TYPE_ADD, SF_OP_TYPE_SUB, SF_OP_TYPE_MUL, SF_OP_TYPE_DIV, SF_OP_TYPE_BITWISE_AND,
           SF_OP_TYPE_BITWISE_OR, SF_OP_TYPE_BITWISE_XOR}"

definition raw_unary_op :: "sf_ir_operation_type \<Rightarrow> bool" where
  "raw_unary_op op \<longleftrightarrow> sf_type_is_increment_or_decrement op \<or>
     op \<in> {SF_OP_TYPE_NEGATE, SF_OP_TYPE_BITWISE_NOT, SF_OP_TYPE_LOGICAL_NOT}"

definition literal_token :: "sf_token_type \<Rightarrow> bool" where
  "literal_token t \<longleftrightarrow> t = SF_TOKEN_TYPE_INTEGER \<or> t = SF_TOKEN_TYPE_KW_TRUE \<or> t = SF_TOKEN_TYPE_KW_FALSE"

fun raw_ok :: "sf_expr \<Rightarrow> bool" where
  "raw_ok (SF_NODE_LITERAL _ t _) = literal_token t"
| "raw_ok (SF_NODE_IDENTIFIER _ _ _ _ _) = True"
| "raw_ok (SF_NODE_BINARY _ l r op) = (raw_binary_op op \<and> raw_ok l \<and> raw_ok r)"
| "raw_ok (SF_NODE_UNARY _ e op) = (raw_unary_op op \<and> raw_ok e)"
| "raw_ok (SF_NODE_CAST _ e t) = (t \<noteq> SF_VAL_TYPE_UNRESOLVED \<and> raw_ok e)"
| "raw_ok (SF_NODE_FUNC_CALL _ c _ args) = (is_identifier c \<and> (\<forall>a \<in> set args. raw_ok a))"

section \<open>Elaboration\<close>

definition same_node :: "sf_ast_base \<Rightarrow> sf_ast_base \<Rightarrow> bool" where
  "same_node b b' \<longleftrightarrow> ab_span b' = ab_span b"

inductive elaborates :: "sf_expr \<Rightarrow> sf_expr \<Rightarrow> bool" where
  literal: "same_node b b' \<Longrightarrow> elaborates (SF_NODE_LITERAL b t v) (SF_NODE_LITERAL b' t v)"
| ident: "same_node b b' \<Longrightarrow> elaborates (SF_NODE_IDENTIFIER b n d i s) (SF_NODE_IDENTIFIER b' n d' i' s')"
| binary: "same_node b b' \<Longrightarrow> elaborates l l' \<Longrightarrow> elaborates r r' \<Longrightarrow>
    elaborates (SF_NODE_BINARY b l r op) (SF_NODE_BINARY b' l' r' op)"
| unary: "same_node b b' \<Longrightarrow> elaborates e e' \<Longrightarrow> elaborates (SF_NODE_UNARY b e op) (SF_NODE_UNARY b' e' op)"
| cast: "same_node b b' \<Longrightarrow> elaborates e e' \<Longrightarrow> elaborates (SF_NODE_CAST b e t) (SF_NODE_CAST b' e' t)"
| call: "same_node b b' \<Longrightarrow>
    list_all2 (\<lambda>a a'. elaborates a a' \<or> (\<exists>cb a'' t. a' = SF_NODE_CAST cb a'' t \<and> elaborates a a'')) args args' \<Longrightarrow>
    elaborates (SF_NODE_FUNC_CALL b c ln args) (SF_NODE_FUNC_CALL b' c ln' args')"

section \<open>Types\<close>

inductive expr_typed :: "sf_semantic \<Rightarrow> sf_expr \<Rightarrow> sf_value_type \<Rightarrow> bool" for s where
  bool_literal:
    "t = SF_TOKEN_TYPE_KW_TRUE \<or> t = SF_TOKEN_TYPE_KW_FALSE \<Longrightarrow> ab_resolved b = SF_VAL_TYPE_BOOL \<Longrightarrow>
     expr_typed s (SF_NODE_LITERAL b t v) SF_VAL_TYPE_BOOL"
| int_literal:
    "sf_type_value_is_integer ty \<Longrightarrow> ab_resolved b = ty \<Longrightarrow> strtoull10 v = Some m \<Longrightarrow> uint m \<le> type_max ty \<Longrightarrow>
     expr_typed s (SF_NODE_LITERAL b SF_TOKEN_TYPE_INTEGER v) ty"
| negated_literal:
    "sf_type_value_is_signed ty \<Longrightarrow> ab_resolved b = ty \<Longrightarrow> ab_resolved lb = ty \<Longrightarrow> strtoull10 v = Some m \<Longrightarrow>
     type_min ty \<le> - uint m \<Longrightarrow>
     expr_typed s (SF_NODE_UNARY b (SF_NODE_LITERAL lb SF_TOKEN_TYPE_INTEGER v) SF_OP_TYPE_NEGATE) ty"
| ident:
    "scope_lookup (se_scope s) n = Some symbol \<Longrightarrow> vs_initialized symbol \<Longrightarrow> ab_resolved b = vs_type symbol \<Longrightarrow>
     expr_typed s (SF_NODE_IDENTIFIER b n (vs_depth symbol) (vs_id symbol) (Some symbol)) (vs_type symbol)"
| logical:
    "sf_op_is_logical op \<Longrightarrow> ab_resolved b = SF_VAL_TYPE_BOOL \<Longrightarrow> expr_typed s l SF_VAL_TYPE_BOOL \<Longrightarrow>
     expr_typed s r SF_VAL_TYPE_BOOL \<Longrightarrow> expr_typed s (SF_NODE_BINARY b l r op) SF_VAL_TYPE_BOOL"
| shift:
    "sf_op_is_shift op \<Longrightarrow> ab_resolved b = lt \<Longrightarrow> expr_typed s l lt \<Longrightarrow> expr_typed s r rt \<Longrightarrow>
     (case const_int r of None \<Rightarrow> True | Some n \<Rightarrow> 0 \<le> n \<and> n < int (sf_type_value_width_bits lt)) \<Longrightarrow>
     expr_typed s (SF_NODE_BINARY b l r op) lt"
| relational:
    "sf_op_is_relational op \<Longrightarrow> ab_resolved b = SF_VAL_TYPE_BOOL \<Longrightarrow> expr_typed s l ty \<Longrightarrow> expr_typed s r ty \<Longrightarrow>
     sf_type_value_is_integer ty \<or> ty = SF_VAL_TYPE_BOOL \<Longrightarrow> expr_typed s (SF_NODE_BINARY b l r op) SF_VAL_TYPE_BOOL"
| arithmetic:
    "op \<in> {SF_OP_TYPE_ADD, SF_OP_TYPE_SUB, SF_OP_TYPE_MUL, SF_OP_TYPE_DIV, SF_OP_TYPE_BITWISE_AND,
           SF_OP_TYPE_BITWISE_OR, SF_OP_TYPE_BITWISE_XOR} \<Longrightarrow>
     expr_typed s l lt \<Longrightarrow> expr_typed s r rt \<Longrightarrow> sf_type_value_is_integer lt \<Longrightarrow> sf_type_value_is_same_group lt rt \<Longrightarrow>
     ty = sf_type_value_promote lt rt \<Longrightarrow> ab_resolved b = ty \<Longrightarrow>
     op = SF_OP_TYPE_DIV \<longrightarrow> (if sf_type_value_is_signed ty then const_int r else const_uint r) \<noteq> Some 0 \<Longrightarrow>
     const_fits (SF_NODE_BINARY b l r op) ty \<Longrightarrow> expr_typed s (SF_NODE_BINARY b l r op) ty"
| negation:
    "expr_typed s e ty \<Longrightarrow> sf_type_value_is_signed ty \<Longrightarrow> ab_resolved b = ty \<Longrightarrow>
     expr_typed s (SF_NODE_UNARY b e SF_OP_TYPE_NEGATE) ty"
| bitwise_not:
    "expr_typed s e ty \<Longrightarrow> sf_type_value_is_integer ty \<Longrightarrow> ab_resolved b = ty \<Longrightarrow>
     expr_typed s (SF_NODE_UNARY b e SF_OP_TYPE_BITWISE_NOT) ty"
| logical_not:
    "expr_typed s e SF_VAL_TYPE_BOOL \<Longrightarrow> ab_resolved b = SF_VAL_TYPE_BOOL \<Longrightarrow>
     expr_typed s (SF_NODE_UNARY b e SF_OP_TYPE_LOGICAL_NOT) SF_VAL_TYPE_BOOL"
| increment:
    "sf_type_is_increment_or_decrement op \<Longrightarrow> expr_typed s (SF_NODE_IDENTIFIER ib n d i (Some symbol)) ty \<Longrightarrow>
     sf_type_value_is_integer ty \<Longrightarrow> is_mutable (vs_qualifiers symbol) \<Longrightarrow> ab_resolved b = ty \<Longrightarrow>
     expr_typed s (SF_NODE_UNARY b (SF_NODE_IDENTIFIER ib n d i (Some symbol)) op) ty"
| cast:
    "expr_typed s e from \<Longrightarrow> sf_type_value_is_castable from ty \<Longrightarrow> ab_resolved b = ty \<Longrightarrow>
     expr_typed s (SF_NODE_CAST b e ty) ty"
| call:
    "sf_func_symbol_table_lookup (se_funcs s) (callee_name c) = Some func \<Longrightarrow>
     list_all2 (expr_typed s) args (map pm_type (fs_parameters func)) \<Longrightarrow> ab_resolved b = fs_return_type func \<Longrightarrow>
     expr_typed s (SF_NODE_FUNC_CALL b c (Some (fs_link_name func)) args) (fs_return_type func)"

text \<open>The types of the declarations in scope are resolved.\<close>

definition sem_ok :: "sf_semantic \<Rightarrow> bool" where
  "sem_ok s \<longleftrightarrow>
     (\<forall>v \<in> set (concat (sc_stack (se_scope s))). vs_type v \<noteq> SF_VAL_TYPE_UNRESOLVED \<and> vs_type v \<noteq> SF_VAL_TYPE_VOID) \<and>
     (\<forall>f \<in> set (ft_functions (se_funcs s)). fs_return_type f \<noteq> SF_VAL_TYPE_UNRESOLVED \<and>
        (\<forall>p \<in> set (fs_parameters f). pm_type p \<noteq> SF_VAL_TYPE_UNRESOLVED))"

lemma expr_typed_annotated: "expr_typed s e t \<Longrightarrow> expr_resolved e = t"
  by (induction rule: expr_typed.induct) auto

lemma castable_resolved: "sf_type_value_is_castable a b \<Longrightarrow> b \<noteq> SF_VAL_TYPE_UNRESOLVED"
  by (auto simp: sf_type_value_is_castable_def split: if_splits)

lemma promote_integer:
  "sf_type_value_is_integer a \<Longrightarrow> sf_type_value_is_same_group a b \<Longrightarrow> sf_type_value_is_integer (sf_type_value_promote a b)"
  by (auto simp: sf_type_value_promote_def same_group_iff sf_type_value_is_integer_def)

lemma expr_typed_resolved: "expr_typed s e t \<Longrightarrow> sem_ok s \<Longrightarrow> t \<noteq> SF_VAL_TYPE_UNRESOLVED"
proof (induction rule: expr_typed.induct)
  case (ident n symbol b)
  then show ?case using scope_lookup_mem [OF ident(1)] by (auto simp: sem_ok_def)
next
  case (call c func args b)
  then show ?case using func_lookup_Some [OF call(1)] by (auto simp: sem_ok_def)
next
  case (arithmetic op l lt r rt ty b)
  then show ?case using promote_integer [of lt rt] is_integer_not_special by metis
qed (auto dest: castable_resolved is_integer_not_special simp: sf_type_value_is_integer_def)

inductive_cases typed_ident_elim: "expr_typed s (SF_NODE_IDENTIFIER b n d i symbol) t"
inductive_cases elaborates_ident_elim: "elaborates (SF_NODE_IDENTIFIER b n d i symbol) e'"

section \<open>The contract of an analysis\<close>

definition analysis_result :: "sf_semantic \<Rightarrow> sf_expr \<Rightarrow> sf_log_state \<Rightarrow> bool \<times> sf_expr \<times> sf_log_state \<Rightarrow> bool" where
  "analysis_result s e g r \<longleftrightarrow>
     (case r of (ok, e', g') \<Rightarrow>
        if ok then elaborates e e' \<and> expr_typed s e' (expr_resolved e') \<and> g_error_count g' = g_error_count g
        else g_error_count g < g_error_count g')"

definition sound_analysis :: "sf_semantic \<Rightarrow> sf_expr \<Rightarrow> analysis \<Rightarrow> bool" where
  "sound_analysis s e a \<longleftrightarrow> (\<forall>t g. analysis_result s e g (a t g))"

lemma analysis_result_simps:
  "analysis_result s e g (True, e', g') \<longleftrightarrow>
     elaborates e e' \<and> expr_typed s e' (expr_resolved e') \<and> g_error_count g' = g_error_count g"
  "analysis_result s e g (False, e', g') \<longleftrightarrow> g_error_count g < g_error_count g'"
  by (simp_all add: analysis_result_def)

lemma sound_cases:
  assumes "sound_analysis s e a"
  obtains (rejected) e' g' where "a t g = (False, e', g')" "g_error_count g < g_error_count g'"
  | (accepted) e' g' where "a t g = (True, e', g')" "elaborates e e'" "expr_typed s e' (expr_resolved e')"
      "g_error_count g' = g_error_count g"
proof -
  obtain ok e' g' where r: "a t g = (ok, e', g')" by (metis prod_cases3)
  then have "analysis_result s e g (ok, e', g')" using assms by (metis sound_analysis_def)
  with r that show ?thesis by (cases ok) (simp_all add: analysis_result_simps)
qed

lemma sem_error_count: "g_error_count (sem_error s c sp args g) = Suc (g_error_count g)"
  by (simp add: sem_error_def sf_log_error)

lemma const_warn_count: "g_error_count (sf_const_warn f e g) = g_error_count g"
  by (simp add: sf_const_warn_def sf_log_warning split: option.split)

lemma undeclared_count: "g_error_count (sf_semantic_report_undeclared s n sp g) = Suc (g_error_count g)"
  by (simp add: sf_semantic_report_undeclared_def sem_error_count)

lemmas counts = sem_error_count const_warn_count undeclared_count sf_log_warning sf_log_error

lemma new_base: "same_node b b" "same_node b (b\<lparr>ab_resolved := t\<rparr>)"
  by (simp_all add: same_node_def)

subsection \<open>Leaves\<close>

lemma sound_literal:
  assumes "literal_token t"
  shows "sound_analysis s (SF_NODE_LITERAL b t v) (analyze_literal s b t v)"
proof -
  have int: "analysis_result s (SF_NODE_LITERAL b SF_TOKEN_TYPE_INTEGER v) g
      (analyze_literal s b SF_TOKEN_TYPE_INTEGER v expected g)" for expected g
    by (auto simp: analyze_literal_def Let_def analysis_result_simps counts set_resolved_def new_base
        uint_literal_fits_iff sf_type_value_is_integer_def
        intro!: elaborates.literal expr_typed.int_literal split: option.split)
  show ?thesis
  proof (cases "t = SF_TOKEN_TYPE_INTEGER")
    case True
    then show ?thesis using int by (simp add: sound_analysis_def)
  next
    case False
    then show ?thesis using assms
      by (auto simp: sound_analysis_def literal_token_def analyze_literal_def Let_def analysis_result_simps
          set_resolved_def new_base intro!: elaborates.literal expr_typed.bool_literal)
  qed
qed

lemma sound_identifier:
  "sound_analysis s (SF_NODE_IDENTIFIER b n d i symbol) (\<lambda>t g. analyze_identifier s b n d i symbol g)"
  by (auto simp: sound_analysis_def analyze_identifier_def Let_def analysis_result_simps counts new_base
      intro: elaborates.ident expr_typed.ident split: option.split)

subsection \<open>Unary operations and casts\<close>

lemma sound_negated_literal:
  "analysis_result s (SF_NODE_UNARY b (SF_NODE_LITERAL lb SF_TOKEN_TYPE_INTEGER v) SF_OP_TYPE_NEGATE) g
     (analyze_negated_literal s b (SF_NODE_LITERAL lb SF_TOKEN_TYPE_INTEGER v) v expected g)"
  by (auto simp: analyze_negated_literal_def Let_def analysis_result_simps counts set_resolved_def new_base
      signed_literal_fits_negated_iff
      intro!: elaborates.unary elaborates.literal expr_typed.negated_literal split: option.split)

lemma sound_negate_other:
  assumes "sem_ok s" "sound_analysis s e a"
  shows "analysis_result s (SF_NODE_UNARY b e SF_OP_TYPE_NEGATE) g
      (case a expected g of
         (False, operand1, g1) \<Rightarrow> (False, SF_NODE_UNARY b operand1 SF_OP_TYPE_NEGATE, g1)
       | (True, operand1, g1) \<Rightarrow>
           (let un = SF_NODE_UNARY b operand1 SF_OP_TYPE_NEGATE; child_type = expr_resolved operand1
            in if child_type = SF_VAL_TYPE_UNRESOLVED then (False, un, g1)
               else if \<not> sf_type_value_is_signed child_type
               then (False, un, sem_error s SF_LOG_SEMANTIC_TYPE_MISMATCH (ab_span b) [sf_type_value_name child_type] g1)
               else (True, set_resolved child_type un, g1)))"
  using assms(2)
proof (cases rule: sound_cases [where t = expected and g = g])
  case (accepted e' g')
  then show ?thesis using expr_typed_resolved [OF accepted(3) assms(1)]
    by (auto simp: Let_def analysis_result_simps counts set_resolved_def new_base
        intro: elaborates.unary expr_typed.negation)
qed (simp add: analysis_result_simps)

lemma sound_negate:
  assumes "sem_ok s" "sound_analysis s e a"
  shows "sound_analysis s (SF_NODE_UNARY b e SF_OP_TYPE_NEGATE) (analyze_negate s b e a)"
proof -
  have "analysis_result s (SF_NODE_UNARY b e SF_OP_TYPE_NEGATE) g (analyze_negate s b e a expected g)" for expected g
  proof (cases "\<exists>lb v. e = SF_NODE_LITERAL lb SF_TOKEN_TYPE_INTEGER v")
    case True
    then show ?thesis using sound_negated_literal by (auto simp: analyze_negate_def)
  next
    case False
    then have "analyze_negate s b e a expected g =
      (case a (if \<not> sf_type_value_is_signed expected then SF_VAL_TYPE_I64 else expected) g of
         (False, operand1, g1) \<Rightarrow> (False, SF_NODE_UNARY b operand1 SF_OP_TYPE_NEGATE, g1)
       | (True, operand1, g1) \<Rightarrow>
           (let un = SF_NODE_UNARY b operand1 SF_OP_TYPE_NEGATE; child_type = expr_resolved operand1
            in if child_type = SF_VAL_TYPE_UNRESOLVED then (False, un, g1)
               else if \<not> sf_type_value_is_signed child_type
               then (False, un, sem_error s SF_LOG_SEMANTIC_TYPE_MISMATCH (ab_span b) [sf_type_value_name child_type] g1)
               else (True, set_resolved child_type un, g1)))"
      by (cases e) (auto simp: analyze_negate_def split: sf_token_type.split)
    then show ?thesis using sound_negate_other [OF assms] by simp
  qed
  then show ?thesis by (simp add: sound_analysis_def)
qed

lemma sound_bitwise_not:
  assumes "sound_analysis s e a"
  shows "sound_analysis s (SF_NODE_UNARY b e SF_OP_TYPE_BITWISE_NOT) (analyze_bitwise_not s b a)"
proof -
  have "analysis_result s (SF_NODE_UNARY b e SF_OP_TYPE_BITWISE_NOT) g (analyze_bitwise_not s b a expected g)" for expected g
    using assms
  proof (cases rule: sound_cases [where t = expected and g = g])
    case (accepted e' g')
    then show ?thesis
      by (auto simp: analyze_bitwise_not_def Let_def analysis_result_simps counts set_resolved_def new_base
          intro: elaborates.unary expr_typed.bitwise_not)
  qed (simp add: analysis_result_simps analyze_bitwise_not_def)
  then show ?thesis by (simp add: sound_analysis_def)
qed

lemma sound_logical_not:
  assumes "sound_analysis s e a"
  shows "sound_analysis s (SF_NODE_UNARY b e SF_OP_TYPE_LOGICAL_NOT) (\<lambda>t. analyze_logical_not s b a)"
proof -
  have "analysis_result s (SF_NODE_UNARY b e SF_OP_TYPE_LOGICAL_NOT) g (analyze_logical_not s b a g)" for g
    using assms
  proof (cases rule: sound_cases [where t = SF_VAL_TYPE_BOOL and g = g])
    case (accepted e' g')
    then show ?thesis
      by (auto simp: analyze_logical_not_def Let_def analysis_result_simps counts set_resolved_def new_base
          intro: elaborates.unary expr_typed.logical_not)
  qed (simp add: analysis_result_simps analyze_logical_not_def)
  then show ?thesis by (simp add: sound_analysis_def)
qed

lemma sound_increment:
  assumes "sound_analysis s e a" "sf_type_is_increment_or_decrement op"
  shows "sound_analysis s (SF_NODE_UNARY b e op) (analyze_increment s b e op a)"
proof -
  have "analysis_result s (SF_NODE_UNARY b e op) g (analyze_increment s b e op a expected g)" for expected g
    using assms(1)
  proof (cases rule: sound_cases [where t = expected and g = g])
    case (accepted e' g')
    show ?thesis
    proof (cases "is_identifier e")
      case True
      then obtain ib n d i symbol where "e = SF_NODE_IDENTIFIER ib n d i symbol" by (cases e) auto
      with accepted(2) obtain ib' d' i' symbol' where e': "e' = SF_NODE_IDENTIFIER ib' n d' i' symbol'"
        by (auto elim: elaborates_ident_elim)
      with accepted(3) obtain sy where "symbol' = Some sy" by (auto elim: typed_ident_elim)
      with True accepted e' assms(2) show ?thesis
        by (auto simp: analyze_increment_def Let_def analysis_result_simps counts set_resolved_def new_base
            intro!: elaborates.unary expr_typed.increment)
    qed (simp add: analyze_increment_def analysis_result_simps counts)
  qed (simp add: analysis_result_simps analyze_increment_def counts)
  then show ?thesis by (simp add: sound_analysis_def)
qed

lemma sound_unary:
  assumes "sem_ok s" "sound_analysis s e a" "raw_unary_op op"
  shows "sound_analysis s (SF_NODE_UNARY b e op) (analyze_unary s b e op a)"
proof -
  consider "op = SF_OP_TYPE_NEGATE" | "op = SF_OP_TYPE_BITWISE_NOT" | "op = SF_OP_TYPE_LOGICAL_NOT"
    | "sf_type_is_increment_or_decrement op" "op \<noteq> SF_OP_TYPE_NEGATE" "op \<noteq> SF_OP_TYPE_BITWISE_NOT"
    using assms(3) by (auto simp: raw_unary_op_def sf_type_is_increment_or_decrement_def)
  then show ?thesis
  proof cases
    case 1
    then show ?thesis using sound_negate [OF assms(1,2)] by (simp add: analyze_unary_def [abs_def])
  next
    case 2
    then show ?thesis using sound_bitwise_not [OF assms(2)] by (simp add: analyze_unary_def [abs_def])
  next
    case 3
    then show ?thesis using sound_logical_not [OF assms(2)]
      by (simp add: analyze_unary_def [abs_def] sf_type_is_increment_or_decrement_def)
  next
    case 4
    then show ?thesis using sound_increment [OF assms(2)] by (simp add: analyze_unary_def [abs_def])
  qed
qed

lemma sound_cast:
  assumes "sem_ok s" "sound_analysis s e a"
  shows "sound_analysis s (SF_NODE_CAST b e ty) (\<lambda>t. analyze_cast s b ty a)"
proof -
  have "analysis_result s (SF_NODE_CAST b e ty) g (analyze_cast s b ty a g)" for g
    using assms(2)
  proof (cases rule: sound_cases [where t = SF_VAL_TYPE_UNRESOLVED and g = g])
    case (accepted e' g')
    then show ?thesis using expr_typed_resolved [OF accepted(3) assms(1)]
      by (auto simp: analyze_cast_def Let_def analysis_result_simps counts set_resolved_def new_base
          intro: elaborates.cast expr_typed.cast)
  qed (simp add: analysis_result_simps analyze_cast_def)
  then show ?thesis by (simp add: sound_analysis_def)
qed

subsection \<open>Binary operations\<close>

lemma sound_operands:
  assumes "sound_analysis s l al" "sound_analysis s r ar"
    "analyze_binary_operands op l r al ar t g = (ok, l', r', g')"
  shows "if ok then elaborates l l' \<and> expr_typed s l' (expr_resolved l') \<and> elaborates r r' \<and>
      expr_typed s r' (expr_resolved r') \<and> g_error_count g' = g_error_count g
    else g_error_count g < g_error_count g'"
proof (cases "sf_op_is_relational op \<and> is_literal l \<and> \<not> is_literal r")
  case swap: True
  show ?thesis
    using assms(2)
  proof (cases rule: sound_cases [where t = t and g = g])
    case (accepted r1 g1)
    note right = accepted
    show ?thesis
      using assms(1)
    proof (cases rule: sound_cases [where t = "if expr_resolved r1 \<noteq> SF_VAL_TYPE_UNRESOLVED then expr_resolved r1 else t"
          and g = g1])
      case (accepted l1 g2)
      then show ?thesis using right swap assms(3) by (auto simp: analyze_binary_operands_def split: if_splits)
    next
      case (rejected l1 g2)
      then show ?thesis using right swap assms(3) by (auto simp: analyze_binary_operands_def split: if_splits)
    qed
  next
    case (rejected r1 g1)
    then show ?thesis using swap assms(3) by (auto simp: analyze_binary_operands_def)
  qed
next
  case straight: False
  show ?thesis
    using assms(1)
  proof (cases rule: sound_cases [where t = t and g = g])
    case (accepted l1 g1)
    note left = accepted
    show ?thesis
      using assms(2)
    proof (cases rule: sound_cases [where t = "if \<not> sf_op_is_shift op \<and> expr_resolved l1 \<noteq> SF_VAL_TYPE_UNRESOLVED
            then expr_resolved l1 else t" and g = g1])
      case (accepted r1 g2)
      then show ?thesis using left straight assms(3) by (auto simp: analyze_binary_operands_def split: if_splits)
    next
      case (rejected r1 g2)
      then show ?thesis using left straight assms(3) by (auto simp: analyze_binary_operands_def split: if_splits)
    qed
  next
    case (rejected l1 g1)
    then show ?thesis using straight assms(3) by (auto simp: analyze_binary_operands_def)
  qed
qed

lemma const_int_sint: "const_int e = Some v \<Longrightarrow> \<exists>w. sf_const_eval_int e = Some w \<and> sint w = v"
  using const_eval_int_ref [of e] by (cases "sf_const_eval_int e") auto

lemma const_is_zero_iff:
  "sf_const_is_zero e b \<longleftrightarrow> (if b then const_int e else const_uint e) = Some 0"
proof -
  have "map_option sint (sf_const_eval_int e) = Some 0 \<longleftrightarrow> sf_const_eval_int e = Some 0"
    by (auto simp: sint64_eq [of _ 0])
  moreover have "map_option uint (sf_const_eval_uint e) = Some 0 \<longleftrightarrow> sf_const_eval_uint e = Some 0"
    by (auto simp: uint_0_iff)
  ultimately show ?thesis by (simp add: sf_const_is_zero_def const_eval_int_ref const_eval_uint_ref)
qed

text \<open>The result of a binary operation whose operands are elaborated and typed.\<close>

lemma binary_elaborates:
  "elaborates l l' \<Longrightarrow> elaborates r r' \<Longrightarrow>
   elaborates (SF_NODE_BINARY b l r op) (set_resolved t (SF_NODE_BINARY b l' r' op))"
  by (simp add: set_resolved_def new_base elaborates.binary)

lemma logical_result:
  assumes "sf_op_is_logical op" "elaborates l l'" "elaborates r r'" "expr_typed s l' lt" "expr_typed s r' rt"
  shows "analysis_result s (SF_NODE_BINARY b l r op) g (analyze_logical s (SF_NODE_BINARY b l' r' op) lt rt g)"
  using assms binary_elaborates [OF assms(2,3)]
  by (auto simp: analyze_logical_def Let_def analysis_result_simps counts) 
     (simp add: set_resolved_def expr_typed.logical)

lemma shift_result:
  assumes "sf_op_is_shift op" "elaborates l l'" "elaborates r r'" "expr_typed s l' lt" "expr_typed s r' rt"
  shows "analysis_result s (SF_NODE_BINARY b l r op) g (analyze_shift s (SF_NODE_BINARY b l' r' op) r' lt g)"
proof -
  have "expr_typed s (set_resolved lt (SF_NODE_BINARY b l' r' op)) lt"
    if "\<And>n. sf_const_eval_int r' = Some n \<Longrightarrow> 0 \<le> sint n \<and> sint n < int (sf_type_value_width_bits lt)"
    using assms that
    by (auto simp: set_resolved_def split: option.split dest!: const_int_sint intro!: expr_typed.shift [where rt = rt])
  then show ?thesis
    using binary_elaborates [OF assms(2,3)]
    by (auto simp: analyze_shift_def Let_def analysis_result_simps counts split: option.split)
qed

lemma relational_result:
  assumes "sf_op_is_relational op" "elaborates l l'" "elaborates r r'" "expr_typed s l' lt" "expr_typed s r' rt"
  shows "analysis_result s (SF_NODE_BINARY b l r op) g (analyze_relational s (SF_NODE_BINARY b l' r' op) lt rt g)"
proof -
  have "expr_typed s (set_resolved SF_VAL_TYPE_BOOL (SF_NODE_BINARY b l' r' op)) SF_VAL_TYPE_BOOL"
    if "sf_type_value_is_same_group lt rt" "sf_type_value_width_bits lt = sf_type_value_width_bits rt"
  proof -
    have "lt = rt" "sf_type_value_is_integer lt \<or> lt = SF_VAL_TYPE_BOOL"
      using that same_group_width_eq by (auto simp: same_group_iff sf_type_value_is_integer_def)
    then show ?thesis using assms by (auto simp: set_resolved_def intro: expr_typed.relational)
  qed
  then show ?thesis
    using binary_elaborates [OF assms(2,3)]
    by (auto simp: analyze_relational_def Let_def analysis_result_simps counts)
qed

lemma arithmetic_result:
  assumes "op \<in> {SF_OP_TYPE_ADD, SF_OP_TYPE_SUB, SF_OP_TYPE_MUL, SF_OP_TYPE_DIV, SF_OP_TYPE_BITWISE_AND,
      SF_OP_TYPE_BITWISE_OR, SF_OP_TYPE_BITWISE_XOR}"
    "elaborates l l'" "elaborates r r'" "expr_typed s l' lt" "expr_typed s r' rt"
  shows "analysis_result s (SF_NODE_BINARY b l r op) g (analyze_arithmetic s (SF_NODE_BINARY b l' r' op) r' op lt rt g)"
proof (cases "sf_type_value_is_same_group lt rt \<and> sf_type_value_is_integer lt")
  case True
  let ?t = "sf_type_value_promote lt rt"
  let ?bin = "set_resolved ?t (SF_NODE_BINARY b l' r' op)"
  obtain ok g1 where check: "sf_const_check_overflow ?bin ?t (se_filename s) g = (ok, g1)" by fastforce
  have fits: "ok \<longleftrightarrow> const_fits ?bin ?t" "g_error_count g1 = (if ok then g_error_count g else Suc (g_error_count g))"
    using check_overflow_fits [OF promote_integer check] True by auto
  have typed: "expr_typed s ?bin ?t"
    if "ok" "\<not> (op = SF_OP_TYPE_DIV \<and> sf_const_is_zero r' (sf_type_value_is_signed ?t))"
    using True assms that fits(1)
    by (auto simp: set_resolved_def const_is_zero_iff intro!: expr_typed.arithmetic)
  show ?thesis
    using True check fits typed binary_elaborates [OF assms(2,3)]
    by (auto simp: analyze_arithmetic_def Let_def analysis_result_def counts)
qed (auto simp: analyze_arithmetic_def analysis_result_simps counts)

lemma sound_binary:
  assumes "sem_ok s" "sound_analysis s l al" "sound_analysis s r ar" "raw_binary_op op"
  shows "sound_analysis s (SF_NODE_BINARY b l r op) (analyze_binary s b l r op al ar)"
proof -
  have "analysis_result s (SF_NODE_BINARY b l r op) g (analyze_binary s b l r op al ar expected g)" for expected g
  proof -
    define t where "t = (if sf_op_is_logical op then SF_VAL_TYPE_BOOL
       else if sf_op_is_relational op then SF_VAL_TYPE_UNRESOLVED
       else if \<not> sf_type_value_is_integer expected then SF_VAL_TYPE_UNRESOLVED else expected)"
    obtain ok l' r' g' where operands: "analyze_binary_operands op l r al ar t g = (ok, l', r', g')"
      by (metis prod_cases4)
    show ?thesis
    proof (cases ok)
      case True
      then have ops: "elaborates l l'" "expr_typed s l' (expr_resolved l')" "elaborates r r'"
        "expr_typed s r' (expr_resolved r')" "g_error_count g' = g_error_count g"
        using sound_operands [OF assms(2,3) operands] by simp_all
      then have res: "expr_resolved l' \<noteq> SF_VAL_TYPE_UNRESOLVED" "expr_resolved r' \<noteq> SF_VAL_TYPE_UNRESOLVED"
        using expr_typed_resolved [OF _ assms(1)] by auto
      have log: "analysis_result s (SF_NODE_BINARY b l r op) g x" if "analysis_result s (SF_NODE_BINARY b l r op) g' x" for x
        using ops(5) that by (auto simp: analysis_result_def split: prod.splits)
      have body: "analyze_binary s b l r op al ar expected g =
          (let bin = SF_NODE_BINARY b l' r' op
           in if sf_op_is_logical op then analyze_logical s bin (expr_resolved l') (expr_resolved r') g'
              else if sf_op_is_shift op then analyze_shift s bin r' (expr_resolved l') g'
              else if sf_op_is_relational op then analyze_relational s bin (expr_resolved l') (expr_resolved r') g'
              else analyze_arithmetic s bin r' op (expr_resolved l') (expr_resolved r') g')"
        using operands res True unfolding analyze_binary_def t_def [symmetric] by (simp add: Let_def)
      consider "sf_op_is_logical op" | "\<not> sf_op_is_logical op" "sf_op_is_shift op"
        | "\<not> sf_op_is_logical op" "\<not> sf_op_is_shift op" "sf_op_is_relational op"
        | "\<not> sf_op_is_logical op" "\<not> sf_op_is_shift op" "\<not> sf_op_is_relational op"
        by blast
      then show ?thesis
      proof cases
        case 1
        then show ?thesis by (simp add: body log [OF logical_result [OF 1 ops(1,3,2,4)]])
      next
        case 2
        then show ?thesis by (simp add: body log [OF shift_result [OF 2(2) ops(1,3,2,4)]])
      next
        case 3
        then show ?thesis by (simp add: body log [OF relational_result [OF 3(3) ops(1,3,2,4)]])
      next
        case 4
        then have op: "op \<in> {SF_OP_TYPE_ADD, SF_OP_TYPE_SUB, SF_OP_TYPE_MUL, SF_OP_TYPE_DIV, SF_OP_TYPE_BITWISE_AND,
            SF_OP_TYPE_BITWISE_OR, SF_OP_TYPE_BITWISE_XOR}"
          using assms(4) by (simp add: raw_binary_op_def)
        from 4 show ?thesis by (simp add: body log [OF arithmetic_result [OF op ops(1,3,2,4)]])
      qed
    next
      case False
      then have "analyze_binary s b l r op al ar expected g = (False, SF_NODE_BINARY b l' r' op, g')"
        using operands unfolding analyze_binary_def t_def [symmetric] by simp
      then show ?thesis using sound_operands [OF assms(2,3) operands] False by (simp add: analysis_result_simps)
    qed
  qed
  then show ?thesis by (simp add: sound_analysis_def)
qed

subsection \<open>Calls\<close>

definition elaborates_arg :: "sf_expr \<Rightarrow> sf_expr \<Rightarrow> bool" where
  "elaborates_arg a a' \<longleftrightarrow> elaborates a a' \<or> (\<exists>cb a'' t. a' = SF_NODE_CAST cb a'' t \<and> elaborates a a'')"

lemma same_group_castable: "sf_type_value_is_same_group a b \<Longrightarrow> sf_type_value_is_castable a b"
  by (cases a; cases b) (simp_all add: same_group_iff sf_type_value_is_castable_def)

lemma check_argument_cases:
  assumes "check_argument_type resolved p f i sp fn g = (ok, g')"
  shows "if ok then g' = g \<and> (resolved \<noteq> SF_VAL_TYPE_UNRESOLVED \<longrightarrow> sf_type_value_is_same_group resolved p)
    else g_error_count g' = Suc (g_error_count g)"
  using assms by (auto simp: check_argument_type_def counts split: if_splits)

lemma argument_result:
  assumes "sem_ok s" "sound_analysis s e a" "analyze_argument s func i a g = (ok, arg, g')"
  shows "if ok then elaborates_arg e arg \<and> g_error_count g' = g_error_count g \<and>
      (i < length (fs_parameters func) \<longrightarrow> expr_typed s arg (pm_type (fs_parameters func ! i)))
    else g_error_count g < g_error_count g'"
proof -
  define t where "t = (if i < length (fs_parameters func) then pm_type (fs_parameters func ! i) else SF_VAL_TYPE_UNRESOLVED)"
  show ?thesis
    using assms(2)
  proof (cases rule: sound_cases [where t = t and g = g])
    case (rejected e' g1)
    then show ?thesis using assms(3) by (auto simp: analyze_argument_def Let_def t_def [symmetric])
  next
    case (accepted e' g1)
    show ?thesis
    proof (cases "i < length (fs_parameters func)")
      case False
      then show ?thesis using accepted assms(3)
        by (auto simp: analyze_argument_def Let_def t_def elaborates_arg_def)
    next
      case True
      then have t: "t = pm_type (fs_parameters func ! i)" by (simp add: t_def)
      obtain c g2 where check: "check_argument_type (expr_resolved e') t (fs_name func) i (expr_span e') (se_filename s) g1
          = (c, g2)" by fastforce
      have res: "expr_resolved e' \<noteq> SF_VAL_TYPE_UNRESOLVED" using expr_typed_resolved [OF accepted(3) assms(1)] .
      have cast: "expr_typed s (set_resolved t (sf_new_cast_node e' t (expr_span e'))) t"
        if "sf_type_value_is_same_group (expr_resolved e') t"
        using expr_typed.cast [OF accepted(3) same_group_castable [OF that]]
        by (simp add: set_resolved_def sf_new_cast_node_def)
      have cast_el: "elaborates_arg e (set_resolved t (sf_new_cast_node e' t (expr_span e')))"
        using accepted(2) by (auto simp: elaborates_arg_def set_resolved_def sf_new_cast_node_def)
      show ?thesis
        using check_argument_cases [OF check] check res accepted assms(3) True cast cast_el
        by (auto simp: analyze_argument_def Let_def t [symmetric] elaborates_arg_def split: if_splits bool.splits)
    qed
  qed
qed

lemma arguments_result:
  assumes "sem_ok s"
  shows "list_all2 (sound_analysis s) es as \<Longrightarrow> analyze_arguments s func i as g = (ok, args, g') \<Longrightarrow>
    length args = length es \<and>
    (if ok then list_all2 elaborates_arg es args \<and> g_error_count g' = g_error_count g \<and>
       (\<forall>j < length args. i + j < length (fs_parameters func) \<longrightarrow>
          expr_typed s (args ! j) (pm_type (fs_parameters func ! (i + j))))
     else g_error_count g < g_error_count g')"
proof (induction es as arbitrary: i g ok args g' rule: list_all2_induct)
  case (Cons e es a as)
  obtain ok1 arg g1 where first: "analyze_argument s func i a g = (ok1, arg, g1)" by (metis prod_cases3)
  obtain oks args2 g2 where rest: "analyze_arguments s func (i + 1) as g1 = (oks, args2, g2)" by (metis prod_cases3)
  have res: "ok = (ok1 \<and> oks)" "args = arg # args2" "g' = g2" using Cons.prems first rest by simp_all
  note head = argument_result [OF assms Cons.hyps(1) first]
  note tail = Cons.IH [OF rest]
  show ?case
  proof (cases "ok1 \<and> oks")
    case True
    then show ?thesis using head tail res by (auto simp: nth_Cons split: nat.split)
  next
    case False
    then show ?thesis using head tail res by (cases ok1; cases oks) auto
  qed
qed simp

lemma undeclared_result:
  "list_all2 (sound_analysis s) es as \<Longrightarrow> analyze_undeclared_arguments as g = (args, g') \<Longrightarrow>
   g_error_count g \<le> g_error_count g'"
proof (induction es as arbitrary: g args g' rule: list_all2_induct)
  case (Cons e es a as)
  show ?case
    using Cons.hyps(1)
  proof (cases rule: sound_cases [where t = SF_VAL_TYPE_UNRESOLVED and g = g])
    case (rejected e' g1)
    obtain args2 g2 where rest: "analyze_undeclared_arguments as g1 = (args2, g2)" by fastforce
    from Cons.IH [OF rest] Cons.prems rejected rest show ?thesis by simp
  next
    case (accepted e' g1)
    obtain args2 g2 where rest: "analyze_undeclared_arguments as g1 = (args2, g2)" by fastforce
    from Cons.IH [OF rest] Cons.prems accepted rest show ?thesis by simp
  qed
qed simp

lemma sound_call:
  assumes "sem_ok s" "list_all2 (sound_analysis s) es as"
  shows "sound_analysis s (SF_NODE_FUNC_CALL b c ln es) (\<lambda>t. analyze_func_call s b c ln as)"
proof -
  have "analysis_result s (SF_NODE_FUNC_CALL b c ln es) g (analyze_func_call s b c ln as g)" for g
  proof (cases "sf_func_symbol_table_lookup (se_funcs s) (callee_name c)")
    case None
    define g1 where "g1 = sem_error s SF_LOG_SEMANTIC_UNDECLARED (expr_span c)
      (case sf_func_symbol_table_find_closest (se_funcs s) (callee_name c) of
         None \<Rightarrow> [callee_name c] | Some closest \<Rightarrow> [callee_name c, closest]) g"
    obtain args g2 where args: "analyze_undeclared_arguments as g1 = (args, g2)" by fastforce
    have "g_error_count g1 = Suc (g_error_count g)" by (simp only: g1_def counts)
    moreover have "g_error_count g1 \<le> g_error_count g2" using undeclared_result [OF assms(2) args] .
    moreover have "analyze_func_call s b c ln as g = (False, SF_NODE_FUNC_CALL b c ln args, g2)"
      using None args by (simp add: analyze_func_call_def g1_def)
    ultimately show ?thesis by (simp add: analysis_result_simps)
  next
    case (Some func)
    obtain ok args g1 where args: "analyze_arguments s func 0 as g = (ok, args, g1)" by (metis prod_cases3)
    note res = arguments_result [OF assms args]
    have mono: "g_error_count g \<le> g_error_count g1" using res by (cases ok) auto
    have typed: "list_all2 (expr_typed s) args (map pm_type (fs_parameters func))"
      if "ok" "length args = length (fs_parameters func)"
    proof (rule list_all2_all_nthI)
      show "length args = length (map pm_type (fs_parameters func))" using that by simp
      show "expr_typed s (args ! j) (map pm_type (fs_parameters func) ! j)" if "j < length args" for j
        using res \<open>ok\<close> \<open>length args = length (fs_parameters func)\<close> that by simp
    qed
    consider (count) "length args \<noteq> length (fs_parameters func)"
      | (accepted) "length args = length (fs_parameters func)" ok
      | (rejected) "length args = length (fs_parameters func)" "\<not> ok"
      by blast
    then show ?thesis
    proof cases
      case count
      then show ?thesis using Some args mono by (simp add: analyze_func_call_def analysis_result_simps counts)
    next
      case accepted
      have body: "analyze_func_call s b c ln as g =
          (True, SF_NODE_FUNC_CALL (b\<lparr>ab_resolved := fs_return_type func\<rparr>) c (Some (fs_link_name func)) args, g1)"
        using Some args accepted by (simp add: analyze_func_call_def)
      have "elaborates (SF_NODE_FUNC_CALL b c ln es)
          (SF_NODE_FUNC_CALL (b\<lparr>ab_resolved := fs_return_type func\<rparr>) c (Some (fs_link_name func)) args)"
        using res accepted by (intro elaborates.call new_base) (simp add: elaborates_arg_def [abs_def])
      then show ?thesis
        using expr_typed.call [OF Some typed [OF accepted(2,1)], of "b\<lparr>ab_resolved := fs_return_type func\<rparr>"] res accepted
        by (simp add: body analysis_result_simps)
    next
      case rejected
      then show ?thesis using Some args res by (simp add: analyze_func_call_def analysis_result_simps)
    qed
  qed
  then show ?thesis by (simp add: sound_analysis_def)
qed

subsection \<open>All expressions\<close>

lemma sound_expr: "sem_ok s \<Longrightarrow> raw_ok e \<Longrightarrow> sound_analysis s e (sf_semantic_expr s e)"
proof (induction e)
  case (SF_NODE_LITERAL b t v)
  then show ?case using sound_literal [of t s b v] by (simp add: sound_analysis_def)
next
  case (SF_NODE_IDENTIFIER b n d i symbol)
  then show ?case using sound_identifier [of s b n d i symbol] by (simp add: sound_analysis_def)
next
  case (SF_NODE_BINARY b l r op)
  then have "sound_analysis s l (\<lambda>t g. sf_semantic_expr s l t g)" "sound_analysis s r (\<lambda>t g. sf_semantic_expr s r t g)"
    by simp_all
  from sound_binary [OF SF_NODE_BINARY.prems(1) this, of op b] SF_NODE_BINARY.prems(2) show ?case
    by (simp add: sound_analysis_def)
next
  case (SF_NODE_UNARY b e op)
  then have "sound_analysis s e (\<lambda>t g. sf_semantic_expr s e t g)" by simp
  from sound_unary [OF SF_NODE_UNARY.prems(1) this, of op b] SF_NODE_UNARY.prems(2) show ?case
    by (simp add: sound_analysis_def)
next
  case (SF_NODE_CAST b e t)
  then have "sound_analysis s e (\<lambda>t g. sf_semantic_expr s e t g)" by simp
  from sound_cast [OF SF_NODE_CAST.prems(1) this, of b t] show ?case by (simp add: sound_analysis_def)
next
  case (SF_NODE_FUNC_CALL b c ln es)
  have "list_all2 (sound_analysis s) es (map (\<lambda>a. \<lambda>t g. sf_semantic_expr s a t g) es)"
    using SF_NODE_FUNC_CALL by (auto simp: list_all2_conv_all_nth)
  from sound_call [OF SF_NODE_FUNC_CALL.prems(1) this, of b c ln] show ?case by (simp add: sound_analysis_def)
qed

section \<open>The interface to the statements\<close>

locale expression_analysis =
  fixes analyze :: "sf_semantic \<Rightarrow> sf_expr \<Rightarrow> analysis"
  assumes analyze_sound: "sem_ok s \<Longrightarrow> raw_ok e \<Longrightarrow> sound_analysis s e (analyze s e)"
begin

lemma accepted:
  assumes "sem_ok s" "raw_ok e" "analyze s e t g = (True, e', g')"
  shows "elaborates e e'" "expr_typed s e' (expr_resolved e')" "g_error_count g' = g_error_count g"
    "expr_resolved e' \<noteq> SF_VAL_TYPE_UNRESOLVED"
proof -
  from sound_cases [OF analyze_sound [OF assms(1,2)], of t g]
  have "elaborates e e' \<and> expr_typed s e' (expr_resolved e') \<and> g_error_count g' = g_error_count g"
    using assms(3) by (metis prod.inject)
  then show "elaborates e e'" "expr_typed s e' (expr_resolved e')" "g_error_count g' = g_error_count g"
    "expr_resolved e' \<noteq> SF_VAL_TYPE_UNRESOLVED"
    using expr_typed_resolved [OF _ assms(1)] by auto
qed

lemma rejected:
  assumes "sem_ok s" "raw_ok e" "analyze s e t g = (False, e', g')"
  shows "g_error_count g < g_error_count g'"
  using sound_cases [OF analyze_sound [OF assms(1,2)], of t g] assms(3) by (metis prod.inject)

lemma errors_mono:
  assumes "sem_ok s" "raw_ok e" "analyze s e t g = (ok, e', g')"
  shows "g_error_count g \<le> g_error_count g'"
  using accepted(3) [OF assms(1,2)] rejected [OF assms(1,2)] assms(3) by (cases ok) (auto intro: less_imp_le)

end

interpretation sem_expr: expression_analysis sf_semantic_expr
  by unfold_locales (rule sound_expr)

text \<open>C20: The analysis of expressions is a type checker. For every parsed expression and every state
  whose declarations have types, an accepted expression is the parsed one with annotations and
  casts of arguments added, it has its annotated type by the typing rules of the language, and no
  error is logged; a rejected expression logs at least one error.\<close>

theorem semantic_expr_typed:
  assumes "sem_ok s" "raw_ok e" "sf_semantic_expr s e expected g = (ok, e', g')"
  shows "if ok
    then elaborates e e' \<and> expr_typed s e' (expr_resolved e') \<and> g_error_count g' = g_error_count g
    else g_error_count g < g_error_count g'"
  using sem_expr.accepted [OF assms(1,2)] sem_expr.rejected [OF assms(1,2)] assms(3) by (cases ok) auto

definition sem_in :: "sf_scope \<Rightarrow> sf_func_symbol list \<Rightarrow> sf_semantic" where
  "sem_in scope funcs = \<lparr>se_scope = scope, se_funcs = \<lparr>ft_functions = funcs, ft_next_id = length funcs\<rparr>,
     se_current_func = None, se_filename = ''m.slfr'', se_module_prefix = None\<rparr>"

lemma semantic_expr_typed_witness:
  "g_error_count (snd (snd (sf_semantic_expr (sem_in (one_scope True) [])
      (sf_new_unary_node (sf_new_identifier_node ''x'' sf_span_zero) SF_OP_TYPE_POSTFIX_INCREMENT sf_span_zero)
      SF_VAL_TYPE_I32 sf_log_init))) \<noteq> 0"
proof -
  let ?s = "sem_in (one_scope True) []"
  let ?e = "sf_new_unary_node (sf_new_identifier_node ''x'' sf_span_zero) SF_OP_TYPE_POSTFIX_INCREMENT sf_span_zero"
  obtain ok e' g' where r: "sf_semantic_expr ?s ?e SF_VAL_TYPE_I32 sf_log_init = (ok, e', g')" by (metis prod_cases3)
  have "sem_ok ?s" by (simp add: sem_ok_def sem_in_def one_scope_def)
  moreover have "raw_ok ?e"
    by (simp add: sf_new_unary_node_def sf_new_identifier_node_def raw_unary_op_def sf_type_is_increment_or_decrement_def)
  moreover have "\<not> ok" using r
    by (simp add: sf_new_unary_node_def sf_new_identifier_node_def analyze_unary_def sf_type_is_increment_or_decrement_def
        analyze_increment_def analyze_identifier_def scope_lookup_def sf_var_symbol_table_lookup_def sem_in_def one_scope_def
        no_qualifiers_def sf_type_value_is_integer_def)
  ultimately show ?thesis
    using semantic_expr_typed [OF _ _ r] r by (simp add: sf_log_init_def)
qed

text \<open>A shift does not check the type of its right operand: an integer shifted by the result of a
  function that returns nothing is accepted without a diagnostic.\<close>

theorem shift_by_void_accepted:
  assumes "sf_func_symbol_table_lookup (se_funcs s) name = Some func" "fs_parameters func = []"
    "fs_return_type func = SF_VAL_TYPE_VOID"
  shows "\<exists>e'. sf_semantic_expr s (sf_new_binary_node (sf_new_literal_node ''1'' SF_TOKEN_TYPE_INTEGER sp)
      (sf_new_func_call_node (sf_new_identifier_node name sp) sp) SF_OP_TYPE_BITWISE_LSHIFT sp) SF_VAL_TYPE_I32 g
    = (True, e', g) \<and> expr_resolved e' = SF_VAL_TYPE_I32"
proof -
  have one: "strtoull10 ''1'' = Some 1" using strtoull10_dec_digits [of 1] by (simp add: dec_digits.simps)
  show ?thesis
    using assms
    by (simp add: sf_new_binary_node_def sf_new_literal_node_def sf_new_func_call_node_def sf_new_identifier_node_def
        analyze_binary_def analyze_binary_operands_def sf_op_is_logical_def sf_op_is_relational_def sf_op_is_shift_def
        sf_type_value_is_integer_def analyze_literal_def one analyze_func_call_def analyze_shift_def set_resolved_def
        new_node_def)
qed

lemma shift_by_void_accepted_witness:
  "fst (sf_semantic_expr (sem_in scope_init [main_symbol\<lparr>fs_return_type := SF_VAL_TYPE_VOID\<rparr>])
     (sf_new_binary_node (sf_new_literal_node ''1'' SF_TOKEN_TYPE_INTEGER sf_span_zero)
       (sf_new_func_call_node (sf_new_identifier_node ''main'' sf_span_zero) sf_span_zero) SF_OP_TYPE_BITWISE_LSHIFT sf_span_zero)
     SF_VAL_TYPE_I32 sf_log_init)"
proof -
  let ?s = "sem_in scope_init [main_symbol\<lparr>fs_return_type := SF_VAL_TYPE_VOID\<rparr>]"
  have "sf_func_symbol_table_lookup (se_funcs ?s) ''main'' = Some (main_symbol\<lparr>fs_return_type := SF_VAL_TYPE_VOID\<rparr>)"
    by (simp add: sf_func_symbol_table_lookup_def sem_in_def main_symbol_def)
  from shift_by_void_accepted [OF this, of sf_span_zero sf_log_init] show ?thesis
    by (auto simp: main_symbol_def)
qed

end
