(* ===== verification/Sem_Stmt.thy ===== *)
theory Sem_Stmt
  imports Sem_Typing Mangle
begin

text \<open>
  The analysis of statements, \<^verbatim>\<open>frontend/semantic/semantic.c\<close>. An analysis of a statement takes the
  state and the log and returns the annotated statement, the new state and the log. As for
  expressions, a function that analyses sub-statements takes their analyses as arguments, and
  \<open>analyze_statement\<close> closes the recursion. Memory for scopes, flow states and names is
  available (without it the C code logs a fatal error and the driver stops).
\<close>

section \<open>Checks of types and qualifiers\<close>

type_synonym statement_analysis = "sf_semantic \<Rightarrow> sf_log_state \<Rightarrow> sf_stmt \<times> sf_semantic \<times> sf_log_state"

definition check_assignment_type ::
  "sf_value_type \<Rightarrow> sf_value_type \<Rightarrow> sf_span \<Rightarrow> string \<Rightarrow> sf_log_state \<Rightarrow> bool \<times> sf_log_state" where
  "check_assignment_type resolved target span filename g =
     (if resolved = SF_VAL_TYPE_UNRESOLVED then (True, g)
      else if \<not> sf_type_value_is_same_group resolved target
      then (False, sf_log (Some filename) SF_LOG_SEMANTIC_TYPE_MISMATCH span SF_LOG_SEVERITY_ERROR
                     [sf_type_value_name resolved, sf_type_value_name target] g)
      else if sf_type_value_width_bits target < sf_type_value_width_bits resolved
      then (False, sf_log (Some filename) SF_LOG_SEMANTIC_INVALID_IMPLICIT_CAST span SF_LOG_SEVERITY_ERROR
                     [sf_type_value_name resolved, sf_type_value_name target] g)
      else (True, g))"

definition check_return_type ::
  "sf_value_type \<Rightarrow> sf_value_type \<Rightarrow> string \<Rightarrow> sf_span \<Rightarrow> string \<Rightarrow> sf_log_state \<Rightarrow> bool \<times> sf_log_state" where
  "check_return_type resolved target func_name span filename g =
     (if resolved = SF_VAL_TYPE_UNRESOLVED then (True, g)
      else if \<not> sf_type_value_is_same_group resolved target
      then (False, sf_log (Some filename) SF_LOG_SEMANTIC_TYPE_MISMATCH span SF_LOG_SEVERITY_ERROR
                     [func_name, sf_type_value_name target, sf_type_value_name resolved] g)
      else if sf_type_value_width_bits target < sf_type_value_width_bits resolved
      then (False, sf_log (Some filename) SF_LOG_SEMANTIC_INVALID_IMPLICIT_CAST span SF_LOG_SEVERITY_ERROR
                     [sf_type_value_name resolved, sf_type_value_name target, func_name] g)
      else (True, g))"

definition analyze_var_sym_qual :: "sf_semantic \<Rightarrow> sf_var_symbol \<Rightarrow> sf_log_state \<Rightarrow> bool \<times> sf_log_state" where
  "analyze_var_sym_qual s var g =
     (if is_public (vs_qualifiers var) \<or> is_extern (vs_qualifiers var)
      then (False, sem_error s SF_LOG_SEMANTIC_INVALID_QUALIFIER (vs_span var) [] g)
      else (True, g))"

definition analyze_func_sym_qual :: "sf_semantic \<Rightarrow> sf_func_symbol \<Rightarrow> sf_log_state \<Rightarrow> bool \<times> sf_log_state" where
  "analyze_func_sym_qual s func g =
     (if is_mutable (fs_qualifiers func)
      then (False, sem_error s SF_LOG_SEMANTIC_INVALID_QUALIFIER (fs_span func) [fs_name func] g)
      else if is_extern (fs_qualifiers func) \<and> is_public (fs_qualifiers func)
      then (False, sem_error s SF_LOG_SEMANTIC_INVALID_QUALIFIER (fs_span func) [fs_name func] g)
      else (True, g))"

definition has_qualifiers :: "sf_func_symbol \<Rightarrow> bool" where
  "has_qualifiers func \<longleftrightarrow> is_mutable (fs_qualifiers func) \<or> is_public (fs_qualifiers func) \<or> is_extern (fs_qualifiers func)"

definition shadows_parameter :: "sf_semantic \<Rightarrow> string \<Rightarrow> bool" where
  "shadows_parameter s name =
     (case se_current_func s of None \<Rightarrow> False | Some f \<Rightarrow> name \<in> pm_name ` set (cf_parameters f))"

fun has_no_effect :: "sf_expr \<Rightarrow> bool" where
  "has_no_effect (SF_NODE_LITERAL _ _ _) = True"
| "has_no_effect (SF_NODE_IDENTIFIER _ _ _ _ _) = True"
| "has_no_effect (SF_NODE_BINARY _ left right _) = (has_no_effect left \<and> has_no_effect right)"
| "has_no_effect (SF_NODE_UNARY _ operand op) =
     (if sf_type_is_increment_or_decrement op then False else has_no_effect operand)"
| "has_no_effect (SF_NODE_CAST _ operand _) = has_no_effect operand"
| "has_no_effect (SF_NODE_FUNC_CALL _ _ _ _) = False"

fun stmt_always_returns :: "sf_stmt \<Rightarrow> bool" where
  "stmt_always_returns (SF_NODE_RETURN _ _) = True"
| "stmt_always_returns (SF_NODE_BLOCK _ statements) = (\<exists>s \<in> set statements. stmt_always_returns s)"
| "stmt_always_returns (SF_NODE_IF _ _ branch_then branch_else) =
     (case branch_else of
        None \<Rightarrow> False
      | Some s \<Rightarrow> stmt_always_returns branch_then \<and> stmt_always_returns s)"
| "stmt_always_returns _ = False"

section \<open>Statements\<close>

definition analyze_var_decl ::
  "sf_ast_base \<Rightarrow> sf_qualifiers \<Rightarrow> sf_value_type \<Rightarrow> string \<Rightarrow> nat \<Rightarrow> sf_expr option \<Rightarrow> statement_analysis" where
  "analyze_var_decl b qualifiers var_type name vid value s g =
     (let node = SF_NODE_VAR_DECL b qualifiers var_type name vid;
          var = \<lparr>vs_name = name, vs_type = var_type, vs_initialized = value \<noteq> None, vs_depth = 0, vs_id = 0,
                 vs_span = ab_span b, vs_qualifiers = qualifiers\<rparr>
      in if var_type = SF_VAL_TYPE_VOID
         then (node value, s, sem_error s SF_LOG_SEMANTIC_INVALID_TYPE (ab_span b) [name] g)
         else if shadows_parameter s name
         then (node value, s, sem_error s SF_LOG_SEMANTIC_REDECLARATION (ab_span b)
                 [name, (case se_current_func s of None \<Rightarrow> [] | Some f \<Rightarrow> cf_name f)] g)
         else (case analyze_var_sym_qual s var g of
                 (False, g1) \<Rightarrow> (node value, s, g1)
               | (True, g1) \<Rightarrow>
                   (case (case value of
                            None \<Rightarrow> (True, None, g1)
                          | Some e \<Rightarrow>
                              (case sf_semantic_expr s e var_type g1 of
                                 (False, e1, g2) \<Rightarrow> (False, Some e1, g2)
                               | (True, e1, g2) \<Rightarrow>
                                   (case check_assignment_type (expr_resolved e1) var_type (ab_span b) (se_filename s) g2 of
                                      (ok, g3) \<Rightarrow> (ok, Some e1, g3)))) of
                      (False, value1, g2) \<Rightarrow> (node value1, s, g2)
                    | (True, value1, g2) \<Rightarrow>
                        (case scope_insert (se_scope s) var (se_filename s) g2 of (scope1, g3) \<Rightarrow>
                          (SF_NODE_VAR_DECL b qualifiers var_type name
                             (case scope_lookup scope1 name of None \<Rightarrow> vid | Some inserted \<Rightarrow> vs_id inserted) value1,
                           s\<lparr>se_scope := scope1\<rparr>, g3)))))"

definition analyze_var_assign :: "sf_ast_base \<Rightarrow> string \<Rightarrow> sf_expr \<Rightarrow> nat \<Rightarrow> statement_analysis" where
  "analyze_var_assign b name value vid s g =
     (case scope_lookup (se_scope s) name of
        None \<Rightarrow> (SF_NODE_VAR_ASSIGN b name value vid, s, sf_semantic_report_undeclared s name (ab_span b) g)
      | Some var \<Rightarrow>
          (case sf_semantic_expr s value (vs_type var) g of
             (False, value1, g1) \<Rightarrow> (SF_NODE_VAR_ASSIGN b name value1 (vs_id var), s, g1)
           | (True, value1, g1) \<Rightarrow>
               (case check_assignment_type (expr_resolved value1) (vs_type var) (ab_span b) (se_filename s) g1 of
                  (False, g2) \<Rightarrow> (SF_NODE_VAR_ASSIGN b name value1 (vs_id var), s, g2)
                | (True, g2) \<Rightarrow>
                    (SF_NODE_VAR_ASSIGN (b\<lparr>ab_resolved := vs_type var\<rparr>) name value1 (vs_id var),
                     s\<lparr>se_scope := scope_set_initialized (se_scope s) name\<rparr>,
                     if \<not> is_mutable (vs_qualifiers var)
                     then sem_error s SF_LOG_SEMANTIC_INVALID_ASSIGN (ab_span b) [name] g2 else g2))))"

fun analyze_statements :: "statement_analysis list \<Rightarrow> sf_semantic \<Rightarrow> sf_log_state \<Rightarrow> sf_stmt list \<times> sf_semantic \<times> sf_log_state" where
  "analyze_statements [] s g = ([], s, g)"
| "analyze_statements (a # rest) s g =
     (case a s g of (stmt, s1, g1) \<Rightarrow>
       (case analyze_statements rest s1 g1 of (stmts, s2, g2) \<Rightarrow> (stmt # stmts, s2, g2)))"

definition push_scope :: "sf_semantic \<Rightarrow> sf_log_state \<Rightarrow> sf_semantic \<times> sf_log_state" where
  "push_scope s g = (case scope_push (\<lambda>_. True) (se_scope s) g of (scope1, g1) \<Rightarrow> (s\<lparr>se_scope := scope1\<rparr>, g1))"

definition pop_scope :: "sf_semantic \<Rightarrow> sf_semantic" where
  "pop_scope s = s\<lparr>se_scope := scope_pop (se_scope s)\<rparr>"

definition analyze_block :: "sf_ast_base \<Rightarrow> statement_analysis list \<Rightarrow> statement_analysis" where
  "analyze_block b analyze_stmts s g =
     (case push_scope s g of (s1, g1) \<Rightarrow>
       (case analyze_statements analyze_stmts s1 g1 of (statements, s2, g2) \<Rightarrow>
         (SF_NODE_BLOCK b statements, pop_scope s2, g2)))"

definition analyze_if ::
  "sf_ast_base \<Rightarrow> sf_expr \<Rightarrow> sf_stmt \<Rightarrow> sf_stmt option \<Rightarrow> statement_analysis \<Rightarrow> statement_analysis option \<Rightarrow> statement_analysis" where
  "analyze_if b condition branch_then branch_else analyze_then analyze_else s g =
     (case sf_semantic_expr s condition SF_VAL_TYPE_BOOL g of
        (False, condition1, g1) \<Rightarrow> (SF_NODE_IF b condition1 branch_then branch_else, s, g1)
      | (True, condition1, g1) \<Rightarrow>
          if expr_resolved condition1 \<noteq> SF_VAL_TYPE_BOOL
          then (SF_NODE_IF b condition1 branch_then branch_else, s,
                sem_error s SF_LOG_SEMANTIC_TYPE_MISMATCH (expr_span condition1)
                  [sf_type_value_name (expr_resolved condition1)] g1)
          else (let flow_before = scope_flow_save (\<lambda>_. True) (se_scope s)
                in case analyze_then s g1 of (then1, s1, g2) \<Rightarrow>
                  (let saved_then = scope_flow_save (\<lambda>_. True) (se_scope s1);
                       after_then = (if stmt_always_returns then1 then scope_flow_fill saved_then True else saved_then);
                       s2 = s1\<lparr>se_scope := scope_flow_restore (se_scope s1) flow_before\<rparr>
                   in case (case analyze_else of
                              None \<Rightarrow> (None, s2, g2)
                            | Some a \<Rightarrow> (case a s2 g2 of (else1, s3, g3) \<Rightarrow> (Some else1, s3, g3))) of
                        (else1, s3, g3) \<Rightarrow>
                          (let saved_else = scope_flow_save (\<lambda>_. True) (se_scope s3);
                               after_else = (if (case else1 of None \<Rightarrow> False | Some st \<Rightarrow> stmt_always_returns st)
                                             then scope_flow_fill saved_else True else saved_else)
                           in (SF_NODE_IF b condition1 then1 else1,
                               s3\<lparr>se_scope := scope_flow_restore (se_scope s3) (scope_flow_and after_then after_else)\<rparr>, g3)))))"

definition analyze_while :: "sf_ast_base \<Rightarrow> sf_expr \<Rightarrow> sf_stmt \<Rightarrow> statement_analysis \<Rightarrow> statement_analysis" where
  "analyze_while b condition branch_do analyze_do s g =
     (case sf_semantic_expr s condition SF_VAL_TYPE_BOOL g of
        (False, condition1, g1) \<Rightarrow> (SF_NODE_WHILE b condition1 branch_do, s, g1)
      | (True, condition1, g1) \<Rightarrow>
          if expr_resolved condition1 \<noteq> SF_VAL_TYPE_BOOL
          then (SF_NODE_WHILE b condition1 branch_do, s,
                sem_error s SF_LOG_SEMANTIC_TYPE_MISMATCH (expr_span condition1)
                  [sf_type_value_name (expr_resolved condition1)] g1)
          else (let flow_before = scope_flow_save (\<lambda>_. True) (se_scope s)
                in case analyze_do s g1 of (do1, s1, g2) \<Rightarrow>
                  (SF_NODE_WHILE b condition1 do1,
                   s1\<lparr>se_scope := scope_flow_restore (se_scope s1) flow_before\<rparr>, g2)))"

definition analyze_return :: "sf_ast_base \<Rightarrow> sf_expr option \<Rightarrow> statement_analysis" where
  "analyze_return b value s g =
     (case se_current_func s of
        None \<Rightarrow> (SF_NODE_RETURN b value, s, sem_error s SF_LOG_SEMANTIC_RETURN_OUTSIDE_FUNCTION (ab_span b) [] g)
      | Some func \<Rightarrow>
          (case value of
             None \<Rightarrow>
               (SF_NODE_RETURN b None, s,
                if cf_return_type func \<noteq> SF_VAL_TYPE_VOID
                then sem_error s SF_LOG_SEMANTIC_NO_VALUE_RETURN (ab_span b)
                       [cf_name func, sf_type_value_name (cf_return_type func)] g
                else g)
           | Some e \<Rightarrow>
               if cf_return_type func = SF_VAL_TYPE_VOID
               then (case sf_semantic_expr s e SF_VAL_TYPE_UNRESOLVED g of
                       (False, e1, g1) \<Rightarrow> (SF_NODE_RETURN b (Some e1), s, g1)
                     | (True, e1, g1) \<Rightarrow>
                         (SF_NODE_RETURN b (Some e1), s,
                          sem_error s SF_LOG_SEMANTIC_VOID_RETURN_VALUE (ab_span b)
                            [cf_name func, sf_type_value_name (expr_resolved e1)] g1))
               else (case sf_semantic_expr s e (cf_return_type func) g of
                       (False, e1, g1) \<Rightarrow> (SF_NODE_RETURN b (Some e1), s, g1)
                     | (True, e1, g1) \<Rightarrow>
                         (SF_NODE_RETURN b (Some e1), s,
                          snd (check_return_type (expr_resolved e1) (cf_return_type func) (cf_name func) (ab_span b)
                                 (se_filename s) g1)))))"

section \<open>Functions\<close>

text \<open>The loop over the parameters of a declaration; \<open>earlier\<close> are the ones before the current.\<close>

fun check_parameters :: "sf_semantic \<Rightarrow> sf_span \<Rightarrow> sf_parameter list \<Rightarrow> sf_parameter list \<Rightarrow> sf_log_state \<Rightarrow> sf_log_state" where
  "check_parameters s span earlier [] g = g"
| "check_parameters s span earlier (param # rest) g =
     (let g1 = (if pm_type param = SF_VAL_TYPE_VOID
                then sem_error s SF_LOG_SEMANTIC_INVALID_TYPE span [pm_name param] g else g);
          g2 = (if pm_name param \<in> pm_name ` set earlier
                then sem_error s SF_LOG_SEMANTIC_REDECLARATION span [pm_name param] g1 else g1)
      in check_parameters s span (earlier @ [param]) rest g2)"

fun declare_parameters ::
  "sf_semantic \<Rightarrow> sf_span \<Rightarrow> sf_parameter list \<Rightarrow> sf_log_state \<Rightarrow> sf_parameter list \<times> sf_semantic \<times> sf_log_state" where
  "declare_parameters s span [] g = ([], s, g)"
| "declare_parameters s span (param # rest) g =
     (if pm_type param = SF_VAL_TYPE_VOID
      then (case declare_parameters s span rest g of (ps, s1, g1) \<Rightarrow> (param # ps, s1, g1))
      else (let var = \<lparr>vs_name = pm_name param, vs_type = pm_type param, vs_initialized = True, vs_depth = 0, vs_id = 0,
                       vs_span = span, vs_qualifiers = pm_qualifiers param\<rparr>
            in case scope_insert (se_scope s) var (se_filename s) g of (scope1, g1) \<Rightarrow>
              (let param1 = (case scope_lookup scope1 (pm_name param) of
                               None \<Rightarrow> param | Some v \<Rightarrow> param\<lparr>pm_id := vs_id v\<rparr>)
               in case declare_parameters (s\<lparr>se_scope := scope1\<rparr>) span rest g1 of
                    (ps, s2, g2) \<Rightarrow> (param1 # ps, s2, g2))))"

definition analyze_func_decl ::
  "sf_ast_base \<Rightarrow> string \<Rightarrow> string option \<Rightarrow> sf_qualifiers \<Rightarrow> sf_parameter list \<Rightarrow> sf_value_type \<Rightarrow> sf_stmt option \<Rightarrow>
   statement_analysis option \<Rightarrow> statement_analysis" where
  "analyze_func_decl b name old_link qualifiers parameters return_type body analyze_body s g =
     (case sf_mangle_function (\<lambda>_. True) (se_module_prefix s) name (is_extern qualifiers) g of (mangled, g1) \<Rightarrow>
       (let node = SF_NODE_FUNC_DECL b name (Some mangled) qualifiers;
            func = \<lparr>fs_name = name, fs_link_name = mangled, fs_return_type = return_type, fs_parameters = parameters,
                    fs_defined = body \<noteq> None, fs_span = ab_span b, fs_id = 0, fs_qualifiers = qualifiers, fs_imported = False\<rparr>
        in case analyze_func_sym_qual s func g1 of
             (False, g2) \<Rightarrow> (node parameters return_type body, s, g2)
           | (True, g2) \<Rightarrow>
               (case sf_func_symbol_table_insert (se_funcs s) func (se_filename s)
                       (check_parameters s (ab_span b) [] parameters g2) of
                  (inserted, funcs1, g3) \<Rightarrow>
                    (let s1 = s\<lparr>se_funcs := funcs1\<rparr>
                     in case (inserted, analyze_body) of
                          (True, Some a) \<Rightarrow>
                            (case push_scope s1 g3 of (s2, g4) \<Rightarrow>
                              (case declare_parameters s2 (ab_span b) parameters g4 of (parameters1, s3, g5) \<Rightarrow>
                                (let current = \<lparr>cf_name = name, cf_parameters = parameters1, cf_return_type = return_type\<rparr>
                                 in case a (s3\<lparr>se_current_func := Some current\<rparr>) g5 of (body1, s4, g6) \<Rightarrow>
                                   (let s5 = s4\<lparr>se_current_func := se_current_func s3\<rparr>;
                                        g7 = (if return_type \<noteq> SF_VAL_TYPE_VOID \<and> \<not> stmt_always_returns body1
                                              then sem_error s5 SF_LOG_SEMANTIC_MISSING_RETURN (ab_span b)
                                                     [name, sf_type_value_name return_type] g6
                                              else g6)
                                    in (node parameters1 return_type (Some body1), pop_scope s5, g7)))))
                        | _ \<Rightarrow> (node parameters return_type body, s1, g3)))))"

definition analyze_expr_stmt :: "sf_expr \<Rightarrow> statement_analysis" where
  "analyze_expr_stmt e s g =
     (case sf_semantic_expr s e SF_VAL_TYPE_UNRESOLVED g of
        (ok, e1, g1) \<Rightarrow>
          (SF_STMT_EXPR e1, s,
           case e of
             SF_NODE_FUNC_CALL _ _ _ _ \<Rightarrow> g1
           | _ \<Rightarrow> if has_no_effect e1
                  then sf_log (Some (se_filename s)) SF_LOG_SEMANTIC_UNUSED_EXPRESSION (expr_span e1)
                         SF_LOG_SEVERITY_WARNING [] g1
                  else g1))"

fun analyze_statement :: "sf_stmt \<Rightarrow> statement_analysis" where
  "analyze_statement (SF_NODE_VAR_DECL b qualifiers var_type name vid value) s g =
     analyze_var_decl b qualifiers var_type name vid value s g"
| "analyze_statement (SF_NODE_VAR_ASSIGN b name value vid) s g = analyze_var_assign b name value vid s g"
| "analyze_statement (SF_NODE_BLOCK b statements) s g =
     analyze_block b (map (\<lambda>st. \<lambda>s g. analyze_statement st s g) statements) s g"
| "analyze_statement (SF_NODE_IF b condition branch_then branch_else) s g =
     analyze_if b condition branch_then branch_else (\<lambda>s g. analyze_statement branch_then s g)
       (map_option (\<lambda>st. \<lambda>s g. analyze_statement st s g) branch_else) s g"
| "analyze_statement (SF_NODE_WHILE b condition branch_do) s g =
     analyze_while b condition branch_do (\<lambda>s g. analyze_statement branch_do s g) s g"
| "analyze_statement (SF_NODE_FUNC_DECL b name link qualifiers parameters return_type body) s g =
     analyze_func_decl b name link qualifiers parameters return_type body
       (map_option (\<lambda>st. \<lambda>s g. analyze_statement st s g) body) s g"
| "analyze_statement (SF_NODE_RETURN b value) s g = analyze_return b value s g"
| "analyze_statement (SF_STMT_EXPR e) s g = analyze_expr_stmt e s g"

end
