(* ===== verification/Sem_Flow.thy ===== *)
theory Sem_Flow
  imports Sem_Stmt
begin

text \<open>
  What the flow analysis of statements is about. \<open>runs\<close> is the behaviour of an annotated statement
  as far as initialisation goes: from a set of initialised variables (by number) it ends
  normally with another set, returns, or reads a variable that is not initialised. Conditions
  are not evaluated, so every path of the program is a run. \<open>flow_safe st I J\<close> is what the analysis
  claims of a statement between the sets \<open>I\<close> and \<open>J\<close>. \<open>decl_ids\<close> lists the numbers of the variables
  that a statement declares, in the order of the source.
\<close>

section \<open>Parsed statements\<close>

fun is_var_decl :: "sf_stmt \<Rightarrow> bool" where
  "is_var_decl (SF_NODE_VAR_DECL _ _ _ _ _ _) = True"
| "is_var_decl _ = False"

fun is_func_decl :: "sf_stmt \<Rightarrow> bool" where
  "is_func_decl (SF_NODE_FUNC_DECL _ _ _ _ _ _ _) = True"
| "is_func_decl _ = False"

fun raw_stmt_ok :: "sf_stmt \<Rightarrow> bool" where
  "raw_stmt_ok (SF_NODE_VAR_DECL _ _ t _ _ v) \<longleftrightarrow>
     t \<noteq> SF_VAL_TYPE_UNRESOLVED \<and> (case v of None \<Rightarrow> True | Some e \<Rightarrow> raw_ok e)"
| "raw_stmt_ok (SF_NODE_VAR_ASSIGN _ _ e _) \<longleftrightarrow> raw_ok e"
| "raw_stmt_ok (SF_NODE_BLOCK _ sts) \<longleftrightarrow> (\<forall>st \<in> set sts. raw_stmt_ok st)"
| "raw_stmt_ok (SF_NODE_IF _ c t e) \<longleftrightarrow> raw_ok c \<and> raw_stmt_ok t \<and> \<not> is_var_decl t \<and>
     (case e of None \<Rightarrow> True | Some st \<Rightarrow> raw_stmt_ok st \<and> \<not> is_var_decl st)"
| "raw_stmt_ok (SF_NODE_WHILE _ c d) \<longleftrightarrow> raw_ok c \<and> raw_stmt_ok d \<and> \<not> is_var_decl d"
| "raw_stmt_ok (SF_NODE_FUNC_DECL _ _ _ _ ps t body) \<longleftrightarrow> t \<noteq> SF_VAL_TYPE_UNRESOLVED \<and>
     (\<forall>p \<in> set ps. pm_type p \<noteq> SF_VAL_TYPE_UNRESOLVED) \<and>
     (case body of None \<Rightarrow> True | Some st \<Rightarrow> raw_stmt_ok st \<and> \<not> is_var_decl st)"
| "raw_stmt_ok (SF_NODE_RETURN _ v) \<longleftrightarrow> (case v of None \<Rightarrow> True | Some e \<Rightarrow> raw_ok e)"
| "raw_stmt_ok (SF_STMT_EXPR e) \<longleftrightarrow> raw_ok e"

text \<open>No function is declared inside the statement.\<close>

fun flat :: "sf_stmt \<Rightarrow> bool" where
  "flat (SF_NODE_BLOCK _ sts) \<longleftrightarrow> (\<forall>st \<in> set sts. flat st)"
| "flat (SF_NODE_IF _ _ t e) \<longleftrightarrow> flat t \<and> (case e of None \<Rightarrow> True | Some st \<Rightarrow> flat st)"
| "flat (SF_NODE_WHILE _ _ d) \<longleftrightarrow> flat d"
| "flat (SF_NODE_FUNC_DECL _ _ _ _ _ _ _) \<longleftrightarrow> False"
| "flat _ \<longleftrightarrow> True"

section \<open>Variables read and declared\<close>

fun expr_ids :: "sf_expr \<Rightarrow> nat set" where
  "expr_ids (SF_NODE_LITERAL _ _ _) = {}"
| "expr_ids (SF_NODE_IDENTIFIER _ _ _ vid _) = {vid}"
| "expr_ids (SF_NODE_BINARY _ l r _) = expr_ids l \<union> expr_ids r"
| "expr_ids (SF_NODE_UNARY _ e _) = expr_ids e"
| "expr_ids (SF_NODE_CAST _ e _) = expr_ids e"
| "expr_ids (SF_NODE_FUNC_CALL _ _ _ args) = (\<Union>a \<in> set args. expr_ids a)"

fun decl_ids :: "sf_stmt \<Rightarrow> nat list" where
  "decl_ids (SF_NODE_VAR_DECL _ _ _ _ vid _) = [vid]"
| "decl_ids (SF_NODE_BLOCK _ sts) = concat (map decl_ids sts)"
| "decl_ids (SF_NODE_IF _ _ t e) = decl_ids t @ (case e of None \<Rightarrow> [] | Some st \<Rightarrow> decl_ids st)"
| "decl_ids (SF_NODE_WHILE _ _ d) = decl_ids d"
| "decl_ids (SF_NODE_FUNC_DECL _ _ _ _ ps _ body) =
     (case body of None \<Rightarrow> [] | Some st \<Rightarrow> map pm_id ps @ decl_ids st)"
| "decl_ids _ = []"

section \<open>Runs\<close>

datatype outcome = Normal "nat set" | Returned | Undefined_Read

inductive runs :: "sf_stmt \<Rightarrow> nat set \<Rightarrow> outcome \<Rightarrow> bool" where
  decl: "runs (SF_NODE_VAR_DECL b q t n vid None) I (Normal (I - {vid}))"
| decl_value: "expr_ids e \<subseteq> I \<Longrightarrow> runs (SF_NODE_VAR_DECL b q t n vid (Some e)) I (Normal (insert vid I))"
| decl_undefined: "\<not> expr_ids e \<subseteq> I \<Longrightarrow> runs (SF_NODE_VAR_DECL b q t n vid (Some e)) I Undefined_Read"
| assign_value: "expr_ids e \<subseteq> I \<Longrightarrow> runs (SF_NODE_VAR_ASSIGN b n e vid) I (Normal (insert vid I))"
| assign_undefined: "\<not> expr_ids e \<subseteq> I \<Longrightarrow> runs (SF_NODE_VAR_ASSIGN b n e vid) I Undefined_Read"
| block_end: "runs (SF_NODE_BLOCK b []) I (Normal I)"
| block_next: "runs st I (Normal J) \<Longrightarrow> runs (SF_NODE_BLOCK b sts) J out \<Longrightarrow> runs (SF_NODE_BLOCK b (st # sts)) I out"
| block_returned: "runs st I Returned \<Longrightarrow> runs (SF_NODE_BLOCK b (st # sts)) I Returned"
| block_undefined: "runs st I Undefined_Read \<Longrightarrow> runs (SF_NODE_BLOCK b (st # sts)) I Undefined_Read"
| if_undefined: "\<not> expr_ids c \<subseteq> I \<Longrightarrow> runs (SF_NODE_IF b c t e) I Undefined_Read"
| if_then: "expr_ids c \<subseteq> I \<Longrightarrow> runs t I out \<Longrightarrow> runs (SF_NODE_IF b c t e) I out"
| if_else: "expr_ids c \<subseteq> I \<Longrightarrow> runs st I out \<Longrightarrow> runs (SF_NODE_IF b c t (Some st)) I out"
| if_skip: "expr_ids c \<subseteq> I \<Longrightarrow> runs (SF_NODE_IF b c t None) I (Normal I)"
| while_undefined: "\<not> expr_ids c \<subseteq> I \<Longrightarrow> runs (SF_NODE_WHILE b c d) I Undefined_Read"
| while_exit: "expr_ids c \<subseteq> I \<Longrightarrow> runs (SF_NODE_WHILE b c d) I (Normal I)"
| while_next: "expr_ids c \<subseteq> I \<Longrightarrow> runs d I (Normal J) \<Longrightarrow> runs (SF_NODE_WHILE b c d) J out \<Longrightarrow>
    runs (SF_NODE_WHILE b c d) I out"
| while_returned: "expr_ids c \<subseteq> I \<Longrightarrow> runs d I Returned \<Longrightarrow> runs (SF_NODE_WHILE b c d) I Returned"
| while_body_undefined: "expr_ids c \<subseteq> I \<Longrightarrow> runs d I Undefined_Read \<Longrightarrow> runs (SF_NODE_WHILE b c d) I Undefined_Read"
| func_decl: "runs (SF_NODE_FUNC_DECL b n l q ps t body) I (Normal I)"
| return_none: "runs (SF_NODE_RETURN b None) I Returned"
| return_value: "expr_ids e \<subseteq> I \<Longrightarrow> runs (SF_NODE_RETURN b (Some e)) I Returned"
| return_undefined: "\<not> expr_ids e \<subseteq> I \<Longrightarrow> runs (SF_NODE_RETURN b (Some e)) I Undefined_Read"
| expr_value: "expr_ids e \<subseteq> I \<Longrightarrow> runs (SF_STMT_EXPR e) I (Normal I)"
| expr_undefined: "\<not> expr_ids e \<subseteq> I \<Longrightarrow> runs (SF_STMT_EXPR e) I Undefined_Read"

inductive_cases runs_declE: "runs (SF_NODE_VAR_DECL b q t n vid v) I out"
inductive_cases runs_assignE: "runs (SF_NODE_VAR_ASSIGN b n e vid) I out"
inductive_cases runs_nilE: "runs (SF_NODE_BLOCK b []) I out"
inductive_cases runs_consE: "runs (SF_NODE_BLOCK b (st # sts)) I out"
inductive_cases runs_ifE: "runs (SF_NODE_IF b c t e) I out"
inductive_cases runs_returnE: "runs (SF_NODE_RETURN b v) I out"
inductive_cases runs_exprE: "runs (SF_STMT_EXPR e) I out"
inductive_cases runs_funcE: "runs (SF_NODE_FUNC_DECL b n l q ps t body) I out"

text \<open>The return analysis is right about runs: a statement that always returns never ends normally.\<close>

lemma always_returns_runs: "runs st I out \<Longrightarrow> stmt_always_returns st \<Longrightarrow> out \<noteq> Normal J"
proof (induction arbitrary: J rule: runs.induct)
  case (block_next st I J' b sts out)
  then show ?case by (cases "stmt_always_returns st") auto
qed (auto split: option.splits)

section \<open>Safe statements\<close>

definition flow_safe :: "sf_stmt \<Rightarrow> nat set \<Rightarrow> nat set \<Rightarrow> bool" where
  "flow_safe st I J \<longleftrightarrow>
     (\<forall>I0. I \<subseteq> I0 \<longrightarrow> \<not> runs st I0 Undefined_Read \<and> (\<forall>I1. runs st I0 (Normal I1) \<longrightarrow> J \<subseteq> I1))"

lemma flow_safeI:
  assumes "\<And>I0. I \<subseteq> I0 \<Longrightarrow> runs st I0 Undefined_Read \<Longrightarrow> False"
    "\<And>I0 I1. I \<subseteq> I0 \<Longrightarrow> runs st I0 (Normal I1) \<Longrightarrow> J \<subseteq> I1"
  shows "flow_safe st I J"
  unfolding flow_safe_def using assms by metis

lemma flow_safe_normal: "flow_safe st I J \<Longrightarrow> I \<subseteq> I0 \<Longrightarrow> runs st I0 (Normal I1) \<Longrightarrow> J \<subseteq> I1"
  unfolding flow_safe_def by metis

lemma flow_safe_undefined: "flow_safe st I J \<Longrightarrow> I \<subseteq> I0 \<Longrightarrow> runs st I0 Undefined_Read \<Longrightarrow> False"
  unfolding flow_safe_def by metis

lemma flow_safe_mono: "flow_safe st I J \<Longrightarrow> I \<subseteq> I' \<Longrightarrow> J' \<subseteq> J \<Longrightarrow> flow_safe st I' J'"
  by (rule flow_safeI) (meson flow_safe_normal flow_safe_undefined order_trans)+

lemma flow_safe_declare: "vid \<notin> J \<Longrightarrow> J \<subseteq> I \<Longrightarrow> flow_safe (SF_NODE_VAR_DECL b q t n vid None) I J"
  by (rule flow_safeI) (auto elim: runs_declE)

lemma flow_safe_declare_value:
  "expr_ids e \<subseteq> I \<Longrightarrow> J \<subseteq> insert vid I \<Longrightarrow> flow_safe (SF_NODE_VAR_DECL b q t n vid (Some e)) I J"
  by (rule flow_safeI) (erule runs_declE; auto)+

lemma flow_safe_assign:
  "expr_ids e \<subseteq> I \<Longrightarrow> J \<subseteq> insert vid I \<Longrightarrow> flow_safe (SF_NODE_VAR_ASSIGN b n e vid) I J"
  by (rule flow_safeI) (erule runs_assignE; auto)+

lemma flow_safe_nil: "J \<subseteq> I \<Longrightarrow> flow_safe (SF_NODE_BLOCK b []) I J"
  by (rule flow_safeI) (erule runs_nilE; auto)+

lemma runs_cons:
  "runs (SF_NODE_BLOCK b (st # sts)) I out \<Longrightarrow>
   (\<exists>K. runs st I (Normal K) \<and> runs (SF_NODE_BLOCK b sts) K out) \<or> runs st I out \<and> (\<forall>J. out \<noteq> Normal J)"
  by (erule runs_consE) auto

lemma flow_safe_cons:
  assumes "flow_safe st I K" "flow_safe (SF_NODE_BLOCK b sts) K J"
  shows "flow_safe (SF_NODE_BLOCK b (st # sts)) I J"
proof (rule flow_safeI)
  fix I0 assume "I \<subseteq> I0" "runs (SF_NODE_BLOCK b (st # sts)) I0 Undefined_Read"
  with runs_cons [OF this(2)] show False
    using flow_safe_normal [OF assms(1)] flow_safe_undefined [OF assms(1)] flow_safe_undefined [OF assms(2)] by metis
next
  fix I0 I1 assume "I \<subseteq> I0" "runs (SF_NODE_BLOCK b (st # sts)) I0 (Normal I1)"
  with runs_cons [OF this(2)] show "J \<subseteq> I1"
    using flow_safe_normal [OF assms(1)] flow_safe_normal [OF assms(2)] by metis
qed

lemma runs_if:
  "runs (SF_NODE_IF b c t e) I out \<Longrightarrow>
   \<not> expr_ids c \<subseteq> I \<or> runs t I out \<or> (case e of None \<Rightarrow> out = Normal I | Some st \<Rightarrow> runs st I out)"
  by (erule runs_ifE) auto

lemma flow_safe_branch:
  "flow_safe st I C \<Longrightarrow> stmt_always_returns st \<or> J \<subseteq> C \<Longrightarrow> I \<subseteq> I0 \<Longrightarrow> runs st I0 (Normal I1) \<Longrightarrow> J \<subseteq> I1"
  using always_returns_runs [of st I0 "Normal I1"] flow_safe_normal [of st I C I0 I1] by blast

lemma flow_safe_if:
  assumes c: "expr_ids c \<subseteq> I" and t: "flow_safe t I A" "stmt_always_returns t \<or> J \<subseteq> A"
    and e: "case e of None \<Rightarrow> J \<subseteq> I | Some st \<Rightarrow> flow_safe st I B \<and> (stmt_always_returns st \<or> J \<subseteq> B)"
  shows "flow_safe (SF_NODE_IF b c t e) I J"
proof (rule flow_safeI)
  fix I0 assume I0: "I \<subseteq> I0" "runs (SF_NODE_IF b c t e) I0 Undefined_Read"
  with c have "runs t I0 Undefined_Read \<or> (case e of None \<Rightarrow> False | Some st \<Rightarrow> runs st I0 Undefined_Read)"
    using runs_if [OF I0(2)] by (auto split: option.splits)
  then show False
    using e flow_safe_undefined [OF t(1) I0(1)] flow_safe_undefined [OF _ I0(1)] by (cases e) auto
next
  fix I0 I1 assume I0: "I \<subseteq> I0" "runs (SF_NODE_IF b c t e) I0 (Normal I1)"
  with c have "runs t I0 (Normal I1) \<or> (case e of None \<Rightarrow> I1 = I0 | Some st \<Rightarrow> runs st I0 (Normal I1))"
    using runs_if [OF I0(2)] by (auto split: option.splits)
  then show "J \<subseteq> I1"
  proof (elim disjE)
    assume r: "case e of None \<Rightarrow> I1 = I0 | Some st \<Rightarrow> runs st I0 (Normal I1)"
    show ?thesis
    proof (cases e)
      case (Some st)
      with e r have "flow_safe st I B" "stmt_always_returns st \<or> J \<subseteq> B" "runs st I0 (Normal I1)" by simp_all
      then show ?thesis by (rule flow_safe_branch [OF _ _ I0(1)])
    qed (use e r I0(1) in auto)
  qed (rule flow_safe_branch [OF t I0(1)])
qed

lemma runs_while:
  assumes "runs st I0 out" "st = SF_NODE_WHILE b c d" "I \<subseteq> I0" "expr_ids c \<subseteq> I" "flow_safe d I K" "I \<subseteq> K"
  shows "out \<noteq> Undefined_Read \<and> (\<forall>I1. out = Normal I1 \<longrightarrow> I \<subseteq> I1)"
  using assms
proof (induction rule: runs.induct)
  case (while_next c' I0 d' I1 b' out)
  then have "I \<subseteq> I1" using flow_safe_normal [of d I K I0 I1] by auto
  with while_next show ?case by blast
next
  case (while_body_undefined c' I0 d' b')
  then show ?case using flow_safe_undefined [of d I K I0] by auto
qed auto

lemma flow_safe_while:
  assumes "expr_ids c \<subseteq> I" "flow_safe d I K" "I \<subseteq> K" "J \<subseteq> I"
  shows "flow_safe (SF_NODE_WHILE b c d) I J"
  by (rule flow_safeI) (use runs_while [OF _ refl _ assms(1-3)] assms(4) in blast)+

lemma flow_safe_return: "(case v of None \<Rightarrow> True | Some e \<Rightarrow> expr_ids e \<subseteq> I) \<Longrightarrow> flow_safe (SF_NODE_RETURN b v) I J"
  by (rule flow_safeI) (erule runs_returnE; auto)+

lemma flow_safe_expr: "expr_ids e \<subseteq> I \<Longrightarrow> J \<subseteq> I \<Longrightarrow> flow_safe (SF_STMT_EXPR e) I J"
  by (rule flow_safeI) (erule runs_exprE; auto)+

end
