(* ===== verification/Ir_Code.thy ===== *)
theory Ir_Code
  imports Ir Sem_Flow
begin

text \<open>
  The code of the lowering as pure functions. \<open>expr_code\<close>, \<open>stmt_code\<close> and \<open>func_code\<close> give the list of
  operations for a tree from the counters of temporaries and labels; the lemmas show that the
  lowering of \<open>Ir\<close>, in the context of a function, appends exactly this code and moves the counters
  on. What the lowering promises about labels is stated here for the code.
\<close>

section \<open>The code of expressions\<close>

definition operation :: "sf_ir_opcode \<Rightarrow> sf_ir_operand \<Rightarrow> sf_ir_operand \<Rightarrow> sf_ir_operand \<Rightarrow> sf_ir_operation" where
  "operation opcode a b c = \<lparr>io_opcode = opcode, io_operand1 = a, io_operand2 = b, io_operand3 = c\<rparr>"

lemma operation_simps [simp]:
  "io_opcode (operation opcode a b c) = opcode" "io_operand1 (operation opcode a b c) = a"
  "io_operand2 (operation opcode a b c) = b" "io_operand3 (operation opcode a b c) = c"
  by (simp_all add: operation_def)

definition dest_code :: "sf_ir_operand option \<Rightarrow> sf_value_type \<Rightarrow> nat \<Rightarrow> sf_ir_operand \<times> nat" where
  "dest_code hint type n = (case hint of Some dst \<Rightarrow> (dst, n) | None \<Rightarrow> (SF_IR_OPERAND_TYPE_TEMPORARY type n, n + 1))"

definition increment_code :: "sf_ast_base \<Rightarrow> sf_ir_operation_type \<Rightarrow> sf_ir_operand \<Rightarrow> nat \<Rightarrow>
   sf_ir_operand \<times> sf_ir_operation list \<times> nat" where
  "increment_code b op variable n =
     (let t = ab_resolved b; updated = SF_IR_OPERAND_TYPE_TEMPORARY t n;
          opcode = (if op = SF_OP_TYPE_PREFIX_INCREMENT \<or> op = SF_OP_TYPE_POSTFIX_INCREMENT
                    then SF_IR_OPCODE_ADD else SF_IR_OPCODE_SUB);
          write = [operation opcode updated variable (new_immediate t ''1''),
                   operation SF_IR_OPCODE_ASSIGN variable updated k_no_operand]
      in if op = SF_OP_TYPE_POSTFIX_INCREMENT \<or> op = SF_OP_TYPE_POSTFIX_DECREMENT
         then (SF_IR_OPERAND_TYPE_TEMPORARY t (n + 1),
               operation SF_IR_OPCODE_ASSIGN (SF_IR_OPERAND_TYPE_TEMPORARY t (n + 1)) variable k_no_operand # write, n + 2)
         else (updated, write, n + 1))"

definition param_code :: "sf_ir_operand list \<Rightarrow> sf_ir_operation list" where
  "param_code args = map (\<lambda>a. operation SF_IR_OPCODE_PARAM a k_no_operand k_no_operand) args"

type_synonym code_generator = "sf_ir_operand option \<Rightarrow> nat \<Rightarrow> sf_ir_operand \<times> sf_ir_operation list \<times> nat"

fun args_code :: "code_generator list \<Rightarrow> nat \<Rightarrow> sf_ir_operand list \<times> sf_ir_operation list \<times> nat" where
  "args_code [] n = ([], [], n)"
| "args_code (g # gs) n =
     (case g None n of (a, code1, n1) \<Rightarrow> case args_code gs n1 of (as, code2, n2) \<Rightarrow> (a # as, code1 @ code2, n2))"

definition callee_link :: "sf_expr \<Rightarrow> string option \<Rightarrow> string" where
  "callee_link callee link = (case link of Some l \<Rightarrow> l | None \<Rightarrow> callee_text callee)"

fun expr_code :: "sf_expr \<Rightarrow> code_generator" where
  "expr_code (SF_NODE_BINARY b l r op) hint n =
     (case expr_code l None n of (left, code1, n1) \<Rightarrow> case expr_code r None n1 of (right, code2, n2) \<Rightarrow>
      case dest_code hint (ab_resolved b) n2 of (dst, n3) \<Rightarrow>
        (dst, code1 @ code2 @ [operation (sf_type_operation_to_opcode op) dst left right], n3))"
| "expr_code (SF_NODE_UNARY b e op) hint n =
     (case expr_code e None n of (src, code1, n1) \<Rightarrow>
        if sf_type_is_increment_or_decrement op
        then (case increment_code b op src n1 of (result, code2, n2) \<Rightarrow> (result, code1 @ code2, n2))
        else (case dest_code hint (ab_resolved b) n1 of (dst, n2) \<Rightarrow>
                (dst, code1 @ [operation (sf_type_operation_to_opcode op) dst src k_no_operand], n2)))"
| "expr_code (SF_NODE_CAST b e t) hint n =
     (case expr_code e None n of (src, code1, n1) \<Rightarrow> case dest_code hint (ab_resolved b) n1 of (dst, n2) \<Rightarrow>
        (dst, code1 @ [operation SF_IR_OPCODE_CAST dst src k_no_operand], n2))"
| "expr_code (SF_NODE_LITERAL b tt v) hint n = (generate_literal b tt v, [], n)"
| "expr_code (SF_NODE_IDENTIFIER b name d vid s) hint n = (generate_identifier b name vid, [], n)"
| "expr_code (SF_NODE_FUNC_CALL b callee link args) hint n =
     (case args_code (map (\<lambda>a. \<lambda>h n. expr_code a h n) args) n of (operands, code1, n1) \<Rightarrow>
      case (if ab_resolved b = SF_VAL_TYPE_VOID then (k_no_operand, n1) else dest_code hint (ab_resolved b) n1) of (dst, n2) \<Rightarrow>
        (dst, code1 @ param_code operands @
           [operation SF_IR_OPCODE_CALL dst (SF_IR_OPERAND_TYPE_FUNCTION (ab_resolved b) (callee_link callee link)) k_no_operand],
         n2))"

text \<open>The effect of code on the function it is appended to.\<close>

definition append_code :: "sf_ir_function \<Rightarrow> sf_ir_operation list \<Rightarrow> nat \<Rightarrow> sf_ir_function" where
  "append_code f code n = f\<lparr>fn_operations := fn_operations f @ code, fn_next_temp := n\<rparr>"

lemma append_code_simps [simp]:
  "fn_operations (append_code f code n) = fn_operations f @ code" "fn_next_temp (append_code f code n) = n"
  "append_code (append_code f code n) code' n' = append_code f (code @ code') n'"
  "append_code f [] (fn_next_temp f) = f"
  by (simp_all add: append_code_def)

lemma emit_code: "emit (Some f) opcode a b c = Some (Some (append_code f [operation opcode a b c] (fn_next_temp f)))"
  by (simp add: emit_def push_def append_code_def operation_def)

lemma new_temporary_code:
  "new_temporary (Some f) t = Some (SF_IR_OPERAND_TYPE_TEMPORARY t (fn_next_temp f), Some (append_code f [] (fn_next_temp f + 1)))"
  by (simp add: new_temporary_def append_code_def)

lemma destination_code:
  "destination (Some f) hint t =
     (case dest_code hint t (fn_next_temp f) of (dst, n) \<Rightarrow> Some (dst, Some (append_code f [] n)))"
  by (simp add: destination_def dest_code_def new_temporary_code split: option.splits)

definition produces :: "generator \<Rightarrow> code_generator \<Rightarrow> bool" where
  "produces g c \<longleftrightarrow> (\<forall>f hint. g (Some f) hint =
     (case c hint (fn_next_temp f) of (r, code, n) \<Rightarrow> Some (r, Some (append_code f code n))))"

lemma producesD: "produces g c \<Longrightarrow> g (Some f) hint =
     (case c hint (fn_next_temp f) of (r, code, n) \<Rightarrow> Some (r, Some (append_code f code n)))"
  by (simp add: produces_def)

lemma emit_params_code: "emit_params args (Some f) = Some (Some (append_code f (param_code args) (fn_next_temp f)))"
  by (induction args arbitrary: f) (simp_all add: param_code_def emit_code)

lemma generate_arguments_code:
  "list_all2 produces gs cs \<Longrightarrow> generate_arguments gs (Some f) =
     (case args_code cs (fn_next_temp f) of (rs, code, n) \<Rightarrow> Some (rs, Some (append_code f code n)))"
  by (induction arbitrary: f rule: list_all2_induct) (simp_all add: producesD split: prod.splits)

lemma generate_expression_code: "produces (\<lambda>c h. generate_expression_into e c h) (\<lambda>h n. expr_code e h n)"
proof (induction e)
  case (SF_NODE_BINARY b l r op)
  then show ?case
    by (simp add: produces_def generate_binary_def destination_code emit_code split: prod.splits)
next
  case (SF_NODE_UNARY b e op)
  then show ?case
    by (auto simp: produces_def generate_unary_def generate_increment_def increment_code_def destination_code emit_code
        new_temporary_code Let_def split: prod.splits)
next
  case (SF_NODE_CAST b e t)
  then show ?case
    by (simp add: produces_def generate_cast_def destination_code emit_code split: prod.splits)
next
  case (SF_NODE_FUNC_CALL b callee link args)
  then have "list_all2 produces (map (\<lambda>a. \<lambda>c h. generate_expression_into a c h) args) (map (\<lambda>a. \<lambda>h n. expr_code a h n) args)"
    by (simp add: list_all2_conv_all_nth)
  from generate_arguments_code [OF this] show ?case
    by (simp add: produces_def generate_call_def destination_code emit_code emit_params_code callee_link_def Let_def split: prod.splits)
qed (simp_all add: produces_def)

section \<open>The code of statements\<close>

type_synonym statement_code = "nat \<Rightarrow> nat \<Rightarrow> sf_ir_operation list \<times> nat \<times> nat \<times> sf_ir_function list"

definition assign_code :: "sf_value_type \<Rightarrow> string \<Rightarrow> sf_expr \<Rightarrow> nat \<Rightarrow> sf_ir_operation list \<times> nat" where
  "assign_code type name e n =
     (let dst = SF_IR_OPERAND_TYPE_VARIABLE type name
      in case expr_code e (Some dst) n of (src, code, n1) \<Rightarrow>
           (case src of
              SF_IR_OPERAND_TYPE_VARIABLE t m \<Rightarrow>
                if m = name then code else code @ [operation SF_IR_OPCODE_ASSIGN dst src k_no_operand]
            | _ \<Rightarrow> code @ [operation SF_IR_OPCODE_ASSIGN dst src k_no_operand], n1))"

fun block_code :: "statement_code list \<Rightarrow> statement_code" where
  "block_code [] n l = ([], n, l, [])"
| "block_code (c # cs) n l =
     (case c n l of (code1, n1, l1, fs1) \<Rightarrow> case block_code cs n1 l1 of (code2, n2, l2, fs2) \<Rightarrow>
        (code1 @ code2, n2, l2, fs1 @ fs2))"

definition label_op :: "nat \<Rightarrow> sf_ir_operation" where
  "label_op l = operation SF_IR_OPCODE_LABEL (SF_IR_OPERAND_TYPE_LABEL l) k_no_operand k_no_operand"

definition jump_op :: "nat \<Rightarrow> sf_ir_operation" where
  "jump_op l = operation SF_IR_OPCODE_JMP_INCOND (SF_IR_OPERAND_TYPE_LABEL l) k_no_operand k_no_operand"

definition branch_op :: "nat \<Rightarrow> sf_ir_operand \<Rightarrow> sf_ir_operation" where
  "branch_op l cond = operation SF_IR_OPCODE_JMP_COND (SF_IR_OPERAND_TYPE_LABEL l) cond k_no_operand"

definition return_op :: "sf_ir_operand \<Rightarrow> sf_ir_operation" where
  "return_op r = operation SF_IR_OPCODE_RETURN r k_no_operand k_no_operand"

definition if_code :: "sf_expr \<Rightarrow> statement_code \<Rightarrow> statement_code option \<Rightarrow> statement_code" where
  "if_code c then_code else_code n l =
     (case expr_code c None n of (cond, code1, n1) \<Rightarrow>
        (case else_code of
           None \<Rightarrow> (case then_code n1 (l + 1) of (code2, n2, l2, fs) \<Rightarrow>
             (code1 @ branch_op l cond # code2 @ [label_op l], n2, l2, fs))
         | Some ec \<Rightarrow> (case then_code n1 (l + 2) of (code2, n2, l2, fs2) \<Rightarrow> case ec n2 l2 of (code3, n3, l3, fs3) \<Rightarrow>
             (code1 @ branch_op l cond # code2 @ jump_op (l + 1) # label_op l # code3 @ [label_op (l + 1)],
              n3, l3, fs2 @ fs3))))"

definition while_code :: "sf_expr \<Rightarrow> statement_code \<Rightarrow> statement_code" where
  "while_code c do_code n l =
     (case expr_code c None n of (cond, code1, n1) \<Rightarrow> case do_code n1 (l + 2) of (code2, n2, l2, fs) \<Rightarrow>
        (label_op l # code1 @ branch_op (l + 1) cond # code2 @ [jump_op l, label_op (l + 1)], n2, l2, fs))"

definition new_function :: "string \<Rightarrow> string option \<Rightarrow> sf_qualifiers \<Rightarrow> sf_parameter list \<Rightarrow> sf_value_type \<Rightarrow> bool \<Rightarrow> sf_ir_function" where
  "new_function name link q ps t defined = \<lparr>fn_operations = [], fn_parameters = map lower_parameter ps, fn_return_type = t,
     fn_qualifiers = q, fn_name = (case link of Some m \<Rightarrow> m | None \<Rightarrow> name), fn_next_temp = 0, fn_defined = defined\<rparr>"

lemma new_function_fields [simp]:
  "fn_operations (new_function name link q ps t d) = []" "fn_parameters (new_function name link q ps t d) = map lower_parameter ps"
  "fn_next_temp (new_function name link q ps t d) = 0" "fn_name (new_function name link q ps t d) = (case link of Some m \<Rightarrow> m | None \<Rightarrow> name)"
  "fn_parameters (append_code f code n) = fn_parameters f" "fn_name (append_code f code n) = fn_name f"
  by (simp_all add: append_code_def new_function_def)

definition needs_return :: "sf_value_type \<Rightarrow> sf_ir_operation list \<Rightarrow> bool" where
  "needs_return t code \<longleftrightarrow> t = SF_VAL_TYPE_VOID \<and> (code = [] \<or> io_opcode (last code) \<noteq> SF_IR_OPCODE_RETURN)"

definition func_code :: "string \<Rightarrow> string option \<Rightarrow> sf_qualifiers \<Rightarrow> sf_parameter list \<Rightarrow> sf_value_type \<Rightarrow> statement_code option \<Rightarrow>
   nat \<Rightarrow> nat \<times> sf_ir_function list" where
  "func_code name link q ps t body l =
     (case body of
        None \<Rightarrow> (l, [new_function name link q ps t False])
      | Some bc \<Rightarrow> (case bc 0 l of (code, n, l1, fs) \<Rightarrow>
          (l1, fs @ [append_code (new_function name link q ps t True)
                       (code @ (if needs_return t code then [return_op k_no_operand] else [])) n])))"

definition return_code :: "sf_expr option \<Rightarrow> nat \<Rightarrow> sf_ir_operation list \<times> nat" where
  "return_code v n =
     (case v of None \<Rightarrow> ([return_op k_no_operand], n)
      | Some e \<Rightarrow> (case expr_code e None n of (r, code, n1) \<Rightarrow> (code @ [return_op r], n1)))"

fun stmt_code :: "sf_stmt \<Rightarrow> statement_code" where
  "stmt_code (SF_NODE_VAR_DECL b q t name vid v) n l =
     (case v of None \<Rightarrow> ([], n, l, [])
      | Some e \<Rightarrow> (case assign_code t (mangled_variable name vid) e n of (code, n1) \<Rightarrow> (code, n1, l, [])))"
| "stmt_code (SF_NODE_VAR_ASSIGN b name e vid) n l =
     (case assign_code (ab_resolved b) (mangled_variable name vid) e n of (code, n1) \<Rightarrow> (code, n1, l, []))"
| "stmt_code (SF_NODE_BLOCK b sts) n l = block_code (map (\<lambda>st. \<lambda>n l. stmt_code st n l) sts) n l"
| "stmt_code (SF_NODE_IF b c t e) n l =
     if_code c (\<lambda>n l. stmt_code t n l) (map_option (\<lambda>st. \<lambda>n l. stmt_code st n l) e) n l"
| "stmt_code (SF_NODE_WHILE b c d) n l = while_code c (\<lambda>n l. stmt_code d n l) n l"
| "stmt_code (SF_NODE_FUNC_DECL b name link q ps t body) n l =
     (case func_code name link q ps t (map_option (\<lambda>st. \<lambda>n l. stmt_code st n l) body) l of (l1, fs) \<Rightarrow> ([], n, l1, fs))"
| "stmt_code (SF_NODE_RETURN b v) n l = (case return_code v n of (code, n1) \<Rightarrow> (code, n1, l, []))"
| "stmt_code (SF_STMT_EXPR e) n l = (case expr_code e None n of (r, code, n1) \<Rightarrow> (code, n1, l, []))"

definition grow_program :: "sf_ir_program \<Rightarrow> nat \<Rightarrow> sf_ir_function list \<Rightarrow> sf_ir_program" where
  "grow_program p l fs = p\<lparr>ip_functions := ip_functions p @ fs, ip_next_label := l\<rparr>"

lemma grow_program_simps [simp]:
  "ip_functions (grow_program p l fs) = ip_functions p @ fs" "ip_next_label (grow_program p l fs) = l"
  "ip_externs (grow_program p l fs) = ip_externs p"
  "grow_program (grow_program p l fs) l' fs' = grow_program p l' (fs @ fs')"
  "grow_program p (ip_next_label p) [] = p"
  by (simp_all add: grow_program_def)

definition lowers :: "statement_generator \<Rightarrow> statement_code \<Rightarrow> bool" where
  "lowers g c \<longleftrightarrow> (\<forall>f p. g (Some f) p =
     (case c (fn_next_temp f) (ip_next_label p) of (code, n, l, fs) \<Rightarrow> Some (Some (append_code f code n), grow_program p l fs)))"

lemma lowersD: "lowers g c \<Longrightarrow> g (Some f) p =
     (case c (fn_next_temp f) (ip_next_label p) of (code, n, l, fs) \<Rightarrow> Some (Some (append_code f code n), grow_program p l fs))"
  by (simp add: lowers_def)

lemma new_label_code: "new_label p = (SF_IR_OPERAND_TYPE_LABEL (ip_next_label p), grow_program p (ip_next_label p + 1) [])"
  by (simp add: new_label_def grow_program_def)

lemmas expression_code = producesD [OF generate_expression_code]

lemma generate_expression_some: "generate_expression e (Some f) =
     (case expr_code e None (fn_next_temp f) of (r, code, n) \<Rightarrow> Some (r, Some (append_code f code n)))"
  using expression_code [of e f None] by (simp add: generate_expression_def)

lemma generate_assignment_code:
  "generate_assignment (SF_IR_OPERAND_TYPE_VARIABLE t x) e (Some f) =
     (case assign_code t x e (fn_next_temp f) of (code, n) \<Rightarrow> Some (Some (append_code f code n)))"
  using expression_code [of e f "Some (SF_IR_OPERAND_TYPE_VARIABLE t x)"]
  by (auto simp: generate_assignment_def assign_code_def Let_def emit_code split: prod.splits sf_ir_operand.splits)

lemma generate_block_code: "list_all2 lowers gs cs \<Longrightarrow> lowers (generate_block gs) (block_code cs)"
proof (induction rule: list_all2_induct)
  case (Cons g gs c cs)
  show ?case
    unfolding lowers_def using Cons.hyps(1) Cons.IH by (auto simp: lowersD split: prod.splits)
qed (simp add: lowers_def)

lemma ends_with_return_code:
  "ends_with_return f \<longleftrightarrow> fn_operations f \<noteq> [] \<and> io_opcode (last (fn_operations f)) = SF_IR_OPCODE_RETURN"
  by (auto simp: ends_with_return_def last_conv_nth)

lemma generate_function_code:
  assumes "rel_option lowers g c"
  shows "generate_function name link q ps t g p =
    (case func_code name link q ps t c (ip_next_label p) of (l, fs) \<Rightarrow> Some (grow_program p l fs))"
proof (cases g)
  case None
  then show ?thesis using assms
    by (auto simp: generate_function_def func_code_def new_function_def add_function_def grow_program_def)
next
  case (Some gb)
  then obtain cb where c: "c = Some cb" "lowers gb cb" using assms by (auto simp: option_rel_Some1)
  have new: "\<lparr>fn_operations = [], fn_parameters = map lower_parameter ps, fn_return_type = t,
     fn_qualifiers = q, fn_name = (case link of Some m \<Rightarrow> m | None \<Rightarrow> name), fn_next_temp = 0, fn_defined = True\<rparr> =
     new_function name link q ps t True" by (simp add: new_function_def)
  have add: "add_function (grow_program p l fs) f = grow_program p l (fs @ [f])" for l fs f
    by (simp add: add_function_def grow_program_def)
  show ?thesis
    using lowersD [OF c(2)]
    by (auto simp: generate_function_def func_code_def Some c(1) new context_from_function_def ends_with_return_code needs_return_def
        emit_code add return_op_def split: prod.splits)
qed

lemma generate_statement_code: "lowers (\<lambda>c p. generate_statement st c p) (\<lambda>n l. stmt_code st n l)"
proof (induction st)
  case (SF_NODE_BLOCK b sts)
  then have "list_all2 lowers (map (\<lambda>st. \<lambda>c p. generate_statement st c p) sts) (map (\<lambda>st. \<lambda>n l. stmt_code st n l) sts)"
    by (simp add: list_all2_conv_all_nth)
  from generate_block_code [OF this] show ?case by (simp add: lowers_def)
next
  case (SF_NODE_IF b c t e)
  note th = lowersD [OF SF_NODE_IF(1)]
  show ?case
  proof (cases e)
    case None
    then show ?thesis
      by (auto simp: lowers_def generate_if_def if_code_def generate_expression_some new_label_code emit_code th
          branch_op_def label_op_def split: prod.splits)
  next
    case (Some st)
    have "lowers (\<lambda>c p. generate_statement st c p) (\<lambda>n l. stmt_code st n l)" using SF_NODE_IF(2) Some by simp
    note el = lowersD [OF this]
    show ?thesis
      by (auto simp: Some lowers_def generate_if_def if_code_def generate_expression_some new_label_code emit_code th el
          branch_op_def label_op_def jump_op_def split: prod.splits)
  qed
next
  case (SF_NODE_WHILE b c d)
  note d = lowersD [OF this]
  show ?case
    by (auto simp: lowers_def generate_while_def while_code_def generate_expression_some new_label_code emit_code d
        branch_op_def label_op_def jump_op_def split: prod.splits)
next
  case (SF_NODE_FUNC_DECL b name link q ps t body)
  then have "rel_option lowers (map_option (\<lambda>st. \<lambda>c p. generate_statement st c p) body) (map_option (\<lambda>st. \<lambda>n l. stmt_code st n l) body)"
    by (cases body) auto
  from generate_function_code [OF this] show ?case by (auto simp: lowers_def split: prod.splits)
next
  case (SF_NODE_VAR_DECL b q t name vid v)
  then show ?case
    by (auto simp: lowers_def generate_var_decl_def generate_assignment_code split: option.splits prod.splits)
next
  case (SF_NODE_VAR_ASSIGN b name e vid)
  then show ?case by (auto simp: lowers_def generate_var_assign_def generate_assignment_code split: prod.splits)
next
  case (SF_NODE_RETURN b v)
  then show ?case
    by (auto simp: lowers_def generate_return_def return_code_def generate_expression_some emit_code return_op_def
        split: option.splits prod.splits)
next
  case (SF_STMT_EXPR e)
  then show ?case by (auto simp: lowers_def generate_expression_some split: prod.splits)
qed

end
