(* ===== verification/Ir_Facts.thy ===== *)
theory Ir_Facts
  imports Ir_Code
begin

text \<open>
  What the lowering promises of the shape of its output: every label is defined once in the whole
  program and every jump stays in its function; programs of functions are always lowered; a
  global with an initial value makes the lowering use the null pointers of the program context;
  and the external names are the functions that are called and not defined.
\<close>

section \<open>Labels and jumps\<close>

definition labels_of :: "sf_ir_operation list \<Rightarrow> nat list" where
  "labels_of ops = map (\<lambda>op. label_id (io_operand1 op)) (filter (\<lambda>op. io_opcode op = SF_IR_OPCODE_LABEL) ops)"

definition jumps_of :: "sf_ir_operation list \<Rightarrow> nat set" where
  "jumps_of ops = {label_id (io_operand1 op) | op. op \<in> set ops \<and>
     (io_opcode op = SF_IR_OPCODE_JMP_COND \<or> io_opcode op = SF_IR_OPCODE_JMP_INCOND)}"

lemma labels_of_append [simp]: "labels_of (xs @ ys) = labels_of xs @ labels_of ys"
  by (simp add: labels_of_def)

lemma labels_of_simps [simp]:
  "labels_of [] = []"
  "labels_of (op # ops) = (if io_opcode op = SF_IR_OPCODE_LABEL then [label_id (io_operand1 op)] else []) @ labels_of ops"
  by (simp_all add: labels_of_def)

lemma jumps_of_append [simp]: "jumps_of (xs @ ys) = jumps_of xs \<union> jumps_of ys"
  by (auto simp: jumps_of_def)

lemma jumps_of_simps [simp]:
  "jumps_of [] = {}"
  "jumps_of (op # ops) = (if io_opcode op = SF_IR_OPCODE_JMP_COND \<or> io_opcode op = SF_IR_OPCODE_JMP_INCOND
     then {label_id (io_operand1 op)} else {}) \<union> jumps_of ops"
  by (auto simp: jumps_of_def)

lemma control_ops [simp]:
  "io_opcode (label_op l) = SF_IR_OPCODE_LABEL" "label_id (io_operand1 (label_op l)) = l"
  "io_opcode (jump_op l) = SF_IR_OPCODE_JMP_INCOND" "label_id (io_operand1 (jump_op l)) = l"
  "io_opcode (branch_op l c) = SF_IR_OPCODE_JMP_COND" "label_id (io_operand1 (branch_op l c)) = l"
  "io_opcode (return_op r) = SF_IR_OPCODE_RETURN"
  by (simp_all add: label_op_def jump_op_def branch_op_def return_op_def)

text \<open>Straight-line code: the operations of expressions.\<close>

definition straight :: "sf_ir_operation list \<Rightarrow> bool" where
  "straight ops \<longleftrightarrow> (\<forall>op \<in> set ops. io_opcode op \<notin>
     {SF_IR_OPCODE_LABEL, SF_IR_OPCODE_JMP_COND, SF_IR_OPCODE_JMP_INCOND, SF_IR_OPCODE_RETURN})"

lemma straight_simps [simp]:
  "straight []" "straight (xs @ ys) \<longleftrightarrow> straight xs \<and> straight ys"
  "straight (op # ops) \<longleftrightarrow> io_opcode op \<notin>
     {SF_IR_OPCODE_LABEL, SF_IR_OPCODE_JMP_COND, SF_IR_OPCODE_JMP_INCOND, SF_IR_OPCODE_RETURN} \<and> straight ops"
  by (auto simp: straight_def)

lemma straight_none: "straight ops \<Longrightarrow> labels_of ops = [] \<and> jumps_of ops = {}"
  by (auto simp: straight_def labels_of_def jumps_of_def filter_empty_conv)

lemma opcode_straight:
  "sf_type_operation_to_opcode op \<noteq> SF_IR_OPCODE_LABEL" "sf_type_operation_to_opcode op \<noteq> SF_IR_OPCODE_JMP_COND"
  "sf_type_operation_to_opcode op \<noteq> SF_IR_OPCODE_JMP_INCOND" "sf_type_operation_to_opcode op \<noteq> SF_IR_OPCODE_RETURN"
  by (cases op; simp)+

lemma args_code_straight:
  "\<forall>c \<in> set cs. \<forall>h n r code n'. c h n = (r, code, n') \<longrightarrow> straight code \<Longrightarrow> args_code cs n = (rs, code, n') \<Longrightarrow> straight code"
  by (induction cs arbitrary: n rs code n') (fastforce split: prod.splits)+

lemma expr_code_straight: "expr_code e hint n = (r, code, n') \<Longrightarrow> straight code"
proof (induction e arbitrary: hint n r code n')
  case (SF_NODE_BINARY b l ri op)
  then show ?case by (auto simp: opcode_straight split: prod.splits)
next
  case (SF_NODE_UNARY b e op)
  then show ?case by (auto simp: opcode_straight increment_code_def Let_def split: prod.splits if_splits)
next
  case (SF_NODE_CAST b e t)
  then show ?case by (auto split: prod.splits)
next
  case (SF_NODE_FUNC_CALL b callee link args)
  obtain os code1 n1 where a: "args_code (map (\<lambda>a h n. expr_code a h n) args) n = (os, code1, n1)" by (rule prod_cases3)
  have "straight code1" by (rule args_code_straight [OF _ a]) (use SF_NODE_FUNC_CALL.IH in auto)
  moreover have "straight (param_code os)" by (auto simp: param_code_def straight_def)
  ultimately show ?case using SF_NODE_FUNC_CALL.prems a by (auto split: prod.splits)
qed auto

lemmas expr_code_labels = straight_none [OF expr_code_straight]

lemma assign_code_labels: "assign_code t x e n = (code, n') \<Longrightarrow> labels_of code = [] \<and> jumps_of code = {}"
  by (auto simp: assign_code_def Let_def dest: expr_code_labels split: prod.splits sf_ir_operand.splits if_splits)

definition function_labels :: "sf_ir_function list \<Rightarrow> nat list" where
  "function_labels fs = concat (map (\<lambda>f. labels_of (fn_operations f)) fs)"

lemma function_labels_simps [simp]:
  "function_labels [] = []" "function_labels (f # fs) = labels_of (fn_operations f) @ function_labels fs"
  "function_labels (fs @ gs) = function_labels fs @ function_labels gs"
  by (simp_all add: function_labels_def)

text \<open>The labels of the code and of the functions added on the way are new and distinct, and the
  jumps of each piece of code stay inside.\<close>

definition labels_ok :: "nat \<Rightarrow> sf_ir_operation list \<Rightarrow> nat \<Rightarrow> sf_ir_function list \<Rightarrow> bool" where
  "labels_ok l code l' fs \<longleftrightarrow> l \<le> l' \<and> distinct (labels_of code @ function_labels fs) \<and>
     set (labels_of code @ function_labels fs) \<subseteq> {l..<l'} \<and> jumps_of code \<subseteq> set (labels_of code) \<and>
     (\<forall>f \<in> set fs. jumps_of (fn_operations f) \<subseteq> set (labels_of (fn_operations f)))"

definition label_safe :: "statement_code \<Rightarrow> bool" where
  "label_safe c \<longleftrightarrow> (\<forall>n l code n' l' fs. c n l = (code, n', l', fs) \<longrightarrow> labels_ok l code l' fs)"

lemma label_safeD: "label_safe c \<Longrightarrow> c n l = (code, n', l', fs) \<Longrightarrow> labels_ok l code l' fs"
  by (simp add: label_safe_def)

lemma label_safe_straight: "labels_of code = [] \<and> jumps_of code = {} \<Longrightarrow> labels_ok l code l []"
  by (simp add: labels_ok_def)

lemma label_safe_block: "\<forall>c \<in> set cs. label_safe c \<Longrightarrow> label_safe (block_code cs)"
proof (induction cs)
  case (Cons c cs)
  show ?case
    unfolding label_safe_def
  proof (intro allI impI)
    fix n l code n' l' fs
    assume run: "block_code (c # cs) n l = (code, n', l', fs)"
    obtain code1 n1 l1 fs1 where a: "c n l = (code1, n1, l1, fs1)" by (rule prod_cases4)
    obtain code2 n2 l2 fs2 where b: "block_code cs n1 l1 = (code2, n2, l2, fs2)" by (rule prod_cases4)
    have "labels_ok l code1 l1 fs1" "labels_ok l1 code2 l2 fs2"
      using Cons label_safeD a b by (metis list.set_intros(1), metis list.set_intros(2))
    then show "labels_ok l code l' fs"
      using run a b by (fastforce simp: labels_ok_def)
  qed
qed (simp add: label_safe_def labels_ok_def)

lemma label_safe_if:
  assumes t: "label_safe t" and e: "case e of None \<Rightarrow> True | Some c \<Rightarrow> label_safe c"
  shows "label_safe (if_code c t e)"
  unfolding label_safe_def
proof (intro allI impI)
  fix n l code n' l' fs
  assume run: "if_code c t e n l = (code, n', l', fs)"
  obtain cond code1 n1 where c: "expr_code c None n = (cond, code1, n1)" by (rule prod_cases3)
  note cl = expr_code_labels [OF c]
  show "labels_ok l code l' fs"
  proof (cases e)
    case None
    obtain code2 n2 l2 fs2 where a: "t n1 (l + 1) = (code2, n2, l2, fs2)" by (rule prod_cases4)
    from label_safeD [OF t this] show ?thesis
      using run a c cl None by (fastforce simp: labels_ok_def if_code_def)
  next
    case (Some ec)
    obtain code2 n2 l2 fs2 where a: "t n1 (l + 2) = (code2, n2, l2, fs2)" by (rule prod_cases4)
    obtain code3 n3 l3 fs3 where b: "ec n2 l2 = (code3, n3, l3, fs3)" by (rule prod_cases4)
    have "label_safe ec" using e Some by simp
    note ok = label_safeD [OF t a] label_safeD [OF this b]
    have eqs: "code = code1 @ branch_op l cond # code2 @ jump_op (l + 1) # label_op l # code3 @ [label_op (l + 1)]"
      "l' = l3" "fs = fs2 @ fs3"
      using run a b c Some by (simp_all add: if_code_def)
    have sets: "set (labels_of code2 @ function_labels fs2) \<subseteq> {l + 2..<l2}" "set (labels_of code3 @ function_labels fs3) \<subseteq> {l2..<l3}"
      "l + 2 \<le> l2" "l2 \<le> l3" using ok by (simp_all add: labels_ok_def)
    then have disj: "set (labels_of code2 @ function_labels fs2) \<inter> set (labels_of code3 @ function_labels fs3) = {}"
      "l \<notin> set (labels_of code2 @ function_labels fs2 @ labels_of code3 @ function_labels fs3)"
      "l + 1 \<notin> set (labels_of code2 @ function_labels fs2 @ labels_of code3 @ function_labels fs3)"
      by fastforce+
    show ?thesis
      unfolding labels_ok_def eqs
      using ok disj sets cl by (auto simp: labels_ok_def)
  qed
qed

lemma label_safe_while:
  assumes d: "label_safe d"
  shows "label_safe (while_code c d)"
  unfolding label_safe_def
proof (intro allI impI)
  fix n l code n' l' fs
  assume run: "while_code c d n l = (code, n', l', fs)"
  obtain cond code1 n1 where c: "expr_code c None n = (cond, code1, n1)" by (rule prod_cases3)
  obtain code2 n2 l2 fs2 where a: "d n1 (l + 2) = (code2, n2, l2, fs2)" by (rule prod_cases4)
  from label_safeD [OF d this] show "labels_ok l code l' fs"
    using run a c expr_code_labels [OF c] by (fastforce simp: labels_ok_def while_code_def)
qed

lemma func_code_labels:
  assumes "case body of None \<Rightarrow> True | Some c \<Rightarrow> label_safe c" "func_code name link q ps t body l = (l', fs)"
  shows "labels_ok l [] l' fs"
proof (cases body)
  case None
  then show ?thesis using assms(2) by (auto simp: func_code_def labels_ok_def new_function_def)
next
  case (Some c)
  obtain code n l1 fs1 where a: "c 0 l = (code, n, l1, fs1)" by (rule prod_cases4)
  have "label_safe c" using assms(1) Some by simp
  note ok = label_safeD [OF this a]
  let ?f = "append_code (new_function name link q ps t True) (code @ (if needs_return t code then [return_op k_no_operand] else [])) n"
  have "labels_of (fn_operations ?f) = labels_of code" "jumps_of (fn_operations ?f) = jumps_of code"
    by (simp_all add: new_function_def)
  moreover have "l' = l1" "fs = fs1 @ [?f]" using assms(2) a Some by (simp_all add: func_code_def)
  ultimately show ?thesis using ok by (simp add: labels_ok_def) blast
qed

lemma stmt_code_labels: "label_safe (\<lambda>n l. stmt_code st n l)"
proof (induction st)
  case (SF_NODE_BLOCK b sts)
  then show ?case using label_safe_block [of "map (\<lambda>st n l. stmt_code st n l) sts"] by (auto simp: label_safe_def)
next
  case (SF_NODE_IF b c t e)
  have "label_safe (if_code c (\<lambda>n l. stmt_code t n l) (map_option (\<lambda>st n l. stmt_code st n l) e))"
    by (rule label_safe_if) (use SF_NODE_IF in \<open>auto split: option.splits\<close>)
  then show ?case by (simp add: label_safe_def)
next
  case (SF_NODE_WHILE b c d)
  from label_safe_while [OF this, of c] show ?case by (simp add: label_safe_def)
next
  case (SF_NODE_FUNC_DECL b name link q ps t body)
  then have "case map_option (\<lambda>st n l. stmt_code st n l) body of None \<Rightarrow> True | Some c \<Rightarrow> label_safe c"
    by (auto split: option.splits)
  from func_code_labels [OF this] show ?case by (fastforce simp: label_safe_def split: prod.splits)
next
  case (SF_NODE_RETURN b v)
  then show ?case
    by (auto simp: label_safe_def return_code_def labels_ok_def dest: expr_code_labels split: option.splits prod.splits)
next
  case (SF_STMT_EXPR e)
  then show ?case by (auto simp: label_safe_def labels_ok_def dest: expr_code_labels split: prod.splits)
next
  case (SF_NODE_VAR_DECL b q t name vid v)
  then show ?case
    by (auto simp: label_safe_def labels_ok_def dest: assign_code_labels split: option.splits prod.splits)
next
  case (SF_NODE_VAR_ASSIGN b name e vid)
  then show ?case by (auto simp: label_safe_def labels_ok_def dest: assign_code_labels split: prod.splits)
qed


section \<open>Programs\<close>

fun is_global_value :: "sf_stmt \<Rightarrow> bool" where
  "is_global_value (SF_NODE_VAR_DECL _ _ _ _ _ v) = (v \<noteq> None)"
| "is_global_value _ = False"

text \<open>A top-level statement that executes nothing: a function, or a variable without a value.\<close>

definition top_level_ok :: "sf_stmt \<Rightarrow> bool" where
  "top_level_ok st \<longleftrightarrow> (is_func_decl st \<or> is_var_decl st) \<and> \<not> is_global_value st"

lemma top_level_code:
  assumes "top_level_ok st"
  shows "generate_statement st None p = (case stmt_code st 0 (ip_next_label p) of (code, n, l, fs) \<Rightarrow> Some (None, grow_program p l fs))"
proof (cases st)
  case (SF_NODE_FUNC_DECL b name link q ps t body)
  have "rel_option lowers (map_option (\<lambda>st. \<lambda>c p. generate_statement st c p) body) (map_option (\<lambda>st. \<lambda>n l. stmt_code st n l) body)"
    by (cases body) (simp_all add: generate_statement_code)
  from generate_function_code [OF this] show ?thesis by (simp add: SF_NODE_FUNC_DECL split: prod.split)
next
  case (SF_NODE_VAR_DECL b q t name vid v)
  then show ?thesis using assms by (cases v) (simp_all add: top_level_ok_def generate_var_decl_def)
qed (use assms in \<open>simp_all add: top_level_ok_def\<close>)

fun program_code :: "sf_stmt list \<Rightarrow> nat \<Rightarrow> nat \<times> sf_ir_function list" where
  "program_code [] l = (l, [])"
| "program_code (st # sts) l =
     (case stmt_code st 0 l of (code, n, l1, fs1) \<Rightarrow> case program_code sts l1 of (l2, fs2) \<Rightarrow> (l2, fs1 @ fs2))"

lemma generate_program_code:
  "\<forall>st \<in> set sts. top_level_ok st \<Longrightarrow> generate_block (map generate_statement sts) None p =
     (case program_code sts (ip_next_label p) of (l, fs) \<Rightarrow> Some (None, grow_program p l fs))"
  by (induction sts arbitrary: p) (simp_all add: top_level_code split: prod.splits)

lemma collect_extern_fields [simp]:
  "ip_functions (collect_extern op ir) = ip_functions ir" "ip_next_label (collect_extern op ir) = ip_next_label ir"
  by (simp_all add: collect_extern_def Let_def)

lemma fold_collect_fields [simp]:
  "ip_functions (fold collect_extern ops ir) = ip_functions ir" "ip_next_label (fold collect_extern ops ir) = ip_next_label ir"
  by (induction ops arbitrary: ir) simp_all

lemma collect_externs_functions [simp]: "ip_functions (collect_externs ir) = ip_functions ir"
proof -
  have "ip_functions (fold (\<lambda>func. fold collect_extern (fn_operations func)) fs ir) = ip_functions ir" for fs
    by (induction fs arbitrary: ir) simp_all
  then show ?thesis by (simp add: collect_externs_def)
qed

lemma sf_ir_generate_code:
  assumes "\<forall>st \<in> set (pr_statements program). top_level_ok st"
  shows "sf_ir_generate program = (case program_code (pr_statements program) 0 of (l, fs) \<Rightarrow>
     Some (collect_externs \<lparr>ip_functions = fs, ip_next_label = l, ip_externs = []\<rparr>))"
  using generate_program_code [OF assms, of "\<lparr>ip_functions = [], ip_next_label = 0, ip_externs = []\<rparr>"]
  by (simp add: sf_ir_generate_def context_from_program_def grow_program_def split: prod.splits)

lemma program_code_labels: "program_code sts l = (l', fs) \<Longrightarrow> labels_ok l [] l' fs"
proof (induction sts arbitrary: l l' fs)
  case (Cons st sts)
  obtain code n l1 fs1 where a: "stmt_code st 0 l = (code, n, l1, fs1)" by (rule prod_cases4)
  obtain l2 fs2 where b: "program_code sts l1 = (l2, fs2)" by fastforce
  have "labels_ok l code l1 fs1" "labels_ok l1 [] l2 fs2"
    using label_safeD [OF stmt_code_labels a] Cons.IH [OF b] by simp_all
  then show ?case using Cons.prems a b by (fastforce simp: labels_ok_def)
qed (simp add: labels_ok_def)

text \<open>The context of the program executes nothing.\<close>

lemma emit_none [simp]: "emit None opcode a b c = None"
  by (simp add: emit_def push_def)

lemma new_temporary_none [simp]: "new_temporary None t = None"
  by (simp add: new_temporary_def)

fun is_leaf :: "sf_expr \<Rightarrow> bool" where
  "is_leaf (SF_NODE_LITERAL _ _ _) = True"
| "is_leaf (SF_NODE_IDENTIFIER _ _ _ _ _) = True"
| "is_leaf _ = False"

definition null_safe :: "generator \<Rightarrow> bool" where
  "null_safe g \<longleftrightarrow> (\<forall>h r c. g None h = Some (r, c) \<longrightarrow> c = None)"

lemma null_safe_cases:
  assumes "null_safe g"
  obtains "g None h = None" | r where "g None h = Some (r, None)"
  using assms by (cases "g None h") (auto simp: null_safe_def)

lemma destination_none: "destination None hint t = (case hint of Some dst \<Rightarrow> Some (dst, None) | None \<Rightarrow> None)"
  by (simp add: destination_def split: option.split)

lemma binary_none: "null_safe gl \<Longrightarrow> null_safe gr \<Longrightarrow> generate_binary b op gl gr None hint = None"
  by (rule null_safe_cases [of gl None]; rule null_safe_cases [of gr None])
     (auto simp: generate_binary_def destination_none split: option.splits)

lemma unary_none: "null_safe g \<Longrightarrow> generate_unary b op g None hint = None"
  by (rule null_safe_cases [of g None])
     (auto simp: generate_unary_def generate_increment_def destination_none Let_def split: option.splits)

lemma cast_none: "null_safe g \<Longrightarrow> generate_cast b g None hint = None"
  by (rule null_safe_cases [of g None]) (auto simp: generate_cast_def destination_none split: option.splits)

lemma arguments_none: "\<forall>g \<in> set gs. null_safe g \<Longrightarrow> generate_arguments gs None = Some (rs, c) \<Longrightarrow> c = None"
proof (induction gs arbitrary: rs c)
  case (Cons g gs)
  then have g: "null_safe g" by simp
  show ?case
    by (rule null_safe_cases [OF g, of None]) (use Cons in \<open>auto simp: bind_eq_Some_conv\<close>)
qed simp

lemma call_none: "\<forall>g \<in> set gs. null_safe g \<Longrightarrow> generate_call b callee link gs None hint = None"
proof (cases "generate_arguments gs None")
  case None
  then show ?thesis by (simp add: generate_call_def)
next
  case (Some rc)
  assume "\<forall>g \<in> set gs. null_safe g"
  then obtain rs where rc: "rc = (rs, None)" using arguments_none Some by (cases rc) auto
  show ?thesis by (cases rs) (auto simp: generate_call_def Some rc destination_none split: option.splits)
qed

lemma expression_none: "null_safe (\<lambda>c h. generate_expression_into e c h) \<and>
    (\<not> is_leaf e \<longrightarrow> (\<forall>hint. generate_expression_into e None hint = None))"
proof (induction e)
  case (SF_NODE_FUNC_CALL b callee link args)
  then have "\<forall>g \<in> set (map (\<lambda>a c h. generate_expression_into a c h) args). null_safe g" by auto
  from call_none [OF this] show ?case by (simp add: null_safe_def)
next
  case (SF_NODE_BINARY b l r op)
  then show ?case using binary_none [of "generate_expression_into l" "generate_expression_into r"] by (simp add: null_safe_def)
next
  case (SF_NODE_UNARY b e op)
  then show ?case using unary_none [of "generate_expression_into e"] by (simp add: null_safe_def)
next
  case (SF_NODE_CAST b e t)
  then show ?case using cast_none [of "generate_expression_into e"] by (simp add: null_safe_def)
qed (simp_all add: null_safe_def)

lemma assignment_none:
  assumes "\<forall>b d s. e \<noteq> SF_NODE_IDENTIFIER b name d vid s"
  shows "generate_var_decl t name vid (Some e) None = None"
proof (cases "generate_expression_into e None (Some (SF_IR_OPERAND_TYPE_VARIABLE t (mangled_variable name vid)))")
  case None
  then show ?thesis by (simp add: generate_var_decl_def generate_assignment_def)
next
  case (Some rc)
  obtain r c where rc: "rc = (r, c)" by fastforce
  have leaf: "c = None" "is_leaf e" using expression_none [of e] Some rc by (auto simp: null_safe_def)
  then show ?thesis
    using Some rc assms
    by (cases e) (auto simp: generate_var_decl_def generate_assignment_def generate_literal_def new_immediate_def Let_def
        generate_identifier_def dest: mangled_variable_eq)
qed


section \<open>External names\<close>

definition called_names :: "sf_ir_operation list \<Rightarrow> string set" where
  "called_names ops = {function_text (io_operand2 op) | op. op \<in> set ops \<and> io_opcode op = SF_IR_OPCODE_CALL}"

definition defined_names :: "sf_ir_program \<Rightarrow> string set" where
  "defined_names ir = fn_name ` {f \<in> set (ip_functions ir). fn_defined f}"

lemma called_names_Cons: "called_names (op # ops) =
    (if io_opcode op = SF_IR_OPCODE_CALL then {function_text (io_operand2 op)} else {}) \<union> called_names ops"
  by (auto simp: called_names_def)

lemma is_defined_here_iff: "is_defined_here ir name \<longleftrightarrow> name \<in> defined_names ir"
  by (auto simp: is_defined_here_def defined_names_def)

lemma collect_extern_names:
  "set (ip_externs (collect_extern op ir)) = set (ip_externs ir) \<union>
     ((if io_opcode op = SF_IR_OPCODE_CALL then {function_text (io_operand2 op)} else {}) - defined_names ir)"
  "distinct (ip_externs ir) \<Longrightarrow> distinct (ip_externs (collect_extern op ir))"
  "defined_names (collect_extern op ir) = defined_names ir"
  by (auto simp: collect_extern_def Let_def is_defined_here_iff has_extern_def defined_names_def)

lemma fold_collect_names:
  "set (ip_externs (fold collect_extern ops ir)) = set (ip_externs ir) \<union> (called_names ops - defined_names ir) \<and>
   (distinct (ip_externs ir) \<longrightarrow> distinct (ip_externs (fold collect_extern ops ir))) \<and>
   defined_names (fold collect_extern ops ir) = defined_names ir"
proof (induction ops arbitrary: ir)
  case (Cons op ops)
  show ?case
    using Cons.IH [of "collect_extern op ir"] collect_extern_names [where op = op and ir = ir] by (auto simp: called_names_Cons)
qed (simp add: called_names_def)

lemma fold_functions_names:
  "set (ip_externs (fold (\<lambda>func. fold collect_extern (fn_operations func)) fs ir)) =
     set (ip_externs ir) \<union> ((\<Union>f \<in> set fs. called_names (fn_operations f)) - defined_names ir) \<and>
   (distinct (ip_externs ir) \<longrightarrow> distinct (ip_externs (fold (\<lambda>func. fold collect_extern (fn_operations func)) fs ir)))"
proof (induction fs arbitrary: ir)
  case (Cons f fs)
  show ?case
    using Cons.IH [of "fold collect_extern (fn_operations f) ir"] fold_collect_names [of "fn_operations f" ir] by auto
qed simp

section \<open>The lowering of programs, as properties\<close>

text \<open>C8: The control flow of a lowered program is well-formed. A program of functions and of variables
  without a value is always lowered; every label is then defined once in the whole program and
  every jump goes to a label of its own function.\<close>

theorem ir_jumps_resolved:
  assumes "\<forall>st \<in> set (pr_statements program). top_level_ok st"
  shows "\<exists>ir. sf_ir_generate program = Some ir \<and> distinct (function_labels (ip_functions ir)) \<and>
    (\<forall>f \<in> set (ip_functions ir). jumps_of (fn_operations f) \<subseteq> set (labels_of (fn_operations f)))"
proof -
  obtain l fs where code: "program_code (pr_statements program) 0 = (l, fs)" by fastforce
  from program_code_labels [OF this] sf_ir_generate_code [OF assms] code show ?thesis
    by (auto simp: labels_ok_def)
qed

definition ir_sample :: sf_program_node where
  "ir_sample = \<lparr>pr_statements = [SF_NODE_FUNC_DECL (new_node sf_span_zero) ''f'' None no_qualifiers [] SF_VAL_TYPE_VOID
     (Some (SF_NODE_BLOCK (new_node sf_span_zero)
        [SF_NODE_WHILE (new_node sf_span_zero) (sf_new_literal_node ''true'' SF_TOKEN_TYPE_KW_TRUE sf_span_zero)
           (SF_NODE_BLOCK (new_node sf_span_zero)
              [SF_NODE_IF (new_node sf_span_zero) (sf_new_literal_node ''true'' SF_TOKEN_TYPE_KW_TRUE sf_span_zero)
                 (SF_NODE_RETURN (new_node sf_span_zero) None)
                 (Some (SF_STMT_EXPR (sf_new_func_call_node (sf_new_identifier_node ''g'' sf_span_zero) sf_span_zero)))])]))],
     pr_imports = []\<rparr>"

lemma ir_sample_ok: "\<forall>st \<in> set (pr_statements ir_sample). top_level_ok st"
  by (simp add: ir_sample_def top_level_ok_def)

lemma ir_jumps_resolved_witness:
  "\<exists>ir. sf_ir_generate ir_sample = Some ir \<and> distinct (function_labels (ip_functions ir))"
  using ir_jumps_resolved [OF ir_sample_ok] by auto

text \<open>C9: The external names of a lowered program are exactly the names of the functions that its code
  calls and that it does not define, each listed once.\<close>

theorem ir_externs_exact:
  assumes "\<forall>st \<in> set (pr_statements program). top_level_ok st" "sf_ir_generate program = Some ir"
  shows "distinct (ip_externs ir) \<and>
    set (ip_externs ir) = (\<Union>f \<in> set (ip_functions ir). called_names (fn_operations f)) - defined_names ir"
proof -
  obtain l fs where code: "program_code (pr_statements program) 0 = (l, fs)" by fastforce
  let ?ir = "\<lparr>ip_functions = fs, ip_next_label = l, ip_externs = []\<rparr>"
  have ir: "ir = collect_externs ?ir" using sf_ir_generate_code [OF assms(1)] code assms(2) by simp
  have "defined_names ir = defined_names ?ir" by (simp add: ir defined_names_def)
  then show ?thesis using fold_functions_names [of fs ?ir] by (simp add: ir) (simp add: collect_externs_def)
qed

lemma ir_externs_exact_witness:
  "\<exists>ir. sf_ir_generate ir_sample = Some ir \<and> distinct (ip_externs ir)"
proof -
  obtain ir where "sf_ir_generate ir_sample = Some ir"
    using sf_ir_generate_code [OF ir_sample_ok] by (auto split: prod.splits)
  with ir_externs_exact [OF ir_sample_ok this] show ?thesis by blast
qed

text \<open>C29: A global variable with an initial value makes the lowering use the null pointers of the program
  context: nothing rejects the declaration before, and the result is undefined behaviour of the
  compiler, not a diagnostic.\<close>

theorem global_value_undefined:
  assumes "pr_statements program = before @ SF_NODE_VAR_DECL b q t name vid (Some e) # after"
    "\<forall>st \<in> set before. top_level_ok st" "\<forall>b d s. e \<noteq> SF_NODE_IDENTIFIER b name d vid s"
  shows "sf_ir_generate program = None"
proof -
  have append: "generate_block (gs @ hs) c p = do { (c, p) \<leftarrow> generate_block gs c p; generate_block hs c p }" for gs hs c p
  proof (induction gs arbitrary: c p)
    case (Cons g gs)
    show ?case by (cases "g c p") (auto simp: Cons)
  qed simp
  let ?p = "\<lparr>ip_functions = [], ip_next_label = 0, ip_externs = []\<rparr>"
  have "generate_block (map generate_statement (pr_statements program)) None ?p = None"
    by (simp add: assms(1) append generate_program_code [OF assms(2)] assignment_none [OF assms(3)] split: prod.split)
  then show ?thesis by (simp add: sf_ir_generate_def context_from_program_def)
qed

lemma global_value_undefined_witness:
  "sf_ir_generate \<lparr>pr_statements = [SF_NODE_VAR_DECL (new_node sf_span_zero) no_qualifiers SF_VAL_TYPE_I32 ''x'' 0
     (Some (sf_new_literal_node ''1'' SF_TOKEN_TYPE_INTEGER sf_span_zero))], pr_imports = []\<rparr> = None"
  by (rule global_value_undefined [where before = "[]"]) (auto simp: sf_new_literal_node_def)

end
