(* ===== verification/Backend_Facts.thy ===== *)
theory Backend_Facts
  imports Codegen_Facts Ir_Facts
begin

text \<open>
  The back end as a whole: the lowering followed by the code generator. The operands of lowered code
  have a size when the types of the annotated tree have one, so the generator finds a slot for
  each of them.
\<close>

section \<open>Trees whose types have a size\<close>

fun sized_expr :: "sf_expr \<Rightarrow> bool" where
  "sized_expr (SF_NODE_BINARY b l r op) \<longleftrightarrow> ab_resolved b \<noteq> SF_VAL_TYPE_VOID \<and> sized_expr l \<and> sized_expr r"
| "sized_expr (SF_NODE_UNARY b e op) \<longleftrightarrow> ab_resolved b \<noteq> SF_VAL_TYPE_VOID \<and> sized_expr e"
| "sized_expr (SF_NODE_CAST b e t) \<longleftrightarrow> ab_resolved b \<noteq> SF_VAL_TYPE_VOID \<and> sized_expr e"
| "sized_expr (SF_NODE_FUNC_CALL b c l args) \<longleftrightarrow> (\<forall>a \<in> set args. sized_expr a)"
| "sized_expr (SF_NODE_IDENTIFIER b n d i s) \<longleftrightarrow> ab_resolved b \<noteq> SF_VAL_TYPE_VOID"
| "sized_expr _ \<longleftrightarrow> True"

fun sized_stmt :: "sf_stmt \<Rightarrow> bool" where
  "sized_stmt (SF_NODE_VAR_DECL b q t name vid v) \<longleftrightarrow> t \<noteq> SF_VAL_TYPE_VOID \<and> (case v of None \<Rightarrow> True | Some e \<Rightarrow> sized_expr e)"
| "sized_stmt (SF_NODE_VAR_ASSIGN b name e vid) \<longleftrightarrow> ab_resolved b \<noteq> SF_VAL_TYPE_VOID \<and> sized_expr e"
| "sized_stmt (SF_NODE_BLOCK b sts) \<longleftrightarrow> (\<forall>st \<in> set sts. sized_stmt st)"
| "sized_stmt (SF_NODE_IF b c t e) \<longleftrightarrow> sized_expr c \<and> sized_stmt t \<and> (case e of None \<Rightarrow> True | Some st \<Rightarrow> sized_stmt st)"
| "sized_stmt (SF_NODE_WHILE b c d) \<longleftrightarrow> sized_expr c \<and> sized_stmt d"
| "sized_stmt (SF_NODE_FUNC_DECL b name link q ps t body) \<longleftrightarrow>
     (\<forall>p \<in> set ps. pm_type p \<noteq> SF_VAL_TYPE_VOID) \<and> (case body of None \<Rightarrow> True | Some st \<Rightarrow> sized_stmt st)"
| "sized_stmt (SF_NODE_RETURN b v) \<longleftrightarrow> (case v of None \<Rightarrow> True | Some e \<Rightarrow> sized_expr e)"
| "sized_stmt (SF_STMT_EXPR e) \<longleftrightarrow> sized_expr e"

section \<open>Sized trees give sized code\<close>

text \<open>The number of temporaries from which on a name of a temporary is cut.\<close>

definition temp_limit :: nat where
  "temp_limit = 10 ^ 14"

lemma dec_digits_length: "n < 10 ^ d \<Longrightarrow> 0 < d \<Longrightarrow> length (dec_digits n) \<le> d"
proof (induction d arbitrary: n)
  case (Suc d)
  show ?case
  proof (cases "n < 10")
    case True
    then show ?thesis by (simp add: dec_digits.simps [of n])
  next
    case False
    then have "0 < d" "n div 10 < 10 ^ d" using Suc.prems(1) by (cases d; simp)+
    then show ?thesis using False Suc.IH [of "n div 10"] by (simp add: dec_digits.simps [of n])
  qed
qed simp

lemma short_temps: "k < temp_limit \<Longrightarrow> short_temp k"
  using dec_digits_length [of k 14] by (simp add: short_temp_def temp_limit_def)

definition sized_code :: "sf_ir_operation list \<Rightarrow> bool" where
  "sized_code code \<longleftrightarrow> (\<forall>op \<in> set code. sized_operation op)"

lemma sized_code_simps [simp]:
  "sized_code []" "sized_code (xs @ ys) \<longleftrightarrow> sized_code xs \<and> sized_code ys"
  "sized_code (op # ops) \<longleftrightarrow> sized_operation op \<and> sized_code ops"
  by (auto simp: sized_code_def)

lemma sized_operation_simps [simp]:
  "sized_operation (operation opc a b c) \<longleftrightarrow> sized_operand a \<and> sized_operand b \<and> sized_operand c"
  "sized_operation (label_op l)" "sized_operation (jump_op l)"
  "sized_operation (branch_op l c) \<longleftrightarrow> sized_operand c" "sized_operation (return_op c) \<longleftrightarrow> sized_operand c"
  by (simp_all add: sized_operation_def label_op_def jump_op_def branch_op_def return_op_def)

text \<open>The code of an expression from the temporary \<open>n\<close> on, when the temporaries stay below the limit.\<close>

definition sized_result :: "nat \<Rightarrow> sf_ir_operand \<times> sf_ir_operation list \<times> nat \<Rightarrow> bool" where
  "sized_result n r \<longleftrightarrow> (case r of (x, code, n') \<Rightarrow> n \<le> n' \<and> (n' \<le> temp_limit \<longrightarrow> sized_operand x \<and> sized_code code))"

lemma dest_code_sized:
  "dest_code hint t n = (dst, n') \<Longrightarrow> t \<noteq> SF_VAL_TYPE_VOID \<Longrightarrow> \<forall>h. hint = Some h \<longrightarrow> sized_operand h \<Longrightarrow>
   n \<le> n' \<and> (n' \<le> temp_limit \<longrightarrow> sized_operand dst)"
  by (auto simp: dest_code_def short_temps split: option.splits)

lemma args_code_sized:
  "\<forall>g \<in> set gs. \<forall>n. sized_result n (g None n) \<Longrightarrow> args_code gs n = (rs, code, n') \<Longrightarrow>
   n \<le> n' \<and> (n' \<le> temp_limit \<longrightarrow> (\<forall>r \<in> set rs. sized_operand r) \<and> sized_code code)"
proof (induction gs arbitrary: n rs code n')
  case (Cons g gs)
  obtain r1 code1 n1 where a: "g None n = (r1, code1, n1)" by (rule prod_cases3)
  obtain rs2 code2 n2 where b: "args_code gs n1 = (rs2, code2, n2)" by (rule prod_cases3)
  have "sized_result n (g None n)" using Cons.prems(1) by simp
  moreover have "n1 \<le> n2 \<and> (n2 \<le> temp_limit \<longrightarrow> (\<forall>r \<in> set rs2. sized_operand r) \<and> sized_code code2)"
    using Cons.IH [OF _ b] Cons.prems(1) by simp
  ultimately show ?case using Cons.prems(2) a b by (auto simp: sized_result_def)
qed simp

lemma expr_code_sized:
  "sized_expr e \<Longrightarrow> \<forall>h. hint = Some h \<longrightarrow> sized_operand h \<Longrightarrow> sized_result n (expr_code e hint n)"
proof (induction e arbitrary: hint n)
  case (SF_NODE_BINARY b l r op)
  obtain r1 code1 n1 where 1: "expr_code l None n = (r1, code1, n1)" by (rule prod_cases3)
  obtain r2 code2 n2 where 2: "expr_code r None n1 = (r2, code2, n2)" by (rule prod_cases3)
  obtain dst n3 where 3: "dest_code hint (ab_resolved b) n2 = (dst, n3)" by fastforce
  have "sized_result n (r1, code1, n1)" "sized_result n1 (r2, code2, n2)"
    using SF_NODE_BINARY.IH(1) [of None n] SF_NODE_BINARY.IH(2) [of None n1] SF_NODE_BINARY.prems 1 2 by simp_all
  then show ?case using dest_code_sized [OF 3] SF_NODE_BINARY.prems by (auto simp: 1 2 3 sized_result_def)
next
  case (SF_NODE_UNARY b e op)
  obtain r1 code1 n1 where 1: "expr_code e None n = (r1, code1, n1)" by (rule prod_cases3)
  have s: "sized_result n (r1, code1, n1)" using SF_NODE_UNARY.IH [of None n] SF_NODE_UNARY.prems 1 by simp
  show ?case
  proof (cases "sf_type_is_increment_or_decrement op")
    case True
    then show ?thesis using s SF_NODE_UNARY.prems
      by (auto simp: 1 sized_result_def increment_code_def Let_def new_immediate_def short_temps)
  next
    case False
    obtain dst n3 where 3: "dest_code hint (ab_resolved b) n1 = (dst, n3)" by fastforce
    show ?thesis using s False dest_code_sized [OF 3] SF_NODE_UNARY.prems by (auto simp: 1 3 sized_result_def)
  qed
next
  case (SF_NODE_CAST b e t)
  obtain r1 code1 n1 where 1: "expr_code e None n = (r1, code1, n1)" by (rule prod_cases3)
  obtain dst n3 where 3: "dest_code hint (ab_resolved b) n1 = (dst, n3)" by fastforce
  have "sized_result n (r1, code1, n1)" using SF_NODE_CAST.IH [of None n] SF_NODE_CAST.prems 1 by simp
  then show ?case using dest_code_sized [OF 3] SF_NODE_CAST.prems by (auto simp: 1 3 sized_result_def)
next
  case (SF_NODE_FUNC_CALL b callee link args)
  obtain rs code1 n1 where 1: "args_code (map (\<lambda>a h n. expr_code a h n) args) n = (rs, code1, n1)" by (rule prod_cases3)
  have "\<forall>g \<in> set (map (\<lambda>a h n. expr_code a h n) args). \<forall>n. sized_result n (g None n)"
    using SF_NODE_FUNC_CALL by auto
  from args_code_sized [OF this 1]
  have s: "n \<le> n1 \<and> (n1 \<le> temp_limit \<longrightarrow> (\<forall>r \<in> set rs. sized_operand r) \<and> sized_code code1)" .
  have p: "\<forall>r \<in> set rs. sized_operand r \<Longrightarrow> sized_code (param_code rs)" by (auto simp: param_code_def sized_code_def)
  show ?case
  proof (cases "ab_resolved b = SF_VAL_TYPE_VOID")
    case True
    then show ?thesis using s p by (auto simp: 1 sized_result_def)
  next
    case False
    obtain dst n3 where 3: "dest_code hint (ab_resolved b) n1 = (dst, n3)" by fastforce
    show ?thesis using s p False dest_code_sized [OF 3 False SF_NODE_FUNC_CALL.prems(2)] by (auto simp: 1 3 sized_result_def)
  qed
qed (auto simp: sized_result_def generate_literal_def generate_identifier_def new_immediate_def Let_def)

text \<open>The code of a statement, and the functions that it adds.\<close>

definition sized_functions :: "sf_ir_function list \<Rightarrow> bool" where
  "sized_functions fs \<longleftrightarrow> (\<forall>f \<in> set fs. fn_next_temp f \<le> temp_limit \<longrightarrow> sized_function f)"

lemma sized_functions_simps [simp]:
  "sized_functions []" "sized_functions (xs @ ys) \<longleftrightarrow> sized_functions xs \<and> sized_functions ys"
  "sized_functions (f # fs) \<longleftrightarrow> (fn_next_temp f \<le> temp_limit \<longrightarrow> sized_function f) \<and> sized_functions fs"
  by (auto simp: sized_functions_def)

definition sized_statement :: "statement_code \<Rightarrow> bool" where
  "sized_statement c \<longleftrightarrow> (\<forall>n l code n' l' fs. c n l = (code, n', l', fs) \<longrightarrow>
     n \<le> n' \<and> (n' \<le> temp_limit \<longrightarrow> sized_code code) \<and> sized_functions fs)"

lemma sized_statementD: "sized_statement c \<Longrightarrow> c n l = (code, n', l', fs) \<Longrightarrow>
    n \<le> n' \<and> (n' \<le> temp_limit \<longrightarrow> sized_code code) \<and> sized_functions fs"
  unfolding sized_statement_def by blast

lemma expr_code_sizedD: "expr_code e None n = (r, code, n') \<Longrightarrow> sized_expr e \<Longrightarrow>
    n \<le> n' \<and> (n' \<le> temp_limit \<longrightarrow> sized_operand r \<and> sized_code code)"
  using expr_code_sized [of e None n] by (simp add: sized_result_def)

lemma assign_code_sized:
  assumes "assign_code t x e n = (code, n')" "sized_expr e" "t \<noteq> SF_VAL_TYPE_VOID"
  shows "n \<le> n' \<and> (n' \<le> temp_limit \<longrightarrow> sized_code code)"
proof -
  obtain r code1 n1 where c: "expr_code e (Some (SF_IR_OPERAND_TYPE_VARIABLE t x)) n = (r, code1, n1)" by (rule prod_cases3)
  have "sized_result n (r, code1, n1)"
    using expr_code_sized [OF assms(2), of "Some (SF_IR_OPERAND_TYPE_VARIABLE t x)" n] assms(3) c by simp
  then show ?thesis
    using assms(1,3) c by (auto simp: assign_code_def sized_result_def Let_def split: sf_ir_operand.splits if_splits)
qed

lemma sized_block: "\<forall>c \<in> set cs. sized_statement c \<Longrightarrow> sized_statement (block_code cs)"
proof (induction cs)
  case (Cons c cs)
  have c: "sized_statement c" and cs: "sized_statement (block_code cs)" using Cons by simp_all
  show ?case
    unfolding sized_statement_def by (auto dest!: sized_statementD [OF c] sized_statementD [OF cs] split: prod.splits)
qed (simp add: sized_statement_def)

lemma sized_if:
  assumes "sized_expr c" "sized_statement t" "case e of None \<Rightarrow> True | Some ec \<Rightarrow> sized_statement ec"
  shows "sized_statement (if_code c t e)"
proof (cases e)
  case None
  then show ?thesis unfolding sized_statement_def if_code_def
    by (auto dest!: expr_code_sizedD [OF _ assms(1)] sized_statementD [OF assms(2)] split: prod.splits)
next
  case (Some ec)
  then have ec: "sized_statement ec" using assms(3) by simp
  show ?thesis unfolding sized_statement_def if_code_def
    by (auto simp: Some dest!: expr_code_sizedD [OF _ assms(1)] sized_statementD [OF assms(2)] sized_statementD [OF ec] split: prod.splits)
qed

lemma sized_while: "sized_expr c \<Longrightarrow> sized_statement d \<Longrightarrow> sized_statement (while_code c d)"
  unfolding sized_statement_def [of "while_code c d"] while_code_def
  by (auto dest!: expr_code_sizedD sized_statementD split: prod.splits)

lemma sized_func:
  assumes "\<forall>p \<in> set ps. pm_type p \<noteq> SF_VAL_TYPE_VOID" "case body of None \<Rightarrow> True | Some c \<Rightarrow> sized_statement c"
    "func_code name link q ps t body l = (l', fs)"
  shows "sized_functions fs"
proof (cases body)
  case None
  then show ?thesis using assms(1,3) by (auto simp: func_code_def sized_function_def lower_parameter_def)
next
  case (Some c)
  then have c: "sized_statement c" using assms(2) by simp
  show ?thesis
    using assms(1,3)
    by (auto simp: func_code_def Some sized_function_def lower_parameter_def sized_code_def dest!: sized_statementD [OF c]
        split: prod.splits)
qed

lemma stmt_code_sized: "sized_stmt st \<Longrightarrow> sized_statement (\<lambda>n l. stmt_code st n l)"
proof (induction st)
  case (SF_NODE_BLOCK b sts)
  then show ?case using sized_block [of "map (\<lambda>st n l. stmt_code st n l) sts"] by (auto simp: sized_statement_def)
next
  case (SF_NODE_IF b c t e)
  have "sized_statement (if_code c (\<lambda>n l. stmt_code t n l) (map_option (\<lambda>st n l. stmt_code st n l) e))"
    by (rule sized_if) (use SF_NODE_IF in \<open>auto split: option.splits\<close>)
  then show ?case by (simp add: sized_statement_def)
next
  case (SF_NODE_WHILE b c d)
  then have "sized_statement (while_code c (\<lambda>n l. stmt_code d n l))" by (intro sized_while) simp_all
  then show ?case by (simp add: sized_statement_def)
next
  case (SF_NODE_FUNC_DECL b name link q ps t body)
  have ps: "\<forall>p \<in> set ps. pm_type p \<noteq> SF_VAL_TYPE_VOID" using SF_NODE_FUNC_DECL.prems by simp
  have "case map_option (\<lambda>st n l. stmt_code st n l) body of None \<Rightarrow> True | Some c \<Rightarrow> sized_statement c"
    using SF_NODE_FUNC_DECL by (auto split: option.splits)
  from sized_func [OF ps this] show ?case by (fastforce simp: sized_statement_def split: prod.splits)
next
  case (SF_NODE_RETURN b v)
  then show ?case
    by (auto simp: sized_statement_def return_code_def dest!: expr_code_sizedD split: option.splits prod.splits)
next
  case (SF_STMT_EXPR e)
  then show ?case by (auto simp: sized_statement_def dest!: expr_code_sizedD split: prod.splits)
next
  case (SF_NODE_VAR_DECL b q t name vid v)
  then show ?case
    by (auto simp: sized_statement_def dest!: assign_code_sized split: option.splits prod.splits)
next
  case (SF_NODE_VAR_ASSIGN b name e vid)
  then show ?case by (auto simp: sized_statement_def dest!: assign_code_sized split: prod.splits)
qed

lemma program_code_sized: "\<forall>st \<in> set sts. sized_stmt st \<Longrightarrow> program_code sts l = (l', fs) \<Longrightarrow> sized_functions fs"
proof (induction sts arbitrary: l l' fs)
  case (Cons st sts)
  have st: "sized_statement (\<lambda>n l. stmt_code st n l)" using Cons.prems(1) by (intro stmt_code_sized) simp
  obtain code n l1 fs1 where a: "stmt_code st 0 l = (code, n, l1, fs1)" by (rule prod_cases4)
  obtain l2 fs2 where b: "program_code sts l1 = (l2, fs2)" by fastforce
  have "sized_functions fs2" using Cons.IH [OF _ b] Cons.prems(1) by simp
  then show ?case using Cons.prems(2) a b sized_statementD [OF st a] by auto
qed simp

end
