(* ===== verification/Asm_Code.thy ===== *)
theory Asm_Code
  imports Asm Backend_Facts
begin

text \<open>
  The text that the code generator emits for an operation is the text of instructions of \<open>Asm\<close>: for
  every \<^verbatim>\<open>emit\<close> function of \<open>Codegen\<close> the instructions that it writes, and the proof that its text is
  theirs. Operands are locations: slots of the frame, and immediates that their type can hold.
\<close>

section \<open>Operands\<close>

text \<open>The number that the assembler reads, and the value of a type with the same low bits.\<close>

definition immediate_value :: "string \<Rightarrow> int" where
  "immediate_value s =
     (case s of [] \<Rightarrow> 0 | c # cs \<Rightarrow> if c = CHR ''-'' then - int (dec_value 0 cs) else int (dec_value 0 s))"

definition wrap_type :: "sf_value_type \<Rightarrow> int \<Rightarrow> int" where
  "wrap_type t v =
     (if sf_type_value_is_signed t then signed_bits (sf_type_value_width_bytes t) v
      else take_bit (bits (sf_type_value_width_bytes t)) v)"

lemma dec_digit_not_minus: "is_dec_digit c \<Longrightarrow> c \<noteq> CHR ''-''"
  by (auto simp: is_dec_digit_iff)

lemma dec_digits_Cons: obtains c cs where "dec_digits n = c # cs" "is_dec_digit c"
proof -
  obtain c cs where d: "dec_digits n = c # cs" using dec_digits_nonempty by (meson neq_Nil_conv)
  then have "is_dec_digit c" using dec_digits_digits [of n] by simp
  then show thesis using that d by blast
qed

lemma immediate_value_int_text [simp]: "immediate_value (int_text n) = n"
proof (cases "n < 0")
  case False
  obtain c cs where d: "dec_digits (nat \<bar>n\<bar>) = c # cs" "is_dec_digit c" by (rule dec_digits_Cons)
  have "int (dec_value 0 (c # cs)) = n" using False dec_value_dec_digits [of "nat \<bar>n\<bar>"] by (simp only: d(1))
  moreover have "int_text n = c # cs" using False d(1) by (simp add: int_text_def)
  ultimately show ?thesis using dec_digit_not_minus [OF d(2)] by (simp add: immediate_value_def del: dec_value.simps)
qed (simp add: immediate_value_def int_text_def)

lemma wrap_type_range: "\<bar>wrap_type t v\<bar> < 2 ^ 64"
proof -
  let ?b = "bits (sf_type_value_width_bytes t)"
  have w: "?b \<le> 64" using width_bytes_cases [of t] by auto
  have "(2 :: int) ^ ?b \<le> 2 ^ 64" by (rule power_increasing [OF w]) simp
  moreover have "(2 :: int) ^ (?b - 1) \<le> 2 ^ 63" by (rule power_increasing) (use w in simp_all)
  ultimately have p: "(2 :: int) ^ ?b \<le> 2 ^ 64" "(2 :: int) ^ (?b - 1) \<le> 2 ^ 63" .
  have "take_bit ?b v < 2 ^ ?b" "0 \<le> take_bit ?b v" by simp_all
  then have u: "\<bar>take_bit ?b v\<bar> < 2 ^ 64" using p(1) by linarith
  have "signed_bits (sf_type_value_width_bytes t) v < 2 ^ (?b - 1)" by (rule signed_take_bit_int_less_exp)
  moreover have "- (2 ^ (?b - 1)) \<le> signed_bits (sf_type_value_width_bytes t) v" by (rule signed_take_bit_int_greater_eq_minus_exp)
  ultimately have "\<bar>signed_bits (sf_type_value_width_bytes t) v\<bar> \<le> 2 ^ 63" using p(2) by linarith
  then have "\<bar>signed_bits (sf_type_value_width_bytes t) v\<bar> < 2 ^ 64" by simp
  with u show ?thesis
    by (cases "sf_type_value_is_signed t") (simp_all only: wrap_type_def if_True if_False)
qed

text \<open>The values of a type.\<close>

definition canonical :: "sf_value_type \<Rightarrow> int \<Rightarrow> bool" where
  "canonical t v \<longleftrightarrow> wrap_type t v = v"

text \<open>An operand that the frame serves: its slot has its type, its name is one of the lowering.\<close>

fun operand_ok :: "sf_stack_map \<Rightarrow> sf_ir_operand \<Rightarrow> bool" where
  "operand_ok m (SF_IR_OPERAND_TYPE_IMMEDIATE t v) \<longleftrightarrow> t \<noteq> SF_VAL_TYPE_VOID \<and>
     v = int_text (immediate_value v) \<and> canonical t (immediate_value v)"
| "operand_ok m (SF_IR_OPERAND_TYPE_VARIABLE t x) \<longleftrightarrow> CHR ''@'' \<in> set x \<and>
     map_option ek_type (sf_stack_lookup_entry m x) = Some t"
| "operand_ok m (SF_IR_OPERAND_TYPE_TEMPORARY t k) \<longleftrightarrow> short_temp k \<and>
     map_option ek_type (sf_stack_lookup_entry m (''t'' @ dec_digits k)) = Some t"
| "operand_ok m _ \<longleftrightarrow> False"

text \<open>The frames that \<^verbatim>\<open>sf_stack_populate\<close> makes, of a size that \<^verbatim>\<open>int64_t\<close> holds.\<close>

definition frame_sound :: "sf_stack_map \<Rightarrow> bool" where
  "frame_sound m \<longleftrightarrow> (\<exists>n. frame_ok (m, n)) \<and> (\<forall>e \<in> set m. - (2 ^ 63) \<le> ek_offset e)"

fun operand_name :: "sf_ir_operand \<Rightarrow> string" where
  "operand_name (SF_IR_OPERAND_TYPE_VARIABLE t x) = x"
| "operand_name (SF_IR_OPERAND_TYPE_TEMPORARY t k) = ''t'' @ dec_digits k"
| "operand_name _ = []"

definition operand_loc :: "sf_stack_map \<Rightarrow> sf_ir_operand \<Rightarrow> location" where
  "operand_loc m op =
     (if is_immediate op then Imm (immediate_value (immediate_text op))
      else Mem (operand_width op) (sf_stack_lookup m (operand_name op)))"

lemma lookup_entry:
  assumes "frame_sound m" "sf_stack_lookup_entry m x = Some e"
  shows "e \<in> set m" "ek_name e = x" "ek_offset e < 0" "- (2 ^ 63) \<le> ek_offset e" "0 < entry_width e"
    "sf_stack_lookup m x = ek_offset e" "stack_offset m x = Some (ek_offset e)"
proof -
  show e: "e \<in> set m" "ek_name e = x" using assms(2) by (auto simp: sf_stack_lookup_entry_def find_Some_iff)
  obtain n where "frame_ok (m, n)" using assms(1) by (auto simp: frame_sound_def)
  then show off: "ek_offset e < 0" "0 < entry_width e" using e(1) by (fastforce simp: frame_ok_def)+
  show "- (2 ^ 63) \<le> ek_offset e" using assms(1) e(1) by (simp add: frame_sound_def)
  show "sf_stack_lookup m x = ek_offset e" by (simp add: sf_stack_lookup_def assms(2))
  then show "stack_offset m x = Some (ek_offset e)" using off by (simp add: stack_offset_def)
qed

lemma int_text_short: "\<bar>n\<bar> < 2 ^ 64 \<Longrightarrow> length (int_text n) \<le> 21" "\<bar>n\<bar> < 2 ^ 64 \<Longrightarrow> length (signed_text n) \<le> 21"
proof -
  assume "\<bar>n\<bar> < 2 ^ 64"
  then have "nat \<bar>n\<bar> < 10 ^ 20" by simp
  then have "length (dec_digits (nat \<bar>n\<bar>)) \<le> 20" by (rule dec_digits_length) simp
  moreover have "length (int_text n) \<le> Suc (length (dec_digits (nat \<bar>n\<bar>)))"
    "length (signed_text n) \<le> Suc (length (dec_digits (nat \<bar>n\<bar>)))"
    by (simp_all add: int_text_def signed_text_def)
  ultimately show "length (int_text n) \<le> 21" "length (signed_text n) \<le> 21" by linarith+
qed

lemma memory_text_short: "\<bar>offset\<bar> < 2 ^ 64 \<Longrightarrow> snprintf_text FMT_SIZE (memory_operand t offset) = memory_operand t offset"
  using int_text_short(2) [of offset]
  by (cases "prefix_from_size (sf_type_value_width_bytes t)")
     (simp_all add: snprintf_text_def memory_operand_def FMT_SIZE_def)

lemma operand_formats:
  assumes "frame_sound m" "operand_ok m op"
  shows "format_operand m op = Some (location_text (operand_loc m op))"
    "is_imm (operand_loc m op) \<longleftrightarrow> is_immediate op" "is_mem (operand_loc m op) \<longleftrightarrow> in_memory op"
    "0 < operand_width op"
proof -
  show "is_imm (operand_loc m op) \<longleftrightarrow> is_immediate op" by (simp add: operand_loc_def)
  show "is_mem (operand_loc m op) \<longleftrightarrow> in_memory op" using assms(2) by (cases op) (simp_all add: operand_loc_def)
  show "format_operand m op = Some (location_text (operand_loc m op))"
  proof (cases op)
    case (SF_IR_OPERAND_TYPE_IMMEDIATE t v)
    have "\<bar>immediate_value v\<bar> < 2 ^ 64" using assms(2) wrap_type_range [of t "immediate_value v"] SF_IR_OPERAND_TYPE_IMMEDIATE by (simp add: canonical_def)
    then have "length v \<le> 21" using int_text_short(1) assms(2) SF_IR_OPERAND_TYPE_IMMEDIATE by fastforce
    then show ?thesis using assms(2)
      by (simp add: SF_IR_OPERAND_TYPE_IMMEDIATE format_operand_def operand_loc_def snprintf_text_def FMT_SIZE_def)
  next
    case (SF_IR_OPERAND_TYPE_VARIABLE t x)
    then obtain e where e: "sf_stack_lookup_entry m x = Some e" "ek_type e = t" using assms(2) by auto
    note l = lookup_entry [OF assms(1) e(1)]
    have "\<bar>ek_offset e\<bar> < 2 ^ 64" using l by simp
    from memory_text_short [OF this] l show ?thesis
      by (simp add: SF_IR_OPERAND_TYPE_VARIABLE format_operand_def operand_loc_def) (simp add: memory_operand_def)
  next
    case (SF_IR_OPERAND_TYPE_TEMPORARY t k)
    then obtain e where e: "sf_stack_lookup_entry m (''t'' @ dec_digits k) = Some e" "ek_type e = t" and k: "short_temp k"
      using assms(2) by auto
    note l = lookup_entry [OF assms(1) e(1)]
    have "\<bar>ek_offset e\<bar> < 2 ^ 64" using l by simp
    from memory_text_short [OF this] l temp_name [OF k] show ?thesis
      by (simp add: SF_IR_OPERAND_TYPE_TEMPORARY format_operand_def operand_loc_def) (simp add: memory_operand_def)
  qed (use assms(2) in simp_all)
  show "0 < operand_width op"
  proof (cases op)
    case (SF_IR_OPERAND_TYPE_IMMEDIATE t v)
    then show ?thesis using assms(2) sized_type_width [of t] by (simp add: sized_type_def)
  next
    case (SF_IR_OPERAND_TYPE_VARIABLE t x)
    then obtain e where e: "sf_stack_lookup_entry m x = Some e" "ek_type e = t" using assms(2) by auto
    then show ?thesis using lookup_entry(5) [OF assms(1) e(1)] SF_IR_OPERAND_TYPE_VARIABLE by simp
  next
    case (SF_IR_OPERAND_TYPE_TEMPORARY t k)
    then obtain e where e: "sf_stack_lookup_entry m (''t'' @ dec_digits k) = Some e" "ek_type e = t" using assms(2) by auto
    then show ?thesis using lookup_entry(5) [OF assms(1) e(1)] SF_IR_OPERAND_TYPE_TEMPORARY by simp
  qed (use assms(2) in simp_all)
qed

section \<open>The instructions of an operation\<close>

fun large :: "location \<Rightarrow> nat \<Rightarrow> instruction list \<times> location" where
  "large (Imm n) w =
     (if w < 8 \<or> - (2 ^ 31) \<le> n \<and> n \<le> 2 ^ 31 - 1 then ([], Imm n) else ([I_mov (Reg RCX 8) (Imm n)], Reg RCX 8))"
| "large l w = ([], l)"

definition binary_code :: "alu_operation \<Rightarrow> nat \<Rightarrow> location \<Rightarrow> location \<Rightarrow> location \<Rightarrow> instruction list" where
  "binary_code f w d a b =
     (case large b w of (pre, b') \<Rightarrow> pre @
        (if d = a \<and> \<not> is_mem b then [I_alu f d b']
         else [I_mov (Reg RAX w) a, I_alu f (Reg RAX w) b', I_mov d (Reg RAX w)]))"

definition mult_code :: "bool \<Rightarrow> nat \<Rightarrow> location \<Rightarrow> location \<Rightarrow> location \<Rightarrow> instruction list" where
  "mult_code is_signed w d a b =
     (if w = 1
      then [I_mov (Reg RAX 1) a] @
           (if is_imm b then [I_mov (Reg RCX 1) b, I_mul is_signed (Reg RCX 1)] else [I_mul is_signed b]) @
           [I_mov d (Reg RAX 1)]
      else case large b w of (pre, b') \<Rightarrow>
             pre @ [I_mov (Reg RAX w) a, I_imul (Reg RAX w) b', I_mov d (Reg RAX w)])"

definition extension_code :: "nat \<Rightarrow> bool \<Rightarrow> instruction list" where
  "extension_code w is_signed =
     (if is_signed then [I_sign w] else if w = 1 then [I_clear_ah] else [I_alu Alu_xor (Reg RDX w) (Reg RDX w)])"

definition div_code :: "bool \<Rightarrow> nat \<Rightarrow> location \<Rightarrow> location \<Rightarrow> location \<Rightarrow> instruction list" where
  "div_code is_signed w d a b =
     [I_mov (Reg RAX w) a] @ extension_code w is_signed @
     (if is_imm b then [I_mov (Reg RCX w) b, I_div is_signed (Reg RCX w)] else [I_div is_signed b]) @
     [I_mov d (Reg RAX w)]"

definition unary_code :: "(location \<Rightarrow> instruction) \<Rightarrow> nat \<Rightarrow> location \<Rightarrow> location \<Rightarrow> instruction list" where
  "unary_code f w d a = (if d = a then [f d] else [I_mov (Reg RAX w) a, f (Reg RAX w), I_mov d (Reg RAX w)])"

definition shift_code :: "shift_operation \<Rightarrow> nat \<Rightarrow> nat \<Rightarrow> location \<Rightarrow> location \<Rightarrow> location \<Rightarrow> instruction list" where
  "shift_code f w wc d a c =
     [I_mov (Reg RAX w) a] @
     (if is_imm c then [I_shift f (Reg RAX w) c] else [I_mov (Reg RCX wc) c, I_shift f (Reg RAX w) (Reg RCX 1)]) @
     [I_mov d (Reg RAX w)]"

definition convert_code :: "bool \<Rightarrow> nat \<Rightarrow> nat \<Rightarrow> location \<Rightarrow> location \<Rightarrow> instruction list" where
  "convert_code is_signed w1 w2 d a =
     (if is_imm a \<or> w1 = w2 then [I_mov (Reg RAX w2) a, I_mov d (Reg RAX w2)]
      else if w1 < w2
      then [if is_signed \<or> w1 \<noteq> 4 then I_extend is_signed (Reg RAX w2) a else I_mov (Reg RAX 4) a, I_mov d (Reg RAX w2)]
      else [I_mov (Reg RAX w1) a, I_mov d (Reg RAX w2)])"

definition relational_code :: "condition \<Rightarrow> nat \<Rightarrow> location \<Rightarrow> location \<Rightarrow> location \<Rightarrow> instruction list" where
  "relational_code c w d a b =
     (case large b w of (pre, b') \<Rightarrow>
        pre @ [I_mov (Reg RAX w) a, I_cmp (Reg RAX w) b', I_set c, I_mov d (Reg RAX 1)])"

section \<open>The emitted text is theirs\<close>

lemma line_two: "line (mnemonic @ '' '' @ a @ '', '' @ b) = line (two_text mnemonic a b)"
  "line (mnemonic @ '' '' @ a) = line (one_text mnemonic a)"
  by (simp_all add: two_text_def one_text_def)

lemma signed_text_inject [simp]: "signed_text a = signed_text b \<longleftrightarrow> a = b"
  by (auto simp: signed_text_def split: if_splits)

lemma prefix_texts [simp]: "prefix_to_string p = prefix_to_string q \<longleftrightarrow> p = q"
  by (cases p; cases q) simp_all

lemma prefix_head: "\<exists>cs. prefix_to_string p = CHR ''B'' # cs \<or> prefix_to_string p = CHR ''W'' # cs \<or>
    prefix_to_string p = CHR ''D'' # cs \<or> prefix_to_string p = CHR ''Q'' # cs"
  by (cases p) simp_all

lemma int_text_head: obtains c cs where "int_text n = c # cs" "c = CHR ''-'' \<or> is_dec_digit c"
proof -
  obtain c cs where "dec_digits (nat \<bar>n\<bar>) = c # cs" "is_dec_digit c" by (rule dec_digits_Cons)
  then show thesis by (cases "n < 0") (auto simp: int_text_def intro: that)
qed

text \<open>Texts of slots are equal only when the slots are.\<close>

lemma memory_text_inject:
  assumes "w \<in> {1, 2, 4, 8}" "w' \<in> {1, 2, 4, 8}"
  shows "location_text (Mem w a) = location_text (Mem w' b) \<longleftrightarrow> w = w' \<and> a = b"
proof
  assume eq: "location_text (Mem w a) = location_text (Mem w' b)"
  have "takeWhile (\<lambda>c. c \<noteq> CHR '' '') (location_text (Mem w a)) = prefix_to_string (prefix_from_size w)" for w a
    by (cases "prefix_from_size w") simp_all
  then have p: "prefix_from_size w = prefix_from_size w'" by (metis eq prefix_texts)
  moreover have "w = w'" using assms p by (auto simp: prefix_from_size_def)
  ultimately show "w = w' \<and> a = b" using eq by simp
qed simp

lemma memory_text_imm: "location_text (Mem w a) \<noteq> location_text (Imm n)"
proof -
  obtain c cs where "int_text n = c # cs" "c = CHR ''-'' \<or> is_dec_digit c" by (rule int_text_head)
  then show ?thesis using prefix_head [of "prefix_from_size w"] by (auto simp: is_dec_digit_iff)
qed

lemma operand_width_cases: "0 < operand_width op \<Longrightarrow> operand_width op \<in> {1, 2, 4, 8}"
  using width_bytes_cases [of "op_value_type op"] by auto

lemma operand_text_eq:
  assumes "frame_sound m" "operand_ok m d" "in_memory d" "operand_ok m a"
  shows "location_text (operand_loc m d) = location_text (operand_loc m a) \<longleftrightarrow> operand_loc m d = operand_loc m a"
proof -
  note w = operand_width_cases [OF operand_formats(4) [OF assms(1,2)]] operand_width_cases [OF operand_formats(4) [OF assms(1,4)]]
  have d: "\<not> is_immediate d" using assms(3) by (cases d) simp_all
  show ?thesis
  proof (cases "is_immediate a")
    case True
    then show ?thesis using d by (simp add: operand_loc_def memory_text_imm del: location_text.simps)
  next
    case False
    then show ?thesis using d memory_text_inject [OF w] by (simp add: operand_loc_def del: location_text.simps)
  qed
qed

lemma is_dec_digit_space: "is_dec_digit c \<Longrightarrow> \<not> c_isspace c" "\<not> c_isspace (CHR ''-'')"
  by (auto simp: c_isspace_def is_dec_digit_iff)

lemma strtoll10_int_text: "strtoll10 (int_text n) = max (- (2 ^ 63)) (min (2 ^ 63 - 1) n)"
proof -
  obtain c cs where d: "dec_digits (nat \<bar>n\<bar>) = c # cs" "is_dec_digit c" by (rule dec_digits_Cons)
  have "\<forall>c \<in> set (c # cs). is_dec_digit c" using dec_digits_digits [of "nat \<bar>n\<bar>"] by (simp only: d(1))
  then have tw: "takeWhile is_dec_digit (c # cs) = c # cs" by (simp add: takeWhile_eq_all_conv)
  have v: "int (dec_value 0 (c # cs)) = \<bar>n\<bar>" using dec_value_dec_digits [of "nat \<bar>n\<bar>"] by (simp only: d(1))
  have c: "c \<noteq> CHR ''-''" "c \<noteq> CHR ''+''" using d(2) by (auto simp: is_dec_digit_iff)
  show ?thesis
  proof (cases "n < 0")
    case True
    have "int_text n = CHR ''-'' # c # cs" using True d(1) by (simp add: int_text_def)
    then show ?thesis using True is_dec_digit_space(2)
      by (simp add: strtoll10_def tw v del: dec_value.simps takeWhile.simps)
  next
    case False
    have "int_text n = c # cs" using False d(1) by (simp add: int_text_def)
    then show ?thesis using False c is_dec_digit_space(1) [OF d(2)]
      by (simp add: strtoll10_def tw v del: dec_value.simps takeWhile.simps)
  qed
qed

lemma large_text:
  assumes "operand_ok m op"
  shows "load_large_immediate op w (location_text (operand_loc m op)) =
    (case large (operand_loc m op) w of (pre, l) \<Rightarrow> (code_text pre, location_text l))"
proof (cases "is_immediate op")
  case True
  then obtain t v where op: "op = SF_IR_OPERAND_TYPE_IMMEDIATE t v" by (cases op) simp_all
  define n where "n = immediate_value v"
  have v: "v = int_text n" using assms by (simp add: op n_def)
  have l: "operand_loc m op = Imm n" by (simp add: op operand_loc_def n_def)
  have "- (2 ^ 31) \<le> strtoll10 v \<and> strtoll10 v \<le> 2 ^ 31 - 1 \<longleftrightarrow> - (2 ^ 31) \<le> n \<and> n \<le> 2 ^ 31 - 1"
    by (auto simp: v strtoll10_int_text)
  moreover have "counter_register 8 = ''rcx''" by (simp add: counter_register_def)
  ultimately show ?thesis unfolding l
    by (auto simp: op load_large_immediate_def Let_def two_text_def)
next
  case False
  then show ?thesis by (simp add: load_large_immediate_def operand_loc_def)
qed

text \<open>The operands of an operation with a destination in the frame.\<close>

definition operands_ok :: "sf_stack_map \<Rightarrow> sf_ir_operation \<Rightarrow> bool" where
  "operands_ok m op \<longleftrightarrow> operand_ok m (io_operand1 op) \<and> in_memory (io_operand1 op) \<and> operand_ok m (io_operand2 op)"

abbreviation "dest_loc m op \<equiv> operand_loc m (io_operand1 op)"
abbreviation "first_loc m op \<equiv> operand_loc m (io_operand2 op)"
abbreviation "second_loc m op \<equiv> operand_loc m (io_operand3 op)"
abbreviation "dest_width op \<equiv> operand_width (io_operand1 op)"
abbreviation "first_width op \<equiv> operand_width (io_operand2 op)"

lemma operands_format:
  assumes "frame_sound m" "operands_ok m op"
  shows "format_operand m (io_operand1 op) = Some (location_text (dest_loc m op))"
    "format_operand m (io_operand2 op) = Some (location_text (first_loc m op))"
    "location_text (dest_loc m op) = location_text (first_loc m op) \<longleftrightarrow> dest_loc m op = first_loc m op"
    "is_imm (first_loc m op) \<longleftrightarrow> is_immediate (io_operand2 op)"
    "dest_width op \<in> {1, 2, 4, 8}" "first_width op \<in> {1, 2, 4, 8}"
  using assms operand_formats [OF assms(1)] operand_text_eq [OF assms(1)] operand_width_cases
  unfolding operands_ok_def by blast+

lemma second_format:
  assumes "frame_sound m" "operand_ok m (io_operand3 op)"
  shows "format_operand m (io_operand3 op) = Some (location_text (second_loc m op))"
    "is_imm (second_loc m op) \<longleftrightarrow> is_immediate (io_operand3 op)" "is_mem (second_loc m op) \<longleftrightarrow> in_memory (io_operand3 op)"
  using operand_formats [OF assms] by simp_all

lemma accumulator_text: "accumulator w = location_text (Reg RAX w)"
  by simp

lemma emit_binary_text:
  assumes "frame_sound m" "operands_ok m op" "operand_ok m (io_operand3 op)"
  shows "emit_binary (alu_text f) m op =
    Some (code_text (binary_code f (dest_width op) (dest_loc m op) (first_loc m op) (second_loc m op)))"
  using operands_format [OF assms(1,2)] second_format [OF assms(1,3)] large_text [OF assms(3), of "dest_width op"]
  by (cases "large (second_loc m op) (dest_width op)")
     (simp add: emit_binary_def binary_code_def Let_def two_text_def one_text_def)

lemma emit_mult_text:
  assumes "frame_sound m" "operands_ok m op" "operand_ok m (io_operand3 op)"
  shows "emit_mult m op = Some (code_text (mult_code (sf_type_value_is_signed (op_value_type (io_operand1 op)))
    (dest_width op) (dest_loc m op) (first_loc m op) (second_loc m op)))"
  using operands_format [OF assms(1,2)] second_format [OF assms(1,3)] large_text [OF assms(3), of "dest_width op"]
  by (cases "large (second_loc m op) (dest_width op)")
     (simp add: emit_mult_def mult_code_def Let_def two_text_def one_text_def register_from_size_def counter_register_def)

lemma extension_text:
  "w \<in> {1, 2, 4, 8} \<Longrightarrow> emit_dividend_extension w is_signed = code_text (extension_code w is_signed)"
  by (auto simp: emit_dividend_extension_def extension_code_def two_text_def sign_text_def)

lemma emit_div_text:
  assumes "frame_sound m" "operands_ok m op" "operand_ok m (io_operand3 op)"
  shows "emit_div m op = Some (code_text (div_code (sf_type_value_is_signed (op_value_type (io_operand1 op)))
    (dest_width op) (dest_loc m op) (first_loc m op) (second_loc m op)))"
  using operands_format [OF assms(1,2)] second_format [OF assms(1,3)] extension_text [of "dest_width op"]
  by (simp add: emit_div_def div_code_def Let_def two_text_def one_text_def)

lemma emit_neg_text:
  assumes "frame_sound m" "operands_ok m op"
  shows "emit_neg m op = Some (code_text (unary_code I_neg (dest_width op) (dest_loc m op) (first_loc m op)))"
  using operands_format [OF assms]
  by (simp add: emit_neg_def unary_code_def Let_def two_text_def one_text_def)

lemma emit_not_text:
  assumes "frame_sound m" "operands_ok m op"
  shows "emit_not m op = Some (code_text (unary_code
    (if io_opcode op = SF_IR_OPCODE_BITWISE_NOT then I_not else (\<lambda>l. I_alu Alu_xor l (Imm 1)))
    (dest_width op) (dest_loc m op) (first_loc m op)))"
proof -
  have one: "int_text 1 = ''1''" by (simp add: int_text_def dec_digits.simps)
  show ?thesis using operands_format [OF assms]
    by (simp add: emit_not_def emit_not_on_def unary_code_def Let_def two_text_def one_text_def one)
qed

lemma emit_shift_text:
  assumes "frame_sound m" "operands_ok m op" "operand_ok m (io_operand3 op)"
  shows "emit_shift (shift_text f) m op = Some (code_text (shift_code f (dest_width op) (operand_width (io_operand3 op))
    (dest_loc m op) (first_loc m op) (second_loc m op)))"
  using operands_format [OF assms(1,2)] second_format [OF assms(1,3)]
  by (simp add: emit_shift_def shift_code_def Let_def two_text_def one_text_def counter_register_def)

lemma emit_convert_text:
  assumes "frame_sound m" "operands_ok m op"
  shows "emit_convert op (location_text (first_loc m op)) (location_text (dest_loc m op)) =
    code_text (convert_code (sf_type_value_is_signed (op_value_type (io_operand2 op))) (first_width op) (dest_width op)
      (dest_loc m op) (first_loc m op))"
proof -
  have w: "location_width (first_loc m op) = first_width op" if "\<not> is_immediate (io_operand2 op)"
    using that by (simp add: operand_loc_def)
  show ?thesis using operands_format(4) [OF assms]
    by (cases "is_immediate (io_operand2 op)")
       (auto simp: emit_convert_def convert_code_def Let_def two_text_def extend_text_def w register_from_size_def)
qed

lemma emit_assign_text:
  assumes "frame_sound m" "operands_ok m op"
  shows "emit_assign m op = Some (code_text (if first_loc m op = dest_loc m op then [] else
    convert_code (sf_type_value_is_signed (op_value_type (io_operand2 op))) (first_width op) (dest_width op)
      (dest_loc m op) (first_loc m op)))"
proof -
  have "location_text (first_loc m op) = location_text (dest_loc m op) \<longleftrightarrow> first_loc m op = dest_loc m op"
    by (metis operands_format(3) [OF assms])
  then show ?thesis
    by (simp only: emit_assign_def operands_format(1,2) [OF assms] emit_convert_text [OF assms] Option.bind.simps)
       (simp add: code_text_simps(1) split: if_split)
qed

lemma emit_cast_text:
  assumes "frame_sound m" "operands_ok m op"
  shows "emit_cast m op = Some (code_text
    (convert_code (sf_type_value_is_signed (op_value_type (io_operand2 op))) (first_width op) (dest_width op)
      (dest_loc m op) (first_loc m op)))"
  using operands_format(1-3) [OF assms] emit_convert_text [OF assms] by (simp add: emit_cast_def)

fun relation :: "sf_ir_opcode \<Rightarrow> bool \<Rightarrow> condition option" where
  "relation SF_IR_OPCODE_RELATIONAL_EQUAL is_signed = Some Equal"
| "relation SF_IR_OPCODE_RELATIONAL_NOT_EQUAL is_signed = Some Not_equal"
| "relation SF_IR_OPCODE_RELATIONAL_LESS is_signed = Some (if is_signed then Less else Below)"
| "relation SF_IR_OPCODE_RELATIONAL_LESS_EQUAL is_signed = Some (if is_signed then Less_equal else Below_equal)"
| "relation SF_IR_OPCODE_RELATIONAL_GREATER is_signed = Some (if is_signed then Greater else Above)"
| "relation SF_IR_OPCODE_RELATIONAL_GREATER_EQUAL is_signed = Some (if is_signed then Greater_equal else Above_equal)"
| "relation _ is_signed = None"

lemma set_instruction_text: "set_instruction opcode is_signed = map_option condition_text (relation opcode is_signed)"
  by (cases opcode) simp_all

lemma emit_relational_text:
  assumes "frame_sound m" "operands_ok m op" "operand_ok m (io_operand3 op)"
    and "relation (io_opcode op) (sf_type_value_is_signed (op_value_type (io_operand2 op))) = Some c"
  shows "emit_relational m op = Some (code_text (relational_code c (first_width op)
    (dest_loc m op) (first_loc m op) (second_loc m op)))"
  using operands_format [OF assms(1,2)] second_format [OF assms(1,3)] large_text [OF assms(3), of "first_width op"]
  by (cases "large (second_loc m op) (first_width op)")
     (simp add: emit_relational_def relational_code_def Let_def two_text_def one_text_def set_instruction_text assms(4)
        register_from_size_def)

end
