(* ===== verification/Asm_Exec.thy ===== *)
theory Asm_Exec
  imports Asm_Code
begin

text \<open>
  What the instructions of an operation leave in memory: the code that \<open>Asm_Code\<close> gives for each kind of
  operation stores one value in the slot of its destination, an expression of what its operands hold.
\<close>

section \<open>Bits\<close>

lemma store_bits: "take_bit (bits n) v = take_bit (bits n) v' \<Longrightarrow> store n a v m = store n a v' m"
proof (induction n arbitrary: a v v' m)
  case (Suc n)
  have "take_bit 8 v = take_bit 8 (take_bit (bits (Suc n)) v)" for v :: int by (simp add: min_def)
  then have low: "take_bit 8 v = take_bit 8 v'" using Suc.prems by metis
  have "take_bit (bits n) (drop_bit 8 v) = drop_bit 8 (take_bit (bits (Suc n)) v)" for v :: int
    by (simp add: drop_bit_take_bit)
  then have "take_bit (bits n) (drop_bit 8 v) = take_bit (bits n) (drop_bit 8 v')" using Suc.prems by metis
  from Suc.IH [OF this] show ?case by (simp only: store.simps low)
qed simp

lemma take_bit_cong_add: "take_bit n a = take_bit n a' \<Longrightarrow> take_bit n b = take_bit n b' \<Longrightarrow> take_bit n (a + b) = take_bit n (a' + b' :: int)"
  by (metis take_bit_add)

lemma take_bit_cong_diff: "take_bit n a = take_bit n a' \<Longrightarrow> take_bit n b = take_bit n b' \<Longrightarrow> take_bit n (a - b) = take_bit n (a' - b' :: int)"
  by (metis take_bit_diff)

lemma take_bit_cong_mult: "take_bit n a = take_bit n a' \<Longrightarrow> take_bit n b = take_bit n b' \<Longrightarrow> take_bit n (a * b) = take_bit n (a' * b' :: int)"
  by (metis take_bit_mult)

lemma alu_cong:
  assumes "take_bit n a = take_bit n a'" "take_bit n b = take_bit n b'"
  shows "take_bit n (alu f a b) = take_bit n (alu f a' b')"
proof (cases f)
  case Alu_add
  show ?thesis using take_bit_cong_add [OF assms] by (simp only: Alu_add alu.simps)
next
  case Alu_sub
  show ?thesis using take_bit_cong_diff [OF assms] by (simp only: Alu_sub alu.simps)
qed (simp_all only: alu.simps take_bit_and take_bit_or take_bit_xor assms)

lemma take_bit_less: "take_bit n a = take_bit n b \<Longrightarrow> k \<le> n \<Longrightarrow> take_bit k a = take_bit k (b :: int)"
proof -
  assume a: "take_bit n a = take_bit n b" and k: "k \<le> n"
  have "take_bit k (take_bit n c) = take_bit k c" for c :: int using k by (simp add: min_def)
  then show ?thesis by (metis a)
qed

lemma signed_bits_cong: "0 < w \<Longrightarrow> take_bit (bits w) a = take_bit (bits w) b \<Longrightarrow> signed_bits w a = signed_bits w b"
  by (simp add: signed_take_bit_eq_iff_take_bit_eq)

lemma take_concat_bit [simp]: "k \<le> n \<Longrightarrow> take_bit k (concat_bit n a b) = take_bit k a"
  by (simp add: take_bit_concat_bit_eq min_def)

section \<open>Code that stores one value\<close>

fun slot_or_imm :: "nat \<Rightarrow> location \<Rightarrow> bool" where
  "slot_or_imm w (Mem w' a) \<longleftrightarrow> w' = w"
| "slot_or_imm w (Imm n) \<longleftrightarrow> True"
| "slot_or_imm w (Reg r k) \<longleftrightarrow> False"

definition stores :: "nat \<Rightarrow> int \<Rightarrow> int \<Rightarrow> asm_state \<Rightarrow> instruction list \<Rightarrow> bool" where
  "stores w a v s code \<longleftrightarrow> (\<exists>s'. exec_instructions code s = Some s' \<and> as_mem s' = store w a v (as_mem s))"

lemma stores_bits:
  "stores w a v s code \<Longrightarrow> take_bit (bits w) v = take_bit (bits w) v' \<Longrightarrow> stores w a v' s code"
  unfolding stores_def by (metis store_bits)

lemma stores_append:
  assumes "exec_instructions pre s = Some s1" "as_mem s1 = as_mem s" "stores w a v s1 code"
  shows "stores w a v s (pre @ code)"
  using assms unfolding stores_def by auto

lemma stores_step:
  assumes "exec_instruction i s = Some s1" "as_mem s1 = as_mem s" "stores w a v s1 code"
  shows "stores w a v s (i # code)"
  using assms unfolding stores_def by auto

lemma stores_mov: "stores w a (read_loc (Reg RAX w) s) s [I_mov (Mem w a) (Reg RAX w)]"
  by (simp add: stores_def two_ok_def)

text \<open>The first instruction loads an operand.\<close>

lemma mov_operand:
  assumes "slot_or_imm w a"
  shows "exec_instruction (I_mov (Reg r w) a) s = Some (write_loc (Reg r w) (read_loc a s) s)"
  using assms by (cases a) (simp_all add: two_ok_def)

lemma read_mem_eq: "slot_or_imm w b \<Longrightarrow> as_mem s' = as_mem s \<Longrightarrow> read_loc b s' = read_loc b s"
  by (cases b) simp_all

text \<open>An immediate that 32 bits do not hold goes through a register.\<close>

lemma int32_self: "- (2 ^ 31) \<le> n \<Longrightarrow> n \<le> 2 ^ 31 - 1 \<Longrightarrow> signed_take_bit 31 n = (n :: int)"
  by (rule signed_take_bit_int_eq_self) simp_all

lemma large_exec:
  assumes "slot_or_imm w b" "w \<in> {1, 2, 4, 8}" "large b w = (pre, b')"
  obtains s1 where "exec_instructions pre s = Some s1" "as_mem s1 = as_mem s" "two_ok (Reg RAX w) b'"
    "is_imm b \<Longrightarrow> two_ok (Mem w d) b'"
    "\<And>s2. as_mem s2 = as_mem s \<Longrightarrow> as_regs s2 RCX = as_regs s1 RCX \<Longrightarrow>
       take_bit (bits w) (source w b' s2) = take_bit (bits w) (read_loc b s)"
proof (cases b)
  case (Imm n)
  show thesis
  proof (cases "w < 8 \<or> - (2 ^ 31) \<le> n \<and> n \<le> 2 ^ 31 - 1")
    case True
    then have l: "pre = []" "b' = Imm n" using assms(3) by (simp_all add: Imm)
    show thesis
      by (rule that [of s]) (use True int32_self in \<open>auto simp: l Imm two_ok_def\<close>)
  next
    case False
    then have l: "w = 8" "pre = [I_mov (Reg RCX 8) (Imm n)]" "b' = Reg RCX 8" using assms(2,3) by (auto simp: Imm)
    show thesis
      by (rule that [of "write_loc (Reg RCX 8) n s"]) (simp_all add: l Imm two_ok_def)
  qed
next
  case (Mem w' a)
  then have l: "pre = []" "b' = b" "w' = w" using assms by simp_all
  show thesis by (rule that [of s]) (simp_all add: l Mem two_ok_def)
qed (use assms(1) in simp)

text \<open>The first operand in the accumulator, code on it and the second operand, the result to the destination.\<close>

lemma stores_two:
  assumes "slot_or_imm w a" "slot_or_imm w b" "w \<in> {1, 2, 4, 8}" "large b w = (pre, b')"
    and code: "\<And>s. two_ok (Reg RAX w) b' \<Longrightarrow> \<exists>s'. exec_instructions code s = Some s' \<and> as_mem s' = as_mem s \<and>
      take_bit (bits w') (read_loc (Reg RAX w') s') =
      take_bit (bits w') (g (read_loc (Reg RAX w) s) (take_bit (bits w) (source w b' s)))"
  shows "stores w' d (g (take_bit (bits w) (read_loc a s)) (take_bit (bits w) (read_loc b s))) s
    (pre @ [I_mov (Reg RAX w) a] @ code @ [I_mov (Mem w' d) (Reg RAX w')])"
proof -
  obtain s1 where s1: "exec_instructions pre s = Some s1" "as_mem s1 = as_mem s" "two_ok (Reg RAX w) b'"
    "\<And>s2. as_mem s2 = as_mem s \<Longrightarrow> as_regs s2 RCX = as_regs s1 RCX \<Longrightarrow>
       take_bit (bits w) (source w b' s2) = take_bit (bits w) (read_loc b s)"
    using large_exec [OF assms(2-4)] by blast
  define s2 where "s2 = write_loc (Reg RAX w) (read_loc a s1) s1"
  obtain s3 where s3: "exec_instructions code s2 = Some s3" "as_mem s3 = as_mem s2"
    "take_bit (bits w') (read_loc (Reg RAX w') s3) =
      take_bit (bits w') (g (read_loc (Reg RAX w) s2) (take_bit (bits w) (source w b' s2)))"
    using code [OF s1(3), of s2] by blast
  have e: "exec_instruction (I_mov (Reg RAX w) a) s1 = Some s2" using mov_operand [OF assms(1)] by (simp add: s2_def)
  have m: "as_mem s2 = as_mem s1" by (simp add: s2_def)
  have a: "read_loc (Reg RAX w) s2 = take_bit (bits w) (read_loc a s)"
    using read_mem_eq [OF assms(1) s1(2)] by (simp add: s2_def del: read_loc.simps write_loc.simps)
  have b: "take_bit (bits w) (source w b' s2) = take_bit (bits w) (read_loc b s)"
    by (rule s1(4)) (simp_all add: m s1(2), simp add: s2_def)
  have "exec_instructions (pre @ [I_mov (Reg RAX w) a] @ code) s = Some s3" using s1(1) e s3(1) by simp
  moreover have "as_mem s3 = as_mem s" using s3(2) m s1(2) by simp
  moreover have "stores w' d (g (take_bit (bits w) (read_loc a s)) (take_bit (bits w) (read_loc b s))) s3 [I_mov (Mem w' d) (Reg RAX w')]"
    by (rule stores_bits [OF stores_mov]) (simp only: s3(3) a b)
  ultimately show ?thesis using stores_append [of "pre @ [I_mov (Reg RAX w) a] @ code"] by simp
qed

lemma binary_stores:
  assumes "slot_or_imm w a" "slot_or_imm w b" "w \<in> {1, 2, 4, 8}"
  shows "stores w d (alu f (read_loc a s) (read_loc b s)) s (binary_code f w (Mem w d) a b)"
proof -
  obtain pre b' where l: "large b w = (pre, b')" by fastforce
  show ?thesis
  proof (cases "Mem w d = a \<and> \<not> is_mem b")
    case True
    then have imm: "is_imm b" using assms(2) by (cases b) simp_all
    obtain s1 where s1: "exec_instructions pre s = Some s1" "as_mem s1 = as_mem s" "two_ok (Mem w d) b'"
      "take_bit (bits w) (source w b' s1) = take_bit (bits w) (read_loc b s)"
      using large_exec [OF assms(2,3) l] imm by metis
    have "stores w d (alu f (read_loc a s) (source w b' s1)) s1 [I_alu f (Mem w d) b']"
      using s1(2,3) True by (auto simp: stores_def forget_flags_def)
    moreover have "take_bit (bits w) (alu f (read_loc a s) (source w b' s1)) = take_bit (bits w) (alu f (read_loc a s) (read_loc b s))"
      by (rule alu_cong) (simp_all add: s1(4))
    ultimately have "stores w d (alu f (read_loc a s) (read_loc b s)) s1 [I_alu f (Mem w d) b']" by (rule stores_bits)
    from stores_append [OF s1(1,2) this] True show ?thesis by (simp add: binary_code_def l)
  next
    case False
    have "stores w d (alu f (take_bit (bits w) (read_loc a s)) (take_bit (bits w) (read_loc b s))) s
        (pre @ [I_mov (Reg RAX w) a] @ [I_alu f (Reg RAX w) b'] @ [I_mov (Mem w d) (Reg RAX w)])"
    proof (rule stores_two [OF assms l])
      fix s
      assume ok: "two_ok (Reg RAX w) b'"
      have "take_bit (bits w) (alu f (read_loc (Reg RAX w) s) (source w b' s)) =
          take_bit (bits w) (alu f (read_loc (Reg RAX w) s) (take_bit (bits w) (source w b' s)))"
        by (rule alu_cong) simp_all
      then show "\<exists>s'. exec_instructions [I_alu f (Reg RAX w) b'] s = Some s' \<and> as_mem s' = as_mem s \<and>
          take_bit (bits w) (read_loc (Reg RAX w) s') =
          take_bit (bits w) (alu f (read_loc (Reg RAX w) s) (take_bit (bits w) (source w b' s)))"
        using ok by (simp add: forget_flags_def)
    qed
    then have "stores w d (alu f (read_loc a s) (read_loc b s)) s
        (pre @ [I_mov (Reg RAX w) a] @ [I_alu f (Reg RAX w) b'] @ [I_mov (Mem w d) (Reg RAX w)])"
      by (rule stores_bits) (rule alu_cong, simp_all)
    then show ?thesis using False by (auto simp: binary_code_def l)
  qed
qed

lemma relational_stores:
  assumes "slot_or_imm w a" "slot_or_imm w b" "w \<in> {1, 2, 4, 8}"
  shows "stores 1 d (of_bool (holds c w (take_bit (bits w) (read_loc a s)) (take_bit (bits w) (read_loc b s)))) s
    (relational_code c w (Mem 1 d) a b)"
proof -
  obtain pre b' where l: "large b w = (pre, b')" by fastforce
  have "stores 1 d (of_bool (holds c w (take_bit (bits w) (read_loc a s)) (take_bit (bits w) (read_loc b s)))) s
      (pre @ [I_mov (Reg RAX w) a] @ [I_cmp (Reg RAX w) b', I_set c] @ [I_mov (Mem 1 d) (Reg RAX 1)])"
    by (rule stores_two [OF assms l, where g = "\<lambda>x y. of_bool (holds c w x y)"]) simp
  then show ?thesis by (simp add: relational_code_def l)
qed

text \<open>The operand in the accumulator, code that changes registers only, and the accumulator to the destination.\<close>

lemma stores_through:
  assumes "slot_or_imm w a"
    "\<exists>s2. exec_instructions code (write_loc (Reg RAX w) (read_loc a s) s) = Some s2 \<and> as_mem s2 = as_mem s \<and>
      take_bit (bits w') (read_loc (Reg RAX w') s2) = take_bit (bits w') v"
  shows "stores w' d v s ([I_mov (Reg RAX w) a] @ code @ [I_mov (Mem w' d) (Reg RAX w')])"
proof -
  obtain s2 where s2: "exec_instructions code (write_loc (Reg RAX w) (read_loc a s) s) = Some s2" "as_mem s2 = as_mem s"
    "take_bit (bits w') (read_loc (Reg RAX w') s2) = take_bit (bits w') v"
    using assms(2) by blast
  have "exec_instruction (I_mov (Reg RAX w) a) s = Some (write_loc (Reg RAX w) (read_loc a s) s)" by (rule mov_operand [OF assms(1)])
  then have pre: "exec_instructions ([I_mov (Reg RAX w) a] @ code) s = Some s2" using s2(1) by (simp del: write_loc.simps exec_instruction.simps)
  have "stores w' d v s2 [I_mov (Mem w' d) (Reg RAX w')]" by (rule stores_bits [OF stores_mov s2(3)])
  from stores_append [OF pre s2(2) this] show ?thesis by simp
qed

lemma neg_stores: "slot_or_imm w a \<Longrightarrow> stores w d (- read_loc a s) s (unary_code I_neg w (Mem w d) a)"
proof -
  assume a: "slot_or_imm w a"
  show ?thesis
  proof (cases "Mem w d = a")
    case True
    then show ?thesis by (auto simp: unary_code_def stores_def forget_flags_def)
  next
    case False
    have "stores w d (- read_loc a s) s ([I_mov (Reg RAX w) a] @ [I_neg (Reg RAX w)] @ [I_mov (Mem w d) (Reg RAX w)])"
      by (rule stores_through [OF a]) (simp add: forget_flags_def take_bit_minus)
    then show ?thesis using False by (simp add: unary_code_def)
  qed
qed

lemma not_stores: "slot_or_imm w a \<Longrightarrow> stores w d (NOT (read_loc a s)) s (unary_code I_not w (Mem w d) a)"
proof -
  assume a: "slot_or_imm w a"
  show ?thesis
  proof (cases "Mem w d = a")
    case True
    then show ?thesis by (auto simp: unary_code_def stores_def)
  next
    case False
    have "stores w d (NOT (read_loc a s)) s ([I_mov (Reg RAX w) a] @ [I_not (Reg RAX w)] @ [I_mov (Mem w d) (Reg RAX w)])"
      by (rule stores_through [OF a]) (simp add: take_bit_not_take_bit)
    then show ?thesis using False by (simp add: unary_code_def)
  qed
qed

lemma xor_one_stores:
  "slot_or_imm w a \<Longrightarrow> stores w d (read_loc a s XOR 1) s (unary_code (\<lambda>l. I_alu Alu_xor l (Imm 1)) w (Mem w d) a)"
proof -
  assume a: "slot_or_imm w a"
  have one: "signed_take_bit 31 (1 :: int) = 1" by simp
  show ?thesis
  proof (cases "Mem w d = a")
    case True
    then show ?thesis by (auto simp: unary_code_def stores_def forget_flags_def two_ok_def)
  next
    case False
    have "stores w d (read_loc a s XOR 1) s ([I_mov (Reg RAX w) a] @ [I_alu Alu_xor (Reg RAX w) (Imm 1)] @ [I_mov (Mem w d) (Reg RAX w)])"
      by (rule stores_through [OF a]) (auto simp: forget_flags_def two_ok_def)
    then show ?thesis using False by (simp add: unary_code_def)
  qed
qed

lemma shift_count_small: "0 \<le> c \<Longrightarrow> c < int (bits w) \<Longrightarrow> w \<in> {1, 2, 4, 8} \<Longrightarrow> shift_count w c = nat c"
  by (auto simp: shift_count_def)

lemma shift_stores:
  assumes "slot_or_imm w a" "slot_or_imm wc c" "w \<in> {1, 2, 4, 8}" "wc \<in> {1, 2, 4, 8}"
    "0 \<le> read_loc c s" "read_loc c s < int (bits w)"
  shows "stores w d (shift f w (nat (read_loc c s)) (take_bit (bits w) (read_loc a s))) s (shift_code f w wc (Mem w d) a c)"
proof (cases c)
  case (Imm n)
  have "stores w d (shift f w (nat n) (take_bit (bits w) (read_loc a s))) s
      ([I_mov (Reg RAX w) a] @ [I_shift f (Reg RAX w) c] @ [I_mov (Mem w d) (Reg RAX w)])"
    by (rule stores_through [OF assms(1)])
       (use shift_count_small [OF assms(5,6,3)] in \<open>auto simp: Imm forget_flags_def\<close>)
  then show ?thesis by (simp add: shift_code_def Imm)
next
  case (Mem k b)
  have k: "k = wc" using assms(2) Mem by simp
  let ?n = "read_loc c s"
  have "?n < 2 ^ 8" using assms(3,6) by auto
  then have cl: "take_bit 8 ?n = ?n" using assms(5) by (simp add: take_bit_int_eq_self_iff)
  have "stores w d (shift f w (nat ?n) (take_bit (bits w) (read_loc a s))) s
      ([I_mov (Reg RAX w) a] @ [I_mov (Reg RCX wc) c, I_shift f (Reg RAX w) (Reg RCX 1)] @ [I_mov (Mem w d) (Reg RAX w)])"
    by (rule stores_through [OF assms(1)])
       (use shift_count_small [OF assms(5,6,3)] assms(3,4) cl in \<open>auto simp: Mem k forget_flags_def two_ok_def min_def take_bit_concat_bit_eq\<close>)
  then show ?thesis by (simp add: shift_code_def Mem)
qed (use assms(2) in simp)

lemma convert_stores:
  assumes "slot_or_imm w1 a" "w1 \<in> {1, 2, 4, 8}" "w2 \<in> {1, 2, 4, 8}"
  shows "stores w2 d (if is_imm a then read_loc a s else if is_signed then signed_bits w1 (read_loc a s) else read_loc a s) s
    (convert_code is_signed w1 w2 (Mem w2 d) a)"
proof -
  let ?v = "if is_imm a then read_loc a s else if is_signed then signed_bits w1 (read_loc a s) else read_loc a s"
  have sg: "take_bit (bits w) (signed_bits w1 x) = take_bit (bits w) x" if "w \<le> w1" for w x
    using that assms(2) by (intro take_bit_signed_take_bit) auto
  consider "is_imm a \<or> w1 = w2" | "\<not> is_imm a" "w1 < w2" | "\<not> is_imm a" "w2 < w1" by linarith
  then show ?thesis
  proof cases
    case 1
    have "stores w2 d ?v s ([I_mov (Reg RAX w2) a] @ [] @ [I_mov (Mem w2 d) (Reg RAX w2)])"
      by (rule stores_through) (use 1 assms(1) sg [of w1] in \<open>cases a; auto\<close>)+
    then show ?thesis using 1 by (auto simp: convert_code_def)
  next
    case 2
    then obtain k where a: "a = Mem w1 k" using assms(1) by (cases a) auto
    have wide: "take_bit (bits w2) (load w1 k (as_mem s)) = load w1 k (as_mem s)"
      using load_bits [of w1 k "as_mem s"] 2(2) by (metis less_imp_le_nat mult_le_mono2 take_bit_take_bit min.absorb2)
    show ?thesis
    proof (cases "is_signed \<or> w1 \<noteq> 4")
      case True
      define s1 where "s1 = write_loc (Reg RAX w2) ?v s"
      have "exec_instruction (I_extend is_signed (Reg RAX w2) a) s = Some s1"
        using True 2 by (auto simp: a s1_def)
      moreover have "as_mem s1 = as_mem s" by (simp add: s1_def)
      moreover have "stores w2 d ?v s1 [I_mov (Mem w2 d) (Reg RAX w2)]"
        by (rule stores_bits [OF stores_mov]) (simp add: s1_def del: read_loc.simps write_loc.simps)
      ultimately show ?thesis using stores_step True 2 by (simp add: convert_code_def)
    next
      case False
      then have w: "w1 = 4" "w2 = 8" using 2(2) assms(3) by auto
      have "stores w2 d ?v s ([I_mov (Reg RAX 4) a] @ [] @ [I_mov (Mem w2 d) (Reg RAX w2)])"
        by (rule stores_through) (use False 2 wide load_bits [of 4 k "as_mem s"] in \<open>simp_all add: a w\<close>)
      then show ?thesis using False 2 by (simp add: convert_code_def)
    qed
  next
    case 3
    have "stores w2 d ?v s ([I_mov (Reg RAX w1) a] @ [] @ [I_mov (Mem w2 d) (Reg RAX w2)])"
      by (rule stores_through [OF assms(1)]) (use 3 sg [of w2] in \<open>auto simp: min_def\<close>)
    then show ?thesis using 3 by (simp add: convert_code_def)
  qed
qed

lemma mult_stores:
  assumes "slot_or_imm w a" "slot_or_imm w b" "w \<in> {1, 2, 4, 8}"
  shows "stores w d (read_loc a s * read_loc b s) s (mult_code is_signed w (Mem w d) a b)"
proof (cases "w = 1")
  case True
  have sg: "take_bit 8 (signed_bits 1 x * signed_bits 1 y) = take_bit 8 (x * y)" for x y
    by (rule take_bit_cong_mult) (simp_all add: take_bit_signed_take_bit)
  have product: "take_bit 8 (take_bit 8 x * take_bit 8 y) = take_bit 8 (x * y)" for x y :: int
    by (rule take_bit_cong_mult) simp_all
  let ?code = "if is_imm b then [I_mov (Reg RCX 1) b, I_mul is_signed (Reg RCX 1)] else [I_mul is_signed b]"
  have "stores 1 d (read_loc a s * read_loc b s) s ([I_mov (Reg RAX 1) a] @ ?code @ [I_mov (Mem 1 d) (Reg RAX 1)])"
  proof (rule stores_through)
    show "slot_or_imm 1 a" using assms(1) True by simp
    have b: "location_width b = 1" if "\<not> is_imm b" using assms(2) that True by (cases b) simp_all
    have read: "read_loc b (write_loc (Reg RAX 1) v s) = read_loc b s" for v using assms(2) by (cases b) simp_all
    show "\<exists>s2. exec_instructions ?code (write_loc (Reg RAX 1) (read_loc a s) s) = Some s2 \<and> as_mem s2 = as_mem s \<and>
        take_bit (bits 1) (read_loc (Reg RAX 1) s2) = take_bit (bits 1) (read_loc a s * read_loc b s)"
    proof (cases "is_imm b")
      case True
      then obtain n where "b = Imm n" by (cases b) simp_all
      then show ?thesis by (simp add: two_ok_def Let_def forget_flags_def sg [simplified] product)
    next
      case False
      have bits: "take_bit 8 (take_bit 8 x * y) = take_bit 8 (x * y)" for x y :: int
        by (rule take_bit_cong_mult) simp_all
      have "signed_take_bit 7 (take_bit 8 x) = signed_take_bit 7 x" for x :: int by (simp add: signed_take_bit_take_bit)
      then show ?thesis
        using False b read [of "read_loc a s"]
        by (simp add: Let_def forget_flags_def sg [simplified] bits del: write_loc.simps read_loc.simps) (simp add: sg [simplified] bits)
    qed
  qed
  then show ?thesis using True by (simp add: mult_code_def)
next
  case False
  obtain pre b' where l: "large b w = (pre, b')" by fastforce
  have "stores w d (take_bit (bits w) (read_loc a s) * take_bit (bits w) (read_loc b s)) s
      (pre @ [I_mov (Reg RAX w) a] @ [I_imul (Reg RAX w) b'] @ [I_mov (Mem w d) (Reg RAX w)])"
  proof (rule stores_two [OF assms l, where g = "\<lambda>x y. x * y"])
    fix s
    assume ok: "two_ok (Reg RAX w) b'"
    have "take_bit (bits w) (read_loc (Reg RAX w) s * source w b' s) =
        take_bit (bits w) (read_loc (Reg RAX w) s * take_bit (bits w) (source w b' s))"
      by (rule take_bit_cong_mult) simp_all
    then show "\<exists>s'. exec_instructions [I_imul (Reg RAX w) b'] s = Some s' \<and> as_mem s' = as_mem s \<and>
        take_bit (bits w) (read_loc (Reg RAX w) s') =
        take_bit (bits w) (read_loc (Reg RAX w) s * take_bit (bits w) (source w b' s))"
      using ok False assms(3) by (auto simp: forget_flags_def)
  qed
  then have "stores w d (read_loc a s * read_loc b s) s
      (pre @ [I_mov (Reg RAX w) a] @ [I_imul (Reg RAX w) b'] @ [I_mov (Mem w d) (Reg RAX w)])"
    by (rule stores_bits) (rule take_bit_cong_mult, simp_all)
  then show ?thesis using False by (simp add: mult_code_def l)
qed

section \<open>Division\<close>

text \<open>The value that the type of an operation gives to bits.\<close>

definition typed_bits :: "bool \<Rightarrow> nat \<Rightarrow> int \<Rightarrow> int" where
  "typed_bits is_signed w v = (if is_signed then signed_bits w v else take_bit (bits w) v)"

lemma typed_bits_cong: "0 < w \<Longrightarrow> take_bit (bits w) a = take_bit (bits w) b \<Longrightarrow> typed_bits sg w a = typed_bits sg w b"
  using signed_bits_cong [of w a b] by (simp add: typed_bits_def)

lemma take_typed_bits [simp]: "0 < w \<Longrightarrow> take_bit (bits w) (typed_bits sg w v) = take_bit (bits w) v"
  by (simp add: typed_bits_def take_bit_signed_take_bit)

lemma typed_bits_take:
  "0 < w \<Longrightarrow> (if sg then signed_bits w (take_bit (bits w) v) else take_bit (bits w) v) = typed_bits sg w v"
proof -
  assume "0 < w"
  then have "\<not> bits w \<le> bits w - 1" by simp
  then show ?thesis by (simp only: typed_bits_def signed_take_bit_take_bit if_False)
qed

text \<open>The upper half is the sign of the lower one.\<close>

lemma sign_extension:
  assumes "0 < n"
  shows "signed_take_bit (2 * n - 1) (concat_bit n a (take_bit n (if signed_take_bit (n - 1) a < 0 then - 1 else 0))) =
    signed_take_bit (n - 1) (a :: int)"
proof (rule bit_eqI)
  fix i
  have sign: "signed_take_bit (n - 1) a < 0 \<longleftrightarrow> bit a (n - 1)" by (rule signed_take_bit_negative_iff)
  have hi: "bit (concat_bit n a (take_bit n (if signed_take_bit (n - 1) a < 0 then - 1 else 0))) j \<longleftrightarrow>
      (if j < n then bit a j else j < 2 * n \<and> bit a (n - 1))" for j
    by (auto simp: bit_concat_bit_iff sign bit_take_bit_iff)
  show "bit (signed_take_bit (2 * n - 1) (concat_bit n a (take_bit n (if signed_take_bit (n - 1) a < 0 then - 1 else 0)))) i \<longleftrightarrow>
      bit (signed_take_bit (n - 1) a) i"
  proof (cases "i < n")
    case True
    then have m: "min (2 * n - 1) i = i" "min (n - 1) i = i" using assms by auto
    then show ?thesis using True unfolding bit_signed_take_bit_iff hi m by simp
  next
    case False
    define j where "j = min (2 * n - 1) i"
    have m: "\<not> j < n" "j < 2 * n" "min (n - 1) i = n - 1" using False assms by (auto simp: j_def)
    then show ?thesis unfolding bit_signed_take_bit_iff hi j_def [symmetric] by simp
  qed
qed

lemma extension_exec:
  assumes "w \<in> {1, 2, 4, 8}"
  obtains s' where "exec_instructions (extension_code w is_signed) s = Some s'" "as_mem s' = as_mem s"
    "dividend is_signed w s' = typed_bits is_signed w (read_loc (Reg RAX w) s)"
    "\<And>v k. dividend is_signed w (write_loc (Reg RCX k) v s') = dividend is_signed w s'"
proof -
  have other: "dividend is_signed w (write_loc (Reg RCX k) v s') = dividend is_signed w s'" for v k s'
    by (simp add: dividend_def)
  show thesis
  proof (cases is_signed)
    case True
    show thesis
    proof (cases "w = 1")
      case one: True
      define s' where "s' = write_loc (Reg RAX 2) (signed_bits 1 (read_loc (Reg RAX 1) s)) s"
      have "dividend is_signed w s' = typed_bits is_signed w (read_loc (Reg RAX w) s)"
        by (simp add: dividend_def one True s'_def typed_bits_def signed_take_bit_take_bit signed_take_bit_signed_take_bit)
      from that [OF _ _ this other] show thesis by (simp add: extension_code_def True one s'_def)
    next
      case False
      define r where "r = read_loc (Reg RAX w) s"
      define s' where "s' = write_loc (Reg RDX w) (if signed_bits w r < 0 then - 1 else 0) s"
      have regs: "read_loc (Reg RAX w) s' = r" "read_loc (Reg RDX w) s' = take_bit (bits w) (if signed_bits w r < 0 then - 1 else 0)"
        by (simp_all add: s'_def r_def del: read_loc.simps write_loc.simps)
      have "bits (2 * w) - 1 = 2 * bits w - 1" "0 < bits w" using assms by auto
      then have "dividend is_signed w s' = signed_bits w r"
        using False sign_extension [of "bits w" r] by (simp only: dividend_def Let_def regs True if_True if_False)
      then have "dividend is_signed w s' = typed_bits is_signed w (read_loc (Reg RAX w) s)" by (simp add: typed_bits_def True r_def)
      moreover have "exec_instructions (extension_code w is_signed) s = Some s'"
        using False by (simp add: extension_code_def True s'_def r_def del: read_loc.simps write_loc.simps)
      ultimately show thesis using that [OF _ _ _ other] by (simp add: s'_def)
    qed
  next
    case False
    show thesis
    proof (cases "w = 1")
      case one: True
      define s' where "s' = write_loc (Reg RAX 2) (read_loc (Reg RAX 1) s) s"
      have "dividend is_signed w s' = typed_bits is_signed w (read_loc (Reg RAX w) s)"
        by (simp add: dividend_def one False s'_def typed_bits_def min_def)
      from that [OF _ _ this other] show thesis by (simp add: extension_code_def False one s'_def)
    next
      case wide: False
      define s' where "s' = forget_flags (write_loc (Reg RDX w) 0 s)"
      have "dividend is_signed w s' = typed_bits is_signed w (read_loc (Reg RAX w) s)"
        using wide by (simp add: dividend_def False s'_def typed_bits_def Let_def concat_bit_eq del: read_loc.simps write_loc.simps)
      moreover have "exec_instructions (extension_code w is_signed) s = Some s'"
        using wide by (simp add: extension_code_def False s'_def two_ok_def)
      ultimately show thesis using that [OF _ _ _ other] by (simp add: s'_def)
    qed
  qed
qed

lemma div_stores:
  assumes "slot_or_imm w a" "slot_or_imm w b" "w \<in> {1, 2, 4, 8}"
    "typed_bits sg w (read_loc b s) \<noteq> 0"
    "fits_width sg w (quotient (typed_bits sg w (read_loc a s)) (typed_bits sg w (read_loc b s)))"
  shows "stores w d (quotient (typed_bits sg w (read_loc a s)) (typed_bits sg w (read_loc b s))) s
    (div_code sg w (Mem w d) a b)"
proof -
  let ?q = "quotient (typed_bits sg w (read_loc a s)) (typed_bits sg w (read_loc b s))"
  define s1 where "s1 = write_loc (Reg RAX w) (read_loc a s) s"
  obtain s2 where s2: "exec_instructions (extension_code w sg) s1 = Some s2" "as_mem s2 = as_mem s1"
    "dividend sg w s2 = typed_bits sg w (read_loc (Reg RAX w) s1)"
    "\<And>v k. dividend sg w (write_loc (Reg RCX k) v s2) = dividend sg w s2"
    using extension_exec [OF assms(3), of sg s1] by metis
  have w: "0 < w" using assms(3) by auto
  have m: "as_mem s2 = as_mem s" using s2(2) by (simp add: s1_def)
  have a: "dividend sg w s2 = typed_bits sg w (read_loc a s)"
    unfolding s2(3) by (rule typed_bits_cong [OF w]) (simp add: s1_def del: read_loc.simps write_loc.simps)
  have div: "\<exists>s'. exec_instruction (I_div sg l) s3 = Some s' \<and> as_mem s' = as_mem s3 \<and>
      take_bit (bits w) (read_loc (Reg RAX w) s') = take_bit (bits w) ?q"
    if "\<not> is_imm l" "location_width l = w" "dividend sg w s3 = typed_bits sg w (read_loc a s)"
      "(if sg then signed_bits w (read_loc l s3) else read_loc l s3) = typed_bits sg w (read_loc b s)" for l s3
    using that assms(4,5) by (auto simp: Let_def min_def forget_flags_def)
  have b: "read_loc b s2 = read_loc b s" by (rule read_mem_eq [OF assms(2) m])
  let ?code = "extension_code w sg @ (if is_imm b then [I_mov (Reg RCX w) b, I_div sg (Reg RCX w)] else [I_div sg b])"
  have "stores w d ?q s ([I_mov (Reg RAX w) a] @ ?code @ [I_mov (Mem w d) (Reg RAX w)])"
  proof (rule stores_through [OF assms(1)])
    show "\<exists>s3. exec_instructions ?code (write_loc (Reg RAX w) (read_loc a s) s) = Some s3 \<and> as_mem s3 = as_mem s \<and>
        take_bit (bits w) (read_loc (Reg RAX w) s3) = take_bit (bits w) ?q"
    proof (cases "is_imm b")
      case True
      define s3 where "s3 = write_loc (Reg RCX w) (read_loc b s2) s2"
      have e: "exec_instruction (I_mov (Reg RCX w) b) s2 = Some s3" using mov_operand [OF assms(2)] by (simp add: s3_def)
      have divisor: "(if sg then signed_bits w (read_loc (Reg RCX w) s3) else read_loc (Reg RCX w) s3) = typed_bits sg w (read_loc b s)"
        using typed_bits_take [OF w] by (simp only: s3_def read_write_reg b)
      have dd: "dividend sg w s3 = typed_bits sg w (read_loc a s)" using s2(4) a by (simp add: s3_def)
      obtain s' where "exec_instruction (I_div sg (Reg RCX w)) s3 = Some s'" "as_mem s' = as_mem s3"
        "take_bit (bits w) (read_loc (Reg RAX w) s') = take_bit (bits w) ?q"
        using div [OF _ _ dd divisor] by auto
      moreover have "as_mem s3 = as_mem s" using m by (simp add: s3_def)
      ultimately show ?thesis using True s2(1) e by (simp add: s1_def)
    next
      case False
      then obtain k where k: "b = Mem w k" using assms(2) by (cases b) auto
      have divisor: "(if sg then signed_bits w (read_loc b s2) else read_loc b s2) = typed_bits sg w (read_loc b s)"
        unfolding b by (simp add: k typed_bits_def load_bits)
      obtain s' where "exec_instruction (I_div sg b) s2 = Some s'" "as_mem s' = as_mem s2"
        "take_bit (bits w) (read_loc (Reg RAX w) s') = take_bit (bits w) ?q"
        using div [OF _ _ a divisor] k by auto
      then show ?thesis using False s2(1) m by (simp add: s1_def)
    qed
  qed
  then show ?thesis by (simp add: div_code_def)
qed

end
