(* ===== verification/Ir_Semantics.thy ===== *)
theory Ir_Semantics
  imports Ir_Facts
begin

text \<open>
  What programs and their intermediate code do, and that the lowering preserves it. The meaning of
  the operators on values is a parameter \<open>M\<close>: the lowering does not look at it. \<open>eval\<close> and \<open>executes\<close>
  are the meaning of the annotated tree, with operands evaluated from left to right; \<open>exec_op\<close> and
  \<open>ir_step\<close> are the meaning of the operations, on a state with variables, temporaries, the pending
  parameters of a call and the world that calls change.
\<close>

section \<open>The meaning of operators\<close>

record ('v, 'w) meaning =
  me_immediate :: "sf_value_type \<Rightarrow> string \<Rightarrow> 'v"
  me_binary :: "sf_ir_opcode \<Rightarrow> sf_value_type \<Rightarrow> sf_value_type \<times> 'v \<Rightarrow> sf_value_type \<times> 'v \<Rightarrow> 'v option"
  me_unary :: "sf_ir_opcode \<Rightarrow> sf_value_type \<Rightarrow> sf_value_type \<times> 'v \<Rightarrow> 'v"
  me_convert :: "sf_value_type \<Rightarrow> sf_value_type \<times> 'v \<Rightarrow> 'v"
  me_true :: "'v \<Rightarrow> bool"
  me_call :: "string \<Rightarrow> (sf_value_type \<times> 'v) list \<Rightarrow> 'w \<Rightarrow> ('v \<times> 'w) option"

section \<open>Expressions of the source\<close>

definition literal_text :: "sf_token_type \<Rightarrow> string \<Rightarrow> string" where
  "literal_text tt v = (if tt = SF_TOKEN_TYPE_KW_TRUE then ''1'' else if tt = SF_TOKEN_TYPE_KW_FALSE then ''0'' else v)"

fun expr_var :: "sf_expr \<Rightarrow> string option" where
  "expr_var (SF_NODE_IDENTIFIER b name d vid s) = Some (mangled_variable name vid)"
| "expr_var _ = None"

definition is_increment :: "sf_ir_operation_type \<Rightarrow> bool" where
  "is_increment op \<longleftrightarrow> op = SF_OP_TYPE_PREFIX_INCREMENT \<or> op = SF_OP_TYPE_POSTFIX_INCREMENT"

definition is_postfix :: "sf_ir_operation_type \<Rightarrow> bool" where
  "is_postfix op \<longleftrightarrow> op = SF_OP_TYPE_POSTFIX_INCREMENT \<or> op = SF_OP_TYPE_POSTFIX_DECREMENT"

definition step_opcode :: "sf_ir_operation_type \<Rightarrow> sf_ir_opcode" where
  "step_opcode op = (if is_increment op then SF_IR_OPCODE_ADD else SF_IR_OPCODE_SUB)"

type_synonym ('v, 'w) evaluation = "(string \<Rightarrow> 'v) \<Rightarrow> 'w \<Rightarrow> ('v \<times> (string \<Rightarrow> 'v) \<times> 'w) option"

fun eval_args :: "(sf_value_type \<times> ('v, 'w) evaluation) list \<Rightarrow> (string \<Rightarrow> 'v) \<Rightarrow> 'w \<Rightarrow>
   ((sf_value_type \<times> 'v) list \<times> (string \<Rightarrow> 'v) \<times> 'w) option" where
  "eval_args [] env w = Some ([], env, w)"
| "eval_args ((t, ev) # rest) env w = do {
     (v, env, w) \<leftarrow> ev env w;
     (vs, env, w) \<leftarrow> eval_args rest env w;
     Some ((t, v) # vs, env, w) }"

fun eval :: "('v, 'w) meaning \<Rightarrow> sf_expr \<Rightarrow> ('v, 'w) evaluation" where
  "eval M (SF_NODE_LITERAL b tt v) env w = Some (me_immediate M (ab_resolved b) (literal_text tt v), env, w)"
| "eval M (SF_NODE_IDENTIFIER b name d vid s) env w = Some (env (mangled_variable name vid), env, w)"
| "eval M (SF_NODE_BINARY b l r op) env w = do {
     (v1, env, w) \<leftarrow> eval M l env w;
     (v2, env, w) \<leftarrow> eval M r env w;
     v \<leftarrow> me_binary M (sf_type_operation_to_opcode op) (ab_resolved b) (expr_resolved l, v1) (expr_resolved r, v2);
     Some (v, env, w) }"
| "eval M (SF_NODE_UNARY b e op) env w = do {
     (v, env, w) \<leftarrow> eval M e env w;
     (if sf_type_is_increment_or_decrement op
      then do { u \<leftarrow> me_binary M (step_opcode op) (ab_resolved b) (expr_resolved e, v)
                        (ab_resolved b, me_immediate M (ab_resolved b) ''1'');
                Some (if is_postfix op then v else u,
                      (case expr_var e of Some x \<Rightarrow> env(x := u) | None \<Rightarrow> env), w) }
      else Some (me_unary M (sf_type_operation_to_opcode op) (ab_resolved b) (expr_resolved e, v), env, w)) }"
| "eval M (SF_NODE_CAST b e t) env w = do {
     (v, env, w) \<leftarrow> eval M e env w;
     Some (me_convert M (ab_resolved b) (expr_resolved e, v), env, w) }"
| "eval M (SF_NODE_FUNC_CALL b callee link args) env w = do {
     (vs, env, w) \<leftarrow> eval_args (map (\<lambda>a. (expr_resolved a, \<lambda>env w. eval M a env w)) args) env w;
     (v, w) \<leftarrow> me_call M (callee_link callee link) vs w;
     Some (v, env, w) }"

text \<open>The variables that the evaluation of an expression can change.\<close>

fun modified :: "sf_expr \<Rightarrow> string set" where
  "modified (SF_NODE_BINARY b l r op) = modified l \<union> modified r"
| "modified (SF_NODE_UNARY b e op) = modified e \<union>
     (if sf_type_is_increment_or_decrement op then set_option (expr_var e) else {})"
| "modified (SF_NODE_CAST b e t) = modified e"
| "modified (SF_NODE_FUNC_CALL b c l args) = (\<Union>a \<in> set args. modified a)"
| "modified _ = {}"

section \<open>Operations\<close>

record ('v, 'w) machine =
  ma_env :: "string \<Rightarrow> 'v"
  ma_temps :: "nat \<Rightarrow> 'v"
  ma_params :: "(sf_value_type \<times> 'v) list"
  ma_world :: 'w

fun operand_value :: "('v, 'w) meaning \<Rightarrow> ('v, 'w) machine \<Rightarrow> sf_ir_operand \<Rightarrow> sf_value_type \<times> 'v" where
  "operand_value M \<sigma> (SF_IR_OPERAND_TYPE_TEMPORARY t n) = (t, ma_temps \<sigma> n)"
| "operand_value M \<sigma> (SF_IR_OPERAND_TYPE_VARIABLE t x) = (t, ma_env \<sigma> x)"
| "operand_value M \<sigma> (SF_IR_OPERAND_TYPE_IMMEDIATE t v) = (t, me_immediate M t v)"
| "operand_value M \<sigma> r = (op_value_type r, me_immediate M (op_value_type r) [])"

fun write_operand :: "sf_ir_operand \<Rightarrow> 'v \<Rightarrow> ('v, 'w) machine \<Rightarrow> ('v, 'w) machine" where
  "write_operand (SF_IR_OPERAND_TYPE_TEMPORARY t n) v \<sigma> = \<sigma>\<lparr>ma_temps := (ma_temps \<sigma>)(n := v)\<rparr>"
| "write_operand (SF_IR_OPERAND_TYPE_VARIABLE t x) v \<sigma> = \<sigma>\<lparr>ma_env := (ma_env \<sigma>)(x := v)\<rparr>"
| "write_operand _ v \<sigma> = \<sigma>"

definition exec_op :: "('v, 'w) meaning \<Rightarrow> sf_ir_operation \<Rightarrow> ('v, 'w) machine \<Rightarrow> ('v, 'w) machine option" where
  "exec_op M op \<sigma> =
     (let dst = io_operand1 op; a = operand_value M \<sigma> (io_operand2 op); b = operand_value M \<sigma> (io_operand3 op)
      in case io_opcode op of
           SF_IR_OPCODE_PARAM \<Rightarrow> Some (\<sigma>\<lparr>ma_params := ma_params \<sigma> @ [operand_value M \<sigma> dst]\<rparr>)
         | SF_IR_OPCODE_CALL \<Rightarrow>
             map_option (\<lambda>(v, w). write_operand dst v (\<sigma>\<lparr>ma_params := [], ma_world := w\<rparr>))
               (me_call M (function_text (io_operand2 op)) (ma_params \<sigma>) (ma_world \<sigma>))
         | SF_IR_OPCODE_ASSIGN \<Rightarrow> Some (write_operand dst (me_convert M (op_value_type dst) a) \<sigma>)
         | SF_IR_OPCODE_CAST \<Rightarrow> Some (write_operand dst (me_convert M (op_value_type dst) a) \<sigma>)
         | SF_IR_OPCODE_NEGATE \<Rightarrow> Some (write_operand dst (me_unary M (io_opcode op) (op_value_type dst) a) \<sigma>)
         | SF_IR_OPCODE_BITWISE_NOT \<Rightarrow> Some (write_operand dst (me_unary M (io_opcode op) (op_value_type dst) a) \<sigma>)
         | SF_IR_OPCODE_LOGICAL_NOT \<Rightarrow> Some (write_operand dst (me_unary M (io_opcode op) (op_value_type dst) a) \<sigma>)
         | SF_IR_OPCODE_LABEL \<Rightarrow> Some \<sigma>
         | _ \<Rightarrow> map_option (\<lambda>v. write_operand dst v \<sigma>) (me_binary M (io_opcode op) (op_value_type dst) a b))"

fun exec_ops :: "('v, 'w) meaning \<Rightarrow> sf_ir_operation list \<Rightarrow> ('v, 'w) machine \<Rightarrow> ('v, 'w) machine option" where
  "exec_ops M [] \<sigma> = Some \<sigma>"
| "exec_ops M (op # ops) \<sigma> = Option.bind (exec_op M op \<sigma>) (exec_ops M ops)"

lemma exec_ops_append [simp]: "exec_ops M (xs @ ys) \<sigma> = Option.bind (exec_ops M xs \<sigma>) (exec_ops M ys)"
proof (induction xs arbitrary: \<sigma>)
  case (Cons op xs)
  show ?case by (cases "exec_op M op \<sigma>") (simp_all add: Cons)
qed simp

section \<open>Expressions that the lowering evaluates in order\<close>

text \<open>An operand that is a variable is not copied, so what follows must not change it. Operands have
  values, so they are no calls of void functions; and an increment keeps the type of its
  variable.\<close>

fun lowerable :: "sf_expr \<Rightarrow> bool" where
  "lowerable (SF_NODE_BINARY b l r op) \<longleftrightarrow> raw_binary_op op \<and> lowerable l \<and> lowerable r \<and>
     expr_resolved l \<noteq> SF_VAL_TYPE_VOID \<and> expr_resolved r \<noteq> SF_VAL_TYPE_VOID \<and>
     set_option (expr_var l) \<inter> modified r = {}"
| "lowerable (SF_NODE_UNARY b e op) \<longleftrightarrow> raw_unary_op op \<and> lowerable e \<and> expr_resolved e \<noteq> SF_VAL_TYPE_VOID \<and>
     (sf_type_is_increment_or_decrement op \<longrightarrow> expr_var e \<noteq> None \<and> expr_resolved e = ab_resolved b)"
| "lowerable (SF_NODE_CAST b e t) \<longleftrightarrow> lowerable e \<and> expr_resolved e \<noteq> SF_VAL_TYPE_VOID"
| "lowerable (SF_NODE_FUNC_CALL b c l args) \<longleftrightarrow>
     (\<forall>a \<in> set args. lowerable a \<and> expr_resolved a \<noteq> SF_VAL_TYPE_VOID) \<and>
     sorted_wrt (\<lambda>a a'. set_option (expr_var a) \<inter> modified a' = {}) args"
| "lowerable _ \<longleftrightarrow> True"

text \<open>The expressions whose last operation writes the destination of an assignment.\<close>

fun writes_hint :: "sf_expr \<Rightarrow> bool" where
  "writes_hint (SF_NODE_BINARY b l r op) \<longleftrightarrow> True"
| "writes_hint (SF_NODE_UNARY b e op) \<longleftrightarrow> \<not> sf_type_is_increment_or_decrement op"
| "writes_hint (SF_NODE_CAST b e t) \<longleftrightarrow> True"
| "writes_hint (SF_NODE_FUNC_CALL b c l args) \<longleftrightarrow> ab_resolved b \<noteq> SF_VAL_TYPE_VOID"
| "writes_hint _ \<longleftrightarrow> False"

definition keeps :: "string \<Rightarrow> ('v, 'w) evaluation \<Rightarrow> bool" where
  "keeps x ev \<longleftrightarrow> (\<forall>env w v env' w'. ev env w = Some (v, env', w') \<longrightarrow> env' x = env x)"

lemma keepsD: "keeps x ev \<Longrightarrow> ev env w = Some (v, env', w') \<Longrightarrow> env' x = env x"
  unfolding keeps_def by blast

lemma keeps_args:
  "\<forall>(t, ev) \<in> set evs. keeps x ev \<Longrightarrow> eval_args evs env w = Some (vs, env', w') \<Longrightarrow> env' x = env x"
proof (induction evs arbitrary: env w vs)
  case (Cons tev evs)
  obtain t ev where tev: "tev = (t, ev)" by fastforce
  obtain v env1 w1 vs1 where a: "ev env w = Some (v, env1, w1)" "eval_args evs env1 w1 = Some (vs1, env', w')"
    using Cons.prems(2) by (auto simp: tev bind_eq_Some_conv)
  have k: "keeps x ev" using Cons.prems(1) tev by simp
  show ?case using Cons.IH [OF _ a(2)] keepsD [OF k a(1)] Cons.prems(1) by simp
qed simp

lemma eval_keeps: "x \<notin> modified e \<Longrightarrow> keeps x (\<lambda>env w. eval M e env w)"
proof (induction e)
  case (SF_NODE_BINARY b l r op)
  then have l: "keeps x (\<lambda>env w. eval M l env w)" and r: "keeps x (\<lambda>env w. eval M r env w)" by simp_all
  show ?case
    unfolding keeps_def by (auto simp: bind_eq_Some_conv keepsD [OF l] keepsD [OF r])
next
  case (SF_NODE_UNARY b e op)
  then have e: "keeps x (\<lambda>env w. eval M e env w)" by simp
  show ?case
    unfolding keeps_def using SF_NODE_UNARY.prems
    by (auto simp: bind_eq_Some_conv keepsD [OF e] split: if_splits option.splits)
next
  case (SF_NODE_CAST b e t)
  then have e: "keeps x (\<lambda>env w. eval M e env w)" by simp
  show ?case unfolding keeps_def by (auto simp: bind_eq_Some_conv keepsD [OF e])
next
  case (SF_NODE_FUNC_CALL b c l args)
  then have "\<forall>(t, ev) \<in> set (map (\<lambda>a. (expr_resolved a, \<lambda>env w. eval M a env w)) args). keeps x ev" by auto
  from keeps_args [OF this] show ?case unfolding keeps_def by (auto simp: bind_eq_Some_conv)
qed (simp_all add: keeps_def)

lemma eval_unmodified: "eval M e env w = Some (v, env', w') \<Longrightarrow> x \<notin> modified e \<Longrightarrow> env' x = env x"
  using keepsD [OF eval_keeps] .


section \<open>The code of expressions computes their value\<close>

definition hint_ok :: "sf_expr \<Rightarrow> sf_ir_operand option \<Rightarrow> bool" where
  "hint_ok e hint \<longleftrightarrow> (case hint of None \<Rightarrow> True
     | Some dst \<Rightarrow> (\<exists>t x. dst = SF_IR_OPERAND_TYPE_VARIABLE t x \<and> (writes_hint e \<longrightarrow> t = expr_resolved e)))"

fun hinted_env :: "sf_expr \<Rightarrow> sf_ir_operand option \<Rightarrow> 'v \<Rightarrow> (string \<Rightarrow> 'v) \<Rightarrow> string \<Rightarrow> 'v" where
  "hinted_env e (Some (SF_IR_OPERAND_TYPE_VARIABLE t x)) v env = (if writes_hint e then env(x := v) else env)"
| "hinted_env e hint v env = env"

text \<open>Where an operand is read from: a temporary below a bound, or a variable of a set.\<close>

fun reads_from :: "nat \<Rightarrow> string set \<Rightarrow> sf_ir_operand \<Rightarrow> bool" where
  "reads_from n X (SF_IR_OPERAND_TYPE_TEMPORARY t k) \<longleftrightarrow> k < n"
| "reads_from n X (SF_IR_OPERAND_TYPE_VARIABLE t x) \<longleftrightarrow> x \<in> X"
| "reads_from n X _ \<longleftrightarrow> True"

definition expr_result :: "('v, 'w) meaning \<Rightarrow> sf_expr \<Rightarrow> sf_ir_operand option \<Rightarrow> nat \<Rightarrow> nat \<Rightarrow> sf_ir_operand \<Rightarrow>
   ('v, 'w) machine \<Rightarrow> ('v, 'w) machine \<Rightarrow> 'v \<Rightarrow> (string \<Rightarrow> 'v) \<Rightarrow> 'w \<Rightarrow> bool" where
  "expr_result M e hint n n' r \<sigma> \<sigma>' v env w \<longleftrightarrow> n \<le> n' \<and> (\<forall>k < n. ma_temps \<sigma>' k = ma_temps \<sigma> k) \<and> ma_params \<sigma>' = [] \<and>
     ma_world \<sigma>' = w \<and> ma_env \<sigma>' = hinted_env e hint v env \<and>
     (expr_resolved e \<noteq> SF_VAL_TYPE_VOID \<longrightarrow> operand_value M \<sigma>' r = (expr_resolved e, v)) \<and>
     (hint = None \<longrightarrow> reads_from n' (set_option (expr_var e)) r)"

lemma operand_stable:
  "reads_from n X r \<Longrightarrow> \<forall>k < n. ma_temps \<sigma>' k = ma_temps \<sigma> k \<Longrightarrow> \<forall>x \<in> X. ma_env \<sigma>' x = ma_env \<sigma> x \<Longrightarrow>
   operand_value M \<sigma>' r = operand_value M \<sigma> r"
  by (cases r) auto

lemma expr_result_write:
  assumes "dest_code hint (expr_resolved e) n2 = (dst, n3)" "writes_hint e" "hint_ok e hint" "expr_var e = None"
    "\<forall>k < n. ma_temps \<sigma>2 k = ma_temps \<sigma> k" "n \<le> n2" "ma_params \<sigma>2 = []" "ma_world \<sigma>2 = w" "ma_env \<sigma>2 = env"
  shows "expr_result M e hint n n3 dst \<sigma> (write_operand dst v \<sigma>2) v env w" "op_value_type dst = expr_resolved e"
  using assms by (auto simp: expr_result_def dest_code_def hint_ok_def split: option.splits)

lemma exec_binary:
  "raw_binary_op op \<Longrightarrow> exec_op M (operation (sf_type_operation_to_opcode op) dst a b) \<sigma> =
     map_option (\<lambda>v. write_operand dst v \<sigma>)
       (me_binary M (sf_type_operation_to_opcode op) (op_value_type dst) (operand_value M \<sigma> a) (operand_value M \<sigma> b))"
  by (cases op) (simp_all add: raw_binary_op_def sf_op_is_logical_def sf_op_is_shift_def sf_op_is_relational_def exec_op_def)

lemma exec_unary:
  "raw_unary_op op \<Longrightarrow> \<not> sf_type_is_increment_or_decrement op \<Longrightarrow>
   exec_op M (operation (sf_type_operation_to_opcode op) dst a b) \<sigma> =
     Some (write_operand dst (me_unary M (sf_type_operation_to_opcode op) (op_value_type dst) (operand_value M \<sigma> a)) \<sigma>)"
  by (cases op) (simp_all add: raw_unary_op_def sf_type_is_increment_or_decrement_def exec_op_def)

lemma exec_simple:
  "exec_op M (operation SF_IR_OPCODE_ASSIGN dst a b) \<sigma> = Some (write_operand dst (me_convert M (op_value_type dst) (operand_value M \<sigma> a)) \<sigma>)"
  "exec_op M (operation SF_IR_OPCODE_CAST dst a b) \<sigma> = Some (write_operand dst (me_convert M (op_value_type dst) (operand_value M \<sigma> a)) \<sigma>)"
  "exec_op M (operation SF_IR_OPCODE_PARAM a b c) \<sigma> = Some (\<sigma>\<lparr>ma_params := ma_params \<sigma> @ [operand_value M \<sigma> a]\<rparr>)"
  "exec_op M (operation (step_opcode op) dst a b) \<sigma> = map_option (\<lambda>v. write_operand dst v \<sigma>)
     (me_binary M (step_opcode op) (op_value_type dst) (operand_value M \<sigma> a) (operand_value M \<sigma> b))"
  by (simp_all add: exec_op_def step_opcode_def)

lemma operand_value_params [simp]: "operand_value M (\<sigma>\<lparr>ma_params := ps\<rparr>) r = operand_value M \<sigma> r"
  by (cases r) auto

lemma exec_params:
  "exec_ops M (param_code rs) \<sigma> = Some (\<sigma>\<lparr>ma_params := ma_params \<sigma> @ map (operand_value M \<sigma>) rs\<rparr>)"
proof (induction rs arbitrary: \<sigma>)
  case (Cons r rs)
  have step: "param_code (r # rs) = operation SF_IR_OPCODE_PARAM r k_no_operand k_no_operand # param_code rs"
    by (simp add: param_code_def)
  show ?case
    using Cons.IH [of "\<sigma>\<lparr>ma_params := ma_params \<sigma> @ [operand_value M \<sigma> r]\<rparr>"]
    by (simp add: step exec_simple comp_def)
qed (simp add: param_code_def)

text \<open>What the code of an expression does, for every state that agrees with the source.\<close>

definition code_correct :: "('v, 'w) meaning \<Rightarrow> sf_expr \<Rightarrow> bool" where
  "code_correct M e \<longleftrightarrow> (\<forall>env w v env' w' hint n r code n' \<sigma>.
     eval M e env w = Some (v, env', w') \<longrightarrow> expr_code e hint n = (r, code, n') \<longrightarrow> hint_ok e hint \<longrightarrow>
     ma_env \<sigma> = env \<longrightarrow> ma_world \<sigma> = w \<longrightarrow> ma_params \<sigma> = [] \<longrightarrow>
     (\<exists>\<sigma>'. exec_ops M code \<sigma> = Some \<sigma>' \<and> expr_result M e hint n n' r \<sigma> \<sigma>' v env' w'))"

lemma code_correctD:
  assumes "code_correct M e" "eval M e (ma_env \<sigma>) (ma_world \<sigma>) = Some (v, env', w')" "expr_code e hint n = (r, code, n')"
    "hint_ok e hint" "ma_params \<sigma> = []"
  obtains \<sigma>' where "exec_ops M code \<sigma> = Some \<sigma>'" "expr_result M e hint n n' r \<sigma> \<sigma>' v env' w'"
  using assms unfolding code_correct_def by blast

lemma hint_ok_None [simp]: "hint_ok e None"
  by (simp add: hint_ok_def)

lemma code_correct_operand:
  assumes "code_correct M e" "eval M e env w = Some (v, env', w')" "expr_code e None n = (r, code, n')"
    "ma_env \<sigma> = env" "ma_world \<sigma> = w" "ma_params \<sigma> = []"
  obtains \<sigma>' where "exec_ops M code \<sigma> = Some \<sigma>'" "expr_result M e None n n' r \<sigma> \<sigma>' v env' w'"
proof -
  have "eval M e (ma_env \<sigma>) (ma_world \<sigma>) = Some (v, env', w')" using assms(2,4,5) by simp
  from code_correctD [OF assms(1) this assms(3) hint_ok_None assms(6)] show thesis using that .
qed

lemma correct_binary:
  assumes "code_correct M l" "code_correct M r" "lowerable (SF_NODE_BINARY b l r op)"
  shows "code_correct M (SF_NODE_BINARY b l r op)"
  unfolding code_correct_def
proof (intro allI impI)
  fix env w v env' w' hint n res code n' and \<sigma> :: "('a, 'b) machine"
  let ?e = "SF_NODE_BINARY b l r op"
  assume ev: "eval M ?e env w = Some (v, env', w')" and code: "expr_code ?e hint n = (res, code, n')" and hint: "hint_ok ?e hint"
    and \<sigma>: "ma_env \<sigma> = env" "ma_world \<sigma> = w" "ma_params \<sigma> = []"
  obtain v1 env1 w1 v2 where e: "eval M l env w = Some (v1, env1, w1)" "eval M r env1 w1 = Some (v2, env', w')"
    "me_binary M (sf_type_operation_to_opcode op) (ab_resolved b) (expr_resolved l, v1) (expr_resolved r, v2) = Some v"
    using ev by (auto simp: bind_eq_Some_conv)
  obtain r1 code1 n1 r2 code2 n2 where c: "expr_code l None n = (r1, code1, n1)" "expr_code r None n1 = (r2, code2, n2)"
    by (metis prod_cases3)
  obtain dst n3 where d: "dest_code hint (ab_resolved b) n2 = (dst, n3)" by fastforce
  have eqs: "res = dst" "n' = n3" "code = code1 @ code2 @ [operation (sf_type_operation_to_opcode op) dst r1 r2]"
    using code c d by auto
  obtain \<sigma>1 where 1: "exec_ops M code1 \<sigma> = Some \<sigma>1" "expr_result M l None n n1 r1 \<sigma> \<sigma>1 v1 env1 w1"
    by (rule code_correct_operand [OF assms(1) e(1) c(1) \<sigma>])
  have s1: "ma_env \<sigma>1 = env1" "ma_world \<sigma>1 = w1" "ma_params \<sigma>1 = []" using 1(2) by (simp_all add: expr_result_def)
  obtain \<sigma>2 where 2: "exec_ops M code2 \<sigma>1 = Some \<sigma>2" "expr_result M r None n1 n2 r2 \<sigma>1 \<sigma>2 v2 env' w'"
    by (rule code_correct_operand [OF assms(2) e(2) c(2) s1])
  have low: "raw_binary_op op" "expr_resolved l \<noteq> SF_VAL_TYPE_VOID" "expr_resolved r \<noteq> SF_VAL_TYPE_VOID"
    "set_option (expr_var l) \<inter> modified r = {}" using assms(3) by simp_all
  have "operand_value M \<sigma>2 r1 = operand_value M \<sigma>1 r1"
  proof (rule operand_stable)
    show "reads_from n1 (set_option (expr_var l)) r1" using 1(2) by (simp add: expr_result_def)
    show "\<forall>k < n1. ma_temps \<sigma>2 k = ma_temps \<sigma>1 k" using 2(2) by (simp add: expr_result_def)
    show "\<forall>x \<in> set_option (expr_var l). ma_env \<sigma>2 x = ma_env \<sigma>1 x"
      using eval_unmodified [OF e(2)] low(4) 1(2) 2(2) by (auto simp: expr_result_def)
  qed
  then have vals: "operand_value M \<sigma>2 r1 = (expr_resolved l, v1)" "operand_value M \<sigma>2 r2 = (expr_resolved r, v2)"
    using 1(2) 2(2) low by (simp_all add: expr_result_def)
  have pre: "\<forall>k < n. ma_temps \<sigma>2 k = ma_temps \<sigma> k" "n \<le> n2" "ma_params \<sigma>2 = []" "ma_world \<sigma>2 = w'" "ma_env \<sigma>2 = env'"
    using 1(2) 2(2) by (auto simp: expr_result_def)
  have d': "dest_code hint (expr_resolved ?e) n2 = (dst, n3)" using d by simp
  note wr = expr_result_write(1) [OF d' _ hint _ pre, where M = M and v = v] expr_result_write(2) [OF d' _ hint _ pre]
  show "\<exists>\<sigma>'. exec_ops M code \<sigma> = Some \<sigma>' \<and> expr_result M ?e hint n n' res \<sigma> \<sigma>' v env' w'"
    using 1(1) 2(1) wr vals e(3) by (simp add: eqs exec_binary [OF low(1)])
qed

lemma correct_unary:
  assumes "code_correct M e" "lowerable (SF_NODE_UNARY b e op)" "\<not> sf_type_is_increment_or_decrement op"
  shows "code_correct M (SF_NODE_UNARY b e op)"
  unfolding code_correct_def
proof (intro allI impI)
  fix env w v env' w' hint n res code n' and \<sigma> :: "('a, 'b) machine"
  let ?e = "SF_NODE_UNARY b e op"
  assume ev: "eval M ?e env w = Some (v, env', w')" and code: "expr_code ?e hint n = (res, code, n')" and hint: "hint_ok ?e hint"
    and \<sigma>: "ma_env \<sigma> = env" "ma_world \<sigma> = w" "ma_params \<sigma> = []"
  obtain v1 where e: "eval M e env w = Some (v1, env', w')"
    "v = me_unary M (sf_type_operation_to_opcode op) (ab_resolved b) (expr_resolved e, v1)"
    using ev assms(3) by (auto simp: bind_eq_Some_conv)
  obtain r1 code1 n1 where c: "expr_code e None n = (r1, code1, n1)" by (rule prod_cases3)
  obtain dst n3 where d: "dest_code hint (ab_resolved b) n1 = (dst, n3)" by fastforce
  have eqs: "res = dst" "n' = n3" "code = code1 @ [operation (sf_type_operation_to_opcode op) dst r1 k_no_operand]"
    using code c d assms(3) by auto
  obtain \<sigma>1 where 1: "exec_ops M code1 \<sigma> = Some \<sigma>1" "expr_result M e None n n1 r1 \<sigma> \<sigma>1 v1 env' w'"
    by (rule code_correct_operand [OF assms(1) e(1) c \<sigma>])
  have low: "raw_unary_op op" "expr_resolved e \<noteq> SF_VAL_TYPE_VOID" using assms(2) by simp_all
  have val: "operand_value M \<sigma>1 r1 = (expr_resolved e, v1)" using 1(2) low by (simp add: expr_result_def)
  have pre: "\<forall>k < n. ma_temps \<sigma>1 k = ma_temps \<sigma> k" "n \<le> n1" "ma_params \<sigma>1 = []" "ma_world \<sigma>1 = w'" "ma_env \<sigma>1 = env'"
    using 1(2) by (auto simp: expr_result_def)
  have d': "dest_code hint (expr_resolved ?e) n1 = (dst, n3)" using d by simp
  note wr = expr_result_write(1) [OF d' _ hint _ pre, where M = M and v = v] expr_result_write(2) [OF d' _ hint _ pre]
  show "\<exists>\<sigma>'. exec_ops M code \<sigma> = Some \<sigma>' \<and> expr_result M ?e hint n n' res \<sigma> \<sigma>' v env' w'"
    using 1(1) wr val e(2) assms(3) by (simp add: eqs exec_unary [OF low(1) assms(3)])
qed

lemma correct_cast:
  assumes "code_correct M e" "lowerable (SF_NODE_CAST b e t)"
  shows "code_correct M (SF_NODE_CAST b e t)"
  unfolding code_correct_def
proof (intro allI impI)
  fix env w v env' w' hint n res code n' and \<sigma> :: "('a, 'b) machine"
  let ?e = "SF_NODE_CAST b e t"
  assume ev: "eval M ?e env w = Some (v, env', w')" and code: "expr_code ?e hint n = (res, code, n')" and hint: "hint_ok ?e hint"
    and \<sigma>: "ma_env \<sigma> = env" "ma_world \<sigma> = w" "ma_params \<sigma> = []"
  obtain v1 where e: "eval M e env w = Some (v1, env', w')" "v = me_convert M (ab_resolved b) (expr_resolved e, v1)"
    using ev by (auto simp: bind_eq_Some_conv)
  obtain r1 code1 n1 where c: "expr_code e None n = (r1, code1, n1)" by (rule prod_cases3)
  obtain dst n3 where d: "dest_code hint (ab_resolved b) n1 = (dst, n3)" by fastforce
  have eqs: "res = dst" "n' = n3" "code = code1 @ [operation SF_IR_OPCODE_CAST dst r1 k_no_operand]"
    using code c d by auto
  obtain \<sigma>1 where 1: "exec_ops M code1 \<sigma> = Some \<sigma>1" "expr_result M e None n n1 r1 \<sigma> \<sigma>1 v1 env' w'"
    by (rule code_correct_operand [OF assms(1) e(1) c \<sigma>])
  have val: "operand_value M \<sigma>1 r1 = (expr_resolved e, v1)" using 1(2) assms(2) by (simp add: expr_result_def)
  have pre: "\<forall>k < n. ma_temps \<sigma>1 k = ma_temps \<sigma> k" "n \<le> n1" "ma_params \<sigma>1 = []" "ma_world \<sigma>1 = w'" "ma_env \<sigma>1 = env'"
    using 1(2) by (auto simp: expr_result_def)
  have d': "dest_code hint (expr_resolved ?e) n1 = (dst, n3)" using d by simp
  note wr = expr_result_write(1) [OF d' _ hint _ pre, where M = M and v = v] expr_result_write(2) [OF d' _ hint _ pre]
  show "\<exists>\<sigma>'. exec_ops M code \<sigma> = Some \<sigma>' \<and> expr_result M ?e hint n n' res \<sigma> \<sigma>' v env' w'"
    using 1(1) wr val e(2) by (simp add: eqs exec_simple)
qed

text \<open>An increment reads its variable before it writes it; a copy between equal types keeps the value.\<close>

lemma correct_increment:
  assumes conv: "\<forall>t v. me_convert M t (t, v) = v" and low: "lowerable (SF_NODE_UNARY b e op)"
    and inc: "sf_type_is_increment_or_decrement op"
  shows "code_correct M (SF_NODE_UNARY b e op)"
  unfolding code_correct_def
proof (intro allI impI)
  fix env w v env' w' hint n res code n' and \<sigma> :: "('a, 'b) machine"
  let ?e = "SF_NODE_UNARY b e op"
  assume ev: "eval M ?e env w = Some (v, env', w')" and code: "expr_code ?e hint n = (res, code, n')"
    and \<sigma>: "ma_env \<sigma> = env" "ma_world \<sigma> = w" "ma_params \<sigma> = []"
  obtain b' name d vid s where id: "e = SF_NODE_IDENTIFIER b' name d vid s" and ty: "ab_resolved b' = ab_resolved b"
    using low inc by (cases e) auto
  let ?x = "mangled_variable name vid" and ?t = "ab_resolved b"
  let ?var = "SF_IR_OPERAND_TYPE_VARIABLE ?t ?x" and ?one = "SF_IR_OPERAND_TYPE_IMMEDIATE ?t ''1''"
  obtain u where u: "me_binary M (step_opcode op) ?t (?t, env ?x) (?t, me_immediate M ?t ''1'') = Some u"
    "v = (if is_postfix op then env ?x else u)" "env' = env(?x := u)" "w' = w"
    using ev inc ty by (auto simp: id bind_eq_Some_conv)
  have opc: "(if op = SF_OP_TYPE_PREFIX_INCREMENT \<or> op = SF_OP_TYPE_POSTFIX_INCREMENT then SF_IR_OPCODE_ADD else SF_IR_OPCODE_SUB) = step_opcode op"
    by (simp add: step_opcode_def is_increment_def)
  have hinted: "hinted_env ?e hint v env' = env'" using inc by (cases hint; cases "the hint") auto
  show "\<exists>\<sigma>'. exec_ops M code \<sigma> = Some \<sigma>' \<and> expr_result M ?e hint n n' res \<sigma> \<sigma>' v env' w'"
    using code inc \<sigma> u conv hinted
    by (auto simp: id ty generate_identifier_def increment_code_def Let_def opc new_immediate_def exec_simple expr_result_def
        is_postfix_def)
qed

section \<open>Calls\<close>

definition typed_evals :: "('v, 'w) meaning \<Rightarrow> sf_expr list \<Rightarrow> (sf_value_type \<times> ('v, 'w) evaluation) list" where
  "typed_evals M args = map (\<lambda>a. (expr_resolved a, \<lambda>env w. eval M a env w)) args"

lemma eval_args_keep: "eval_args (typed_evals M args) env w = Some (vs, env', w') \<Longrightarrow> x \<notin> (\<Union>a \<in> set args. modified a) \<Longrightarrow> env' x = env x"
  by (rule keeps_args [of "typed_evals M args"]) (auto simp: typed_evals_def intro: eval_keeps)

lemma correct_args:
  assumes "\<forall>a \<in> set args. code_correct M a \<and> expr_resolved a \<noteq> SF_VAL_TYPE_VOID"
    "sorted_wrt (\<lambda>a a'. set_option (expr_var a) \<inter> modified a' = {}) args"
    "eval_args (typed_evals M args) (ma_env \<sigma>) (ma_world \<sigma>) = Some (vs, env', w')"
    "args_code (map (\<lambda>a. \<lambda>h n. expr_code a h n) args) n = (rs, code, n')" "ma_params \<sigma> = []"
  shows "\<exists>\<sigma>'. exec_ops M code \<sigma> = Some \<sigma>' \<and> n \<le> n' \<and> (\<forall>k < n. ma_temps \<sigma>' k = ma_temps \<sigma> k) \<and> ma_params \<sigma>' = [] \<and>
    ma_world \<sigma>' = w' \<and> ma_env \<sigma>' = env' \<and> map (operand_value M \<sigma>') rs = vs"
  using assms
proof (induction args arbitrary: \<sigma> vs n rs code)
  case (Cons a args)
  obtain v1 env1 w1 vs1 where e: "eval M a (ma_env \<sigma>) (ma_world \<sigma>) = Some (v1, env1, w1)"
    "eval_args (typed_evals M args) env1 w1 = Some (vs1, env', w')" "vs = (expr_resolved a, v1) # vs1"
    using Cons.prems(3) by (auto simp: typed_evals_def bind_eq_Some_conv)
  obtain r1 code1 n1 rs1 code2 where c: "expr_code a None n = (r1, code1, n1)"
    "args_code (map (\<lambda>a. \<lambda>h n. expr_code a h n) args) n1 = (rs1, code2, n')" "rs = r1 # rs1" "code = code1 @ code2"
    using Cons.prems(4) by (auto split: prod.splits)
  have a: "code_correct M a" using Cons.prems(1) by simp
  obtain \<sigma>1 where 1: "exec_ops M code1 \<sigma> = Some \<sigma>1" "expr_result M a None n n1 r1 \<sigma> \<sigma>1 v1 env1 w1"
    by (rule code_correct_operand [OF a e(1) c(1) refl refl Cons.prems(5)])
  then have \<sigma>1: "ma_env \<sigma>1 = env1" "ma_world \<sigma>1 = w1" "ma_params \<sigma>1 = []" by (simp_all add: expr_result_def)
  obtain \<sigma>2 where 2: "exec_ops M code2 \<sigma>1 = Some \<sigma>2" "n1 \<le> n'" "\<forall>k < n1. ma_temps \<sigma>2 k = ma_temps \<sigma>1 k" "ma_params \<sigma>2 = []"
    "ma_world \<sigma>2 = w'" "ma_env \<sigma>2 = env'" "map (operand_value M \<sigma>2) rs1 = vs1"
    using Cons.IH [of \<sigma>1 vs1 n1 rs1 code2] Cons.prems(1,2) e(2) c(2) \<sigma>1 by auto
  have "operand_value M \<sigma>2 r1 = operand_value M \<sigma>1 r1"
  proof (rule operand_stable)
    show "reads_from n1 (set_option (expr_var a)) r1" using 1(2) by (simp add: expr_result_def)
    show "\<forall>k < n1. ma_temps \<sigma>2 k = ma_temps \<sigma>1 k" by (rule 2(3))
    show "\<forall>x \<in> set_option (expr_var a). ma_env \<sigma>2 x = ma_env \<sigma>1 x"
      using eval_args_keep [OF e(2)] Cons.prems(2) by (auto simp: 2(6) \<sigma>1)
  qed
  then have "operand_value M \<sigma>2 r1 = (expr_resolved a, v1)"
    using 1(2) Cons.prems(1) by (simp add: expr_result_def)
  then show ?case using 1 2 by (auto simp: c(3,4) e(3) expr_result_def)
qed (auto simp: typed_evals_def)

lemma exec_call:
  "exec_op M (operation SF_IR_OPCODE_CALL dst (SF_IR_OPERAND_TYPE_FUNCTION t f) c) \<sigma> =
     map_option (\<lambda>(v, w). write_operand dst v (\<sigma>\<lparr>ma_params := [], ma_world := w\<rparr>)) (me_call M f (ma_params \<sigma>) (ma_world \<sigma>))"
  by (simp add: exec_op_def)

lemma correct_call:
  assumes "\<forall>a \<in> set args. code_correct M a" "lowerable (SF_NODE_FUNC_CALL b callee link args)"
  shows "code_correct M (SF_NODE_FUNC_CALL b callee link args)"
  unfolding code_correct_def
proof (intro allI impI)
  fix env w v env' w' hint n res code n' and \<sigma> :: "('a, 'b) machine"
  let ?e = "SF_NODE_FUNC_CALL b callee link args"
  assume ev: "eval M ?e env w = Some (v, env', w')" and code: "expr_code ?e hint n = (res, code, n')" and hint: "hint_ok ?e hint"
    and \<sigma>: "ma_env \<sigma> = env" "ma_world \<sigma> = w" "ma_params \<sigma> = []"
  obtain vs w1 where e: "eval_args (typed_evals M args) env w = Some (vs, env', w1)" "me_call M (callee_link callee link) vs w1 = Some (v, w')"
    using ev by (auto simp: typed_evals_def bind_eq_Some_conv)
  obtain rs code1 n1 where c: "args_code (map (\<lambda>a. \<lambda>h n. expr_code a h n) args) n = (rs, code1, n1)" by (rule prod_cases3)
  have low: "\<forall>a \<in> set args. code_correct M a \<and> expr_resolved a \<noteq> SF_VAL_TYPE_VOID"
    "sorted_wrt (\<lambda>a a'. set_option (expr_var a) \<inter> modified a' = {}) args" using assms by simp_all
  obtain \<sigma>1 where 1: "exec_ops M code1 \<sigma> = Some \<sigma>1" "n \<le> n1" "\<forall>k < n. ma_temps \<sigma>1 k = ma_temps \<sigma> k" "ma_params \<sigma>1 = []"
    "ma_world \<sigma>1 = w1" "ma_env \<sigma>1 = env'" "map (operand_value M \<sigma>1) rs = vs"
    using correct_args [OF low _ c \<sigma>(3)] e(1) \<sigma> by auto
  obtain dst n2 where d: "(if ab_resolved b = SF_VAL_TYPE_VOID then (k_no_operand, n1) else dest_code hint (ab_resolved b) n1) = (dst, n2)"
    by fastforce
  have eqs: "res = dst" "n' = n2" "code = code1 @ param_code rs @
      [operation SF_IR_OPCODE_CALL dst (SF_IR_OPERAND_TYPE_FUNCTION (ab_resolved b) (callee_link callee link)) k_no_operand]"
    using code c d by auto
  let ?\<sigma>2 = "\<sigma>1\<lparr>ma_params := [], ma_world := w'\<rparr>"
  have run: "exec_ops M code \<sigma> = Some (write_operand dst v ?\<sigma>2)"
    using 1 e(2) by (simp add: eqs exec_params exec_call)
  have pre: "\<forall>k < n. ma_temps ?\<sigma>2 k = ma_temps \<sigma> k" "n \<le> n1" "ma_params ?\<sigma>2 = []" "ma_world ?\<sigma>2 = w'" "ma_env ?\<sigma>2 = env'"
    using 1 by auto
  show "\<exists>\<sigma>'. exec_ops M code \<sigma> = Some \<sigma>' \<and> expr_result M ?e hint n n' res \<sigma> \<sigma>' v env' w'"
  proof (cases "ab_resolved b = SF_VAL_TYPE_VOID")
    case True
    then have "hinted_env ?e hint v env' = env'" by (cases hint; cases "the hint") auto
    then show ?thesis using run d True pre by (auto simp: eqs expr_result_def)
  next
    case False
    then have "dest_code hint (expr_resolved ?e) n1 = (dst, n2)" using d by simp
    from expr_result_write(1) [OF this _ hint _ pre, where M = M and v = v] False show ?thesis using run by (simp add: eqs)
  qed
qed

lemma expr_code_correct:
  assumes "\<forall>t v. me_convert M t (t, v) = v"
  shows "lowerable e \<Longrightarrow> code_correct M e"
proof (induction e)
  case (SF_NODE_BINARY b l r op)
  then show ?case by (intro correct_binary) simp_all
next
  case (SF_NODE_UNARY b e op)
  show ?case
  proof (cases "sf_type_is_increment_or_decrement op")
    case True
    then show ?thesis by (rule correct_increment [OF assms SF_NODE_UNARY.prems])
  next
    case False
    moreover have "code_correct M e" using SF_NODE_UNARY by simp
    ultimately show ?thesis using correct_unary [OF _ SF_NODE_UNARY.prems] by blast
  qed
next
  case (SF_NODE_CAST b e t)
  then show ?case by (intro correct_cast) simp_all
next
  case (SF_NODE_FUNC_CALL b callee link args)
  then show ?case by (intro correct_call) auto
next
  case (SF_NODE_LITERAL b tt v)
  have "hinted_env (SF_NODE_LITERAL b tt v) hint x env = env" for hint x and env :: "string \<Rightarrow> 'a"
    by (cases hint; cases "the hint") auto
  then show ?case
    by (auto simp: code_correct_def expr_result_def generate_literal_def new_immediate_def Let_def literal_text_def)
next
  case (SF_NODE_IDENTIFIER b name d vid s)
  have "hinted_env (SF_NODE_IDENTIFIER b name d vid s) hint x env = env" for hint x and env :: "string \<Rightarrow> 'a"
    by (cases hint; cases "the hint") auto
  then show ?case by (auto simp: code_correct_def expr_result_def generate_identifier_def)
qed

end
