(* ===== verification/Ir_Refine.thy ===== *)
theory Ir_Refine
  imports Ir_Semantics
begin

text \<open>
  Statements and the control flow of the code that is made from them. \<open>executes\<close> is the big-step
  meaning of the annotated statements, \<open>ir_next\<close> the small-step meaning of the operations of a
  function at a position, and \<open>ir_run\<close> follows them with fuel to a return. A run of a statement
  that ends is followed by the code of the statement wherever it stands in a function whose
  labels are distinct.
\<close>

section \<open>Statements of the source\<close>

datatype 'v outcome =
    Continue
  | Return "(sf_value_type \<times> 'v) option"

inductive executes :: "('v, 'w) meaning \<Rightarrow> sf_stmt \<Rightarrow> (string \<Rightarrow> 'v) \<Rightarrow> 'w \<Rightarrow> 'v outcome \<Rightarrow> (string \<Rightarrow> 'v) \<Rightarrow> 'w \<Rightarrow> bool"
  for M :: "('v, 'w) meaning" where
  decl_empty: "executes M (SF_NODE_VAR_DECL b q t name vid None) env w Continue env w"
| decl: "eval M e env w = Some (v, env', w') \<Longrightarrow>
    executes M (SF_NODE_VAR_DECL b q t name vid (Some e)) env w Continue
      (env'(mangled_variable name vid := me_convert M t (expr_resolved e, v))) w'"
| assign: "eval M e env w = Some (v, env', w') \<Longrightarrow>
    executes M (SF_NODE_VAR_ASSIGN b name e vid) env w Continue
      (env'(mangled_variable name vid := me_convert M (ab_resolved b) (expr_resolved e, v))) w'"
| block_end: "executes M (SF_NODE_BLOCK b []) env w Continue env w"
| block_next: "executes M st env w Continue env1 w1 \<Longrightarrow> executes M (SF_NODE_BLOCK b sts) env1 w1 out env2 w2 \<Longrightarrow>
    executes M (SF_NODE_BLOCK b (st # sts)) env w out env2 w2"
| block_return: "executes M st env w (Return r) env1 w1 \<Longrightarrow> executes M (SF_NODE_BLOCK b (st # sts)) env w (Return r) env1 w1"
| if_true: "eval M c env w = Some (v, env1, w1) \<Longrightarrow> me_true M v \<Longrightarrow> executes M t env1 w1 out env2 w2 \<Longrightarrow>
    executes M (SF_NODE_IF b c t e) env w out env2 w2"
| if_false: "eval M c env w = Some (v, env1, w1) \<Longrightarrow> \<not> me_true M v \<Longrightarrow>
    executes M (SF_NODE_IF b c t None) env w Continue env1 w1"
| if_else: "eval M c env w = Some (v, env1, w1) \<Longrightarrow> \<not> me_true M v \<Longrightarrow> executes M e env1 w1 out env2 w2 \<Longrightarrow>
    executes M (SF_NODE_IF b c t (Some e)) env w out env2 w2"
| while_end: "eval M c env w = Some (v, env1, w1) \<Longrightarrow> \<not> me_true M v \<Longrightarrow> executes M (SF_NODE_WHILE b c d) env w Continue env1 w1"
| while_next: "eval M c env w = Some (v, env1, w1) \<Longrightarrow> me_true M v \<Longrightarrow> executes M d env1 w1 Continue env2 w2 \<Longrightarrow>
    executes M (SF_NODE_WHILE b c d) env2 w2 out env3 w3 \<Longrightarrow> executes M (SF_NODE_WHILE b c d) env w out env3 w3"
| while_return: "eval M c env w = Some (v, env1, w1) \<Longrightarrow> me_true M v \<Longrightarrow> executes M d env1 w1 (Return r) env2 w2 \<Longrightarrow>
    executes M (SF_NODE_WHILE b c d) env w (Return r) env2 w2"
| func: "executes M (SF_NODE_FUNC_DECL b name link q ps t body) env w Continue env w"
| return_none: "executes M (SF_NODE_RETURN b None) env w (Return None) env w"
| return_value: "eval M e env w = Some (v, env', w') \<Longrightarrow>
    executes M (SF_NODE_RETURN b (Some e)) env w (Return (Some (expr_resolved e, v))) env' w'"
| expr: "eval M e env w = Some (v, env', w') \<Longrightarrow> executes M (SF_STMT_EXPR e) env w Continue env' w'"

code_pred (modes: i \<Rightarrow> i \<Rightarrow> i \<Rightarrow> i \<Rightarrow> o \<Rightarrow> o \<Rightarrow> o \<Rightarrow> bool) executes .

text \<open>What the lowering needs of the statements: expressions that are lowered in order, and an
  expression that writes its destination has the type of the destination.\<close>

definition value_ok :: "sf_expr \<Rightarrow> bool" where
  "value_ok e \<longleftrightarrow> lowerable e \<and> expr_resolved e \<noteq> SF_VAL_TYPE_VOID"

definition assign_ok :: "sf_value_type \<Rightarrow> string \<Rightarrow> sf_expr \<Rightarrow> bool" where
  "assign_ok t x e \<longleftrightarrow> value_ok e \<and> (writes_hint e \<or> expr_var e = Some x \<longrightarrow> expr_resolved e = t)"

fun stmt_ok :: "sf_stmt \<Rightarrow> bool" where
  "stmt_ok (SF_NODE_VAR_DECL b q t name vid v) \<longleftrightarrow> (case v of None \<Rightarrow> True | Some e \<Rightarrow> assign_ok t (mangled_variable name vid) e)"
| "stmt_ok (SF_NODE_VAR_ASSIGN b name e vid) \<longleftrightarrow> assign_ok (ab_resolved b) (mangled_variable name vid) e"
| "stmt_ok (SF_NODE_BLOCK b sts) \<longleftrightarrow> (\<forall>st \<in> set sts. stmt_ok st)"
| "stmt_ok (SF_NODE_IF b c t e) \<longleftrightarrow> value_ok c \<and> stmt_ok t \<and> (case e of None \<Rightarrow> True | Some st \<Rightarrow> stmt_ok st)"
| "stmt_ok (SF_NODE_WHILE b c d) \<longleftrightarrow> value_ok c \<and> stmt_ok d"
| "stmt_ok (SF_NODE_FUNC_DECL b name link q ps t body) \<longleftrightarrow> True"
| "stmt_ok (SF_NODE_RETURN b v) \<longleftrightarrow> (case v of None \<Rightarrow> True | Some e \<Rightarrow> value_ok e)"
| "stmt_ok (SF_STMT_EXPR e) \<longleftrightarrow> lowerable e"

section \<open>Control flow of the operations\<close>

fun find_label :: "sf_ir_operation list \<Rightarrow> nat \<Rightarrow> nat option" where
  "find_label [] l = None"
| "find_label (op # ops) l =
     (if io_opcode op = SF_IR_OPCODE_LABEL \<and> label_id (io_operand1 op) = l then Some 0
      else map_option Suc (find_label ops l))"

definition ir_next :: "('v, 'w) meaning \<Rightarrow> sf_ir_operation list \<Rightarrow> nat \<Rightarrow> ('v, 'w) machine \<Rightarrow>
   (nat \<times> ('v, 'w) machine) option" where
  "ir_next M ops pc \<sigma> =
     (if length ops \<le> pc then None
      else (let op = ops ! pc; target = find_label ops (label_id (io_operand1 op))
            in if io_opcode op = SF_IR_OPCODE_RETURN then None
               else if io_opcode op = SF_IR_OPCODE_JMP_INCOND then map_option (\<lambda>k. (k, \<sigma>)) target
               else if io_opcode op = SF_IR_OPCODE_JMP_COND
               then (if me_true M (snd (operand_value M \<sigma> (io_operand2 op))) then Some (pc + 1, \<sigma>)
                     else map_option (\<lambda>k. (k, \<sigma>)) target)
               else map_option (\<lambda>\<sigma>'. (pc + 1, \<sigma>')) (exec_op M op \<sigma>)))"

definition ir_return :: "('v, 'w) meaning \<Rightarrow> sf_ir_operation list \<Rightarrow> nat \<Rightarrow> ('v, 'w) machine \<Rightarrow> (sf_value_type \<times> 'v) option option" where
  "ir_return M ops pc \<sigma> =
     (if pc < length ops \<and> io_opcode (ops ! pc) = SF_IR_OPCODE_RETURN
      then Some (if io_operand1 (ops ! pc) = k_no_operand then None else Some (operand_value M \<sigma> (io_operand1 (ops ! pc))))
      else None)"

fun ir_run :: "('v, 'w) meaning \<Rightarrow> sf_ir_operation list \<Rightarrow> nat \<Rightarrow> nat \<Rightarrow> ('v, 'w) machine \<Rightarrow>
   ((sf_value_type \<times> 'v) option \<times> (string \<Rightarrow> 'v) \<times> 'w) option" where
  "ir_run M ops 0 pc \<sigma> = None"
| "ir_run M ops (Suc fuel) pc \<sigma> =
     (case ir_return M ops pc \<sigma> of
        Some r \<Rightarrow> Some (r, ma_env \<sigma>, ma_world \<sigma>)
      | None \<Rightarrow> (case ir_next M ops pc \<sigma> of None \<Rightarrow> None | Some (pc', \<sigma>') \<Rightarrow> ir_run M ops fuel pc' \<sigma>'))"

inductive ir_reaches :: "('v, 'w) meaning \<Rightarrow> sf_ir_operation list \<Rightarrow> nat \<Rightarrow> ('v, 'w) machine \<Rightarrow> nat \<Rightarrow> ('v, 'w) machine \<Rightarrow> bool"
  for M ops where
  here: "ir_reaches M ops pc \<sigma> pc \<sigma>"
| step: "ir_next M ops pc \<sigma> = Some (pc1, \<sigma>1) \<Longrightarrow> ir_reaches M ops pc1 \<sigma>1 pc2 \<sigma>2 \<Longrightarrow> ir_reaches M ops pc \<sigma> pc2 \<sigma>2"

lemma ir_reaches_trans [trans]:
  "ir_reaches M ops pc \<sigma> pc1 \<sigma>1 \<Longrightarrow> ir_reaches M ops pc1 \<sigma>1 pc2 \<sigma>2 \<Longrightarrow> ir_reaches M ops pc \<sigma> pc2 \<sigma>2"
  by (induction rule: ir_reaches.induct) (auto intro: ir_reaches.intros)

lemma ir_reaches_one: "ir_next M ops pc \<sigma> = Some (pc1, \<sigma>1) \<Longrightarrow> ir_reaches M ops pc \<sigma> pc1 \<sigma>1"
  by (auto intro: ir_reaches.intros)

lemma ir_next_return: "ir_next M ops pc \<sigma> = Some s \<Longrightarrow> ir_return M ops pc \<sigma> = None"
  by (auto simp: ir_next_def ir_return_def Let_def split: if_splits)

lemma ir_run_reaches:
  "ir_reaches M ops pc \<sigma> pc' \<sigma>' \<Longrightarrow> ir_return M ops pc' \<sigma>' = Some r \<Longrightarrow>
   \<exists>fuel. ir_run M ops fuel pc \<sigma> = Some (r, ma_env \<sigma>', ma_world \<sigma>')"
proof (induction rule: ir_reaches.induct)
  case (here pc \<sigma>)
  then show ?case by (intro exI [of _ 1]) simp
next
  case (step pc \<sigma> pc1 \<sigma>1 pc2 \<sigma>2)
  then obtain fuel where "ir_run M ops fuel pc1 \<sigma>1 = Some (r, ma_env \<sigma>2, ma_world \<sigma>2)" by blast
  then show ?case using step.hyps(1) ir_next_return [OF step.hyps(1)] by (intro exI [of _ "Suc fuel"]) simp
qed

lemma ir_run_more: "ir_run M ops fuel pc \<sigma> = Some r \<Longrightarrow> fuel \<le> fuel' \<Longrightarrow> ir_run M ops fuel' pc \<sigma> = Some r"
proof (induction fuel arbitrary: pc \<sigma> fuel')
  case (Suc fuel)
  then obtain k where k: "fuel' = Suc k" "fuel \<le> k" by (cases fuel') auto
  show ?case
    using Suc.prems(1) Suc.IH [OF _ k(2)] by (auto simp: k(1) split: option.splits)
qed simp

text \<open>Straight-line code in the middle of a function.\<close>

lemma ir_next_straight:
  "pc < length ops \<Longrightarrow> straight [ops ! pc] \<Longrightarrow> ir_next M ops pc \<sigma> = map_option (\<lambda>\<sigma>'. (pc + 1, \<sigma>')) (exec_op M (ops ! pc) \<sigma>)"
  by (auto simp: ir_next_def Let_def)

lemma ir_reaches_straight:
  "straight code \<Longrightarrow> exec_ops M code \<sigma> = Some \<sigma>' \<Longrightarrow>
   ir_reaches M (pre @ code @ post) (length pre) \<sigma> (length pre + length code) \<sigma>'"
proof (induction code arbitrary: pre \<sigma>)
  case (Cons op code)
  obtain \<sigma>1 where s: "exec_op M op \<sigma> = Some \<sigma>1" "exec_ops M code \<sigma>1 = Some \<sigma>'"
    using Cons.prems(2) by (auto simp: bind_eq_Some_conv)
  have "ir_next M (pre @ (op # code) @ post) (length pre) \<sigma> = Some (length pre + 1, \<sigma>1)"
    using ir_next_straight [of "length pre" "pre @ (op # code) @ post" M \<sigma>] Cons.prems(1) s(1) by (simp add: nth_append)
  moreover have "ir_reaches M (pre @ (op # code) @ post) (length pre + 1) \<sigma>1 (length pre + length (op # code)) \<sigma>'"
    using Cons.IH [of \<sigma>1 "pre @ [op]"] Cons.prems(1) s(2) by simp
  ultimately show ?case by (rule ir_reaches.step)
qed (auto intro: ir_reaches.here)

lemma find_label_at:
  "l \<notin> set (labels_of pre) \<Longrightarrow> find_label (pre @ label_op l # post) l = Some (length pre)"
  by (induction pre) auto

lemma find_label_distinct:
  "distinct (labels_of (pre @ label_op l # post)) \<Longrightarrow> find_label (pre @ label_op l # post) l = Some (length pre)"
  by (rule find_label_at) auto

lemma find_label_less: "find_label ops l = Some k \<Longrightarrow> k < length ops"
  by (induction ops arbitrary: k) (auto split: if_splits)

lemma ir_next_control:
  "ir_next M (pre @ label_op l # post) (length pre) \<sigma> = Some (length pre + 1, \<sigma>)"
  "ir_next M (pre @ jump_op l # post) (length pre) \<sigma> = map_option (\<lambda>k. (k, \<sigma>)) (find_label (pre @ jump_op l # post) l)"
  "ir_next M (pre @ branch_op l c # post) (length pre) \<sigma> =
     (if me_true M (snd (operand_value M \<sigma> c)) then Some (length pre + 1, \<sigma>)
      else map_option (\<lambda>k. (k, \<sigma>)) (find_label (pre @ branch_op l c # post) l))"
  by (simp_all add: ir_next_def Let_def exec_op_def label_op_def jump_op_def branch_op_def)

section \<open>The code of a statement follows its run\<close>

definition agrees :: "('v, 'w) machine \<Rightarrow> (string \<Rightarrow> 'v) \<Rightarrow> 'w \<Rightarrow> bool" where
  "agrees \<sigma> env w \<longleftrightarrow> ma_env \<sigma> = env \<and> ma_world \<sigma> = w \<and> ma_params \<sigma> = []"

definition runs_as :: "('v, 'w) meaning \<Rightarrow> sf_ir_operation list \<Rightarrow> nat \<Rightarrow> ('v, 'w) machine \<Rightarrow> nat \<Rightarrow> 'v outcome \<Rightarrow>
   (string \<Rightarrow> 'v) \<Rightarrow> 'w \<Rightarrow> bool" where
  "runs_as M ops pc \<sigma> stop out env w \<longleftrightarrow>
     (case out of
        Continue \<Rightarrow> \<exists>\<sigma>'. ir_reaches M ops pc \<sigma> stop \<sigma>' \<and> agrees \<sigma>' env w
      | Return r \<Rightarrow> \<exists>pc' \<sigma>'. ir_reaches M ops pc \<sigma> pc' \<sigma>' \<and> ir_return M ops pc' \<sigma>' = Some r \<and> agrees \<sigma>' env w)"

lemma runs_as_after: "ir_reaches M ops pc \<sigma> pc1 \<sigma>1 \<Longrightarrow> runs_as M ops pc1 \<sigma>1 stop out env w \<Longrightarrow> runs_as M ops pc \<sigma> stop out env w"
  unfolding runs_as_def by (cases out) (auto intro: ir_reaches_trans)

lemma runs_as_continue: "ir_reaches M ops pc \<sigma> pc1 \<sigma>1 \<Longrightarrow> agrees \<sigma>1 env w \<Longrightarrow> runs_as M ops pc \<sigma> pc1 Continue env w"
  by (auto simp: runs_as_def)

lemma runs_as_ContinueE:
  assumes "runs_as M ops pc \<sigma> stop Continue env w"
  obtains \<sigma>' where "ir_reaches M ops pc \<sigma> stop \<sigma>'" "agrees \<sigma>' env w"
  using assms by (auto simp: runs_as_def)

lemma runs_as_Return: "runs_as M ops pc \<sigma> stop (Return r) env w \<longleftrightarrow> runs_as M ops pc \<sigma> stop' (Return r) env w"
  by (simp add: runs_as_def)

lemma expr_code_runs:
  assumes conv: "\<forall>t v. me_convert M t (t, v) = v"
    and "eval M e env w = Some (v, env', w')" "lowerable e" "expr_code e None n = (r, code, n')" "agrees \<sigma> env w"
  obtains \<sigma>' where "ir_reaches M (pre @ code @ post) (length pre) \<sigma> (length pre + length code) \<sigma>'" "agrees \<sigma>' env' w'"
    "expr_resolved e \<noteq> SF_VAL_TYPE_VOID \<Longrightarrow> operand_value M \<sigma>' r = (expr_resolved e, v)"
proof -
  have \<sigma>: "ma_env \<sigma> = env" "ma_world \<sigma> = w" "ma_params \<sigma> = []" using assms(5) by (simp_all add: agrees_def)
  obtain \<sigma>' where s: "exec_ops M code \<sigma> = Some \<sigma>'" "expr_result M e None n n' r \<sigma> \<sigma>' v env' w'"
    by (rule code_correct_operand [OF expr_code_correct [OF conv assms(3)] assms(2,4) \<sigma>])
  show thesis
    by (rule that [OF ir_reaches_straight [OF expr_code_straight [OF assms(4)] s(1)]])
      (use s(2) in \<open>simp_all add: expr_result_def agrees_def\<close>)
qed

lemma hinted_variable:
  "expr_code e (Some (SF_IR_OPERAND_TYPE_VARIABLE t x)) n = (SF_IR_OPERAND_TYPE_VARIABLE t' y, code, n') \<Longrightarrow>
   writes_hint e \<and> y = x \<or> \<not> writes_hint e \<and> expr_var e = Some y"
  by (cases e) (auto simp: dest_code_def increment_code_def Let_def generate_literal_def new_immediate_def
      generate_identifier_def split: prod.splits if_splits)

lemma writes_hint_result:
  "expr_code e (Some dst) n = (r, code, n') \<Longrightarrow> writes_hint e \<Longrightarrow> r = dst"
  by (cases e) (auto simp: dest_code_def split: prod.splits if_splits)

lemma assign_code_straight: "assign_code t x e n = (code, n') \<Longrightarrow> straight code"
  by (auto simp: assign_code_def Let_def dest: expr_code_straight split: prod.splits sf_ir_operand.splits if_splits)

lemma assign_code_executes:
  assumes conv: "\<forall>t v. me_convert M t (t, v) = v"
    and "eval M e env w = Some (v, env', w')" "assign_ok t x e" "assign_code t x e n = (code, n')" "agrees \<sigma> env w"
  shows "\<exists>\<sigma>'. exec_ops M code \<sigma> = Some \<sigma>' \<and> agrees \<sigma>' (env'(x := me_convert M t (expr_resolved e, v))) w'"
proof -
  let ?dst = "SF_IR_OPERAND_TYPE_VARIABLE t x"
  have ok: "lowerable e" "expr_resolved e \<noteq> SF_VAL_TYPE_VOID" "writes_hint e \<or> expr_var e = Some x \<longrightarrow> expr_resolved e = t"
    using assms(3) by (simp_all add: assign_ok_def value_ok_def)
  have \<sigma>: "eval M e (ma_env \<sigma>) (ma_world \<sigma>) = Some (v, env', w')" "ma_params \<sigma> = []" using assms(2,5) by (simp_all add: agrees_def)
  obtain r code1 n1 where c: "expr_code e (Some ?dst) n = (r, code1, n1)" by (rule prod_cases3)
  have hint: "hint_ok e (Some ?dst)" using ok by (simp add: hint_ok_def)
  obtain \<sigma>' where s: "exec_ops M code1 \<sigma> = Some \<sigma>'" "expr_result M e (Some ?dst) n n1 r \<sigma> \<sigma>' v env' w'"
    by (rule code_correctD [OF expr_code_correct [OF conv ok(1)] \<sigma>(1) c hint \<sigma>(2)])
  then have s': "ma_env \<sigma>' = hinted_env e (Some ?dst) v env'" "ma_world \<sigma>' = w'" "ma_params \<sigma>' = []"
    "operand_value M \<sigma>' r = (expr_resolved e, v)" using ok by (simp_all add: expr_result_def)
  show ?thesis
  proof (cases "writes_hint e")
    case True
    then have "r = ?dst" using writes_hint_result c by blast
    then have "code = code1" using assms(4) c by (simp add: assign_code_def)
    then show ?thesis using s(1) s' True ok conv by (auto simp: agrees_def)
  next
    case False
    show ?thesis
    proof (cases "\<exists>t'. r = SF_IR_OPERAND_TYPE_VARIABLE t' x")
      case True
      then obtain t' where r: "r = SF_IR_OPERAND_TYPE_VARIABLE t' x" by blast
      have "expr_var e = Some x" using hinted_variable c r False by blast
      then have "expr_resolved e = t" "env' x = v" using ok s'(1,4) False r by auto
      moreover have "code = code1" using assms(4) c r by (simp add: assign_code_def)
      ultimately show ?thesis using s(1) s' False conv by (auto simp: agrees_def)
    next
      case other: False
      then have "code = code1 @ [operation SF_IR_OPCODE_ASSIGN ?dst r k_no_operand]"
        using assms(4) c by (auto simp: assign_code_def Let_def split: sf_ir_operand.splits if_splits)
      then show ?thesis using s(1) s' False by (auto simp: agrees_def exec_simple)
    qed
  qed
qed

text \<open>A statement at a place: its code stands after \<open>pre\<close> in operations with distinct labels.\<close>

definition follows :: "('v, 'w) meaning \<Rightarrow> sf_stmt \<Rightarrow> (string \<Rightarrow> 'v) \<Rightarrow> 'w \<Rightarrow> 'v outcome \<Rightarrow> (string \<Rightarrow> 'v) \<Rightarrow> 'w \<Rightarrow> bool" where
  "follows M st env w out env' w' \<longleftrightarrow> (\<forall>n l code n' l' fs ops pre post \<sigma>.
     stmt_ok st \<longrightarrow> stmt_code st n l = (code, n', l', fs) \<longrightarrow> ops = pre @ code @ post \<longrightarrow> distinct (labels_of ops) \<longrightarrow>
     agrees \<sigma> env w \<longrightarrow> runs_as M ops (length pre) \<sigma> (length pre + length code) out env' w')"

lemma followsI:
  assumes "\<And>n l code n' l' fs ops pre post \<sigma>. stmt_ok st \<Longrightarrow> stmt_code st n l = (code, n', l', fs) \<Longrightarrow> ops = pre @ code @ post \<Longrightarrow>
     distinct (labels_of ops) \<Longrightarrow> agrees \<sigma> env w \<Longrightarrow> runs_as M ops (length pre) \<sigma> (length pre + length code) out env' w'"
  shows "follows M st env w out env' w'"
  using assms unfolding follows_def by blast

lemma followsD:
  assumes "follows M st env w out env' w'" "stmt_ok st" "stmt_code st n l = (code, n', l', fs)" "ops = pre @ code @ post"
    "distinct (labels_of ops)" "agrees \<sigma> env w"
  shows "runs_as M ops (length pre) \<sigma> (length pre + length code) out env' w'"
  using assms unfolding follows_def by blast

lemma follows_assign:
  assumes conv: "\<forall>t v. me_convert M t (t, v) = v"
    and "eval M e env w = Some (v, env', w')" "assign_ok t x e" "assign_code t x e n = (code, n')" "agrees \<sigma> env w"
    "ops = pre @ code @ post"
  shows "runs_as M ops (length pre) \<sigma> (length pre + length code) Continue (env'(x := me_convert M t (expr_resolved e, v))) w'"
proof -
  obtain \<sigma>' where s: "exec_ops M code \<sigma> = Some \<sigma>'" "agrees \<sigma>' (env'(x := me_convert M t (expr_resolved e, v))) w'"
    using assign_code_executes [OF assms(1-5)] by blast
  show ?thesis
    unfolding assms(6) by (rule runs_as_continue [OF ir_reaches_straight [OF assign_code_straight [OF assms(4)] s(1)] s(2)])
qed

lemma follows_block_next:
  assumes "follows M st env w Continue env1 w1" "follows M (SF_NODE_BLOCK b sts) env1 w1 out env2 w2"
  shows "follows M (SF_NODE_BLOCK b (st # sts)) env w out env2 w2"
proof (rule followsI)
  fix n l code n' l' fs ops pre post \<sigma>
  assume ok: "stmt_ok (SF_NODE_BLOCK b (st # sts))" and code: "stmt_code (SF_NODE_BLOCK b (st # sts)) n l = (code, n', l', fs)"
    and ops: "ops = pre @ code @ post" and dist: "distinct (labels_of ops)" and \<sigma>: "agrees \<sigma> env w"
  obtain code1 n1 l1 fs1 where c1: "stmt_code st n l = (code1, n1, l1, fs1)" by (rule prod_cases4)
  obtain code2 n2 l2 fs2 where c2: "stmt_code (SF_NODE_BLOCK b sts) n1 l1 = (code2, n2, l2, fs2)" by (rule prod_cases4)
  have code_eq: "code = code1 @ code2" using code c1 c2 by simp
  have "runs_as M ops (length pre) \<sigma> (length pre + length code1) Continue env1 w1"
    by (rule followsD [OF assms(1) _ c1 _ dist \<sigma>]) (use ok ops code_eq in simp_all)
  then obtain \<sigma>1 where s: "ir_reaches M ops (length pre) \<sigma> (length pre + length code1) \<sigma>1" "agrees \<sigma>1 env1 w1"
    by (rule runs_as_ContinueE)
  have "runs_as M ops (length (pre @ code1)) \<sigma>1 (length (pre @ code1) + length code2) out env2 w2"
    by (rule followsD [OF assms(2) _ c2 _ dist s(2)]) (use ok ops code_eq in simp_all)
  then show "runs_as M ops (length pre) \<sigma> (length pre + length code) out env2 w2"
    using runs_as_after [OF s(1)] by (simp add: code_eq add.assoc)
qed

lemma follows_block_return:
  assumes "follows M st env w (Return r) env1 w1"
  shows "follows M (SF_NODE_BLOCK b (st # sts)) env w (Return r) env1 w1"
proof (rule followsI)
  fix n l code n' l' fs ops pre post \<sigma>
  assume ok: "stmt_ok (SF_NODE_BLOCK b (st # sts))" and code: "stmt_code (SF_NODE_BLOCK b (st # sts)) n l = (code, n', l', fs)"
    and ops: "ops = pre @ code @ post" and dist: "distinct (labels_of ops)" and \<sigma>: "agrees \<sigma> env w"
  obtain code1 n1 l1 fs1 where c1: "stmt_code st n l = (code1, n1, l1, fs1)" by (rule prod_cases4)
  obtain code2 n2 l2 fs2 where c2: "stmt_code (SF_NODE_BLOCK b sts) n1 l1 = (code2, n2, l2, fs2)" by (rule prod_cases4)
  have code_eq: "code = code1 @ code2" using code c1 c2 by simp
  have "runs_as M ops (length pre) \<sigma> (length pre + length code1) (Return r) env1 w1"
    by (rule followsD [OF assms(1) _ c1 _ dist \<sigma>]) (use ok ops code_eq in simp_all)
  then show "runs_as M ops (length pre) \<sigma> (length pre + length code) (Return r) env1 w1"
    by (simp only: runs_as_Return [where stop = "length pre + length code" and stop' = "length pre + length code1"])
qed

text \<open>Branches, jumps and labels.\<close>

lemma label_reaches: "ops = pre @ label_op k # post \<Longrightarrow> ir_reaches M ops (length pre) \<sigma> (length pre + 1) \<sigma>"
  by (simp only:) (rule ir_reaches_one [OF ir_next_control(1)])

lemma find_label_in: "ops = pre @ label_op k # post \<Longrightarrow> distinct (labels_of ops) \<Longrightarrow> find_label ops k = Some (length pre)"
  using find_label_distinct by blast

lemma jump_reaches: "ops = pre @ jump_op k # post \<Longrightarrow> find_label ops k = Some p \<Longrightarrow> ir_reaches M ops (length pre) \<sigma> p \<sigma>"
  by (rule ir_reaches_one) (simp add: ir_next_control)

lemma branch_reaches:
  assumes conv: "\<forall>t v. me_convert M t (t, v) = v"
    and "eval M c env w = Some (v, env', w')" "value_ok c" "expr_code c None n = (cond, code, n')" "agrees \<sigma> env w"
    and ops: "ops = pre @ code @ branch_op k cond # rest"
  obtains \<sigma>' where "agrees \<sigma>' env' w'"
    "me_true M v \<Longrightarrow> ir_reaches M ops (length pre) \<sigma> (length pre + length code + 1) \<sigma>'"
    "\<And>p. \<not> me_true M v \<Longrightarrow> find_label ops k = Some p \<Longrightarrow> ir_reaches M ops (length pre) \<sigma> p \<sigma>'"
proof -
  have ok: "lowerable c" "expr_resolved c \<noteq> SF_VAL_TYPE_VOID" using assms(3) by (simp_all add: value_ok_def)
  obtain \<sigma>' where s: "ir_reaches M ops (length pre) \<sigma> (length pre + length code) \<sigma>'" "agrees \<sigma>' env' w'"
    "operand_value M \<sigma>' cond = (expr_resolved c, v)"
    unfolding ops using expr_code_runs [OF conv assms(2) ok(1) assms(4,5)] ok(2) by metis
  have step: "ir_next M ops (length pre + length code) \<sigma>' =
     (if me_true M v then Some (length pre + length code + 1, \<sigma>') else map_option (\<lambda>k. (k, \<sigma>')) (find_label ops k))"
    using ir_next_control(3) [of M "pre @ code" k cond rest \<sigma>'] by (simp add: ops s(3))
  show thesis
  proof (rule that [OF s(2)])
    show "ir_reaches M ops (length pre) \<sigma> (length pre + length code + 1) \<sigma>'" if "me_true M v"
      using ir_reaches_trans [OF s(1) ir_reaches_one] step that by simp
    show "ir_reaches M ops (length pre) \<sigma> p \<sigma>'" if "\<not> me_true M v" "find_label ops k = Some p" for p
      using ir_reaches_trans [OF s(1) ir_reaches_one] step that by simp
  qed
qed

lemma if_code_none:
  assumes "stmt_code (SF_NODE_IF b c t None) n l = (code, n', l', fs)"
  obtains cond code1 n1 code2 n2 fs2 where "expr_code c None n = (cond, code1, n1)" "stmt_code t n1 (l + 1) = (code2, n2, l', fs2)"
    "code = code1 @ branch_op l cond # code2 @ [label_op l]"
proof -
  obtain cond code1 n1 where c: "expr_code c None n = (cond, code1, n1)" by (rule prod_cases3)
  obtain code2 n2 l2 fs2 where t: "stmt_code t n1 (l + 1) = (code2, n2, l2, fs2)" by (rule prod_cases4)
  show thesis using that c t assms by (simp add: if_code_def)
qed

lemma if_code_some:
  assumes "stmt_code (SF_NODE_IF b c t (Some e)) n l = (code, n', l', fs)"
  obtains cond code1 n1 code2 n2 l2 fs2 code3 n3 fs3 where "expr_code c None n = (cond, code1, n1)"
    "stmt_code t n1 (l + 2) = (code2, n2, l2, fs2)" "stmt_code e n2 l2 = (code3, n3, l', fs3)"
    "code = code1 @ branch_op l cond # code2 @ jump_op (l + 1) # label_op l # code3 @ [label_op (l + 1)]"
proof -
  obtain cond code1 n1 where c: "expr_code c None n = (cond, code1, n1)" by (rule prod_cases3)
  obtain code2 n2 l2 fs2 where t: "stmt_code t n1 (l + 2) = (code2, n2, l2, fs2)" by (rule prod_cases4)
  obtain code3 n3 l3 fs3 where e: "stmt_code e n2 l2 = (code3, n3, l3, fs3)" by (rule prod_cases4)
  show thesis using that c t e assms by (simp add: if_code_def)
qed

lemma while_code_parts:
  assumes "stmt_code (SF_NODE_WHILE b c d) n l = (code, n', l', fs)"
  obtains cond code1 n1 code2 n2 fs2 where "expr_code c None n = (cond, code1, n1)" "stmt_code d n1 (l + 2) = (code2, n2, l', fs2)"
    "code = label_op l # code1 @ branch_op (l + 1) cond # code2 @ [jump_op l, label_op (l + 1)]"
proof -
  obtain cond code1 n1 where c: "expr_code c None n = (cond, code1, n1)" by (rule prod_cases3)
  obtain code2 n2 l2 fs2 where t: "stmt_code d n1 (l + 2) = (code2, n2, l2, fs2)" by (rule prod_cases4)
  show thesis using that c t assms by (simp add: while_code_def)
qed

lemma runs_as_then:
  assumes "runs_as M ops pc \<sigma> mid out env w" "\<And>\<sigma>'. ir_reaches M ops mid \<sigma>' stop \<sigma>'"
  shows "runs_as M ops pc \<sigma> stop out env w"
  using assms unfolding runs_as_def by (cases out) (auto intro: ir_reaches_trans)

lemma follows_if_end:
  assumes conv: "\<forall>t v. me_convert M t (t, v) = v" and ev: "eval M c env w = Some (v, env1, w1)" "\<not> me_true M v"
  shows "follows M (SF_NODE_IF b c t None) env w Continue env1 w1"
proof (rule followsI)
  fix n l code n' l' fs ops pre post \<sigma>
  assume ok: "stmt_ok (SF_NODE_IF b c t None)" and code: "stmt_code (SF_NODE_IF b c t None) n l = (code, n', l', fs)"
    and ops: "ops = pre @ code @ post" and dist: "distinct (labels_of ops)" and \<sigma>: "agrees \<sigma> env w"
  obtain cond code1 n1 code2 n2 fs2 where c: "expr_code c None n = (cond, code1, n1)"
    "code = code1 @ branch_op l cond # code2 @ [label_op l]" by (rule if_code_none [OF code])
  have split: "ops = pre @ code1 @ branch_op l cond # code2 @ label_op l # post"
    "ops = (pre @ code1 @ branch_op l cond # code2) @ label_op l # post" using ops c(2) by simp_all
  obtain \<sigma>1 where s: "agrees \<sigma>1 env1 w1" "\<And>p. find_label ops l = Some p \<Longrightarrow> ir_reaches M ops (length pre) \<sigma> p \<sigma>1"
    using branch_reaches [OF conv ev(1) _ c(1) \<sigma> split(1)] ok ev(2) by auto
  from ir_reaches_trans [OF s(2) [OF find_label_in [OF split(2) dist]] label_reaches [OF split(2)]]
  show "runs_as M ops (length pre) \<sigma> (length pre + length code) Continue env1 w1"
    using runs_as_continue s(1) by (simp add: c(2) add.assoc)
qed

lemma follows_if_true:
  assumes conv: "\<forall>t v. me_convert M t (t, v) = v" and ev: "eval M c env w = Some (v, env1, w1)" "me_true M v"
    and body: "follows M t env1 w1 out env2 w2"
  shows "follows M (SF_NODE_IF b c t e) env w out env2 w2"
proof (cases e)
  case None
  show ?thesis
    unfolding None
  proof (rule followsI)
    fix n l code n' l' fs ops pre post \<sigma>
    assume ok: "stmt_ok (SF_NODE_IF b c t None)" and code: "stmt_code (SF_NODE_IF b c t None) n l = (code, n', l', fs)"
      and ops: "ops = pre @ code @ post" and dist: "distinct (labels_of ops)" and \<sigma>: "agrees \<sigma> env w"
    obtain cond code1 n1 code2 n2 fs2 where c: "expr_code c None n = (cond, code1, n1)"
      "stmt_code t n1 (l + 1) = (code2, n2, l', fs2)" "code = code1 @ branch_op l cond # code2 @ [label_op l]"
      by (rule if_code_none [OF code])
    let ?pre = "pre @ code1 @ [branch_op l cond]"
    have split: "ops = pre @ code1 @ branch_op l cond # code2 @ label_op l # post" "ops = ?pre @ code2 @ label_op l # post"
      "ops = (?pre @ code2) @ label_op l # post" using ops c(3) by simp_all
    obtain \<sigma>1 where s: "agrees \<sigma>1 env1 w1" "ir_reaches M ops (length pre) \<sigma> (length ?pre) \<sigma>1"
      using branch_reaches [OF conv ev(1) _ c(1) \<sigma> split(1)] ok ev(2) by auto
    have "runs_as M ops (length ?pre) \<sigma>1 (length (?pre @ code2)) out env2 w2"
      using followsD [OF body _ c(2) split(2) dist s(1)] ok by (simp add: add.assoc)
    from runs_as_then [OF runs_as_after [OF s(2) this] label_reaches [OF split(3)]]
    show "runs_as M ops (length pre) \<sigma> (length pre + length code) out env2 w2" by (simp add: c(3) add.assoc)
  qed
next
  case (Some el)
  show ?thesis
    unfolding Some
  proof (rule followsI)
    fix n l code n' l' fs ops pre post \<sigma>
    assume ok: "stmt_ok (SF_NODE_IF b c t (Some el))" and code: "stmt_code (SF_NODE_IF b c t (Some el)) n l = (code, n', l', fs)"
      and ops: "ops = pre @ code @ post" and dist: "distinct (labels_of ops)" and \<sigma>: "agrees \<sigma> env w"
    obtain cond code1 n1 code2 n2 l2 fs2 code3 n3 fs3 where c: "expr_code c None n = (cond, code1, n1)"
      "stmt_code t n1 (l + 2) = (code2, n2, l2, fs2)"
      "code = code1 @ branch_op l cond # code2 @ jump_op (l + 1) # label_op l # code3 @ [label_op (l + 1)]"
      by (rule if_code_some [OF code])
    let ?pre = "pre @ code1 @ [branch_op l cond]"
    let ?last = "?pre @ code2 @ jump_op (l + 1) # label_op l # code3"
    have split: "ops = pre @ code1 @ branch_op l cond # code2 @ jump_op (l + 1) # label_op l # code3 @ label_op (l + 1) # post"
      "ops = ?pre @ code2 @ jump_op (l + 1) # label_op l # code3 @ label_op (l + 1) # post"
      "ops = (?pre @ code2) @ jump_op (l + 1) # label_op l # code3 @ label_op (l + 1) # post"
      "ops = ?last @ label_op (l + 1) # post" using ops c(3) by simp_all
    obtain \<sigma>1 where s: "agrees \<sigma>1 env1 w1" "ir_reaches M ops (length pre) \<sigma> (length ?pre) \<sigma>1"
      using branch_reaches [OF conv ev(1) _ c(1) \<sigma> split(1)] ok ev(2) by auto
    have "runs_as M ops (length ?pre) \<sigma>1 (length (?pre @ code2)) out env2 w2"
      using followsD [OF body _ c(2) split(2) dist s(1)] ok by (simp add: add.assoc)
    note here = runs_as_after [OF s(2) this]
    have "ir_reaches M ops (length (?pre @ code2)) \<sigma>' (length ?last + 1) \<sigma>'" for \<sigma>'
      by (rule ir_reaches_trans [OF jump_reaches [OF split(3) find_label_in [OF split(4) dist]] label_reaches [OF split(4)]])
    from runs_as_then [OF here this]
    show "runs_as M ops (length pre) \<sigma> (length pre + length code) out env2 w2" by (simp add: c(3) add.assoc)
  qed
qed

lemma follows_if_else:
  assumes conv: "\<forall>t v. me_convert M t (t, v) = v" and ev: "eval M c env w = Some (v, env1, w1)" "\<not> me_true M v"
    and body: "follows M el env1 w1 out env2 w2"
  shows "follows M (SF_NODE_IF b c t (Some el)) env w out env2 w2"
proof (rule followsI)
  fix n l code n' l' fs ops pre post \<sigma>
  assume ok: "stmt_ok (SF_NODE_IF b c t (Some el))" and code: "stmt_code (SF_NODE_IF b c t (Some el)) n l = (code, n', l', fs)"
    and ops: "ops = pre @ code @ post" and dist: "distinct (labels_of ops)" and \<sigma>: "agrees \<sigma> env w"
  obtain cond code1 n1 code2 n2 l2 fs2 code3 n3 fs3 where c: "expr_code c None n = (cond, code1, n1)"
    "stmt_code el n2 l2 = (code3, n3, l', fs3)"
    "code = code1 @ branch_op l cond # code2 @ jump_op (l + 1) # label_op l # code3 @ [label_op (l + 1)]"
    by (rule if_code_some [OF code])
  let ?pre = "pre @ code1 @ branch_op l cond # code2 @ [jump_op (l + 1)]"
  have split: "ops = pre @ code1 @ branch_op l cond # code2 @ jump_op (l + 1) # label_op l # code3 @ label_op (l + 1) # post"
    "ops = ?pre @ label_op l # code3 @ label_op (l + 1) # post"
    "ops = (?pre @ [label_op l]) @ code3 @ label_op (l + 1) # post"
    "ops = (?pre @ label_op l # code3) @ label_op (l + 1) # post" using ops c(3) by simp_all
  obtain \<sigma>1 where s: "agrees \<sigma>1 env1 w1" "\<And>p. find_label ops l = Some p \<Longrightarrow> ir_reaches M ops (length pre) \<sigma> p \<sigma>1"
    using branch_reaches [OF conv ev(1) _ c(1) \<sigma> split(1)] ok ev(2) by auto
  have "runs_as M ops (length (?pre @ [label_op l])) \<sigma>1 (length (?pre @ label_op l # code3)) out env2 w2"
    using followsD [OF body _ c(2) split(3) dist s(1)] ok by (simp add: add.assoc)
  then have "runs_as M ops (length ?pre + 1) \<sigma>1 (length (?pre @ label_op l # code3)) out env2 w2" by simp
  from runs_as_then [OF runs_as_after [OF ir_reaches_trans [OF s(2) [OF find_label_in [OF split(2) dist]] label_reaches [OF split(2)]] this]
      label_reaches [OF split(4)]]
  show "runs_as M ops (length pre) \<sigma> (length pre + length code) out env2 w2" by (simp add: c(3) add.assoc)
qed

lemma follows_while_end:
  assumes conv: "\<forall>t v. me_convert M t (t, v) = v" and ev: "eval M c env w = Some (v, env1, w1)" "\<not> me_true M v"
  shows "follows M (SF_NODE_WHILE b c d) env w Continue env1 w1"
proof (rule followsI)
  fix n l code n' l' fs ops pre post \<sigma>
  assume ok: "stmt_ok (SF_NODE_WHILE b c d)" and code: "stmt_code (SF_NODE_WHILE b c d) n l = (code, n', l', fs)"
    and ops: "ops = pre @ code @ post" and dist: "distinct (labels_of ops)" and \<sigma>: "agrees \<sigma> env w"
  obtain cond code1 n1 code2 n2 fs2 where c: "expr_code c None n = (cond, code1, n1)"
    "code = label_op l # code1 @ branch_op (l + 1) cond # code2 @ [jump_op l, label_op (l + 1)]" by (rule while_code_parts [OF code])
  let ?pre = "pre @ [label_op l]"
  have split: "ops = pre @ label_op l # code1 @ branch_op (l + 1) cond # code2 @ jump_op l # label_op (l + 1) # post"
    "ops = ?pre @ code1 @ branch_op (l + 1) cond # code2 @ jump_op l # label_op (l + 1) # post"
    "ops = (?pre @ code1 @ branch_op (l + 1) cond # code2 @ [jump_op l]) @ label_op (l + 1) # post" using ops c(2) by simp_all
  obtain \<sigma>1 where s: "agrees \<sigma>1 env1 w1" "\<And>p. find_label ops (l + 1) = Some p \<Longrightarrow> ir_reaches M ops (length ?pre) \<sigma> p \<sigma>1"
    using branch_reaches [OF conv ev(1) _ c(1) \<sigma> split(2)] ok ev(2) by auto
  have enter: "ir_reaches M ops (length pre) \<sigma> (length ?pre) \<sigma>" using label_reaches [OF split(1)] by simp
  from ir_reaches_trans [OF enter ir_reaches_trans [OF s(2) [OF find_label_in [OF split(3) dist]] label_reaches [OF split(3)]]]
  show "runs_as M ops (length pre) \<sigma> (length pre + length code) Continue env1 w1"
    using runs_as_continue s(1) by (simp add: c(2) add.assoc)
qed

text \<open>One round of a loop: its body runs from the start of the loop, and from the end of the body the
  code goes back to the start.\<close>

lemma while_round:
  assumes conv: "\<forall>t v. me_convert M t (t, v) = v" and ev: "eval M c env w = Some (v, env1, w1)" "me_true M v"
    and body: "follows M d env1 w1 out env2 w2"
    and ok: "stmt_ok (SF_NODE_WHILE b c d)" and code: "stmt_code (SF_NODE_WHILE b c d) n l = (code, n', l', fs)"
    and ops: "ops = pre @ code @ post" and dist: "distinct (labels_of ops)" and \<sigma>: "agrees \<sigma> env w"
  shows "runs_as M ops (length pre) \<sigma> (length pre) out env2 w2"
proof -
  obtain cond code1 n1 code2 n2 fs2 where c: "expr_code c None n = (cond, code1, n1)" "stmt_code d n1 (l + 2) = (code2, n2, l', fs2)"
    "code = label_op l # code1 @ branch_op (l + 1) cond # code2 @ [jump_op l, label_op (l + 1)]" by (rule while_code_parts [OF code])
  let ?pre = "pre @ [label_op l]"
  let ?body = "?pre @ code1 @ [branch_op (l + 1) cond]"
  have split: "ops = pre @ label_op l # code1 @ branch_op (l + 1) cond # code2 @ jump_op l # label_op (l + 1) # post"
    "ops = ?pre @ code1 @ branch_op (l + 1) cond # code2 @ jump_op l # label_op (l + 1) # post"
    "ops = ?body @ code2 @ jump_op l # label_op (l + 1) # post"
    "ops = (?body @ code2) @ jump_op l # label_op (l + 1) # post" using ops c(3) by simp_all
  obtain \<sigma>1 where s: "agrees \<sigma>1 env1 w1" "ir_reaches M ops (length ?pre) \<sigma> (length ?body) \<sigma>1"
    using branch_reaches [OF conv ev(1) _ c(1) \<sigma> split(2)] ok ev(2) by auto
  have "ir_reaches M ops (length pre) \<sigma> (length ?pre) \<sigma>" using label_reaches [OF split(1)] by simp
  note enter = ir_reaches_trans [OF this s(2)]
  have "runs_as M ops (length ?body) \<sigma>1 (length (?body @ code2)) out env2 w2"
    using followsD [OF body _ c(2) split(3) dist s(1)] ok by (simp add: add.assoc)
  from runs_as_then [OF runs_as_after [OF enter this] jump_reaches [OF split(4) find_label_in [OF split(1) dist]]]
  show ?thesis .
qed

lemma follows_while_next:
  assumes "\<forall>t v. me_convert M t (t, v) = v" "eval M c env w = Some (v, env1, w1)" "me_true M v"
    "follows M d env1 w1 Continue env2 w2" "follows M (SF_NODE_WHILE b c d) env2 w2 out env3 w3"
  shows "follows M (SF_NODE_WHILE b c d) env w out env3 w3"
proof (rule followsI)
  fix n l code n' l' fs ops pre post \<sigma>
  assume a: "stmt_ok (SF_NODE_WHILE b c d)" "stmt_code (SF_NODE_WHILE b c d) n l = (code, n', l', fs)"
    "ops = pre @ code @ post" "distinct (labels_of ops)" and \<sigma>: "agrees \<sigma> env w"
  obtain \<sigma>1 where s: "ir_reaches M ops (length pre) \<sigma> (length pre) \<sigma>1" "agrees \<sigma>1 env2 w2"
    using runs_as_ContinueE [OF while_round [OF assms(1-4) a \<sigma>]] .
  show "runs_as M ops (length pre) \<sigma> (length pre + length code) out env3 w3"
    by (rule runs_as_after [OF s(1) followsD [OF assms(5) a s(2)]])
qed

lemma follows_while_return:
  assumes "\<forall>t v. me_convert M t (t, v) = v" "eval M c env w = Some (v, env1, w1)" "me_true M v"
    "follows M d env1 w1 (Return r) env2 w2"
  shows "follows M (SF_NODE_WHILE b c d) env w (Return r) env2 w2"
proof (rule followsI)
  fix n l code n' l' fs ops pre post \<sigma>
  assume "stmt_ok (SF_NODE_WHILE b c d)" "stmt_code (SF_NODE_WHILE b c d) n l = (code, n', l', fs)"
    "ops = pre @ code @ post" "distinct (labels_of ops)" "agrees \<sigma> env w"
  from while_round [OF assms this]
  show "runs_as M ops (length pre) \<sigma> (length pre + length code) (Return r) env2 w2"
    by (simp only: runs_as_Return [where stop = "length pre + length code" and stop' = "length pre"])
qed

text \<open>Returns.\<close>

lemma expr_code_operand: "expr_code e None n = (r, code, n') \<Longrightarrow> expr_resolved e \<noteq> SF_VAL_TYPE_VOID \<Longrightarrow> r \<noteq> k_no_operand"
  by (cases e) (auto simp: dest_code_def increment_code_def Let_def generate_literal_def new_immediate_def
      generate_identifier_def split: prod.splits if_splits)

lemma ir_return_at: "ops = pre @ return_op r # post \<Longrightarrow>
   ir_return M ops (length pre) \<sigma> = Some (if r = k_no_operand then None else Some (operand_value M \<sigma> r))"
  by (simp add: ir_return_def return_op_def)

lemma follows_return_none: "follows M (SF_NODE_RETURN b None) env w (Return None) env w"
proof (rule followsI)
  fix n l code n' l' fs ops pre post and \<sigma> :: "('a, 'b) machine"
  assume "stmt_code (SF_NODE_RETURN b None) n l = (code, n', l', fs)" "ops = pre @ code @ post" "agrees \<sigma> env w"
  then show "runs_as M ops (length pre) \<sigma> (length pre + length code) (Return None) env w"
    using ir_return_at [of ops pre k_no_operand post M \<sigma>] by (auto simp: runs_as_def return_code_def intro: ir_reaches.here)
qed

lemma follows_return_value:
  assumes "\<forall>t v. me_convert M t (t, v) = v" "eval M e env w = Some (v, env', w')"
  shows "follows M (SF_NODE_RETURN b (Some e)) env w (Return (Some (expr_resolved e, v))) env' w'"
proof (rule followsI)
  fix n l code n' l' fs ops pre post \<sigma>
  assume ok: "stmt_ok (SF_NODE_RETURN b (Some e))" and code: "stmt_code (SF_NODE_RETURN b (Some e)) n l = (code, n', l', fs)"
    and ops: "ops = pre @ code @ post" and \<sigma>: "agrees \<sigma> env w"
  have e: "lowerable e" "expr_resolved e \<noteq> SF_VAL_TYPE_VOID" using ok by (simp_all add: value_ok_def)
  obtain r code1 n1 where c: "expr_code e None n = (r, code1, n1)" by (rule prod_cases3)
  have code_eq: "code = code1 @ [return_op r]" using code c by (simp add: return_code_def)
  obtain \<sigma>' where s: "ir_reaches M ops (length pre) \<sigma> (length pre + length code1) \<sigma>'" "agrees \<sigma>' env' w'"
    "operand_value M \<sigma>' r = (expr_resolved e, v)"
    using expr_code_runs [OF assms e(1) c \<sigma>, of pre "return_op r # post"] e(2) by (auto simp: ops code_eq)
  have "ir_return M ops (length (pre @ code1)) \<sigma>' = Some (Some (expr_resolved e, v))"
    using ir_return_at [of ops "pre @ code1" r post M \<sigma>'] expr_code_operand [OF c e(2)] by (simp add: ops code_eq s(3))
  then show "runs_as M ops (length pre) \<sigma> (length pre + length code) (Return (Some (expr_resolved e, v))) env' w'"
    using s by (auto simp: runs_as_def)
qed

lemma follows_empty:
  assumes "\<And>n l. fst (stmt_code st n l) = []"
  shows "follows M st env w Continue env w"
proof (rule followsI)
  fix n l code n' l' fs ops pre post and \<sigma> :: "('a, 'b) machine"
  assume "stmt_code st n l = (code, n', l', fs)" and \<sigma>: "agrees \<sigma> env w"
  then have "code = []" using assms [of n l] by simp
  then show "runs_as M ops (length pre) \<sigma> (length pre + length code) Continue env w"
    using runs_as_continue [OF ir_reaches.here \<sigma>] by simp
qed

text \<open>Every statement.\<close>

lemma executes_follows:
  assumes conv: "\<forall>t v. me_convert M t (t, v) = v"
  shows "executes M st env w out env' w' \<Longrightarrow> follows M st env w out env' w'"
proof (induction rule: executes.induct)
  case (decl e env w v env' w' b q t name vid)
  show ?case
  proof (rule followsI)
    fix n l code n' l' fs ops pre post \<sigma>
    assume "stmt_ok (SF_NODE_VAR_DECL b q t name vid (Some e))" "stmt_code (SF_NODE_VAR_DECL b q t name vid (Some e)) n l = (code, n', l', fs)"
      and ops: "ops = pre @ code @ post" and \<sigma>: "agrees \<sigma> env w"
    then have "assign_ok t (mangled_variable name vid) e" "assign_code t (mangled_variable name vid) e n = (code, n')"
      by (auto split: prod.splits)
    from follows_assign [OF conv decl this \<sigma> ops]
    show "runs_as M ops (length pre) \<sigma> (length pre + length code) Continue
      (env'(mangled_variable name vid := me_convert M t (expr_resolved e, v))) w'" .
  qed
next
  case (assign e env w v env' w' b name vid)
  show ?case
  proof (rule followsI)
    fix n l code n' l' fs ops pre post \<sigma>
    assume "stmt_ok (SF_NODE_VAR_ASSIGN b name e vid)" "stmt_code (SF_NODE_VAR_ASSIGN b name e vid) n l = (code, n', l', fs)"
      and ops: "ops = pre @ code @ post" and \<sigma>: "agrees \<sigma> env w"
    then have "assign_ok (ab_resolved b) (mangled_variable name vid) e"
      "assign_code (ab_resolved b) (mangled_variable name vid) e n = (code, n')"
      by (auto split: prod.splits)
    from follows_assign [OF conv assign this \<sigma> ops]
    show "runs_as M ops (length pre) \<sigma> (length pre + length code) Continue
      (env'(mangled_variable name vid := me_convert M (ab_resolved b) (expr_resolved e, v))) w'" .
  qed
next
  case (block_next st env w env1 w1 b sts out env2 w2)
  show ?case by (rule follows_block_next [OF block_next.IH])
next
  case (block_return st env w r env1 w1 b sts)
  then show ?case by (intro follows_block_return)
next
  case (if_true c env w v env1 w1 t out env2 w2 b e)
  then show ?case by (intro follows_if_true [OF conv])
next
  case (if_false c env w v env1 w1 b t)
  then show ?case by (intro follows_if_end [OF conv])
next
  case (if_else c env w v env1 w1 e out env2 w2 b t)
  then show ?case by (intro follows_if_else [OF conv])
next
  case (while_end c env w v env1 w1 b d)
  then show ?case by (intro follows_while_end [OF conv])
next
  case (while_next c env w v env1 w1 d env2 w2 b out env3 w3)
  show ?case by (rule follows_while_next [OF conv while_next.hyps(1,2) while_next.IH])
next
  case (while_return c env w v env1 w1 d r env2 w2 b)
  then show ?case by (intro follows_while_return [OF conv])
next
  case (return_none b env w)
  show ?case by (rule follows_return_none)
next
  case (return_value e env w v env' w' b)
  then show ?case by (intro follows_return_value [OF conv])
next
  case (expr e env w v env' w')
  show ?case
  proof (rule followsI)
    fix n l code n' l' fs ops pre post \<sigma>
    assume ok: "stmt_ok (SF_STMT_EXPR e)" and code: "stmt_code (SF_STMT_EXPR e) n l = (code, n', l', fs)"
      and ops: "ops = pre @ code @ post" and \<sigma>: "agrees \<sigma> env w"
    obtain r n1 where c: "expr_code e None n = (r, code, n1)" using code by (auto split: prod.splits)
    have low: "lowerable e" using ok by simp
    obtain \<sigma>' where "ir_reaches M ops (length pre) \<sigma> (length pre + length code) \<sigma>'" "agrees \<sigma>' env' w'"
      unfolding ops by (rule expr_code_runs [OF conv expr low c \<sigma>])
    then show "runs_as M ops (length pre) \<sigma> (length pre + length code) Continue env' w'" by (rule runs_as_continue)
  qed
qed (rule follows_empty, simp split: prod.splits)+

section \<open>The functions of a program\<close>

lemma ir_reaches_inside:
  "ir_reaches M ops pc \<sigma> pc' \<sigma>' \<Longrightarrow> pc < length ops \<Longrightarrow> io_opcode (last ops) = SF_IR_OPCODE_RETURN \<Longrightarrow> pc' < length ops"
proof (induction rule: ir_reaches.induct)
  case (step pc \<sigma> pc1 \<sigma>1 pc2 \<sigma>2)
  have "ops \<noteq> []" using step.prems(1) by auto
  then have "pc \<noteq> length ops - 1"
    using step.hyps(1) step.prems last_conv_nth [of ops] by (auto simp: ir_next_def Let_def split: if_splits)
  then have "pc1 < length ops"
    using step.hyps(1) step.prems(1) by (auto simp: ir_next_def Let_def dest: find_label_less split: if_splits)
  then show ?case using step.IH step.prems(2) by blast
qed

definition ends_as :: "sf_value_type \<Rightarrow> 'v outcome \<Rightarrow> (sf_value_type \<times> 'v) option \<Rightarrow> bool" where
  "ends_as t out r \<longleftrightarrow> (case out of Return r' \<Rightarrow> r' = r | Continue \<Rightarrow> t = SF_VAL_TYPE_VOID \<and> r = None)"

lemma function_code_runs:
  assumes conv: "\<forall>t v. me_convert M t (t, v) = v"
    and run: "executes M body env w out env' w'" "ends_as t out r" "stmt_ok body"
    and code: "stmt_code body n l = (code, n', l', fs)" "distinct (labels_of code)" and \<sigma>: "agrees \<sigma> env w"
  shows "\<exists>fuel. ir_run M (code @ (if needs_return t code then [return_op k_no_operand] else [])) fuel 0 \<sigma> = Some (r, env', w')"
proof -
  let ?post = "if needs_return t code then [return_op k_no_operand] else []"
  let ?ops = "code @ ?post"
  have runs: "runs_as M ?ops 0 \<sigma> (length code) out env' w'"
    using followsD [OF executes_follows [OF conv run(1)] run(3) code(1), of ?ops "[]" ?post \<sigma>] code(2) \<sigma> by simp
  obtain pc' \<sigma>' where "ir_reaches M ?ops 0 \<sigma> pc' \<sigma>'" "ir_return M ?ops pc' \<sigma>' = Some r" "agrees \<sigma>' env' w'"
  proof (cases out)
    case (Return r')
    then show thesis using that runs run(2) by (auto simp: runs_as_def ends_as_def)
  next
    case Continue
    then have t: "t = SF_VAL_TYPE_VOID" "r = None" using run(2) by (simp_all add: ends_as_def)
    obtain \<sigma>' where s: "ir_reaches M ?ops 0 \<sigma> (length code) \<sigma>'" "agrees \<sigma>' env' w'"
      using runs by (auto simp: Continue elim: runs_as_ContinueE)
    have "needs_return t code"
    proof (rule ccontr)
      assume no: "\<not> needs_return t code"
      then have "code \<noteq> []" "io_opcode (last code) = SF_IR_OPCODE_RETURN" using t by (auto simp: needs_return_def)
      then show False using ir_reaches_inside [OF s(1)] no by simp
    qed
    then show thesis using that [OF s(1) _ s(2)] ir_return_at [of ?ops code k_no_operand "[]" M \<sigma>'] t by simp
  qed
  then show ?thesis using ir_run_reaches [of M ?ops 0 \<sigma> pc' \<sigma>' r] by (simp add: agrees_def)
qed

lemma program_code_function:
  assumes "SF_NODE_FUNC_DECL b name link q ps t (Some body) \<in> set sts" "program_code sts l = (l', fs)"
  obtains l1 code n l2 fs2 where "stmt_code body 0 l1 = (code, n, l2, fs2)"
    "append_code (new_function name link q ps t True) (code @ (if needs_return t code then [return_op k_no_operand] else [])) n \<in> set fs"
  using assms
proof (induction sts arbitrary: l l' fs thesis)
  case (Cons st sts)
  obtain code1 n1 l1 fs1 where a: "stmt_code st 0 l = (code1, n1, l1, fs1)" by (rule prod_cases4)
  obtain l2 fs2 where b: "program_code sts l1 = (l2, fs2)" by fastforce
  have fs: "fs = fs1 @ fs2" using Cons.prems(3) a b by simp
  show ?case
  proof (cases "st = SF_NODE_FUNC_DECL b name link q ps t (Some body)")
    case True
    then show ?thesis using a Cons.prems(1) by (auto simp: func_code_def fs split: prod.splits)
  next
    case False
    then have i: "SF_NODE_FUNC_DECL b name link q ps t (Some body) \<in> set sts" using Cons.prems(2) by simp
    show ?thesis by (rule Cons.IH [OF _ i b]) (rule Cons.prems(1), assumption, simp add: fs split del: if_split)
  qed
qed simp

lemma lowering_runs:
  fixes M :: "('v, 'w) meaning"
  assumes "\<forall>t v. me_convert M t (t, v) = v"
    and "\<forall>st \<in> set (pr_statements program). top_level_ok st"
    and "SF_NODE_FUNC_DECL b name link q ps t (Some body) \<in> set (pr_statements program)"
    and "stmt_ok body" "executes M body env w out env' w'" "ends_as t out r"
  obtains ir f where "sf_ir_generate program = Some ir" "f \<in> set (ip_functions ir)"
    "fn_name f = (case link of Some m \<Rightarrow> m | None \<Rightarrow> name)" "fn_parameters f = map lower_parameter ps"
    "\<And>temps. \<exists>fuel. ir_run M (fn_operations f) fuel 0 \<lparr>ma_env = env, ma_temps = temps, ma_params = [], ma_world = w\<rparr> =
       Some (r, env', w')"
proof -
  obtain l fs where code: "program_code (pr_statements program) 0 = (l, fs)" by fastforce
  obtain l1 code n l2 fs2 where f: "stmt_code body 0 l1 = (code, n, l2, fs2)"
    "append_code (new_function name link q ps t True) (code @ (if needs_return t code then [return_op k_no_operand] else [])) n \<in> set fs"
    by (rule program_code_function [OF assms(3) code])
  have "distinct (labels_of code)" using label_safeD [OF stmt_code_labels f(1)] by (simp add: labels_ok_def)
  then have "\<exists>fuel. ir_run M (code @ (if needs_return t code then [return_op k_no_operand] else [])) fuel 0
      \<lparr>ma_env = env, ma_temps = temps, ma_params = [], ma_world = w\<rparr> = Some (r, env', w')" for temps
    by (intro function_code_runs [OF assms(1,5,6,4) f(1)]) (simp_all add: agrees_def)
  then show thesis
    using sf_ir_generate_code [OF assms(2)] code f(2) by (intro that) (auto simp del: ir_run.simps split del: if_split)
qed

text \<open>C4: The lowering keeps the meaning of functions that meet the conditions below. When the body of a
  function, run from left to right from the environment \<open>env\<close> and the world \<open>w\<close>, returns \<open>r\<close>, or ends without a
  return in a void function, then the program is lowered, and the code of that function, run from
  its first operation, returns the same result with the same variables and the same world, whatever
  the temporaries hold at the start. The conditions: the program holds functions and variables
  without a value (\<open>top_level_ok\<close>); in the body no operand is changed by what is evaluated after it,
  none is void, and an operation that writes its destination has the type of the destination
  (\<open>stmt_ok\<close>); and converting a value to its own type changes nothing.\<close>

theorem lowering_preserves_runs:
  fixes M :: "('v, 'w) meaning"
  assumes "\<forall>t v. me_convert M t (t, v) = v"
    and "\<forall>st \<in> set (pr_statements program). top_level_ok st"
    and "SF_NODE_FUNC_DECL b name link q ps t (Some body) \<in> set (pr_statements program)"
    and "stmt_ok body" "executes M body env w out env' w'" "ends_as t out r"
  shows "\<exists>ir f. sf_ir_generate program = Some ir \<and> f \<in> set (ip_functions ir) \<and>
    fn_name f = (case link of Some m \<Rightarrow> m | None \<Rightarrow> name) \<and>
    (\<forall>temps. \<exists>fuel. ir_run M (fn_operations f) fuel 0 \<lparr>ma_env = env, ma_temps = temps, ma_params = [], ma_world = w\<rparr> =
       Some (r, env', w'))"
  using lowering_runs [OF assms] by metis

text \<open>A meaning on mathematical integers, for concrete runs: \<open>w\<close> counts the calls.\<close>

definition int_of_text :: "string \<Rightarrow> int" where
  "int_of_text s = foldl (\<lambda>n c. 10 * n + (int (of_char c) - 48)) 0 s"

definition int_meaning :: "(int, nat) meaning" where
  "int_meaning = \<lparr>me_immediate = (\<lambda>t s. int_of_text s),
     me_binary = (\<lambda>op t a b.
       if op = SF_IR_OPCODE_ADD then Some (snd a + snd b)
       else if op = SF_IR_OPCODE_SUB then Some (snd a - snd b)
       else if op = SF_IR_OPCODE_MULT then Some (snd a * snd b)
       else if op = SF_IR_OPCODE_RELATIONAL_LESS then Some (if snd a < snd b then 1 else 0)
       else None),
     me_unary = (\<lambda>op t a. if op = SF_IR_OPCODE_NEGATE then - snd a else if snd a = 0 then 1 else 0),
     me_convert = (\<lambda>t a. snd a),
     me_true = (\<lambda>v. v \<noteq> 0),
     me_call = (\<lambda>f args w. Some (sum_list (map snd args), w + 1))\<rparr>"

lemma int_meaning_simps [simp]:
  "me_immediate int_meaning t s = int_of_text s" "me_convert int_meaning t a = snd a" "me_true int_meaning v \<longleftrightarrow> v \<noteq> 0"
  "me_binary int_meaning SF_IR_OPCODE_ADD t a b = Some (snd a + snd b)"
  "me_binary int_meaning SF_IR_OPCODE_RELATIONAL_LESS t a b = Some (if snd a < snd b then 1 else 0)"
  "int_of_text ''1'' = 1" "int_of_text ''2'' = 2"
  by (simp_all add: int_meaning_def int_of_text_def of_char_def)

definition typed_node :: "sf_value_type \<Rightarrow> sf_ast_base" where
  "typed_node t = \<lparr>ab_resolved = t, ab_span = sf_span_zero\<rparr>"

definition int_var :: sf_expr where
  "int_var = SF_NODE_IDENTIFIER (typed_node SF_VAL_TYPE_I32) ''x'' 0 0 None"

definition int_literal :: "string \<Rightarrow> sf_expr" where
  "int_literal s = SF_NODE_LITERAL (typed_node SF_VAL_TYPE_I32) SF_TOKEN_TYPE_INTEGER s"

text \<open>\<^verbatim>\<open>{ while (x < 2) { x = x + 1; } return x; }\<close>\<close>

definition count_loop :: sf_stmt where
  "count_loop = SF_NODE_WHILE (typed_node SF_VAL_TYPE_UNRESOLVED)
     (SF_NODE_BINARY (typed_node SF_VAL_TYPE_BOOL) int_var (int_literal ''2'') SF_OP_TYPE_RELATIONAL_LESS)
     (SF_NODE_BLOCK (typed_node SF_VAL_TYPE_UNRESOLVED)
        [SF_NODE_VAR_ASSIGN (typed_node SF_VAL_TYPE_I32) ''x''
           (SF_NODE_BINARY (typed_node SF_VAL_TYPE_I32) int_var (int_literal ''1'') SF_OP_TYPE_ADD) 0])"

definition count_body :: sf_stmt where
  "count_body = SF_NODE_BLOCK (typed_node SF_VAL_TYPE_UNRESOLVED)
     [count_loop, SF_NODE_RETURN (typed_node SF_VAL_TYPE_UNRESOLVED) (Some int_var)]"

definition count_program :: sf_program_node where
  "count_program = \<lparr>pr_statements = [SF_NODE_FUNC_DECL (typed_node SF_VAL_TYPE_UNRESOLVED) ''f'' None no_qualifiers []
     SF_VAL_TYPE_I32 (Some count_body)], pr_imports = []\<rparr>"

lemmas sample_defs = count_loop_def count_body_def int_var_def int_literal_def typed_node_def literal_text_def

definition one_var :: "int \<Rightarrow> string \<Rightarrow> int" where
  "one_var n = (\<lambda>x. 0)(mangled_variable ''x'' 0 := n)"

lemma one_var_simps [simp]:
  "one_var n (mangled_variable ''x'' 0) = n" "(one_var n)(mangled_variable ''x'' 0 := m) = one_var m"
  by (simp_all add: one_var_def)

lemma count_loop_end: "executes int_meaning count_loop (one_var 2) (0::nat) Continue (one_var 2) 0"
  unfolding count_loop_def by (rule executes.while_end) (simp_all add: sample_defs)

lemma count_loop_run: "executes int_meaning count_loop (one_var 1) (0::nat) Continue (one_var 2) 0"
  unfolding count_loop_def
proof (rule executes.while_next [where v = 1 and ?env1.0 = "one_var 1" and ?w1.0 = 0])
  show "executes int_meaning (SF_NODE_BLOCK (typed_node SF_VAL_TYPE_UNRESOLVED)
        [SF_NODE_VAR_ASSIGN (typed_node SF_VAL_TYPE_I32) ''x''
           (SF_NODE_BINARY (typed_node SF_VAL_TYPE_I32) int_var (int_literal ''1'') SF_OP_TYPE_ADD) 0])
     (one_var 1) (0::nat) Continue (one_var 2) 0"
  proof (rule executes.block_next)
    show "executes int_meaning (SF_NODE_VAR_ASSIGN (typed_node SF_VAL_TYPE_I32) ''x''
           (SF_NODE_BINARY (typed_node SF_VAL_TYPE_I32) int_var (int_literal ''1'') SF_OP_TYPE_ADD) 0)
       (one_var 1) (0::nat) Continue (one_var 2) 0"
      using executes.assign [of int_meaning
          "SF_NODE_BINARY (typed_node SF_VAL_TYPE_I32) int_var (int_literal ''1'') SF_OP_TYPE_ADD" "one_var 1" 0 2 "one_var 1" 0
          "typed_node SF_VAL_TYPE_I32" "''x''" 0]
      by (simp add: sample_defs)
  qed (rule executes.block_end)
  show "executes int_meaning
     (SF_NODE_WHILE (typed_node SF_VAL_TYPE_UNRESOLVED)
       (SF_NODE_BINARY (typed_node SF_VAL_TYPE_BOOL) int_var (int_literal ''2'') SF_OP_TYPE_RELATIONAL_LESS)
       (SF_NODE_BLOCK (typed_node SF_VAL_TYPE_UNRESOLVED)
          [SF_NODE_VAR_ASSIGN (typed_node SF_VAL_TYPE_I32) ''x''
             (SF_NODE_BINARY (typed_node SF_VAL_TYPE_I32) int_var (int_literal ''1'') SF_OP_TYPE_ADD) 0]))
     (one_var 2) (0::nat) Continue (one_var 2) 0"
    using count_loop_end by (simp add: count_loop_def)
qed (simp_all add: sample_defs)

lemma count_body_run: "executes int_meaning count_body (one_var 1) (0::nat) (Return (Some (SF_VAL_TYPE_I32, 2))) (one_var 2) 0"
  using executes.block_next [OF count_loop_run executes.block_return [OF executes.return_value], of int_var 2 "one_var 2" 0]
  by (simp add: count_body_def int_var_def typed_node_def)

lemma lowering_preserves_runs_witness:
  "\<exists>ir f. sf_ir_generate count_program = Some ir \<and> f \<in> set (ip_functions ir) \<and> fn_name f = ''f'' \<and>
    (\<forall>temps. \<exists>fuel. ir_run int_meaning (fn_operations f) fuel 0
       \<lparr>ma_env = one_var 1, ma_temps = temps, ma_params = [], ma_world = 0\<rparr> = Some (Some (SF_VAL_TYPE_I32, 2), one_var 2, 0))"
  using lowering_preserves_runs [of int_meaning count_program "typed_node SF_VAL_TYPE_UNRESOLVED" "''f''" None no_qualifiers "[]"
      SF_VAL_TYPE_I32 count_body "one_var 1" 0 "Return (Some (SF_VAL_TYPE_I32, 2))" "one_var 2" 0 "Some (SF_VAL_TYPE_I32, 2)"]
    count_body_run
  by (simp add: count_program_def top_level_ok_def ends_as_def sample_defs value_ok_def assign_ok_def raw_binary_op_def sf_op_is_relational_def)

text \<open>\<^verbatim>\<open>{ return x + x++; }\<close>: the operand on the left is the variable itself, and it is read after the
  increment.\<close>

definition order_body :: sf_stmt where
  "order_body = SF_NODE_BLOCK (typed_node SF_VAL_TYPE_UNRESOLVED) [SF_NODE_RETURN (typed_node SF_VAL_TYPE_UNRESOLVED)
     (Some (SF_NODE_BINARY (typed_node SF_VAL_TYPE_I32) int_var
        (SF_NODE_UNARY (typed_node SF_VAL_TYPE_I32) int_var SF_OP_TYPE_POSTFIX_INCREMENT) SF_OP_TYPE_ADD))]"

definition order_program :: sf_program_node where
  "order_program = \<lparr>pr_statements = [SF_NODE_FUNC_DECL (typed_node SF_VAL_TYPE_UNRESOLVED) ''f'' None no_qualifiers []
     SF_VAL_TYPE_I32 (Some order_body)], pr_imports = []\<rparr>"

text \<open>C28: The code reads a variable operand late. The function \<^verbatim>\<open>return x + x++;\<close>, whose operands evaluated from
  left to right give twice the value of \<^verbatim>\<open>x\<close>, is lowered to code that returns one more, since the left
  operand is the variable and not a copy of its value.\<close>

theorem operand_read_late:
  "executes int_meaning order_body (one_var n) (0::nat) (Return (Some (SF_VAL_TYPE_I32, n + n))) (one_var (n + 1)) 0 \<and>
   (\<exists>ir f. sf_ir_generate order_program = Some ir \<and> ip_functions ir = [f] \<and>
     ir_run int_meaning (fn_operations f) 5 0 \<lparr>ma_env = one_var n, ma_temps = temps, ma_params = [], ma_world = 0\<rparr> =
       Some (Some (SF_VAL_TYPE_I32, n + 1 + n), one_var (n + 1), 0))"
proof
  show "executes int_meaning order_body (one_var n) (0::nat) (Return (Some (SF_VAL_TYPE_I32, n + n))) (one_var (n + 1)) 0"
    unfolding order_body_def
    using executes.block_return [OF executes.return_value, of int_meaning
       "SF_NODE_BINARY (typed_node SF_VAL_TYPE_I32) int_var
        (SF_NODE_UNARY (typed_node SF_VAL_TYPE_I32) int_var SF_OP_TYPE_POSTFIX_INCREMENT) SF_OP_TYPE_ADD"
       "one_var n" 0 "n + n" "one_var (n + 1)" 0]
    by (simp add: sample_defs step_opcode_def is_increment_def is_postfix_def sf_type_is_increment_or_decrement_def)
  show "\<exists>ir f. sf_ir_generate order_program = Some ir \<and> ip_functions ir = [f] \<and>
     ir_run int_meaning (fn_operations f) 5 0 \<lparr>ma_env = one_var n, ma_temps = temps, ma_params = [], ma_world = 0\<rparr> =
       Some (Some (SF_VAL_TYPE_I32, n + 1 + n), one_var (n + 1), 0)"
    using sf_ir_generate_code [of order_program]
    by (simp add: order_program_def order_body_def top_level_ok_def func_code_def return_code_def sample_defs dest_code_def
        generate_identifier_def increment_code_def Let_def sf_type_is_increment_or_decrement_def needs_return_def
        eval_nat_numeral ir_return_def ir_next_def return_op_def exec_simple new_immediate_def exec_op_def)
qed

end
