(* ===== verification/Asm_Refine.thy ===== *)
theory Asm_Refine
  imports Asm_Exec Ir_Refine
begin

text \<open>
  The assembly of an operation computes what the operation means. The meaning of the operators is
  arithmetic on integers, wrapped to the type of the destination (\<open>machine_meaning\<close>); a state of the processor
  agrees with a state of the operations when every slot of the frame holds the bits of its variable
  or temporary (\<open>agrees_frame\<close>).
\<close>

section \<open>Integer arithmetic\<close>

lemma wrap_typed_bits: "wrap_type t v = typed_bits (sf_type_value_is_signed t) (sf_type_value_width_bytes t) v"
  by (simp add: wrap_type_def typed_bits_def)

fun integer_binary :: "sf_ir_opcode \<Rightarrow> sf_value_type \<Rightarrow> int \<Rightarrow> int \<Rightarrow> int option" where
  "integer_binary SF_IR_OPCODE_ADD t a b = Some (a + b)"
| "integer_binary SF_IR_OPCODE_SUB t a b = Some (a - b)"
| "integer_binary SF_IR_OPCODE_MULT t a b = Some (a * b)"
| "integer_binary SF_IR_OPCODE_DIV t a b = (if b = 0 \<or> wrap_type t (quotient a b) \<noteq> quotient a b then None else Some (quotient a b))"
| "integer_binary SF_IR_OPCODE_BITWISE_AND t a b = Some (a AND b)"
| "integer_binary SF_IR_OPCODE_BITWISE_OR t a b = Some (a OR b)"
| "integer_binary SF_IR_OPCODE_BITWISE_XOR t a b = Some (a XOR b)"
| "integer_binary SF_IR_OPCODE_LOGICAL_AND t a b = Some (a AND b)"
| "integer_binary SF_IR_OPCODE_LOGICAL_OR t a b = Some (a OR b)"
| "integer_binary SF_IR_OPCODE_BITWISE_LSHIFT t a b =
     (if 0 \<le> b \<and> b < int (bits (sf_type_value_width_bytes t)) then Some (a * 2 ^ nat b) else None)"
| "integer_binary SF_IR_OPCODE_BITWISE_RSHIFT t a b =
     (if 0 \<le> b \<and> b < int (bits (sf_type_value_width_bytes t)) then Some (a div 2 ^ nat b) else None)"
| "integer_binary SF_IR_OPCODE_RELATIONAL_EQUAL t a b = Some (of_bool (a = b))"
| "integer_binary SF_IR_OPCODE_RELATIONAL_NOT_EQUAL t a b = Some (of_bool (a \<noteq> b))"
| "integer_binary SF_IR_OPCODE_RELATIONAL_LESS t a b = Some (of_bool (a < b))"
| "integer_binary SF_IR_OPCODE_RELATIONAL_LESS_EQUAL t a b = Some (of_bool (a \<le> b))"
| "integer_binary SF_IR_OPCODE_RELATIONAL_GREATER t a b = Some (of_bool (b < a))"
| "integer_binary SF_IR_OPCODE_RELATIONAL_GREATER_EQUAL t a b = Some (of_bool (b \<le> a))"
| "integer_binary _ t a b = None"

fun integer_unary :: "sf_ir_opcode \<Rightarrow> int \<Rightarrow> int" where
  "integer_unary SF_IR_OPCODE_NEGATE a = - a"
| "integer_unary SF_IR_OPCODE_BITWISE_NOT a = NOT a"
| "integer_unary SF_IR_OPCODE_LOGICAL_NOT a = a XOR 1"
| "integer_unary _ a = a"

text \<open>On 0 and 1 the logical operators are the connectives.\<close>

lemma logical_values:
  "of_bool p AND of_bool q = (of_bool (p \<and> q) :: int)" "of_bool p OR of_bool q = (of_bool (p \<or> q) :: int)"
  "of_bool p XOR 1 = (of_bool (\<not> p) :: int)"
  by (cases p; cases q; simp)+

text \<open>Calls are the parameter \<open>call\<close>; a conversion to the same type changes nothing.\<close>

definition machine_meaning :: "(string \<Rightarrow> (sf_value_type \<times> int) list \<Rightarrow> 'w \<Rightarrow> (int \<times> 'w) option) \<Rightarrow> (int, 'w) meaning" where
  "machine_meaning call = \<lparr>me_immediate = (\<lambda>t s. immediate_value s),
     me_binary = (\<lambda>op t a b. map_option (wrap_type t) (integer_binary op t (snd a) (snd b))),
     me_unary = (\<lambda>op t a. wrap_type t (integer_unary op (snd a))),
     me_convert = (\<lambda>t a. if fst a = t then snd a else wrap_type t (snd a)),
     me_true = (\<lambda>v. v \<noteq> 0),
     me_call = call\<rparr>"

lemma machine_meaning_simps [simp]:
  "me_immediate (machine_meaning call) t x = immediate_value x"
  "me_binary (machine_meaning call) op t p q = map_option (wrap_type t) (integer_binary op t (snd p) (snd q))"
  "me_unary (machine_meaning call) op t p = wrap_type t (integer_unary op (snd p))"
  "me_convert (machine_meaning call) t p = (if fst p = t then snd p else wrap_type t (snd p))"
  "me_true (machine_meaning call) v \<longleftrightarrow> v \<noteq> 0"
  "me_call (machine_meaning call) = call"
  by (simp_all add: machine_meaning_def)

lemma operand_value_type [simp]: "fst (operand_value M \<sigma> op) = op_value_type op"
  by (cases op) simp_all

section \<open>States that agree\<close>

text \<open>The value that the slot of a name stands for; names of variables contain \<^verbatim>\<open>@\<close>.\<close>

definition slot_value :: "(int, 'w) machine \<Rightarrow> string \<Rightarrow> int" where
  "slot_value \<sigma> x = (if CHR ''@'' \<in> set x then ma_env \<sigma> x else ma_temps \<sigma> (dec_value 0 (tl x)))"

definition names_ok :: "sf_stack_map \<Rightarrow> bool" where
  "names_ok m \<longleftrightarrow> (\<forall>e \<in> set m. CHR ''@'' \<in> set (ek_name e) \<or> (\<exists>k. ek_name e = ''t'' @ dec_digits k))"

definition agrees_frame :: "sf_stack_map \<Rightarrow> (int, 'w) machine \<Rightarrow> asm_state \<Rightarrow> bool" where
  "agrees_frame m \<sigma> s \<longleftrightarrow> (\<forall>e \<in> set m. canonical (ek_type e) (slot_value \<sigma> (ek_name e)) \<and>
     load (entry_width e) (ek_offset e) (as_mem s) = take_bit (bits (entry_width e)) (slot_value \<sigma> (ek_name e)))"

text \<open>Memory outside the slots, the caller's data among it, is not touched.\<close>

definition same_outside :: "sf_stack_map \<Rightarrow> asm_state \<Rightarrow> asm_state \<Rightarrow> bool" where
  "same_outside m s s' \<longleftrightarrow> (\<forall>a. a \<notin> (\<Union>e \<in> set m. slot_bytes e) \<longrightarrow> as_mem s' a = as_mem s a)"

lemma same_outside_refl: "same_outside m s s" and same_outside_trans:
  "same_outside m s s1 \<Longrightarrow> same_outside m s1 s2 \<Longrightarrow> same_outside m s s2"
  by (simp_all add: same_outside_def)

lemma temp_name_value: "CHR ''@'' \<notin> set (''t'' @ dec_digits k)" "dec_value 0 (tl (''t'' @ dec_digits k)) = k"
  using dec_digits_digits [of k] by (auto simp: is_dec_digit_iff)

lemma slot_value_operand:
  "operand_ok m op \<Longrightarrow> in_memory op \<Longrightarrow> slot_value \<sigma> (operand_name op) = snd (operand_value M \<sigma> op)"
  using temp_name_value by (cases op) (auto simp: slot_value_def)

lemma slot_value_write:
  assumes "operand_ok m op" "in_memory op" "CHR ''@'' \<in> set x \<or> (\<exists>k. x = ''t'' @ dec_digits k)"
  shows "slot_value (write_operand op v \<sigma>) x = (if x = operand_name op then v else slot_value \<sigma> x)"
proof (cases op)
  case (SF_IR_OPERAND_TYPE_VARIABLE t y)
  then show ?thesis using assms(1) by (auto simp: slot_value_def)
next
  case (SF_IR_OPERAND_TYPE_TEMPORARY t k)
  show ?thesis
  proof (cases "CHR ''@'' \<in> set x")
    case True
    then have "x \<noteq> operand_name op" using temp_name_value(1) [of k] SF_IR_OPERAND_TYPE_TEMPORARY by auto
    then show ?thesis using True SF_IR_OPERAND_TYPE_TEMPORARY by (simp add: slot_value_def)
  next
    case False
    then obtain j where "x = ''t'' @ dec_digits j" using assms(3) by blast
    then show ?thesis using temp_name_value [of j] by (simp add: SF_IR_OPERAND_TYPE_TEMPORARY slot_value_def)
  qed
qed (use assms(1,2) in simp_all)

lemma operand_entry:
  assumes "frame_sound m" "operand_ok m op" "in_memory op"
  obtains e where "e \<in> set m" "ek_name e = operand_name op" "ek_type e = op_value_type op"
    "operand_loc m op = Mem (entry_width e) (ek_offset e)"
proof -
  obtain e where e: "sf_stack_lookup_entry m (operand_name op) = Some e" "ek_type e = op_value_type op"
    using assms(2,3) by (cases op) auto
  note l = lookup_entry [OF assms(1) e(1)]
  have "\<not> is_immediate op" using assms(3) by (cases op) simp_all
  then have "operand_loc m op = Mem (entry_width e) (ek_offset e)" using l e(2) by (simp add: operand_loc_def)
  then show thesis using that l e by blast
qed

text \<open>What reading an operand gives.\<close>

lemma read_operand:
  assumes "frame_sound m" "agrees_frame m \<sigma> s" "operand_ok m op"
  shows "fst (operand_value (machine_meaning call) \<sigma> op) = op_value_type op"
    "canonical (op_value_type op) (snd (operand_value (machine_meaning call) \<sigma> op))"
    "wrap_type (op_value_type op) (read_loc (operand_loc m op) s) = snd (operand_value (machine_meaning call) \<sigma> op)"
    "is_imm (operand_loc m op) \<Longrightarrow> read_loc (operand_loc m op) s = snd (operand_value (machine_meaning call) \<sigma> op)"
    "\<not> is_imm (operand_loc m op) \<Longrightarrow> read_loc (operand_loc m op) s =
       take_bit (bits (operand_width op)) (snd (operand_value (machine_meaning call) \<sigma> op))"
    "slot_or_imm (operand_width op) (operand_loc m op)"
proof -
  let ?v = "snd (operand_value (machine_meaning call) \<sigma> op)" and ?l = "operand_loc m op"
  show "fst (operand_value (machine_meaning call) \<sigma> op) = op_value_type op" by (cases op) simp_all
  have w: "0 < operand_width op" by (rule operand_formats(4) [OF assms(1,3)])
  have "canonical (op_value_type op) ?v \<and> wrap_type (op_value_type op) (read_loc ?l s) = ?v \<and>
      (is_imm ?l \<longrightarrow> read_loc ?l s = ?v) \<and> (\<not> is_imm ?l \<longrightarrow> read_loc ?l s = take_bit (bits (operand_width op)) ?v) \<and>
      slot_or_imm (operand_width op) ?l"
  proof (cases "in_memory op")
    case True
    then obtain e where e: "e \<in> set m" "ek_name e = operand_name op" "ek_type e = op_value_type op"
      "operand_loc m op = Mem (entry_width e) (ek_offset e)" by (rule operand_entry [OF assms(1,3)])
    have v: "canonical (op_value_type op) ?v" "read_loc ?l s = take_bit (bits (operand_width op)) ?v"
      using assms(2) e slot_value_operand [OF assms(3) True, where \<sigma> = \<sigma> and M = "machine_meaning call"]
      by (auto simp: agrees_frame_def)
    have "wrap_type (op_value_type op) (read_loc ?l s) = wrap_type (op_value_type op) ?v"
      unfolding v(2) wrap_typed_bits by (rule typed_bits_cong [OF w]) simp
    then show ?thesis using v e(3,4) by (simp add: canonical_def)
  next
    case False
    then obtain t n where op: "op = SF_IR_OPERAND_TYPE_IMMEDIATE t n" using assms(3) by (cases op) simp_all
    then show ?thesis using assms(3) by (simp add: operand_loc_def canonical_def)
  qed
  then show "canonical (op_value_type op) ?v" "wrap_type (op_value_type op) (read_loc ?l s) = ?v"
    "is_imm ?l \<Longrightarrow> read_loc ?l s = ?v" "\<not> is_imm ?l \<Longrightarrow> read_loc ?l s = take_bit (bits (operand_width op)) ?v"
    "slot_or_imm (operand_width op) ?l" by simp_all
qed

text \<open>Code that stores a value in the slot of an operand writes the operand.\<close>

lemma stores_operand:
  assumes "frame_sound m" "names_ok m" "agrees_frame m \<sigma> s" "operand_ok m d" "in_memory d"
    "canonical (op_value_type d) v" "operand_loc m d = Mem w a" "stores w a v' s code"
    "take_bit (bits w) v' = take_bit (bits w) v"
  shows "\<exists>s'. exec_instructions code s = Some s' \<and> agrees_frame m (write_operand d v \<sigma>) s' \<and> same_outside m s s'"
proof -
  obtain e where e: "e \<in> set m" "ek_name e = operand_name d" "ek_type e = op_value_type d"
    "operand_loc m d = Mem (entry_width e) (ek_offset e)" using operand_entry [OF assms(1,4,5)] by metis
  have loc: "w = entry_width e" "a = ek_offset e" using e(4) assms(7) by simp_all
  obtain s' where s': "exec_instructions code s = Some s'" "as_mem s' = store w a v' (as_mem s)"
    using assms(8) by (auto simp: stores_def)
  obtain n where ok: "frame_ok (m, n)" using assms(1) by (auto simp: frame_sound_def)
  then have names: "distinct (map ek_name m)" and sorted: "sorted_wrt (\<lambda>a b. ek_offset b + int (entry_width b) \<le> ek_offset a) m"
    by (simp_all add: frame_ok_def)
  have "agrees_frame m (write_operand d v \<sigma>) s'"
    unfolding agrees_frame_def
  proof (intro ballI)
    fix x
    assume x: "x \<in> set m"
    have written: "slot_value (write_operand d v \<sigma>) (ek_name x) = (if ek_name x = operand_name d then v else slot_value \<sigma> (ek_name x))"
      using assms(2) x by (intro slot_value_write [OF assms(4,5)]) (auto simp: names_ok_def)
    show "canonical (ek_type x) (slot_value (write_operand d v \<sigma>) (ek_name x)) \<and>
        load (entry_width x) (ek_offset x) (as_mem s') = take_bit (bits (entry_width x)) (slot_value (write_operand d v \<sigma>) (ek_name x))"
    proof (cases "x = e")
      case True
      then show ?thesis using written e(2,3) assms(6,9) by (simp add: s'(2) loc load_store)
    next
      case False
      then have "ek_name x \<noteq> operand_name d" using names x e(1,2) by (metis distinct_map inj_onD)
      moreover have "slot_bytes x \<inter> slot_bytes e = {}" by (rule sorted_slots_disjoint [OF sorted x e(1) False])
      then have "load (entry_width x) (ek_offset x) (as_mem s') = load (entry_width x) (ek_offset x) (as_mem s)"
        unfolding s'(2) loc by (intro load_store_disjoint) (simp add: slot_bytes_def)
      ultimately show ?thesis using written assms(3) x by (simp add: agrees_frame_def)
    qed
  qed
  moreover have "same_outside m s s'"
    unfolding same_outside_def
  proof (intro allI impI)
    fix b
    assume "b \<notin> (\<Union>e \<in> set m. slot_bytes e)"
    then have "b \<notin> slot_bytes e" using e(1) by blast
    then show "as_mem s' b = as_mem s b" unfolding s'(2) loc slot_bytes_def by (intro store_outside) auto
  qed
  ultimately show ?thesis using s'(1) by blast
qed

section \<open>Operations\<close>

text \<open>Operations whose operands the frame serves, with the types that the analysis gives them.\<close>

definition conforms :: "sf_stack_map \<Rightarrow> sf_ir_operation \<Rightarrow> bool" where
  "conforms m op \<longleftrightarrow> operands_ok m op \<and>
     (let t = op_value_type (io_operand1 op); t1 = op_value_type (io_operand2 op); t2 = op_value_type (io_operand3 op);
          arithmetic = operand_ok m (io_operand3 op) \<and> t1 = t \<and> t2 = t;
          relational = operand_ok m (io_operand3 op) \<and> t2 = t1 \<and> t = SF_VAL_TYPE_BOOL;
          shifting = operand_ok m (io_operand3 op) \<and> t1 = t
      in case io_opcode op of
           SF_IR_OPCODE_ADD \<Rightarrow> arithmetic
         | SF_IR_OPCODE_SUB \<Rightarrow> arithmetic
         | SF_IR_OPCODE_MULT \<Rightarrow> arithmetic
         | SF_IR_OPCODE_DIV \<Rightarrow> arithmetic
         | SF_IR_OPCODE_BITWISE_AND \<Rightarrow> arithmetic
         | SF_IR_OPCODE_BITWISE_OR \<Rightarrow> arithmetic
         | SF_IR_OPCODE_BITWISE_XOR \<Rightarrow> arithmetic
         | SF_IR_OPCODE_LOGICAL_AND \<Rightarrow> arithmetic
         | SF_IR_OPCODE_LOGICAL_OR \<Rightarrow> arithmetic
         | SF_IR_OPCODE_BITWISE_LSHIFT \<Rightarrow> shifting
         | SF_IR_OPCODE_BITWISE_RSHIFT \<Rightarrow> shifting
         | SF_IR_OPCODE_RELATIONAL_EQUAL \<Rightarrow> relational
         | SF_IR_OPCODE_RELATIONAL_NOT_EQUAL \<Rightarrow> relational
         | SF_IR_OPCODE_RELATIONAL_LESS \<Rightarrow> relational
         | SF_IR_OPCODE_RELATIONAL_LESS_EQUAL \<Rightarrow> relational
         | SF_IR_OPCODE_RELATIONAL_GREATER \<Rightarrow> relational
         | SF_IR_OPCODE_RELATIONAL_GREATER_EQUAL \<Rightarrow> relational
         | SF_IR_OPCODE_NEGATE \<Rightarrow> t1 = t
         | SF_IR_OPCODE_BITWISE_NOT \<Rightarrow> t1 = t
         | SF_IR_OPCODE_LOGICAL_NOT \<Rightarrow> t1 = t
         | SF_IR_OPCODE_ASSIGN \<Rightarrow> True
         | SF_IR_OPCODE_CAST \<Rightarrow> True
         | _ \<Rightarrow> False)"

text \<open>The instructions of an operation.\<close>

abbreviation "dest_type op \<equiv> op_value_type (io_operand1 op)"
abbreviation "first_type op \<equiv> op_value_type (io_operand2 op)"
abbreviation "second_type op \<equiv> op_value_type (io_operand3 op)"
abbreviation "second_width op \<equiv> operand_width (io_operand3 op)"
abbreviation "dest_slot m op \<equiv> sf_stack_lookup m (operand_name (io_operand1 op))"
abbreviation "first_value call \<sigma> op \<equiv> snd (operand_value (machine_meaning call) \<sigma> (io_operand2 op))"
abbreviation "second_value call \<sigma> op \<equiv> snd (operand_value (machine_meaning call) \<sigma> (io_operand3 op))"

fun alu_of :: "sf_ir_opcode \<Rightarrow> alu_operation option" where
  "alu_of SF_IR_OPCODE_ADD = Some Alu_add"
| "alu_of SF_IR_OPCODE_SUB = Some Alu_sub"
| "alu_of SF_IR_OPCODE_BITWISE_AND = Some Alu_and"
| "alu_of SF_IR_OPCODE_LOGICAL_AND = Some Alu_and"
| "alu_of SF_IR_OPCODE_BITWISE_OR = Some Alu_or"
| "alu_of SF_IR_OPCODE_LOGICAL_OR = Some Alu_or"
| "alu_of SF_IR_OPCODE_BITWISE_XOR = Some Alu_xor"
| "alu_of _ = None"

fun shift_of :: "sf_ir_opcode \<Rightarrow> bool \<Rightarrow> shift_operation option" where
  "shift_of SF_IR_OPCODE_BITWISE_LSHIFT sg = Some Shift_left"
| "shift_of SF_IR_OPCODE_BITWISE_RSHIFT sg = Some (if sg then Shift_arithmetic else Shift_right)"
| "shift_of _ sg = None"

definition operation_code :: "sf_stack_map \<Rightarrow> sf_ir_operation \<Rightarrow> instruction list" where
  "operation_code m op =
     (let d = dest_loc m op; a = first_loc m op; b = second_loc m op; w = dest_width op;
          sg = sf_type_value_is_signed (dest_type op); sg1 = sf_type_value_is_signed (first_type op)
      in case (alu_of (io_opcode op), shift_of (io_opcode op) sg, relation (io_opcode op) sg1) of
           (Some f, _, _) \<Rightarrow> binary_code f w d a b
         | (None, Some f, _) \<Rightarrow> shift_code f w (second_width op) d a b
         | (None, None, Some c) \<Rightarrow> relational_code c (first_width op) d a b
         | (None, None, None) \<Rightarrow>
             (case io_opcode op of
                SF_IR_OPCODE_MULT \<Rightarrow> mult_code sg w d a b
              | SF_IR_OPCODE_DIV \<Rightarrow> div_code sg w d a b
              | SF_IR_OPCODE_NEGATE \<Rightarrow> unary_code I_neg w d a
              | SF_IR_OPCODE_BITWISE_NOT \<Rightarrow> unary_code I_not w d a
              | SF_IR_OPCODE_LOGICAL_NOT \<Rightarrow> unary_code (\<lambda>l. I_alu Alu_xor l (Imm 1)) w d a
              | SF_IR_OPCODE_ASSIGN \<Rightarrow> if a = d then [] else convert_code sg1 (first_width op) w d a
              | SF_IR_OPCODE_CAST \<Rightarrow> convert_code sg1 (first_width op) w d a
              | _ \<Rightarrow> []))"

lemma operation_code_alu: "alu_of (io_opcode op) = Some f \<Longrightarrow>
    operation_code m op = binary_code f (dest_width op) (dest_loc m op) (first_loc m op) (second_loc m op)"
  by (simp add: operation_code_def)

lemma operation_code_shift: "shift_of (io_opcode op) (sf_type_value_is_signed (dest_type op)) = Some f \<Longrightarrow>
    operation_code m op = shift_code f (dest_width op) (second_width op) (dest_loc m op) (first_loc m op) (second_loc m op)"
  by (cases "io_opcode op") (simp_all add: operation_code_def)

lemma operation_code_relation: "relation (io_opcode op) (sf_type_value_is_signed (first_type op)) = Some c \<Longrightarrow>
    operation_code m op = relational_code c (first_width op) (dest_loc m op) (first_loc m op) (second_loc m op)"
  by (cases "io_opcode op") (simp_all add: operation_code_def)

definition op_runs :: "sf_stack_map \<Rightarrow> sf_ir_operation \<Rightarrow> asm_state \<Rightarrow> (int, 'w) machine \<Rightarrow> bool" where
  "op_runs m op s \<sigma>' \<longleftrightarrow> (\<exists>s'. exec_instructions (operation_code m op) s = Some s' \<and> agrees_frame m \<sigma>' s' \<and> same_outside m s s')"

lemma wrap_type_wrap [simp]: "t \<noteq> SF_VAL_TYPE_VOID \<Longrightarrow> wrap_type t (wrap_type t v) = wrap_type t v"
proof -
  assume "t \<noteq> SF_VAL_TYPE_VOID"
  then have "0 < sf_type_value_width_bytes t" using sized_type_width [of t] by (simp add: sized_type_def)
  then show ?thesis unfolding wrap_typed_bits by (intro typed_bits_cong) simp_all
qed

lemma canonical_wrap: "t \<noteq> SF_VAL_TYPE_VOID \<Longrightarrow> canonical t (wrap_type t v)"
  by (simp add: canonical_def)

lemma canonical_of_bool: "wrap_type SF_VAL_TYPE_BOOL (of_bool b) = of_bool b" "canonical SF_VAL_TYPE_BOOL (of_bool b)"
  by (cases b; simp add: canonical_def wrap_type_def)+

text \<open>The operands of an operation in a state that agrees: their values and their bits.\<close>

definition agreeing :: "sf_stack_map \<Rightarrow> (int, 'w) machine \<Rightarrow> asm_state \<Rightarrow> sf_ir_operation \<Rightarrow> bool" where
  "agreeing m \<sigma> s op \<longleftrightarrow> frame_sound m \<and> names_ok m \<and> agrees_frame m \<sigma> s \<and> operands_ok m op"

lemma agreeingD:
  assumes "agreeing m \<sigma> s op"
  shows "frame_sound m" "names_ok m" "agrees_frame m \<sigma> s" "operands_ok m op"
    "operand_ok m (io_operand1 op)" "in_memory (io_operand1 op)" "operand_ok m (io_operand2 op)"
  using assms by (simp_all add: agreeing_def operands_ok_def)

lemma dest_loc_slot: "in_memory (io_operand1 op) \<Longrightarrow> dest_loc m op = Mem (dest_width op) (dest_slot m op)"
  by (cases "io_operand1 op") (simp_all add: operand_loc_def)

lemma widths:
  assumes "agreeing m \<sigma> s op"
  shows "dest_width op \<in> {1, 2, 4, 8}" "first_width op \<in> {1, 2, 4, 8}" "0 < dest_width op" "0 < first_width op"
    "dest_type op \<noteq> SF_VAL_TYPE_VOID"
  using operands_format(5,6) [OF agreeingD(1,4) [OF assms]] by auto

lemma first_operand:
  assumes "agreeing m \<sigma> s op"
  shows "canonical (first_type op) (first_value call \<sigma> op)" "wrap_type (first_type op) (read_loc (first_loc m op) s) = first_value call \<sigma> op"
    "is_imm (first_loc m op) \<Longrightarrow> read_loc (first_loc m op) s = first_value call \<sigma> op"
    "\<not> is_imm (first_loc m op) \<Longrightarrow> read_loc (first_loc m op) s = take_bit (bits (first_width op)) (first_value call \<sigma> op)"
    "slot_or_imm (first_width op) (first_loc m op)"
  using read_operand(2-5) [OF agreeingD(1,3,7) [OF assms], where call = call] read_operand(6) [OF agreeingD(1,3,7) [OF assms]]
  by simp_all

lemma second_operand:
  assumes "agreeing m \<sigma> s op" "operand_ok m (io_operand3 op)"
  shows "canonical (second_type op) (second_value call \<sigma> op)"
    "wrap_type (second_type op) (read_loc (second_loc m op) s) = second_value call \<sigma> op"
    "is_imm (second_loc m op) \<Longrightarrow> read_loc (second_loc m op) s = second_value call \<sigma> op"
    "\<not> is_imm (second_loc m op) \<Longrightarrow> read_loc (second_loc m op) s = take_bit (bits (second_width op)) (second_value call \<sigma> op)"
    "slot_or_imm (second_width op) (second_loc m op)" "second_width op \<in> {1, 2, 4, 8}" "0 < second_width op"
  using read_operand(2-5) [OF agreeingD(1,3) [OF assms(1)] assms(2), where call = call]
    read_operand(6) [OF agreeingD(1,3) [OF assms(1)] assms(2)]
    operand_width_cases [OF operand_formats(4) [OF agreeingD(1) [OF assms(1)] assms(2)]]
    operand_formats(4) [OF agreeingD(1) [OF assms(1)] assms(2)]
  by simp_all

lemma first_bits:
  assumes "agreeing m \<sigma> s op"
  shows "take_bit (bits (first_width op)) (read_loc (first_loc m op) s) = take_bit (bits (first_width op)) (first_value call \<sigma> op)"
  using first_operand(3,4) [OF assms, where call = call] by (cases "is_imm (first_loc m op)") simp_all

lemma second_bits:
  assumes "agreeing m \<sigma> s op" "operand_ok m (io_operand3 op)"
  shows "take_bit (bits (second_width op)) (read_loc (second_loc m op) s) = take_bit (bits (second_width op)) (second_value call \<sigma> op)"
  using second_operand(3,4) [OF assms, where call = call] by (cases "is_imm (second_loc m op)") simp_all

lemma wrap_bits: "0 < sf_type_value_width_bytes t \<Longrightarrow>
    take_bit (bits (sf_type_value_width_bytes t)) (wrap_type t v) = take_bit (bits (sf_type_value_width_bytes t)) v"
  unfolding wrap_typed_bits by (rule take_typed_bits)

text \<open>It is enough that the code stores the bits of the result.\<close>

lemma op_runs_stores:
  assumes "agreeing m \<sigma> s op" "operation_code m op = code"
    "canonical (dest_type op) v" "stores (dest_width op) (dest_slot m op) v' s code" "take_bit (bits (dest_width op)) v' = take_bit (bits (dest_width op)) v"
  shows "op_runs m op s (write_operand (io_operand1 op) v \<sigma>)"
  using stores_operand [OF agreeingD(1,2,3,5,6) [OF assms(1)] assms(3) dest_loc_slot [OF agreeingD(6) [OF assms(1)]] assms(4,5)]
    assms(2) unfolding op_runs_def by simp

text \<open>Code for arithmetic that depends on low bits only.\<close>

lemma alu_runs:
  assumes "agreeing m \<sigma> s op" "operand_ok m (io_operand3 op)" "first_type op = dest_type op" "second_type op = dest_type op"
    "alu_of (io_opcode op) = Some f" "canonical (dest_type op) v"
    "take_bit (bits (dest_width op)) (alu f (first_value call \<sigma> op) (second_value call \<sigma> op)) = take_bit (bits (dest_width op)) v"
  shows "op_runs m op s (write_operand (io_operand1 op) v \<sigma>)"
proof (rule op_runs_stores [OF assms(1)])
  note d = agreeingD [OF assms(1)]
  show "operation_code m op = binary_code f (dest_width op) (dest_loc m op) (first_loc m op) (second_loc m op)"
    by (rule operation_code_alu [OF assms(5)])
  show "stores (dest_width op) (dest_slot m op) (alu f (read_loc (first_loc m op) s) (read_loc (second_loc m op) s)) s
      (binary_code f (dest_width op) (dest_loc m op) (first_loc m op) (second_loc m op))"
    unfolding dest_loc_slot [OF d(6)]
    using first_operand(5) [OF assms(1)] second_operand(5) [OF assms(1,2)] assms(3,4) widths(1) [OF assms(1)]
    by (intro binary_stores) simp_all
  have "take_bit (bits (dest_width op)) (alu f (read_loc (first_loc m op) s) (read_loc (second_loc m op) s)) =
      take_bit (bits (dest_width op)) (alu f (first_value call \<sigma> op) (second_value call \<sigma> op))"
    using first_bits [OF assms(1), where call = call] second_bits [OF assms(1,2), where call = call] assms(3,4) by (intro alu_cong) simp_all
  then show "take_bit (bits (dest_width op)) (alu f (read_loc (first_loc m op) s) (read_loc (second_loc m op) s)) =
      take_bit (bits (dest_width op)) v" using assms(7) by simp
qed (rule assms(6))

lemma mult_runs:
  assumes "agreeing m \<sigma> s op" "operand_ok m (io_operand3 op)" "first_type op = dest_type op" "second_type op = dest_type op"
    "io_opcode op = SF_IR_OPCODE_MULT" "canonical (dest_type op) v"
    "take_bit (bits (dest_width op)) (first_value call \<sigma> op * second_value call \<sigma> op) = take_bit (bits (dest_width op)) v"
  shows "op_runs m op s (write_operand (io_operand1 op) v \<sigma>)"
proof (rule op_runs_stores [OF assms(1)])
  note d = agreeingD [OF assms(1)]
  let ?code = "mult_code (sf_type_value_is_signed (dest_type op)) (dest_width op) (dest_loc m op) (first_loc m op) (second_loc m op)"
  show "operation_code m op = ?code" by (simp add: operation_code_def assms(5))
  show "stores (dest_width op) (dest_slot m op) (read_loc (first_loc m op) s * read_loc (second_loc m op) s) s ?code"
    unfolding dest_loc_slot [OF d(6)]
    using first_operand(5) [OF assms(1)] second_operand(5) [OF assms(1,2)] assms(3,4) widths(1) [OF assms(1)]
    by (intro mult_stores) simp_all
  have "take_bit (bits (dest_width op)) (read_loc (first_loc m op) s * read_loc (second_loc m op) s) =
      take_bit (bits (dest_width op)) (first_value call \<sigma> op * second_value call \<sigma> op)"
    using first_bits [OF assms(1), where call = call] second_bits [OF assms(1,2), where call = call] assms(3,4)
    by (intro take_bit_cong_mult) simp_all
  then show "take_bit (bits (dest_width op)) (read_loc (first_loc m op) s * read_loc (second_loc m op) s) =
      take_bit (bits (dest_width op)) v" using assms(7) by simp
qed (rule assms(6))

lemma first_typed: "agreeing m \<sigma> s op \<Longrightarrow>
    typed_bits (sf_type_value_is_signed (first_type op)) (first_width op) (read_loc (first_loc m op) s) = first_value call \<sigma> op"
  using first_operand(2) [of m \<sigma> s op call] by (simp add: wrap_typed_bits)

lemma second_typed: "agreeing m \<sigma> s op \<Longrightarrow> operand_ok m (io_operand3 op) \<Longrightarrow>
    typed_bits (sf_type_value_is_signed (second_type op)) (second_width op) (read_loc (second_loc m op) s) = second_value call \<sigma> op"
  using second_operand(2) [of m \<sigma> s op call] by (simp add: wrap_typed_bits)

lemma div_runs:
  assumes "agreeing m \<sigma> s op" "operand_ok m (io_operand3 op)" "first_type op = dest_type op" "second_type op = dest_type op"
    "io_opcode op = SF_IR_OPCODE_DIV" "second_value call \<sigma> op \<noteq> 0"
    "v = quotient (first_value call \<sigma> op) (second_value call \<sigma> op)" "wrap_type (dest_type op) v = v"
  shows "op_runs m op s (write_operand (io_operand1 op) v \<sigma>)"
proof (rule op_runs_stores [OF assms(1)])
  note d = agreeingD [OF assms(1)]
  let ?sg = "sf_type_value_is_signed (dest_type op)"
  let ?code = "div_code ?sg (dest_width op) (dest_loc m op) (first_loc m op) (second_loc m op)"
  show "operation_code m op = ?code" by (simp add: operation_code_def assms(5))
  have typed: "typed_bits ?sg (dest_width op) (read_loc (first_loc m op) s) = first_value call \<sigma> op"
    "typed_bits ?sg (dest_width op) (read_loc (second_loc m op) s) = second_value call \<sigma> op"
    using first_typed [OF assms(1), where call = call] second_typed [OF assms(1,2), where call = call] assms(3,4) by simp_all
  have "fits_width ?sg (dest_width op) v" using assms(8) by (simp add: fits_width_def wrap_type_def split: if_splits)
  then have "stores (dest_width op) (dest_slot m op) (quotient (typed_bits ?sg (dest_width op) (read_loc (first_loc m op) s))
      (typed_bits ?sg (dest_width op) (read_loc (second_loc m op) s))) s ?code"
    unfolding dest_loc_slot [OF d(6)]
    using first_operand(5) [OF assms(1)] second_operand(5) [OF assms(1,2)] assms(3,4,6) widths(1) [OF assms(1)]
    by (intro div_stores) (simp_all add: typed assms(7))
  then show "stores (dest_width op) (dest_slot m op) v s ?code" by (simp only: typed assms(7))
  show "canonical (dest_type op) v" using assms(8) by (simp add: canonical_def)
qed simp

lemma unary_runs:
  assumes "agreeing m \<sigma> s op" "canonical (dest_type op) v" "first_type op = dest_type op"
    "operation_code m op = unary_code f (dest_width op) (dest_loc m op) (first_loc m op)"
    "\<And>w a d. slot_or_imm w a \<Longrightarrow> stores w d (g (read_loc a s)) s (unary_code f w (Mem w d) a)"
    "take_bit (bits (dest_width op)) (g (read_loc (first_loc m op) s)) = take_bit (bits (dest_width op)) v"
  shows "op_runs m op s (write_operand (io_operand1 op) v \<sigma>)"
proof (rule op_runs_stores [OF assms(1,4,2) _ assms(6)])
  have "slot_or_imm (dest_width op) (first_loc m op)" using first_operand(5) [OF assms(1)] assms(3) by simp
  from assms(5) [OF this] show "stores (dest_width op) (dest_slot m op) (g (read_loc (first_loc m op) s)) s
      (unary_code f (dest_width op) (dest_loc m op) (first_loc m op))"
    by (simp add: dest_loc_slot [OF agreeingD(6) [OF assms(1)]])
qed

lemma neg_runs:
  assumes "agreeing m \<sigma> s op" "first_type op = dest_type op" "io_opcode op = SF_IR_OPCODE_NEGATE" "canonical (dest_type op) v"
    "take_bit (bits (dest_width op)) (- first_value call \<sigma> op) = take_bit (bits (dest_width op)) v"
  shows "op_runs m op s (write_operand (io_operand1 op) v \<sigma>)"
proof (rule unary_runs [OF assms(1,4,2) _ neg_stores])
  note d = agreeingD [OF assms(1)]
  show "operation_code m op = unary_code I_neg (dest_width op) (dest_loc m op) (first_loc m op)"
    by (simp add: operation_code_def assms(3))
  have "take_bit (bits (dest_width op)) (- read_loc (first_loc m op) s) = take_bit (bits (dest_width op)) (- first_value call \<sigma> op)"
    using first_bits [OF assms(1), where call = call] assms(2) by (metis take_bit_minus)
  then show "take_bit (bits (dest_width op)) (- read_loc (first_loc m op) s) = take_bit (bits (dest_width op)) v" using assms(5) by simp
qed

lemma not_runs:
  assumes "agreeing m \<sigma> s op" "first_type op = dest_type op" "io_opcode op = SF_IR_OPCODE_BITWISE_NOT" "canonical (dest_type op) v"
    "take_bit (bits (dest_width op)) (NOT (first_value call \<sigma> op)) = take_bit (bits (dest_width op)) v"
  shows "op_runs m op s (write_operand (io_operand1 op) v \<sigma>)"
proof (rule unary_runs [OF assms(1,4,2) _ not_stores])
  note d = agreeingD [OF assms(1)]
  show "operation_code m op = unary_code I_not (dest_width op) (dest_loc m op) (first_loc m op)"
    by (simp add: operation_code_def assms(3))
  have "take_bit (bits (dest_width op)) (NOT (read_loc (first_loc m op) s)) = take_bit (bits (dest_width op)) (NOT (first_value call \<sigma> op))"
    using first_bits [OF assms(1), where call = call] assms(2) by (metis take_bit_not_take_bit)
  then show "take_bit (bits (dest_width op)) (NOT (read_loc (first_loc m op) s)) = take_bit (bits (dest_width op)) v" using assms(5) by simp
qed

lemma logical_not_runs:
  assumes "agreeing m \<sigma> s op" "first_type op = dest_type op" "io_opcode op = SF_IR_OPCODE_LOGICAL_NOT" "canonical (dest_type op) v"
    "take_bit (bits (dest_width op)) (first_value call \<sigma> op XOR 1) = take_bit (bits (dest_width op)) v"
  shows "op_runs m op s (write_operand (io_operand1 op) v \<sigma>)"
proof (rule unary_runs [OF assms(1,4,2) _ xor_one_stores])
  note d = agreeingD [OF assms(1)]
  show "operation_code m op = unary_code (\<lambda>l. I_alu Alu_xor l (Imm 1)) (dest_width op) (dest_loc m op) (first_loc m op)"
    by (simp add: operation_code_def assms(3))
  have "take_bit (bits (dest_width op)) (read_loc (first_loc m op) s XOR 1) =
      take_bit (bits (dest_width op)) (first_value call \<sigma> op XOR 1)"
    using first_bits [OF assms(1), where call = call] assms(2) by (simp add: take_bit_xor)
  then show "take_bit (bits (dest_width op)) (read_loc (first_loc m op) s XOR 1) = take_bit (bits (dest_width op)) v"
    using assms(5) by simp
qed

text \<open>Comparisons look at the bits of both operands, as numbers of their type.\<close>

lemma relation_holds:
  assumes "relation opcode sg = Some c" "0 < w" "integer_binary opcode t a b = Some r"
    "a = typed_bits sg w x" "b = typed_bits sg w y"
  shows "of_bool (holds c w (take_bit (bits w) x) (take_bit (bits w) y)) = r"
proof -
  have eq: "take_bit (bits w) x = take_bit (bits w) y \<longleftrightarrow> a = b"
    unfolding assms(4,5) using take_typed_bits [OF assms(2)] typed_bits_cong [OF assms(2)] by metis
  show ?thesis
  proof (cases sg)
    case True
    have s: "signed_bits w (take_bit (bits w) x) = a" "signed_bits w (take_bit (bits w) y) = b"
      using signed_bits_cong [OF assms(2), of "take_bit (bits w) x" x] signed_bits_cong [OF assms(2), of "take_bit (bits w) y" y]
      by (simp_all add: assms(4,5) typed_bits_def True)
    show ?thesis using assms(1,3) by (cases opcode) (auto simp: s True eq simp del: One_nat_def)
  next
    case False
    have u: "take_bit (bits w) z = typed_bits sg w z" for z by (simp add: typed_bits_def False)
    show ?thesis using assms(1,3) unfolding u assms(4,5) [symmetric] by (cases opcode) (auto simp: False)
  qed
qed

lemma relational_runs:
  assumes "agreeing m \<sigma> s op" "operand_ok m (io_operand3 op)" "second_type op = first_type op" "dest_type op = SF_VAL_TYPE_BOOL"
    "relation (io_opcode op) (sf_type_value_is_signed (first_type op)) = Some c"
    "integer_binary (io_opcode op) t (first_value call \<sigma> op) (second_value call \<sigma> op) = Some r"
  shows "op_runs m op s (write_operand (io_operand1 op) r \<sigma>)"
proof -
  note d = agreeingD [OF assms(1)]
  let ?code = "relational_code c (first_width op) (dest_loc m op) (first_loc m op) (second_loc m op)"
  have typed: "first_value call \<sigma> op = typed_bits (sf_type_value_is_signed (first_type op)) (first_width op) (read_loc (first_loc m op) s)"
    "second_value call \<sigma> op = typed_bits (sf_type_value_is_signed (first_type op)) (first_width op) (read_loc (second_loc m op) s)"
    using first_typed [OF assms(1), where call = call] second_typed [OF assms(1,2), where call = call] assms(3) by simp_all
  have r: "of_bool (holds c (first_width op) (take_bit (bits (first_width op)) (read_loc (first_loc m op) s))
      (take_bit (bits (first_width op)) (read_loc (second_loc m op) s))) = r"
    by (rule relation_holds [OF assms(5) widths(4) [OF assms(1)] assms(6) typed])
  have w: "dest_width op = 1" by (simp add: assms(4))
  have "stores 1 (dest_slot m op) r s (relational_code c (first_width op) (Mem 1 (dest_slot m op)) (first_loc m op) (second_loc m op))"
    using first_operand(5) [OF assms(1)] second_operand(5) [OF assms(1,2)] assms(3) widths(2) [OF assms(1)]
    unfolding r [symmetric] by (intro relational_stores) simp_all
  then have "stores (dest_width op) (dest_slot m op) r s ?code" unfolding dest_loc_slot [OF d(6)] w .
  moreover have "operation_code m op = ?code" by (rule operation_code_relation [OF assms(5)])
  moreover have "canonical (dest_type op) r" unfolding assms(4) r [symmetric] by (rule canonical_of_bool)
  ultimately show ?thesis by (intro op_runs_stores [OF assms(1)]) simp_all
qed

text \<open>A count that is not negative is read as it is.\<close>

lemma canonical_nonneg: "canonical t v \<Longrightarrow> 0 \<le> v \<Longrightarrow> 0 < sf_type_value_width_bytes t \<Longrightarrow>
    take_bit (bits (sf_type_value_width_bytes t)) v = v"
proof -
  assume v: "canonical t v" "0 \<le> v" "0 < sf_type_value_width_bytes t"
  let ?b = "bits (sf_type_value_width_bytes t)"
  show ?thesis
  proof (cases "sf_type_value_is_signed t")
    case True
    then have "signed_bits (sf_type_value_width_bytes t) v = v" using v(1) by (simp add: canonical_def wrap_type_def)
    then have "v < 2 ^ (?b - 1)" by (metis signed_take_bit_int_less_exp)
    also have "(2 :: int) ^ (?b - 1) \<le> 2 ^ ?b" by (intro power_increasing) simp_all
    finally show ?thesis using v(2) by (simp add: take_bit_int_eq_self_iff)
  qed (use v(1) in \<open>simp add: canonical_def wrap_type_def\<close>)
qed

lemma shift_value:
  assumes "shift_of opcode sg = Some f" "0 < w" "integer_binary opcode t a c = Some r" "a = typed_bits sg w x"
  shows "take_bit (bits w) (shift f w (nat c) (take_bit (bits w) x)) = take_bit (bits w) r"
proof -
  have l: "take_bit (bits w) (take_bit (bits w) x * 2 ^ nat c) = take_bit (bits w) (a * 2 ^ nat c)"
    unfolding assms(4) by (rule take_bit_cong_mult) (simp_all add: assms(2))
  have s: "shift (if sg then Shift_arithmetic else Shift_right) w (nat c) (take_bit (bits w) x) = a div 2 ^ nat c"
    unfolding assms(4) using signed_bits_cong [OF assms(2), of "take_bit (bits w) x" x] by (simp add: typed_bits_def drop_bit_eq_div)
  consider "opcode = SF_IR_OPCODE_BITWISE_LSHIFT" "f = Shift_left"
    | "opcode = SF_IR_OPCODE_BITWISE_RSHIFT" "f = (if sg then Shift_arithmetic else Shift_right)"
    using assms(1) by (cases opcode) auto
  then show ?thesis
  proof cases
    case 1
    then show ?thesis using assms(3) l by (simp add: push_bit_eq_mult split: if_splits)
  next
    case 2
    then have "r = a div 2 ^ nat c" using assms(3) by (simp split: if_splits)
    then show ?thesis unfolding 2(2) s by simp
  qed
qed

lemma shift_runs:
  assumes "agreeing m \<sigma> s op" "operand_ok m (io_operand3 op)" "first_type op = dest_type op"
    "shift_of (io_opcode op) (sf_type_value_is_signed (dest_type op)) = Some f"
    "integer_binary (io_opcode op) (dest_type op) (first_value call \<sigma> op) (second_value call \<sigma> op) = Some r"
    "canonical (dest_type op) v" "take_bit (bits (dest_width op)) r = take_bit (bits (dest_width op)) v"
  shows "op_runs m op s (write_operand (io_operand1 op) v \<sigma>)"
proof (rule op_runs_stores [OF assms(1) _ assms(6)])
  note d = agreeingD [OF assms(1)]
  let ?code = "shift_code f (dest_width op) (second_width op) (dest_loc m op) (first_loc m op) (second_loc m op)"
  let ?c = "second_value call \<sigma> op"
  show "operation_code m op = ?code" by (rule operation_code_shift [OF assms(4)])
  have c: "0 \<le> ?c" "?c < int (bits (dest_width op))"
    using assms(4,5) by (cases "io_opcode op"; simp split: if_splits)+
  have read: "read_loc (second_loc m op) s = ?c"
    using second_operand(3,4) [OF assms(1,2), where call = call]
      canonical_nonneg [OF second_operand(1) [OF assms(1,2), where call = call] c(1) second_operand(7) [OF assms(1,2)]]
    by (cases "is_imm (second_loc m op)") simp_all
  have "stores (dest_width op) (dest_slot m op) (shift f (dest_width op) (nat (read_loc (second_loc m op) s))
      (take_bit (bits (dest_width op)) (read_loc (first_loc m op) s))) s ?code"
    unfolding dest_loc_slot [OF d(6)]
    using first_operand(5) [OF assms(1)] second_operand(5,6) [OF assms(1,2)] assms(3) widths(1) [OF assms(1)] c
    by (intro shift_stores) (simp_all add: read)
  then show "stores (dest_width op) (dest_slot m op) (shift f (dest_width op) (nat ?c)
      (take_bit (bits (dest_width op)) (read_loc (first_loc m op) s))) s ?code" by (simp only: read)
  have "first_value call \<sigma> op = typed_bits (sf_type_value_is_signed (dest_type op)) (dest_width op) (read_loc (first_loc m op) s)"
    using first_typed [OF assms(1), where call = call] assms(3) by simp
  from shift_value [OF assms(4) widths(3) [OF assms(1)] assms(5) this]
  show "take_bit (bits (dest_width op)) (shift f (dest_width op) (nat ?c)
      (take_bit (bits (dest_width op)) (read_loc (first_loc m op) s))) = take_bit (bits (dest_width op)) v" using assms(7) by simp
qed

text \<open>A conversion stores the value of its operand.\<close>

lemma convert_value:
  assumes "agreeing m \<sigma> s op"
  shows "(if is_imm (first_loc m op) then read_loc (first_loc m op) s
     else if sf_type_value_is_signed (first_type op) then signed_bits (first_width op) (read_loc (first_loc m op) s)
     else read_loc (first_loc m op) s) = first_value call \<sigma> op"
proof (cases "is_imm (first_loc m op)")
  case False
  then show ?thesis
    using first_typed [OF assms, where call = call] first_operand(4) [OF assms, where call = call]
    by (simp add: typed_bits_def split: if_splits)
qed (use first_operand(3) [OF assms] in simp)

lemma convert_canonical:
  assumes "agreeing m \<sigma> s op"
    "v = me_convert (machine_meaning call) (dest_type op) (operand_value (machine_meaning call) \<sigma> (io_operand2 op))"
  shows "canonical (dest_type op) v"
    "take_bit (bits (dest_width op)) (first_value call \<sigma> op) = take_bit (bits (dest_width op)) v"
proof -
  have v: "v = (if first_type op = dest_type op then first_value call \<sigma> op else wrap_type (dest_type op) (first_value call \<sigma> op))"
    by (simp add: assms(2))
  show "canonical (dest_type op) v"
    using first_operand(1) [OF assms(1), where call = call] canonical_wrap [OF widths(5) [OF assms(1)]] by (auto simp: v)
  show "take_bit (bits (dest_width op)) (first_value call \<sigma> op) = take_bit (bits (dest_width op)) v"
    using wrap_bits [OF widths(3) [OF assms(1)]] by (simp add: v)
qed

lemma convert_runs:
  assumes "agreeing m \<sigma> s op"
    "v = me_convert (machine_meaning call) (dest_type op) (operand_value (machine_meaning call) \<sigma> (io_operand2 op))"
    "operation_code m op = convert_code (sf_type_value_is_signed (first_type op)) (first_width op) (dest_width op) (dest_loc m op) (first_loc m op)"
  shows "op_runs m op s (write_operand (io_operand1 op) v \<sigma>)"
proof (rule op_runs_stores [OF assms(1,3) convert_canonical(1) [OF assms(1,2)] _ convert_canonical(2) [OF assms(1,2)]])
  show "stores (dest_width op) (dest_slot m op) (first_value call \<sigma> op) s (convert_code (sf_type_value_is_signed (first_type op))
      (first_width op) (dest_width op) (dest_loc m op) (first_loc m op))"
    unfolding dest_loc_slot [OF agreeingD(6) [OF assms(1)]] convert_value [OF assms(1), where call = call, symmetric]
    using first_operand(5) [OF assms(1)] widths(1,2) [OF assms(1)] by (intro convert_stores)
qed

text \<open>An assignment between operands with the same text writes nothing: both are the same slot.\<close>

lemma same_slot:
  assumes "frame_sound m" "operand_ok m x" "in_memory x" "operand_ok m y" "operand_loc m x = operand_loc m y"
  shows "in_memory y" "operand_name x = operand_name y" "op_value_type x = op_value_type y"
proof -
  show y: "in_memory y" using operand_formats(3) [OF assms(1,2)] operand_formats(3) [OF assms(1,4)] assms(3,5) by simp
  obtain e where e: "e \<in> set m" "ek_name e = operand_name x" "ek_type e = op_value_type x" "operand_loc m x = Mem (entry_width e) (ek_offset e)"
    by (rule operand_entry [OF assms(1-3)])
  obtain f where f: "f \<in> set m" "ek_name f = operand_name y" "ek_type f = op_value_type y" "operand_loc m y = Mem (entry_width f) (ek_offset f)"
    by (rule operand_entry [OF assms(1,4) y])
  obtain n where "frame_ok (m, n)" using assms(1) by (auto simp: frame_sound_def)
  then have sorted: "sorted_wrt (\<lambda>a b. ek_offset b + int (entry_width b) \<le> ek_offset a) m" "\<forall>e \<in> set m. 0 < entry_width e"
    by (auto simp: frame_ok_def)
  have "slot_bytes e = slot_bytes f" using e(4) f(4) assms(5) by (simp add: slot_bytes_def)
  moreover have "slot_bytes e \<noteq> {}" using sorted(2) e(1) by (auto simp: slot_bytes_def)
  ultimately have "e = f" using sorted_slots_disjoint [OF sorted(1) e(1) f(1)] by auto
  then show "operand_name x = operand_name y" "op_value_type x = op_value_type y" using e f by simp_all
qed

lemma assign_runs:
  assumes "agreeing m \<sigma> s op"
    "v = me_convert (machine_meaning call) (dest_type op) (operand_value (machine_meaning call) \<sigma> (io_operand2 op))"
    "io_opcode op = SF_IR_OPCODE_ASSIGN"
  shows "op_runs m op s (write_operand (io_operand1 op) v \<sigma>)"
proof (cases "first_loc m op = dest_loc m op")
  case True
  note d = agreeingD [OF assms(1)]
  note same = same_slot [OF d(1,5,6,7) True [symmetric]]
  have v: "v = first_value call \<sigma> op" using same(3) by (simp add: assms(2))
  have now: "slot_value \<sigma> (operand_name (io_operand1 op)) = v"
    using slot_value_operand [OF d(7) same(1), where \<sigma> = \<sigma> and M = "machine_meaning call"] by (simp add: v same(2))
  have "slot_value (write_operand (io_operand1 op) v \<sigma>) (ek_name e) = slot_value \<sigma> (ek_name e)" if "e \<in> set m" for e
    using slot_value_write [OF d(5,6), of "ek_name e" v \<sigma>] d(2) that now by (auto simp: names_ok_def)
  then have "agrees_frame m (write_operand (io_operand1 op) v \<sigma>) s" using d(3) by (simp add: agrees_frame_def)
  then show ?thesis
    unfolding op_runs_def by (simp add: operation_code_def assms(3) True same_outside_refl)
next
  case False
  then show ?thesis
    by (intro convert_runs [OF assms(1,2)]) (simp add: operation_code_def assms(3))
qed

lemma cast_runs:
  assumes "agreeing m \<sigma> s op"
    "v = me_convert (machine_meaning call) (dest_type op) (operand_value (machine_meaning call) \<sigma> (io_operand2 op))"
    "io_opcode op = SF_IR_OPCODE_CAST"
  shows "op_runs m op s (write_operand (io_operand1 op) v \<sigma>)"
  by (intro convert_runs [OF assms(1,2)]) (simp add: operation_code_def assms(3))

section \<open>Every operation\<close>

definition binary_opcode :: "sf_ir_opcode \<Rightarrow> bool" where
  "binary_opcode opcode \<longleftrightarrow> alu_of opcode \<noteq> None \<or> opcode = SF_IR_OPCODE_MULT \<or> opcode = SF_IR_OPCODE_DIV \<or>
     shift_of opcode True \<noteq> None \<or> relation opcode True \<noteq> None"

lemma exec_op_binary:
  "binary_opcode (io_opcode op) \<Longrightarrow> exec_op (machine_meaning call) op \<sigma> =
     map_option (\<lambda>r. write_operand (io_operand1 op) (wrap_type (dest_type op) r) \<sigma>)
       (integer_binary (io_opcode op) (dest_type op) (first_value call \<sigma> op) (second_value call \<sigma> op))"
  by (cases "io_opcode op") (simp_all add: binary_opcode_def exec_op_def Let_def option.map_comp comp_def)

lemma exec_op_unary:
  "io_opcode op = SF_IR_OPCODE_NEGATE \<or> io_opcode op = SF_IR_OPCODE_BITWISE_NOT \<or> io_opcode op = SF_IR_OPCODE_LOGICAL_NOT \<Longrightarrow>
   exec_op (machine_meaning call) op \<sigma> =
     Some (write_operand (io_operand1 op) (wrap_type (dest_type op) (integer_unary (io_opcode op) (first_value call \<sigma> op))) \<sigma>)"
  by (auto simp: exec_op_def Let_def)

text \<open>What conforming means for each group of operations.\<close>

lemma conforms_alu:
  assumes "conforms m op" "alu_of (io_opcode op) = Some f"
  shows "operand_ok m (io_operand3 op)" "first_type op = dest_type op" "second_type op = dest_type op"
  using assms by (cases "io_opcode op"; simp add: conforms_def Let_def)+

lemma conforms_others:
  assumes "conforms m op"
  shows "io_opcode op = SF_IR_OPCODE_MULT \<or> io_opcode op = SF_IR_OPCODE_DIV \<Longrightarrow>
      operand_ok m (io_operand3 op) \<and> first_type op = dest_type op \<and> second_type op = dest_type op"
    "shift_of (io_opcode op) sg \<noteq> None \<Longrightarrow> operand_ok m (io_operand3 op) \<and> first_type op = dest_type op"
    "relation (io_opcode op) sg \<noteq> None \<Longrightarrow>
      operand_ok m (io_operand3 op) \<and> second_type op = first_type op \<and> dest_type op = SF_VAL_TYPE_BOOL"
    "io_opcode op = SF_IR_OPCODE_NEGATE \<or> io_opcode op = SF_IR_OPCODE_BITWISE_NOT \<or> io_opcode op = SF_IR_OPCODE_LOGICAL_NOT \<Longrightarrow>
      first_type op = dest_type op"
  using assms by (cases "io_opcode op"; simp add: conforms_def Let_def)+

text \<open>The emitted text is the text of these instructions.\<close>

lemma emit_alu: "alu_of (io_opcode op) = Some f \<Longrightarrow>
    emit_operation m params op = map_option (\<lambda>text. (text, params)) (emit_binary (alu_text f) m op)"
  by (cases "io_opcode op") (auto simp: emit_operation_def)

lemma relation_emit: "relation (io_opcode op) sg = Some c \<Longrightarrow>
    emit_operation m params op = map_option (\<lambda>text. (text, params)) (emit_relational m op)"
  by (cases "io_opcode op") (auto simp: emit_operation_def)

lemma shift_emit: "shift_of (io_opcode op) (sf_type_value_is_signed (dest_type op)) = Some f \<Longrightarrow>
    emit_operation m params op = map_option (\<lambda>text. (text, params)) (emit_shift (shift_text f) m op)"
  by (cases "io_opcode op") (auto simp: emit_operation_def emit_rshift_def emit_lshift_def)

lemma operation_text:
  assumes "frame_sound m" "conforms m op"
  shows "emit_operation m params op = Some (code_text (operation_code m op), params)"
proof -
  have ok: "operands_ok m op" using assms(2) by (simp add: conforms_def)
  note c = conforms_others [OF assms(2)]
  consider (alu) f where "alu_of (io_opcode op) = Some f"
    | (shift) f where "shift_of (io_opcode op) (sf_type_value_is_signed (dest_type op)) = Some f"
    | (relational) c where "relation (io_opcode op) (sf_type_value_is_signed (first_type op)) = Some c"
    | (mult) "io_opcode op = SF_IR_OPCODE_MULT \<or> io_opcode op = SF_IR_OPCODE_DIV"
    | (others) "io_opcode op = SF_IR_OPCODE_NEGATE \<or> io_opcode op = SF_IR_OPCODE_BITWISE_NOT \<or>
        io_opcode op = SF_IR_OPCODE_LOGICAL_NOT \<or> io_opcode op = SF_IR_OPCODE_ASSIGN \<or> io_opcode op = SF_IR_OPCODE_CAST"
    using assms(2) by (cases "io_opcode op") (auto simp: conforms_def Let_def)
  then show ?thesis
  proof cases
    case (alu f)
    show ?thesis using emit_binary_text [OF assms(1) ok conforms_alu(1) [OF assms(2) alu]]
      by (simp add: emit_alu [OF alu] operation_code_alu [OF alu])
  next
    case (shift f)
    have "operand_ok m (io_operand3 op)" using c(2) [of "sf_type_value_is_signed (dest_type op)"] shift by simp
    from emit_shift_text [OF assms(1) ok this] show ?thesis
      by (simp add: shift_emit [OF shift] operation_code_shift [OF shift])
  next
    case (relational k)
    have "operand_ok m (io_operand3 op)" using c(3) [of "sf_type_value_is_signed (first_type op)"] relational by simp
    from emit_relational_text [OF assms(1) ok this relational] show ?thesis
      by (simp add: relation_emit [OF relational] operation_code_relation [OF relational])
  next
    case mult
    then show ?thesis using emit_mult_text [OF assms(1) ok] emit_div_text [OF assms(1) ok] c(1)
      by (auto simp: emit_operation_def operation_code_def)
  next
    case others
    then show ?thesis
      using emit_neg_text [OF assms(1) ok] emit_not_text [OF assms(1) ok] emit_assign_text [OF assms(1) ok] emit_cast_text [OF assms(1) ok]
      by (auto simp: emit_operation_def operation_code_def)
  qed
qed

lemma alu_result:
  assumes "alu_of opcode = Some f" "integer_binary opcode t a b = Some r" "0 < sf_type_value_width_bytes t"
  shows "take_bit (bits (sf_type_value_width_bytes t)) (alu f a b) =
    take_bit (bits (sf_type_value_width_bytes t)) (wrap_type t r)"
proof -
  have "alu f a b = r" using assms(1,2) by (cases opcode) auto
  then show ?thesis by (simp add: wrap_bits [OF assms(3)])
qed

lemma op_refines:
  assumes "frame_sound m" "names_ok m" "agrees_frame m \<sigma> s" "conforms m op" "exec_op (machine_meaning call) op \<sigma> = Some \<sigma>'"
  shows "op_runs m op s \<sigma>'"
proof -
  have ag: "agreeing m \<sigma> s op" using assms(1-4) by (simp add: agreeing_def conforms_def)
  note w = widths(3,5) [OF ag] and c = conforms_others [OF assms(4)]
  note canonical = canonical_wrap [OF w(2)] and bits = wrap_bits [OF w(1)]
  have binary: "\<exists>r. integer_binary (io_opcode op) (dest_type op) (first_value call \<sigma> op) (second_value call \<sigma> op) = Some r \<and>
      \<sigma>' = write_operand (io_operand1 op) (wrap_type (dest_type op) r) \<sigma>" if "binary_opcode (io_opcode op)"
    using assms(5) exec_op_binary [OF that, of call \<sigma>] by auto
  consider (alu) f where "alu_of (io_opcode op) = Some f"
    | (mult) "io_opcode op = SF_IR_OPCODE_MULT" | (div) "io_opcode op = SF_IR_OPCODE_DIV"
    | (shift) f where "shift_of (io_opcode op) (sf_type_value_is_signed (dest_type op)) = Some f"
    | (relational) c where "relation (io_opcode op) (sf_type_value_is_signed (first_type op)) = Some c"
    | (neg) "io_opcode op = SF_IR_OPCODE_NEGATE" | (bnot) "io_opcode op = SF_IR_OPCODE_BITWISE_NOT"
    | (lnot) "io_opcode op = SF_IR_OPCODE_LOGICAL_NOT"
    | (assign) "io_opcode op = SF_IR_OPCODE_ASSIGN" | (cast) "io_opcode op = SF_IR_OPCODE_CAST"
    using assms(4) by (cases "io_opcode op") (auto simp: conforms_def Let_def)
  then show ?thesis
  proof cases
    case (alu f)
    then obtain r where r: "integer_binary (io_opcode op) (dest_type op) (first_value call \<sigma> op) (second_value call \<sigma> op) = Some r"
      "\<sigma>' = write_operand (io_operand1 op) (wrap_type (dest_type op) r) \<sigma>"
      using binary by (auto simp: binary_opcode_def)
    show ?thesis unfolding r(2)
      by (rule alu_runs [OF ag conforms_alu [OF assms(4) alu] alu canonical alu_result [OF alu r(1) w(1)]])
  next
    case mult
    then show ?thesis
      using binary mult_runs [OF ag _ _ _ mult canonical bits [symmetric]] c(1) by (auto simp: binary_opcode_def)
  next
    case div
    define q where "q = quotient (first_value call \<sigma> op) (second_value call \<sigma> op)"
    have "second_value call \<sigma> op \<noteq> 0" "wrap_type (dest_type op) q = q" "\<sigma>' = write_operand (io_operand1 op) (wrap_type (dest_type op) q) \<sigma>"
      using div binary by (auto simp: binary_opcode_def q_def split: if_splits)
    then show ?thesis using div_runs [OF ag _ _ _ div _ q_def] c(1) div by simp
  next
    case (shift f)
    then have "binary_opcode (io_opcode op)" by (cases "io_opcode op") (auto simp: binary_opcode_def)
    moreover have "operand_ok m (io_operand3 op)" "first_type op = dest_type op"
      using c(2) [of "sf_type_value_is_signed (dest_type op)"] shift by auto
    ultimately show ?thesis using binary shift_runs [OF ag _ _ shift _ canonical bits [symmetric]] by auto
  next
    case (relational c)
    then have "binary_opcode (io_opcode op)" by (cases "io_opcode op") (auto simp: binary_opcode_def)
    then obtain r where r: "integer_binary (io_opcode op) (dest_type op) (first_value call \<sigma> op) (second_value call \<sigma> op) = Some r"
      "\<sigma>' = write_operand (io_operand1 op) (wrap_type (dest_type op) r) \<sigma>" using binary by auto
    have t: "operand_ok m (io_operand3 op)" "second_type op = first_type op" "dest_type op = SF_VAL_TYPE_BOOL"
      using c(3) relational by auto
    obtain z where "r = of_bool z" using r(1) relational by (cases "io_opcode op") auto
    then have "wrap_type (dest_type op) r = r" by (simp only: t(3) canonical_of_bool)
    then show ?thesis using relational_runs [OF ag t relational r(1)] r(2) by simp
  next
    case neg
    then show ?thesis using neg_runs [OF ag _ neg canonical bits [symmetric]] c(4) assms(5) exec_op_unary [of op call \<sigma>] by auto
  next
    case bnot
    then show ?thesis using not_runs [OF ag _ bnot canonical bits [symmetric]] c(4) assms(5) exec_op_unary [of op call \<sigma>] by auto
  next
    case lnot
    then show ?thesis using logical_not_runs [OF ag _ lnot canonical bits [symmetric]] c(4) assms(5) exec_op_unary [of op call \<sigma>] by auto
  next
    case assign
    have "write_operand (io_operand1 op) (me_convert (machine_meaning call) (dest_type op)
        (operand_value (machine_meaning call) \<sigma> (io_operand2 op))) \<sigma> = \<sigma>'"
      using assign assms(5) by (simp add: exec_op_def Let_def)
    then show ?thesis using assign_runs [OF ag refl assign] by metis
  next
    case cast
    have "write_operand (io_operand1 op) (me_convert (machine_meaning call) (dest_type op)
        (operand_value (machine_meaning call) \<sigma> (io_operand2 op))) \<sigma> = \<sigma>'"
      using cast assms(5) by (simp add: exec_op_def Let_def)
    then show ?thesis using cast_runs [OF ag refl cast] by metis
  qed
qed

end
