(* ===== verification/Asm_Flow.thy ===== *)
theory Asm_Flow
  imports Asm_Refine
begin

text \<open>
  The assembly of a function without calls computes what its intermediate code computes. The lines of
  the text are instructions, labels, jumps and returns; a run of the operations is followed by a run
  of the lines, operation by operation.
\<close>

section \<open>Lines\<close>

datatype asm_line = Code instruction | Asm_label nat | Asm_jump nat | Asm_jump_equal nat | Asm_return

definition asm_label_text :: "nat \<Rightarrow> string" where
  "asm_label_text n = ''.L'' @ dec_digits n"

text \<open>A return restores the stack pointer and the frame pointer of the caller.\<close>

fun line_text :: "asm_line \<Rightarrow> string" where
  "line_text (Code i) = line (instruction_text i)"
| "line_text (Asm_label n) = asm_label_text n @ '':''"
| "line_text (Asm_jump n) = line (''jmp '' @ asm_label_text n)"
| "line_text (Asm_jump_equal n) = line (''je '' @ asm_label_text n)"
| "line_text Asm_return = line ''mov rsp, rbp'' @ line ''pop rbp'' @ line ''ret''"

definition lines_text :: "asm_line list \<Rightarrow> string" where
  "lines_text lines = concat (map line_text lines)"

lemma lines_text_simps [simp]:
  "lines_text [] = []" "lines_text (l # ls) = line_text l @ lines_text ls"
  "lines_text (xs @ ys) = lines_text xs @ lines_text ys" "lines_text (map Code code) = code_text code"
  by (simp_all add: lines_text_def code_text_def comp_def)

fun find_asm_label :: "asm_line list \<Rightarrow> nat \<Rightarrow> nat option" where
  "find_asm_label [] n = None"
| "find_asm_label (l # ls) n = (if l = Asm_label n then Some 0 else map_option Suc (find_asm_label ls n))"

text \<open>One step; a return has none.\<close>

definition asm_next :: "asm_line list \<Rightarrow> nat \<Rightarrow> asm_state \<Rightarrow> (nat \<times> asm_state) option" where
  "asm_next lines pc s =
     (if length lines \<le> pc then None
      else case lines ! pc of
             Code i \<Rightarrow> map_option (\<lambda>s'. (pc + 1, s')) (exec_instruction i s)
           | Asm_label n \<Rightarrow> Some (pc + 1, s)
           | Asm_jump n \<Rightarrow> map_option (\<lambda>k. (k, s)) (find_asm_label lines n)
           | Asm_jump_equal n \<Rightarrow>
               (case as_flags s of
                  None \<Rightarrow> None
                | Some (w, a, b) \<Rightarrow> if a = b then map_option (\<lambda>k. (k, s)) (find_asm_label lines n) else Some (pc + 1, s))
           | Asm_return \<Rightarrow> None)"

text \<open>A run ends at a return with the state there.\<close>

fun asm_run :: "asm_line list \<Rightarrow> nat \<Rightarrow> nat \<Rightarrow> asm_state \<Rightarrow> asm_state option" where
  "asm_run lines 0 pc s = None"
| "asm_run lines (Suc fuel) pc s =
     (if pc < length lines \<and> lines ! pc = Asm_return then Some s
      else case asm_next lines pc s of None \<Rightarrow> None | Some (pc', s') \<Rightarrow> asm_run lines fuel pc' s')"

inductive asm_reaches :: "asm_line list \<Rightarrow> nat \<Rightarrow> asm_state \<Rightarrow> nat \<Rightarrow> asm_state \<Rightarrow> bool"
  for lines where
  here: "asm_reaches lines pc s pc s"
| step: "asm_next lines pc s = Some (pc1, s1) \<Longrightarrow> asm_reaches lines pc1 s1 pc2 s2 \<Longrightarrow> asm_reaches lines pc s pc2 s2"

lemma asm_reaches_trans: "asm_reaches lines pc s pc1 s1 \<Longrightarrow> asm_reaches lines pc1 s1 pc2 s2 \<Longrightarrow> asm_reaches lines pc s pc2 s2"
  by (induction rule: asm_reaches.induct) (auto intro: asm_reaches.step)

lemma asm_reaches_one: "asm_next lines pc s = Some (pc1, s1) \<Longrightarrow> asm_reaches lines pc s pc1 s1"
  by (rule asm_reaches.step [OF _ asm_reaches.here])

lemma asm_run_reaches:
  "asm_reaches lines pc s pc' s' \<Longrightarrow> pc' < length lines \<Longrightarrow> lines ! pc' = Asm_return \<Longrightarrow>
   \<exists>fuel. asm_run lines fuel pc s = Some s'"
proof (induction rule: asm_reaches.induct)
  case (here pc s)
  then show ?case by (intro exI [of _ 1]) simp
next
  case (step pc s pc1 s1 pc2 s2)
  then obtain fuel where f: "asm_run lines fuel pc1 s1 = Some s2" by blast
  have "\<not> (pc < length lines \<and> lines ! pc = Asm_return)" using step.hyps(1) by (auto simp: asm_next_def)
  then show ?case using f step.hyps(1) by (intro exI [of _ "Suc fuel"]) auto
qed

lemma code_reaches:
  "lines = pre @ map Code code @ post \<Longrightarrow> exec_instructions code s = Some s' \<Longrightarrow>
   asm_reaches lines (length pre) s (length pre + length code) s'"
proof (induction code arbitrary: pre s)
  case Nil
  then show ?case by (simp add: asm_reaches.here)
next
  case (Cons i code)
  then obtain s1 where s1: "exec_instruction i s = Some s1" "exec_instructions code s1 = Some s'" by (auto simp: bind_eq_Some_conv)
  have "asm_next lines (length pre) s = Some (length pre + 1, s1)" using s1(1) Cons.prems(1) by (simp add: asm_next_def)
  moreover have "asm_reaches lines (length (pre @ [Code i])) s1 (length (pre @ [Code i]) + length code) s'"
    by (rule Cons.IH [OF _ s1(2)]) (simp add: Cons.prems(1))
  ultimately show ?case by (auto intro: asm_reaches.step)
qed

section \<open>The lines of an operation\<close>

definition operation_lines :: "sf_stack_map \<Rightarrow> sf_ir_operation \<Rightarrow> asm_line list" where
  "operation_lines m op =
     (case io_opcode op of
        SF_IR_OPCODE_LABEL \<Rightarrow> [Asm_label (label_id (io_operand1 op))]
      | SF_IR_OPCODE_JMP_INCOND \<Rightarrow> [Asm_jump (label_id (io_operand1 op))]
      | SF_IR_OPCODE_JMP_COND \<Rightarrow>
          [Code (I_mov (Reg RAX (first_width op)) (first_loc m op)), Code (I_cmp (Reg RAX (first_width op)) (Imm 0)),
           Asm_jump_equal (label_id (io_operand1 op))]
      | SF_IR_OPCODE_RETURN \<Rightarrow>
          (if io_operand1 op \<noteq> k_no_operand then [Code (I_mov (Reg RAX (dest_width op)) (dest_loc m op))] else []) @ [Asm_return]
      | _ \<Rightarrow> map Code (operation_code m op))"

text \<open>Operations without calls, with operands of the frame.\<close>

definition flow_ok :: "sf_stack_map \<Rightarrow> sf_ir_operation \<Rightarrow> bool" where
  "flow_ok m op \<longleftrightarrow>
     (case io_opcode op of
        SF_IR_OPCODE_LABEL \<Rightarrow> True
      | SF_IR_OPCODE_JMP_INCOND \<Rightarrow> True
      | SF_IR_OPCODE_JMP_COND \<Rightarrow> operand_ok m (io_operand2 op)
      | SF_IR_OPCODE_RETURN \<Rightarrow> io_operand1 op = k_no_operand \<or> operand_ok m (io_operand1 op)
      | _ \<Rightarrow> conforms m op)"

lemma operation_lines_text:
  assumes "frame_sound m" "flow_ok m op"
  shows "emit_operation m params op = Some (lines_text (operation_lines m op), params)"
proof -
  have zero: "int_text 0 = ''0''" by (simp add: int_text_def dec_digits.simps)
  note f2 = operand_formats(1) [OF assms(1), of "io_operand2 op"] and f1 = operand_formats(1) [OF assms(1), of "io_operand1 op"]
  consider "io_opcode op = SF_IR_OPCODE_LABEL \<or> io_opcode op = SF_IR_OPCODE_JMP_INCOND"
    | "io_opcode op = SF_IR_OPCODE_JMP_COND" | "io_opcode op = SF_IR_OPCODE_RETURN"
    | "conforms m op" "operation_lines m op = map Code (operation_code m op)"
    using assms(2) by (cases "io_opcode op") (simp_all add: flow_ok_def operation_lines_def)
  then show ?thesis
  proof cases
    case 1
    then show ?thesis by (auto simp: emit_operation_def operation_lines_def emit_label_def emit_jmp_incond_def label_text_def asm_label_text_def)
  next
    case 2
    then show ?thesis using f2 assms(2)
      by (simp add: emit_operation_def operation_lines_def flow_ok_def emit_jmp_cond_def Let_def two_text_def zero label_text_def asm_label_text_def)
  next
    case 3
    then show ?thesis using f1 assms(2)
      by (auto simp: emit_operation_def operation_lines_def flow_ok_def emit_return_def two_text_def)
  next
    case 4
    then show ?thesis using operation_text [OF assms(1)] by simp
  qed
qed

lemma operations_lines_text:
  assumes "frame_sound m" "\<forall>op \<in> set ops. flow_ok m op"
  shows "emit_operations m params ops = Some (lines_text (concat (map (operation_lines m) ops)))"
  using assms(2) by (induction ops) (simp_all add: operation_lines_text [OF assms(1)])

section \<open>Places\<close>

text \<open>The first line of the operation with the number \<open>pc\<close>.\<close>

definition place :: "sf_stack_map \<Rightarrow> sf_ir_operation list \<Rightarrow> nat \<Rightarrow> nat" where
  "place m ops pc = length (concat (map (operation_lines m) (take pc ops)))"

definition function_lines :: "sf_stack_map \<Rightarrow> sf_ir_operation list \<Rightarrow> asm_line list" where
  "function_lines m ops = concat (map (operation_lines m) ops)"

lemma function_lines_split:
  assumes "pc < length ops"
  obtains pre post where "function_lines m ops = pre @ operation_lines m (ops ! pc) @ post" "length pre = place m ops pc"
    "place m ops (pc + 1) = place m ops pc + length (operation_lines m (ops ! pc))"
proof
  show "function_lines m ops = concat (map (operation_lines m) (take pc ops)) @ operation_lines m (ops ! pc) @
      concat (map (operation_lines m) (drop (Suc pc) ops))"
    by (subst id_take_nth_drop [OF assms]) (simp add: function_lines_def)
  show "length (concat (map (operation_lines m) (take pc ops))) = place m ops pc" by (simp add: place_def)
  show "place m ops (pc + 1) = place m ops pc + length (operation_lines m (ops ! pc))"
    using assms by (simp add: place_def take_Suc_conv_app_nth)
qed

lemma find_asm_label_append:
  "find_asm_label (xs @ ys) n = (case find_asm_label xs n of Some k \<Rightarrow> Some k | None \<Rightarrow> map_option (\<lambda>k. length xs + k) (find_asm_label ys n))"
  by (cases "find_asm_label ys n"; induction xs) (auto split: option.splits)

lemma find_asm_label_code: "find_asm_label (map Code code) n = None"
  by (induction code) simp_all

lemma operation_label:
  "find_asm_label (operation_lines m op) n =
     (if io_opcode op = SF_IR_OPCODE_LABEL \<and> label_id (io_operand1 op) = n then Some 0 else None)"
  by (cases "io_opcode op") (auto simp: operation_lines_def find_asm_label_code)

lemma find_label_lines: "find_label ops n = Some k \<Longrightarrow> find_asm_label (function_lines m ops) n = Some (place m ops k)"
proof (induction ops arbitrary: k)
  case (Cons op ops)
  show ?case
  proof (cases "io_opcode op = SF_IR_OPCODE_LABEL \<and> label_id (io_operand1 op) = n")
    case True
    then show ?thesis using Cons.prems by (auto simp: function_lines_def find_asm_label_append operation_label place_def)
  next
    case False
    then obtain j where j: "find_label ops n = Some j" "k = Suc j" using Cons.prems by (auto split: if_splits)
    have "find_asm_label (function_lines m ops) n = Some (place m ops j)" by (rule Cons.IH [OF j(1)])
    then show ?thesis using False j(2)
      by (auto simp: function_lines_def find_asm_label_append operation_label place_def)
  qed
qed simp

section \<open>Steps\<close>

lemma place_next:
  assumes "pc < length ops" "operation_lines m (ops ! pc) = map Code code" "exec_instructions code s = Some s'"
  shows "asm_reaches (function_lines m ops) (place m ops pc) s (place m ops (pc + 1)) s'"
proof -
  obtain pre post where split: "function_lines m ops = pre @ operation_lines m (ops ! pc) @ post" "length pre = place m ops pc"
    "place m ops (pc + 1) = place m ops pc + length (operation_lines m (ops ! pc))"
    by (rule function_lines_split [OF assms(1)])
  have "function_lines m ops = pre @ map Code code @ post" using split(1) assms(2) by simp
  from code_reaches [OF this assms(3)] show ?thesis using split(2,3) assms(2) by simp
qed

lemma conforms_lines:
  assumes "conforms m op"
  shows "operation_lines m op = map Code (operation_code m op)"
    "io_opcode op \<noteq> SF_IR_OPCODE_RETURN" "io_opcode op \<noteq> SF_IR_OPCODE_JMP_INCOND" "io_opcode op \<noteq> SF_IR_OPCODE_JMP_COND"
  using assms by (cases "io_opcode op"; simp add: conforms_def operation_lines_def)+

text \<open>The test of a condition: the value in the accumulator, compared with 0.\<close>

lemma test_exec:
  assumes "frame_sound m" "agrees_frame m \<sigma> s" "operand_ok m c"
  obtains s' where "exec_instructions [I_mov (Reg RAX (operand_width c)) (operand_loc m c), I_cmp (Reg RAX (operand_width c)) (Imm 0)] s = Some s'"
    "as_mem s' = as_mem s" "\<exists>w a. as_flags s' = Some (w, a, 0) \<and> (a = 0 \<longleftrightarrow> snd (operand_value (machine_meaning call) \<sigma> c) = 0)"
proof -
  let ?w = "operand_width c" and ?l = "operand_loc m c" and ?v = "snd (operand_value (machine_meaning call) \<sigma> c)"
  define s1 where "s1 = write_loc (Reg RAX ?w) (read_loc ?l s) s"
  note r = read_operand(2-5) [OF assms, where call = call] read_operand(6) [OF assms]
  have w: "0 < ?w" by (rule operand_formats(4) [OF assms(1,3)])
  have e: "exec_instruction (I_mov (Reg RAX ?w) ?l) s = Some s1" unfolding s1_def by (rule mov_operand [OF r(5)])
  have a: "read_loc (Reg RAX ?w) s1 = take_bit (bits ?w) (read_loc ?l s)"
    by (simp add: s1_def del: read_loc.simps write_loc.simps)
  have "wrap_type (op_value_type c) (read_loc ?l s) = 0 \<longleftrightarrow> take_bit (bits ?w) (read_loc ?l s) = 0"
  proof
    assume "wrap_type (op_value_type c) (read_loc ?l s) = 0"
    then show "take_bit (bits ?w) (read_loc ?l s) = 0" using wrap_bits [OF w, of "read_loc ?l s"] by simp
  next
    assume "take_bit (bits ?w) (read_loc ?l s) = 0"
    then show "wrap_type (op_value_type c) (read_loc ?l s) = 0"
      using typed_bits_cong [OF w, of "read_loc ?l s" 0] by (simp add: wrap_typed_bits typed_bits_def)
  qed
  then have zero: "take_bit (bits ?w) (read_loc ?l s) = 0 \<longleftrightarrow> ?v = 0" using r(2) by simp
  show thesis
    by (rule that [of "s1\<lparr>as_flags := Some (?w, read_loc (Reg RAX ?w) s1, 0)\<rparr>"])
      (use e zero a in \<open>auto simp: two_ok_def s1_def simp del: read_loc.simps write_loc.simps\<close>)
qed

lemma line_at:
  assumes "pc < length ops" "operation_lines m (ops ! pc) = xs @ l # ys"
  shows "place m ops pc + length xs < length (function_lines m ops)" "function_lines m ops ! (place m ops pc + length xs) = l"
    "ys = [] \<Longrightarrow> place m ops (pc + 1) = place m ops pc + length xs + 1"
proof -
  obtain pre post where split: "function_lines m ops = pre @ operation_lines m (ops ! pc) @ post" "length pre = place m ops pc"
    "place m ops (pc + 1) = place m ops pc + length (operation_lines m (ops ! pc))"
    by (rule function_lines_split [OF assms(1)])
  have lines: "function_lines m ops = (pre @ xs) @ l # ys @ post" "length (pre @ xs) = place m ops pc + length xs"
    using split(1,2) assms(2) by simp_all
  show "place m ops pc + length xs < length (function_lines m ops)" using lines by simp
  show "function_lines m ops ! (place m ops pc + length xs) = l" unfolding lines(1) lines(2) [symmetric] by (rule nth_append_length)
  show "ys = [] \<Longrightarrow> place m ops (pc + 1) = place m ops pc + length xs + 1" using split(3) assms(2) by simp
qed

lemma prefix_reaches:
  assumes "pc < length ops" "operation_lines m (ops ! pc) = map Code code @ ys" "exec_instructions code s = Some s'"
  shows "asm_reaches (function_lines m ops) (place m ops pc) s (place m ops pc + length code) s'"
proof -
  obtain pre post where split: "function_lines m ops = pre @ operation_lines m (ops ! pc) @ post" "length pre = place m ops pc"
    by (rule function_lines_split [OF assms(1)])
  have "function_lines m ops = pre @ map Code code @ (ys @ post)" using split(1) assms(2) by simp
  from code_reaches [OF this assms(3)] show ?thesis using split(2) by simp
qed

lemma branch_step:
  assumes "frame_sound m" "agrees_frame m \<sigma> s" "pc < length ops" "io_opcode (ops ! pc) = SF_IR_OPCODE_JMP_COND"
    "operand_ok m (io_operand2 (ops ! pc))"
    "if snd (operand_value (machine_meaning call) \<sigma> (io_operand2 (ops ! pc))) \<noteq> 0 then pc' = pc + 1
     else find_label ops (label_id (io_operand1 (ops ! pc))) = Some pc'"
  shows "\<exists>s'. asm_reaches (function_lines m ops) (place m ops pc) s (place m ops pc') s' \<and> as_mem s' = as_mem s"
proof -
  let ?op = "ops ! pc" and ?lines = "function_lines m ops"
  let ?test = "[I_mov (Reg RAX (first_width ?op)) (first_loc m ?op), I_cmp (Reg RAX (first_width ?op)) (Imm 0)]"
  obtain s' where s': "exec_instructions ?test s = Some s'" "as_mem s' = as_mem s"
    "\<exists>w a. as_flags s' = Some (w, a, 0) \<and> (a = 0 \<longleftrightarrow> snd (operand_value (machine_meaning call) \<sigma> (io_operand2 ?op)) = 0)"
    by (rule test_exec [OF assms(1,2,5)])
  have lines: "operation_lines m ?op = map Code ?test @ Asm_jump_equal (label_id (io_operand1 ?op)) # []"
    by (simp add: operation_lines_def assms(4))
  have r: "asm_reaches ?lines (place m ops pc) s (place m ops pc + 2) s'" using prefix_reaches [OF assms(3) lines s'(1)] by simp
  have at: "place m ops pc + 2 < length ?lines" "?lines ! (place m ops pc + 2) = Asm_jump_equal (label_id (io_operand1 ?op))"
    "place m ops (pc + 1) = place m ops pc + 3"
    using line_at [OF assms(3) lines] by simp_all
  have "asm_next ?lines (place m ops pc + 2) s' = Some (place m ops pc', s')"
  proof (cases "snd (operand_value (machine_meaning call) \<sigma> (io_operand2 ?op)) = 0")
    case True
    then have "find_asm_label ?lines (label_id (io_operand1 ?op)) = Some (place m ops pc')"
      using assms(6) by (intro find_label_lines) simp
    then show ?thesis using s'(3) True at by (auto simp: asm_next_def)
  next
    case False
    then show ?thesis using s'(3) at assms(6) by (auto simp: asm_next_def)
  qed
  from asm_reaches_trans [OF r asm_reaches_one [OF this]] s'(2) show ?thesis by blast
qed

lemma agrees_same_memory: "agrees_frame m \<sigma> s \<Longrightarrow> as_mem s' = as_mem s \<Longrightarrow> agrees_frame m \<sigma> s' \<and> same_outside m s s'"
  by (simp add: agrees_frame_def same_outside_def)

lemma flow_step:
  assumes "frame_sound m" "names_ok m" "agrees_frame m \<sigma> s" "\<forall>op \<in> set ops. flow_ok m op"
    and "ir_next (machine_meaning call) ops pc \<sigma> = Some (pc', \<sigma>')"
  shows "\<exists>s'. asm_reaches (function_lines m ops) (place m ops pc) s (place m ops pc') s' \<and> agrees_frame m \<sigma>' s' \<and> same_outside m s s'"
proof -
  let ?op = "ops ! pc" and ?lines = "function_lines m ops"
  have pc: "pc < length ops" using assms(5) by (auto simp: ir_next_def split: if_splits)
  then have ok: "flow_ok m ?op" using assms(4) by simp
  consider "io_opcode ?op = SF_IR_OPCODE_LABEL" | "io_opcode ?op = SF_IR_OPCODE_JMP_INCOND"
    | "io_opcode ?op = SF_IR_OPCODE_JMP_COND" | "conforms m ?op"
    using ok assms(5) pc by (cases "io_opcode ?op") (simp_all add: flow_ok_def ir_next_def Let_def)
  then show ?thesis
  proof cases
    case 1
    then have lines: "operation_lines m ?op = [] @ Asm_label (label_id (io_operand1 ?op)) # []" by (simp add: operation_lines_def)
    have "pc' = pc + 1" "\<sigma>' = \<sigma>" using 1 assms(5) pc by (simp_all add: ir_next_def Let_def exec_op_def)
    moreover have "asm_next ?lines (place m ops pc) s = Some (place m ops (pc + 1), s)"
      using line_at [OF pc lines] by (simp add: asm_next_def)
    ultimately show ?thesis using asm_reaches_one assms(3) same_outside_refl by blast
  next
    case 2
    then have lines: "operation_lines m ?op = [] @ Asm_jump (label_id (io_operand1 ?op)) # []" by (simp add: operation_lines_def)
    have "find_label ops (label_id (io_operand1 ?op)) = Some pc'" "\<sigma>' = \<sigma>" using 2 assms(5) pc by (auto simp: ir_next_def Let_def)
    moreover from this have "asm_next ?lines (place m ops pc) s = Some (place m ops pc', s)"
      using line_at [OF pc lines] find_label_lines [of ops "label_id (io_operand1 ?op)" pc' m] by (simp add: asm_next_def)
    ultimately show ?thesis using asm_reaches_one assms(3) same_outside_refl by blast
  next
    case 3
    have "operand_ok m (io_operand2 ?op)" using ok 3 by (simp add: flow_ok_def)
    moreover have "if snd (operand_value (machine_meaning call) \<sigma> (io_operand2 ?op)) \<noteq> 0 then pc' = pc + 1
        else find_label ops (label_id (io_operand1 ?op)) = Some pc'" "\<sigma>' = \<sigma>"
      using 3 assms(5) pc by (auto simp: ir_next_def Let_def split: if_splits)
    ultimately obtain s' where "asm_reaches ?lines (place m ops pc) s (place m ops pc') s'" "as_mem s' = as_mem s"
      using branch_step [OF assms(1,3) pc 3] by blast
    then show ?thesis using agrees_same_memory [OF assms(3)] \<open>\<sigma>' = \<sigma>\<close> by blast
  next
    case 4
    note c = conforms_lines [OF 4]
    have "pc' = pc + 1" "exec_op (machine_meaning call) ?op \<sigma> = Some \<sigma>'"
      using assms(5) pc c(2-4) by (auto simp: ir_next_def Let_def split: if_splits)
    moreover from op_refines [OF assms(1-3) 4 this(2)] obtain s' where
      "exec_instructions (operation_code m ?op) s = Some s'" "agrees_frame m \<sigma>' s'" "same_outside m s s'"
      by (auto simp: op_runs_def)
    ultimately show ?thesis using place_next [OF pc c(1)] by blast
  qed
qed

section \<open>Runs of a function\<close>

text \<open>The result is in the accumulator, in the bits of its type.\<close>

definition returned :: "(sf_value_type \<times> int) option \<Rightarrow> asm_state \<Rightarrow> bool" where
  "returned r s \<longleftrightarrow> (case r of None \<Rightarrow> True
     | Some (t, v) \<Rightarrow> read_loc (Reg RAX (sf_type_value_width_bytes t)) s = take_bit (bits (sf_type_value_width_bytes t)) v)"

lemma return_step:
  assumes "frame_sound m" "agrees_frame m \<sigma> s" "pc < length ops" "flow_ok m (ops ! pc)"
    "ir_return (machine_meaning call) ops pc \<sigma> = Some r"
  shows "\<exists>pc' s'. asm_reaches (function_lines m ops) (place m ops pc) s pc' s' \<and> pc' < length (function_lines m ops) \<and>
    function_lines m ops ! pc' = Asm_return \<and> returned r s' \<and> as_mem s' = as_mem s"
proof -
  let ?op = "ops ! pc" and ?lines = "function_lines m ops"
  have op: "io_opcode ?op = SF_IR_OPCODE_RETURN" and r: "r = (if io_operand1 ?op = k_no_operand then None
      else Some (operand_value (machine_meaning call) \<sigma> (io_operand1 ?op)))"
    using assms(5) by (auto simp: ir_return_def split: if_splits)
  show ?thesis
  proof (cases "io_operand1 ?op = k_no_operand")
    case True
    then have lines: "operation_lines m ?op = [] @ Asm_return # []" by (simp add: operation_lines_def op)
    then show ?thesis using line_at [OF assms(3) lines] r True by (auto simp: returned_def intro: asm_reaches.here)
  next
    case False
    let ?w = "dest_width ?op" and ?l = "dest_loc m ?op"
    have ok: "operand_ok m (io_operand1 ?op)" using assms(4) False by (simp add: flow_ok_def op)
    note rd = read_operand(3,4,5) [OF assms(1,2) ok, where call = call] read_operand(6) [OF assms(1,2) ok]
    have lines: "operation_lines m ?op = map Code [I_mov (Reg RAX ?w) ?l] @ Asm_return # []"
      using False by (simp add: operation_lines_def op)
    define s' where "s' = write_loc (Reg RAX ?w) (read_loc ?l s) s"
    have e: "exec_instructions [I_mov (Reg RAX ?w) ?l] s = Some s'" using mov_operand [OF rd(4)] by (simp add: s'_def)
    have "take_bit (bits ?w) (read_loc ?l s) = take_bit (bits ?w) (snd (operand_value (machine_meaning call) \<sigma> (io_operand1 ?op)))"
      using rd(2,3) by (cases "is_imm ?l") simp_all
    then have "returned r s'"
      using False r by (simp add: returned_def s'_def split_beta del: read_loc.simps write_loc.simps)
    moreover have "as_mem s' = as_mem s" by (simp add: s'_def)
    moreover note prefix_reaches [OF assms(3) lines e] line_at [OF assms(3) lines]
    ultimately show ?thesis by auto
  qed
qed

lemma flow_run:
  fixes \<sigma> :: "(int, 'w) machine"
  assumes "frame_sound m" "names_ok m" "\<forall>op \<in> set ops. flow_ok m op"
  shows "agrees_frame m \<sigma> s \<Longrightarrow> ir_run (machine_meaning call) ops fuel pc \<sigma> = Some (r, env', w') \<Longrightarrow>
    \<exists>pc' s' (\<sigma>' :: (int, 'w) machine). asm_reaches (function_lines m ops) (place m ops pc) s pc' s' \<and> pc' < length (function_lines m ops) \<and>
      function_lines m ops ! pc' = Asm_return \<and> returned r s' \<and> agrees_frame m \<sigma>' s' \<and> ma_env \<sigma>' = env' \<and> same_outside m s s'"
proof (induction fuel arbitrary: pc \<sigma> s)
  case (Suc fuel)
  show ?case
  proof (cases "ir_return (machine_meaning call) ops pc \<sigma>")
    case (Some r')
    then have r: "r' = r" "env' = ma_env \<sigma>" using Suc.prems(2) by simp_all
    have pc: "pc < length ops" using Some by (auto simp: ir_return_def split: if_splits)
    then have "flow_ok m (ops ! pc)" using assms(3) by simp
    from return_step [OF assms(1) Suc.prems(1) pc this Some [unfolded r]] obtain pc' s' where
      s': "asm_reaches (function_lines m ops) (place m ops pc) s pc' s'" "pc' < length (function_lines m ops)"
      "function_lines m ops ! pc' = Asm_return" "returned r s'" "as_mem s' = as_mem s" by blast
    show ?thesis
      by (rule exI [of _ pc'], rule exI [of _ s'], rule exI [of _ \<sigma>]) (use s' r(2) agrees_same_memory [OF Suc.prems(1) s'(5)] in simp)
  next
    case None
    then obtain pc1 \<sigma>1 where step: "ir_next (machine_meaning call) ops pc \<sigma> = Some (pc1, \<sigma>1)"
      "ir_run (machine_meaning call) ops fuel pc1 \<sigma>1 = Some (r, env', w')"
      using Suc.prems(2) by (auto split: option.splits)
    obtain s1 where s1: "asm_reaches (function_lines m ops) (place m ops pc) s (place m ops pc1) s1" "agrees_frame m \<sigma>1 s1" "same_outside m s s1"
      using flow_step [OF assms(1,2) Suc.prems(1) assms(3) step(1)] by blast
    from Suc.IH [OF s1(2) step(2)] show ?thesis using asm_reaches_trans [OF s1(1)] same_outside_trans [OF s1(3)] by metis
  qed
qed simp

lemma populated_sound:
  assumes "frame_size (sf_stack_populate [] ps ops) \<le> 2 ^ 63"
  shows "frame_sound (sf_stack_populate [] ps ops)"
proof -
  obtain n where run: "(sf_stack_populate [] ps ops, n) = frame.add_all (requests ps ops) ([], 0)" using populate_requests by blast
  have "frame_ok ([], 0)" by (simp add: frame_ok_def)
  then have "frame_ok (sf_stack_populate [] ps ops, n)" unfolding run by (rule frame.add_all_ok)
  moreover have "- (2 ^ 63) \<le> ek_offset e" if "e \<in> set (sf_stack_populate [] ps ops)" for e
    using frame_size_covers [OF that] assms by linarith
  ultimately show ?thesis by (auto simp: frame_sound_def)
qed

text \<open>The slots of the variables hold the values of the environment.\<close>

definition variables_hold :: "sf_stack_map \<Rightarrow> (string \<Rightarrow> int) \<Rightarrow> asm_state \<Rightarrow> bool" where
  "variables_hold m env s \<longleftrightarrow> (\<forall>e \<in> set m. CHR ''@'' \<in> set (ek_name e) \<longrightarrow> canonical (ek_type e) (env (ek_name e)) \<and>
     load (entry_width e) (ek_offset e) (as_mem s) = take_bit (bits (entry_width e)) (env (ek_name e)))"

text \<open>The temporaries are what their slots hold.\<close>

lemma agrees_some_temps:
  assumes "frame_sound m" "names_ok m" "variables_hold m env s"
  obtains temps where "agrees_frame m \<lparr>ma_env = env, ma_temps = temps, ma_params = [], ma_world = w\<rparr> s"
proof -
  define temps where "temps k = (case sf_stack_lookup_entry m (''t'' @ dec_digits k) of
    Some e \<Rightarrow> wrap_type (ek_type e) (load (entry_width e) (ek_offset e) (as_mem s)) | None \<Rightarrow> 0)" for k
  obtain n where "frame_ok (m, n)" using assms(1) by (auto simp: frame_sound_def)
  then have ok: "distinct (map ek_name m)" "\<forall>e \<in> set m. 0 < entry_width e" by (auto simp: frame_ok_def)
  have found: "sf_stack_lookup_entry m (ek_name e) = Some e" if e: "e \<in> set m" for e
  proof -
    obtain x where x: "sf_stack_lookup_entry m (ek_name e) = Some x" using e lookup_none [of m "ek_name e"] by (cases "sf_stack_lookup_entry m (ek_name e)") auto
    then have "x \<in> set m" "ek_name x = ek_name e" using lookup_entry(1,2) [OF assms(1) x] by simp_all
    then have "x = e" using ok(1) e by (metis distinct_map inj_onD)
    then show ?thesis using x by simp
  qed
  have "agrees_frame m \<lparr>ma_env = env, ma_temps = temps, ma_params = [], ma_world = w\<rparr> s"
    unfolding agrees_frame_def
  proof (intro ballI)
    fix e
    assume e: "e \<in> set m"
    let ?\<sigma> = "\<lparr>ma_env = env, ma_temps = temps, ma_params = [], ma_world = w\<rparr>"
    show "canonical (ek_type e) (slot_value ?\<sigma> (ek_name e)) \<and>
        load (entry_width e) (ek_offset e) (as_mem s) = take_bit (bits (entry_width e)) (slot_value ?\<sigma> (ek_name e))"
    proof (cases "CHR ''@'' \<in> set (ek_name e)")
      case True
      then show ?thesis using assms(3) e by (simp add: variables_hold_def slot_value_def)
    next
      case False
      then obtain k where k: "ek_name e = ''t'' @ dec_digits k" using assms(2) e by (auto simp: names_ok_def)
      have w: "0 < entry_width e" using ok(2) e by simp
      then have "ek_type e \<noteq> SF_VAL_TYPE_VOID" by auto
      moreover have "slot_value ?\<sigma> (ek_name e) = wrap_type (ek_type e) (load (entry_width e) (ek_offset e) (as_mem s))"
        using found [OF e] temp_name_value [of k] unfolding k by (simp add: slot_value_def temps_def)
      ultimately show ?thesis using wrap_bits [OF w] load_bits by (simp add: canonical_wrap)
    qed
  qed
  then show thesis by (rule that)
qed

end
