(* ===== verification/Asm_Entry.thy ===== *)
theory Asm_Entry
  imports Asm_Flow
begin

text \<open>
  The assembly of a function from its entry on: the stores of the parameters, which arrive in
  registers and above the frame, and then the lines of the operations (\<open>Asm_Flow\<close>). The result joins the
  lowering (\<open>Ir_Refine\<close>) and the code generator: what the program text of a function means is what its
  assembly computes.
\<close>

section \<open>Parameters\<close>

text \<open>The place of the argument with the number \<open>i\<close> in the calling convention, once \<^verbatim>\<open>rbp\<close> is set.\<close>

definition argument_register :: "nat \<Rightarrow> register" where
  "argument_register i = [RDI, RSI, RDX, RCX, R8, R9] ! i"

definition argument_loc :: "nat \<Rightarrow> nat \<Rightarrow> location" where
  "argument_loc i w = (if i < 6 then Reg (argument_register i) w else Mem w (16 + int (i - 6) * 8))"

abbreviation parameter_width :: "sf_parameter \<Rightarrow> nat" where
  "parameter_width p \<equiv> sf_type_value_width_bytes (pm_type p)"

definition parameter_code :: "sf_stack_map \<Rightarrow> nat \<Rightarrow> sf_parameter \<Rightarrow> instruction list" where
  "parameter_code m i p =
     (let w = parameter_width p; d = Mem w (sf_stack_lookup m (pm_name p))
      in if i < 6 then [I_mov d (argument_loc i w)] else [I_mov (Reg RAX w) (argument_loc i w), I_mov d (Reg RAX w)])"

fun parameters_code :: "sf_stack_map \<Rightarrow> nat \<Rightarrow> sf_parameter list \<Rightarrow> instruction list" where
  "parameters_code m i [] = []"
| "parameters_code m i (p # ps) = parameter_code m i p @ parameters_code m (i + 1) ps"

definition parameter_ok :: "sf_stack_map \<Rightarrow> sf_parameter \<Rightarrow> bool" where
  "parameter_ok m p \<longleftrightarrow> map_option ek_type (sf_stack_lookup_entry m (pm_name p)) = Some (pm_type p)"

lemma parameter_entry:
  assumes "frame_sound m" "parameter_ok m p"
  obtains e where "e \<in> set m" "ek_name e = pm_name p" "ek_type e = pm_type p" "ek_offset e = sf_stack_lookup m (pm_name p)"
    "0 < parameter_width p" "stack_offset m (pm_name p) = Some (ek_offset e)"
proof -
  obtain e where e: "sf_stack_lookup_entry m (pm_name p) = Some e" "ek_type e = pm_type p"
    using assms(2) by (auto simp: parameter_ok_def)
  show thesis using that lookup_entry [OF assms(1) e(1)] e(2) by simp
qed

lemma param_register_text:
  assumes "i < 6" "0 < sf_type_value_width_bytes t"
  shows "param_register i (sf_type_value_width_bytes t) = Some (register_text (argument_register i) (sf_type_value_width_bytes t))"
proof -
  have i: "i = 0 \<or> i = 1 \<or> i = 2 \<or> i = 3 \<or> i = 4 \<or> i = 5" using assms(1) by auto
  have names: "param_register i w = Some (register_text (argument_register i) w)" if "w = 1 \<or> w = 2 \<or> w = 4 \<or> w = 8" for w
    using i that by (elim disjE) (simp_all add: param_register_def argument_register_def counter_register_def Let_def eval_nat_numeral)
  show ?thesis using assms(2) width_bytes_cases [of t] by (intro names) auto
qed

lemma parameter_text:
  assumes "frame_sound m" "parameter_ok m p"
  shows "emit_parameter m i p = Some (code_text (parameter_code m i p))"
proof -
  obtain e where "e \<in> set m" "ek_name e = pm_name p" "ek_type e = pm_type p" and
    e: "ek_offset e = sf_stack_lookup m (pm_name p)" "0 < parameter_width p" "stack_offset m (pm_name p) = Some (ek_offset e)"
    by (rule parameter_entry [OF assms])
  have above: "signed_text (16 + int (i - 6) * 8) = ''+'' @ int_text (16 + int (i - 6) * 8)"
    by (simp add: signed_text_def int_text_def)
  show ?thesis
  proof (cases "i < 6")
    case True
    then show ?thesis using e param_register_text [OF True e(2)]
      by (simp add: emit_parameter_def parameter_code_def Let_def argument_loc_def two_text_def)
  next
    case False
    then show ?thesis using e above
      by (simp add: emit_parameter_def parameter_code_def Let_def argument_loc_def two_text_def)
  qed
qed

lemma parameters_text:
  assumes "frame_sound m"
  shows "\<forall>p \<in> set ps. parameter_ok m p \<Longrightarrow> emit_parameters m i ps = Some (code_text (parameters_code m i ps))"
  by (induction ps arbitrary: i) (simp_all add: parameter_text [OF assms])

section \<open>The stores of the parameters\<close>

lemma parameter_exec:
  obtains s' where "exec_instructions (parameter_code m i p) s = Some s'"
    "as_mem s' = store (parameter_width p) (sf_stack_lookup m (pm_name p)) (read_loc (argument_loc i (parameter_width p)) s) (as_mem s)"
    "\<And>r. r \<noteq> RAX \<Longrightarrow> as_regs s' r = as_regs s r"
proof (cases "i < 6")
  case True
  let ?w = "parameter_width p"
  show thesis
    by (rule that [of "write_loc (Mem ?w (sf_stack_lookup m (pm_name p))) (read_loc (argument_loc i ?w) s) s"])
      (use True in \<open>simp_all add: parameter_code_def Let_def argument_loc_def two_ok_def\<close>)
next
  case False
  let ?w = "parameter_width p"
  define s1 where "s1 = write_loc (Reg RAX ?w) (read_loc (argument_loc i ?w) s) s"
  have v: "read_loc (Reg RAX ?w) s1 = read_loc (argument_loc i ?w) s"
    using False unfolding s1_def read_write_reg by (simp add: argument_loc_def load_bits)
  show thesis
    by (rule that [of "write_loc (Mem ?w (sf_stack_lookup m (pm_name p))) (read_loc (Reg RAX ?w) s1) s1"])
      (use False v in \<open>simp_all add: parameter_code_def Let_def argument_loc_def two_ok_def s1_def\<close>)
qed

lemma argument_register_rax: "i < 6 \<Longrightarrow> argument_register i \<noteq> RAX"
proof -
  assume "i < 6"
  then have "i = 0 \<or> i = 1 \<or> i = 2 \<or> i = 3 \<or> i = 4 \<or> i = 5" by auto
  then show ?thesis by (elim disjE) (simp_all add: argument_register_def)
qed

lemma argument_bits: "take_bit (bits w) (read_loc (argument_loc i w) s) = read_loc (argument_loc i w) s"
  by (simp add: argument_loc_def load_bits)

text \<open>Arguments above the frame and in registers survive a store to a slot.\<close>

lemma argument_kept:
  assumes "as_mem s' = store k a v (as_mem s)" "\<And>r. r \<noteq> RAX \<Longrightarrow> as_regs s' r = as_regs s r" "a + int k \<le> 0"
  shows "read_loc (argument_loc i w) s' = read_loc (argument_loc i w) s"
proof (cases "i < 6")
  case True
  then show ?thesis using assms(2) [OF argument_register_rax [OF True]] by (simp add: argument_loc_def)
next
  case False
  have "load w (16 + int (i - 6) * 8) (store k a v (as_mem s)) = load w (16 + int (i - 6) * 8) (as_mem s)"
    by (rule load_store_disjoint) (use assms(3) in auto)
  then show ?thesis using False assms(1) by (simp add: argument_loc_def)
qed

lemma slot_negative: "frame_sound m \<Longrightarrow> e \<in> set m \<Longrightarrow> ek_offset e + int (entry_width e) \<le> 0"
  by (fastforce simp: frame_sound_def frame_ok_def)

lemma slots_disjoint: "frame_sound m \<Longrightarrow> e \<in> set m \<Longrightarrow> e' \<in> set m \<Longrightarrow> e \<noteq> e' \<Longrightarrow> slot_bytes e \<inter> slot_bytes e' = {}"
  using sorted_slots_disjoint by (fastforce simp: frame_sound_def frame_ok_def)

lemma same_outside_store: "e \<in> set m \<Longrightarrow> as_mem s' = store (entry_width e) (ek_offset e) v (as_mem s) \<Longrightarrow> same_outside m s s'"
  unfolding same_outside_def
proof (intro allI impI)
  fix b
  assume e: "e \<in> set m" "as_mem s' = store (entry_width e) (ek_offset e) v (as_mem s)" and b: "b \<notin> (\<Union>e \<in> set m. slot_bytes e)"
  then have "b \<notin> slot_bytes e" by blast
  then show "as_mem s' b = as_mem s b" unfolding e(2) slot_bytes_def by (intro store_outside) auto
qed

lemma parameters_exec:
  assumes "frame_sound m"
  shows "\<forall>p \<in> set ps. parameter_ok m p \<Longrightarrow> distinct (map pm_name ps) \<Longrightarrow>
    \<exists>s'. exec_instructions (parameters_code m i ps) s = Some s' \<and> same_outside m s s' \<and>
      (\<forall>k < length ps. load (parameter_width (ps ! k)) (sf_stack_lookup m (pm_name (ps ! k))) (as_mem s') =
         read_loc (argument_loc (i + k) (parameter_width (ps ! k))) s) \<and>
      (\<forall>e \<in> set m. ek_name e \<notin> pm_name ` set ps \<longrightarrow>
         load (entry_width e) (ek_offset e) (as_mem s') = load (entry_width e) (ek_offset e) (as_mem s))"
proof (induction ps arbitrary: i s)
  case Nil
  then show ?case by (simp add: same_outside_refl)
next
  case (Cons p ps)
  let ?w = "parameter_width p" and ?a = "sf_stack_lookup m (pm_name p)"
  obtain e where e: "e \<in> set m" "ek_name e = pm_name p" "ek_type e = pm_type p" "ek_offset e = ?a"
    using parameter_entry [OF assms, of p] Cons.prems(1) by (metis list.set_intros(1))
  obtain s1 where s1: "exec_instructions (parameter_code m i p) s = Some s1"
    "as_mem s1 = store ?w ?a (read_loc (argument_loc i ?w) s) (as_mem s)" "\<And>r. r \<noteq> RAX \<Longrightarrow> as_regs s1 r = as_regs s r"
    using parameter_exec [of m i p s] by blast
  have below: "?a + int ?w \<le> 0" using slot_negative [OF assms e(1)] e(3,4) by simp
  obtain s' where s': "exec_instructions (parameters_code m (i + 1) ps) s1 = Some s'" "same_outside m s1 s'"
    "\<forall>k < length ps. load (parameter_width (ps ! k)) (sf_stack_lookup m (pm_name (ps ! k))) (as_mem s') =
       read_loc (argument_loc (i + 1 + k) (parameter_width (ps ! k))) s1"
    "\<forall>e \<in> set m. ek_name e \<notin> pm_name ` set ps \<longrightarrow>
       load (entry_width e) (ek_offset e) (as_mem s') = load (entry_width e) (ek_offset e) (as_mem s1)"
    using Cons.IH [of "i + 1" s1] Cons.prems by auto
  have "exec_instructions (parameters_code m i (p # ps)) s = Some s'" using s1(1) s'(1) by simp
  moreover have "same_outside m s s'"
    by (rule same_outside_trans [OF same_outside_store [OF e(1)] s'(2)]) (simp add: e s1(2))
  moreover have "load (parameter_width ((p # ps) ! k)) (sf_stack_lookup m (pm_name ((p # ps) ! k))) (as_mem s') =
      read_loc (argument_loc (i + k) (parameter_width ((p # ps) ! k))) s" if k: "k < length (p # ps)" for k
  proof (cases k)
    case 0
    have "ek_name e \<notin> pm_name ` set ps" using Cons.prems(2) e(2) by auto
    then have "load ?w ?a (as_mem s') = load ?w ?a (as_mem s1)" using bspec [OF s'(4) e(1)] e(2-4) by simp
    then show ?thesis using 0 by (simp add: s1(2) load_store argument_bits)
  next
    case (Suc j)
    then show ?thesis using s'(3) k argument_kept [OF s1(2,3) below, of "i + 1 + j"] by simp
  qed
  moreover have "load (entry_width x) (ek_offset x) (as_mem s') = load (entry_width x) (ek_offset x) (as_mem s)"
    if x: "x \<in> set m" "ek_name x \<notin> pm_name ` set (p # ps)" for x
  proof -
    have "x \<noteq> e" using x(2) e(2) by auto
    from slots_disjoint [OF assms x(1) e(1) this]
    have "load (entry_width x) (ek_offset x) (as_mem s1) = load (entry_width x) (ek_offset x) (as_mem s)"
      unfolding s1(2) by (intro load_store_disjoint) (simp add: slot_bytes_def e(3,4))
    then show ?thesis using s'(4) x by auto
  qed
  ultimately show ?case by blast
qed

section \<open>Functions\<close>

abbreviation frame_of :: "sf_ir_function \<Rightarrow> sf_stack_map" where
  "frame_of f \<equiv> sf_stack_populate [] (fn_parameters f) (fn_operations f)"

text \<open>Defined functions without calls, whose operations have operands of one type and that take every
  parameter once, with a frame that offsets of 64 bits reach.\<close>

definition assemblable :: "sf_ir_function \<Rightarrow> bool" where
  "assemblable f \<longleftrightarrow> \<not> is_extern (fn_qualifiers f) \<and> fn_operations f \<noteq> [] \<and> frame_size (frame_of f) \<le> 2 ^ 63 \<and>
     names_ok (frame_of f) \<and> (\<forall>op \<in> set (fn_operations f). flow_ok (frame_of f) op) \<and>
     (\<forall>p \<in> set (fn_parameters f). parameter_ok (frame_of f) p) \<and> distinct (map pm_name (fn_parameters f))"

definition entry_code :: "sf_ir_function \<Rightarrow> instruction list" where
  "entry_code f = parameters_code (frame_of f) 0 (fn_parameters f)"

definition assembly_lines :: "sf_ir_function \<Rightarrow> asm_line list" where
  "assembly_lines f = map Code (entry_code f) @ function_lines (frame_of f) (fn_operations f)"

text \<open>The text: the label of the function, the frame, and the lines, with empty lines between.\<close>

definition assembly_text :: "sf_ir_function \<Rightarrow> string" where
  "assembly_text f = [CHR 0x0A] @ fn_name f @ '':'' @ [CHR 0x0A] @ line ''push rbp'' @ line ''mov rbp, rsp'' @
     line (''sub rsp, '' @ int_text (frame_size (frame_of f))) @
     (if fn_parameters f = [] then [] else [CHR 0x0A] @ code_text (entry_code f)) @
     [CHR 0x0A] @ lines_text (function_lines (frame_of f) (fn_operations f))"

lemma emit_function_text:
  assumes "assemblable f"
  shows "emit_function f = Some (assembly_text f)"
proof -
  have sound: "frame_sound (frame_of f)" using assms populated_sound by (simp add: assemblable_def)
  have "emit_parameters (frame_of f) 0 (fn_parameters f) = Some (code_text (entry_code f))"
    using assms parameters_text [OF sound] by (simp add: assemblable_def entry_code_def)
  moreover have "emit_operations (frame_of f) [] (fn_operations f) = Some (lines_text (function_lines (frame_of f) (fn_operations f)))"
    using assms operations_lines_text [OF sound] by (simp add: assemblable_def function_lines_def)
  ultimately show ?thesis using assms by (simp add: emit_function_def assemblable_def assembly_text_def Let_def)
qed

lemma emit_functions_parts:
  "emit_functions fs = Some out \<Longrightarrow> f \<in> set fs \<Longrightarrow> emit_function f = Some part \<Longrightarrow> \<exists>before after. out = before @ part @ after"
proof (induction fs arbitrary: out)
  case (Cons g fs)
  then obtain a rest where g: "emit_function g = Some a" "emit_functions fs = Some rest" "out = a @ rest"
    by (auto simp: bind_eq_Some_conv)
  show ?case
  proof (cases "f = g")
    case True
    then show ?thesis using g Cons.prems(3) by (intro exI [of _ "[]"] exI [of _ rest]) simp
  next
    case False
    then obtain before after where "rest = before @ part @ after" using Cons.IH [OF g(2)] Cons.prems by auto
    then show ?thesis using g(3) by (intro exI [of _ "a @ before"] exI [of _ after]) simp
  qed
qed simp

lemma assembly_parts:
  assumes "sf_generate_assembly ir root = Some out" "f \<in> set (ip_functions ir)" "emit_function f = Some part"
  shows "\<exists>before after. out = before @ part @ after"
proof -
  obtain head body where o: "out = head @ body" "emit_functions (ip_functions ir) = Some body"
    using assms(1) by (auto simp: sf_generate_assembly_def bind_eq_Some_conv)
  from emit_functions_parts [OF o(2) assms(2,3)] obtain before after where "body = before @ part @ after" by blast
  then show ?thesis using o(1) by (intro exI [of _ "head @ before"] exI [of _ after]) simp
qed

section \<open>Runs from the entry\<close>

lemma asm_next_prefix:
  "asm_next lines pc s = Some (pc', s') \<Longrightarrow> asm_next (map Code code @ lines) (length code + pc) s = Some (length code + pc', s')"
  by (auto simp: asm_next_def nth_append find_asm_label_append find_asm_label_code split: asm_line.splits option.splits if_splits)

lemma asm_reaches_prefix:
  "asm_reaches lines pc s pc' s' \<Longrightarrow> asm_reaches (map Code code @ lines) (length code + pc) s (length code + pc') s'"
  by (induction rule: asm_reaches.induct) (auto intro: asm_reaches.intros dest: asm_next_prefix)

text \<open>The state at the entry of a function: the arguments are the values of the parameters, and the
  slots of the other variables hold their values, whatever these are.\<close>

definition entered :: "sf_ir_function \<Rightarrow> (string \<Rightarrow> int) \<Rightarrow> asm_state \<Rightarrow> bool" where
  "entered f env s \<longleftrightarrow>
     (\<forall>k < length (fn_parameters f). let p = fn_parameters f ! k; w = parameter_width p in
        canonical (pm_type p) (env (pm_name p)) \<and> read_loc (argument_loc k w) s = take_bit (bits w) (env (pm_name p))) \<and>
     (\<forall>e \<in> set (frame_of f). CHR ''@'' \<in> set (ek_name e) \<and> ek_name e \<notin> pm_name ` set (fn_parameters f) \<longrightarrow>
        canonical (ek_type e) (env (ek_name e)) \<and>
        load (entry_width e) (ek_offset e) (as_mem s) = take_bit (bits (entry_width e)) (env (ek_name e)))"

lemma entry_run:
  assumes "assemblable f" "entered f env s"
  obtains s' where "exec_instructions (entry_code f) s = Some s'" "same_outside (frame_of f) s s'" "variables_hold (frame_of f) env s'"
proof -
  let ?m = "frame_of f" and ?ps = "fn_parameters f"
  have sound: "frame_sound ?m" using assms(1) populated_sound by (simp add: assemblable_def)
  have ok: "\<forall>p \<in> set ?ps. parameter_ok ?m p" "distinct (map pm_name ?ps)" using assms(1) by (simp_all add: assemblable_def)
  obtain s' where s': "exec_instructions (entry_code f) s = Some s'" "same_outside ?m s s'"
    "\<forall>k < length ?ps. load (parameter_width (?ps ! k)) (sf_stack_lookup ?m (pm_name (?ps ! k))) (as_mem s') =
       read_loc (argument_loc k (parameter_width (?ps ! k))) s"
    "\<forall>e \<in> set ?m. ek_name e \<notin> pm_name ` set ?ps \<longrightarrow>
       load (entry_width e) (ek_offset e) (as_mem s') = load (entry_width e) (ek_offset e) (as_mem s)"
    using parameters_exec [OF sound ok, of 0 s] by (auto simp: entry_code_def)
  have "canonical (ek_type e) (env (ek_name e)) \<and>
      load (entry_width e) (ek_offset e) (as_mem s') = take_bit (bits (entry_width e)) (env (ek_name e))"
    if e: "e \<in> set ?m" "CHR ''@'' \<in> set (ek_name e)" for e
  proof (cases "ek_name e \<in> pm_name ` set ?ps")
    case False
    then show ?thesis using assms(2) s'(4) e by (simp add: entered_def)
  next
    case True
    then obtain k where k: "k < length ?ps" "ek_name e = pm_name (?ps ! k)" by (metis imageE in_set_conv_nth)
    then obtain x where x: "x \<in> set ?m" "ek_name x = pm_name (?ps ! k)" "ek_type x = pm_type (?ps ! k)"
      "ek_offset x = sf_stack_lookup ?m (pm_name (?ps ! k))" using parameter_entry [OF sound, of "?ps ! k"] ok(1) by (metis nth_mem)
    have "distinct (map ek_name ?m)" using sound by (auto simp: frame_sound_def frame_ok_def)
    then have "x = e" using x(1,2) e(1) k(2) by (metis distinct_map inj_onD)
    then show ?thesis using assms(2) s'(3) k x by (simp add: entered_def Let_def)
  qed
  then have "variables_hold ?m env s'" by (simp add: variables_hold_def)
  then show thesis using that s'(1,2) by blast
qed

lemma assembly_run:
  fixes w' :: 'w
  assumes "assemblable f" "entered f env s"
    and "\<And>temps. \<exists>fuel. ir_run (machine_meaning call) (fn_operations f) fuel 0
      \<lparr>ma_env = env, ma_temps = temps, ma_params = [], ma_world = w\<rparr> = Some (r, env', w')"
  shows "\<exists>fuel s'. asm_run (assembly_lines f) fuel 0 s = Some s' \<and> returned r s' \<and> variables_hold (frame_of f) env' s' \<and>
    (\<forall>a. a \<notin> {- frame_size (frame_of f) ..< 0} \<longrightarrow> as_mem s' a = as_mem s a)"
proof -
  let ?m = "frame_of f" and ?ops = "fn_operations f"
  have ok: "frame_sound ?m" "names_ok ?m" "\<forall>op \<in> set ?ops. flow_ok ?m op"
    using assms(1) populated_sound by (simp_all add: assemblable_def)
  obtain s1 where s1: "exec_instructions (entry_code f) s = Some s1" "same_outside ?m s s1" "variables_hold ?m env s1"
    by (rule entry_run [OF assms(1,2)])
  obtain temps where temps: "agrees_frame ?m \<lparr>ma_env = env, ma_temps = temps, ma_params = [], ma_world = w\<rparr> s1"
    by (rule agrees_some_temps [OF ok(1,2) s1(3)])
  obtain fuel where "ir_run (machine_meaning call) ?ops fuel 0 \<lparr>ma_env = env, ma_temps = temps, ma_params = [], ma_world = w\<rparr> = Some (r, env', w')"
    using assms(3) by blast
  from flow_run [OF ok temps this] obtain pc' s' and \<sigma>' :: "(int, 'w) machine" where run:
    "asm_reaches (function_lines ?m ?ops) (place ?m ?ops 0) s1 pc' s'" "pc' < length (function_lines ?m ?ops)"
    "function_lines ?m ?ops ! pc' = Asm_return" "returned r s'" "agrees_frame ?m \<sigma>' s'" "ma_env \<sigma>' = env'" "same_outside ?m s1 s'"
    by blast
  let ?n = "length (entry_code f)"
  have "asm_reaches (assembly_lines f) 0 s ?n s1"
    using code_reaches [OF _ s1(1), of "assembly_lines f" "[]" "function_lines ?m ?ops"] by (simp add: assembly_lines_def)
  moreover have "asm_reaches (assembly_lines f) ?n s1 (?n + pc') s'"
    using asm_reaches_prefix [OF run(1), of "entry_code f"] by (simp add: assembly_lines_def place_def)
  ultimately have "asm_reaches (assembly_lines f) 0 s (?n + pc') s'" by (rule asm_reaches_trans)
  then have "\<exists>fuel. asm_run (assembly_lines f) fuel 0 s = Some s'"
    by (rule asm_run_reaches) (use run(2,3) in \<open>simp_all add: assembly_lines_def nth_append\<close>)
  moreover have "variables_hold ?m env' s'"
    using run(5,6) by (auto simp: variables_hold_def agrees_frame_def slot_value_def)
  moreover have "as_mem s' a = as_mem s a" if a: "a \<notin> {- frame_size ?m ..< 0}" for a
  proof -
    have "slot_bytes e \<subseteq> {- frame_size ?m ..< 0}" if "e \<in> set ?m" for e
      using slot_negative [OF ok(1) that] frame_size_covers [OF that] by (auto simp: slot_bytes_def)
    then have "a \<notin> (\<Union>e \<in> set ?m. slot_bytes e)" using a by blast
    then show ?thesis using s1(2) run(7) by (simp add: same_outside_def)
  qed
  ultimately show ?thesis using run(4) by blast
qed

section \<open>An example\<close>

text \<open>\<^verbatim>\<open>f(x: i32) -> i32 { while (x < 2) { x = x + 1; } return x; }\<close>, entered with 1.\<close>

definition entry_parameters :: "sf_parameter list" where
  "entry_parameters = [\<lparr>pm_type = SF_VAL_TYPE_I32, pm_name = ''x'', pm_id = 0, pm_qualifiers = no_qualifiers\<rparr>]"

definition entry_program :: sf_program_node where
  "entry_program = \<lparr>pr_statements = [SF_NODE_FUNC_DECL (typed_node SF_VAL_TYPE_UNRESOLVED) ''f'' None no_qualifiers
     entry_parameters SF_VAL_TYPE_I32 (Some count_body)], pr_imports = []\<rparr>"

definition no_call :: "string \<Rightarrow> (sf_value_type \<times> int) list \<Rightarrow> nat \<Rightarrow> (int \<times> nat) option" where
  "no_call f args w = None"

definition entry_state :: asm_state where
  "entry_state = \<lparr>as_regs = (\<lambda>r. 0)(RDI := 1), as_mem = (\<lambda>a. 0), as_flags = None\<rparr>"

definition entry_function :: sf_ir_function where
  "entry_function = hd (ip_functions (the (sf_ir_generate entry_program)))"

lemma entry_generated: "map_option ip_functions (sf_ir_generate entry_program) = Some [entry_function]"
  by code_simp

lemma entry_assembly: "Option.bind (sf_ir_generate entry_program) (\<lambda>ir. sf_generate_assembly ir True) \<noteq> None"
  by code_simp

lemma entry_frame: "frame_of entry_function =
  [\<lparr>ek_name = ''x@0'', ek_offset = - 4, ek_type = SF_VAL_TYPE_I32\<rparr>, \<lparr>ek_name = ''t0'', ek_offset = - 5, ek_type = SF_VAL_TYPE_BOOL\<rparr>]"
  by code_simp

lemma entry_flow: "\<forall>op \<in> set (fn_operations entry_function). flow_ok (frame_of entry_function) op"
  by code_simp

lemma entry_rest: "\<not> is_extern (fn_qualifiers entry_function) \<and> fn_operations entry_function \<noteq> [] \<and>
  frame_size (frame_of entry_function) \<le> 2 ^ 63 \<and>
  (\<forall>p \<in> set (fn_parameters entry_function). parameter_ok (frame_of entry_function) p) \<and>
  distinct (map pm_name (fn_parameters entry_function))"
  by code_simp
lemma entry_entered: "entered entry_function (one_var 1) entry_state" by code_simp

lemma entry_names: "names_ok (frame_of entry_function)"
proof -
  have "''t0'' = ''t'' @ dec_digits 0" by code_simp
  then have "\<exists>k. ''t0'' = ''t'' @ dec_digits k" by (rule exI)
  then show ?thesis by (simp add: entry_frame names_ok_def)
qed

lemma entry_assemblable: "assemblable entry_function"
  unfolding assemblable_def using entry_rest entry_names entry_flow by blast

lemma machine_values [simp]:
  "immediate_value ''1'' = 1" "immediate_value ''2'' = 2" "wrap_type SF_VAL_TYPE_I32 2 = 2"
  "wrap_type SF_VAL_TYPE_BOOL 0 = 0" "wrap_type SF_VAL_TYPE_BOOL 1 = 1"
  by code_simp+

lemma machine_loop_end: "executes (machine_meaning no_call) count_loop (one_var 2) 0 Continue (one_var 2) 0"
  unfolding count_loop_def by (rule executes.while_end [where v = 0]) (simp_all add: sample_defs)

lemma machine_assign:
  "executes (machine_meaning no_call) (SF_NODE_VAR_ASSIGN (typed_node SF_VAL_TYPE_I32) ''x''
     (SF_NODE_BINARY (typed_node SF_VAL_TYPE_I32) int_var (int_literal ''1'') SF_OP_TYPE_ADD) 0) (one_var 1) 0 Continue (one_var 2) 0"
  using executes.assign [of "machine_meaning no_call"
      "SF_NODE_BINARY (typed_node SF_VAL_TYPE_I32) int_var (int_literal ''1'') SF_OP_TYPE_ADD" "one_var 1" 0 2 "one_var 1" 0
      "typed_node SF_VAL_TYPE_I32" "''x''" 0]
  by (simp add: sample_defs)

lemma machine_loop_run: "executes (machine_meaning no_call) count_loop (one_var 1) 0 Continue (one_var 2) 0"
  unfolding count_loop_def
  by (rule executes.while_next [where v = 1 and ?env1.0 = "one_var 1" and ?w1.0 = 0, OF _ _
        executes.block_next [OF machine_assign executes.block_end] machine_loop_end [unfolded count_loop_def]])
     (simp_all add: sample_defs)

lemma machine_body_run:
  "executes (machine_meaning no_call) count_body (one_var 1) 0 (Return (Some (SF_VAL_TYPE_I32, 2))) (one_var 2) 0"
  using executes.block_next [OF machine_loop_run executes.block_return [OF executes.return_value], of int_var 2 "one_var 2" 0]
  by (simp add: count_body_def int_var_def typed_node_def)

section \<open>The result\<close>

text \<open>C3: The assembly of a function that meets the conditions below computes what the function means.
  When the body, run from left to right on integers that wrap at the width of their types, returns
  \<open>r\<close>, or ends without a return in a void function, then the assembly of the program, when it is generated, contains
  the text of the lines of the function, and these lines, run by the processor from the entry with the arguments of
  \<open>env\<close>, reach a return with \<open>r\<close> in the accumulator, the variables of \<open>env'\<close> in the frame, and no byte outside
  the frame changed. The conditions: the program holds functions and variables without a value; in
  the body no operand is changed by what is evaluated after it, none is void, and what writes its
  destination has the type of the destination (\<open>stmt_ok\<close>); the function makes no calls, the operands of
  an operation have the type of its result, or one type in a comparison, its parameters have
  distinct names, parameters and operands have slots, and its frame has at most 2^63 bytes (\<open>assemblable\<close>).\<close>

theorem assembly_runs_function:
  fixes call :: "string \<Rightarrow> (sf_value_type \<times> int) list \<Rightarrow> 'w \<Rightarrow> (int \<times> 'w) option"
  assumes "\<forall>st \<in> set (pr_statements program). top_level_ok st"
    and "SF_NODE_FUNC_DECL b name link q ps t (Some body) \<in> set (pr_statements program)"
    and "stmt_ok body" "executes (machine_meaning call) body env w out env' w'" "ends_as t out r"
  shows "\<exists>ir f. sf_ir_generate program = Some ir \<and> f \<in> set (ip_functions ir) \<and>
    fn_name f = (case link of Some m \<Rightarrow> m | None \<Rightarrow> name) \<and> fn_parameters f = map lower_parameter ps \<and>
    (assemblable f \<longrightarrow>
      (\<forall>root out. sf_generate_assembly ir root = Some out \<longrightarrow> (\<exists>before after. out = before @ assembly_text f @ after)) \<and>
      (\<forall>s. entered f env s \<longrightarrow>
        (\<exists>fuel s'. asm_run (assembly_lines f) fuel 0 s = Some s' \<and> returned r s' \<and> variables_hold (frame_of f) env' s' \<and>
          (\<forall>a. a \<notin> {- frame_size (frame_of f) ..< 0} \<longrightarrow> as_mem s' a = as_mem s a))))"
proof -
  have "\<forall>t v. me_convert (machine_meaning call) t (t, v) = v" by simp
  then obtain ir f where
    f: "sf_ir_generate program = Some ir" "f \<in> set (ip_functions ir)" "fn_name f = (case link of Some m \<Rightarrow> m | None \<Rightarrow> name)"
      "fn_parameters f = map lower_parameter ps"
      "\<And>temps. \<exists>fuel. ir_run (machine_meaning call) (fn_operations f) fuel 0
        \<lparr>ma_env = env, ma_temps = temps, ma_params = [], ma_world = w\<rparr> = Some (r, env', w')"
    by (rule lowering_runs [OF _ assms]) blast
  moreover have "\<exists>before after. out = before @ assembly_text f @ after"
    if "assemblable f" "sf_generate_assembly ir root = Some out" for root out
    by (rule assembly_parts [OF that(2) f(2) emit_function_text [OF that(1)]])
  moreover note assembly_run [OF _ _ f(5)]
  ultimately show ?thesis by (intro exI [of _ ir] exI [of _ f] conjI impI allI) simp_all
qed

lemma assembly_runs_function_witness:
  "\<exists>ir f. sf_ir_generate entry_program = Some ir \<and> f \<in> set (ip_functions ir) \<and> assemblable f \<and>
     (\<exists>out before after. sf_generate_assembly ir True = Some out \<and> out = before @ assembly_text f @ after) \<and>
     (\<exists>fuel s'. asm_run (assembly_lines f) fuel 0 entry_state = Some s' \<and> read_loc (Reg RAX 4) s' = 2 \<and>
        variables_hold (frame_of f) (one_var 2) s')"
proof -
  have "\<exists>ir f. sf_ir_generate entry_program = Some ir \<and> f \<in> set (ip_functions ir) \<and>
    fn_name f = (case None of Some m \<Rightarrow> m | None \<Rightarrow> ''f'') \<and> fn_parameters f = map lower_parameter entry_parameters \<and>
    (assemblable f \<longrightarrow>
      (\<forall>root out. sf_generate_assembly ir root = Some out \<longrightarrow> (\<exists>before after. out = before @ assembly_text f @ after)) \<and>
      (\<forall>s. entered f (one_var 1) s \<longrightarrow>
        (\<exists>fuel s'. asm_run (assembly_lines f) fuel 0 s = Some s' \<and> returned (Some (SF_VAL_TYPE_I32, 2)) s' \<and>
          variables_hold (frame_of f) (one_var 2) s' \<and> (\<forall>a. a \<notin> {- frame_size (frame_of f) ..< 0} \<longrightarrow> as_mem s' a = as_mem s a))))"
    by (rule assembly_runs_function [OF _ _ _ machine_body_run, where b = "typed_node SF_VAL_TYPE_UNRESOLVED" and q = no_qualifiers and t = SF_VAL_TYPE_I32])
       (simp_all add: entry_program_def top_level_ok_def ends_as_def sample_defs value_ok_def assign_ok_def raw_binary_op_def sf_op_is_relational_def)
  then obtain ir f where f: "sf_ir_generate entry_program = Some ir" "f \<in> set (ip_functions ir)"
    "assemblable f \<Longrightarrow> sf_generate_assembly ir True = Some out \<Longrightarrow> \<exists>before after. out = before @ assembly_text f @ after"
    "assemblable f \<Longrightarrow> entered f (one_var 1) s \<Longrightarrow> \<exists>fuel s'. asm_run (assembly_lines f) fuel 0 s = Some s' \<and>
       returned (Some (SF_VAL_TYPE_I32, 2)) s' \<and> variables_hold (frame_of f) (one_var 2) s'" for out s by blast
  have only: "f = entry_function" using f(1,2) entry_generated by simp
  moreover obtain out where "sf_generate_assembly ir True = Some out" using f(1) entry_assembly by auto
  ultimately obtain before after where out: "sf_generate_assembly ir True = Some out" "out = before @ assembly_text f @ after"
    using f(3) entry_assemblable by blast
  have runs: "\<exists>fuel s'. asm_run (assembly_lines f) fuel 0 entry_state = Some s' \<and> read_loc (Reg RAX 4) s' = 2 \<and>
      variables_hold (frame_of f) (one_var 2) s'"
    using f(4) [of entry_state] only entry_assemblable entry_entered by (auto simp: returned_def)
  show ?thesis
    by (rule exI [of _ ir], rule exI [of _ f]) (use f(1,2) only entry_assemblable out runs in blast)
qed

end
