(* ===== verification/Call_Frame.thy ===== *)
theory Call_Frame
  imports Codegen_Facts
begin

text \<open>
  The stack pointer around a call, read off the emitted text: \<open>rsp_moves\<close> adds up what the lines of a
  text add to \<^verbatim>\<open>rsp\<close>. The emitted operands contain no line break when the immediates contain none.
\<close>

section \<open>What a text does to the stack pointer\<close>

definition is_newline :: "char \<Rightarrow> bool" where
  "is_newline c \<longleftrightarrow> c = CHR 0x0A"

definition line_move :: "string \<Rightarrow> int" where
  "line_move l =
     (let amount = int (dec_value 0 (takeWhile is_dec_digit (drop 10 l)))
      in if take 10 l = CHR 0x09 # ''sub rsp, '' then - amount
         else if take 10 l = CHR 0x09 # ''add rsp, '' then amount
         else if take 6 l = CHR 0x09 # ''push '' then - 8
         else if take 5 l = CHR 0x09 # ''pop '' then 8
         else 0)"

function rsp_moves :: "string \<Rightarrow> int" where
  "rsp_moves [] = 0"
| "rsp_moves (c # cs) =
     line_move (takeWhile (\<lambda>c. \<not> is_newline c) (c # cs)) + rsp_moves (drop 1 (dropWhile (\<lambda>c. \<not> is_newline c) (c # cs)))"
  by pat_completeness auto

termination
  by (relation "measure length") (auto simp: le_imp_less_Suc length_dropWhile_le intro: le_less_trans [OF diff_le_self])

definition one_line :: "string \<Rightarrow> bool" where
  "one_line s \<longleftrightarrow> (\<forall>c \<in> set s. \<not> is_newline c)"

lemma one_line_simps [simp]:
  "one_line []" "one_line (c # s) \<longleftrightarrow> \<not> is_newline c \<and> one_line s" "one_line (s @ t) \<longleftrightarrow> one_line s \<and> one_line t"
  by (auto simp: one_line_def)

lemma rsp_moves_line: "one_line s \<Longrightarrow> rsp_moves (line s @ rest) = line_move (CHR 0x09 # s) + rsp_moves rest"
proof -
  assume "one_line s"
  then have "takeWhile (\<lambda>c. \<not> is_newline c) (s @ CHR 0x0A # rest) = s"
    "dropWhile (\<lambda>c. \<not> is_newline c) (s @ CHR 0x0A # rest) = CHR 0x0A # rest"
    by (simp_all add: one_line_def is_newline_def takeWhile_append dropWhile_append)
  then show ?thesis by (simp add: line_def is_newline_def)
qed

lemma rsp_moves_one: "one_line s \<Longrightarrow> rsp_moves (line s) = line_move (CHR 0x09 # s)"
  using rsp_moves_line [of s "[]"] by simp

text \<open>A text of whole lines adds up with what follows.\<close>

definition whole :: "string \<Rightarrow> bool" where
  "whole s \<longleftrightarrow> (\<forall>rest. rsp_moves (s @ rest) = rsp_moves s + rsp_moves rest)"

lemma wholeD: "whole s \<Longrightarrow> rsp_moves (s @ rest) = rsp_moves s + rsp_moves rest"
  by (simp add: whole_def)

lemma whole_line: "one_line s \<Longrightarrow> whole (line s)"
  by (simp add: whole_def rsp_moves_line rsp_moves_one)

lemma whole_append: "whole s \<Longrightarrow> whole t \<Longrightarrow> whole (s @ t)"
  by (simp add: whole_def)

lemma whole_nil [simp]: "whole []"
  by (simp add: whole_def)

section \<open>Operands on one line\<close>

definition clean_operand :: "sf_ir_operand \<Rightarrow> bool" where
  "clean_operand op \<longleftrightarrow> one_line (immediate_text op)"

lemma one_line_digits [simp]: "one_line (dec_digits n)"
  using dec_digits_digits [of n] by (auto simp: one_line_def is_newline_def is_dec_digit_iff)

lemma one_line_take: "one_line s \<Longrightarrow> one_line (snprintf_text n s)"
  by (auto simp: one_line_def snprintf_text_def dest: in_set_takeD)

lemma one_line_memory: "one_line (memory_operand t offset)"
  by (cases "prefix_from_size (sf_type_value_width_bytes t)") (simp_all add: memory_operand_def signed_text_def is_newline_def)

lemma one_line_operand: "format_operand m op = Some fmt \<Longrightarrow> clean_operand op \<Longrightarrow> one_line fmt"
  by (cases op) (auto simp: format_operand_def clean_operand_def bind_eq_Some_conv intro: one_line_take one_line_memory)

lemma one_line_register [simp]: "one_line (register_to_string r)"
  by (cases r) (simp_all add: is_newline_def)

lemma one_line_param: "param_register i w = Some reg \<Longrightarrow> one_line reg"
proof -
  assume r: "param_register i w = Some reg"
  then have "i \<in> {0, 1, 2, 3, 4, 5}" by (auto simp: param_register_def Let_def split: if_splits)
  then show ?thesis using r by (auto simp: param_register_def Let_def is_newline_def split: if_splits)
qed

section \<open>Arguments\<close>

text \<open>An instruction that is no push, no pop and no addition to \<^verbatim>\<open>rsp\<close>.\<close>

lemma line_move_simps [simp]:
  "line_move (CHR 0x09 # CHR ''m'' # s) = 0" "line_move (CHR 0x09 # CHR ''c'' # s) = 0"
  "line_move (CHR 0x09 # ''push rax'') = - 8" "line_move (CHR 0x09 # ''sub rsp, 8'') = - 8"
  "line_move (CHR 0x09 # ''add rsp, '' @ dec_digits n) = int n"
proof -
  have digits: "takeWhile is_dec_digit (dec_digits n) = dec_digits n"
    using dec_digits_digits [of n] by (simp add: takeWhile_eq_all_conv)
  show "line_move (CHR 0x09 # ''add rsp, '' @ dec_digits n) = int n"
    by (simp add: line_move_def digits)
qed (simp_all add: line_move_def is_dec_digit_iff dec_value.simps)

lemma stack_arg_moves:
  assumes "emit_stack_arg m p = Some out" "clean_operand p"
  shows "whole out \<and> rsp_moves out = - 8"
proof -
  obtain fmt where f: "format_operand m p = Some fmt" "one_line fmt"
    using assms by (auto simp: emit_stack_arg_def bind_eq_Some_conv dest: one_line_operand)
  obtain s where s: "out = line s @ line ''push rax''" "one_line s" "line_move (CHR 0x09 # s) = 0"
    using assms(1) f by (auto simp: emit_stack_arg_def Let_def is_newline_def split: if_splits)
  have push: "one_line ''push rax''" by (simp add: is_newline_def)
  show ?thesis using whole_append [OF whole_line [OF s(2)] whole_line [OF push]]
    by (simp add: s(1,3) rsp_moves_line [OF s(2)] rsp_moves_one [OF push] del: append.simps)
qed

lemma stack_args_moves:
  "emit_stack_args m ps = Some out \<Longrightarrow> \<forall>p \<in> set ps. clean_operand p \<Longrightarrow> whole out \<and> rsp_moves out = - 8 * int (length ps)"
proof (induction ps arbitrary: out)
  case (Cons p ps)
  obtain s t where s: "emit_stack_arg m p = Some s" "emit_stack_args m ps = Some t" "out = s @ t"
    using Cons.prems(1) by (auto simp: bind_eq_Some_conv)
  have "clean_operand p" using Cons.prems(2) by simp
  note 1 = stack_arg_moves [OF s(1) this]
  have 2: "whole t \<and> rsp_moves t = - 8 * int (length ps)" using Cons.IH [OF s(2)] Cons.prems(2) by simp
  show ?case using 1 2 by (simp add: s(3) whole_append wholeD)
qed simp

lemma register_arg_moves:
  assumes "emit_register_arg m i p = Some out" "clean_operand p"
  shows "whole out \<and> rsp_moves out = 0"
proof -
  obtain fmt reg where f: "format_operand m p = Some fmt" "one_line fmt"
    "param_register i (if operand_width p \<le> 2 then 4 else operand_width p) = Some reg" "one_line reg"
    using assms by (auto simp: emit_register_arg_def Let_def bind_eq_Some_conv dest: one_line_operand one_line_param)
  obtain s where s: "out = line s" "one_line s" "line_move (CHR 0x09 # s) = 0"
    using assms(1) f by (auto simp: emit_register_arg_def Let_def is_newline_def split: if_splits)
  show ?thesis using whole_line [OF s(2)] by (simp add: s rsp_moves_one)
qed

lemma register_args_moves:
  "emit_register_args m i ps = Some out \<Longrightarrow> \<forall>p \<in> set ps. clean_operand p \<Longrightarrow> whole out \<and> rsp_moves out = 0"
proof (induction ps arbitrary: i out)
  case (Cons p ps)
  obtain s t where s: "emit_register_arg m i p = Some s" "emit_register_args m (i + 1) ps = Some t" "out = s @ t"
    using Cons.prems(1) by (auto simp: bind_eq_Some_conv)
  have "clean_operand p" using Cons.prems(2) by simp
  note 1 = register_arg_moves [OF s(1) this]
  have 2: "whole t \<and> rsp_moves t = 0" using Cons.IH [OF s(2)] Cons.prems(2) by simp
  show ?case using 1 2 by (simp add: s(3) whole_append wholeD)
qed simp

section \<open>Calls\<close>

definition operation_call :: "sf_ir_operand \<Rightarrow> string \<Rightarrow> sf_ir_operation" where
  "operation_call dst name = \<lparr>io_opcode = SF_IR_OPCODE_CALL, io_operand1 = dst,
     io_operand2 = SF_IR_OPERAND_TYPE_FUNCTION SF_VAL_TYPE_VOID name, io_operand3 = k_no_operand\<rparr>"

text \<open>C6: A call keeps the stack aligned. Before the instruction that calls, the emitted code moves the
  stack pointer by a multiple of 16, however many arguments are passed on the stack, and after it
  the code takes back exactly what it moved; with the frame, whose size is a multiple of 16, the
  callee is entered with the alignment that the calling convention asks for.\<close>

theorem call_keeps_alignment:
  assumes "emit_call m params call = Some out" "\<forall>p \<in> set params. clean_operand p" "clean_operand (io_operand1 call)"
  shows "\<exists>pre post. out = pre @ line (''call '' @ function_text (io_operand2 call)) @ post \<and>
    16 dvd rsp_moves pre \<and> rsp_moves post = - rsp_moves pre"
proof -
  let ?n = "length params - 6"
  let ?pad = "if 0 < ?n mod 2 then line ''sub rsp, 8'' else []"
  let ?add = "if 0 < ?n + ?n mod 2 then line (''add rsp, '' @ dec_digits ((?n + ?n mod 2) * 8)) else []"
  obtain st rt res where t: "emit_stack_args m (rev (drop 6 params)) = Some st" "emit_register_args m 0 (take 6 params) = Some rt"
    "out = ?pad @ st @ rt @ line (''call '' @ function_text (io_operand2 call)) @ ?add @ res"
    "res = [] \<or> (\<exists>fmt. format_operand m (io_operand1 call) = Some fmt \<and>
       res = line (''mov '' @ fmt @ '', '' @ accumulator (operand_width (io_operand1 call))))"
    using assms(1) by (fastforce simp: emit_call_def Let_def bind_eq_Some_conv split: if_splits)
  have "\<forall>p \<in> set (rev (drop 6 params)). clean_operand p" using assms(2) by (auto dest: in_set_dropD)
  then have st: "whole st" "rsp_moves st = - 8 * int ?n" using stack_args_moves [OF t(1)] by simp_all
  have rt: "rsp_moves rt = 0"
    using register_args_moves [OF t(2)] assms(2) by (auto dest: in_set_takeD)
  have pad: "whole ?pad" "rsp_moves ?pad = - 8 * int (?n mod 2)"
    by (auto simp: is_newline_def rsp_moves_one whole_line mod2_eq_if simp del: append.simps)
  have res: "rsp_moves res = 0"
    using t(4) one_line_operand assms(3) by (auto simp: is_newline_def rsp_moves_one)
  have add: "rsp_moves (?add @ res) = int ((?n + ?n mod 2) * 8)"
  proof (cases "?n = 0")
    case False
    have "rsp_moves (line (''add rsp, '' @ dec_digits ((?n + ?n mod 2) * 8)) @ res) = int ((?n + ?n mod 2) * 8) + rsp_moves res"
      using rsp_moves_line [of "''add rsp, '' @ dec_digits ((?n + ?n mod 2) * 8)" res] line_move_simps(5)
      by (simp add: is_newline_def)
    then show ?thesis using False res by simp
  qed (use res in simp)
  let ?pre = "?pad @ st @ rt"
  have sum: "- 8 * a + (- 8 * b + 0) = - ((b + a) * 8)" for a b :: int by simp
  have pre: "rsp_moves ?pre = - int ((?n + ?n mod 2) * 8)"
    unfolding wholeD [OF pad(1)] wholeD [OF st(1)] pad(2) st(2) rt of_nat_mult of_nat_add of_nat_numeral by (rule sum)
  have "16 dvd int ((k + k mod 2) * 8)" for k :: nat by presburger
  then have "16 dvd rsp_moves ?pre" unfolding pre by (simp only: dvd_minus_iff)
  moreover have "rsp_moves (?add @ res) = - rsp_moves ?pre" unfolding add pre by (simp only: minus_minus)
  moreover have "out = ?pre @ line (''call '' @ function_text (io_operand2 call)) @ (?add @ res)"
    unfolding t(3) by (simp only: append_assoc)
  ultimately show ?thesis by blast
qed

text \<open>A call of nine arguments: three of them are pushed, with eight bytes of padding.\<close>

lemma call_keeps_alignment_witness:
  "\<exists>out pre post. emit_call [] (replicate 9 (SF_IR_OPERAND_TYPE_IMMEDIATE SF_VAL_TYPE_I32 ''1''))
      (operation_call k_no_operand ''f'') = Some out \<and> out = pre @ line ''call f'' @ post \<and> 16 dvd rsp_moves pre"
proof -
  let ?ps = "replicate 9 (SF_IR_OPERAND_TYPE_IMMEDIATE SF_VAL_TYPE_I32 ''1'')" and ?call = "operation_call k_no_operand ''f''"
  have "\<forall>p \<in> set ?ps. formats [] p" "serves [] ?call" "io_opcode ?call \<noteq> SF_IR_OPCODE_ASSIGN"
    by (simp_all add: operation_call_def serves_def)
  then obtain out where out: "emit_call [] ?ps ?call = Some out" using emit_call_some by blast
  have "\<forall>p \<in> set ?ps. clean_operand p" "clean_operand (io_operand1 ?call)"
    by (simp_all add: clean_operand_def is_newline_def operation_call_def)
  from call_keeps_alignment [OF out this] obtain pre post where
    "out = pre @ line (''call '' @ function_text (io_operand2 ?call)) @ post" "16 dvd rsp_moves pre" by blast
  then show ?thesis using out by (auto simp: operation_call_def)
qed

end
