(* ===== verification/Sem_Stmt_Facts.thy ===== *)
theory Sem_Stmt_Facts
  imports Sem_Flow
begin

text \<open>
  What the analysis of statements promises. \<open>stmt_result\<close> is the contract of one analysed statement:
  the state stays well-formed, the declarations of the enclosing tables are untouched and the
  innermost one only grows, errors are never taken back, and when no error was added the
  declared variables are numbered consecutively and the statement is flow-safe between the
  variables that were initialised before and after. Each analysis satisfies it when the analyses
  of its parts do.
\<close>

section \<open>States\<close>

definition stmt_inv :: "sf_semantic \<Rightarrow> bool" where
  "stmt_inv s \<longleftrightarrow> sem_ok s \<and> scope_ok (se_scope s) \<and> sc_stack (se_scope s) \<noteq> []"

definition scope_extends :: "sf_scope \<Rightarrow> sf_scope \<Rightarrow> bool" where
  "scope_extends s s' \<longleftrightarrow>
     (\<exists>new. scope_decls s' = butlast (scope_decls s) @ [last (scope_decls s) @ new]) \<and>
     sc_next_id s \<le> sc_next_id s' \<and> initialized_ids s \<subseteq> initialized_ids s'"

definition same_context :: "sf_semantic \<Rightarrow> sf_semantic \<Rightarrow> bool" where
  "same_context s s' \<longleftrightarrow> se_current_func s' = se_current_func s \<and> se_filename s' = se_filename s \<and>
     se_module_prefix s' = se_module_prefix s"

lemma same_context_refl [simp]: "same_context s s"
  by (simp add: same_context_def)

lemma same_context_trans: "same_context a b \<Longrightarrow> same_context b c \<Longrightarrow> same_context a c"
  by (simp add: same_context_def)

lemma same_context_scope [simp]:
  "same_context s (s'\<lparr>se_scope := sc\<rparr>) \<longleftrightarrow> same_context s s'"
  "same_context (s\<lparr>se_scope := sc\<rparr>) s' \<longleftrightarrow> same_context s s'"
  by (simp_all add: same_context_def)

lemma decls_empty [simp]: "scope_decls s = [] \<longleftrightarrow> sc_stack s = []"
  by (simp add: scope_decls_def)

lemma scope_extends_refl: "sc_stack s \<noteq> [] \<Longrightarrow> scope_extends s s"
  by (auto simp: scope_extends_def intro: exI [of _ "[]"])

lemma scope_extends_trans: "scope_extends a b \<Longrightarrow> scope_extends b c \<Longrightarrow> scope_extends a c"
  by (auto simp: scope_extends_def)

lemma scope_extends_nonempty: "scope_extends a b \<Longrightarrow> sc_stack b \<noteq> []"
  by (metis append_is_Nil_conv decls_empty list.distinct(1) scope_extends_def)

lemma scope_extends_same:
  "scope_decls s' = scope_decls s \<Longrightarrow> sc_next_id s \<le> sc_next_id s' \<Longrightarrow> initialized_ids s \<subseteq> initialized_ids s' \<Longrightarrow>
   sc_stack s \<noteq> [] \<Longrightarrow> scope_extends s s'"
  by (auto simp: scope_extends_def intro: exI [of _ "[]"])

lemma sem_ok_decls:
  "sem_ok s \<longleftrightarrow>
     (\<forall>v \<in> set (concat (scope_decls (se_scope s))). vs_type v \<noteq> SF_VAL_TYPE_UNRESOLVED \<and> vs_type v \<noteq> SF_VAL_TYPE_VOID) \<and>
     (\<forall>f \<in> set (ft_functions (se_funcs s)). fs_return_type f \<noteq> SF_VAL_TYPE_UNRESOLVED \<and>
        (\<forall>p \<in> set (fs_parameters f). pm_type p \<noteq> SF_VAL_TYPE_UNRESOLVED))"
  by (auto simp: sem_ok_def scope_decls_def)

lemma sem_ok_scope:
  "sem_ok s \<Longrightarrow> scope_decls sc = scope_decls (se_scope s) \<Longrightarrow> sem_ok (s\<lparr>se_scope := sc\<rparr>)"
  by (simp add: sem_ok_decls)

lemma ok_same_decls:
  "scope_ok s \<Longrightarrow> scope_decls s' = scope_decls s \<Longrightarrow> sc_next_id s' = sc_next_id s \<Longrightarrow>
   sc_failed_pushes s' = sc_failed_pushes s \<Longrightarrow> sc_capacity s' = sc_capacity s \<Longrightarrow> scope_ok s'"
  by (rule same_decls_ok [of s]) (simp_all add: same_decls_def)

lemma stmt_inv_same:
  assumes "stmt_inv s" "same_decls (se_scope s) sc"
  shows "stmt_inv (s\<lparr>se_scope := sc\<rparr>)"
  using assms same_decls_ok [OF assms(2)] sem_ok_scope [of s sc] decls_empty [of sc]
  by (auto simp: stmt_inv_def same_decls_def simp del: decls_empty) (metis decls_empty)

section \<open>The contract\<close>

definition stmt_frame :: "sf_semantic \<Rightarrow> sf_log_state \<Rightarrow> sf_semantic \<Rightarrow> sf_log_state \<Rightarrow> bool" where
  "stmt_frame s g s' g' \<longleftrightarrow> stmt_inv s' \<and> scope_extends (se_scope s) (se_scope s') \<and> same_context s s' \<and>
     g_error_count g \<le> g_error_count g'"

definition numbered :: "sf_stmt \<Rightarrow> sf_semantic \<Rightarrow> sf_semantic \<Rightarrow> bool" where
  "numbered st s s' \<longleftrightarrow> decl_ids st = [sc_next_id (se_scope s)..<sc_next_id (se_scope s')]"

abbreviation init_ids :: "sf_semantic \<Rightarrow> nat set" where
  "init_ids s \<equiv> initialized_ids (se_scope s)"

definition stmt_result :: "sf_stmt \<Rightarrow> sf_semantic \<Rightarrow> sf_log_state \<Rightarrow> sf_stmt \<times> sf_semantic \<times> sf_log_state \<Rightarrow> bool" where
  "stmt_result st s g r \<longleftrightarrow>
     (case r of (st', s', g') \<Rightarrow>
        stmt_frame s g s' g' \<and>
        (\<not> is_var_decl st \<longrightarrow> scope_decls (se_scope s') = scope_decls (se_scope s)) \<and>
        (g_error_count g' = g_error_count g \<longrightarrow>
           numbered st' s s' \<and> (flat st \<longrightarrow> flow_safe st' (init_ids s) (init_ids s'))))"

definition sound_stmt :: "sf_stmt \<Rightarrow> statement_analysis \<Rightarrow> bool" where
  "sound_stmt st a \<longleftrightarrow> (\<forall>s g. stmt_inv s \<longrightarrow> stmt_result st s g (a s g))"

lemma sound_stmtD:
  assumes "sound_stmt st a" "stmt_inv s" "a s g = (st', s', g')"
  shows "stmt_frame s g s' g'" "\<not> is_var_decl st \<Longrightarrow> scope_decls (se_scope s') = scope_decls (se_scope s)"
    "g_error_count g' = g_error_count g \<Longrightarrow> numbered st' s s'"
    "g_error_count g' = g_error_count g \<Longrightarrow> flat st \<Longrightarrow> flow_safe st' (init_ids s) (init_ids s')"
proof -
  have "stmt_result st s g (st', s', g')" using assms by (metis sound_stmt_def)
  then show "stmt_frame s g s' g'" "\<not> is_var_decl st \<Longrightarrow> scope_decls (se_scope s') = scope_decls (se_scope s)"
    "g_error_count g' = g_error_count g \<Longrightarrow> numbered st' s s'"
    "g_error_count g' = g_error_count g \<Longrightarrow> flat st \<Longrightarrow> flow_safe st' (init_ids s) (init_ids s')"
    by (simp_all add: stmt_result_def)
qed

lemma stmt_frame_refl: "stmt_inv s \<Longrightarrow> g_error_count g \<le> g_error_count g' \<Longrightarrow> stmt_frame s g s g'"
  by (simp add: stmt_frame_def scope_extends_refl stmt_inv_def)

lemma stmt_frame_trans: "stmt_frame a g b g' \<Longrightarrow> stmt_frame b g' c g'' \<Longrightarrow> stmt_frame a g c g''"
  by (auto simp: stmt_frame_def intro: scope_extends_trans same_context_trans)

text \<open>A statement that leaves the state as it was, with or without errors.\<close>

lemma stmt_result_rejected:
  "stmt_inv s \<Longrightarrow> g_error_count g < g_error_count g' \<Longrightarrow> stmt_result st s g (st', s, g')"
  by (simp add: stmt_result_def stmt_frame_refl less_imp_le)

lemma stmt_result_same:
  "stmt_inv s \<Longrightarrow> g_error_count g \<le> g_error_count g' \<Longrightarrow> decl_ids st' = [] \<Longrightarrow>
   (g_error_count g' = g_error_count g \<Longrightarrow> flat st \<Longrightarrow> flow_safe st' (init_ids s) (init_ids s)) \<Longrightarrow>
   stmt_result st s g (st', s, g')"
  by (simp add: stmt_result_def stmt_frame_refl numbered_def)

section \<open>Expressions and checks\<close>

lemma expr_typed_ids: "expr_typed s e t \<Longrightarrow> expr_ids e \<subseteq> init_ids s"
proof (induction rule: expr_typed.induct)
  case (ident n symbol b)
  then show ?case using scope_lookup_mem [OF ident(1)] by (auto simp: initialized_ids_def)
next
  case (call c func args b)
  then show ?case by (fastforce simp: list_all2_conv_all_nth in_set_conv_nth)
qed auto

lemma accepted_ids:
  assumes "sem_ok s" "raw_ok e" "sf_semantic_expr s e t g = (True, e', g')"
  shows "expr_ids e' \<subseteq> init_ids s" "g_error_count g' = g_error_count g"
  using sem_expr.accepted [OF assms] expr_typed_ids by auto

lemma assignment_type_count:
  "check_assignment_type r t sp f g = (ok, g') \<Longrightarrow>
   g_error_count g' = (if ok then g_error_count g else Suc (g_error_count g))"
  by (auto simp: check_assignment_type_def sf_log_error split: if_splits)

lemma return_type_count:
  "check_return_type r t fn sp f g = (ok, g') \<Longrightarrow>
   g_error_count g' = (if ok then g_error_count g else Suc (g_error_count g))"
  by (auto simp: check_return_type_def sf_log_error split: if_splits)

lemma var_sym_qual_count:
  "analyze_var_sym_qual s v g = (ok, g') \<Longrightarrow> (if ok then g' = g else g_error_count g < g_error_count g')"
  by (auto simp: analyze_var_sym_qual_def sem_error_count split: if_splits)

lemma func_sym_qual_count:
  "analyze_func_sym_qual s f g = (ok, g') \<Longrightarrow> (if ok then g' = g else g_error_count g < g_error_count g')"
  by (auto simp: analyze_func_sym_qual_def sem_error_count split: if_splits)

section \<open>Declarations\<close>

lemma scope_insert_inserted:
  assumes "sc_stack scope = tables @ [table]" "scope' = scope\<lparr>sc_next_id := sc_next_id scope + 1,
      sc_stack := tables @ [table @ [v]]\<rparr>"
  shows "scope_decls scope' = butlast (scope_decls scope) @ [last (scope_decls scope) @ [sym_decl v]]"
    "sc_next_id scope' = Suc (sc_next_id scope)"
    "initialized_ids scope' = (if vs_initialized v then insert (vs_id v) (initialized_ids scope) else initialized_ids scope)"
  using assms by (auto simp: scope_decls_def initialized_ids_of)

lemma scope_ids_less: "scope_ok s \<Longrightarrow> i \<in> set (scope_ids s) \<Longrightarrow> i < sc_next_id s"
  unfolding scope_ids_def scope_ok_def by (auto simp del: set_concat)

lemma next_id_fresh: "scope_ok s \<Longrightarrow> sc_next_id s \<notin> initialized_ids s"
proof
  assume "scope_ok s" "sc_next_id s \<in> initialized_ids s"
  then obtain v where "v \<in> set (concat (sc_stack s))" "vs_id v = sc_next_id s" "vs_id v < sc_next_id s"
    unfolding initialized_ids_def scope_ok_def by (auto simp del: set_concat)
  then show False by simp
qed

lemma insert_accepted:
  assumes "stmt_inv s" "vs_type v \<noteq> SF_VAL_TYPE_UNRESOLVED" "vs_type v \<noteq> SF_VAL_TYPE_VOID"
    "scope_insert (se_scope s) v f g = (scope', g')"
  obtains (redeclared) "scope' = se_scope s" "g_error_count g < g_error_count g'"
  | (fresh) "stmt_frame s g (s\<lparr>se_scope := scope'\<rparr>) g'" "g' = g" "sc_next_id scope' = Suc (sc_next_id (se_scope s))"
      "sc_next_id (se_scope s) \<notin> init_ids s"
      "initialized_ids scope' = (if vs_initialized v then insert (sc_next_id (se_scope s)) (init_ids s) else init_ids s)"
      "\<exists>x. scope_lookup scope' (vs_name v) = Some x \<and> vs_id x = sc_next_id (se_scope s)"
  using assms(4)
proof (cases rule: scope_insert_cases)
  case (inserted tables table)
  note facts = scope_insert_inserted [OF inserted(1,3)]
  have lookup: "scope_lookup scope' (vs_name v) = Some (v\<lparr>vs_id := sc_next_id (se_scope s), vs_depth := length tables\<rparr>)"
    using scope_insert_lookup [OF inserted(1,2) assms(4)] by simp
  have "sc_next_id (se_scope s) \<notin> init_ids s"
    using assms(1) next_id_fresh by (simp add: stmt_inv_def)
  moreover have "stmt_inv (s\<lparr>se_scope := scope'\<rparr>)"
  proof -
    have "sem_ok (s\<lparr>se_scope := scope'\<rparr>)"
      using assms(1-3) inserted(1,3) by (auto simp: stmt_inv_def sem_ok_def)
    moreover have "scope_ok scope'" using scope_insert_ok [OF _ assms(4)] assms(1) by (simp add: stmt_inv_def)
    ultimately show ?thesis using inserted(3) by (simp add: stmt_inv_def)
  qed
  moreover have "scope_extends (se_scope s) scope'" using facts by (auto simp: scope_extends_def)
  ultimately show ?thesis
    using facts inserted(4) lookup by (intro fresh) (auto simp: stmt_frame_def)
qed (use assms(1) redeclared in \<open>auto simp: stmt_inv_def\<close>)

lemma sound_var_decl:
  assumes "raw_stmt_ok (SF_NODE_VAR_DECL b q t n vid v)"
  shows "sound_stmt (SF_NODE_VAR_DECL b q t n vid v) (analyze_var_decl b q t n vid v)"
  unfolding sound_stmt_def
proof (intro allI impI)
  fix s g
  assume inv: "stmt_inv s"
  then have ok: "sem_ok s" by (simp add: stmt_inv_def)
  let ?st = "SF_NODE_VAR_DECL b q t n vid v"
  let ?var = "\<lparr>vs_name = n, vs_type = t, vs_initialized = v \<noteq> None, vs_depth = 0, vs_id = 0,
                 vs_span = ab_span b, vs_qualifiers = q\<rparr>"
  note rejected = stmt_result_rejected [OF inv]
  show "stmt_result ?st s g (analyze_var_decl b q t n vid v s g)"
  proof (cases "t = SF_VAL_TYPE_VOID \<or> shadows_parameter s n")
    case True
    then show ?thesis by (auto simp: analyze_var_decl_def Let_def sem_error_count intro!: rejected)
  next
    case typed: False
    obtain qok g1 where qual: "analyze_var_sym_qual s ?var g = (qok, g1)" by fastforce
    show ?thesis
    proof (cases qok)
      case False
      then show ?thesis using typed var_sym_qual_count [OF qual] qual
        by (auto simp: analyze_var_decl_def Let_def intro!: rejected)
    next
      case True
      then have [simp]: "g1 = g" using var_sym_qual_count [OF qual] by simp
      obtain vok v1 g2 where val: "(case v of
                            None \<Rightarrow> (True, None, g)
                          | Some e \<Rightarrow>
                              (case sf_semantic_expr s e t g of
                                 (False, e1, g2) \<Rightarrow> (False, Some e1, g2)
                               | (True, e1, g2) \<Rightarrow>
                                   (case check_assignment_type (expr_resolved e1) t (ab_span b) (se_filename s) g2 of
                                      (ok, g3) \<Rightarrow> (ok, Some e1, g3)))) = (vok, v1, g2)"
        by (rule prod_cases3)
      have v1: "if vok then g_error_count g2 = g_error_count g \<and> (v1 = None \<longleftrightarrow> v = None) \<and>
            (\<forall>e1. v1 = Some e1 \<longrightarrow> expr_ids e1 \<subseteq> init_ids s)
          else g_error_count g < g_error_count g2"
      proof (cases v)
        case (Some e)
        then have raw: "raw_ok e" using assms by simp
        obtain eok e1 g3 where e: "sf_semantic_expr s e t g = (eok, e1, g3)" by (metis prod_cases3)
        show ?thesis
        proof (cases eok)
          case True
          obtain cok g4 where c: "check_assignment_type (expr_resolved e1) t (ab_span b) (se_filename s) g3 = (cok, g4)"
            by fastforce
          show ?thesis
            using Some val e True c assignment_type_count [OF c] accepted_ids [OF ok raw, of t g e1 g3] by auto
        next
          case False
          then show ?thesis using Some val e sem_expr.rejected [OF ok raw, of t g e1 g3] by auto
        qed
      qed (use val in auto)
      show ?thesis
      proof (cases vok)
        case False
        then show ?thesis using typed qual True v1 val
          by (auto simp: analyze_var_decl_def Let_def intro!: rejected)
      next
        case accepted: True
        obtain scope1 g4 where ins: "scope_insert (se_scope s) ?var (se_filename s) g2 = (scope1, g4)" by fastforce
        have result: "analyze_var_decl b q t n vid v s g =
            (SF_NODE_VAR_DECL b q t n (case scope_lookup scope1 n of None \<Rightarrow> vid | Some x \<Rightarrow> vs_id x) v1,
             s\<lparr>se_scope := scope1\<rparr>, g4)"
          using typed qual True val accepted ins by (simp add: analyze_var_decl_def Let_def)
        have t: "vs_type ?var \<noteq> SF_VAL_TYPE_UNRESOLVED" "vs_type ?var \<noteq> SF_VAL_TYPE_VOID"
          using assms typed by simp_all
        from inv t ins show ?thesis
        proof (cases rule: insert_accepted)
          case redeclared
          then show ?thesis using v1 accepted by (auto simp: result intro!: rejected)
        next
          case fresh
          then obtain x where x: "scope_lookup scope1 n = Some x" "vs_id x = sc_next_id (se_scope s)" by auto
          have "stmt_frame s g (s\<lparr>se_scope := scope1\<rparr>) g4" using fresh(1,2) v1 accepted by (simp add: stmt_frame_def)
          moreover have "flow_safe (SF_NODE_VAR_DECL b q t n (sc_next_id (se_scope s)) v1) (init_ids s) (initialized_ids scope1)"
            using fresh(4,5) v1 accepted
            by (cases v1) (auto intro!: flow_safe_declare flow_safe_declare_value)
          ultimately show ?thesis using fresh(3) x by (simp add: result stmt_result_def numbered_def)
        qed
      qed
    qed
  qed
qed

section \<open>Assignments, returns and expressions\<close>

lemma stmt_frame_same_decls:
  assumes "stmt_inv s" "same_decls (se_scope s) sc" "init_ids s \<subseteq> initialized_ids sc"
    "g_error_count g \<le> g_error_count g'"
  shows "stmt_frame s g (s\<lparr>se_scope := sc\<rparr>) g'"
  using assms stmt_inv_same [OF assms(1,2)]
  by (auto simp: stmt_frame_def same_decls_def stmt_inv_def intro: scope_extends_same)

lemma sound_var_assign:
  assumes "raw_ok e"
  shows "sound_stmt (SF_NODE_VAR_ASSIGN b n e vid) (analyze_var_assign b n e vid)"
  unfolding sound_stmt_def
proof (intro allI impI)
  fix s g
  assume inv: "stmt_inv s"
  then have ok: "sem_ok s" by (simp add: stmt_inv_def)
  note rejected = stmt_result_rejected [OF inv]
  show "stmt_result (SF_NODE_VAR_ASSIGN b n e vid) s g (analyze_var_assign b n e vid s g)"
  proof (cases "scope_lookup (se_scope s) n")
    case None
    then show ?thesis by (auto simp: analyze_var_assign_def undeclared_count intro!: rejected)
  next
    case var: (Some var)
    obtain eok e1 g1 where e: "sf_semantic_expr s e (vs_type var) g = (eok, e1, g1)" by (rule prod_cases3)
    obtain cok g2 where c: "check_assignment_type (expr_resolved e1) (vs_type var) (ab_span b) (se_filename s) g1 = (cok, g2)"
      by fastforce
    show ?thesis
    proof (cases "eok \<and> cok")
      case False
      then show ?thesis
        using var e c sem_expr.rejected [OF ok assms, of "vs_type var" g e1 g1]
          accepted_ids [OF ok assms, of "vs_type var" g e1 g1] assignment_type_count [OF c]
        by (auto simp: analyze_var_assign_def intro!: rejected split: bool.splits)
    next
      case True
      then have ids: "expr_ids e1 \<subseteq> init_ids s" "g_error_count g2 = g_error_count g"
        using accepted_ids [OF ok assms, of "vs_type var" g e1 g1] e assignment_type_count [OF c] by simp_all
      let ?sc = "scope_set_initialized (se_scope s) n"
      let ?g = "if \<not> is_mutable (vs_qualifiers var)
                then sem_error s SF_LOG_SEMANTIC_INVALID_ASSIGN (ab_span b) [n] g2 else g2"
      have init: "initialized_ids ?sc = insert (vs_id var) (init_ids s)" using var by (rule set_initialized_ids)
      have same: "same_decls (se_scope s) ?sc" by (rule set_initialized_decls)
      have "stmt_frame s g (s\<lparr>se_scope := ?sc\<rparr>) ?g"
        by (rule stmt_frame_same_decls) (use inv same init ids in \<open>auto simp: sem_error_count\<close>)
      moreover have "flow_safe (SF_NODE_VAR_ASSIGN (b\<lparr>ab_resolved := vs_type var\<rparr>) n e1 (vs_id var)) (init_ids s) (initialized_ids ?sc)"
        using ids init by (intro flow_safe_assign) auto
      ultimately show ?thesis
        using var e c True same by (simp add: analyze_var_assign_def stmt_result_def numbered_def same_decls_def)
    qed
  qed
qed

lemma sound_return:
  assumes "case v of None \<Rightarrow> True | Some e \<Rightarrow> raw_ok e"
  shows "sound_stmt (SF_NODE_RETURN b v) (analyze_return b v)"
  unfolding sound_stmt_def
proof (intro allI impI)
  fix s g
  assume inv: "stmt_inv s"
  then have ok: "sem_ok s" by (simp add: stmt_inv_def)
  note rejected = stmt_result_rejected [OF inv]
  show "stmt_result (SF_NODE_RETURN b v) s g (analyze_return b v s g)"
  proof (cases "se_current_func s")
    case None
    then show ?thesis by (auto simp: analyze_return_def sem_error_count intro!: rejected)
  next
    case func: (Some f)
    show ?thesis
    proof (cases v)
      case None
      then show ?thesis using func
        by (auto simp: analyze_return_def sem_error_count intro!: stmt_result_same [OF inv] flow_safe_return)
    next
      case (Some e)
      then have raw: "raw_ok e" using assms by simp
      let ?t = "if cf_return_type f = SF_VAL_TYPE_VOID then SF_VAL_TYPE_UNRESOLVED else cf_return_type f"
      obtain eok e1 g1 where e: "sf_semantic_expr s e ?t g = (eok, e1, g1)" by (rule prod_cases3)
      obtain cok g2 where c: "check_return_type (expr_resolved e1) (cf_return_type f) (cf_name f) (ab_span b) (se_filename s) g1 = (cok, g2)"
        by fastforce
      show ?thesis
      proof (cases eok)
        case False
        then show ?thesis using func Some e sem_expr.rejected [OF ok raw, of ?t g e1 g1]
          by (auto simp: analyze_return_def split: if_splits intro!: rejected)
      next
        case True
        then have ids: "expr_ids e1 \<subseteq> init_ids s" "g_error_count g1 = g_error_count g"
          using accepted_ids [OF ok raw, of ?t g e1 g1] e by simp_all
        have safe: "flow_safe (SF_NODE_RETURN b (Some e1)) (init_ids s) (init_ids s)"
          using ids by (intro flow_safe_return) simp
        show ?thesis using func Some e True ids c return_type_count [OF c] safe
          by (cases "cf_return_type f = SF_VAL_TYPE_VOID")
             (auto simp: analyze_return_def sem_error_count intro!: stmt_result_same [OF inv])
      qed
    qed
  qed
qed

lemma sound_expr_stmt:
  assumes "raw_ok e"
  shows "sound_stmt (SF_STMT_EXPR e) (analyze_expr_stmt e)"
  unfolding sound_stmt_def
proof (intro allI impI)
  fix s g
  assume inv: "stmt_inv s"
  then have ok: "sem_ok s" by (simp add: stmt_inv_def)
  obtain eok e1 g1 where e: "sf_semantic_expr s e SF_VAL_TYPE_UNRESOLVED g = (eok, e1, g1)" by (rule prod_cases3)
  obtain g2 where r: "analyze_expr_stmt e s g = (SF_STMT_EXPR e1, s, g2)" "g_error_count g2 = g_error_count g1"
    using e by (cases e) (auto simp: analyze_expr_stmt_def sf_log_warning)
  show "stmt_result (SF_STMT_EXPR e) s g (analyze_expr_stmt e s g)"
  proof (cases eok)
    case False
    then show ?thesis using r e sem_expr.rejected [OF ok assms, of SF_VAL_TYPE_UNRESOLVED g e1 g1]
      by (auto intro!: stmt_result_rejected [OF inv])
  next
    case True
    then show ?thesis using r e accepted_ids [OF ok assms, of SF_VAL_TYPE_UNRESOLVED g e1 g1]
      by (auto intro!: stmt_result_same [OF inv] flow_safe_expr)
  qed
qed

section \<open>Blocks\<close>

lemma numbered_join:
  "xs = [a..<b] \<Longrightarrow> ys = [b..<c] \<Longrightarrow> a \<le> b \<Longrightarrow> b \<le> c \<Longrightarrow> xs @ ys = [a..<(c::nat)]"
  by (metis le_iff_add upt_add_eq_append)

lemma stmt_frame_next: "stmt_frame s g s' g' \<Longrightarrow> sc_next_id (se_scope s) \<le> sc_next_id (se_scope s')"
  by (simp add: stmt_frame_def scope_extends_def)

lemma statements_result:
  assumes "list_all2 sound_stmt sts as" "stmt_inv s" "analyze_statements as s g = (sts', s', g')"
  shows "stmt_frame s g s' g' \<and>
    (g_error_count g' = g_error_count g \<longrightarrow>
       concat (map decl_ids sts') = [sc_next_id (se_scope s)..<sc_next_id (se_scope s')] \<and>
       ((\<forall>st \<in> set sts. flat st) \<longrightarrow> flow_safe (SF_NODE_BLOCK b sts') (init_ids s) (init_ids s')))"
  using assms
proof (induction arbitrary: s g sts' s' g' rule: list_all2_induct)
  case Nil
  then show ?case by (simp add: stmt_frame_refl flow_safe_nil)
next
  case (Cons st sts a as)
  obtain st1 s1 g1 where a: "a s g = (st1, s1, g1)" by (rule prod_cases3)
  obtain rest s2 g2 where r: "analyze_statements as s1 g1 = (rest, s2, g2)" by (rule prod_cases3)
  have eq: "sts' = st1 # rest" "s' = s2" "g' = g2" using Cons.prems a r by simp_all
  have first: "stmt_frame s g s1 g1" "g_error_count g1 = g_error_count g \<longrightarrow> numbered st1 s s1 \<and>
      (flat st \<longrightarrow> flow_safe st1 (init_ids s) (init_ids s1))"
    using sound_stmtD [OF Cons.hyps(1) Cons.prems(1) a] by simp_all
  have inv1: "stmt_inv s1" using first(1) by (simp add: stmt_frame_def)
  note tail = Cons.IH [OF inv1 r]
  have frame: "stmt_frame s g s2 g2" using stmt_frame_trans [OF first(1)] tail by blast
  have errors: "g_error_count g2 = g_error_count g \<Longrightarrow> g_error_count g1 = g_error_count g \<and> g_error_count g2 = g_error_count g1"
    using first(1) tail by (simp add: stmt_frame_def)
  show ?case
    unfolding eq
  proof (intro conjI impI)
    show "stmt_frame s g s2 g2" by (rule frame)
    assume "g_error_count g2 = g_error_count g"
    note e = errors [OF this]
    show "concat (map decl_ids (st1 # rest)) = [sc_next_id (se_scope s)..<sc_next_id (se_scope s2)]"
      using numbered_join [OF _ _ stmt_frame_next stmt_frame_next, OF _ _ first(1) conjunct1 [OF tail]] first(2) tail e
      by (simp add: numbered_def)
    assume "\<forall>st \<in> set (st # sts). flat st"
    then show "flow_safe (SF_NODE_BLOCK b (st1 # rest)) (init_ids s) (init_ids s2)"
      using first(2) tail e by (intro flow_safe_cons [of st1 _ "init_ids s1"]) simp_all
  qed
qed

lemma push_result:
  assumes "stmt_inv s" "push_scope s g = (s1, g1)"
  shows "g1 = g" "stmt_inv s1" "scope_decls (se_scope s1) = scope_decls (se_scope s) @ [[]]"
    "sc_next_id (se_scope s1) = sc_next_id (se_scope s)" "init_ids s1 = init_ids s" "same_context s s1"
proof -
  obtain sc where p: "scope_push (\<lambda>_. True) (se_scope s) g = (sc, g1)" "s1 = s\<lparr>se_scope := sc\<rparr>"
    using assms(2) by (auto simp: push_scope_def split: prod.splits)
  have "scope_ok (se_scope s)" using assms(1) by (simp add: stmt_inv_def)
  note push = scope_push_ok [OF this TrueI p(1)]
  show "g1 = g" "sc_next_id (se_scope s1) = sc_next_id (se_scope s)" "init_ids s1 = init_ids s" "same_context s s1"
    "scope_decls (se_scope s1) = scope_decls (se_scope s) @ [[]]"
    using push p(2) by (simp_all add: initialized_ids_of scope_decls_def)
  show "stmt_inv s1"
    using push p(2) assms(1) by (simp add: stmt_inv_def sem_ok_def)
qed

lemma initialized_ids_pop:
  assumes "scope_ok s" "sc_stack s \<noteq> []"
  shows "initialized_ids (scope_pop s) = initialized_ids s \<inter> set (scope_ids (scope_pop s))"
proof -
  obtain tables table where s: "sc_stack s = tables @ [table]" using assms(2) by (metis rev_exhaust)
  have pop: "sc_stack (scope_pop s) = tables" using assms(1) s by (simp add: scope_ok_def scope_pop_def)
  have "vs_id ` set (concat tables) \<inter> vs_id ` set table = {}"
    using assms(1) s by (auto simp: scope_ok_def simp del: set_concat)
  then show ?thesis
    using pop s by (fastforce simp: initialized_ids_def scope_ids_def simp del: set_concat)
qed

text \<open>A push, an extension of the inner scope, and a pop.\<close>

lemma scope_bracket:
  assumes "stmt_inv s" "push_scope s g = (s1, g1)" "stmt_frame s1 g1 s2 g2"
  shows "stmt_frame s g (pop_scope s2) g2" "scope_decls (se_scope (pop_scope s2)) = scope_decls (se_scope s)"
    "sc_next_id (se_scope (pop_scope s2)) = sc_next_id (se_scope s2)" "init_ids (pop_scope s2) \<subseteq> init_ids s2"
proof -
  note push = push_result [OF assms(1,2)]
  have frame: "stmt_inv s2" "scope_extends (se_scope s1) (se_scope s2)" "same_context s1 s2"
    "g_error_count g1 \<le> g_error_count g2"
    using assms(3) by (simp_all add: stmt_frame_def)
  then obtain new where new: "scope_decls (se_scope s2) = scope_decls (se_scope s) @ [new]"
    using push(3) by (auto simp: scope_extends_def)
  have ok2: "scope_ok (se_scope s2)" "sc_stack (se_scope s2) \<noteq> []" "sem_ok s2" using frame(1) by (auto simp: stmt_inv_def)
  have sc: "sc_stack (se_scope (pop_scope s2)) = butlast (sc_stack (se_scope s2))"
    "sc_next_id (se_scope (pop_scope s2)) = sc_next_id (se_scope s2)" "se_funcs (pop_scope s2) = se_funcs s2"
    using ok2(1) by (auto simp: pop_scope_def scope_pop_def scope_ok_def)
  then show decls: "scope_decls (se_scope (pop_scope s2)) = scope_decls (se_scope s)"
    using new by (simp add: scope_decls_def map_butlast)
  show next_id: "sc_next_id (se_scope (pop_scope s2)) = sc_next_id (se_scope s2)" by (rule sc)
  have init: "init_ids (pop_scope s2) = init_ids s2 \<inter> set (scope_ids (se_scope (pop_scope s2)))"
    using initialized_ids_pop [OF ok2(1,2)] by (simp add: pop_scope_def)
  then show "init_ids (pop_scope s2) \<subseteq> init_ids s2" by simp
  have "init_ids s \<subseteq> init_ids s2" using frame(2) push(5) by (auto simp: scope_extends_def)
  moreover have "scope_ids (se_scope (pop_scope s2)) = scope_ids (se_scope s)" using decls by (simp add: scope_ids_decls)
  ultimately have "init_ids s \<subseteq> init_ids (pop_scope s2)" using init initialized_in_ids [of "se_scope s"] by auto
  moreover have "sc_next_id (se_scope s) \<le> sc_next_id (se_scope s2)"
    using frame(2) push(4) by (simp add: scope_extends_def)
  moreover have stack: "sc_stack (se_scope s) \<noteq> []" using assms(1) by (simp add: stmt_inv_def)
  ultimately have extends: "scope_extends (se_scope s) (se_scope (pop_scope s2))"
    using decls next_id by (intro scope_extends_same) simp_all
  have "sem_ok (pop_scope s2)"
    using ok2(3) decls new sc(3) by (simp add: sem_ok_decls)
  moreover have "scope_ok (se_scope (pop_scope s2))"
    using scope_pop_ok [OF ok2(1)] by (simp add: pop_scope_def)
  ultimately have "stmt_inv (pop_scope s2)"
    using scope_extends_nonempty [OF extends] by (simp add: stmt_inv_def)
  moreover have "same_context s (pop_scope s2)"
    using push(6) frame(3) by (simp add: pop_scope_def same_context_def)
  ultimately show "stmt_frame s g (pop_scope s2) g2"
    using extends frame(4) push(1) by (simp add: stmt_frame_def)
qed

lemma sound_block:
  assumes "list_all2 sound_stmt sts as"
  shows "sound_stmt (SF_NODE_BLOCK b sts) (analyze_block b as)"
  unfolding sound_stmt_def
proof (intro allI impI)
  fix s g
  assume inv: "stmt_inv s"
  obtain s1 g1 where push: "push_scope s g = (s1, g1)" by fastforce
  obtain sts' s2 g2 where body: "analyze_statements as s1 g1 = (sts', s2, g2)" by (rule prod_cases3)
  note p = push_result [OF inv push]
  note r = statements_result [OF assms p(2) body, of b]
  note bracket = scope_bracket [OF inv push conjunct1 [OF r]]
  have "flow_safe (SF_NODE_BLOCK b sts') (init_ids s1) (init_ids s2) \<Longrightarrow>
      flow_safe (SF_NODE_BLOCK b sts') (init_ids s) (init_ids (pop_scope s2))"
    using bracket(4) p(5) by (auto intro: flow_safe_mono)
  moreover have "analyze_block b as s g = (SF_NODE_BLOCK b sts', pop_scope s2, g2)"
    by (simp add: analyze_block_def push body)
  ultimately show "stmt_result (SF_NODE_BLOCK b sts) s g (analyze_block b as s g)"
    using r bracket p(1,4) by (simp add: stmt_result_def numbered_def)
qed

section \<open>Branches and loops\<close>

text \<open>What the restored flow state of one side of a join stands for: all variables when the side always
  returns, else the variables it initialises.\<close>

lemma flow_side:
  assumes "scope_decls a = scope_decls s"
  shows "length (if r then scope_flow_fill (scope_flow_save (\<lambda>_. True) a) True else scope_flow_save (\<lambda>_. True) a) =
      length (scope_ids s)"
    "(i, True) \<in> set (zip (scope_ids s) (if r then scope_flow_fill (scope_flow_save (\<lambda>_. True) a) True
        else scope_flow_save (\<lambda>_. True) a)) \<longleftrightarrow>
      (if r then i \<in> set (scope_ids s) else i \<in> initialized_ids a)"
proof -
  have ids: "scope_ids a = scope_ids s" using assms by (simp add: scope_ids_decls)
  then have len: "length (scope_flags a) = length (scope_ids s)" by (simp add: length_flags_ids)
  then show "length (if r then scope_flow_fill (scope_flow_save (\<lambda>_. True) a) True else scope_flow_save (\<lambda>_. True) a) =
      length (scope_ids s)"
    by (simp add: scope_flow_fill_def)
  show "(i, True) \<in> set (zip (scope_ids s) (if r then scope_flow_fill (scope_flow_save (\<lambda>_. True) a) True
        else scope_flow_save (\<lambda>_. True) a)) \<longleftrightarrow>
      (if r then i \<in> set (scope_ids s) else i \<in> initialized_ids a)"
    using zip_filled [OF len] by (simp add: initialized_ids_zip [of a] ids)
qed

lemma flow_join_returns:
  assumes "scope_ok s" "scope_decls a = scope_decls s" "scope_decls b = scope_decls s"
  shows "initialized_ids (scope_flow_restore b
      (scope_flow_and (if ra then scope_flow_fill (scope_flow_save (\<lambda>_. True) a) True else scope_flow_save (\<lambda>_. True) a)
        (if rb then scope_flow_fill (scope_flow_save (\<lambda>_. True) b) True else scope_flow_save (\<lambda>_. True) b))) =
    (if ra then set (scope_ids s) else initialized_ids a) \<inter> (if rb then set (scope_ids s) else initialized_ids b)"
  unfolding flow_join_sets [OF assms flow_side(1) [OF assms(2)] flow_side(1) [OF assms(3)]]
    flow_side(2) [OF assms(2)] flow_side(2) [OF assms(3)]
  by auto

lemma restored_inv:
  "stmt_inv s \<Longrightarrow> stmt_inv (s\<lparr>se_scope := scope_flow_restore (se_scope s) fs\<rparr>)"
  using stmt_inv_same flow_restore_decls by blast

lemma restored_decls [simp]:
  "scope_decls (scope_flow_restore s fs) = scope_decls s" "sc_next_id (scope_flow_restore s fs) = sc_next_id s"
  using flow_restore_decls [of s fs] by (simp_all add: same_decls_def)

lemma stmt_frame_restore:
  assumes "stmt_frame s g s1 g1" "scope_decls (se_scope s1) = scope_decls (se_scope s)"
    "init_ids s \<subseteq> initialized_ids (scope_flow_restore (se_scope s1) fs)"
  shows "stmt_frame s g (s1\<lparr>se_scope := scope_flow_restore (se_scope s1) fs\<rparr>) g1"
proof -
  have "sc_stack (se_scope s) \<noteq> []"
    using assms(1,2) decls_empty [of "se_scope s1"] decls_empty [of "se_scope s"] scope_extends_nonempty
    by (metis stmt_frame_def)
  then show ?thesis
    using assms restored_inv [of s1 fs] by (auto simp: stmt_frame_def scope_extends_def [of _ "se_scope s1"] intro!: scope_extends_same)
qed

lemma sound_condition:
  assumes "stmt_inv s" "raw_ok c" "sf_semantic_expr s c SF_VAL_TYPE_BOOL g = (ok, c1, g1)" "\<not> (ok \<and> expr_resolved c1 = SF_VAL_TYPE_BOOL)"
  shows "g_error_count g < g_error_count (if ok then sem_error s SF_LOG_SEMANTIC_TYPE_MISMATCH (expr_span c1)
                  [sf_type_value_name (expr_resolved c1)] g1 else g1)"
  using assms sem_expr.rejected [of s c SF_VAL_TYPE_BOOL g c1 g1] sem_expr.accepted(3) [of s c SF_VAL_TYPE_BOOL g c1 g1]
  by (cases ok) (auto simp: stmt_inv_def sem_error_count)

lemma sound_while:
  assumes "raw_ok c" "sound_stmt d a" "\<not> is_var_decl d"
  shows "sound_stmt (SF_NODE_WHILE b c d) (analyze_while b c d a)"
  unfolding sound_stmt_def
proof (intro allI impI)
  fix s g
  assume inv: "stmt_inv s"
  then have ok: "sem_ok s" by (simp add: stmt_inv_def)
  obtain cok c1 g1 where c: "sf_semantic_expr s c SF_VAL_TYPE_BOOL g = (cok, c1, g1)" by (rule prod_cases3)
  show "stmt_result (SF_NODE_WHILE b c d) s g (analyze_while b c d a s g)"
  proof (cases "cok \<and> expr_resolved c1 = SF_VAL_TYPE_BOOL")
    case False
    then show ?thesis using sound_condition [OF inv assms(1) c] c
      by (auto simp: analyze_while_def intro!: stmt_result_rejected [OF inv] split: bool.splits if_splits)
  next
    case True
    then have ids: "expr_ids c1 \<subseteq> init_ids s" "g_error_count g1 = g_error_count g"
      using accepted_ids [OF ok assms(1), of SF_VAL_TYPE_BOOL g c1 g1] c by simp_all
    obtain d1 s1 g2 where d: "a s g1 = (d1, s1, g2)" by (rule prod_cases3)
    note body = sound_stmtD [OF assms(2) inv d]
    note decls = body(2) [OF assms(3)]
    let ?sc = "scope_flow_restore (se_scope s1) (scope_flow_save (\<lambda>_. True) (se_scope s))"
    have init: "initialized_ids ?sc = init_ids s" using flow_restore_saved [OF decls] by simp
    have "stmt_frame s g1 (s1\<lparr>se_scope := ?sc\<rparr>) g2"
      using body(1) decls init by (intro stmt_frame_restore) simp_all
    then have frame: "stmt_frame s g (s1\<lparr>se_scope := ?sc\<rparr>) g2" using ids(2) by (simp add: stmt_frame_def)
    have "init_ids s \<subseteq> init_ids s1" using body(1) by (simp add: stmt_frame_def scope_extends_def)
    then have "flow_safe d1 (init_ids s) (init_ids s1) \<Longrightarrow> flow_safe (SF_NODE_WHILE b c1 d1) (init_ids s) (init_ids s)"
      using ids(1) by (intro flow_safe_while) auto
    moreover have "analyze_while b c d a s g = (SF_NODE_WHILE b c1 d1, s1\<lparr>se_scope := ?sc\<rparr>, g2)"
      using c d True by (simp add: analyze_while_def Let_def)
    ultimately show ?thesis
      using frame decls init ids(2) body(3,4) by (simp add: stmt_result_def numbered_def)
  qed
qed

definition else_result :: "sf_stmt option \<Rightarrow> sf_semantic \<Rightarrow> sf_log_state \<Rightarrow> sf_stmt option \<times> sf_semantic \<times> sf_log_state \<Rightarrow> bool" where
  "else_result e s g r \<longleftrightarrow>
     (case r of (e1, s', g') \<Rightarrow> stmt_frame s g s' g' \<and> scope_decls (se_scope s') = scope_decls (se_scope s) \<and>
        (g_error_count g' = g_error_count g \<longrightarrow>
           (case e1 of None \<Rightarrow> [] | Some st \<Rightarrow> decl_ids st) = [sc_next_id (se_scope s)..<sc_next_id (se_scope s')] \<and>
           ((case e of None \<Rightarrow> True | Some st \<Rightarrow> flat st) \<longrightarrow>
              (case e1 of None \<Rightarrow> init_ids s' \<subseteq> init_ids s | Some st \<Rightarrow> flow_safe st (init_ids s) (init_ids s')))))"

lemma sound_else:
  assumes "rel_option sound_stmt e a" "case e of None \<Rightarrow> True | Some st \<Rightarrow> \<not> is_var_decl st" "stmt_inv s"
  shows "else_result e s g
    (case a of None \<Rightarrow> (None, s, g) | Some a \<Rightarrow> (case a s g of (else1, s3, g3) \<Rightarrow> (Some else1, s3, g3)))"
proof (cases e)
  case None
  then show ?thesis using assms by (simp add: else_result_def stmt_frame_refl)
next
  case (Some st)
  then obtain a' where a: "a = Some a'" "sound_stmt st a'" using assms(1) by (cases a) auto
  obtain st1 s1 g1 where r: "a' s g = (st1, s1, g1)" by (rule prod_cases3)
  from sound_stmtD [OF a(2) assms(3) r] Some a r assms(2) show ?thesis
    by (simp add: else_result_def numbered_def)
qed

lemma sound_if:
  assumes "raw_ok c" "sound_stmt t at" "\<not> is_var_decl t"
    "rel_option sound_stmt e ae" "case e of None \<Rightarrow> True | Some st \<Rightarrow> \<not> is_var_decl st"
  shows "sound_stmt (SF_NODE_IF b c t e) (analyze_if b c t e at ae)"
  unfolding sound_stmt_def
proof (intro allI impI)
  fix s g
  assume inv: "stmt_inv s"
  then have ok: "sem_ok s" "scope_ok (se_scope s)" by (simp_all add: stmt_inv_def)
  obtain cok c1 g1 where c: "sf_semantic_expr s c SF_VAL_TYPE_BOOL g = (cok, c1, g1)" by (rule prod_cases3)
  show "stmt_result (SF_NODE_IF b c t e) s g (analyze_if b c t e at ae s g)"
  proof (cases "cok \<and> expr_resolved c1 = SF_VAL_TYPE_BOOL")
    case False
    then show ?thesis using sound_condition [OF inv assms(1) c] c
      by (auto simp: analyze_if_def intro!: stmt_result_rejected [OF inv] split: bool.splits if_splits)
  next
    case True
    then have ids: "expr_ids c1 \<subseteq> init_ids s" "g_error_count g1 = g_error_count g"
      using accepted_ids [OF ok(1) assms(1), of SF_VAL_TYPE_BOOL g c1 g1] c by simp_all
    obtain t1 s1 g2 where t: "at s g1 = (t1, s1, g2)" by (rule prod_cases3)
    note then1 = sound_stmtD [OF assms(2) inv t]
    note decls1 = then1(2) [OF assms(3)]
    define s2 where "s2 = s1\<lparr>se_scope := scope_flow_restore (se_scope s1) (scope_flow_save (\<lambda>_. True) (se_scope s))\<rparr>"
    have s2: "init_ids s2 = init_ids s" "scope_decls (se_scope s2) = scope_decls (se_scope s)"
      "sc_next_id (se_scope s2) = sc_next_id (se_scope s1)"
      unfolding s2_def using flow_restore_saved [OF decls1] decls1 by simp_all
    have frame2: "stmt_frame s g1 s2 g2"
      unfolding s2_def using then1(1) decls1 s2(1) by (intro stmt_frame_restore) (simp_all add: s2_def)
    then have inv2: "stmt_inv s2" by (simp add: stmt_frame_def)
    obtain e1 s3 g3 where e: "(case ae of None \<Rightarrow> (None, s2, g2)
        | Some a \<Rightarrow> (case a s2 g2 of (else1, s3, g3) \<Rightarrow> (Some else1, s3, g3))) = (e1, s3, g3)" by (rule prod_cases3)
    have else1: "stmt_frame s2 g2 s3 g3" "scope_decls (se_scope s3) = scope_decls (se_scope s)"
      "g_error_count g3 = g_error_count g2 \<Longrightarrow>
         (case e1 of None \<Rightarrow> [] | Some st \<Rightarrow> decl_ids st) = [sc_next_id (se_scope s1)..<sc_next_id (se_scope s3)]"
      "g_error_count g3 = g_error_count g2 \<Longrightarrow> (case e of None \<Rightarrow> True | Some st \<Rightarrow> flat st) \<Longrightarrow>
         (case e1 of None \<Rightarrow> init_ids s3 \<subseteq> init_ids s | Some st \<Rightarrow> flow_safe st (init_ids s) (init_ids s3))"
      using sound_else [OF assms(4,5) inv2, of g2, unfolded e else_result_def] s2
      by (simp_all cong: option.case_cong)
    let ?re = "case e1 of None \<Rightarrow> False | Some st \<Rightarrow> stmt_always_returns st"
    let ?sc = "scope_flow_restore (se_scope s3) (scope_flow_and
        (if stmt_always_returns t1 then scope_flow_fill (scope_flow_save (\<lambda>_. True) (se_scope s1)) True
         else scope_flow_save (\<lambda>_. True) (se_scope s1))
        (if ?re then scope_flow_fill (scope_flow_save (\<lambda>_. True) (se_scope s3)) True
         else scope_flow_save (\<lambda>_. True) (se_scope s3)))"
    have result: "analyze_if b c t e at ae s g = (SF_NODE_IF b c1 t1 e1, s3\<lparr>se_scope := ?sc\<rparr>, g3)"
      using c t True e unfolding analyze_if_def Let_def s2_def by (simp split del: if_split del: flow_save_flags)
    have init: "initialized_ids ?sc =
        (if stmt_always_returns t1 then set (scope_ids (se_scope s)) else init_ids s1) \<inter>
        (if ?re then set (scope_ids (se_scope s)) else init_ids s3)"
      by (rule flow_join_returns [OF ok(2) decls1 else1(2)])
    have grow: "init_ids s \<subseteq> init_ids s1" "init_ids s \<subseteq> init_ids s3"
      using then1(1) else1(1) s2(1) by (simp_all add: stmt_frame_def scope_extends_def)
    then have "init_ids s \<subseteq> initialized_ids ?sc"
      using init initialized_in_ids [of "se_scope s"] by auto
    then have "stmt_frame s g1 (s3\<lparr>se_scope := ?sc\<rparr>) g3"
      using stmt_frame_trans [OF frame2 else1(1)] else1(2) by (intro stmt_frame_restore) simp_all
    then have frame: "stmt_frame s g (s3\<lparr>se_scope := ?sc\<rparr>) g3" using ids(2) by (simp add: stmt_frame_def)
    have errors: "g_error_count g3 = g_error_count g \<Longrightarrow> g_error_count g2 = g_error_count g1 \<and> g_error_count g3 = g_error_count g2"
      using then1(1) else1(1) ids(2) by (simp add: stmt_frame_def)
    have numbers: "numbered (SF_NODE_IF b c1 t1 e1) s (s3\<lparr>se_scope := ?sc\<rparr>)" if "g_error_count g3 = g_error_count g"
      using numbered_join [OF _ else1(3)] then1(1,3) errors [OF that] stmt_frame_next [OF else1(1)] s2(3)
        stmt_frame_next [OF then1(1)] by (simp add: numbered_def)
    have safe: "flow_safe (SF_NODE_IF b c1 t1 e1) (init_ids s) (initialized_ids ?sc)"
      if "g_error_count g3 = g_error_count g" "flat (SF_NODE_IF b c t e)"
    proof (rule flow_safe_if [OF ids(1)])
      show "flow_safe t1 (init_ids s) (init_ids s1)" using then1(4) errors [OF that(1)] that(2) by simp
      show "stmt_always_returns t1 \<or> initialized_ids ?sc \<subseteq> init_ids s1" using init by auto
      show "case e1 of None \<Rightarrow> initialized_ids ?sc \<subseteq> init_ids s
          | Some st \<Rightarrow> flow_safe st (init_ids s) (init_ids s3) \<and> (stmt_always_returns st \<or> initialized_ids ?sc \<subseteq> init_ids s3)"
        using init else1(4) errors [OF that(1)] that(2) by (cases e1) auto
    qed
    show ?thesis
      unfolding result using frame else1(2) numbers safe by (simp add: stmt_result_def)
  qed
qed

section \<open>Functions\<close>

lemma check_parameters_count:
  "g_error_count g \<le> g_error_count (check_parameters s sp earlier ps g) \<and>
   (g_error_count (check_parameters s sp earlier ps g) = g_error_count g \<longrightarrow>
      (\<forall>p \<in> set ps. pm_type p \<noteq> SF_VAL_TYPE_VOID) \<and> distinct (map pm_name ps) \<and>
      pm_name ` set earlier \<inter> pm_name ` set ps = {})"
proof (induction ps arbitrary: earlier g)
  case (Cons p ps)
  let ?g = "if pm_type p = SF_VAL_TYPE_VOID then sem_error s SF_LOG_SEMANTIC_INVALID_TYPE sp [pm_name p] g else g"
  let ?g' = "if pm_name p \<in> pm_name ` set earlier
                then sem_error s SF_LOG_SEMANTIC_REDECLARATION sp [pm_name p] ?g else ?g"
  have g': "g_error_count ?g' = g_error_count g + (if pm_type p = SF_VAL_TYPE_VOID then 1 else 0) +
      (if pm_name p \<in> pm_name ` set earlier then 1 else 0)"
    by (simp add: sem_error_count)
  have step: "check_parameters s sp earlier (p # ps) g = check_parameters s sp (earlier @ [p]) ps ?g'"
    by (simp add: Let_def)
  let ?R = "check_parameters s sp (earlier @ [p]) ps ?g'"
  have grow: "g_error_count ?g' \<le> g_error_count ?R"
    and IH: "g_error_count ?R = g_error_count ?g' \<Longrightarrow> (\<forall>p \<in> set ps. pm_type p \<noteq> SF_VAL_TYPE_VOID) \<and>
      distinct (map pm_name ps) \<and> pm_name ` set (earlier @ [p]) \<inter> pm_name ` set ps = {}"
    using Cons.IH [of ?g' "earlier @ [p]"] by blast+
  have rest: "pm_type p \<noteq> SF_VAL_TYPE_VOID" "pm_name p \<notin> pm_name ` set earlier" "g_error_count ?R = g_error_count ?g'"
    if "g_error_count ?R = g_error_count g"
    using that grow unfolding g' by (simp_all split: if_splits)
  show ?case
    unfolding step
  proof (intro conjI impI)
    show "g_error_count g \<le> g_error_count ?R" using grow g' by linarith
    assume e: "g_error_count ?R = g_error_count g"
    note r = rest [OF e] and ih = IH [OF rest(3) [OF e]]
    show "\<forall>q \<in> set (p # ps). pm_type q \<noteq> SF_VAL_TYPE_VOID" "distinct (map pm_name (p # ps))"
      "pm_name ` set earlier \<inter> pm_name ` set (p # ps) = {}"
      using r(1,2) ih by auto
  qed
qed simp

lemma func_insert_sem_ok:
  assumes "sem_ok s" "sf_func_symbol_table_insert (se_funcs s) f fn g = (ok, funcs, g')"
    "fs_return_type f \<noteq> SF_VAL_TYPE_UNRESOLVED" "\<forall>p \<in> set (fs_parameters f). pm_type p \<noteq> SF_VAL_TYPE_UNRESOLVED"
  shows "sem_ok (s\<lparr>se_funcs := funcs\<rparr>)"
proof -
  have mark: "x \<in> set (mark_defined n fs) \<Longrightarrow>
      \<exists>y \<in> set fs. fs_return_type x = fs_return_type y \<and> fs_parameters x = fs_parameters y" for x n fs
    by (induction fs) (auto split: if_splits)
  show ?thesis
    using assms
    by (auto simp: sem_ok_def sf_func_symbol_table_insert_def Let_def split: if_splits option.splits dest!: mark)
qed

lemma parameters_result:
  assumes "stmt_inv s" "\<forall>p \<in> set ps. pm_type p \<noteq> SF_VAL_TYPE_UNRESOLVED" "declare_parameters s sp ps g = (ps', s', g')"
  shows "stmt_frame s g s' g' \<and>
    (g_error_count g' = g_error_count g \<longrightarrow> (\<forall>p \<in> set ps. pm_type p \<noteq> SF_VAL_TYPE_VOID) \<longrightarrow>
       map pm_id ps' = [sc_next_id (se_scope s)..<sc_next_id (se_scope s')] \<and>
       init_ids s' = init_ids s \<union> pm_id ` set ps')"
  using assms
proof (induction ps arbitrary: s g ps' s' g')
  case Nil
  then show ?case by (simp add: stmt_frame_refl)
next
  case (Cons p ps)
  show ?case
  proof (cases "pm_type p = SF_VAL_TYPE_VOID")
    case True
    then show ?thesis using Cons by (auto split: prod.splits)
  next
    case False
    let ?var = "\<lparr>vs_name = pm_name p, vs_type = pm_type p, vs_initialized = True, vs_depth = 0, vs_id = 0,
                 vs_span = sp, vs_qualifiers = pm_qualifiers p\<rparr>"
    let ?p = "\<lambda>sc. case scope_lookup sc (pm_name p) of None \<Rightarrow> p | Some v \<Rightarrow> p\<lparr>pm_id := vs_id v\<rparr>"
    obtain sc g1 where ins: "scope_insert (se_scope s) ?var (se_filename s) g = (sc, g1)" by fastforce
    obtain rest s2 g2 where r: "declare_parameters (s\<lparr>se_scope := sc\<rparr>) sp ps g1 = (rest, s2, g2)" by (rule prod_cases3)
    have eq: "ps' = ?p sc # rest" "s' = s2" "g' = g2"
      using Cons.prems(3) False ins r by simp_all
    have t: "vs_type ?var \<noteq> SF_VAL_TYPE_UNRESOLVED" "vs_type ?var \<noteq> SF_VAL_TYPE_VOID" using Cons.prems(2) False by simp_all
    have ps: "\<forall>p \<in> set ps. pm_type p \<noteq> SF_VAL_TYPE_UNRESOLVED" using Cons.prems(2) by simp
    from Cons.prems(1) t ins show ?thesis
    proof (cases rule: insert_accepted)
      case redeclared
      then have "declare_parameters s sp ps g1 = (rest, s2, g2)" using r by simp
      from Cons.IH [OF Cons.prems(1) ps this] redeclared(2) show ?thesis by (auto simp: eq stmt_frame_def)
    next
      case fresh
      then have inv1: "stmt_inv (s\<lparr>se_scope := sc\<rparr>)" by (simp add: stmt_frame_def)
      note tail = Cons.IH [OF inv1 ps r]
      have "stmt_frame s g s2 g2" using stmt_frame_trans [OF fresh(1)] tail by blast
      moreover have "pm_id (?p sc) = sc_next_id (se_scope s)" using fresh(6) by auto
      ultimately show ?thesis
        using tail fresh(2,3,5) stmt_frame_next [OF conjunct1 [OF tail]] by (auto simp: eq upt_conv_Cons)
    qed
  qed
qed

text \<open>What is promised of an annotated function body: from the variables in \<open>I\<close> and the parameters it
  never reads an uninitialised variable, and it never ends without a return when the function has
  to return a value.\<close>

definition func_safe :: "sf_parameter list \<Rightarrow> sf_value_type \<Rightarrow> sf_stmt \<Rightarrow> nat set \<Rightarrow> bool" where
  "func_safe ps t body I \<longleftrightarrow>
     (\<forall>I0. I \<union> pm_id ` set ps \<subseteq> I0 \<longrightarrow> \<not> runs body I0 Undefined_Read \<and>
        (t \<noteq> SF_VAL_TYPE_VOID \<longrightarrow> (\<forall>I1. \<not> runs body I0 (Normal I1))))"

lemma func_decl_result:
  assumes raw: "t \<noteq> SF_VAL_TYPE_UNRESOLVED" "\<forall>p \<in> set ps. pm_type p \<noteq> SF_VAL_TYPE_UNRESOLVED"
    and body: "rel_option sound_stmt body a" and inv: "stmt_inv s"
    and run: "analyze_func_decl b n l q ps t body a s g = (st', s', g')"
  shows "stmt_frame s g s' g' \<and> scope_decls (se_scope s') = scope_decls (se_scope s) \<and>
    (g_error_count g' = g_error_count g \<longrightarrow> numbered st' s s' \<and>
       (\<forall>st. body = Some st \<longrightarrow> flat st \<longrightarrow>
          (\<exists>m ps' st1. st' = SF_NODE_FUNC_DECL b n (Some m) q ps' t (Some st1) \<and> func_safe ps' t st1 (init_ids s))))"
proof -
  obtain m g1 where m: "sf_mangle_function (\<lambda>_. True) (se_module_prefix s) n (is_extern q) g = (m, g1)" by fastforce
  then have [simp]: "g1 = g" by (auto simp: sf_mangle_function_def Let_def split: option.splits if_splits)
  define func where "func = \<lparr>fs_name = n, fs_link_name = m, fs_return_type = t, fs_parameters = ps,
      fs_defined = body \<noteq> None, fs_span = ab_span b, fs_id = 0, fs_qualifiers = q, fs_imported = False\<rparr>"
  define node where "node = SF_NODE_FUNC_DECL b n (Some m) q"
  obtain qok g2 where qual: "analyze_func_sym_qual s func g = (qok, g2)" by fastforce
  show ?thesis
  proof (cases qok)
    case False
    then have "st' = node ps t body" "s' = s" "g' = g2"
      using run m qual by (simp_all add: analyze_func_decl_def Let_def func_def node_def)
    with False func_sym_qual_count [OF qual] inv show ?thesis by (simp add: stmt_frame_refl)
  next
    case True
    then have [simp]: "g2 = g" using func_sym_qual_count [OF qual] by simp
    let ?gc = "check_parameters s (ab_span b) [] ps g"
    obtain iok funcs g3 where ins: "sf_func_symbol_table_insert (se_funcs s) func (se_filename s) ?gc = (iok, funcs, g3)"
      by (rule prod_cases3)
    have g3: "g_error_count g3 = (if iok then g_error_count ?gc else Suc (g_error_count ?gc))"
      by (rule func_insert_spec(3) [OF ins])
    note gc = check_parameters_count [of g s "ab_span b" "[]" ps]
    define s1 where "s1 = s\<lparr>se_funcs := funcs\<rparr>"
    have "sem_ok s1"
      unfolding s1_def by (rule func_insert_sem_ok [OF _ ins]) (use inv raw in \<open>simp_all add: stmt_inv_def func_def\<close>)
    then have inv1: "stmt_inv s1" using inv by (simp add: stmt_inv_def s1_def)
    have s1 [simp]: "se_scope s1 = se_scope s" by (simp add: s1_def)
    have frame1: "stmt_frame s g s1 g3" using inv inv1 gc g3 scope_extends_refl
      by (auto simp: stmt_frame_def stmt_inv_def same_context_def s1_def)
    have run1: "(case (iok, a) of
        (True, Some a) \<Rightarrow>
          (case push_scope s1 g3 of (s2, g4) \<Rightarrow>
            (case declare_parameters s2 (ab_span b) ps g4 of (parameters1, s3, g5) \<Rightarrow>
              (let current = \<lparr>cf_name = n, cf_parameters = parameters1, cf_return_type = t\<rparr>
               in case a (s3\<lparr>se_current_func := Some current\<rparr>) g5 of (body1, s4, g6) \<Rightarrow>
                 (let s5 = s4\<lparr>se_current_func := se_current_func s3\<rparr>;
                      g7 = (if t \<noteq> SF_VAL_TYPE_VOID \<and> \<not> stmt_always_returns body1
                            then sem_error s5 SF_LOG_SEMANTIC_MISSING_RETURN (ab_span b) [n, sf_type_value_name t] g6
                            else g6)
                  in (node parameters1 t (Some body1), pop_scope s5, g7)))))
      | _ \<Rightarrow> (node ps t body, s1, g3)) = (st', s', g')"
      using run m qual ins True unfolding analyze_func_decl_def func_def node_def s1_def Let_def by simp
    show ?thesis
    proof (cases "iok \<and> a \<noteq> None")
      case False
      then have r: "st' = node ps t body" "s' = s1" "g' = g3" using run1 by (auto split: bool.splits option.splits)
      have "body = None" if "g_error_count g3 = g_error_count g"
      proof -
        have "iok" using that g3 gc by (auto split: if_splits)
        with False have "a = None" by simp
        with body show ?thesis by (cases body) auto
      qed
      then show ?thesis using frame1 by (auto simp: r numbered_def node_def)
    next
      case True
      then obtain a' where a: "a = Some a'" by auto
      then obtain st where st: "body = Some st" "sound_stmt st a'" using body by (cases body) auto
      obtain s2 g4 where push: "push_scope s1 g3 = (s2, g4)" by fastforce
      obtain ps1 s3 g5 where params: "declare_parameters s2 (ab_span b) ps g4 = (ps1, s3, g5)" by (rule prod_cases3)
      let ?cur = "\<lparr>cf_name = n, cf_parameters = ps1, cf_return_type = t\<rparr>"
      obtain st1 s4 g6 where an: "a' (s3\<lparr>se_current_func := Some ?cur\<rparr>) g5 = (st1, s4, g6)" by (rule prod_cases3)
      let ?s5 = "s4\<lparr>se_current_func := se_current_func s3\<rparr>"
      have r: "st' = node ps1 t (Some st1)" "s' = pop_scope ?s5"
        "g' = (if t \<noteq> SF_VAL_TYPE_VOID \<and> \<not> stmt_always_returns st1
               then sem_error ?s5 SF_LOG_SEMANTIC_MISSING_RETURN (ab_span b) [n, sf_type_value_name t] g6 else g6)"
        using run1 True a push params an by (auto simp: Let_def)
      note p = push_result [OF inv1 push]
      note ps1 = parameters_result [OF p(2) raw(2) params]
      have inv3: "stmt_inv (s3\<lparr>se_current_func := Some ?cur\<rparr>)"
        using ps1 by (simp add: stmt_frame_def stmt_inv_def sem_ok_def)
      note an1 = sound_stmtD [OF st(2) inv3 an]
      have frame5: "stmt_frame s3 g5 ?s5 g'"
        using an1(1) r(3) by (auto simp: stmt_frame_def stmt_inv_def sem_ok_def same_context_def sem_error_count)
      note frame2 = stmt_frame_trans [OF conjunct1 [OF ps1] frame5]
      note bracket = scope_bracket [OF inv1 push frame2]
      have errors: "g_error_count g3 = g_error_count g \<and> g_error_count g5 = g_error_count g4 \<and>
          g_error_count g6 = g_error_count g5 \<and> (t = SF_VAL_TYPE_VOID \<or> stmt_always_returns st1)"
        if "g_error_count g' = g_error_count g"
        using that frame1 ps1 an1(1) p(1) r(3) by (auto simp: stmt_frame_def sem_error_count split: if_splits)
      have params_ok: "map pm_id ps1 = [sc_next_id (se_scope s)..<sc_next_id (se_scope s3)] \<and>
          init_ids s3 = init_ids s \<union> pm_id ` set ps1" if "g_error_count g' = g_error_count g"
        using ps1 errors [OF that] p(4,5) gc g3 by (auto split: if_splits)
      show ?thesis
      proof (intro conjI impI allI)
        show "stmt_frame s g s' g'" using stmt_frame_trans [OF frame1 bracket(1)] by (simp add: r(2))
        show "scope_decls (se_scope s') = scope_decls (se_scope s)" using bracket(2) by (simp add: r(2))
        assume e: "g_error_count g' = g_error_count g"
        have "sc_next_id (se_scope s) \<le> sc_next_id (se_scope s3)"
          using stmt_frame_next [OF conjunct1 [OF ps1]] p(4) by simp
        then show "numbered st' s s'"
          using numbered_join [OF _ _ _ stmt_frame_next [OF an1(1)], of "map pm_id ps1" "sc_next_id (se_scope s)"]
            params_ok [OF e] an1(3) errors [OF e] bracket(3)
          by (simp add: numbered_def r(1,2) node_def)
        fix st0 assume "body = Some st0" "flat st0"
        then have "flow_safe st1 (init_ids s3) (init_ids s4)" using an1(4) errors [OF e] st(1) by simp
        then have safe: "flow_safe st1 (init_ids s \<union> pm_id ` set ps1) (init_ids s4)" using params_ok [OF e] by simp
        have "func_safe ps1 t st1 (init_ids s)"
          using flow_safe_undefined [OF safe] always_returns_runs [of st1] errors [OF e] by (auto simp: func_safe_def)
        then show "\<exists>m' ps' st1'. st' = SF_NODE_FUNC_DECL b n (Some m') q ps' t (Some st1') \<and> func_safe ps' t st1' (init_ids s)"
          by (simp add: r(1) node_def)
      qed
    qed
  qed
qed

lemma sound_func_decl:
  assumes "raw_stmt_ok (SF_NODE_FUNC_DECL b n l q ps t body)" "rel_option sound_stmt body a"
  shows "sound_stmt (SF_NODE_FUNC_DECL b n l q ps t body) (analyze_func_decl b n l q ps t body a)"
  unfolding sound_stmt_def
proof (intro allI impI)
  fix s g
  assume inv: "stmt_inv s"
  obtain st' s' g' where r: "analyze_func_decl b n l q ps t body a s g = (st', s', g')" by (rule prod_cases3)
  from func_decl_result [OF _ _ assms(2) inv r] assms(1)
  show "stmt_result (SF_NODE_FUNC_DECL b n l q ps t body) s g (analyze_func_decl b n l q ps t body a s g)"
    by (simp add: r stmt_result_def)
qed

section \<open>All statements\<close>

lemma sound_statement: "raw_stmt_ok st \<Longrightarrow> sound_stmt st (analyze_statement st)"
proof (induction st)
  case (SF_NODE_BLOCK b sts)
  then have "list_all2 sound_stmt sts (map analyze_statement sts)" by (auto simp: list_all2_conv_all_nth)
  from sound_block [OF this, of b] show ?case by (simp add: sound_stmt_def)
next
  case (SF_NODE_IF b c t e)
  then have "rel_option sound_stmt e (map_option analyze_statement e)" by (cases e) auto
  from sound_if [OF _ _ _ this, of c t "analyze_statement t" b] SF_NODE_IF show ?case
    by (auto simp: sound_stmt_def split: option.splits)
next
  case (SF_NODE_WHILE b c d)
  from sound_while [of c d "analyze_statement d" b] SF_NODE_WHILE show ?case by (simp add: sound_stmt_def)
next
  case (SF_NODE_FUNC_DECL b n l q ps t body)
  then have "rel_option sound_stmt body (map_option analyze_statement body)" by (cases body) auto
  from sound_func_decl [OF SF_NODE_FUNC_DECL.prems this] show ?case by (simp add: sound_stmt_def)
next
  case (SF_NODE_VAR_DECL b q t n vid v)
  from sound_var_decl [OF SF_NODE_VAR_DECL.prems] show ?case by (simp add: sound_stmt_def)
next
  case (SF_NODE_VAR_ASSIGN b n e vid)
  then show ?case using sound_var_assign [of e b n vid] by (simp add: sound_stmt_def)
next
  case (SF_NODE_RETURN b v)
  then show ?case using sound_return [of v b] by (simp add: sound_stmt_def)
next
  case (SF_STMT_EXPR e)
  then show ?case using sound_expr_stmt [of e] by (simp add: sound_stmt_def)
qed

text \<open>The interface that the analysis of programs relies on.\<close>

locale statement_analysis_contract =
  fixes analyze :: "sf_stmt \<Rightarrow> statement_analysis"
  assumes analyze_sound: "raw_stmt_ok st \<Longrightarrow> sound_stmt st (analyze st)"
begin

lemma program_result:
  assumes "\<forall>st \<in> set sts. raw_stmt_ok st" "stmt_inv s" "analyze_statements (map analyze sts) s g = (sts', s', g')"
  shows "stmt_frame s g s' g'"
    "g_error_count g' = g_error_count g \<Longrightarrow>
       concat (map decl_ids sts') = [sc_next_id (se_scope s)..<sc_next_id (se_scope s')]"
proof -
  have "list_all2 sound_stmt sts (map analyze sts)"
    using assms(1) analyze_sound by (auto simp: list_all2_conv_all_nth)
  from statements_result [OF this assms(2,3)]
  show "stmt_frame s g s' g'" "g_error_count g' = g_error_count g \<Longrightarrow>
       concat (map decl_ids sts') = [sc_next_id (se_scope s)..<sc_next_id (se_scope s')]"
    by blast+
qed

lemma distinct_variables:
  assumes "raw_stmt_ok st" "stmt_inv s" "analyze st s g = (st', s', g')" "g_error_count g' = g_error_count g"
  shows "distinct (decl_ids st')" "set (decl_ids st') \<inter> set (scope_ids (se_scope s)) = {}"
proof -
  have "decl_ids st' = [sc_next_id (se_scope s)..<sc_next_id (se_scope s')]"
    using sound_stmtD(3) [OF analyze_sound [OF assms(1)] assms(2,3,4)] by (simp add: numbered_def)
  then show "distinct (decl_ids st')" "set (decl_ids st') \<inter> set (scope_ids (se_scope s)) = {}"
    using assms(2) scope_ids_less [of "se_scope s"] by (force simp: stmt_inv_def)+
qed

end

interpretation sem_stmt: statement_analysis_contract analyze_statement
  by unfold_locales (rule sound_statement)

section \<open>The analysis of statements, as properties\<close>

definition start_semantic :: "string \<Rightarrow> sf_semantic" where
  "start_semantic filename = \<lparr>se_scope = fst (scope_push (\<lambda>_. True) scope_init sf_log_init), se_funcs = sf_func_symbol_table_init,
     se_current_func = None, se_filename = filename, se_module_prefix = None\<rparr>"

lemma start_inv: "stmt_inv (start_semantic f)"
  by (simp add: stmt_inv_def start_semantic_def sem_ok_def scope_ok_def scope_push_def scope_init_def
      sf_func_symbol_table_init_def sf_var_symbol_table_init_def)

text \<open>Two functions to run the analysis on: \<open>one_function\<close> declares a variable with a value and returns it;
  in \<open>nested_assignment\<close> the only assignment to the variable is in a nested function that is
  never called.\<close>

definition one_function :: sf_stmt where
  "one_function = SF_NODE_FUNC_DECL (new_node sf_span_zero) ''f'' None no_qualifiers [] SF_VAL_TYPE_I32
     (Some (SF_NODE_BLOCK (new_node sf_span_zero)
        [SF_NODE_VAR_DECL (new_node sf_span_zero) no_qualifiers SF_VAL_TYPE_I32 ''x'' 0
           (Some (sf_new_literal_node ''1'' SF_TOKEN_TYPE_INTEGER sf_span_zero)),
         SF_NODE_RETURN (new_node sf_span_zero) (Some (sf_new_identifier_node ''x'' sf_span_zero))]))"

definition nested_assignment :: sf_stmt where
  "nested_assignment = SF_NODE_FUNC_DECL (new_node sf_span_zero) ''f'' None no_qualifiers [] SF_VAL_TYPE_I32
     (Some (SF_NODE_BLOCK (new_node sf_span_zero)
        [SF_NODE_VAR_DECL (new_node sf_span_zero) (no_qualifiers\<lparr>is_mutable := True\<rparr>) SF_VAL_TYPE_I32 ''x'' 0 None,
         SF_NODE_FUNC_DECL (new_node sf_span_zero) ''g'' None no_qualifiers [] SF_VAL_TYPE_VOID
           (Some (SF_NODE_BLOCK (new_node sf_span_zero)
              [SF_NODE_VAR_ASSIGN (new_node sf_span_zero) ''x'' (sf_new_literal_node ''1'' SF_TOKEN_TYPE_INTEGER sf_span_zero) 0])),
         SF_NODE_RETURN (new_node sf_span_zero) (Some (sf_new_identifier_node ''x'' sf_span_zero))]))"

fun func_body :: "sf_stmt \<Rightarrow> sf_stmt option" where
  "func_body (SF_NODE_FUNC_DECL _ _ _ _ _ _ body) = body"
| "func_body _ = None"

lemma literal_one: "strtoull10 ''1'' = Some 1"
  using strtoull10_dec_digits [of 1] by (simp add: dec_digits.simps)

lemmas run_simps = analyze_func_decl_def sf_mangle_function_def analyze_func_sym_qual_def check_parameters.simps
  sf_func_symbol_table_insert_def sf_func_symbol_table_lookup_def sf_func_symbol_table_init_def is_definition_def
  push_scope_def pop_scope_def scope_push_def scope_pop_def declare_parameters.simps analyze_block_def analyze_var_decl_def
  shadows_parameter_def analyze_var_sym_qual_def analyze_literal_def literal_one sf_new_literal_node_def new_node_def
  scope_insert_def sf_var_symbol_table_lookup_def sf_var_symbol_table_init_def sf_var_symbol_table_insert_def
  scope_lookup_def check_assignment_type_def sf_type_value_is_integer_def
  analyze_return_def sf_new_identifier_node_def analyze_identifier_def check_return_type_def
  sf_type_value_is_same_group_def start_semantic_def scope_init_def no_qualifiers_def set_resolved_def
  analyze_var_assign_def scope_set_initialized_def Let_def

text \<open>C18: An accepted function never reads an uninitialised variable. When the analysis of a function
  without nested functions logs no error, then no run of its annotated body, from any state in
  which its parameters and the variables that were initialised before are initialised, reads a
  variable that is not, whatever conditions hold and however often loops repeat; and a function
  that returns a value never ends without a return.\<close>

theorem accepted_function_safe:
  assumes "stmt_inv s" "raw_stmt_ok (SF_NODE_FUNC_DECL b n l q ps t (Some body))" "flat body"
    "analyze_statement (SF_NODE_FUNC_DECL b n l q ps t (Some body)) s g = (st', s', g')"
    "g_error_count g' = g_error_count g"
  shows "\<exists>m ps' body'. st' = SF_NODE_FUNC_DECL b n (Some m) q ps' t (Some body') \<and>
    (\<forall>I0. initialized_ids (se_scope s) \<union> pm_id ` set ps' \<subseteq> I0 \<longrightarrow> \<not> runs body' I0 Undefined_Read \<and>
        (t \<noteq> SF_VAL_TYPE_VOID \<longrightarrow> (\<forall>I1. \<not> runs body' I0 (Normal I1))))"
proof -
  have sound: "rel_option sound_stmt (Some body) (Some (\<lambda>s g. analyze_statement body s g))"
    using sound_statement [of body] assms(2) by (simp add: sound_stmt_def)
  have run: "analyze_func_decl b n l q ps t (Some body) (Some (\<lambda>s g. analyze_statement body s g)) s g = (st', s', g')"
    using assms(4) by simp
  from func_decl_result [OF _ _ sound assms(1) run] assms(2,3,5)
  have "\<exists>m ps' body'. st' = SF_NODE_FUNC_DECL b n (Some m) q ps' t (Some body') \<and> func_safe ps' t body' (init_ids s)"
    by simp
  then show ?thesis unfolding func_safe_def .
qed

lemma accepted_function_safe_witness:
  "\<exists>body. func_body (fst (analyze_statement one_function (start_semantic ''m'') sf_log_init)) = Some body \<and>
     \<not> runs body {} Undefined_Read \<and> \<not> runs body {} (Normal {})"
proof -
  obtain st' s' g' where r: "analyze_statement one_function (start_semantic ''m'') sf_log_init = (st', s', g')"
    by (rule prod_cases3)
  note r' = r [unfolded one_function_def]
  have g': "g_error_count g' = g_error_count sf_log_init" and ids: "initialized_ids (se_scope (start_semantic ''m'')) = {}"
    using r by (auto simp: one_function_def run_simps initialized_ids_def)
  obtain body1 b1 l1 q1 where st': "st' = SF_NODE_FUNC_DECL b1 ''f'' l1 q1 [] SF_VAL_TYPE_I32 (Some body1)"
    using r by (auto simp: one_function_def run_simps)
  have "\<exists>m ps' body'. st' = SF_NODE_FUNC_DECL (new_node sf_span_zero) ''f'' (Some m) no_qualifiers ps' SF_VAL_TYPE_I32 (Some body') \<and>
    (\<forall>I0. initialized_ids (se_scope (start_semantic ''m'')) \<union> pm_id ` set ps' \<subseteq> I0 \<longrightarrow> \<not> runs body' I0 Undefined_Read \<and>
        (SF_VAL_TYPE_I32 \<noteq> SF_VAL_TYPE_VOID \<longrightarrow> (\<forall>I1. \<not> runs body' I0 (Normal I1))))"
    by (rule accepted_function_safe [OF start_inv _ _ r' g'])
       (simp_all add: sf_new_literal_node_def sf_new_identifier_node_def literal_token_def)
  then show ?thesis unfolding r ids by (simp add: st')
qed

text \<open>C26: The analysis accepts a read of an uninitialised variable when a nested function assigns to it:
  the analysis of the body of the nested function marks the variable of the enclosing function as
  initialised, although the nested function is not called. In \<open>nested_assignment\<close>, which the
  analysis accepts without an error, the only run of the enclosing function reads the variable
  uninitialised.\<close>

theorem nested_function_unsafe:
  "(case analyze_statement nested_assignment (start_semantic ''m'') sf_log_init of (st', s', g') \<Rightarrow>
      g_error_count g' = 0 \<and>
      (case func_body st' of None \<Rightarrow> False
       | Some body \<Rightarrow> {out. runs body {} out} = {Undefined_Read}))"
proof -
  have "{out. runs (SF_NODE_BLOCK b [SF_NODE_VAR_DECL b1 q1 t1 n1 i None, SF_NODE_FUNC_DECL b2 n2 l2 q2 ps2 t2 body2,
      SF_NODE_RETURN b3 (Some (SF_NODE_IDENTIFIER b4 n4 d4 i s4))]) {} out} = {Undefined_Read}"
    for b b1 q1 t1 n1 i b2 n2 l2 q2 ps2 t2 body2 b3 b4 n4 d4 s4
  proof -
    let ?ret = "SF_NODE_RETURN b3 (Some (SF_NODE_IDENTIFIER b4 n4 d4 i s4))"
    have "runs (SF_NODE_BLOCK b [?ret]) {} Undefined_Read" by (rule block_undefined [OF return_undefined]) simp
    from block_next [OF func_decl this]
    have "runs (SF_NODE_BLOCK b [SF_NODE_FUNC_DECL b2 n2 l2 q2 ps2 t2 body2, ?ret]) ({} - {i}) Undefined_Read" by simp
    from block_next [OF decl this] show ?thesis
      by (auto elim!: runs_consE runs_declE runs_funcE runs_returnE)
  qed
  then show ?thesis by (simp add: nested_assignment_def run_simps sf_log_init_def)
qed

text \<open>C19: The analysis of any parsed statement keeps the state well-formed: the scopes stay consistent,
  the tables of the enclosing scopes keep their declarations and the current one only grows,
  initialised variables stay initialised, the enclosing function stays the current one, and
  errors are only added. When no error is added, the variables that the statement declares are
  numbered consecutively in the order of the source, from the next number of the scope on.\<close>

theorem analyze_statement_invariant:
  assumes "stmt_inv s" "raw_stmt_ok st" "analyze_statement st s g = (st', s', g')"
  shows "stmt_inv s' \<and> se_current_func s' = se_current_func s \<and>
    (\<exists>new. scope_decls (se_scope s') =
       butlast (scope_decls (se_scope s)) @ [last (scope_decls (se_scope s)) @ new]) \<and>
    initialized_ids (se_scope s) \<subseteq> initialized_ids (se_scope s') \<and> g_error_count g \<le> g_error_count g' \<and>
    (g_error_count g' = g_error_count g \<longrightarrow> decl_ids st' = [sc_next_id (se_scope s)..<sc_next_id (se_scope s')])"
  using sound_stmtD(1,3) [OF sem_stmt.analyze_sound [OF assms(2)] assms(1,3)]
  by (auto simp: stmt_frame_def scope_extends_def same_context_def numbered_def)

lemma analyze_statement_invariant_witness:
  "decl_ids (fst (analyze_statement one_function (start_semantic ''m'') sf_log_init)) = [0]"
proof -
  obtain st' s' g' where r: "analyze_statement one_function (start_semantic ''m'') sf_log_init = (st', s', g')"
    by (rule prod_cases3)
  have raw: "raw_stmt_ok one_function"
    by (simp add: one_function_def sf_new_literal_node_def sf_new_identifier_node_def literal_token_def)
  have "g' = sf_log_init" "sc_next_id (se_scope s') = 1" "sc_next_id (se_scope (start_semantic ''m'')) = 0"
    using r by (auto simp: one_function_def run_simps)
  then show ?thesis
    using analyze_statement_invariant [OF start_inv raw r] by (simp add: r)
qed

end
