(* ===== verification/Parser_Core.thy ===== *)
theory Parser_Core
  imports Ast Lexer
begin

text \<open>
  The parser state and its token primitives, \<^verbatim>\<open>frontend/parser/parser.c\<close>. The state is the C
  structure (token list, position, file name) with the log. The token list ends with an
  end-of-file token (the lexer guarantees it, the driver stops when the lexer runs out of
  memory), so a position at or past the end reads that token again. The recovery loops only
  move the position; \<open>parser_at_end\<close> guards their recursion against a list without an
  end-of-file token, on which the C loops would not stop.
\<close>

section \<open>State and primitives\<close>

record sf_parser =
  ps_tokens :: "sf_token list"
  ps_current :: nat
  ps_filename :: string
  ps_log :: sf_log_state

definition peek_at :: "sf_parser \<Rightarrow> nat \<Rightarrow> sf_token" where
  "peek_at p idx =
     (if length (ps_tokens p) \<le> idx then ps_tokens p ! (length (ps_tokens p) - 1) else ps_tokens p ! idx)"

definition sf_parser_peek :: "sf_parser \<Rightarrow> sf_token" where
  "sf_parser_peek p = peek_at p (ps_current p)"

definition sf_parser_peek_next :: "sf_parser \<Rightarrow> sf_token" where
  "sf_parser_peek_next p = peek_at p (ps_current p + 1)"

definition parser_skip :: "sf_parser \<Rightarrow> sf_parser" where
  "parser_skip p = p\<lparr>ps_current := ps_current p + 1\<rparr>"

definition sf_parser_advance :: "sf_parser \<Rightarrow> sf_token \<times> sf_parser" where
  "sf_parser_advance p =
     (let token = sf_parser_peek p
      in (token, if tk_type token \<noteq> SF_TOKEN_TYPE_EOF then parser_skip p else p))"

definition sf_parser_match :: "sf_parser \<Rightarrow> sf_token_type \<Rightarrow> bool \<times> sf_parser" where
  "sf_parser_match p type =
     (if tk_type (sf_parser_peek p) = type then (True, parser_skip p) else (False, p))"

definition quoted :: "string \<Rightarrow> string" where
  "quoted s = [CHR 0x27] @ s @ [CHR 0x27]"

definition describe_token :: "sf_token \<Rightarrow> string" where
  "describe_token token =
     (if tk_type token = SF_TOKEN_TYPE_EOF then ''end of file''
      else quoted (tk_value token))"

definition parser_error :: "sf_parser \<Rightarrow> sf_token \<Rightarrow> string list \<Rightarrow> sf_parser" where
  "parser_error p got args =
     p\<lparr>ps_log := sf_log (Some (ps_filename p)) SF_LOG_PARSER_UNEXPECTED_TOKEN (tk_span got)
                   SF_LOG_SEVERITY_ERROR args (ps_log p)\<rparr>"

definition sf_parser_expect :: "sf_parser \<Rightarrow> sf_token_type \<Rightarrow> bool \<times> sf_parser" where
  "sf_parser_expect p type =
     (case sf_parser_match p type of
        (True, p1) \<Rightarrow> (True, p1)
      | (False, p1) \<Rightarrow>
          (let got = sf_parser_peek p1
           in (False, if tk_type got \<noteq> SF_TOKEN_TYPE_UNDEFINED
                      then parser_error p1 got [sf_token_type_name type, describe_token got] else p1)))"

definition sf_parser_report_unexpected :: "sf_parser \<Rightarrow> sf_token \<Rightarrow> string \<Rightarrow> sf_parser" where
  "sf_parser_report_unexpected p got expected =
     (if tk_type got = SF_TOKEN_TYPE_UNDEFINED then p
      else parser_error p got [expected, describe_token got])"

definition sf_parser_expect_identifier :: "sf_parser \<Rightarrow> string \<Rightarrow> sf_token option \<times> sf_parser" where
  "sf_parser_expect_identifier p expected =
     (let token = sf_parser_peek p
      in if tk_type token \<noteq> SF_TOKEN_TYPE_IDENTIFIER
         then (None, sf_parser_report_unexpected p token expected)
         else (case sf_parser_advance p of (tk, p1) \<Rightarrow> (Some tk, p1)))"

definition sf_parser_expect_type :: "sf_parser \<Rightarrow> string \<Rightarrow> sf_value_type option \<times> sf_parser" where
  "sf_parser_expect_type p expected =
     (let token = sf_parser_peek p; value = sf_token_to_type token
      in if value = SF_VAL_TYPE_UNRESOLVED
         then (None, sf_parser_report_unexpected p token expected)
         else (Some value, snd (sf_parser_advance p)))"

section \<open>Recovery\<close>

text \<open>The \<^verbatim>\<open>case\<close> labels at which each recovery stops.\<close>

definition expression_sync :: "sf_token_type \<Rightarrow> bool" where
  "expression_sync type \<longleftrightarrow> type \<in>
     {SF_TOKEN_TYPE_SEMICOLON, SF_TOKEN_TYPE_RPAREN, SF_TOKEN_TYPE_LBRACE, SF_TOKEN_TYPE_RBRACE,
      SF_TOKEN_TYPE_KW_AS}"

definition statement_sync :: "sf_token_type \<Rightarrow> bool" where
  "statement_sync type \<longleftrightarrow> type \<in>
     {SF_TOKEN_TYPE_KW_I8, SF_TOKEN_TYPE_KW_I16, SF_TOKEN_TYPE_KW_I32, SF_TOKEN_TYPE_KW_I64,
      SF_TOKEN_TYPE_KW_U8, SF_TOKEN_TYPE_KW_U16, SF_TOKEN_TYPE_KW_U32, SF_TOKEN_TYPE_KW_U64,
      SF_TOKEN_TYPE_KW_BOOL, SF_TOKEN_TYPE_KW_IF, SF_TOKEN_TYPE_KW_WHILE, SF_TOKEN_TYPE_KW_FN,
      SF_TOKEN_TYPE_KW_RETURN, SF_TOKEN_TYPE_IDENTIFIER, SF_TOKEN_TYPE_LBRACE, SF_TOKEN_TYPE_RBRACE}"

definition top_level_sync :: "sf_token_type \<Rightarrow> bool" where
  "top_level_sync type \<longleftrightarrow> type \<in>
     {SF_TOKEN_TYPE_KW_FN, SF_TOKEN_TYPE_KW_I8, SF_TOKEN_TYPE_KW_I16, SF_TOKEN_TYPE_KW_I32,
      SF_TOKEN_TYPE_KW_I64, SF_TOKEN_TYPE_KW_U8, SF_TOKEN_TYPE_KW_U16, SF_TOKEN_TYPE_KW_U32,
      SF_TOKEN_TYPE_KW_U64, SF_TOKEN_TYPE_KW_BOOL}"

definition parser_at_end :: "sf_parser \<Rightarrow> bool" where
  "parser_at_end p \<longleftrightarrow> tk_type (sf_parser_peek p) = SF_TOKEN_TYPE_EOF \<or> length (ps_tokens p) \<le> ps_current p"

lemma parser_skip_simps [simp]:
  "ps_tokens (parser_skip p) = ps_tokens p" "ps_current (parser_skip p) = Suc (ps_current p)"
  "ps_filename (parser_skip p) = ps_filename p" "ps_log (parser_skip p) = ps_log p"
  by (simp_all add: parser_skip_def)

lemma parser_not_at_end: "\<not> parser_at_end p \<Longrightarrow> ps_current p < length (ps_tokens p)"
  by (simp add: parser_at_end_def)

function sf_parser_recover_expression :: "sf_parser \<Rightarrow> sf_parser" where
  "sf_parser_recover_expression p =
     (if parser_at_end p then p
      else if expression_sync (tk_type (sf_parser_peek p)) then p
      else sf_parser_recover_expression (parser_skip p))"
  by pat_completeness auto
termination
  by (relation "measure (\<lambda>p. length (ps_tokens p) - ps_current p)") (auto dest: parser_not_at_end)

function sf_parser_recover_statement :: "sf_parser \<Rightarrow> sf_parser" where
  "sf_parser_recover_statement p =
     (if parser_at_end p then p
      else if tk_type (sf_parser_peek p) = SF_TOKEN_TYPE_SEMICOLON then parser_skip p
      else if statement_sync (tk_type (sf_parser_peek p)) then p
      else sf_parser_recover_statement (parser_skip p))"
  by pat_completeness auto
termination
  by (relation "measure (\<lambda>p. length (ps_tokens p) - ps_current p)") (auto dest: parser_not_at_end)

function recover_top_level_loop :: "sf_parser \<Rightarrow> nat \<Rightarrow> sf_parser" where
  "recover_top_level_loop p depth =
     (if parser_at_end p then p
      else if tk_type (sf_parser_peek p) = SF_TOKEN_TYPE_LBRACE
      then recover_top_level_loop (parser_skip p) (depth + 1)
      else if tk_type (sf_parser_peek p) = SF_TOKEN_TYPE_RBRACE
      then recover_top_level_loop (parser_skip p) (if 0 < depth then depth - 1 else depth)
      else if tk_type (sf_parser_peek p) = SF_TOKEN_TYPE_SEMICOLON
      then (if depth = 0 then parser_skip p else recover_top_level_loop (parser_skip p) depth)
      else if top_level_sync (tk_type (sf_parser_peek p))
      then (if depth = 0 then p else recover_top_level_loop (parser_skip p) depth)
      else recover_top_level_loop (parser_skip p) depth)"
  by pat_completeness auto
termination
  by (relation "measure (\<lambda>(p, d). length (ps_tokens p) - ps_current p)") (auto dest: parser_not_at_end)

definition sf_parser_recover_top_level :: "sf_parser \<Rightarrow> sf_parser" where
  "sf_parser_recover_top_level p =
     recover_top_level_loop (if tk_type (sf_parser_peek p) \<noteq> SF_TOKEN_TYPE_EOF then parser_skip p else p) 0"

declare sf_parser_recover_expression.simps [simp del] sf_parser_recover_statement.simps [simp del]
  recover_top_level_loop.simps [simp del]

section \<open>Well-formed states and progress\<close>

definition parser_ok :: "sf_parser \<Rightarrow> bool" where
  "parser_ok p \<longleftrightarrow> ps_current p < length (ps_tokens p) \<and> tk_type (last (ps_tokens p)) = SF_TOKEN_TYPE_EOF"

definition parser_errors :: "sf_parser \<Rightarrow> nat" where
  "parser_errors p = g_error_count (ps_log p)"

definition has_undefined :: "sf_parser \<Rightarrow> bool" where
  "has_undefined p \<longleftrightarrow> (\<exists>t \<in> set (ps_tokens p). tk_type t = SF_TOKEN_TYPE_UNDEFINED)"

text \<open>The state after some parsing: same tokens, a later position, no fewer errors.\<close>

definition parser_follows :: "sf_parser \<Rightarrow> sf_parser \<Rightarrow> bool" where
  "parser_follows p p' \<longleftrightarrow> parser_ok p' \<and> ps_tokens p' = ps_tokens p \<and> ps_filename p' = ps_filename p \<and>
     ps_current p \<le> ps_current p' \<and> parser_errors p \<le> parser_errors p' \<and>
     (log_inv (ps_log p) \<longrightarrow> log_inv (ps_log p'))"

definition parser_reported :: "sf_parser \<Rightarrow> sf_parser \<Rightarrow> bool" where
  "parser_reported p p' \<longleftrightarrow> parser_errors p < parser_errors p' \<or> has_undefined p"

lemma parser_follows_refl [simp, intro]: "parser_ok p \<Longrightarrow> parser_follows p p"
  by (simp add: parser_follows_def)

lemma parser_follows_trans: "parser_follows p q \<Longrightarrow> parser_follows q r \<Longrightarrow> parser_follows p r"
  by (auto simp: parser_follows_def)

lemma parser_follows_ok: "parser_follows p q \<Longrightarrow> parser_ok q"
  by (simp add: parser_follows_def)

lemma peek_in_tokens: "parser_ok p \<Longrightarrow> sf_parser_peek p = ps_tokens p ! ps_current p"
  by (simp add: parser_ok_def sf_parser_peek_def peek_at_def)

lemma parser_skip_follows:
  assumes "parser_ok p" "tk_type (sf_parser_peek p) \<noteq> SF_TOKEN_TYPE_EOF"
  shows "parser_follows p (parser_skip p)"
proof -
  have "ps_current p \<noteq> length (ps_tokens p) - 1"
    using assms by (cases "ps_tokens p = []") (auto simp: peek_in_tokens parser_ok_def last_conv_nth)
  with assms(1) show ?thesis by (auto simp: parser_follows_def parser_ok_def parser_errors_def)
qed

lemma parser_at_end_ok: "parser_ok p \<Longrightarrow> parser_at_end p \<longleftrightarrow> tk_type (sf_parser_peek p) = SF_TOKEN_TYPE_EOF"
  by (auto simp: parser_at_end_def parser_ok_def)

lemma follows_skip_then:
  assumes "parser_ok p" "\<not> parser_at_end p"
    "parser_ok (parser_skip p) \<Longrightarrow> parser_follows (parser_skip p) q"
  shows "parser_follows p q"
  using assms parser_skip_follows parser_follows_trans parser_follows_ok by (metis parser_at_end_ok)

lemma recover_expression_follows: "parser_ok p \<Longrightarrow> parser_follows p (sf_parser_recover_expression p)"
proof (induction p rule: sf_parser_recover_expression.induct)
  case (1 p)
  show ?case
    using "1.prems" follows_skip_then [OF "1.prems" _ "1.IH"] by (subst sf_parser_recover_expression.simps) simp
qed

lemma recover_statement_follows: "parser_ok p \<Longrightarrow> parser_follows p (sf_parser_recover_statement p)"
proof (induction p rule: sf_parser_recover_statement.induct)
  case (1 p)
  have "tk_type (sf_parser_peek p) = SF_TOKEN_TYPE_SEMICOLON \<Longrightarrow> parser_follows p (parser_skip p)"
    using parser_skip_follows "1.prems" by simp
  then show ?case
    using "1.prems" follows_skip_then [OF "1.prems" _ "1.IH"] by (subst sf_parser_recover_statement.simps) simp
qed

lemma recover_top_level_loop_follows: "parser_ok p \<Longrightarrow> parser_follows p (recover_top_level_loop p depth)"
proof (induction "length (ps_tokens p) - ps_current p" arbitrary: p depth rule: less_induct)
  case less
  have semi: "tk_type (sf_parser_peek p) = SF_TOKEN_TYPE_SEMICOLON \<Longrightarrow> parser_follows p (parser_skip p)"
    using parser_skip_follows less.prems by simp
  have step: "parser_follows p (recover_top_level_loop (parser_skip p) d)" if "\<not> parser_at_end p" for d
  proof (rule follows_skip_then [OF less.prems that])
    assume "parser_ok (parser_skip p)"
    then show "parser_follows (parser_skip p) (recover_top_level_loop (parser_skip p) d)"
      using parser_not_at_end [OF that] by (intro less.hyps) auto
  qed
  show ?case
    using less.prems step semi by (subst recover_top_level_loop.simps) simp
qed

lemma recover_top_level_follows: "parser_ok p \<Longrightarrow> parser_follows p (sf_parser_recover_top_level p)"
  unfolding sf_parser_recover_top_level_def
  by (cases "tk_type (sf_parser_peek p) = SF_TOKEN_TYPE_EOF")
     (auto intro: recover_top_level_loop_follows follows_skip_then simp: parser_at_end_ok)

end
