(* ===== verification/Parser_Expr.thy ===== *)
theory Parser_Expr
  imports Parser_Core
begin

text \<open>
  The expression parser, \<^verbatim>\<open>frontend/parser/parser_expr.c\<close>: precedence levels from a table, then
  casts, unary operators, postfix operators, calls and primaries. The recursive descent takes
  fuel as its first argument; the outer \<open>None\<close> means that the fuel ran out, the inner one is the
  NULL result of the C code. Below, fuel proportional to the number of tokens left is shown to
  be enough, so the parser is total.
\<close>

section \<open>The parser\<close>

type_synonym 'a parsed = "('a option \<times> sf_parser) option"

record sf_binary_level =
  bl_ops :: "sf_token_type list"
  bl_chainable :: bool

definition k_binary_levels :: "sf_binary_level list" where
  "k_binary_levels =
    [\<lparr>bl_ops = [SF_TOKEN_TYPE_PIPE_PIPE], bl_chainable = True\<rparr>,
     \<lparr>bl_ops = [SF_TOKEN_TYPE_AMP_AMP], bl_chainable = True\<rparr>,
     \<lparr>bl_ops = [SF_TOKEN_TYPE_EQUAL_EQUAL, SF_TOKEN_TYPE_BANG_EQUAL, SF_TOKEN_TYPE_LESS,
                SF_TOKEN_TYPE_LESS_EQUAL, SF_TOKEN_TYPE_GREATER, SF_TOKEN_TYPE_GREATER_EQUAL],
       bl_chainable = False\<rparr>,
     \<lparr>bl_ops = [SF_TOKEN_TYPE_PIPE], bl_chainable = True\<rparr>,
     \<lparr>bl_ops = [SF_TOKEN_TYPE_CARET], bl_chainable = True\<rparr>,
     \<lparr>bl_ops = [SF_TOKEN_TYPE_AMP], bl_chainable = True\<rparr>,
     \<lparr>bl_ops = [SF_TOKEN_TYPE_LEFT_SHIFT, SF_TOKEN_TYPE_RIGHT_SHIFT], bl_chainable = True\<rparr>,
     \<lparr>bl_ops = [SF_TOKEN_TYPE_PLUS, SF_TOKEN_TYPE_MINUS], bl_chainable = True\<rparr>,
     \<lparr>bl_ops = [SF_TOKEN_TYPE_STAR, SF_TOKEN_TYPE_SLASH], bl_chainable = True\<rparr>]"

definition SF_BINARY_LEVEL_COUNT :: nat where
  "SF_BINARY_LEVEL_COUNT = length k_binary_levels"

definition level_has_operator :: "sf_binary_level \<Rightarrow> sf_token_type \<Rightarrow> bool" where
  "level_has_operator level type \<longleftrightarrow> type \<in> set (bl_ops level)"

fun parse_postfix_loop :: "nat \<Rightarrow> sf_parser \<Rightarrow> sf_expr \<Rightarrow> sf_expr parsed" where
  "parse_postfix_loop 0 p operand = None"
| "parse_postfix_loop (Suc n) p operand =
     (if tk_type (sf_parser_peek p) = SF_TOKEN_TYPE_PLUS_PLUS \<or>
         tk_type (sf_parser_peek p) = SF_TOKEN_TYPE_MINUS_MINUS
      then (case sf_parser_advance p of (op_token, p1) \<Rightarrow>
             (let op = sf_token_to_postfix_op op_token
              in if op = SF_OP_TYPE_UNRESOLVED then Some (None, p1)
                 else parse_postfix_loop n p1 (sf_new_unary_node operand op (tk_span op_token))))
      else Some (Some operand, p))"

fun parse_arguments :: "(sf_parser \<Rightarrow> sf_expr parsed) \<Rightarrow> nat \<Rightarrow> sf_parser \<Rightarrow> sf_expr \<Rightarrow> sf_expr parsed" where
  "parse_arguments pe 0 p call = None"
| "parse_arguments pe (Suc n) p call =
     (case pe p of
        None \<Rightarrow> None
      | Some (None, p1) \<Rightarrow> Some (None, p1)
      | Some (Some arg, p1) \<Rightarrow>
          (let call1 = sf_call_add_argument call arg
           in case sf_parser_match p1 SF_TOKEN_TYPE_COMMA of
                (False, p2) \<Rightarrow> Some (Some call1, p2)
              | (True, p2) \<Rightarrow> parse_arguments pe n p2 call1))"

definition parse_call :: "(sf_parser \<Rightarrow> sf_expr parsed) \<Rightarrow> nat \<Rightarrow> sf_parser \<Rightarrow> sf_token \<Rightarrow> sf_expr parsed" where
  "parse_call pe n p name_token =
     (let p1 = snd (sf_parser_advance p);
          callee_node = sf_new_identifier_node (tk_value name_token) (tk_span name_token);
          call_node = sf_new_func_call_node callee_node (tk_span name_token)
      in case (if tk_type (sf_parser_peek p1) \<noteq> SF_TOKEN_TYPE_RPAREN then parse_arguments pe n p1 call_node
               else Some (Some call_node, p1)) of
           None \<Rightarrow> None
         | Some (None, p2) \<Rightarrow> Some (None, p2)
         | Some (Some call, p2) \<Rightarrow>
             (case sf_parser_expect p2 SF_TOKEN_TYPE_RPAREN of
                (False, p3) \<Rightarrow> Some (None, sf_parser_recover_expression p3)
              | (True, p3) \<Rightarrow> Some (Some call, p3)))"

definition parse_primary :: "(sf_parser \<Rightarrow> sf_expr parsed) \<Rightarrow> nat \<Rightarrow> sf_parser \<Rightarrow> sf_expr parsed" where
  "parse_primary pe n p =
     (case sf_parser_match p SF_TOKEN_TYPE_LPAREN of
        (True, p1) \<Rightarrow>
          (case pe p1 of
             None \<Rightarrow> None
           | Some (None, p2) \<Rightarrow> Some (None, p2)
           | Some (Some expr, p2) \<Rightarrow>
               (case sf_parser_expect p2 SF_TOKEN_TYPE_RPAREN of
                  (False, p3) \<Rightarrow> Some (None, sf_parser_recover_expression p3)
                | (True, p3) \<Rightarrow> Some (Some expr, p3)))
      | (False, p1) \<Rightarrow>
          (let token = sf_parser_peek p1
           in if tk_type token = SF_TOKEN_TYPE_INTEGER \<or> tk_type token = SF_TOKEN_TYPE_KW_TRUE \<or>
                 tk_type token = SF_TOKEN_TYPE_KW_FALSE
              then Some (Some (sf_new_literal_node (tk_value token) (tk_type token) (tk_span token)),
                         snd (sf_parser_advance p1))
              else if tk_type token = SF_TOKEN_TYPE_IDENTIFIER
              then (let p2 = snd (sf_parser_advance p1)
                    in if tk_type (sf_parser_peek p2) = SF_TOKEN_TYPE_LPAREN then parse_call pe n p2 token
                       else Some (Some (sf_new_identifier_node (tk_value token) (tk_span token)), p2))
              else Some (None, sf_parser_recover_expression
                                 (sf_parser_report_unexpected p1 token ''an expression''))))"

definition parse_postfix :: "(sf_parser \<Rightarrow> sf_expr parsed) \<Rightarrow> nat \<Rightarrow> sf_parser \<Rightarrow> sf_expr parsed" where
  "parse_postfix pe n p =
     (case parse_primary pe n p of
        None \<Rightarrow> None
      | Some (None, p1) \<Rightarrow> Some (None, p1)
      | Some (Some operand, p1) \<Rightarrow> parse_postfix_loop n p1 operand)"

fun parse_unary_from :: "(sf_parser \<Rightarrow> sf_expr parsed) \<Rightarrow> nat \<Rightarrow> nat \<Rightarrow> sf_parser \<Rightarrow> sf_expr parsed" where
  "parse_unary_from pe k 0 p = None"
| "parse_unary_from pe k (Suc n) p =
     (let token = sf_parser_peek p; op = sf_token_to_unary_op token
      in if op = SF_OP_TYPE_UNRESOLVED then parse_postfix pe k p
         else (case parse_unary_from pe k n (snd (sf_parser_advance p)) of
                 None \<Rightarrow> None
               | Some (None, p1) \<Rightarrow> Some (None, p1)
               | Some (Some operand, p1) \<Rightarrow> Some (Some (sf_new_unary_node operand op (tk_span token)), p1)))"

definition parse_unary :: "(sf_parser \<Rightarrow> sf_expr parsed) \<Rightarrow> nat \<Rightarrow> sf_parser \<Rightarrow> sf_expr parsed" where
  "parse_unary pe n p = parse_unary_from pe n n p"

fun parse_cast_loop :: "nat \<Rightarrow> sf_parser \<Rightarrow> sf_expr \<Rightarrow> sf_expr parsed" where
  "parse_cast_loop 0 p expr = None"
| "parse_cast_loop (Suc n) p expr =
     (if tk_type (sf_parser_peek p) = SF_TOKEN_TYPE_KW_AS
      then (case sf_parser_advance p of (as_token, p1) \<Rightarrow>
             (case sf_parser_expect_type p1 (''a type keyword after '' @ quoted ''as'') of
                (None, p2) \<Rightarrow> Some (None, sf_parser_recover_expression p2)
              | (Some target_type, p2) \<Rightarrow>
                  parse_cast_loop n p2 (sf_new_cast_node expr target_type (tk_span as_token))))
      else Some (Some expr, p))"

definition parse_cast :: "(sf_parser \<Rightarrow> sf_expr parsed) \<Rightarrow> nat \<Rightarrow> sf_parser \<Rightarrow> sf_expr parsed" where
  "parse_cast pe n p =
     (case parse_unary pe n p of
        None \<Rightarrow> None
      | Some (None, p1) \<Rightarrow> Some (None, p1)
      | Some (Some expr, p1) \<Rightarrow> parse_cast_loop n p1 expr)"

fun parse_binary_loop ::
  "(sf_parser \<Rightarrow> sf_expr parsed) \<Rightarrow> sf_binary_level \<Rightarrow> nat \<Rightarrow> sf_parser \<Rightarrow> sf_expr \<Rightarrow> sf_expr parsed" where
  "parse_binary_loop operand info 0 p left = None"
| "parse_binary_loop operand info (Suc n) p left =
     (if level_has_operator info (tk_type (sf_parser_peek p))
      then (case sf_parser_advance p of (op_token, p1) \<Rightarrow>
             (case operand p1 of
                None \<Rightarrow> None
              | Some (None, p2) \<Rightarrow> Some (None, p2)
              | Some (Some right, p2) \<Rightarrow>
                  (let op = sf_token_to_binary_op op_token
                   in if op = SF_OP_TYPE_UNRESOLVED then Some (None, p2)
                      else (let left1 = sf_new_binary_node left right op (tk_span op_token)
                            in if \<not> bl_chainable info then Some (Some left1, p2)
                               else parse_binary_loop operand info n p2 left1))))
      else Some (Some left, p))"

function parse_binary :: "(sf_parser \<Rightarrow> sf_expr parsed) \<Rightarrow> nat \<Rightarrow> sf_parser \<Rightarrow> nat \<Rightarrow> sf_expr parsed" where
  "parse_binary pe n p level =
     (if SF_BINARY_LEVEL_COUNT \<le> level then parse_cast pe n p
      else (case parse_binary pe n p (level + 1) of
              None \<Rightarrow> None
            | Some (None, p1) \<Rightarrow> Some (None, p1)
            | Some (Some left, p1) \<Rightarrow>
                parse_binary_loop (\<lambda>q. parse_binary pe n q (level + 1)) (k_binary_levels ! level) n p1 left))"
  by pat_completeness auto
termination
  by (relation "measure (\<lambda>(pe, n, p, level). SF_BINARY_LEVEL_COUNT - level)") auto

declare parse_binary.simps [simp del]

fun sf_parse_expression :: "nat \<Rightarrow> sf_parser \<Rightarrow> sf_expr parsed" where
  "sf_parse_expression 0 p = None"
| "sf_parse_expression (Suc n) p = parse_binary (sf_parse_expression n) (Suc n) p 0"

section \<open>The contract of a parsing function\<close>

definition parser_left :: "sf_parser \<Rightarrow> nat" where
  "parser_left p = length (ps_tokens p) - ps_current p"

text \<open>A parsing function started in a given state returns, only moves forward, consumes a token
  when it yields a result (if \<open>strict\<close>), and when it yields none an error was logged or the
  list holds an undefined token, which the lexer reported.\<close>

definition parsed_ok :: "bool \<Rightarrow> sf_parser \<Rightarrow> 'a parsed \<Rightarrow> bool" where
  "parsed_ok strict p r \<longleftrightarrow>
     (case r of
        None \<Rightarrow> False
      | Some (x, p') \<Rightarrow> parser_follows p p' \<and>
          (strict \<and> x \<noteq> None \<longrightarrow> ps_current p < ps_current p') \<and>
          (x = None \<longrightarrow> parser_reported p p'))"

lemma parsed_ok_Some:
  "parsed_ok strict p (Some (Some x, p')) \<longleftrightarrow> parser_follows p p' \<and> (strict \<longrightarrow> ps_current p < ps_current p')"
  "parsed_ok strict p (Some (None, p')) \<longleftrightarrow> parser_follows p p' \<and> parser_reported p p'"
  "\<not> parsed_ok strict p None"
  by (auto simp: parsed_ok_def)

lemma parsed_ok_cases:
  assumes "parsed_ok strict p r"
  obtains (fail) p' where "r = Some (None, p')" "parser_follows p p'" "parser_reported p p'"
  | (ok) x p' where "r = Some (Some x, p')" "parser_follows p p'" "strict \<Longrightarrow> ps_current p < ps_current p'"
proof (cases r)
  case (Some xp)
  obtain x p' where "xp = (x, p')" by (cases xp)
  with assms Some fail ok show ?thesis by (cases x) (auto simp: parsed_ok_def)
qed (use assms in \<open>simp add: parsed_ok_def\<close>)

lemma reported_trans: "parser_follows p q \<Longrightarrow> parser_reported q r \<Longrightarrow> parser_reported p r"
  by (auto simp: parser_reported_def parser_follows_def has_undefined_def)

lemma reported_follows: "parser_reported p q \<Longrightarrow> parser_follows q r \<Longrightarrow> parser_reported p r"
  by (auto simp: parser_reported_def parser_follows_def has_undefined_def)

lemma parsed_ok_after:
  assumes "parser_follows p q" "parsed_ok strict' q r" "strict \<Longrightarrow> ps_current p < ps_current q \<or> strict'"
  shows "parsed_ok strict p r"
  using assms reported_trans parser_follows_trans
  by (auto simp: parsed_ok_def parser_follows_def split: option.splits prod.splits)

lemma parser_left_follows: "parser_follows p q \<Longrightarrow> parser_left q \<le> parser_left p"
  by (auto simp: parser_follows_def parser_left_def)

lemma parser_left_less: "parser_follows p q \<Longrightarrow> ps_current p < ps_current q \<Longrightarrow> parser_left q < parser_left p"
  by (auto simp: parser_follows_def parser_left_def parser_ok_def)

lemma advance_follows:
  assumes "parser_ok p" "tk_type (sf_parser_peek p) \<noteq> SF_TOKEN_TYPE_EOF"
  shows "sf_parser_advance p = (sf_parser_peek p, parser_skip p)" "parser_follows p (parser_skip p)"
    "ps_current p < ps_current (parser_skip p)" "parser_ok (parser_skip p)"
    "parser_left (parser_skip p) < parser_left p"
  using assms parser_skip_follows [OF assms] parser_follows_ok parser_left_less
  by (auto simp: sf_parser_advance_def)

lemma report_unexpected_follows:
  assumes "parser_ok p" "tk_type got = SF_TOKEN_TYPE_UNDEFINED \<Longrightarrow> got \<in> set (ps_tokens p)"
  shows "parser_follows p (sf_parser_report_unexpected p got e)"
    "parser_reported p (sf_parser_report_unexpected p got e)"
  using assms
  by (auto simp: sf_parser_report_unexpected_def parser_error_def parser_follows_def parser_ok_def
      parser_errors_def sf_log_error_count severity_error_le parser_reported_def has_undefined_def)

lemma peek_mem: "parser_ok p \<Longrightarrow> sf_parser_peek p \<in> set (ps_tokens p)"
  by (simp add: peek_in_tokens) (simp add: parser_ok_def)

lemma match_cases:
  assumes "parser_ok p" "type \<noteq> SF_TOKEN_TYPE_EOF"
  obtains (yes) "sf_parser_match p type = (True, parser_skip p)" "tk_type (sf_parser_peek p) = type"
      "parser_follows p (parser_skip p)" "parser_left (parser_skip p) < parser_left p"
  | (no) "sf_parser_match p type = (False, p)" "tk_type (sf_parser_peek p) \<noteq> type"
  using advance_follows [OF assms(1)] assms by (auto simp: sf_parser_match_def)

lemma expect_cases:
  assumes "parser_ok p" "type \<noteq> SF_TOKEN_TYPE_EOF"
  obtains (yes) "sf_parser_expect p type = (True, parser_skip p)" "tk_type (sf_parser_peek p) = type"
      "parser_follows p (parser_skip p)" "ps_current p < ps_current (parser_skip p)"
  | (no) q where "sf_parser_expect p type = (False, q)" "parser_follows p q" "parser_reported p q"
proof (cases rule: match_cases [OF assms])
  case 1
  with yes show ?thesis by (simp add: sf_parser_expect_def)
next
  case 2
  let ?q = "if tk_type (sf_parser_peek p) \<noteq> SF_TOKEN_TYPE_UNDEFINED
    then parser_error p (sf_parser_peek p) [sf_token_type_name type, describe_token (sf_parser_peek p)] else p"
  have "parser_follows p ?q \<and> parser_reported p ?q"
    using assms(1) peek_mem [OF assms(1)]
    by (auto simp: parser_error_def parser_follows_def parser_ok_def
        parser_errors_def sf_log_error_count severity_error_le parser_reported_def has_undefined_def)
  with 2 no [of ?q] show ?thesis by (simp add: sf_parser_expect_def Let_def)
qed

lemma expect_type_cases:
  assumes "parser_ok p"
  obtains (yes) t where "sf_parser_expect_type p e = (Some t, parser_skip p)" "sf_token_to_type (sf_parser_peek p) = t"
      "t \<noteq> SF_VAL_TYPE_UNRESOLVED"
      "parser_follows p (parser_skip p)" "ps_current p < ps_current (parser_skip p)"
  | (no) q where "sf_parser_expect_type p e = (None, q)" "parser_follows p q" "parser_reported p q"
proof (cases "sf_token_to_type (sf_parser_peek p) = SF_VAL_TYPE_UNRESOLVED")
  case True
  with no report_unexpected_follows [OF assms, of "sf_parser_peek p" e] peek_mem [OF assms]
  show ?thesis by (simp add: sf_parser_expect_type_def Let_def)
next
  case False
  then have "tk_type (sf_parser_peek p) \<noteq> SF_TOKEN_TYPE_EOF" by (auto simp: sf_token_to_type_def)
  with False yes advance_follows [OF assms] show ?thesis by (simp add: sf_parser_expect_type_def Let_def)
qed

lemma expect_identifier_cases:
  assumes "parser_ok p"
  obtains (yes) "sf_parser_expect_identifier p e = (Some (sf_parser_peek p), parser_skip p)"
      "tk_type (sf_parser_peek p) = SF_TOKEN_TYPE_IDENTIFIER"
      "parser_follows p (parser_skip p)" "ps_current p < ps_current (parser_skip p)"
  | (no) q where "sf_parser_expect_identifier p e = (None, q)" "parser_follows p q" "parser_reported p q"
proof (cases "tk_type (sf_parser_peek p) = SF_TOKEN_TYPE_IDENTIFIER")
  case False
  with no report_unexpected_follows [OF assms, of "sf_parser_peek p" e] peek_mem [OF assms]
  show ?thesis by (simp add: sf_parser_expect_identifier_def Let_def)
next
  case True
  then have "tk_type (sf_parser_peek p) \<noteq> SF_TOKEN_TYPE_EOF" by simp
  with True yes advance_follows [OF assms] show ?thesis by (simp add: sf_parser_expect_identifier_def Let_def)
qed

lemma reported_recover:
  assumes "parser_follows p q" "parser_reported p q"
  shows "parsed_ok strict p (Some (None, sf_parser_recover_expression q))"
    "parsed_ok strict p (Some (None, sf_parser_recover_statement q))"
  using assms recover_expression_follows recover_statement_follows parser_follows_ok parser_follows_trans
    reported_follows by (metis parsed_ok_Some(2))+

lemma expect_then:
  assumes "parser_ok p" "type \<noteq> SF_TOKEN_TYPE_EOF"
  shows "parsed_ok True p (case sf_parser_expect p type of
      (False, q) \<Rightarrow> Some (None, sf_parser_recover_expression q) | (True, q) \<Rightarrow> Some (Some x, q))"
proof (cases rule: expect_cases [OF assms])
  case 1
  then show ?thesis by (simp add: parsed_ok_Some)
next
  case (2 q)
  then show ?thesis using reported_recover by simp
qed

section \<open>The expression parser keeps the contract\<close>

text \<open>The interface between the layers of the parser: a parsing function that keeps the contract
  in every state with fewer tokens left than the bound.\<close>

locale token_parser =
  fixes parse :: "sf_parser \<Rightarrow> 'a parsed" and bound :: nat
  assumes parse_ok: "parser_ok p \<Longrightarrow> parser_left p < bound \<Longrightarrow> parsed_ok True p (parse p)"
begin

lemma parse_after:
  assumes "parser_ok p" "parser_follows p q" "ps_current p < ps_current q" "parser_left p \<le> bound"
  shows "parsed_ok True q (parse q)"
  using parse_ok parser_follows_ok parser_left_less assms by fastforce

end

locale expression_parser = token_parser parse bound
  for parse :: "sf_parser \<Rightarrow> sf_expr parsed" and bound :: nat
begin

lemma parse_postfix_loop_ok:
  "parser_ok p \<Longrightarrow> parser_left p < n \<Longrightarrow> parsed_ok False p (parse_postfix_loop n p operand)"
proof (induction n p operand rule: parse_postfix_loop.induct)
  case (2 n p operand)
  show ?case
  proof (cases "tk_type (sf_parser_peek p) = SF_TOKEN_TYPE_PLUS_PLUS \<or> tk_type (sf_parser_peek p) = SF_TOKEN_TYPE_MINUS_MINUS")
    case True
    then have "tk_type (sf_parser_peek p) \<noteq> SF_TOKEN_TYPE_EOF" "sf_token_to_postfix_op (sf_parser_peek p) \<noteq> SF_OP_TYPE_UNRESOLVED"
      by (auto simp: sf_token_to_postfix_op_def)
    with True advance_follows [OF "2.prems"(1)] "2.IH" [OF True _ refl] "2.prems"
    show ?thesis by (auto simp: Let_def intro: parsed_ok_after)
  qed (use "2.prems" in \<open>simp add: parsed_ok_Some\<close>)
qed simp

lemma parse_arguments_ok:
  "parser_ok p \<Longrightarrow> parser_left p < bound \<Longrightarrow> parser_left p < n \<Longrightarrow>
   parsed_ok True p (parse_arguments parse n p call)"
proof (induction n arbitrary: p call)
  case (Suc n)
  from parse_ok [OF Suc.prems(1,2)] show ?case
  proof (cases rule: parsed_ok_cases)
    case (fail p')
    then show ?thesis by (simp add: parsed_ok_Some)
  next
    case (ok arg p1)
    have p1: "parser_ok p1" using ok parser_follows_ok by blast
    have "SF_TOKEN_TYPE_COMMA \<noteq> SF_TOKEN_TYPE_EOF" by simp
    from p1 this show ?thesis
    proof (cases rule: match_cases)
      case yes
      then have f: "parser_follows p (parser_skip p1)" "ps_current p < ps_current (parser_skip p1)"
        using ok parser_follows_trans by auto
      have "parser_left (parser_skip p1) < parser_left p" using parser_left_less [OF f] .
      with Suc.IH [of "parser_skip p1" "sf_call_add_argument call arg"] Suc.prems f parser_follows_ok [OF f(1)]
      have "parsed_ok True (parser_skip p1) (parse_arguments parse n (parser_skip p1) (sf_call_add_argument call arg))"
        by simp
      from parsed_ok_after [OF f(1) this] show ?thesis using yes ok by (simp add: Let_def)
    next
      case no
      then show ?thesis using ok by (simp add: Let_def parsed_ok_Some)
    qed
  qed
qed simp

lemma parse_call_ok:
  assumes "parser_ok p" "parser_left p \<le> bound" "parser_left p \<le> n" "tk_type (sf_parser_peek p) = SF_TOKEN_TYPE_LPAREN"
  shows "parsed_ok True p (parse_call parse n p name)"
proof -
  have "tk_type (sf_parser_peek p) \<noteq> SF_TOKEN_TYPE_EOF" using assms(4) by simp
  note adv = advance_follows [OF assms(1) this]
  let ?call = "sf_new_func_call_node (sf_new_identifier_node (tk_value name) (tk_span name)) (tk_span name)"
  let ?args = "if tk_type (sf_parser_peek (parser_skip p)) \<noteq> SF_TOKEN_TYPE_RPAREN
    then parse_arguments parse n (parser_skip p) ?call else Some (Some ?call, parser_skip p)"
  have "parsed_ok False (parser_skip p) ?args"
    using parse_arguments_ok [of "parser_skip p" n ?call] adv assms parsed_ok_after [of "parser_skip p" "parser_skip p" True _ False]
    by (auto simp: parsed_ok_Some)
  then have args: "parsed_ok True p ?args" using parsed_ok_after [OF adv(2)] adv(3) by blast
  have def: "parse_call parse n p name = (case ?args of None \<Rightarrow> None | Some (None, p2) \<Rightarrow> Some (None, p2)
     | Some (Some call, p2) \<Rightarrow> (case sf_parser_expect p2 SF_TOKEN_TYPE_RPAREN of
                (False, p3) \<Rightarrow> Some (None, sf_parser_recover_expression p3)
              | (True, p3) \<Rightarrow> Some (Some call, p3)))"
    using adv(1) by (simp add: parse_call_def Let_def)
  from args show ?thesis
  proof (cases rule: parsed_ok_cases)
    case (fail p')
    then show ?thesis unfolding def by (simp add: parsed_ok_Some)
  next
    case (ok call p2)
    have "parsed_ok True p2 (case sf_parser_expect p2 SF_TOKEN_TYPE_RPAREN of
        (False, q) \<Rightarrow> Some (None, sf_parser_recover_expression q) | (True, q) \<Rightarrow> Some (Some call, q))"
      using ok parser_follows_ok by (intro expect_then) auto
    from parsed_ok_after [OF ok(2) this] show ?thesis unfolding def using ok(1) by simp
  qed
qed

lemma parse_primary_ok:
  assumes "parser_ok p" "parser_left p \<le> bound" "parser_left p \<le> n"
  shows "parsed_ok True p (parse_primary parse n p)"
proof -
  have "SF_TOKEN_TYPE_LPAREN \<noteq> SF_TOKEN_TYPE_EOF" by simp
  from assms(1) this show ?thesis
  proof (cases rule: match_cases)
    case yes
    let ?q = "parser_skip p"
    have f: "parser_follows p ?q" "ps_current p < ps_current ?q" using yes by auto
    have "parsed_ok True ?q (parse ?q)" by (rule parse_after [OF assms(1) f assms(2)])
    then have "parsed_ok True ?q (case parse ?q of None \<Rightarrow> None | Some (None, p2) \<Rightarrow> Some (None, p2)
       | Some (Some expr, p2) \<Rightarrow> (case sf_parser_expect p2 SF_TOKEN_TYPE_RPAREN of
                  (False, p3) \<Rightarrow> Some (None, sf_parser_recover_expression p3)
                | (True, p3) \<Rightarrow> Some (Some expr, p3)))"
    proof (cases rule: parsed_ok_cases)
      case (ok e p2)
      have "parsed_ok True p2 (case sf_parser_expect p2 SF_TOKEN_TYPE_RPAREN of
          (False, q) \<Rightarrow> Some (None, sf_parser_recover_expression q) | (True, q) \<Rightarrow> Some (Some e, q))"
        using ok parser_follows_ok by (intro expect_then) auto
      from parsed_ok_after [OF ok(2) this] show ?thesis using ok by simp
    qed (simp add: parsed_ok_Some)
    from parsed_ok_after [OF f(1) this] yes show ?thesis by (simp add: parse_primary_def)
  next
    case no
    let ?t = "sf_parser_peek p"
    consider "tk_type ?t = SF_TOKEN_TYPE_INTEGER \<or> tk_type ?t = SF_TOKEN_TYPE_KW_TRUE \<or> tk_type ?t = SF_TOKEN_TYPE_KW_FALSE"
      | "tk_type ?t = SF_TOKEN_TYPE_IDENTIFIER"
      | "\<not> (tk_type ?t = SF_TOKEN_TYPE_INTEGER \<or> tk_type ?t = SF_TOKEN_TYPE_KW_TRUE \<or> tk_type ?t = SF_TOKEN_TYPE_KW_FALSE)"
        "tk_type ?t \<noteq> SF_TOKEN_TYPE_IDENTIFIER" by blast
    then show ?thesis
    proof cases
      case 1
      then have "tk_type ?t \<noteq> SF_TOKEN_TYPE_EOF" by auto
      with 1 no advance_follows [OF assms(1)] show ?thesis
        by (simp add: parse_primary_def Let_def parsed_ok_Some)
    next
      case 3
      then show ?thesis
        using no report_unexpected_follows [OF assms(1), of ?t "''an expression''"] peek_mem [OF assms(1)] reported_recover
        by (simp add: parse_primary_def Let_def)
    next
      case ident: 2
      then have "tk_type ?t \<noteq> SF_TOKEN_TYPE_EOF" by simp
      note adv = advance_follows [OF assms(1) this]
      show ?thesis
      proof (cases "tk_type (sf_parser_peek (parser_skip p)) = SF_TOKEN_TYPE_LPAREN")
        case True
        have "parsed_ok True (parser_skip p) (parse_call parse n (parser_skip p) ?t)"
          using adv assms True by (intro parse_call_ok) auto
        from parsed_ok_after [OF adv(2) this] True no ident adv(1) show ?thesis
          by (simp add: parse_primary_def Let_def)
      next
        case False
        with no ident adv show ?thesis by (simp add: parse_primary_def Let_def parsed_ok_Some)
      qed
    qed
  qed
qed

lemma parse_postfix_ok:
  assumes "parser_ok p" "parser_left p \<le> bound" "parser_left p \<le> n"
  shows "parsed_ok True p (parse_postfix parse n p)"
  using parse_primary_ok [OF assms]
proof (cases rule: parsed_ok_cases)
  case (ok operand p1)
  then have "parsed_ok False p1 (parse_postfix_loop n p1 operand)"
    using parse_postfix_loop_ok parser_follows_ok parser_left_less assms(3) by fastforce
  from parsed_ok_after [OF ok(2) this] ok show ?thesis by (simp add: parse_postfix_def)
qed (simp add: parse_postfix_def parsed_ok_Some)

lemma parse_unary_from_ok:
  "parser_ok p \<Longrightarrow> parser_left p \<le> bound \<Longrightarrow> parser_left p \<le> k \<Longrightarrow> parser_left p \<le> n \<Longrightarrow>
   parsed_ok True p (parse_unary_from parse k (Suc n) p)"
proof (induction n arbitrary: p)
  case 0
  then have "parser_left p = 0" by simp
  then show ?case using 0(1) by (simp add: parser_left_def parser_ok_def)
next
  case (Suc n)
  show ?case
  proof (cases "sf_token_to_unary_op (sf_parser_peek p) = SF_OP_TYPE_UNRESOLVED")
    case True
    with parse_postfix_ok Suc.prems show ?thesis by (simp add: Let_def)
  next
    case False
    then have "tk_type (sf_parser_peek p) \<noteq> SF_TOKEN_TYPE_EOF" by (auto simp: sf_token_to_unary_op_def)
    note adv = advance_follows [OF Suc.prems(1) this]
    have "parsed_ok True (parser_skip p) (parse_unary_from parse k (Suc n) (parser_skip p))"
      using Suc.IH adv Suc.prems by simp
    then show ?thesis
    proof (cases rule: parsed_ok_cases)
      case (fail p')
      then show ?thesis
        using False adv parser_follows_trans [OF adv(2)] reported_trans [OF adv(2)]
        by (simp add: Let_def parsed_ok_Some del: parse_unary_from.simps) (simp add: Let_def parsed_ok_Some)
    next
      case (ok e p')
      then show ?thesis
        using False adv parser_follows_trans [OF adv(2)] by (simp add: Let_def parsed_ok_Some)
    qed
  qed
qed

lemma parse_cast_loop_ok:
  "parser_ok p \<Longrightarrow> parser_left p < n \<Longrightarrow> parsed_ok False p (parse_cast_loop n p expr)"
proof (induction n arbitrary: p expr)
  case (Suc n)
  show ?case
  proof (cases "tk_type (sf_parser_peek p) = SF_TOKEN_TYPE_KW_AS")
    case False
    then show ?thesis using Suc.prems by (simp add: parsed_ok_Some)
  next
    case True
    then have "tk_type (sf_parser_peek p) \<noteq> SF_TOKEN_TYPE_EOF" by simp
    note adv = advance_follows [OF Suc.prems(1) this]
    let ?e = "''a type keyword after '' @ quoted ''as''"
    from adv(4) have "parsed_ok True (parser_skip p) (case sf_parser_expect_type (parser_skip p) ?e of
                (None, p2) \<Rightarrow> Some (None, sf_parser_recover_expression p2)
              | (Some target_type, p2) \<Rightarrow>
                  parse_cast_loop n p2 (sf_new_cast_node expr target_type (tk_span (sf_parser_peek p))))"
    proof (cases rule: expect_type_cases [where e = ?e])
      case (yes t)
      let ?q = "parser_skip (parser_skip p)"
      have "parsed_ok False ?q (parse_cast_loop n ?q (sf_new_cast_node expr t (tk_span (sf_parser_peek p))))"
        using Suc.prems(2) adv(5) yes parser_left_less [of "parser_skip p" ?q] parser_follows_ok [of "parser_skip p" ?q]
        by (intro Suc.IH) auto
      from parsed_ok_after [OF yes(4) this] yes show ?thesis by simp
    next
      case (no q)
      then show ?thesis using reported_recover by simp
    qed
    from parsed_ok_after [OF adv(2) this, of False] True adv(1) show ?thesis by simp
  qed
qed simp

lemma parse_cast_ok:
  assumes "parser_ok p" "parser_left p \<le> bound"
  shows "parsed_ok True p (parse_cast parse (Suc bound) p)"
proof -
  have "parsed_ok True p (parse_unary parse (Suc bound) p)"
    unfolding parse_unary_def using assms by (intro parse_unary_from_ok) auto
  then show ?thesis
  proof (cases rule: parsed_ok_cases)
    case (ok e p1)
    then have "parsed_ok False p1 (parse_cast_loop (Suc bound) p1 e)"
      using parser_left_follows [OF ok(2)] assms(2) parser_follows_ok [OF ok(2)]
      by (intro parse_cast_loop_ok) auto
    from parsed_ok_after [OF ok(2) this] ok show ?thesis by (simp add: parse_cast_def)
  qed (simp add: parse_cast_def parsed_ok_Some)
qed

lemma level_operator_resolved:
  assumes "level < SF_BINARY_LEVEL_COUNT" "level_has_operator (k_binary_levels ! level) (tk_type t)"
  shows "tk_type t \<noteq> SF_TOKEN_TYPE_EOF \<and> sf_token_to_binary_op t \<noteq> SF_OP_TYPE_UNRESOLVED"
proof -
  have all: "\<forall>l \<in> set k_binary_levels. \<forall>ty \<in> set (bl_ops l).
      ty \<noteq> SF_TOKEN_TYPE_EOF \<and> token_to_binary_op_type ty \<noteq> SF_OP_TYPE_UNRESOLVED"
    by (simp add: k_binary_levels_def)
  have "k_binary_levels ! level \<in> set k_binary_levels"
    using assms(1) by (simp add: SF_BINARY_LEVEL_COUNT_def)
  from bspec [OF bspec [OF all this] assms(2) [unfolded level_has_operator_def]]
  show ?thesis by (simp add: sf_token_to_binary_op_def)
qed

lemma parse_binary_loop_ok:
  assumes operand: "\<And>q. parser_ok q \<Longrightarrow> parser_left q \<le> bound \<Longrightarrow> parsed_ok True q (operand q)"
    and level: "level < SF_BINARY_LEVEL_COUNT"
  shows "parser_ok p \<Longrightarrow> parser_left p \<le> bound \<Longrightarrow> parser_left p < n \<Longrightarrow>
    parsed_ok False p (parse_binary_loop operand (k_binary_levels ! level) n p left)"
proof (induction n arbitrary: p left)
  case (Suc n)
  let ?t = "sf_parser_peek p"
  show ?case
  proof (cases "level_has_operator (k_binary_levels ! level) (tk_type ?t)")
    case False
    then show ?thesis using Suc.prems by (simp add: parsed_ok_Some)
  next
    case True
    note op = level_operator_resolved [OF level True]
    note adv = advance_follows [OF Suc.prems(1) conjunct1 [OF op]]
    let ?q = "parser_skip p"
    have "parsed_ok True ?q (operand ?q)" using operand adv Suc.prems by simp
    then show ?thesis
    proof (cases rule: parsed_ok_cases)
      case (fail p2)
      then show ?thesis using True adv parser_follows_trans [OF adv(2)] reported_trans [OF adv(2)]
        by (simp add: Let_def parsed_ok_Some)
    next
      case (ok right p2)
      have f: "parser_follows p p2" "ps_current p < ps_current p2"
        using ok(2) parser_follows_trans [OF adv(2)] adv(3) by (auto simp: parser_follows_def)
      let ?left = "sf_new_binary_node left right (sf_token_to_binary_op ?t) (tk_span ?t)"
      have "parsed_ok False p2 (parse_binary_loop operand (k_binary_levels ! level) n p2 ?left)"
        using Suc.IH Suc.prems parser_left_less [OF f] parser_follows_ok [OF f(1)] by simp
      then have "parsed_ok False p (parse_binary_loop operand (k_binary_levels ! level) n p2 ?left)"
        using parsed_ok_after [OF f(1)] by blast
      then show ?thesis using True adv(1) ok(1) op f(1) by (simp add: Let_def parsed_ok_Some)
    qed
  qed
qed simp

lemma parse_binary_ok:
  "parser_ok p \<Longrightarrow> parser_left p \<le> bound \<Longrightarrow> parsed_ok True p (parse_binary parse (Suc bound) p level)"
proof (induction "SF_BINARY_LEVEL_COUNT - level" arbitrary: level p)
  case 0
  then show ?case using parse_cast_ok by (subst parse_binary.simps) simp
next
  case (Suc k)
  then have level: "level < SF_BINARY_LEVEL_COUNT" "k = SF_BINARY_LEVEL_COUNT - (level + 1)" by simp_all
  note next_level = Suc.hyps(1) [OF level(2)]
  have "parsed_ok True p (parse_binary parse (Suc bound) p (level + 1))" using next_level Suc.prems .
  then show ?case
  proof (cases rule: parsed_ok_cases)
    case (fail p')
    then show ?thesis using level(1) by (subst parse_binary.simps) (simp add: parsed_ok_Some)
  next
    case (ok left p1)
    have "parsed_ok False p1 (parse_binary_loop (\<lambda>q. parse_binary parse (Suc bound) q (level + 1))
        (k_binary_levels ! level) (Suc bound) p1 left)"
      using ok(2) parser_left_follows [OF ok(2)] parser_follows_ok [OF ok(2)] Suc.prems(2)
      by (intro parse_binary_loop_ok [OF next_level level(1)]) auto
    from parsed_ok_after [OF ok(2) this] ok level(1) show ?thesis
      by (subst parse_binary.simps) simp
  qed
qed

end

lemma expression_parser_any: "expression_parser (sf_parse_expression n) n"
proof (induction n)
  case 0
  show ?case by unfold_locales simp
next
  case (Suc n)
  show ?case
  proof
    fix p assume "parser_ok p" "parser_left p < Suc n"
    then show "parsed_ok True p (sf_parse_expression (Suc n) p)"
      using expression_parser.parse_binary_ok [OF Suc.IH] by simp
  qed
qed

interpretation expr_parser: expression_parser "sf_parse_expression n" n for n
  by (rule expression_parser_any)

text \<open>The expression parser returns on every token list that ends with the end-of-file token,
  with fuel one more than the number of tokens left: it moves forward inside the list, keeps
  the tokens, consumes at least one token when it yields an expression, and when it yields none
  an error was logged or the list holds an undefined token (reported by the lexer).\<close>

theorem sf_parse_expression_total:
  assumes "parser_ok p" "parser_left p < fuel"
  shows "\<exists>x p'. sf_parse_expression fuel p = Some (x, p') \<and> ps_tokens p' = ps_tokens p \<and>
    ps_current p \<le> ps_current p' \<and> ps_current p' < length (ps_tokens p) \<and>
    (if x = None then g_error_count (ps_log p) < g_error_count (ps_log p') \<or>
        SF_TOKEN_TYPE_UNDEFINED \<in> tk_type ` set (ps_tokens p)
     else ps_current p < ps_current p')"
  using expr_parser.parse_ok [OF assms]
proof (cases rule: parsed_ok_cases)
  case (fail p')
  then show ?thesis
    by (force simp: parser_follows_def parser_ok_def parser_reported_def parser_errors_def has_undefined_def)
next
  case (ok x p')
  then show ?thesis by (auto simp: parser_follows_def parser_ok_def)
qed

lemma sf_parse_expression_total_witness:
  "\<exists>x p'. sf_parse_expression 3 \<lparr>ps_tokens = [make_token SF_TOKEN_TYPE_PLUS sf_span_zero,
        make_token SF_TOKEN_TYPE_EOF sf_span_zero], ps_current = 0, ps_filename = [], ps_log = sf_log_init\<rparr> = Some (x, p') \<and>
    ps_current p' < 2"
  using sf_parse_expression_total [of "\<lparr>ps_tokens = [make_token SF_TOKEN_TYPE_PLUS sf_span_zero,
        make_token SF_TOKEN_TYPE_EOF sf_span_zero], ps_current = 0, ps_filename = [], ps_log = sf_log_init\<rparr>" 3]
  by (auto simp: parser_ok_def parser_left_def make_token_def numeral_2_eq_2 simp del: sf_parse_expression.simps)

end
