(* ===== verification/Parser_Stmt.thy ===== *)
theory Parser_Stmt
  imports Parser_Expr
begin

text \<open>
  The statement parser, \<^verbatim>\<open>frontend/parser/parser_stmt.c\<close>, and the entry \<^verbatim>\<open>sf_parse\<close> of
  \<^verbatim>\<open>frontend/parser/parser.c\<close>. As in the expression parser the recursive call of
  \<^verbatim>\<open>sf_parse_statement\<close> is an argument (\<open>ps\<close>) and fuel bounds the recursion and the loops; the
  entry starts with one unit more than the number of tokens, which is shown to be enough.
\<close>

section \<open>Declarations\<close>

definition report_repeated_qual :: "sf_parser \<Rightarrow> sf_token \<Rightarrow> sf_parser" where
  "report_repeated_qual p token =
     p\<lparr>ps_log := sf_log (Some (ps_filename p)) SF_LOG_PARSER_REPEATED_QUALIFIER (tk_span token)
                   SF_LOG_SEVERITY_WARNING [sf_token_type_name (tk_type token)] (ps_log p)\<rparr>"

function parse_qualifiers_loop :: "sf_parser \<Rightarrow> sf_qualifiers \<Rightarrow> sf_qualifiers \<times> sf_parser" where
  "parse_qualifiers_loop p quals =
     (let token = sf_parser_peek p
      in if parser_at_end p then (quals, p)
         else if tk_type token = SF_TOKEN_TYPE_KW_MUT
         then parse_qualifiers_loop (parser_skip (if is_mutable quals then report_repeated_qual p token else p))
                (quals\<lparr>is_mutable := True\<rparr>)
         else if tk_type token = SF_TOKEN_TYPE_KW_PUB
         then parse_qualifiers_loop (parser_skip (if is_public quals then report_repeated_qual p token else p))
                (quals\<lparr>is_public := True\<rparr>)
         else if tk_type token = SF_TOKEN_TYPE_KW_EXTERN
         then parse_qualifiers_loop (parser_skip (if is_extern quals then report_repeated_qual p token else p))
                (quals\<lparr>is_extern := True\<rparr>)
         else (quals, p))"
  by pat_completeness auto
termination
  by (relation "measure (\<lambda>(p, q). length (ps_tokens p) - ps_current p)")
     (auto dest: parser_not_at_end simp: report_repeated_qual_def)

declare parse_qualifiers_loop.simps [simp del]

definition parse_qualifiers :: "sf_parser \<Rightarrow> sf_qualifiers \<times> sf_parser" where
  "parse_qualifiers p = parse_qualifiers_loop p no_qualifiers"

definition parse_var_decl :: "nat \<Rightarrow> sf_parser \<Rightarrow> sf_qualifiers \<Rightarrow> sf_stmt parsed" where
  "parse_var_decl n p qualifiers =
     (case sf_parser_expect_type p ''a type keyword'' of
        (None, p1) \<Rightarrow> Some (None, sf_parser_recover_statement p1)
      | (Some type, p1) \<Rightarrow>
          (case sf_parser_expect_identifier p1 ''an identifier'' of
             (None, p2) \<Rightarrow> Some (None, sf_parser_recover_statement p2)
           | (Some name_token, p2) \<Rightarrow>
               (case (case sf_parser_match p2 SF_TOKEN_TYPE_EQUAL of
                        (True, p3) \<Rightarrow>
                          (case sf_parse_expression n p3 of
                             None \<Rightarrow> None
                           | Some (None, p4) \<Rightarrow> Some (None, sf_parser_recover_statement p4)
                           | Some (Some value, p4) \<Rightarrow> Some (Some (Some value), p4))
                      | (False, p3) \<Rightarrow> Some (Some None, p3)) of
                  None \<Rightarrow> None
                | Some (None, p4) \<Rightarrow> Some (None, p4)
                | Some (Some value, p4) \<Rightarrow>
                    (case sf_parser_expect p4 SF_TOKEN_TYPE_SEMICOLON of
                       (False, p5) \<Rightarrow> Some (None, sf_parser_recover_statement p5)
                     | (True, p5) \<Rightarrow>
                         Some (Some (sf_new_var_decl_node (tk_value name_token) type value qualifiers
                                       (tk_span name_token)), p5)))))"

fun parse_parameters :: "nat \<Rightarrow> sf_parser \<Rightarrow> sf_stmt \<Rightarrow> sf_stmt parsed" where
  "parse_parameters 0 p func = None"
| "parse_parameters (Suc n) p func =
     (case parse_qualifiers p of (param_qualifiers, p1) \<Rightarrow>
       (case sf_parser_expect_type p1 ''a type name'' of
          (None, p2) \<Rightarrow> Some (None, sf_parser_recover_statement p2)
        | (Some param_type, p2) \<Rightarrow>
            (case sf_parser_expect_identifier p2 ''an identifier'' of
               (None, p3) \<Rightarrow> Some (None, sf_parser_recover_statement p3)
             | (Some param_name_token, p3) \<Rightarrow>
                 (let param = \<lparr>pm_type = param_type, pm_name = tk_value param_name_token, pm_id = 0,
                               pm_qualifiers = param_qualifiers\<rparr>;
                      func1 = sf_function_add_parameter func param
                  in case sf_parser_match p3 SF_TOKEN_TYPE_COMMA of
                       (False, p4) \<Rightarrow> Some (Some func1, p4)
                     | (True, p4) \<Rightarrow> parse_parameters n p4 func1))))"

text \<open>The return type of a declaration: a type name, or nothing before the body or the semicolon.\<close>

definition parse_return_type :: "sf_parser \<Rightarrow> sf_value_type option \<times> sf_parser" where
  "parse_return_type p =
     (let ret_token = sf_parser_peek p
      in if sf_token_is_type ret_token then (Some (sf_token_to_type ret_token), snd (sf_parser_advance p))
         else if tk_type ret_token = SF_TOKEN_TYPE_LBRACE \<or> tk_type ret_token = SF_TOKEN_TYPE_SEMICOLON
         then (Some SF_VAL_TYPE_VOID, p)
         else (None, sf_parser_recover_statement
                       (sf_parser_report_unexpected p ret_token (quoted ''{'' @ '', '' @ quoted '';'' @ '', or type name''))))"

fun func_set_return_type :: "sf_value_type \<Rightarrow> sf_stmt \<Rightarrow> sf_stmt" where
  "func_set_return_type t (SF_NODE_FUNC_DECL b n l q ps _ body) = SF_NODE_FUNC_DECL b n l q ps t body"
| "func_set_return_type t other = other"

fun func_set_body :: "sf_stmt option \<Rightarrow> sf_stmt \<Rightarrow> sf_stmt" where
  "func_set_body body (SF_NODE_FUNC_DECL b n l q ps t _) = SF_NODE_FUNC_DECL b n l q ps t body"
| "func_set_body body other = other"

section \<open>Blocks and control flow\<close>

fun parse_block_loop :: "(sf_parser \<Rightarrow> sf_stmt parsed) \<Rightarrow> nat \<Rightarrow> sf_parser \<Rightarrow> sf_stmt \<Rightarrow> sf_stmt parsed" where
  "parse_block_loop ps 0 p block = None"
| "parse_block_loop ps (Suc n) p block =
     (if tk_type (sf_parser_peek p) \<noteq> SF_TOKEN_TYPE_RBRACE \<and> tk_type (sf_parser_peek p) \<noteq> SF_TOKEN_TYPE_EOF
      then (case ps p of
              None \<Rightarrow> None
            | Some (Some stmt, p1) \<Rightarrow> parse_block_loop ps n p1 (sf_block_add_statement block stmt)
            | Some (None, p1) \<Rightarrow>
                parse_block_loop ps n
                  (if ps_current p1 = ps_current p then snd (sf_parser_advance p1) else p1) block)
      else Some (Some block, p))"

definition parse_block :: "(sf_parser \<Rightarrow> sf_stmt parsed) \<Rightarrow> nat \<Rightarrow> sf_parser \<Rightarrow> sf_stmt parsed" where
  "parse_block ps n p =
     (let block = sf_new_block_node (tk_span (sf_parser_peek p))
      in case sf_parser_expect p SF_TOKEN_TYPE_LBRACE of
           (False, p1) \<Rightarrow> Some (None, sf_parser_recover_statement p1)
         | (True, p1) \<Rightarrow>
             (case parse_block_loop ps n p1 block of
                None \<Rightarrow> None
              | Some (None, p2) \<Rightarrow> Some (None, p2)
              | Some (Some block1, p2) \<Rightarrow>
                  (case sf_parser_expect p2 SF_TOKEN_TYPE_RBRACE of
                     (False, p3) \<Rightarrow> Some (None, sf_parser_recover_statement p3)
                   | (True, p3) \<Rightarrow> Some (Some block1, p3))))"

definition parse_func_decl :: "(sf_parser \<Rightarrow> sf_stmt parsed) \<Rightarrow> nat \<Rightarrow> sf_parser \<Rightarrow> sf_qualifiers \<Rightarrow> sf_stmt parsed" where
  "parse_func_decl ps n p qualifiers =
     (case sf_parser_advance p of (fn_token, p1) \<Rightarrow>
       (case sf_parser_expect_identifier p1 ''a function name'' of
          (None, p2) \<Rightarrow> Some (None, sf_parser_recover_statement p2)
        | (Some name_token, p2) \<Rightarrow>
            (let func = sf_new_func_decl_node (tk_value name_token) SF_VAL_TYPE_UNRESOLVED qualifiers (tk_span fn_token)
             in case sf_parser_expect p2 SF_TOKEN_TYPE_LPAREN of
                  (False, p3) \<Rightarrow> Some (None, sf_parser_recover_statement p3)
                | (True, p3) \<Rightarrow>
                    (case (if tk_type (sf_parser_peek p3) \<noteq> SF_TOKEN_TYPE_RPAREN then parse_parameters n p3 func
                           else Some (Some func, p3)) of
                       None \<Rightarrow> None
                     | Some (None, p4) \<Rightarrow> Some (None, p4)
                     | Some (Some func1, p4) \<Rightarrow>
                         (case sf_parser_expect p4 SF_TOKEN_TYPE_RPAREN of
                            (False, p5) \<Rightarrow> Some (None, sf_parser_recover_statement p5)
                          | (True, p5) \<Rightarrow>
                              (case parse_return_type p5 of
                                 (None, p6) \<Rightarrow> Some (None, p6)
                               | (Some return_type, p6) \<Rightarrow>
                                   (let func2 = func_set_return_type return_type func1;
                                        end_token = sf_parser_peek p6
                                    in if tk_type end_token = SF_TOKEN_TYPE_LBRACE
                                       then (case parse_block ps n p6 of
                                               None \<Rightarrow> None
                                             | Some (None, p7) \<Rightarrow> Some (None, sf_parser_recover_statement p7)
                                             | Some (Some block, p7) \<Rightarrow> Some (Some (func_set_body (Some block) func2), p7))
                                       else if tk_type end_token = SF_TOKEN_TYPE_SEMICOLON
                                       then Some (Some (func_set_body None func2), snd (sf_parser_advance p6))
                                       else Some (None, sf_parser_recover_statement
                                              (sf_parser_report_unexpected p6 end_token
                                                 (quoted ''{'' @ '' or '' @ quoted '';''))))))))))"

definition parse_decl :: "(sf_parser \<Rightarrow> sf_stmt parsed) \<Rightarrow> nat \<Rightarrow> sf_parser \<Rightarrow> sf_stmt parsed" where
  "parse_decl ps n p =
     (case parse_qualifiers p of (quals, p1) \<Rightarrow>
       (let token = sf_parser_peek p1
        in if sf_token_is_fn token then parse_func_decl ps n p1 quals
           else if sf_token_is_type token then parse_var_decl n p1 quals
           else Some (None, sf_parser_recover_statement (sf_parser_report_unexpected p1 token ''a declaration''))))"

definition parse_expr_stmt :: "nat \<Rightarrow> sf_parser \<Rightarrow> sf_stmt parsed" where
  "parse_expr_stmt n p =
     (case sf_parse_expression n p of
        None \<Rightarrow> None
      | Some (None, p1) \<Rightarrow> Some (None, sf_parser_recover_statement p1)
      | Some (Some expr, p1) \<Rightarrow>
          (case sf_parser_expect p1 SF_TOKEN_TYPE_SEMICOLON of
             (False, p2) \<Rightarrow> Some (None, sf_parser_recover_statement p2)
           | (True, p2) \<Rightarrow> Some (Some (SF_STMT_EXPR expr), p2)))"

definition parse_var_assign :: "nat \<Rightarrow> sf_parser \<Rightarrow> sf_stmt parsed" where
  "parse_var_assign n p =
     (case sf_parser_advance p of (name_token, p1) \<Rightarrow>
       (case sf_parser_advance p1 of (op_token, p2) \<Rightarrow>
         (case sf_parse_expression n p2 of
            None \<Rightarrow> None
          | Some (None, p3) \<Rightarrow> Some (None, sf_parser_recover_statement p3)
          | Some (Some rhs, p3) \<Rightarrow>
              (let op = sf_token_to_binary_op op_token;
                   lhs_ref = sf_new_identifier_node (tk_value name_token) (tk_span name_token)
               in if tk_type op_token \<noteq> SF_TOKEN_TYPE_EQUAL \<and> op = SF_OP_TYPE_UNRESOLVED then Some (None, p3)
                  else (let value = (if tk_type op_token \<noteq> SF_TOKEN_TYPE_EQUAL
                                     then sf_new_binary_node lhs_ref rhs op (tk_span op_token) else rhs)
                        in case sf_parser_expect p3 SF_TOKEN_TYPE_SEMICOLON of
                             (False, p4) \<Rightarrow> Some (None, sf_parser_recover_statement p4)
                           | (True, p4) \<Rightarrow>
                               Some (Some (sf_new_var_assign_node (tk_value name_token) value (tk_span name_token)), p4))))))"

fun parse_if :: "(sf_parser \<Rightarrow> sf_stmt parsed) \<Rightarrow> nat \<Rightarrow> nat \<Rightarrow> sf_parser \<Rightarrow> sf_stmt parsed" where
  "parse_if ps n 0 p = None"
| "parse_if ps n (Suc k) p =
     (case sf_parser_advance p of (token, p1) \<Rightarrow>
       (case sf_parse_expression n p1 of
          None \<Rightarrow> None
        | Some (None, p2) \<Rightarrow> Some (None, sf_parser_recover_statement p2)
        | Some (Some condition, p2) \<Rightarrow>
            (case parse_block ps n p2 of
               None \<Rightarrow> None
             | Some (None, p3) \<Rightarrow> Some (None, sf_parser_recover_statement p3)
             | Some (Some branch_then, p3) \<Rightarrow>
                 (case sf_parser_match p3 SF_TOKEN_TYPE_KW_ELSE of
                    (False, p4) \<Rightarrow> Some (Some (sf_new_if_node condition branch_then None (tk_span token)), p4)
                  | (True, p4) \<Rightarrow>
                      (case (if tk_type (sf_parser_peek p4) = SF_TOKEN_TYPE_KW_IF then parse_if ps n k p4
                             else parse_block ps n p4) of
                         None \<Rightarrow> None
                       | Some (None, p5) \<Rightarrow> Some (None, sf_parser_recover_statement p5)
                       | Some (Some branch_else, p5) \<Rightarrow>
                           Some (Some (sf_new_if_node condition branch_then (Some branch_else) (tk_span token)), p5))))))"

definition parse_while :: "(sf_parser \<Rightarrow> sf_stmt parsed) \<Rightarrow> nat \<Rightarrow> sf_parser \<Rightarrow> sf_stmt parsed" where
  "parse_while ps n p =
     (case sf_parser_advance p of (token, p1) \<Rightarrow>
       (case sf_parse_expression n p1 of
          None \<Rightarrow> None
        | Some (None, p2) \<Rightarrow> Some (None, sf_parser_recover_statement p2)
        | Some (Some condition, p2) \<Rightarrow>
            (case parse_block ps n p2 of
               None \<Rightarrow> None
             | Some (None, p3) \<Rightarrow> Some (None, sf_parser_recover_statement p3)
             | Some (Some branch_do, p3) \<Rightarrow>
                 Some (Some (sf_new_while_node condition branch_do (tk_span token)), p3))))"

definition parse_return :: "nat \<Rightarrow> sf_parser \<Rightarrow> sf_stmt parsed" where
  "parse_return n p =
     (case sf_parser_advance p of (token, p1) \<Rightarrow>
       (case (if tk_type (sf_parser_peek p1) \<noteq> SF_TOKEN_TYPE_SEMICOLON
              then (case sf_parse_expression n p1 of
                      None \<Rightarrow> None
                    | Some (None, p2) \<Rightarrow> Some (None, sf_parser_recover_statement p2)
                    | Some (Some value, p2) \<Rightarrow> Some (Some (Some value), p2))
              else Some (Some None, p1)) of
          None \<Rightarrow> None
        | Some (None, p2) \<Rightarrow> Some (None, p2)
        | Some (Some value, p2) \<Rightarrow>
            (case sf_parser_expect p2 SF_TOKEN_TYPE_SEMICOLON of
               (False, p3) \<Rightarrow> Some (None, sf_parser_recover_statement p3)
             | (True, p3) \<Rightarrow> Some (Some (sf_new_return_node value (tk_span token)), p3))))"

definition parse_statement :: "(sf_parser \<Rightarrow> sf_stmt parsed) \<Rightarrow> nat \<Rightarrow> sf_parser \<Rightarrow> sf_stmt parsed" where
  "parse_statement ps n p =
     (let token = sf_parser_peek p
      in if sf_token_is_type token \<or> sf_token_is_fn token \<or> sf_token_is_qual token then parse_decl ps n p
         else if sf_token_is_ident token \<and> sf_token_is_assign (sf_parser_peek_next p) then parse_var_assign n p
         else if sf_token_is_block token then parse_block ps n p
         else if sf_token_is_if token then parse_if ps n n p
         else if sf_token_is_while token then parse_while ps n p
         else if sf_token_is_return token then parse_return n p
         else parse_expr_stmt n p)"

fun sf_parse_statement :: "nat \<Rightarrow> sf_parser \<Rightarrow> sf_stmt parsed" where
  "sf_parse_statement 0 p = None"
| "sf_parse_statement (Suc n) p = parse_statement (sf_parse_statement n) (Suc n) p"

section \<open>The top level\<close>

datatype top_level_node = Top_Import sf_import_node | Top_Stmt sf_stmt

abbreviation IMPORT_PATH_SIZE :: nat where "IMPORT_PATH_SIZE \<equiv> 512"

fun parse_import_path :: "nat \<Rightarrow> sf_parser \<Rightarrow> string \<Rightarrow> bool \<Rightarrow> string parsed" where
  "parse_import_path 0 p path expect_identifier = None"
| "parse_import_path (Suc n) p path expect_identifier =
     (let token = sf_parser_peek p
      in if tk_type token = SF_TOKEN_TYPE_SEMICOLON
         then (if expect_identifier then Some (None, sf_parser_report_unexpected p token ''identifier'')
               else Some (Some path, snd (sf_parser_advance p)))
         else if expect_identifier
         then (if tk_type token \<noteq> SF_TOKEN_TYPE_IDENTIFIER
               then Some (None, sf_parser_report_unexpected p token ''identifier'')
               else (case sf_parser_advance p of (token1, p1) \<Rightarrow>
                      (if IMPORT_PATH_SIZE \<le> length path + length (tk_value token1) then Some (None, p1)
                       else parse_import_path n p1 (path @ tk_value token1) False)))
         else (if tk_type token \<noteq> SF_TOKEN_TYPE_DOT
               then Some (None, sf_parser_report_unexpected p token (quoted ''.'' @ '' or '' @ quoted '';''))
               else (case sf_parser_advance p of (token1, p1) \<Rightarrow>
                      (if IMPORT_PATH_SIZE \<le> length path + 1 then Some (None, p1)
                       else parse_import_path n p1 (path @ ''/'') True))))"

definition parse_import :: "nat \<Rightarrow> sf_parser \<Rightarrow> sf_import_node parsed" where
  "parse_import n p =
     (let token_import = sf_parser_peek p
      in case sf_parser_expect p SF_TOKEN_TYPE_KW_IMPORT of
           (False, p1) \<Rightarrow> Some (None, p1)
         | (True, p1) \<Rightarrow>
             (case parse_import_path n p1 [] True of
                None \<Rightarrow> None
              | Some (None, p2) \<Rightarrow> Some (None, p2)
              | Some (Some path, p2) \<Rightarrow>
                  if IMPORT_PATH_SIZE \<le> length path + length ''.slfr'' then Some (None, p2)
                  else Some (Some (sf_new_import_node (path @ ''.slfr'') (tk_span token_import)), p2)))"

definition sf_parse_top_level :: "nat \<Rightarrow> sf_parser \<Rightarrow> top_level_node parsed" where
  "sf_parse_top_level n p =
     (let token = sf_parser_peek p
      in if sf_token_is_fn token \<or> sf_token_is_qual token
         then (case parse_decl (sf_parse_statement n) n p of
                 None \<Rightarrow> None
               | Some (None, p1) \<Rightarrow> Some (None, sf_parser_recover_top_level p1)
               | Some (Some node, p1) \<Rightarrow> Some (Some (Top_Stmt node), p1))
         else if sf_token_is_import token
         then (case parse_import n p of
                 None \<Rightarrow> None
               | Some (None, p1) \<Rightarrow> Some (None, sf_parser_recover_top_level p1)
               | Some (Some node, p1) \<Rightarrow> Some (Some (Top_Import node), p1))
         else Some (None, sf_parser_recover_top_level (parser_error p token [])))"

fun parse_program_loop :: "nat \<Rightarrow> sf_parser \<Rightarrow> sf_program_node \<Rightarrow> (sf_program_node \<times> sf_parser) option" where
  "parse_program_loop 0 p program = None"
| "parse_program_loop (Suc n) p program =
     (if tk_type (sf_parser_peek p) \<noteq> SF_TOKEN_TYPE_EOF
      then (case sf_parse_top_level n p of
              None \<Rightarrow> None
            | Some (Some (Top_Import node), p1) \<Rightarrow> parse_program_loop n p1 (sf_program_add_import program node)
            | Some (Some (Top_Stmt node), p1) \<Rightarrow> parse_program_loop n p1 (sf_program_add_statement program node)
            | Some (None, p1) \<Rightarrow>
                parse_program_loop n
                  (if ps_current p1 = ps_current p then snd (sf_parser_advance p1) else p1) program)
      else Some (program, p))"

definition sf_parse :: "sf_token list \<Rightarrow> string \<Rightarrow> sf_log_state \<Rightarrow> (sf_program_node \<times> sf_log_state) option" where
  "sf_parse list filename g =
     (if list = [] then Some (sf_new_program_node, g)
      else map_option (\<lambda>(program, p). (program, ps_log p))
             (parse_program_loop (length list + 2)
                \<lparr>ps_tokens = list, ps_current = 0, ps_filename = filename, ps_log = g\<rparr> sf_new_program_node))"

section \<open>The statement parser keeps the contract\<close>

subsection \<open>Rules for the sequencing patterns\<close>

lemma parsed_bind:
  assumes "parsed_ok s p r" "\<And>q. parser_ok q \<Longrightarrow> parser_follows q (rec q)"
    and "\<And>x q. parser_follows p q \<Longrightarrow> (s \<Longrightarrow> ps_current p < ps_current q) \<Longrightarrow> parsed_ok s' q (f x q)"
    and "t \<Longrightarrow> s \<or> s'"
  shows "parsed_ok t p (case r of None \<Rightarrow> None | Some (None, q) \<Rightarrow> Some (None, rec q) | Some (Some x, q) \<Rightarrow> f x q)"
  using assms(1)
proof (cases rule: parsed_ok_cases)
  case (fail q)
  then show ?thesis
    using assms(2) [of q] parser_follows_ok parser_follows_trans reported_follows by (simp add: parsed_ok_Some)
next
  case (ok x q)
  have "parsed_ok t p (f x q)"
    by (rule parsed_ok_after [OF ok(2) assms(3) [OF ok(2,3)]]) (use ok assms(4) in auto)
  with ok show ?thesis by simp
qed

lemma expect_bind:
  assumes "parser_ok p" "type \<noteq> SF_TOKEN_TYPE_EOF" "\<And>q. parser_ok q \<Longrightarrow> parser_follows q (rec q)"
    and "\<And>q. parser_follows p q \<Longrightarrow> ps_current p < ps_current q \<Longrightarrow> parsed_ok s' q (f q)"
  shows "parsed_ok t p (case sf_parser_expect p type of (False, q) \<Rightarrow> Some (None, rec q) | (True, q) \<Rightarrow> f q)"
  using assms(1,2)
proof (cases rule: expect_cases)
  case yes
  from parsed_ok_after [OF yes(3) assms(4) [OF yes(3,4)]] yes show ?thesis by simp
next
  case (no q)
  then show ?thesis
    using assms(3) [of q] parser_follows_ok parser_follows_trans reported_follows by (simp add: parsed_ok_Some)
qed

lemma expect_type_bind:
  assumes "parser_ok p" "\<And>q. parser_ok q \<Longrightarrow> parser_follows q (rec q)"
    and "\<And>x q. parser_follows p q \<Longrightarrow> ps_current p < ps_current q \<Longrightarrow> parsed_ok s' q (f x q)"
  shows "parsed_ok t p (case sf_parser_expect_type p e of (None, q) \<Rightarrow> Some (None, rec q) | (Some x, q) \<Rightarrow> f x q)"
  using assms(1)
proof (cases rule: expect_type_cases [where e = e])
  case (yes x)
  from parsed_ok_after [OF yes(4) assms(3) [OF yes(4,5)]] yes show ?thesis by simp
next
  case (no q)
  then show ?thesis
    using assms(2) [of q] parser_follows_ok parser_follows_trans reported_follows by (simp add: parsed_ok_Some)
qed

lemma expect_identifier_bind:
  assumes "parser_ok p" "\<And>q. parser_ok q \<Longrightarrow> parser_follows q (rec q)"
    and "\<And>x q. parser_follows p q \<Longrightarrow> ps_current p < ps_current q \<Longrightarrow> parsed_ok s' q (f x q)"
  shows "parsed_ok t p (case sf_parser_expect_identifier p e of (None, q) \<Rightarrow> Some (None, rec q) | (Some x, q) \<Rightarrow> f x q)"
  using assms(1)
proof (cases rule: expect_identifier_cases [where e = e])
  case yes
  from parsed_ok_after [OF yes(3) assms(3) [OF yes(3,4)]] yes show ?thesis by simp
next
  case (no q)
  then show ?thesis
    using assms(2) [of q] parser_follows_ok parser_follows_trans reported_follows by (simp add: parsed_ok_Some)
qed

lemma match_bind:
  assumes "parser_ok p" "type \<noteq> SF_TOKEN_TYPE_EOF"
    and "\<And>q. parser_follows p q \<Longrightarrow> ps_current p < ps_current q \<Longrightarrow> parsed_ok s' q (f q)"
    and "tk_type (sf_parser_peek p) \<noteq> type \<Longrightarrow> parsed_ok t p (h p)" "t \<Longrightarrow> True"
  shows "parsed_ok t p (case sf_parser_match p type of (True, q) \<Rightarrow> f q | (False, q) \<Rightarrow> h q)"
  using assms(1,2)
proof (cases rule: match_cases)
  case yes
  have "ps_current p < ps_current (parser_skip p)" by simp
  from parsed_ok_after [OF yes(3) assms(3) [OF yes(3) this]] yes show ?thesis by simp
next
  case no
  then show ?thesis using assms(4) by simp
qed

lemma advance_bind:
  assumes "parser_ok p" "tk_type (sf_parser_peek p) \<noteq> SF_TOKEN_TYPE_EOF"
    and "\<And>q. q = parser_skip p \<Longrightarrow> parser_follows p q \<Longrightarrow> ps_current p < ps_current q \<Longrightarrow> parsed_ok s' q (f (sf_parser_peek p) q)"
  shows "parsed_ok t p (case sf_parser_advance p of (x, q) \<Rightarrow> f x q)"
  using parsed_ok_after [OF advance_follows(2) [OF assms(1,2)] assms(3)]
    advance_follows [OF assms(1,2)] by simp

lemma parsed_result:
  "parser_ok q \<Longrightarrow> parsed_ok False q (Some (Some x, q))"
  by (simp add: parsed_ok_Some)

lemma parsed_weaken: "parsed_ok True p r \<Longrightarrow> parsed_ok s p r"
  by (auto simp: parsed_ok_def split: option.splits)

lemma skip_id_follows: "parser_ok q \<Longrightarrow> parser_follows q q"
  by simp

lemma unexpected_ok:
  assumes "parser_ok p"
  shows "parsed_ok s p (Some (None, sf_parser_report_unexpected p (sf_parser_peek p) e))"
    "parsed_ok s p (Some (None, sf_parser_recover_statement (sf_parser_report_unexpected p (sf_parser_peek p) e)))"
  using report_unexpected_follows [OF assms, of "sf_parser_peek p" e] peek_mem [OF assms] reported_recover
  by (auto simp: parsed_ok_Some)

lemma parse_qualifiers_follows:
  assumes "parser_ok p" "parse_qualifiers_loop p quals = (quals', p')"
  shows "parser_follows p p'" "\<not> parser_at_end p \<Longrightarrow> sf_token_is_qual (sf_parser_peek p) \<Longrightarrow> ps_current p < ps_current p'"
proof -
  have "parser_follows p p' \<and> (\<not> parser_at_end p \<and> sf_token_is_qual (sf_parser_peek p) \<longrightarrow> ps_current p < ps_current p')"
    using assms
  proof (induction "length (ps_tokens p) - ps_current p" arbitrary: p quals rule: less_induct)
    case less
    have step: "parser_follows p p' \<and> ps_current p < ps_current p'"
      if "\<not> parser_at_end p" "q = p \<or> q = report_repeated_qual p t" "parse_qualifiers_loop (parser_skip q) quals1 = (quals', p')"
      for q t quals1
    proof -
      have "parser_follows p (parser_skip p)"
        using that(1) less.prems(1) parser_skip_follows by (simp add: parser_at_end_ok)
      then have f: "parser_follows p (parser_skip q)" "ps_current p < ps_current (parser_skip q)"
        using that(2) by (auto simp: parser_follows_def parser_ok_def parser_errors_def report_repeated_qual_def
          parser_skip_def sf_log_warning_count less_sf_log_severity_def)
      have "length (ps_tokens (parser_skip q)) - ps_current (parser_skip q) < length (ps_tokens p) - ps_current p"
        using that(2) parser_not_at_end [OF that(1)] by (auto simp: report_repeated_qual_def)
      from less.hyps [OF this parser_follows_ok [OF f(1)] that(3)] f
      show ?thesis using parser_follows_trans by (auto simp: parser_follows_def)
    qed
    show ?case
    proof (cases "parser_at_end p")
      case True
      with less.prems show ?thesis by (subst (asm) parse_qualifiers_loop.simps) simp
    next
      case False
      then show ?thesis
        using less.prems(2) [unfolded parse_qualifiers_loop.simps [of p quals] Let_def] less.prems(1) step [OF False]
        by (auto simp: sf_token_is_qual_def split: if_splits)
    qed
  qed
  then show "parser_follows p p'" "\<not> parser_at_end p \<Longrightarrow> sf_token_is_qual (sf_parser_peek p) \<Longrightarrow> ps_current p < ps_current p'"
    by auto
qed

subsection \<open>The same rules with a bound on the tokens left\<close>

definition parser_in :: "nat \<Rightarrow> sf_parser \<Rightarrow> bool" where
  "parser_in b p \<longleftrightarrow> parser_ok p \<and> parser_left p \<le> b"

lemma parser_in_follows: "parser_in b p \<Longrightarrow> parser_follows p q \<Longrightarrow> parser_in b q"
  using parser_left_follows parser_follows_ok by (fastforce simp: parser_in_def)

lemma parser_in_less: "parser_in b p \<Longrightarrow> parser_follows p q \<Longrightarrow> ps_current p < ps_current q \<Longrightarrow> parser_left q < b"
  using parser_left_less by (fastforce simp: parser_in_def)

lemma in_bind:
  assumes "parsed_ok s p r" "parser_in b p" "\<And>q. parser_ok q \<Longrightarrow> parser_follows q (rec q)"
    and "\<And>x q. parser_in b q \<Longrightarrow> (s \<Longrightarrow> parser_left q < b) \<Longrightarrow> parsed_ok False q (f x q)" "t \<Longrightarrow> s"
  shows "parsed_ok t p (case r of None \<Rightarrow> None | Some (None, q) \<Rightarrow> Some (None, rec q) | Some (Some x, q) \<Rightarrow> f x q)"
  by (rule parsed_bind [OF assms(1,3), where s' = False])
     (use assms(4,5) parser_in_follows [OF assms(2)] parser_in_less [OF assms(2)] in auto)

lemma in_expect:
  assumes "parser_in b p" "type \<noteq> SF_TOKEN_TYPE_EOF" "\<And>q. parser_ok q \<Longrightarrow> parser_follows q (rec q)"
    and "\<And>q. parser_in b q \<Longrightarrow> parser_left q < b \<Longrightarrow> parsed_ok False q (f q)"
  shows "parsed_ok t p (case sf_parser_expect p type of (False, q) \<Rightarrow> Some (None, rec q) | (True, q) \<Rightarrow> f q)"
  by (rule expect_bind [OF _ assms(2,3), where s' = False])
     (use assms(1,4) parser_in_follows [OF assms(1)] parser_in_less [OF assms(1)] in \<open>auto simp: parser_in_def\<close>)

lemma in_expect_type:
  assumes "parser_in b p" "\<And>q. parser_ok q \<Longrightarrow> parser_follows q (rec q)"
    and "\<And>x q. parser_in b q \<Longrightarrow> parser_left q < b \<Longrightarrow> parsed_ok False q (f x q)"
  shows "parsed_ok t p (case sf_parser_expect_type p e of (None, q) \<Rightarrow> Some (None, rec q) | (Some x, q) \<Rightarrow> f x q)"
  by (rule expect_type_bind [OF _ assms(2), where s' = False])
     (use assms(1,3) parser_in_follows [OF assms(1)] parser_in_less [OF assms(1)] in \<open>auto simp: parser_in_def\<close>)

lemma in_expect_identifier:
  assumes "parser_in b p" "\<And>q. parser_ok q \<Longrightarrow> parser_follows q (rec q)"
    and "\<And>x q. parser_in b q \<Longrightarrow> parser_left q < b \<Longrightarrow> parsed_ok False q (f x q)"
  shows "parsed_ok t p (case sf_parser_expect_identifier p e of (None, q) \<Rightarrow> Some (None, rec q) | (Some x, q) \<Rightarrow> f x q)"
  by (rule expect_identifier_bind [OF _ assms(2), where s' = False])
     (use assms(1,3) parser_in_follows [OF assms(1)] parser_in_less [OF assms(1)] in \<open>auto simp: parser_in_def\<close>)

lemma in_match:
  assumes "parser_in b p" "type \<noteq> SF_TOKEN_TYPE_EOF"
    and "\<And>q. parser_in b q \<Longrightarrow> parser_left q < b \<Longrightarrow> parsed_ok False q (f q)" "parsed_ok t p (h p)"
  shows "parsed_ok t p (case sf_parser_match p type of (True, q) \<Rightarrow> f q | (False, q) \<Rightarrow> h q)"
  by (rule match_bind [OF _ assms(2), where s' = False])
     (use assms(1,3,4) parser_in_follows [OF assms(1)] parser_in_less [OF assms(1)] in \<open>auto simp: parser_in_def\<close>)

lemma in_advance:
  assumes "parser_in b p" "tk_type (sf_parser_peek p) \<noteq> SF_TOKEN_TYPE_EOF"
    and "\<And>x q. x = sf_parser_peek p \<Longrightarrow> q = parser_skip p \<Longrightarrow> parser_in b q \<Longrightarrow> parser_left q < b \<Longrightarrow>
      parsed_ok False q (f x q)"
  shows "parsed_ok t p (case sf_parser_advance p of (x, q) \<Rightarrow> f x q)"
  by (rule advance_bind [OF _ assms(2), where s' = False])
     (use assms(1,3) parser_in_follows [OF assms(1)] parser_in_less [OF assms(1)] in \<open>auto simp: parser_in_def\<close>)

lemma in_result: "parser_in b q \<Longrightarrow> parsed_ok False q (Some (Some x, q))"
  by (simp add: parsed_ok_Some parser_in_def)

lemma in_expression: "parser_in b p \<Longrightarrow> parsed_ok True p (sf_parse_expression (Suc b) p)"
  by (rule expr_parser.parse_ok) (auto simp: parser_in_def)

lemma in_skip_result:
  "parser_in b p \<Longrightarrow> tk_type (sf_parser_peek p) \<noteq> SF_TOKEN_TYPE_EOF \<Longrightarrow>
   parsed_ok t p (Some (Some x, snd (sf_parser_advance p)))"
  using advance_follows [of p] by (simp add: parser_in_def parsed_ok_Some)

lemmas in_rules = in_bind in_expect in_expect_type in_expect_identifier in_match in_advance in_result
  recover_statement_follows skip_id_follows

lemma parse_var_decl_ok:
  assumes "parser_in b p"
  shows "parsed_ok True p (parse_var_decl (Suc b) p quals)"
  unfolding parse_var_decl_def Let_def
  apply (rule in_expect_type [OF assms recover_statement_follows], assumption)
  apply (rule in_expect_identifier [OF _ recover_statement_follows], assumption, assumption)
  apply (rule in_bind [where s = False and rec = "\<lambda>q. q"], rule in_match, assumption, simp)
       apply (rule in_bind [OF in_expression])
           apply (assumption | rule recover_statement_follows in_result in_expect skip_id_follows | simp)+
  done

end
