(* ===== verification/Parser_Facts.thy ===== *)
theory Parser_Facts
  imports Parser_Stmt
begin

text \<open>
  The statement parser and the entry of the parser are total: with the fuel the entry starts
  with, every list of tokens that ends with the end-of-file token yields a program. A statement
  that cannot be parsed is reported.
\<close>

section \<open>Statements\<close>

lemma parse_parameters_ok:
  "parser_in b p \<Longrightarrow> parser_left p < n \<Longrightarrow> parsed_ok False p (parse_parameters n p func)"
proof (induction n arbitrary: p func)
  case (Suc n)
  obtain quals p1 where q: "parse_qualifiers p = (quals, p1)" by fastforce
  have f: "parser_follows p p1"
    using parse_qualifiers_follows(1) [of p no_qualifiers quals p1] q Suc.prems(1) by (simp add: parse_qualifiers_def parser_in_def)
  let ?b = "parser_left p1"
  have in1: "parser_in ?b p1" "?b \<le> n"
    using Suc.prems parser_left_follows [OF f] parser_follows_ok [OF f] by (auto simp: parser_in_def)
  have rest: "parsed_ok False q (parse_parameters n q func')" if "parser_in ?b q" "parser_left q < ?b" for q func'
    using that in1(2) Suc.prems(1) parser_left_follows [OF f]
    by (intro Suc.IH) (auto simp: parser_in_def)
  have "parsed_ok False p1 (case sf_parser_expect_type p1 ''a type name'' of
          (None, p2) \<Rightarrow> Some (None, sf_parser_recover_statement p2)
        | (Some param_type, p2) \<Rightarrow>
            (case sf_parser_expect_identifier p2 ''an identifier'' of
               (None, p3) \<Rightarrow> Some (None, sf_parser_recover_statement p3)
             | (Some param_name_token, p3) \<Rightarrow>
                 (let param = \<lparr>pm_type = param_type, pm_name = tk_value param_name_token, pm_id = 0,
                               pm_qualifiers = quals\<rparr>;
                      func1 = sf_function_add_parameter func param
                  in case sf_parser_match p3 SF_TOKEN_TYPE_COMMA of
                       (False, p4) \<Rightarrow> Some (Some func1, p4)
                     | (True, p4) \<Rightarrow> parse_parameters n p4 func1)))"
    unfolding Let_def
    apply (rule in_expect_type [OF in1(1) recover_statement_follows], assumption)
    apply (rule in_expect_identifier [OF _ recover_statement_follows], assumption, assumption)
    apply (rule in_match, assumption, simp, rule rest, assumption, assumption, rule in_result, assumption)
    done
  from parsed_ok_after [OF f this] q show ?case by simp
qed simp

lemma parse_return_type_cases:
  assumes "parser_in b p"
  obtains t q where "parse_return_type p = (Some t, q)" "parser_in b q" "parser_follows p q"
  | q where "parse_return_type p = (None, q)" "parser_follows p q" "parser_reported p q"
proof -
  have ok: "parser_ok p" using assms by (simp add: parser_in_def)
  show ?thesis
  proof (cases "sf_token_is_type (sf_parser_peek p)")
    case True
    then have "tk_type (sf_parser_peek p) \<noteq> SF_TOKEN_TYPE_EOF" by (auto simp: sf_token_is_type_def)
    note adv = advance_follows [OF ok this]
    from that(1) [of _ "parser_skip p"] True adv parser_in_follows [OF assms adv(2)] show ?thesis
      by (simp add: parse_return_type_def Let_def)
  next
    case False
    show ?thesis
    proof (cases "tk_type (sf_parser_peek p) = SF_TOKEN_TYPE_LBRACE \<or> tk_type (sf_parser_peek p) = SF_TOKEN_TYPE_SEMICOLON")
      case True
      with that(1) [of SF_VAL_TYPE_VOID p] False assms ok show ?thesis by (simp add: parse_return_type_def Let_def)
    next
      case other: False
      let ?e = "quoted ''{'' @ '', '' @ quoted '';'' @ '', or type name''"
      have "parsed_ok False p (Some (None :: unit option, sf_parser_recover_statement (sf_parser_report_unexpected p (sf_parser_peek p) ?e)))"
        using unexpected_ok(2) [OF ok] .
      with that(2) False other show ?thesis by (simp add: parse_return_type_def Let_def parsed_ok_Some)
    qed
  qed
qed

lemma parse_expr_stmt_ok:
  assumes "parser_in b p"
  shows "parsed_ok True p (parse_expr_stmt (Suc b) p)"
  unfolding parse_expr_stmt_def
  apply (rule in_bind [OF in_expression [OF assms] assms recover_statement_follows], assumption)
   apply (assumption | rule recover_statement_follows in_result in_expect | simp)+
  done

lemma parse_return_ok:
  assumes "parser_in b p" "sf_token_is_return (sf_parser_peek p)"
  shows "parsed_ok True p (parse_return (Suc b) p)"
  unfolding parse_return_def
  apply (rule in_advance [OF assms(1)], use assms(2) in \<open>simp add: sf_token_is_return_def\<close>)
  apply (rule in_bind [where s = False and rec = "\<lambda>q. q"])
      apply (rule if_split [THEN iffD2], intro conjI impI)
       apply (rule in_bind [OF in_expression])
           apply (assumption | rule recover_statement_follows in_result in_expect skip_id_follows | simp)+
  done

lemma parse_var_assign_ok:
  assumes "parser_in b p" "sf_token_is_ident (sf_parser_peek p)" "sf_token_is_assign (sf_parser_peek_next p)"
  shows "parsed_ok True p (parse_var_assign (Suc b) p)"
proof -
  have peek: "sf_parser_peek (parser_skip p) = sf_parser_peek_next p"
    by (simp add: sf_parser_peek_def sf_parser_peek_next_def peek_at_def)
  have ne: "tk_type (sf_parser_peek_next p) \<noteq> SF_TOKEN_TYPE_EOF"
    using assms(3) by (auto simp: sf_token_is_assign_def)
  note op = token_assign_binary_op [OF assms(3)]
  show ?thesis
    unfolding parse_var_assign_def
    apply (rule in_advance [OF assms(1)], use assms(2) in \<open>simp add: sf_token_is_ident_def\<close>)
    subgoal for x q
      apply (rule in_advance, assumption, use ne peek in simp)
      subgoal for y r
        apply (rule in_bind [OF in_expression], assumption, assumption, rule recover_statement_follows, assumption)
         apply (unfold Let_def, subst if_not_P, use op peek in \<open>simp add: disj_imp\<close>)
         apply (rule in_expect, assumption, simp, rule recover_statement_follows, assumption)
         apply (rule in_result, assumption)
        apply simp
        done
      done
    done
qed

locale statement_parser = token_parser parse bound
  for parse :: "sf_parser \<Rightarrow> sf_stmt parsed" and bound :: nat
begin

lemma parse_block_loop_ok:
  "parser_ok p \<Longrightarrow> parser_left p < bound \<Longrightarrow> parser_left p < n \<Longrightarrow>
   parsed_ok False p (parse_block_loop parse n p block)"
proof (induction n arbitrary: p block)
  case (Suc n)
  show ?case
  proof (cases "tk_type (sf_parser_peek p) \<noteq> SF_TOKEN_TYPE_RBRACE \<and> tk_type (sf_parser_peek p) \<noteq> SF_TOKEN_TYPE_EOF")
    case False
    then show ?thesis using Suc.prems(1) by (auto simp: parsed_ok_Some)
  next
    case True
    have rest: "parsed_ok False p (parse_block_loop parse n q block')"
      if "parser_follows p q" "ps_current p < ps_current q" for q block'
    proof (rule parsed_ok_after [OF that(1)])
      show "parsed_ok False q (parse_block_loop parse n q block')"
        using Suc.prems parser_left_less [OF that] parser_follows_ok [OF that(1)] by (intro Suc.IH) auto
    qed simp
    from parse_ok [OF Suc.prems(1,2)] show ?thesis
    proof (cases rule: parsed_ok_cases)
      case (ok stmt p1)
      then show ?thesis using True rest by simp
    next
      case (fail p1)
      show ?thesis
      proof (cases "ps_current p1 = ps_current p")
        case False
        then show ?thesis using True fail rest [OF fail(2)] by (simp add: parser_follows_def)
      next
        case same: True
        have "sf_parser_peek p1 = sf_parser_peek p"
          using same fail(2) by (simp add: parser_follows_def sf_parser_peek_def peek_at_def)
        then have "tk_type (sf_parser_peek p1) \<noteq> SF_TOKEN_TYPE_EOF" using True by simp
        note adv = advance_follows [OF parser_follows_ok [OF fail(2)] this]
        have "parsed_ok False p (parse_block_loop parse n (parser_skip p1) block)"
          using parser_follows_trans [OF fail(2) adv(2)] same by (intro rest) simp_all
        then show ?thesis using True fail(1) same adv(1) by simp
      qed
    qed
  qed
qed simp

lemma parse_block_ok:
  assumes "parser_in bound p"
  shows "parsed_ok True p (parse_block parse (Suc bound) p)"
  unfolding parse_block_def Let_def
  apply (rule in_expect [OF assms _ recover_statement_follows], simp, assumption)
  apply (rule in_bind [OF parse_block_loop_ok, where rec = "\<lambda>q. q"])
         apply (auto simp: parser_in_def)[1]
        apply assumption
       apply simp
      apply assumption
     apply simp
    apply (rule in_expect, assumption, simp, rule recover_statement_follows, assumption)
    apply (rule in_result, assumption)
   apply simp
  done

lemma func_body_ok:
  assumes "parser_in bound p"
  shows "parsed_ok False p
    (if tk_type (sf_parser_peek p) = SF_TOKEN_TYPE_LBRACE
     then (case parse_block parse (Suc bound) p of
             None \<Rightarrow> None
           | Some (None, p7) \<Rightarrow> Some (None, sf_parser_recover_statement p7)
           | Some (Some block, p7) \<Rightarrow> Some (Some (f block), p7))
     else if tk_type (sf_parser_peek p) = SF_TOKEN_TYPE_SEMICOLON
     then Some (Some y, snd (sf_parser_advance p))
     else Some (None, sf_parser_recover_statement (sf_parser_report_unexpected p (sf_parser_peek p) e)))"
proof -
  have block: "parsed_ok False p (case parse_block parse (Suc bound) p of
             None \<Rightarrow> None
           | Some (None, p7) \<Rightarrow> Some (None, sf_parser_recover_statement p7)
           | Some (Some block, p7) \<Rightarrow> Some (Some (f block), p7))"
    by (rule in_bind [OF parse_block_ok [OF assms] assms recover_statement_follows])
       (auto intro: in_result)
  have "parser_ok p" using assms by (simp add: parser_in_def)
  with block show ?thesis by (simp add: unexpected_ok(2) in_skip_result [OF assms])
qed

lemma parse_func_decl_ok:
  assumes "parser_in bound p" "sf_token_is_fn (sf_parser_peek p)"
  shows "parsed_ok True p (parse_func_decl parse (Suc bound) p quals)"
  unfolding parse_func_decl_def Let_def
  apply (rule in_advance [OF assms(1)], use assms(2) in \<open>simp add: sf_token_is_fn_def\<close>)
  apply (rule in_expect_identifier, assumption, rule recover_statement_follows, assumption)
  apply (rule in_expect, assumption, simp, rule recover_statement_follows, assumption)
  subgoal for _ _ name q1 p3
    apply (rule in_bind [where s = False and rec = "\<lambda>q. q"])
        apply (rule if_split [THEN iffD2], intro conjI impI)
         apply (rule parse_parameters_ok, assumption, simp)
        apply (rule in_result, assumption)
       apply assumption
      apply simp
     apply (rule in_expect, assumption, simp, rule recover_statement_follows, assumption)
     subgoal for func1 p4 p5
       apply (rule parse_return_type_cases [of bound p5], assumption)
        subgoal for ty p6
          by (simp only: prod.case option.case, rule parsed_ok_after, assumption, rule func_body_ok, assumption, simp)
       apply (simp add: parsed_ok_Some)
       done
    apply simp
    done
  done

lemma parse_decl_ok:
  assumes "parser_in bound p" "sf_token_is_type (sf_parser_peek p) \<or> sf_token_is_fn (sf_parser_peek p) \<or> sf_token_is_qual (sf_parser_peek p)"
  shows "parsed_ok True p (parse_decl parse (Suc bound) p)"
proof -
  obtain quals p1 where q: "parse_qualifiers p = (quals, p1)" by fastforce
  have f: "parser_follows p p1"
    using parse_qualifiers_follows(1) [of p no_qualifiers quals p1] q assms by (simp add: parse_qualifiers_def parser_in_def)
  have in1: "parser_in bound p1" using parser_in_follows [OF assms(1) f] .
  then have ok1: "parser_ok p1" by (simp add: parser_in_def)
  have "parsed_ok True p1 (let token = sf_parser_peek p1
        in if sf_token_is_fn token then parse_func_decl parse (Suc bound) p1 quals
           else if sf_token_is_type token then parse_var_decl (Suc bound) p1 quals
           else Some (None, sf_parser_recover_statement (sf_parser_report_unexpected p1 token ''a declaration'')))"
    using parse_func_decl_ok [OF in1] parse_var_decl_ok [OF in1] by (simp add: Let_def unexpected_ok(2) [OF ok1])
  from parsed_ok_after [OF f this] q show ?thesis by (simp add: parse_decl_def)
qed

lemma parse_if_ok:
  "parser_in bound p \<Longrightarrow> parser_left p < k \<Longrightarrow> sf_token_is_if (sf_parser_peek p) \<Longrightarrow>
   parsed_ok True p (parse_if parse (Suc bound) k p)"
proof (induction k arbitrary: p)
  case (Suc k)
  have in_p: "parser_in (parser_left p) p" using Suc.prems(1) by (simp add: parser_in_def)
  have ne: "tk_type (sf_parser_peek p) \<noteq> SF_TOKEN_TYPE_EOF" using Suc.prems(3) by (simp add: sf_token_is_if_def)
  have up: "parser_in bound q" if "parser_in (parser_left p) q" for q
    using that Suc.prems(1) by (auto simp: parser_in_def)
  have else_ok: "parsed_ok True q (if tk_type (sf_parser_peek q) = SF_TOKEN_TYPE_KW_IF then parse_if parse (Suc bound) k q
      else parse_block parse (Suc bound) q)" if "parser_in (parser_left p) q" "parser_left q < parser_left p" for q
    using Suc.IH [OF up [OF that(1)]] parse_block_ok [OF up [OF that(1)]] Suc.prems(2) that(2)
    by (auto simp: sf_token_is_if_def)
  show ?case
    unfolding parse_if.simps
    apply (rule in_advance [OF in_p ne])
    apply (rule in_bind [OF in_expression [OF up]], assumption, assumption, rule recover_statement_follows, assumption)
     apply (rule in_bind [OF parse_block_ok [OF up]], assumption, assumption, rule recover_statement_follows, assumption)
      apply (rule in_match, assumption, simp)
       apply (rule in_bind [OF else_ok], assumption, assumption, assumption, rule recover_statement_follows, assumption)
        apply (rule in_result, assumption)
       apply simp
      apply (rule in_result, assumption)
     apply simp
    apply simp
    done
qed simp

lemma parse_while_ok:
  assumes "parser_in bound p" "sf_token_is_while (sf_parser_peek p)"
  shows "parsed_ok True p (parse_while parse (Suc bound) p)"
  unfolding parse_while_def
  apply (rule in_advance [OF assms(1)], use assms(2) in \<open>simp add: sf_token_is_while_def\<close>)
  apply (rule in_bind [OF in_expression], assumption, assumption, rule recover_statement_follows, assumption)
   apply (rule in_bind [OF parse_block_ok], assumption, assumption, rule recover_statement_follows, assumption)
    apply (rule in_result, assumption)
   apply simp_all
  done

lemma parse_statement_ok:
  assumes "parser_in bound p"
  shows "parsed_ok True p (parse_statement parse (Suc bound) p)"
  using parse_decl_ok [OF assms] parse_var_assign_ok [OF assms] parse_block_ok [OF assms]
    parse_if_ok [OF assms, of "Suc bound"] parse_while_ok [OF assms] parse_return_ok [OF assms] parse_expr_stmt_ok [OF assms]
    assms
  by (simp add: parse_statement_def Let_def parser_in_def)

end

lemma statement_parser_any: "statement_parser (sf_parse_statement n) n"
proof (induction n)
  case 0
  show ?case by unfold_locales simp
next
  case (Suc n)
  show ?case
  proof
    fix p assume "parser_ok p" "parser_left p < Suc n"
    then show "parsed_ok True p (sf_parse_statement (Suc n) p)"
      using statement_parser.parse_statement_ok [OF Suc.IH] by (simp add: parser_in_def)
  qed
qed

interpretation stmt_parser: statement_parser "sf_parse_statement n" n for n
  by (rule statement_parser_any)

text \<open>C40: The statement parser returns on every token list that ends with the end-of-file token,
  with fuel one more than the number of tokens left: it moves forward inside the list, consumes
  at least one token when it yields a statement, and when it yields none an error was logged or
  the list holds an undefined token. No statement is dropped silently.\<close>

theorem sf_parse_statement_total:
  assumes "parser_ok p" "parser_left p < fuel"
  shows "\<exists>x p'. sf_parse_statement fuel p = Some (x, p') \<and> ps_tokens p' = ps_tokens p \<and>
    ps_current p \<le> ps_current p' \<and> ps_current p' < length (ps_tokens p) \<and>
    (if x = None then g_error_count (ps_log p) < g_error_count (ps_log p') \<or>
        SF_TOKEN_TYPE_UNDEFINED \<in> tk_type ` set (ps_tokens p)
     else ps_current p < ps_current p')"
  using stmt_parser.parse_ok [OF assms]
proof (cases rule: parsed_ok_cases)
  case (fail p')
  then show ?thesis
    by (force simp: parser_follows_def parser_ok_def parser_reported_def parser_errors_def has_undefined_def)
next
  case (ok x p')
  then show ?thesis by (auto simp: parser_follows_def parser_ok_def)
qed

lemma sf_parse_statement_total_witness:
  "\<exists>x p'. sf_parse_statement 3 \<lparr>ps_tokens = [make_token SF_TOKEN_TYPE_KW_RETURN sf_span_zero,
        make_token SF_TOKEN_TYPE_EOF sf_span_zero], ps_current = 0, ps_filename = [], ps_log = sf_log_init\<rparr> = Some (x, p') \<and>
    ps_current p' < 2"
  using sf_parse_statement_total [of "\<lparr>ps_tokens = [make_token SF_TOKEN_TYPE_KW_RETURN sf_span_zero,
        make_token SF_TOKEN_TYPE_EOF sf_span_zero], ps_current = 0, ps_filename = [], ps_log = sf_log_init\<rparr>" 3]
  by (auto simp: parser_ok_def parser_left_def make_token_def numeral_2_eq_2 simp del: sf_parse_statement.simps)

section \<open>Programs\<close>

lemma parse_import_path_returns:
  "parser_ok p \<Longrightarrow> parser_left p < n \<Longrightarrow>
   \<exists>x p'. parse_import_path n p path ex = Some (x, p') \<and> parser_follows p p' \<and> (x \<noteq> None \<longrightarrow> ps_current p < ps_current p')"
proof (induction n arbitrary: p path ex)
  case (Suc n)
  let ?t = "sf_parser_peek p"
  have un: "parser_follows p (sf_parser_report_unexpected p ?t e)" for e
    using report_unexpected_follows(1) [OF Suc.prems(1)] peek_mem [OF Suc.prems(1)] by simp
  show ?case
  proof (cases "tk_type ?t \<in> {SF_TOKEN_TYPE_SEMICOLON, SF_TOKEN_TYPE_IDENTIFIER, SF_TOKEN_TYPE_DOT}")
    case False
    with un show ?thesis by (simp add: Let_def)
  next
    case True
    then have "tk_type ?t \<noteq> SF_TOKEN_TYPE_EOF" by auto
    note adv = advance_follows [OF Suc.prems(1) this]
    have step: "\<exists>x p'. parse_import_path n (parser_skip p) path' ex' = Some (x, p') \<and> parser_follows p p' \<and>
        (x \<noteq> None \<longrightarrow> ps_current p < ps_current p')" for path' ex'
      using Suc.IH [of "parser_skip p" path' ex'] adv Suc.prems(2) parser_follows_trans [OF adv(2)]
      by (fastforce simp: parser_follows_def)
    show ?thesis using True un adv step by (auto simp: Let_def)
  qed
qed simp

lemma parse_import_returns:
  assumes "parser_ok p" "parser_left p < n" "sf_token_is_import (sf_parser_peek p)"
  shows "\<exists>x p'. parse_import n p = Some (x, p') \<and> parser_follows p p' \<and> (x \<noteq> None \<longrightarrow> ps_current p < ps_current p')"
proof -
  have "tk_type (sf_parser_peek p) = SF_TOKEN_TYPE_KW_IMPORT" using assms(3) by (simp add: sf_token_is_import_def)
  then have e: "sf_parser_expect p SF_TOKEN_TYPE_KW_IMPORT = (True, parser_skip p)"
    and "tk_type (sf_parser_peek p) \<noteq> SF_TOKEN_TYPE_EOF"
    by (simp_all add: sf_parser_expect_def sf_parser_match_def)
  note adv = advance_follows [OF assms(1) this(2)]
  have "parser_left (parser_skip p) < n" using adv(5) assms(2) by simp
  from parse_import_path_returns [OF adv(4) this, of "[]" True] obtain x p' where
    i: "parse_import_path n (parser_skip p) [] True = Some (x, p')" "parser_follows (parser_skip p) p'" by auto
  then have "parser_follows p p'" "ps_current p < ps_current p'"
    using parser_follows_trans [OF adv(2)] by (auto simp: parser_follows_def)
  with i e show ?thesis by (cases x) (auto simp: parse_import_def Let_def)
qed

lemma parse_top_level_returns:
  assumes "parser_ok p" "parser_left p < n"
  shows "\<exists>x p'. sf_parse_top_level n p = Some (x, p') \<and> parser_follows p p' \<and> (x \<noteq> None \<longrightarrow> ps_current p < ps_current p')"
proof -
  let ?t = "sf_parser_peek p"
  have rec: "parser_follows p (sf_parser_recover_top_level q)" if "parser_follows p q" for q
    using that recover_top_level_follows parser_follows_ok parser_follows_trans by blast
  consider (decl) "sf_token_is_fn ?t \<or> sf_token_is_qual ?t" | (imp) "\<not> (sf_token_is_fn ?t \<or> sf_token_is_qual ?t)" "sf_token_is_import ?t"
    | (other) "\<not> (sf_token_is_fn ?t \<or> sf_token_is_qual ?t)" "\<not> sf_token_is_import ?t" by blast
  then show ?thesis
  proof cases
    case decl
    obtain m where n: "n = Suc m" using assms(2) by (cases n) auto
    have sp: "statement_parser (sf_parse_statement n) m"
    proof
      fix q assume "parser_ok q" "parser_left q < m"
      then show "parsed_ok True q (sf_parse_statement n q)"
        by (intro stmt_parser.parse_ok) (simp_all add: n)
    qed
    have "parsed_ok True p (parse_decl (sf_parse_statement n) n p)"
      using statement_parser.parse_decl_ok [OF sp, of p] assms decl by (auto simp: parser_in_def n)
    then show ?thesis
      by (cases rule: parsed_ok_cases) (use decl rec in \<open>auto simp: sf_parse_top_level_def Let_def\<close>)
  next
    case imp
    from parse_import_returns [OF assms imp(2)] obtain x p' where
      "parse_import n p = Some (x, p')" "parser_follows p p'" "x \<noteq> None \<longrightarrow> ps_current p < ps_current p'" by blast
    with imp rec show ?thesis by (cases x) (auto simp: sf_parse_top_level_def Let_def)
  next
    case other
    have "parser_follows p (parser_error p ?t [])"
      using assms(1) by (auto simp: parser_follows_def parser_error_def parser_ok_def parser_errors_def sf_log_count_mono)
    with other rec show ?thesis by (simp add: sf_parse_top_level_def Let_def)
  qed
qed

lemma parse_program_loop_returns:
  "parser_ok p \<Longrightarrow> Suc (parser_left p) < n \<Longrightarrow> \<exists>program' p'. parse_program_loop n p program = Some (program', p') \<and> parser_follows p p'"
proof (induction n arbitrary: p program)
  case (Suc n)
  show ?case
  proof (cases "tk_type (sf_parser_peek p) = SF_TOKEN_TYPE_EOF")
    case False
    have "parser_left p < n" using Suc.prems(2) by simp
    from parse_top_level_returns [OF Suc.prems(1) this] obtain x p1 where
      top: "sf_parse_top_level n p = Some (x, p1)" "parser_follows p p1" "x \<noteq> None \<longrightarrow> ps_current p < ps_current p1"
      by blast
    have rest: "\<exists>program' p'. parse_program_loop n q pr = Some (program', p') \<and> parser_follows p p'"
      if "parser_follows p q" "ps_current p < ps_current q" for q pr
      using Suc.IH [OF parser_follows_ok [OF that(1)], of pr] parser_left_less [OF that] Suc.prems(2)
        parser_follows_trans [OF that(1)] by auto
    show ?thesis
    proof (cases x)
      case (Some node)
      then show ?thesis using top False rest [OF top(2)] by (cases node) auto
    next
      case None
      show ?thesis
      proof (cases "ps_current p1 = ps_current p")
        case True
        have "sf_parser_peek p1 = sf_parser_peek p"
          using True top(2) by (simp add: parser_follows_def sf_parser_peek_def peek_at_def)
        then have "tk_type (sf_parser_peek p1) \<noteq> SF_TOKEN_TYPE_EOF" using False by simp
        note adv = advance_follows [OF parser_follows_ok [OF top(2)] this]
        then show ?thesis
          using None top True False rest [OF parser_follows_trans [OF top(2) adv(2)]] by simp
      next
        case moved: False
        then show ?thesis using None top False rest [OF top(2)] by (simp add: parser_follows_def)
      qed
    qed
  qed (use Suc.prems in simp)
qed simp

text \<open>Every node of the program was parsed at the top level.\<close>

lemma parse_program_loop_all:
  assumes "\<And>n p x p'. sf_parse_top_level n p = Some (Some x, p') \<Longrightarrow> Q x"
  shows "parse_program_loop n p program = Some (program', p') \<Longrightarrow>
    \<forall>i \<in> set (pr_imports program). Q (Top_Import i) \<Longrightarrow> \<forall>st \<in> set (pr_statements program). Q (Top_Stmt st) \<Longrightarrow>
    (\<forall>i \<in> set (pr_imports program'). Q (Top_Import i)) \<and> (\<forall>st \<in> set (pr_statements program'). Q (Top_Stmt st))"
proof (induction n arbitrary: p program)
  case (Suc n)
  show ?case
  proof (cases "tk_type (sf_parser_peek p) = SF_TOKEN_TYPE_EOF")
    case False
    obtain x p1 where top: "sf_parse_top_level n p = Some (x, p1)" using Suc.prems False by (fastforce split: option.splits)
    show ?thesis
    proof (cases x)
      case None
      then show ?thesis using Suc.prems top False Suc.IH by simp
    next
      case (Some node)
      then have q: "Q node" using assms top by simp
      have run: "parse_program_loop n p1 (case node of Top_Import i \<Rightarrow> sf_program_add_import program i
          | Top_Stmt st \<Rightarrow> sf_program_add_statement program st) = Some (program', p')"
        using Suc.prems(1) top Some False by (cases node) simp_all
      show ?thesis
        by (rule Suc.IH [OF run])
           (use Suc.prems(2,3) q in \<open>cases node; simp add: sf_program_add_import_def sf_program_add_statement_def\<close>)+
    qed
  qed (use Suc.prems in simp)
qed simp

lemma parse_import_new:
  "parse_import n p = Some (Some i, p') \<Longrightarrow> length (im_path i) < IMPORT_PATH_SIZE \<and> \<not> im_resolved i"
  by (auto simp: parse_import_def Let_def sf_new_import_node_def split: prod.splits bool.splits option.splits if_splits)

text \<open>C39: The parser is total: every token list whose last token is the end of the file, in
  particular every list the lexer completes, yields a program; the fuel the entry starts with
  never runs out.\<close>

theorem sf_parse_total:
  assumes "tokens = ts @ [eof]" "tk_type eof = SF_TOKEN_TYPE_EOF"
  shows "\<exists>program g'. sf_parse tokens filename g = Some (program, g')"
proof -
  let ?p = "\<lparr>ps_tokens = tokens, ps_current = 0, ps_filename = filename, ps_log = g\<rparr>"
  have "parser_ok ?p" using assms by (simp add: parser_ok_def)
  moreover have "Suc (parser_left ?p) < length tokens + 2" by (simp add: parser_left_def)
  ultimately obtain program' p' where "parse_program_loop (length tokens + 2) ?p sf_new_program_node = Some (program', p')"
    using parse_program_loop_returns by blast
  then show ?thesis using assms by (simp add: sf_parse_def)
qed

lemma sf_parse_total_witness:
  "\<exists>program g'. sf_parse [make_token SF_TOKEN_TYPE_RBRACE sf_span_zero, make_token SF_TOKEN_TYPE_EOF sf_span_zero]
     ''a'' sf_log_init = Some (program, g')"
  by (rule sf_parse_total [where ts = "[make_token SF_TOKEN_TYPE_RBRACE sf_span_zero]"
      and eof = "make_token SF_TOKEN_TYPE_EOF sf_span_zero"]) (simp_all add: make_token_def)

definition long_import :: "string \<Rightarrow> sf_token list" where
  "long_import part =
     (let name = (make_token SF_TOKEN_TYPE_IDENTIFIER sf_span_zero)\<lparr>tk_value := part\<rparr>;
          dot = make_token SF_TOKEN_TYPE_DOT sf_span_zero
      in [make_token SF_TOKEN_TYPE_KW_IMPORT sf_span_zero, name, dot, name, dot, name,
          make_token SF_TOKEN_TYPE_SEMICOLON sf_span_zero, make_token SF_TOKEN_TYPE_EOF sf_span_zero])"

lemma path_name_step:
  assumes "tk_type (sf_parser_peek p) = SF_TOKEN_TYPE_IDENTIFIER"
  shows "parse_import_path (Suc n) p path True =
    (if IMPORT_PATH_SIZE \<le> length path + length (tk_value (sf_parser_peek p)) then Some (None, parser_skip p)
     else parse_import_path n (parser_skip p) (path @ tk_value (sf_parser_peek p)) False)"
  using assms by (simp add: sf_parser_advance_def)

lemma path_dot_step:
  assumes "tk_type (sf_parser_peek p) = SF_TOKEN_TYPE_DOT"
  shows "parse_import_path (Suc n) p path False =
    (if IMPORT_PATH_SIZE \<le> length path + 1 then Some (None, parser_skip p)
     else parse_import_path n (parser_skip p) (path @ ''/'') True)"
  using assms by (simp add: sf_parser_advance_def)

lemma path_end_step:
  assumes "tk_type (sf_parser_peek p) = SF_TOKEN_TYPE_SEMICOLON"
  shows "parse_import_path (Suc n) p path False = Some (Some path, parser_skip p)"
  using assms by (simp add: sf_parser_advance_def)

definition long_import_at :: "string \<Rightarrow> string \<Rightarrow> sf_log_state \<Rightarrow> nat \<Rightarrow> sf_parser" where
  "long_import_at part f g i = \<lparr>ps_tokens = long_import part, ps_current = i, ps_filename = f, ps_log = g\<rparr>"

lemma long_import_skip: "parser_skip (long_import_at part f g i) = long_import_at part f g (Suc i)"
  by (simp add: long_import_at_def parser_skip_def)

lemma long_import_peek:
  "tk_type (sf_parser_peek (long_import_at part f g 0)) = SF_TOKEN_TYPE_KW_IMPORT"
  "sf_parser_peek (long_import_at part f g (Suc 0)) = (make_token SF_TOKEN_TYPE_IDENTIFIER sf_span_zero)\<lparr>tk_value := part\<rparr>"
  "tk_type (sf_parser_peek (long_import_at part f g 2)) = SF_TOKEN_TYPE_DOT"
  "sf_parser_peek (long_import_at part f g 3) = (make_token SF_TOKEN_TYPE_IDENTIFIER sf_span_zero)\<lparr>tk_value := part\<rparr>"
  "tk_type (sf_parser_peek (long_import_at part f g 4)) = SF_TOKEN_TYPE_DOT"
  "sf_parser_peek (long_import_at part f g 5) = (make_token SF_TOKEN_TYPE_IDENTIFIER sf_span_zero)\<lparr>tk_value := part\<rparr>"
  "tk_type (sf_parser_peek (long_import_at part f g 6)) = SF_TOKEN_TYPE_SEMICOLON"
  "tk_type (sf_parser_peek (long_import_at part f g 7)) = SF_TOKEN_TYPE_EOF"
  by (simp_all add: long_import_at_def long_import_def sf_parser_peek_def peek_at_def Let_def make_token_def)

lemma long_import_path:
  assumes "170 \<le> length part" "length part < 255"
  shows "parse_import_path (Suc (Suc (Suc (Suc (Suc n))))) (long_import_at part f g (Suc 0)) [] True =
    Some (None, long_import_at part f g 6)"
proof -
  let ?at = "long_import_at part f g"
  have suc: "Suc (Suc 0) = 2" "Suc 2 = 3" "Suc 3 = 4" "Suc 4 = 5" "Suc 5 = 6" by simp_all
  note step = long_import_peek long_import_skip suc make_token_def
  have "parse_import_path (Suc n) (?at 5) (part @ ''/'' @ part @ ''/'') True = Some (None, ?at 6)"
    using assms by (subst path_name_step) (simp_all add: step)
  then have "parse_import_path (Suc (Suc n)) (?at 4) (part @ ''/'' @ part) False = Some (None, ?at 6)"
    using assms by (subst path_dot_step) (simp_all add: step del: parse_import_path.simps)
  then have "parse_import_path (Suc (Suc (Suc n))) (?at 3) (part @ ''/'') True = Some (None, ?at 6)"
    using assms by (subst path_name_step) (simp_all add: step del: parse_import_path.simps)
  then have "parse_import_path (Suc (Suc (Suc (Suc n)))) (?at 2) part False = Some (None, ?at 6)"
    using assms by (subst path_dot_step) (simp_all add: step del: parse_import_path.simps)
  then show ?thesis
    using assms by (subst path_name_step) (simp_all add: step del: parse_import_path.simps)
qed

lemma long_import_recover: "sf_parser_recover_top_level (long_import_at part f g 6) = long_import_at part f g 7"
  unfolding sf_parser_recover_top_level_def
  by (subst recover_top_level_loop.simps)
     (simp add: parser_at_end_def long_import_peek long_import_skip)

text \<open>An import path of three parts whose directories, separators and name reach the 512
  characters of the path buffer is dropped without any diagnostic: the program has no import and
  the log is the log the parser started with.\<close>

theorem long_import_dropped:
  assumes "170 \<le> length part" "length part < 255"
  shows "sf_parse (long_import part) filename g = Some (sf_new_program_node, g)"
proof -
  let ?at = "long_import_at part filename g"
  have "parse_import (Suc 8) (?at 0) = Some (None, ?at 6)"
    using long_import_path [OF assms, of 4 filename g]
    by (simp add: parse_import_def sf_parser_expect_def sf_parser_match_def long_import_peek long_import_skip
        del: parse_import_path.simps)
  then have top: "sf_parse_top_level (Suc 8) (?at 0) = Some (None, ?at 7)"
    by (simp add: sf_parse_top_level_def Let_def long_import_peek long_import_recover sf_token_is_fn_def
        sf_token_is_qual_def sf_token_is_import_def)
  have "parse_program_loop (Suc (Suc m)) (?at 0) sf_new_program_node = Some (sf_new_program_node, ?at 7)"
    if "sf_parse_top_level (Suc m) (?at 0) = Some (None, ?at 7)" for m
    using that by (simp add: long_import_peek) (simp add: long_import_at_def)
  from this [OF top] have "parse_program_loop 10 (?at 0) sf_new_program_node = Some (sf_new_program_node, ?at 7)"
    by (simp del: parse_program_loop.simps)
  moreover have "length (long_import part) = 8" "long_import part \<noteq> []"
    by (simp_all add: long_import_def Let_def)
  ultimately show ?thesis
    by (simp add: sf_parse_def long_import_at_def del: parse_program_loop.simps)
qed

lemma long_import_dropped_witness:
  "sf_parse (long_import (replicate 200 CHR ''a'')) ''m.slfr'' sf_log_init = Some (sf_new_program_node, sf_log_init)"
  by (rule long_import_dropped) simp_all

end
