(* ===== verification/Module_Resolve.thy ===== *)
theory Module_Resolve
  imports Preprocess Lexer_Facts Parser_Facts Symbol_Table
begin

text \<open>
  Modules: reading a file (\<^verbatim>\<open>utils/file.c\<close>), the module list of \<^verbatim>\<open>module/module.h\<close> and the
  resolution of imports, \<^verbatim>\<open>module/module.c\<close>. The file system is the parameter \<open>fs\<close>, which gives the
  contents of the files that can be opened. An import is resolved by searching its path, first
  as it stands and then in the search directories, and by loading the file when the list does not
  have it, which resolves the imports of that file in turn. The recursion of the C code is bounded
  by the number of names that can be searched; the fuel of the model is its depth, and \<open>None\<close> means
  that the fuel ran out. Memory is available.
\<close>

section \<open>Reading files\<close>

definition sf_file_read ::
  "(string \<Rightarrow> string option) \<Rightarrow> string \<Rightarrow> sf_log_state \<Rightarrow> (string \<times> nat) option \<times> sf_log_state" where
  "sf_file_read fs filename g =
     (case fs filename of
        None \<Rightarrow> (None, sf_log (Some filename) SF_LOG_DRIVER_CANNOT_OPEN_FILE sf_span_zero SF_LOG_SEVERITY_FATAL [filename] g)
      | Some content \<Rightarrow>
          (let read_size = length content
           in (Some (if read_size = 0 \<or> content ! (read_size - 1) \<noteq> CHR 0x0A then content @ [CHR 0x0A] else content,
                     read_size), g)))"

definition file_exists :: "(string \<Rightarrow> string option) \<Rightarrow> string \<Rightarrow> bool" where
  "file_exists fs filename \<longleftrightarrow> fs filename \<noteq> None"

section \<open>The module list\<close>

datatype (plugins only: code size) sf_module_state =
    SF_MODULE_STATE_UNLOADED
  | SF_MODULE_STATE_LOADING
  | SF_MODULE_STATE_LOADED
  | SF_MODULE_STATE_FAILED

datatype (plugins only: code size) sf_module_analysis =
    SF_MODULE_ANALYSIS_PENDING
  | SF_MODULE_ANALYSIS_IN_PROGRESS
  | SF_MODULE_ANALYSIS_DONE
  | SF_MODULE_ANALYSIS_FAILED

record sf_module =
  md_state :: sf_module_state
  md_ast :: "sf_program_node option"
  md_filename :: string
  md_name :: string
  md_analysis :: sf_module_analysis
  md_funcs :: sf_func_symbol_table

type_synonym sf_module_list = "sf_module list"

fun find_module_index :: "sf_module_list \<Rightarrow> string \<Rightarrow> nat option" where
  "find_module_index [] filename = None"
| "find_module_index (m # ms) filename =
     (if md_filename m = filename then Some 0 else map_option Suc (find_module_index ms filename))"

definition add_module :: "sf_module_list \<Rightarrow> sf_module \<Rightarrow> sf_module_list \<times> nat" where
  "add_module modules m = (modules @ [m], length modules)"

section \<open>Paths\<close>

definition join_path :: "string \<Rightarrow> string \<Rightarrow> string" where
  "join_path directory filename =
     (let needs_separator = 0 < length directory \<and> directory ! (length directory - 1) \<noteq> CHR ''/''
      in directory @ (if needs_separator then ''/'' else []) @ filename)"

fun find_in_paths :: "(string \<Rightarrow> string option) \<Rightarrow> string \<Rightarrow> string list \<Rightarrow> string option" where
  "find_in_paths fs filename [] = None"
| "find_in_paths fs filename (dir # dirs) =
     (if file_exists fs (join_path dir filename) then Some (join_path dir filename)
      else find_in_paths fs filename dirs)"

definition find_module_path :: "(string \<Rightarrow> string option) \<Rightarrow> string \<Rightarrow> string list \<Rightarrow> string option" where
  "find_module_path fs filename module_paths =
     (if file_exists fs filename then Some filename else find_in_paths fs filename module_paths)"

definition drop_dot_slash :: "string \<Rightarrow> string" where
  "drop_dot_slash file = (if take 2 file = ''./'' then drop 2 file else file)"

definition strip_slashes :: "string \<Rightarrow> string" where
  "strip_slashes dir = rev (dropWhile (\<lambda>c. c = CHR ''/'') (rev dir))"

fun name_in_paths :: "string \<Rightarrow> string list \<Rightarrow> string option" where
  "name_in_paths file [] = None"
| "name_in_paths file (path # paths) =
     (let dir = strip_slashes (drop_dot_slash path); len = length dir
      in if 0 < len \<and> take len file = dir \<and> len < length file \<and> file ! len = CHR ''/''
         then Some (drop (len + 1) file)
         else name_in_paths file paths)"

definition sf_module_name_from_path :: "string \<Rightarrow> string list \<Rightarrow> string option" where
  "sf_module_name_from_path file module_paths = name_in_paths (drop_dot_slash file) module_paths"

section \<open>Resolving imports\<close>

text \<open>The front end on one file: the result is the program, or \<open>None\<close> after an error.\<close>

definition load_program :: "(string \<Rightarrow> string option) \<Rightarrow> string \<Rightarrow> sf_log_state \<Rightarrow>
   (sf_program_node option \<times> sf_log_state) option" where
  "load_program fs filename g =
     (case sf_file_read fs filename g of
        (None, g1) \<Rightarrow> Some (None, g1)
      | (Some (input, input_size), g1) \<Rightarrow>
          (case sf_preprocess (\<lambda>_. True) input input_size filename g1 of
             (None, g2) \<Rightarrow> Some (None, g2)
           | (Some preprocessed, g2) \<Rightarrow>
               if sf_log_had_errors g2 then Some (None, g2)
               else (case sf_tokenize (\<lambda>_. True) preprocessed filename g2 of
                       (tokens, g3) \<Rightarrow>
                         if sf_log_had_errors g3 then Some (None, g3)
                         else (case sf_parse (tl_tokens tokens) filename g3 of
                                 None \<Rightarrow> None
                               | Some (ast, g4) \<Rightarrow>
                                   Some (if sf_log_had_errors g4 then None else Some ast, g4)))))"

fun resolve_list ::
  "(sf_import_node \<Rightarrow> sf_module_list \<Rightarrow> sf_log_state \<Rightarrow> (sf_import_node \<times> sf_module_list \<times> sf_log_state) option) \<Rightarrow>
   sf_import_node list \<Rightarrow> sf_module_list \<Rightarrow> sf_log_state \<Rightarrow>
   (sf_import_node list \<times> sf_module_list \<times> sf_log_state) option" where
  "resolve_list resolve [] modules g = Some ([], modules, g)"
| "resolve_list resolve (import # imports) modules g =
     (case resolve import modules g of
        None \<Rightarrow> None
      | Some (import1, modules1, g1) \<Rightarrow>
          if sf_log_had_fatal g1 then Some (import1 # imports, modules1, g1)
          else (case resolve_list resolve imports modules1 g1 of
                  None \<Rightarrow> None
                | Some (imports2, modules2, g2) \<Rightarrow> Some (import1 # imports2, modules2, g2)))"

definition resolve_import ::
  "(string \<Rightarrow> string option) \<Rightarrow> string list \<Rightarrow>
   (sf_import_node list \<Rightarrow> string \<Rightarrow> sf_module_list \<Rightarrow> sf_log_state \<Rightarrow>
      (sf_import_node list \<times> sf_module_list \<times> sf_log_state) option) \<Rightarrow>
   string \<Rightarrow> sf_import_node \<Rightarrow> sf_module_list \<Rightarrow> sf_log_state \<Rightarrow>
   (sf_import_node \<times> sf_module_list \<times> sf_log_state) option" where
  "resolve_import fs module_paths resolve_imports importer_filename import modules g =
     (case find_module_path fs (im_path import) module_paths of
        None \<Rightarrow> Some (import, modules,
                  sf_log (Some importer_filename) SF_LOG_MODULE_NOT_FOUND (ab_span (im_base import))
                    SF_LOG_SEVERITY_ERROR [im_path import] g)
      | Some filename \<Rightarrow>
          (case find_module_index modules filename of
             Some module_index \<Rightarrow>
               Some (import\<lparr>im_module_index := module_index, im_resolved := True\<rparr>, modules, g)
           | None \<Rightarrow>
               (case add_module modules \<lparr>md_state = SF_MODULE_STATE_LOADING, md_ast = None, md_filename = filename,
                       md_name = im_path import, md_analysis = SF_MODULE_ANALYSIS_PENDING,
                       md_funcs = sf_func_symbol_table_init\<rparr> of
                  (modules1, module_index) \<Rightarrow>
                    (let import1 = import\<lparr>im_module_index := module_index, im_resolved := True\<rparr>
                     in case load_program fs filename g of
                          None \<Rightarrow> None
                        | Some (None, g1) \<Rightarrow>
                            Some (import1, modules1[module_index := (modules1 ! module_index)\<lparr>md_state := SF_MODULE_STATE_FAILED\<rparr>], g1)
                        | Some (Some ast, g1) \<Rightarrow>
                            (case resolve_imports (pr_imports ast) filename
                                    (modules1[module_index := (modules1 ! module_index)\<lparr>md_ast := Some ast\<rparr>]) g1 of
                               None \<Rightarrow> None
                             | Some (imports, modules2, g2) \<Rightarrow>
                                 Some (import1,
                                   modules2[module_index := (modules2 ! module_index)
                                     \<lparr>md_ast := Some (ast\<lparr>pr_imports := imports\<rparr>),
                                      md_state := (if sf_log_had_fatal g2 then SF_MODULE_STATE_FAILED
                                                   else SF_MODULE_STATE_LOADED)\<rparr>], g2))))))"

fun resolve_imports ::
  "(string \<Rightarrow> string option) \<Rightarrow> string list \<Rightarrow> nat \<Rightarrow> sf_import_node list \<Rightarrow> string \<Rightarrow> sf_module_list \<Rightarrow> sf_log_state \<Rightarrow>
   (sf_import_node list \<times> sf_module_list \<times> sf_log_state) option" where
  "resolve_imports fs module_paths 0 imports importer_filename modules g = None"
| "resolve_imports fs module_paths (Suc n) imports importer_filename modules g =
     resolve_list (resolve_import fs module_paths (resolve_imports fs module_paths n) importer_filename) imports modules g"

definition sf_module_resolve ::
  "(string \<Rightarrow> string option) \<Rightarrow> nat \<Rightarrow> sf_import_node list \<Rightarrow> string \<Rightarrow> sf_module_list \<Rightarrow> string list \<Rightarrow> sf_log_state \<Rightarrow>
   (sf_import_node list \<times> sf_module_list \<times> sf_log_state) option" where
  "sf_module_resolve fs n imports importer_filename modules module_paths g =
     resolve_imports fs module_paths n imports importer_filename modules g"

end
