(* ===== verification/Sem_Module.thy ===== *)
theory Sem_Module
  imports Sem_Stmt_Facts Module_Resolve
begin

text \<open>
  The analysis of a program and of the modules it imports, the rest of
  \<^verbatim>\<open>frontend/semantic/semantic.c\<close>. The module list and the log are threaded through; a module that
  is analysed gets its annotated program and its function table back into the list when its
  analysis ends, which is when other modules first read them. The recursion over modules is
  bounded by the number of modules that are still pending; the fuel is its depth and \<open>None\<close> means
  that it ran out. An import has the index of a module of the list once it is resolved.
\<close>

section \<open>Symbols and checks\<close>

text \<open>The loop of \<^verbatim>\<open>import_public_symbols\<close> over the functions of the imported module.\<close>

fun import_symbols :: "sf_func_symbol list \<Rightarrow> string \<Rightarrow> sf_func_symbol_table \<Rightarrow> sf_log_state \<Rightarrow>
   sf_func_symbol_table \<times> sf_log_state" where
  "import_symbols [] filename funcs g = (funcs, g)"
| "import_symbols (src # rest) filename funcs g =
     (if \<not> is_public (fs_qualifiers src) \<or> fs_imported src then import_symbols rest filename funcs g
      else (case sf_func_symbol_table_insert funcs (src\<lparr>fs_imported := True, fs_defined := True\<rparr>) filename g of
              (ok, funcs1, g1) \<Rightarrow> import_symbols rest filename funcs1 g1))"

definition import_public_symbols :: "sf_semantic \<Rightarrow> sf_module \<Rightarrow> sf_log_state \<Rightarrow> sf_semantic \<times> sf_log_state" where
  "import_public_symbols s dep g =
     (case import_symbols (ft_functions (md_funcs dep)) (se_filename s) (se_funcs s) g of
        (funcs, g1) \<Rightarrow> (s\<lparr>se_funcs := funcs\<rparr>, g1))"

definition check_main_function :: "sf_semantic \<Rightarrow> sf_log_state \<Rightarrow> sf_log_state" where
  "check_main_function s g =
     (case sf_func_symbol_table_lookup (se_funcs s) ''main'' of
        None \<Rightarrow> sem_error s SF_LOG_SEMANTIC_NO_MAIN_FUNCTION sf_span_zero [''main''] g
      | Some main_func \<Rightarrow>
          (let g1 = (if fs_return_type main_func \<noteq> SF_VAL_TYPE_I32
                     then sem_error s SF_LOG_SEMANTIC_INVALID_RETURN_TYPE (fs_span main_func)
                            [''main'', sf_type_value_name SF_VAL_TYPE_I32] g
                     else g);
               g2 = (if 0 < length (fs_parameters main_func)
                     then sem_error s SF_LOG_SEMANTIC_INVALID_PARAMETERS (fs_span main_func) [''main''] g1
                     else g1)
           in if has_qualifiers main_func
              then sem_error s SF_LOG_SEMANTIC_INVALID_QUALIFIER (fs_span main_func) [''main''] g2
              else g2))"

section \<open>Programs and modules\<close>

fun analyze_imports ::
  "(nat \<Rightarrow> sf_module_list \<Rightarrow> sf_log_state \<Rightarrow> (bool \<times> sf_module_list \<times> sf_log_state) option) \<Rightarrow>
   sf_import_node list \<Rightarrow> sf_semantic \<Rightarrow> sf_module_list \<Rightarrow> sf_log_state \<Rightarrow>
   (bool \<times> sf_semantic \<times> sf_module_list \<times> sf_log_state) option" where
  "analyze_imports analyze_module [] s modules g = Some (True, s, modules, g)"
| "analyze_imports analyze_module (imp # imps) s modules g =
     (if \<not> im_resolved imp
      then map_option (\<lambda>(ok, r). (False, r)) (analyze_imports analyze_module imps s modules g)
      else (case analyze_module (im_module_index imp) modules g of
              None \<Rightarrow> None
            | Some (False, modules1, g1) \<Rightarrow>
                map_option (\<lambda>(ok, r). (False, r)) (analyze_imports analyze_module imps s modules1 g1)
            | Some (True, modules1, g1) \<Rightarrow>
                (case import_public_symbols s (modules1 ! im_module_index imp) g1 of
                   (s1, g2) \<Rightarrow> analyze_imports analyze_module imps s1 modules1 g2)))"

definition analyze_program ::
  "(nat \<Rightarrow> sf_module_list \<Rightarrow> sf_log_state \<Rightarrow> (bool \<times> sf_module_list \<times> sf_log_state) option) \<Rightarrow>
   sf_module_list \<Rightarrow> sf_program_node \<Rightarrow> string \<Rightarrow> sf_func_symbol_table \<Rightarrow> bool \<Rightarrow> string option \<Rightarrow> sf_log_state \<Rightarrow>
   (bool \<times> sf_program_node \<times> sf_func_symbol_table \<times> sf_module_list \<times> sf_log_state) option" where
  "analyze_program analyze_module modules program filename funcs is_root module_name g =
     (case scope_push (\<lambda>_. True) scope_init g of (scope, g1) \<Rightarrow>
       (case (case module_name of
                None \<Rightarrow> (None, g1)
              | Some name \<Rightarrow> sf_mangle_module_prefix (\<lambda>_. True) name g1) of (prefix, g2) \<Rightarrow>
         (case analyze_imports analyze_module (pr_imports program)
                 \<lparr>se_scope = scope, se_funcs = funcs, se_current_func = None, se_filename = filename,
                  se_module_prefix = prefix\<rparr> modules g2 of
            None \<Rightarrow> None
          | Some (ok, s, modules1, g3) \<Rightarrow>
              (case analyze_statements (map analyze_statement (pr_statements program)) s g3 of
                 (statements, s1, g4) \<Rightarrow>
                   Some (ok, program\<lparr>pr_statements := statements\<rparr>, se_funcs s1, modules1,
                         if is_root then check_main_function s1 g4 else g4)))))"

fun analyze_module :: "nat \<Rightarrow> nat \<Rightarrow> sf_module_list \<Rightarrow> sf_log_state \<Rightarrow> (bool \<times> sf_module_list \<times> sf_log_state) option" where
  "analyze_module 0 index modules g = None"
| "analyze_module (Suc n) index modules g =
     (let m = modules ! index
      in case md_analysis m of
           SF_MODULE_ANALYSIS_DONE \<Rightarrow> Some (True, modules, g)
         | SF_MODULE_ANALYSIS_FAILED \<Rightarrow> Some (False, modules, g)
         | SF_MODULE_ANALYSIS_IN_PROGRESS \<Rightarrow>
             Some (False, modules,
               sf_log (Some (md_filename m)) SF_LOG_SEMANTIC_CYCLIC_IMPORT sf_span_zero SF_LOG_SEVERITY_ERROR
                 [md_filename m] g)
         | SF_MODULE_ANALYSIS_PENDING \<Rightarrow>
             (case md_ast m of
                None \<Rightarrow> Some (False, modules[index := m\<lparr>md_analysis := SF_MODULE_ANALYSIS_FAILED\<rparr>], g)
              | Some ast \<Rightarrow>
                  if md_state m \<noteq> SF_MODULE_STATE_LOADED
                  then Some (False, modules[index := m\<lparr>md_analysis := SF_MODULE_ANALYSIS_FAILED\<rparr>], g)
                  else (case analyze_program (analyze_module n)
                               (modules[index := m\<lparr>md_analysis := SF_MODULE_ANALYSIS_IN_PROGRESS,
                                                    md_funcs := sf_func_symbol_table_init\<rparr>])
                               ast (md_filename m) sf_func_symbol_table_init False (Some (md_name m)) g of
                          None \<Rightarrow> None
                        | Some (ok, ast1, funcs1, modules1, g1) \<Rightarrow>
                            Some (ok,
                              modules1[index := (modules1 ! index)\<lparr>md_ast := Some ast1, md_funcs := funcs1,
                                md_analysis := (if ok then SF_MODULE_ANALYSIS_DONE else SF_MODULE_ANALYSIS_FAILED)\<rparr>],
                              g1))))"

text \<open>The options of the compiler, \<^verbatim>\<open>driver/main.h\<close>; the list of search directories has its own count and
  capacity in C.\<close>

record sf_compiler_options =
  op_file_input :: string
  op_file_output :: string
  op_dump_stages :: bool
  op_is_module :: bool
  op_module_paths :: "string list"

definition sf_analyze ::
  "nat \<Rightarrow> sf_program_node \<Rightarrow> string \<Rightarrow> sf_compiler_options \<Rightarrow> sf_module_list \<Rightarrow> sf_log_state \<Rightarrow>
   (bool \<times> sf_program_node \<times> sf_func_symbol_table \<times> sf_module_list \<times> sf_log_state) option" where
  "sf_analyze n program filename options modules g =
     (let module_name = (if op_is_module options then sf_module_name_from_path filename (op_module_paths options) else None)
      in analyze_program (analyze_module n) modules program filename sf_func_symbol_table_init
           (\<not> op_is_module options) module_name g)"

end
