(* ===== verification/Driver.thy ===== *)
theory Driver
  imports Sem_Module
begin

text \<open>
  The driver: the command line, \<^verbatim>\<open>driver/flags.c\<close>, and the start of \<^verbatim>\<open>main\<close> and of \<^verbatim>\<open>compilation_run\<close>,
  \<^verbatim>\<open>driver/main.c\<close>, up to the end of the front end. \<open>args\<close> is the command line after the name of the
  program. The array of search directories is a list, and memory for it is available.
\<close>

section \<open>Flags\<close>

definition FLAGS_INPUT_FILE :: string where "FLAGS_INPUT_FILE = ''-i''"
definition FLAGS_OUTPUT_FILE :: string where "FLAGS_OUTPUT_FILE = ''-o''"
definition FLAGS_DUMP_STAGES :: string where "FLAGS_DUMP_STAGES = ''--dump-stages''"
definition FLAGS_MODULE_PATH :: string where "FLAGS_MODULE_PATH = ''-m''"
definition FLAGS_MODULE :: string where "FLAGS_MODULE = ''--module''"

lemmas flag_defs = FLAGS_INPUT_FILE_def FLAGS_OUTPUT_FILE_def FLAGS_DUMP_STAGES_def FLAGS_MODULE_PATH_def FLAGS_MODULE_def

definition is_flag :: "string \<Rightarrow> bool" where
  "is_flag arg \<longleftrightarrow> take 1 arg = ''-''"

definition flag_fatal :: "sf_log_error_code \<Rightarrow> string list \<Rightarrow> sf_log_state \<Rightarrow> sf_log_state" where
  "flag_fatal code args g = sf_log (Some ''N/A'') code sf_span_zero SF_LOG_SEVERITY_FATAL args g"

function sf_flags_parse :: "string list \<Rightarrow> sf_compiler_options \<Rightarrow> sf_log_state \<Rightarrow> sf_compiler_options \<times> sf_log_state" where
  "sf_flags_parse [] options g = (options, g)"
| "sf_flags_parse (arg # rest) options g =
     (if arg = FLAGS_INPUT_FILE
      then (case rest of
              [] \<Rightarrow> (options, flag_fatal SF_LOG_DRIVER_NO_INPUT_FILE [FLAGS_INPUT_FILE, FLAGS_INPUT_FILE] g)
            | next_arg # rest1 \<Rightarrow>
                if is_flag next_arg
                then (options, flag_fatal SF_LOG_DRIVER_NO_INPUT_FILE [FLAGS_INPUT_FILE, FLAGS_INPUT_FILE] g)
                else sf_flags_parse rest1 (options\<lparr>op_file_input := next_arg\<rparr>) g)
      else if arg = FLAGS_OUTPUT_FILE
      then (case rest of
              [] \<Rightarrow> (options, flag_fatal SF_LOG_DRIVER_NO_OUTPUT_FILE [FLAGS_OUTPUT_FILE, FLAGS_OUTPUT_FILE] g)
            | next_arg # rest1 \<Rightarrow>
                if is_flag next_arg
                then (options, flag_fatal SF_LOG_DRIVER_NO_OUTPUT_FILE [FLAGS_OUTPUT_FILE, FLAGS_OUTPUT_FILE] g)
                else sf_flags_parse rest1 (options\<lparr>op_file_output := next_arg\<rparr>) g)
      else if arg = FLAGS_DUMP_STAGES
      then sf_flags_parse rest (options\<lparr>op_dump_stages := True\<rparr>) g
      else if arg = FLAGS_MODULE_PATH
      then (let added = takeWhile (\<lambda>a. \<not> is_flag a) rest
            in if added = []
               then (options, flag_fatal SF_LOG_DRIVER_NO_MODULE_PATH [FLAGS_MODULE_PATH, FLAGS_MODULE_PATH] g)
               else sf_flags_parse (dropWhile (\<lambda>a. \<not> is_flag a) rest)
                      (options\<lparr>op_module_paths := op_module_paths options @ added\<rparr>) g)
      else if arg = FLAGS_MODULE
      then sf_flags_parse rest (options\<lparr>op_is_module := True\<rparr>) g
      else sf_flags_parse rest options (flag_fatal SF_LOG_DRIVER_UNKNOWN_FLAG [arg] g))"
  by pat_completeness auto

termination
  by (relation "measure (\<lambda>(args, options, g). length args)") (auto simp: le_imp_less_Suc length_dropWhile_le)

section \<open>The start of main\<close>

definition SF_STDLIB_DIR :: string where
  "SF_STDLIB_DIR = ''/usr/local/share/sulfur''"

definition include_stdlib :: "sf_compiler_options \<Rightarrow> sf_compiler_options" where
  "include_stdlib options = options\<lparr>op_module_paths := op_module_paths options @ [SF_STDLIB_DIR]\<rparr>"

definition default_options :: sf_compiler_options where
  "default_options = \<lparr>op_file_input = ''input.slfr'', op_file_output = ''output.asm'', op_dump_stages = False,
     op_is_module = False, op_module_paths = []\<rparr>"

text \<open>\<^verbatim>\<open>main\<close> until it calls \<^verbatim>\<open>compilation_run\<close>: the options, or \<open>None\<close> when it goes to its cleanup.\<close>

definition main_options :: "string list \<Rightarrow> sf_compiler_options option \<times> sf_log_state" where
  "main_options args =
     (case sf_flags_parse args default_options sf_log_init of
        (options, g) \<Rightarrow>
          if sf_log_had_fatal g then (None, g)
          else (let options1 = include_stdlib options
                in if op_is_module options1 \<and>
                      sf_module_name_from_path (op_file_input options1) (op_module_paths options1) = None
                   then (None, flag_fatal SF_LOG_DRIVER_UNKNOWN_FLAG [op_file_input options1] g)
                   else (Some options1, g)))"

section \<open>The front end\<close>

text \<open>\<^verbatim>\<open>compilation_run\<close> until the program is analysed. The result is the annotated program, its functions
  and the module list, or \<open>None\<close> when an error ends the compilation.\<close>

definition compilation_front ::
  "(string \<Rightarrow> string option) \<Rightarrow> nat \<Rightarrow> sf_compiler_options \<Rightarrow> sf_log_state \<Rightarrow>
   ((sf_program_node \<times> sf_module_list) option \<times> sf_log_state) option" where
  "compilation_front fs n options g =
     (case sf_file_read fs (op_file_input options) g of
        (None, g1) \<Rightarrow> Some (None, g1)
      | (Some (input_source, input_size), g1) \<Rightarrow>
          (case sf_preprocess (\<lambda>_. True) input_source input_size (op_file_input options) g1 of
             (preprocessed, g2) \<Rightarrow>
               if sf_log_had_errors g2 then Some (None, g2)
               else (case sf_tokenize (\<lambda>_. True) (the preprocessed) (op_file_input options) g2 of
                       (tokens, g3) \<Rightarrow>
                         if sf_log_had_errors g3 then Some (None, g3)
                         else (case sf_parse (tl_tokens tokens) (op_file_input options) g3 of
                                 None \<Rightarrow> None
                               | Some (ast, g4) \<Rightarrow>
                                   if sf_log_had_errors g4 then Some (None, g4)
                                   else (case sf_module_resolve fs n (pr_imports ast) (op_file_input options) []
                                                (op_module_paths options) g4 of
                                           None \<Rightarrow> None
                                         | Some (imports, modules, g5) \<Rightarrow>
                                             if sf_log_had_errors g5 then Some (None, g5)
                                             else (case sf_analyze n (ast\<lparr>pr_imports := imports\<rparr>) (op_file_input options)
                                                          options modules g5 of
                                                     None \<Rightarrow> None
                                                   | Some (ok, ast1, funcs, modules1, g6) \<Rightarrow>
                                                       if sf_log_had_errors g6 then Some (None, g6)
                                                       else Some (Some (ast1, modules1), g6)))))))"

text \<open>The front end of the program's own file is that of a module, followed by the resolution of its imports
  and the analysis.\<close>

lemma compilation_front_load:
  "compilation_front fs n options g =
     (case load_program fs (op_file_input options) g of
        None \<Rightarrow> None
      | Some (None, g4) \<Rightarrow> Some (None, g4)
      | Some (Some ast, g4) \<Rightarrow>
          (case sf_module_resolve fs n (pr_imports ast) (op_file_input options) [] (op_module_paths options) g4 of
             None \<Rightarrow> None
           | Some (imports, modules, g5) \<Rightarrow>
               if sf_log_had_errors g5 then Some (None, g5)
               else (case sf_analyze n (ast\<lparr>pr_imports := imports\<rparr>) (op_file_input options) options modules g5 of
                       None \<Rightarrow> None
                     | Some (ok, ast1, funcs, modules1, g6) \<Rightarrow>
                         if sf_log_had_errors g6 then Some (None, g6) else Some (Some (ast1, modules1), g6))))"
proof (cases "fs (op_file_input options)")
  case None
  then show ?thesis by (simp add: compilation_front_def load_program_def sf_file_read_def)
next
  case (Some content)
  let ?f = "op_file_input options"
  obtain input where read: "sf_file_read fs ?f g = (Some (input, length content), g)"
    by (simp add: sf_file_read_def Some Let_def)
  obtain pre where pre: "sf_preprocess (\<lambda>_. True) input (length content) ?f g = (Some pre, g)"
    by (simp add: sf_preprocess_def Let_def)
  obtain tokens g3 where tok: "sf_tokenize (\<lambda>_. True) pre ?f g = (tokens, g3)" by fastforce
  show ?thesis
    by (cases "sf_parse (tl_tokens tokens) ?f g3") (auto simp: compilation_front_def load_program_def read pre tok)
qed

end
