(* ===== verification/Compile.thy ===== *)
theory Compile
  imports Driver Codegen
begin

text \<open>
  The whole compiler: \<^verbatim>\<open>compilation_run\<close> and \<^verbatim>\<open>main\<close> of \<^verbatim>\<open>driver/main.c\<close>, with the back end after the front end
  of \<open>Driver\<close>, and what is left of \<^verbatim>\<open>utils/file.c\<close>. Writing files is a parameter: \<open>writable\<close> tells the paths
  that \<^verbatim>\<open>fopen\<close> opens for writing, \<open>mkdir\<close> is the system call on a state of directories. A compilation ends with a
  result and the file it wrote, or it crashes: the lowering uses a null pointer or the code
  generator aborts. The dump of the stages prints text and changes nothing.
\<close>

section \<open>Files\<close>

definition sf_file_write :: "(string \<Rightarrow> bool) \<Rightarrow> string \<Rightarrow> sf_log_state \<Rightarrow> bool \<times> sf_log_state" where
  "sf_file_write writable filename g =
     (if \<not> writable filename
      then (False, sf_log (Some filename) SF_LOG_DRIVER_CANNOT_OPEN_FILE sf_span_zero SF_LOG_SEVERITY_FATAL [filename] g)
      else (True, g))"

datatype mkdir_result = Created | Exists | Failed

text \<open>The loop of \<^verbatim>\<open>sf_file_make_parents\<close>: \<open>prefix\<close> is the path before \<open>p\<close>.\<close>

fun make_parents :: "(string \<Rightarrow> 'd \<Rightarrow> mkdir_result \<times> 'd) \<Rightarrow> string \<Rightarrow> string \<Rightarrow> 'd \<Rightarrow> bool \<times> 'd" where
  "make_parents mkdir prefix [] d = (True, d)"
| "make_parents mkdir prefix (c # rest) d =
     (if c \<noteq> CHR ''/'' then make_parents mkdir (prefix @ [c]) rest d
      else (case mkdir prefix d of
              (Failed, d1) \<Rightarrow> (False, d1)
            | (_, d1) \<Rightarrow> make_parents mkdir (prefix @ [c]) rest d1))"

definition sf_file_make_parents :: "(string \<Rightarrow> 'd \<Rightarrow> mkdir_result \<times> 'd) \<Rightarrow> string \<Rightarrow> 'd \<Rightarrow> bool \<times> 'd" where
  "sf_file_make_parents mkdir path d = make_parents mkdir (take 1 path) (drop 1 path) d"

section \<open>The back end\<close>

definition sf_optimize :: "sf_ir_program \<Rightarrow> sf_ir_program" where
  "sf_optimize ir = ir"

datatype compilation_end =
    Crashed
  | Finished bool "(string \<times> string) option" sf_log_state

text \<open>The rest of \<^verbatim>\<open>compilation_run\<close>. Nothing is logged between the stages of the back end, since memory is
  available.\<close>

definition compilation_back :: "(string \<Rightarrow> bool) \<Rightarrow> sf_compiler_options \<Rightarrow> sf_program_node \<Rightarrow> sf_log_state \<Rightarrow> compilation_end" where
  "compilation_back writable options ast g =
     (case sf_ir_generate ast of
        None \<Rightarrow> Crashed
      | Some ir \<Rightarrow>
          if sf_log_had_errors g then Finished False None g
          else (case sf_generate_assembly (sf_optimize ir) (\<not> op_is_module options) of
                  None \<Rightarrow> Crashed
                | Some assembly \<Rightarrow>
                    if sf_log_had_errors g then Finished False None g
                    else (case sf_file_write writable (op_file_output options) g of
                            (ok, g1) \<Rightarrow> Finished ok (if ok then Some (op_file_output options, assembly) else None) g1)))"

definition compilation_run :: "(string \<Rightarrow> string option) \<Rightarrow> (string \<Rightarrow> bool) \<Rightarrow> nat \<Rightarrow> sf_compiler_options \<Rightarrow> sf_log_state \<Rightarrow>
   compilation_end option" where
  "compilation_run fs writable n options g =
     (case compilation_front fs n options g of
        None \<Rightarrow> None
      | Some (None, g1) \<Rightarrow> Some (Finished False None g1)
      | Some (Some (ast, modules), g1) \<Rightarrow> Some (compilation_back writable options ast g1))"

definition main :: "(string \<Rightarrow> string option) \<Rightarrow> (string \<Rightarrow> bool) \<Rightarrow> nat \<Rightarrow> string list \<Rightarrow> compilation_end option" where
  "main fs writable n args =
     (case main_options args of
        (None, g) \<Rightarrow> Some (Finished False None g)
      | (Some options, g) \<Rightarrow> compilation_run fs writable n options g)"

end
