(* ===== verification/Module_Facts.thy ===== *)
theory Module_Facts
  imports Module_Resolve
begin

text \<open>
  What the resolution of imports promises: it terminates whatever files there are, because an
  import path is shorter than the buffer of the parser and a name is loaded once; and when it logs
  no error, the module list is the closure of the imports: every import points to the module of
  the file that the search selects, every module was loaded, and no file was loaded twice.
\<close>

section \<open>Loading one file\<close>

lemma remove_comments_length: "length (remove_comments s) \<le> length s"
proof (induction s rule: remove_comments.induct)
  case (2 c cs)
  show ?case
  proof (cases "c = CHR ''/'' \<and> cs \<noteq> [] \<and> hd cs = CHR ''/''")
    case True
    have "length (remove_comments (dropWhile (\<lambda>ch. ch \<noteq> CHR 0x0A) (c # cs))) \<le> length (c # cs)"
      using 2(1) [OF True] length_dropWhile_le [of "\<lambda>ch. ch \<noteq> CHR 0x0A" "c # cs"] by linarith
    then show ?thesis using True by (subst remove_comments.simps) simp
  next
    case False
    then show ?thesis using 2(2) [OF False] by (subst remove_comments.simps) (auto simp del: remove_comments.simps)
  qed
qed simp

lemma preprocess_length:
  "sf_preprocess (\<lambda>_. True) src n f g = (Some out, g') \<Longrightarrow> length out \<le> n \<and> g' = g"
proof -
  assume p: "sf_preprocess (\<lambda>_. True) src n f g = (Some out, g')"
  let ?s = "takeWhile (\<lambda>c. c \<noteq> CHR 0x00) (take n src)"
  have "length out \<le> length (remove_carriage_return ?s)"
    using p remove_comments_length by (auto simp: sf_preprocess_def Let_def)
  also have "\<dots> \<le> length ?s" by (simp add: remove_carriage_return_filter)
  also have "\<dots> \<le> n" using length_takeWhile_le [of "\<lambda>c. c \<noteq> CHR 0x00" "take n src"] by simp
  finally show "length out \<le> n \<and> g' = g" using p by (simp add: sf_preprocess_def Let_def)
qed

definition new_import :: "sf_import_node \<Rightarrow> bool" where
  "new_import i \<longleftrightarrow> length (im_path i) < IMPORT_PATH_SIZE \<and> \<not> im_resolved i"

lemma sf_parse_result:
  assumes "tokens = ts @ [eof]" "tk_type eof = SF_TOKEN_TYPE_EOF"
  shows "\<exists>program g'. sf_parse tokens filename g = Some (program, g') \<and> g_error_count g \<le> g_error_count g' \<and>
    (log_inv g \<longrightarrow> log_inv g') \<and> (\<forall>i \<in> set (pr_imports program). new_import i)"
proof -
  let ?p = "\<lparr>ps_tokens = tokens, ps_current = 0, ps_filename = filename, ps_log = g\<rparr>"
  have "parser_ok ?p" using assms by (simp add: parser_ok_def)
  moreover have "Suc (parser_left ?p) < length tokens + 2" by (simp add: parser_left_def)
  ultimately obtain program' p' where run: "parse_program_loop (length tokens + 2) ?p sf_new_program_node = Some (program', p')"
    and follows: "parser_follows ?p p'"
    using parse_program_loop_returns by blast
  have top: "sf_parse_top_level n p = Some (Some (Top_Import i), p1) \<Longrightarrow> new_import i" for n p i p1
    using parse_import_new [of n p i] by (auto simp: sf_parse_top_level_def Let_def new_import_def split: if_splits option.splits prod.splits)
  have "\<forall>i \<in> set (pr_imports program'). case Top_Import i of Top_Import i \<Rightarrow> new_import i | Top_Stmt st \<Rightarrow> True"
    by (rule conjunct1, rule parse_program_loop_all [OF _ run]) (auto dest: top simp: sf_new_program_node_def split: top_level_node.splits)
  then show ?thesis using run assms follows by (auto simp: sf_parse_def parser_follows_def parser_errors_def)
qed

text \<open>Files are smaller than the token arrays can count.\<close>

definition small_files :: "(string \<Rightarrow> string option) \<Rightarrow> bool" where
  "small_files fs \<longleftrightarrow> (\<forall>name content. fs name = Some content \<longrightarrow> length content < 2 ^ 54)"

lemma load_program_result:
  assumes "small_files fs"
  obtains ast g' where "load_program fs filename g = Some (ast, g')" "g_error_count g \<le> g_error_count g'"
    "log_inv g \<Longrightarrow> log_inv g'" "ast = None \<longleftrightarrow> 0 < g_error_count g'"
    "\<And>program. ast = Some program \<Longrightarrow> \<forall>i \<in> set (pr_imports program). new_import i"
proof (cases "fs filename")
  case None
  let ?g = "sf_log (Some filename) SF_LOG_DRIVER_CANNOT_OPEN_FILE sf_span_zero SF_LOG_SEVERITY_FATAL [filename] g"
  show ?thesis
  proof (rule that)
    show "load_program fs filename g = Some (None, ?g)" by (simp add: load_program_def sf_file_read_def None)
    have "g_error_count ?g = Suc (g_error_count g)"
      by (rule sf_log_error_count) (simp add: less_eq_sf_log_severity_def)
    then show "g_error_count g \<le> g_error_count ?g" "(None :: sf_program_node option) = None \<longleftrightarrow> 0 < g_error_count ?g"
      by simp_all
  qed simp_all
next
  case (Some content)
  have len: "length content < 2 ^ 54" using assms Some by (simp add: small_files_def)
  obtain input where read: "sf_file_read fs filename g = (Some (input, length content), g)"
    by (simp add: sf_file_read_def Some Let_def)
  obtain pre where pre: "sf_preprocess (\<lambda>_. True) input (length content) filename g = (Some pre, g)"
    by (simp add: sf_preprocess_def Let_def)
  then have pre_len: "length pre < 2 ^ 54" using preprocess_length [OF pre] len by simp
  obtain tokens g3 where tok: "sf_tokenize (\<lambda>_. True) pre filename g = (tokens, g3)" by fastforce
  from sf_tokenize_result [of "\<lambda>_. True" pre filename g] pre_len tok obtain lx where
    lx: "lexer_inv g lx" "tl_tokens tokens = tl_tokens (lx_list lx) @ [make_token SF_TOKEN_TYPE_EOF (lexer_span_here lx)]"
      "g3 = lx_log lx" by auto
  then have g3: "g_error_count g \<le> g_error_count g3" "log_inv g \<Longrightarrow> log_inv g3" by (simp_all add: lexer_inv_def)
  from sf_parse_result [OF lx(2), of filename g3] obtain program g4 where
    parse: "sf_parse (tl_tokens tokens) filename g3 = Some (program, g4)" "g_error_count g3 \<le> g_error_count g4"
      "log_inv g3 \<longrightarrow> log_inv g4" "\<forall>i \<in> set (pr_imports program). new_import i"
    by (auto simp: make_token_def)
  consider (early) "0 < g_error_count g" | (lex) "g_error_count g = 0" "0 < g_error_count g3"
    | (parsed) "g_error_count g = 0" "g_error_count g3 = 0" by linarith
  then show ?thesis
  proof cases
    case early
    show ?thesis
      by (rule that [of None g]) (use early in \<open>simp_all add: load_program_def read pre sf_log_had_errors_def\<close>)
  next
    case lex
    show ?thesis
      by (rule that [of None g3]) (use lex g3 in \<open>simp_all add: load_program_def read pre tok sf_log_had_errors_def\<close>)
  next
    case parsed
    show ?thesis
      by (rule that [of "if 0 < g_error_count g4 then None else Some program" g4])
         (use parsed g3 parse in \<open>auto simp: load_program_def read pre tok sf_log_had_errors_def split: if_splits\<close>)
  qed
qed

section \<open>Names that can be searched\<close>

definition short_paths :: "string set" where
  "short_paths = {path. length path < IMPORT_PATH_SIZE}"

definition searched_names :: "string list \<Rightarrow> string set" where
  "searched_names paths = short_paths \<union> (\<lambda>(dir, path). join_path dir path) ` (set paths \<times> short_paths)"

lemma finite_short_paths: "finite short_paths"
proof -
  have "short_paths \<subseteq> {path. set path \<subseteq> (UNIV :: char set) \<and> length path \<le> IMPORT_PATH_SIZE}" by (auto simp: short_paths_def)
  then show ?thesis by (rule finite_subset) (rule finite_lists_length_le, simp)
qed

lemma finite_searched_names: "finite (searched_names paths)"
  by (simp add: searched_names_def finite_short_paths)

lemma find_in_paths_searched:
  "find_in_paths fs p dirs = Some f \<Longrightarrow> \<exists>dir \<in> set dirs. f = join_path dir p \<and> file_exists fs f"
  by (induction dirs) (auto split: if_splits)

lemma find_module_path_searched:
  "find_module_path fs p paths = Some f \<Longrightarrow> length p < IMPORT_PATH_SIZE \<Longrightarrow> f \<in> searched_names paths"
  by (auto simp: find_module_path_def searched_names_def short_paths_def split: if_splits dest!: find_in_paths_searched)

lemma find_module_index_Some:
  "find_module_index ms f = Some i \<Longrightarrow> i < length ms \<and> md_filename (ms ! i) = f"
  by (induction ms arbitrary: i) (auto split: if_splits)

lemma find_module_index_None: "find_module_index ms f = None \<longleftrightarrow> f \<notin> md_filename ` set ms"
  by (induction ms) auto

section \<open>The contract\<close>

definition module_list_ok :: "string list \<Rightarrow> sf_module_list \<Rightarrow> bool" where
  "module_list_ok paths ms \<longleftrightarrow> distinct (map md_filename ms) \<and> md_filename ` set ms \<subseteq> searched_names paths"

definition room :: "string list \<Rightarrow> sf_module_list \<Rightarrow> nat" where
  "room paths ms = card (searched_names paths - md_filename ` set ms)"

definition list_extends :: "'a list \<Rightarrow> 'a list \<Rightarrow> bool" where
  "list_extends xs ys \<longleftrightarrow> take (length xs) ys = xs"

lemma list_extendsI: "ys = xs @ zs \<Longrightarrow> list_extends xs ys"
  by (simp add: list_extends_def)

lemma list_extendsD: "list_extends xs ys \<Longrightarrow> \<exists>zs. ys = xs @ zs"
  by (metis append_take_drop_id list_extends_def)

lemma list_extends_refl [simp]: "list_extends xs xs"
  by (simp add: list_extends_def)

lemma list_extends_trans: "list_extends xs ys \<Longrightarrow> list_extends ys zs \<Longrightarrow> list_extends xs zs"
  by (metis append.assoc list_extendsD list_extendsI)

lemma list_extends_nth: "list_extends xs ys \<Longrightarrow> i < length xs \<Longrightarrow> i < length ys \<and> ys ! i = xs ! i"
  by (auto dest!: list_extendsD simp: nth_append)

text \<open>An import after its resolution, and a module after its load: its program is the one its file
  parses to, with every import resolved.\<close>

definition import_resolved ::
  "(string \<Rightarrow> string option) \<Rightarrow> string list \<Rightarrow> sf_module_list \<Rightarrow> sf_import_node \<Rightarrow> sf_import_node \<Rightarrow> bool" where
  "import_resolved fs paths ms i i' \<longleftrightarrow> im_path i' = im_path i \<and> im_base i' = im_base i \<and> im_resolved i' \<and>
     im_module_index i' < length ms \<and>
     find_module_path fs (im_path i) paths = Some (md_filename (ms ! im_module_index i'))"

definition module_loaded :: "(string \<Rightarrow> string option) \<Rightarrow> string list \<Rightarrow> sf_module_list \<Rightarrow> sf_module \<Rightarrow> bool" where
  "module_loaded fs paths ms m \<longleftrightarrow> md_state m = SF_MODULE_STATE_LOADED \<and> md_analysis m = SF_MODULE_ANALYSIS_PENDING \<and>
     (\<exists>ast ast' g g'. load_program fs (md_filename m) g = Some (Some ast, g') \<and> md_ast m = Some ast' \<and>
        pr_statements ast' = pr_statements ast \<and>
        list_all2 (import_resolved fs paths ms) (pr_imports ast) (pr_imports ast'))"

lemma import_resolved_mono:
  assumes "list_extends (map md_filename ms) (map md_filename ms')" "import_resolved fs paths ms i i'"
  shows "import_resolved fs paths ms' i i'"
  using assms(2) list_extends_nth [OF assms(1), of "im_module_index i'"] by (auto simp: import_resolved_def)

lemma module_loaded_mono:
  assumes "list_extends (map md_filename ms) (map md_filename ms')" "module_loaded fs paths ms m"
  shows "module_loaded fs paths ms' m"
proof -
  from assms(2) obtain ast ast' g g' where m: "md_state m = SF_MODULE_STATE_LOADED" "md_analysis m = SF_MODULE_ANALYSIS_PENDING"
    "load_program fs (md_filename m) g = Some (Some ast, g')" "md_ast m = Some ast'"
    "pr_statements ast' = pr_statements ast" "list_all2 (import_resolved fs paths ms) (pr_imports ast) (pr_imports ast')"
    unfolding module_loaded_def by blast
  from m(6) have "list_all2 (import_resolved fs paths ms') (pr_imports ast) (pr_imports ast')"
    by (rule list_all2_mono) (rule import_resolved_mono [OF assms(1)])
  with m show ?thesis unfolding module_loaded_def by blast
qed

text \<open>The contract of one resolution step, of a list or of one import (a list of one).\<close>

definition resolved ::
  "(string \<Rightarrow> string option) \<Rightarrow> string list \<Rightarrow> sf_import_node list \<Rightarrow> sf_module_list \<Rightarrow> sf_log_state \<Rightarrow>
   sf_import_node list \<Rightarrow> sf_module_list \<Rightarrow> sf_log_state \<Rightarrow> bool" where
  "resolved fs paths imports ms g imports' ms' g' \<longleftrightarrow> module_list_ok paths ms' \<and> list_extends ms ms' \<and>
     g_error_count g \<le> g_error_count g' \<and> log_inv g' \<and>
     (g_error_count g' = 0 \<longrightarrow> list_all2 (import_resolved fs paths ms') imports imports' \<and>
        (\<forall>m \<in> set (drop (length ms) ms'). module_loaded fs paths ms' m))"

definition resolves ::
  "(string \<Rightarrow> string option) \<Rightarrow> string list \<Rightarrow> sf_import_node list \<Rightarrow> sf_module_list \<Rightarrow> sf_log_state \<Rightarrow>
   (sf_import_node list \<times> sf_module_list \<times> sf_log_state) option \<Rightarrow> bool" where
  "resolves fs paths imports ms g r \<longleftrightarrow>
     (\<exists>imports' ms' g'. r = Some (imports', ms', g') \<and> resolved fs paths imports ms g imports' ms' g')"

lemma no_fatal: "log_inv g \<Longrightarrow> g_error_count g = 0 \<Longrightarrow> \<not> sf_log_had_fatal g"
  by (auto simp: log_inv_def sf_log_had_fatal_def severity_error_le filter_empty_conv less_eq_sf_log_severity_def)

lemma room_mono: "list_extends ms ms' \<Longrightarrow> room paths ms' \<le> room paths ms"
  unfolding room_def
  by (rule card_mono) (auto dest!: list_extendsD simp: finite_searched_names)

lemma resolve_list_resolves:
  assumes step: "\<And>i ms g. i \<in> set imps \<Longrightarrow> module_list_ok paths ms \<Longrightarrow> room paths ms \<le> n \<Longrightarrow> log_inv g \<Longrightarrow>
      \<exists>i' ms' g'. resolve i ms g = Some (i', ms', g') \<and> resolved fs paths [i] ms g [i'] ms' g'"
    and "module_list_ok paths ms" "room paths ms \<le> n" "log_inv g"
  shows "resolves fs paths imps ms g (resolve_list resolve imps ms g)"
  using assms
proof (induction imps arbitrary: ms g)
  case Nil
  then show ?case by (simp add: resolves_def resolved_def)
next
  case (Cons i imps)
  obtain i' ms1 g1 where r: "resolve i ms g = Some (i', ms1, g1)" "resolved fs paths [i] ms g [i'] ms1 g1"
    using Cons.prems(1) [of i ms g] Cons.prems(2-4) by auto
  then have ok1: "module_list_ok paths ms1" "list_extends ms ms1" "log_inv g1" "g_error_count g \<le> g_error_count g1"
    by (simp_all add: resolved_def)
  show ?case
  proof (cases "sf_log_had_fatal g1")
    case True
    then have "g_error_count g1 \<noteq> 0" using no_fatal ok1(3) by blast
    then show ?thesis using r True by (auto simp: resolves_def resolved_def)
  next
    case False
    have "room paths ms1 \<le> n" using room_mono [OF ok1(2)] Cons.prems(3) by (rule le_trans)
    from Cons.IH [OF _ ok1(1) this ok1(3)] Cons.prems(1) obtain is' ms2 g2 where
      rest: "resolve_list resolve imps ms1 g1 = Some (is', ms2, g2)" "resolved fs paths imps ms1 g1 is' ms2 g2"
      by (auto simp: resolves_def)
    then have ext: "list_extends ms1 ms2" by (simp add: resolved_def)
    then have names: "list_extends (map md_filename ms1) (map md_filename ms2)"
      by (metis list_extends_def length_map take_map)
    have new: "set (drop (length ms) ms2) = set (drop (length ms) ms1) \<union> set (drop (length ms1) ms2)"
      using list_extendsD [OF ok1(2)] list_extendsD [OF ext] by auto
    have "resolved fs paths (i # imps) ms g (i' # is') ms2 g2"
      unfolding resolved_def
    proof (intro conjI impI)
      show "module_list_ok paths ms2" "list_extends ms ms2" "g_error_count g \<le> g_error_count g2" "log_inv g2"
        using rest(2) list_extends_trans [OF ok1(2) ext] ok1(4) by (auto simp: resolved_def)
      assume "g_error_count g2 = 0"
      then have one: "import_resolved fs paths ms1 i i'" "\<forall>m \<in> set (drop (length ms) ms1). module_loaded fs paths ms1 m"
        and two: "list_all2 (import_resolved fs paths ms2) imps is'" "\<forall>m \<in> set (drop (length ms1) ms2). module_loaded fs paths ms2 m"
        using r(2) rest(2) by (auto simp: resolved_def)
      then show "list_all2 (import_resolved fs paths ms2) (i # imps) (i' # is')"
        using import_resolved_mono [OF names] by simp
      show "\<forall>m \<in> set (drop (length ms) ms2). module_loaded fs paths ms2 m"
        using one(2) two(2) module_loaded_mono [OF names] unfolding new by blast
    qed
    then show ?thesis using r(1) rest(1) False by (simp add: resolves_def)
  qed
qed

lemma resolved_same:
  assumes "module_list_ok paths ms" "log_inv g'" "g_error_count g \<le> g_error_count g'"
    "g_error_count g' = 0 \<Longrightarrow> import_resolved fs paths ms i i'"
  shows "resolved fs paths [i] ms g [i'] ms g'"
  using assms by (simp add: resolved_def)

lemma room_snoc:
  assumes "md_filename m \<in> searched_names paths" "md_filename m \<notin> md_filename ` set ms"
  shows "room paths (ms @ [m]) < room paths ms"
  unfolding room_def
  by (rule psubset_card_mono) (use assms finite_searched_names in auto)

lemma module_list_ok_snoc:
  "module_list_ok paths ms \<Longrightarrow> md_filename m \<in> searched_names paths \<Longrightarrow> md_filename m \<notin> md_filename ` set ms \<Longrightarrow>
   module_list_ok paths (ms @ [m])"
  by (simp add: module_list_ok_def)

lemma extended_update:
  assumes "list_extends (ms @ [m]) ms2" "md_filename m' = md_filename m"
  shows "list_extends ms (ms2[length ms := m'])" "map md_filename (ms2[length ms := m']) = map md_filename ms2"
    "set (drop (length ms) (ms2[length ms := m'])) = insert m' (set (drop (Suc (length ms)) ms2))"
    "ms2 ! length ms = m" "length ms < length ms2"
proof -
  obtain zs where ms2: "ms2 = ms @ m # zs" using list_extendsD [OF assms(1)] by auto
  show "list_extends ms (ms2[length ms := m'])" "map md_filename (ms2[length ms := m']) = map md_filename ms2"
    "set (drop (length ms) (ms2[length ms := m'])) = insert m' (set (drop (Suc (length ms)) ms2))"
    "ms2 ! length ms = m" "length ms < length ms2"
    by (simp_all add: ms2 assms(2) list_extends_def)
qed

lemma module_list_ok_names:
  assumes "map md_filename ms' = map md_filename ms" "module_list_ok paths ms"
  shows "module_list_ok paths ms'"
proof -
  have "md_filename ` set ms' = md_filename ` set ms" using assms(1) by (metis list.set_map)
  then show ?thesis using assms by (simp add: module_list_ok_def)
qed

lemma resolve_import_resolves:
  assumes fs: "small_files fs"
    and rec: "\<And>imps f ms g. \<forall>i \<in> set imps. new_import i \<Longrightarrow> module_list_ok paths ms \<Longrightarrow> room paths ms < n \<Longrightarrow> log_inv g \<Longrightarrow>
      resolves fs paths imps ms g (rec imps f ms g)"
    and ms: "module_list_ok paths ms" "room paths ms \<le> n" and g: "log_inv g" and i: "length (im_path i) < IMPORT_PATH_SIZE"
  shows "\<exists>i' ms' g'. resolve_import fs paths rec importer i ms g = Some (i', ms', g') \<and> resolved fs paths [i] ms g [i'] ms' g'"
proof (cases "find_module_path fs (im_path i) paths")
  case None
  let ?g = "sf_log (Some importer) SF_LOG_MODULE_NOT_FOUND (ab_span (im_base i)) SF_LOG_SEVERITY_ERROR [im_path i] g"
  have "resolved fs paths [i] ms g [i] ms ?g"
    using ms(1) g by (intro resolved_same) (simp_all add: sf_log_error)
  then show ?thesis by (simp add: resolve_import_def None)
next
  case path: (Some f)
  show ?thesis
  proof (cases "find_module_index ms f")
    case (Some idx)
    have "resolved fs paths [i] ms g [i\<lparr>im_module_index := idx, im_resolved := True\<rparr>] ms g"
      using ms(1) g path find_module_index_Some [OF Some] by (intro resolved_same) (simp_all add: import_resolved_def)
    then show ?thesis by (simp add: resolve_import_def path Some)
  next
    case None
    then have fresh: "f \<notin> md_filename ` set ms" by (simp add: find_module_index_None)
    have name: "f \<in> searched_names paths" by (rule find_module_path_searched [OF path i])
    let ?i = "i\<lparr>im_module_index := length ms, im_resolved := True\<rparr>"
    define m where "m = \<lparr>md_state = SF_MODULE_STATE_LOADING, md_ast = None, md_filename = f, md_name = im_path i,
        md_analysis = SF_MODULE_ANALYSIS_PENDING, md_funcs = sf_func_symbol_table_init\<rparr>"
    have m: "md_filename m = f" "md_analysis m = SF_MODULE_ANALYSIS_PENDING" by (simp_all add: m_def)
    obtain r g1 where load: "load_program fs f g = Some (r, g1)" "g_error_count g \<le> g_error_count g1" "log_inv g \<Longrightarrow> log_inv g1"
      "r = None \<longleftrightarrow> 0 < g_error_count g1" "\<And>program. r = Some program \<Longrightarrow> \<forall>i \<in> set (pr_imports program). new_import i"
      using load_program_result [OF fs, of f g] by metis
    show ?thesis
    proof (cases r)
      case failed: None
      let ?m = "m\<lparr>md_state := SF_MODULE_STATE_FAILED\<rparr>"
      have "resolved fs paths [i] ms g [?i] (ms @ [?m]) g1"
        using load failed g module_list_ok_snoc [OF ms(1), of ?m] name fresh m
        by (simp add: resolved_def list_extends_def)
      then show ?thesis using load(1) failed
        by (simp add: resolve_import_def path None add_module_def Let_def m_def)
    next
      case (Some ast)
      let ?m = "m\<lparr>md_ast := Some ast\<rparr>"
      have ok1: "module_list_ok paths (ms @ [?m])" using module_list_ok_snoc [OF ms(1), of ?m] name fresh m by simp
      have "room paths (ms @ [?m]) < n" using room_snoc [of ?m paths ms] name fresh m ms(2) by simp
      from rec [OF load(5) [OF Some] ok1 this load(3) [OF g], of f] obtain imps2 ms2 g2 where
        run: "rec (pr_imports ast) f (ms @ [?m]) g1 = Some (imps2, ms2, g2)"
        and res: "resolved fs paths (pr_imports ast) (ms @ [?m]) g1 imps2 ms2 g2"
        by (auto simp: resolves_def)
      define m' where "m' = ?m\<lparr>md_ast := Some (ast\<lparr>pr_imports := imps2\<rparr>),
          md_state := (if sf_log_had_fatal g2 then SF_MODULE_STATE_FAILED else SF_MODULE_STATE_LOADED)\<rparr>"
      have ext: "list_extends (ms @ [?m]) ms2" using res by (simp add: resolved_def)
      have same_file: "md_filename m' = md_filename ?m" by (simp add: m'_def)
      note up = extended_update [OF ext same_file]
      have result: "resolve_import fs paths rec importer i ms g = Some (?i, ms2[length ms := m'], g2)"
        using load(1) Some run up(4,5)
        by (simp add: resolve_import_def path None add_module_def Let_def m_def m'_def)
      have names: "list_extends (map md_filename ms2) (map md_filename (ms2[length ms := m']))" by (simp add: up(2))
      have "resolved fs paths [i] ms g [?i] (ms2[length ms := m']) g2"
        unfolding resolved_def
      proof (intro conjI impI)
        show "module_list_ok paths (ms2[length ms := m'])"
          by (rule module_list_ok_names [OF up(2)]) (use res in \<open>simp add: resolved_def\<close>)
        show "list_extends ms (ms2[length ms := m'])" by (rule up(1))
        show "g_error_count g \<le> g_error_count g2" "log_inv g2" using res load(2) by (simp_all add: resolved_def)
        assume e: "g_error_count g2 = 0"
        show "list_all2 (import_resolved fs paths (ms2[length ms := m'])) [i] [?i]"
          using path up(5) by (simp add: import_resolved_def m'_def m)
        have imps: "list_all2 (import_resolved fs paths (ms2[length ms := m'])) (pr_imports ast) imps2"
          using res e by (auto simp: resolved_def intro: list_all2_mono [OF _ import_resolved_mono [OF names]])
        have "module_loaded fs paths (ms2[length ms := m']) m'"
          using imps load(1) Some no_fatal [of g2] res e unfolding module_loaded_def
          by (auto simp: m'_def m resolved_def)
        moreover have "\<forall>x \<in> set (drop (Suc (length ms)) ms2). module_loaded fs paths (ms2[length ms := m']) x"
          using res e module_loaded_mono [OF names] by (simp add: resolved_def)
        ultimately show "\<forall>x \<in> set (drop (length ms) (ms2[length ms := m'])). module_loaded fs paths (ms2[length ms := m']) x"
          by (simp add: up(3))
      qed
      then show ?thesis using result by blast
    qed
  qed
qed

lemma resolve_imports_resolves:
  assumes "small_files fs"
  shows "\<forall>i \<in> set imps. new_import i \<Longrightarrow> module_list_ok paths ms \<Longrightarrow> room paths ms < n \<Longrightarrow> log_inv g \<Longrightarrow>
    resolves fs paths imps ms g (resolve_imports fs paths n imps importer ms g)"
proof (induction n arbitrary: imps importer ms g)
  case (Suc n)
  have "resolves fs paths imps ms g
      (resolve_list (resolve_import fs paths (resolve_imports fs paths n) importer) imps ms g)"
  proof (rule resolve_list_resolves [where n = n])
    fix i ms g
    assume "i \<in> set imps" "module_list_ok paths ms" "room paths ms \<le> n" "log_inv g"
    then show "\<exists>i' ms' g'. resolve_import fs paths (resolve_imports fs paths n) importer i ms g = Some (i', ms', g') \<and>
        resolved fs paths [i] ms g [i'] ms' g'"
      using Suc.prems(1) by (intro resolve_import_resolves [OF assms Suc.IH, where n = n]) (auto simp: new_import_def)
  qed (use Suc.prems in auto)
  then show ?case by simp
qed simp

section \<open>The resolution, as properties\<close>

lemma start_list: "module_list_ok paths []" "room paths [] = card (searched_names paths)"
  by (simp_all add: module_list_ok_def room_def)

text \<open>C36: The resolution of imports always ends. Whatever files there are and whatever they import, cycles
  included, the depth of the recursion is at most the number of names that an import path can
  be searched under, which is finite because the parser bounds the paths; with that much fuel the
  resolution of parsed imports returns.\<close>

theorem module_resolve_total:
  assumes "small_files fs" "\<forall>i \<in> set imps. new_import i" "log_inv g" "card (searched_names paths) < n"
  shows "\<exists>imps' ms g'. sf_module_resolve fs n imps importer [] paths g = Some (imps', ms, g')"
  using resolve_imports_resolves [OF assms(1,2) start_list(1), of paths n g importer] assms(3,4)
  by (auto simp: sf_module_resolve_def start_list resolves_def)

text \<open>C16: What a resolution without errors builds. Every import of the program is resolved to an existing
  module, the one of the file that the search of its path selects; every module of the list was
  loaded from its file without an error, with the statements of that file and with its own
  imports resolved in the same way; and no file is in the list twice.\<close>

theorem module_resolve_sound:
  assumes "small_files fs" "\<forall>i \<in> set imps. new_import i" "log_inv g" "card (searched_names paths) < n"
    "sf_module_resolve fs n imps importer [] paths g = Some (imps', ms, g')" "g_error_count g' = 0"
  shows "list_all2 (import_resolved fs paths ms) imps imps' \<and> (\<forall>m \<in> set ms. module_loaded fs paths ms m) \<and>
    distinct (map md_filename ms)"
  using resolve_imports_resolves [OF assms(1,2) start_list(1), of paths n g importer] assms(3-6)
  by (auto simp: sf_module_resolve_def start_list resolves_def resolved_def module_list_ok_def)

definition empty_module :: "string \<Rightarrow> string option" where
  "empty_module = [''m.slfr'' \<mapsto> []]"

lemma empty_module_small: "small_files empty_module"
  by (simp add: small_files_def empty_module_def)

lemma module_resolve_total_witness:
  "\<exists>imps' ms g'. sf_module_resolve empty_module (Suc (card (searched_names [''lib''])))
     [sf_new_import_node ''m.slfr'' sf_span_zero] ''main.slfr'' [] [''lib''] sf_log_init = Some (imps', ms, g')"
  by (rule module_resolve_total [OF empty_module_small])
     (simp_all add: new_import_def sf_new_import_node_def log_inv_init)

lemma tokenize_empty:
  "\<exists>t. tl_tokens (fst (sf_tokenize (\<lambda>_. True) [] f g)) = [t] \<and> tk_type t = SF_TOKEN_TYPE_EOF \<and>
    snd (sf_tokenize (\<lambda>_. True) [] f g) = g"
proof -
  have loop: "tokenize_loop (\<lambda>_. True) (lexer_start [] f g) = (True, lexer_start [] f g)"
    by (subst tokenize_loop.simps) (simp add: lexer_start_def lexer_current_def)
  show ?thesis using sf_tokenize_result [of "\<lambda>_. True" "[]" f g] unfolding loop
    by (auto simp: lexer_start_def make_token_def)
qed

lemma load_empty:
  assumes "g_error_count g = 0"
  shows "load_program empty_module ''m.slfr'' g = Some (Some sf_new_program_node, g)"
proof -
  obtain tokens where tok: "sf_tokenize (\<lambda>_. True) [] ''m.slfr'' g = (tokens, g)" "\<exists>t. tl_tokens tokens = [t] \<and> tk_type t = SF_TOKEN_TYPE_EOF"
    using tokenize_empty [of "''m.slfr''" g] by (metis prod.collapse)
  then show ?thesis using assms
    by (auto simp: load_program_def sf_file_read_def empty_module_def sf_preprocess_def Let_def sf_log_had_errors_def
        sf_parse_def sf_parser_peek_def peek_at_def)
qed

lemma module_resolve_sound_witness:
  "\<exists>imps' ms g'. sf_module_resolve empty_module (Suc (Suc (card (searched_names []))))
     [sf_new_import_node ''m.slfr'' sf_span_zero] ''main.slfr'' [] [] sf_log_init = Some (imps', ms, g') \<and>
     length ms = 1 \<and> map (im_resolved) imps' = [True] \<and> distinct (map md_filename ms)"
proof -
  let ?i = "sf_new_import_node ''m.slfr'' sf_span_zero"
  let ?run = "\<lambda>n. sf_module_resolve empty_module (Suc (Suc n)) [?i] ''main.slfr'' [] [] sf_log_init"
  have path: "find_module_path empty_module ''m.slfr'' [] = Some ''m.slfr''"
    by (simp add: find_module_path_def file_exists_def empty_module_def)
  have run: "\<exists>imps' ms. ?run n = Some (imps', ms, sf_log_init) \<and> length ms = 1 \<and> map (im_resolved) imps' = [True]" for n
    by (simp add: sf_module_resolve_def resolve_import_def path sf_new_import_node_def add_module_def Let_def
        load_empty sf_log_init_def sf_new_program_node_def sf_log_had_fatal_def)
  from run [of "card (searched_names [])"] obtain imps' ms where r: "?run (card (searched_names [])) = Some (imps', ms, sf_log_init)" "length ms = 1"
    "map (im_resolved) imps' = [True]" by (elim exE conjE) (rule that)
  have "\<forall>i \<in> set [?i]. new_import i" by (simp add: new_import_def sf_new_import_node_def)
  from module_resolve_sound [OF empty_module_small this log_inv_init _ r(1)] r show ?thesis
    by (simp add: sf_log_init_def)
qed

section \<open>Module names\<close>


lemma strip_slashes_id: "xs \<noteq> [] \<Longrightarrow> last xs \<noteq> CHR ''/'' \<Longrightarrow> strip_slashes xs = xs"
  by (cases xs rule: rev_cases) (simp_all add: strip_slashes_def)

lemma strip_slashes_snoc: "strip_slashes (xs @ ''/'') = strip_slashes xs"
  by (simp add: strip_slashes_def)

lemma name_in_paths_skip:
  "\<forall>e \<in> set earlier. strip_slashes (drop_dot_slash e) = [] \<or>
      take (Suc (length (strip_slashes (drop_dot_slash e)))) file \<noteq> strip_slashes (drop_dot_slash e) @ ''/'' \<Longrightarrow>
   name_in_paths file (earlier @ paths) = name_in_paths file paths"
proof (induction earlier)
  case (Cons e es)
  then show ?case by (auto simp: Let_def take_Suc_conv_app_nth)
qed simp

lemma drop_dot_slash_append:
  "last base \<noteq> CHR ''/'' \<Longrightarrow> base \<noteq> [] \<Longrightarrow> base \<noteq> ''.'' \<Longrightarrow> drop_dot_slash (base @ rest) = drop_dot_slash base @ rest"
  by (cases base; cases "tl base") (auto simp: drop_dot_slash_def)

lemma find_in_paths_first:
  "\<forall>e \<in> set earlier. \<not> file_exists fs (join_path e path) \<Longrightarrow> file_exists fs (join_path dir path) \<Longrightarrow>
   find_in_paths fs path (earlier @ dir # later) = Some (join_path dir path)"
  by (induction earlier) simp_all

text \<open>C38: A module that is found in a search directory has the name it is imported by. When \<open>dir\<close>, written
  with or without a final slash and other than the current directory, is the first search directory
  that has a file for an import path, the path itself is no file, and the file is not below an
  earlier search directory, then the search finds the file of \<open>dir\<close>, and the name computed for this
  file is the import path again.\<close>

theorem module_name_roundtrip:
  assumes "dir = base \<or> dir = base @ ''/''" "base \<noteq> []" "base \<noteq> ''.''" "last base \<noteq> CHR ''/''" "path \<noteq> []"
    "\<forall>e \<in> set earlier. strip_slashes (drop_dot_slash e) = [] \<or>
      take (Suc (length (strip_slashes (drop_dot_slash e)))) (drop_dot_slash (join_path dir path)) \<noteq>
        strip_slashes (drop_dot_slash e) @ ''/''"
    "\<not> file_exists fs path" "file_exists fs (join_path dir path)" "\<forall>e \<in> set earlier. \<not> file_exists fs (join_path e path)"
  shows "find_module_path fs path (earlier @ dir # later) = Some (join_path dir path) \<and>
    sf_module_name_from_path (join_path dir path) (earlier @ dir # later) = Some path"
proof -
  have join: "join_path dir path = base @ ''/'' @ path"
    using assms(1,2,4) by (auto simp: join_path_def Let_def last_conv_nth nth_append)
  have drop: "drop_dot_slash (base @ rest) = drop_dot_slash base @ rest" for rest
    by (rule drop_dot_slash_append) (use assms in auto)
  have ne: "drop_dot_slash base \<noteq> []" "last (drop_dot_slash base) \<noteq> CHR ''/''"
    using assms(2-4) by (cases base; cases "tl base"; auto simp: drop_dot_slash_def split: if_splits)+
  have strip: "strip_slashes (drop_dot_slash dir) = drop_dot_slash base"
    using assms(1) drop strip_slashes_id [OF ne] by (auto simp: strip_slashes_snoc)
  have "find_module_path fs path (earlier @ dir # later) = Some (join_path dir path)"
    using assms(7) find_in_paths_first [OF assms(9,8)] by (simp add: find_module_path_def)
  moreover have "sf_module_name_from_path (join_path dir path) (earlier @ dir # later) = Some path"
    unfolding sf_module_name_from_path_def name_in_paths_skip [OF assms(6)]
    using ne by (simp add: Let_def strip join drop nth_append)
  ultimately show ?thesis by simp
qed

lemma module_name_roundtrip_witness:
  "find_module_path [''./lib/io/file.slfr'' \<mapsto> ''fn''] ''io/file.slfr'' [''src'', ''./lib/''] = Some ''./lib/io/file.slfr'' \<and>
   sf_module_name_from_path ''./lib/io/file.slfr'' [''src'', ''./lib/''] = Some ''io/file.slfr''"
  using module_name_roundtrip [of "''./lib/''" "''./lib''" "''io/file.slfr''" "[''src'']" "[''./lib/io/file.slfr'' \<mapsto> ''fn'']" "[]"]
  by (simp add: strip_slashes_def drop_dot_slash_def join_path_def Let_def file_exists_def)

text \<open>The name depends on the order of the search directories. When one directory is inside an
  earlier one, importers find the file by the short path and use it as the module name, but the
  compilation of the module itself computes the longer one, so the link names differ.\<close>

theorem module_name_depends_on_order:
  "find_module_path [''lib/sub/m.slfr'' \<mapsto> content] ''m.slfr'' [''lib'', ''lib/sub''] = Some ''lib/sub/m.slfr'' \<and>
   sf_module_name_from_path ''lib/sub/m.slfr'' [''lib'', ''lib/sub''] = Some ''sub/m.slfr''"
  by (simp add: find_module_path_def file_exists_def join_path_def Let_def sf_module_name_from_path_def drop_dot_slash_def
      strip_slashes_def)

end
