(* ===== verification/Parser_Raw.thy ===== *)
theory Parser_Raw
  imports Parser_Facts Sem_Flow
begin

text \<open>
  What the parser yields is what the analysis expects: every expression it builds is \<open>raw_ok\<close>
  and every statement \<open>raw_stmt_ok\<close>. These are statements about the trees alone, so they hold for
  every token list and every amount of fuel.
\<close>

definition yields :: "('a \<Rightarrow> bool) \<Rightarrow> 'a parsed \<Rightarrow> bool" where
  "yields P r \<longleftrightarrow> (\<forall>x p. r = Some (Some x, p) \<longrightarrow> P x)"

lemma yields_simps [simp]:
  "yields P None" "yields P (Some (None, p))" "yields P (Some (Some x, p)) \<longleftrightarrow> P x"
  by (auto simp: yields_def)

lemma yields_bind:
  assumes "yields P r" "\<And>p. yields Q (f p)" "\<And>x p. P x \<Longrightarrow> yields Q (h x p)"
  shows "yields Q (case r of None \<Rightarrow> None | Some (None, p) \<Rightarrow> f p | Some (Some x, p) \<Rightarrow> h x p)"
  using assms by (cases r; cases "the r"; cases "fst (the r)") (auto simp: yields_def)

lemma yields_if: "(c \<Longrightarrow> yields P a) \<Longrightarrow> (\<not> c \<Longrightarrow> yields P b) \<Longrightarrow> yields P (if c then a else b)"
  by simp

lemma yields_flag: "(\<And>p. yields P (a p)) \<Longrightarrow> (\<And>p. yields P (b p)) \<Longrightarrow>
    yields P (case r of (False, p) \<Rightarrow> a p | (True, p) \<Rightarrow> b p)"
  by (auto split: prod.splits bool.splits)

lemma yields_option: "(\<And>p. yields P (a p)) \<Longrightarrow> (\<And>x p. r = (Some x, p) \<Longrightarrow> yields P (b x p)) \<Longrightarrow>
    yields P (case r of (None, p) \<Rightarrow> a p | (Some x, p) \<Rightarrow> b x p)"
  by (auto split: prod.splits option.splits)

lemma yields_pair: "(\<And>x p. yields P (a x p)) \<Longrightarrow> yields P (case r of (x, p) \<Rightarrow> a x p)"
  by (auto split: prod.splits)

section \<open>Expressions\<close>

lemma postfix_op_raw: "sf_token_to_postfix_op t \<noteq> SF_OP_TYPE_UNRESOLVED \<Longrightarrow> raw_unary_op (sf_token_to_postfix_op t)"
  by (cases "tk_type t") (simp_all add: sf_token_to_postfix_op_def raw_unary_op_def sf_type_is_increment_or_decrement_def)

lemma unary_op_raw: "sf_token_to_unary_op t \<noteq> SF_OP_TYPE_UNRESOLVED \<Longrightarrow> raw_unary_op (sf_token_to_unary_op t)"
  by (cases "tk_type t") (simp_all add: sf_token_to_unary_op_def raw_unary_op_def sf_type_is_increment_or_decrement_def)

lemma binary_op_raw: "sf_token_to_binary_op t \<noteq> SF_OP_TYPE_UNRESOLVED \<Longrightarrow> raw_binary_op (sf_token_to_binary_op t)"
  by (cases "tk_type t") (simp_all add: sf_token_to_binary_op_def raw_binary_op_def sf_op_is_logical_def sf_op_is_shift_def
      sf_op_is_relational_def)

lemma expect_type_resolved:
  "sf_parser_expect_type p e = (Some t, p') \<Longrightarrow> t \<noteq> SF_VAL_TYPE_UNRESOLVED"
  by (auto simp: sf_parser_expect_type_def Let_def split: if_splits)

lemma raw_nodes:
  "raw_ok (sf_new_unary_node e op sp) \<longleftrightarrow> raw_unary_op op \<and> raw_ok e"
  "raw_ok (sf_new_binary_node l r op sp) \<longleftrightarrow> raw_binary_op op \<and> raw_ok l \<and> raw_ok r"
  "raw_ok (sf_new_cast_node e t sp) \<longleftrightarrow> t \<noteq> SF_VAL_TYPE_UNRESOLVED \<and> raw_ok e"
  "raw_ok (sf_new_identifier_node n sp)"
  "raw_ok (sf_new_literal_node v tt sp) \<longleftrightarrow> literal_token tt"
  "raw_ok (sf_new_func_call_node (sf_new_identifier_node n sp) sp')"
  by (simp_all add: sf_new_unary_node_def sf_new_binary_node_def sf_new_cast_node_def sf_new_identifier_node_def
      sf_new_literal_node_def sf_new_func_call_node_def)

lemma raw_add_argument: "raw_ok c \<Longrightarrow> raw_ok a \<Longrightarrow> raw_ok (sf_call_add_argument c a)"
  by (cases c) auto

locale raw_expression_parser =
  fixes pe :: "sf_parser \<Rightarrow> sf_expr parsed"
  assumes pe_raw: "yields raw_ok (pe p)"
begin

lemma postfix_loop_raw: "raw_ok operand \<Longrightarrow> yields raw_ok (parse_postfix_loop n p operand)"
proof (induction n arbitrary: p operand)
  case (Suc n)
  show ?case
    using Suc.IH [OF iffD2 [OF raw_nodes(1)]] Suc.prems postfix_op_raw
    by (auto simp: Let_def split: prod.splits)
qed simp

lemma arguments_raw: "raw_ok call \<Longrightarrow> yields raw_ok (parse_arguments pe n p call)"
proof (induction n arbitrary: p call)
  case (Suc n)
  show ?case
    unfolding parse_arguments.simps Let_def
    by (rule yields_bind [OF pe_raw]) (auto intro!: yields_flag Suc.IH raw_add_argument Suc.prems)
qed simp

lemma call_raw: "yields raw_ok (parse_call pe n p t)"
  unfolding parse_call_def Let_def
  by (rule yields_bind [where P = raw_ok]) (auto intro!: yields_flag arguments_raw raw_nodes)

lemma primary_raw: "yields raw_ok (parse_primary pe n p)"
  unfolding parse_primary_def Let_def
  by (auto intro!: yields_flag yields_bind [OF pe_raw] call_raw raw_nodes simp: raw_nodes(5) literal_token_def)

lemma postfix_raw: "yields raw_ok (parse_postfix pe n p)"
  unfolding parse_postfix_def by (rule yields_bind [OF primary_raw]) (auto intro!: postfix_loop_raw)

lemma unary_from_raw: "yields raw_ok (parse_unary_from pe k n p)"
proof (induction n arbitrary: p)
  case (Suc n)
  show ?case
    unfolding parse_unary_from.simps Let_def
    by (auto intro!: postfix_raw yields_bind [OF Suc.IH] simp: raw_nodes unary_op_raw)
qed simp

lemma cast_loop_raw: "raw_ok e \<Longrightarrow> yields raw_ok (parse_cast_loop n p e)"
proof (induction n arbitrary: p e)
  case (Suc n)
  show ?case
    unfolding parse_cast_loop.simps
    by (rule yields_if, rule yields_pair, rule yields_option)
       (auto intro!: Suc.IH simp: raw_nodes expect_type_resolved Suc.prems)
qed simp

lemma cast_raw: "yields raw_ok (parse_cast pe n p)"
  unfolding parse_cast_def parse_unary_def
  by (rule yields_bind [OF unary_from_raw]) (auto intro!: cast_loop_raw)

lemma binary_loop_raw:
  assumes "\<And>p. yields raw_ok (operand p)"
  shows "raw_ok left \<Longrightarrow> yields raw_ok (parse_binary_loop operand info n p left)"
proof (induction n arbitrary: p left)
  case (Suc n)
  show ?case
    unfolding parse_binary_loop.simps Let_def
    by (auto intro!: yields_pair yields_bind [OF assms] Suc.IH simp: raw_nodes binary_op_raw Suc.prems)
qed simp

lemma binary_raw: "yields raw_ok (parse_binary pe n p level)"
proof (induction "SF_BINARY_LEVEL_COUNT - level" arbitrary: level p)
  case 0
  then show ?case by (subst parse_binary.simps) (simp add: cast_raw)
next
  case (Suc k)
  then have IH: "yields raw_ok (parse_binary pe n q (level + 1))" for q by simp
  show ?case
    by (subst parse_binary.simps)
       (auto intro!: cast_raw yields_bind [OF IH] binary_loop_raw [OF IH] simp del: add_Suc_right One_nat_def Suc_eq_plus1)
qed

end

lemma raw_expression_parser_any: "raw_expression_parser (sf_parse_expression n)"
proof (induction n)
  case (Suc n)
  show ?case
  proof
    fix p show "yields raw_ok (sf_parse_expression (Suc n) p)"
      using raw_expression_parser.binary_raw [OF Suc] by simp
  qed
qed (unfold_locales, simp)

interpretation raw_expr: raw_expression_parser "sf_parse_expression n" for n
  by (rule raw_expression_parser_any)

section \<open>Statements\<close>

lemma return_type_resolved: "parse_return_type p = (Some t, p') \<Longrightarrow> t \<noteq> SF_VAL_TYPE_UNRESOLVED"
  by (auto simp: parse_return_type_def Let_def token_is_type_iff split: if_splits)

lemma var_decl_raw: "yields raw_stmt_ok (parse_var_decl n p q)"
  unfolding parse_var_decl_def
  by (rule yields_option, simp, rule yields_option, simp,
      rule yields_bind [where P = "\<lambda>v. case v of None \<Rightarrow> True | Some e \<Rightarrow> raw_ok e"])
     (auto intro!: yields_flag yields_bind [OF raw_expr.pe_raw] simp: sf_new_var_decl_node_def expect_type_resolved
       split: option.splits)

text \<open>A function declaration under construction: everything but the return type is settled.\<close>

fun raw_header :: "sf_stmt \<Rightarrow> bool" where
  "raw_header (SF_NODE_FUNC_DECL _ _ _ _ ps _ body) \<longleftrightarrow>
     (\<forall>p \<in> set ps. pm_type p \<noteq> SF_VAL_TYPE_UNRESOLVED) \<and> body = None"
| "raw_header _ \<longleftrightarrow> False"

lemma raw_header_parameter: "raw_header f \<Longrightarrow> pm_type p \<noteq> SF_VAL_TYPE_UNRESOLVED \<Longrightarrow> raw_header (sf_function_add_parameter f p)"
  by (cases f) auto

lemma raw_header_complete:
  "raw_header f \<Longrightarrow> t \<noteq> SF_VAL_TYPE_UNRESOLVED \<Longrightarrow> (case body of None \<Rightarrow> True | Some st \<Rightarrow> raw_stmt_ok st \<and> \<not> is_var_decl st) \<Longrightarrow>
   raw_stmt_ok (func_set_body body (func_set_return_type t f))"
  by (cases f) auto

lemma parameters_raw: "raw_header f \<Longrightarrow> yields raw_header (parse_parameters n p f)"
proof (induction n arbitrary: p f)
  case (Suc n)
  show ?case
    unfolding parse_parameters.simps Let_def
    by (rule yields_pair, rule yields_option, simp, rule yields_option, simp, rule yields_flag)
       (auto intro!: Suc.IH raw_header_parameter Suc.prems simp: expect_type_resolved)
qed simp

lemma assign_raw: "yields raw_stmt_ok (parse_var_assign n p)"
  unfolding parse_var_assign_def Let_def
  by (rule yields_pair, rule yields_pair, rule yields_bind [OF raw_expr.pe_raw])
     (auto intro!: yields_flag simp: sf_new_var_assign_node_def raw_nodes binary_op_raw)

lemma return_raw: "yields raw_stmt_ok (parse_return n p)"
  unfolding parse_return_def
  by (rule yields_pair, rule yields_bind [where P = "\<lambda>v. case v of None \<Rightarrow> True | Some e \<Rightarrow> raw_ok e"])
     (auto intro!: yields_flag yields_bind [OF raw_expr.pe_raw] simp: sf_new_return_node_def)

lemma expr_stmt_raw: "yields raw_stmt_ok (parse_expr_stmt n p)"
  unfolding parse_expr_stmt_def by (rule yields_bind [OF raw_expr.pe_raw]) (auto intro!: yields_flag)

definition raw_block :: "sf_stmt \<Rightarrow> bool" where
  "raw_block st \<longleftrightarrow> raw_stmt_ok st \<and> \<not> is_var_decl st"

locale raw_statement_parser =
  fixes ps :: "sf_parser \<Rightarrow> sf_stmt parsed"
  assumes ps_raw: "yields raw_stmt_ok (ps p)"
begin

lemma block_loop_raw: "(\<exists>b sts. block = SF_NODE_BLOCK b sts) \<Longrightarrow> raw_stmt_ok block \<Longrightarrow> yields raw_block (parse_block_loop ps n p block)"
proof (induction n arbitrary: p block)
  case (Suc n)
  then have raw: "raw_block block" by (auto simp: raw_block_def)
  show ?case
  proof (cases "ps p")
    case (Some r)
    show ?thesis
    proof (cases "fst r")
      case (Some st)
      then have "raw_stmt_ok st" using ps_raw [of p] \<open>ps p = Some r\<close> by (cases r) simp
      then have "yields raw_block (parse_block_loop ps n q (sf_block_add_statement block st))" for q
        using Suc.prems by (intro Suc.IH) auto
      then show ?thesis using Some \<open>ps p = Some r\<close> Suc.prems raw by (cases r) auto
    next
      case None
      then show ?thesis using \<open>ps p = Some r\<close> Suc.IH [OF Suc.prems] Suc.prems raw by (cases r) auto
    qed
  qed (use raw in auto)
qed simp

lemma block_raw: "yields raw_block (parse_block ps n p)"
  unfolding parse_block_def Let_def
  by (rule yields_flag, simp, rule yields_bind [OF block_loop_raw])
     (auto intro!: yields_flag simp: sf_new_block_node_def)

lemma func_decl_raw: "yields raw_stmt_ok (parse_func_decl ps n p q)"
  unfolding parse_func_decl_def Let_def
proof (rule yields_pair, rule yields_option, simp, rule yields_flag, simp, rule yields_bind [where P = raw_header])
  fix t1 p1 t2 p2 p3
  show "yields raw_header (if tk_type (sf_parser_peek p3) \<noteq> SF_TOKEN_TYPE_RPAREN
      then parse_parameters n p3 (sf_new_func_decl_node (tk_value t2) SF_VAL_TYPE_UNRESOLVED q (tk_span t1))
      else Some (Some (sf_new_func_decl_node (tk_value t2) SF_VAL_TYPE_UNRESOLVED q (tk_span t1)), p3))"
    by (auto intro!: parameters_raw simp: sf_new_func_decl_node_def)
next
  fix f p4
  assume f: "raw_header f"
  show "yields raw_stmt_ok (case sf_parser_expect p4 SF_TOKEN_TYPE_RPAREN of
      (True, p5) \<Rightarrow> (case parse_return_type p5 of (None, p6) \<Rightarrow> Some (None, p6)
        | (Some return_type, p6) \<Rightarrow>
            if tk_type (sf_parser_peek p6) = SF_TOKEN_TYPE_LBRACE
            then (case parse_block ps n p6 of None \<Rightarrow> None | Some (None, p7) \<Rightarrow> Some (None, sf_parser_recover_statement p7)
              | Some (Some block, p7) \<Rightarrow> Some (Some (func_set_body (Some block) (func_set_return_type return_type f)), p7))
            else if tk_type (sf_parser_peek p6) = SF_TOKEN_TYPE_SEMICOLON
            then Some (Some (func_set_body None (func_set_return_type return_type f)), snd (sf_parser_advance p6))
            else Some (None, sf_parser_recover_statement (sf_parser_report_unexpected p6 (sf_parser_peek p6)
                  (quoted ''{'' @ '' or '' @ quoted '';''))))
    | (False, p5) \<Rightarrow> Some (None, sf_parser_recover_statement p5))"
    by (rule yields_flag, simp, rule yields_option, simp, intro yields_if yields_bind [OF block_raw])
       (auto intro!: raw_header_complete f return_type_resolved simp: raw_block_def)
qed simp

lemma decl_raw: "yields raw_stmt_ok (parse_decl ps n p)"
  unfolding parse_decl_def Let_def
  by (rule yields_pair) (auto intro!: func_decl_raw var_decl_raw)

lemma if_raw: "yields raw_block (parse_if ps n k p)"
proof (induction k arbitrary: p)
  case (Suc k)
  show ?case
    unfolding parse_if.simps
  proof (rule yields_pair, rule yields_bind [OF raw_expr.pe_raw], simp, rule yields_bind [OF block_raw], simp, rule yields_flag)
    fix t p1 c p2 b p3 p4
    assume c: "raw_ok c" and b: "raw_block b"
    then show "yields raw_block (Some (Some (sf_new_if_node c b None (tk_span t)), p4))"
      by (simp add: raw_block_def sf_new_if_node_def)
    have "yields raw_block (if tk_type (sf_parser_peek p4) = SF_TOKEN_TYPE_KW_IF then parse_if ps n k p4 else parse_block ps n p4)"
      using Suc.IH block_raw by simp
    then show "yields raw_block (case if tk_type (sf_parser_peek p4) = SF_TOKEN_TYPE_KW_IF then parse_if ps n k p4 else parse_block ps n p4 of
        None \<Rightarrow> None | Some (None, p5) \<Rightarrow> Some (None, sf_parser_recover_statement p5)
      | Some (Some branch_else, p5) \<Rightarrow> Some (Some (sf_new_if_node c b (Some branch_else) (tk_span t)), p5))"
      by (rule yields_bind) (use b c in \<open>simp_all add: raw_block_def sf_new_if_node_def\<close>)
  qed
qed simp

lemma while_raw: "yields raw_block (parse_while ps n p)"
  unfolding parse_while_def
  by (rule yields_pair, rule yields_bind [OF raw_expr.pe_raw], simp, rule yields_bind [OF block_raw])
     (simp_all add: raw_block_def sf_new_while_node_def)

lemma statement_raw: "yields raw_stmt_ok (parse_statement ps n p)"
proof -
  have weak: "yields raw_block r \<Longrightarrow> yields raw_stmt_ok r" for r by (simp add: yields_def raw_block_def)
  show ?thesis
    unfolding parse_statement_def Let_def
    by (auto intro!: decl_raw assign_raw weak [OF block_raw] weak [OF if_raw] weak [OF while_raw] return_raw expr_stmt_raw)
qed

end

lemma raw_statement_parser_any: "raw_statement_parser (sf_parse_statement n)"
proof (induction n)
  case (Suc n)
  show ?case
  proof
    fix p show "yields raw_stmt_ok (sf_parse_statement (Suc n) p)"
      using raw_statement_parser.statement_raw [OF Suc] by simp
  qed
qed (unfold_locales, simp)

interpretation raw_stmt: raw_statement_parser "sf_parse_statement n" for n
  by (rule raw_statement_parser_any)

lemma top_level_raw: "sf_parse_top_level n p = Some (Some (Top_Stmt st), p') \<Longrightarrow> raw_stmt_ok st"
  using raw_stmt.decl_raw [of n n p]
  by (auto simp: sf_parse_top_level_def Let_def split: if_splits option.splits)

lemma sf_parse_raw:
  assumes "sf_parse tokens filename g = Some (program, g')"
  shows "\<forall>st \<in> set (pr_statements program). raw_stmt_ok st"
proof (cases "tokens = []")
  case False
  then obtain p' where run: "parse_program_loop (length tokens + 2)
      \<lparr>ps_tokens = tokens, ps_current = 0, ps_filename = filename, ps_log = g\<rparr> sf_new_program_node = Some (program, p')"
    using assms by (auto simp: sf_parse_def)
  have "\<forall>st \<in> set (pr_statements program). case Top_Stmt st of Top_Import i \<Rightarrow> True | Top_Stmt st \<Rightarrow> raw_stmt_ok st"
    by (rule conjunct2, rule parse_program_loop_all [OF _ run])
       (auto dest: top_level_raw simp: sf_new_program_node_def split: top_level_node.splits)
  then show ?thesis by simp
qed (use assms in \<open>auto simp: sf_parse_def sf_new_program_node_def\<close>)

end
