(* ===== verification/Sem_Stmt_Typed.thy ===== *)
theory Sem_Stmt_Typed
  imports Sem_Stmt_Facts
begin

text \<open>
  What the annotations of an accepted statement say. \<open>stmt_typed\<close> is the type system of the language on
  annotated statements, over an environment of the declarations in scope: the variables of the
  tables with their types, qualifiers and numbers, and the functions with their signatures.
  Statements are typed in the environment of the declarations before them, \<open>after\<close> is what they add
  to it. The analysis establishes the typing for every statement that it accepts.
\<close>

section \<open>Environments\<close>

record fun_type =
  fy_params :: "sf_value_type list"
  fy_return :: sf_value_type
  fy_link :: string
  fy_defined :: bool

text \<open>The tables are the declared variables without flow flags, the outermost table first; \<open>te_params\<close> and
  \<open>te_return\<close> are of the enclosing function.\<close>

record type_env =
  te_tables :: "sf_var_symbol list list"
  te_funcs :: "string \<Rightarrow> fun_type option"
  te_params :: "string set"
  te_return :: "sf_value_type option"

definition fun_type_of :: "sf_func_symbol \<Rightarrow> fun_type" where
  "fun_type_of f = \<lparr>fy_params = map pm_type (fs_parameters f), fy_return = fs_return_type f, fy_link = fs_link_name f,
     fy_defined = fs_defined f\<rparr>"

definition table_types :: "sf_func_symbol_table \<Rightarrow> string \<Rightarrow> fun_type option" where
  "table_types funcs n = map_option fun_type_of (sf_func_symbol_table_lookup funcs n)"

text \<open>The environment that a state of the analysis stands for: all of it but the flow flags.\<close>

definition env_of :: "sf_semantic \<Rightarrow> type_env" where
  "env_of s = \<lparr>te_tables = scope_decls (se_scope s), te_funcs = table_types (se_funcs s),
     te_params = (case se_current_func s of None \<Rightarrow> {} | Some f \<Rightarrow> pm_name ` set (cf_parameters f)),
     te_return = map_option cf_return_type (se_current_func s)\<rparr>"

definition te_lookup :: "type_env \<Rightarrow> string \<Rightarrow> sf_var_symbol option" where
  "te_lookup \<Gamma> n = lookup_tables (rev (te_tables \<Gamma>)) n"

definition var_symbol :: "sf_span \<Rightarrow> sf_qualifiers \<Rightarrow> sf_value_type \<Rightarrow> string \<Rightarrow> nat \<Rightarrow> nat \<Rightarrow> sf_var_symbol" where
  "var_symbol sp q t n vid depth = \<lparr>vs_name = n, vs_type = t, vs_initialized = False, vs_depth = depth, vs_id = vid,
     vs_span = sp, vs_qualifiers = q\<rparr>"

definition declare_var :: "sf_span \<Rightarrow> sf_qualifiers \<Rightarrow> sf_value_type \<Rightarrow> string \<Rightarrow> nat \<Rightarrow> type_env \<Rightarrow> type_env" where
  "declare_var sp q t n vid \<Gamma> = \<Gamma>\<lparr>te_tables := butlast (te_tables \<Gamma>) @
     [last (te_tables \<Gamma>) @ [var_symbol sp q t n vid (length (te_tables \<Gamma>) - 1)]]\<rparr>"

text \<open>A further declaration of a function keeps the first one.\<close>

definition declare_fun :: "string \<Rightarrow> string \<Rightarrow> sf_parameter list \<Rightarrow> sf_value_type \<Rightarrow> bool \<Rightarrow> type_env \<Rightarrow> type_env" where
  "declare_fun n link ps t defined \<Gamma> = \<Gamma>\<lparr>te_funcs := (te_funcs \<Gamma>)(n \<mapsto>
     (case te_funcs \<Gamma> n of
        None \<Rightarrow> \<lparr>fy_params = map pm_type ps, fy_return = t, fy_link = link, fy_defined = defined\<rparr>
      | Some f \<Rightarrow> f\<lparr>fy_defined := fy_defined f \<or> defined\<rparr>))\<rparr>"

definition open_block :: "type_env \<Rightarrow> type_env" where
  "open_block \<Gamma> = \<Gamma>\<lparr>te_tables := te_tables \<Gamma> @ [[]]\<rparr>"

definition enter_function :: "sf_span \<Rightarrow> sf_parameter list \<Rightarrow> sf_value_type \<Rightarrow> type_env \<Rightarrow> type_env" where
  "enter_function sp ps t \<Gamma> = \<Gamma>\<lparr>te_tables := te_tables \<Gamma> @
       [map (\<lambda>p. var_symbol sp (pm_qualifiers p) (pm_type p) (pm_name p) (pm_id p) (length (te_tables \<Gamma>))) ps],
     te_params := pm_name ` set ps, te_return := Some t\<rparr>"

definition link_or :: "string \<Rightarrow> string option \<Rightarrow> string" where
  "link_or n link = (case link of None \<Rightarrow> n | Some m \<Rightarrow> m)"

text \<open>The environment after a statement. Variables are in scope to the end of their block, functions from
  their declaration on, in whatever block it is.\<close>

fun after :: "type_env \<Rightarrow> sf_stmt \<Rightarrow> type_env" and afters :: "type_env \<Rightarrow> sf_stmt list \<Rightarrow> type_env" where
  "after \<Gamma> (SF_NODE_VAR_DECL b q t name vid v) = declare_var (ab_span b) q t name vid \<Gamma>"
| "after \<Gamma> (SF_NODE_BLOCK b sts) = \<Gamma>\<lparr>te_funcs := te_funcs (afters (open_block \<Gamma>) sts)\<rparr>"
| "after \<Gamma> (SF_NODE_IF b c t e) = (case e of None \<Rightarrow> after \<Gamma> t | Some st \<Rightarrow> after (after \<Gamma> t) st)"
| "after \<Gamma> (SF_NODE_WHILE b c d) = after \<Gamma> d"
| "after \<Gamma> (SF_NODE_FUNC_DECL b name link q ps t body) =
     (let \<Gamma>1 = declare_fun name (link_or name link) ps t (body \<noteq> None) \<Gamma>
      in case body of
           None \<Rightarrow> \<Gamma>1
         | Some st \<Rightarrow> \<Gamma>1\<lparr>te_funcs := te_funcs (after (enter_function (ab_span b) ps t \<Gamma>1) st)\<rparr>)"
| "after \<Gamma> _ = \<Gamma>"
| "afters \<Gamma> [] = \<Gamma>"
| "afters \<Gamma> (st # sts) = afters (after \<Gamma> st) sts"

text \<open>The environment at the start of a program without imports.\<close>

definition empty_env :: type_env where
  "empty_env = \<lparr>te_tables = [[]], te_funcs = (\<lambda>n. None), te_params = {}, te_return = None\<rparr>"

section \<open>Typed statements\<close>

text \<open>An expression is typed by the rules of \<open>expr_typed\<close> with the variables and functions of \<open>\<Gamma>\<close>; the state
  adds to \<open>\<Gamma>\<close> only which variables are initialised.\<close>

definition well_typed :: "type_env \<Rightarrow> sf_expr \<Rightarrow> bool" where
  "well_typed \<Gamma> e \<longleftrightarrow> (\<exists>s. sem_ok s \<and> env_of s = \<Gamma> \<and> expr_typed s e (expr_resolved e))"

definition assignable :: "sf_value_type \<Rightarrow> sf_value_type \<Rightarrow> bool" where
  "assignable from target \<longleftrightarrow> sf_type_value_is_same_group from target \<and>
     sf_type_value_width_bits from \<le> sf_type_value_width_bits target"

definition typed_value :: "type_env \<Rightarrow> sf_value_type \<Rightarrow> sf_expr \<Rightarrow> bool" where
  "typed_value \<Gamma> t e \<longleftrightarrow> t \<noteq> SF_VAL_TYPE_VOID \<and> well_typed \<Gamma> e \<and> assignable (expr_resolved e) t"

definition typed_condition :: "type_env \<Rightarrow> sf_expr \<Rightarrow> bool" where
  "typed_condition \<Gamma> c \<longleftrightarrow> well_typed \<Gamma> c \<and> expr_resolved c = SF_VAL_TYPE_BOOL"

text \<open>A declaration of a function agrees with an earlier one and is the only definition.\<close>

definition declarable :: "fun_type option \<Rightarrow> sf_parameter list \<Rightarrow> sf_value_type \<Rightarrow> bool \<Rightarrow> bool" where
  "declarable earlier ps t defined \<longleftrightarrow>
     (case earlier of None \<Rightarrow> True
      | Some f \<Rightarrow> fy_params f = map pm_type ps \<and> fy_return f = t \<and> \<not> (fy_defined f \<and> defined))"

fun stmt_typed :: "type_env \<Rightarrow> sf_stmt \<Rightarrow> bool" and stmts_typed :: "type_env \<Rightarrow> sf_stmt list \<Rightarrow> bool" where
  "stmt_typed \<Gamma> (SF_NODE_VAR_DECL b q t name vid v) \<longleftrightarrow>
     t \<noteq> SF_VAL_TYPE_VOID \<and> \<not> is_public q \<and> \<not> is_extern q \<and> name \<notin> te_params \<Gamma> \<and>
     name \<notin> vs_name ` set (last (te_tables \<Gamma>)) \<and> (case v of None \<Rightarrow> True | Some e \<Rightarrow> typed_value \<Gamma> t e)"
| "stmt_typed \<Gamma> (SF_NODE_VAR_ASSIGN b name e vid) \<longleftrightarrow>
     (case te_lookup \<Gamma> name of None \<Rightarrow> False
      | Some x \<Rightarrow> is_mutable (vs_qualifiers x) \<and> ab_resolved b = vs_type x \<and> vid = vs_id x \<and> typed_value \<Gamma> (vs_type x) e)"
| "stmt_typed \<Gamma> (SF_NODE_BLOCK b sts) \<longleftrightarrow> stmts_typed (open_block \<Gamma>) sts"
| "stmt_typed \<Gamma> (SF_NODE_IF b c t e) \<longleftrightarrow> typed_condition \<Gamma> c \<and> stmt_typed \<Gamma> t \<and>
     (case e of None \<Rightarrow> True | Some st \<Rightarrow> stmt_typed (after \<Gamma> t) st)"
| "stmt_typed \<Gamma> (SF_NODE_WHILE b c d) \<longleftrightarrow> typed_condition \<Gamma> c \<and> stmt_typed \<Gamma> d"
| "stmt_typed \<Gamma> (SF_NODE_FUNC_DECL b name link q ps t body) \<longleftrightarrow>
     \<not> is_mutable q \<and> \<not> (is_extern q \<and> (is_public q \<or> body \<noteq> None)) \<and> link \<noteq> None \<and>
     (\<forall>p \<in> set ps. pm_type p \<noteq> SF_VAL_TYPE_VOID) \<and> distinct (map pm_name ps) \<and>
     declarable (te_funcs \<Gamma> name) ps t (body \<noteq> None) \<and>
     (case body of None \<Rightarrow> True
      | Some st \<Rightarrow> (t = SF_VAL_TYPE_VOID \<or> stmt_always_returns st) \<and>
          stmt_typed (enter_function (ab_span b) ps t (declare_fun name (link_or name link) ps t True \<Gamma>)) st)"
| "stmt_typed \<Gamma> (SF_NODE_RETURN b v) \<longleftrightarrow>
     (case v of None \<Rightarrow> te_return \<Gamma> = Some SF_VAL_TYPE_VOID | Some e \<Rightarrow> (\<exists>t. te_return \<Gamma> = Some t \<and> typed_value \<Gamma> t e))"
| "stmt_typed \<Gamma> (SF_STMT_EXPR e) \<longleftrightarrow> well_typed \<Gamma> e"
| "stmts_typed \<Gamma> [] \<longleftrightarrow> True"
| "stmts_typed \<Gamma> (st # sts) \<longleftrightarrow> stmt_typed \<Gamma> st \<and> stmts_typed (after \<Gamma> st) sts"

text \<open>An analysis that accepts only what it can type, and ends in the environment after the statement.\<close>

definition types_stmt :: "statement_analysis \<Rightarrow> bool" where
  "types_stmt a \<longleftrightarrow> (\<forall>s g st' s' g'. stmt_inv s \<longrightarrow> a s g = (st', s', g') \<longrightarrow> g_error_count g' = g_error_count g \<longrightarrow>
     stmt_typed (env_of s) st' \<and> env_of s' = after (env_of s) st')"

lemma types_stmtD:
  "types_stmt a \<Longrightarrow> stmt_inv s \<Longrightarrow> a s g = (st', s', g') \<Longrightarrow> g_error_count g' = g_error_count g \<Longrightarrow>
   stmt_typed (env_of s) st' \<and> env_of s' = after (env_of s) st'"
  unfolding types_stmt_def by blast

lemma env_simps [simp]:
  "te_tables (env_of s) = scope_decls (se_scope s)" "te_funcs (env_of s) = table_types (se_funcs s)"
  "te_params (env_of s) = (case se_current_func s of None \<Rightarrow> {} | Some f \<Rightarrow> pm_name ` set (cf_parameters f))"
  "te_return (env_of s) = map_option cf_return_type (se_current_func s)"
  by (simp_all add: env_of_def)

lemma env_scope: "scope_decls sc = scope_decls (se_scope s) \<Longrightarrow> env_of (s\<lparr>se_scope := sc\<rparr>) = env_of s"
  by (simp add: env_of_def)

lemma env_eqI:
  "scope_decls (se_scope s') = te_tables \<Gamma> \<Longrightarrow> table_types (se_funcs s') = te_funcs \<Gamma> \<Longrightarrow>
   te_params (env_of s') = te_params \<Gamma> \<Longrightarrow> te_return (env_of s') = te_return \<Gamma> \<Longrightarrow> env_of s' = (\<Gamma> :: type_env)"
  by (simp add: env_of_def)

lemma env_lookup: "te_lookup (env_of s) n = map_option sym_decl (scope_lookup (se_scope s) n)"
  by (simp add: te_lookup_def scope_lookup_decl)

lemma shadows_env: "shadows_parameter s n \<longleftrightarrow> n \<in> te_params (env_of s)"
  by (simp add: shadows_parameter_def split: option.split)

section \<open>Simple statements\<close>

lemma accepted_well_typed:
  assumes "stmt_inv s" "raw_ok e" "sf_semantic_expr s e t g = (ok, e1, g1)"
  shows "ok \<Longrightarrow> well_typed (env_of s) e1 \<and> g_error_count g1 = g_error_count g \<and> expr_resolved e1 \<noteq> SF_VAL_TYPE_UNRESOLVED"
    "\<not> ok \<Longrightarrow> g_error_count g < g_error_count g1"
  using assms sem_expr.accepted [of s e t g e1 g1] sem_expr.rejected [of s e t g e1 g1]
  by (auto simp: stmt_inv_def well_typed_def)

lemma assignment_types:
  assumes "check_assignment_type r t sp fn g = (ok, g1)" "r \<noteq> SF_VAL_TYPE_UNRESOLVED"
  shows "ok \<Longrightarrow> assignable r t \<and> g1 = g" "\<not> ok \<Longrightarrow> g_error_count g < g_error_count g1"
  using assms by (auto simp: check_assignment_type_def assignable_def sf_log_error split: if_splits)

lemma return_types:
  assumes "check_return_type r t n sp fn g = (ok, g1)" "r \<noteq> SF_VAL_TYPE_UNRESOLVED"
  shows "ok \<Longrightarrow> assignable r t \<and> g1 = g" "\<not> ok \<Longrightarrow> g_error_count g < g_error_count g1"
  using assms by (auto simp: check_return_type_def assignable_def sf_log_error split: if_splits)

lemma insert_errors: "scope_insert sc var fn g = (sc', g') \<Longrightarrow> g_error_count g \<le> g_error_count g'"
  by (auto simp: scope_insert_def Let_def sf_log_error split: if_splits option.splits prod.splits)

lemma inserted_env:
  assumes "stmt_inv s" "scope_insert (se_scope s) v f g = (sc, g')" "g_error_count g' = g_error_count g"
  shows "vs_name v \<notin> vs_name ` set (last (scope_decls (se_scope s)))"
    "scope_decls sc = te_tables (declare_var (vs_span v) (vs_qualifiers v) (vs_type v) (vs_name v) (sc_next_id (se_scope s)) (env_of s))"
    "\<exists>x. scope_lookup sc (vs_name v) = Some x \<and> vs_id x = sc_next_id (se_scope s)"
proof -
  show "vs_name v \<notin> vs_name ` set (last (scope_decls (se_scope s)))"
    "scope_decls sc = te_tables (declare_var (vs_span v) (vs_qualifiers v) (vs_type v) (vs_name v) (sc_next_id (se_scope s)) (env_of s))"
    "\<exists>x. scope_lookup sc (vs_name v) = Some x \<and> vs_id x = sc_next_id (se_scope s)"
    using assms(2)
  proof (atomize (full), cases rule: scope_insert_cases)
    case (inserted tables table)
    have "vs_name v \<notin> vs_name ` set table" using inserted(2) by (simp add: var_lookup_None)
    moreover have "sym_decl (v\<lparr>vs_id := i, vs_depth := d\<rparr>) = var_symbol (vs_span v) (vs_qualifiers v) (vs_type v) (vs_name v) i d" for i d
      by (simp add: sym_decl_def var_symbol_def)
    ultimately show "vs_name v \<notin> vs_name ` set (last (scope_decls (se_scope s))) \<and>
      scope_decls sc = te_tables (declare_var (vs_span v) (vs_qualifiers v) (vs_type v) (vs_name v) (sc_next_id (se_scope s)) (env_of s)) \<and>
      (\<exists>x. scope_lookup sc (vs_name v) = Some x \<and> vs_id x = sc_next_id (se_scope s))"
      using inserted(1,3) scope_insert_lookup [OF inserted(1,2) assms(2)]
      by (simp add: scope_decls_def declare_var_def image_image)
  qed (use assms in \<open>simp_all add: stmt_inv_def\<close>)
qed

lemma types_var_decl:
  assumes "raw_stmt_ok (SF_NODE_VAR_DECL b q t n vid v)"
  shows "types_stmt (analyze_var_decl b q t n vid v)"
  unfolding types_stmt_def
proof (intro allI impI)
  fix s g st' s' g'
  assume inv: "stmt_inv s" and run: "analyze_var_decl b q t n vid v s g = (st', s', g')" and e: "g_error_count g' = g_error_count g"
  let ?var = "\<lparr>vs_name = n, vs_type = t, vs_initialized = v \<noteq> None, vs_depth = 0, vs_id = 0, vs_span = ab_span b, vs_qualifiers = q\<rparr>"
  obtain qok g1 where qual: "analyze_var_sym_qual s ?var g = (qok, g1)" by fastforce
  have ok: "t \<noteq> SF_VAL_TYPE_VOID" "\<not> shadows_parameter s n" "qok" "g1 = g"
    using run e qual var_sym_qual_count [OF qual]
    by (auto simp: analyze_var_decl_def Let_def sem_error_count split: if_splits)
  then have q: "\<not> is_public q" "\<not> is_extern q" using qual by (auto simp: analyze_var_sym_qual_def split: if_splits)
  obtain vok v1 g2 where val: "(case v of
                            None \<Rightarrow> (True, None, g)
                          | Some e \<Rightarrow>
                              (case sf_semantic_expr s e t g of
                                 (False, e1, g2) \<Rightarrow> (False, Some e1, g2)
                               | (True, e1, g2) \<Rightarrow>
                                   (case check_assignment_type (expr_resolved e1) t (ab_span b) (se_filename s) g2 of
                                      (ok, g3) \<Rightarrow> (ok, Some e1, g3)))) = (vok, v1, g2)"
    by (rule prod_cases3)
  have v1: "if vok then g_error_count g2 = g_error_count g \<and> (case v1 of None \<Rightarrow> True | Some e \<Rightarrow> typed_value (env_of s) t e)
      else g_error_count g < g_error_count g2"
  proof (cases v)
    case (Some x)
    then have raw: "raw_ok x" using assms by simp
    obtain eok e1 g3 where ex: "sf_semantic_expr s x t g = (eok, e1, g3)" by (rule prod_cases3)
    obtain cok g4 where c: "check_assignment_type (expr_resolved e1) t (ab_span b) (se_filename s) g3 = (cok, g4)" by fastforce
    note typed = accepted_well_typed [OF inv raw ex] and ch = assignment_types [OF c]
    show ?thesis using val Some ex c typed ch ok(1) by (cases eok; cases cok) (auto simp: typed_value_def)
  qed (use val in auto)
  obtain sc g3 where ins: "scope_insert (se_scope s) ?var (se_filename s) g2 = (sc, g3)" by fastforce
  have result: "(st', s', g') = (if vok then (SF_NODE_VAR_DECL b q t n (case scope_lookup sc n of None \<Rightarrow> vid | Some x \<Rightarrow> vs_id x) v1,
      s\<lparr>se_scope := sc\<rparr>, g3) else (SF_NODE_VAR_DECL b q t n vid v1, s, g2))"
    using run ok qual val ins by (auto simp: analyze_var_decl_def Let_def)
  have vok: "vok" "g_error_count g2 = g_error_count g" using result v1 e by (auto split: if_splits)
  then have "g_error_count g3 = g_error_count g2" using result e by simp
  note env = inserted_env [OF inv ins this]
  obtain x where x: "scope_lookup sc n = Some x" "vs_id x = sc_next_id (se_scope s)" using env(3) by auto
  have st': "st' = SF_NODE_VAR_DECL b q t n (sc_next_id (se_scope s)) v1" "s' = s\<lparr>se_scope := sc\<rparr>"
    using result vok(1) x by simp_all
  have "env_of s' = after (env_of s) st'"
    by (rule env_eqI) (use st' env(2) in \<open>simp_all add: declare_var_def\<close>)
  then show "stmt_typed (env_of s) st' \<and> env_of s' = after (env_of s) st'"
    using ok(1,2) q v1 vok(1) env(1) by (simp add: st'(1) shadows_env del: env_simps(3))
qed

lemma lookup_type: "scope_lookup (se_scope s) n = Some var \<Longrightarrow> stmt_inv s \<Longrightarrow> vs_type var \<noteq> SF_VAL_TYPE_VOID"
  using scope_lookup_mem [of "se_scope s" n var] by (auto simp: stmt_inv_def sem_ok_def)

lemma types_var_assign:
  assumes "raw_ok e"
  shows "types_stmt (analyze_var_assign b n e vid)"
  unfolding types_stmt_def
proof (intro allI impI)
  fix s g st' s' g'
  assume inv: "stmt_inv s" and run: "analyze_var_assign b n e vid s g = (st', s', g')" and err: "g_error_count g' = g_error_count g"
  obtain var where var: "scope_lookup (se_scope s) n = Some var"
    using run err by (auto simp: analyze_var_assign_def undeclared_count split: option.splits)
  obtain eok e1 g1 where ex: "sf_semantic_expr s e (vs_type var) g = (eok, e1, g1)" by (rule prod_cases3)
  obtain cok g2 where c: "check_assignment_type (expr_resolved e1) (vs_type var) (ab_span b) (se_filename s) g1 = (cok, g2)" by fastforce
  note typed = accepted_well_typed [OF inv assms ex]
  have eok: "eok" using run err typed(2) var ex by (auto simp: analyze_var_assign_def split: bool.splits)
  note ch = assignment_types [OF c]
  have cok: "cok" using run err typed(1) eok ch(2) var ex c by (auto simp: analyze_var_assign_def split: bool.splits)
  have st': "st' = SF_NODE_VAR_ASSIGN (b\<lparr>ab_resolved := vs_type var\<rparr>) n e1 (vs_id var)"
    "s' = s\<lparr>se_scope := scope_set_initialized (se_scope s) n\<rparr>" "is_mutable (vs_qualifiers var)"
    using run err var ex c eok cok typed(1) ch(1) by (auto simp: analyze_var_assign_def sem_error_count split: if_splits)
  have "scope_decls (scope_set_initialized (se_scope s) n) = scope_decls (se_scope s)"
    using set_initialized_decls [of "se_scope s" n] by (simp add: same_decls_def)
  then have "env_of s' = env_of s" unfolding st'(2) by (rule env_scope)
  then show "stmt_typed (env_of s) st' \<and> env_of s' = after (env_of s) st'"
    using st'(1,3) var eok cok typed(1) ch(1) lookup_type [OF var inv] by (simp add: typed_value_def env_lookup)
qed

lemma types_return:
  assumes "case v of None \<Rightarrow> True | Some e \<Rightarrow> raw_ok e"
  shows "types_stmt (analyze_return b v)"
  unfolding types_stmt_def
proof (intro allI impI)
  fix s g st' s' g'
  assume inv: "stmt_inv s" and run: "analyze_return b v s g = (st', s', g')" and err: "g_error_count g' = g_error_count g"
  obtain func where func: "se_current_func s = Some func"
    using run err by (auto simp: analyze_return_def sem_error_count split: option.splits)
  show "stmt_typed (env_of s) st' \<and> env_of s' = after (env_of s) st'"
  proof (cases v)
    case None
    then show ?thesis using run err func by (auto simp: analyze_return_def sem_error_count split: if_splits)
  next
    case (Some e)
    then have raw: "raw_ok e" using assms by simp
    have nonvoid: "cf_return_type func \<noteq> SF_VAL_TYPE_VOID"
    proof
      assume void: "cf_return_type func = SF_VAL_TYPE_VOID"
      obtain eok e1 g1 where ex: "sf_semantic_expr s e SF_VAL_TYPE_UNRESOLVED g = (eok, e1, g1)" by (rule prod_cases3)
      show False using run err func Some void ex accepted_well_typed [OF inv raw ex]
        by (cases eok) (auto simp: analyze_return_def sem_error_count)
    qed
    obtain eok e1 g1 where ex: "sf_semantic_expr s e (cf_return_type func) g = (eok, e1, g1)" by (rule prod_cases3)
    obtain cok g2 where c: "check_return_type (expr_resolved e1) (cf_return_type func) (cf_name func) (ab_span b) (se_filename s) g1 = (cok, g2)"
      by fastforce
    note typed = accepted_well_typed [OF inv raw ex]
    have eok: "eok" using run err typed(2) func Some nonvoid ex by (auto simp: analyze_return_def split: bool.splits)
    note ch = return_types [OF c]
    have "cok" using run err typed(1) eok ch(2) func Some nonvoid ex c by (auto simp: analyze_return_def split: bool.splits)
    then show ?thesis
      using run func Some nonvoid ex c eok typed(1) ch(1) by (auto simp: analyze_return_def typed_value_def)
  qed
qed

lemma types_expr_stmt:
  assumes "raw_ok e"
  shows "types_stmt (analyze_expr_stmt e)"
  unfolding types_stmt_def
proof (intro allI impI)
  fix s g st' s' g'
  assume inv: "stmt_inv s" and run: "analyze_expr_stmt e s g = (st', s', g')" and err: "g_error_count g' = g_error_count g"
  obtain ok e1 g1 where ex: "sf_semantic_expr s e SF_VAL_TYPE_UNRESOLVED g = (ok, e1, g1)" by (rule prod_cases3)
  have "st' = SF_STMT_EXPR e1" "s' = s" "g_error_count g' = g_error_count g1"
    using run ex by (auto simp: analyze_expr_stmt_def sf_log_warning split: sf_expr.splits if_splits)
  then show "stmt_typed (env_of s) st' \<and> env_of s' = after (env_of s) st'"
    using accepted_well_typed [OF inv assms ex] err by (cases ok) auto
qed

section \<open>Blocks, branches and loops\<close>

lemma types_statements:
  assumes "list_all2 sound_stmt sts as" "\<forall>a \<in> set as. types_stmt a" "stmt_inv s" "analyze_statements as s g = (sts', s', g')"
    "g_error_count g' = g_error_count g"
  shows "stmts_typed (env_of s) sts' \<and> env_of s' = afters (env_of s) sts'"
  using assms
proof (induction arbitrary: s g sts' s' g' rule: list_all2_induct)
  case (Cons st sts a as)
  obtain st1 s1 g1 where a: "a s g = (st1, s1, g1)" by (rule prod_cases3)
  obtain rest s2 g2 where r: "analyze_statements as s1 g1 = (rest, s2, g2)" by (rule prod_cases3)
  have eq: "sts' = st1 # rest" "s' = s2" "g' = g2" using Cons.prems(3) a r by simp_all
  have frame: "stmt_frame s g s1 g1" by (rule sound_stmtD(1) [OF Cons.hyps(1) Cons.prems(2) a])
  then have inv1: "stmt_inv s1" by (simp add: stmt_frame_def)
  have tail: "stmt_frame s1 g1 s2 g2" using statements_result [OF Cons.hyps(2) inv1 r] by blast
  have err: "g_error_count g1 = g_error_count g" "g_error_count g2 = g_error_count g1"
    using frame tail Cons.prems(4) eq(3) by (simp_all add: stmt_frame_def)
  have "stmts_typed (env_of s1) rest \<and> env_of s2 = afters (env_of s1) rest"
    using Cons.IH [OF _ inv1 r err(2)] Cons.prems(1) by simp
  moreover have first: "types_stmt a" using Cons.prems(1) by simp
  have "stmt_typed (env_of s) st1 \<and> env_of s1 = after (env_of s) st1" by (rule types_stmtD [OF first Cons.prems(2) a err(1)])
  ultimately show ?case by (simp add: eq)
qed simp

lemma context_env: "same_context s s' \<Longrightarrow> te_params (env_of s') = te_params (env_of s) \<and> te_return (env_of s') = te_return (env_of s)"
  by (simp add: same_context_def)

lemma push_env: "stmt_inv s \<Longrightarrow> push_scope s g = (s1, g1) \<Longrightarrow> env_of s1 = open_block (env_of s)"
proof -
  assume inv: "stmt_inv s" and push: "push_scope s g = (s1, g1)"
  note p = push_result [OF inv push]
  have "se_funcs s1 = se_funcs s" using push by (auto simp: push_scope_def split: prod.splits)
  then show ?thesis using p(3) context_env [OF p(6)] by (intro env_eqI) (simp_all add: open_block_def)
qed

lemma types_block:
  assumes "list_all2 sound_stmt sts as" "\<forall>a \<in> set as. types_stmt a"
  shows "types_stmt (analyze_block b as)"
  unfolding types_stmt_def
proof (intro allI impI)
  fix s g st' s' g'
  assume inv: "stmt_inv s" and run: "analyze_block b as s g = (st', s', g')" and err: "g_error_count g' = g_error_count g"
  obtain s1 g1 where push: "push_scope s g = (s1, g1)" by fastforce
  obtain sts' s2 g2 where body: "analyze_statements as s1 g1 = (sts', s2, g2)" by (rule prod_cases3)
  have st': "st' = SF_NODE_BLOCK b sts'" "s' = pop_scope s2" "g' = g2" using run push body by (simp_all add: analyze_block_def)
  note p = push_result [OF inv push]
  have typed: "stmts_typed (env_of s1) sts' \<and> env_of s2 = afters (env_of s1) sts'"
    by (rule types_statements [OF assms p(2) body]) (use err st'(3) p(1) in simp)
  note bracket = scope_bracket [OF inv push conjunct1 [OF statements_result [OF assms(1) p(2) body]]]
  have ctx: "same_context s (pop_scope s2)" using bracket(1) by (simp add: stmt_frame_def)
  have "table_types (se_funcs s') = te_funcs (afters (open_block (env_of s)) sts')"
    using typed env_simps(2) [of s2] unfolding push_env [OF inv push] st'(2) by (simp add: pop_scope_def)
  then have "env_of s' = after (env_of s) st'"
    using bracket(2) context_env [OF ctx] by (intro env_eqI) (simp_all add: st'(1,2))
  then show "stmt_typed (env_of s) st' \<and> env_of s' = after (env_of s) st'"
    using typed unfolding push_env [OF inv push] by (simp add: st'(1))
qed

lemma accepted_condition:
  assumes "stmt_inv s" "raw_ok c" "sf_semantic_expr s c SF_VAL_TYPE_BOOL g = (ok, c1, g1)" "ok \<and> expr_resolved c1 = SF_VAL_TYPE_BOOL"
  shows "typed_condition (env_of s) c1" "g_error_count g1 = g_error_count g"
  using accepted_well_typed [OF assms(1-3)] assms(4) by (simp_all add: typed_condition_def)

lemma types_while:
  assumes "raw_ok c" "types_stmt a"
  shows "types_stmt (analyze_while b c d a)"
  unfolding types_stmt_def
proof (intro allI impI)
  fix s g st' s' g'
  assume inv: "stmt_inv s" and run: "analyze_while b c d a s g = (st', s', g')" and err: "g_error_count g' = g_error_count g"
  obtain cok c1 g1 where c: "sf_semantic_expr s c SF_VAL_TYPE_BOOL g = (cok, c1, g1)" by (rule prod_cases3)
  have ok: "cok \<and> expr_resolved c1 = SF_VAL_TYPE_BOOL"
    using sound_condition [OF inv assms(1) c] run c err by (auto simp: analyze_while_def split: bool.splits if_splits)
  note cond = accepted_condition [OF inv assms(1) c ok]
  obtain d1 s1 g2 where d: "a s g1 = (d1, s1, g2)" by (rule prod_cases3)
  have st': "st' = SF_NODE_WHILE b c1 d1" "g' = g2"
    "s' = s1\<lparr>se_scope := scope_flow_restore (se_scope s1) (scope_flow_save (\<lambda>_. True) (se_scope s))\<rparr>"
    using run c ok d by (simp_all add: analyze_while_def Let_def)
  have "stmt_typed (env_of s) d1 \<and> env_of s1 = after (env_of s) d1"
    using types_stmtD [OF assms(2) inv d] err cond(2) st'(2) by simp
  moreover have "env_of s' = env_of s1" unfolding st'(3) by (rule env_scope) simp
  ultimately show "stmt_typed (env_of s) st' \<and> env_of s' = after (env_of s) st'" using st'(1) cond(1) by simp
qed

lemma types_if:
  assumes "raw_ok c" "sound_stmt t at" "\<not> is_var_decl t" "types_stmt at"
    "rel_option sound_stmt e ae" "case e of None \<Rightarrow> True | Some st \<Rightarrow> \<not> is_var_decl st" "case ae of None \<Rightarrow> True | Some a \<Rightarrow> types_stmt a"
  shows "types_stmt (analyze_if b c t e at ae)"
  unfolding types_stmt_def
proof (intro allI impI)
  fix s g st' s' g'
  assume inv: "stmt_inv s" and run: "analyze_if b c t e at ae s g = (st', s', g')" and err: "g_error_count g' = g_error_count g"
  obtain cok c1 g1 where c: "sf_semantic_expr s c SF_VAL_TYPE_BOOL g = (cok, c1, g1)" by (rule prod_cases3)
  have ok: "cok \<and> expr_resolved c1 = SF_VAL_TYPE_BOOL"
    using sound_condition [OF inv assms(1) c] run c err by (auto simp: analyze_if_def split: bool.splits if_splits)
  note cond = accepted_condition [OF inv assms(1) c ok]
  obtain t1 s1 g2 where t: "at s g1 = (t1, s1, g2)" by (rule prod_cases3)
  note then1 = sound_stmtD [OF assms(2) inv t]
  define s2 where "s2 = s1\<lparr>se_scope := scope_flow_restore (se_scope s1) (scope_flow_save (\<lambda>_. True) (se_scope s))\<rparr>"
  have inv2: "stmt_inv s2" unfolding s2_def by (rule restored_inv) (use then1(1) in \<open>simp add: stmt_frame_def\<close>)
  have env2: "env_of s2 = env_of s1" unfolding s2_def by (rule env_scope) simp
  obtain e1 s3 g3 where e: "(case ae of None \<Rightarrow> (None, s2, g2)
      | Some a \<Rightarrow> (case a s2 g2 of (else1, s3, g3) \<Rightarrow> (Some else1, s3, g3))) = (e1, s3, g3)" by (rule prod_cases3)
  obtain fs where st': "st' = SF_NODE_IF b c1 t1 e1" "g' = g3" "s' = s3\<lparr>se_scope := scope_flow_restore (se_scope s3) fs\<rparr>"
    using run c ok t e unfolding analyze_if_def Let_def s2_def by (auto split del: if_split simp del: flow_save_flags)
  have mono: "g_error_count g1 \<le> g_error_count g2" "g_error_count g2 \<le> g_error_count g3"
    using then1(1) sound_else [OF assms(5,6) inv2, of g2, unfolded e else_result_def] by (simp_all add: stmt_frame_def)
  have errs: "g_error_count g2 = g_error_count g1" "g_error_count g3 = g_error_count g2"
    using mono err st'(2) cond(2) by simp_all
  have 1: "stmt_typed (env_of s) t1 \<and> env_of s1 = after (env_of s) t1" by (rule types_stmtD [OF assms(4) inv t errs(1)])
  have "(case e1 of None \<Rightarrow> True | Some st \<Rightarrow> stmt_typed (env_of s1) st) \<and>
      env_of s3 = (case e1 of None \<Rightarrow> env_of s1 | Some st \<Rightarrow> after (env_of s1) st)"
  proof (cases ae)
    case (Some a)
    obtain st1 where r: "a s2 g2 = (st1, s3, g3)" "e1 = Some st1" using e Some by (auto split: prod.splits)
    have "types_stmt a" using assms(7) Some by simp
    from types_stmtD [OF this inv2 r(1) errs(2)] show ?thesis by (simp add: r(2) env2)
  qed (use e env2 in auto)
  moreover have "env_of s' = env_of s3" unfolding st'(3) by (rule env_scope) simp
  ultimately show "stmt_typed (env_of s) st' \<and> env_of s' = after (env_of s) st'"
    using st'(1) cond(1) 1 by (cases e1) simp_all
qed

section \<open>Functions\<close>

lemma declared_types: "declare_parameters s sp ps g = (ps', s', g') \<Longrightarrow> map pm_type ps' = map pm_type ps"
  by (induction ps arbitrary: s g ps' s' g') (auto simp: Let_def split: if_splits prod.splits option.splits)

lemma declared_names: "declare_parameters s sp ps g = (ps', s', g') \<Longrightarrow> map pm_name ps' = map pm_name ps"
  by (induction ps arbitrary: s g ps' s' g') (auto simp: Let_def split: if_splits prod.splits option.splits)

lemma declared_state: "declare_parameters s sp ps g = (ps', s', g') \<Longrightarrow>
    se_funcs s' = se_funcs s \<and> se_current_func s' = se_current_func s"
  by (induction ps arbitrary: s g ps' s' g') (auto simp: Let_def split: if_splits prod.splits option.splits)

lemma declared_tables:
  assumes "stmt_inv s" "\<forall>p \<in> set ps. pm_type p \<noteq> SF_VAL_TYPE_UNRESOLVED \<and> pm_type p \<noteq> SF_VAL_TYPE_VOID"
    "declare_parameters s sp ps g = (ps', s', g')" "g_error_count g' = g_error_count g"
  shows "scope_decls (se_scope s') = butlast (scope_decls (se_scope s)) @ [last (scope_decls (se_scope s)) @
    map (\<lambda>p. var_symbol sp (pm_qualifiers p) (pm_type p) (pm_name p) (pm_id p) (length (scope_decls (se_scope s)) - 1)) ps']"
  using assms
proof (induction ps arbitrary: s g ps' s' g')
  case Nil
  then have "scope_decls (se_scope s) \<noteq> []" by (simp add: stmt_inv_def)
  then show ?case using Nil by simp
next
  case (Cons p ps)
  let ?var = "\<lparr>vs_name = pm_name p, vs_type = pm_type p, vs_initialized = True, vs_depth = 0, vs_id = 0,
                 vs_span = sp, vs_qualifiers = pm_qualifiers p\<rparr>"
  obtain sc g1 where ins: "scope_insert (se_scope s) ?var (se_filename s) g = (sc, g1)" by fastforce
  obtain rest s2 g2 where r: "declare_parameters (s\<lparr>se_scope := sc\<rparr>) sp ps g1 = (rest, s2, g2)" by (rule prod_cases3)
  have eq: "ps' = (case scope_lookup sc (pm_name p) of None \<Rightarrow> p | Some v \<Rightarrow> p\<lparr>pm_id := vs_id v\<rparr>) # rest" "s' = s2" "g' = g2"
    using Cons.prems(2,3) ins r by simp_all
  have t: "vs_type ?var \<noteq> SF_VAL_TYPE_UNRESOLVED" "vs_type ?var \<noteq> SF_VAL_TYPE_VOID"
    "\<forall>p \<in> set ps. pm_type p \<noteq> SF_VAL_TYPE_UNRESOLVED" using Cons.prems(2) by simp_all
  from Cons.prems(1) t(1,2) ins show ?case
  proof (cases rule: insert_accepted)
    case redeclared
    then have "declare_parameters s sp ps g1 = (rest, s2, g2)" using r by simp
    from parameters_result [OF Cons.prems(1) t(3) this] redeclared(2) Cons.prems(4) eq(3) show ?thesis
      by (simp add: stmt_frame_def)
  next
    case fresh
    then have inv1: "stmt_inv (s\<lparr>se_scope := sc\<rparr>)" by (simp add: stmt_frame_def)
    note env = inserted_env [OF Cons.prems(1) ins, unfolded fresh(2), OF refl]
    have "g_error_count g2 = g_error_count g1" using Cons.prems(4) eq(3) fresh(2) by simp
    from Cons.IH [OF inv1 _ r this] Cons.prems(2)
    have ih: "scope_decls (se_scope s2) = butlast (scope_decls sc) @ [last (scope_decls sc) @
      map (\<lambda>p. var_symbol sp (pm_qualifiers p) (pm_type p) (pm_name p) (pm_id p) (length (scope_decls sc) - 1)) rest]" by simp
    have "scope_decls (se_scope s) \<noteq> []" using Cons.prems(1) by (simp add: stmt_inv_def)
    then have "length (scope_decls sc) = length (scope_decls (se_scope s))" using env(2) by (simp add: declare_var_def)
    then show ?thesis using ih env(2,3) eq(1,2) by (auto simp: declare_var_def)
  qed
qed

lemma inserted_function_env:
  assumes "sf_func_symbol_table_insert (se_funcs s) f fn g = (True, funcs, g')"
  shows "declarable (te_funcs (env_of s) (fs_name f)) (fs_parameters f) (fs_return_type f) (fs_defined f)"
    "\<not> (is_extern (fs_qualifiers f) \<and> fs_defined f)"
    "env_of (s\<lparr>se_funcs := funcs\<rparr>) =
       declare_fun (fs_name f) (fs_link_name f) (fs_parameters f) (fs_return_type f) (fs_defined f) (env_of s)"
proof -
  note spec = func_insert_spec [OF assms]
  have ok: "func_accepts (sf_func_symbol_table_lookup (se_funcs s) (fs_name f)) f" using spec(1) by simp
  then show "declarable (te_funcs (env_of s) (fs_name f)) (fs_parameters f) (fs_return_type f) (fs_defined f)"
    "\<not> (is_extern (fs_qualifiers f) \<and> fs_defined f)"
    by (auto simp: declarable_def func_accepts_def table_types_def fun_type_of_def split: option.splits)
  have "table_types funcs = te_funcs (declare_fun (fs_name f) (fs_link_name f) (fs_parameters f) (fs_return_type f) (fs_defined f) (env_of s))"
    unfolding table_types_def spec(2)
    by (auto simp: fun_eq_iff declare_fun_def table_types_def fun_type_of_def split: option.splits)
  then show "env_of (s\<lparr>se_funcs := funcs\<rparr>) =
       declare_fun (fs_name f) (fs_link_name f) (fs_parameters f) (fs_return_type f) (fs_defined f) (env_of s)"
    by (intro env_eqI) (simp_all add: declare_fun_def)
qed

lemma types_func_decl:
  assumes raw: "t \<noteq> SF_VAL_TYPE_UNRESOLVED" "\<forall>p \<in> set ps. pm_type p \<noteq> SF_VAL_TYPE_UNRESOLVED"
    and body: "rel_option sound_stmt body a" "case a of None \<Rightarrow> True | Some a \<Rightarrow> types_stmt a"
  shows "types_stmt (analyze_func_decl b n l q ps t body a)"
  unfolding types_stmt_def
proof (intro allI impI)
  fix s g st' s' g'
  assume inv: "stmt_inv s" and run: "analyze_func_decl b n l q ps t body a s g = (st', s', g')"
    and err: "g_error_count g' = g_error_count g"
  obtain m g1 where m: "sf_mangle_function (\<lambda>_. True) (se_module_prefix s) n (is_extern q) g = (m, g1)" by fastforce
  then have [simp]: "g1 = g" by (auto simp: sf_mangle_function_def Let_def split: option.splits if_splits)
  define func where "func = \<lparr>fs_name = n, fs_link_name = m, fs_return_type = t, fs_parameters = ps,
      fs_defined = body \<noteq> None, fs_span = ab_span b, fs_id = 0, fs_qualifiers = q, fs_imported = False\<rparr>"
  obtain qok g2 where qual: "analyze_func_sym_qual s func g = (qok, g2)" by fastforce
  have qok: "qok" "g2 = g"
    using run m qual err func_sym_qual_count [OF qual] by (auto simp: analyze_func_decl_def Let_def func_def split: bool.splits)
  then have quals: "\<not> is_mutable q" "\<not> (is_extern q \<and> is_public q)"
    using qual by (auto simp: analyze_func_sym_qual_def func_def split: if_splits)
  let ?gc = "check_parameters s (ab_span b) [] ps g"
  obtain iok funcs g3 where ins: "sf_func_symbol_table_insert (se_funcs s) func (se_filename s) ?gc = (iok, funcs, g3)"
    by (rule prod_cases3)
  have g3: "g_error_count g3 = (if iok then g_error_count ?gc else Suc (g_error_count ?gc))"
    by (rule func_insert_spec(3) [OF ins])
  note gc = check_parameters_count [of g s "ab_span b" "[]" ps]
  define s1 where "s1 = s\<lparr>se_funcs := funcs\<rparr>"
  have "sem_ok s1"
    unfolding s1_def by (rule func_insert_sem_ok [OF _ ins]) (use inv raw in \<open>simp_all add: stmt_inv_def func_def\<close>)
  then have inv1: "stmt_inv s1" using inv by (simp add: stmt_inv_def s1_def)
  have run1: "(case (iok, a) of
      (True, Some a) \<Rightarrow>
        (case push_scope s1 g3 of (s2, g4) \<Rightarrow>
          (case declare_parameters s2 (ab_span b) ps g4 of (parameters1, s3, g5) \<Rightarrow>
            (let current = \<lparr>cf_name = n, cf_parameters = parameters1, cf_return_type = t\<rparr>
             in case a (s3\<lparr>se_current_func := Some current\<rparr>) g5 of (body1, s4, g6) \<Rightarrow>
               (let s5 = s4\<lparr>se_current_func := se_current_func s3\<rparr>;
                    g7 = (if t \<noteq> SF_VAL_TYPE_VOID \<and> \<not> stmt_always_returns body1
                          then sem_error s5 SF_LOG_SEMANTIC_MISSING_RETURN (ab_span b) [n, sf_type_value_name t] g6
                          else g6)
                in (SF_NODE_FUNC_DECL b n (Some m) q parameters1 t (Some body1), pop_scope s5, g7)))))
    | _ \<Rightarrow> (SF_NODE_FUNC_DECL b n (Some m) q ps t body, s1, g3)) = (st', s', g')"
    using run m qual qok ins unfolding analyze_func_decl_def func_def s1_def Let_def by simp
  let ?d = "\<lambda>d. declare_fun n m ps t d (env_of s)"
  have env1: "declarable (table_types (se_funcs s) n) ps t (body \<noteq> None)" "\<not> (is_extern q \<and> body \<noteq> None)"
    "env_of s1 = ?d (body \<noteq> None)" if "iok"
  proof -
    have "sf_func_symbol_table_insert (se_funcs s) func (se_filename s) ?gc = (True, funcs, g3)" using ins that by simp
    from inserted_function_env [OF this]
    show "declarable (table_types (se_funcs s) n) ps t (body \<noteq> None)" "\<not> (is_extern q \<and> body \<noteq> None)"
      "env_of s1 = ?d (body \<noteq> None)" by (simp_all add: func_def s1_def)
  qed
  show "stmt_typed (env_of s) st' \<and> env_of s' = after (env_of s) st'"
  proof (cases "iok \<and> a \<noteq> None")
    case False
    then have r: "st' = SF_NODE_FUNC_DECL b n (Some m) q ps t body" "s' = s1" "g' = g3" using run1 by (auto split: bool.splits option.splits)
    have "iok" and e: "g_error_count ?gc = g_error_count g" using r(3) err g3 gc by (auto split: if_splits)
    with False have "a = None" by simp
    with body(1) have "body = None" by (cases body) auto
    then show ?thesis using gc e env1 [OF \<open>iok\<close>] quals by (simp add: r(1,2) link_or_def)
  next
    case True
    then obtain a' where a: "a = Some a'" and "iok" by auto
    then obtain st where st: "body = Some st" "sound_stmt st a'" using body(1) by (cases body) auto
    obtain s2 g4 where push: "push_scope s1 g3 = (s2, g4)" by fastforce
    obtain ps1 s3 g5 where params: "declare_parameters s2 (ab_span b) ps g4 = (ps1, s3, g5)" by (rule prod_cases3)
    let ?cur = "\<lparr>cf_name = n, cf_parameters = ps1, cf_return_type = t\<rparr>"
    obtain st1 s4 g6 where an: "a' (s3\<lparr>se_current_func := Some ?cur\<rparr>) g5 = (st1, s4, g6)" by (rule prod_cases3)
    let ?s5 = "s4\<lparr>se_current_func := se_current_func s3\<rparr>"
    have r: "st' = SF_NODE_FUNC_DECL b n (Some m) q ps1 t (Some st1)" "s' = pop_scope ?s5"
      "g' = (if t \<noteq> SF_VAL_TYPE_VOID \<and> \<not> stmt_always_returns st1
             then sem_error ?s5 SF_LOG_SEMANTIC_MISSING_RETURN (ab_span b) [n, sf_type_value_name t] g6 else g6)"
      using run1 True a push params an by (auto simp: Let_def)
    note p = push_result [OF inv1 push]
    have ps1: "stmt_frame s2 g4 s3 g5" using parameters_result [OF p(2) raw(2) params] by blast
    let ?s3 = "s3\<lparr>se_current_func := Some ?cur\<rparr>"
    have inv3: "stmt_inv ?s3"
      using ps1 by (simp add: stmt_frame_def stmt_inv_def sem_ok_def)
    note an1 = sound_stmtD [OF st(2) inv3 an]
    have errs: "g_error_count ?gc = g_error_count g" "g_error_count g5 = g_error_count g4" "g_error_count g6 = g_error_count g5"
      "t = SF_VAL_TYPE_VOID \<or> stmt_always_returns st1"
      using an1(1) ps1 p(1) r(3) err g3 gc True by (auto simp: stmt_frame_def sem_error_count split: if_splits)
    have pso: "\<forall>p \<in> set ps. pm_type p \<noteq> SF_VAL_TYPE_VOID" "distinct (map pm_name ps)" using gc errs(1) by simp_all
    note types = declared_types [OF params] and names = declared_names [OF params]
    have "declare_fun n m ps1 t True (env_of s) = ?d True" using types by (simp add: declare_fun_def cong: option.case_cong)
    then have env1': "env_of s1 = declare_fun n m ps1 t True (env_of s)" using env1(3) [OF \<open>iok\<close>] st(1) by simp
    have "scope_decls (se_scope s3) = te_tables (enter_function (ab_span b) ps1 t (env_of s1))"
      using declared_tables [OF p(2) _ params errs(2)] raw(2) pso(1) p(3) by (simp add: enter_function_def)
    moreover have "se_funcs s3 = se_funcs s1"
      using declared_state [OF params] push by (auto simp: push_scope_def split: prod.splits)
    ultimately have env3: "env_of ?s3 = enter_function (ab_span b) ps1 t (env_of s1)"
      by (intro env_eqI) (simp_all add: enter_function_def)
    have "types_stmt a'" using body(2) a by simp
    from types_stmtD [OF this inv3 an errs(3)]
    have inner: "stmt_typed (enter_function (ab_span b) ps1 t (env_of s1)) st1"
      "env_of s4 = after (enter_function (ab_span b) ps1 t (env_of s1)) st1" by (simp_all only: env3)
    have frame5: "stmt_frame s3 g5 ?s5 g'"
      using an1(1) r(3) by (auto simp: stmt_frame_def stmt_inv_def sem_ok_def same_context_def sem_error_count)
    note bracket = scope_bracket [OF inv1 push stmt_frame_trans [OF ps1 frame5]]
    have ctx: "same_context s1 s'" using bracket(1) by (simp add: stmt_frame_def r(2))
    have "table_types (se_funcs s') = te_funcs (after (enter_function (ab_span b) ps1 t (env_of s1)) st1)"
      using env_simps(2) [of s4] unfolding inner(2) by (simp add: r(2) pop_scope_def)
    moreover have "scope_decls (se_scope s') = te_tables (env_of s1)" using bracket(2) by (simp add: r(2))
    ultimately have env': "env_of s' = (env_of s1)\<lparr>te_funcs := te_funcs (after (enter_function (ab_span b) ps1 t (env_of s1)) st1)\<rparr>"
      using context_env [OF ctx] by (intro env_eqI) simp_all
    have "\<forall>t \<in> set (map pm_type ps1). t \<noteq> SF_VAL_TYPE_VOID" unfolding types using pso(1) by simp
    moreover have "distinct (map pm_name ps1)" unfolding names by (rule pso(2))
    moreover have "declarable (table_types (se_funcs s) n) ps1 t True"
      using env1(1) [OF \<open>iok\<close>] st(1) types by (simp add: declarable_def split: option.splits)
    ultimately show ?thesis
      using inner(1) env' env1(2) [OF \<open>iok\<close>] quals errs(4) st(1)
      by (simp add: r(1) link_or_def Let_def env1')
  qed
qed

section \<open>All statements\<close>

lemma types_statement: "raw_stmt_ok st \<Longrightarrow> types_stmt (analyze_statement st)"
proof (induction st)
  case (SF_NODE_BLOCK b sts)
  have "list_all2 sound_stmt sts (map analyze_statement sts)"
    using SF_NODE_BLOCK.prems sound_statement by (auto simp: list_all2_conv_all_nth)
  moreover have "\<forall>a \<in> set (map analyze_statement sts). types_stmt a" using SF_NODE_BLOCK by auto
  ultimately have "types_stmt (analyze_block b (map analyze_statement sts))" by (intro types_block) simp_all
  then show ?case by (simp add: types_stmt_def)
next
  case (SF_NODE_IF b c t e)
  have "rel_option sound_stmt e (map_option analyze_statement e)"
    using SF_NODE_IF.prems sound_statement by (cases e) auto
  moreover have "case map_option analyze_statement e of None \<Rightarrow> True | Some a \<Rightarrow> types_stmt a"
    "case e of None \<Rightarrow> True | Some st \<Rightarrow> \<not> is_var_decl st" using SF_NODE_IF by (cases e; simp)+
  ultimately have "types_stmt (analyze_if b c t e (analyze_statement t) (map_option analyze_statement e))"
    using SF_NODE_IF sound_statement [of t] by (intro types_if) simp_all
  then show ?case by (simp add: types_stmt_def)
next
  case (SF_NODE_WHILE b c d)
  from types_while [of c "analyze_statement d" b d] SF_NODE_WHILE show ?case by (simp add: types_stmt_def)
next
  case (SF_NODE_FUNC_DECL b n l q ps t body)
  have "rel_option sound_stmt body (map_option analyze_statement body)"
    using SF_NODE_FUNC_DECL.prems sound_statement by (cases body) auto
  moreover have "case map_option analyze_statement body of None \<Rightarrow> True | Some a \<Rightarrow> types_stmt a"
    using SF_NODE_FUNC_DECL by (cases body) simp_all
  ultimately have "types_stmt (analyze_func_decl b n l q ps t body (map_option analyze_statement body))"
    by (intro types_func_decl) (use SF_NODE_FUNC_DECL.prems in simp_all)
  then show ?case by (simp add: types_stmt_def)
next
  case (SF_NODE_VAR_DECL b q t n vid v)
  from types_var_decl [OF SF_NODE_VAR_DECL.prems] show ?case by (simp add: types_stmt_def)
next
  case (SF_NODE_VAR_ASSIGN b n e vid)
  then show ?case using types_var_assign [of e b n vid] by (simp add: types_stmt_def)
next
  case (SF_NODE_RETURN b v)
  then show ?case using types_return [of v b] by (simp add: types_stmt_def)
next
  case (SF_STMT_EXPR e)
  then show ?case using types_expr_stmt [of e] by (simp add: types_stmt_def)
qed

text \<open>C7: The analysis of statements is a type checker. When it accepts a parsed statement in a well-formed
  state, logging no error, the annotated statement is typed by the rules of the language in the
  environment of the declarations before it, and the analysis ends in the environment after it:
  every use of a variable or function refers to the declaration in scope, with its number and
  type; conditions are boolean; what is stored, passed or returned fits the declared type; only
  mutable variables are assigned to; names are not declared twice; and no variable or parameter
  is void.\<close>

theorem accepted_statement_typed:
  assumes "stmt_inv s" "raw_stmt_ok st" "analyze_statement st s g = (st', s', g')" "g_error_count g' = g_error_count g"
  shows "stmt_typed (env_of s) st' \<and> env_of s' = after (env_of s) st'"
  using types_stmtD [OF types_statement [OF assms(2)] assms(1,3,4)] .

lemma accepted_statement_typed_witness:
  "stmt_typed empty_env (fst (analyze_statement one_function (start_semantic ''m'') sf_log_init)) \<and>
   te_funcs (after empty_env (fst (analyze_statement one_function (start_semantic ''m'') sf_log_init))) ''f'' =
     Some \<lparr>fy_params = [], fy_return = SF_VAL_TYPE_I32, fy_link = ''f'', fy_defined = True\<rparr>"
proof -
  obtain st' s' g' where r: "analyze_statement one_function (start_semantic ''m'') sf_log_init = (st', s', g')"
    by (rule prod_cases3)
  have "g_error_count g' = g_error_count sf_log_init" using r by (auto simp: one_function_def run_simps)
  moreover have "raw_stmt_ok one_function"
    by (simp add: one_function_def sf_new_literal_node_def sf_new_identifier_node_def literal_token_def)
  ultimately have "stmt_typed (env_of (start_semantic ''m'')) st' \<and> env_of s' = after (env_of (start_semantic ''m'')) st'"
    using accepted_statement_typed [OF start_inv _ r] by blast
  moreover have "env_of (start_semantic ''m'') = empty_env"
    by (simp add: env_of_def empty_env_def start_semantic_def scope_push_def scope_init_def scope_decls_def fun_eq_iff table_types_def
        sf_func_symbol_table_init_def sf_func_symbol_table_lookup_def sf_var_symbol_table_init_def)
  moreover have "te_funcs (env_of s') ''f'' = Some \<lparr>fy_params = [], fy_return = SF_VAL_TYPE_I32, fy_link = ''f'', fy_defined = True\<rparr>"
    using r by (auto simp: one_function_def run_simps table_types_def fun_type_of_def)
  ultimately show ?thesis by (metis fst_conv r)
qed

end
