(* ===== verification/Sem_Module_Facts.thy ===== *)
theory Sem_Module_Facts
  imports Sem_Module Module_Facts Parser_Raw Sem_Stmt_Typed
begin

text \<open>
  What the analysis of programs and modules promises. The module list is walked as a graph: a
  module is pending, in progress, done or failed, and only pending modules change. The modules
  that are done can be put in an order in which each comes after the modules it imports, so an
  import cycle is never accepted; a module that failed was reported; the statements of a program
  that was accepted are typed in the environment of the functions that its imports export; and its
  functions are safe in the sense of the statement analysis.
\<close>

section \<open>Programs of functions\<close>

definition function_safe :: "sf_stmt \<Rightarrow> sf_stmt \<Rightarrow> bool" where
  "function_safe st st' \<longleftrightarrow>
     (\<forall>b n l q ps t body. st = SF_NODE_FUNC_DECL b n l q ps t (Some body) \<longrightarrow> flat body \<longrightarrow>
        (\<exists>m ps' body'. st' = SF_NODE_FUNC_DECL b n (Some m) q ps' t (Some body') \<and> func_safe ps' t body' {}))"

definition program_safe :: "sf_program_node \<Rightarrow> sf_program_node \<Rightarrow> bool" where
  "program_safe p p' \<longleftrightarrow>
     ((\<forall>st \<in> set (pr_statements p). is_func_decl st) \<longrightarrow> list_all2 function_safe (pr_statements p) (pr_statements p'))"

lemma no_decls_init_ids: "scope_decls (se_scope s) = [[]] \<Longrightarrow> init_ids s = {}"
  by (auto simp: initialized_ids_def scope_decls_def)

lemma function_safe_result:
  assumes "raw_stmt_ok st" "stmt_inv s" "analyze_statement st s g = (st', s', g')" "g_error_count g' = g_error_count g"
    "init_ids s = {}"
  shows "function_safe st st'"
  unfolding function_safe_def
proof (intro allI impI)
  fix b n l q ps t body
  assume st: "st = SF_NODE_FUNC_DECL b n l q ps t (Some body)" "flat body"
  have sound: "rel_option sound_stmt (Some body) (Some (\<lambda>s g. analyze_statement body s g))"
    using sound_statement [of body] assms(1) by (simp add: st sound_stmt_def)
  have run: "analyze_func_decl b n l q ps t (Some body) (Some (\<lambda>s g. analyze_statement body s g)) s g = (st', s', g')"
    using assms(3) by (simp add: st)
  from func_decl_result [OF _ _ sound assms(2) run] assms(1,4,5) st
  show "\<exists>m ps' body'. st' = SF_NODE_FUNC_DECL b n (Some m) q ps' t (Some body') \<and> func_safe ps' t body' {}"
    by simp
qed

lemma functions_safe:
  assumes "\<forall>st \<in> set sts. raw_stmt_ok st \<and> is_func_decl st" "stmt_inv s" "scope_decls (se_scope s) = [[]]"
    "analyze_statements (map analyze_statement sts) s g = (sts', s', g')" "g_error_count g' = g_error_count g"
  shows "list_all2 function_safe sts sts'"
  using assms
proof (induction sts arbitrary: s g sts' s' g')
  case (Cons st sts)
  obtain st1 s1 g1 where a: "analyze_statement st s g = (st1, s1, g1)" by (rule prod_cases3)
  obtain rest s2 g2 where r: "analyze_statements (map analyze_statement sts) s1 g1 = (rest, s2, g2)" by (rule prod_cases3)
  have eq: "sts' = st1 # rest" "g' = g2" using Cons.prems(4) a r by simp_all
  have raw: "raw_stmt_ok st" "is_func_decl st" "\<forall>st \<in> set sts. raw_stmt_ok st" using Cons.prems(1) by auto
  note d = sound_stmtD [OF sem_stmt.analyze_sound [OF raw(1)] Cons.prems(2) a]
  have inv1: "stmt_inv s1" and mono1: "g_error_count g \<le> g_error_count g1" using d(1) by (simp_all add: stmt_frame_def)
  have "g_error_count g1 \<le> g_error_count g2"
    using sem_stmt.program_result(1) [OF raw(3) inv1 r] by (simp add: stmt_frame_def)
  then have e: "g_error_count g1 = g_error_count g" "g_error_count g2 = g_error_count g1"
    using mono1 Cons.prems(5) eq by simp_all
  have "\<not> is_var_decl st" using raw(2) by (cases st) simp_all
  then have decls: "scope_decls (se_scope s1) = [[]]" using d(2) Cons.prems(3) by simp
  have "function_safe st st1"
    by (rule function_safe_result [OF raw(1) Cons.prems(2) a e(1) no_decls_init_ids [OF Cons.prems(3)]])
  moreover have "list_all2 function_safe sts rest"
    using Cons.IH [OF _ inv1 decls r] e Cons.prems(1) by simp
  ultimately show ?case by (simp add: eq)
qed simp

section \<open>Programs in the environment of their imports\<close>

text \<open>What an import adds to an environment: the public functions of the module that are its own, as
  functions that are defined.\<close>

definition exports :: "sf_func_symbol list \<Rightarrow> sf_func_symbol list" where
  "exports fs = filter (\<lambda>f. is_public (fs_qualifiers f) \<and> \<not> fs_imported f) fs"

definition import_functions :: "sf_func_symbol list \<Rightarrow> type_env \<Rightarrow> type_env" where
  "import_functions fs =
     fold (\<lambda>f. declare_fun (fs_name f) (fs_link_name f) (fs_parameters f) (fs_return_type f) True) (exports fs)"

definition import_modules :: "sf_module_list \<Rightarrow> sf_import_node list \<Rightarrow> type_env \<Rightarrow> type_env" where
  "import_modules ms = fold (\<lambda>imp. import_functions (ft_functions (md_funcs (ms ! im_module_index imp))))"

text \<open>The environment at the start of a program, the typing of its statements in order, and the
  functions that it ends with.\<close>

definition import_env :: "sf_module_list \<Rightarrow> sf_program_node \<Rightarrow> type_env" where
  "import_env ms ast = import_modules ms (pr_imports ast) empty_env"

definition program_typed :: "sf_module_list \<Rightarrow> sf_program_node \<Rightarrow> sf_func_symbol_table \<Rightarrow> bool" where
  "program_typed ms ast funcs \<longleftrightarrow> stmts_typed (import_env ms ast) (pr_statements ast) \<and>
     table_types funcs = te_funcs (afters (import_env ms ast) (pr_statements ast))"

definition module_typed :: "sf_module_list \<Rightarrow> sf_module \<Rightarrow> bool" where
  "module_typed ms m \<longleftrightarrow> (\<exists>ast. md_ast m = Some ast \<and> program_typed ms ast (md_funcs m))"

lemma import_modules_cong:
  "\<forall>imp \<in> set imps. ms ! im_module_index imp = ms' ! im_module_index imp \<Longrightarrow> import_modules ms imps = import_modules ms' imps"
  unfolding import_modules_def by (intro ext fold_cong) auto

lemma program_typed_cong:
  "\<forall>imp \<in> set (pr_imports ast). ms ! im_module_index imp = ms' ! im_module_index imp \<Longrightarrow>
   program_typed ms ast funcs = program_typed ms' ast funcs"
  using import_modules_cong [of "pr_imports ast" ms ms'] by (simp add: program_typed_def import_env_def)

lemma import_functions_simps [simp]:
  "import_functions [] \<Gamma> = \<Gamma>"
  "\<not> is_public (fs_qualifiers f) \<or> fs_imported f \<Longrightarrow> import_functions (f # fs) \<Gamma> = import_functions fs \<Gamma>"
  "\<not> (\<not> is_public (fs_qualifiers f) \<or> fs_imported f) \<Longrightarrow> import_functions (f # fs) \<Gamma> =
     import_functions fs (declare_fun (fs_name f) (fs_link_name f) (fs_parameters f) (fs_return_type f) True \<Gamma>)"
  by (auto simp: import_functions_def exports_def)

section \<open>The module graph\<close>

definition func_types_ok :: "sf_func_symbol_table \<Rightarrow> bool" where
  "func_types_ok funcs \<longleftrightarrow> (\<forall>f \<in> set (ft_functions funcs). fs_return_type f \<noteq> SF_VAL_TYPE_UNRESOLVED \<and>
     (\<forall>p \<in> set (fs_parameters f). pm_type p \<noteq> SF_VAL_TYPE_UNRESOLVED))"

definition linked :: "nat \<Rightarrow> sf_import_node list \<Rightarrow> bool" where
  "linked n imps \<longleftrightarrow> (\<forall>imp \<in> set imps. im_resolved imp \<and> im_module_index imp < n)"

definition module_imports :: "sf_module \<Rightarrow> sf_import_node list" where
  "module_imports m = (case md_ast m of None \<Rightarrow> [] | Some ast \<Rightarrow> pr_imports ast)"

definition is_done :: "sf_module_list \<Rightarrow> nat \<Rightarrow> bool" where
  "is_done ms i \<longleftrightarrow> i < length ms \<and> md_analysis (ms ! i) = SF_MODULE_ANALYSIS_DONE"

definition module_ready :: "nat \<Rightarrow> sf_module \<Rightarrow> bool" where
  "module_ready n m \<longleftrightarrow>
     (md_analysis m = SF_MODULE_ANALYSIS_PENDING \<longrightarrow> md_state m = SF_MODULE_STATE_LOADED \<and>
        (\<exists>ast. md_ast m = Some ast \<and> linked n (pr_imports ast) \<and> (\<forall>st \<in> set (pr_statements ast). raw_stmt_ok st))) \<and>
     (md_analysis m = SF_MODULE_ANALYSIS_DONE \<longrightarrow> func_types_ok (md_funcs m))"

text \<open>\<open>xs\<close> lists the modules that are done, each after all that it imports.\<close>

definition import_order :: "sf_module_list \<Rightarrow> nat list \<Rightarrow> bool" where
  "import_order ms xs \<longleftrightarrow> (\<forall>k < length xs. \<forall>imp \<in> set (module_imports (ms ! (xs ! k))). im_module_index imp \<in> set (take k xs))"

definition done_order :: "sf_module_list \<Rightarrow> nat list \<Rightarrow> bool" where
  "done_order ms xs \<longleftrightarrow> distinct xs \<and> set xs = Collect (is_done ms) \<and> import_order ms xs"

definition modules_inv :: "sf_module_list \<Rightarrow> sf_log_state \<Rightarrow> bool" where
  "modules_inv ms g \<longleftrightarrow> (\<forall>m \<in> set ms. module_ready (length ms) m) \<and> (\<exists>xs. done_order ms xs) \<and>
     (g_error_count g = 0 \<longrightarrow> (\<forall>m \<in> set ms. md_analysis m \<noteq> SF_MODULE_ANALYSIS_FAILED) \<and>
        (\<forall>i. is_done ms i \<longrightarrow> module_typed ms (ms ! i)))"

definition pending :: "sf_module_list \<Rightarrow> nat" where
  "pending ms = length (filter (\<lambda>m. md_analysis m = SF_MODULE_ANALYSIS_PENDING) ms)"

text \<open>How an entry of the list can change: once, from pending to done or failed, and to failed only
  with an error.\<close>

definition module_change :: "bool \<Rightarrow> sf_module \<Rightarrow> sf_module \<Rightarrow> bool" where
  "module_change clean m m' \<longleftrightarrow> m' = m \<or>
     md_analysis m = SF_MODULE_ANALYSIS_PENDING \<and> md_filename m' = md_filename m \<and> module_imports m' = module_imports m \<and>
     (md_analysis m' = SF_MODULE_ANALYSIS_DONE \<or> \<not> clean \<and> md_analysis m' = SF_MODULE_ANALYSIS_FAILED) \<and>
     (clean \<longrightarrow> (\<exists>ast ast'. md_ast m = Some ast \<and> md_ast m' = Some ast' \<and> program_safe ast ast'))"

definition module_step :: "sf_module_list \<Rightarrow> sf_log_state \<Rightarrow> sf_module_list \<Rightarrow> sf_log_state \<Rightarrow> bool" where
  "module_step ms g ms' g' \<longleftrightarrow> list_all2 (module_change (g_error_count g' = 0)) ms ms' \<and> g_error_count g \<le> g_error_count g'"

lemma module_change_refl [simp]: "module_change c m m"
  by (simp add: module_change_def)

lemma module_change_trans:
  "module_change c m m' \<Longrightarrow> module_change d m' m'' \<Longrightarrow> (d \<Longrightarrow> c) \<Longrightarrow> module_change d m m''"
  by (auto simp: module_change_def)

lemma module_step_refl: "g_error_count g \<le> g_error_count g' \<Longrightarrow> module_step ms g ms g'"
  by (simp add: module_step_def list.rel_refl)

lemma module_step_trans:
  assumes "module_step ms g ms1 g1" "module_step ms1 g1 ms2 g2"
  shows "module_step ms g ms2 g2"
proof -
  have e: "g_error_count g2 = 0 \<Longrightarrow> g_error_count g1 = 0" using assms(2) by (simp add: module_step_def)
  have "list_all2 (module_change (g_error_count g2 = 0)) ms ms2"
    by (rule list_all2_trans [of "module_change (g_error_count g1 = 0)" "module_change (g_error_count g2 = 0)"])
       (use assms e module_change_trans in \<open>auto simp: module_step_def\<close>)
  then show ?thesis using assms by (simp add: module_step_def)
qed

lemma module_step_nth:
  assumes "module_step ms g ms' g'"
  shows "length ms' = length ms" "i < length ms \<Longrightarrow> module_change (g_error_count g' = 0) (ms ! i) (ms' ! i)"
  using assms by (auto simp: module_step_def list_all2_conv_all_nth)

lemma module_step_done: "module_step ms g ms' g' \<Longrightarrow> is_done ms i \<Longrightarrow> is_done ms' i"
  using module_step_nth(1) [of ms g ms' g'] module_step_nth(2) [of ms g ms' g' i]
  by (fastforce simp: is_done_def module_change_def)

lemma module_step_done_same: "module_step ms g ms' g' \<Longrightarrow> is_done ms i \<Longrightarrow> ms' ! i = ms ! i"
  using module_step_nth(2) [of ms g ms' g' i] by (auto simp: is_done_def module_change_def)

text \<open>The modules that a module that is done imports are done.\<close>

lemma done_imports:
  assumes "done_order ms xs" "is_done ms i" "imp \<in> set (module_imports (ms ! i))"
  shows "is_done ms (im_module_index imp)"
proof -
  have xs: "set xs = Collect (is_done ms)" "import_order ms xs" using assms(1) by (simp_all add: done_order_def)
  then obtain k where "k < length xs" "xs ! k = i" using assms(2) by (metis in_set_conv_nth mem_Collect_eq)
  then have "im_module_index imp \<in> set (take k xs)" using xs(2) assms(3) by (auto simp: import_order_def)
  then show ?thesis using xs(1) by (auto dest: in_set_takeD)
qed

text \<open>The typing of the modules that are done does not look at any other module.\<close>

lemma done_typed_update:
  assumes "done_order ms xs" "is_done ms j" "module_typed ms (ms ! j)" "\<not> is_done ms i"
  shows "module_typed (ms[i := m]) (ms[i := m] ! j)"
proof -
  have j: "ms[i := m] ! j = ms ! j" using assms(2,4) by (cases "j = i") auto
  obtain ast where ast: "md_ast (ms ! j) = Some ast" "program_typed ms ast (md_funcs (ms ! j))"
    using assms(3) by (auto simp: module_typed_def)
  have "\<forall>imp \<in> set (pr_imports ast). ms ! im_module_index imp = ms[i := m] ! im_module_index imp"
  proof
    fix imp
    assume "imp \<in> set (pr_imports ast)"
    then have "is_done ms (im_module_index imp)" by (intro done_imports [OF assms(1,2)]) (simp add: module_imports_def ast(1))
    then have "im_module_index imp \<noteq> i" using assms(4) by auto
    then show "ms ! im_module_index imp = ms[i := m] ! im_module_index imp" by simp
  qed
  from program_typed_cong [OF this] ast show ?thesis by (simp add: module_typed_def j)
qed

lemma module_step_pending: "module_step ms g ms' g' \<Longrightarrow> pending ms' \<le> pending ms"
proof -
  have "list_all2 (module_change c) ms ms' \<Longrightarrow> pending ms' \<le> pending ms" for c
    by (induction rule: list_all2_induct) (auto simp: pending_def module_change_def)
  then show "module_step ms g ms' g' \<Longrightarrow> pending ms' \<le> pending ms" by (auto simp: module_step_def)
qed

lemma pending_update:
  "i < length ms \<Longrightarrow> md_analysis (ms ! i) = SF_MODULE_ANALYSIS_PENDING \<Longrightarrow> md_analysis m \<noteq> SF_MODULE_ANALYSIS_PENDING \<Longrightarrow>
   Suc (pending (ms[i := m])) = pending ms"
proof (induction ms arbitrary: i)
  case (Cons x ms)
  then show ?case by (cases i) (auto simp: pending_def)
qed simp


lemma modules_inv_log: "modules_inv ms g \<Longrightarrow> g_error_count g \<le> g_error_count g' \<Longrightarrow> modules_inv ms g'"
  by (auto simp: modules_inv_def)

section \<open>Programs\<close>

text \<open>The contract of the analysis of a module, and of a list of imports.\<close>

definition analysed :: "sf_module_list \<Rightarrow> sf_log_state \<Rightarrow> nat list \<Rightarrow> bool \<Rightarrow> sf_module_list \<Rightarrow> sf_log_state \<Rightarrow> bool" where
  "analysed ms g targets ok ms' g' \<longleftrightarrow> modules_inv ms' g' \<and> module_step ms g ms' g' \<and>
     (ok \<longrightarrow> (\<forall>i \<in> set targets. is_done ms' i)) \<and> (\<not> ok \<longrightarrow> 0 < g_error_count g')"

lemma analysed_trans:
  assumes "analysed ms g [i] ok1 ms1 g1" "analysed ms1 g2 is ok2 ms2 g3" "g_error_count g1 \<le> g_error_count g2"
  shows "analysed ms g (i # is) (ok1 \<and> ok2) ms2 g3"
proof -
  have step: "module_step ms g ms1 g2" "module_step ms1 g2 ms2 g3"
  proof -
    show "module_step ms1 g2 ms2 g3" using assms(2) by (simp add: analysed_def)
    show "module_step ms g ms1 g2"
      using module_step_trans [OF _ module_step_refl [OF assms(3)]] assms(1) by (simp add: analysed_def)
  qed
  have "g_error_count g2 \<le> g_error_count g3" using step(2) by (simp add: module_step_def)
  then show ?thesis
    using assms module_step_trans [OF step] module_step_done [OF step(2)] by (auto simp: analysed_def)
qed

lemma import_symbols_result:
  "sem_ok s \<Longrightarrow> \<forall>f \<in> set fs. fs_return_type f \<noteq> SF_VAL_TYPE_UNRESOLVED \<and>
     (\<forall>p \<in> set (fs_parameters f). pm_type p \<noteq> SF_VAL_TYPE_UNRESOLVED) \<Longrightarrow>
   import_symbols fs fn (se_funcs s) g = (funcs, g') \<Longrightarrow> sem_ok (s\<lparr>se_funcs := funcs\<rparr>) \<and> g_error_count g \<le> g_error_count g' \<and>
     (g_error_count g' = g_error_count g \<longrightarrow> env_of (s\<lparr>se_funcs := funcs\<rparr>) = import_functions fs (env_of s))"
proof (induction fs arbitrary: s g)
  case (Cons f fs)
  show ?case
  proof (cases "\<not> is_public (fs_qualifiers f) \<or> fs_imported f")
    case True
    then show ?thesis using Cons.IH [OF Cons.prems(1)] Cons.prems(2,3) by simp
  next
    case False
    let ?f = "f\<lparr>fs_imported := True, fs_defined := True\<rparr>"
    obtain ok funcs1 g1 where ins: "sf_func_symbol_table_insert (se_funcs s) ?f fn g = (ok, funcs1, g1)" by (rule prod_cases3)
    have "sem_ok (s\<lparr>se_funcs := funcs1\<rparr>)" using func_insert_sem_ok [OF Cons.prems(1) ins] Cons.prems(2) by simp
    moreover have count: "g_error_count g1 = (if ok then g_error_count g else Suc (g_error_count g))" by (rule func_insert_spec(3) [OF ins])
    moreover have "env_of (s\<lparr>se_funcs := funcs1\<rparr>) =
        declare_fun (fs_name f) (fs_link_name f) (fs_parameters f) (fs_return_type f) True (env_of s)" if ok
      using inserted_function_env(3) [of s ?f fn g funcs1 g1] ins that by simp
    moreover have "import_symbols fs fn (se_funcs (s\<lparr>se_funcs := funcs1\<rparr>)) g1 = (funcs, g')" using Cons.prems(3) False ins by simp
    ultimately show ?thesis
      using Cons.IH [of "s\<lparr>se_funcs := funcs1\<rparr>" g1] Cons.prems(2) False by (cases ok) (auto split: if_splits)
  qed
qed auto

lemma import_public_symbols_result:
  assumes "stmt_inv s" "func_types_ok (md_funcs m)" "import_public_symbols s m g = (s', g')"
  shows "stmt_inv s'" "se_scope s' = se_scope s" "g_error_count g \<le> g_error_count g'"
    "g_error_count g' = g_error_count g \<Longrightarrow> env_of s' = import_functions (ft_functions (md_funcs m)) (env_of s)"
proof -
  obtain funcs where r: "import_symbols (ft_functions (md_funcs m)) (se_filename s) (se_funcs s) g = (funcs, g')"
    "s' = s\<lparr>se_funcs := funcs\<rparr>"
    using assms(3) by (auto simp: import_public_symbols_def split: prod.splits)
  from import_symbols_result [OF _ _ r(1)] assms(1,2)
  show "stmt_inv s'" "se_scope s' = se_scope s" "g_error_count g \<le> g_error_count g'"
    "g_error_count g' = g_error_count g \<Longrightarrow> env_of s' = import_functions (ft_functions (md_funcs m)) (env_of s)"
    by (auto simp: stmt_inv_def func_types_ok_def r(2))
qed

lemma done_func_types: "modules_inv ms g \<Longrightarrow> is_done ms i \<Longrightarrow> func_types_ok (md_funcs (ms ! i))"
  by (auto simp: modules_inv_def module_ready_def is_done_def)

definition analyses :: "nat \<Rightarrow> (nat \<Rightarrow> sf_module_list \<Rightarrow> sf_log_state \<Rightarrow> (bool \<times> sf_module_list \<times> sf_log_state) option) \<Rightarrow> bool" where
  "analyses n analyze \<longleftrightarrow>
     (\<forall>i ms g. i < length ms \<longrightarrow> modules_inv ms g \<longrightarrow> pending ms < n \<longrightarrow>
        (\<exists>ok ms' g'. analyze i ms g = Some (ok, ms', g') \<and> analysed ms g [i] ok ms' g'))"

lemma analyze_imports_result:
  assumes rec: "analyses n analyze"
  shows "linked (length ms) imps \<Longrightarrow> modules_inv ms g \<Longrightarrow> pending ms < n \<Longrightarrow> stmt_inv s \<Longrightarrow>
    \<exists>ok s' ms' g'. analyze_imports analyze imps s ms g = Some (ok, s', ms', g') \<and> stmt_inv s' \<and> se_scope s' = se_scope s \<and>
      analysed ms g (map im_module_index imps) ok ms' g' \<and>
      (g_error_count g' = 0 \<longrightarrow> env_of s' = import_modules ms' imps (env_of s))"
proof (induction imps arbitrary: s ms g)
  case Nil
  then have "analysed ms g [] True ms g" by (simp add: analysed_def module_step_refl)
  with Nil show ?case by (auto simp: import_modules_def)
next
  case (Cons imp imps)
  have imp: "im_resolved imp" "im_module_index imp < length ms" using Cons.prems(1) by (simp_all add: linked_def)
  obtain ok ms1 g1 where a: "analyze (im_module_index imp) ms g = Some (ok, ms1, g1)" "analysed ms g [im_module_index imp] ok ms1 g1"
    using rec imp(2) Cons.prems(2,3) unfolding analyses_def by blast
  have inv1: "modules_inv ms1 g1" and step: "module_step ms g ms1 g1" using a(2) by (simp_all add: analysed_def)
  have linked: "linked (length ms1) imps" using Cons.prems(1) module_step_nth(1) [OF step] by (simp add: linked_def)
  have less: "pending ms1 < n" using module_step_pending [OF step] Cons.prems(3) by simp
  show ?case
  proof (cases ok)
    case False
    obtain ok2 s2 ms2 g2 where r: "analyze_imports analyze imps s ms1 g1 = Some (ok2, s2, ms2, g2)" "stmt_inv s2"
      "se_scope s2 = se_scope s" "analysed ms1 g1 (map im_module_index imps) ok2 ms2 g2"
      using Cons.IH [OF linked inv1 less Cons.prems(4)] by blast
    have "0 < g_error_count g1" "g_error_count g1 \<le> g_error_count g2"
      using a(2) r(4) False by (simp_all add: analysed_def module_step_def)
    then have "g_error_count g2 \<noteq> 0" by simp
    then show ?thesis using a imp(1) False r analysed_trans [OF a(2) r(4)] by auto
  next
    case True
    obtain s1 g2 where i: "import_public_symbols s (ms1 ! im_module_index imp) g1 = (s1, g2)" by fastforce
    have "func_types_ok (md_funcs (ms1 ! im_module_index imp))"
      by (rule done_func_types [OF inv1]) (use a(2) True in \<open>simp add: analysed_def\<close>)
    note imported = import_public_symbols_result [OF Cons.prems(4) this i]
    obtain ok2 s2 ms2 g3 where r: "analyze_imports analyze imps s1 ms1 g2 = Some (ok2, s2, ms2, g3)" "stmt_inv s2"
      "se_scope s2 = se_scope s1" "analysed ms1 g2 (map im_module_index imps) ok2 ms2 g3"
      "g_error_count g3 = 0 \<longrightarrow> env_of s2 = import_modules ms2 imps (env_of s1)"
      using Cons.IH [OF linked modules_inv_log [OF inv1 imported(3)] less imported(1)] by (elim exE conjE) (rule that)
    have "env_of s2 = import_modules ms2 (imp # imps) (env_of s)" if e: "g_error_count g3 = 0"
    proof -
      have step2: "module_step ms1 g2 ms2 g3" using r(4) by (simp add: analysed_def)
      then have "g_error_count g2 = 0" "g_error_count g1 = 0" using e imported(3) by (simp_all add: module_step_def)
      then have "env_of s1 = import_functions (ft_functions (md_funcs (ms1 ! im_module_index imp))) (env_of s)" using imported(4) by simp
      moreover have "ms2 ! im_module_index imp = ms1 ! im_module_index imp"
        by (rule module_step_done_same [OF step2]) (use a(2) True in \<open>simp add: analysed_def\<close>)
      ultimately show ?thesis using r(5) e by (simp add: import_modules_def)
    qed
    then show ?thesis using a(1) imp(1) True i r imported(2) analysed_trans [OF a(2) r(4) imported(3)] by simp
  qed
qed

lemma check_main_function_count: "g_error_count g \<le> g_error_count (check_main_function s g)"
  by (auto simp: check_main_function_def Let_def sem_error_count split: option.splits)

lemma module_prefix_log: "sf_mangle_module_prefix (\<lambda>_. True) name g = (Some (''_SF'' @ mangle_parts [] (take (path_end name) name)), g)"
  by (simp add: sf_mangle_module_prefix_def Let_def)

lemma analyze_program_result:
  assumes rec: "analyses n analyze" and ms: "linked (length ms) (pr_imports program)" "modules_inv ms g" "pending ms < n"
    and raw: "\<forall>st \<in> set (pr_statements program). raw_stmt_ok st"
  shows "\<exists>ok program' funcs ms' g'.
      analyze_program analyze ms program filename sf_func_symbol_table_init root name g = Some (ok, program', funcs, ms', g') \<and>
      analysed ms g (map im_module_index (pr_imports program)) ok ms' g' \<and> pr_imports program' = pr_imports program \<and>
      func_types_ok funcs \<and> (g_error_count g' = 0 \<longrightarrow> program_safe program program' \<and> program_typed ms' program' funcs)"
proof -
  obtain scope g1 where scope: "scope_push (\<lambda>_. True) scope_init g = (scope, g1)" by fastforce
  have [simp]: "g1 = g" using scope by (auto simp: scope_push_def scope_init_def Let_def split: if_splits)
  define prefix where "prefix = map_option (\<lambda>name. ''_SF'' @ mangle_parts [] (take (path_end name) name)) name"
  have prefix: "(case name of None \<Rightarrow> (None, g1) | Some name \<Rightarrow> sf_mangle_module_prefix (\<lambda>_. True) name g1) = (prefix, g)"
    by (simp add: prefix_def module_prefix_log split: option.splits)
  define s where "s = \<lparr>se_scope = scope, se_funcs = sf_func_symbol_table_init, se_current_func = None, se_filename = filename,
                       se_module_prefix = prefix\<rparr>"
  have inv: "stmt_inv s" and decls: "scope_decls (se_scope s) = [[]]"
    using scope by (auto simp: s_def stmt_inv_def sem_ok_def scope_ok_def scope_push_def scope_init_def scope_decls_def
      sf_func_symbol_table_init_def sf_var_symbol_table_init_def)
  obtain ok s1 ms1 g2 where an: "analyze_imports analyze (pr_imports program) s ms g = Some (ok, s1, ms1, g2)" "stmt_inv s1"
    "se_scope s1 = se_scope s" "analysed ms g (map im_module_index (pr_imports program)) ok ms1 g2"
    "g_error_count g2 = 0 \<longrightarrow> env_of s1 = import_modules ms1 (pr_imports program) (env_of s)"
    using analyze_imports_result [OF rec ms inv] by (elim exE conjE) (rule that)
  obtain sts s2 g3 where sts: "analyze_statements (map analyze_statement (pr_statements program)) s1 g2 = (sts, s2, g3)"
    by (rule prod_cases3)
  have frame: "stmt_frame s1 g2 s2 g3" by (rule sem_stmt.program_result(1) [OF raw an(2) sts])
  define g4 where "g4 = (if root then check_main_function s2 g3 else g3)"
  have mono: "g_error_count g2 \<le> g_error_count g3" "g_error_count g3 \<le> g_error_count g4"
    using frame check_main_function_count by (simp_all add: stmt_frame_def g4_def)
  have run: "analyze_program analyze ms program filename sf_func_symbol_table_init root name g =
      Some (ok, program\<lparr>pr_statements := sts\<rparr>, se_funcs s2, ms1, g4)"
    using an(1) by (simp add: analyze_program_def scope prefix s_def [symmetric] sts g4_def del: \<open>g1 = g\<close>)
  have "analysed ms g (map im_module_index (pr_imports program)) ok ms1 g4"
    using an(4) mono module_step_trans [OF _ module_step_refl, of ms g ms1 g2 g4] modules_inv_log [of ms1 g2 g4]
    by (auto simp: analysed_def)
  moreover have "func_types_ok (se_funcs s2)" using frame by (simp add: stmt_frame_def stmt_inv_def sem_ok_def func_types_ok_def)
  moreover have "program_safe program (program\<lparr>pr_statements := sts\<rparr>)" if e: "g_error_count g4 = 0"
    using functions_safe [OF _ an(2) _ sts] raw mono e decls an(3) by (simp add: program_safe_def)
  moreover have "program_typed ms1 (program\<lparr>pr_statements := sts\<rparr>) (se_funcs s2)" if e: "g_error_count g4 = 0"
  proof -
    have "list_all2 sound_stmt (pr_statements program) (map analyze_statement (pr_statements program))"
      using raw sound_statement by (auto simp: list_all2_conv_all_nth)
    moreover have "\<forall>a \<in> set (map analyze_statement (pr_statements program)). types_stmt a" using raw types_statement by auto
    ultimately have typed: "stmts_typed (env_of s1) sts \<and> env_of s2 = afters (env_of s1) sts"
      by (rule types_statements [OF _ _ an(2) sts]) (use mono e in simp)
    have "env_of s = empty_env"
      using decls by (simp add: env_of_def empty_env_def s_def table_types_def sf_func_symbol_table_init_def
          sf_func_symbol_table_lookup_def fun_eq_iff)
    then have "env_of s1 = import_env ms1 (program\<lparr>pr_statements := sts\<rparr>)" using an(5) mono e by (simp add: import_env_def)
    then show ?thesis using typed env_simps(2) [of s2] by (simp add: program_typed_def)
  qed
  ultimately show ?thesis using run by auto
qed


section \<open>Modules\<close>

lemma modules_inv_start:
  assumes "modules_inv ms g" "i < length ms" "md_analysis (ms ! i) = SF_MODULE_ANALYSIS_PENDING"
  shows "modules_inv (ms[i := (ms ! i)\<lparr>md_analysis := SF_MODULE_ANALYSIS_IN_PROGRESS, md_funcs := funcs\<rparr>]) g"
proof -
  let ?ms = "ms[i := (ms ! i)\<lparr>md_analysis := SF_MODULE_ANALYSIS_IN_PROGRESS, md_funcs := funcs\<rparr>]"
  have "is_done ?ms j \<longleftrightarrow> is_done ms j" for j
    using assms(2,3) by (cases "j = i") (simp_all add: is_done_def)
  then have "is_done ?ms = is_done ms" by (simp add: fun_eq_iff)
  moreover have "module_imports (?ms ! j) = module_imports (ms ! j)" for j
    using assms(2) by (cases "j = i") (simp_all add: module_imports_def)
  ultimately have "done_order ?ms xs \<longleftrightarrow> done_order ms xs" for xs
    by (simp add: done_order_def import_order_def)
  moreover have "module_typed ?ms (?ms ! j)" if "is_done ?ms j" "g_error_count g = 0" for j
  proof -
    obtain xs where xs: "done_order ms xs" using assms(1) by (auto simp: modules_inv_def)
    have "is_done ms j" using that(1) \<open>is_done ?ms = is_done ms\<close> by simp
    moreover have "\<not> is_done ms i" using assms(3) by (simp add: is_done_def)
    ultimately show ?thesis using done_typed_update [OF xs, of j i] assms(1) that(2) by (simp add: modules_inv_def)
  qed
  ultimately show ?thesis
    using assms(1) by (auto simp: modules_inv_def module_ready_def dest!: set_update_subset_insert [THEN subsetD])
qed

text \<open>The end of the analysis of a module that was in progress.\<close>

lemma done_order_finish:
  assumes ord: "done_order ms xs" and i: "i < length ms" "\<not> is_done ms i" and imp: "module_imports m = module_imports (ms ! i)"
    and deps: "\<forall>imp \<in> set (module_imports m). is_done ms (im_module_index imp)"
    and don: "md_analysis m = SF_MODULE_ANALYSIS_DONE"
  shows "done_order (ms[i := m]) (xs @ [i])"
proof -
  let ?ms = "ms[i := m]"
  have xs: "distinct xs" "set xs = Collect (is_done ms)" "import_order ms xs" using ord by (simp_all add: done_order_def)
  have fresh: "i \<notin> set xs" using xs(2) i(2) by simp
  have im: "module_imports (?ms ! j) = module_imports (ms ! j)" for j
    using i(1) imp by (cases "j = i") simp_all
  have "Collect (is_done ?ms) = insert i (Collect (is_done ms))"
    using i don by (auto simp: is_done_def nth_list_update split: if_splits)
  moreover have "import_order ?ms (xs @ [i])"
    unfolding import_order_def im
  proof (intro allI impI ballI)
    fix k imp
    assume k: "k < length (xs @ [i])" and imp: "imp \<in> set (module_imports (ms ! ((xs @ [i]) ! k)))"
    show "im_module_index imp \<in> set (take k (xs @ [i]))"
    proof (cases "k < length xs")
      case True
      then show ?thesis using xs(3) imp by (simp add: import_order_def nth_append)
    next
      case False
      then have "k = length xs" using k by simp
      then show ?thesis using deps imp xs(2) \<open>module_imports m = module_imports (ms ! i)\<close> by simp
    qed
  qed
  ultimately show ?thesis using xs(1,2) fresh by (simp add: done_order_def)
qed

lemma done_order_update:
  assumes "done_order ms xs" "i < length ms" "\<not> is_done ms i" "md_analysis m \<noteq> SF_MODULE_ANALYSIS_DONE"
  shows "done_order (ms[i := m]) xs"
proof -
  have xs: "set xs = Collect (is_done ms)" using assms(1) by (simp add: done_order_def)
  have "is_done (ms[i := m]) j \<longleftrightarrow> is_done ms j" for j
    using assms(2-4) by (cases "j = i") (simp_all add: is_done_def)
  then have "is_done (ms[i := m]) = is_done ms" by (simp add: fun_eq_iff)
  moreover have "k < length xs \<Longrightarrow> (ms[i := m]) ! (xs ! k) = ms ! (xs ! k)" for k
    using xs assms(3) nth_mem [of k xs] by (metis mem_Collect_eq nth_list_update_neq)
  ultimately show ?thesis using assms(1) by (simp add: done_order_def import_order_def)
qed

lemma analyze_module_pending:
  assumes rec: "analyses n (analyze_module n)" and i: "i < length ms" "md_analysis (ms ! i) = SF_MODULE_ANALYSIS_PENDING"
    and inv: "modules_inv ms g" and less: "pending ms < Suc n"
  shows "\<exists>ok ms' g'. analyze_module (Suc n) i ms g = Some (ok, ms', g') \<and> analysed ms g [i] ok ms' g'"
proof -
  let ?m = "ms ! i"
  define ms0 where "ms0 = ms[i := ?m\<lparr>md_analysis := SF_MODULE_ANALYSIS_IN_PROGRESS, md_funcs := sf_func_symbol_table_init\<rparr>]"
  have ready: "module_ready (length ms) ?m" using inv i(1) by (simp add: modules_inv_def)
  then obtain ast where ast: "md_state ?m = SF_MODULE_STATE_LOADED" "md_ast ?m = Some ast" "linked (length ms) (pr_imports ast)"
    "\<forall>st \<in> set (pr_statements ast). raw_stmt_ok st"
    using i(2) by (auto simp: module_ready_def)
  have inv0: "modules_inv ms0 g" unfolding ms0_def by (rule modules_inv_start [OF inv i])
  have len: "length ms0 = length ms" by (simp add: ms0_def)
  have "Suc (pending ms0) = pending ms" unfolding ms0_def by (rule pending_update) (use i in simp_all)
  then have less0: "pending ms0 < n" using less by simp
  obtain ok ast1 funcs1 ms1 g1 where run: "analyze_program (analyze_module n) ms0 ast (md_filename ?m) sf_func_symbol_table_init False
        (Some (md_name ?m)) g = Some (ok, ast1, funcs1, ms1, g1)"
    and an: "analysed ms0 g (map im_module_index (pr_imports ast)) ok ms1 g1" "pr_imports ast1 = pr_imports ast" "func_types_ok funcs1"
      "g_error_count g1 = 0 \<longrightarrow> program_safe ast ast1 \<and> program_typed ms1 ast1 funcs1"
    using analyze_program_result [OF rec _ inv0 less0 ast(4)] ast(3) len by metis
  have step: "module_step ms0 g ms1 g1" and inv1: "modules_inv ms1 g1" using an(1) by (simp_all add: analysed_def)
  have len1: "length ms1 = length ms" using module_step_nth(1) [OF step] len by simp
  have same: "ms1 ! i = ms0 ! i"
    using module_step_nth(2) [OF step, of i] i(1) len by (auto simp: module_change_def ms0_def)
  then have m1: "ms1 ! i = ?m\<lparr>md_analysis := SF_MODULE_ANALYSIS_IN_PROGRESS, md_funcs := sf_func_symbol_table_init\<rparr>"
    using i(1) by (simp add: ms0_def)
  define m where "m = (ms1 ! i)\<lparr>md_ast := Some ast1, md_funcs := funcs1,
      md_analysis := (if ok then SF_MODULE_ANALYSIS_DONE else SF_MODULE_ANALYSIS_FAILED)\<rparr>"
  have result: "analyze_module (Suc n) i ms g = Some (ok, ms1[i := m], g1)"
    using i(2) ast(1,2) run by (simp add: ms0_def m_def)
  have m_imports: "module_imports m = module_imports (ms1 ! i)"
    using ast(2) an(2) m1 by (simp add: m_def module_imports_def)
  have not_done: "\<not> is_done ms1 i" using m1 by (simp add: is_done_def)
  obtain xs where xs: "done_order ms1 xs" using inv1 by (auto simp: modules_inv_def)
  have "\<exists>xs. done_order (ms1[i := m]) xs"
  proof (cases ok)
    case True
    have "\<forall>imp \<in> set (module_imports m). is_done ms1 (im_module_index imp)"
      using an(1,2) True by (simp add: analysed_def m_def module_imports_def)
    from done_order_finish [OF xs _ not_done m_imports this] show ?thesis
      using i(1) len1 True by (auto simp: m_def)
  next
    case False
    then show ?thesis using done_order_update [OF xs _ not_done, of m] i(1) len1 by (auto simp: m_def)
  qed
  moreover have "\<forall>x \<in> set (ms1[i := m]). module_ready (length ms1) x"
    using inv1 an(3) set_update_subset_insert [of ms1 i m] by (auto simp: modules_inv_def module_ready_def m_def)
  moreover have failed: "\<not> ok \<Longrightarrow> 0 < g_error_count g1" using an(1) by (simp add: analysed_def)
  then have "g_error_count g1 = 0 \<longrightarrow> (\<forall>x \<in> set (ms1[i := m]). md_analysis x \<noteq> SF_MODULE_ANALYSIS_FAILED)"
    using inv1 set_update_subset_insert [of ms1 i m] by (auto simp: modules_inv_def m_def)
  moreover have "module_typed (ms1[i := m]) (ms1[i := m] ! j)" if e: "g_error_count g1 = 0" and j: "is_done (ms1[i := m]) j" for j
  proof (cases "j = i")
    case True
    have "\<forall>imp \<in> set (pr_imports ast1). is_done ms1 (im_module_index imp)" using an(1,2) failed e by (auto simp: analysed_def)
    then have "\<forall>imp \<in> set (pr_imports ast1). ms1 ! im_module_index imp = ms1[i := m] ! im_module_index imp"
      using not_done by (metis nth_list_update_neq)
    from program_typed_cong [OF this] show ?thesis using an(4) e True i(1) len1 by (simp add: module_typed_def m_def)
  next
    case False
    then have "is_done ms1 j" using j by (simp add: is_done_def)
    then show ?thesis using done_typed_update [OF xs _ _ not_done, of j] inv1 e by (simp add: modules_inv_def)
  qed
  ultimately have "modules_inv (ms1[i := m]) g1" by (simp add: modules_inv_def)
  moreover have "module_step ms g (ms1[i := m]) g1"
    unfolding module_step_def list_all2_conv_all_nth
  proof (intro conjI allI impI)
    show "length ms = length (ms1[i := m])" using len1 by simp
    show "g_error_count g \<le> g_error_count g1" using step by (simp add: module_step_def)
    fix j
    assume j: "j < length ms"
    show "module_change (g_error_count g1 = 0) (ms ! j) (ms1[i := m] ! j)"
    proof (cases "j = i")
      case True
      have "module_change (g_error_count g1 = 0) ?m m"
        using i(2) ast(2) an(2,4) failed by (auto simp: module_change_def m_def m1 module_imports_def)
      then show ?thesis using True j len1 by simp
    next
      case False
      then show ?thesis using module_step_nth(2) [OF step, of j] j len by (simp add: ms0_def)
    qed
  qed
  moreover have "ok \<Longrightarrow> is_done (ms1[i := m]) i" using i(1) len1 by (simp add: is_done_def m_def)
  ultimately have "analysed ms g [i] ok (ms1[i := m]) g1" using failed by (simp add: analysed_def)
  then show ?thesis using result by blast
qed

lemma analyze_module_analyses: "analyses n (analyze_module n)"
proof (induction n)
  case 0
  then show ?case by (simp add: analyses_def)
next
  case (Suc n)
  show ?case
    unfolding analyses_def
  proof (intro allI impI)
    fix i ms g
    assume i: "i < length ms" and inv: "modules_inv ms g" and less: "pending ms < Suc n"
    show "\<exists>ok ms' g'. analyze_module (Suc n) i ms g = Some (ok, ms', g') \<and> analysed ms g [i] ok ms' g'"
    proof (cases "md_analysis (ms ! i)")
      case SF_MODULE_ANALYSIS_PENDING
      from analyze_module_pending [OF Suc i this inv less] show ?thesis .
    next
      case SF_MODULE_ANALYSIS_IN_PROGRESS
      let ?g = "sf_log (Some (md_filename (ms ! i))) SF_LOG_SEMANTIC_CYCLIC_IMPORT sf_span_zero SF_LOG_SEVERITY_ERROR
          [md_filename (ms ! i)] g"
      have "g_error_count ?g = Suc (g_error_count g)" by (rule sf_log_error_count) (simp add: less_eq_sf_log_severity_def)
      then have "analysed ms g [i] False ms ?g"
        using modules_inv_log [OF inv, of ?g] by (simp add: analysed_def module_step_refl)
      then show ?thesis using SF_MODULE_ANALYSIS_IN_PROGRESS by (auto simp: Let_def)
    next
      case SF_MODULE_ANALYSIS_DONE
      then show ?thesis using inv i by (auto simp: analysed_def module_step_refl is_done_def)
    next
      case SF_MODULE_ANALYSIS_FAILED
      then have "g_error_count g \<noteq> 0" using inv i by (auto simp: modules_inv_def)
      then show ?thesis using SF_MODULE_ANALYSIS_FAILED inv by (auto simp: analysed_def module_step_refl)
    qed
  qed
qed


section \<open>From resolved modules to analysed ones\<close>

definition freshly_loaded :: "sf_module_list \<Rightarrow> bool" where
  "freshly_loaded ms \<longleftrightarrow> (\<forall>m \<in> set ms. md_analysis m = SF_MODULE_ANALYSIS_PENDING \<and> module_ready (length ms) m)"

lemma freshly_loaded_inv:
  assumes "freshly_loaded ms"
  shows "modules_inv ms g" "pending ms = length ms"
proof -
  have "done_order ms []" using assms by (auto simp: done_order_def import_order_def is_done_def freshly_loaded_def)
  moreover have "\<not> is_done ms i" for i using assms by (auto simp: is_done_def freshly_loaded_def)
  ultimately show "modules_inv ms g" using assms by (auto simp: modules_inv_def freshly_loaded_def)
  show "pending ms = length ms" using assms by (simp add: pending_def freshly_loaded_def)
qed

lemma load_program_raw:
  "load_program fs f g = Some (Some program, g') \<Longrightarrow> \<forall>st \<in> set (pr_statements program). raw_stmt_ok st"
  by (auto simp: load_program_def split: prod.splits option.splits if_splits dest!: sf_parse_raw)

lemma resolved_linked: "list_all2 (import_resolved fs paths ms) imps imps' \<Longrightarrow> linked (length ms) imps'"
  by (fastforce simp: linked_def import_resolved_def list_all2_conv_all_nth in_set_conv_nth)

lemma loaded_fresh: "\<forall>m \<in> set ms. module_loaded fs paths ms m \<Longrightarrow> freshly_loaded ms"
  using resolved_linked load_program_raw by (fastforce simp: freshly_loaded_def module_ready_def module_loaded_def)

lemma sf_analyze_result:
  assumes "freshly_loaded ms" "linked (length ms) (pr_imports program)" "\<forall>st \<in> set (pr_statements program). raw_stmt_ok st"
    "length ms < n"
  shows "\<exists>ok program' funcs ms' g'. sf_analyze n program filename options ms g = Some (ok, program', funcs, ms', g') \<and>
      analysed ms g (map im_module_index (pr_imports program)) ok ms' g' \<and>
      (g_error_count g' = 0 \<longrightarrow> program_safe program program' \<and> program_typed ms' program' funcs)"
  using analyze_program_result [OF analyze_module_analyses assms(2) freshly_loaded_inv(1) [OF assms(1)] _ assms(3), of n]
    freshly_loaded_inv(2) [OF assms(1)] assms(4) unfolding sf_analyze_def Let_def by (metis (no_types, lifting))

section \<open>The analysis of programs, as properties\<close>

text \<open>C37: The analysis of a program always returns, however its modules import one another, cycles
  included: as much fuel as there are modules is enough. And when it reports failure, an error is
  in the log, which is what the driver looks at, since it ignores the result.\<close>

theorem sf_analyze_total:
  assumes "freshly_loaded ms" "linked (length ms) (pr_imports program)" "\<forall>st \<in> set (pr_statements program). raw_stmt_ok st"
    "length ms < n"
  shows "\<exists>ok program' funcs ms' g'. sf_analyze n program filename options ms g = Some (ok, program', funcs, ms', g') \<and>
    (ok \<or> 0 < g_error_count g') \<and> g_error_count g \<le> g_error_count g'"
proof -
  obtain ok program' funcs ms' g' where "sf_analyze n program filename options ms g = Some (ok, program', funcs, ms', g')"
    "analysed ms g (map im_module_index (pr_imports program)) ok ms' g'"
    using sf_analyze_result [OF assms] by blast
  then show ?thesis by (auto simp: analysed_def module_step_def)
qed

text \<open>C15: An import cycle is never accepted. When the analysis of a program logs no error, the modules it
  analysed can be listed so that each comes after all the modules it imports, and the modules that
  the program imports are among them: the import graph that the program reaches has no cycle.\<close>

theorem accepted_imports_acyclic:
  assumes "freshly_loaded ms" "linked (length ms) (pr_imports program)" "\<forall>st \<in> set (pr_statements program). raw_stmt_ok st"
    "length ms < n" "sf_analyze n program filename options ms g = Some (ok, program', funcs, ms', g')" "g_error_count g' = 0"
  shows "ok \<and> (\<exists>xs. distinct xs \<and> set xs = Collect (is_done ms') \<and> import_order ms xs \<and>
    im_module_index ` set (pr_imports program) \<subseteq> set xs)"
proof -
  have an: "analysed ms g (map im_module_index (pr_imports program)) ok ms' g'"
    using sf_analyze_result [OF assms(1-4), of filename options g] assms(5) by simp
  have step: "module_step ms g ms' g'" using an by (simp add: analysed_def)
  obtain xs where xs: "done_order ms' xs" using an by (auto simp: analysed_def modules_inv_def)
  have "module_imports (ms' ! i) = module_imports (ms ! i)" if "i < length ms" for i
    using module_step_nth(2) [OF step that] by (auto simp: module_change_def)
  moreover have "xs ! k < length ms" if "k < length xs" for k
    using xs nth_mem [OF that] module_step_nth(1) [OF step] by (auto simp: done_order_def is_done_def)
  ultimately have "import_order ms xs" using xs by (simp add: done_order_def import_order_def)
  then show ?thesis using an assms(6) xs by (auto simp: analysed_def done_order_def)
qed

text \<open>A chain to run the analysis on: the program imports the first module, which imports the second.\<close>

definition import_of :: "nat \<Rightarrow> sf_import_node" where
  "import_of i = (sf_new_import_node ''m.slfr'' sf_span_zero)\<lparr>im_module_index := i, im_resolved := True\<rparr>"

definition module_importing :: "sf_import_node list \<Rightarrow> sf_module" where
  "module_importing imps = \<lparr>md_state = SF_MODULE_STATE_LOADED, md_ast = Some (sf_new_program_node\<lparr>pr_imports := imps\<rparr>),
     md_filename = ''m.slfr'', md_name = ''m.slfr'', md_analysis = SF_MODULE_ANALYSIS_PENDING, md_funcs = sf_func_symbol_table_init\<rparr>"

definition chain :: sf_module_list where
  "chain = [module_importing [import_of 1], module_importing []]"

definition chain_options :: sf_compiler_options where
  "chain_options = \<lparr>op_file_input = ''main.slfr'', op_file_output = ''main.asm'', op_dump_stages = False, op_is_module = True,
     op_module_paths = []\<rparr>"

lemma chain_fresh: "freshly_loaded chain"
  by (simp add: freshly_loaded_def chain_def module_importing_def module_ready_def linked_def import_of_def sf_new_import_node_def
      sf_new_program_node_def)

lemma chain_linked: "linked (length chain) [import_of 0]"
  by (simp add: linked_def chain_def import_of_def)

lemma sf_analyze_total_witness:
  "\<exists>ok program' funcs ms' g'. sf_analyze 3 (sf_new_program_node\<lparr>pr_imports := [import_of 0]\<rparr>) ''main.slfr'' chain_options chain
     sf_log_init = Some (ok, program', funcs, ms', g')"
  using sf_analyze_total [OF chain_fresh, of "sf_new_program_node\<lparr>pr_imports := [import_of 0]\<rparr>" 3 "''main.slfr''" chain_options sf_log_init]
    chain_linked by (auto simp: sf_new_program_node_def chain_def)

lemma chain_run:
  "\<exists>ok program' funcs ms'. sf_analyze 3 (sf_new_program_node\<lparr>pr_imports := [import_of 0]\<rparr>) ''main.slfr'' chain_options chain
     sf_log_init = Some (ok, program', funcs, ms', sf_log_init) \<and> Collect (is_done ms') = {0, 1}"
proof -
  have push: "\<exists>scope. scope_push (\<lambda>_. True) scope_init g = (scope, g)" for g
    by (simp add: scope_push_def scope_init_def)
  then obtain scope where push: "\<And>g. scope_push (\<lambda>_. True) scope_init g = (scope g, g)" by metis
  have "is_done ms i \<longleftrightarrow> i = 0 \<or> i = 1" if "length ms = 2" "md_analysis (ms ! 0) = SF_MODULE_ANALYSIS_DONE"
    "md_analysis (ms ! 1) = SF_MODULE_ANALYSIS_DONE" for ms i
    using that by (auto simp: is_done_def less_2_cases_iff)
  then have two: "Collect (is_done [a, b]) = {0, 1}" if "md_analysis a = SF_MODULE_ANALYSIS_DONE"
    "md_analysis b = SF_MODULE_ANALYSIS_DONE" for a b
    using that by auto
  show ?thesis
    by (auto simp: sf_analyze_def chain_options_def sf_module_name_from_path_def analyze_program_def push import_of_def
        chain_def numeral_3_eq_3 module_importing_def sf_new_program_node_def sf_new_import_node_def module_prefix_log Let_def
        import_public_symbols_def sf_func_symbol_table_init_def two)
qed

lemma accepted_imports_acyclic_witness:
  "\<exists>xs. distinct xs \<and> set xs = {0, 1} \<and> import_order chain xs"
proof -
  obtain ok program' funcs ms' where run: "sf_analyze 3 (sf_new_program_node\<lparr>pr_imports := [import_of 0]\<rparr>) ''main.slfr'' chain_options chain
     sf_log_init = Some (ok, program', funcs, ms', sf_log_init)" "Collect (is_done ms') = {0, 1}"
    using chain_run by blast
  from accepted_imports_acyclic [OF chain_fresh _ _ _ run(1)] chain_linked run(2) show ?thesis
    by (auto simp: sf_new_program_node_def chain_def sf_log_init_def)
qed

end
