(* ===== verification/Sample.thy ===== *)
theory Sample
  imports Driver Sem_Module_Facts
begin

text \<open>
  The front end on two files: a program that imports a module and calls its function. The files are
  read, lexed and parsed, the import is resolved and both programs are analysed by running the
  definitions of the model; the theorems on accepted programs are applied to the result.
\<close>

section \<open>The sources\<close>

definition two_files :: "string \<Rightarrow> string option" where
  "two_files name =
     (if name = ''a.slfr'' then Some ''import b;fn main() i32{i32 x=f(3);return x;}''
      else if name = ''b.slfr'' then Some ''pub fn f(i32 x) i32{return x;}'' else None)"

definition sample_options :: sf_compiler_options where
  "sample_options = default_options\<lparr>op_file_input := ''a.slfr''\<rparr>"

definition src_span :: "nat \<Rightarrow> nat \<Rightarrow> sf_span" where
  "src_span c l = \<lparr>sp_line = 1, sp_col = c, sp_len = l\<rparr>"

definition src_token :: "sf_token_type \<Rightarrow> string \<Rightarrow> nat \<Rightarrow> nat \<Rightarrow> sf_token" where
  "src_token t v c l = \<lparr>tk_type = t, tk_value = v, tk_span = src_span c l\<rparr>"

definition src_node :: "sf_value_type \<Rightarrow> nat \<Rightarrow> nat \<Rightarrow> sf_ast_base" where
  "src_node t c l = \<lparr>ab_resolved = t, ab_span = src_span c l\<rparr>"

definition main_tokens :: "sf_token list" where
  "main_tokens =
     [src_token SF_TOKEN_TYPE_KW_IMPORT ''import'' 1 6, src_token SF_TOKEN_TYPE_IDENTIFIER ''b'' 8 1, src_token
      SF_TOKEN_TYPE_SEMICOLON '';'' 9 1, src_token SF_TOKEN_TYPE_KW_FN ''fn'' 10 2, src_token SF_TOKEN_TYPE_IDENTIFIER
      ''main'' 13 4, src_token SF_TOKEN_TYPE_LPAREN ''('' 17 1, src_token SF_TOKEN_TYPE_RPAREN '')'' 18 1, src_token
      SF_TOKEN_TYPE_KW_I32 ''i32'' 20 3, src_token SF_TOKEN_TYPE_LBRACE ''{'' 23 1, src_token SF_TOKEN_TYPE_KW_I32 ''i32''
      24 3, src_token SF_TOKEN_TYPE_IDENTIFIER ''x'' 28 1, src_token SF_TOKEN_TYPE_EQUAL ''='' 29 1, src_token
      SF_TOKEN_TYPE_IDENTIFIER ''f'' 30 1, src_token SF_TOKEN_TYPE_LPAREN ''('' 31 1, src_token SF_TOKEN_TYPE_INTEGER ''3''
      32 1, src_token SF_TOKEN_TYPE_RPAREN '')'' 33 1, src_token SF_TOKEN_TYPE_SEMICOLON '';'' 34 1, src_token
      SF_TOKEN_TYPE_KW_RETURN ''return'' 35 6, src_token SF_TOKEN_TYPE_IDENTIFIER ''x'' 42 1, src_token
      SF_TOKEN_TYPE_SEMICOLON '';'' 43 1, src_token SF_TOKEN_TYPE_RBRACE ''}'' 44 1, src_token SF_TOKEN_TYPE_EOF [] 45 0]"

definition lib_tokens :: "sf_token list" where
  "lib_tokens =
     [src_token SF_TOKEN_TYPE_KW_PUB ''pub'' 1 3, src_token SF_TOKEN_TYPE_KW_FN ''fn'' 5 2, src_token
      SF_TOKEN_TYPE_IDENTIFIER ''f'' 8 1, src_token SF_TOKEN_TYPE_LPAREN ''('' 9 1, src_token SF_TOKEN_TYPE_KW_I32 ''i32''
      10 3, src_token SF_TOKEN_TYPE_IDENTIFIER ''x'' 14 1, src_token SF_TOKEN_TYPE_RPAREN '')'' 15 1, src_token
      SF_TOKEN_TYPE_KW_I32 ''i32'' 17 3, src_token SF_TOKEN_TYPE_LBRACE ''{'' 20 1, src_token SF_TOKEN_TYPE_KW_RETURN
      ''return'' 21 6, src_token SF_TOKEN_TYPE_IDENTIFIER ''x'' 28 1, src_token SF_TOKEN_TYPE_SEMICOLON '';'' 29 1,
      src_token SF_TOKEN_TYPE_RBRACE ''}'' 30 1, src_token SF_TOKEN_TYPE_EOF [] 31 0]"

definition main_program :: sf_program_node where
  "main_program =
     \<lparr>pr_statements = [SF_NODE_FUNC_DECL (src_node SF_VAL_TYPE_UNRESOLVED 10 2) ''main'' None no_qualifiers []
      SF_VAL_TYPE_I32 (Some (SF_NODE_BLOCK (src_node SF_VAL_TYPE_UNRESOLVED 23 1) [SF_NODE_VAR_DECL (src_node
      SF_VAL_TYPE_UNRESOLVED 28 1) no_qualifiers SF_VAL_TYPE_I32 ''x'' 0 (Some (SF_NODE_FUNC_CALL (src_node
      SF_VAL_TYPE_UNRESOLVED 30 1) (SF_NODE_IDENTIFIER (src_node SF_VAL_TYPE_UNRESOLVED 30 1) ''f'' 0 0 None) None
      [SF_NODE_LITERAL (src_node SF_VAL_TYPE_UNRESOLVED 32 1) SF_TOKEN_TYPE_INTEGER ''3''])), SF_NODE_RETURN (src_node
      SF_VAL_TYPE_UNRESOLVED 35 6) (Some (SF_NODE_IDENTIFIER (src_node SF_VAL_TYPE_UNRESOLVED 42 1) ''x'' 0 0 None))]))],
      pr_imports = [\<lparr>im_base = (src_node SF_VAL_TYPE_UNRESOLVED 1 6), im_path = ''b.slfr'', im_module_index = 0,
      im_resolved = False\<rparr>]\<rparr>"

definition lib_program :: sf_program_node where
  "lib_program =
     \<lparr>pr_statements = [SF_NODE_FUNC_DECL (src_node SF_VAL_TYPE_UNRESOLVED 5 2) ''f'' None
      (no_qualifiers\<lparr>is_public := True\<rparr>) [\<lparr>pm_type = SF_VAL_TYPE_I32, pm_name = ''x'', pm_id = 0,
      pm_qualifiers = no_qualifiers\<rparr>] SF_VAL_TYPE_I32 (Some (SF_NODE_BLOCK (src_node SF_VAL_TYPE_UNRESOLVED 20 1)
      [SF_NODE_RETURN (src_node SF_VAL_TYPE_UNRESOLVED 21 6) (Some (SF_NODE_IDENTIFIER (src_node SF_VAL_TYPE_UNRESOLVED 28
      1) ''x'' 0 0 None))]))], pr_imports = []\<rparr>"

text \<open>What the analysis makes of them.\<close>

definition main_analysed :: sf_stmt where
  "main_analysed =
     SF_NODE_FUNC_DECL (src_node SF_VAL_TYPE_UNRESOLVED 10 2) ''main'' (Some ''main'') no_qualifiers [] SF_VAL_TYPE_I32
      (Some (SF_NODE_BLOCK (src_node SF_VAL_TYPE_UNRESOLVED 23 1) [SF_NODE_VAR_DECL (src_node SF_VAL_TYPE_UNRESOLVED 28 1)
      no_qualifiers SF_VAL_TYPE_I32 ''x'' 0 (Some (SF_NODE_FUNC_CALL (src_node SF_VAL_TYPE_I32 30 1) (SF_NODE_IDENTIFIER
      (src_node SF_VAL_TYPE_UNRESOLVED 30 1) ''f'' 0 0 None) (Some ''_SF1b1f'') [SF_NODE_LITERAL (src_node SF_VAL_TYPE_I32
      32 1) SF_TOKEN_TYPE_INTEGER ''3''])), SF_NODE_RETURN (src_node SF_VAL_TYPE_UNRESOLVED 35 6) (Some (SF_NODE_IDENTIFIER
      (src_node SF_VAL_TYPE_I32 42 1) ''x'' 2 0 (Some \<lparr>vs_name = ''x'', vs_type = SF_VAL_TYPE_I32, vs_initialized =
      True, vs_depth = 2, vs_id = 0, vs_span = src_span 28 1, vs_qualifiers = no_qualifiers\<rparr>)))]))"

definition lib_analysed :: sf_stmt where
  "lib_analysed =
     SF_NODE_FUNC_DECL (src_node SF_VAL_TYPE_UNRESOLVED 5 2) ''f'' (Some ''_SF1b1f'') (no_qualifiers\<lparr>is_public :=
      True\<rparr>) [\<lparr>pm_type = SF_VAL_TYPE_I32, pm_name = ''x'', pm_id = 0, pm_qualifiers = no_qualifiers\<rparr>]
      SF_VAL_TYPE_I32 (Some (SF_NODE_BLOCK (src_node SF_VAL_TYPE_UNRESOLVED 20 1) [SF_NODE_RETURN (src_node
      SF_VAL_TYPE_UNRESOLVED 21 6) (Some (SF_NODE_IDENTIFIER (src_node SF_VAL_TYPE_I32 28 1) ''x'' 1 0 (Some \<lparr>vs_name
      = ''x'', vs_type = SF_VAL_TYPE_I32, vs_initialized = True, vs_depth = 1, vs_id = 0, vs_span = src_span 5 2,
      vs_qualifiers = no_qualifiers\<rparr>)))]))"

definition lib_funcs :: sf_func_symbol_table where
  "lib_funcs =
     \<lparr>ft_functions = [\<lparr>fs_name = ''f'', fs_link_name = ''_SF1b1f'', fs_return_type = SF_VAL_TYPE_I32,
      fs_parameters = [\<lparr>pm_type = SF_VAL_TYPE_I32, pm_name = ''x'', pm_id = 0, pm_qualifiers =
      no_qualifiers\<rparr>], fs_defined = True, fs_span = src_span 5 2, fs_id = 0, fs_qualifiers =
      (no_qualifiers\<lparr>is_public := True\<rparr>), fs_imported = False\<rparr>], ft_next_id = 1\<rparr>"

definition sample_program :: sf_program_node where
  "sample_program = \<lparr>pr_statements = [main_analysed],
     pr_imports = [\<lparr>im_base = (src_node SF_VAL_TYPE_UNRESOLVED 1 6), im_path = ''b.slfr'', im_module_index = 0, im_resolved =
       True\<rparr>]\<rparr>"

definition sample_modules :: sf_module_list where
  "sample_modules = [\<lparr>md_state = SF_MODULE_STATE_LOADED, md_ast = Some \<lparr>pr_statements = [lib_analysed], pr_imports = []\<rparr>,
     md_filename = ''b.slfr'', md_name = ''b.slfr'', md_analysis = SF_MODULE_ANALYSIS_DONE, md_funcs = lib_funcs\<rparr>]"

section \<open>Running the front end\<close>

lemma tokenize_step:
  "lexer_current lx \<noteq> CHR 0x00 \<Longrightarrow> lexer_step r lx = (True, lx1) \<Longrightarrow> tokenize_loop r lx = tokenize_loop r lx1"
  by (subst tokenize_loop.simps) simp

lemma tokenize_end: "lexer_current lx = CHR 0x00 \<Longrightarrow> tokenize_loop r lx = (True, lx)"
  by (subst tokenize_loop.simps) simp

lemma identifier_step:
  "is_ident_char (lexer_current lx) \<Longrightarrow> length v < 254 \<Longrightarrow>
   read_identifier_loop lx v = read_identifier_loop (lexer_advance lx 1) (v @ [lexer_current lx])"
  "\<not> is_ident_char (lexer_current lx) \<Longrightarrow> read_identifier_loop lx v = (lx, v)"
  by (subst read_identifier_loop.simps; simp add: SF_MAX_TOKEN_VALUE_SIZE_def)+

lemma digit_three: "dec_digits 3 = ''3''"
  by code_simp

lemma read_three:
  assumes "lexer_current lx = CHR ''3''" "lexer_current (lexer_advance lx 1) = CHR '')''"
  shows "read_number lx = (\<lparr>tk_type = SF_TOKEN_TYPE_INTEGER, tk_value = ''3'', tk_span = (lexer_span_here lx)\<lparr>sp_len := 1\<rparr>\<rparr>,
    lexer_advance lx 1)"
proof -
  have three: "digit_value (CHR ''3'') 10 = 3" "digit_value (CHR '')'') 10 = -1"
    by (simp_all add: digit_value_def less_eq_char_def)
  have "read_number_loop 10 (lexer_advance lx 1) 3 True = (lexer_advance lx 1, 3, True)"
    by (subst read_number_loop.simps) (use assms(2) three in simp)
  then have "read_number_loop 10 lx 0 False = (lexer_advance lx 1, 3, True)"
    by (subst read_number_loop.simps) (use assms(1) three in simp)
  then show ?thesis
    using assms digit_three by (simp add: read_number_def is_ident_char_def is_ident_start_def is_digit_def less_eq_char_def)
qed

lemmas lex_simps = sf_tokenize_def tokenize_step tokenize_end identifier_step lexer_start_def lexer_step_def
  lexer_current_def Let_def lexer_read_def is_digit_def is_ident_start_def is_ident_char_def is_space_def
  lexer_emit_def lexer_add_def list_add_def read_identifier_def read_three read_symbol_def find_symbol_def k_symbols_def
  resolve_keyword_def k_keywords_def make_token_def lexer_advance_def lexer_span_here_def sizeof_sf_token_def less_eq_char_def src_token_def src_span_def

lemma lib_tokenized:
  "sf_tokenize (\<lambda>_. True) ''pub fn f(i32 x) i32{return x;}'' ''b.slfr'' g = (\<lparr>tl_tokens = lib_tokens, tl_capacity = 16\<rparr>, g)"
  by (simp add: lib_tokens_def lex_simps)

lemma main_tokenized:
  "sf_tokenize (\<lambda>_. True) ''import b;fn main() i32{i32 x=f(3);return x;}'' ''a.slfr'' g =
     (\<lparr>tl_tokens = main_tokens, tl_capacity = 32\<rparr>, g)"
  by (simp add: main_tokens_def lex_simps)

lemma lib_parsed: "sf_parse lib_tokens ''b.slfr'' sf_log_init = Some (lib_program, sf_log_init)"
  by code_simp

lemma main_parsed: "sf_parse main_tokens ''a.slfr'' sf_log_init = Some (main_program, sf_log_init)"
  by code_simp

lemma no_errors: "\<not> sf_log_had_errors sf_log_init" "\<not> sf_log_had_fatal sf_log_init"
  by (simp_all add: sf_log_had_errors_def sf_log_had_fatal_def sf_log_init_def)

lemmas load_simps = load_program_def sf_file_read_def two_files_def sf_preprocess_def Let_def remove_comments.simps(2) no_errors

lemma lib_loaded: "load_program two_files ''b.slfr'' sf_log_init = Some (Some lib_program, sf_log_init)"
  using lib_tokenized [of sf_log_init] lib_parsed by (simp add: load_simps)

lemma main_loaded: "load_program two_files ''a.slfr'' sf_log_init = Some (Some main_program, sf_log_init)"
  using main_tokenized [of sf_log_init] main_parsed by (simp add: load_simps)

lemma sample_resolved:
  "sf_module_resolve two_files (Suc (Suc n)) (pr_imports main_program) ''a.slfr'' [] [] sf_log_init =
     Some (pr_imports sample_program, [\<lparr>md_state = SF_MODULE_STATE_LOADED, md_ast = Some lib_program, md_filename = ''b.slfr'',
       md_name = ''b.slfr'', md_analysis = SF_MODULE_ANALYSIS_PENDING, md_funcs = sf_func_symbol_table_init\<rparr>], sf_log_init)"
  by (simp add: sf_module_resolve_def resolve_import_def main_program_def sample_program_def find_module_path_def file_exists_def
      two_files_def add_module_def Let_def lib_loaded no_errors) (simp add: lib_program_def no_errors)

lemma literal_three: "strtoull10 ''3'' = Some 3"
  using strtoull10_dec_digits [of 3] digit_three by simp

lemma lib_mangled:
  "mangle_parts [] (take (path_end ''b.slfr'') ''b.slfr'') = ''1b''" "mangled_function ''_SF1b'' ''f'' = ''_SF1b1f''"
  by code_simp+

lemma sample_analysed:
  "\<exists>funcs. sf_analyze (Suc (Suc n)) (main_program\<lparr>pr_imports := pr_imports sample_program\<rparr>) ''a.slfr'' sample_options
     [\<lparr>md_state = SF_MODULE_STATE_LOADED, md_ast = Some lib_program, md_filename = ''b.slfr'',
       md_name = ''b.slfr'', md_analysis = SF_MODULE_ANALYSIS_PENDING, md_funcs = sf_func_symbol_table_init\<rparr>] sf_log_init =
     Some (True, sample_program, funcs, sample_modules, sf_log_init)"
  by (simp add: sf_analyze_def sample_options_def default_options_def analyze_program_def main_program_def lib_program_def
      sample_program_def sample_modules_def lib_funcs_def main_analysed_def lib_analysed_def src_node_def src_span_def
      import_public_symbols_def module_prefix_log lib_mangled literal_three run_simps analyze_func_call_def analyze_argument_def check_argument_type_def
      check_main_function_def has_qualifiers_def)

text \<open>The front end accepts the two files, with any fuel that is enough for the one import.\<close>

lemma sample_front:
  "compilation_front two_files (Suc (Suc n)) sample_options sf_log_init = Some (Some (sample_program, sample_modules), sf_log_init)"
proof -
  obtain funcs where an: "sf_analyze (Suc (Suc n)) (main_program\<lparr>pr_imports := pr_imports sample_program\<rparr>) ''a.slfr'' sample_options
     [\<lparr>md_state = SF_MODULE_STATE_LOADED, md_ast = Some lib_program, md_filename = ''b.slfr'',
       md_name = ''b.slfr'', md_analysis = SF_MODULE_ANALYSIS_PENDING, md_funcs = sf_func_symbol_table_init\<rparr>] sf_log_init =
     Some (True, sample_program, funcs, sample_modules, sf_log_init)"
    using sample_analysed by blast
  have "op_file_input sample_options = ''a.slfr''" "op_module_paths sample_options = []"
    by (simp_all add: sample_options_def default_options_def)
  then show ?thesis
    unfolding compilation_front_load by (simp only: main_loaded option.case prod.case sample_resolved an no_errors if_False)
qed

lemma two_files_small: "small_files two_files"
  by (simp add: small_files_def two_files_def)

end
