(* ===== verification/Driver_Facts.thy ===== *)
theory Driver_Facts
  imports Sample
begin

text \<open>
  The command line is read back as it was written, and what the front end accepts is safe: the
  guarantees of the module resolution and of the analysis put together over \<open>compilation_front\<close>.
\<close>

section \<open>Flags\<close>

text \<open>The command line that asks for the given options.\<close>

definition flag_args :: "sf_compiler_options \<Rightarrow> string list" where
  "flag_args options =
     [FLAGS_INPUT_FILE, op_file_input options, FLAGS_OUTPUT_FILE, op_file_output options] @
     (if op_module_paths options = [] then [] else FLAGS_MODULE_PATH # op_module_paths options) @
     (if op_is_module options then [FLAGS_MODULE] else []) @
     (if op_dump_stages options then [FLAGS_DUMP_STAGES] else [])"

lemma flags_are_flags [simp]:
  "is_flag FLAGS_INPUT_FILE" "is_flag FLAGS_OUTPUT_FILE" "is_flag FLAGS_DUMP_STAGES" "is_flag FLAGS_MODULE_PATH" "is_flag FLAGS_MODULE"
  by (simp_all add: is_flag_def flag_defs)

lemma flags_distinct [simp]:
  "FLAGS_OUTPUT_FILE \<noteq> FLAGS_INPUT_FILE" "FLAGS_DUMP_STAGES \<noteq> FLAGS_INPUT_FILE" "FLAGS_MODULE_PATH \<noteq> FLAGS_INPUT_FILE"
  "FLAGS_MODULE \<noteq> FLAGS_INPUT_FILE" "FLAGS_DUMP_STAGES \<noteq> FLAGS_OUTPUT_FILE" "FLAGS_MODULE_PATH \<noteq> FLAGS_OUTPUT_FILE"
  "FLAGS_MODULE \<noteq> FLAGS_OUTPUT_FILE" "FLAGS_MODULE_PATH \<noteq> FLAGS_DUMP_STAGES" "FLAGS_MODULE \<noteq> FLAGS_DUMP_STAGES"
  "FLAGS_MODULE \<noteq> FLAGS_MODULE_PATH"
  by (simp_all add: flag_defs)

text \<open>A run of search directories ends at the next flag.\<close>

lemma paths_until_flag:
  assumes "\<forall>p \<in> set paths. \<not> is_flag p" "rest = [] \<or> is_flag (hd rest)"
  shows "takeWhile (\<lambda>a. \<not> is_flag a) (paths @ rest) = paths" "dropWhile (\<lambda>a. \<not> is_flag a) (paths @ rest) = rest"
  using assms by (cases rest; simp)+

text \<open>The command line is read as it is written. The options come out of the flags that ask for them,
  in any combination of a module, a dump and search directories, with nothing logged, as long as
  no file name or directory starts with a dash.\<close>

theorem flags_roundtrip:
  assumes "\<not> is_flag (op_file_input options)" "\<not> is_flag (op_file_output options)"
    "\<forall>p \<in> set (op_module_paths options). \<not> is_flag p"
  shows "sf_flags_parse (flag_args options) default_options g = (options, g)"
proof -
  let ?tail = "(if op_is_module options then [FLAGS_MODULE] else []) @ (if op_dump_stages options then [FLAGS_DUMP_STAGES] else [])"
  have "?tail = [] \<or> is_flag (hd ?tail)" by simp
  note paths = paths_until_flag [OF assms(3) this]
  show ?thesis
    using assms(1,2) paths
    by (cases "op_module_paths options = []") (auto simp: flag_args_def default_options_def Let_def)
qed

lemma flags_roundtrip_witness:
  "sf_flags_parse [''-i'', ''a.slfr'', ''-o'', ''a.asm'', ''-m'', ''lib'', ''src'', ''--module''] default_options sf_log_init =
     (\<lparr>op_file_input = ''a.slfr'', op_file_output = ''a.asm'', op_dump_stages = False, op_is_module = True,
       op_module_paths = [''lib'', ''src'']\<rparr>, sf_log_init)"
  using flags_roundtrip [of "\<lparr>op_file_input = ''a.slfr'', op_file_output = ''a.asm'', op_dump_stages = False, op_is_module = True,
       op_module_paths = [''lib'', ''src'']\<rparr>" sf_log_init]
  by (simp add: flag_args_def flag_defs is_flag_def)

section \<open>The front end\<close>

lemma modules_count: "module_list_ok paths ms \<Longrightarrow> length ms \<le> card (searched_names paths)"
  using card_mono [OF finite_searched_names [of paths], of "md_filename ` set ms"] distinct_card [of "map md_filename ms"]
  by (simp add: module_list_ok_def)

text \<open>The annotated program of a module against the program that its file parses to.\<close>

definition module_safe :: "(string \<Rightarrow> string option) \<Rightarrow> sf_module \<Rightarrow> bool" where
  "module_safe fs m \<longleftrightarrow> (\<exists>program ast g g'. load_program fs (md_filename m) g = Some (Some program, g') \<and>
     md_ast m = Some ast \<and> program_safe program ast)"

lemma done_module_safe:
  assumes "module_loaded fs paths ms m" "module_change True m m'" "md_analysis m' = SF_MODULE_ANALYSIS_DONE"
  shows "module_safe fs m'"
  using assms unfolding module_safe_def module_loaded_def module_change_def program_safe_def
  by (metis option.inject sf_module_analysis.distinct(3))

text \<open>What the front end promises of a compilation.\<close>

definition accepted :: "(string \<Rightarrow> string option) \<Rightarrow> sf_compiler_options \<Rightarrow> sf_log_state \<Rightarrow> sf_program_node \<Rightarrow> sf_module_list \<Rightarrow> bool" where
  "accepted fs options g ast ms \<longleftrightarrow>
     (\<exists>program g1. load_program fs (op_file_input options) g = Some (Some program, g1) \<and> program_safe program ast) \<and>
     stmts_typed (import_env ms ast) (pr_statements ast) \<and>
     (\<exists>xs. distinct xs \<and> im_module_index ` set (pr_imports ast) \<subseteq> set xs \<and> import_order ms xs \<and>
        (\<forall>i \<in> set xs. i < length ms \<and> module_safe fs (ms ! i) \<and> module_typed ms (ms ! i)))"

lemma compilation_front_result:
  assumes fs: "small_files fs" and g: "log_inv g" and n: "card (searched_names (op_module_paths options)) < n"
  shows "\<exists>r g'. compilation_front fs n options g = Some (r, g') \<and> (r = None \<longleftrightarrow> 0 < g_error_count g') \<and>
    (\<forall>ast ms. r = Some (ast, ms) \<longrightarrow> accepted fs options g ast ms)"
proof -
  let ?paths = "op_module_paths options" and ?f = "op_file_input options"
  obtain r g1 where load: "load_program fs ?f g = Some (r, g1)" "log_inv g1" "r = None \<longleftrightarrow> 0 < g_error_count g1"
    "\<And>program. r = Some program \<Longrightarrow> \<forall>i \<in> set (pr_imports program). new_import i"
    using load_program_result [OF fs, of ?f g] g by metis
  show ?thesis
  proof (cases r)
    case None
    then show ?thesis using load(1,3) by (simp add: compilation_front_load)
  next
    case (Some program)
    have "room ?paths [] < n" using n start_list(2) by simp
    from resolve_imports_resolves [OF fs load(4) [OF Some] start_list(1) this load(2), of ?f] obtain imps ms g2 where
      res: "sf_module_resolve fs n (pr_imports program) ?f [] ?paths g1 = Some (imps, ms, g2)"
        "resolved fs ?paths (pr_imports program) [] g1 imps ms g2"
      by (auto simp: resolves_def sf_module_resolve_def)
    show ?thesis
    proof (cases "g_error_count g2 = 0")
      case False
      then show ?thesis using load(1) Some res(1) by (simp add: compilation_front_load sf_log_had_errors_def)
    next
      case True
      let ?program = "program\<lparr>pr_imports := imps\<rparr>"
      have loaded: "\<forall>m \<in> set ms. module_loaded fs ?paths ms m" "linked (length ms) imps" "length ms < n"
        using res(2) True n resolved_linked modules_count [of ?paths ms] by (auto simp: resolved_def)
      have raw: "\<forall>st \<in> set (pr_statements program). raw_stmt_ok st" using load_program_raw load(1) Some by simp
      have fresh: "freshly_loaded ms" by (rule loaded_fresh [OF loaded(1)])
      obtain ok ast funcs ms' g3 where an: "sf_analyze n ?program ?f options ms g2 = Some (ok, ast, funcs, ms', g3)"
        "analysed ms g2 (map im_module_index imps) ok ms' g3" "g_error_count g3 = 0 \<longrightarrow> program_safe ?program ast \<and> program_typed ms' ast funcs"
        using sf_analyze_result [OF fresh, of ?program n ?f options g2] loaded raw by auto
      have same: "pr_imports ast = imps"
        using an(1) by (auto simp: sf_analyze_def analyze_program_def Let_def split: prod.splits option.splits)
      have run: "compilation_front fs n options g = Some (if 0 < g_error_count g3 then None else Some (ast, ms'), g3)"
        using load(1) Some res(1) True an(1) by (simp add: compilation_front_load sf_log_had_errors_def)
      have "accepted fs options g ast ms'" if e: "g_error_count g3 = 0"
      proof -
        have step: "module_step ms g2 ms' g3" and don: "\<forall>i \<in> set (map im_module_index imps). is_done ms' i"
          using an(2) e by (simp_all add: analysed_def)
        obtain xs where xs: "done_order ms' xs" using an(2) by (auto simp: analysed_def modules_inv_def)
        have "module_safe fs (ms' ! i)" if i: "is_done ms' i" for i
        proof -
          have len: "i < length ms" using i module_step_nth(1) [OF step] by (simp add: is_done_def)
          then have "module_change True (ms ! i) (ms' ! i)" using module_step_nth(2) [OF step len] e by simp
          moreover have "module_loaded fs ?paths ms (ms ! i)" using loaded(1) len by simp
          ultimately show ?thesis using done_module_safe i by (simp add: is_done_def)
        qed
        moreover have "program_safe program ast" "stmts_typed (import_env ms' ast) (pr_statements ast)"
          using an(3) e by (simp_all add: program_safe_def program_typed_def)
        moreover have "module_typed ms' (ms' ! i)" if "is_done ms' i" for i
          using an(2) e that by (simp add: analysed_def modules_inv_def)
        ultimately show ?thesis unfolding accepted_def
          using load(1) Some xs don same by (auto simp: done_order_def is_done_def intro!: exI [of _ xs])
      qed
      then show ?thesis using run by auto
    qed
  qed
qed

text \<open>C17: The front end always returns, on every set of files and with every command line, and it fails
  exactly when it has logged an error. The fuel bounds the depth of the imports: it is enough that
  it exceeds the number of names an import can be searched under.\<close>

theorem compilation_front_total:
  assumes "small_files fs" "log_inv g" "card (searched_names (op_module_paths options)) < n"
  shows "\<exists>r g'. compilation_front fs n options g = Some (r, g') \<and> (r = None \<longleftrightarrow> 0 < g_error_count g')"
proof -
  obtain r g' where "compilation_front fs n options g = Some (r, g')" "r = None \<longleftrightarrow> 0 < g_error_count g'"
    using compilation_front_result [OF assms] by (elim exE conjE) (rule that)
  then show ?thesis by (intro exI conjI)
qed

definition module_options :: sf_compiler_options where
  "module_options = default_options\<lparr>op_file_input := ''m.slfr'', op_is_module := True\<rparr>"

lemma front_empty:
  "\<exists>ast. compilation_front empty_module (Suc n) module_options sf_log_init = Some (Some (ast, []), sf_log_init)"
proof -
  have no_errors: "g_error_count sf_log_init = 0" by (simp add: sf_log_init_def)
  obtain scope where push: "scope_push (\<lambda>_. True) scope_init sf_log_init = (scope, sf_log_init)"
    by (simp add: scope_push_def scope_init_def)
  show ?thesis
    by (simp add: compilation_front_load module_options_def default_options_def load_empty [OF no_errors] sf_new_program_node_def
        sf_module_resolve_def sf_analyze_def analyze_program_def sf_module_name_from_path_def sf_log_had_errors_def no_errors push)
qed

lemma compilation_front_total_witness:
  "\<exists>r g'. compilation_front empty_module (Suc (card (searched_names []))) module_options sf_log_init = Some (r, g')"
  using compilation_front_total [OF empty_module_small log_inv_init, of module_options "Suc (card (searched_names []))"]
  by (auto simp: module_options_def default_options_def)

text \<open>C1: What the front end accepts is typed and, for programs of functions, safe, from the text of the
  files to the annotated programs. When the front end accepts a program, its annotated statements,
  and those of every module that it reaches, are typed by the rules of the language, in order, each
  in the environment of the declarations before it, starting from the functions that its imports
  export; and the modules that it reaches can be ordered so that each comes after all that it
  imports. For those of these programs all of whose statements are function declarations, no run of
  the body of a function without nested functions reads a variable that is not initialised, and
  none ends without a result in a function that has one.\<close>

theorem compiled_program_safe:
  assumes "small_files fs" "log_inv g" "card (searched_names (op_module_paths options)) < n"
    "compilation_front fs n options g = Some (Some (ast, ms), g')"
  shows "accepted fs options g ast ms"
  using compilation_front_result [OF assms(1-3)] assms(4) by auto

lemma compiled_program_safe_witness:
  "accepted two_files sample_options sf_log_init sample_program sample_modules \<and>
   pr_statements sample_program = [main_analysed] \<and> map im_module_index (pr_imports sample_program) = [0] \<and>
   (\<exists>b body. main_analysed = SF_NODE_FUNC_DECL b ''main'' (Some ''main'') no_qualifiers [] SF_VAL_TYPE_I32 (Some body) \<and>
      func_safe [] SF_VAL_TYPE_I32 body {})"
proof -
  have paths: "op_module_paths sample_options = []" "op_file_input sample_options = ''a.slfr''"
    by (simp_all add: sample_options_def default_options_def)
  have acc: "accepted two_files sample_options sf_log_init sample_program sample_modules"
    by (rule compiled_program_safe [OF two_files_small log_inv_init _ sample_front, of "card (searched_names [])"])
      (simp add: paths)
  then obtain program g1 where "load_program two_files ''a.slfr'' sf_log_init = Some (Some program, g1)"
    "program_safe program sample_program"
    by (auto simp: accepted_def paths)
  then have "program_safe main_program sample_program" by (simp add: main_loaded)
  then have "\<exists>b body. main_analysed = SF_NODE_FUNC_DECL b ''main'' (Some ''main'') no_qualifiers [] SF_VAL_TYPE_I32 (Some body) \<and>
      func_safe [] SF_VAL_TYPE_I32 body {}"
    by (simp add: program_safe_def function_safe_def main_program_def sample_program_def main_analysed_def no_qualifiers_def)
  then show ?thesis using acc by (simp add: sample_program_def)
qed

end
