(* ===== verification/Compile_Facts.thy ===== *)
theory Compile_Facts
  imports Compile Backend_Facts Driver_Facts
begin

text \<open>
  The compiler from end to end: what the front end accepts is typed, typed trees without operations
  on void lower to code whose operands have a size, and the code generator never aborts on such
  code. The exceptions are shown by programs that the analysis accepts and the back end does not
  survive.
\<close>

section \<open>Operations on void\<close>

fun no_void_op :: "sf_expr \<Rightarrow> bool" where
  "no_void_op (SF_NODE_BINARY b l r op) \<longleftrightarrow> ab_resolved b \<noteq> SF_VAL_TYPE_VOID \<and> no_void_op l \<and> no_void_op r"
| "no_void_op (SF_NODE_UNARY b e op) \<longleftrightarrow> ab_resolved b \<noteq> SF_VAL_TYPE_VOID \<and> no_void_op e"
| "no_void_op (SF_NODE_CAST b e t) \<longleftrightarrow> ab_resolved b \<noteq> SF_VAL_TYPE_VOID \<and> no_void_op e"
| "no_void_op (SF_NODE_FUNC_CALL b c l args) \<longleftrightarrow> (\<forall>a \<in> set args. no_void_op a)"
| "no_void_op _ \<longleftrightarrow> True"

fun no_void_ops :: "sf_stmt \<Rightarrow> bool" where
  "no_void_ops (SF_NODE_VAR_DECL b q t name vid v) \<longleftrightarrow> (case v of None \<Rightarrow> True | Some e \<Rightarrow> no_void_op e)"
| "no_void_ops (SF_NODE_VAR_ASSIGN b name e vid) \<longleftrightarrow> no_void_op e"
| "no_void_ops (SF_NODE_BLOCK b sts) \<longleftrightarrow> (\<forall>st \<in> set sts. no_void_ops st)"
| "no_void_ops (SF_NODE_IF b c t e) \<longleftrightarrow> no_void_op c \<and> no_void_ops t \<and> (case e of None \<Rightarrow> True | Some st \<Rightarrow> no_void_ops st)"
| "no_void_ops (SF_NODE_WHILE b c d) \<longleftrightarrow> no_void_op c \<and> no_void_ops d"
| "no_void_ops (SF_NODE_FUNC_DECL b name link q ps t body) \<longleftrightarrow> (case body of None \<Rightarrow> True | Some st \<Rightarrow> no_void_ops st)"
| "no_void_ops (SF_NODE_RETURN b v) \<longleftrightarrow> (case v of None \<Rightarrow> True | Some e \<Rightarrow> no_void_op e)"
| "no_void_ops (SF_STMT_EXPR e) \<longleftrightarrow> no_void_op e"

lemma typed_sized: "expr_typed s e t \<Longrightarrow> sem_ok s \<Longrightarrow> no_void_op e \<Longrightarrow> sized_expr e"
proof (induction rule: expr_typed.induct)
  case (ident n symbol b)
  then have "vs_type symbol \<noteq> SF_VAL_TYPE_VOID"
    using scope_lookup_mem [OF ident.hyps(1)] by (auto simp: sem_ok_def)
  then show ?case using ident.hyps(3) by simp
next
  case (call c func args b)
  have "sized_expr a" if "a \<in> set args" for a
  proof -
    obtain i where "i < length args" "a = args ! i" using \<open>a \<in> set args\<close> by (auto simp: in_set_conv_nth)
    then show ?thesis using call.IH call.prems by (auto simp: list_all2_conv_all_nth)
  qed
  then show ?case by simp
qed auto

lemma well_typed_sized: "well_typed \<Gamma> e \<Longrightarrow> no_void_op e \<Longrightarrow> sized_expr e"
  unfolding well_typed_def using typed_sized by blast

lemma typed_sized_stmt:
  "stmt_typed \<Gamma> st \<Longrightarrow> no_void_ops st \<Longrightarrow> sized_stmt st"
  "stmts_typed \<Gamma> sts \<Longrightarrow> \<forall>st \<in> set sts. no_void_ops st \<Longrightarrow> \<forall>st \<in> set sts. sized_stmt st"
  by (induction \<Gamma> st and \<Gamma> sts rule: stmt_typed_stmts_typed.induct)
    (auto simp: typed_value_def typed_condition_def well_typed_sized split: option.splits)

section \<open>Accepted programs compile\<close>

text \<open>A program whose functions need at most \<open>temp_limit\<close> temporaries.\<close>

definition few_temporaries :: "sf_program_node \<Rightarrow> bool" where
  "few_temporaries program \<longleftrightarrow>
     (\<forall>f \<in> set (snd (program_code (pr_statements program) 0)). fn_next_temp f \<le> temp_limit)"

lemma back_end_generates:
  assumes "\<forall>st \<in> set (pr_statements program). top_level_ok st \<and> sized_stmt st" "few_temporaries program"
  shows "\<exists>ir assembly. sf_ir_generate program = Some ir \<and> sf_generate_assembly ir is_root = Some assembly"
proof -
  obtain l fs where code: "program_code (pr_statements program) 0 = (l, fs)" by fastforce
  let ?ir = "collect_externs \<lparr>ip_functions = fs, ip_next_label = l, ip_externs = []\<rparr>"
  have ir: "sf_ir_generate program = Some ?ir" using sf_ir_generate_code [of program] assms(1) code by simp
  have "sized_functions fs" using program_code_sized [OF _ code] assms(1) by simp
  then have "\<forall>f \<in> set (ip_functions ?ir). sized_function f"
    using assms(2) by (simp add: few_temporaries_def sized_functions_def code)
  from sf_generate_assembly_some [OF this, of is_root] ir show ?thesis by blast
qed

text \<open>C2: An accepted program that meets the conditions below is compiled. When the front end accepts a
  program of functions and of variables without a value, none of whose operations has the type
  void, no function needs more than \<open>temp_limit\<close> temporaries, and the output file can be written, then
  the lowering does not fail, the code generator does not abort, and the compilation ends with
  success by writing its assembly to the output file.\<close>

theorem accepted_program_compiles:
  assumes "small_files fs" "log_inv g" "card (searched_names (op_module_paths options)) < n"
    "compilation_front fs n options g = Some (Some (ast, ms), g')"
    "\<forall>st \<in> set (pr_statements ast). top_level_ok st \<and> no_void_ops st" "few_temporaries ast"
    "writable (op_file_output options)"
  shows "\<exists>assembly. compilation_run fs writable n options g = Some (Finished True (Some (op_file_output options, assembly)) g')"
proof -
  have accepted: "accepted fs options g ast ms" "g_error_count g' = 0"
    using compilation_front_result [OF assms(1-3)] assms(4) by auto
  then have "stmts_typed (import_env ms ast) (pr_statements ast)" by (simp add: accepted_def)
  then have sized: "\<forall>st \<in> set (pr_statements ast). top_level_ok st \<and> sized_stmt st" using assms(5) typed_sized_stmt(2) by blast
  obtain ir assembly where "sf_ir_generate ast = Some ir" "sf_generate_assembly ir (\<not> op_is_module options) = Some assembly"
    using back_end_generates [OF sized assms(6)] by blast
  then show ?thesis
    using assms(4,7) accepted(2)
    by (simp add: compilation_run_def compilation_back_def sf_optimize_def sf_file_write_def sf_log_had_errors_def)
qed

lemma accepted_program_compiles_witness:
  "\<exists>assembly. compilation_run two_files (\<lambda>_. True) (Suc (Suc (card (searched_names [])))) sample_options sf_log_init =
     Some (Finished True (Some (''output.asm'', assembly)) sf_log_init)"
proof -
  have sts: "pr_statements sample_program = [main_analysed]" by (simp add: sample_program_def)
  have "map fn_next_temp (snd (program_code [main_analysed] 0)) = [0]" by code_simp
  then have "\<forall>f \<in> set (snd (program_code [main_analysed] 0)). fn_next_temp f = 0" by auto
  then have few: "few_temporaries sample_program" by (simp add: few_temporaries_def sts temp_limit_def)
  have "top_level_ok main_analysed" "no_void_ops main_analysed" by code_simp+
  then have ast: "\<forall>st \<in> set (pr_statements sample_program). top_level_ok st \<and> no_void_ops st" by (simp add: sts)
  have "op_module_paths sample_options = []" "op_file_output sample_options = ''output.asm''"
    by (simp_all add: sample_options_def default_options_def)
  then show ?thesis
    using accepted_program_compiles [OF two_files_small log_inv_init _ sample_front [of "card (searched_names [])"] ast few, of "\<lambda>_. True"]
    by simp
qed

section \<open>Programs that the back end does not survive\<close>

text \<open>\<^verbatim>\<open>void f(i32 x) { f(x) << x; }\<close>\<close>

definition shifted_call :: sf_stmt where
  "shifted_call = SF_NODE_FUNC_DECL (new_node sf_span_zero) ''f'' None no_qualifiers
     [\<lparr>pm_type = SF_VAL_TYPE_I32, pm_name = ''x'', pm_id = 0, pm_qualifiers = no_qualifiers\<rparr>] SF_VAL_TYPE_VOID
     (Some (SF_NODE_BLOCK (new_node sf_span_zero)
        [SF_STMT_EXPR (SF_NODE_BINARY (new_node sf_span_zero)
           (SF_NODE_FUNC_CALL (new_node sf_span_zero) (sf_new_identifier_node ''f'' sf_span_zero) None
              [sf_new_identifier_node ''x'' sf_span_zero])
           (sf_new_identifier_node ''x'' sf_span_zero) SF_OP_TYPE_BITWISE_LSHIFT)]))"

text \<open>The function as the analysis leaves it.\<close>

definition shifted_node :: "sf_value_type \<Rightarrow> sf_ast_base" where
  "shifted_node t = \<lparr>ab_resolved = t, ab_span = sf_span_zero\<rparr>"

definition shifted_argument :: sf_expr where
  "shifted_argument = SF_NODE_IDENTIFIER (shifted_node SF_VAL_TYPE_I32) ''x'' 1 0
     (Some \<lparr>vs_name = ''x'', vs_type = SF_VAL_TYPE_I32, vs_initialized = True, vs_depth = 1, vs_id = 0,
            vs_span = sf_span_zero, vs_qualifiers = no_qualifiers\<rparr>)"

definition shifted_annotated :: sf_stmt where
  "shifted_annotated = SF_NODE_FUNC_DECL (shifted_node SF_VAL_TYPE_UNRESOLVED) ''f'' (Some ''f'') no_qualifiers
     [\<lparr>pm_type = SF_VAL_TYPE_I32, pm_name = ''x'', pm_id = 0, pm_qualifiers = no_qualifiers\<rparr>] SF_VAL_TYPE_VOID
     (Some (SF_NODE_BLOCK (shifted_node SF_VAL_TYPE_UNRESOLVED)
        [SF_STMT_EXPR (SF_NODE_BINARY (shifted_node SF_VAL_TYPE_VOID)
           (SF_NODE_FUNC_CALL (shifted_node SF_VAL_TYPE_VOID)
              (SF_NODE_IDENTIFIER (shifted_node SF_VAL_TYPE_UNRESOLVED) ''f'' 0 0 None) (Some ''f'') [shifted_argument])
           shifted_argument SF_OP_TYPE_BITWISE_LSHIFT)]))"

lemma shifted_call_accepted:
  "\<exists>s g. analyze_statement shifted_call (start_semantic ''m'') sf_log_init = (shifted_annotated, s, g) \<and> g_error_count g = 0"
  by (simp add: shifted_call_def shifted_annotated_def shifted_argument_def shifted_node_def run_simps sf_log_init_def
      analyze_expr_stmt_def analyze_binary_def analyze_binary_operands_def sf_op_is_logical_def sf_op_is_relational_def
      sf_op_is_shift_def analyze_func_call_def analyze_shift_def analyze_argument_def check_argument_type_def)

definition shifted_x :: sf_ir_operand where
  "shifted_x = SF_IR_OPERAND_TYPE_VARIABLE SF_VAL_TYPE_I32 (mangled_variable ''x'' 0)"

definition shifted_operations :: "sf_ir_operation list" where
  "shifted_operations =
     [\<lparr>io_opcode = SF_IR_OPCODE_PARAM, io_operand1 = shifted_x, io_operand2 = k_no_operand, io_operand3 = k_no_operand\<rparr>,
      \<lparr>io_opcode = SF_IR_OPCODE_CALL, io_operand1 = k_no_operand,
       io_operand2 = SF_IR_OPERAND_TYPE_FUNCTION SF_VAL_TYPE_VOID ''f'', io_operand3 = k_no_operand\<rparr>,
      \<lparr>io_opcode = SF_IR_OPCODE_BITWISE_LSHIFT, io_operand1 = SF_IR_OPERAND_TYPE_TEMPORARY SF_VAL_TYPE_VOID 0,
       io_operand2 = k_no_operand, io_operand3 = shifted_x\<rparr>,
      \<lparr>io_opcode = SF_IR_OPCODE_RETURN, io_operand1 = k_no_operand, io_operand2 = k_no_operand, io_operand3 = k_no_operand\<rparr>]"

lemma shifted_call_lowered:
  "\<exists>func. sf_ir_generate \<lparr>pr_statements = [shifted_annotated], pr_imports = []\<rparr> =
      Some \<lparr>ip_functions = [func], ip_next_label = 0, ip_externs = []\<rparr> \<and>
     fn_operations func = shifted_operations \<and> \<not> is_extern (fn_qualifiers func) \<and>
     fn_parameters func = [\<lparr>pm_type = SF_VAL_TYPE_I32, pm_name = mangled_variable ''x'' 0, pm_id = 0, pm_qualifiers = no_qualifiers\<rparr>]"
  by (simp add: shifted_annotated_def shifted_argument_def shifted_node_def sf_ir_generate_def generate_function_def
      context_from_program_def context_from_function_def generate_expression_def generate_binary_def generate_call_def
      generate_identifier_def destination_def new_temporary_def emit_def push_def ends_with_return_def add_function_def
      lower_parameter_def no_qualifiers_def collect_externs_def collect_extern_def is_defined_here_def Let_def
      shifted_operations_def shifted_x_def)

text \<open>C27: A shift of the result of a void function aborts the compiler. The analysis accepts the function
  \<^verbatim>\<open>void f(i32 x) { f(x) << x; }\<close> without an error, its lowering succeeds, and the code generator
  aborts, because the temporary of the shift has no size and so no stack slot.\<close>

theorem shifted_call_aborts:
  "case analyze_statement shifted_call (start_semantic ''m'') sf_log_init of (st', s', g') \<Rightarrow>
     g_error_count g' = 0 \<and>
     (\<exists>ir. sf_ir_generate \<lparr>pr_statements = [st'], pr_imports = []\<rparr> = Some ir \<and> sf_generate_assembly ir is_root = None)"
proof -
  obtain s g where r: "analyze_statement shifted_call (start_semantic ''m'') sf_log_init = (shifted_annotated, s, g)"
      "g_error_count g = 0"
    using shifted_call_accepted by blast
  obtain func where ir: "sf_ir_generate \<lparr>pr_statements = [shifted_annotated], pr_imports = []\<rparr> =
      Some \<lparr>ip_functions = [func], ip_next_label = 0, ip_externs = []\<rparr>"
    and func: "fn_operations func = shifted_operations" "\<not> is_extern (fn_qualifiers func)"
      "fn_parameters func = [\<lparr>pm_type = SF_VAL_TYPE_I32, pm_name = mangled_variable ''x'' 0, pm_id = 0, pm_qualifiers = no_qualifiers\<rparr>]"
    using shifted_call_lowered by blast
  have "emit_function func = None"
    using func
    by (simp add: emit_function_def Let_def shifted_operations_def shifted_x_def sf_stack_populate_def add_entry_def
        sf_stack_register_operand_def sf_stack_lookup_entry_def sf_stack_push_def emit_operation_def emit_lshift_def
        emit_shift_def format_operand_def stack_offset_def sf_stack_lookup_def
        next_aligned_offset_def mangled_variable_def snprintf_text_def take_Cons')
  then show ?thesis using r ir by (simp add: sf_generate_assembly_def)
qed

end
