(* ===== verification/Cli_Toml.thy ===== *)
theory Cli_Toml
  imports Prelude
begin

text \<open>
  The project file of the command line tool, \<^verbatim>\<open>cli/src/sulfur/toml.c\<close>. The reader of the format is the
  library \<^verbatim>\<open>tomlc17\<close>: a parsed file is the function that \<^verbatim>\<open>toml_seek\<close> applies to the dotted names, and a
  file that is not read is \<open>None\<close>. Memory for the strings is available.
\<close>

section \<open>Data\<close>

datatype sf_toml_parse_result =
    SF_TOML_PARSE_RESULT_OK
  | SF_TOML_PARSE_RESULT_FAILED_TO_OPEN
  | SF_TOML_PARSE_RESULT_NAME_INVALID
  | SF_TOML_PARSE_RESULT_EMIT_INVALID
  | SF_TOML_PARSE_RESULT_SLFR_FLAGS_INVALID
  | SF_TOML_PARSE_RESULT_ASM_FLAGS_INVALID
  | SF_TOML_PARSE_RESULT_LINK_FLAGS_INVALID
  | SF_TOML_PARSE_RESULT_FAILED_TO_ALLOCATE_MEMORY

datatype sf_emit = SF_EMIT_BIN | SF_EMIT_ASM | SF_EMIT_OBJ | SF_EMIT_LIB

type_synonym sf_string_list = "string list"

record sf_project_cfg =
  pc_name :: string
  pc_emit :: sf_emit
  pc_slfr_flags :: sf_string_list
  pc_asm_flags :: sf_string_list
  pc_link_flags :: sf_string_list

text \<open>The values of the library that the source tells apart; numbers, dates, booleans and tables are the
  last one.\<close>

datatype toml_datum =
    TOML_UNKNOWN
  | TOML_STRING string
  | TOML_ARRAY "toml_datum list"
  | TOML_OTHER

type_synonym toml_table = "string \<Rightarrow> toml_datum"

section \<open>Operations\<close>

text \<open>The assignment \<^verbatim>\<open>*output = (sf_project_cfg){0}\<close>, a null name being the empty one.\<close>

definition empty_project :: sf_project_cfg where
  "empty_project = \<lparr>pc_name = [], pc_emit = SF_EMIT_BIN, pc_slfr_flags = [], pc_asm_flags = [], pc_link_flags = []\<rparr>"

definition sf_toml_free_project :: "sf_project_cfg \<Rightarrow> sf_project_cfg" where
  "sf_toml_free_project cfg = empty_project"

definition name_is_valid :: "string \<Rightarrow> bool" where
  "name_is_valid name \<longleftrightarrow> name \<noteq> [] \<and> name ! 0 \<noteq> CHR ''.'' \<and> CHR ''/'' \<notin> set name"

definition emit_table :: "(string \<times> sf_emit) list" where
  "emit_table = [(''asm'', SF_EMIT_ASM), (''obj'', SF_EMIT_OBJ), (''bin'', SF_EMIT_BIN), (''lib'', SF_EMIT_LIB)]"

definition parse_emit :: "toml_datum \<Rightarrow> sf_emit + sf_toml_parse_result" where
  "parse_emit datum =
     (case datum of
        TOML_UNKNOWN \<Rightarrow> Inl SF_EMIT_BIN
      | TOML_STRING s \<Rightarrow>
          (case map_of emit_table s of Some e \<Rightarrow> Inl e | None \<Rightarrow> Inr SF_TOML_PARSE_RESULT_EMIT_INVALID)
      | _ \<Rightarrow> Inr SF_TOML_PARSE_RESULT_EMIT_INVALID)"

text \<open>The loop over the elements of an array.\<close>

fun parse_elements :: "toml_datum list \<Rightarrow> sf_toml_parse_result \<Rightarrow> sf_string_list + sf_toml_parse_result" where
  "parse_elements [] invalid = Inl []"
| "parse_elements (element # rest) invalid =
     (case element of
        TOML_STRING s \<Rightarrow> (case parse_elements rest invalid of Inl items \<Rightarrow> Inl (s # items) | Inr e \<Rightarrow> Inr e)
      | _ \<Rightarrow> Inr invalid)"

definition parse_list :: "toml_datum \<Rightarrow> sf_toml_parse_result \<Rightarrow> sf_string_list + sf_toml_parse_result" where
  "parse_list datum invalid =
     (case datum of
        TOML_UNKNOWN \<Rightarrow> Inl []
      | TOML_ARRAY elements \<Rightarrow> if length elements = 0 then Inl [] else parse_elements elements invalid
      | _ \<Rightarrow> Inr invalid)"

text \<open>The result and the project that is left in \<^verbatim>\<open>output\<close>.\<close>

definition sf_toml_parse_project :: "toml_table option \<Rightarrow> sf_toml_parse_result \<times> sf_project_cfg" where
  "sf_toml_parse_project toml =
     (case toml of
        None \<Rightarrow> (SF_TOML_PARSE_RESULT_FAILED_TO_OPEN, empty_project)
      | Some seek \<Rightarrow>
          (let failed = (\<lambda>output result. (result, sf_toml_free_project output))
           in case seek ''project.name'' of
                TOML_STRING name \<Rightarrow>
                  if \<not> name_is_valid name then failed empty_project SF_TOML_PARSE_RESULT_NAME_INVALID
                  else (case parse_emit (seek ''build.emit'') of
                          Inr e \<Rightarrow> failed empty_project e
                        | Inl emit \<Rightarrow>
                            (let output = empty_project\<lparr>pc_emit := emit, pc_name := name\<rparr>
                             in case parse_list (seek ''build.slfr_flags'') SF_TOML_PARSE_RESULT_SLFR_FLAGS_INVALID of
                                  Inr e \<Rightarrow> failed output e
                                | Inl slfr \<Rightarrow>
                            (let output = output\<lparr>pc_slfr_flags := slfr\<rparr>
                             in case parse_list (seek ''build.asm_flags'') SF_TOML_PARSE_RESULT_ASM_FLAGS_INVALID of
                                  Inr e \<Rightarrow> failed output e
                                | Inl asm \<Rightarrow>
                            (let output = output\<lparr>pc_asm_flags := asm\<rparr>
                             in case parse_list (seek ''build.link_flags'') SF_TOML_PARSE_RESULT_LINK_FLAGS_INVALID of
                                  Inr e \<Rightarrow> failed output e
                                | Inl link \<Rightarrow> (SF_TOML_PARSE_RESULT_OK, output\<lparr>pc_link_flags := link\<rparr>)))))
              | _ \<Rightarrow> failed empty_project SF_TOML_PARSE_RESULT_NAME_INVALID))"

section \<open>Facts\<close>

lemma map_of_emit_table: "map_of emit_table s = Some e \<longleftrightarrow> (s, e) \<in> set emit_table"
  by (auto simp: emit_table_def)

lemma toml_strings_inject [simp]: "map TOML_STRING xs = map TOML_STRING ys \<longleftrightarrow> xs = ys"
  by (simp add: inj_map_eq_map inj_def)

lemma parse_elements_ok: "parse_elements elements invalid = Inl items \<longleftrightarrow> elements = map TOML_STRING items"
proof (induction elements arbitrary: items)
  case (Cons element rest)
  then show ?case by (cases items) (auto split: toml_datum.splits sum.splits, blast)
qed auto

lemma parse_elements_failed: "parse_elements elements invalid = Inr e \<Longrightarrow> e = invalid"
  by (induction elements) (auto split: toml_datum.splits sum.splits)

lemma parse_list_ok:
  "parse_list datum invalid = Inl items \<longleftrightarrow> datum = TOML_ARRAY (map TOML_STRING items) \<or> (datum = TOML_UNKNOWN \<and> items = [])"
  by (auto simp: parse_list_def parse_elements_ok split: toml_datum.splits)

lemma parse_list_failed: "parse_list datum invalid = Inr e \<Longrightarrow> e = invalid"
  by (auto simp: parse_list_def dest: parse_elements_failed split: toml_datum.splits if_splits)

lemma parse_emit_failed: "parse_emit datum = Inr e \<Longrightarrow> e = SF_TOML_PARSE_RESULT_EMIT_INVALID"
  by (auto simp: parse_emit_def split: toml_datum.splits option.splits)

text \<open>A project that is read has a name that can be a file name, and its lists are the lists of the file.\<close>

lemma project_read:
  assumes "sf_toml_parse_project toml = (SF_TOML_PARSE_RESULT_OK, cfg)"
  shows "name_is_valid (pc_name cfg) \<and> (\<exists>seek. toml = Some seek \<and> seek ''project.name'' = TOML_STRING (pc_name cfg) \<and>
     parse_emit (seek ''build.emit'') = Inl (pc_emit cfg) \<and>
     parse_list (seek ''build.slfr_flags'') SF_TOML_PARSE_RESULT_SLFR_FLAGS_INVALID = Inl (pc_slfr_flags cfg) \<and>
     parse_list (seek ''build.asm_flags'') SF_TOML_PARSE_RESULT_ASM_FLAGS_INVALID = Inl (pc_asm_flags cfg) \<and>
     parse_list (seek ''build.link_flags'') SF_TOML_PARSE_RESULT_LINK_FLAGS_INVALID = Inl (pc_link_flags cfg))"
  using assms
  by (auto simp: sf_toml_parse_project_def empty_project_def Let_def dest: parse_emit_failed parse_list_failed
      split: option.splits toml_datum.splits if_splits sum.splits)

lemma project_rejected:
  "sf_toml_parse_project toml = (result, cfg) \<Longrightarrow> result \<noteq> SF_TOML_PARSE_RESULT_OK \<Longrightarrow> cfg = empty_project"
  by (auto simp: sf_toml_parse_project_def sf_toml_free_project_def Let_def
      split: option.splits toml_datum.splits if_splits sum.splits)

end
