(* ===== verification/Cli_File.thy ===== *)
theory Cli_File
  imports Compile Cli_Toml
begin

text \<open>
  The files of the command line tool, \<^verbatim>\<open>cli/src/sulfur/file.c\<close>, over the calls of the operating system that the
  tool makes, a record of functions on a world \<open>'w\<close>. Every call may fail in every world. The
  loops over directories are bounded by a depth \<open>n\<close>, the loop that writes by the number of calls;
  \<open>None\<close> is a run that needs more. Memory is available, and closing a directory succeeds.
\<close>

section \<open>The operating system\<close>

datatype file_kind = Is_Folder | Is_Regular | Is_Special

datatype write_result = Written nat | Interrupted | Write_Failed

text \<open>The status of \<^verbatim>\<open>waitpid\<close>: an exit code, a signal, or neither.\<close>

datatype wait_status = Exited nat | Signaled nat | Unknown_Status

text \<open>
  \<open>sy_entries\<close> is \<^verbatim>\<open>opendir\<close> and the names of \<^verbatim>\<open>readdir\<close>, \<open>sy_kind\<close> is \<^verbatim>\<open>lstat\<close>, \<open>sy_is_folder\<close> is \<^verbatim>\<open>stat\<close>, \<open>sy_append\<close>
  opens for appending and closes, \<open>sy_truncate\<close> opens for writing and truncates, \<open>sy_write\<close> writes to
  the file of that path, \<open>sy_read\<close> reads a whole file, \<open>sy_toml\<close> is \<^verbatim>\<open>toml_parse_file_ex\<close>, \<open>sy_spawn\<close> is
  \<^verbatim>\<open>fork\<close>, \<^verbatim>\<open>execvp\<close> and \<^verbatim>\<open>waitpid\<close>, \<open>sy_executable\<close> is \<^verbatim>\<open>access\<close>.
\<close>

record 'w sf_system =
  sy_mkdir :: "string \<Rightarrow> 'w \<Rightarrow> mkdir_result \<times> 'w"
  sy_is_folder :: "string \<Rightarrow> 'w \<Rightarrow> bool"
  sy_entries :: "string \<Rightarrow> 'w \<Rightarrow> string list option"
  sy_kind :: "string \<Rightarrow> 'w \<Rightarrow> file_kind option"
  sy_rmdir :: "string \<Rightarrow> 'w \<Rightarrow> bool \<times> 'w"
  sy_remove :: "string \<Rightarrow> 'w \<Rightarrow> bool \<times> 'w"
  sy_append :: "string \<Rightarrow> 'w \<Rightarrow> bool \<times> 'w"
  sy_truncate :: "string \<Rightarrow> 'w \<Rightarrow> bool \<times> 'w"
  sy_write :: "string \<Rightarrow> string \<Rightarrow> 'w \<Rightarrow> write_result \<times> 'w"
  sy_close :: "string \<Rightarrow> 'w \<Rightarrow> bool \<times> 'w"
  sy_read :: "string \<Rightarrow> 'w \<Rightarrow> string option"
  sy_toml :: "string \<Rightarrow> 'w \<Rightarrow> toml_table option"
  sy_spawn :: "string list \<Rightarrow> 'w \<Rightarrow> wait_status option \<times> 'w"
  sy_executable :: "string \<Rightarrow> 'w \<Rightarrow> bool"

section \<open>Creating and deleting\<close>

definition PATH_BUFFER_SIZE :: nat where "PATH_BUFFER_SIZE = 1024"
definition PATH_MAX :: nat where "PATH_MAX = 4096"

definition sf_create_folder :: "'w sf_system \<Rightarrow> string \<Rightarrow> 'w \<Rightarrow> bool \<times> 'w" where
  "sf_create_folder sys path w =
     (case sy_mkdir sys path w of
        (Created, w1) \<Rightarrow> (True, w1)
      | (Exists, w1) \<Rightarrow> (sy_is_folder sys path w1, w1)
      | (Failed, w1) \<Rightarrow> (False, w1))"

text \<open>The loop of \<^verbatim>\<open>sf_create_folders\<close>: \<open>prefix\<close> is the path before \<open>p\<close>.\<close>

fun create_prefixes :: "'w sf_system \<Rightarrow> string \<Rightarrow> string \<Rightarrow> 'w \<Rightarrow> bool \<times> 'w" where
  "create_prefixes sys prefix [] w = (True, w)"
| "create_prefixes sys prefix (c # rest) w =
     (if c \<noteq> CHR ''/'' then create_prefixes sys (prefix @ [c]) rest w
      else (case sy_mkdir sys prefix w of
              (Failed, w1) \<Rightarrow> (False, w1)
            | (_, w1) \<Rightarrow> create_prefixes sys (prefix @ [c]) rest w1))"

definition sf_create_folders :: "'w sf_system \<Rightarrow> string \<Rightarrow> 'w \<Rightarrow> bool \<times> 'w" where
  "sf_create_folders sys path w =
     (if PATH_BUFFER_SIZE \<le> length path then (False, w)
      else (case create_prefixes sys (take 1 path) (drop 1 path) w of
              (False, w1) \<Rightarrow> (False, w1)
            | (True, w1) \<Rightarrow>
                (case sy_mkdir sys path w1 of
                   (Failed, w2) \<Rightarrow> (False, w2)
                 | (_, w2) \<Rightarrow> (True, w2))))"

definition sf_create_file :: "'w sf_system \<Rightarrow> string \<Rightarrow> 'w \<Rightarrow> bool \<times> 'w" where
  "sf_create_file sys path w = sy_append sys path w"

definition sf_delete_file :: "'w sf_system \<Rightarrow> string \<Rightarrow> 'w \<Rightarrow> bool \<times> 'w" where
  "sf_delete_file sys path w = sy_remove sys path w"

text \<open>The path of an entry of a directory.\<close>

definition entry_path :: "string \<Rightarrow> string \<Rightarrow> string" where
  "entry_path path name = path @ ''/'' @ name"

definition is_dots :: "string \<Rightarrow> bool" where
  "is_dots name \<longleftrightarrow> name = ''.'' \<or> name = ''..''"

text \<open>The loop of \<^verbatim>\<open>sf_delete_folder\<close> over the entries; \<open>delete\<close> is the recursive call.\<close>

fun delete_entries :: "(string \<Rightarrow> 'w \<Rightarrow> (bool \<times> 'w) option) \<Rightarrow> 'w sf_system \<Rightarrow> string \<Rightarrow> string list \<Rightarrow> bool \<Rightarrow> 'w \<Rightarrow>
   (bool \<times> 'w) option" where
  "delete_entries delete sys path [] success w = Some (success, w)"
| "delete_entries delete sys path (name # names) success w =
     (if is_dots name then delete_entries delete sys path names success w
      else (let fullpath = entry_path path name
            in if PATH_MAX \<le> length fullpath then delete_entries delete sys path names False w
               else (case sy_kind sys fullpath w of
                       None \<Rightarrow> delete_entries delete sys path names False w
                     | Some Is_Folder \<Rightarrow>
                         (case delete fullpath w of
                            None \<Rightarrow> None
                          | Some (ok, w1) \<Rightarrow> delete_entries delete sys path names (if ok then success else False) w1)
                     | Some _ \<Rightarrow>
                         (case sf_delete_file sys fullpath w of
                            (ok, w1) \<Rightarrow> delete_entries delete sys path names (if ok then success else False) w1))))"

fun sf_delete_folder :: "nat \<Rightarrow> 'w sf_system \<Rightarrow> string \<Rightarrow> 'w \<Rightarrow> (bool \<times> 'w) option" where
  "sf_delete_folder 0 sys path w = None"
| "sf_delete_folder (Suc n) sys path w =
     (case sy_entries sys path w of
        None \<Rightarrow> Some (False, w)
      | Some names \<Rightarrow>
          (case delete_entries (sf_delete_folder n sys) sys path names True w of
             None \<Rightarrow> None
           | Some (success, w1) \<Rightarrow> Some (if \<not> success then (False, w1) else sy_rmdir sys path w1)))"

section \<open>Reading and writing\<close>

text \<open>The loop of \<^verbatim>\<open>sf_write_file\<close>: \<open>content\<close> is the part that remains.\<close>

fun write_loop :: "nat \<Rightarrow> 'w sf_system \<Rightarrow> string \<Rightarrow> string \<Rightarrow> 'w \<Rightarrow> (bool \<times> 'w) option" where
  "write_loop 0 sys path content w = None"
| "write_loop (Suc n) sys path content w =
     (if content = [] then Some (sy_close sys path w)
      else (case sy_write sys path content w of
              (Interrupted, w1) \<Rightarrow> write_loop n sys path content w1
            | (Write_Failed, w1) \<Rightarrow> Some (False, snd (sy_close sys path w1))
            | (Written k, w1) \<Rightarrow>
                if k = 0 then Some (False, snd (sy_close sys path w1))
                else write_loop n sys path (drop k content) w1))"

definition sf_write_file :: "nat \<Rightarrow> 'w sf_system \<Rightarrow> string \<Rightarrow> string \<Rightarrow> 'w \<Rightarrow> (bool \<times> 'w) option" where
  "sf_write_file n sys path content w =
     (case sy_truncate sys path w of
        (False, w1) \<Rightarrow> Some (False, w1)
      | (True, w1) \<Rightarrow> write_loop n sys path content w1)"

definition sf_read_file :: "'w sf_system \<Rightarrow> string \<Rightarrow> 'w \<Rightarrow> string option" where
  "sf_read_file sys path w = sy_read sys path w"

section \<open>Collecting the sources\<close>

definition has_slfr_extension :: "string \<Rightarrow> bool" where
  "has_slfr_extension path \<longleftrightarrow>
     (case c_strrchr path (CHR ''.'') of None \<Rightarrow> False | Some dot \<Rightarrow> drop dot path = ''.slfr'')"

text \<open>The loop of \<^verbatim>\<open>collect_slfr_files\<close> over the entries; \<open>collect\<close> is the recursive call.\<close>

fun collect_entries :: "(string \<Rightarrow> string list \<Rightarrow> (bool \<times> string list) option) \<Rightarrow> 'w sf_system \<Rightarrow> string \<Rightarrow> 'w \<Rightarrow>
   string list \<Rightarrow> bool \<Rightarrow> string list \<Rightarrow> (bool \<times> string list) option" where
  "collect_entries collect sys dir_path w [] success files = Some (success, files)"
| "collect_entries collect sys dir_path w (name # names) success files =
     (if is_dots name then collect_entries collect sys dir_path w names success files
      else (let path = entry_path dir_path name
            in case sy_kind sys path w of
                 None \<Rightarrow> collect_entries collect sys dir_path w names False files
               | Some Is_Folder \<Rightarrow>
                   (case collect path files of
                      None \<Rightarrow> None
                    | Some (ok, files1) \<Rightarrow>
                        collect_entries collect sys dir_path w names (if ok then success else False) files1)
               | Some Is_Regular \<Rightarrow>
                   collect_entries collect sys dir_path w names success
                     (if has_slfr_extension name then files @ [path] else files)
               | Some Is_Special \<Rightarrow> collect_entries collect sys dir_path w names success files))"

fun collect_slfr_files :: "nat \<Rightarrow> 'w sf_system \<Rightarrow> 'w \<Rightarrow> string \<Rightarrow> string list \<Rightarrow> (bool \<times> string list) option" where
  "collect_slfr_files 0 sys w dir_path files = None"
| "collect_slfr_files (Suc n) sys w dir_path files =
     (case sy_entries sys dir_path w of
        None \<Rightarrow> Some (False, files)
      | Some names \<Rightarrow> collect_entries (collect_slfr_files n sys w) sys dir_path w names True files)"

end
