(* ===== verification/Cli_Cmd.thy ===== *)
theory Cli_Cmd
  imports Cli_File
begin

text \<open>
  The commands of the command line tool, \<^verbatim>\<open>cli/src/sulfur/cmd.c\<close> and \<^verbatim>\<open>main.c\<close>. The state is the world of the
  operating system, the commands that were started with whether they ended with code 0, a record
  that the code does not keep, and the messages that were printed. \<open>n\<close> bounds the loops of the files.
\<close>

section \<open>Messages\<close>

datatype cli_message =
    Failure string string
  | Success string string
  | Action string string
  | Usage
  | Version

definition SF_COLOR_RESET :: string where "SF_COLOR_RESET = [CHR 0x1B] @ ''[0m''"
definition SF_COLOR_BOLD :: string where "SF_COLOR_BOLD = [CHR 0x1B] @ ''[1m''"
definition SF_COLOR_CYAN :: string where "SF_COLOR_CYAN = [CHR 0x1B] @ ''[36m''"
definition SF_COLOR_GREEN :: string where "SF_COLOR_GREEN = [CHR 0x1B] @ ''[32m''"
definition SF_COLOR_YELLOW :: string where "SF_COLOR_YELLOW = [CHR 0x1B] @ ''[33m''"
definition SF_COLOR_RED :: string where "SF_COLOR_RED = [CHR 0x1B] @ ''[31m''"

definition newline :: string where "newline = [CHR 0x0A]"

definition quote :: "string \<Rightarrow> string" where
  "quote s = [CHR 0x27] @ s @ [CHR 0x27]"

definition cmd_usage_text :: string where
  "cmd_usage_text =
     SF_COLOR_BOLD @ SF_COLOR_CYAN @ ''Usage:'' @ newline @ SF_COLOR_RESET @
     ''   sulfur <command> [arguments]'' @ newline @
     SF_COLOR_BOLD @ SF_COLOR_CYAN @ ''Commands:'' @ newline @ SF_COLOR_RESET @
     ''   '' @ SF_COLOR_GREEN @ ''new'' @ SF_COLOR_RESET @ '' <name> - Creates a new project folder.'' @ newline @
     ''   '' @ SF_COLOR_GREEN @ ''build'' @ SF_COLOR_RESET @ ''      - Builds the project.'' @ newline @
     ''   '' @ SF_COLOR_GREEN @ ''run'' @ SF_COLOR_RESET @ ''        - Runs the built project.'' @ newline @
     ''   '' @ SF_COLOR_GREEN @ ''clean'' @ SF_COLOR_RESET @ ''      - Cleans build artifacts.'' @ newline @
     ''   '' @ SF_COLOR_YELLOW @ ''--version'' @ SF_COLOR_RESET @ ''  - Display compiler information.'' @ newline @
     ''   '' @ SF_COLOR_YELLOW @ ''--help'' @ SF_COLOR_RESET @ ''     - Display this help message.'' @ newline"

definition version_text :: string where
  "version_text =
     SF_COLOR_CYAN @ ''Version v0.0.0'' @ newline @ SF_COLOR_RESET @
     ''Copyright (C) 2026 '' @ SF_COLOR_GREEN @ ''saintsHr'' @ newline @ SF_COLOR_RESET @
     ''Licensed under the '' @ SF_COLOR_YELLOW @ ''MIT license'' @ newline @ SF_COLOR_RESET"

fun message_text :: "cli_message \<Rightarrow> string" where
  "message_text (Failure title msg) = SF_COLOR_RED @ title @ newline @ SF_COLOR_RESET @ ''   '' @ msg @ newline"
| "message_text (Success title msg) = SF_COLOR_GREEN @ title @ newline @ SF_COLOR_RESET @ ''   '' @ msg @ newline"
| "message_text (Action action msg) = SF_COLOR_CYAN @ ''['' @ action @ ''] '' @ SF_COLOR_RESET @ msg @ newline"
| "message_text Usage = cmd_usage_text"
| "message_text Version = version_text"

record 'w cli_state =
  cl_world :: 'w
  cl_started :: "(string list \<times> bool) list"
  cl_messages :: "cli_message list"

definition say :: "cli_message \<Rightarrow> 'w cli_state \<Rightarrow> 'w cli_state" where
  "say m st = st\<lparr>cl_messages := cl_messages st @ [m]\<rparr>"

definition log_failure :: "string \<Rightarrow> string \<Rightarrow> 'w cli_state \<Rightarrow> 'w cli_state" where
  "log_failure title msg st = say (Failure title msg) st"

definition log_success :: "string \<Rightarrow> string \<Rightarrow> 'w cli_state \<Rightarrow> 'w cli_state" where
  "log_success title msg st = say (Success title msg) st"

definition log_action :: "string \<Rightarrow> string \<Rightarrow> 'w cli_state \<Rightarrow> 'w cli_state" where
  "log_action action msg st = say (Action action msg) st"

text \<open>A call of the operating system that changes the world.\<close>

definition call_system :: "('w \<Rightarrow> bool \<times> 'w) \<Rightarrow> 'w cli_state \<Rightarrow> bool \<times> 'w cli_state" where
  "call_system f st = (case f (cl_world st) of (ok, w) \<Rightarrow> (ok, st\<lparr>cl_world := w\<rparr>))"

section \<open>Arguments and processes\<close>

text \<open>The loop of \<^verbatim>\<open>args_push_words\<close>: the words of a text between spaces and tabs; \<open>word\<close> holds the
  characters since \<^verbatim>\<open>start\<close>.\<close>

definition is_blank :: "char \<Rightarrow> bool" where
  "is_blank c \<longleftrightarrow> c = CHR '' '' \<or> c = CHR 0x09"

fun words_from :: "string \<Rightarrow> string \<Rightarrow> string list" where
  "words_from word [] = (if word = [] then [] else [word])"
| "words_from word (c # cs) =
     (if is_blank c then (if word = [] then [] else [word]) @ words_from [] cs
      else words_from (word @ [c]) cs)"

definition args_push :: "string list \<Rightarrow> string \<Rightarrow> string list" where
  "args_push args item = args @ [item]"

definition args_push_words :: "string list \<Rightarrow> string \<Rightarrow> string list" where
  "args_push_words args s = args @ words_from [] s"

definition args_push_list :: "string list \<Rightarrow> sf_string_list \<Rightarrow> string list" where
  "args_push_list args items = foldl args_push_words args items"

definition spawn :: "'w sf_system \<Rightarrow> string list \<Rightarrow> 'w cli_state \<Rightarrow> wait_status option \<times> 'w cli_state" where
  "spawn sys args st =
     (case sy_spawn sys args (cl_world st) of
        (status, w) \<Rightarrow> (status, st\<lparr>cl_world := w, cl_started := cl_started st @ [(args, status = Some (Exited 0))]\<rparr>))"

definition run_ok :: "'w sf_system \<Rightarrow> string list \<Rightarrow> 'w cli_state \<Rightarrow> bool \<times> 'w cli_state" where
  "run_ok sys args st = (case spawn sys args st of (status, st1) \<Rightarrow> (status = Some (Exited 0), st1))"

section \<open>Paths\<close>

definition ENTRY_FILE_NAME :: string where "ENTRY_FILE_NAME = ''main.slfr''"
definition SOURCE_EXTENSION :: string where "SOURCE_EXTENSION = ''.slfr''"

definition format_path :: "nat \<Rightarrow> string \<Rightarrow> string \<Rightarrow> string \<Rightarrow> string option" where
  "format_path n folder name extension =
     (let written = folder @ ''/'' @ name @ extension in if length written < n then Some written else None)"

definition create_parent_folders :: "'w sf_system \<Rightarrow> string \<Rightarrow> 'w \<Rightarrow> bool \<times> 'w" where
  "create_parent_folders sys path w =
     (if PATH_BUFFER_SIZE \<le> length path then (False, w)
      else (case c_strrchr path (CHR ''/'') of
              None \<Rightarrow> (True, w)
            | Some slash \<Rightarrow> sf_create_folders sys (take slash path) w))"

definition relative_source :: "string \<Rightarrow> string" where
  "relative_source source = (if take 4 source = ''src/'' then drop 4 source else source)"

section \<open>Compiling, assembling, linking\<close>

definition compile_args :: "sf_project_cfg \<Rightarrow> string \<Rightarrow> string \<Rightarrow> bool \<Rightarrow> string list" where
  "compile_args cfg input output is_module =
     (let args = args_push_list [''sulfur-compiler'', ''-i'', input, ''-o'', output] (pc_slfr_flags cfg)
      in if is_module then args_push args ''--module'' else args)"

definition compile_file :: "'w sf_system \<Rightarrow> sf_project_cfg \<Rightarrow> string \<Rightarrow> string \<Rightarrow> bool \<Rightarrow> 'w cli_state \<Rightarrow> bool \<times> 'w cli_state" where
  "compile_file sys cfg input output is_module st = run_ok sys (compile_args cfg input output is_module) st"

definition assemble_args :: "sf_project_cfg \<Rightarrow> string \<Rightarrow> string \<Rightarrow> string list" where
  "assemble_args cfg input output =
     args_push_list [''nasm'', ''-f'', ''elf64'', input, ''-o'', output] (pc_asm_flags cfg)"

definition assemble_file :: "'w sf_system \<Rightarrow> sf_project_cfg \<Rightarrow> string \<Rightarrow> string \<Rightarrow> 'w cli_state \<Rightarrow> bool \<times> 'w cli_state" where
  "assemble_file sys cfg input output st = run_ok sys (assemble_args cfg input output) st"

definition link_args :: "sf_project_cfg \<Rightarrow> string list \<Rightarrow> string \<Rightarrow> string list" where
  "link_args cfg objects output =
     args_push_list (args_push (args_push (foldl args_push [''ld''] objects) ''-o'') output) (pc_link_flags cfg)"

definition link_files :: "'w sf_system \<Rightarrow> sf_project_cfg \<Rightarrow> string list \<Rightarrow> string \<Rightarrow> 'w cli_state \<Rightarrow> bool \<times> 'w cli_state" where
  "link_files sys cfg objects output st = run_ok sys (link_args cfg objects output) st"

definition archive_args :: "string list \<Rightarrow> string \<Rightarrow> string list" where
  "archive_args objects output = foldl args_push [''ar'', ''rcs'', output] objects"

definition archive_files :: "'w sf_system \<Rightarrow> string list \<Rightarrow> string \<Rightarrow> 'w cli_state \<Rightarrow> bool \<times> 'w cli_state" where
  "archive_files sys objects output st =
     (let st1 = snd (call_system (sy_remove sys output) st) in run_ok sys (archive_args objects output) st1)"

end
