(* ===== verification/Cli_Main.thy ===== *)
theory Cli_Main
  imports Cli_Cmd
begin

text \<open>
  The commands of the tool, \<^verbatim>\<open>command_new\<close>, \<^verbatim>\<open>command_build\<close>, \<^verbatim>\<open>command_clean\<close>, \<^verbatim>\<open>command_run\<close> and their
  dispatch, and \<^verbatim>\<open>main\<close>. The arguments are those after the name of the program.
\<close>

type_synonym 'w command = "'w cli_state \<Rightarrow> 'w cli_state option"

definition cmd_print_usage :: "'w cli_state \<Rightarrow> 'w cli_state" where
  "cmd_print_usage st = say Usage st"

definition command_help :: "string list \<Rightarrow> 'w command" where
  "command_help args st =
     (if length args \<noteq> 1 then Some (cmd_print_usage st) else Some (cmd_print_usage st))"

definition command_version :: "string list \<Rightarrow> 'w command" where
  "command_version args st =
     (if length args \<noteq> 1 then Some (cmd_print_usage st) else Some (say Version st))"

section \<open>New projects\<close>

definition CONTENT_BUFFER_SIZE :: nat where "CONTENT_BUFFER_SIZE = 1024"

definition dquote :: "string \<Rightarrow> string" where
  "dquote s = [CHR 0x22] @ s @ [CHR 0x22]"

definition toml_file_content :: "string \<Rightarrow> string" where
  "toml_file_content project_name =
     snprintf_text CONTENT_BUFFER_SIZE
       (''[project]'' @ newline @
        ''name = '' @ dquote project_name @ newline @
        newline @
        ''[build]'' @ newline @
        ''emit = '' @ dquote ''bin'' @ newline @
        ''slfr_flags = ['' @ dquote ''-m src'' @ '']'' @ newline @
        ''asm_flags = []'' @ newline @
        ''link_flags = ['' @ dquote ''/usr/local/lib/sulfur/libsulfurstd.a'' @ '']'' @ newline)"

definition main_file_content :: string where
  "main_file_content =
     snprintf_text CONTENT_BUFFER_SIZE
       (''fn main() i32 {'' @ newline @ [CHR 0x09] @ ''return 0;'' @ newline @ ''}'' @ newline)"

text \<open>A call whose result is not looked at.\<close>

definition ignore_result :: "('w \<Rightarrow> bool \<times> 'w) \<Rightarrow> 'w cli_state \<Rightarrow> 'w cli_state" where
  "ignore_result f st = snd (call_system f st)"

definition ignore_written :: "('w \<Rightarrow> (bool \<times> 'w) option) \<Rightarrow> 'w command" where
  "ignore_written f st =
     (case f (cl_world st) of None \<Rightarrow> None | Some (ok, w) \<Rightarrow> Some (st\<lparr>cl_world := w\<rparr>))"

definition command_new :: "nat \<Rightarrow> 'w sf_system \<Rightarrow> string list \<Rightarrow> 'w command" where
  "command_new n sys args st =
     (if length args \<noteq> 2 then Some (cmd_print_usage st)
      else (let project_name = args ! 1;
                project_folder_path = snprintf_text PATH_BUFFER_SIZE project_name;
                src_folder_path = snprintf_text PATH_BUFFER_SIZE (project_folder_path @ ''/'' @ ''src'');
                main_file_path = snprintf_text PATH_BUFFER_SIZE (src_folder_path @ ''/'' @ ENTRY_FILE_NAME);
                toml_file_path = snprintf_text PATH_BUFFER_SIZE (project_folder_path @ ''/'' @ ''sulfur.toml'');
                st1 = ignore_result (sf_create_folder sys project_folder_path) st;
                st2 = ignore_result (sf_create_folder sys src_folder_path) st1;
                st3 = ignore_result (sf_create_file sys main_file_path) st2;
                st4 = ignore_result (sf_create_file sys toml_file_path) st3
            in do {
                st5 \<leftarrow> ignore_written (sf_write_file n sys main_file_path main_file_content) st4;
                st6 \<leftarrow> ignore_written (sf_write_file n sys toml_file_path (toml_file_content project_name)) st5;
                Some (log_success ''Created project'' (quote project_name) st6) }))"

section \<open>Building\<close>

definition asm_folder :: string where "asm_folder = ''build/asm''"
definition obj_folder :: string where "obj_folder = ''build/obj''"
definition bin_folder :: string where "bin_folder = ''build/bin''"
definition lib_folder :: string where "lib_folder = ''build/lib''"
definition toml_path :: string where "toml_path = ''sulfur.toml''"

text \<open>The switch over the result of the project file; \<open>None\<close> goes on.\<close>

fun project_failure :: "sf_toml_parse_result \<Rightarrow> string option" where
  "project_failure SF_TOML_PARSE_RESULT_OK = None"
| "project_failure SF_TOML_PARSE_RESULT_FAILED_TO_OPEN = Some (''Failed to open '' @ quote toml_path)"
| "project_failure SF_TOML_PARSE_RESULT_NAME_INVALID =
     Some (''Invalid '' @ quote ''project.name'' @ '' in file '' @ quote toml_path @
           '' (must be non-empty, not start with '' @ quote ''.'' @ '', no '' @ quote ''/'' @ '')'')"
| "project_failure SF_TOML_PARSE_RESULT_EMIT_INVALID =
     Some (''Invalid '' @ quote ''build.emit'' @ '' in file '' @ quote toml_path @ '' (expected asm, obj, bin or lib)'')"
| "project_failure SF_TOML_PARSE_RESULT_SLFR_FLAGS_INVALID =
     Some (''Failed to read '' @ quote ''build.slfr_flags'' @ '' in file '' @ quote toml_path)"
| "project_failure SF_TOML_PARSE_RESULT_ASM_FLAGS_INVALID =
     Some (''Failed to read '' @ quote ''build.asm_flags'' @ '' in file '' @ quote toml_path)"
| "project_failure SF_TOML_PARSE_RESULT_LINK_FLAGS_INVALID =
     Some (''Failed to read '' @ quote ''build.link_flags'' @ '' in file '' @ quote toml_path)"
| "project_failure SF_TOML_PARSE_RESULT_FAILED_TO_ALLOCATE_MEMORY = Some ''Failed to allocate memory''"

definition build_failed :: "string \<Rightarrow> 'w cli_state \<Rightarrow> 'w cli_state" where
  "build_failed msg st = log_failure ''Build failed'' msg st"

text \<open>The cut of the extension from the buffer \<^verbatim>\<open>stem\<close>.\<close>

definition source_stem :: "string \<Rightarrow> string option" where
  "source_stem relative =
     (case c_strrchr relative (CHR ''.'') of
        None \<Rightarrow> None
      | Some dot \<Rightarrow> if drop dot relative \<noteq> SOURCE_EXTENSION then None else Some (take dot relative))"

text \<open>One round of the loop over the sources: the objects it makes, or \<open>None\<close> when it goes to the cleanup.\<close>

definition build_source :: "'w sf_system \<Rightarrow> sf_project_cfg \<Rightarrow> string \<Rightarrow> 'w cli_state \<Rightarrow> string list option \<times> 'w cli_state" where
  "build_source sys cfg source st =
     (let relative = relative_source source;
          is_entry = (relative = ENTRY_FILE_NAME);
          failed = (\<lambda>msg st. (None, build_failed msg st))
      in if PATH_BUFFER_SIZE \<le> length relative then failed (''Path too long: '' @ quote source) st
         else case source_stem relative of
           None \<Rightarrow> failed (''Invalid source extension: '' @ quote source) st
         | Some stem \<Rightarrow>
             (case (format_path PATH_BUFFER_SIZE asm_folder stem ''.asm'', format_path PATH_BUFFER_SIZE obj_folder stem ''.o'') of
                (Some asm_path, Some obj_path) \<Rightarrow>
                  (case call_system (create_parent_folders sys asm_path) st of (ok1, st1) \<Rightarrow>
                   case (if ok1 then call_system (create_parent_folders sys obj_path) st1 else (False, st1)) of (ok2, st2) \<Rightarrow>
                     if \<not> ok2 then failed (''Failed to create build directories for '' @ quote source) st2
                     else (case compile_file sys cfg source asm_path (\<not> is_entry) st2 of
                             (False, st3) \<Rightarrow> failed (''Failed to compile '' @ quote source) st3
                           | (True, st3) \<Rightarrow>
                               (let st4 = log_action ''Compiled'' (quote source @ '' -> '' @ quote asm_path) st3
                                in if pc_emit cfg = SF_EMIT_ASM then (Some [], st4)
                                   else (case assemble_file sys cfg asm_path obj_path st4 of
                                           (False, st5) \<Rightarrow> failed (''Failed to assemble '' @ quote asm_path) st5
                                         | (True, st5) \<Rightarrow>
                                             (Some [obj_path],
                                              log_action ''Assembled'' (quote asm_path @ '' -> '' @ quote obj_path) st5)))))
              | _ \<Rightarrow> failed (''Path too long: '' @ quote source) st))"

fun build_sources :: "'w sf_system \<Rightarrow> sf_project_cfg \<Rightarrow> string list \<Rightarrow> 'w cli_state \<Rightarrow> string list option \<times> 'w cli_state" where
  "build_sources sys cfg [] st = (Some [], st)"
| "build_sources sys cfg (source # sources) st =
     (case build_source sys cfg source st of
        (None, st1) \<Rightarrow> (None, st1)
      | (Some objects, st1) \<Rightarrow>
          (case build_sources sys cfg sources st1 of
             (None, st2) \<Rightarrow> (None, st2)
           | (Some others, st2) \<Rightarrow> (Some (objects @ others), st2)))"

text \<open>The last switch of \<^verbatim>\<open>command_build\<close>.\<close>

definition build_output :: "'w sf_system \<Rightarrow> sf_project_cfg \<Rightarrow> string list \<Rightarrow> 'w cli_state \<Rightarrow> 'w cli_state" where
  "build_output sys cfg objects st =
     (case pc_emit cfg of
        SF_EMIT_ASM \<Rightarrow> log_success ''Build done'' (''Assembly emitted to '' @ quote asm_folder) st
      | SF_EMIT_OBJ \<Rightarrow> log_success ''Build done'' (''Objects emitted to '' @ quote obj_folder) st
      | SF_EMIT_LIB \<Rightarrow>
          (case format_path PATH_BUFFER_SIZE lib_folder (snprintf_text PATH_BUFFER_SIZE (''lib'' @ pc_name cfg)) ''.a'' of
             None \<Rightarrow> build_failed (''Path too long for library '' @ quote (pc_name cfg)) st
           | Some output_path \<Rightarrow>
               (case archive_files sys objects output_path st of
                  (False, st1) \<Rightarrow> build_failed (''Failed to archive '' @ quote output_path) st1
                | (True, st1) \<Rightarrow>
                    log_success ''Build done'' (''Library emitted to '' @ quote output_path)
                      (log_action ''Archived'' (quote output_path) st1)))
      | SF_EMIT_BIN \<Rightarrow>
          (case format_path PATH_BUFFER_SIZE bin_folder (pc_name cfg) [] of
             None \<Rightarrow> build_failed (''Path too long for binary '' @ quote (pc_name cfg)) st
           | Some output_path \<Rightarrow>
               (case link_files sys cfg objects output_path st of
                  (False, st1) \<Rightarrow> build_failed (''Failed to link binary '' @ quote (pc_name cfg)) st1
                | (True, st1) \<Rightarrow>
                    log_success ''Build done'' ''Successfully built project sources''
                      (log_action ''Linked'' (quote output_path) st1))))"

definition has_main :: "string list \<Rightarrow> bool" where
  "has_main sources \<longleftrightarrow> (\<exists>source \<in> set sources. relative_source source = ENTRY_FILE_NAME)"

text \<open>The three calls of \<^verbatim>\<open>sf_create_folders\<close> in one condition.\<close>

definition create_build_folders :: "'w sf_system \<Rightarrow> string \<Rightarrow> 'w cli_state \<Rightarrow> bool \<times> 'w cli_state" where
  "create_build_folders sys output_folder st =
     (case call_system (sf_create_folders sys asm_folder) st of
        (False, st1) \<Rightarrow> (False, st1)
      | (True, st1) \<Rightarrow>
          (case call_system (sf_create_folders sys obj_folder) st1 of
             (False, st2) \<Rightarrow> (False, st2)
           | (True, st2) \<Rightarrow> call_system (sf_create_folders sys output_folder) st2))"

definition command_build :: "nat \<Rightarrow> 'w sf_system \<Rightarrow> 'w command" where
  "command_build n sys st =
     (case sf_toml_parse_project (sy_toml sys toml_path (cl_world st)) of (parse_result, cfg) \<Rightarrow>
      case project_failure parse_result of
        Some msg \<Rightarrow> Some (build_failed msg st)
      | None \<Rightarrow>
          (case collect_slfr_files n sys (cl_world st) ''src'' [] of
             None \<Rightarrow> None
           | Some (False, sources) \<Rightarrow> Some (build_failed ''Failed to collect .slfr files'' st)
           | Some (True, sources) \<Rightarrow>
               if length sources = 0 then Some (build_failed ''No source files found'' st)
               else if pc_emit cfg = SF_EMIT_BIN \<and> \<not> has_main sources
               then Some (build_failed (''Entry file '' @ quote ENTRY_FILE_NAME @ '' not found'') st)
               else if pc_emit cfg = SF_EMIT_LIB \<and> has_main sources
               then Some (build_failed (''A library cannot contain '' @ quote ENTRY_FILE_NAME) st)
               else (case create_build_folders sys (if pc_emit cfg = SF_EMIT_LIB then lib_folder else bin_folder) st of
                       (False, st1) \<Rightarrow> Some (build_failed ''Failed to create build directories'' st1)
                     | (True, st1) \<Rightarrow>
                         (case build_sources sys cfg sources st1 of
                            (None, st2) \<Rightarrow> Some st2
                          | (Some objects, st2) \<Rightarrow> Some (build_output sys cfg objects st2)))))"

section \<open>Cleaning and running\<close>

definition command_clean :: "nat \<Rightarrow> 'w sf_system \<Rightarrow> 'w command" where
  "command_clean n sys st =
     (case sf_delete_folder n sys ''build'' (cl_world st) of
        None \<Rightarrow> None
      | Some (True, w) \<Rightarrow> Some (log_success ''Clean done'' ''Successfully cleaned build artifacts'' (st\<lparr>cl_world := w\<rparr>))
      | Some (False, w) \<Rightarrow> Some (log_failure ''Clean failed'' ''No build artifacts found'' (st\<lparr>cl_world := w\<rparr>)))"

definition EXEC_NOT_FOUND :: nat where "EXEC_NOT_FOUND = 127"

definition run_failed :: "string \<Rightarrow> 'w cli_state \<Rightarrow> 'w cli_state" where
  "run_failed msg st = log_failure ''Run failed'' msg st"

definition command_run :: "'w sf_system \<Rightarrow> 'w cli_state \<Rightarrow> 'w cli_state" where
  "command_run sys st =
     (case sf_toml_parse_project (sy_toml sys toml_path (cl_world st)) of (parse_result, cfg) \<Rightarrow>
        if parse_result \<noteq> SF_TOML_PARSE_RESULT_OK then run_failed (''Failed to read '' @ quote toml_path) st
        else if pc_emit cfg \<noteq> SF_EMIT_BIN then run_failed ''Project does not emit a binary (build.emit)'' st
        else (case format_path PATH_BUFFER_SIZE bin_folder (pc_name cfg) [] of
                None \<Rightarrow> run_failed (''Path too long for binary '' @ quote (pc_name cfg)) st
              | Some binary_path \<Rightarrow>
                  (let not_executed = ''Failed to execute '' @ quote binary_path
                   in if \<not> sy_executable sys binary_path (cl_world st) then run_failed not_executed st
                      else (case spawn sys (args_push [] binary_path) st of
                              (None, st1) \<Rightarrow> run_failed not_executed st1
                            | (Some (Exited exit_code), st1) \<Rightarrow>
                                if exit_code = EXEC_NOT_FOUND then run_failed not_executed st1
                                else log_success ''Run done'' (quote binary_path @ '' returned '' @ dec_digits exit_code) st1
                            | (Some (Signaled signal), st1) \<Rightarrow>
                                run_failed (quote binary_path @ '' terminated by signal '' @ dec_digits signal) st1
                            | (Some Unknown_Status, st1) \<Rightarrow> st1))))"

section \<open>Dispatch\<close>

definition CMD_STRING_HELP :: string where "CMD_STRING_HELP = ''--help''"
definition CMD_STRING_VERSION :: string where "CMD_STRING_VERSION = ''--version''"
definition CMD_STRING_NEW :: string where "CMD_STRING_NEW = ''new''"
definition CMD_STRING_BUILD :: string where "CMD_STRING_BUILD = ''build''"
definition CMD_STRING_CLEAN :: string where "CMD_STRING_CLEAN = ''clean''"
definition CMD_STRING_RUN :: string where "CMD_STRING_RUN = ''run''"

definition cmd_parse :: "nat \<Rightarrow> 'w sf_system \<Rightarrow> string list \<Rightarrow> 'w cli_state \<Rightarrow> (bool \<times> 'w cli_state) option" where
  "cmd_parse n sys args st =
     (case args of
        [] \<Rightarrow> Some (False, st)
      | cmd # _ \<Rightarrow>
          (let handled = map_option (\<lambda>st1. (True, st1))
           in if cmd = CMD_STRING_HELP then handled (command_help args st)
              else if cmd = CMD_STRING_VERSION then handled (command_version args st)
              else if cmd = CMD_STRING_NEW then handled (command_new n sys args st)
              else if cmd = CMD_STRING_BUILD then handled (command_build n sys st)
              else if cmd = CMD_STRING_CLEAN then handled (command_clean n sys st)
              else if cmd = CMD_STRING_RUN then Some (True, command_run sys st)
              else Some (False, st)))"

definition EXIT_SUCCESS :: nat where "EXIT_SUCCESS = 0"
definition EXIT_FAILURE :: nat where "EXIT_FAILURE = 1"

definition cli_main :: "nat \<Rightarrow> 'w sf_system \<Rightarrow> string list \<Rightarrow> 'w cli_state \<Rightarrow> (nat \<times> 'w cli_state) option" where
  "cli_main n sys args st =
     (case cmd_parse n sys args st of
        None \<Rightarrow> None
      | Some (True, st1) \<Rightarrow> Some (EXIT_SUCCESS, st1)
      | Some (False, st1) \<Rightarrow> Some (EXIT_FAILURE, cmd_print_usage st1))"

end
