(* ===== verification/Cli_Tree.thy ===== *)
theory Cli_Tree
  imports Cli_Main "HOL-Library.Sublist" "HOL-Library.AList"
begin

text \<open>
  The file system as a tree, and the two traversals of the command line tool over it. The locale
  \<open>file_tree\<close> holds what the documentation of the calls promises of a world whose files form a
  tree; \<open>tree_system\<close> is the model of the calls on a tree itself.
\<close>

section \<open>Trees\<close>

datatype tree =
    Regular string
  | Special
  | Folder "(string \<times> tree) list"

fun tree_kind :: "tree \<Rightarrow> file_kind" where
  "tree_kind (Regular s) = Is_Regular"
| "tree_kind Special = Is_Special"
| "tree_kind (Folder es) = Is_Folder"

text \<open>The names on a path, as the system reads it.\<close>

definition path_names :: "string \<Rightarrow> string list" where
  "path_names p = filter (\<lambda>c. c \<noteq> ''.'') (path_parts [] p)"

definition file_name :: "string \<Rightarrow> bool" where
  "file_name x \<longleftrightarrow> x \<noteq> [] \<and> CHR ''/'' \<notin> set x \<and> \<not> is_dots x"

fun tree_ok :: "tree \<Rightarrow> bool" where
  "tree_ok (Folder es) \<longleftrightarrow> distinct (map fst es) \<and> (\<forall>e \<in> set es. file_name (fst e) \<and> tree_ok (snd e))"
| "tree_ok _ \<longleftrightarrow> True"

fun tree_at :: "string list \<Rightarrow> tree \<Rightarrow> tree option" where
  "tree_at [] t = Some t"
| "tree_at (x # xs) (Folder es) = (case map_of es x of None \<Rightarrow> None | Some t \<Rightarrow> tree_at xs t)"
| "tree_at (x # xs) _ = None"

text \<open>A folder with the entry \<open>x\<close> replaced, added or removed.\<close>

definition set_entry :: "string \<Rightarrow> tree option \<Rightarrow> (string \<times> tree) list \<Rightarrow> (string \<times> tree) list" where
  "set_entry x v es = (case v of None \<Rightarrow> AList.delete x es | Some t \<Rightarrow> AList.update x t es)"

fun tree_put :: "string list \<Rightarrow> tree option \<Rightarrow> tree \<Rightarrow> tree" where
  "tree_put [] v t = (case v of None \<Rightarrow> t | Some u \<Rightarrow> u)"
| "tree_put [x] v (Folder es) = Folder (set_entry x v es)"
| "tree_put (x # xs) v (Folder es) =
     (case map_of es x of None \<Rightarrow> Folder es | Some t \<Rightarrow> Folder (set_entry x (Some (tree_put xs v t)) es))"
| "tree_put (x # xs) v t = t"

lemma map_of_set_entry: "map_of (set_entry x v es) = (map_of es)(x := v)"
  by (auto simp: set_entry_def update_conv' delete_conv' split: option.splits)

lemma set_entry_twice: "set_entry x v (set_entry x (Some u) es) = set_entry x v es"
  by (auto simp: set_entry_def delete_update_same split: option.splits)

lemma tree_at_append: "tree_at (xs @ ys) t = (case tree_at xs t of None \<Rightarrow> None | Some u \<Rightarrow> tree_at ys u)"
  by (induction xs t rule: tree_at.induct) (auto split: option.splits)

lemma tree_at_put: "tree_at xs t \<noteq> None \<Longrightarrow> tree_at xs (tree_put xs (Some u) t) = Some u"
  by (induction xs "Some u" t rule: tree_put.induct) (auto simp: map_of_set_entry split: option.splits)

lemma tree_put_twice: "tree_at xs t \<noteq> None \<Longrightarrow> xs \<noteq> [] \<Longrightarrow> tree_put xs v (tree_put xs (Some u) t) = tree_put xs v t"
  by (induction xs "Some u" t rule: tree_put.induct)
     (auto simp: map_of_set_entry set_entry_twice split: option.splits)

lemma tree_put_same: "tree_at xs t = Some u \<Longrightarrow> tree_put xs (Some u) t = t"
  by (induction xs "Some u" t rule: tree_put.induct) (auto simp: set_entry_def update_triv split: option.splits)

lemma tree_put_entry:
  "tree_at xs t = Some (Folder es) \<Longrightarrow> xs \<noteq> [] \<Longrightarrow> tree_put (xs @ [x]) v t = tree_put xs (Some (Folder (set_entry x v es))) t"
  by (induction xs v t rule: tree_put.induct) (auto split: option.splits)

lemma path_names_entry:
  assumes "file_name x"
  shows "path_names (entry_path p x) = path_names p @ [x]"
proof -
  have word: "CHR ''/'' \<notin> set y \<Longrightarrow> path_parts part y = (if part @ y = [] then [] else [part @ y])" for part y
    by (induction y arbitrary: part) auto
  have "path_parts part (p @ ''/'' @ x) = path_parts part p @ path_parts [] x" for part
    by (induction p arbitrary: part) auto
  then show ?thesis using assms word [of x "[]"] by (auto simp: path_names_def entry_path_def file_name_def is_dots_def)
qed

section \<open>What the calls promise\<close>

text \<open>\<open>view\<close> is the tree of the files of a world.\<close>

locale file_tree =
  fixes sys :: "'w sf_system" and view :: "'w \<Rightarrow> tree"
  assumes entries: "tree_ok (view w) \<Longrightarrow> tree_at (path_names p) (view w) = Some (Folder es) \<Longrightarrow>
      \<exists>names. sy_entries sys p w = Some names \<and> filter (\<lambda>x. \<not> is_dots x) names = map fst es"
    and kind: "tree_at (path_names p) (view w) = Some t \<Longrightarrow> sy_kind sys p w = Some (tree_kind t)"
    and remove: "tree_at (path_names p) (view w) = Some t \<Longrightarrow> tree_kind t \<noteq> Is_Folder \<Longrightarrow>
      \<exists>w'. sy_remove sys p w = (True, w') \<and> view w' = tree_put (path_names p) None (view w)"
    and rmdir: "tree_at (path_names p) (view w) = Some (Folder []) \<Longrightarrow> path_names p \<noteq> [] \<Longrightarrow>
      \<exists>w'. sy_rmdir sys p w = (True, w') \<and> view w' = tree_put (path_names p) None (view w)"

section \<open>Collecting\<close>

text \<open>The paths of the source files of a folder and of the folders below it, in the order of the entries.\<close>

fun slfr_below :: "string \<Rightarrow> tree \<Rightarrow> string list" where
  "slfr_below p (Folder es) =
     concat (map (\<lambda>(x, t). case t of
         Regular s \<Rightarrow> if has_slfr_extension x then [entry_path p x] else []
       | Special \<Rightarrow> []
       | Folder es' \<Rightarrow> slfr_below (entry_path p x) t) es)"
| "slfr_below p t = []"

fun tree_depth :: "tree \<Rightarrow> nat" where
  "tree_depth (Folder es) = Suc (foldr max (map (\<lambda>e. tree_depth (snd e)) es) 0)"
| "tree_depth t = 0"

lemma foldr_max_le: "x \<in> set xs \<Longrightarrow> x \<le> foldr max xs (0::nat)"
  by (induction xs) auto

lemma entry_depth: "(x, t) \<in> set es \<Longrightarrow> tree_depth t < tree_depth (Folder es)"
  using foldr_max_le [of "tree_depth t" "map (\<lambda>e. tree_depth (snd e)) es"] by force

lemma tree_at_entry:
  assumes "tree_at (path_names p) r = Some (Folder es)" "tree_ok (Folder es)" "(x, t) \<in> set es"
  shows "tree_at (path_names (entry_path p x)) r = Some t"
  using assms by (auto simp: path_names_entry tree_at_append)

lemma tree_at_ok: "tree_ok r \<Longrightarrow> tree_at xs r = Some t \<Longrightarrow> tree_ok t"
  by (induction xs r rule: tree_at.induct) (fastforce split: option.splits dest: map_of_SomeD)+

context file_tree
begin

lemma collect_entries_skip:
  "collect_entries collect sys p w names success files =
   collect_entries collect sys p w (filter (\<lambda>x. \<not> is_dots x) names) success files"
  by (induction names arbitrary: success files) (simp_all add: Let_def split: option.splits file_kind.splits)

lemma collect_tree:
  "tree_at (path_names p) (view w) = Some (Folder es) \<Longrightarrow> tree_ok (view w) \<Longrightarrow> tree_depth (Folder es) \<le> n \<Longrightarrow>
   collect_slfr_files n sys w p files = Some (True, files @ slfr_below p (Folder es))"
proof (induction n arbitrary: p es files)
  case (Suc n)
  have ok: "tree_ok (Folder es)" using tree_at_ok Suc.prems by blast
  obtain names where names: "sy_entries sys p w = Some names" "filter (\<lambda>x. \<not> is_dots x) names = map fst es"
    using entries [OF Suc.prems(2,1)] by blast
  have "collect_entries (collect_slfr_files n sys w) sys p w (map fst es') True files = Some (True, files @ slfr_below p (Folder es'))"
    if "set es' \<subseteq> set es" for es'
    using that
  proof (induction es' arbitrary: files)
    case (Cons e es')
    obtain x t where e: "e = (x, t)" by fastforce
    with Cons.prems have mem: "(x, t) \<in> set es" by simp
    have dots: "\<not> is_dots x" using ok mem by (auto simp: file_name_def)
    note at = tree_at_entry [OF Suc.prems(1) ok mem]
    have "collect_slfr_files n sys w (entry_path p x) files = Some (True, files @ slfr_below (entry_path p x) t)"
      if "t = Folder fs" for fs
      using Suc.IH [of "entry_path p x" fs] at entry_depth [OF mem] Suc.prems(2,3) that by auto
    then show ?case using Cons kind [OF at] dots by (cases t) (auto simp: e Let_def)
  qed simp
  from this [of es] show ?case using names by (simp add: collect_entries_skip [of _ _ _ names])
qed simp

end

section \<open>Deleting\<close>

fun paths_fit :: "string \<Rightarrow> tree \<Rightarrow> bool" where
  "paths_fit p (Folder es) \<longleftrightarrow>
     (\<forall>e \<in> set es. length (entry_path p (fst e)) < PATH_MAX \<and> paths_fit (entry_path p (fst e)) (snd e))"
| "paths_fit p t \<longleftrightarrow> True"

lemma set_entry_ok:
  assumes "tree_ok (Folder es)" "\<forall>u. v = Some u \<longrightarrow> tree_ok u" "map_of es x \<noteq> None"
  shows "tree_ok (Folder (set_entry x v es))"
proof (cases v)
  case None
  have "set (AList.delete x es) \<subseteq> set es" by (induction es) auto
  then show ?thesis using None assms(1) distinct_delete [of es x] by (auto simp: set_entry_def)
next
  case (Some u)
  have "file_name x" using assms(1,3) by (auto dest!: map_of_SomeD)
  moreover have "set (AList.update x u es) \<subseteq> insert (x, u) (set es)" by (induction es) auto
  ultimately show ?thesis using Some assms(1,2) distinct_update [of es x u] by (auto simp: set_entry_def)
qed

lemma tree_put_ok:
  "tree_ok r \<Longrightarrow> \<forall>u. v = Some u \<longrightarrow> tree_ok u \<Longrightarrow> tree_at xs r \<noteq> None \<Longrightarrow> tree_ok (tree_put xs v r)"
proof (induction xs v r rule: tree_put.induct)
  case (2 x v es)
  then show ?case using set_entry_ok [of es v x] by (auto split: option.splits)
next
  case (3 x y xs v es)
  then obtain t where t: "map_of es x = Some t" by (auto split: option.splits)
  then have "tree_ok t" using 3(2) by (auto dest!: map_of_SomeD)
  then show ?case using 3 t set_entry_ok [of es "Some (tree_put (y # xs) v t)" x] by auto
qed (auto split: option.splits)

context file_tree
begin

lemma delete_entries_skip:
  "delete_entries delete sys p names success w = delete_entries delete sys p (filter (\<lambda>x. \<not> is_dots x) names) success w"
  by (induction names arbitrary: success w) (simp_all add: Let_def split: option.splits file_kind.splits prod.splits)

text \<open>The first entry is deleted, whatever it is.\<close>

lemma delete_first:
  assumes at: "tree_at (path_names p) (view w) = Some (Folder ((x, t) # es))" "path_names p \<noteq> []" "tree_ok (view w)"
    and fits: "length (entry_path p x) < PATH_MAX"
    and folder: "\<And>fs. t = Folder fs \<Longrightarrow>
      \<exists>w'. delete (entry_path p x) w = Some (True, w') \<and> view w' = tree_put (path_names (entry_path p x)) None (view w)"
  shows "\<exists>w'. delete_entries delete sys p (x # names) success w = delete_entries delete sys p names success w' \<and>
    view w' = tree_put (path_names p) (Some (Folder es)) (view w)"
proof -
  have ok: "tree_ok (Folder ((x, t) # es))" using tree_at_ok [OF at(3,1)] .
  then have x: "file_name x" "x \<notin> fst ` set es" "\<not> is_dots x" by (auto simp: file_name_def)
  have here: "tree_at (path_names (entry_path p x)) (view w) = Some t" using tree_at_entry [OF at(1) ok] by simp
  have gone: "tree_put (path_names (entry_path p x)) None (view w) = tree_put (path_names p) (Some (Folder es)) (view w)"
    using tree_put_entry [OF at(1,2)] x(2) by (simp add: path_names_entry [OF x(1)] set_entry_def)
  show ?thesis
  proof (cases "tree_kind t = Is_Folder")
    case True
    then obtain fs where "t = Folder fs" by (cases t) simp_all
    then show ?thesis using folder kind [OF here] fits x(3) gone by (auto simp: Let_def)
  next
    case False
    then show ?thesis using remove [OF here] kind [OF here] fits x(3) gone
      by (cases "tree_kind t") (auto simp: Let_def sf_delete_file_def)
  qed
qed

lemma delete_tree:
  "tree_at (path_names p) (view w) = Some (Folder es) \<Longrightarrow> path_names p \<noteq> [] \<Longrightarrow> tree_ok (view w) \<Longrightarrow>
   paths_fit p (Folder es) \<Longrightarrow> tree_depth (Folder es) \<le> n \<Longrightarrow>
   \<exists>w'. sf_delete_folder n sys p w = Some (True, w') \<and> view w' = tree_put (path_names p) None (view w)"
proof (induction n arbitrary: p es w)
  case (Suc n)
  obtain names where names: "sy_entries sys p w = Some names" "filter (\<lambda>x. \<not> is_dots x) names = map fst es"
    using entries [OF Suc.prems(3,1)] by blast
  have "\<exists>w'. delete_entries (sf_delete_folder n sys) sys p (map fst es') True w1 = Some (True, w') \<and>
      view w' = tree_put (path_names p) (Some (Folder [])) (view w1)"
    if "set es' \<subseteq> set es" "tree_at (path_names p) (view w1) = Some (Folder es')" "tree_ok (view w1)" for es' w1
    using that
  proof (induction es' arbitrary: w1)
    case Nil
    then show ?case by (simp add: tree_put_same)
  next
    case (Cons e es')
    obtain x t where e: "e = (x, t)" by fastforce
    with Cons.prems have mem: "(x, t) \<in> set es" and at: "tree_at (path_names p) (view w1) = Some (Folder ((x, t) # es'))" by simp_all
    have ok: "tree_ok (Folder ((x, t) # es'))" using tree_at_ok [OF Cons.prems(3) at] .
    have fits: "length (entry_path p x) < PATH_MAX" "paths_fit (entry_path p x) t" using Suc.prems(4) mem by auto
    have x: "file_name x" using ok by simp
    have sub: "\<exists>w'. sf_delete_folder n sys (entry_path p x) w1 = Some (True, w') \<and> view w' = tree_put (path_names (entry_path p x)) None (view w1)"
      if t: "t = Folder fs" for fs
    proof (rule Suc.IH)
      show "tree_at (path_names (entry_path p x)) (view w1) = Some (Folder fs)" using tree_at_entry [OF at ok] t by simp
      show "path_names (entry_path p x) \<noteq> []" by (simp add: path_names_entry [OF x])
      show "tree_depth (Folder fs) \<le> n" using entry_depth [OF mem] Suc.prems(5) t by simp
    qed (use Cons.prems(3) fits(2) t in simp_all)
    obtain w2 where w2: "delete_entries (sf_delete_folder n sys) sys p (x # map fst es') True w1 =
        delete_entries (sf_delete_folder n sys) sys p (map fst es') True w2"
      "view w2 = tree_put (path_names p) (Some (Folder es')) (view w1)"
      using delete_first [where delete = "sf_delete_folder n sys", OF at Suc.prems(2) Cons.prems(3) fits(1) sub] by blast
    have "tree_at (path_names p) (view w2) = Some (Folder es')" "tree_ok (view w2)"
      using w2(2) at ok tree_at_put tree_put_ok Cons.prems(3) by auto
    from Cons.IH [OF _ this] Cons.prems(1) obtain w' where "delete_entries (sf_delete_folder n sys) sys p (map fst es') True w2 = Some (True, w')"
      "view w' = tree_put (path_names p) (Some (Folder [])) (view w2)" by auto
    then show ?case using w2 at Suc.prems(2) by (auto simp: e tree_put_twice)
  qed
  from this [of es w] obtain w1 where w1: "delete_entries (sf_delete_folder n sys) sys p names True w = Some (True, w1)"
    "view w1 = tree_put (path_names p) (Some (Folder [])) (view w)"
    using Suc.prems(1,3) names(2) by (auto simp: delete_entries_skip [of _ _ names])
  then have "tree_at (path_names p) (view w1) = Some (Folder [])" using tree_at_put Suc.prems(1) by auto
  from rmdir [OF this Suc.prems(2)] w1 show ?case
    using names(1) Suc.prems(1,2) by (auto simp: tree_put_twice)
qed simp

end

section \<open>The calls on a tree\<close>

definition tree_mkdir :: "string \<Rightarrow> tree \<Rightarrow> mkdir_result \<times> tree" where
  "tree_mkdir p t =
     (case tree_at (path_names p) t of
        Some _ \<Rightarrow> (Exists, t)
      | None \<Rightarrow>
          (case tree_at (butlast (path_names p)) t of
             Some (Folder es) \<Rightarrow> (Created, tree_put (path_names p) (Some (Folder [])) t)
           | _ \<Rightarrow> (Failed, t)))"

definition tree_append :: "string \<Rightarrow> tree \<Rightarrow> bool \<times> tree" where
  "tree_append p t =
     (case tree_at (path_names p) t of
        Some (Regular s) \<Rightarrow> (True, t)
      | Some _ \<Rightarrow> (False, t)
      | None \<Rightarrow>
          (case tree_at (butlast (path_names p)) t of
             Some (Folder es) \<Rightarrow> (True, tree_put (path_names p) (Some (Regular [])) t)
           | _ \<Rightarrow> (False, t)))"

definition tree_change :: "(tree \<Rightarrow> tree option option) \<Rightarrow> string \<Rightarrow> tree \<Rightarrow> bool \<times> tree" where
  "tree_change f p t =
     (case tree_at (path_names p) t of
        None \<Rightarrow> (False, t)
      | Some u \<Rightarrow> (case f u of None \<Rightarrow> (False, t) | Some v \<Rightarrow> (True, tree_put (path_names p) v t)))"

definition tree_write :: "string \<Rightarrow> string \<Rightarrow> tree \<Rightarrow> write_result \<times> tree" where
  "tree_write p content t =
     (case tree_change (\<lambda>u. case u of Regular s \<Rightarrow> Some (Some (Regular (s @ content))) | _ \<Rightarrow> None) p t of
        (ok, t1) \<Rightarrow> (if ok then Written (length content) else Write_Failed, t1))"

text \<open>The system whose world is a tree. What a started command does to the files and how the text of
  the project file is read are parameters.\<close>

definition tree_system ::
  "(string list \<Rightarrow> tree \<Rightarrow> wait_status option \<times> tree) \<Rightarrow> (string \<Rightarrow> toml_table option) \<Rightarrow> tree sf_system" where
  "tree_system start toml =
     \<lparr>sy_mkdir = tree_mkdir,
      sy_is_folder = (\<lambda>p t. case tree_at (path_names p) t of Some (Folder es) \<Rightarrow> True | _ \<Rightarrow> False),
      sy_entries = (\<lambda>p t. case tree_at (path_names p) t of Some (Folder es) \<Rightarrow> Some (''.'' # ''..'' # map fst es) | _ \<Rightarrow> None),
      sy_kind = (\<lambda>p t. map_option tree_kind (tree_at (path_names p) t)),
      sy_rmdir = tree_change (\<lambda>u. if u = Folder [] then Some None else None),
      sy_remove = tree_change (\<lambda>u. case u of Folder (e # es) \<Rightarrow> None | _ \<Rightarrow> Some None),
      sy_append = tree_append,
      sy_truncate = tree_change (\<lambda>u. case u of Regular s \<Rightarrow> Some (Some (Regular [])) | _ \<Rightarrow> None),
      sy_write = tree_write,
      sy_close = (\<lambda>p t. (True, t)),
      sy_read = (\<lambda>p t. case tree_at (path_names p) t of Some (Regular s) \<Rightarrow> Some s | _ \<Rightarrow> None),
      sy_toml = (\<lambda>p t. case tree_at (path_names p) t of Some (Regular s) \<Rightarrow> toml s | _ \<Rightarrow> None),
      sy_spawn = start,
      sy_executable = (\<lambda>p t. case tree_at (path_names p) t of Some (Regular s) \<Rightarrow> True | _ \<Rightarrow> False)\<rparr>"

interpretation on_tree: file_tree "tree_system start toml" "\<lambda>t. t"
proof unfold_locales
  fix t :: tree and p es
  assume "tree_ok t" "tree_at (path_names p) t = Some (Folder es)"
  moreover from tree_at_ok [OF this] have "filter (\<lambda>x. \<not> is_dots x) (map fst es) = map fst es"
    by (auto simp: filter_id_conv file_name_def)
  ultimately show "\<exists>names. sy_entries (tree_system start toml) p t = Some names \<and> filter (\<lambda>x. \<not> is_dots x) names = map fst es"
    by (simp add: tree_system_def is_dots_def)
next
  fix p and t u :: tree
  assume "tree_at (path_names p) t = Some u" "tree_kind u \<noteq> Is_Folder"
  then show "\<exists>w'. sy_remove (tree_system start toml) p t = (True, w') \<and> w' = tree_put (path_names p) None t"
    by (cases u) (simp_all add: tree_system_def tree_change_def)
qed (simp_all add: tree_system_def tree_change_def)

section \<open>Traversals of a tree\<close>

text \<open>C12: The sources of a project are found. On a tree of files, collecting the folder \<open>p\<close> returns, with enough
  depth for the folders below, and finds exactly the regular files with the extension \<^verbatim>\<open>.slfr\<close> of
  the folder and of the folders below it, in the order of the entries, and nothing behind links.\<close>

theorem collect_finds_sources:
  assumes "tree_ok t" "tree_at (path_names p) t = Some (Folder es)" "tree_depth (Folder es) \<le> n"
  shows "collect_slfr_files n (tree_system start toml) t p files = Some (True, files @ slfr_below p (Folder es))"
  using on_tree.collect_tree [OF assms(2,1,3)] .

definition sample_tree :: tree where
  "sample_tree = Folder [(''src'', Folder [(''main.slfr'', Regular []), (''lib'', Folder [(''io.slfr'', Regular []), (''a.txt'', Regular [])]),
     (''old.slfr'', Special)]), (''build'', Folder [(''asm'', Folder [(''main.asm'', Regular [])]), (''x'', Special)])]"

lemma sample_tree_ok: "tree_ok sample_tree"
  by (simp add: sample_tree_def file_name_def is_dots_def)

lemma collect_finds_sources_witness:
  "collect_slfr_files 3 (tree_system (\<lambda>args t. (None, t)) (\<lambda>_. None)) sample_tree ''src'' [] =
     Some (True, [''src/main.slfr'', ''src/lib/io.slfr''])"
proof -
  have at: "tree_at (path_names ''src'') sample_tree = Some (Folder [(''main.slfr'', Regular []),
      (''lib'', Folder [(''io.slfr'', Regular []), (''a.txt'', Regular [])]), (''old.slfr'', Special)])"
    by (simp add: sample_tree_def path_names_def)
  show ?thesis
    using collect_finds_sources [OF sample_tree_ok at, of 3 "\<lambda>args t. (None, t)" "\<lambda>_. None" "[]"]
    by (simp add: has_slfr_extension_def c_strrchr_def entry_path_def)
qed

text \<open>C13: Cleaning removes the build. On a tree of files in which \<^verbatim>\<open>build\<close> is a folder, \<^verbatim>\<open>sulfur clean\<close> reports
  success and removes \<^verbatim>\<open>build\<close> with everything below it, and nothing else, provided that the
  depth suffices and no path below is as long as \<^verbatim>\<open>PATH_MAX\<close>.\<close>

theorem clean_removes_build:
  assumes "cl_world st = Folder fs" "tree_ok (Folder fs)" "map_of fs ''build'' = Some (Folder es)"
    "paths_fit ''build'' (Folder es)" "tree_depth (Folder es) \<le> n"
  shows "command_clean n (tree_system start toml) st =
    Some (log_success ''Clean done'' ''Successfully cleaned build artifacts''
      (st\<lparr>cl_world := Folder (filter (\<lambda>e. fst e \<noteq> ''build'') fs)\<rparr>))"
proof -
  have names: "path_names ''build'' = [''build'']" by (simp add: path_names_def)
  have "AList.delete x fs = filter (\<lambda>e. fst e \<noteq> x) fs" for x by (induction fs) auto
  then have gone: "tree_put (path_names ''build'') None (Folder fs) = Folder (filter (\<lambda>e. fst e \<noteq> ''build'') fs)"
    unfolding names by (simp add: set_entry_def)
  have at: "tree_at (path_names ''build'') (Folder fs) = Some (Folder es)" unfolding names using assms(3) by simp
  have "path_names ''build'' \<noteq> []" unfolding names by simp
  from on_tree.delete_tree [OF at this assms(2,4,5), of start toml] gone show ?thesis
    by (simp add: command_clean_def assms(1))
qed

lemma clean_removes_build_witness:
  "command_clean 3 (tree_system (\<lambda>args t. (None, t)) (\<lambda>_. None)) \<lparr>cl_world = sample_tree, cl_started = [], cl_messages = []\<rparr> =
     Some \<lparr>cl_world = Folder [(''src'', Folder [(''main.slfr'', Regular []), (''lib'', Folder [(''io.slfr'', Regular []), (''a.txt'', Regular [])]),
             (''old.slfr'', Special)])],
           cl_started = [], cl_messages = [Success ''Clean done'' ''Successfully cleaned build artifacts'']\<rparr>"
  using clean_removes_build [where st = "\<lparr>cl_world = sample_tree, cl_started = [], cl_messages = []\<rparr>" and n = 3
      and start = "\<lambda>args t. (None, t)" and toml = "\<lambda>_. None", OF _ sample_tree_ok [unfolded sample_tree_def]]
  by (simp add: sample_tree_def entry_path_def PATH_MAX_def log_success_def say_def)

end
