(* ===== verification/Cli_Facts.thy ===== *)
theory Cli_Facts
  imports Cli_Tree Driver_Facts
begin

text \<open>
  What a build does: the commands it starts are those of a plan, in its order, up to the first that
  fails, and success is reported exactly when the plan is done.
\<close>

section \<open>Extensions\<close>

lemma c_strrchr_append: "c \<notin> set ys \<Longrightarrow> c_strrchr (xs @ c # ys) c = Some (length xs)"
proof -
  assume "c \<notin> set ys"
  then have "takeWhile (\<lambda>d. d \<noteq> c) (rev ys @ c # rev xs) = rev ys" by (subst takeWhile_append2) auto
  then show ?thesis by (simp add: c_strrchr_def)
qed

lemma c_strrchr_split: "c_strrchr s c = Some i \<Longrightarrow> \<exists>xs ys. s = xs @ c # ys \<and> c \<notin> set ys \<and> i = length xs"
proof -
  assume i: "c_strrchr s c = Some i"
  then have "c \<in> set s" by (simp add: c_strrchr_def split: if_splits)
  then obtain xs ys where "s = xs @ c # ys" "c \<notin> set ys" by (meson split_list_last)
  then show ?thesis using i c_strrchr_append [of c ys xs] by auto
qed

lemma drop_strrchr: "(case c_strrchr p c of None \<Rightarrow> False | Some i \<Rightarrow> drop i p = c # ys) \<longleftrightarrow> suffix (c # ys) p" if "c \<notin> set ys"
proof
  assume "suffix (c # ys) p"
  then obtain xs where "p = xs @ c # ys" by (auto simp: suffix_def)
  then show "case c_strrchr p c of None \<Rightarrow> False | Some i \<Rightarrow> drop i p = c # ys" using c_strrchr_append [OF that] by simp
qed (auto dest: c_strrchr_split simp: suffix_def split: option.splits)

lemma slfr_extension_iff: "has_slfr_extension p \<longleftrightarrow> suffix ''.slfr'' p"
  unfolding has_slfr_extension_def by (rule drop_strrchr) simp

lemma source_stem_append: "source_stem (p @ ''.slfr'') = Some p"
  using c_strrchr_append [of "CHR ''.''" "''slfr''" p] by (simp add: source_stem_def SOURCE_EXTENSION_def)

section \<open>Sources\<close>

text \<open>A file below a directory, with the extension of a source.\<close>

definition source_below :: "string \<Rightarrow> string \<Rightarrow> bool" where
  "source_below dir f \<longleftrightarrow> prefix (dir @ ''/'') f \<and> suffix ''.slfr'' f"

lemma source_below_entry: "source_below (entry_path dir name) f \<Longrightarrow> source_below dir f"
  by (auto simp: source_below_def entry_path_def prefix_def)

lemma collect_entries_below:
  assumes "collect_entries collect sys dir w names success files = Some (ok, files')"
    "\<And>name fs r fs'. collect (entry_path dir name) fs = Some (r, fs') \<Longrightarrow>
       \<exists>more. fs' = fs @ more \<and> (\<forall>f \<in> set more. source_below (entry_path dir name) f)"
  shows "\<exists>more. files' = files @ more \<and> (\<forall>f \<in> set more. source_below dir f)"
  using assms(1)
proof (induction names arbitrary: success files)
  case (Cons name names)
  consider success1 where "collect_entries collect sys dir w names success1 files = Some (ok, files')"
    | r fs' success1 where "collect (entry_path dir name) files = Some (r, fs')"
        "collect_entries collect sys dir w names success1 fs' = Some (ok, files')"
    | success1 where "has_slfr_extension name"
        "collect_entries collect sys dir w names success1 (files @ [entry_path dir name]) = Some (ok, files')"
    using Cons.prems by (auto simp: Let_def split: if_splits option.splits file_kind.splits)
  then show ?case
  proof cases
    case 2
    then obtain more more' where "fs' = files @ more" "\<forall>f \<in> set more. source_below (entry_path dir name) f"
      "files' = fs' @ more'" "\<forall>f \<in> set more'. source_below dir f"
      using assms(2) Cons.IH by meson
    then show ?thesis using source_below_entry by (intro exI [of _ "more @ more'"]) auto
  next
    case 3
    then have "source_below dir (entry_path dir name)"
      by (auto simp: source_below_def entry_path_def slfr_extension_iff suffix_def)
    with Cons.IH [OF 3(2)] show ?thesis by auto
  qed (use Cons.IH in blast)
qed simp

lemma collected_below:
  "collect_slfr_files n sys w dir files = Some (ok, files') \<Longrightarrow>
   \<exists>more. files' = files @ more \<and> (\<forall>f \<in> set more. source_below dir f)"
proof (induction n arbitrary: dir files ok files')
  case (Suc n)
  show ?case
  proof (cases "sy_entries sys dir w")
    case (Some names)
    with Suc.prems have "collect_entries (collect_slfr_files n sys w) sys dir w names True files = Some (ok, files')" by simp
    then show ?thesis by (rule collect_entries_below) (rule Suc.IH)
  qed (use Suc.prems in simp)
qed simp

lemma suffix_after:
  assumes "xs @ r = z @ e" "xs \<noteq> []" "last xs \<notin> set e"
  shows "\<exists>stem. r = stem @ e"
proof -
  from assms(1) obtain us where "xs = z @ us \<and> us @ r = e \<or> xs @ us = z \<and> r = us @ e"
    by (auto simp: append_eq_append_conv2)
  then show ?thesis
  proof
    assume us: "xs = z @ us \<and> us @ r = e"
    then have "us = []" using assms(3) by (cases us rule: rev_cases) auto
    then show ?thesis using us by (intro exI [of _ "[]"]) simp
  qed blast
qed

lemma relative_below:
  assumes "source_below ''src'' f"
  shows "\<exists>stem. relative_source f = stem @ ''.slfr'' \<and> f = ''src/'' @ stem @ ''.slfr''"
proof -
  obtain r z where r: "f = ''src/'' @ r" "''src/'' @ r = z @ ''.slfr''"
    using assms by (auto simp: source_below_def prefix_def suffix_def)
  have "\<exists>stem. r = stem @ ''.slfr''" by (rule suffix_after [OF r(2)]) simp_all
  then show ?thesis using r(1) by (auto simp: relative_source_def)
qed

section \<open>The plan of a build\<close>

definition asm_path_of :: "string \<Rightarrow> string" where
  "asm_path_of stem = asm_folder @ ''/'' @ stem @ ''.asm''"

definition obj_path_of :: "string \<Rightarrow> string" where
  "obj_path_of stem = obj_folder @ ''/'' @ stem @ ''.o''"

definition source_of :: "string \<Rightarrow> string" where
  "source_of stem = ''src/'' @ stem @ ''.slfr''"

lemma relative_source_of: "relative_source (source_of stem) = stem @ ''.slfr''"
  by (simp add: relative_source_def source_of_def)

text \<open>The commands for the source \<^verbatim>\<open>src/\<close>\<open>stem\<close>\<^verbatim>\<open>.slfr\<close>: every source but the entry file is a module.\<close>

definition stem_plan :: "sf_project_cfg \<Rightarrow> string \<Rightarrow> string list list" where
  "stem_plan cfg stem =
     compile_args cfg (source_of stem) (asm_path_of stem) (stem \<noteq> ''main'') #
     (if pc_emit cfg = SF_EMIT_ASM then [] else [assemble_args cfg (asm_path_of stem) (obj_path_of stem)])"

definition output_plan :: "sf_project_cfg \<Rightarrow> string list \<Rightarrow> string list list" where
  "output_plan cfg objects =
     (case pc_emit cfg of
        SF_EMIT_BIN \<Rightarrow> [link_args cfg objects (bin_folder @ ''/'' @ pc_name cfg)]
      | SF_EMIT_LIB \<Rightarrow> [archive_args objects (lib_folder @ ''/lib'' @ pc_name cfg @ ''.a'')]
      | _ \<Rightarrow> [])"

definition stem_objects :: "sf_project_cfg \<Rightarrow> string \<Rightarrow> string list" where
  "stem_objects cfg stem = (if pc_emit cfg = SF_EMIT_ASM then [] else [obj_path_of stem])"

definition build_plan :: "sf_project_cfg \<Rightarrow> string list \<Rightarrow> string list list" where
  "build_plan cfg stems = concat (map (stem_plan cfg) stems) @ output_plan cfg (concat (map (stem_objects cfg) stems))"

text \<open>Commands that were started along a plan, none after one that failed.\<close>

fun follows_plan :: "string list list \<Rightarrow> (string list \<times> bool) list \<Rightarrow> bool" where
  "follows_plan plan [] \<longleftrightarrow> True"
| "follows_plan [] (command # rest) \<longleftrightarrow> False"
| "follows_plan (args # plan) ((args', ok) # rest) \<longleftrightarrow> args' = args \<and> (if ok then follows_plan plan rest else rest = [])"

definition all_done :: "string list list \<Rightarrow> (string list \<times> bool) list" where
  "all_done plan = map (\<lambda>args. (args, True)) plan"

lemma all_done_simps [simp]: "all_done [] = []" "all_done (a # p) = (a, True) # all_done p"
  "all_done (p @ q) = all_done p @ all_done q"
  by (simp_all add: all_done_def)

lemma follows_all_done [simp]: "follows_plan p (all_done p)"
  by (induction p) auto

lemma follows_length: "follows_plan p d \<Longrightarrow> length d \<le> length p"
  by (induction p d rule: follows_plan.induct) (auto split: if_splits)

lemma follows_append: "follows_plan p d \<Longrightarrow> follows_plan (p @ q) d"
  by (induction p d rule: follows_plan.induct) (auto split: if_splits)

lemma follows_done_append: "follows_plan (p @ q) (all_done p @ d) \<longleftrightarrow> follows_plan q d"
  by (induction p) auto

lemma all_done_inject: "all_done p @ d = all_done p @ d' \<longleftrightarrow> d = d'"
  by simp

text \<open>A step of the build starts commands along its plan; it succeeds exactly when all are done.\<close>

definition performs :: "'w cli_state \<Rightarrow> 'w cli_state \<Rightarrow> string list list \<Rightarrow> bool \<Rightarrow> bool" where
  "performs st st' plan ok \<longleftrightarrow>
     (\<exists>done. cl_started st' = cl_started st @ done \<and> follows_plan plan done \<and> (ok \<longleftrightarrow> done = all_done plan))"

lemma performs_none: "cl_started st' = cl_started st \<Longrightarrow> plan \<noteq> [] \<Longrightarrow> performs st st' plan False"
  by (auto simp: performs_def all_done_def)

lemma performs_failed:
  assumes "performs st st' p False"
  shows "performs st st' (p @ q) False"
proof -
  obtain d where d: "cl_started st' = cl_started st @ d" "follows_plan p d" "d \<noteq> all_done p"
    using assms by (auto simp: performs_def)
  have "d \<noteq> all_done (p @ q)"
  proof
    assume "d = all_done (p @ q)"
    moreover from this have "length q = 0" using follows_length [OF d(2)] by (simp add: all_done_def)
    ultimately show False using d(3) by simp
  qed
  then show ?thesis using d(1) follows_append [OF d(2)] by (auto simp: performs_def)
qed

lemma performs_then: "performs st st1 p True \<Longrightarrow> performs st1 st2 q ok \<Longrightarrow> performs st st2 (p @ q) ok"
  by (auto simp: performs_def follows_done_append)

lemma performs_same: "performs st st1 plan ok \<Longrightarrow> cl_started st2 = cl_started st1 \<Longrightarrow> performs st st2 plan ok"
  by (simp add: performs_def)

lemma performs_from: "cl_started st = cl_started st' \<Longrightarrow> performs st st1 plan ok \<longleftrightarrow> performs st' st1 plan ok"
  by (simp add: performs_def)

lemma say_simps [simp]:
  "cl_started (say m st) = cl_started st" "cl_messages (say m st) = cl_messages st @ [m]" "cl_world (say m st) = cl_world st"
  by (simp_all add: say_def)

lemma log_simps [simp]:
  "log_failure title msg st = say (Failure title msg) st" "log_success title msg st = say (Success title msg) st"
  "log_action title msg st = say (Action title msg) st" "build_failed msg st = say (Failure ''Build failed'' msg) st"
  by (simp_all add: log_failure_def log_success_def log_action_def build_failed_def)

lemma run_ok_performs: "run_ok sys args st = (ok, st') \<Longrightarrow> performs st st' [args] ok"
  by (auto simp: run_ok_def spawn_def performs_def split: prod.splits)

lemma call_system_started: "call_system f st = (ok, st') \<Longrightarrow> cl_started st' = cl_started st"
  by (auto simp: call_system_def split: prod.splits)

lemma run_ok_messages: "run_ok sys args st = (ok, st') \<Longrightarrow> cl_messages st' = cl_messages st"
  by (auto simp: run_ok_def spawn_def split: prod.splits)

lemma call_system_messages: "call_system f st = (ok, st') \<Longrightarrow> cl_messages st' = cl_messages st"
  by (auto simp: call_system_def split: prod.splits)

text \<open>Messages of a step that goes on, and of one that ends the build.\<close>

definition quiet :: "'w cli_state \<Rightarrow> 'w cli_state \<Rightarrow> bool" where
  "quiet st st' \<longleftrightarrow> (\<exists>ms. cl_messages st' = cl_messages st @ ms \<and> (\<forall>m \<in> set ms. \<exists>a b. m = Action a b))"

definition fails :: "'w cli_state \<Rightarrow> 'w cli_state \<Rightarrow> bool" where
  "fails st st' \<longleftrightarrow> (\<exists>ms msg. cl_messages st' = cl_messages st @ ms @ [Failure ''Build failed'' msg] \<and>
     (\<forall>m \<in> set ms. \<exists>a b. m = Action a b))"

definition succeeds :: "'w cli_state \<Rightarrow> 'w cli_state \<Rightarrow> bool" where
  "succeeds st st' \<longleftrightarrow> (\<exists>ms msg. cl_messages st' = cl_messages st @ ms @ [Success ''Build done'' msg] \<and>
     (\<forall>m \<in> set ms. \<exists>a b. m = Action a b))"

lemma quiet_trans: "quiet st st1 \<Longrightarrow> quiet st1 st2 \<Longrightarrow> quiet st st2"
  by (auto simp: quiet_def)

lemma quiet_fails: "quiet st st1 \<Longrightarrow> fails st1 st2 \<Longrightarrow> fails st st2"
  by (force simp: quiet_def fails_def)

lemma quiet_succeeds: "quiet st st1 \<Longrightarrow> succeeds st1 st2 \<Longrightarrow> succeeds st st2"
  by (force simp: quiet_def succeeds_def)

lemma quiet_same: "cl_messages st' = cl_messages st \<Longrightarrow> quiet st st'"
  by (simp add: quiet_def)

lemma quiet_say: "quiet st st' \<Longrightarrow> quiet st (say (Action a b) st')"
  by (auto simp: quiet_def)

lemma fails_say: "quiet st st' \<Longrightarrow> fails st (say (Failure ''Build failed'' msg) st')"
  by (auto simp: quiet_def fails_def)

lemma succeeds_say: "quiet st st' \<Longrightarrow> succeeds st (say (Success ''Build done'' msg) st')"
  by (auto simp: quiet_def succeeds_def)

lemma format_path_some: "format_path n folder name ext = Some p \<longleftrightarrow> p = folder @ ''/'' @ name @ ext \<and> length p < n"
  by (auto simp: format_path_def Let_def)

lemma entry_file_stem: "stem @ ''.slfr'' = ENTRY_FILE_NAME \<longleftrightarrow> stem = ''main''"
proof -
  have "ENTRY_FILE_NAME = ''main'' @ ''.slfr''" by (simp add: ENTRY_FILE_NAME_def)
  then show ?thesis by (metis append_same_eq)
qed

text \<open>What the steps of the build do: \<open>result\<close> tells whether the build goes on.\<close>

definition build_step :: "'w cli_state \<Rightarrow> 'w cli_state \<Rightarrow> string list list \<Rightarrow> bool \<Rightarrow> bool" where
  "build_step st st' plan result \<longleftrightarrow> performs st st' plan result \<and> (if result then quiet st st' else fails st st')"

lemma build_step_failed: "build_step st st' p False \<Longrightarrow> build_step st st' (p @ q) False"
  by (simp add: build_step_def performs_failed)

lemma build_step_then: "build_step st st1 p True \<Longrightarrow> build_step st1 st2 q ok \<Longrightarrow> build_step st st2 (p @ q) ok"
  by (auto simp: build_step_def performs_then intro: quiet_trans quiet_fails)

lemma build_step_none:
  "cl_started st1 = cl_started st \<Longrightarrow> cl_messages st1 = cl_messages st \<Longrightarrow> plan \<noteq> [] \<Longrightarrow>
   build_step st (say (Failure ''Build failed'' msg) st1) plan False"
  by (simp add: build_step_def performs_none fails_say quiet_same)

lemma build_step_tool:
  assumes "run_ok sys args st1 = (ok, st2)" "cl_started st1 = cl_started st" "quiet st st1"
  shows "build_step st (say (if ok then Action a b else Failure ''Build failed'' msg) st2) [args] ok"
proof -
  have "performs st st2 [args] ok" using run_ok_performs [OF assms(1)] assms(2) by (simp add: performs_def)
  moreover have "quiet st st2" using quiet_trans [OF assms(3) quiet_same [OF run_ok_messages [OF assms(1)]]] .
  ultimately show ?thesis by (auto simp: build_step_def fails_say quiet_say intro: performs_same)
qed

lemma build_source_step:
  assumes "build_source sys cfg (source_of stem) st = (r, st')"
  shows "build_step st st' (stem_plan cfg stem) (r \<noteq> None) \<and> (\<forall>objects. r = Some objects \<longrightarrow> objects = stem_objects cfg stem)"
proof -
  let ?source = "source_of stem"
  let ?asm = "asm_path_of stem" and ?obj = "obj_path_of stem"
  let ?compile = "compile_args cfg ?source ?asm (stem \<noteq> ''main'')" and ?assemble = "assemble_args cfg ?asm ?obj"
  let ?long = "PATH_BUFFER_SIZE \<le> length (stem @ ''.slfr'')"
  note rel = relative_source_of [of stem]
  have plan: "stem_plan cfg stem \<noteq> []" by (simp add: stem_plan_def)
  define paths where "paths = (format_path PATH_BUFFER_SIZE asm_folder stem ''.asm'', format_path PATH_BUFFER_SIZE obj_folder stem ''.o'')"
  show ?thesis
  proof (cases "\<not> ?long \<and> paths = (Some ?asm, Some ?obj)")
    case False
    then have "\<exists>msg. r = None \<and> st' = say (Failure ''Build failed'' msg) st"
      using assms
      by (auto simp: build_source_def Let_def rel source_stem_append paths_def format_path_some asm_path_of_def obj_path_of_def
          split: if_splits option.splits)
    then show ?thesis using build_step_none [OF _ _ plan] by auto
  next
    case True
    obtain ok1 st1 where one: "call_system (create_parent_folders sys ?asm) st = (ok1, st1)" by fastforce
    obtain ok2 st2 where two: "(if ok1 then call_system (create_parent_folders sys ?obj) st1 else (False, st1)) = (ok2, st2)" by fastforce
    obtain ok3 st3 where three: "run_ok sys ?compile st2 = (ok3, st3)" by fastforce
    have same: "cl_started st2 = cl_started st" "cl_messages st2 = cl_messages st"
      using call_system_started [OF one] call_system_messages [OF one] two call_system_started [of _ st1] call_system_messages [of _ st1]
      by (auto split: if_splits)
    let ?say = "\<lambda>msg st. say (Failure ''Build failed'' msg) st"
    have run: "build_source sys cfg ?source st =
      (if \<not> ok2 then (None, ?say (''Failed to create build directories for '' @ quote ?source) st2)
       else if \<not> ok3 then (None, ?say (''Failed to compile '' @ quote ?source) st3)
       else (let st4 = say (Action ''Compiled'' (quote ?source @ '' -> '' @ quote ?asm)) st3
             in if pc_emit cfg = SF_EMIT_ASM then (Some [], st4)
                else (case run_ok sys ?assemble st4 of
                        (False, st5) \<Rightarrow> (None, ?say (''Failed to assemble '' @ quote ?asm) st5)
                      | (True, st5) \<Rightarrow> (Some [?obj], log_action ''Assembled'' (quote ?asm @ '' -> '' @ quote ?obj) st5))))"
      using True one two three
      by (simp add: build_source_def Let_def rel source_stem_append paths_def [symmetric] compile_file_def assemble_file_def entry_file_stem)
    show ?thesis
    proof (cases "ok2 \<and> ok3")
      case False
      note tool = build_step_tool [OF three same(1) quiet_same [OF same(2)]]
      show ?thesis
      proof (cases ok2)
        case True
        then have "build_step st st' [?compile] False" "r = None"
          using assms run False tool [of _ _ "''Failed to compile '' @ quote ?source"] by auto
        then show ?thesis using build_step_failed [of st st' "[?compile]"] by (simp add: stem_plan_def)
      qed (use assms run False build_step_none [OF same plan] in auto)
    next
      case True
      define st4 where "st4 = say (Action ''Compiled'' (quote ?source @ '' -> '' @ quote ?asm)) st3"
      have compiled: "build_step st st4 [?compile] True"
        using build_step_tool [OF three same(1) quiet_same [OF same(2)], of _ _ "[]"] True by (simp add: st4_def)
      show ?thesis
      proof (cases "pc_emit cfg = SF_EMIT_ASM")
        case False
        obtain ok5 st5 where five: "run_ok sys ?assemble st4 = (ok5, st5)" by fastforce
        note step = build_step_then [OF compiled build_step_tool [OF five refl quiet_same [OF refl]]]
        show ?thesis
          using assms run True False five [unfolded st4_def] step
          by (cases ok5) (auto simp: stem_plan_def stem_objects_def)
      qed (use assms run True compiled in \<open>auto simp: stem_plan_def stem_objects_def st4_def\<close>)
    qed
  qed
qed

lemma build_sources_step:
  "build_sources sys cfg (map source_of stems) st = (r, st') \<Longrightarrow>
   build_step st st' (concat (map (stem_plan cfg) stems)) (r \<noteq> None) \<and>
   (\<forall>objects. r = Some objects \<longrightarrow> objects = concat (map (stem_objects cfg) stems))"
proof (induction stems arbitrary: st r st')
  case (Cons stem stems)
  obtain r1 st1 where one: "build_source sys cfg (source_of stem) st = (r1, st1)" by fastforce
  note step = build_source_step [OF one]
  show ?case
  proof (cases r1)
    case None
    then show ?thesis using Cons.prems one step build_step_failed by auto
  next
    case (Some objects)
    obtain r2 st2 where two: "build_sources sys cfg (map source_of stems) st1 = (r2, st2)" by fastforce
    have "build_step st st2 (stem_plan cfg stem @ concat (map (stem_plan cfg) stems)) (r2 \<noteq> None)"
      using build_step_then step Cons.IH [OF two] Some by fastforce
    then show ?thesis using Cons.prems one two Some step Cons.IH [OF two] by (cases r2) auto
  qed
qed (simp add: build_step_def performs_def quiet_same)

lemma take_fits: "length (take n s) < n \<Longrightarrow> take n s = s"
  by (cases "length s \<le> n") simp_all

text \<open>The last step, which reports the end of the build.\<close>

definition last_step :: "'w cli_state \<Rightarrow> 'w cli_state \<Rightarrow> string list list \<Rightarrow> bool \<Rightarrow> bool" where
  "last_step st st' plan ok \<longleftrightarrow> performs st st' plan ok \<and> (if ok then succeeds st st' else fails st st')"

lemma last_step_tool:
  assumes "run_ok sys args st1 = (ok, st2)" "cl_started st1 = cl_started st" "cl_messages st1 = cl_messages st"
  shows "last_step st (if ok then say (Success ''Build done'' msg) (say (Action a b) st2) else say (Failure ''Build failed'' msg') st2) [args] ok"
proof -
  have "performs st st2 [args] ok" using run_ok_performs [OF assms(1)] assms(2) by (simp add: performs_def)
  moreover have "quiet st st2" using quiet_same run_ok_messages [OF assms(1)] assms(3) by metis
  ultimately show ?thesis
    by (auto simp: last_step_def fails_say succeeds_say quiet_say intro: performs_same)
qed

lemma last_step_after: "build_step st st1 p True \<Longrightarrow> last_step st1 st2 q ok \<Longrightarrow> last_step st st2 (p @ q) ok"
  by (auto simp: build_step_def last_step_def performs_then intro: quiet_fails quiet_succeeds)

lemma last_step_stopped: "build_step st st1 p False \<Longrightarrow> last_step st st1 (p @ q) False"
  by (simp add: build_step_def last_step_def performs_failed)

lemma last_step_none: "plan \<noteq> [] \<Longrightarrow> last_step st (say (Failure ''Build failed'' msg) st) plan False"
  by (simp add: last_step_def performs_none fails_say quiet_same)

lemma last_step_report: "last_step st (say (Success ''Build done'' msg) st) [] True"
  by (auto simp: last_step_def performs_def succeeds_def)

lemma build_output_step: "\<exists>ok. last_step st (build_output sys cfg objects st) (output_plan cfg objects) ok"
proof (cases "pc_emit cfg")
  case SF_EMIT_BIN
  show ?thesis
  proof (cases "format_path PATH_BUFFER_SIZE bin_folder (pc_name cfg) []")
    case None
    then show ?thesis using SF_EMIT_BIN last_step_none by (auto simp: build_output_def output_plan_def)
  next
    case (Some p)
    obtain ok st1 where run: "run_ok sys (link_args cfg objects p) st = (ok, st1)" by fastforce
    have "p = bin_folder @ ''/'' @ pc_name cfg" using Some by (simp add: format_path_some)
    with last_step_tool [OF run refl refl] show ?thesis
      using SF_EMIT_BIN Some run
      by (intro exI [of _ ok]) (cases ok; simp add: build_output_def output_plan_def link_files_def)
  qed
next
  case SF_EMIT_LIB
  let ?name = "snprintf_text PATH_BUFFER_SIZE (''lib'' @ pc_name cfg)"
  show ?thesis
  proof (cases "format_path PATH_BUFFER_SIZE lib_folder ?name ''.a''")
    case None
    then show ?thesis using SF_EMIT_LIB last_step_none by (auto simp: build_output_def output_plan_def)
  next
    case (Some p)
    then have "length ?name < PATH_BUFFER_SIZE - 1" by (auto simp: format_path_some)
    then have "?name = ''lib'' @ pc_name cfg" unfolding snprintf_text_def by (rule take_fits)
    then have p: "p = lib_folder @ ''/lib'' @ pc_name cfg @ ''.a''" using Some by (simp add: format_path_some)
    obtain b st1 where rm: "call_system (sy_remove sys p) st = (b, st1)" by fastforce
    obtain ok st2 where run: "run_ok sys (archive_args objects p) st1 = (ok, st2)" by fastforce
    have plan: "output_plan cfg objects = [archive_args objects p]" using SF_EMIT_LIB p by (simp add: output_plan_def)
    note last_step_tool [OF run call_system_started [OF rm] call_system_messages [OF rm]]
    then show ?thesis
      unfolding plan
      using SF_EMIT_LIB Some run rm
      by (intro exI [of _ ok]) (cases ok; simp add: build_output_def archive_files_def)
  qed
qed (use last_step_report in \<open>auto simp: build_output_def output_plan_def\<close>)

lemma sources_last_step:
  assumes built: "build_sources sys cfg (map source_of stems) st = (r, st1)"
  shows "\<exists>ok. last_step st (case r of None \<Rightarrow> st1 | Some objects \<Rightarrow> build_output sys cfg objects st1) (build_plan cfg stems) ok"
proof (cases r)
  case None
  then have "build_step st st1 (concat (map (stem_plan cfg) stems)) False" using build_sources_step [OF built] by simp
  from last_step_stopped [OF this] show ?thesis unfolding None build_plan_def by auto
next
  case (Some objects)
  then have "build_step st st1 (concat (map (stem_plan cfg) stems)) True" "objects = concat (map (stem_objects cfg) stems)"
    using build_sources_step [OF built] by simp_all
  moreover obtain ok where "last_step st1 (build_output sys cfg objects st1) (output_plan cfg objects) ok"
    using build_output_step by blast
  ultimately show ?thesis using last_step_after unfolding Some build_plan_def by fastforce
qed

lemma last_step_from:
  "cl_started st1 = cl_started st \<Longrightarrow> cl_messages st1 = cl_messages st \<Longrightarrow> last_step st1 st' p ok \<Longrightarrow> last_step st st' p ok"
  by (auto simp: last_step_def performs_def succeeds_def fails_def split: if_splits)

lemma project_failure_none: "project_failure r = None \<longleftrightarrow> r = SF_TOML_PARSE_RESULT_OK"
  by (cases r) simp_all

lemma create_folders_same:
  "create_build_folders sys folder st = (ok, st') \<Longrightarrow> cl_started st' = cl_started st \<and> cl_messages st' = cl_messages st"
  by (auto simp: create_build_folders_def call_system_def split: prod.splits bool.splits)

text \<open>The sources that a build finds have a stem.\<close>

lemma collected_sources:
  assumes "collect_slfr_files n sys w ''src'' [] = Some (ok, sources)"
  shows "\<exists>stems. sources = map source_of stems"
proof -
  have "\<forall>f \<in> set sources. \<exists>stem. f = source_of stem"
    using collected_below [OF assms] relative_below by (auto simp: source_of_def)
  then show ?thesis by (metis ex_map_conv)
qed

section \<open>Builds\<close>

text \<open>C10: A build follows its plan. The commands that \<^verbatim>\<open>sulfur build\<close> starts are, in order, those of the plan:
  for every source found the compiler, with \<^verbatim>\<open>--module\<close> for all but the entry file, and the
  assembler on its output, and at the end the linker or the archiver on all objects. Nothing is
  started after a command that fails, success is reported exactly when the whole plan was done,
  and a failure otherwise; nothing is started when the project cannot be read.\<close>

theorem build_follows_plan:
  assumes "command_build n sys st = Some st'"
  shows "\<exists>started. cl_started st' = cl_started st @ started \<and>
    ((started = [] \<and> fails st st') \<or>
     (\<exists>cfg stems. sf_toml_parse_project (sy_toml sys toml_path (cl_world st)) = (SF_TOML_PARSE_RESULT_OK, cfg) \<and>
        collect_slfr_files n sys (cl_world st) ''src'' [] = Some (True, map source_of stems) \<and>
        follows_plan (build_plan cfg stems) started \<and>
        (if started = all_done (build_plan cfg stems) then succeeds st st' else fails st st')))"
proof -
  obtain parsed cfg where project: "sf_toml_parse_project (sy_toml sys toml_path (cl_world st)) = (parsed, cfg)" by fastforce
  have early: ?thesis if "\<exists>msg st1. st' = build_failed msg st1 \<and> cl_started st1 = cl_started st \<and> cl_messages st1 = cl_messages st"
    using that by (auto intro!: fails_say quiet_same)
  show ?thesis
  proof (cases "project_failure parsed")
    case None
    then have parsed_ok: "parsed = SF_TOML_PARSE_RESULT_OK" by (simp add: project_failure_none)
    obtain found sources where collect: "collect_slfr_files n sys (cl_world st) ''src'' [] = Some (found, sources)"
      using assms None project by (auto simp: command_build_def split: option.splits)
    obtain stems where stems: "sources = map source_of stems" using collected_sources [OF collect] by blast
    define folder where "folder = (if pc_emit cfg = SF_EMIT_LIB then lib_folder else bin_folder)"
    obtain made st1 where folders: "create_build_folders sys folder st = (made, st1)" by fastforce
    note same = create_folders_same [OF folders]
    show ?thesis
    proof (cases "\<exists>msg st1. st' = build_failed msg st1 \<and> cl_started st1 = cl_started st \<and> cl_messages st1 = cl_messages st")
      case False
      obtain r st2 where built: "build_sources sys cfg (map source_of stems) st1 = (r, st2)" by fastforce
      have run: "found" "st' = (case r of None \<Rightarrow> st2 | Some objects \<Rightarrow> build_output sys cfg objects st2)"
        using assms None project collect folders [unfolded folder_def] same built False
        by (auto simp: command_build_def stems simp del: log_simps split: if_splits bool.splits option.splits)
      then obtain ok where "last_step st st' (build_plan cfg stems) ok"
        using sources_last_step [OF built] last_step_from same by metis
      then obtain started where "cl_started st' = cl_started st @ started" "follows_plan (build_plan cfg stems) started"
        "if started = all_done (build_plan cfg stems) then succeeds st st' else fails st st'"
        by (auto simp: last_step_def performs_def)
      then show ?thesis using project collect run(1) unfolding parsed_ok stems
        by (intro exI [of _ "started"] conjI disjI2 exI [of _ cfg] exI [of _ stems]) simp_all
    qed (rule early)
  next
    case (Some msg)
    then have "st' = build_failed msg st" using assms project by (simp add: command_build_def del: log_simps)
    then show ?thesis using early by blast
  qed
qed

definition demo_tree :: tree where
  "demo_tree = Folder [(''sulfur.toml'', Regular []), (''src'', Folder [(''main.slfr'', Regular []), (''io.slfr'', Regular [])])]"

definition demo_toml :: toml_table where
  "demo_toml key = (if key = ''project.name'' then TOML_STRING ''demo''
     else if key = ''build.slfr_flags'' then TOML_ARRAY [TOML_STRING ''-m src''] else TOML_UNKNOWN)"

definition demo_system :: "tree sf_system" where
  "demo_system = tree_system (\<lambda>args t. (Some (Exited 0), t)) (\<lambda>_. Some demo_toml)"

lemma build_demo: "map_option cl_started (command_build 3 demo_system \<lparr>cl_world = demo_tree, cl_started = [], cl_messages = []\<rparr>) =
  Some [([''sulfur-compiler'', ''-i'', ''src/main.slfr'', ''-o'', ''build/asm/main.asm'', ''-m'', ''src''], True),
        ([''nasm'', ''-f'', ''elf64'', ''build/asm/main.asm'', ''-o'', ''build/obj/main.o''], True),
        ([''sulfur-compiler'', ''-i'', ''src/io.slfr'', ''-o'', ''build/asm/io.asm'', ''-m'', ''src'', ''--module''], True),
        ([''nasm'', ''-f'', ''elf64'', ''build/asm/io.asm'', ''-o'', ''build/obj/io.o''], True),
        ([''ld'', ''build/obj/main.o'', ''build/obj/io.o'', ''-o'', ''build/bin/demo''], True)]"
  by code_simp

lemma build_follows_plan_witness:
  "\<exists>st' cfg stems. command_build 3 demo_system \<lparr>cl_world = demo_tree, cl_started = [], cl_messages = []\<rparr> = Some st' \<and>
     length (cl_started st') = 5 \<and> follows_plan (build_plan cfg stems) (cl_started st')"
proof -
  obtain st' where st': "command_build 3 demo_system \<lparr>cl_world = demo_tree, cl_started = [], cl_messages = []\<rparr> = Some st'"
    "length (cl_started st') = 5"
    using build_demo by auto
  from build_follows_plan [OF st'(1)] st'(2) obtain cfg stems where "follows_plan (build_plan cfg stems) (cl_started st')"
    by auto
  then show ?thesis using st' by blast
qed

section \<open>The command line of the compiler\<close>

text \<open>What the compiler makes of the options that a build gives it, where the tool and the compiler meet.\<close>

lemma args_push_list_words: "args_push_list args items = args @ concat (map (words_from []) items)"
  by (induction items arbitrary: args) (simp_all add: args_push_list_def args_push_words_def)

lemma parse_path_groups:
  assumes "\<forall>ds \<in> set groups. ds \<noteq> [] \<and> (\<forall>d \<in> set ds. \<not> is_flag d)" "rest = [] \<or> is_flag (hd rest)"
  shows "sf_flags_parse (concat (map (\<lambda>ds. FLAGS_MODULE_PATH # ds) groups) @ rest) options g =
    sf_flags_parse rest (options\<lparr>op_module_paths := op_module_paths options @ concat groups\<rparr>) g"
  using assms(1)
proof (induction groups arbitrary: options)
  case (Cons ds groups)
  let ?tail = "concat (map (\<lambda>ds. FLAGS_MODULE_PATH # ds) groups) @ rest"
  have "?tail = [] \<or> is_flag (hd ?tail)" using assms(2) by (cases groups) auto
  note paths = paths_until_flag [OF _ this, of ds]
  show ?case using Cons paths by (simp add: Let_def)
qed simp

lemma name_in_src: "''src'' \<in> set paths \<Longrightarrow> name_in_paths (''src/'' @ f) paths \<noteq> None"
proof (induction paths)
  case (Cons path paths)
  have "strip_slashes (drop_dot_slash ''src'') = ''src''" by (simp add: drop_dot_slash_def strip_slashes_id)
  then show ?case using Cons by (auto simp: Let_def)
qed simp

text \<open>C11: The compiler understands the build of a project whose flags name its module directories. When
  the words of \<^verbatim>\<open>slfr_flags\<close> are groups of \<^verbatim>\<open>-m\<close> and directories, \<^verbatim>\<open>src\<close> one of them, as in every new project, then for every source the compiler reads from the command line
  of the build exactly the input, the output and the directories, takes all but the entry file
  for modules, and accepts each of them as a module.\<close>

theorem build_flags_understood:
  assumes "concat (map (words_from []) (pc_slfr_flags cfg)) = concat (map (\<lambda>ds. FLAGS_MODULE_PATH # ds) groups)"
    "\<forall>ds \<in> set groups. ds \<noteq> [] \<and> (\<forall>d \<in> set ds. \<not> is_flag d)" "''src'' \<in> set (concat groups)"
  shows "main_options (tl (compile_args cfg (source_of stem) (asm_path_of stem) (stem \<noteq> ''main''))) =
    (Some \<lparr>op_file_input = source_of stem, op_file_output = asm_path_of stem, op_dump_stages = False,
           op_is_module = (stem \<noteq> ''main''), op_module_paths = concat groups @ [SF_STDLIB_DIR]\<rparr>, sf_log_init)"
proof -
  let ?rest = "if stem \<noteq> ''main'' then [FLAGS_MODULE] else []"
  have rest: "?rest = [] \<or> is_flag (hd ?rest)" by simp
  have plain: "\<not> is_flag (source_of stem)" "\<not> is_flag (asm_path_of stem)"
    by (simp_all add: is_flag_def source_of_def asm_path_of_def asm_folder_def)
  have args: "tl (compile_args cfg (source_of stem) (asm_path_of stem) (stem \<noteq> ''main'')) =
    FLAGS_INPUT_FILE # source_of stem # FLAGS_OUTPUT_FILE # asm_path_of stem #
      concat (map (\<lambda>ds. FLAGS_MODULE_PATH # ds) groups) @ ?rest"
    using assms(1) by (simp add: compile_args_def args_push_list_words args_push_def Let_def flag_defs)
  have parsed: "sf_flags_parse (tl (compile_args cfg (source_of stem) (asm_path_of stem) (stem \<noteq> ''main''))) default_options sf_log_init =
    (\<lparr>op_file_input = source_of stem, op_file_output = asm_path_of stem, op_dump_stages = False,
      op_is_module = (stem \<noteq> ''main''), op_module_paths = concat groups\<rparr>, sf_log_init)"
    unfolding args using plain parse_path_groups [OF assms(2) rest] by (auto simp: default_options_def)
  have "drop_dot_slash (source_of stem) = ''src/'' @ stem @ ''.slfr''" by (simp add: drop_dot_slash_def source_of_def)
  moreover have "''src'' \<in> set (concat groups @ [SF_STDLIB_DIR])" using assms(3) by auto
  ultimately have "sf_module_name_from_path (source_of stem) (concat groups @ [SF_STDLIB_DIR]) \<noteq> None"
    unfolding sf_module_name_from_path_def by (simp only: name_in_src not_False_eq_True)
  moreover have "\<not> sf_log_had_fatal sf_log_init" by (simp add: sf_log_had_fatal_def sf_log_init_def)
  ultimately show ?thesis by (simp add: main_options_def parsed include_stdlib_def Let_def)
qed

lemma build_flags_understood_witness:
  "main_options (tl (compile_args (empty_project\<lparr>pc_slfr_flags := [''-m src'']\<rparr>) (source_of ''lib/io'') (asm_path_of ''lib/io'') True)) =
     (Some \<lparr>op_file_input = ''src/lib/io.slfr'', op_file_output = ''build/asm/lib/io.asm'', op_dump_stages = False,
            op_is_module = True, op_module_paths = [''src'', SF_STDLIB_DIR]\<rparr>, sf_log_init)"
  using build_flags_understood [where cfg = "empty_project\<lparr>pc_slfr_flags := [''-m src'']\<rparr>" and groups = "[[''src'']]" and stem = "''lib/io''"]
  by (simp add: is_blank_def flag_defs is_flag_def source_of_def asm_path_of_def asm_folder_def)

end
