(* ===== verification/Spec2Isabelle.thy ===== *)
theory Spec2Isabelle
  imports Log_Text Lexer_Facts Arena Asm_Entry Call_Frame Compile_Facts Cli_Facts
begin

text \<open>
  Sulfur is a small imperative language; the repository holds its compiler to x86-64 assembly
  (\<^verbatim>\<open>src/compiler\<close>, C) and the command line tool that builds projects with it (\<^verbatim>\<open>src/cli\<close>, C). This
  development models both programs and proves what makes their parts correct and how the parts fit
  together, from the text of the files to the text of the assembly and to the commands of a build.

  \<^bold>\<open>The program.\<close> \<^verbatim>\<open>main\<close> (\<^verbatim>\<open>driver/main.c\<close>) reads the flags and runs the stages over one compilation: read
  the file, \<^verbatim>\<open>sf_preprocess\<close>, \<^verbatim>\<open>sf_tokenize\<close>, \<^verbatim>\<open>sf_parse\<close>, \<^verbatim>\<open>sf_module_resolve\<close>, \<^verbatim>\<open>sf_analyze\<close>, \<^verbatim>\<open>sf_ir_generate\<close>,
  \<^verbatim>\<open>sf_optimize\<close>, \<^verbatim>\<open>sf_generate_assembly\<close>, write the file. Errors are counted in the global log, and the driver
  stops after a stage that logged one. Modules that are imported go through the first four stages
  of their own and are analysed before their importers.

  \<^bold>\<open>The theories.\<close> Data are records and datatypes with the names of the source, stateful code returns the
  new state, and the log is a state passed through everything.

  \<^item> \<^verbatim>\<open>Prelude\<close>: source spans, decimal digits and \<^verbatim>\<open>strtoull\<close>, the lemmas that all parts share.
  \<^item> \<^verbatim>\<open>Log_State\<close>, \<^verbatim>\<open>Log_Text\<close> (\<^verbatim>\<open>utils/log.c\<close>): severities, codes, the counters and the records of the log; the text
    that \<^verbatim>\<open>sf_log_all\<close> prints with its colours and source snippets, against a plain description of it.
  \<^item> \<^verbatim>\<open>Type_Utils\<close>, \<^verbatim>\<open>Token_Utils\<close>: the value types with their widths and groups, the opcodes, the token types.
  \<^item> \<^verbatim>\<open>Preprocess\<close>, \<^verbatim>\<open>Lexer\<close>, \<^verbatim>\<open>Lexer_Facts\<close>: comments and carriage returns; the scanner with its buffer and
    position; the printing of lexemes is its inverse, it stops, and it reports what it cannot read.
  \<^item> \<^verbatim>\<open>C_String\<close>, \<^verbatim>\<open>Arena\<close>, \<^verbatim>\<open>Mangle\<close>: the growable buffer and the edit distance, the arena with the bytes of its
    chunks, the link names.
  \<^item> \<^verbatim>\<open>Ast\<close>, \<^verbatim>\<open>Parser_Core\<close>, \<^verbatim>\<open>Parser_Expr\<close>, \<^verbatim>\<open>Parser_Stmt\<close>, \<^verbatim>\<open>Parser_Facts\<close>, \<^verbatim>\<open>Parser_Raw\<close>: the tree and its printer, the
    recursive descent parser with its error recovery. Recursion is bounded by fuel that the entry
    functions compute from the number of tokens; \<^verbatim>\<open>Parser_Facts\<close> proves that it never runs out,
    \<^verbatim>\<open>Parser_Raw\<close> that what is parsed carries no annotation yet.
  \<^item> \<^verbatim>\<open>Symbol_Table\<close>, \<^verbatim>\<open>Scope\<close>: the tables of functions and variables, the stack of scopes with the saved and
    joined states of initialisation.
  \<^item> \<^verbatim>\<open>Const_Eval\<close>: the evaluators of constants on 64-bit words against arithmetic on integers.
  \<^item> \<^verbatim>\<open>Sem_Expr\<close>, \<^verbatim>\<open>Sem_Typing\<close>: the analysis of expressions and its typing rules.
  \<^item> \<^verbatim>\<open>Sem_Stmt\<close>, \<^verbatim>\<open>Sem_Flow\<close>, \<^verbatim>\<open>Sem_Stmt_Facts\<close>, \<^verbatim>\<open>Sem_Stmt_Typed\<close>: the analysis of statements and functions; the
    paths of a program (\<open>runs\<close>) and that accepted functions read no uninitialised variable on any; the
    invariant of the analysis; the typing of statements in environments (\<open>type_env\<close>) of the variables
    and functions that are in scope, with the environment after each statement.
  \<^item> \<^verbatim>\<open>Module_Resolve\<close>, \<^verbatim>\<open>Module_Facts\<close>, \<^verbatim>\<open>Sem_Module\<close>, \<^verbatim>\<open>Sem_Module_Facts\<close>: finding, loading and analysing modules in the order
    of their imports. The depth of the imports is bounded by fuel larger than the number of file
    names that the search can produce, which is proved to be enough, cycles included. \<open>program_typed\<close> types
    a program from the functions that its imports export.
  \<^item> \<^verbatim>\<open>Driver\<close>, \<^verbatim>\<open>Driver_Facts\<close>: the flags and the front end as a whole; \<^verbatim>\<open>Sample\<close> runs it on the texts of a program and
    of the module that it imports.
  \<^item> \<^verbatim>\<open>Ir\<close> (\<^verbatim>\<open>ir/ir.c\<close>): the lowering with its context of a function or of nothing, the external names, the
    printer. \<^verbatim>\<open>Ir_Code\<close> gives the code of every construct as a function without state and shows that
    the lowering computes it; \<^verbatim>\<open>Ir_Facts\<close> proves that labels and external names are right. \<^verbatim>\<open>Ir_Semantics\<close>
    runs expressions and straight code, \<^verbatim>\<open>Ir_Refine\<close> runs statements (\<open>executes\<close>) and whole functions
    (\<open>ir_run\<close>) and proves that the lowering keeps the results.
  \<^item> \<^verbatim>\<open>Stack\<close>, \<^verbatim>\<open>Stack_Facts\<close> (\<^verbatim>\<open>codegen/stack.c\<close>): the slots of the frame.
  \<^item> \<^verbatim>\<open>Codegen\<close>, \<^verbatim>\<open>Codegen_Facts\<close>, \<^verbatim>\<open>Call_Frame\<close>, \<^verbatim>\<open>Backend_Facts\<close> (\<^verbatim>\<open>codegen/codegen.c\<close>): the text of the assembly; \<^verbatim>\<open>None\<close> is a
    call of \<^verbatim>\<open>abort\<close>. Code whose operands have a size never aborts, calls keep the stack aligned, and
    the lowering of typed trees makes such code.
  \<^item> \<^verbatim>\<open>Asm\<close>: the instructions that the code generator writes, their text and what they do to registers and
    bytes. \<^verbatim>\<open>Asm_Code\<close> reads the text of every \<^verbatim>\<open>emit\<close> function as instructions, \<^verbatim>\<open>Asm_Exec\<close> computes what these
    store, \<^verbatim>\<open>Asm_Refine\<close> relates it to the operations on integers that wrap (\<open>machine_meaning\<close>),
    \<^verbatim>\<open>Asm_Flow\<close> adds labels and jumps, \<^verbatim>\<open>Asm_Entry\<close> the parameters and the theorem on functions.
  \<^item> \<^verbatim>\<open>Compile\<close>, \<^verbatim>\<open>Compile_Facts\<close>: \<^verbatim>\<open>compilation_run\<close> and \<^verbatim>\<open>main\<close>; the compiler from end to end.
  \<^item> \<^verbatim>\<open>Cli_Toml\<close>, \<^verbatim>\<open>Cli_File\<close>, \<^verbatim>\<open>Cli_Cmd\<close>, \<^verbatim>\<open>Cli_Main\<close> (\<^verbatim>\<open>src/cli\<close>): the project file, the files, the processes and the
    commands \<^verbatim>\<open>new\<close>, \<^verbatim>\<open>build\<close>, \<^verbatim>\<open>clean\<close>, \<^verbatim>\<open>run\<close>. \<^verbatim>\<open>Cli_Tree\<close> is a file system that is a tree and proves what the two
    traversals do on it; \<^verbatim>\<open>Cli_Facts\<close> proves what a build starts and that the compiler reads the
    options as the tool means them.

  \<^bold>\<open>Interfaces.\<close> Locales state what a part relies on, and are interpreted on the model itself: the contract
  of the parsers (\<^verbatim>\<open>Parser_Expr\<close>, \<^verbatim>\<open>Parser_Facts\<close>, \<^verbatim>\<open>Parser_Raw\<close>), of the analysis of expressions
  (\<^verbatim>\<open>Sem_Typing\<close>) and of statements (\<^verbatim>\<open>Sem_Stmt_Facts\<close>), the allocator of stack slots (\<^verbatim>\<open>Stack_Facts\<close>), the
  files of the system (\<^verbatim>\<open>Cli_Tree\<close>).

  \<^bold>\<open>Parameters.\<close> Reading files is a function \<open>fs\<close> from paths to contents, opening for writing a predicate,
  \<^verbatim>\<open>mkdir\<close> a function on a state; the calls of the tool are the record \<open>sf_system\<close>, the library \<^verbatim>\<open>tomlc17\<close>
  and the started processes are among its fields. Memory is available unless a definition has a
  parameter that says otherwise (\<open>alloc_ok\<close>, \<open>malloc_ok\<close>). The values of a running program and the effects of
  calls are the parameter \<open>M\<close> of \<^verbatim>\<open>Ir_Semantics\<close>: what the operators compute is the same for the source
  and for the intermediate code, so the refinement holds for every such meaning; \<^verbatim>\<open>Asm_Refine\<close> gives the one of the processor.

  \<^bold>\<open>Bounds.\<close> Lengths of files are below the maximum of \<^verbatim>\<open>size_t\<close> (\<open>small_files\<close>); a function of the last theorems
  has at most \<open>temp_limit\<close> temporaries, since a name of 16 characters holds 14 digits; buffers of
  fixed size cut texts as the source does (\<open>snprintf_text\<close>).

  \<^bold>\<open>Not modelled.\<close> The dump of the tokens, releasing memory, and \<^verbatim>\<open>sf_read_file\<close> beyond its result. The
  assembler and the linker are outside: the text of the assembly is the end of the model, and \<^verbatim>\<open>Asm\<close> says
  what the processor does with it, for the instructions of functions without calls, from the stores
  of the parameters on. Calls and the three instructions that set \<^verbatim>\<open>rbp\<close> and \<^verbatim>\<open>rsp\<close> have no meaning there, and the
  theorem asks that the operands of an operation have one type and that every operand has a slot
  (\<open>assemblable\<close>); \<^verbatim>\<open>Call_Frame\<close> shows only that calls keep the stack aligned. Addresses are not modelled
  outside the arena and the frame: strings and lists are values, which the program does not observe,
  since it shares them without changing them. The standard library of the language and the build
  files hold no C code.

  \<^bold>\<open>What the properties show.\<close> An accepted program is typed in the environment of its imports, has
  imports without a cycle, and its functions read no uninitialised variable if they have no nested
  functions and there are no other statements at the top level. It compiles without a crash when its
  global variables have no value and no operation is void. The intermediate code of a function
  computes what the function computes if no operand is changed by what is evaluated after it and
  destinations have the type of what is written to them, and so does the assembly if the
  function makes no calls and its operations have operands of one type. The theorems of kind \<^verbatim>\<open>error\<close> show on concrete programs
  where the code departs from this: nested functions, operands read late, shifts of void results,
  global variables with a value.
\<close>

end
